(* ===== verification/Notch_Prelude.thy ===== *)
theory Notch_Prelude
  imports
    Complex_Main
    "HOL-Library.AList"
    "HOL-Library.Char_ord"
    "HOL-Library.List_Lexorder"
    "HOL-Library.Product_Lexorder"
    "HOL-Library.Multiset"
begin

text \<open>
  Shared vocabulary of the development: the outcome of a Rust call (\<open>Ok\<close>, \<open>Err\<close> or a
  panic), the state-passing operations built from it and the calculus that propagates an
  invariant through them, fixed-width integer arithmetic, IEEE floats as far as the program
  observes them, UTF-8 strings as byte lists, and the standard collections (a \<open>HashMap\<close> as an
  association list whose iteration order is a parameter).
\<close>

named_theorems keeps_intros \<open>rules that push an invariant through an operation\<close>
named_theorems op_simps \<open>equations that run an operation one step\<close>

section \<open>Outcomes and state-passing operations\<close>

text \<open>
  A fallible Rust function returns \<open>Result\<close>; \<open>expect\<close> and \<open>unwrap\<close> may also panic. A mutation
  made before an early return with \<open>?\<close> stays in place, so an operation returns the state
  together with its outcome, whatever that is.
\<close>

datatype ('e, 'a) outcome = Ok 'a | Err 'e | Panic string

type_synonym ('s, 'e, 'a) op = "'s \<Rightarrow> ('e, 'a) outcome \<times> 's"

definition ret :: "'a \<Rightarrow> ('s, 'e, 'a) op" where
  "ret x s = (Ok x, s)"

definition throw :: "'e \<Rightarrow> ('s, 'e, 'a) op" where
  "throw e s = (Err e, s)"

definition panic :: "string \<Rightarrow> ('s, 'e, 'a) op" where
  "panic m s = (Panic m, s)"

definition lift :: "('e, 'a) outcome \<Rightarrow> ('s, 'e, 'a) op" where
  "lift r s = (r, s)"

definition gets :: "('s \<Rightarrow> 'a) \<Rightarrow> ('s, 'e, 'a) op" where
  "gets f s = (Ok (f s), s)"

definition modify :: "('s \<Rightarrow> 's) \<Rightarrow> ('s, 'e, unit) op" where
  "modify f s = (Ok (), f s)"

definition bind :: "('s, 'e, 'a) op \<Rightarrow> ('a \<Rightarrow> ('s, 'e, 'b) op) \<Rightarrow> ('s, 'e, 'b) op" where
  "bind m k s =
     (case m s of
        (Ok x, s') \<Rightarrow> k x s'
      | (Err e, s') \<Rightarrow> (Err e, s')
      | (Panic p, s') \<Rightarrow> (Panic p, s'))"

definition seq :: "('s, 'e, unit) op \<Rightarrow> ('s, 'e, 'b) op \<Rightarrow> ('s, 'e, 'b) op" where
  "seq m k = bind m (\<lambda>_. k)"

text \<open>\<open>for x in xs { f(x)?; }\<close>\<close>

primrec for_each :: "('x \<Rightarrow> ('s, 'e, unit) op) \<Rightarrow> 'x list \<Rightarrow> ('s, 'e, unit) op" where
  "for_each f [] = ret ()"
| "for_each f (x # xs) = seq (f x) (for_each f xs)"

text \<open>An operation on one field of a larger state.\<close>

definition zoom :: "('s \<Rightarrow> 't) \<Rightarrow> ('t \<Rightarrow> 's \<Rightarrow> 's) \<Rightarrow> ('t, 'e, 'a) op \<Rightarrow> ('s, 'e, 'a) op" where
  "zoom g p m s = (case m (g s) of (r, t) \<Rightarrow> (r, p t s))"

lemmas op_basic_defs = ret_def throw_def panic_def lift_def gets_def modify_def

lemma ret_run [op_simps]: "ret x s = (Ok x, s)"
  by (simp add: ret_def)

lemma throw_run [op_simps]: "throw e s = (Err e, s)"
  by (simp add: throw_def)

lemma panic_run [op_simps]: "panic p s = (Panic p, s)"
  by (simp add: panic_def)

lemma lift_run [op_simps]: "lift r s = (r, s)"
  by (simp add: lift_def)

lemma gets_run [op_simps]: "gets f s = (Ok (f s), s)"
  by (simp add: gets_def)

lemma modify_run [op_simps]: "modify f s = (Ok (), f s)"
  by (simp add: modify_def)

lemma bind_Ok [op_simps]: "m s = (Ok x, s') \<Longrightarrow> bind m k s = k x s'"
  and bind_Err [op_simps]: "m s = (Err e, s') \<Longrightarrow> bind m k s = (Err e, s')"
  and bind_Panic [op_simps]: "m s = (Panic p, s') \<Longrightarrow> bind m k s = (Panic p, s')"
  by (simp_all add: bind_def)

lemma seq_Ok [op_simps]: "m s = (Ok (), s') \<Longrightarrow> seq m k s = k s'"
  and seq_Err [op_simps]: "m s = (Err e, s') \<Longrightarrow> seq m k s = (Err e, s')"
  and seq_Panic [op_simps]: "m s = (Panic p, s') \<Longrightarrow> seq m k s = (Panic p, s')"
  by (simp_all add: seq_def bind_def)

text \<open>Inversion of a run that succeeded: every step of it did.\<close>

lemma bind_OkE:
  assumes "bind m k s = (Ok y, t)"
  obtains x u where "m s = (Ok x, u)" and "k x u = (Ok y, t)"
  using assms by (auto simp: bind_def split: prod.splits outcome.splits)

lemma seq_OkE:
  assumes "seq m k s = (Ok y, t)"
  obtains u where "m s = (Ok (), u)" and "k u = (Ok y, t)"
  using assms by (auto simp: seq_def elim: bind_OkE)

lemma lift_OkE:
  assumes "lift r s = (Ok y, t)"
  obtains "r = Ok y" and "t = s"
  using assms by (auto simp: lift_def)

section \<open>Invariants through operations\<close>

text \<open>
  \<open>keeps P m\<close>: \<open>m\<close> preserves \<open>P\<close> whatever its outcome, early returns included.
  \<open>calm P m\<close>: from a state with \<open>P\<close>, \<open>m\<close> does not panic.
\<close>

definition keeps :: "('s \<Rightarrow> bool) \<Rightarrow> ('s, 'e, 'a) op \<Rightarrow> bool" where
  "keeps P m \<longleftrightarrow> (\<forall>s. P s \<longrightarrow> P (snd (m s)))"

definition calm :: "('s \<Rightarrow> bool) \<Rightarrow> ('s, 'e, 'a) op \<Rightarrow> bool" where
  "calm P m \<longleftrightarrow> (\<forall>s p. P s \<longrightarrow> fst (m s) \<noteq> Panic p)"

lemma keepsI: "(\<And>s. P s \<Longrightarrow> P (snd (m s))) \<Longrightarrow> keeps P m"
  by (simp add: keeps_def)

lemma keepsD: "keeps P m \<Longrightarrow> P s \<Longrightarrow> P (snd (m s))"
  by (simp add: keeps_def)

lemma keepsD_run: "keeps P m \<Longrightarrow> m s = (r, t) \<Longrightarrow> P s \<Longrightarrow> P t"
  by (metis keepsD snd_conv)

lemma keeps_ret [keeps_intros]: "keeps P (ret x)"
  by (simp add: keeps_def ret_def)

lemma keeps_throw [keeps_intros]: "keeps P (throw e)"
  by (simp add: keeps_def throw_def)

lemma keeps_panic [keeps_intros]: "keeps P (panic p)"
  by (simp add: keeps_def panic_def)

lemma keeps_lift [keeps_intros]: "keeps P (lift r)"
  by (simp add: keeps_def lift_def)

lemma keeps_gets [keeps_intros]: "keeps P (gets f)"
  by (simp add: keeps_def gets_def)

lemma keeps_modify: "(\<And>s. P s \<Longrightarrow> P (f s)) \<Longrightarrow> keeps P (modify f)"
  by (simp add: keeps_def modify_def)

lemma keeps_bind [keeps_intros]:
  "keeps P m \<Longrightarrow> (\<And>x. keeps P (k x)) \<Longrightarrow> keeps P (bind m k)"
  unfolding keeps_def bind_def
  by (auto split: prod.splits outcome.splits; metis snd_conv)

lemma keeps_seq [keeps_intros]: "keeps P m \<Longrightarrow> keeps P k \<Longrightarrow> keeps P (seq m k)"
  by (simp add: seq_def keeps_bind)

lemma keeps_if [keeps_intros]:
  "(b \<Longrightarrow> keeps P m) \<Longrightarrow> (\<not> b \<Longrightarrow> keeps P k) \<Longrightarrow> keeps P (if b then m else k)"
  by simp

lemma keeps_case_option [keeps_intros]:
  "(x = None \<Longrightarrow> keeps P m) \<Longrightarrow> (\<And>y. x = Some y \<Longrightarrow> keeps P (k y)) \<Longrightarrow>
   keeps P (case x of None \<Rightarrow> m | Some y \<Rightarrow> k y)"
  by (cases x) auto

lemma keeps_for_each [keeps_intros]: "(\<And>x. keeps P (f x)) \<Longrightarrow> keeps P (for_each f xs)"
  by (induction xs) (auto intro: keeps_intros)

lemma keeps_zoom:
  "(\<And>s t. P s \<Longrightarrow> P (p t s)) \<Longrightarrow> keeps P (zoom g p m)"
  by (simp add: keeps_def zoom_def split: prod.splits)

lemma keeps_conj: "keeps P m \<Longrightarrow> keeps Q m \<Longrightarrow> keeps (\<lambda>s. P s \<and> Q s) m"
  by (simp add: keeps_def)

lemma calmI: "(\<And>s p. P s \<Longrightarrow> fst (m s) \<noteq> Panic p) \<Longrightarrow> calm P m"
  by (simp add: calm_def)

lemma calm_bind:
  assumes "calm P m" and "keeps P m" and "\<And>x. calm P (k x)"
  shows "calm P (bind m k)"
  using assms unfolding calm_def keeps_def bind_def
  by (auto split: prod.splits outcome.splits; metis fst_conv snd_conv)

lemma calm_basic: "calm P (ret x)" "calm P (throw e)" "calm P (gets f)" "calm P (modify g)"
  by (simp_all add: calm_def op_basic_defs)

section \<open>Machine integers\<close>

text \<open>
  \<open>i64\<close> and \<open>u64\<close> values are \<open>int\<close> and \<open>nat\<close>; the width appears where the code can reach it:
  plain arithmetic wraps (release profile), the \<open>saturating_\<close> operations clamp.
\<close>

definition wrap_i64 :: "int \<Rightarrow> int" where
  "wrap_i64 x = (x + 2 ^ 63) mod 2 ^ 64 - 2 ^ 63"

definition sat_i64 :: "int \<Rightarrow> int" where
  "sat_i64 x = max (- (2 ^ 63)) (min (2 ^ 63 - 1) x)"

definition in_i64 :: "int \<Rightarrow> bool" where
  "in_i64 x \<longleftrightarrow> - (2 ^ 63) \<le> x \<and> x < 2 ^ 63"

definition i64_saturating_sub :: "int \<Rightarrow> int \<Rightarrow> int" where
  "i64_saturating_sub a b = sat_i64 (a - b)"

definition i64_saturating_mul :: "int \<Rightarrow> int \<Rightarrow> int" where
  "i64_saturating_mul a b = sat_i64 (a * b)"

definition wrap_u64 :: "nat \<Rightarrow> nat" where
  "wrap_u64 n = n mod 2 ^ 64"

definition wrap_u32 :: "nat \<Rightarrow> nat" where
  "wrap_u32 n = n mod 2 ^ 32"

text \<open>\<open>v as i64\<close> of a \<open>u64\<close>, and \<open>v as u64\<close> of an \<open>i64\<close>.\<close>

definition u64_as_i64 :: "nat \<Rightarrow> int" where
  "u64_as_i64 n = wrap_i64 (int n)"

definition i64_as_u64 :: "int \<Rightarrow> nat" where
  "i64_as_u64 x = nat (x mod 2 ^ 64)"

lemma wrap_i64_id [simp]: "in_i64 x \<Longrightarrow> wrap_i64 x = x"
  by (simp add: wrap_i64_def in_i64_def)

lemma in_i64_wrap [simp]: "in_i64 (wrap_i64 x)"
proof -
  have "0 \<le> (x + 2 ^ 63) mod 2 ^ 64" "(x + 2 ^ 63) mod 2 ^ 64 < 2 ^ 64"
    by simp_all
  then show ?thesis
    unfolding wrap_i64_def in_i64_def by simp
qed

lemma in_i64_sat [simp]: "in_i64 (sat_i64 x)"
  by (simp add: in_i64_def sat_i64_def)

lemma sat_i64_ge_iff: "c < 2 ^ 63 \<Longrightarrow> - (2 ^ 63) < c \<Longrightarrow> c \<le> sat_i64 x \<longleftrightarrow> c \<le> x"
  unfolding sat_i64_def by linarith

lemma sat_i64_id [simp]: "in_i64 x \<Longrightarrow> sat_i64 x = x"
  by (auto simp: in_i64_def sat_i64_def)

lemma wrap_u64_id [simp]: "n < 2 ^ 64 \<Longrightarrow> wrap_u64 n = n"
  by (simp add: wrap_u64_def)

lemma wrap_u64_less [simp]: "wrap_u64 n < 2 ^ 64"
  by (simp add: wrap_u64_def)

lemma wrap_u32_less [simp]: "wrap_u32 n < 2 ^ 32"
  by (simp add: wrap_u32_def)

lemma i64_as_u64_inverse: "n < 2 ^ 64 \<Longrightarrow> i64_as_u64 (u64_as_i64 n) = n"
proof -
  assume n: "n < 2 ^ 64"
  have "(wrap_i64 (int n)) mod 2 ^ 64 = int n mod 2 ^ 64"
    unfolding wrap_i64_def
    by (metis add_diff_cancel mod_diff_left_eq)
  moreover have "int n mod 2 ^ 64 = int n"
    using n by (intro mod_pos_pos_trivial) (simp_all add: zless_nat_eq_int_zless)
  ultimately show ?thesis
    by (simp add: i64_as_u64_def u64_as_i64_def)
qed

section \<open>Floats\<close>

text \<open>
  \<open>f64\<close> and \<open>f32\<close> values as far as the program looks at them: it stores them, copies them and
  compares them; a comparison with NaN is false. The two zeros are one value here.
\<close>

datatype ieee = NaN | NegInf | PosInf | Fin rat

type_synonym f64 = ieee
type_synonym f32 = ieee

fun f64_ge :: "f64 \<Rightarrow> rat \<Rightarrow> bool" where
  "f64_ge NaN c = False"
| "f64_ge NegInf c = False"
| "f64_ge PosInf c = True"
| "f64_ge (Fin x) c = (c \<le> x)"

lemma f64_ge_mono: "f64_ge x c \<Longrightarrow> d \<le> c \<Longrightarrow> f64_ge x d"
  by (cases x) auto

section \<open>Strings\<close>

text \<open>
  A Rust \<open>str\<close> is its UTF-8 bytes, one \<open>char\<close> each, so \<open>length\<close> is \<open>str::len\<close>. A byte
  \<open>10xxxxxx\<close> continues the character before it.
\<close>

definition utf8_cont :: "char \<Rightarrow> bool" where
  "utf8_cont c \<longleftrightarrow> of_char c div (64 :: nat) = 2"

text \<open>\<open>s.chars().take(n).collect()\<close>: the bytes before the \<open>n+1\<close>-st character starts.\<close>

fun take_chars :: "nat \<Rightarrow> string \<Rightarrow> string" where
  "take_chars n [] = []"
| "take_chars n (c # cs) =
     (if utf8_cont c then c # take_chars n cs
      else (case n of 0 \<Rightarrow> [] | Suc m \<Rightarrow> c # take_chars m cs))"

definition char_count :: "string \<Rightarrow> nat" where
  "char_count s = length (filter (\<lambda>c. \<not> utf8_cont c) s)"

lemma char_count_take_chars: "char_count (take_chars n s) \<le> n"
  by (induction n s rule: take_chars.induct) (auto simp: char_count_def split: nat.splits)

lemma take_chars_short: "char_count s \<le> n \<Longrightarrow> take_chars n s = s"
  by (induction n s rule: take_chars.induct)
    (auto simp: char_count_def split: nat.splits if_splits)

lemma char_count_le_length: "char_count s \<le> length s"
  by (simp add: char_count_def)

lemma take_chars_prefix: "\<exists>t. s = take_chars n s @ t"
  by (induction n s rule: take_chars.induct) (auto split: nat.splits)

text \<open>\<open>format!("{n}")\<close> of an unsigned integer.\<close>

fun dec_string :: "nat \<Rightarrow> string" where
  "dec_string n =
     (if n < 10 then [char_of (48 + n)] else dec_string (n div 10) @ [char_of (48 + n mod 10)])"

declare dec_string.simps [simp del]

text \<open>\<open>format!("{x:016x}")\<close>\<close>

definition hex_digit :: "nat \<Rightarrow> char" where
  "hex_digit d = char_of (if d < 10 then 48 + d else 87 + d)"

primrec hex_digits :: "nat \<Rightarrow> nat \<Rightarrow> string" where
  "hex_digits 0 n = []"
| "hex_digits (Suc k) n = hex_digits k (n div 16) @ [hex_digit (n mod 16)]"

definition hex16 :: "nat \<Rightarrow> string" where
  "hex16 n = hex_digits 16 n"

lemma length_hex16 [simp]: "length (hex16 n) = 16"
proof -
  have "length (hex_digits k m) = k" for k m
    by (induction k arbitrary: m) simp_all
  then show ?thesis by (simp add: hex16_def)
qed

lemma hex_digit_inj: "d < 16 \<Longrightarrow> e < 16 \<Longrightarrow> hex_digit d = hex_digit e \<Longrightarrow> d = e"
  by (auto simp: hex_digit_def take_bit_eq_mod split: if_splits
      dest!: arg_cong [where f = "of_char :: char \<Rightarrow> nat"])

lemma hex_digits_inj:
  "n < 16 ^ k \<Longrightarrow> m < 16 ^ k \<Longrightarrow> hex_digits k n = hex_digits k m \<Longrightarrow> n = m"
proof (induction k arbitrary: n m)
  case 0
  then show ?case by simp
next
  case (Suc k)
  from Suc.prems have "n div 16 < 16 ^ k" "m div 16 < 16 ^ k"
    by (simp_all add: less_mult_imp_div_less mult.commute)
  with Suc have "n div 16 = m div 16" by simp
  moreover have "n mod 16 = m mod 16"
    using Suc.prems(3) hex_digit_inj [of "n mod 16" "m mod 16"] by simp
  ultimately show ?case by (metis div_mult_mod_eq)
qed

lemma hex16_inj: "n < 2 ^ 64 \<Longrightarrow> m < 2 ^ 64 \<Longrightarrow> hex16 n = hex16 m \<Longrightarrow> n = m"
  unfolding hex16_def by (rule hex_digits_inj [of _ 16]) simp_all

section \<open>Collections\<close>

declare map_of_eq_Some_iff [simp del] Some_eq_map_of_iff [simp del]

text \<open>
  A \<open>HashMap<String, V>\<close> is an association list with distinct keys. The order in which a
  \<open>HashMap\<close> yields its entries is not specified; it is a parameter \<open>ord\<close> that rearranges the
  keys. \<open>iteration_order ord\<close> says that it yields each key once.
\<close>

type_synonym 'v hash_map = "(string \<times> 'v) list"

definition iteration_order :: "(string list \<Rightarrow> string list) \<Rightarrow> bool" where
  "iteration_order ord \<longleftrightarrow> (\<forall>ks. mset (ord ks) = mset ks)"

definition hm_values :: "(string list \<Rightarrow> string list) \<Rightarrow> 'v hash_map \<Rightarrow> 'v list" where
  "hm_values ord m = List.map_filter (map_of m) (ord (map fst m))"

abbreviation hm_wf :: "'v hash_map \<Rightarrow> bool" where
  "hm_wf m \<equiv> distinct (map fst m)"

lemma map_of_AList_update [simp]: "map_of (AList.update k v m) = (map_of m)(k \<mapsto> v)"
  by (rule AList.update_conv')

lemma map_of_AList_delete [simp]: "map_of (AList.delete k m) = (map_of m)(k := None)"
  by (rule AList.delete_conv')

lemma hm_wf_update [simp]: "hm_wf m \<Longrightarrow> hm_wf (AList.update k v m)"
  by (rule AList.distinct_update)

lemma hm_wf_delete [simp]: "hm_wf m \<Longrightarrow> hm_wf (AList.delete k m)"
  by (rule AList.distinct_delete)

lemma length_AList_update:
  "length (AList.update k v m) = (if k \<in> fst ` set m then length m else Suc (length m))"
  by (induction m) auto

lemma length_AList_delete_le: "length (AList.delete k m) \<le> length m"
  by (simp add: AList.length_delete_le)

lemma length_AList_delete_less:
  "k \<in> fst ` set m \<Longrightarrow> length (AList.delete k m) < length m"
proof (induction m)
  case (Cons p m)
  then show ?case
    using length_AList_delete_le [of k m] by (cases p) auto
qed simp

lemma map_of_Some_key: "map_of m k = Some v \<Longrightarrow> k \<in> fst ` set m"
  by (metis domI dom_map_of_conv_image_fst)

lemma map_filter_map_of: "hm_wf m \<Longrightarrow> List.map_filter (map_of m) (map fst m) = map snd m"
proof -
  assume wf: "hm_wf m"
  then have look: "\<And>p. p \<in> set m \<Longrightarrow> map_of m (fst p) = Some (snd p)"
    by (simp add: map_of_eq_Some_iff)
  then have "filter (\<lambda>k. map_of m k \<noteq> None) (map fst m) = map fst m"
    by (auto simp: filter_id_conv)
  with look show ?thesis
    unfolding List.map_filter_def by (auto intro!: map_cong)
qed

lemma mset_map_filter_perm:
  "mset xs = mset ys \<Longrightarrow> mset (List.map_filter f xs) = mset (List.map_filter f ys)"
  by (simp add: List.map_filter_def mset_filter)

lemma mset_hm_values:
  assumes "iteration_order ord" and "hm_wf m"
  shows "mset (hm_values ord m) = mset (map snd m)"
  unfolding hm_values_def
  using assms(1) mset_map_filter_perm [of "ord (map fst m)" "map fst m" "map_of m"]
  by (simp only: iteration_order_def map_filter_map_of [OF assms(2)])

lemma set_hm_values:
  assumes "iteration_order ord" and "hm_wf m"
  shows "set (hm_values ord m) = snd ` set m"
  using mset_eq_setD [OF mset_hm_values [OF assms]] by simp

lemma option_eqI:
  assumes "\<And>w. a = Some w \<longleftrightarrow> b = Some w"
  shows "a = b"
  using assms by (metis option.exhaust)

text \<open>\<open>Iterator::min_by_key\<close> returns the first of several minimal elements.\<close>

fun min_by_key :: "('a \<Rightarrow> 'k :: linorder) \<Rightarrow> 'a list \<Rightarrow> 'a option" where
  "min_by_key f [] = None"
| "min_by_key f (x # xs) =
     (case min_by_key f xs of
        None \<Rightarrow> Some x
      | Some y \<Rightarrow> Some (if f x \<le> f y then x else y))"

lemma min_by_key_None [simp]: "min_by_key f xs = None \<longleftrightarrow> xs = []"
  by (cases xs) (auto split: option.splits)

lemma min_by_key_Some:
  "min_by_key f xs = Some x \<Longrightarrow> x \<in> set xs \<and> (\<forall>y\<in>set xs. f x \<le> f y)"
  by (induction xs arbitrary: x) (fastforce split: option.splits if_splits)+

text \<open>\<open>Vec::drain(0..overflow)\<close> down to \<open>n\<close> elements: the newest \<open>n\<close> remain.\<close>

definition keep_last :: "nat \<Rightarrow> 'a list \<Rightarrow> 'a list" where
  "keep_last n xs = drop (length xs - n) xs"

lemma length_keep_last [simp]: "length (keep_last n xs) = min n (length xs)"
  by (simp add: keep_last_def)

lemma keep_last_short: "length xs \<le> n \<Longrightarrow> keep_last n xs = xs"
  by (simp add: keep_last_def)

lemma set_keep_last: "set (keep_last n xs) \<subseteq> set xs"
  by (simp add: keep_last_def set_drop_subset)

lemma keep_last_suffix: "\<exists>ys. xs = ys @ keep_last n xs"
  unfolding keep_last_def by (metis append_take_drop_id)

lemma last_keep_last: "xs \<noteq> [] \<Longrightarrow> 0 < n \<Longrightarrow> last (keep_last n xs) = last xs"
  by (simp add: keep_last_def last_drop)

lemma sorted_wrt_keep_last: "sorted_wrt P xs \<Longrightarrow> sorted_wrt P (keep_last n xs)"
  by (simp add: keep_last_def sorted_wrt_drop)

lemma successively_keep_last: "successively P xs \<Longrightarrow> successively P (keep_last n xs)"
  by (metis keep_last_suffix successively_append_iff)

lemma keep_last_snoc:
  assumes "0 < n"
  shows "keep_last n (keep_last n xs @ [x]) = keep_last n (xs @ [x])"
proof (cases "length xs \<le> n")
  case True
  then show ?thesis by (simp add: keep_last_short)
next
  case False
  then have "length xs - n + 1 = Suc (length xs) - n" by simp
  with False assms show ?thesis by (simp add: keep_last_def drop_drop)
qed

end
