(* ===== verification/Protocol_Types.thy ===== *)
theory Protocol_Types
  imports Notch_Prelude
begin

text \<open>
  The wire contracts of \<^verbatim>\<open>crates/notch-protocol\<close>: limits (\<^verbatim>\<open>constants.rs\<close>), the session,
  metric, settings and stream records (\<^verbatim>\<open>types.rs\<close>) and the decision records
  (\<^verbatim>\<open>decision.rs\<close>). A struct is a record whose fields carry a short prefix, an enum is a
  datatype. Timestamps (\<open>i64\<close>) are \<open>int\<close>, unsigned counters are \<open>nat\<close>, a \<open>Uuid\<close> is the number it
  denotes. The \<open>debug_\<close> functions are the derived \<open>Debug\<close> texts that serve as keys and columns.
\<close>

section \<open>Limits\<close>

definition PROTOCOL_VERSION :: nat where "PROTOCOL_VERSION = 1"
definition MAX_SESSION_ID_LEN :: nat where "MAX_SESSION_ID_LEN = 64"
definition MAX_EXTERNAL_SESSION_ID_LEN :: nat where "MAX_EXTERNAL_SESSION_ID_LEN = 256"
definition MAX_SESSION_LABEL_LEN :: nat where "MAX_SESSION_LABEL_LEN = 256"
definition MAX_WORKSPACE_LABEL_LEN :: nat where "MAX_WORKSPACE_LABEL_LEN = 256"
definition MAX_EVENT_SUMMARY_LEN :: nat where "MAX_EVENT_SUMMARY_LEN = 512"
definition MAX_TOOL_NAME_LEN :: nat where "MAX_TOOL_NAME_LEN = 128"
definition MAX_METRIC_REASON_LEN :: nat where "MAX_METRIC_REASON_LEN = 512"
definition MAX_SNAPSHOT_SESSIONS :: nat where "MAX_SNAPSHOT_SESSIONS = 128"
definition MAX_DECISION_SUMMARY_LEN :: nat where "MAX_DECISION_SUMMARY_LEN = 512"
definition DECISION_FAIL_OPEN_TIMEOUT_MS :: nat where "DECISION_FAIL_OPEN_TIMEOUT_MS = 120000"
definition DECISION_HOOK_NEUTRAL_OUTPUT :: string where "DECISION_HOOK_NEUTRAL_OUTPUT = ''{}''"

lemmas protocol_limits =
  MAX_SESSION_ID_LEN_def MAX_EXTERNAL_SESSION_ID_LEN_def MAX_SESSION_LABEL_LEN_def
  MAX_WORKSPACE_LABEL_LEN_def MAX_EVENT_SUMMARY_LEN_def MAX_TOOL_NAME_LEN_def
  MAX_METRIC_REASON_LEN_def MAX_SNAPSHOT_SESSIONS_def MAX_DECISION_SUMMARY_LEN_def

section \<open>Enumerations\<close>

datatype agent_source =
    Cursor | ClaudeCode | Codex | Gemini | AntigravityCli | CopilotCli | Qwen | Generic
  | UnknownSource

datatype session_status = Starting | Running | Waiting | Paused | Completed | Failed | Stale

datatype attention_kind =
  AttentionNone | AttentionApproval | AttentionQuestion | AttentionPermission | AttentionError

datatype attribution_quality = Exact | Shared | Heuristic | UnknownAttribution

datatype metric_availability = Available | WarmingUp | Unavailable

datatype io_quality = IoDisk | IoAllIo | IoPartial | IoUnavailable

datatype session_event_kind = KindLifecycle | KindTool | KindAttention | KindStatus

datatype event_level = LevelDebug | LevelInfo | LevelWarning | LevelError

datatype attention_capability = CapFull | CapPartial | CapNone

datatype context_open_tier = TierNone | AppActivate | WindowFocus | ExactPane

fun debug_source :: "agent_source \<Rightarrow> string" where
  "debug_source Cursor = ''Cursor''"
| "debug_source ClaudeCode = ''ClaudeCode''"
| "debug_source Codex = ''Codex''"
| "debug_source Gemini = ''Gemini''"
| "debug_source AntigravityCli = ''AntigravityCli''"
| "debug_source CopilotCli = ''CopilotCli''"
| "debug_source Qwen = ''Qwen''"
| "debug_source Generic = ''Generic''"
| "debug_source UnknownSource = ''Unknown''"

fun debug_status :: "session_status \<Rightarrow> string" where
  "debug_status Starting = ''Starting''"
| "debug_status Running = ''Running''"
| "debug_status Waiting = ''Waiting''"
| "debug_status Paused = ''Paused''"
| "debug_status Completed = ''Completed''"
| "debug_status Failed = ''Failed''"
| "debug_status Stale = ''Stale''"

fun debug_attention :: "attention_kind \<Rightarrow> string" where
  "debug_attention AttentionNone = ''None''"
| "debug_attention AttentionApproval = ''Approval''"
| "debug_attention AttentionQuestion = ''Question''"
| "debug_attention AttentionPermission = ''Permission''"
| "debug_attention AttentionError = ''Error''"

fun debug_event_kind :: "session_event_kind \<Rightarrow> string" where
  "debug_event_kind KindLifecycle = ''Lifecycle''"
| "debug_event_kind KindTool = ''Tool''"
| "debug_event_kind KindAttention = ''Attention''"
| "debug_event_kind KindStatus = ''Status''"

fun debug_event_level :: "event_level \<Rightarrow> string" where
  "debug_event_level LevelDebug = ''Debug''"
| "debug_event_level LevelInfo = ''Info''"
| "debug_event_level LevelWarning = ''Warning''"
| "debug_event_level LevelError = ''Error''"

lemma debug_source_inj: "debug_source a = debug_source b \<longleftrightarrow> a = b"
  by (cases a; cases b) simp_all

lemma debug_source_no_colon: "CHR '':'' \<notin> set (debug_source a)"
  by (cases a) simp_all

section \<open>Sessions, events and metrics\<close>

record process_identity =
  pid :: nat
  pid_started_at_ms :: int

record verified_terminal_context =
  vt_terminal_session_id :: "string option"
  vt_tab_id :: "string option"
  vt_pane_id :: "string option"
  vt_window_handle :: "nat option"

record metric_quality =
  q_attribution :: attribution_quality
  q_cpu :: metric_availability
  q_io :: io_quality
  q_reason :: "string option"

record metric_sample =
  ms_at_ms :: int
  ms_cpu_core_percent :: f64
  ms_cpu_host_percent :: f64
  ms_rss_bytes :: nat
  ms_runtime_ms :: nat
  ms_process_count :: nat
  ms_read_bytes_per_sec :: nat
  ms_write_bytes_per_sec :: nat
  ms_quality :: metric_quality

record host_metric_sample =
  hs_at_ms :: int
  hs_cpu_host_percent :: f64
  hs_used_memory_bytes :: nat
  hs_total_memory_bytes :: nat
  hs_visible_process_count :: nat
  hs_disk_read_bytes_per_sec :: nat
  hs_disk_write_bytes_per_sec :: nat

record agent_aggregate =
  ag_at_ms :: int
  ag_cpu_core_percent :: f64
  ag_cpu_host_percent :: f64
  ag_rss_bytes :: nat
  ag_runtime_ms :: nat
  ag_process_count :: nat
  ag_read_bytes_per_sec :: nat
  ag_write_bytes_per_sec :: nat
  ag_quality :: metric_quality
  ag_active_sessions :: nat
  ag_attention_sessions :: nat

record agent_session =
  s_id :: string
  s_source :: agent_source
  s_external_session_id :: string
  s_label :: string
  s_workspace_label :: "string option"
  s_status :: session_status
  s_attention :: attention_kind
  s_started_at_ms :: int
  s_last_event_at_ms :: int
  s_ended_at_ms :: "int option"
  s_process_root :: "process_identity option"
  s_verified_terminal :: "verified_terminal_context option"
  s_latest_metric :: "metric_sample option"

record session_event =
  e_id :: nat
  e_session_id :: string
  e_sequence :: nat
  e_occurred_at_ms :: int
  e_kind :: session_event_kind
  e_level :: event_level
  e_summary :: string
  e_tool_name :: "string option"

record metrics_frame =
  mf_host :: host_metric_sample
  mf_aggregate :: agent_aggregate
  mf_agents :: "(string \<times> metric_sample) list"

section \<open>Adapter capabilities\<close>

record adapter_capabilities =
  c_source :: agent_source
  c_events :: bool
  c_attention :: attention_capability
  c_decision_response :: bool
  c_context_open :: bool
  c_process_attribution :: attribution_quality
  c_context_open_tier :: context_open_tier
  c_observe_lifecycle :: bool
  c_observe_tools :: bool
  c_respond_decisions :: bool
  c_respond_questions :: bool
  c_fail_open_hooks :: bool
  c_requires_external_trust :: bool

record adapter_observation_paths =
  op_lifecycle_events :: bool
  op_tool_events :: bool
  op_attention_events :: bool

record adapter_response_paths =
  rp_decisions :: bool
  rp_questions :: bool
  rp_context_open_tier :: context_open_tier

fun template_attention :: "agent_source \<Rightarrow> attention_capability \<times> bool" where
  "template_attention ClaudeCode = (CapPartial, False)"
| "template_attention Qwen = (CapPartial, False)"
| "template_attention Codex = (CapNone, True)"
| "template_attention Generic = (CapFull, False)"
| "template_attention Gemini = (CapPartial, False)"
| "template_attention CopilotCli = (CapPartial, False)"
| "template_attention AntigravityCli = (CapNone, False)"
| "template_attention Cursor = (CapNone, False)"
| "template_attention UnknownSource = (CapNone, False)"

definition capabilities_template :: "agent_source \<Rightarrow> adapter_capabilities" where
  "capabilities_template source =
     (let (attention, requires_external_trust) = template_attention source in
      \<lparr>c_source = source,
       c_events = (source \<noteq> UnknownSource),
       c_attention = attention,
       c_decision_response = False,
       c_context_open = False,
       c_process_attribution = UnknownAttribution,
       c_context_open_tier = TierNone,
       c_observe_lifecycle = (source \<noteq> UnknownSource),
       c_observe_tools = (source \<noteq> UnknownSource),
       c_respond_decisions = False,
       c_respond_questions = False,
       c_fail_open_hooks = True,
       c_requires_external_trust = requires_external_trust\<rparr>)"

definition observation_paths :: "adapter_capabilities \<Rightarrow> adapter_observation_paths" where
  "observation_paths c =
     \<lparr>op_lifecycle_events = (c_observe_lifecycle c \<or> c_events c),
      op_tool_events = (c_observe_tools c \<or> c_events c),
      op_attention_events = (c_attention c \<noteq> CapNone)\<rparr>"

definition response_paths :: "adapter_capabilities \<Rightarrow> adapter_response_paths" where
  "response_paths c =
     \<lparr>rp_decisions = (c_respond_decisions c \<or> c_decision_response c),
      rp_questions = c_respond_questions c,
      rp_context_open_tier =
        (if c_context_open_tier c \<noteq> TierNone then c_context_open_tier c
         else if c_context_open c then AppActivate else TierNone)\<rparr>"

section \<open>Alerts, settings, snapshots and the stream\<close>

datatype resource_alert_kind = ResCpuWarn | ResCpuCritical | ResMemoryHigh

record resource_alert =
  ra_kind :: resource_alert_kind
  ra_message :: string
  ra_session_id :: "string option"
  ra_raised_at_ms :: int

datatype sound_event =
  SoundApproval | SoundQuestion | SoundCompleted | SoundFailed | SoundNotification

record quiet_hours =
  qh_start_minute :: nat
  qh_end_minute :: nat

record sound_routing =
  sr_enabled :: bool
  sr_volume :: f32
  sr_quiet_hours :: "quiet_hours option"
  sr_event_volume :: "(sound_event \<times> f32) list"
  sr_agent_volume :: "(string \<times> f32) list"

record public_settings =
  ps_overlay_enabled :: bool
  ps_autostart_enabled :: bool
  ps_reduced_motion :: bool
  ps_sampling_interval_ms :: nat
  ps_selected_display :: "string option"
  ps_show_over_fullscreen :: bool
  ps_history_retention_hours :: nat
  ps_alert_sound_enabled :: bool
  ps_selected_sound_theme_id :: "string option"
  ps_sound_routing :: sound_routing

record app_snapshot =
  sn_protocol_version :: nat
  sn_captured_at_ms :: int
  sn_host :: "host_metric_sample option"
  sn_aggregate :: "agent_aggregate option"
  sn_sessions :: "agent_session list"
  sn_settings :: public_settings
  sn_adapters :: "adapter_capabilities list"
  sn_resource_alerts :: "resource_alert list"

datatype stream_payload =
    PSnapshot app_snapshot
  | PSessionUpsert agent_session
  | PSessionRemove string
  | PSessionEvent session_event
  | PMetrics metrics_frame
  | PSettingsChanged public_settings
  | PIntegrationChanged adapter_capabilities
  | PHeartbeat
  | PResyncRequired string

record stream_frame =
  f_sequence :: nat
  f_emitted_at_ms :: int
  f_payload :: stream_payload

section \<open>Decisions\<close>

datatype decision_kind = DecisionApproval | DecisionPermission | DecisionQuestion

datatype decision_action = Allow | Deny

datatype decision_response = Action decision_action | Answer string

datatype delivery_state = DPending | DDelivered | DEffectObserved | DExpired | DFailed

record decision_request =
  dr_id :: string
  dr_session_id :: string
  dr_source :: agent_source
  dr_kind :: decision_kind
  dr_summary :: string
  dr_has_actionable_payload :: bool
  dr_created_at_ms :: int
  dr_expires_at_ms :: "int option"

record decision_response_record =
  rr_request_id :: string
  rr_response :: decision_response
  rr_responded_at_ms :: int
  rr_delivery_state :: delivery_state
  rr_delivery_detail :: "string option"

fun debug_decision_kind :: "decision_kind \<Rightarrow> string" where
  "debug_decision_kind DecisionApproval = ''Approval''"
| "debug_decision_kind DecisionPermission = ''Permission''"
| "debug_decision_kind DecisionQuestion = ''Question''"

fun debug_delivery_state :: "delivery_state \<Rightarrow> string" where
  "debug_delivery_state DPending = ''Pending''"
| "debug_delivery_state DDelivered = ''Delivered''"
| "debug_delivery_state DEffectObserved = ''EffectObserved''"
| "debug_delivery_state DExpired = ''Expired''"
| "debug_delivery_state DFailed = ''Failed''"

lemma debug_delivery_state_Pending: "debug_delivery_state d = ''Pending'' \<longleftrightarrow> d = DPending"
  by (cases d) simp_all

section \<open>Advertised templates\<close>

text \<open>
  The shipped templates never advertise a response path or process attribution; every known
  source reports events.
\<close>

lemma template_paths:
  "response_paths (capabilities_template src) =
     \<lparr>rp_decisions = False, rp_questions = False, rp_context_open_tier = TierNone\<rparr>"
  "c_process_attribution (capabilities_template src) = UnknownAttribution"
  "c_source (capabilities_template src) = src"
  "c_events (capabilities_template src) \<longleftrightarrow> src \<noteq> UnknownSource"
  by (cases src; simp add: capabilities_template_def response_paths_def)+

end
