(* ===== verification/Core_Domain.thy ===== *)
theory Core_Domain
  imports Protocol_Types
begin

text \<open>
  \<^verbatim>\<open>crates/notch-core/src/{constants,error}.rs\<close> and \<^verbatim>\<open>src/domain\<close>: the limits the core owns, its
  errors, the ingest commands, the legal status transitions and field validation, with the
  facts about transitions that the session life cycle rests on.
\<close>

section \<open>Limits and errors\<close>

definition MAX_SESSIONS :: nat where "MAX_SESSIONS = MAX_SNAPSHOT_SESSIONS"
definition MAX_EVENTS_PER_SESSION :: nat where "MAX_EVENTS_PER_SESSION = 10000"
definition BOOTSTRAP_MAX_EVENTS :: nat where "BOOTSTRAP_MAX_EVENTS = 256"
definition BOOTSTRAP_EVENTS_PER_ACTIVE_SESSION :: nat where
  "BOOTSTRAP_EVENTS_PER_ACTIVE_SESSION = 1"
definition MAX_EVENT_PAGE_SIZE :: nat where "MAX_EVENT_PAGE_SIZE = 100"
definition METRIC_BUCKET_SECS :: int where "METRIC_BUCKET_SECS = 5"
definition HOST_METRIC_SESSION_KEY :: string where "HOST_METRIC_SESSION_KEY = ''__host__''"
definition METRIC_RETENTION_MS :: int where "METRIC_RETENTION_MS = 24 * 60 * 60 * 1000"
definition EVENT_RETENTION_MS :: int where "EVENT_RETENTION_MS = 7 * 24 * 60 * 60 * 1000"
definition STALE_SESSION_MS :: int where "STALE_SESSION_MS = 30 * 60 * 1000"
definition PRUNE_TARGET_BYTES :: nat where "PRUNE_TARGET_BYTES = 128 * 1024 * 1024"
definition STREAM_REPLAY_CAPACITY :: nat where "STREAM_REPLAY_CAPACITY = 1024"
definition CPU_WARN_THRESHOLD :: rat where "CPU_WARN_THRESHOLD = 70"
definition CPU_CRITICAL_THRESHOLD :: rat where "CPU_CRITICAL_THRESHOLD = 90"
definition CPU_WARN_DURATION_MS :: int where "CPU_WARN_DURATION_MS = 60000"
definition CPU_CRITICAL_DURATION_MS :: int where "CPU_CRITICAL_DURATION_MS = 30000"
definition RSS_ALERT_BYTES :: nat where "RSS_ALERT_BYTES = 4 * 1024 * 1024 * 1024"
definition RSS_ALERT_DURATION_MS :: int where "RSS_ALERT_DURATION_MS = 60000"

lemma MAX_SESSIONS_eq: "MAX_SESSIONS = 128"
  by (simp add: MAX_SESSIONS_def protocol_limits)

datatype core_error =
    SessionNotFound string
  | RepositoryUnavailable
  | IngestRejected string
  | UnsupportedCapability string
  | InvalidTransition session_status session_status
  | SessionCapacity nat
  | Validation string
  | OtherError string

section \<open>Status transitions\<close>

fun is_valid_transition :: "session_status \<Rightarrow> session_status \<Rightarrow> bool" where
  "is_valid_transition from to =
     (if from = to then True
      else (case (from, to) of
          (Starting, _) \<Rightarrow> to \<in> {Running, Failed, Stale}
        | (Running, _) \<Rightarrow> to \<in> {Waiting, Paused, Completed, Failed, Stale}
        | (Waiting, _) \<Rightarrow> to \<in> {Running, Paused, Completed, Failed, Stale}
        | (Paused, _) \<Rightarrow> to \<in> {Running, Waiting, Completed, Failed, Stale}
        | (_, Stale) \<Rightarrow> True
        | _ \<Rightarrow> False))"

definition validate_transition ::
  "session_status \<Rightarrow> session_status \<Rightarrow> (core_error, unit) outcome" where
  "validate_transition from to =
     (if is_valid_transition from to then Ok () else Err (InvalidTransition from to))"

definition is_terminal :: "session_status \<Rightarrow> bool" where
  "is_terminal status \<longleftrightarrow> status \<in> {Completed, Failed, Stale}"

lemma validate_transition_Ok [simp]:
  "validate_transition a b = Ok () \<longleftrightarrow> is_valid_transition a b"
  by (simp add: validate_transition_def)

lemma valid_from_terminal: "is_valid_transition a b \<Longrightarrow> is_terminal a \<Longrightarrow> b = a \<or> b = Stale"
  by (cases a; cases b) (simp_all add: is_terminal_def)

lemma valid_to_Starting: "is_valid_transition a Starting \<longleftrightarrow> a = Starting"
  by (cases a) simp_all

lemma valid_to_Stale: "is_valid_transition a Stale"
  by (cases a) simp_all

lemma terminal_closed: "is_valid_transition a b \<Longrightarrow> is_terminal a \<Longrightarrow> is_terminal b"
  by (cases a; cases b) (simp_all add: is_terminal_def)

declare is_valid_transition.simps [simp del]

section \<open>Validation\<close>

definition validate_bounded :: "string \<Rightarrow> nat \<Rightarrow> string \<Rightarrow> (core_error, unit) outcome" where
  "validate_bounded v mx field =
     (if v = [] then Err (Validation (field @ '' must not be empty''))
      else if length v > mx then
        Err (Validation (field @ '' exceeds '' @ dec_string mx @ '' bytes''))
      else Ok ())"

definition validate_external_session_id :: "string \<Rightarrow> (core_error, unit) outcome" where
  "validate_external_session_id i =
     validate_bounded i MAX_EXTERNAL_SESSION_ID_LEN ''external_session_id''"

definition validate_session_label :: "string \<Rightarrow> (core_error, unit) outcome" where
  "validate_session_label l = validate_bounded l MAX_SESSION_LABEL_LEN ''label''"

definition validate_workspace_label :: "string \<Rightarrow> (core_error, unit) outcome" where
  "validate_workspace_label l = validate_bounded l MAX_WORKSPACE_LABEL_LEN ''workspace_label''"

definition validate_event_summary :: "string \<Rightarrow> (core_error, unit) outcome" where
  "validate_event_summary s = validate_bounded s MAX_EVENT_SUMMARY_LEN ''summary''"

definition validate_tool_name :: "string \<Rightarrow> (core_error, unit) outcome" where
  "validate_tool_name n = validate_bounded n MAX_TOOL_NAME_LEN ''tool_name''"

definition validate_session_id :: "string \<Rightarrow> (core_error, unit) outcome" where
  "validate_session_id i = validate_bounded i MAX_SESSION_ID_LEN ''session_id''"

lemma validate_bounded_Ok:
  "validate_bounded v mx field = Ok () \<longleftrightarrow> v \<noteq> [] \<and> length v \<le> mx"
  by (simp add: validate_bounded_def)

lemma validate_bounded_no_panic: "validate_bounded v mx field \<noteq> Panic p"
  by (simp add: validate_bounded_def)

lemmas validate_defs =
  validate_external_session_id_def validate_session_label_def validate_workspace_label_def
  validate_event_summary_def validate_tool_name_def validate_session_id_def

text \<open>
  \<open>session_id_for\<close> hashes the source's \<open>Debug\<close> text and the external id with the standard
  library's default hasher, whose algorithm is unspecified: \<open>hash\<close> is a parameter that yields
  the \<open>u64\<close>.
\<close>

type_synonym hasher = "string \<Rightarrow> string \<Rightarrow> nat"

definition session_id_for :: "hasher \<Rightarrow> agent_source \<Rightarrow> string \<Rightarrow> string" where
  "session_id_for hash source external_session_id =
     take_chars MAX_SESSION_ID_LEN (''s-'' @ hex16 (hash (debug_source source) external_session_id))"

lemma session_id_for_eq:
  "session_id_for hash src ext = ''s-'' @ hex16 (hash (debug_source src) ext)"
proof -
  have "char_count (''s-'' @ hex16 h) \<le> MAX_SESSION_ID_LEN" for h
    using char_count_le_length [of "''s-'' @ hex16 h"] by (simp add: protocol_limits)
  then show ?thesis unfolding session_id_for_def by (rule take_chars_short)
qed

lemma length_session_id_for [simp]: "length (session_id_for hash src ext) = 18"
  by (simp add: session_id_for_eq)

lemma validate_session_id_for: "validate_session_id (session_id_for hash src ext) = Ok ()"
  by (simp add: validate_session_id_def validate_bounded_def session_id_for_eq protocol_limits)

section \<open>Ingest commands\<close>

record session_start_command =
  st_idempotency_key :: "string option"
  st_source :: agent_source
  st_external_session_id :: string
  st_label :: string
  st_workspace_label :: "string option"
  st_status :: session_status
  st_occurred_at_ms :: int

record session_update_command =
  su_source :: agent_source
  su_external_session_id :: string
  su_status :: "session_status option"
  su_label :: "string option"
  su_workspace_label :: "string option"
  su_occurred_at_ms :: int

record session_end_command =
  se_source :: agent_source
  se_external_session_id :: string
  se_status :: session_status
  se_occurred_at_ms :: int
  se_summary :: "string option"

record lifecycle_event_command =
  le_source :: agent_source
  le_external_session_id :: string
  le_level :: event_level
  le_summary :: string
  le_occurred_at_ms :: int

record tool_event_command =
  te_source :: agent_source
  te_external_session_id :: string
  te_level :: event_level
  te_summary :: string
  te_tool_name :: "string option"
  te_occurred_at_ms :: int

record attention_command =
  at_source :: agent_source
  at_external_session_id :: string
  at_attention :: attention_kind
  at_level :: event_level
  at_summary :: string
  at_occurred_at_ms :: int

record process_root_command =
  pr_source :: agent_source
  pr_external_session_id :: string
  pr_process_root :: process_identity
  pr_occurred_at_ms :: int

record integration_health_command =
  ih_capabilities :: adapter_capabilities
  ih_healthy :: bool
  ih_message :: "string option"
  ih_occurred_at_ms :: int

record acknowledge_attention_command =
  ack_session_id :: string
  ack_occurred_at_ms :: int

datatype ingest_command =
    SessionStart session_start_command
  | SessionUpdate session_update_command
  | SessionEnd session_end_command
  | LifecycleEvent lifecycle_event_command
  | ToolEvent tool_event_command
  | Attention attention_command
  | RegisterProcessRoot process_root_command
  | IntegrationHealth integration_health_command
  | AcknowledgeAttention acknowledge_attention_command

record ingest_result =
  ir_session_id :: "string option"
  ir_event_id :: "nat option"
  ir_idempotent_replay :: bool

definition ingest_result_empty :: ingest_result where
  "ingest_result_empty =
     \<lparr>ir_session_id = None, ir_event_id = None, ir_idempotent_replay = False\<rparr>"

end
