(* ===== verification/Notch_Interfaces.thy ===== *)
theory Notch_Interfaces
  imports Core_Domain
begin

text \<open>
  The contracts between the components, as locales: a store addressed by an id and by a key
  (what the core relies on in the session registry) and a bounded log of numbered entries (what
  subscribers rely on in the replay buffer and the metric histories).
\<close>

section \<open>A store with an id and a key\<close>

locale keyed_store =
  fixes invar :: "'r \<Rightarrow> bool"
    and get :: "'r \<Rightarrow> 'i \<Rightarrow> 'v option"
    and find :: "'r \<Rightarrow> 'k \<Rightarrow> 'v option"
    and ident :: "'v \<Rightarrow> 'i"
    and key :: "'v \<Rightarrow> 'k"
    and admits :: "'v \<Rightarrow> 'r \<Rightarrow> bool"
    and put :: "'v \<Rightarrow> 'r \<Rightarrow> 'r"
    and del :: "'v \<Rightarrow> 'r \<Rightarrow> 'r"
  assumes get_ident: "invar r \<Longrightarrow> get r i = Some v \<Longrightarrow> ident v = i"
    and find_iff: "invar r \<Longrightarrow> find r k = Some v \<longleftrightarrow> get r (ident v) = Some v \<and> key v = k"
    and admits_key: "invar r \<Longrightarrow> admits v r \<Longrightarrow> get r (ident v) = Some w \<Longrightarrow> key w = key v"
    and invar_put: "invar r \<Longrightarrow> admits v r \<Longrightarrow> invar (put v r)"
    and get_put: "get (put v r) i = (if i = ident v then Some v else get r i)"
    and invar_del: "invar r \<Longrightarrow> get r (ident v) = Some v \<Longrightarrow> invar (del v r)"
    and get_del: "get (del v r) i = (if i = ident v then None else get r i)"
begin

lemma find_key: "invar r \<Longrightarrow> find r k = Some v \<Longrightarrow> key v = k"
  by (simp add: find_iff)

lemma find_unique:
  "invar r \<Longrightarrow> find r k = Some v \<Longrightarrow> find r k' = Some w \<Longrightarrow> ident v = ident w \<Longrightarrow> v = w \<and> k = k'"
  by (auto simp: find_iff)

lemma find_put:
  assumes inv: "invar r" and ok: "admits v r"
  shows "find (put v r) k = (if k = key v then Some v else find r k)"
proof (cases "k = key v")
  case True
  then show ?thesis by (simp add: find_iff [OF invar_put [OF inv ok]] get_put)
next
  case False
  have "find (put v r) k = Some w \<longleftrightarrow> find r k = Some w" for w
    using False admits_key [OF inv ok, of w]
    by (auto simp: find_iff [OF invar_put [OF inv ok]] find_iff [OF inv] get_put)
  then have "find (put v r) k = find r k" by (rule option_eqI)
  with False show ?thesis by simp
qed

lemma find_del:
  assumes inv: "invar r" and v: "get r (ident v) = Some v"
  shows "find (del v r) k = (if k = key v then None else find r k)"
proof -
  have same: "w = v" if "get r (ident w) = Some w" "key w = key v" for w
    using that v find_iff [OF inv, of "key v" w] find_iff [OF inv, of "key v" v] by simp
  have "find (del v r) k = Some w \<longleftrightarrow> k \<noteq> key v \<and> find r k = Some w" for w
  proof -
    have "find (del v r) k = Some w \<longleftrightarrow> ident w \<noteq> ident v \<and> get r (ident w) = Some w \<and> key w = k"
      by (simp add: find_iff [OF invar_del [OF inv v]] get_del)
    also have "\<dots> \<longleftrightarrow> k \<noteq> key v \<and> get r (ident w) = Some w \<and> key w = k"
      using same [of w] v by auto
    finally show ?thesis by (simp add: find_iff [OF inv])
  qed
  then show ?thesis by (intro option_eqI) simp
qed

lemma put_then_del:
  assumes "invar r" and "admits v r" and "find r (key v) = None"
  shows "find (del v (put v r)) k = find r k"
  using assms find_del [OF invar_put [OF assms(1,2)], of v k] by (simp add: get_put find_put)

end

section \<open>A bounded log\<close>

text \<open>
  \<open>push\<close> appends and drops the oldest entries beyond \<open>cap\<close>; \<open>entries\<close> is the log, oldest first.
\<close>

locale bounded_log =
  fixes entries :: "'l \<Rightarrow> 'x list"
    and push :: "'x \<Rightarrow> 'l \<Rightarrow> 'l"
    and cap :: nat
  assumes cap_pos: "0 < cap"
    and entries_push:
      "length (entries l) \<le> cap \<Longrightarrow> entries (push x l) = keep_last cap (entries l @ [x])"
begin

lemma push_bounded: "length (entries l) \<le> cap \<Longrightarrow> length (entries (push x l)) \<le> cap"
  by (simp add: entries_push)

lemma push_last: "length (entries l) \<le> cap \<Longrightarrow> last (entries (push x l)) = x"
  using cap_pos by (simp add: entries_push last_keep_last)

lemma entries_pushes:
  "length (entries l) \<le> cap \<Longrightarrow>
   length (entries (fold push xs l)) \<le> cap \<and>
   entries (fold push xs l) = keep_last cap (entries l @ xs)"
proof (induction xs rule: rev_induct)
  case Nil
  then show ?case by (simp add: keep_last_short)
next
  case (snoc x xs)
  then show ?case
    using keep_last_snoc [OF cap_pos, of "entries l @ xs" x] by (simp add: entries_push)
qed

end

end
