(* ===== verification/Session_Registry.thy ===== *)
theory Session_Registry
  imports Notch_Interfaces
begin

text \<open>
  \<^verbatim>\<open>crates/notch-core/src/registry.rs\<close>: the in-memory session registry, with its index from the
  source-owned key to the session id, the bounded event logs and the bounded bootstrap
  selection. \<open>ord\<close> is the order in which the hash maps yield their keys.
\<close>

section \<open>State and operations\<close>

record session_registry =
  r_sessions :: "agent_session hash_map"
  r_external_index :: "string hash_map"
  r_events :: "session_event list hash_map"
  r_idempotency :: "string set"

type_synonym 'a reg_op = "(session_registry, core_error, 'a) op"

definition external_key :: "agent_source \<Rightarrow> string \<Rightarrow> string" where
  "external_key source external_session_id = debug_source source @ '':'' @ external_session_id"

definition registry_new :: session_registry where
  "registry_new =
     \<lparr>r_sessions = [], r_external_index = [], r_events = [], r_idempotency = {}\<rparr>"

definition reg_len :: "session_registry \<Rightarrow> nat" where
  "reg_len r = length (r_sessions r)"

definition reg_sessions :: "(string list \<Rightarrow> string list) \<Rightarrow> session_registry \<Rightarrow> agent_session list" where
  "reg_sessions ord r = hm_values ord (r_sessions r)"

definition reg_get :: "session_registry \<Rightarrow> string \<Rightarrow> agent_session option" where
  "reg_get r session_id = map_of (r_sessions r) session_id"

text \<open>A write through \<open>get_mut\<close>: the borrowed session is replaced in place.\<close>

definition reg_write :: "string \<Rightarrow> agent_session \<Rightarrow> session_registry \<Rightarrow> session_registry" where
  "reg_write session_id s r = r\<lparr>r_sessions := AList.update session_id s (r_sessions r)\<rparr>"

definition resolve_external ::
  "session_registry \<Rightarrow> agent_source \<Rightarrow> string \<Rightarrow> agent_session option" where
  "resolve_external r source external_session_id =
     Option.bind (map_of (r_external_index r) (external_key source external_session_id))
       (map_of (r_sessions r))"

definition events_for :: "session_registry \<Rightarrow> string \<Rightarrow> session_event list" where
  "events_for r session_id = (case map_of (r_events r) session_id of None \<Rightarrow> [] | Some es \<Rightarrow> es)"

definition restore_priority :: "agent_session \<Rightarrow> nat" where
  "restore_priority s =
     (if s_status s \<notin> {Completed, Failed, Stale} \<or> s_attention s \<noteq> AttentionNone then 0 else 1)"

text \<open>The selection loops of \<open>bootstrap_events\<close>: stop at the bound, skip an id already taken.\<close>

fun select_events ::
  "session_event list \<times> nat set \<Rightarrow> session_event list \<Rightarrow> session_event list \<times> nat set" where
  "select_events (sel, ids) [] = (sel, ids)"
| "select_events (sel, ids) (e # es) =
     (if length sel \<ge> BOOTSTRAP_MAX_EVENTS then (sel, ids)
      else if e_id e \<in> ids then select_events (sel, ids) es
      else select_events (sel @ [e], insert (e_id e) ids) es)"

definition event_key :: "session_event \<Rightarrow> int \<times> int" where
  "event_key e = (e_occurred_at_ms e, int (e_sequence e))"

definition event_key_rev :: "session_event \<Rightarrow> int \<times> int" where
  "event_key_rev e = (- e_occurred_at_ms e, - int (e_sequence e))"

definition bootstrap_active ::
  "(string list \<Rightarrow> string list) \<Rightarrow> session_registry \<Rightarrow> agent_session list" where
  "bootstrap_active ord r =
     sort_key (\<lambda>s. - s_last_event_at_ms s)
       (filter (\<lambda>s. restore_priority s = 0) (reg_sessions ord r))"

definition bootstrap_reserved ::
  "(string list \<Rightarrow> string list) \<Rightarrow> session_registry \<Rightarrow> session_event list \<times> nat set" where
  "bootstrap_reserved ord r =
     foldl (\<lambda>acc s. select_events acc
              (keep_last BOOTSTRAP_EVENTS_PER_ACTIVE_SESSION (events_for r (s_id s))))
       ([], {}) (bootstrap_active ord r)"

definition bootstrap_events ::
  "(string list \<Rightarrow> string list) \<Rightarrow> session_registry \<Rightarrow> session_event list" where
  "bootstrap_events ord r =
     sort_key event_key
       (fst (select_events (bootstrap_reserved ord r)
          (sort_key event_key_rev (concat (hm_values ord (r_events r))))))"

definition check_idempotency :: "session_registry \<Rightarrow> string \<Rightarrow> bool" where
  "check_idempotency r k \<longleftrightarrow> k \<in> r_idempotency r"

definition record_idempotency :: "string \<Rightarrow> session_registry \<Rightarrow> session_registry" where
  "record_idempotency k r = r\<lparr>r_idempotency := insert k (r_idempotency r)\<rparr>"

definition reg_insert :: "agent_session \<Rightarrow> session_registry \<Rightarrow> session_registry" where
  "reg_insert s r =
     r\<lparr>r_external_index :=
         AList.update (external_key (s_source s) (s_external_session_id s)) (s_id s)
           (r_external_index r),
       r_sessions := AList.update (s_id s) s (r_sessions r)\<rparr>"

definition reg_upsert_session :: "agent_session \<Rightarrow> unit reg_op" where
  "reg_upsert_session s =
     seq (lift (validate_external_session_id (s_external_session_id s)))
         (modify (reg_insert s))"

definition session_age :: "agent_session \<Rightarrow> int" where
  "session_age s = (case s_ended_at_ms s of Some t \<Rightarrow> t | None \<Rightarrow> s_last_event_at_ms s)"

definition oldest_terminal_session_id ::
  "(string list \<Rightarrow> string list) \<Rightarrow> session_registry \<Rightarrow> string option" where
  "oldest_terminal_session_id ord r =
     map_option s_id
       (min_by_key session_age
          (filter (\<lambda>s. is_terminal (s_status s)) (reg_sessions ord r)))"

definition capacity_eviction_candidate ::
  "(string list \<Rightarrow> string list) \<Rightarrow> session_registry \<Rightarrow> (core_error, string option) outcome" where
  "capacity_eviction_candidate ord r =
     (if length (r_sessions r) < MAX_SESSIONS then Ok None
      else case oldest_terminal_session_id ord r of
          Some oldest \<Rightarrow> Ok (Some oldest)
        | None \<Rightarrow> Err (SessionCapacity MAX_SESSIONS))"

definition insert_new_session ::
  "hasher \<Rightarrow> agent_source \<Rightarrow> string \<Rightarrow> (string \<Rightarrow> agent_session) \<Rightarrow>
   (agent_session \<times> bool) reg_op" where
  "insert_new_session hash source ext build =
     seq (lift (validate_external_session_id ext))
      (bind (gets (\<lambda>r. map_of (r_external_index r) (external_key source ext))) (\<lambda>found.
        case found of
          Some existing_id \<Rightarrow>
            bind (gets (\<lambda>r. map_of (r_sessions r) existing_id)) (\<lambda>s.
              case s of None \<Rightarrow> panic ''indexed session'' | Some t \<Rightarrow> ret (t, True))
        | None \<Rightarrow>
            bind (gets (\<lambda>r. length (r_sessions r))) (\<lambda>n.
              if n \<ge> MAX_SESSIONS then throw (SessionCapacity MAX_SESSIONS)
              else
                let s = build (session_id_for hash source ext)
                in seq (reg_upsert_session s) (ret (s, False)))))"

definition sequence_error :: "nat \<Rightarrow> nat \<Rightarrow> core_error" where
  "sequence_error expected got =
     IngestRejected (''expected event sequence '' @ dec_string expected @ '', got '' @ dec_string got)"

definition reg_append_event :: "session_event \<Rightarrow> unit reg_op" where
  "reg_append_event ev r =
     (let sid = e_session_id ev in
      if map_of (r_sessions r) sid = None then (Err (SessionNotFound sid), r)
      else
        let es = events_for r sid;
            entry = (\<lambda>xs. r\<lparr>r_events := AList.update sid xs (r_events r)\<rparr>)
        in if es \<noteq> [] \<and> e_sequence ev \<noteq> wrap_u64 (Suc (e_sequence (last es))) then
             (Err (sequence_error (wrap_u64 (Suc (e_sequence (last es)))) (e_sequence ev)), entry es)
           else if es = [] \<and> e_sequence ev \<noteq> 1 then
             (Err (IngestRejected
                (''first event sequence must be 1, got '' @ dec_string (e_sequence ev))), entry es)
           else (Ok (), entry (keep_last MAX_EVENTS_PER_SESSION (es @ [ev]))))"

definition next_event_sequence :: "session_registry \<Rightarrow> string \<Rightarrow> nat" where
  "next_event_sequence r session_id =
     (let es = events_for r session_id
      in if es = [] then 1 else wrap_u64 (Suc (e_sequence (last es))))"

definition reg_delete :: "agent_session \<Rightarrow> string \<Rightarrow> session_registry \<Rightarrow> session_registry" where
  "reg_delete s session_id r =
     r\<lparr>r_sessions := AList.delete session_id (r_sessions r),
       r_external_index :=
         AList.delete (external_key (s_source s) (s_external_session_id s)) (r_external_index r),
       r_events := AList.delete session_id (r_events r)\<rparr>"

definition reg_remove_session :: "string \<Rightarrow> unit reg_op" where
  "reg_remove_session session_id =
     bind (gets (\<lambda>r. map_of (r_sessions r) session_id)) (\<lambda>found.
       case found of
         None \<Rightarrow> throw (SessionNotFound session_id)
       | Some s \<Rightarrow> modify (reg_delete s session_id))"

definition restore_event :: "session_event \<Rightarrow> session_registry \<Rightarrow> session_registry" where
  "restore_event ev r =
     r\<lparr>r_events := AList.update (e_session_id ev)
          (keep_last MAX_EVENTS_PER_SESSION (events_for r (e_session_id ev) @ [ev])) (r_events r)\<rparr>"

definition restore_order :: "agent_session list \<Rightarrow> agent_session list" where
  "restore_order ss = sort_key (\<lambda>s. (int (restore_priority s), - s_last_event_at_ms s)) ss"

definition reg_restore :: "agent_session list \<Rightarrow> session_event list \<Rightarrow> unit reg_op" where
  "reg_restore sessions events =
     seq (modify (\<lambda>r. r\<lparr>r_sessions := [], r_external_index := [], r_events := []\<rparr>))
      (seq (for_each reg_upsert_session (take MAX_SESSIONS (restore_order sessions)))
        (modify (\<lambda>r. fold restore_event
           (sort_key (\<lambda>e. (e_session_id e, e_sequence e))
              (filter (\<lambda>e. map_of (r_sessions r) (e_session_id e) \<noteq> None) events)) r)))"

definition clear_latest_metrics :: "session_registry \<Rightarrow> session_registry" where
  "clear_latest_metrics r =
     r\<lparr>r_sessions := map (\<lambda>(k, s). (k, s\<lparr>s_latest_metric := None\<rparr>)) (r_sessions r)\<rparr>"

definition clear_events :: "session_registry \<Rightarrow> session_registry" where
  "clear_events r = r\<lparr>r_events := []\<rparr>"

section \<open>The registry invariant\<close>

text \<open>
  The three maps have distinct keys; a session is stored under its own id and indexed under its
  own key; the index has no dangling entry; event logs belong to live sessions, hold that
  session's events and stay within the bound; and the number of sessions stays within the
  capacity.
\<close>

abbreviation session_key :: "agent_session \<Rightarrow> string" where
  "session_key s \<equiv> external_key (s_source s) (s_external_session_id s)"

definition log_ok :: "string \<Rightarrow> session_event list \<Rightarrow> bool" where
  "log_ok k es \<longleftrightarrow>
     length es \<le> MAX_EVENTS_PER_SESSION \<and> (\<forall>e\<in>set es. e_session_id e = k)"

definition reg_inv :: "session_registry \<Rightarrow> bool" where
  "reg_inv r \<longleftrightarrow>
     hm_wf (r_sessions r) \<and> hm_wf (r_external_index r) \<and> hm_wf (r_events r) \<and>
     (\<forall>k s. map_of (r_sessions r) k = Some s \<longrightarrow>
        s_id s = k \<and> map_of (r_external_index r) (session_key s) = Some k) \<and>
     (\<forall>x k. map_of (r_external_index r) x = Some k \<longrightarrow>
        (\<exists>s. map_of (r_sessions r) k = Some s \<and> session_key s = x)) \<and>
     (\<forall>k es. map_of (r_events r) k = Some es \<longrightarrow>
        map_of (r_sessions r) k \<noteq> None \<and> log_ok k es) \<and>
     length (r_sessions r) \<le> MAX_SESSIONS"

lemma external_key_inj [simp]: "external_key a x = external_key b y \<longleftrightarrow> a = b \<and> x = y"
  by (cases a; cases b) (simp_all add: external_key_def)

lemma reg_inv_new: "reg_inv registry_new"
  by (simp add: reg_inv_def registry_new_def)

lemma reg_inv_stored:
  assumes "reg_inv r" and "map_of (r_sessions r) k = Some s"
  shows "s_id s = k" and "map_of (r_external_index r) (session_key s) = Some k"
  using assms by (auto simp: reg_inv_def)

lemma reg_inv_indexed:
  assumes "reg_inv r" and "map_of (r_external_index r) x = Some k"
  obtains s where "map_of (r_sessions r) k = Some s" and "session_key s = x"
  using assms unfolding reg_inv_def by blast

lemma resolve_external_Some:
  assumes "reg_inv r"
  shows "resolve_external r src ext = Some s \<longleftrightarrow>
     reg_get r (s_id s) = Some s \<and> s_source s = src \<and> s_external_session_id s = ext"
proof
  assume "resolve_external r src ext = Some s"
  then obtain k where k: "map_of (r_external_index r) (external_key src ext) = Some k"
      and s: "map_of (r_sessions r) k = Some s"
    by (auto simp: resolve_external_def bind_eq_Some_conv)
  from reg_inv_indexed [OF assms k] s have "session_key s = external_key src ext" by auto
  with reg_inv_stored [OF assms s] s
  show "reg_get r (s_id s) = Some s \<and> s_source s = src \<and> s_external_session_id s = ext"
    by (simp add: reg_get_def)
next
  assume "reg_get r (s_id s) = Some s \<and> s_source s = src \<and> s_external_session_id s = ext"
  with reg_inv_stored [OF assms, of "s_id s" s] show "resolve_external r src ext = Some s"
    by (auto simp: resolve_external_def reg_get_def)
qed

text \<open>
  When storing \<open>s\<close> keeps the invariant: its id is new, its key is new and there is room; or
  the id already belongs to the same key.
\<close>

definition reg_admits :: "agent_session \<Rightarrow> session_registry \<Rightarrow> bool" where
  "reg_admits s r \<longleftrightarrow>
     (case map_of (r_sessions r) (s_id s) of
        None \<Rightarrow> map_of (r_external_index r) (session_key s) = None \<and>
                length (r_sessions r) < MAX_SESSIONS
      | Some t \<Rightarrow> session_key t = session_key s)"

lemma reg_inv_cap: "reg_inv r \<Longrightarrow> length (r_sessions r) \<le> MAX_SESSIONS"
  by (simp add: reg_inv_def)

lemma reg_inv_wf:
  assumes "reg_inv r"
  shows "hm_wf (r_sessions r)" and "hm_wf (r_external_index r)" and "hm_wf (r_events r)"
  using assms by (simp_all add: reg_inv_def)

lemma reg_inv_log:
  assumes "reg_inv r" and "map_of (r_events r) k = Some es"
  shows "map_of (r_sessions r) k \<noteq> None" and "log_ok k es"
  using assms by (auto simp: reg_inv_def)

lemma reg_invI:
  assumes "hm_wf (r_sessions r)" and "hm_wf (r_external_index r)" and "hm_wf (r_events r)"
    and "\<And>k s. map_of (r_sessions r) k = Some s \<Longrightarrow>
           s_id s = k \<and> map_of (r_external_index r) (session_key s) = Some k"
    and "\<And>x k. map_of (r_external_index r) x = Some k \<Longrightarrow>
           \<exists>s. map_of (r_sessions r) k = Some s \<and> session_key s = x"
    and "\<And>k es. map_of (r_events r) k = Some es \<Longrightarrow> map_of (r_sessions r) k \<noteq> None \<and> log_ok k es"
    and "length (r_sessions r) \<le> MAX_SESSIONS"
  shows "reg_inv r"
  using assms by (simp add: reg_inv_def)

lemma reg_admits_len:
  assumes "reg_inv r" and "reg_admits s r"
  shows "length (AList.update (s_id s) s (r_sessions r)) \<le> MAX_SESSIONS"
proof (cases "map_of (r_sessions r) (s_id s)")
  case None
  with assms(2) show ?thesis
    by (simp add: reg_admits_def length_AList_update map_of_eq_None_iff)
next
  case (Some t)
  then show ?thesis
    using reg_inv_cap [OF assms(1)] map_of_Some_key [OF Some] by (simp add: length_AList_update)
qed

lemma reg_admits_owner:
  assumes "reg_inv r" and "reg_admits s r"
    and "map_of (r_external_index r) (session_key s) = Some k"
  shows "k = s_id s"
proof (cases "map_of (r_sessions r) (s_id s)")
  case None
  with assms show ?thesis by (simp add: reg_admits_def)
next
  case (Some t)
  with assms(2) have "session_key t = session_key s" by (simp add: reg_admits_def)
  with reg_inv_stored(2) [OF assms(1) Some] assms(3) show ?thesis by simp
qed

lemma reg_inv_insert:
  assumes inv: "reg_inv r" and ok: "reg_admits s r"
  shows "reg_inv (reg_insert s r)"
proof (rule reg_invI)
  show "length (r_sessions (reg_insert s r)) \<le> MAX_SESSIONS"
    using reg_admits_len [OF inv ok] by (simp add: reg_insert_def)
next
  fix k t assume "map_of (r_sessions (reg_insert s r)) k = Some t"
  then consider "k = s_id s" "t = s" | "k \<noteq> s_id s" "map_of (r_sessions r) k = Some t"
    by (auto simp: reg_insert_def split: if_splits)
  then show "s_id t = k \<and> map_of (r_external_index (reg_insert s r)) (session_key t) = Some k"
  proof cases
    case 1
    then show ?thesis by (simp add: reg_insert_def)
  next
    case 2
    from reg_inv_stored [OF inv 2(2)] have t: "s_id t = k"
        "map_of (r_external_index r) (session_key t) = Some k" .
    with reg_admits_owner [OF inv ok, of k] 2(1) show ?thesis
      by (auto simp: reg_insert_def simp del: external_key_inj)
  qed
next
  fix x k assume x: "map_of (r_external_index (reg_insert s r)) x = Some k"
  show "\<exists>t. map_of (r_sessions (reg_insert s r)) k = Some t \<and> session_key t = x"
  proof (cases "x = session_key s")
    case True
    with x show ?thesis by (simp add: reg_insert_def)
  next
    case False
    with x obtain t where t: "map_of (r_sessions r) k = Some t" "session_key t = x"
      by (auto simp: reg_insert_def elim: reg_inv_indexed [OF inv])
    with ok False have "k \<noteq> s_id s"
      by (auto simp: reg_admits_def simp del: external_key_inj)
    with t show ?thesis by (auto simp: reg_insert_def)
  qed
next
  fix k es assume "map_of (r_events (reg_insert s r)) k = Some es"
  with reg_inv_log [OF inv, of k es]
  show "map_of (r_sessions (reg_insert s r)) k \<noteq> None \<and> log_ok k es"
    by (simp add: reg_insert_def)
qed (simp_all add: reg_insert_def reg_inv_wf [OF inv])

section \<open>Every operation keeps the invariant\<close>

definition same_identity :: "agent_session \<Rightarrow> agent_session \<Rightarrow> bool" where
  "same_identity s t \<longleftrightarrow>
     s_id s = s_id t \<and> s_source s = s_source t \<and>
     s_external_session_id s = s_external_session_id t"

lemma reg_inv_write:
  assumes inv: "reg_inv r" and t: "reg_get r k = Some t" and same: "same_identity s t"
  shows "reg_inv (reg_write k s r)"
proof (rule reg_invI)
  note t' = t [unfolded reg_get_def]
  have key: "session_key s = session_key t" and sid: "s_id s = k"
    using same reg_inv_stored(1) [OF inv t'] by (simp_all add: same_identity_def)
  show "length (r_sessions (reg_write k s r)) \<le> MAX_SESSIONS"
    using reg_inv_cap [OF inv] map_of_Some_key [OF t'] by (simp add: reg_write_def length_AList_update)
  show "s_id u = k' \<and> map_of (r_external_index (reg_write k s r)) (session_key u) = Some k'"
    if "map_of (r_sessions (reg_write k s r)) k' = Some u" for k' u
    using that key sid reg_inv_stored [OF inv t'] reg_inv_stored [OF inv, of k' u]
    by (auto simp: reg_write_def simp del: external_key_inj split: if_splits)
  show "\<exists>u. map_of (r_sessions (reg_write k s r)) k' = Some u \<and> session_key u = x"
    if x: "map_of (r_external_index (reg_write k s r)) x = Some k'" for x k'
  proof -
    obtain u where "map_of (r_sessions r) k' = Some u" "session_key u = x"
      using x by (auto simp: reg_write_def elim: reg_inv_indexed [OF inv])
    with key t' show ?thesis by (auto simp: reg_write_def simp del: external_key_inj)
  qed
  show "map_of (r_sessions (reg_write k s r)) k' \<noteq> None \<and> log_ok k' es"
    if "map_of (r_events (reg_write k s r)) k' = Some es" for k' es
    using that reg_inv_log [OF inv, of k' es] by (simp add: reg_write_def)
qed (simp_all add: reg_write_def reg_inv_wf [OF inv])

lemma reg_inv_delete:
  assumes inv: "reg_inv r" and s: "map_of (r_sessions r) k = Some s"
  shows "reg_inv (reg_delete s k r)"
proof (rule reg_invI)
  show "length (r_sessions (reg_delete s k r)) \<le> MAX_SESSIONS"
    using reg_inv_cap [OF inv] length_AList_delete_le [of k "r_sessions r"]
    by (simp add: reg_delete_def)
  show "s_id u = k' \<and> map_of (r_external_index (reg_delete s k r)) (session_key u) = Some k'"
    if "map_of (r_sessions (reg_delete s k r)) k' = Some u" for k' u
    using that reg_inv_stored [OF inv, of k' u] reg_inv_stored [OF inv s]
    by (auto simp: reg_delete_def split: if_splits)
  show "\<exists>u. map_of (r_sessions (reg_delete s k r)) k' = Some u \<and> session_key u = x"
    if x: "map_of (r_external_index (reg_delete s k r)) x = Some k'" for x k'
  proof -
    from x have "x \<noteq> session_key s" "map_of (r_external_index r) x = Some k'"
      by (auto simp: reg_delete_def split: if_splits)
    then obtain u where "map_of (r_sessions r) k' = Some u" "session_key u = x"
      by (auto elim: reg_inv_indexed [OF inv])
    with s \<open>x \<noteq> session_key s\<close> show ?thesis
      by (auto simp: reg_delete_def simp del: external_key_inj)
  qed
  show "map_of (r_sessions (reg_delete s k r)) k' \<noteq> None \<and> log_ok k' es"
    if "map_of (r_events (reg_delete s k r)) k' = Some es" for k' es
    using that reg_inv_log [OF inv, of k' es] by (auto simp: reg_delete_def split: if_splits)
qed (simp_all add: reg_delete_def reg_inv_wf [OF inv])

lemma reg_inv_events:
  assumes inv: "reg_inv r" and "map_of (r_sessions r) k \<noteq> None" and "log_ok k es"
  shows "reg_inv (r\<lparr>r_events := AList.update k es (r_events r)\<rparr>)"
  using assms unfolding reg_inv_def by auto

lemma log_ok_events_for: "reg_inv r \<Longrightarrow> log_ok k (events_for r k)"
  using reg_inv_log [of r k] by (auto simp: events_for_def log_ok_def split: option.splits)

lemma log_ok_snoc:
  "log_ok k es \<Longrightarrow> e_session_id e = k \<Longrightarrow> log_ok k (keep_last MAX_EVENTS_PER_SESSION (es @ [e]))"
  using set_keep_last [of MAX_EVENTS_PER_SESSION "es @ [e]"] by (auto simp: log_ok_def)

lemma keeps_reg_remove_session [keeps_intros]: "keeps reg_inv (reg_remove_session k)"
  unfolding keeps_def reg_remove_session_def
  by (auto simp: bind_def gets_def throw_def modify_def reg_inv_delete split: option.splits)

lemma keeps_reg_append_event [keeps_intros]: "keeps reg_inv (reg_append_event ev)"
proof (rule keepsI)
  fix r assume inv: "reg_inv r"
  note log = log_ok_events_for [OF inv, of "e_session_id ev"]
  show "reg_inv (snd (reg_append_event ev r))"
    using inv log log_ok_snoc [OF log refl] reg_inv_events [OF inv, of "e_session_id ev"]
    unfolding reg_append_event_def Let_def by (auto simp del: not_None_eq)
qed

lemma keeps_record_idempotency: "reg_inv r \<Longrightarrow> reg_inv (record_idempotency k r)"
  unfolding reg_inv_def record_idempotency_def by simp

lemma reg_inv_clear_events: "reg_inv r \<Longrightarrow> reg_inv (clear_events r)"
  unfolding reg_inv_def clear_events_def by simp

lemma map_of_clear_latest:
  "map_of (r_sessions (clear_latest_metrics r)) k =
     map_option (\<lambda>s. s\<lparr>s_latest_metric := None\<rparr>) (map_of (r_sessions r) k)"
  by (simp add: clear_latest_metrics_def map_of_map)

lemma reg_inv_clear_latest_metrics:
  assumes inv: "reg_inv r"
  shows "reg_inv (clear_latest_metrics r)"
proof (rule reg_invI)
  have fst_eq: "map fst (r_sessions (clear_latest_metrics r)) = map fst (r_sessions r)"
    by (simp add: clear_latest_metrics_def comp_def case_prod_beta)
  show "hm_wf (r_sessions (clear_latest_metrics r))"
    using reg_inv_wf(1) [OF inv] by (simp only: fst_eq)
  show "length (r_sessions (clear_latest_metrics r)) \<le> MAX_SESSIONS"
    using reg_inv_cap [OF inv] by (simp add: clear_latest_metrics_def)
  have rest [simp]: "r_external_index (clear_latest_metrics r) = r_external_index r"
      "r_events (clear_latest_metrics r) = r_events r"
    by (simp_all add: clear_latest_metrics_def)
  show "hm_wf (r_external_index (clear_latest_metrics r))" "hm_wf (r_events (clear_latest_metrics r))"
    using reg_inv_wf [OF inv] by simp_all
  show "s_id s = k \<and> map_of (r_external_index (clear_latest_metrics r)) (session_key s) = Some k"
    if "map_of (r_sessions (clear_latest_metrics r)) k = Some s" for k s
    using that by (auto simp: map_of_clear_latest dest: reg_inv_stored [OF inv])
  show "\<exists>s. map_of (r_sessions (clear_latest_metrics r)) k = Some s \<and> session_key s = x"
    if "map_of (r_external_index (clear_latest_metrics r)) x = Some k" for x k
    using that by (auto simp: map_of_clear_latest elim!: reg_inv_indexed [OF inv])
  show "map_of (r_sessions (clear_latest_metrics r)) k \<noteq> None \<and> log_ok k es"
    if "map_of (r_events (clear_latest_metrics r)) k = Some es" for k es
    using that reg_inv_log [OF inv] by (auto simp: map_of_clear_latest)
qed

text \<open>
  A new session gets the id computed from its key. Two keys may collide on that id;
  \<open>id_available\<close> excludes it for the key at hand.
\<close>

definition id_available :: "hasher \<Rightarrow> agent_source \<Rightarrow> string \<Rightarrow> session_registry \<Rightarrow> bool" where
  "id_available hash src ext r \<longleftrightarrow>
     (\<forall>s. reg_get r (session_id_for hash src ext) = Some s \<longrightarrow>
        s_source s = src \<and> s_external_session_id s = ext)"

definition builds_identity ::
  "agent_source \<Rightarrow> string \<Rightarrow> (string \<Rightarrow> agent_session) \<Rightarrow> bool" where
  "builds_identity src ext build \<longleftrightarrow>
     (\<forall>i. s_id (build i) = i \<and> s_source (build i) = src \<and> s_external_session_id (build i) = ext)"

lemma insert_new_session_run:
  "insert_new_session hash src ext build r =
     (case validate_external_session_id ext of
        Ok _ \<Rightarrow>
          (case map_of (r_external_index r) (external_key src ext) of
             Some k \<Rightarrow>
               (case map_of (r_sessions r) k of
                  None \<Rightarrow> (Panic ''indexed session'', r)
                | Some t \<Rightarrow> (Ok (t, True), r))
           | None \<Rightarrow>
               if length (r_sessions r) \<ge> MAX_SESSIONS then (Err (SessionCapacity MAX_SESSIONS), r)
               else
                 let s = build (session_id_for hash src ext) in
                 (case validate_external_session_id (s_external_session_id s) of
                    Ok _ \<Rightarrow> (Ok (s, False), reg_insert s r)
                  | Err e \<Rightarrow> (Err e, r)
                  | Panic p \<Rightarrow> (Panic p, r)))
      | Err e \<Rightarrow> (Err e, r)
      | Panic p \<Rightarrow> (Panic p, r))"
  by (simp add: insert_new_session_def reg_upsert_session_def seq_def bind_def op_basic_defs Let_def
      split: outcome.splits option.splits)

lemma reg_admits_fresh:
  assumes "reg_inv r" and "id_available hash src ext r"
    and "map_of (r_external_index r) (external_key src ext) = None"
    and "length (r_sessions r) < MAX_SESSIONS" and "builds_identity src ext build"
  shows "reg_admits (build (session_id_for hash src ext)) r"
proof (cases "map_of (r_sessions r) (session_id_for hash src ext)")
  case None
  with assms show ?thesis by (simp add: reg_admits_def builds_identity_def)
next
  case (Some t)
  with assms(2) have "session_key t = external_key src ext"
    by (auto simp: id_available_def reg_get_def)
  with reg_inv_stored(2) [OF assms(1) Some] assms(3) show ?thesis by simp
qed

lemma reg_inv_insert_new_session:
  assumes "reg_inv r" and "id_available hash src ext r" and "builds_identity src ext build"
  shows "reg_inv (snd (insert_new_session hash src ext build r))"
  using assms reg_inv_insert [OF assms(1) reg_admits_fresh [OF assms(1,2) _ _ assms(3)]]
  by (auto simp: insert_new_session_run Let_def split: outcome.splits option.splits)

lemma insert_new_session_no_panic:
  assumes "reg_inv r"
  shows "fst (insert_new_session hash src ext build r) \<noteq> Panic p"
  using assms
  by (auto simp: insert_new_session_run Let_def validate_defs validate_bounded_no_panic
      split: outcome.splits option.splits elim: reg_inv_indexed)

section \<open>Restoring a persisted registry\<close>

lemma reg_upsert_session_cases:
  obtains "reg_upsert_session s r = (Ok (), reg_insert s r)"
  | e where "reg_upsert_session s r = (Err e, r)"
proof (cases "validate_external_session_id (s_external_session_id s)")
  case (Ok u)
  then show ?thesis using that(1) by (simp add: reg_upsert_session_def seq_def bind_def op_basic_defs)
next
  case (Err e)
  then show ?thesis using that(2) by (simp add: reg_upsert_session_def seq_def bind_def op_basic_defs)
next
  case (Panic p)
  then show ?thesis by (simp add: validate_defs validate_bounded_no_panic)
qed

definition restorable :: "agent_session list \<Rightarrow> session_registry \<Rightarrow> bool" where
  "restorable ss r \<longleftrightarrow>
     distinct (map s_id ss) \<and> distinct (map session_key ss) \<and>
     (\<forall>s\<in>set ss. map_of (r_sessions r) (s_id s) = None \<and>
                 map_of (r_external_index r) (session_key s) = None) \<and>
     length (r_sessions r) + length ss \<le> MAX_SESSIONS"

lemma restorable_step:
  assumes "restorable (s # ss) r"
  shows "reg_admits s r" and "restorable ss (reg_insert s r)"
proof -
  from assms show "reg_admits s r"
    by (auto simp: restorable_def reg_admits_def)
  have "length (r_sessions (reg_insert s r)) = Suc (length (r_sessions r))"
    using assms by (simp add: restorable_def reg_insert_def length_AList_update map_of_eq_None_iff)
  moreover have "s_id t \<noteq> s_id s" "session_key t \<noteq> session_key s" if t: "t \<in> set ss" for t
  proof -
    have "s_id s \<notin> s_id ` set ss" "session_key s \<notin> session_key ` set ss"
      using assms by (simp_all add: restorable_def del: external_key_inj)
    with imageI [OF t, of s_id] imageI [OF t, of session_key]
    show "s_id t \<noteq> s_id s" "session_key t \<noteq> session_key s" by metis+
  qed
  ultimately show "restorable ss (reg_insert s r)"
    using assms unfolding restorable_def reg_insert_def
    by (simp del: external_key_inj)
qed

lemma reg_inv_upsert_all:
  "reg_inv r \<Longrightarrow> restorable ss r \<Longrightarrow> reg_inv (snd (for_each reg_upsert_session ss r))"
proof (induction ss arbitrary: r)
  case Nil
  then show ?case by (simp add: ret_def)
next
  case (Cons s ss)
  show ?case
  proof (cases rule: reg_upsert_session_cases [of s r])
    case 1
    with Cons restorable_step [OF Cons.prems(2)] show ?thesis
      by (simp add: op_simps reg_inv_insert)
  next
    case (2 e)
    with Cons.prems show ?thesis by (simp add: op_simps)
  qed
qed

lemma restore_event_sessions [simp]:
  "r_sessions (fold restore_event es r) = r_sessions r"
  by (induction es arbitrary: r) (simp_all add: restore_event_def)

lemma reg_inv_restore_events:
  "reg_inv r \<Longrightarrow> \<forall>e\<in>set es. map_of (r_sessions r) (e_session_id e) \<noteq> None \<Longrightarrow>
   reg_inv (fold restore_event es r)"
proof (induction es arbitrary: r)
  case (Cons e es)
  have "reg_inv (restore_event e r)"
    unfolding restore_event_def
    using Cons.prems by (intro reg_inv_events log_ok_snoc log_ok_events_for) auto
  moreover have "r_sessions (restore_event e r) = r_sessions r"
    by (simp add: restore_event_def)
  ultimately show ?case using Cons by simp
qed simp

lemma restorable_restore_order:
  assumes "distinct (map s_id ss)" and "distinct (map session_key ss)"
    and "r_sessions r = []" and "r_external_index r = []"
  shows "restorable (take MAX_SESSIONS (restore_order ss)) r"
proof -
  have perm: "mset (map f (restore_order ss)) = mset (map f ss)" for f :: "agent_session \<Rightarrow> string"
    by (simp add: restore_order_def)
  have "distinct (map f (restore_order ss))" if "distinct (map f ss)" for f :: "agent_session \<Rightarrow> string"
    using that mset_eq_imp_distinct_iff [OF perm] by blast
  with assms show ?thesis
    by (simp add: restorable_def take_map [symmetric] del: take_map)
qed

lemma reg_inv_restore:
  assumes "distinct (map s_id ss)" and "distinct (map session_key ss)"
  shows "reg_inv (snd (reg_restore ss es r))"
proof -
  define r0 where "r0 = r\<lparr>r_sessions := [], r_external_index := [], r_events := []\<rparr>"
  have r0: "reg_inv r0" "restorable (take MAX_SESSIONS (restore_order ss)) r0"
    using restorable_restore_order [OF assms] by (simp_all add: r0_def reg_inv_def)
  note up = reg_inv_upsert_all [OF r0]
  show ?thesis
    using up unfolding reg_restore_def r0_def [symmetric]
    by (auto simp: seq_def bind_def modify_def r0_def [symmetric] split: prod.splits outcome.splits
        intro!: reg_inv_restore_events)
qed

section \<open>The registry as a keyed store\<close>

lemma reg_get_insert: "reg_get (reg_insert s r) i = (if i = s_id s then Some s else reg_get r i)"
  by (simp add: reg_get_def reg_insert_def)

lemma reg_get_delete: "reg_get (reg_delete s k r) i = (if i = k then None else reg_get r i)"
  by (simp add: reg_get_def reg_delete_def)

lemma reg_get_write: "reg_get (reg_write k s r) i = (if i = k then Some s else reg_get r i)"
  by (simp add: reg_get_def reg_write_def)

interpretation registry: keyed_store reg_inv reg_get
  "\<lambda>r (src, ext). resolve_external r src ext" s_id "\<lambda>s. (s_source s, s_external_session_id s)"
  reg_admits reg_insert "\<lambda>s. reg_delete s (s_id s)"
proof (unfold_locales, goal_cases)
  case (1 r i v)
  then show ?case by (simp add: reg_get_def reg_inv_stored(1))
next
  case (2 r k v)
  then show ?case by (cases k) (auto simp: resolve_external_Some)
next
  case (3 r v w)
  then show ?case by (simp add: reg_admits_def reg_get_def)
next
  case (4 r v)
  then show ?case by (rule reg_inv_insert)
next
  case (5 v r i)
  then show ?case by (rule reg_get_insert)
next
  case (6 r v)
  then show ?case by (simp add: reg_get_def reg_inv_delete)
next
  case (7 v r i)
  then show ?case by (rule reg_get_delete)
qed

lemma resolve_external_insert:
  assumes "reg_inv r" and "reg_admits s r"
  shows "resolve_external (reg_insert s r) src ext =
    (if src = s_source s \<and> ext = s_external_session_id s then Some s else resolve_external r src ext)"
  using registry.find_put [OF assms, of "(src, ext)"] by auto

lemma resolve_external_delete:
  assumes "reg_inv r" and "reg_get r (s_id s) = Some s"
  shows "resolve_external (reg_delete s (s_id s) r) src ext =
    (if src = s_source s \<and> ext = s_external_session_id s then None else resolve_external r src ext)"
  using registry.find_del [OF assms, of "(src, ext)"] by auto

section \<open>Eviction\<close>

lemma reg_sessions_iff:
  assumes "reg_inv r" and "iteration_order ord"
  shows "s \<in> set (reg_sessions ord r) \<longleftrightarrow> reg_get r (s_id s) = Some s"
proof -
  have "s \<in> snd ` set (r_sessions r) \<longleftrightarrow> (\<exists>k. map_of (r_sessions r) k = Some s)"
    using map_of_eq_Some_iff [OF reg_inv_wf(1) [OF assms(1)]] by (force simp: image_iff)
  also have "\<dots> \<longleftrightarrow> map_of (r_sessions r) (s_id s) = Some s"
    using reg_inv_stored(1) [OF assms(1)] by blast
  finally show ?thesis
    by (simp add: reg_sessions_def reg_get_def set_hm_values [OF assms(2) reg_inv_wf(1) [OF assms(1)]])
qed

lemma oldest_terminal_Some:
  assumes "reg_inv r" and "iteration_order ord" and "oldest_terminal_session_id ord r = Some k"
  shows "\<exists>s. reg_get r k = Some s \<and> is_terminal (s_status s) \<and>
    (\<forall>t j. reg_get r j = Some t \<longrightarrow> is_terminal (s_status t) \<longrightarrow> session_age s \<le> session_age t)"
proof -
  from assms(3) obtain s where s: "s_id s = k"
    "min_by_key session_age (filter (\<lambda>s. is_terminal (s_status s)) (reg_sessions ord r)) = Some s"
    by (auto simp: oldest_terminal_session_id_def)
  from min_by_key_Some [OF s(2)]
  have mem: "s \<in> set (reg_sessions ord r)" "is_terminal (s_status s)"
    and least: "\<And>t. t \<in> set (reg_sessions ord r) \<Longrightarrow> is_terminal (s_status t) \<Longrightarrow>
      session_age s \<le> session_age t"
    by auto
  from mem(1) s(1) have "reg_get r k = Some s"
    by (simp add: reg_sessions_iff [OF assms(1,2)])
  moreover have "session_age s \<le> session_age t"
    if "reg_get r j = Some t" "is_terminal (s_status t)" for t j
    using that least [of t] registry.get_ident [OF assms(1) that(1)]
    by (simp add: reg_sessions_iff [OF assms(1,2)])
  ultimately show ?thesis using mem(2) by blast
qed

lemma reg_delete_makes_room:
  "reg_inv r \<Longrightarrow> reg_get r k = Some s \<Longrightarrow> length (r_sessions (reg_delete s k r)) < MAX_SESSIONS"
  using length_AList_delete_less [OF map_of_Some_key, of "r_sessions r" k s] reg_inv_cap [of r]
  by (simp add: reg_get_def reg_delete_def)

section \<open>The bootstrap selection\<close>

lemma last_in_keep_last: "xs \<noteq> [] \<Longrightarrow> 0 < n \<Longrightarrow> last xs \<in> set (keep_last n xs)"
  by (metis last_in_set last_keep_last length_greater_0_conv length_keep_last min_less_iff_conj)

definition sel_ok :: "session_event list \<times> nat set \<Rightarrow> bool" where
  "sel_ok acc \<longleftrightarrow>
     distinct (map e_id (fst acc)) \<and> e_id ` set (fst acc) = snd acc \<and>
     length (fst acc) \<le> BOOTSTRAP_MAX_EVENTS"

lemma select_events_ok: "sel_ok acc \<Longrightarrow> sel_ok (select_events acc es)"
  by (induction acc es rule: select_events.induct) (auto simp: sel_ok_def)

lemma select_events_subset:
  "set (fst (select_events acc es)) \<subseteq> set (fst acc) \<union> set es"
  by (induction acc es rule: select_events.induct) auto

lemma select_events_mono: "snd acc \<subseteq> snd (select_events acc es)"
  by (induction acc es rule: select_events.induct) auto

lemma select_events_grow: "length (fst (select_events acc es)) \<le> length (fst acc) + length es"
  by (induction acc es rule: select_events.induct) auto

lemma select_events_complete:
  "length (fst (select_events acc es)) < BOOTSTRAP_MAX_EVENTS \<Longrightarrow>
   e_id ` set es \<subseteq> snd (select_events acc es)"
proof (induction acc es rule: select_events.induct)
  case (2 sel ids e es)
  then show ?case
    using select_events_mono [of "(sel, ids)" es]
      select_events_mono [of "(sel @ [e], insert (e_id e) ids)" es]
    by (auto split: if_splits)
qed simp

lemma foldl_select_ok: "sel_ok acc \<Longrightarrow> sel_ok (foldl (\<lambda>a x. select_events a (g x)) acc xs)"
  by (induction xs arbitrary: acc) (simp_all add: select_events_ok)

lemma foldl_select_subset:
  "set (fst (foldl (\<lambda>a x. select_events a (g x)) acc xs)) \<subseteq> set (fst acc) \<union> (\<Union>x\<in>set xs. set (g x))"
proof (induction xs arbitrary: acc)
  case (Cons x xs)
  then show ?case using select_events_subset [of acc "g x"] by fastforce
qed simp

lemma foldl_select_mono: "snd acc \<subseteq> snd (foldl (\<lambda>a x. select_events a (g x)) acc xs)"
proof (induction xs arbitrary: acc)
  case (Cons x xs)
  have "snd acc \<subseteq> snd (select_events acc (g x))" by (rule select_events_mono)
  also have "\<dots> \<subseteq> snd (foldl (\<lambda>a x. select_events a (g x)) (select_events acc (g x)) xs)"
    by (rule Cons.IH)
  finally show ?case by simp
qed simp

lemma foldl_select_complete:
  assumes "\<And>x. length (g x) \<le> 1" and "length (fst acc) + length xs < BOOTSTRAP_MAX_EVENTS"
    and "x \<in> set xs"
  shows "e_id ` set (g x) \<subseteq> snd (foldl (\<lambda>a x. select_events a (g x)) acc xs)"
  using assms(2,3)
proof (induction xs arbitrary: acc)
  case (Cons y ys)
  let ?acc = "select_events acc (g y)"
  have len: "length (fst ?acc) \<le> Suc (length (fst acc))"
    using select_events_grow [of acc "g y"] assms(1) [of y] by linarith
  show ?case
  proof (cases "x = y")
    case True
    have "e_id ` set (g y) \<subseteq> snd ?acc"
      using len Cons.prems(1) by (intro select_events_complete) simp
    then show ?thesis
      using True foldl_select_mono [of ?acc g ys] by auto
  next
    case False
    then show ?thesis using Cons len by simp
  qed
qed simp

lemma bootstrap_active_iff:
  assumes "reg_inv r" and "iteration_order ord"
  shows "s \<in> set (bootstrap_active ord r) \<longleftrightarrow> reg_get r (s_id s) = Some s \<and> restore_priority s = 0"
  by (simp add: bootstrap_active_def reg_sessions_iff [OF assms])

lemma length_bootstrap_active:
  assumes "reg_inv r" and "iteration_order ord"
  shows "length (bootstrap_active ord r) \<le> MAX_SESSIONS"
proof -
  have "length (reg_sessions ord r) = length (r_sessions r)"
    using mset_hm_values [OF assms(2) reg_inv_wf(1) [OF assms(1)]]
    by (metis length_map mset_eq_length reg_sessions_def)
  then show ?thesis
    using reg_inv_cap [OF assms(1)] length_filter_le [of _ "reg_sessions ord r"]
    by (simp add: bootstrap_active_def) (metis le_trans)
qed

lemma bootstrap_reserved_ok: "sel_ok (bootstrap_reserved ord r)"
  unfolding bootstrap_reserved_def by (rule foldl_select_ok) (simp add: sel_ok_def)

lemma bootstrap_reserved_active:
  assumes "reg_inv r" and "iteration_order ord" and "reg_get r k = Some s"
    and "restore_priority s = 0" and "events_for r k \<noteq> []"
  shows "e_id (last (events_for r k)) \<in> snd (bootstrap_reserved ord r)"
proof -
  let ?g = "\<lambda>s. keep_last BOOTSTRAP_EVENTS_PER_ACTIVE_SESSION (events_for r (s_id s))"
  have k: "s_id s = k" using registry.get_ident [OF assms(1,3)] .
  then have mem: "s \<in> set (bootstrap_active ord r)"
    using assms by (simp add: bootstrap_active_iff)
  have "e_id ` set (?g s) \<subseteq> snd (bootstrap_reserved ord r)"
    unfolding bootstrap_reserved_def
    by (rule foldl_select_complete [OF _ _ mem])
      (use length_bootstrap_active [OF assms(1,2)] in
        \<open>simp_all add: BOOTSTRAP_EVENTS_PER_ACTIVE_SESSION_def BOOTSTRAP_MAX_EVENTS_def MAX_SESSIONS_eq\<close>)
  moreover have "last (events_for r k) \<in> set (?g s)"
    unfolding BOOTSTRAP_EVENTS_PER_ACTIVE_SESSION_def k
    by (rule last_in_keep_last) (simp_all add: assms(5))
  ultimately show ?thesis by blast
qed

text \<open>Every retained event, over all sessions.\<close>

definition retained :: "session_registry \<Rightarrow> session_event set" where
  "retained r = {e. \<exists>k. e \<in> set (events_for r k)}"

lemma events_for_iff: "e \<in> set (events_for r k) \<longleftrightarrow> (\<exists>es. map_of (r_events r) k = Some es \<and> e \<in> set es)"
  by (cases "map_of (r_events r) k") (simp_all add: events_for_def)

lemma retained_concat:
  assumes "reg_inv r" and "iteration_order ord"
  shows "set (concat (hm_values ord (r_events r))) = retained r"
proof -
  have wf: "hm_wf (r_events r)" by (rule reg_inv_wf(3) [OF assms(1)])
  have "retained r = {e. \<exists>k es. (k, es) \<in> set (r_events r) \<and> e \<in> set es}"
    by (simp add: retained_def events_for_iff map_of_eq_Some_iff [OF wf])
  also have "\<dots> = set (concat (hm_values ord (r_events r)))"
    unfolding set_concat set_hm_values [OF assms(2) wf] by force
  finally show ?thesis by simp
qed

section \<open>Properties\<close>

text \<open>A concrete registry with one running session and its first event, for the witnesses.\<close>

definition sample_session :: agent_session where
  "sample_session =
     \<lparr>s_id = ''s-1'', s_source = Cursor, s_external_session_id = ''ext-1'', s_label = ''test'',
      s_workspace_label = None, s_status = Running, s_attention = AttentionNone,
      s_started_at_ms = 1, s_last_event_at_ms = 1, s_ended_at_ms = None, s_process_root = None,
      s_verified_terminal = None, s_latest_metric = None\<rparr>"

definition sample_event :: "nat \<Rightarrow> session_event" where
  "sample_event n =
     \<lparr>e_id = 100 + n, e_session_id = ''s-1'', e_sequence = n, e_occurred_at_ms = int n,
      e_kind = KindStatus, e_level = LevelInfo, e_summary = ''ev'', e_tool_name = None\<rparr>"

definition sample_registry :: session_registry where
  "sample_registry =
     snd (reg_append_event (sample_event 1) (reg_insert sample_session registry_new))"

lemma sample_registry_eq:
  "sample_registry =
     \<lparr>r_sessions = [(''s-1'', sample_session)],
      r_external_index = [(''Cursor:ext-1'', ''s-1'')],
      r_events = [(''s-1'', [sample_event 1])], r_idempotency = {}\<rparr>"
  by (simp add: sample_registry_def reg_append_event_def reg_insert_def registry_new_def Let_def
      sample_event_def sample_session_def events_for_def external_key_def keep_last_def
      MAX_EVENTS_PER_SESSION_def)

lemma sample_resolve: "resolve_external sample_registry Cursor ''ext-1'' = Some sample_session"
  by (simp add: resolve_external_def sample_registry_eq external_key_def)

lemma sample_get: "reg_get sample_registry k = (if k = ''s-1'' then Some sample_session else None)"
  by (simp add: reg_get_def sample_registry_eq)

lemma sample_events: "events_for sample_registry k = (if k = ''s-1'' then [sample_event 1] else [])"
  by (simp add: events_for_def sample_registry_eq)

lemma reg_inv_sample: "reg_inv sample_registry"
proof -
  have "reg_inv (reg_insert sample_session registry_new)"
    by (intro reg_inv_insert reg_inv_new)
      (simp add: reg_admits_def registry_new_def MAX_SESSIONS_eq)
  then show ?thesis
    unfolding sample_registry_def by (rule keepsD [OF keeps_reg_append_event])
qed

lemma length_neq: "length xs \<noteq> length ys \<Longrightarrow> xs \<noteq> ys"
  by auto

lemma iteration_order_id: "iteration_order (\<lambda>ks. ks)"
  by (simp add: iteration_order_def)

text \<open>
  Inserting a session and looking it up: a successful \<open>insert_new_session\<close> keeps the
  registry invariant, the key resolves to the returned session afterwards, the call is reported
  as a replay exactly when the key was already known (and then nothing changes), and no other
  key's resolution changes. The key's id must not collide with another key's.
\<close>

theorem insert_new_session_lookup:
  assumes inv: "reg_inv r" and free: "id_available hash src ext r"
    and build: "builds_identity src ext build"
    and run: "insert_new_session hash src ext build r = (Ok (s, replay), r')"
  shows "reg_inv r' \<and> resolve_external r' src ext = Some s \<and>
    (replay \<longleftrightarrow> resolve_external r src ext \<noteq> None) \<and> (replay \<longrightarrow> r' = r) \<and>
    (\<forall>src' ext'. (src', ext') \<noteq> (src, ext) \<longrightarrow>
       resolve_external r' src' ext' = resolve_external r src' ext')"
proof (cases "map_of (r_external_index r) (external_key src ext)")
  case None
  then have new: "resolve_external r src ext = None"
    by (simp add: resolve_external_def)
  from None run have s: "s = build (session_id_for hash src ext)" and "\<not> replay"
    and r': "r' = reg_insert s r" and room: "length (r_sessions r) < MAX_SESSIONS"
    by (auto simp: insert_new_session_run Let_def split: outcome.splits if_splits)
  have adm: "reg_admits s r"
    unfolding s by (rule reg_admits_fresh [OF inv free None room build])
  have "s_source s = src" "s_external_session_id s = ext"
    using build by (simp_all add: s builds_identity_def)
  with reg_inv_insert [OF inv adm] resolve_external_insert [OF inv adm] new \<open>\<not> replay\<close>
  show ?thesis by (auto simp: r')
next
  case (Some k)
  then obtain t where t: "map_of (r_sessions r) k = Some t"
    using reg_inv_indexed [OF inv] by blast
  with Some run have "s = t" "replay" "r' = r"
    by (auto simp: insert_new_session_run split: outcome.splits)
  with inv Some t show ?thesis by (simp add: resolve_external_def)
qed

theorem insert_new_session_lookup_witness:
  "\<exists>s r'. insert_new_session (\<lambda>_ _. 7) Codex ''x'' (\<lambda>i. sample_session\<lparr>s_id := i, s_source := Codex,
       s_external_session_id := ''x''\<rparr>) sample_registry = (Ok (s, False), r') \<and>
     resolve_external r' Codex ''x'' = Some s \<and>
     resolve_external r' Cursor ''ext-1'' = Some sample_session"
proof -
  let ?b = "\<lambda>i. sample_session\<lparr>s_id := i, s_source := Codex, s_external_session_id := ''x''\<rparr>"
  let ?s = "?b (session_id_for (\<lambda>_ _. 7) Codex ''x'')"
  have run: "insert_new_session (\<lambda>_ _. 7) Codex ''x'' ?b sample_registry
      = (Ok (?s, False), reg_insert ?s sample_registry)"
    by (simp add: insert_new_session_run sample_registry_eq validate_defs validate_bounded_def
        protocol_limits external_key_def MAX_SESSIONS_eq Let_def)
  have "session_id_for (\<lambda>_ _. 7) Codex ''x'' \<noteq> ''s-1''"
    by (rule length_neq) simp
  then have "id_available (\<lambda>_ _. 7) Codex ''x'' sample_registry"
    by (simp add: id_available_def reg_get_def sample_registry_eq)
  moreover have "builds_identity Codex ''x'' ?b"
    by (simp add: builds_identity_def)
  ultimately have
    "resolve_external (reg_insert ?s sample_registry) Codex ''x'' = Some ?s \<and>
     resolve_external (reg_insert ?s sample_registry) Cursor ''ext-1'' = Some sample_session"
    using insert_new_session_lookup [OF reg_inv_sample _ _ run] sample_resolve by auto
  with run show ?thesis by blast
qed

text \<open>
  (C30) Bootstrap selection: at most 256 events, in chronological order, without a repeated id,
  all of them retained events; the newest event of every active or unresolved session is among
  them; and when fewer than 256 are returned, no retained event was left out.
\<close>

theorem bootstrap_events_selection:
  assumes inv: "reg_inv r" and ord: "iteration_order ord"
  shows "length (bootstrap_events ord r) \<le> BOOTSTRAP_MAX_EVENTS \<and>
    sorted (map event_key (bootstrap_events ord r)) \<and>
    distinct (map e_id (bootstrap_events ord r)) \<and>
    set (bootstrap_events ord r) \<subseteq> retained r \<and>
    (\<forall>k s. reg_get r k = Some s \<longrightarrow> restore_priority s = 0 \<longrightarrow> events_for r k \<noteq> [] \<longrightarrow>
       e_id (last (events_for r k)) \<in> e_id ` set (bootstrap_events ord r)) \<and>
    (length (bootstrap_events ord r) < BOOTSTRAP_MAX_EVENTS \<longrightarrow>
       e_id ` retained r \<subseteq> e_id ` set (bootstrap_events ord r))"
proof -
  let ?res = "bootstrap_reserved ord r"
  let ?glob = "sort_key event_key_rev (concat (hm_values ord (r_events r)))"
  let ?sel = "select_events ?res ?glob"
  have ok: "sel_ok ?sel" by (intro select_events_ok bootstrap_reserved_ok)
  have ids: "e_id ` set (bootstrap_events ord r) = snd ?sel"
    using ok by (simp add: bootstrap_events_def sel_ok_def)
  have perm: "mset (map e_id (bootstrap_events ord r)) = mset (map e_id (fst ?sel))"
    by (simp add: bootstrap_events_def)
  have dist: "distinct (map e_id (bootstrap_events ord r))"
    using ok unfolding sel_ok_def mset_eq_imp_distinct_iff [OF perm] by blast
  have "set (fst ?res) \<subseteq> retained r"
    using foldl_select_subset [of "\<lambda>s. keep_last BOOTSTRAP_EVENTS_PER_ACTIVE_SESSION
        (events_for r (s_id s))" "([], {})" "bootstrap_active ord r"]
      set_keep_last [of BOOTSTRAP_EVENTS_PER_ACTIVE_SESSION]
    unfolding bootstrap_reserved_def retained_def by fastforce
  then have sub: "set (bootstrap_events ord r) \<subseteq> retained r"
    using select_events_subset [of ?res ?glob] retained_concat [OF inv ord]
    by (auto simp: bootstrap_events_def)
  have act: "e_id (last (events_for r k)) \<in> e_id ` set (bootstrap_events ord r)"
    if "reg_get r k = Some s" "restore_priority s = 0" "events_for r k \<noteq> []" for k s
    using bootstrap_reserved_active [OF inv ord that] select_events_mono [of ?res ?glob]
    by (auto simp only: ids)
  have "e_id ` retained r \<subseteq> e_id ` set (bootstrap_events ord r)"
    if "length (bootstrap_events ord r) < BOOTSTRAP_MAX_EVENTS"
    using that select_events_complete [of ?res ?glob] retained_concat [OF inv ord]
    by (simp add: ids) (simp add: bootstrap_events_def)
  with ok dist sub act show ?thesis
    by (auto simp: sel_ok_def bootstrap_events_def)
qed

theorem bootstrap_events_selection_witness:
  "e_id (sample_event 1) \<in> e_id ` set (bootstrap_events (\<lambda>ks. ks) sample_registry) \<and>
   length (bootstrap_events (\<lambda>ks. ks) sample_registry) \<le> 256"
proof -
  have "reg_get sample_registry ''s-1'' = Some sample_session" "restore_priority sample_session = 0"
    "events_for sample_registry ''s-1'' \<noteq> []" "last (events_for sample_registry ''s-1'') = sample_event 1"
    by (simp_all add: sample_get sample_events restore_priority_def sample_session_def)
  with bootstrap_events_selection [OF reg_inv_sample iteration_order_id] show ?thesis
    unfolding BOOTSTRAP_MAX_EVENTS_def by metis
qed

definition contiguous :: "session_event list \<Rightarrow> bool" where
  "contiguous es \<longleftrightarrow> successively (\<lambda>a b. e_sequence b = wrap_u64 (Suc (e_sequence a))) es"

lemma contiguous_snoc:
  "contiguous es \<Longrightarrow> (es \<noteq> [] \<Longrightarrow> e_sequence e = wrap_u64 (Suc (e_sequence (last es)))) \<Longrightarrow>
   contiguous (es @ [e])"
  by (cases "es = []") (simp_all add: contiguous_def successively_append_iff)

lemma contiguous_keep_last: "contiguous es \<Longrightarrow> contiguous (keep_last n es)"
  unfolding contiguous_def by (rule successively_keep_last)

text \<open>
  Appending an event to a known session: it is accepted exactly when it carries the next
  sequence number. Then it becomes the newest entry of that session's log (the oldest entries
  beyond 10000 drop out, the numbering stays gapless) and the next expected number advances; a
  rejected event leaves every log as it was. Other sessions' logs never change, and the
  invariant is kept either way.
\<close>

theorem append_event_log:
  assumes inv: "reg_inv r" and known: "reg_get r (e_session_id ev) \<noteq> None"
    and run: "reg_append_event ev r = (res, r')"
  shows "reg_inv r' \<and>
    (res = Ok () \<longleftrightarrow> e_sequence ev = next_event_sequence r (e_session_id ev)) \<and>
    (res = Ok () \<longrightarrow>
       events_for r' (e_session_id ev) =
         keep_last MAX_EVENTS_PER_SESSION (events_for r (e_session_id ev) @ [ev]) \<and>
       next_event_sequence r' (e_session_id ev) = wrap_u64 (Suc (e_sequence ev)) \<and>
       (contiguous (events_for r (e_session_id ev)) \<longrightarrow>
          contiguous (events_for r' (e_session_id ev)))) \<and>
    (res \<noteq> Ok () \<longrightarrow> (\<exists>m. res = Err (IngestRejected m)) \<and>
       events_for r' (e_session_id ev) = events_for r (e_session_id ev)) \<and>
    (\<forall>j. j \<noteq> e_session_id ev \<longrightarrow> events_for r' j = events_for r j)"
proof -
  define k where "k = e_session_id ev"
  define es where "es = events_for r k"
  let ?put = "\<lambda>xs. r\<lparr>r_events := AList.update k xs (r_events r)\<rparr>"
  have put: "events_for (?put xs) j = (if j = k then xs else events_for r j)" for xs j
    by (simp add: events_for_def)
  have inv': "reg_inv r'"
    using keepsD_run [OF keeps_reg_append_event run inv] .
  have next_eq: "next_event_sequence r k = (if es = [] then 1 else wrap_u64 (Suc (e_sequence (last es))))"
    by (simp add: next_event_sequence_def es_def Let_def)
  show ?thesis
  proof (cases "e_sequence ev = next_event_sequence r k")
    case True
    with run known have res: "res = Ok ()" and r': "r' = ?put (keep_last MAX_EVENTS_PER_SESSION (es @ [ev]))"
      by (auto simp: reg_append_event_def Let_def reg_get_def next_eq k_def [symmetric]
          es_def [symmetric] split: if_splits)
    have cap: "0 < MAX_EVENTS_PER_SESSION" by (simp add: MAX_EVENTS_PER_SESSION_def)
    have "keep_last MAX_EVENTS_PER_SESSION (es @ [ev]) \<noteq> []"
      using cap by (simp flip: length_greater_0_conv)
    moreover have "last (keep_last MAX_EVENTS_PER_SESSION (es @ [ev])) = ev"
      using last_keep_last [OF _ cap, of "es @ [ev]"] by simp
    moreover have "contiguous es \<Longrightarrow> contiguous (keep_last MAX_EVENTS_PER_SESSION (es @ [ev]))"
      using True by (intro contiguous_keep_last contiguous_snoc) (simp_all add: next_eq)
    ultimately show ?thesis
      using True res inv' unfolding k_def [symmetric] es_def [symmetric]
      by (simp add: r' put next_event_sequence_def Let_def)
  next
    case False
    with run known have "\<exists>m. res = Err (IngestRejected m)" and r': "r' = ?put es"
      by (auto simp: reg_append_event_def Let_def reg_get_def next_eq sequence_error_def
          k_def [symmetric] es_def [symmetric] split: if_splits)
    with False inv' show ?thesis
      unfolding k_def [symmetric] es_def [symmetric] by (auto simp: r' put)
  qed
qed

theorem append_event_log_witness:
  "\<exists>r'. reg_append_event (sample_event 2) sample_registry = (Ok (), r') \<and>
     events_for r' ''s-1'' = [sample_event 1, sample_event 2] \<and> next_event_sequence r' ''s-1'' = 3"
proof -
  obtain res r' where run: "reg_append_event (sample_event 2) sample_registry = (res, r')"
    by (cases "reg_append_event (sample_event 2) sample_registry")
  have sid: "e_session_id (sample_event 2) = ''s-1''" "e_sequence (sample_event 2) = 2"
    "e_sequence (sample_event 1) = 1"
    by (simp_all add: sample_event_def)
  have "reg_get sample_registry (e_session_id (sample_event 2)) \<noteq> None"
    by (simp add: sid sample_get)
  from append_event_log [OF reg_inv_sample this run] run show ?thesis
    by (simp add: sid sample_events next_event_sequence_def [of sample_registry] Let_def
        keep_last_def MAX_EVENTS_PER_SESSION_def wrap_u64_def del: One_nat_def)
qed

text \<open>
  Restoring a persisted state establishes the registry invariant from any prior state and
  whatever the outcome, provided the rows have distinct ids and distinct keys (the primary key
  and the unique constraint of the sessions table): the capacity and log bounds hold and no
  event of an unknown session is kept.
\<close>

theorem restore_establishes_invariant:
  assumes "distinct (map s_id sessions)"
    and "distinct (map (\<lambda>s. (s_source s, s_external_session_id s)) sessions)"
  shows "reg_inv (snd (reg_restore sessions events r))"
proof -
  have "inj_on (\<lambda>(a, x). external_key a x) X" for X
    by (auto intro!: inj_onI)
  then have "distinct (map (\<lambda>(a, x). external_key a x)
      (map (\<lambda>s. (s_source s, s_external_session_id s)) sessions))"
    using assms(2) distinct_map by blast
  then have "distinct (map session_key sessions)"
    by (simp add: comp_def)
  with assms(1) show ?thesis by (rule reg_inv_restore)
qed

theorem restore_establishes_invariant_witness:
  "reg_inv (snd (reg_restore [sample_session] [sample_event 1] registry_new))"
  by (rule restore_establishes_invariant) simp_all

text \<open>
  Capacity: with room left no session is evicted; in a full registry the candidate is a
  terminal session that ended first among the terminal ones, and removing it makes room; when
  every session is live the registry refuses instead of evicting one.
\<close>

theorem eviction_candidate_sound:
  assumes inv: "reg_inv r" and ord: "iteration_order ord"
  shows "case capacity_eviction_candidate ord r of
      Ok None \<Rightarrow> reg_len r < MAX_SESSIONS
    | Ok (Some k) \<Rightarrow> reg_len r = MAX_SESSIONS \<and>
        (\<exists>s. reg_get r k = Some s \<and> is_terminal (s_status s) \<and>
           (\<forall>t j. reg_get r j = Some t \<longrightarrow> is_terminal (s_status t) \<longrightarrow>
              session_age s \<le> session_age t) \<and>
           reg_remove_session k r = (Ok (), reg_delete s k r) \<and>
           reg_len (reg_delete s k r) < MAX_SESSIONS)
    | Err e \<Rightarrow> e = SessionCapacity MAX_SESSIONS \<and> reg_len r = MAX_SESSIONS \<and>
        (\<forall>t j. reg_get r j = Some t \<longrightarrow> \<not> is_terminal (s_status t))
    | Panic p \<Rightarrow> False"
proof (cases "length (r_sessions r) < MAX_SESSIONS")
  case True
  then show ?thesis by (simp add: capacity_eviction_candidate_def reg_len_def)
next
  case False
  with reg_inv_cap [OF inv] have full: "reg_len r = MAX_SESSIONS" by (simp add: reg_len_def)
  show ?thesis
  proof (cases "oldest_terminal_session_id ord r")
    case None
    have "\<not> is_terminal (s_status t)" if t: "reg_get r j = Some t" for t j
    proof -
      have "t \<in> set (reg_sessions ord r)"
        using t registry.get_ident [OF inv t] by (simp add: reg_sessions_iff [OF inv ord])
      with None show ?thesis
        by (auto simp: oldest_terminal_session_id_def filter_empty_conv)
    qed
    with None False full show ?thesis by (simp add: capacity_eviction_candidate_def)
  next
    case (Some k)
    from oldest_terminal_Some [OF inv ord Some] obtain s where s: "reg_get r k = Some s"
      "is_terminal (s_status s)"
      "\<forall>t j. reg_get r j = Some t \<longrightarrow> is_terminal (s_status t) \<longrightarrow> session_age s \<le> session_age t"
      by blast
    moreover have "reg_remove_session k r = (Ok (), reg_delete s k r)"
      using s(1) by (simp add: reg_remove_session_def reg_get_def op_simps bind_def)
    moreover have "reg_len (reg_delete s k r) < MAX_SESSIONS"
      using reg_delete_makes_room [OF inv s(1)] by (simp add: reg_len_def)
    ultimately show ?thesis
      using Some False full by (auto simp: capacity_eviction_candidate_def)
  qed
qed

theorem eviction_candidate_sound_witness:
  "capacity_eviction_candidate (\<lambda>ks. ks) sample_registry = Ok None \<and> reg_len sample_registry < MAX_SESSIONS"
proof -
  have "capacity_eviction_candidate (\<lambda>ks. ks) sample_registry = Ok None"
    by (simp add: capacity_eviction_candidate_def sample_registry_eq MAX_SESSIONS_eq)
  with eviction_candidate_sound [OF reg_inv_sample iteration_order_id] show ?thesis by simp
qed

end
