(* ===== verification/Alert_Evaluator.thy ===== *)
theory Alert_Evaluator
  imports Notch_Interfaces
begin

text \<open>
  \<^verbatim>\<open>crates/notch-core/src/alerts.rs\<close>: sustained-threshold alerts on host metrics and one alert per
  newly raised attention request. \<open>ThresholdTracker\<close> is an optional time; the evaluator is a
  record.
\<close>

section \<open>State and operations\<close>

datatype alert_kind = NewAttention | CpuWarn | CpuCritical | MemoryHigh

record active_alert =
  al_kind :: alert_kind
  al_session_id :: "string option"
  al_attention :: "attention_kind option"
  al_message :: string
  al_raised_at_ms :: int

type_synonym threshold_tracker = "int option"

text \<open>\<open>ThresholdTracker::observe\<close>: whether the condition has held for \<open>required_ms\<close>.\<close>

definition observe :: "int \<Rightarrow> bool \<Rightarrow> int \<Rightarrow> threshold_tracker \<Rightarrow> bool \<times> threshold_tracker" where
  "observe now_ms is_above required_ms above_since_ms =
     (if is_above then
        let since = (case above_since_ms of Some t \<Rightarrow> t | None \<Rightarrow> now_ms)
        in (i64_saturating_sub now_ms since \<ge> required_ms, Some since)
      else (False, None))"

record alert_evaluator =
  cpu_warn :: threshold_tracker
  cpu_critical :: threshold_tracker
  rss :: threshold_tracker
  known_attention :: "string set"
  active :: "active_alert list"
  disk_alerts_enabled :: bool

definition evaluator_new :: alert_evaluator where
  "evaluator_new =
     \<lparr>cpu_warn = None, cpu_critical = None, rss = None, known_attention = {}, active = [],
      disk_alerts_enabled = False\<rparr>"

definition with_disk_alerts :: "bool \<Rightarrow> alert_evaluator \<Rightarrow> alert_evaluator" where
  "with_disk_alerts enabled ev = ev\<lparr>disk_alerts_enabled := enabled\<rparr>"

definition clear_local_acknowledgement :: "string \<Rightarrow> alert_evaluator \<Rightarrow> alert_evaluator" where
  "clear_local_acknowledgement session_id ev =
     ev\<lparr>known_attention := known_attention ev - {session_id},
        active := filter (\<lambda>a. al_session_id a \<noteq> Some session_id) (active ev)\<rparr>"

definition attention_alert :: "string \<Rightarrow> attention_kind \<Rightarrow> int \<Rightarrow> active_alert" where
  "attention_alert session_id attention now_ms =
     \<lparr>al_kind = NewAttention, al_session_id = Some session_id, al_attention = Some attention,
      al_message = ''Session requires attention: '' @ debug_attention attention,
      al_raised_at_ms = now_ms\<rparr>"

definition evaluate_attention ::
  "string \<Rightarrow> attention_kind \<Rightarrow> int \<Rightarrow> alert_evaluator \<Rightarrow> active_alert option \<times> alert_evaluator" where
  "evaluate_attention session_id attention now_ms ev =
     (if attention = AttentionNone then
        (None, ev\<lparr>known_attention := known_attention ev - {session_id}\<rparr>)
      else if session_id \<notin> known_attention ev then
        let alert = attention_alert session_id attention now_ms
        in (Some alert,
            ev\<lparr>known_attention := insert session_id (known_attention ev),
               active := active ev @ [alert]\<rparr>)
      else (None, ev))"

text \<open>
  \<open>(total as f64 * 0.25) as u64\<close>: the conversion rounds to 53 significant bits, ties to even;
  the multiplication by a quarter is exact; the cast back truncates.
\<close>

fun bit_length :: "nat \<Rightarrow> nat" where
  "bit_length n = (if n = 0 then 0 else Suc (bit_length (n div 2)))"

declare bit_length.simps [simp del]

definition round_f64 :: "nat \<Rightarrow> nat" where
  "round_f64 n =
     (let k = bit_length n - 53; q = n div 2 ^ k; m = n mod 2 ^ k
      in (if 2 ^ k < 2 * m \<or> (2 ^ k = 2 * m \<and> odd q) then q + 1 else q) * 2 ^ k)"

definition rss_threshold :: "nat \<Rightarrow> nat" where
  "rss_threshold total_memory_bytes = min RSS_ALERT_BYTES (round_f64 total_memory_bytes div 4)"

fun upsert_alert :: "active_alert \<Rightarrow> active_alert list \<Rightarrow> active_alert list" where
  "upsert_alert alert [] = [alert]"
| "upsert_alert alert (a # as) =
     (if al_kind a = al_kind alert \<and> al_session_id a = al_session_id alert then alert # as
      else a # upsert_alert alert as)"

definition upsert_global_alert :: "active_alert \<Rightarrow> alert_evaluator \<Rightarrow> alert_evaluator" where
  "upsert_global_alert alert ev = ev\<lparr>active := upsert_alert alert (active ev)\<rparr>"

definition host_alert :: "alert_kind \<Rightarrow> string \<Rightarrow> int \<Rightarrow> active_alert" where
  "host_alert kind message now_ms =
     \<lparr>al_kind = kind, al_session_id = None, al_attention = None, al_message = message,
      al_raised_at_ms = now_ms\<rparr>"

definition evaluate_cpu ::
  "host_metric_sample \<Rightarrow> int \<Rightarrow> alert_evaluator \<Rightarrow> active_alert list \<times> alert_evaluator" where
  "evaluate_cpu host now_ms ev =
     (let (critical, tr) = observe now_ms (f64_ge (hs_cpu_host_percent host) CPU_CRITICAL_THRESHOLD)
            CPU_CRITICAL_DURATION_MS (cpu_critical ev);
          ev = ev\<lparr>cpu_critical := tr\<rparr>
      in if critical then
           let alert = host_alert CpuCritical ''Host CPU sustained above 90%'' now_ms
           in ([alert], upsert_global_alert alert ev)
         else
           let (warn, tr) = observe now_ms (f64_ge (hs_cpu_host_percent host) CPU_WARN_THRESHOLD)
                 CPU_WARN_DURATION_MS (cpu_warn ev);
               ev = ev\<lparr>cpu_warn := tr\<rparr>
           in if warn then
                let alert = host_alert CpuWarn ''Host CPU sustained above 70%'' now_ms
                in ([alert], upsert_global_alert alert ev)
              else ([], ev))"

definition evaluate_rss ::
  "host_metric_sample \<Rightarrow> metric_sample \<Rightarrow> int \<Rightarrow> alert_evaluator \<Rightarrow>
   active_alert list \<times> alert_evaluator" where
  "evaluate_rss host aggregate now_ms ev =
     (let threshold = rss_threshold (hs_total_memory_bytes host);
          (high, tr) = observe now_ms (ms_rss_bytes aggregate \<ge> threshold)
            RSS_ALERT_DURATION_MS (rss ev);
          ev = ev\<lparr>rss := tr\<rparr>
      in if high then
           let alert = host_alert MemoryHigh
                 (''Aggregate RSS sustained above '' @ dec_string threshold @ '' bytes'') now_ms
           in ([alert], upsert_global_alert alert ev)
         else ([], ev))"

definition evaluate_host_metrics ::
  "host_metric_sample \<Rightarrow> metric_sample \<Rightarrow> int \<Rightarrow> alert_evaluator \<Rightarrow>
   active_alert list \<times> alert_evaluator" where
  "evaluate_host_metrics host aggregate now_ms ev =
     (let (raised_cpu, ev1) = evaluate_cpu host now_ms ev;
          (raised_rss, ev2) = evaluate_rss host aggregate now_ms ev1
      in (raised_cpu @ raised_rss, ev2))"

fun resource_kind :: "alert_kind \<Rightarrow> resource_alert_kind option" where
  "resource_kind CpuWarn = Some ResCpuWarn"
| "resource_kind CpuCritical = Some ResCpuCritical"
| "resource_kind MemoryHigh = Some ResMemoryHigh"
| "resource_kind NewAttention = None"

definition resource_alerts_from_active :: "active_alert list \<Rightarrow> resource_alert list" where
  "resource_alerts_from_active alerts =
     List.map_filter (\<lambda>a. map_option (\<lambda>k.
        \<lparr>ra_kind = k, ra_message = al_message a, ra_session_id = al_session_id a,
         ra_raised_at_ms = al_raised_at_ms a\<rparr>) (resource_kind (al_kind a))) alerts"

section \<open>The memory threshold\<close>

lemma bit_length_bounds: "0 < n \<Longrightarrow> 2 ^ (bit_length n - 1) \<le> n \<and> n < 2 ^ bit_length n"
proof (induction n rule: bit_length.induct)
  case (1 n)
  show ?case
  proof (cases "n div 2 = 0")
    case True
    with "1.prems" have "n = 1" by simp
    then show ?thesis by (simp add: bit_length.simps)
  next
    case False
    with 1 have "2 ^ (bit_length (n div 2) - 1) \<le> n div 2" "n div 2 < 2 ^ bit_length (n div 2)"
      by auto
    moreover have "0 < bit_length (n div 2)" using False by (subst bit_length.simps) simp
    moreover have "bit_length n = Suc (bit_length (n div 2))"
      using "1.prems" by (subst bit_length.simps) simp
    ultimately show ?thesis by (cases "bit_length (n div 2)") auto
  qed
qed

lemma round_f64_small: "n < 2 ^ 53 \<Longrightarrow> round_f64 n = n"
proof (cases "n = 0")
  case False
  assume "n < 2 ^ 53"
  with bit_length_bounds [of n] False have "(2 :: nat) ^ (bit_length n - 1) < 2 ^ 53" by linarith
  then have "bit_length n - 1 < 53"
    by (rule power_less_imp_less_exp [of "2 :: nat", rotated]) simp
  then have "bit_length n - 53 = 0" by simp
  then show ?thesis by (simp add: round_f64_def)
qed (simp add: round_f64_def)

lemma round_f64_large: "2 ^ 53 \<le> n \<Longrightarrow> 2 ^ 52 \<le> round_f64 n"
proof -
  assume n: "2 ^ 53 \<le> n"
  let ?k = "bit_length n - 53"
  have b: "2 ^ (bit_length n - 1) \<le> n" "n < 2 ^ bit_length n"
    using bit_length_bounds [of n] n by auto
  then have "(2 :: nat) ^ 53 < 2 ^ bit_length n" using n by linarith
  then have "53 < bit_length n"
    by (rule power_less_imp_less_exp [of "2 :: nat", rotated]) simp
  then have "52 + ?k = bit_length n - 1" by simp
  then have "2 ^ 52 * 2 ^ ?k \<le> n" using b(1) by (metis power_add)
  then have "2 ^ 52 \<le> n div 2 ^ ?k" by (simp add: less_eq_div_iff_mult_less_eq)
  then have "2 ^ 52 * 1 \<le> (if c then n div 2 ^ ?k + 1 else n div 2 ^ ?k) * 2 ^ ?k" for c
    by (intro mult_le_mono) auto
  then show ?thesis by (simp add: round_f64_def Let_def)
qed

lemma rss_threshold_eq: "rss_threshold n = min (2 ^ 32) (n div 4)"
proof (cases "n < 2 ^ 53")
  case True
  then show ?thesis by (simp add: rss_threshold_def round_f64_small RSS_ALERT_BYTES_def)
next
  case False
  then have "2 ^ 32 \<le> n div 4" "2 ^ 32 \<le> round_f64 n div 4"
    using round_f64_large [of n] by simp_all
  then show ?thesis by (simp add: rss_threshold_def RSS_ALERT_BYTES_def)
qed

section \<open>Sustained thresholds\<close>

text \<open>Observations in order, oldest first; the tracker after all of them.\<close>

primrec observe_all :: "int \<Rightarrow> (int \<times> bool) list \<Rightarrow> threshold_tracker \<Rightarrow> threshold_tracker" where
  "observe_all required [] tr = tr"
| "observe_all required (o1 # os) tr =
     observe_all required os (snd (observe (fst o1) (snd o1) required tr))"

lemma observe_all_snoc:
  "observe_all required (os @ [(t, b)]) tr = snd (observe t b required (observe_all required os tr))"
  by (induction os arbitrary: tr) simp_all

text \<open>The observations since the condition was last false.\<close>

definition current_run :: "(int \<times> bool) list \<Rightarrow> (int \<times> bool) list" where
  "current_run os = rev (takeWhile snd (rev os))"

lemma current_run_snoc:
  "current_run (os @ [(t, b)]) = (if b then current_run os @ [(t, b)] else [])"
  by (simp add: current_run_def)

lemma observe_all_run:
  "observe_all required os None =
     (if current_run os = [] then None else Some (fst (hd (current_run os))))"
proof (induction os rule: rev_induct)
  case Nil
  then show ?case by (simp add: current_run_def)
next
  case (snoc ob os)
  obtain t b where "ob = (t, b)" by (cases ob)
  with snoc show ?case
    by (simp add: observe_all_snoc current_run_snoc observe_def Let_def hd_append)
qed

section \<open>Alert kinds\<close>

definition global_kinds :: "alert_evaluator \<Rightarrow> alert_kind set" where
  "global_kinds ev = al_kind ` {a \<in> set (active ev). al_session_id a = None}"

lemma upsert_alert_kinds:
  "al_session_id x = None \<Longrightarrow>
   al_kind ` {a \<in> set (upsert_alert x as). al_session_id a = None} =
     insert (al_kind x) (al_kind ` {a \<in> set as. al_session_id a = None})"
  by (induction as) (auto simp: image_iff Collect_disj_eq split: if_splits)

lemma upsert_alert_mem: "x \<in> set (upsert_alert x as)"
  by (induction as) auto

lemma upsert_alert_other:
  "a \<in> set as \<Longrightarrow> al_kind a \<noteq> al_kind x \<or> al_session_id a \<noteq> al_session_id x \<Longrightarrow>
   a \<in> set (upsert_alert x as)"
  by (induction as) auto

lemma upsert_alert_count:
  "length (filter (\<lambda>a. al_kind a = k \<and> al_session_id a = None) as) \<le> 1 \<Longrightarrow>
   al_session_id x = None \<Longrightarrow>
   length (filter (\<lambda>a. al_kind a = k \<and> al_session_id a = None) (upsert_alert x as)) \<le> 1"
proof (induction as)
  case (Cons a as)
  show ?case
  proof (cases "al_kind a = al_kind x \<and> al_session_id a = al_session_id x")
    case True
    with Cons.prems show ?thesis by (auto split: if_splits)
  next
    case False
    then have keep: "upsert_alert x (a # as) = a # upsert_alert x as" by auto
    have same: "filter (\<lambda>a. al_kind a = k \<and> al_session_id a = None) (upsert_alert x as)
        = filter (\<lambda>a. al_kind a = k \<and> al_session_id a = None) as"
      if "al_kind x \<noteq> k" for as
      using that by (induction as) auto
    show ?thesis
      using Cons False same [of as] unfolding keep by (cases "al_kind x = k") (auto split: if_splits)
  qed
qed simp

lemma global_kinds_upsert:
  "al_session_id x = None \<Longrightarrow>
   global_kinds (upsert_global_alert x ev) = insert (al_kind x) (global_kinds ev)"
  by (simp add: global_kinds_def upsert_global_alert_def upsert_alert_kinds)

lemma global_kinds_trackers [simp]:
  "global_kinds (ev\<lparr>cpu_critical := x\<rparr>) = global_kinds ev"
  "global_kinds (ev\<lparr>cpu_warn := x\<rparr>) = global_kinds ev"
  "global_kinds (ev\<lparr>rss := x\<rparr>) = global_kinds ev"
  by (simp_all add: global_kinds_def)

lemma host_alert_fields [simp]:
  "al_kind (host_alert k m t) = k" "al_session_id (host_alert k m t) = None"
  "al_attention (host_alert k m t) = None" "al_raised_at_ms (host_alert k m t) = t"
  by (simp_all add: host_alert_def)

lemma active_upsert [simp]:
  "active (upsert_global_alert x ev) = upsert_alert x (active ev)"
  by (simp add: upsert_global_alert_def)

lemma evaluate_cpu_kinds:
  "evaluate_cpu host now ev = (raised, ev') \<Longrightarrow>
   global_kinds ev' = al_kind ` set raised \<union> global_kinds ev \<and>
   al_kind ` set raised \<subseteq> {CpuWarn, CpuCritical} \<and> length raised \<le> 1 \<and> set raised \<subseteq> set (active ev')"
  by (auto simp: evaluate_cpu_def Let_def global_kinds_upsert upsert_alert_mem
      split: prod.splits if_splits)

lemma evaluate_rss_kinds:
  "evaluate_rss host agg now ev = (raised, ev') \<Longrightarrow>
   global_kinds ev' = al_kind ` set raised \<union> global_kinds ev \<and>
   al_kind ` set raised \<subseteq> {MemoryHigh} \<and> length raised \<le> 1 \<and> set raised \<subseteq> set (active ev')"
  by (auto simp: evaluate_rss_def Let_def global_kinds_upsert upsert_alert_mem
      split: prod.splits if_splits)

lemma evaluate_rss_keeps:
  "evaluate_rss host agg now ev = (raised, ev') \<Longrightarrow> a \<in> set (active ev) \<Longrightarrow>
   al_kind a \<noteq> MemoryHigh \<Longrightarrow> a \<in> set (active ev')"
  by (auto simp: evaluate_rss_def Let_def split: prod.splits if_splits intro!: upsert_alert_other)

definition one_per_kind :: "alert_evaluator \<Rightarrow> bool" where
  "one_per_kind ev \<longleftrightarrow>
     (\<forall>k. length (filter (\<lambda>a. al_kind a = k \<and> al_session_id a = None) (active ev)) \<le> 1)"

lemma one_per_kind_upsert:
  "one_per_kind ev \<Longrightarrow> al_session_id x = None \<Longrightarrow> one_per_kind (upsert_global_alert x ev)"
  by (simp add: one_per_kind_def upsert_global_alert_def upsert_alert_count del: One_nat_def)

lemma one_per_kind_trackers [simp]:
  "one_per_kind (ev\<lparr>cpu_critical := x\<rparr>) = one_per_kind ev"
  "one_per_kind (ev\<lparr>cpu_warn := x\<rparr>) = one_per_kind ev"
  "one_per_kind (ev\<lparr>rss := x\<rparr>) = one_per_kind ev"
  by (simp_all add: one_per_kind_def)

lemma one_per_kind_host_metrics:
  "one_per_kind ev \<Longrightarrow> one_per_kind (snd (evaluate_host_metrics host agg now ev))"
  by (simp add: evaluate_host_metrics_def evaluate_cpu_def evaluate_rss_def Let_def one_per_kind_upsert
      split: prod.splits)

section \<open>Properties\<close>

text \<open>
  (C31) A sustained-threshold tracker fires at an observation exactly when the condition holds
  now, and has held at every observation since a time at least \<open>required\<close> ago: any observation
  below the threshold in between restarts the clock.
\<close>

theorem tracker_fires_iff_sustained:
  "fst (observe now is_above required (observe_all required os None)) \<longleftrightarrow>
     is_above \<and> (let run = current_run (os @ [(now, is_above)])
                 in i64_saturating_sub now (fst (hd run)) \<ge> required)"
  by (simp add: observe_def observe_all_run current_run_snoc Let_def hd_append)

text \<open>
  The memory threshold computed in floating point is exactly the lower of 4 GiB and a
  quarter of the host memory, for every \<open>u64\<close> amount of memory.
\<close>

theorem rss_threshold_exact:
  "rss_threshold total_bytes = min (4 * 1024 * 1024 * 1024) (total_bytes div 4)"
  by (simp add: rss_threshold_eq)

text \<open>
  One evaluation of the host metrics raises at most one CPU alert and at most one memory
  alert; every raised alert is active afterwards; the active list holds at most one alert of
  each resource kind; and no resource kind that was active before ceases to be: the evaluator
  replaces resource alerts but never retracts one, even when the load is gone.
\<close>

theorem host_metrics_alerts:
  assumes one: "one_per_kind ev" and run: "evaluate_host_metrics host agg now ev = (raised, ev')"
  shows "length (filter (\<lambda>a. al_kind a \<noteq> MemoryHigh) raised) \<le> 1 \<and>
    length (filter (\<lambda>a. al_kind a = MemoryHigh) raised) \<le> 1 \<and>
    set raised \<subseteq> set (active ev') \<and> one_per_kind ev' \<and>
    global_kinds ev' = global_kinds ev \<union> al_kind ` set raised"
proof -
  obtain rc ev1 rr where cpu: "evaluate_cpu host now ev = (rc, ev1)"
      and rss: "evaluate_rss host agg now ev1 = (rr, ev')" and raised: "raised = rc @ rr"
    using run by (auto simp: evaluate_host_metrics_def split: prod.splits)
  note c = evaluate_cpu_kinds [OF cpu] and m = evaluate_rss_kinds [OF rss]
  have "filter (\<lambda>a. al_kind a \<noteq> MemoryHigh) rr = []" "filter (\<lambda>a. al_kind a = MemoryHigh) rc = []"
    using c m by (auto simp: filter_empty_conv)
  moreover have "set rc \<subseteq> set (active ev')"
    using c evaluate_rss_keeps [OF rss] by fastforce
  moreover have "one_per_kind ev'"
    using one_per_kind_host_metrics [OF one, of host agg now] run by simp
  moreover have "length (filter P xs) \<le> 1" if "length xs \<le> 1" for P and xs :: "active_alert list"
    using that length_filter_le [of P xs] by linarith
  ultimately show ?thesis
    using c m by (auto simp: raised)
qed

definition hot_host :: host_metric_sample where
  "hot_host =
     \<lparr>hs_at_ms = 0, hs_cpu_host_percent = Fin 95, hs_used_memory_bytes = 0,
      hs_total_memory_bytes = 17179869184, hs_visible_process_count = 1,
      hs_disk_read_bytes_per_sec = 0, hs_disk_write_bytes_per_sec = 0\<rparr>"

definition small_aggregate :: metric_sample where
  "small_aggregate =
     \<lparr>ms_at_ms = 0, ms_cpu_core_percent = Fin 0, ms_cpu_host_percent = Fin 0, ms_rss_bytes = 0,
      ms_runtime_ms = 0, ms_process_count = 0, ms_read_bytes_per_sec = 0,
      ms_write_bytes_per_sec = 0,
      ms_quality = \<lparr>q_attribution = Exact, q_cpu = Available, q_io = IoUnavailable, q_reason = None\<rparr>\<rparr>"

theorem host_metrics_alerts_witness:
  "\<exists>raised ev'. evaluate_host_metrics hot_host small_aggregate 30000
       (evaluator_new\<lparr>cpu_critical := Some 0\<rparr>) = (raised, ev') \<and>
     al_kind ` set raised = {CpuCritical} \<and> global_kinds ev' = {CpuCritical} \<and> one_per_kind ev'"
proof -
  let ?ev = "evaluator_new\<lparr>cpu_critical := Some 0\<rparr>"
  have one: "one_per_kind ?ev" by (simp add: one_per_kind_def evaluator_new_def)
  obtain raised ev' where run: "evaluate_host_metrics hot_host small_aggregate 30000 ?ev = (raised, ev')"
    by (cases "evaluate_host_metrics hot_host small_aggregate 30000 ?ev")
  then have "al_kind ` set raised = {CpuCritical}"
    by (auto simp: evaluate_host_metrics_def evaluate_cpu_def evaluate_rss_def observe_def Let_def
        hot_host_def small_aggregate_def evaluator_new_def CPU_CRITICAL_THRESHOLD_def
        CPU_CRITICAL_DURATION_MS_def i64_saturating_sub_def sat_i64_def rss_threshold_eq
        upsert_global_alert_def)
  with host_metrics_alerts [OF one run] run show ?thesis
    by (auto simp: global_kinds_def evaluator_new_def)
qed

text \<open>A run of attention reports for one session: the alerts raised, and the evaluator after.\<close>

primrec attention_run ::
  "string \<Rightarrow> (attention_kind \<times> int) list \<Rightarrow> alert_evaluator \<Rightarrow> active_alert list \<times> alert_evaluator" where
  "attention_run sid [] ev = ([], ev)"
| "attention_run sid (r # rs) ev =
     (let (alert, ev1) = evaluate_attention sid (fst r) (snd r) ev;
          (alerts, ev2) = attention_run sid rs ev1
      in ((case alert of None \<Rightarrow> [] | Some a \<Rightarrow> [a]) @ alerts, ev2))"

text \<open>How often a sequence of reports goes from calm to requiring attention.\<close>

primrec rising_edges :: "bool \<Rightarrow> attention_kind list \<Rightarrow> nat" where
  "rising_edges raised [] = 0"
| "rising_edges raised (a # as) =
     (if a \<noteq> AttentionNone \<and> \<not> raised then 1 else 0) + rising_edges (a \<noteq> AttentionNone) as"

lemma attention_run_facts:
  "length (fst (attention_run sid rs ev)) = rising_edges (sid \<in> known_attention ev) (map fst rs) \<and>
   active (snd (attention_run sid rs ev)) = active ev @ fst (attention_run sid rs ev) \<and>
   (sid \<in> known_attention (snd (attention_run sid rs ev)) \<longleftrightarrow>
      (if rs = [] then sid \<in> known_attention ev else fst (last rs) \<noteq> AttentionNone))"
proof (induction rs arbitrary: ev)
  case (Cons r rs)
  obtain alert ev1 where step: "evaluate_attention sid (fst r) (snd r) ev = (alert, ev1)"
    by (cases "evaluate_attention sid (fst r) (snd r) ev")
  obtain alerts ev2 where rest: "attention_run sid rs ev1 = (alerts, ev2)"
    by (cases "attention_run sid rs ev1")
  have "active ev1 = active ev @ (case alert of None \<Rightarrow> [] | Some a \<Rightarrow> [a])"
    "length (case alert of None \<Rightarrow> [] | Some a \<Rightarrow> [a]) =
       (if fst r \<noteq> AttentionNone \<and> sid \<notin> known_attention ev then 1 else 0)"
    "sid \<in> known_attention ev1 \<longleftrightarrow> fst r \<noteq> AttentionNone"
    using step by (auto simp: evaluate_attention_def Let_def split: if_splits)
  with Cons [of ev1] step rest show ?case by auto
qed simp

text \<open>
  Attention alerts are edge-triggered: over any sequence of reports for a session, one
  alert is raised per change from calm to requiring attention, none while it persists or changes
  its kind; the raised alerts are appended to the active list, from which a calm report removes
  nothing; acknowledging removes all of the session's alerts and re-arms it.
\<close>

theorem attention_alerts_edge_triggered:
  "let (raised, ev') = attention_run sid reports ev in
     length raised = rising_edges (sid \<in> known_attention ev) (map fst reports) \<and>
     active ev' = active ev @ raised \<and>
     (sid \<in> known_attention ev' \<longleftrightarrow>
        (if reports = [] then sid \<in> known_attention ev else fst (last reports) \<noteq> AttentionNone)) \<and>
     (let acked = clear_local_acknowledgement sid ev' in
        sid \<notin> known_attention acked \<and>
        active acked = filter (\<lambda>a. al_session_id a \<noteq> Some sid) (active ev @ raised))"
  using attention_run_facts [of sid reports ev]
  by (cases "attention_run sid reports ev") (simp add: Let_def clear_local_acknowledgement_def)

end
