(* ===== verification/Stream_Buffers.thy ===== *)
theory Stream_Buffers
  imports Notch_Interfaces
begin

text \<open>
  \<^verbatim>\<open>crates/notch-core/src/stream.rs\<close>: the coalescer that merges payloads between two flushes, and
  the bounded replay buffer of emitted frames.
\<close>

section \<open>Coalescer\<close>

record stream_coalescer =
  pending_session_upserts :: "stream_payload hash_map"
  pending_metrics :: "metrics_frame option"
  pending_other :: "stream_payload list"

definition coalescer_new :: stream_coalescer where
  "coalescer_new = \<lparr>pending_session_upserts = [], pending_metrics = None, pending_other = []\<rparr>"

definition coalescer_push :: "stream_payload \<Rightarrow> stream_coalescer \<Rightarrow> stream_coalescer" where
  "coalescer_push payload c =
     (case payload of
        PSessionUpsert s \<Rightarrow>
          c\<lparr>pending_session_upserts :=
              AList.update (s_id s) (PSessionUpsert s) (pending_session_upserts c)\<rparr>
      | PMetrics m \<Rightarrow> c\<lparr>pending_metrics := Some m\<rparr>
      | other \<Rightarrow> c\<lparr>pending_other := pending_other c @ [other]\<rparr>)"

definition coalescer_drain ::
  "(string list \<Rightarrow> string list) \<Rightarrow> stream_coalescer \<Rightarrow> stream_payload list \<times> stream_coalescer" where
  "coalescer_drain ord c =
     (pending_other c @ hm_values ord (pending_session_upserts c) @
        (case pending_metrics c of None \<Rightarrow> [] | Some m \<Rightarrow> [PMetrics m]),
      c\<lparr>pending_other := [], pending_session_upserts := [], pending_metrics := None\<rparr>)"

definition coalescer_is_empty :: "stream_coalescer \<Rightarrow> bool" where
  "coalescer_is_empty c \<longleftrightarrow>
     pending_other c = [] \<and> pending_session_upserts c = [] \<and> pending_metrics c = None"

section \<open>Replay buffer\<close>

type_synonym stream_replay_buffer = "stream_frame list"

definition replay_new :: stream_replay_buffer where
  "replay_new = []"

definition replay_push :: "stream_frame \<Rightarrow> stream_replay_buffer \<Rightarrow> stream_replay_buffer" where
  "replay_push frame frames =
     (let frames' = frames @ [frame]
      in if length frames' > STREAM_REPLAY_CAPACITY
         then drop (length frames' - STREAM_REPLAY_CAPACITY) frames' else frames')"

definition replay_since :: "stream_replay_buffer \<Rightarrow> nat \<Rightarrow> stream_frame list" where
  "replay_since frames sequence = filter (\<lambda>f. f_sequence f > sequence) frames"

definition replay_latest_sequence :: "stream_replay_buffer \<Rightarrow> nat" where
  "replay_latest_sequence frames = (if frames = [] then 0 else f_sequence (last frames))"

interpretation replay: bounded_log "\<lambda>b. b" replay_push STREAM_REPLAY_CAPACITY
  by unfold_locales (simp_all add: STREAM_REPLAY_CAPACITY_def replay_push_def keep_last_def Let_def)

section \<open>What the coalescer holds\<close>

definition coalescer_inv :: "stream_coalescer \<Rightarrow> bool" where
  "coalescer_inv c \<longleftrightarrow>
     hm_wf (pending_session_upserts c) \<and>
     (\<forall>(k, p) \<in> set (pending_session_upserts c). \<exists>s. p = PSessionUpsert s \<and> s_id s = k) \<and>
     (\<forall>p \<in> set (pending_other c). (\<forall>s. p \<noteq> PSessionUpsert s) \<and> (\<forall>m. p \<noteq> PMetrics m))"

fun upsert_of :: "stream_payload \<Rightarrow> string option" where
  "upsert_of (PSessionUpsert s) = Some (s_id s)"
| "upsert_of _ = None"

fun is_metrics :: "stream_payload \<Rightarrow> bool" where
  "is_metrics (PMetrics m) = True"
| "is_metrics _ = False"

definition is_other :: "stream_payload \<Rightarrow> bool" where
  "is_other p \<longleftrightarrow> upsert_of p = None \<and> \<not> is_metrics p"

lemma is_other_iff: "is_other p \<longleftrightarrow> (\<forall>s. p \<noteq> PSessionUpsert s) \<and> (\<forall>m. p \<noteq> PMetrics m)"
  by (cases p) (simp_all add: is_other_def)

lemma coalescer_inv_new: "coalescer_inv coalescer_new"
  by (simp add: coalescer_inv_def coalescer_new_def)

lemma AList_update_mem: "x \<in> set (AList.update k v m) \<Longrightarrow> x = (k, v) \<or> x \<in> set m"
  by (induction m) (auto split: if_splits)

lemma coalescer_inv_push: "coalescer_inv c \<Longrightarrow> coalescer_inv (coalescer_push p c)"
  by (cases p) (auto simp: coalescer_inv_def coalescer_push_def dest!: AList_update_mem)

lemma coalescer_inv_drain: "coalescer_inv (snd (coalescer_drain ord c))"
  by (simp add: coalescer_inv_def coalescer_drain_def)

lemma coalescer_drain_empty: "coalescer_is_empty (snd (coalescer_drain ord c))"
  by (simp add: coalescer_is_empty_def coalescer_drain_def)

lemma coalescer_empty_drains_nothing:
  "iteration_order ord \<Longrightarrow> coalescer_is_empty c \<longleftrightarrow> fst (coalescer_drain ord c) = []" if "coalescer_inv c"
proof -
  assume ord: "iteration_order ord"
  have "hm_values ord (pending_session_upserts c) = [] \<longleftrightarrow> pending_session_upserts c = []"
    using mset_hm_values [OF ord, of "pending_session_upserts c"] that
    by (metis coalescer_inv_def mset_zero_iff map_is_Nil_conv)
  then show ?thesis
    by (auto simp: coalescer_is_empty_def coalescer_drain_def split: option.splits)
qed

text \<open>The pending maps against the history of pushes.\<close>

lemma pending_other_pushes:
  "pending_other (fold coalescer_push ps c) = pending_other c @ filter is_other ps"
  by (induction ps arbitrary: c)
    (auto simp: coalescer_push_def is_other_def split: stream_payload.splits)

lemma pending_metrics_pushes:
  "pending_metrics (fold coalescer_push ps c) =
     (if filter is_metrics ps = [] then pending_metrics c
      else (case last (filter is_metrics ps) of PMetrics m \<Rightarrow> Some m | _ \<Rightarrow> None))"
  by (induction ps arbitrary: c) (auto simp: coalescer_push_def split: stream_payload.splits)

lemma pending_upserts_pushes:
  "map_of (pending_session_upserts (fold coalescer_push ps c)) i =
     (if filter (\<lambda>p. upsert_of p = Some i) ps = [] then map_of (pending_session_upserts c) i
      else Some (last (filter (\<lambda>p. upsert_of p = Some i) ps)))"
  by (induction ps arbitrary: c) (auto simp: coalescer_push_def split: stream_payload.splits)

lemma coalescer_inv_pushes: "coalescer_inv c \<Longrightarrow> coalescer_inv (fold coalescer_push ps c)"
  by (induction ps arbitrary: c) (simp_all add: coalescer_inv_push)

lemma filter_map_filter_key:
  assumes "\<And>k v. f k = Some v \<Longrightarrow> g v \<longleftrightarrow> k = i"
  shows "distinct ks \<Longrightarrow> filter g (List.map_filter f ks) =
     (if i \<in> set ks then (case f i of None \<Rightarrow> [] | Some v \<Rightarrow> [v]) else [])"
  using assms by (induction ks) (auto simp: List.map_filter_simps split: option.splits)

lemma drained_upserts_of:
  assumes "iteration_order ord" and "coalescer_inv c"
  shows "filter (\<lambda>p. upsert_of p = Some i) (hm_values ord (pending_session_upserts c)) =
    (case map_of (pending_session_upserts c) i of None \<Rightarrow> [] | Some p \<Rightarrow> [p])"
proof -
  let ?m = "pending_session_upserts c"
  have m: "mset (ord (map fst ?m)) = mset (map fst ?m)"
    using assms(1) by (simp add: iteration_order_def)
  have "distinct (ord (map fst ?m))"
    using assms(2) mset_eq_imp_distinct_iff [OF m] by (simp add: coalescer_inv_def)
  moreover have "upsert_of p = Some i \<longleftrightarrow> k = i" if "map_of ?m k = Some p" for k p
    using assms(2) map_of_SomeD [OF that] by (fastforce simp: coalescer_inv_def)
  ultimately have "filter (\<lambda>p. upsert_of p = Some i) (hm_values ord ?m) =
      (if i \<in> set (ord (map fst ?m)) then (case map_of ?m i of None \<Rightarrow> [] | Some p \<Rightarrow> [p]) else [])"
    unfolding hm_values_def by (intro filter_map_filter_key) auto
  moreover have "map_of ?m i = None" if "i \<notin> set (ord (map fst ?m))"
    using that mset_eq_setD [OF m] by (simp add: map_of_eq_None_iff)
  ultimately show ?thesis by auto
qed

lemma drained_upserts_only:
  assumes "iteration_order ord" and "coalescer_inv c" and "p \<in> set (hm_values ord (pending_session_upserts c))"
  shows "\<exists>s. p = PSessionUpsert s"
  using assms by (fastforce simp: set_hm_values coalescer_inv_def)

lemma keep_last_one: "keep_last (Suc 0) xs = (if xs = [] then [] else [last xs])"
  by (cases xs rule: rev_cases) (auto simp: keep_last_def)

lemma filter_metrics_last:
  "filter is_metrics ps \<noteq> [] \<Longrightarrow> \<exists>m. last (filter is_metrics ps) = PMetrics m"
  using last_in_set [of "filter is_metrics ps"] by (auto elim: is_metrics.elims)

lemma drained_metrics:
  "(case pending_metrics (fold coalescer_push ps coalescer_new) of None \<Rightarrow> [] | Some m \<Rightarrow> [PMetrics m]) =
     keep_last 1 (filter is_metrics ps)"
  using filter_metrics_last [of ps]
  by (auto simp: pending_metrics_pushes coalescer_new_def keep_last_one)

section \<open>Properties\<close>

text \<open>
  What a flush emits for the payloads \<open>ps\<close> pushed since the last one, whatever order the
  hash map yields. Every event, removal, connector change and resync comes out, in the order it
  was pushed; of the upserts of one session, and of the metrics frames, exactly the last one
  comes out; the plain payloads come first, then the upserts, then the metrics; and the
  coalescer is left empty.
\<close>

theorem coalescer_emits_latest:
  assumes "iteration_order ord"
    and "coalescer_drain ord (fold coalescer_push ps coalescer_new) = (out, c)"
  shows "\<exists>ups. out = filter is_other ps @ ups @ keep_last 1 (filter is_metrics ps) \<and>
      (\<forall>p\<in>set ups. \<exists>s. p = PSessionUpsert s) \<and>
      (\<forall>i. filter (\<lambda>p. upsert_of p = Some i) ups = keep_last 1 (filter (\<lambda>p. upsert_of p = Some i) ps)) \<and>
      coalescer_is_empty c"
proof -
  let ?c = "fold coalescer_push ps coalescer_new"
  let ?ups = "hm_values ord (pending_session_upserts ?c)"
  have inv: "coalescer_inv ?c"
    by (intro coalescer_inv_pushes coalescer_inv_new)
  have "out = filter is_other ps @ ?ups @ keep_last 1 (filter is_metrics ps)"
    using assms(2) drained_metrics [of ps]
    by (auto simp: coalescer_drain_def pending_other_pushes coalescer_new_def)
  moreover have "filter (\<lambda>p. upsert_of p = Some i) ?ups =
      keep_last 1 (filter (\<lambda>p. upsert_of p = Some i) ps)" for i
    using drained_upserts_of [OF assms(1) inv, of i]
    by (simp add: pending_upserts_pushes keep_last_one) (simp add: coalescer_new_def)
  moreover have "coalescer_is_empty c"
    using assms(2) coalescer_drain_empty [of ord ?c] by simp
  ultimately show ?thesis
    using drained_upserts_only [OF assms(1) inv] by blast
qed

lemma keep_last_nonempty: "0 < n \<Longrightarrow> keep_last n xs = [] \<longleftrightarrow> xs = []"
  by (cases xs rule: rev_cases) (simp_all add: keep_last_def)

lemma keep_last_append:
  "keep_last n (xs @ ys) = (if n \<le> length ys then keep_last n ys else keep_last (n - length ys) xs @ ys)"
  by (auto simp: keep_last_def)

lemma filter_suffix_keep_last:
  assumes "sorted_wrt (\<lambda>a b. f a < (f b :: nat)) xs"
  shows "filter (\<lambda>x. q < f x) (keep_last n xs) = keep_last n (filter (\<lambda>x. q < f x) xs)"
proof -
  obtain ys zs where xs: "xs = ys @ zs" and ys: "\<forall>x\<in>set ys. f x \<le> q" and zs: "\<forall>x\<in>set zs. q < f x"
    using assms
  proof (induction xs arbitrary: thesis)
    case Nil
    then show ?case by simp
  next
    case (Cons x xs)
    show ?case
    proof (cases "q < f x")
      case True
      with Cons.prems(2) show ?thesis by (intro Cons.prems(1) [of "[]" "x # xs"]) auto
    next
      case False
      with Cons show ?thesis by (metis append_Cons leI set_ConsD sorted_wrt.simps(2))
    qed
  qed
  have "filter (\<lambda>x. q < f x) zs = zs" "filter (\<lambda>x. q < f x) ys = []"
    using ys zs by (auto simp: filter_id_conv filter_empty_conv)
  moreover have "filter (\<lambda>x. q < f x) (keep_last k ys) = []" for k
    using ys set_keep_last [of k ys] by (fastforce simp: filter_empty_conv)
  moreover have "filter (\<lambda>x. q < f x) (keep_last n zs) = keep_last n zs"
    using zs set_keep_last [of n zs] by (auto simp: filter_id_conv)
  ultimately show ?thesis
    by (auto simp: xs keep_last_append keep_last_short)
qed

text \<open>
  Catching up from the replay buffer. After frames \<open>fs\<close> with increasing sequence numbers
  were pushed into an empty buffer, a client that has seen everything up to \<open>q\<close> gets the newest
  \<open>STREAM_REPLAY_CAPACITY\<close> of the frames after \<open>q\<close>, in order: all of them unless more than the
  capacity were missed. The buffer never exceeds its capacity and knows the latest sequence.
\<close>

theorem replay_catches_up:
  assumes "sorted_wrt (\<lambda>a b. f_sequence a < f_sequence b) fs"
    and "b = fold replay_push fs replay_new"
  shows "replay_since b q = keep_last STREAM_REPLAY_CAPACITY (filter (\<lambda>f. q < f_sequence f) fs) \<and>
    length b \<le> STREAM_REPLAY_CAPACITY \<and>
    replay_latest_sequence b = (if fs = [] then 0 else f_sequence (last fs))"
proof -
  have b: "b = keep_last STREAM_REPLAY_CAPACITY fs"
    using assms(2) replay.entries_pushes [of replay_new fs] by (simp add: replay_new_def)
  have "replay_latest_sequence b = (if fs = [] then 0 else f_sequence (last fs))"
    using replay.cap_pos
    by (simp add: b replay_latest_sequence_def last_keep_last keep_last_nonempty)
  with filter_suffix_keep_last [OF assms(1)] show ?thesis
    by (simp add: b replay_since_def)
qed

definition sample_frames :: "stream_frame list" where
  "sample_frames =
     map (\<lambda>n. \<lparr>f_sequence = n, f_emitted_at_ms = 7, f_payload = PSessionRemove ''s''\<rparr>) [1, 2, 3]"

theorem replay_catches_up_witness:
  "replay_since (fold replay_push sample_frames replay_new) 1 = drop 1 sample_frames \<and>
   replay_latest_sequence (fold replay_push sample_frames replay_new) = 3"
  using replay_catches_up [of sample_frames "fold replay_push sample_frames replay_new" 1]
  by (simp add: sample_frames_def keep_last_def STREAM_REPLAY_CAPACITY_def)

theorem coalescer_emits_latest_witness:
  "\<forall>m1 m2. let ps = [PSessionRemove ''a'', PMetrics m1, PHeartbeat, PMetrics m2];
       (out, c) = coalescer_drain id (fold coalescer_push ps coalescer_new)
   in out = [PSessionRemove ''a'', PHeartbeat, PMetrics m2] \<and> coalescer_is_empty c"
proof (intro allI)
  fix m1 m2
  define ps where
    "ps = [PSessionRemove ''a'', PMetrics m1, PHeartbeat, PMetrics m2]"
  obtain out c where run: "coalescer_drain id (fold coalescer_push ps coalescer_new) = (out, c)"
    by fastforce
  have "iteration_order id" by (simp add: iteration_order_def)
  from coalescer_emits_latest [OF this run] obtain ups where
    out: "out = filter is_other ps @ ups @ keep_last 1 (filter is_metrics ps)"
    and ups: "\<forall>p\<in>set ups. \<exists>s. p = PSessionUpsert s"
      "\<forall>i. filter (\<lambda>p. upsert_of p = Some i) ups = keep_last 1 (filter (\<lambda>p. upsert_of p = Some i) ps)"
    and c: "coalescer_is_empty c" by blast
  have "ups = []"
    using ups by (cases ups) (fastforce simp: ps_def keep_last_def split: if_splits)+
  with out c run show "let ps = [PSessionRemove ''a'', PMetrics m1, PHeartbeat, PMetrics m2];
       (out, c) = coalescer_drain id (fold coalescer_push ps coalescer_new)
   in out = [PSessionRemove ''a'', PHeartbeat, PMetrics m2] \<and> coalescer_is_empty c"
    by (simp add: ps_def is_other_def keep_last_def)
qed

end
