(* ===== verification/Sqlite_Repository.thy ===== *)
theory Sqlite_Repository
  imports Notch_Interfaces "HOL-Library.Sublist"
begin

text \<open>
  \<^verbatim>\<open>crates/notch-core/src/persistence/sqlite.rs\<close>: the durable store. A table is the list of its
  rows; each SQL statement of the source is a total function on the tables with the constraints
  of \<^verbatim>\<open>migrations.rs\<close> (primary keys, \<open>UNIQUE\<close>, \<open>NOT NULL\<close>, the cascading foreign key).

  What the code takes from outside is in \<open>sqlite_env\<close>: the JSON texts of serde, the text of a
  UUID, the size of the database file, and the order in which SQLite scans a table, which
  decides ties of an \<open>ORDER BY\<close>. Every statement may also fail: \<open>db_faults\<close> is the schedule of
  the statements to come, where \<open>True\<close> is an I/O error that leaves the tables as they were.
\<close>

section \<open>Tables\<close>

record session_row =
  rs_id :: string
  rs_source :: string
  rs_external_session_id :: string
  rs_label :: string
  rs_workspace_label :: "string option"
  rs_status :: string
  rs_attention :: string
  rs_started_at_ms :: int
  rs_last_event_at_ms :: int
  rs_ended_at_ms :: "int option"
  rs_process_root_pid :: "int option"
  rs_process_root_started_at_ms :: "int option"
  rs_latest_metric_json :: "string option"
  rs_verified_terminal_json :: "string option"

record event_row =
  re_id :: string
  re_session_id :: string
  re_sequence :: int
  re_occurred_at_ms :: int
  re_kind :: string
  re_level :: string
  re_summary :: string
  re_tool_name :: "string option"

record integration_row =
  ri_source :: string
  ri_capabilities_json :: string
  ri_healthy :: int
  ri_message :: "string option"
  ri_updated_at_ms :: int

record bucket_row =
  rm_scope :: string
  rm_session_id :: string
  rm_bucket_start_ms :: int
  rm_cpu_host_percent :: f64
  rm_cpu_core_percent :: f64
  rm_rss_bytes :: int
  rm_runtime_ms :: int
  rm_process_count :: int
  rm_read_bytes_per_sec :: int
  rm_write_bytes_per_sec :: int

record sqlite_db =
  db_sessions :: "session_row list"
  db_events :: "event_row list"
  db_settings :: "(string \<times> string) list"
  db_integrations :: "integration_row list"
  db_buckets :: "bucket_row list"
  db_idempotency :: "(string \<times> int) list"
  db_remote_hosts :: "(string \<times> string \<times> int) list"
  db_faults :: "bool list"

record sqlite_env =
  metric_to_json :: "metric_sample \<Rightarrow> string option"
  metric_from_json :: "string \<Rightarrow> metric_sample option"
  terminal_to_json :: "verified_terminal_context \<Rightarrow> string option"
  terminal_from_json :: "string \<Rightarrow> verified_terminal_context option"
  settings_to_json :: "public_settings \<Rightarrow> string option"
  settings_from_json :: "string \<Rightarrow> public_settings option"
  capabilities_to_json :: "adapter_capabilities \<Rightarrow> string option"
  capabilities_from_json :: "string \<Rightarrow> adapter_capabilities option"
  uuid_to_string :: "nat \<Rightarrow> string"
  uuid_parse_str :: "string \<Rightarrow> nat option"
  scan_sessions :: "session_row list \<Rightarrow> session_row list"
  scan_events :: "event_row list \<Rightarrow> event_row list"
  scan_integrations :: "integration_row list \<Rightarrow> integration_row list"
  unique_checked_first :: bool
  in_memory :: bool
  file_bytes :: "sqlite_db \<Rightarrow> nat option"

definition sqlite_new :: sqlite_db where
  "sqlite_new = \<lparr>db_sessions = [], db_events = [], db_settings = [], db_integrations = [],
     db_buckets = [], db_idempotency = [], db_remote_hosts = [], db_faults = []\<rparr>"

record purge_report =
  pr_events_deleted :: nat
  pr_metric_buckets_deleted :: nat
  pr_bytes_after :: nat

record persisted_metric_series =
  pm_points :: "metric_sample list"
  pm_actual_first_ms :: "int option"
  pm_actual_last_ms :: "int option"
  pm_total_points :: nat
  pm_downsampled :: bool

record persisted_metric_history =
  ph_requested_start_ms :: int
  ph_requested_end_ms :: int
  ph_host :: persisted_metric_series
  ph_aggregate :: persisted_metric_series
  ph_agents :: "(string \<times> persisted_metric_series) list"

record session_event_page =
  sp_events :: "session_event list"
  sp_next_before_sequence :: "nat option"
  sp_has_more :: bool

section \<open>Statements\<close>

text \<open>
  \<open>db_err\<close> wraps every failure into \<open>CoreError::Other\<close>. A statement whose constraint fails
  (\<open>None\<close>) and one hit by a fault both change nothing but the schedule.
\<close>

definition db_err :: "string \<Rightarrow> core_error" where
  "db_err m = OtherError m"

type_synonym 'a db_op = "(sqlite_db, core_error, 'a) op"

definition statement :: "(sqlite_db \<Rightarrow> ('a \<times> sqlite_db) option) \<Rightarrow> 'a db_op" where
  "statement f db =
     (let faults = db_faults db; db' = db\<lparr>db_faults := tl faults\<rparr>
      in if faults \<noteq> [] \<and> hd faults then (Err (db_err ''io''), db')
         else (case f db' of
             None \<Rightarrow> (Err (db_err ''constraint''), db')
           | Some (x, db'') \<Rightarrow> (Ok x, db'')))"

definition query :: "(sqlite_db \<Rightarrow> 'a) \<Rightarrow> 'a db_op" where
  "query f = statement (\<lambda>db. Some (f db, db))"

definition execute :: "(sqlite_db \<Rightarrow> sqlite_db) \<Rightarrow> unit db_op" where
  "execute f = statement (\<lambda>db. Some ((), f db))"

text \<open>A negative \<open>LIMIT\<close> is no limit.\<close>

definition sql_limit :: "int \<Rightarrow> 'a list \<Rightarrow> 'a list" where
  "sql_limit n xs = (if n < 0 then xs else take (nat n) xs)"

definition from_json :: "'a option \<Rightarrow> 'a db_op" where
  "from_json r = lift (case r of None \<Rightarrow> Err (db_err ''json'') | Some x \<Rightarrow> Ok x)"

primrec transpose_option :: "('a \<Rightarrow> 'b option) \<Rightarrow> 'a option \<Rightarrow> 'b option option" where
  "transpose_option f None = Some None"
| "transpose_option f (Some x) = map_option Some (f x)"

section \<open>Stored enumerations\<close>

definition parse_source :: "string \<Rightarrow> agent_source" where
  "parse_source value =
     (if value = ''Cursor'' then Cursor
      else if value = ''ClaudeCode'' then ClaudeCode
      else if value = ''Codex'' then Codex
      else if value = ''Gemini'' then Gemini
      else if value = ''AntigravityCli'' then AntigravityCli
      else if value = ''CopilotCli'' then CopilotCli
      else if value = ''Qwen'' then Qwen
      else if value = ''Generic'' then Generic
      else UnknownSource)"

definition parse_status :: "string \<Rightarrow> session_status" where
  "parse_status value =
     (if value = ''Starting'' then Starting
      else if value = ''Running'' then Running
      else if value = ''Waiting'' then Waiting
      else if value = ''Paused'' then Paused
      else if value = ''Completed'' then Completed
      else if value = ''Failed'' then Failed
      else Stale)"

definition parse_attention :: "string \<Rightarrow> attention_kind" where
  "parse_attention value =
     (if value = ''None'' then AttentionNone
      else if value = ''Approval'' then AttentionApproval
      else if value = ''Question'' then AttentionQuestion
      else if value = ''Permission'' then AttentionPermission
      else if value = ''Error'' then AttentionError
      else AttentionNone)"

definition parse_event_kind :: "string \<Rightarrow> session_event_kind" where
  "parse_event_kind value =
     (if value = ''Lifecycle'' then KindLifecycle
      else if value = ''Tool'' then KindTool
      else if value = ''Attention'' then KindAttention
      else if value = ''Status'' then KindStatus
      else KindLifecycle)"

definition parse_event_level :: "string \<Rightarrow> event_level" where
  "parse_event_level value =
     (if value = ''Debug'' then LevelDebug
      else if value = ''Info'' then LevelInfo
      else if value = ''Warning'' then LevelWarning
      else if value = ''Error'' then LevelError
      else LevelInfo)"

lemma parse_debug_source [simp]: "parse_source (debug_source x) = x"
  by (cases x) (simp_all add: parse_source_def)

lemma parse_debug_status [simp]: "parse_status (debug_status x) = x"
  by (cases x) (simp_all add: parse_status_def)

lemma parse_debug_attention [simp]: "parse_attention (debug_attention x) = x"
  by (cases x) (simp_all add: parse_attention_def)

lemma parse_debug_event_kind [simp]: "parse_event_kind (debug_event_kind x) = x"
  by (cases x) (simp_all add: parse_event_kind_def)

lemma parse_debug_event_level [simp]: "parse_event_level (debug_event_level x) = x"
  by (cases x) (simp_all add: parse_event_level_def)

section \<open>Sessions\<close>

definition session_row_of ::
  "agent_session \<Rightarrow> string option \<Rightarrow> string option \<Rightarrow> session_row" where
  "session_row_of session latest_metric_json verified_terminal_json =
     \<lparr>rs_id = s_id session,
      rs_source = debug_source (s_source session),
      rs_external_session_id = s_external_session_id session,
      rs_label = s_label session,
      rs_workspace_label = s_workspace_label session,
      rs_status = debug_status (s_status session),
      rs_attention = debug_attention (s_attention session),
      rs_started_at_ms = s_started_at_ms session,
      rs_last_event_at_ms = s_last_event_at_ms session,
      rs_ended_at_ms = s_ended_at_ms session,
      rs_process_root_pid = map_option (\<lambda>p. int (pid p)) (s_process_root session),
      rs_process_root_started_at_ms = map_option pid_started_at_ms (s_process_root session),
      rs_latest_metric_json = latest_metric_json,
      rs_verified_terminal_json = verified_terminal_json\<rparr>"

text \<open>A column read as \<open>u32\<close>: out of range is an error of the whole query.\<close>

definition get_u32 :: "int option \<Rightarrow> nat option option" where
  "get_u32 v =
     (case v of None \<Rightarrow> Some None
      | Some i \<Rightarrow> if 0 \<le> i \<and> i < 2 ^ 32 then Some (Some (nat i)) else None)"

definition session_of_row :: "sqlite_env \<Rightarrow> session_row \<Rightarrow> agent_session option" where
  "session_of_row env row =
     (case get_u32 (rs_process_root_pid row) of
        None \<Rightarrow> None
      | Some root_pid \<Rightarrow> Some
          \<lparr>s_id = rs_id row,
           s_source = parse_source (rs_source row),
           s_external_session_id = rs_external_session_id row,
           s_label = rs_label row,
           s_workspace_label = rs_workspace_label row,
           s_status = parse_status (rs_status row),
           s_attention = parse_attention (rs_attention row),
           s_started_at_ms = rs_started_at_ms row,
           s_last_event_at_ms = rs_last_event_at_ms row,
           s_ended_at_ms = rs_ended_at_ms row,
           s_process_root =
             (case (root_pid, rs_process_root_started_at_ms row) of
                (Some p, Some started_at_ms) \<Rightarrow>
                  Some \<lparr>pid = p, pid_started_at_ms = started_at_ms\<rparr>
              | _ \<Rightarrow> None),
           s_verified_terminal =
             Option.bind (rs_verified_terminal_json row) (terminal_from_json env),
           s_latest_metric = Option.bind (rs_latest_metric_json row) (metric_from_json env)\<rparr>)"

text \<open>The \<open>ORDER BY\<close> of both load queries: live or attention-seeking first, newest first.\<close>

definition session_rank :: "session_row \<Rightarrow> nat \<times> int" where
  "session_rank row =
     (if rs_status row \<notin> {''Completed'', ''Failed'', ''Stale''} \<or> rs_attention row \<noteq> ''None''
      then 0 else 1, - rs_last_event_at_ms row)"

definition selected_sessions :: "sqlite_env \<Rightarrow> sqlite_db \<Rightarrow> session_row list" where
  "selected_sessions env db =
     sql_limit (int MAX_SESSIONS) (sort_key session_rank (scan_sessions env (db_sessions db)))"

definition load_sessions :: "sqlite_env \<Rightarrow> agent_session list db_op" where
  "load_sessions env =
     bind (query (selected_sessions env)) (\<lambda>rows.
       from_json (those (map (session_of_row env) rows)))"

text \<open>\<open>ON CONFLICT(id) DO UPDATE\<close> leaves source, external id and start as they were.\<close>

definition update_session_row :: "session_row \<Rightarrow> session_row \<Rightarrow> session_row" where
  "update_session_row excluded row =
     row\<lparr>rs_label := rs_label excluded,
         rs_workspace_label := rs_workspace_label excluded,
         rs_status := rs_status excluded,
         rs_attention := rs_attention excluded,
         rs_last_event_at_ms := rs_last_event_at_ms excluded,
         rs_ended_at_ms := rs_ended_at_ms excluded,
         rs_process_root_pid := rs_process_root_pid excluded,
         rs_process_root_started_at_ms := rs_process_root_started_at_ms excluded,
         rs_latest_metric_json := rs_latest_metric_json excluded,
         rs_verified_terminal_json := rs_verified_terminal_json excluded\<rparr>"

definition same_unique :: "session_row \<Rightarrow> session_row \<Rightarrow> bool" where
  "same_unique a b \<longleftrightarrow>
     rs_source a = rs_source b \<and> rs_external_session_id a = rs_external_session_id b"

definition insert_session_row ::
  "sqlite_env \<Rightarrow> session_row \<Rightarrow> sqlite_db \<Rightarrow> (unit \<times> sqlite_db) option" where
  "insert_session_row env row db =
     (let rows = db_sessions db;
          id_taken = list_ex (\<lambda>r. rs_id r = rs_id row) rows;
          unique_taken = list_ex (\<lambda>r. same_unique r row \<and> rs_id r \<noteq> rs_id row) rows
      in if unique_taken \<and> (\<not> id_taken \<or> unique_checked_first env) then None
         else if id_taken then
           Some ((), db\<lparr>db_sessions :=
             map (\<lambda>r. if rs_id r = rs_id row then update_session_row row r else r) rows\<rparr>)
         else Some ((), db\<lparr>db_sessions := rows @ [row]\<rparr>))"

definition upsert_session :: "sqlite_env \<Rightarrow> agent_session \<Rightarrow> unit db_op" where
  "upsert_session env session =
     bind (from_json (transpose_option (metric_to_json env) (s_latest_metric session)))
       (\<lambda>latest_metric_json.
     bind (from_json (transpose_option (terminal_to_json env) (s_verified_terminal session)))
       (\<lambda>verified_terminal_json.
       statement (insert_session_row env
         (session_row_of session latest_metric_json verified_terminal_json))))"

definition remove_session :: "string \<Rightarrow> unit db_op" where
  "remove_session session_id =
     execute (\<lambda>db. db\<lparr>db_sessions := filter (\<lambda>r. rs_id r \<noteq> session_id) (db_sessions db),
                      db_events := filter (\<lambda>r. re_session_id r \<noteq> session_id) (db_events db)\<rparr>)"

section \<open>Events\<close>

definition event_row_of :: "sqlite_env \<Rightarrow> session_event \<Rightarrow> event_row" where
  "event_row_of env event =
     \<lparr>re_id = uuid_to_string env (e_id event),
      re_session_id = e_session_id event,
      re_sequence = u64_as_i64 (e_sequence event),
      re_occurred_at_ms = e_occurred_at_ms event,
      re_kind = debug_event_kind (e_kind event),
      re_level = debug_event_level (e_level event),
      re_summary = e_summary event,
      re_tool_name = e_tool_name event\<rparr>"

definition event_of_row :: "sqlite_env \<Rightarrow> event_row \<Rightarrow> session_event" where
  "event_of_row env row =
     \<lparr>e_id = (case uuid_parse_str env (re_id row) of None \<Rightarrow> 0 | Some u \<Rightarrow> u),
      e_session_id = re_session_id row,
      e_sequence = i64_as_u64 (re_sequence row),
      e_occurred_at_ms = re_occurred_at_ms row,
      e_kind = parse_event_kind (re_kind row),
      e_level = parse_event_level (re_level row),
      e_summary = re_summary row,
      e_tool_name = re_tool_name row\<rparr>"

text \<open>\<open>ROW_NUMBER() OVER (PARTITION BY session_id ORDER BY sequence DESC)\<close>\<close>

definition event_rank :: "event_row list \<Rightarrow> event_row \<Rightarrow> nat" where
  "event_rank rows row =
     1 + length (filter (\<lambda>r. re_session_id r = re_session_id row \<and> re_sequence row < re_sequence r) rows)"

definition ranked_events :: "sqlite_env \<Rightarrow> sqlite_db \<Rightarrow> event_row list" where
  "ranked_events env db =
     (let selected = map rs_id (selected_sessions env db);
          rows = filter (\<lambda>r. re_session_id r \<in> set selected) (db_events db)
      in sort_key (\<lambda>r. (re_session_id r, re_sequence r))
           (filter (\<lambda>r. event_rank rows r \<le> MAX_EVENTS_PER_SESSION) rows))"

definition load_events :: "sqlite_env \<Rightarrow> session_event list db_op" where
  "load_events env = bind (query (ranked_events env)) (\<lambda>rows. ret (map (event_of_row env) rows))"

definition events_of :: "string \<Rightarrow> sqlite_db \<Rightarrow> event_row list" where
  "events_of session_id db =
     sort_key re_sequence (filter (\<lambda>r. re_session_id r = session_id) (db_events db))"

definition delete_oldest_of :: "string \<Rightarrow> nat \<Rightarrow> sqlite_db \<Rightarrow> sqlite_db" where
  "delete_oldest_of session_id overflow db =
     (let victims = map re_id (take overflow (events_of session_id db))
      in db\<lparr>db_events := filter (\<lambda>r. re_id r \<notin> set victims) (db_events db)\<rparr>)"

definition trim_session_events :: "string \<Rightarrow> unit db_op" where
  "trim_session_events session_id =
     bind (query (\<lambda>db. length (filter (\<lambda>r. re_session_id r = session_id) (db_events db)))) (\<lambda>count.
       if count > MAX_EVENTS_PER_SESSION
       then execute (delete_oldest_of session_id (count - MAX_EVENTS_PER_SESSION))
       else ret ())"

definition insert_event_row :: "event_row \<Rightarrow> sqlite_db \<Rightarrow> (unit \<times> sqlite_db) option" where
  "insert_event_row row db =
     (if list_ex (\<lambda>r. re_id r = re_id row \<or>
           re_session_id r = re_session_id row \<and> re_sequence r = re_sequence row) (db_events db)
        \<or> re_session_id row \<notin> rs_id ` set (db_sessions db)
      then None
      else Some ((), db\<lparr>db_events := db_events db @ [row]\<rparr>))"

definition append_event :: "sqlite_env \<Rightarrow> session_event \<Rightarrow> unit db_op" where
  "append_event env event =
     seq (statement (insert_event_row (event_row_of env event)))
       (trim_session_events (e_session_id event))"

definition page_rows :: "string \<Rightarrow> nat option \<Rightarrow> nat \<Rightarrow> sqlite_db \<Rightarrow> event_row list" where
  "page_rows session_id before_sequence limit db =
     sql_limit (u64_as_i64 (min (limit + 1) (2 ^ 64 - 1)))
       (rev (filter (\<lambda>r. case before_sequence of None \<Rightarrow> True
                          | Some b \<Rightarrow> re_sequence r < u64_as_i64 b)
               (events_of session_id db)))"

definition load_session_event_page ::
  "sqlite_env \<Rightarrow> string \<Rightarrow> nat option \<Rightarrow> nat \<Rightarrow> session_event_page db_op" where
  "load_session_event_page env session_id before_sequence limit =
     bind (query (page_rows session_id before_sequence limit)) (\<lambda>rows.
       let events = map (event_of_row env) rows;
           has_more = length events > limit;
           events = rev (if has_more then butlast events else events)
       in ret \<lparr>sp_events = events,
               sp_next_before_sequence =
                 (if has_more \<and> events \<noteq> [] then Some (e_sequence (hd events)) else None),
               sp_has_more = has_more\<rparr>)"

section \<open>Settings, integrations, remote hosts, idempotency keys\<close>

definition load_settings :: "sqlite_env \<Rightarrow> public_settings option db_op" where
  "load_settings env =
     bind (query (\<lambda>db. map_of (db_settings db) ''public'')) (\<lambda>json.
       from_json (transpose_option (settings_from_json env) json))"

definition save_settings :: "sqlite_env \<Rightarrow> public_settings \<Rightarrow> unit db_op" where
  "save_settings env settings =
     bind (from_json (settings_to_json env settings)) (\<lambda>json.
       execute (\<lambda>db. db\<lparr>db_settings := AList.update ''public'' json (db_settings db)\<rparr>))"

definition load_remote_hosts :: "(string \<times> string) list db_op" where
  "load_remote_hosts =
     query (\<lambda>db. map (\<lambda>(k, config, _). (k, config)) (sort_key fst (db_remote_hosts db)))"

definition upsert_remote_host :: "string \<Rightarrow> string \<Rightarrow> int \<Rightarrow> unit db_op" where
  "upsert_remote_host host config_json updated_at_ms =
     execute (\<lambda>db. db\<lparr>db_remote_hosts :=
       AList.update host (config_json, updated_at_ms) (db_remote_hosts db)\<rparr>)"

definition remove_remote_host :: "string \<Rightarrow> bool db_op" where
  "remove_remote_host host =
     statement (\<lambda>db. Some (host \<in> fst ` set (db_remote_hosts db),
       db\<lparr>db_remote_hosts := AList.delete host (db_remote_hosts db)\<rparr>))"

definition put_integration_row :: "integration_row \<Rightarrow> integration_row list \<Rightarrow> integration_row list" where
  "put_integration_row row rows =
     (if list_ex (\<lambda>r. ri_source r = ri_source row) rows
      then map (\<lambda>r. if ri_source r = ri_source row then row else r) rows
      else rows @ [row])"

definition upsert_integration ::
  "sqlite_env \<Rightarrow> adapter_capabilities \<Rightarrow> bool \<Rightarrow> string option \<Rightarrow> int \<Rightarrow> unit db_op" where
  "upsert_integration env capabilities healthy message updated_at_ms =
     bind (from_json (capabilities_to_json env capabilities)) (\<lambda>json.
       execute (\<lambda>db. db\<lparr>db_integrations :=
         put_integration_row
           \<lparr>ri_source = debug_source (c_source capabilities), ri_capabilities_json = json,
            ri_healthy = (if healthy then 1 else 0), ri_message = message,
            ri_updated_at_ms = updated_at_ms\<rparr> (db_integrations db)\<rparr>))"

definition load_integrations :: "sqlite_env \<Rightarrow> adapter_capabilities list db_op" where
  "load_integrations env =
     bind (query (\<lambda>db. scan_integrations env (db_integrations db))) (\<lambda>rows.
       from_json (those (map (\<lambda>r. capabilities_from_json env (ri_capabilities_json r)) rows)))"

definition store_idempotency_key :: "string \<Rightarrow> int \<Rightarrow> bool db_op" where
  "store_idempotency_key key created_at_ms =
     statement (\<lambda>db. Some
       (if key \<in> fst ` set (db_idempotency db) then (True, db)
        else (False, db\<lparr>db_idempotency := db_idempotency db @ [(key, created_at_ms)]\<rparr>)))"

section \<open>Metric buckets\<close>

text \<open>SQLite stores a NaN as \<open>NULL\<close>, which the \<open>NOT NULL\<close> columns refuse.\<close>

definition bucket_row_of ::
  "string \<Rightarrow> string \<Rightarrow> int \<Rightarrow> metric_sample \<Rightarrow> bucket_row" where
  "bucket_row_of scope session_id bucket_start_ms sample =
     \<lparr>rm_scope = scope, rm_session_id = session_id, rm_bucket_start_ms = bucket_start_ms,
      rm_cpu_host_percent = ms_cpu_host_percent sample,
      rm_cpu_core_percent = ms_cpu_core_percent sample,
      rm_rss_bytes = u64_as_i64 (ms_rss_bytes sample),
      rm_runtime_ms = u64_as_i64 (ms_runtime_ms sample),
      rm_process_count = int (ms_process_count sample),
      rm_read_bytes_per_sec = u64_as_i64 (ms_read_bytes_per_sec sample),
      rm_write_bytes_per_sec = u64_as_i64 (ms_write_bytes_per_sec sample)\<rparr>"

definition bucket_key :: "bucket_row \<Rightarrow> string \<times> string \<times> int" where
  "bucket_key r = (rm_scope r, rm_session_id r, rm_bucket_start_ms r)"

definition put_bucket_row :: "bucket_row \<Rightarrow> bucket_row list \<Rightarrow> bucket_row list" where
  "put_bucket_row row rows =
     (if list_ex (\<lambda>r. bucket_key r = bucket_key row) rows
      then map (\<lambda>r. if bucket_key r = bucket_key row then row else r) rows
      else rows @ [row])"

definition record_metric_bucket ::
  "string \<Rightarrow> string option \<Rightarrow> int \<Rightarrow> metric_sample \<Rightarrow> unit db_op" where
  "record_metric_bucket scope session_id bucket_start_ms sample =
     (let key = (case session_id of None \<Rightarrow> HOST_METRIC_SESSION_KEY | Some s \<Rightarrow> s);
          row = bucket_row_of scope key bucket_start_ms sample
      in statement (\<lambda>db.
           if rm_cpu_host_percent row = NaN \<or> rm_cpu_core_percent row = NaN then None
           else Some ((), db\<lparr>db_buckets := put_bucket_row row (db_buckets db)\<rparr>)))"

definition non_negative_u64 :: "int \<Rightarrow> nat" where
  "non_negative_u64 value = nat (max value 0)"

definition historical_sample_from_row :: "string \<Rightarrow> bucket_row \<Rightarrow> metric_sample option" where
  "historical_sample_from_row reason row =
     (case get_u32 (Some (rm_process_count row)) of
        Some (Some process_count) \<Rightarrow> Some
          \<lparr>ms_at_ms = rm_bucket_start_ms row,
           ms_cpu_core_percent = rm_cpu_core_percent row,
           ms_cpu_host_percent = rm_cpu_host_percent row,
           ms_rss_bytes = non_negative_u64 (rm_rss_bytes row),
           ms_runtime_ms = non_negative_u64 (rm_runtime_ms row),
           ms_process_count = process_count,
           ms_read_bytes_per_sec = non_negative_u64 (rm_read_bytes_per_sec row),
           ms_write_bytes_per_sec = non_negative_u64 (rm_write_bytes_per_sec row),
           ms_quality = \<lparr>q_attribution = UnknownAttribution, q_cpu = Available,
                         q_io = IoUnavailable, q_reason = Some reason\<rparr>\<rparr>
      | _ \<Rightarrow> None)"

definition SCHEMA_V2_REASON :: string where
  "SCHEMA_V2_REASON = ''historical quality metadata is not persisted in schema v2''"

definition NOT_PERSISTED_REASON :: string where
  "NOT_PERSISTED_REASON = ''historical quality metadata is not persisted''"

definition load_metric_history :: "string \<Rightarrow> nat \<Rightarrow> metric_sample list db_op" where
  "load_metric_history session_id limit =
     bind (query (\<lambda>db. sql_limit (u64_as_i64 limit)
         (rev (sort_key rm_bucket_start_ms
           (filter (\<lambda>r. rm_scope r = ''agent'' \<and> rm_session_id r = session_id) (db_buckets db))))))
       (\<lambda>rows.
     bind (from_json (those (map (historical_sample_from_row SCHEMA_V2_REASON) rows))) (\<lambda>samples.
       ret (rev samples)))"

text \<open>The rows of one series in the requested range, in time order.\<close>

definition series_rows :: "string \<Rightarrow> string \<Rightarrow> int \<Rightarrow> int \<Rightarrow> sqlite_db \<Rightarrow> bucket_row list" where
  "series_rows scope session_id start_ms end_ms db =
     sort_key rm_bucket_start_ms
       (filter (\<lambda>r. rm_scope r = scope \<and> rm_session_id r = session_id \<and>
                    start_ms \<le> rm_bucket_start_ms r \<and> rm_bucket_start_ms r \<le> end_ms)
         (db_buckets db))"

definition series_stride :: "nat \<Rightarrow> nat \<Rightarrow> nat" where
  "series_stride total_points max_points = (total_points - 1 + (max_points - 2)) div (max_points - 1)"

text \<open>The \<open>WHERE\<close> of the ranked query; \<open>point_index\<close> counts from 1.\<close>

definition strided_rows :: "nat \<Rightarrow> nat \<Rightarrow> bucket_row list \<Rightarrow> bucket_row list" where
  "strided_rows max_points stride rows =
     map fst (filter (\<lambda>p. length rows \<le> max_points \<or> snd p = 0 \<or> snd p + 1 = length rows \<or>
                            snd p mod stride = 0) (zip rows [0..<length rows]))"

definition downsample_preserving_edges :: "'a list \<Rightarrow> nat \<Rightarrow> 'a list" where
  "downsample_preserving_edges points max_points =
     (if length points \<le> max_points then points
      else List.map_filter
        (\<lambda>index. let source_index =
                   min (index * (length points - 1)) (2 ^ 64 - 1) div (max_points - 1)
                 in if source_index < length points then Some (points ! source_index) else None)
        [0..<max_points])"

definition empty_series :: persisted_metric_series where
  "empty_series = \<lparr>pm_points = [], pm_actual_first_ms = None, pm_actual_last_ms = None,
     pm_total_points = 0, pm_downsampled = False\<rparr>"

definition load_metric_series ::
  "string \<Rightarrow> string \<Rightarrow> int \<Rightarrow> int \<Rightarrow> nat \<Rightarrow> persisted_metric_series db_op" where
  "load_metric_series scope session_id start_ms end_ms max_points =
     bind (query (series_rows scope session_id start_ms end_ms)) (\<lambda>counted.
       let total_points = length counted in
       if total_points = 0 then ret empty_series
       else
         (let stride = series_stride total_points max_points in
          bind (query (\<lambda>db. strided_rows max_points (max stride 1)
                              (series_rows scope session_id start_ms end_ms db))) (\<lambda>rows.
          bind (from_json (those (map (historical_sample_from_row NOT_PERSISTED_REASON) rows)))
            (\<lambda>samples. ret
              \<lparr>pm_points = downsample_preserving_edges samples max_points,
               pm_actual_first_ms = Some (rm_bucket_start_ms (hd counted)),
               pm_actual_last_ms = Some (rm_bucket_start_ms (last counted)),
               pm_total_points = total_points,
               pm_downsampled = (total_points > max_points)\<rparr>))))"

text \<open>\<open>SELECT DISTINCT session_id \<dots> ORDER BY session_id\<close>\<close>

definition agent_ids :: "int \<Rightarrow> int \<Rightarrow> sqlite_db \<Rightarrow> string list" where
  "agent_ids start_ms end_ms db =
     sort (remdups (map rm_session_id
       (filter (\<lambda>r. rm_scope r = ''agent'' \<and>
                    start_ms \<le> rm_bucket_start_ms r \<and> rm_bucket_start_ms r \<le> end_ms)
         (db_buckets db))))"

primrec load_each :: "('k \<Rightarrow> 'v db_op) \<Rightarrow> 'k list \<Rightarrow> ('k \<times> 'v) list db_op" where
  "load_each f [] = ret []"
| "load_each f (k # ks) =
     bind (f k) (\<lambda>v. bind (load_each f ks) (\<lambda>rest. ret ((k, v) # rest)))"

definition load_persisted_metric_history ::
  "int \<Rightarrow> int \<Rightarrow> nat \<Rightarrow> persisted_metric_history db_op" where
  "load_persisted_metric_history start_ms end_ms max_points =
     (if max_points < 2 \<or> end_ms < start_ms
      then throw (Validation ''invalid metric history range or per-series limit'')
      else
        bind (query (agent_ids start_ms end_ms)) (\<lambda>session_ids.
        bind (load_each (\<lambda>session_id.
               load_metric_series ''agent'' session_id start_ms end_ms max_points) session_ids)
          (\<lambda>agents.
        bind (load_metric_series ''host'' HOST_METRIC_SESSION_KEY start_ms end_ms max_points)
          (\<lambda>host.
        bind (load_metric_series ''aggregate'' HOST_METRIC_SESSION_KEY start_ms end_ms max_points)
          (\<lambda>aggregate. ret
            \<lparr>ph_requested_start_ms = start_ms, ph_requested_end_ms = end_ms,
             ph_host = host, ph_aggregate = aggregate, ph_agents = agents\<rparr>)))))"

section \<open>Purging and retention\<close>

definition forget_latest_metrics :: "sqlite_db \<Rightarrow> sqlite_db" where
  "forget_latest_metrics db =
     db\<lparr>db_sessions := map (\<lambda>r. r\<lparr>rs_latest_metric_json := None\<rparr>) (db_sessions db)\<rparr>"

text \<open>One transaction: both statements take effect at \<open>commit\<close>, or neither.\<close>

definition purge_metric_history :: "nat db_op" where
  "purge_metric_history =
     statement (\<lambda>db. Some (length (db_buckets db),
       forget_latest_metrics (db\<lparr>db_buckets := []\<rparr>)))"

definition purge_session_events :: "nat db_op" where
  "purge_session_events =
     statement (\<lambda>db. Some (length (db_events db), db\<lparr>db_events := []\<rparr>))"

definition database_bytes :: "sqlite_env \<Rightarrow> nat db_op" where
  "database_bytes env =
     (if in_memory env then ret 0 else bind (gets (file_bytes env)) from_json)"

definition delete_events :: "(event_row \<Rightarrow> bool) \<Rightarrow> nat db_op" where
  "delete_events p =
     statement (\<lambda>db. Some (length (filter p (db_events db)),
       db\<lparr>db_events := filter (\<lambda>r. \<not> p r) (db_events db)\<rparr>))"

definition delete_buckets_before :: "int \<Rightarrow> nat db_op" where
  "delete_buckets_before cutoff =
     statement (\<lambda>db. Some (length (filter (\<lambda>r. rm_bucket_start_ms r < cutoff) (db_buckets db)),
       db\<lparr>db_buckets := filter (\<lambda>r. \<not> rm_bucket_start_ms r < cutoff) (db_buckets db)\<rparr>))"

definition oldest_events :: "sqlite_env \<Rightarrow> sqlite_db \<Rightarrow> event_row list" where
  "oldest_events env db = take 500 (sort_key re_occurred_at_ms (scan_events env (db_events db)))"

definition delete_oldest_events :: "sqlite_env \<Rightarrow> nat db_op" where
  "delete_oldest_events env =
     statement (\<lambda>db.
       let victims = re_id ` set (oldest_events env db)
       in Some (length (filter (\<lambda>r. re_id r \<in> victims) (db_events db)),
            db\<lparr>db_events := filter (\<lambda>r. re_id r \<notin> victims) (db_events db)\<rparr>))"

function prune_loop :: "sqlite_env \<Rightarrow> purge_report \<Rightarrow> purge_report db_op" where
  "prune_loop env report db =
     (if pr_bytes_after report \<le> PRUNE_TARGET_BYTES then (Ok report, db)
      else (case delete_oldest_events env db of
          (Ok deleted, db') \<Rightarrow>
            if deleted = 0 then (Ok report, db')
            else
              (case database_bytes env db' of
                 (Ok bytes, db'') \<Rightarrow>
                   prune_loop env (report\<lparr>pr_events_deleted := pr_events_deleted report + deleted,
                                          pr_bytes_after := bytes\<rparr>) db''
               | (Err e, db'') \<Rightarrow> (Err e, db'')
               | (Panic p, db'') \<Rightarrow> (Panic p, db''))
        | (Err e, db') \<Rightarrow> (Err e, db')
        | (Panic p, db') \<Rightarrow> (Panic p, db')))"
  by pat_completeness auto

lemma database_bytes_state: "snd (database_bytes env db) = db"
  by (auto simp: database_bytes_def bind_def op_basic_defs from_json_def split: option.splits)

lemma delete_oldest_events_OkD:
  assumes "delete_oldest_events env db = (Ok deleted, db')"
  shows "length (db_events db) = deleted + length (db_events db')"
  using assms sum_length_filter_compl [of "\<lambda>r. re_id r \<in> re_id ` set (oldest_events env (db\<lparr>db_faults := tl (db_faults db)\<rparr>))" "db_events db"]
  by (auto simp: delete_oldest_events_def statement_def Let_def split: if_splits)

termination prune_loop
proof (relation "measure (\<lambda>(env, report, db). length (db_events db))")
  show "wf (measure (\<lambda>(env, report, db). length (db_events db)))" by simp
next
  fix env :: sqlite_env and report :: purge_report and db db' db'' :: sqlite_db and deleted bytes r r'
  assume "(r, db') = delete_oldest_events env db" "r = Ok deleted" "deleted \<noteq> 0"
    and "(r', db'') = database_bytes env db'"
  then show "((env, report\<lparr>pr_events_deleted := pr_events_deleted report + deleted,
      pr_bytes_after := bytes\<rparr>, db''), env, report, db)
    \<in> measure (\<lambda>(env, report, db). length (db_events db))"
    using delete_oldest_events_OkD [of env db deleted db'] database_bytes_state [of env db']
    by (metis (no_types, lifting) add_less_cancel_right add_0 case_prod_conv gr0I in_measure snd_conv)
qed

definition prune_with_metric_retention :: "sqlite_env \<Rightarrow> int \<Rightarrow> int \<Rightarrow> purge_report db_op" where
  "prune_with_metric_retention env now_ms metric_retention_ms =
     (let event_cutoff = wrap_i64 (now_ms - EVENT_RETENTION_MS);
          metric_cutoff = wrap_i64 (now_ms - max metric_retention_ms 0)
      in
        bind (delete_events (\<lambda>r. re_occurred_at_ms r < event_cutoff)) (\<lambda>events_deleted.
        bind (delete_buckets_before metric_cutoff) (\<lambda>metric_buckets_deleted.
        seq (if metric_buckets_deleted > 0 then execute forget_latest_metrics else ret ()) (
        bind (database_bytes env) (\<lambda>bytes_after.
        bind (prune_loop env \<lparr>pr_events_deleted = events_deleted,
                pr_metric_buckets_deleted = metric_buckets_deleted, pr_bytes_after = bytes_after\<rparr>)
          (\<lambda>report.
        seq (execute (\<lambda>db. db)) (ret report)))))))"

definition prune :: "sqlite_env \<Rightarrow> int \<Rightarrow> purge_report db_op" where
  "prune env now_ms = prune_with_metric_retention env now_ms METRIC_RETENTION_MS"

declare prune_loop.simps [simp del]

section \<open>The schema constraints\<close>

definition session_unique :: "session_row \<Rightarrow> string \<times> string" where
  "session_unique r = (rs_source r, rs_external_session_id r)"

definition event_unique :: "event_row \<Rightarrow> string \<times> int" where
  "event_unique r = (re_session_id r, re_sequence r)"

definition sessions_ok :: "session_row list \<Rightarrow> bool" where
  "sessions_ok rows \<longleftrightarrow> distinct (map rs_id rows) \<and> distinct (map session_unique rows)"

definition events_ok :: "string set \<Rightarrow> event_row list \<Rightarrow> bool" where
  "events_ok ids rows \<longleftrightarrow>
     distinct (map re_id rows) \<and> distinct (map event_unique rows) \<and> re_session_id ` set rows \<subseteq> ids"

definition db_inv :: "sqlite_db \<Rightarrow> bool" where
  "db_inv db \<longleftrightarrow>
     sessions_ok (db_sessions db) \<and> events_ok (rs_id ` set (db_sessions db)) (db_events db) \<and>
     hm_wf (db_settings db) \<and> distinct (map ri_source (db_integrations db)) \<and>
     distinct (map bucket_key (db_buckets db)) \<and>
     hm_wf (db_idempotency db) \<and> hm_wf (db_remote_hosts db)"

lemma distinct_map_filter: "distinct (map f xs) \<Longrightarrow> distinct (map f (filter p xs))"
  by (induction xs) auto

lemma sessions_ok_map:
  assumes "\<And>r. rs_id (g r) = rs_id r" and "\<And>r. session_unique (g r) = session_unique r"
  shows "sessions_ok (map g rows) \<longleftrightarrow> sessions_ok rows"
    and "rs_id ` set (map g rows) = rs_id ` set rows"
  using assms by (simp_all add: sessions_ok_def comp_def image_image)

lemma events_ok_filter: "events_ok ids rows \<Longrightarrow> events_ok ids (filter p rows)"
  by (auto simp: events_ok_def distinct_map_filter)

lemma sessions_ok_snoc:
  "sessions_ok rows \<Longrightarrow> rs_id row \<notin> rs_id ` set rows \<Longrightarrow> session_unique row \<notin> session_unique ` set rows
   \<Longrightarrow> sessions_ok (rows @ [row])"
  by (simp add: sessions_ok_def)

lemma events_ok_snoc:
  "events_ok ids rows \<Longrightarrow> re_id row \<notin> re_id ` set rows \<Longrightarrow> event_unique row \<notin> event_unique ` set rows
   \<Longrightarrow> re_session_id row \<in> ids \<Longrightarrow> events_ok ids (rows @ [row])"
  by (simp add: events_ok_def)

lemma events_ok_mono: "events_ok ids rows \<Longrightarrow> ids \<subseteq> ids' \<Longrightarrow> events_ok ids' rows"
  by (auto simp: events_ok_def)

lemma db_inv_new: "db_inv sqlite_new"
  by (simp add: db_inv_def sqlite_new_def sessions_ok_def events_ok_def)

lemma db_inv_faults [simp]: "db_inv (db\<lparr>db_faults := fs\<rparr>) \<longleftrightarrow> db_inv db"
  by (simp add: db_inv_def)

lemma keeps_statement:
  assumes "\<And>db fs. P (db\<lparr>db_faults := fs\<rparr>) \<longleftrightarrow> P db"
    and "\<And>db x db'. P db \<Longrightarrow> f db = Some (x, db') \<Longrightarrow> P db'"
  shows "keeps P (statement f)"
proof (rule keepsI)
  fix db assume P: "P db"
  let ?db = "db\<lparr>db_faults := tl (db_faults db)\<rparr>"
  have "P ?db" using P assms(1) by blast
  then show "P (snd (statement f db))"
    using assms(2) [of ?db] by (auto simp: statement_def Let_def split: option.split)
qed

lemma keeps_execute:
  assumes "\<And>db fs. P (db\<lparr>db_faults := fs\<rparr>) \<longleftrightarrow> P db" and "\<And>db. P db \<Longrightarrow> P (f db)"
  shows "keeps P (execute f)"
  unfolding execute_def by (rule keeps_statement) (use assms in auto)

lemma keeps_query:
  assumes "\<And>db fs. P (db\<lparr>db_faults := fs\<rparr>) \<longleftrightarrow> P db"
  shows "keeps P (query f)"
  unfolding query_def by (rule keeps_statement) (use assms in auto)

lemma keeps_from_json [keeps_intros]: "keeps P (from_json r)"
  by (simp add: from_json_def keeps_lift)

lemma db_inv_events_subset:
  "db_inv db \<Longrightarrow> db_inv (db\<lparr>db_events := filter p (db_events db)\<rparr>)"
  by (simp add: db_inv_def events_ok_filter)

lemma update_session_row_keys [simp]:
  "rs_id (update_session_row row r) = rs_id r"
  "session_unique (update_session_row row r) = session_unique r"
  by (simp_all add: update_session_row_def session_unique_def)

lemma insert_session_row_cases:
  assumes "insert_session_row env row db = Some (x, db')"
  obtains (update) "rs_id row \<in> rs_id ` set (db_sessions db)"
      "db' = db\<lparr>db_sessions := map (\<lambda>r. if rs_id r = rs_id row then update_session_row row r else r)
        (db_sessions db)\<rparr>"
  | (insert) "rs_id row \<notin> rs_id ` set (db_sessions db)"
      "session_unique row \<notin> session_unique ` set (db_sessions db)"
      "db' = db\<lparr>db_sessions := db_sessions db @ [row]\<rparr>"
proof (cases "list_ex (\<lambda>r. rs_id r = rs_id row) (db_sessions db)")
  case True
  then have "rs_id row \<in> rs_id ` set (db_sessions db)"
    by (auto simp: list_ex_iff intro: rev_image_eqI)
  then show thesis
    using assms True by (intro update) (simp_all add: insert_session_row_def Let_def split: if_splits)
next
  case False
  then have new: "rs_id row \<notin> rs_id ` set (db_sessions db)"
    by (auto simp: list_ex_iff)
  moreover have "\<not> list_ex (\<lambda>r. same_unique r row \<and> rs_id r \<noteq> rs_id row) (db_sessions db)"
    using assms False by (auto simp: insert_session_row_def Let_def split: if_splits)
  with False have "session_unique row \<notin> session_unique ` set (db_sessions db)"
    by (auto simp: list_ex_iff same_unique_def session_unique_def)
  ultimately show thesis
    using assms False by (intro insert) (simp_all add: insert_session_row_def Let_def split: if_splits)
qed

lemma db_inv_insert_session_row:
  assumes "db_inv db" and "insert_session_row env row db = Some (x, db')"
  shows "db_inv db'"
  using assms(2)
proof (cases rule: insert_session_row_cases)
  case update
  let ?g = "\<lambda>r. if rs_id r = rs_id row then update_session_row row r else r"
  have "rs_id (?g r) = rs_id r" "session_unique (?g r) = session_unique r" for r
    by simp_all
  from sessions_ok_map [of ?g, OF this] show ?thesis
    using assms(1) by (simp add: db_inv_def update(2) del: set_map)
next
  case insert
  with assms(1) show ?thesis
    by (auto simp: db_inv_def sessions_ok_snoc intro: events_ok_mono)
qed

lemma keeps_upsert_session: "keeps db_inv (upsert_session env s)"
  unfolding upsert_session_def
  by (intro keeps_intros keeps_statement db_inv_faults) (rule db_inv_insert_session_row)

lemma keeps_remove_session: "keeps db_inv (remove_session i)"
  unfolding remove_session_def
  by (rule keeps_execute)
     (auto simp: db_inv_def sessions_ok_def events_ok_def distinct_map_filter)

lemma keeps_trim: "keeps db_inv (trim_session_events i)"
  unfolding trim_session_events_def
  by (intro keeps_intros keeps_query keeps_execute db_inv_faults)
     (simp add: delete_oldest_of_def Let_def db_inv_events_subset)

lemma db_inv_insert_event_row:
  "db_inv db \<Longrightarrow> insert_event_row row db = Some (x, db') \<Longrightarrow> db_inv db'"
  unfolding insert_event_row_def db_inv_def list_ex_iff
  by (clarsimp split: if_splits, intro events_ok_snoc) (auto simp: event_unique_def)

lemma keeps_append_event: "keeps db_inv (append_event env e)"
  unfolding append_event_def
  by (intro keeps_intros keeps_statement db_inv_faults keeps_trim) (rule db_inv_insert_event_row)

lemma keeps_save_settings: "keeps db_inv (save_settings env ps)"
  unfolding save_settings_def
  by (intro keeps_intros keeps_execute db_inv_faults) (simp add: db_inv_def)

lemma keeps_remote_hosts:
  "keeps db_inv (upsert_remote_host h c t)" "keeps db_inv (remove_remote_host h)"
  unfolding upsert_remote_host_def remove_remote_host_def
  by (rule keeps_execute keeps_statement; auto simp: db_inv_def)+

lemma distinct_put_row:
  assumes "distinct (map f rows)"
  shows "distinct (map f (if list_ex (\<lambda>r. f r = f row) rows
           then map (\<lambda>r. if f r = f row then row else r) rows else rows @ [row]))"
proof -
  have "map f (map (\<lambda>r. if f r = f row then row else r) rows) = map f rows"
    by (induction rows) auto
  then show ?thesis
    using assms by (auto simp: list_ex_iff simp del: map_map)
qed

lemma distinct_put_integration:
  "distinct (map ri_source rows) \<Longrightarrow> distinct (map ri_source (put_integration_row row rows))"
  unfolding put_integration_row_def by (rule distinct_put_row)

lemma distinct_put_bucket:
  "distinct (map bucket_key rows) \<Longrightarrow> distinct (map bucket_key (put_bucket_row row rows))"
  unfolding put_bucket_row_def by (rule distinct_put_row)

lemma keeps_upsert_integration: "keeps db_inv (upsert_integration env c h m t)"
  unfolding upsert_integration_def
  by (intro keeps_intros keeps_execute db_inv_faults) (simp add: db_inv_def distinct_put_integration)

lemma keeps_store_idempotency_key: "keeps db_inv (store_idempotency_key k t)"
  unfolding store_idempotency_key_def
  by (intro keeps_statement db_inv_faults) (auto simp: db_inv_def split: if_splits)

lemma keeps_record_metric_bucket: "keeps db_inv (record_metric_bucket sc i t m)"
  unfolding record_metric_bucket_def Let_def
  by (intro keeps_statement db_inv_faults)
     (auto simp: db_inv_def distinct_put_bucket split: if_splits)

lemma db_inv_forget_metrics: "db_inv db \<Longrightarrow> db_inv (forget_latest_metrics db)"
  using sessions_ok_map [of "\<lambda>r. r\<lparr>rs_latest_metric_json := None\<rparr>" "db_sessions db"]
  by (simp add: db_inv_def forget_latest_metrics_def session_unique_def del: set_map)

lemma keeps_purge_metric_history: "keeps db_inv purge_metric_history"
  unfolding purge_metric_history_def
  by (rule keeps_statement) (auto intro!: db_inv_forget_metrics simp: db_inv_def [of "_\<lparr>db_buckets := _\<rparr>"]
      db_inv_def [THEN iffD1])

lemma keeps_purge_session_events: "keeps db_inv purge_session_events"
  unfolding purge_session_events_def
  by (rule keeps_statement) (auto simp: db_inv_def events_ok_def)

lemma keeps_deletes: "keeps db_inv (delete_events p)" "keeps db_inv (delete_buckets_before c)"
  "keeps db_inv (delete_oldest_events env)"
  unfolding delete_events_def delete_buckets_before_def delete_oldest_events_def Let_def
  by (rule keeps_statement; auto simp: db_inv_def distinct_map_filter events_ok_filter)+

lemma keeps_database_bytes: "keeps P (database_bytes env)"
  by (simp add: keeps_def database_bytes_state)

lemma prune_loop_keeps:
  assumes "keeps P (delete_oldest_events env)" and "P db"
  shows "P (snd (prune_loop env report db))"
  using assms
proof (induction env report db rule: prune_loop.induct)
  case (1 env report db)
  obtain r db' where run: "delete_oldest_events env db = (r, db')" by fastforce
  obtain r' db'' where bytes: "database_bytes env db' = (r', db'')" by fastforce
  have "P db'" using keepsD_run [OF 1(2) run 1(3)] .
  moreover have "db'' = db'" using database_bytes_state [of env db'] by (simp add: bytes)
  ultimately show ?case
    using 1 by (subst prune_loop.simps) (auto simp: run bytes split: outcome.split)
qed

lemma keeps_prune: "keeps db_inv (prune_with_metric_retention env t ret_ms)"
  unfolding prune_with_metric_retention_def Let_def
  by (intro keeps_intros keeps_deletes keeps_execute db_inv_faults keeps_database_bytes
      db_inv_forget_metrics)
     (auto intro: keepsI prune_loop_keeps keeps_deletes)

end
