(* ===== verification/App_Core.thy ===== *)
theory App_Core
  imports Session_Registry Alert_Evaluator Stream_Buffers Sqlite_Repository
begin

text \<open>
  \<^verbatim>\<open>crates/notch-core/src/app_core.rs\<close> and the traits it is generic in (\<^verbatim>\<open>traits.rs\<close>): the
  orchestrator that owns the registry, the coalescer, the alerts and the stream counter, and
  writes every change through to a repository.

  The repository is a record of operations on a state \<open>'r\<close> (the trait's methods); the clock is
  an argument, one reading per call of \<open>now_ms\<close>; a fresh UUID is an argument; the sink is the
  list of frames it was given. A public method runs under the write lock, except for the parts
  it does before taking it; such a method is two definitions, one per part, so that other
  calls can come in between.
\<close>

section \<open>The repository trait\<close>

record 'r repository =
  repo_load_sessions :: "('r, core_error, agent_session list) op"
  repo_load_events :: "('r, core_error, session_event list) op"
  repo_upsert_session :: "agent_session \<Rightarrow> ('r, core_error, unit) op"
  repo_remove_session :: "string \<Rightarrow> ('r, core_error, unit) op"
  repo_append_event :: "session_event \<Rightarrow> ('r, core_error, unit) op"
  repo_load_session_event_page ::
    "string \<Rightarrow> nat option \<Rightarrow> nat \<Rightarrow> ('r, core_error, session_event_page) op"
  repo_load_settings :: "('r, core_error, public_settings option) op"
  repo_save_settings :: "public_settings \<Rightarrow> ('r, core_error, unit) op"
  repo_upsert_integration ::
    "adapter_capabilities \<Rightarrow> bool \<Rightarrow> string option \<Rightarrow> int \<Rightarrow> ('r, core_error, unit) op"
  repo_load_integrations :: "('r, core_error, adapter_capabilities list) op"
  repo_record_metric_bucket ::
    "string \<Rightarrow> string option \<Rightarrow> int \<Rightarrow> metric_sample \<Rightarrow> ('r, core_error, unit) op"
  repo_load_metric_history :: "string \<Rightarrow> nat \<Rightarrow> ('r, core_error, metric_sample list) op"
  repo_load_persisted_metric_history ::
    "int \<Rightarrow> int \<Rightarrow> nat \<Rightarrow> ('r, core_error, persisted_metric_history) op"
  repo_purge_metric_history :: "('r, core_error, nat) op"
  repo_purge_session_events :: "('r, core_error, nat) op"
  repo_store_idempotency_key :: "string \<Rightarrow> int \<Rightarrow> ('r, core_error, bool) op"
  repo_prune :: "int \<Rightarrow> int \<Rightarrow> ('r, core_error, purge_report) op"

definition sqlite_repository :: "sqlite_env \<Rightarrow> sqlite_db repository" where
  "sqlite_repository env =
     \<lparr>repo_load_sessions = load_sessions env,
      repo_load_events = load_events env,
      repo_upsert_session = upsert_session env,
      repo_remove_session = remove_session,
      repo_append_event = append_event env,
      repo_load_session_event_page = load_session_event_page env,
      repo_load_settings = load_settings env,
      repo_save_settings = save_settings env,
      repo_upsert_integration = upsert_integration env,
      repo_load_integrations = load_integrations env,
      repo_record_metric_bucket = record_metric_bucket,
      repo_load_metric_history = load_metric_history,
      repo_load_persisted_metric_history = load_persisted_metric_history,
      repo_purge_metric_history = purge_metric_history,
      repo_purge_session_events = purge_session_events,
      repo_store_idempotency_key = store_idempotency_key,
      repo_prune = prune_with_metric_retention env\<rparr>"

section \<open>State\<close>

record 'r app_core =
  a_registry :: session_registry
  a_settings :: public_settings
  a_integrations :: "adapter_capabilities list"
  a_stream_sequence :: nat
  a_coalescer :: stream_coalescer
  a_alerts :: alert_evaluator
  a_latest_metrics :: "metrics_frame option"
  a_repository :: 'r
  a_stream :: "stream_frame list"

record snapshot_with_sequence =
  sw_snapshot :: app_snapshot
  sw_sequence :: nat
  sw_events :: "session_event list"

record core_env =
  env_hash :: hasher
  env_order :: "string list \<Rightarrow> string list"

type_synonym ('r, 'a) core_op = "('r app_core, core_error, 'a) op"

definition on_registry :: "(session_registry, core_error, 'a) op \<Rightarrow> ('r, 'a) core_op" where
  "on_registry = zoom a_registry (\<lambda>r a. a\<lparr>a_registry := r\<rparr>)"

definition on_repo :: "('r, core_error, 'a) op \<Rightarrow> ('r, 'a) core_op" where
  "on_repo = zoom a_repository (\<lambda>d a. a\<lparr>a_repository := d\<rparr>)"

section \<open>Stream\<close>

definition queue_payload :: "stream_payload \<Rightarrow> ('r, unit) core_op" where
  "queue_payload payload =
     modify (\<lambda>a. a\<lparr>a_coalescer := coalescer_push payload (a_coalescer a)\<rparr>)"

definition emit_frame :: "int \<Rightarrow> stream_payload \<Rightarrow> 'r app_core \<Rightarrow> 'r app_core" where
  "emit_frame now payload a =
     (let n = wrap_u64 (a_stream_sequence a + 1)
      in a\<lparr>a_stream_sequence := n,
           a_stream := a_stream a @
             [\<lparr>f_sequence = n, f_emitted_at_ms = now, f_payload = payload\<rparr>]\<rparr>)"

definition flush_pending :: "core_env \<Rightarrow> int \<Rightarrow> ('r, unit) core_op" where
  "flush_pending env now =
     modify (\<lambda>a.
       if coalescer_is_empty (a_coalescer a) then a
       else
         (let (payloads, c) = coalescer_drain (env_order env) (a_coalescer a)
          in fold (emit_frame now) payloads (a\<lparr>a_coalescer := c\<rparr>)))"

section \<open>Sessions in memory\<close>

text \<open>\<open>get_mut\<close> with \<open>expect\<close>, a write through the borrow, and the write-through of the result.\<close>

definition borrow_session :: "string \<Rightarrow> string \<Rightarrow> ('r, agent_session) core_op" where
  "borrow_session expectation session_id =
     bind (gets (\<lambda>a. reg_get (a_registry a) session_id)) (\<lambda>found.
       case found of None \<Rightarrow> panic expectation | Some s \<Rightarrow> ret s)"

definition borrow_or_not_found :: "string \<Rightarrow> ('r, agent_session) core_op" where
  "borrow_or_not_found session_id =
     bind (gets (\<lambda>a. reg_get (a_registry a) session_id)) (\<lambda>found.
       case found of None \<Rightarrow> throw (SessionNotFound session_id) | Some s \<Rightarrow> ret s)"

definition write_session :: "string \<Rightarrow> agent_session \<Rightarrow> ('r, unit) core_op" where
  "write_session session_id s =
     modify (\<lambda>a. a\<lparr>a_registry := reg_write session_id s (a_registry a)\<rparr>)"

definition write_through :: "'r repository \<Rightarrow> string \<Rightarrow> agent_session \<Rightarrow> ('r, unit) core_op" where
  "write_through repo session_id s =
     seq (write_session session_id s) (on_repo (repo_upsert_session repo s))"

definition resolve_session_id :: "agent_source \<Rightarrow> string \<Rightarrow> ('r, string) core_op" where
  "resolve_session_id source external_session_id =
     bind (gets (\<lambda>a. resolve_external (a_registry a) source external_session_id)) (\<lambda>found.
       case found of
         Some s \<Rightarrow> ret (s_id s)
       | None \<Rightarrow> throw (SessionNotFound (debug_source source @ '':'' @ external_session_id)))"

definition capabilities_for :: "agent_source \<Rightarrow> ('r, adapter_capabilities) core_op" where
  "capabilities_for source =
     bind (gets (\<lambda>a. find (\<lambda>c. c_source c = source) (a_integrations a))) (\<lambda>found.
       case found of
         Some c \<Rightarrow> ret c
       | None \<Rightarrow> throw (UnsupportedCapability
           (''no integration registered for '' @ debug_source source)))"

definition require_events :: "agent_source \<Rightarrow> ('r, unit) core_op" where
  "require_events source =
     bind (capabilities_for source) (\<lambda>c.
       if c_events c then ret ()
       else throw (UnsupportedCapability ''integration does not support events''))"

definition ensure_attention_capability ::
  "adapter_capabilities \<Rightarrow> attention_kind \<Rightarrow> ('r, unit) core_op" where
  "ensure_attention_capability c attention =
     (if c_attention c = CapFull \<or>
         c_attention c = CapPartial \<and> attention \<noteq> AttentionNone \<or>
         c_attention c = CapNone \<and> attention = AttentionNone
      then ret ()
      else throw (UnsupportedCapability ''integration does not support attention reporting''))"

definition core_append_event ::
  "'r repository \<Rightarrow> nat \<Rightarrow> string \<Rightarrow> session_event_kind \<Rightarrow> event_level \<Rightarrow> string \<Rightarrow>
   string option \<Rightarrow> int \<Rightarrow> ('r, session_event) core_op" where
  "core_append_event repo uuid session_id kind level summary tool_name occurred_at_ms =
     bind (gets (\<lambda>a. next_event_sequence (a_registry a) session_id)) (\<lambda>sequence.
       let event = \<lparr>e_id = uuid, e_session_id = session_id, e_sequence = sequence,
             e_occurred_at_ms = occurred_at_ms, e_kind = kind, e_level = level,
             e_summary = summary, e_tool_name = tool_name\<rparr>
       in seq (on_registry (reg_append_event event))
           (seq (on_repo (repo_append_event repo event))
             (seq (queue_payload (PSessionEvent event)) (ret event))))"

section \<open>Ingest handlers\<close>

definition ingested :: "string \<Rightarrow> nat option \<Rightarrow> ingest_result" where
  "ingested session_id event_id =
     \<lparr>ir_session_id = Some session_id, ir_event_id = event_id, ir_idempotent_replay = False\<rparr>"

definition replayed :: "string \<Rightarrow> ingest_result" where
  "replayed session_id =
     \<lparr>ir_session_id = Some session_id, ir_event_id = None, ir_idempotent_replay = True\<rparr>"

text \<open>The idempotency block of \<open>session_start\<close>: \<open>Some s\<close> is its early return.\<close>

definition idempotency_gate ::
  "'r repository \<Rightarrow> session_start_command \<Rightarrow> ('r, agent_session option) core_op" where
  "idempotency_gate repo cmd =
     (case st_idempotency_key cmd of
        None \<Rightarrow> ret None
      | Some key \<Rightarrow>
          bind (gets (\<lambda>a. check_idempotency (a_registry a) key)) (\<lambda>known.
          bind (if known then ret True
                else on_repo (repo_store_idempotency_key repo key (st_occurred_at_ms cmd))) (\<lambda>seen.
          bind (gets (\<lambda>a. resolve_external (a_registry a) (st_source cmd)
                  (st_external_session_id cmd))) (\<lambda>found.
            if seen \<and> found \<noteq> None then ret found
            else seq (modify (\<lambda>a. a\<lparr>a_registry := record_idempotency key (a_registry a)\<rparr>))
                   (ret None)))))"

definition evict_for_capacity :: "'r repository \<Rightarrow> core_env \<Rightarrow> ('r, unit) core_op" where
  "evict_for_capacity repo env =
     bind (gets (\<lambda>a. capacity_eviction_candidate (env_order env) (a_registry a))) (\<lambda>r.
     bind (lift r) (\<lambda>candidate.
       case candidate of
         None \<Rightarrow> ret ()
       | Some evicted_id \<Rightarrow>
           seq (on_repo (repo_remove_session repo evicted_id))
             (seq (on_registry (reg_remove_session evicted_id))
               (queue_payload (PSessionRemove evicted_id)))))"

definition new_session ::
  "session_start_command \<Rightarrow> session_status \<Rightarrow> string \<Rightarrow> agent_session" where
  "new_session cmd status i =
     \<lparr>s_id = i, s_source = st_source cmd,
      s_external_session_id = st_external_session_id cmd, s_label = st_label cmd,
      s_workspace_label = st_workspace_label cmd, s_status = status,
      s_attention = AttentionNone, s_started_at_ms = st_occurred_at_ms cmd,
      s_last_event_at_ms = st_occurred_at_ms cmd, s_ended_at_ms = None,
      s_process_root = None, s_verified_terminal = None, s_latest_metric = None\<rparr>"

definition create_session ::
  "'r repository \<Rightarrow> core_env \<Rightarrow> nat \<Rightarrow> session_start_command \<Rightarrow> session_status \<Rightarrow>
   ('r, ingest_result) core_op" where
  "create_session repo env uuid cmd status =
     seq (evict_for_capacity repo env)
      (bind (on_registry (insert_new_session (env_hash env) (st_source cmd)
              (st_external_session_id cmd) (new_session cmd status))) (\<lambda>(session, replay).
        if replay then ret (replayed (s_id session))
        else
          seq (on_repo (repo_upsert_session repo session))
           (bind (core_append_event repo uuid (s_id session) KindLifecycle LevelInfo
                   ''Session started'' None (st_occurred_at_ms cmd)) (\<lambda>event.
             let session = session\<lparr>s_last_event_at_ms := st_occurred_at_ms cmd\<rparr>
             in seq (on_registry (reg_upsert_session session))
                 (seq (on_repo (repo_upsert_session repo session))
                   (seq (queue_payload (PSessionUpsert session))
                     (ret (ingested (e_session_id event) (Some (e_id event))))))))))"

definition session_start ::
  "'r repository \<Rightarrow> core_env \<Rightarrow> nat \<Rightarrow> session_start_command \<Rightarrow> ('r, ingest_result) core_op" where
  "session_start repo env uuid cmd =
     seq (lift (validate_external_session_id (st_external_session_id cmd)))
      (seq (lift (validate_session_label (st_label cmd)))
       (seq (case st_workspace_label cmd of None \<Rightarrow> ret ()
             | Some label \<Rightarrow> lift (validate_workspace_label label))
        (bind (idempotency_gate repo cmd) (\<lambda>early.
          case early of
            Some session \<Rightarrow> ret (replayed (s_id session))
          | None \<Rightarrow>
              seq (require_events (st_source cmd))
               (seq (if st_status cmd = Starting then ret ()
                     else lift (validate_transition Starting (st_status cmd)))
                (bind (gets (\<lambda>a. resolve_external (a_registry a) (st_source cmd)
                        (st_external_session_id cmd))) (\<lambda>existing.
                  case existing of
                    Some session \<Rightarrow> ret (replayed (s_id session))
                  | None \<Rightarrow> create_session repo env uuid cmd (st_status cmd))))))))"

definition session_update ::
  "'r repository \<Rightarrow> nat \<Rightarrow> session_update_command \<Rightarrow> ('r, ingest_result) core_op" where
  "session_update repo uuid cmd =
     seq (lift (validate_external_session_id (su_external_session_id cmd)))
      (seq (require_events (su_source cmd))
       (bind (resolve_session_id (su_source cmd) (su_external_session_id cmd)) (\<lambda>session_id.
        bind (borrow_session ''resolved session'' session_id) (\<lambda>session.
        seq (case su_label cmd of None \<Rightarrow> ret ()
             | Some label \<Rightarrow> seq (lift (validate_session_label label))
                 (write_session session_id (session\<lparr>s_label := label\<rparr>)))
        (bind (borrow_session ''resolved session'' session_id) (\<lambda>session.
        seq (case su_workspace_label cmd of None \<Rightarrow> ret ()
             | Some workspace \<Rightarrow> seq (lift (validate_workspace_label workspace))
                 (write_session session_id (session\<lparr>s_workspace_label := Some workspace\<rparr>)))
        (bind (borrow_session ''resolved session'' session_id) (\<lambda>session.
        seq (case su_status cmd of None \<Rightarrow> ret ()
             | Some status \<Rightarrow> seq (lift (validate_transition (s_status session) status))
                 (write_session session_id (session\<lparr>s_status := status\<rparr>)))
        (bind (borrow_session ''resolved session'' session_id) (\<lambda>session.
        let updated = session\<lparr>s_last_event_at_ms := su_occurred_at_ms cmd\<rparr>
        in seq (write_through repo session_id updated)
            (bind (core_append_event repo uuid session_id KindStatus LevelInfo ''Session updated''
                    None (su_occurred_at_ms cmd)) (\<lambda>event.
              seq (queue_payload (PSessionUpsert updated))
                (ret (ingested session_id (Some (e_id event))))))))))))))))"

definition session_end ::
  "'r repository \<Rightarrow> nat \<Rightarrow> session_end_command \<Rightarrow> ('r, ingest_result) core_op" where
  "session_end repo uuid cmd =
     seq (lift (validate_external_session_id (se_external_session_id cmd)))
      (seq (require_events (se_source cmd))
       (bind (resolve_session_id (se_source cmd) (se_external_session_id cmd)) (\<lambda>session_id.
        bind (borrow_session ''resolved session'' session_id) (\<lambda>session.
        seq (if se_status cmd \<in> {Completed, Failed} then ret ()
             else throw (Validation ''session end status must be completed or failed''))
        (seq (lift (validate_transition (s_status session) (se_status cmd)))
        (let updated = session\<lparr>s_status := se_status cmd,
               s_ended_at_ms := Some (se_occurred_at_ms cmd),
               s_last_event_at_ms := se_occurred_at_ms cmd,
               s_attention := AttentionNone, s_latest_metric := None\<rparr>;
             summary = (case se_summary cmd of None \<Rightarrow> ''Session ended'' | Some s \<Rightarrow> s)
         in seq (write_through repo session_id updated)
             (seq (lift (validate_event_summary summary))
              (bind (core_append_event repo uuid session_id KindLifecycle LevelInfo summary None
                      (se_occurred_at_ms cmd)) (\<lambda>event.
                seq (queue_payload (PSessionUpsert updated))
                  (ret (ingested session_id (Some (e_id event)))))))))))))"

text \<open>The \<open>if let Some(session) = get_mut(\<dots>)\<close> of the two event handlers.\<close>

definition touch_session :: "'r repository \<Rightarrow> string \<Rightarrow> int \<Rightarrow> ('r, unit) core_op" where
  "touch_session repo session_id occurred_at_ms =
     bind (gets (\<lambda>a. reg_get (a_registry a) session_id)) (\<lambda>found.
       case found of
         None \<Rightarrow> ret ()
       | Some session \<Rightarrow>
           write_through repo session_id (session\<lparr>s_last_event_at_ms := occurred_at_ms\<rparr>))"

definition lifecycle_event ::
  "'r repository \<Rightarrow> nat \<Rightarrow> lifecycle_event_command \<Rightarrow> ('r, ingest_result) core_op" where
  "lifecycle_event repo uuid cmd =
     seq (lift (validate_external_session_id (le_external_session_id cmd)))
      (seq (lift (validate_event_summary (le_summary cmd)))
       (seq (require_events (le_source cmd))
        (bind (resolve_session_id (le_source cmd) (le_external_session_id cmd)) (\<lambda>session_id.
         seq (touch_session repo session_id (le_occurred_at_ms cmd))
          (bind (core_append_event repo uuid session_id KindLifecycle (le_level cmd)
                  (le_summary cmd) None (le_occurred_at_ms cmd)) (\<lambda>event.
            ret (ingested session_id (Some (e_id event)))))))))"

definition tool_event ::
  "'r repository \<Rightarrow> nat \<Rightarrow> tool_event_command \<Rightarrow> ('r, ingest_result) core_op" where
  "tool_event repo uuid cmd =
     seq (lift (validate_external_session_id (te_external_session_id cmd)))
      (seq (lift (validate_event_summary (te_summary cmd)))
       (seq (case te_tool_name cmd of None \<Rightarrow> ret () | Some tool \<Rightarrow> lift (validate_tool_name tool))
        (seq (require_events (te_source cmd))
         (bind (resolve_session_id (te_source cmd) (te_external_session_id cmd)) (\<lambda>session_id.
          seq (touch_session repo session_id (te_occurred_at_ms cmd))
           (bind (core_append_event repo uuid session_id KindTool (te_level cmd)
                   (te_summary cmd) (te_tool_name cmd) (te_occurred_at_ms cmd)) (\<lambda>event.
             ret (ingested session_id (Some (e_id event))))))))))"

definition attention ::
  "'r repository \<Rightarrow> nat \<Rightarrow> attention_command \<Rightarrow> ('r, ingest_result) core_op" where
  "attention repo uuid cmd =
     seq (lift (validate_external_session_id (at_external_session_id cmd)))
      (seq (lift (validate_event_summary (at_summary cmd)))
       (bind (capabilities_for (at_source cmd)) (\<lambda>capabilities.
        seq (ensure_attention_capability capabilities (at_attention cmd))
        (bind (resolve_session_id (at_source cmd) (at_external_session_id cmd)) (\<lambda>session_id.
         bind (borrow_session ''resolved session'' session_id) (\<lambda>session.
         let updated = session\<lparr>s_attention := at_attention cmd,
               s_last_event_at_ms := at_occurred_at_ms cmd\<rparr>
         in seq (write_through repo session_id updated)
             (seq (modify (\<lambda>a. a\<lparr>a_alerts := snd (evaluate_attention session_id
                    (at_attention cmd) (at_occurred_at_ms cmd) (a_alerts a))\<rparr>))
              (bind (core_append_event repo uuid session_id KindAttention (at_level cmd)
                      (at_summary cmd) None (at_occurred_at_ms cmd)) (\<lambda>event.
                seq (queue_payload (PSessionUpsert updated))
                  (ret (ingested session_id (Some (e_id event)))))))))))))"

definition register_process_root ::
  "'r repository \<Rightarrow> nat \<Rightarrow> process_root_command \<Rightarrow> ('r, ingest_result) core_op" where
  "register_process_root repo uuid cmd =
     seq (lift (validate_external_session_id (pr_external_session_id cmd)))
      (bind (capabilities_for (pr_source cmd)) (\<lambda>capabilities.
       seq (if c_process_attribution capabilities = UnknownAttribution
            then throw (UnsupportedCapability ''integration does not support process attribution'')
            else ret ())
       (bind (resolve_session_id (pr_source cmd) (pr_external_session_id cmd)) (\<lambda>session_id.
        bind (borrow_session ''resolved session'' session_id) (\<lambda>session.
        let updated = session\<lparr>s_process_root := Some (pr_process_root cmd),
              s_last_event_at_ms := pr_occurred_at_ms cmd\<rparr>
        in seq (write_through repo session_id updated)
            (bind (core_append_event repo uuid session_id KindLifecycle LevelInfo
                    ''Process root registered'' None (pr_occurred_at_ms cmd)) (\<lambda>event.
              seq (queue_payload (PSessionUpsert updated))
                (ret (ingested session_id (Some (e_id event)))))))))))"

fun replace_integration ::
  "adapter_capabilities \<Rightarrow> adapter_capabilities list \<Rightarrow> adapter_capabilities list" where
  "replace_integration c [] = [c]"
| "replace_integration c (d # ds) =
     (if c_source d = c_source c then c # ds else d # replace_integration c ds)"

definition integration_health ::
  "'r repository \<Rightarrow> integration_health_command \<Rightarrow> ('r, ingest_result) core_op" where
  "integration_health repo cmd =
     seq (on_repo (repo_upsert_integration repo (ih_capabilities cmd) (ih_healthy cmd)
           (ih_message cmd) (ih_occurred_at_ms cmd)))
      (seq (modify (\<lambda>a. a\<lparr>a_integrations :=
              replace_integration (ih_capabilities cmd) (a_integrations a)\<rparr>))
       (seq (queue_payload (PIntegrationChanged (ih_capabilities cmd)))
         (ret ingest_result_empty)))"

definition acknowledge_attention ::
  "'r repository \<Rightarrow> acknowledge_attention_command \<Rightarrow> ('r, ingest_result) core_op" where
  "acknowledge_attention repo cmd =
     seq (lift (validate_session_id (ack_session_id cmd)))
      (bind (borrow_or_not_found (ack_session_id cmd)) (\<lambda>session.
       let updated = session\<lparr>s_attention := AttentionNone,
             s_last_event_at_ms := ack_occurred_at_ms cmd\<rparr>
       in seq (write_through repo (ack_session_id cmd) updated)
           (seq (modify (\<lambda>a. a\<lparr>a_alerts :=
                  clear_local_acknowledgement (ack_session_id cmd) (a_alerts a)\<rparr>))
             (seq (queue_payload (PSessionUpsert updated))
               (ret (ingested (ack_session_id cmd) None))))))"

definition handle_ingest ::
  "'r repository \<Rightarrow> core_env \<Rightarrow> nat \<Rightarrow> ingest_command \<Rightarrow> ('r, ingest_result) core_op" where
  "handle_ingest repo env uuid command =
     (case command of
        SessionStart cmd \<Rightarrow> session_start repo env uuid cmd
      | SessionUpdate cmd \<Rightarrow> session_update repo uuid cmd
      | SessionEnd cmd \<Rightarrow> session_end repo uuid cmd
      | LifecycleEvent cmd \<Rightarrow> lifecycle_event repo uuid cmd
      | ToolEvent cmd \<Rightarrow> tool_event repo uuid cmd
      | Attention cmd \<Rightarrow> attention repo uuid cmd
      | RegisterProcessRoot cmd \<Rightarrow> register_process_root repo uuid cmd
      | IntegrationHealth cmd \<Rightarrow> integration_health repo cmd
      | AcknowledgeAttention cmd \<Rightarrow> acknowledge_attention repo cmd)"

definition ingest ::
  "'r repository \<Rightarrow> core_env \<Rightarrow> int \<Rightarrow> nat \<Rightarrow> ingest_command \<Rightarrow> ('r, ingest_result) core_op" where
  "ingest repo env now uuid command =
     bind (handle_ingest repo env uuid command) (\<lambda>result.
       seq (flush_pending env now) (ret result))"

section \<open>Construction\<close>

definition app_core_new ::
  "'r repository \<Rightarrow> public_settings \<Rightarrow> 'r \<Rightarrow> (core_error, 'r app_core) outcome \<times> 'r" where
  "app_core_new repo settings =
     bind (repo_load_sessions repo) (\<lambda>sessions.
     bind (repo_load_events repo) (\<lambda>events d.
       (case reg_restore sessions events registry_new of
          (Err e, _) \<Rightarrow> (Err e, d)
        | (Panic p, _) \<Rightarrow> (Panic p, d)
        | (Ok _, registry) \<Rightarrow>
            bind (repo_load_integrations repo) (\<lambda>integrations.
            bind (repo_load_settings repo) (\<lambda>persisted d'.
              (Ok \<lparr>a_registry = registry,
                   a_settings = (case persisted of None \<Rightarrow> settings | Some ps \<Rightarrow> ps),
                   a_integrations = integrations, a_stream_sequence = 0,
                   a_coalescer = coalescer_new, a_alerts = evaluator_new,
                   a_latest_metrics = None, a_repository = d', a_stream = []\<rparr>, d'))) d)))"

section \<open>Settings and heartbeat\<close>

text \<open>\<open>update_settings\<close>: the save happens before the lock is taken.\<close>

definition save_new_settings :: "'r repository \<Rightarrow> public_settings \<Rightarrow> ('r, unit) core_op" where
  "save_new_settings repo settings = on_repo (repo_save_settings repo settings)"

definition apply_settings :: "core_env \<Rightarrow> int \<Rightarrow> public_settings \<Rightarrow> ('r, unit) core_op" where
  "apply_settings env now settings =
     seq (modify (\<lambda>a. a\<lparr>a_settings := settings\<rparr>))
      (seq (queue_payload (PSettingsChanged settings)) (flush_pending env now))"

definition update_settings ::
  "'r repository \<Rightarrow> core_env \<Rightarrow> int \<Rightarrow> public_settings \<Rightarrow> ('r, unit) core_op" where
  "update_settings repo env now settings =
     seq (save_new_settings repo settings) (apply_settings env now settings)"

definition heartbeat :: "core_env \<Rightarrow> int \<Rightarrow> ('r, unit) core_op" where
  "heartbeat env now = seq (queue_payload PHeartbeat) (flush_pending env now)"

section \<open>Metrics\<close>

definition bucket_start :: "int \<Rightarrow> int" where
  "bucket_start at_ms = wrap_i64 (at_ms - at_ms mod (METRIC_BUCKET_SECS * 1000))"

definition aggregate_sample :: "metrics_frame \<Rightarrow> metric_sample" where
  "aggregate_sample frame =
     (let aggregate = mf_aggregate frame in
      \<lparr>ms_at_ms = ag_at_ms aggregate,
       ms_cpu_core_percent = ag_cpu_core_percent aggregate,
       ms_cpu_host_percent = ag_cpu_host_percent aggregate,
       ms_rss_bytes = ag_rss_bytes aggregate,
       ms_runtime_ms = ag_runtime_ms aggregate,
       ms_process_count = ag_process_count aggregate,
       ms_read_bytes_per_sec = ag_read_bytes_per_sec aggregate,
       ms_write_bytes_per_sec = ag_write_bytes_per_sec aggregate,
       ms_quality = ag_quality aggregate\<rparr>)"

definition host_sample :: "metrics_frame \<Rightarrow> metric_sample" where
  "host_sample frame =
     (let host = mf_host frame in
      \<lparr>ms_at_ms = hs_at_ms host,
       ms_cpu_core_percent = hs_cpu_host_percent host,
       ms_cpu_host_percent = hs_cpu_host_percent host,
       ms_rss_bytes = hs_used_memory_bytes host,
       ms_runtime_ms = 0,
       ms_process_count = hs_visible_process_count host,
       ms_read_bytes_per_sec = hs_disk_read_bytes_per_sec host,
       ms_write_bytes_per_sec = hs_disk_write_bytes_per_sec host,
       ms_quality = \<lparr>q_attribution = UnknownAttribution, q_cpu = Available, q_io = IoDisk,
                     q_reason = None\<rparr>\<rparr>)"

text \<open>The buckets are stored before the lock is taken.\<close>

definition record_metric_buckets ::
  "'r repository \<Rightarrow> int \<Rightarrow> metrics_frame \<Rightarrow> ('r, unit) core_op" where
  "record_metric_buckets repo now frame =
     (let bucket = bucket_start now in
      seq (on_repo (repo_record_metric_bucket repo ''host'' None bucket (host_sample frame)))
       (seq (on_repo (repo_record_metric_bucket repo ''aggregate'' None bucket
               (aggregate_sample frame)))
         (for_each (\<lambda>(session_id, sample).
             on_repo (repo_record_metric_bucket repo ''agent'' (Some session_id) bucket sample))
           (mf_agents frame))))"

definition set_latest_metric ::
  "'r repository \<Rightarrow> metrics_frame \<Rightarrow> string \<Rightarrow> ('r, unit) core_op" where
  "set_latest_metric repo frame session_id =
     bind (gets (\<lambda>a. reg_get (a_registry a) session_id)) (\<lambda>found.
       case found of
         None \<Rightarrow> ret ()
       | Some session \<Rightarrow>
           write_through repo session_id (session\<lparr>s_latest_metric :=
             (if s_status session \<in> {Completed, Failed, Stale} then None
              else map_of (mf_agents frame) session_id)\<rparr>))"

definition apply_metrics ::
  "'r repository \<Rightarrow> core_env \<Rightarrow> int \<Rightarrow> int \<Rightarrow> metrics_frame \<Rightarrow> ('r, unit) core_op" where
  "apply_metrics repo env now flush_now frame =
     bind (gets (\<lambda>a. map s_id (reg_sessions (env_order env) (a_registry a)))) (\<lambda>session_ids.
       seq (for_each (set_latest_metric repo frame) session_ids)
        (seq (modify (\<lambda>a. a\<lparr>a_latest_metrics := Some frame,
               a_alerts := snd (evaluate_host_metrics (mf_host frame) (aggregate_sample frame) now
                 (a_alerts a))\<rparr>))
          (seq (queue_payload (PMetrics frame)) (flush_pending env flush_now))))"

definition record_metrics ::
  "'r repository \<Rightarrow> core_env \<Rightarrow> int \<Rightarrow> int \<Rightarrow> metrics_frame \<Rightarrow> ('r, unit) core_op" where
  "record_metrics repo env now flush_now frame =
     seq (record_metric_buckets repo now frame) (apply_metrics repo env now flush_now frame)"

section \<open>Snapshots and queries\<close>

definition snapshot_with_sequence ::
  "core_env \<Rightarrow> int \<Rightarrow> 'r app_core \<Rightarrow> snapshot_with_sequence" where
  "snapshot_with_sequence env now a =
     \<lparr>sw_snapshot =
        \<lparr>sn_protocol_version = PROTOCOL_VERSION,
         sn_captured_at_ms = now,
         sn_host = map_option mf_host (a_latest_metrics a),
         sn_aggregate = map_option mf_aggregate (a_latest_metrics a),
         sn_sessions = take MAX_SESSIONS
           (sort_key (\<lambda>s. - s_last_event_at_ms s) (reg_sessions (env_order env) (a_registry a))),
         sn_settings = a_settings a,
         sn_adapters = a_integrations a,
         sn_resource_alerts = resource_alerts_from_active (active (a_alerts a))\<rparr>,
      sw_sequence = a_stream_sequence a,
      sw_events = bootstrap_events (env_order env) (a_registry a)\<rparr>"

definition session_events :: "string \<Rightarrow> ('r, session_event list) core_op" where
  "session_events session_id =
     seq (lift (validate_session_id session_id))
      (bind (gets (\<lambda>a. reg_get (a_registry a) session_id)) (\<lambda>found.
        if found = None then throw (SessionNotFound session_id)
        else gets (\<lambda>a. events_for (a_registry a) session_id)))"

definition session_event_page_op ::
  "'r repository \<Rightarrow> string \<Rightarrow> nat option \<Rightarrow> nat \<Rightarrow> ('r, session_event_page) core_op" where
  "session_event_page_op repo session_id before_sequence limit =
     seq (lift (validate_session_id session_id))
      (if limit = 0 \<or> limit > MAX_EVENT_PAGE_SIZE then
         throw (Validation (''event page limit must be 1..='' @ dec_string MAX_EVENT_PAGE_SIZE))
       else if before_sequence = Some 0 then
         throw (Validation ''before_sequence must be greater than zero'')
       else
         bind (gets (\<lambda>a. reg_get (a_registry a) session_id)) (\<lambda>found.
           if found = None then throw (SessionNotFound session_id)
           else on_repo (repo_load_session_event_page repo session_id before_sequence limit)))"

definition metric_history ::
  "'r repository \<Rightarrow> string \<Rightarrow> nat \<Rightarrow> ('r, metric_sample list) core_op" where
  "metric_history repo session_id limit =
     seq (lift (validate_session_id session_id))
      (on_repo (repo_load_metric_history repo session_id limit))"

definition persisted_metric_history_op ::
  "'r repository \<Rightarrow> int \<Rightarrow> int \<Rightarrow> nat \<Rightarrow> ('r, persisted_metric_history) core_op" where
  "persisted_metric_history_op repo start_ms end_ms max_points =
     on_repo (repo_load_persisted_metric_history repo start_ms end_ms max_points)"

section \<open>Staleness\<close>

definition goes_stale :: "int \<Rightarrow> agent_session \<Rightarrow> bool" where
  "goes_stale now_ms session \<longleftrightarrow>
     s_status session \<notin> {Completed, Failed, Stale} \<and>
     i64_saturating_sub now_ms (s_last_event_at_ms session) \<ge> STALE_SESSION_MS"

definition mark_stale :: "'r repository \<Rightarrow> int \<Rightarrow> string \<Rightarrow> ('r, unit) core_op" where
  "mark_stale repo now_ms session_id =
     bind (borrow_session ''stale session'' session_id) (\<lambda>session.
       if validate_transition (s_status session) Stale = Ok () then
         (let updated = session\<lparr>s_status := Stale, s_last_event_at_ms := now_ms,
                s_latest_metric := None\<rparr>
          in seq (write_through repo session_id updated)
               (queue_payload (PSessionUpsert updated)))
       else ret ())"

definition mark_stale_sessions ::
  "'r repository \<Rightarrow> core_env \<Rightarrow> int \<Rightarrow> ('r, unit) core_op" where
  "mark_stale_sessions repo env now_ms =
     bind (gets (\<lambda>a. map s_id (filter (goes_stale now_ms)
             (reg_sessions (env_order env) (a_registry a)))))
       (for_each (mark_stale repo now_ms))"

definition tick :: "'r repository \<Rightarrow> core_env \<Rightarrow> int \<Rightarrow> int \<Rightarrow> ('r, unit) core_op" where
  "tick repo env now flush_now =
     seq (mark_stale_sessions repo env now) (flush_pending env flush_now)"

section \<open>Removal and direct edits\<close>

definition core_remove_session ::
  "'r repository \<Rightarrow> core_env \<Rightarrow> int \<Rightarrow> string \<Rightarrow> ('r, unit) core_op" where
  "core_remove_session repo env now session_id =
     seq (lift (validate_session_id session_id))
      (bind (gets (\<lambda>a. reg_get (a_registry a) session_id)) (\<lambda>found.
        if found = None then throw (SessionNotFound session_id)
        else
          seq (on_repo (repo_remove_session repo session_id))
           (seq (on_registry (reg_remove_session session_id))
             (seq (queue_payload (PSessionRemove session_id)) (flush_pending env now)))))"

definition clear_process_root ::
  "'r repository \<Rightarrow> core_env \<Rightarrow> int \<Rightarrow> string \<Rightarrow> ('r, unit) core_op" where
  "clear_process_root repo env now session_id =
     seq (lift (validate_session_id session_id))
      (bind (borrow_or_not_found session_id) (\<lambda>session.
        if s_process_root session = None then ret ()
        else
          (let updated = session\<lparr>s_process_root := None, s_latest_metric := None\<rparr>
           in seq (write_through repo session_id updated)
               (seq (queue_payload (PSessionUpsert updated)) (flush_pending env now)))))"

definition set_verified_terminal ::
  "'r repository \<Rightarrow> core_env \<Rightarrow> int \<Rightarrow> string \<Rightarrow> verified_terminal_context \<Rightarrow> ('r, unit) core_op" where
  "set_verified_terminal repo env now session_id terminal =
     seq (lift (validate_session_id session_id))
      (bind (borrow_or_not_found session_id) (\<lambda>session.
        let updated = session\<lparr>s_verified_terminal := Some terminal\<rparr>
        in seq (write_through repo session_id updated)
            (seq (queue_payload (PSessionUpsert updated)) (flush_pending env now))))"

section \<open>Purging\<close>

record purge_scope =
  sc_history :: bool
  sc_session_events :: bool
  sc_connector_journal :: bool
  sc_include_backups :: bool

record purge_result =
  pu_history_rows_removed :: nat
  pu_events_removed :: nat
  pu_backups_removed :: nat
  pu_active_connectors_disconnected :: nat

definition forget_metrics :: "('r, unit) core_op" where
  "forget_metrics =
     modify (\<lambda>a. a\<lparr>a_registry := clear_latest_metrics (a_registry a), a_latest_metrics := None\<rparr>)"

text \<open>Each purge calls the repository before it takes the lock.\<close>

definition prune_repository :: "'r repository \<Rightarrow> int \<Rightarrow> ('r, purge_report) core_op" where
  "prune_repository repo now =
     bind (gets (\<lambda>a. i64_saturating_mul (int (ps_history_retention_hours (a_settings a)))
                       (60 * 60 * 1000))) (\<lambda>retention_ms.
       on_repo (repo_prune repo now retention_ms))"

definition apply_prune :: "purge_report \<Rightarrow> ('r, unit) core_op" where
  "apply_prune report = (if pr_metric_buckets_deleted report > 0 then forget_metrics else ret ())"

definition purge_history :: "'r repository \<Rightarrow> int \<Rightarrow> ('r, purge_report) core_op" where
  "purge_history repo now =
     bind (prune_repository repo now) (\<lambda>report. seq (apply_prune report) (ret report))"

definition core_purge_metric_history :: "'r repository \<Rightarrow> ('r, nat) core_op" where
  "core_purge_metric_history repo =
     bind (on_repo (repo_purge_metric_history repo)) (\<lambda>removed. seq forget_metrics (ret removed))"

definition core_purge_session_events :: "'r repository \<Rightarrow> ('r, nat) core_op" where
  "core_purge_session_events repo =
     bind (on_repo (repo_purge_session_events repo)) (\<lambda>removed.
       seq (modify (\<lambda>a. a\<lparr>a_registry := clear_events (a_registry a)\<rparr>)) (ret removed))"

definition purge_scoped :: "'r repository \<Rightarrow> purge_scope \<Rightarrow> ('r, purge_result) core_op" where
  "purge_scoped repo scope =
     bind (if sc_history scope then core_purge_metric_history repo else ret 0) (\<lambda>history_rows.
     bind (if sc_session_events scope then core_purge_session_events repo else ret 0) (\<lambda>events.
       ret \<lparr>pu_history_rows_removed = history_rows, pu_events_removed = events,
            pu_backups_removed = 0, pu_active_connectors_disconnected = 0\<rparr>))"

end
