(* ===== verification/Op_Logic.thy ===== *)
theory Op_Logic
  imports Notch_Prelude
begin

text \<open>
  A small program logic for state-passing operations. \<open>sound I P m Q\<close>: from a state with \<open>P\<close>
  the operation \<open>m\<close> does not panic; if it returns \<open>Ok x\<close> the state has \<open>Q x\<close>; if it returns an
  error the state still has \<open>I\<close>, whatever had been changed before the early return.
\<close>

definition sound ::
  "('s \<Rightarrow> bool) \<Rightarrow> ('s \<Rightarrow> bool) \<Rightarrow> ('s, 'e, 'a) op \<Rightarrow> ('a \<Rightarrow> 's \<Rightarrow> bool) \<Rightarrow> bool" where
  "sound I P m Q \<longleftrightarrow>
     (\<forall>s. P s \<longrightarrow> (case m s of (Ok x, t) \<Rightarrow> Q x t | (Err e, t) \<Rightarrow> I t | (Panic p, t) \<Rightarrow> False))"

lemma soundI:
  assumes "\<And>s x t. P s \<Longrightarrow> m s = (Ok x, t) \<Longrightarrow> Q x t"
    and "\<And>s e t. P s \<Longrightarrow> m s = (Err e, t) \<Longrightarrow> I t"
    and "\<And>s p t. P s \<Longrightarrow> m s \<noteq> (Panic p, t)"
  shows "sound I P m Q"
  unfolding sound_def
proof (intro allI impI)
  fix s assume P: "P s"
  obtain r t where m: "m s = (r, t)" by fastforce
  with assms P show "case m s of (Ok x, t) \<Rightarrow> Q x t | (Err e, t) \<Rightarrow> I t | (Panic p, t) \<Rightarrow> False"
    by (cases r) auto
qed

lemma sound_Ok: "sound I P m Q \<Longrightarrow> P s \<Longrightarrow> m s = (Ok x, t) \<Longrightarrow> Q x t"
  by (force simp: sound_def)

lemma sound_Err: "sound I P m Q \<Longrightarrow> P s \<Longrightarrow> m s = (Err e, t) \<Longrightarrow> I t"
  by (force simp: sound_def)

lemma sound_Panic: "sound I P m Q \<Longrightarrow> P s \<Longrightarrow> m s \<noteq> (Panic p, t)"
  by (force simp: sound_def)

lemma sound_state:
  assumes "sound I P m (\<lambda>_. I)" and "P s"
  shows "I (snd (m s))"
proof (cases "m s")
  case (Pair r t)
  then show ?thesis
    using sound_Ok [OF assms] sound_Err [OF assms] sound_Panic [OF assms] by (cases r) auto
qed

lemma sound_conseq:
  "sound I P m Q \<Longrightarrow> (\<And>s. P' s \<Longrightarrow> P s) \<Longrightarrow> (\<And>x s. Q x s \<Longrightarrow> Q' x s) \<Longrightarrow> sound I P' m Q'"
  unfolding sound_def by (fastforce split: prod.splits outcome.splits)

lemma sound_pre: "sound I P m Q \<Longrightarrow> (\<And>s. P' s \<Longrightarrow> P s) \<Longrightarrow> sound I P' m Q"
  by (erule sound_conseq) auto

lemma sound_post: "sound I P m Q \<Longrightarrow> (\<And>x s. Q x s \<Longrightarrow> Q' x s) \<Longrightarrow> sound I P m Q'"
  by (erule sound_conseq) auto

lemma sound_weaken_err: "sound I P m Q \<Longrightarrow> (\<And>s. I s \<Longrightarrow> I' s) \<Longrightarrow> sound I' P m Q"
  unfolding sound_def by (fastforce split: prod.splits outcome.splits)

lemma sound_bind:
  assumes "sound I P m R" and "\<And>x. sound I (R x) (k x) Q"
  shows "sound I P (bind m k) Q"
proof (unfold sound_def, intro allI impI)
  fix s assume P: "P s"
  obtain r t where m: "m s = (r, t)" by fastforce
  show "case bind m k s of (Ok x, t) \<Rightarrow> Q x t | (Err e, t) \<Rightarrow> I t | (Panic p, t) \<Rightarrow> False"
  proof (cases r)
    case (Ok x)
    with assms m P have "R x t" by (auto dest: sound_Ok)
    with assms(2) [of x] show ?thesis by (simp add: bind_def m Ok sound_def)
  next
    case (Err e)
    with assms m P show ?thesis by (auto simp: bind_def dest: sound_Err)
  next
    case (Panic p)
    with assms m P show ?thesis by (auto dest: sound_Panic)
  qed
qed

lemma sound_seq: "sound I P m (\<lambda>_. R) \<Longrightarrow> sound I R k Q \<Longrightarrow> sound I P (seq m k) Q"
  unfolding seq_def by (erule sound_bind)

lemma sound_ret: "(\<And>s. P s \<Longrightarrow> Q x s) \<Longrightarrow> sound I P (ret x) Q"
  by (simp add: sound_def ret_def)

lemma sound_throw: "(\<And>s. P s \<Longrightarrow> I s) \<Longrightarrow> sound I P (throw e) Q"
  by (simp add: sound_def throw_def)

lemma sound_gets: "(\<And>s. P s \<Longrightarrow> Q (f s) s) \<Longrightarrow> sound I P (gets f) Q"
  by (simp add: sound_def gets_def)

lemma sound_modify: "(\<And>s. P s \<Longrightarrow> Q () (f s)) \<Longrightarrow> sound I P (modify f) Q"
  by (simp add: sound_def modify_def)

lemma sound_lift:
  assumes "\<And>s p. P s \<Longrightarrow> r \<noteq> Panic p" and "\<And>s e. P s \<Longrightarrow> r = Err e \<Longrightarrow> I s" and "\<And>s x. P s \<Longrightarrow> r = Ok x \<Longrightarrow> Q x s"
  shows "sound I P (lift r) Q"
  using assms by (cases r) (auto simp: sound_def lift_def)

lemma sound_if:
  "(b \<Longrightarrow> sound I P m Q) \<Longrightarrow> (\<not> b \<Longrightarrow> sound I P k Q) \<Longrightarrow> sound I P (if b then m else k) Q"
  by simp

lemma sound_option:
  "(x = None \<Longrightarrow> sound I P m Q) \<Longrightarrow> (\<And>y. x = Some y \<Longrightarrow> sound I P (k y) Q) \<Longrightarrow>
   sound I P (case x of None \<Rightarrow> m | Some y \<Rightarrow> k y) Q"
  by (cases x) auto

lemma sound_for_each:
  assumes "\<And>x. x \<in> set xs \<Longrightarrow> sound I P (f x) (\<lambda>_. P)"
  shows "sound I P (for_each f xs) (\<lambda>_. P)"
  using assms by (induction xs) (auto intro: sound_ret sound_seq)

text \<open>Reading the state first: what the read value says of the state is known afterwards.\<close>

lemma sound_read:
  assumes "\<And>x. sound I (\<lambda>s. P s \<and> f s = x) (k x) Q"
  shows "sound I P (bind (gets f) k) Q"
  using assms by (intro sound_bind [OF sound_gets, of P "\<lambda>x s. P s \<and> f s = x"]) auto

lemma sound_fix: "(\<And>x. sound I (\<lambda>s. P s \<and> f s = x) m Q) \<Longrightarrow> sound I P m Q"
  by (auto simp: sound_def)

text \<open>An operation on one field.\<close>

lemma sound_zoom:
  assumes "\<And>s t x. P s \<Longrightarrow> m (g s) = (Ok x, t) \<Longrightarrow> Q x (p t s)"
    and "\<And>s t e. P s \<Longrightarrow> m (g s) = (Err e, t) \<Longrightarrow> I (p t s)"
    and "\<And>s t q. P s \<Longrightarrow> m (g s) \<noteq> (Panic q, t)"
  shows "sound I P (zoom g p m) Q"
  using assms by (intro soundI) (auto simp: zoom_def split: prod.splits)

end
