(* ===== verification/Core_Invariant.thy ===== *)
theory Core_Invariant
  imports App_Core Op_Logic
begin

text \<open>
  Soundness of every operation of \<^verbatim>\<open>App_Core\<close>: the core invariant survives each of them, errors
  included, none of them panics, and an operation that returns \<open>Ok\<close> leaves the repository in
  step with memory. The last part is relative to a contract, \<open>write_through_store\<close>, that says
  how the repository's answers relate to a map of sessions.
\<close>

section \<open>The core invariant\<close>

definition stream_ok :: "'r app_core \<Rightarrow> bool" where
  "stream_ok a \<longleftrightarrow>
     map f_sequence (a_stream a) = map (\<lambda>n. wrap_u64 (Suc n)) [0..<length (a_stream a)] \<and>
     a_stream_sequence a = wrap_u64 (length (a_stream a))"

definition core_inv :: "'r app_core \<Rightarrow> bool" where
  "core_inv a \<longleftrightarrow> reg_inv (a_registry a) \<and> coalescer_inv (a_coalescer a) \<and> stream_ok a"

lemma core_inv_fields [simp]:
  "core_inv (a\<lparr>a_settings := ps\<rparr>) = core_inv a"
  "core_inv (a\<lparr>a_integrations := cs\<rparr>) = core_inv a"
  "core_inv (a\<lparr>a_alerts := ev\<rparr>) = core_inv a"
  "core_inv (a\<lparr>a_latest_metrics := m\<rparr>) = core_inv a"
  "core_inv (a\<lparr>a_repository := d\<rparr>) = core_inv a"
  by (simp_all add: core_inv_def stream_ok_def)

lemma core_inv_registry: "core_inv a \<Longrightarrow> reg_inv g \<Longrightarrow> core_inv (a\<lparr>a_registry := g\<rparr>)"
  by (simp add: core_inv_def stream_ok_def)

lemma core_inv_push: "core_inv a \<Longrightarrow> core_inv (a\<lparr>a_coalescer := coalescer_push p (a_coalescer a)\<rparr>)"
  by (simp add: core_inv_def stream_ok_def coalescer_inv_push)

lemma wrap_u64_Suc: "wrap_u64 (wrap_u64 n + 1) = wrap_u64 (Suc n)"
  by (simp add: wrap_u64_def mod_Suc_eq)

lemma stream_ok_emit: "stream_ok a \<Longrightarrow> stream_ok (emit_frame now p a)"
  by (simp add: stream_ok_def emit_frame_def Let_def wrap_u64_Suc [simplified])

lemma stream_ok_emit_all: "stream_ok a \<Longrightarrow> stream_ok (fold (emit_frame now) ps a)"
  by (induction ps arbitrary: a) (simp_all add: stream_ok_emit)

lemma emit_all_fields [simp]:
  "a_registry (fold (emit_frame now) ps a) = a_registry a"
  "a_coalescer (fold (emit_frame now) ps a) = a_coalescer a"
  "a_repository (fold (emit_frame now) ps a) = a_repository a"
  by (induction ps arbitrary: a) (simp_all add: emit_frame_def Let_def)

lemma reg_get_maps:
  "reg_get (reg_write k s r) = (reg_get r)(k \<mapsto> s)"
  "reg_get (reg_insert s r) = (reg_get r)(s_id s \<mapsto> s)"
  "reg_get (reg_delete s k r) = (reg_get r)(k := None)"
  "reg_get (record_idempotency key r) = reg_get r"
  "reg_get (clear_events r) = reg_get r"
  "reg_get (clear_latest_metrics r) = map_option (\<lambda>s. s\<lparr>s_latest_metric := None\<rparr>) \<circ> reg_get r"
  by (auto simp: fun_eq_iff reg_write_def reg_insert_def reg_delete_def record_idempotency_def
      clear_events_def reg_get_def map_of_clear_latest)

lemma reg_get_append: "reg_get (snd (reg_append_event e r)) = reg_get r"
  by (simp add: reg_append_event_def Let_def reg_get_def fun_eq_iff)

lemma reg_get_append_run: "reg_append_event e r = (x, r') \<Longrightarrow> reg_get r' = reg_get r"
  using reg_get_append [of e r] by simp

lemma reg_append_no_panic: "reg_append_event e r \<noteq> (Panic p, r')"
  by (simp add: reg_append_event_def Let_def)

section \<open>The contract of a write-through repository\<close>

text \<open>\<open>same_row\<close>: what an update of a stored session may not change.\<close>

definition same_row :: "agent_session \<Rightarrow> agent_session \<Rightarrow> bool" where
  "same_row s t \<longleftrightarrow> same_identity s t \<and> s_started_at_ms s = s_started_at_ms t"

lemma same_row_refl [simp]: "same_row s s"
  by (simp add: same_row_def same_identity_def)

lemma same_row_trans: "same_row s t \<Longrightarrow> same_row t u \<Longrightarrow> same_row s u"
  by (auto simp: same_row_def same_identity_def)

lemma same_row_identity: "same_row s t \<Longrightarrow> same_identity s t"
  by (simp add: same_row_def)

definition no_panic :: "('s, 'e, 'a) op \<Rightarrow> bool" where
  "no_panic m \<longleftrightarrow> (\<forall>s p. fst (m s) \<noteq> Panic p)"

definition repo_safe :: "'r repository \<Rightarrow> bool" where
  "repo_safe repo \<longleftrightarrow>
     (\<forall>s. no_panic (repo_upsert_session repo s)) \<and> (\<forall>i. no_panic (repo_remove_session repo i)) \<and>
     (\<forall>e. no_panic (repo_append_event repo e)) \<and>
     (\<forall>i b l. no_panic (repo_load_session_event_page repo i b l)) \<and>
     (\<forall>ps. no_panic (repo_save_settings repo ps)) \<and>
     (\<forall>c h m t. no_panic (repo_upsert_integration repo c h m t)) \<and>
     (\<forall>sc i t x. no_panic (repo_record_metric_bucket repo sc i t x)) \<and>
     no_panic (repo_purge_metric_history repo) \<and> no_panic (repo_purge_session_events repo) \<and>
     (\<forall>k t. no_panic (repo_store_idempotency_key repo k t)) \<and>
     (\<forall>t m. no_panic (repo_prune repo t m))"

text \<open>
  What a command needs of the state and of its own data: the id computed for a new session does
  not belong to another one, and a process id is one the repository can hold.
\<close>

definition admissible ::
  "(process_identity option \<Rightarrow> bool) \<Rightarrow> core_env \<Rightarrow> ingest_command \<Rightarrow> 'r app_core \<Rightarrow> bool" where
  "admissible fits env command a \<longleftrightarrow>
     (case command of
        SessionStart cmd \<Rightarrow>
          id_available (env_hash env) (st_source cmd) (st_external_session_id cmd) (a_registry a)
      | RegisterProcessRoot cmd \<Rightarrow> fits (Some (pr_process_root cmd))
      | _ \<Rightarrow> True)"

locale write_through_store =
  fixes repo :: "'r repository"
    and sync :: "(string \<Rightarrow> agent_session option) \<Rightarrow> 'r \<Rightarrow> bool"
    and fits :: "process_identity option \<Rightarrow> bool"
  assumes safe: "repo_safe repo"
    and fits_None: "fits None"
    and sync_fits: "sync m d \<Longrightarrow> m i = Some s \<Longrightarrow> fits (s_process_root s)"
    and sync_upsert:
      "sync m d \<Longrightarrow> (\<And>t. m (s_id s) = Some t \<Longrightarrow> same_row s t) \<Longrightarrow> fits (s_process_root s) \<Longrightarrow>
       repo_upsert_session repo s d = (Ok (), d') \<Longrightarrow> sync (m(s_id s \<mapsto> s)) d'"
    and sync_remove:
      "sync m d \<Longrightarrow> repo_remove_session repo i d = (Ok (), d') \<Longrightarrow> sync (m(i := None)) d'"
    and sync_forget: "sync m d \<Longrightarrow> sync (map_option (\<lambda>s. s\<lparr>s_latest_metric := None\<rparr>) \<circ> m) d"
    and sync_append_event: "sync m d \<Longrightarrow> repo_append_event repo e d = (Ok (), d') \<Longrightarrow> sync m d'"
    and sync_save_settings: "sync m d \<Longrightarrow> repo_save_settings repo ps d = (Ok (), d') \<Longrightarrow> sync m d'"
    and sync_integration:
      "sync m d \<Longrightarrow> repo_upsert_integration repo c h msg t d = (Ok (), d') \<Longrightarrow> sync m d'"
    and sync_bucket:
      "sync m d \<Longrightarrow> repo_record_metric_bucket repo sc j t x d = (Ok (), d') \<Longrightarrow> sync m d'"
    and sync_idempotency:
      "sync m d \<Longrightarrow> repo_store_idempotency_key repo k t d = (Ok b, d') \<Longrightarrow> sync m d'"
    and sync_purge_metrics: "sync m d \<Longrightarrow> repo_purge_metric_history repo d = (Ok n, d') \<Longrightarrow> sync m d'"
    and sync_purge_events: "sync m d \<Longrightarrow> repo_purge_session_events repo d = (Ok n, d') \<Longrightarrow> sync m d'"
    and sync_prune: "sync m d \<Longrightarrow> repo_prune repo t keep d = (Ok rep, d') \<Longrightarrow> sync m d'"
begin

text \<open>Memory and repository agree, and the core invariant holds.\<close>

definition good :: "'r app_core \<Rightarrow> bool" where
  "good a \<longleftrightarrow> core_inv a \<and> sync (reg_get (a_registry a)) (a_repository a)"

definition holds :: "string \<Rightarrow> agent_session \<Rightarrow> 'r app_core \<Rightarrow> bool" where
  "holds i s a \<longleftrightarrow> good a \<and> reg_get (a_registry a) i = Some s"

text \<open>A session being edited in memory and not yet written through.\<close>

definition draft :: "string \<Rightarrow> agent_session \<Rightarrow> 'r app_core \<Rightarrow> bool" where
  "draft i s a \<longleftrightarrow> core_inv a \<and> fits (s_process_root s) \<and>
     (\<exists>m t. sync m (a_repository a) \<and> m i = Some t \<and> same_row s t \<and>
        reg_get (a_registry a) = m(i \<mapsto> s))"

lemma good_inv: "good a \<Longrightarrow> core_inv a"
  by (simp add: good_def)

lemma draft_inv: "draft i s a \<Longrightarrow> core_inv a"
  by (simp add: draft_def)

lemma holds_draft: "holds i s a \<Longrightarrow> draft i s a"
  unfolding holds_def draft_def good_def
  by (auto intro!: exI [of _ "reg_get (a_registry a)"] simp: sync_fits map_upd_triv)

lemma draft_lookup: "draft i s a \<Longrightarrow> reg_get (a_registry a) i = Some s"
  by (auto simp: draft_def)

lemma draft_id: "draft i s a \<Longrightarrow> s_id s = i"
  using draft_lookup [of i s a] registry.get_ident [of "a_registry a" i s]
  by (simp add: draft_inv core_inv_def [THEN iffD1])

subsection \<open>Steps\<close>

lemma sound_validate:
  "(\<And>p. r \<noteq> Panic p) \<Longrightarrow> (\<And>a. P a \<Longrightarrow> core_inv a) \<Longrightarrow> sound core_inv P (lift r) (\<lambda>_. P)"
  by (rule sound_lift) auto

lemma sound_on_repo:
  assumes "no_panic m" and "\<And>a. P a \<Longrightarrow> core_inv a"
    and "\<And>a x d. P a \<Longrightarrow> m (a_repository a) = (Ok x, d) \<Longrightarrow> Q x (a\<lparr>a_repository := d\<rparr>)"
  shows "sound core_inv P (on_repo m) Q"
  unfolding on_repo_def
  by (rule sound_zoom) (use assms in \<open>auto simp: no_panic_def, metis fst_conv\<close>)

lemma sound_on_repo_good:
  assumes "no_panic m"
    and "\<And>m' d x d'. sync m' d \<Longrightarrow> m d = (Ok x, d') \<Longrightarrow> sync m' d'"
  shows "sound core_inv (\<lambda>a. good a \<and> R (a_registry a)) (on_repo m) (\<lambda>_ a. good a \<and> R (a_registry a))"
  by (rule sound_on_repo [OF assms(1)]) (auto simp: good_def intro: assms(2))

lemma sound_on_repo_sync:
  assumes "no_panic m"
    and "\<And>m' d x d'. sync m' d \<Longrightarrow> m d = (Ok x, d') \<Longrightarrow> sync m' d'"
  shows "sound core_inv good (on_repo m) (\<lambda>_. good)"
  using sound_on_repo_good [OF assms, where R = "\<lambda>_. True"] by simp

lemma sound_queue:
  "(\<And>a. P a \<Longrightarrow> P (a\<lparr>a_coalescer := coalescer_push p (a_coalescer a)\<rparr>)) \<Longrightarrow>
   sound core_inv P (queue_payload p) (\<lambda>_. P)"
  unfolding queue_payload_def by (rule sound_modify)

lemma good_push: "good a \<Longrightarrow> good (a\<lparr>a_coalescer := coalescer_push p (a_coalescer a)\<rparr>)"
  by (simp add: good_def core_inv_push)

lemma sound_flush: "sound core_inv good (flush_pending env now) (\<lambda>_. good)"
  unfolding flush_pending_def
proof (rule sound_modify)
  fix a assume a: "good a"
  obtain ps c where run: "coalescer_drain (env_order env) (a_coalescer a) = (ps, c)" by fastforce
  then have "coalescer_inv c" using coalescer_inv_drain [of "env_order env" "a_coalescer a"] by simp
  moreover have "stream_ok (fold (emit_frame now) ps (a\<lparr>a_coalescer := c\<rparr>))"
    using a by (intro stream_ok_emit_all) (simp add: good_def core_inv_def stream_ok_def)
  ultimately show "good (if coalescer_is_empty (a_coalescer a) then a
      else (let (payloads, c) = coalescer_drain (env_order env) (a_coalescer a)
            in fold (emit_frame now) payloads (a\<lparr>a_coalescer := c\<rparr>)))"
    using a by (simp add: run good_def core_inv_def)
qed

lemma sound_write_session:
  assumes "same_row s' s" and "fits (s_process_root s')"
  shows "sound core_inv (draft i s) (write_session i s') (\<lambda>_. draft i s')"
  unfolding write_session_def
proof (rule sound_modify)
  fix a assume d: "draft i s a"
  then obtain m t where m: "sync m (a_repository a)" "m i = Some t" "same_row s t"
      "reg_get (a_registry a) = m(i \<mapsto> s)"
    by (auto simp: draft_def)
  have "reg_inv (reg_write i s' (a_registry a))"
    using draft_inv [OF d] draft_lookup [OF d] same_row_identity [OF assms(1)]
    by (auto simp: core_inv_def intro: reg_inv_write)
  with d m assms same_row_trans [OF assms(1) m(3)]
  show "draft i s' (a\<lparr>a_registry := reg_write i s' (a_registry a)\<rparr>)"
    by (auto simp: draft_def core_inv_registry reg_get_maps intro!: exI [of _ m])
qed

lemma repo_safeD:
  "no_panic (repo_upsert_session repo s)" "no_panic (repo_remove_session repo i)"
  "no_panic (repo_append_event repo e)" "no_panic (repo_save_settings repo ps)"
  "no_panic (repo_upsert_integration repo c h m t)" "no_panic (repo_record_metric_bucket repo sc j t x)"
  "no_panic (repo_purge_metric_history repo)" "no_panic (repo_purge_session_events repo)"
  "no_panic (repo_store_idempotency_key repo k t)" "no_panic (repo_prune repo t y)"
  "no_panic (repo_load_session_event_page repo i b l)"
  using safe by (simp_all add: repo_safe_def)

lemma sound_upsert_draft:
  "sound core_inv (draft i s) (on_repo (repo_upsert_session repo s)) (\<lambda>_. holds i s)"
proof (rule sound_on_repo [OF repo_safeD(1)])
  fix a x d assume a: "draft i s a" and run: "repo_upsert_session repo s (a_repository a) = (Ok x, d)"
  then obtain m t where m: "sync m (a_repository a)" "m i = Some t" "same_row s t"
      "reg_get (a_registry a) = m(i \<mapsto> s)" and "fits (s_process_root s)"
    by (auto simp: draft_def)
  with sync_upsert [OF m(1), of s d] run draft_id [OF a] have "sync (m(i \<mapsto> s)) d" by auto
  with m(4) draft_inv [OF a] show "holds i s (a\<lparr>a_repository := d\<rparr>)"
    by (simp add: holds_def good_def)
qed (rule draft_inv)

lemma sound_write_through_draft:
  assumes "same_row s' s" and "fits (s_process_root s')"
  shows "sound core_inv (draft i s) (write_through repo i s') (\<lambda>_. holds i s')"
  unfolding write_through_def
  by (rule sound_seq [OF sound_write_session [OF assms] sound_upsert_draft])

lemma sound_write_through:
  assumes "same_row s' s" and "fits (s_process_root s) \<Longrightarrow> fits (s_process_root s')"
  shows "sound core_inv (holds i s) (write_through repo i s') (\<lambda>_. holds i s')"
proof (cases "\<exists>a. holds i s a")
  case True
  then obtain a where "draft i s a" using holds_draft by blast
  with assms(2) have "fits (s_process_root s')" by (simp add: draft_def)
  from sound_write_through_draft [OF assms(1) this] show ?thesis
    by (rule sound_pre) (rule holds_draft)
qed (auto simp: sound_def)

lemma sound_write_through_good:
  assumes "same_row s' s" and "fits (s_process_root s) \<Longrightarrow> fits (s_process_root s')"
  shows "sound core_inv (holds i s) (write_through repo i s') (\<lambda>_. good)"
  by (rule sound_post [OF sound_write_through [OF assms]]) (simp_all add: holds_def)

lemma sound_borrow:
  "sound core_inv (\<lambda>a. good a \<and> reg_get (a_registry a) i \<noteq> None) (borrow_session msg i) (holds i)"
  unfolding borrow_session_def
  by (rule sound_read, rule sound_option) (auto simp: sound_def holds_def ret_def)

lemma sound_borrow_draft:
  "sound core_inv (draft i s) (borrow_session msg i) (\<lambda>t a. t = s \<and> draft i s a)"
  unfolding borrow_session_def
  by (rule sound_read, rule sound_option) (auto simp: sound_def ret_def dest: draft_lookup)

lemma sound_borrow_or_not_found: "sound core_inv good (borrow_or_not_found i) (holds i)"
  unfolding borrow_or_not_found_def
  by (rule sound_read, rule sound_option) (auto intro!: sound_throw sound_ret simp: holds_def good_inv)

lemma sound_capabilities:
  "(\<And>a. P a \<Longrightarrow> core_inv a) \<Longrightarrow> sound core_inv P (capabilities_for src) (\<lambda>_. P)"
  unfolding capabilities_for_def
  by (rule sound_read, rule sound_option) (auto intro!: sound_throw sound_ret)

lemma sound_require_events:
  "(\<And>a. P a \<Longrightarrow> core_inv a) \<Longrightarrow> sound core_inv P (require_events src) (\<lambda>_. P)"
  unfolding require_events_def
  by (rule sound_bind [OF sound_capabilities]) (auto intro!: sound_throw sound_ret sound_if)

lemma sound_ensure_attention:
  "(\<And>a. P a \<Longrightarrow> core_inv a) \<Longrightarrow> sound core_inv P (ensure_attention_capability c k) (\<lambda>_. P)"
  unfolding ensure_attention_capability_def by (auto intro!: sound_throw sound_ret sound_if)

lemma sound_resolve:
  "sound core_inv good (resolve_session_id src ext) (\<lambda>i a. good a \<and> reg_get (a_registry a) i \<noteq> None)"
  unfolding resolve_session_id_def
  by (rule sound_read, rule sound_option)
     (auto intro!: sound_throw sound_ret simp: good_inv good_def core_inv_def resolve_external_Some)

text \<open>Appending an event changes no session.\<close>

lemma sound_append_event:
  "sound core_inv (\<lambda>a. good a \<and> reg_get (a_registry a) = m)
     (core_append_event repo uuid i k l txt tool tm)
     (\<lambda>e a. (good a \<and> reg_get (a_registry a) = m) \<and> e_session_id e = i \<and> e_id e = uuid)"
  unfolding core_append_event_def Let_def
proof (rule sound_read, rule sound_seq [where R = "\<lambda>a. good a \<and> reg_get (a_registry a) = m"], goal_cases)
  case (1 n)
  show ?case
    unfolding on_registry_def
  proof (rule sound_zoom [where Q = "\<lambda>_ a. good a \<and> reg_get (a_registry a) = m"], goal_cases)
    case (1 a g x)
    then show ?case
      using keepsD_run [OF keeps_reg_append_event 1(2)] reg_get_append_run [OF 1(2)]
      by (auto simp: good_def core_inv_registry core_inv_def [THEN iffD1])
  next
    case (2 a g e)
    then show ?case
      using keepsD_run [OF keeps_reg_append_event 2(2)]
      by (auto simp: good_def core_inv_registry core_inv_def [THEN iffD1])
  qed (simp add: reg_append_no_panic)
next
  case (2 n)
  show ?case
    by (rule sound_seq [OF sound_on_repo_good [OF repo_safeD(3) sync_append_event,
              where R = "\<lambda>g. reg_get g = m"]])
       (auto intro!: sound_seq [OF sound_queue] sound_ret simp: good_push)
qed

lemma sound_append_event_good:
  "sound core_inv good (core_append_event repo uuid i k l txt tool tm) (\<lambda>_. good)"
proof (rule sound_fix [where f = "\<lambda>a. reg_get (a_registry a)"])
  fix m
  show "sound core_inv (\<lambda>a. good a \<and> reg_get (a_registry a) = m)
      (core_append_event repo uuid i k l txt tool tm) (\<lambda>_. good)"
    by (rule sound_post [OF sound_append_event]) simp
qed

text \<open>The common tail of the handlers: append an event, queue the session, answer.\<close>

lemma sound_finish:
  "sound core_inv (holds i s)
     (bind (core_append_event repo uuid i k l txt tool tm) (\<lambda>event.
        seq (queue_payload p) (ret (res event)))) (\<lambda>_. good)"
  by (rule sound_bind [OF sound_pre [OF sound_append_event_good]])
     (auto simp: holds_def good_push intro!: sound_seq [OF sound_queue] sound_ret)

lemma sound_queue_ret: "sound core_inv good (seq (queue_payload p) (ret r)) (\<lambda>_. good)"
  by (rule sound_seq [OF sound_queue]) (auto simp: good_push intro: sound_ret)

subsection \<open>Handlers\<close>

lemmas validate_calm = validate_defs validate_bounded_no_panic validate_transition_def

lemma sound_guard: "(\<And>p. r \<noteq> Panic p) \<Longrightarrow> sound core_inv good (lift r) (\<lambda>_. good)"
  by (rule sound_validate) (auto simp: good_inv)

lemma sound_guard_option:
  "(\<And>y p. v y \<noteq> Panic p) \<Longrightarrow>
   sound core_inv good (case x of None \<Rightarrow> ret () | Some y \<Rightarrow> lift (v y)) (\<lambda>_. good)"
  by (rule sound_option) (auto intro: sound_ret sound_guard)

lemma sound_check_at:
  "(\<And>a. P a \<Longrightarrow> core_inv a) \<Longrightarrow> sound core_inv P (if b then ret () else throw e) (\<lambda>_. P)"
  by (auto intro!: sound_ret sound_throw)

lemma sound_check:
  "sound core_inv good (if b then ret () else throw e) (\<lambda>_. good)"
  "sound core_inv good (if b then throw e else ret ()) (\<lambda>_. good)"
  by (auto intro!: sound_ret sound_throw simp: good_inv)

lemma sound_touch:
  "sound core_inv good (touch_session repo i t) (\<lambda>_. good)"
  unfolding touch_session_def
proof (rule sound_read, rule sound_option, goal_cases)
  case (2 x s)
  have "sound core_inv (holds i s) (write_through repo i (s\<lparr>s_last_event_at_ms := t\<rparr>)) (\<lambda>_. good)"
    by (rule sound_post [OF sound_write_through]) (auto simp: same_row_def same_identity_def holds_def)
  then show ?case by (rule sound_pre) (use 2 in \<open>auto simp: holds_def\<close>)
qed (auto intro: sound_ret)

lemma sound_lifecycle_event: "sound core_inv good (lifecycle_event repo uuid cmd) (\<lambda>_. good)"
  unfolding lifecycle_event_def
  apply (intro sound_seq [OF sound_validate] sound_seq [OF sound_require_events]
      sound_bind [OF sound_resolve] sound_seq [OF sound_pre [OF sound_touch]]
      sound_bind [OF sound_append_event_good] sound_ret)
  apply (auto simp: validate_calm good_inv)
  done

lemma sound_tool_event: "sound core_inv good (tool_event repo uuid cmd) (\<lambda>_. good)"
  unfolding tool_event_def
  apply (intro sound_seq [OF sound_guard] sound_seq [OF sound_guard_option]
      sound_seq [OF sound_require_events] sound_bind [OF sound_resolve]
      sound_seq [OF sound_pre [OF sound_touch]] sound_bind [OF sound_append_event_good] sound_ret)
  apply (auto simp: validate_calm good_inv)
  done

lemma sound_edit:
  assumes "\<And>s. same_row (f s) s" and "\<And>s. fits (s_process_root s) \<Longrightarrow> fits (s_process_root (f s))"
    and "\<And>s. sound core_inv (holds i (f s)) (k s) Q"
  shows "sound core_inv (\<lambda>a. good a \<and> reg_get (a_registry a) i \<noteq> None)
    (bind (borrow_session msg i) (\<lambda>s. seq (write_through repo i (f s)) (k s))) Q"
  by (rule sound_bind [OF sound_borrow], rule sound_seq [OF sound_write_through])
     (use assms in auto)

lemma sound_attention: "sound core_inv good (attention repo uuid cmd) (\<lambda>_. good)"
  unfolding attention_def Let_def
  apply (intro sound_seq [OF sound_validate] sound_bind [OF sound_capabilities]
      sound_seq [OF sound_ensure_attention] sound_bind [OF sound_resolve] sound_edit
      sound_seq [OF sound_modify sound_finish])
  apply (auto simp: validate_calm good_inv same_row_def same_identity_def holds_def good_def)
  done

lemma sound_register_process_root:
  "fits (Some (pr_process_root cmd)) \<Longrightarrow>
   sound core_inv good (register_process_root repo uuid cmd) (\<lambda>_. good)"
  unfolding register_process_root_def Let_def
  apply (intro sound_seq [OF sound_validate] sound_bind [OF sound_capabilities]
      sound_seq [OF sound_check(2)] sound_bind [OF sound_resolve] sound_edit sound_finish)
  apply (auto simp: validate_calm good_inv same_row_def same_identity_def)
  done

lemma sound_borrow_edit:
  "sound core_inv (\<lambda>a. \<exists>s. draft i s a) (borrow_session msg i) (draft i)"
  unfolding borrow_session_def
  by (rule sound_read, rule sound_option)
     (auto simp: sound_def ret_def dest: draft_lookup, metis draft_lookup option.inject)

lemma sound_optional_write:
  assumes "\<And>y. same_row (f y) s" and "\<And>y. s_process_root (f y) = s_process_root s"
    and "\<And>y p. v y \<noteq> Panic p"
  shows "sound core_inv (draft i s)
    (case x of None \<Rightarrow> ret () | Some y \<Rightarrow> seq (lift (v y)) (write_session i (f y))) (\<lambda>_ a. \<exists>s. draft i s a)"
proof (rule sound_option, goal_cases)
  case (2 y)
  have "sound core_inv (draft i s) (write_session i (f y)) (\<lambda>_ a. \<exists>s. draft i s a)"
  proof (cases "fits (s_process_root s)")
    case True
    then show ?thesis by (intro sound_post [OF sound_write_session]) (use assms in auto)
  qed (simp add: sound_def draft_def)
  from sound_seq [OF sound_validate this] assms(3) show ?case by (simp add: draft_inv)
qed (auto intro: sound_ret)

lemma sound_write_through_edit:
  assumes "same_row s' s" and "s_process_root s' = s_process_root s"
  shows "sound core_inv (draft i s) (write_through repo i s') (\<lambda>_. holds i s')"
proof (cases "fits (s_process_root s)")
  case True
  then show ?thesis by (intro sound_write_through_draft) (use assms in simp_all)
qed (simp add: sound_def draft_def)

lemma sound_session_update: "sound core_inv good (session_update repo uuid cmd) (\<lambda>_. good)"
  unfolding session_update_def Let_def
  apply (intro sound_seq [OF sound_guard] sound_seq [OF sound_require_events]
      sound_bind [OF sound_resolve])
     apply (simp add: validate_calm)
    apply (simp add: good_inv)
  apply (rule sound_bind [OF sound_borrow])
  apply (rule sound_seq [OF sound_pre [OF sound_optional_write holds_draft]])
      apply (auto simp: validate_calm same_row_def same_identity_def)[4]
  apply (rule sound_bind [OF sound_borrow_edit])
  apply (rule sound_seq [OF sound_optional_write])
     apply (auto simp: validate_calm same_row_def same_identity_def)[3]
  apply (rule sound_bind [OF sound_borrow_edit])
  apply (rule sound_seq [OF sound_optional_write])
     apply (auto simp: validate_calm same_row_def same_identity_def)[3]
  apply (rule sound_bind [OF sound_borrow_edit])
  apply (rule sound_seq [OF sound_write_through_edit sound_finish])
   apply (auto simp: same_row_def same_identity_def)
  done

lemma holds_inv: "holds i s a \<Longrightarrow> core_inv a"
  by (simp add: holds_def good_def)

lemma sound_session_end: "sound core_inv good (session_end repo uuid cmd) (\<lambda>_. good)"
  unfolding session_end_def Let_def
  apply (intro sound_seq [OF sound_guard] sound_seq [OF sound_require_events]
      sound_bind [OF sound_resolve])
     apply (simp add: validate_calm)
    apply (simp add: good_inv)
  apply (rule sound_bind [OF sound_borrow])
  apply (rule sound_seq [OF sound_check_at])
   apply (simp add: holds_inv)
  apply (rule sound_seq [OF sound_validate])
    apply (auto simp: validate_calm holds_inv)[2]
  apply (rule sound_seq [OF sound_write_through])
    apply (auto simp: same_row_def same_identity_def)[2]
  apply (rule sound_seq [OF sound_validate])
    apply (auto simp: validate_calm holds_inv)[2]
  apply (rule sound_finish)
  done

lemma sound_integration_health: "sound core_inv good (integration_health repo cmd) (\<lambda>_. good)"
  unfolding integration_health_def
  by (intro sound_seq [OF sound_on_repo_sync [OF repo_safeD(5) sync_integration]]
      sound_seq [OF sound_modify sound_queue_ret]) (simp_all add: good_def)

lemma sound_acknowledge: "sound core_inv good (acknowledge_attention repo cmd) (\<lambda>_. good)"
  unfolding acknowledge_attention_def Let_def
  apply (intro sound_seq [OF sound_guard] sound_bind [OF sound_borrow_or_not_found]
      sound_seq [OF sound_write_through] sound_seq [OF sound_modify sound_queue_ret])
  apply (auto simp: validate_calm same_row_def same_identity_def holds_def good_def)
  done

subsection \<open>Starting a session\<close>

definition startable :: "core_env \<Rightarrow> session_start_command \<Rightarrow> 'r app_core \<Rightarrow> bool" where
  "startable env cmd a \<longleftrightarrow>
     good a \<and> id_available (env_hash env) (st_source cmd) (st_external_session_id cmd) (a_registry a)"

lemma id_available_reg_get:
  "reg_get r' = reg_get r \<Longrightarrow> id_available h src ext r' = id_available h src ext r"
  by (simp add: id_available_def)

lemma id_available_delete: "id_available h src ext r \<Longrightarrow> id_available h src ext (reg_delete s k r)"
  by (simp add: id_available_def reg_get_maps)

lemma startable_inv: "startable env cmd a \<Longrightarrow> core_inv a"
  by (simp add: startable_def good_def)

lemma startable_push:
  "startable env cmd a \<Longrightarrow> startable env cmd (a\<lparr>a_coalescer := coalescer_push p (a_coalescer a)\<rparr>)"
  by (simp add: startable_def good_push)

lemma sound_idempotency_gate:
  "sound core_inv (startable env cmd) (idempotency_gate repo cmd) (\<lambda>_. startable env cmd)"
proof -
  have store: "sound core_inv (startable env cmd)
      (if known then ret True else on_repo (repo_store_idempotency_key repo key t)) (\<lambda>_. startable env cmd)"
    for known key t
    using sound_on_repo_good [OF repo_safeD(9) sync_idempotency,
        where R = "id_available (env_hash env) (st_source cmd) (st_external_session_id cmd)"]
    by (auto simp: startable_def [abs_def] intro!: sound_ret)
  have "startable env cmd (a\<lparr>a_registry := record_idempotency key (a_registry a)\<rparr>)"
    if "startable env cmd a" for a key
    using that keeps_record_idempotency
    by (auto simp: startable_def good_def core_inv_registry core_inv_def [THEN iffD1] reg_get_maps
        id_available_reg_get [OF reg_get_maps(4)])
  with store show ?thesis
    unfolding idempotency_gate_def
    by (intro sound_option sound_ret sound_bind [OF sound_gets [where Q = "\<lambda>_. startable env cmd"]]
        sound_bind [OF store] sound_if sound_seq [OF sound_modify]) auto
qed

lemma eviction_no_panic: "capacity_eviction_candidate ord r \<noteq> Panic p"
  by (simp add: capacity_eviction_candidate_def split: option.splits)

lemma sound_evict_one:
  "sound core_inv (startable env cmd)
     (seq (on_repo (repo_remove_session repo i)) (on_registry (reg_remove_session i)))
     (\<lambda>_. startable env cmd)"
proof (rule sound_seq)
  let ?gone = "\<lambda>a. core_inv a \<and> sync ((reg_get (a_registry a))(i := None)) (a_repository a) \<and>
    id_available (env_hash env) (st_source cmd) (st_external_session_id cmd) (a_registry a)"
  show "sound core_inv (startable env cmd) (on_repo (repo_remove_session repo i)) (\<lambda>_. ?gone)"
    by (rule sound_on_repo [OF repo_safeD(2)])
       (auto simp: startable_def good_def intro: sync_remove)
  show "sound core_inv ?gone (on_registry (reg_remove_session i)) (\<lambda>_. startable env cmd)"
    unfolding on_registry_def
  proof (rule sound_zoom)
    fix a g x assume a: "?gone a" and run: "reg_remove_session i (a_registry a) = (Ok x, g)"
    then obtain s where g: "g = reg_delete s i (a_registry a)"
      by (auto simp: reg_remove_session_def bind_def op_basic_defs split: option.splits)
    with a keepsD_run [OF keeps_reg_remove_session run]
    show "startable env cmd (a\<lparr>a_registry := g\<rparr>)"
      by (auto simp: startable_def good_def core_inv_registry core_inv_def [THEN iffD1] reg_get_maps
          id_available_delete)
  next
    fix a g e assume "?gone a" "reg_remove_session i (a_registry a) = (Err e, g)"
    then show "core_inv (a\<lparr>a_registry := g\<rparr>)"
      using keepsD_run [OF keeps_reg_remove_session]
      by (auto simp: core_inv_registry core_inv_def [THEN iffD1])
  next
    show "reg_remove_session i (a_registry a) \<noteq> (Panic p, g)" for a p g
      by (simp add: reg_remove_session_def bind_def op_basic_defs split: option.splits)
  qed
qed

lemma seq_assoc: "seq m (seq k l) = seq (seq m k) l"
  by (auto simp: fun_eq_iff seq_def bind_def split: prod.splits outcome.splits)

lemma sound_evict:
  "sound core_inv (startable env cmd) (evict_for_capacity repo env) (\<lambda>_. startable env cmd)"
  unfolding evict_for_capacity_def
proof (rule sound_read, rule sound_bind [OF sound_lift [where Q = "\<lambda>_. startable env cmd"]], goal_cases)
  case (4 r c)
  show ?case
    unfolding seq_assoc
    by (intro sound_option sound_ret sound_seq [OF sound_evict_one] sound_queue) (auto simp: startable_push)
qed (auto simp: eviction_no_panic startable_inv)

text \<open>A session that was inserted in memory and not yet written through.\<close>

definition inserted :: "agent_session \<Rightarrow> 'r app_core \<Rightarrow> bool" where
  "inserted s a \<longleftrightarrow> core_inv a \<and> s_process_root s = None \<and>
     (\<exists>m. sync m (a_repository a) \<and> m (s_id s) = None \<and> reg_get (a_registry a) = m(s_id s \<mapsto> s))"

lemma builds_new_session:
  "builds_identity (st_source cmd) (st_external_session_id cmd) (new_session cmd status)"
  by (simp add: builds_identity_def new_session_def)

lemma sound_insert_new:
  "sound core_inv (startable env cmd)
     (on_registry (insert_new_session (env_hash env) (st_source cmd) (st_external_session_id cmd)
        (new_session cmd status)))
     (\<lambda>(s, replay) a. if replay then good a else inserted s a)"
  (is "sound core_inv ?P (on_registry ?ins) ?Q")
  unfolding on_registry_def
proof (rule sound_zoom)
  fix a g e assume a: "?P a" and run: "?ins (a_registry a) = (Err e, g)"
  show "core_inv (a\<lparr>a_registry := g\<rparr>)"
    using a reg_inv_insert_new_session [OF _ _ builds_new_session, of "a_registry a" "env_hash env" cmd status]
    by (auto simp: run startable_def good_def core_inv_registry core_inv_def [THEN iffD1])
next
  fix a g p assume "?P a"
  then show "?ins (a_registry a) \<noteq> (Panic p, g)"
    using insert_new_session_no_panic [of "a_registry a"]
    by (metis fst_conv startable_inv core_inv_def)
next
  fix a g x assume a: "?P a" and run: "?ins (a_registry a) = (Ok x, g)"
  obtain s replay where x: "x = (s, replay)" by fastforce
  have inv: "reg_inv (a_registry a)" and sy: "sync (reg_get (a_registry a)) (a_repository a)"
    using a by (simp_all add: startable_def good_def core_inv_def)
  have g: "core_inv (a\<lparr>a_registry := g\<rparr>)"
    using a reg_inv_insert_new_session [OF inv _ builds_new_session, of "env_hash env" cmd status]
    by (auto simp: run startable_def good_def core_inv_registry)
  consider "replay" "g = a_registry a"
    | "\<not> replay" "s = new_session cmd status (session_id_for (env_hash env) (st_source cmd) (st_external_session_id cmd))"
      "map_of (r_external_index (a_registry a)) (external_key (st_source cmd) (st_external_session_id cmd)) = None"
      "length (r_sessions (a_registry a)) < MAX_SESSIONS" "g = reg_insert s (a_registry a)"
    using run by (auto simp: x insert_new_session_run Let_def split: outcome.splits option.splits if_splits)
  then show "?Q x (a\<lparr>a_registry := g\<rparr>)"
  proof cases
    case 1
    with a show ?thesis by (simp add: x startable_def)
  next
    case 2
    have "reg_get (a_registry a) (s_id s) = None"
    proof (rule ccontr)
      assume "reg_get (a_registry a) (s_id s) \<noteq> None"
      then obtain t where t: "reg_get (a_registry a) (s_id s) = Some t" by blast
      with a 2(2) have "s_source t = st_source cmd \<and> s_external_session_id t = st_external_session_id cmd"
        by (simp add: startable_def id_available_def new_session_def)
      with reg_inv_stored(2) [OF inv, of "s_id s" t] t 2(3) show False by (simp add: reg_get_def)
    qed
    with g sy 2 show ?thesis
      by (auto simp: x inserted_def reg_get_maps new_session_def)
  qed
qed

lemma sound_upsert_inserted:
  "sound core_inv (inserted s) (on_repo (repo_upsert_session repo s)) (\<lambda>_. holds (s_id s) s)"
proof (rule sound_on_repo [OF repo_safeD(1)])
  fix a x d assume a: "inserted s a" and run: "repo_upsert_session repo s (a_repository a) = (Ok x, d)"
  then obtain m where m: "sync m (a_repository a)" "m (s_id s) = None"
      "reg_get (a_registry a) = m(s_id s \<mapsto> s)"
    by (auto simp: inserted_def)
  with sync_upsert [OF m(1), of s d] run a fits_None have "sync (m(s_id s \<mapsto> s)) d"
    by (simp add: inserted_def)
  with m a show "holds (s_id s) s (a\<lparr>a_repository := d\<rparr>)"
    by (simp add: holds_def good_def inserted_def)
qed (simp add: inserted_def)

lemma sound_append_event_holds:
  "sound core_inv (holds i s) (core_append_event repo uuid j k l txt tool tm) (\<lambda>_. holds i s)"
proof (rule sound_fix [where f = "\<lambda>a. reg_get (a_registry a)"])
  fix m
  show "sound core_inv (\<lambda>a. holds i s a \<and> reg_get (a_registry a) = m)
      (core_append_event repo uuid j k l txt tool tm) (\<lambda>_. holds i s)"
  proof (cases "m i = Some s")
    case True
    then show ?thesis
      by (intro sound_conseq [OF sound_append_event [where m = m]]) (auto simp: holds_def)
  qed (auto simp: sound_def holds_def)
qed

lemma sound_reg_upsert:
  assumes "same_row s' s" and "s_process_root s' = s_process_root s"
  shows "sound core_inv (holds i s) (on_registry (reg_upsert_session s')) (\<lambda>_. draft i s')"
  unfolding on_registry_def
proof (rule sound_zoom)
  fix a g x assume a: "holds i s a" and run: "reg_upsert_session s' (a_registry a) = (Ok x, g)"
  note d = holds_draft [OF a]
  have ids: "s_id s = i" "s_id s' = i"
    using draft_id [OF d] assms(1) by (auto simp: same_row_def same_identity_def)
  have g: "g = reg_insert s' (a_registry a)"
    using run by (cases rule: reg_upsert_session_cases [of s' "a_registry a"]) auto
  have "reg_admits s' (a_registry a)"
    using a ids same_row_identity [OF assms(1)]
    by (auto simp: reg_admits_def holds_def reg_get_def same_identity_def)
  then have "reg_inv g" using a by (simp add: g holds_def good_def core_inv_def reg_inv_insert)
  moreover obtain m t where "sync m (a_repository a)" "m i = Some t" "same_row s t"
      "reg_get (a_registry a) = m(i \<mapsto> s)" "fits (s_process_root s)" "core_inv a"
    using d by (auto simp: draft_def)
  ultimately show "draft i s' (a\<lparr>a_registry := g\<rparr>)"
    using ids assms same_row_trans [OF assms(1)]
    by (auto simp: draft_def core_inv_registry g reg_get_maps intro!: exI [of _ m])
next
  fix a g e assume a: "holds i s a" and run: "reg_upsert_session s' (a_registry a) = (Err e, g)"
  then have "g = a_registry a"
    by (cases rule: reg_upsert_session_cases [of s' "a_registry a"]) auto
  then show "core_inv (a\<lparr>a_registry := g\<rparr>)" using holds_inv [OF a] by simp
next
  show "reg_upsert_session s' (a_registry a) \<noteq> (Panic p, g)" for a p g
    by (cases rule: reg_upsert_session_cases [of s' "a_registry a"]) auto
qed

lemma sound_create_session:
  "sound core_inv (startable env cmd) (create_session repo env uuid cmd status) (\<lambda>_. good)"
  unfolding create_session_def Let_def
proof (rule sound_seq [OF sound_evict], rule sound_bind [OF sound_insert_new], goal_cases)
  case (1 x)
  obtain s replay where x: "x = (s, replay)" by fastforce
  let ?s' = "s\<lparr>s_last_event_at_ms := st_occurred_at_ms cmd\<rparr>"
  have tail: "sound core_inv (draft (s_id s) ?s')
      (seq (on_repo (repo_upsert_session repo ?s')) (seq (queue_payload (PSessionUpsert ?s')) (ret r)))
      (\<lambda>_. good)" for r
    by (rule sound_seq [OF sound_upsert_draft], rule sound_pre [OF sound_queue_ret]) (simp add: holds_def)
  have "same_row ?s' s" "s_process_root ?s' = s_process_root s"
    by (simp_all add: same_row_def same_identity_def)
  note up = sound_reg_upsert [OF this, of "s_id s"]
  show ?case
    unfolding x prod.case
    by (cases replay)
       (auto intro!: sound_ret sound_seq [OF sound_upsert_inserted]
          sound_bind [OF sound_append_event_holds] sound_seq [OF up tail])
qed

lemma sound_session_start:
  "sound core_inv (startable env cmd) (session_start repo env uuid cmd) (\<lambda>_. good)"
proof -
  have guard: "sound core_inv (startable env cmd) (lift r) (\<lambda>_. startable env cmd)"
    if "\<And>p. r \<noteq> Panic p" for r :: "(core_error, unit) outcome"
    using that by (rule sound_validate) (simp add: startable_inv)
  have good: "startable env cmd a \<Longrightarrow> good a" for a by (simp add: startable_def)
  have opt: "sound core_inv (startable env cmd)
      (case x of None \<Rightarrow> ret () | Some l \<Rightarrow> lift (validate_workspace_label l)) (\<lambda>_. startable env cmd)" for x
    by (rule sound_option) (auto intro!: sound_ret guard simp: validate_calm)
  have status: "sound core_inv (startable env cmd)
      (if b then ret () else lift (validate_transition x y)) (\<lambda>_. startable env cmd)" for b x y
    by (rule sound_if) (auto intro!: sound_ret guard simp: validate_calm)
  show ?thesis
    unfolding session_start_def
    apply (intro sound_seq [OF guard])
      apply (simp_all add: validate_calm)[2]
    apply (rule sound_seq [OF opt])
    apply (rule sound_bind [OF sound_idempotency_gate], rule sound_option)
     prefer 2 apply (rule sound_ret, erule good)
    apply (rule sound_seq [OF sound_require_events], erule startable_inv)
    apply (rule sound_seq [OF status])
    apply (rule sound_bind [OF sound_gets [where Q = "\<lambda>_. startable env cmd"]], assumption)
    apply (rule sound_option, rule sound_create_session)
    apply (rule sound_ret, erule good)
    done
qed

lemma sound_handle_ingest:
  "sound core_inv (\<lambda>a. good a \<and> admissible fits env command a) (handle_ingest repo env uuid command) (\<lambda>_. good)"
proof (cases command)
  case (SessionStart cmd)
  then show ?thesis
    using sound_session_start [of env cmd uuid]
    by (simp add: handle_ingest_def admissible_def startable_def [abs_def])
next
  case (RegisterProcessRoot cmd)
  then show ?thesis
    using sound_register_process_root [of cmd uuid]
    by (cases "fits (Some (pr_process_root cmd))")
       (auto simp: handle_ingest_def admissible_def sound_def)
qed (simp_all add: handle_ingest_def admissible_def sound_session_update sound_session_end
    sound_lifecycle_event sound_tool_event sound_attention sound_integration_health sound_acknowledge)

lemma sound_ingest:
  "sound core_inv (\<lambda>a. good a \<and> admissible fits env command a) (ingest repo env now uuid command) (\<lambda>_. good)"
  unfolding ingest_def
  by (rule sound_bind [OF sound_handle_ingest], rule sound_seq [OF sound_flush], rule sound_ret)

subsection \<open>The other operations\<close>

lemma sound_queue_flush:
  "sound core_inv good (seq (queue_payload p) (flush_pending env now)) (\<lambda>_. good)"
  by (rule sound_seq [OF sound_queue sound_flush]) (rule good_push)

lemma sound_save_settings: "sound core_inv good (save_new_settings repo ps) (\<lambda>_. good)"
  unfolding save_new_settings_def
  by (rule sound_on_repo_sync [OF repo_safeD(4)]) (auto intro: sync_save_settings)

lemma sound_apply_settings: "sound core_inv good (apply_settings env now ps) (\<lambda>_. good)"
  unfolding apply_settings_def
  by (rule sound_seq [OF sound_modify sound_queue_flush]) (simp add: good_def)

lemma sound_heartbeat: "sound core_inv good (heartbeat env now) (\<lambda>_. good)"
  unfolding heartbeat_def by (rule sound_queue_flush)

lemma sound_record_buckets: "sound core_inv good (record_metric_buckets repo now frame) (\<lambda>_. good)"
proof -
  note bucket = sound_on_repo_sync [OF repo_safeD(6) sync_bucket]
  show ?thesis
    unfolding record_metric_buckets_def Let_def
    by (intro sound_seq [OF bucket] sound_for_each) (auto intro: bucket)
qed

lemma sound_set_latest_metric: "sound core_inv good (set_latest_metric repo frame i) (\<lambda>_. good)"
  unfolding set_latest_metric_def
proof (rule sound_read, rule sound_option, goal_cases)
  case (2 x s)
  let ?s' = "s\<lparr>s_latest_metric := if s_status s \<in> {Completed, Failed, Stale} then None
      else map_of (mf_agents frame) i\<rparr>"
  have "sound core_inv (holds i s) (write_through repo i ?s') (\<lambda>_. good)"
    by (rule sound_post [OF sound_write_through]) (auto simp: same_row_def same_identity_def holds_def)
  then show ?case by (rule sound_pre) (use 2 in \<open>auto simp: holds_def\<close>)
qed (auto intro: sound_ret)

lemma sound_apply_metrics: "sound core_inv good (apply_metrics repo env now fnow frame) (\<lambda>_. good)"
  unfolding apply_metrics_def
  by (rule sound_bind [OF sound_gets [where Q = "\<lambda>_. good"]], assumption,
      intro sound_seq [OF sound_for_each] sound_seq [OF sound_modify sound_queue_flush])
     (auto intro: sound_set_latest_metric simp: good_def)

lemma sound_mark_stale:
  "sound core_inv (\<lambda>a. good a \<and> reg_get (a_registry a) i \<noteq> None) (mark_stale repo now i) (\<lambda>_. good)"
  unfolding mark_stale_def Let_def
  apply (rule sound_bind [OF sound_borrow], rule sound_if)
   apply (rule sound_seq [OF sound_write_through_good sound_queue])
     apply (auto simp: same_row_def same_identity_def good_push holds_def intro: sound_ret)
  done

text \<open>The stale sessions are marked one after the other; marking one removes none.\<close>

lemma mark_stale_present:
  "sound core_inv (\<lambda>a. good a \<and> (\<forall>j\<in>J. reg_get (a_registry a) j \<noteq> None) \<and> i \<in> J)
     (mark_stale repo now i) (\<lambda>_ a. good a \<and> (\<forall>j\<in>J. reg_get (a_registry a) j \<noteq> None))"
proof (rule soundI, goal_cases)
  case (1 a x b)
  have "reg_get (a_registry b) j \<noteq> None" if "reg_get (a_registry a) j \<noteq> None" for j
    using 1(2) that
    by (auto simp: mark_stale_def Let_def borrow_session_def bind_def seq_def write_through_def
        write_session_def queue_payload_def on_repo_def zoom_def op_basic_defs reg_get_maps
        split: option.splits prod.splits outcome.splits if_splits)
  with 1 show ?case using sound_Ok [OF sound_mark_stale, of a i] by blast
next
  case (2 a e b)
  then show ?case using sound_Err [OF sound_mark_stale, of a i] by blast
next
  case (3 a p b)
  then show ?case using sound_Panic [OF sound_mark_stale, of a i] by blast
qed

lemma sound_mark_all:
  "sound core_inv (\<lambda>a. good a \<and> (\<forall>j\<in>set is. reg_get (a_registry a) j \<noteq> None))
     (for_each (mark_stale repo now) is) (\<lambda>_. good)"
proof -
  let ?P = "\<lambda>a. good a \<and> (\<forall>j\<in>set is. reg_get (a_registry a) j \<noteq> None)"
  have "sound core_inv ?P (for_each (mark_stale repo now) is) (\<lambda>_. ?P)"
    by (rule sound_for_each, rule sound_pre [OF mark_stale_present]) auto
  then show ?thesis by (rule sound_post) auto
qed

lemma sound_tick:
  assumes "iteration_order (env_order env)"
  shows "sound core_inv good (tick repo env now fnow) (\<lambda>_. good)"
  unfolding tick_def mark_stale_sessions_def
proof (rule sound_seq [OF sound_bind [OF sound_gets sound_mark_all] sound_flush])
  fix a assume a: "good a"
  then have "reg_inv (a_registry a)" by (simp add: good_def core_inv_def)
  then show "good a \<and> (\<forall>j\<in>set (map s_id (filter (goes_stale now) (reg_sessions (env_order env) (a_registry a)))).
      reg_get (a_registry a) j \<noteq> None)"
    using a reg_sessions_iff [OF _ assms] by auto
qed

lemma sound_remove_session: "sound core_inv good (core_remove_session repo env now i) (\<lambda>_. good)"
proof -
  let ?gone = "\<lambda>a. core_inv a \<and> sync ((reg_get (a_registry a))(i := None)) (a_repository a)"
  have 1: "sound core_inv good (on_repo (repo_remove_session repo i)) (\<lambda>_. ?gone)"
    by (rule sound_on_repo [OF repo_safeD(2)]) (auto simp: good_def intro: sync_remove)
  have 2: "sound core_inv ?gone (on_registry (reg_remove_session i)) (\<lambda>_. good)"
    unfolding on_registry_def
  proof (rule sound_zoom)
    fix a g x assume a: "?gone a" and run: "reg_remove_session i (a_registry a) = (Ok x, g)"
    then obtain s where g: "g = reg_delete s i (a_registry a)"
      by (auto simp: reg_remove_session_def bind_def op_basic_defs split: option.splits)
    with a keepsD_run [OF keeps_reg_remove_session run] show "good (a\<lparr>a_registry := g\<rparr>)"
      by (auto simp: good_def core_inv_registry core_inv_def [THEN iffD1] reg_get_maps)
  next
    fix a g e assume "?gone a" "reg_remove_session i (a_registry a) = (Err e, g)"
    then show "core_inv (a\<lparr>a_registry := g\<rparr>)"
      using keepsD_run [OF keeps_reg_remove_session]
      by (auto simp: core_inv_registry core_inv_def [THEN iffD1])
  next
    show "reg_remove_session i (a_registry a) \<noteq> (Panic p, g)" for a p g
      by (simp add: reg_remove_session_def bind_def op_basic_defs split: option.splits)
  qed
  show ?thesis
    unfolding core_remove_session_def
    apply (rule sound_seq [OF sound_guard])
     apply (simp add: validate_calm)
    apply (rule sound_bind [OF sound_gets [where Q = "\<lambda>_. good"]], assumption)
    apply (rule sound_if, rule sound_throw, erule good_inv)
    apply (rule sound_seq [OF 1], rule sound_seq [OF 2], rule sound_queue_flush)
    done
qed

lemma sound_clear_process_root: "sound core_inv good (clear_process_root repo env now i) (\<lambda>_. good)"
  unfolding clear_process_root_def Let_def
  apply (rule sound_seq [OF sound_guard])
   apply (simp add: validate_calm)
  apply (rule sound_bind [OF sound_borrow_or_not_found], rule sound_if)
   apply (rule sound_ret, simp add: holds_def)
  apply (rule sound_seq [OF sound_write_through_good sound_queue_flush])
   apply (auto simp: same_row_def same_identity_def fits_None)
  done

lemma sound_set_verified_terminal:
  "sound core_inv good (set_verified_terminal repo env now i t) (\<lambda>_. good)"
  unfolding set_verified_terminal_def Let_def
  apply (rule sound_seq [OF sound_guard])
   apply (simp add: validate_calm)
  apply (rule sound_bind [OF sound_borrow_or_not_found])
  apply (rule sound_seq [OF sound_write_through_good sound_queue_flush])
   apply (auto simp: same_row_def same_identity_def)
  done

lemma sound_forget_metrics: "sound core_inv good forget_metrics (\<lambda>_. good)"
  unfolding forget_metrics_def
  by (rule sound_modify)
     (auto simp: good_def reg_get_maps sync_forget core_inv_registry reg_inv_clear_latest_metrics
       core_inv_def [THEN iffD1])

lemma sound_prune_repository: "sound core_inv good (prune_repository repo now) (\<lambda>_. good)"
  unfolding prune_repository_def
  by (rule sound_bind [OF sound_gets [where Q = "\<lambda>_. good"]], assumption)
     (rule sound_on_repo_sync [OF repo_safeD(10)], rule sync_prune)

lemma sound_apply_prune: "sound core_inv good (apply_prune report) (\<lambda>_. good)"
  unfolding apply_prune_def by (auto intro: sound_forget_metrics sound_ret)

lemma sound_purge_metrics: "sound core_inv good (core_purge_metric_history repo) (\<lambda>_. good)"
  unfolding core_purge_metric_history_def
  by (intro sound_bind [OF sound_on_repo_sync [OF repo_safeD(7) sync_purge_metrics]]
      sound_seq [OF sound_forget_metrics] sound_ret) auto

lemma sound_purge_events: "sound core_inv good (core_purge_session_events repo) (\<lambda>_. good)"
  unfolding core_purge_session_events_def
  by (intro sound_bind [OF sound_on_repo_sync [OF repo_safeD(8) sync_purge_events]]
      sound_seq [OF sound_modify [where Q = "\<lambda>_. good"]] sound_ret)
     (auto simp: good_def reg_get_maps core_inv_registry reg_inv_clear_events core_inv_def [THEN iffD1])

end

end
