(* ===== verification/Core_Runs.thy ===== *)
theory Core_Runs
  imports Core_Invariant
begin

text \<open>
  Runs of the core. A call is what happens in one critical section: a whole operation that runs
  under the write lock, or one of the two parts of an operation that calls the repository before
  it takes the lock. \<open>core_run\<close> interleaves calls in any order and with any outcome, so the two
  parts of such an operation may have other calls between them, or the second may be missing.
\<close>

datatype core_call =
    CallIngest int nat ingest_command
  | CallSaveSettings public_settings
  | CallApplySettings int public_settings
  | CallRecordBuckets int metrics_frame
  | CallApplyMetrics int int metrics_frame
  | CallTick int int
  | CallRemove int string
  | CallClearRoot int string
  | CallSetTerminal int string verified_terminal_context
  | CallHeartbeat int
  | CallPrune int
  | CallApplyPrune purge_report
  | CallPurgeMetrics
  | CallPurgeEvents

definition discard :: "('s, 'e, 'a) op \<Rightarrow> ('s, 'e, unit) op" where
  "discard m = bind m (\<lambda>_. ret ())"

fun run_call :: "'r repository \<Rightarrow> core_env \<Rightarrow> core_call \<Rightarrow> ('r, unit) core_op" where
  "run_call repo env (CallIngest now uuid command) = discard (ingest repo env now uuid command)"
| "run_call repo env (CallSaveSettings ps) = save_new_settings repo ps"
| "run_call repo env (CallApplySettings now ps) = apply_settings env now ps"
| "run_call repo env (CallRecordBuckets now frame) = record_metric_buckets repo now frame"
| "run_call repo env (CallApplyMetrics now fnow frame) = apply_metrics repo env now fnow frame"
| "run_call repo env (CallTick now fnow) = tick repo env now fnow"
| "run_call repo env (CallRemove now i) = core_remove_session repo env now i"
| "run_call repo env (CallClearRoot now i) = clear_process_root repo env now i"
| "run_call repo env (CallSetTerminal now i t) = set_verified_terminal repo env now i t"
| "run_call repo env (CallHeartbeat now) = heartbeat env now"
| "run_call repo env (CallPrune now) = discard (prune_repository repo now)"
| "run_call repo env (CallApplyPrune report) = apply_prune report"
| "run_call repo env CallPurgeMetrics = discard (core_purge_metric_history repo)"
| "run_call repo env CallPurgeEvents = discard (core_purge_session_events repo)"

definition call_admissible ::
  "(process_identity option \<Rightarrow> bool) \<Rightarrow> core_env \<Rightarrow> core_call \<Rightarrow> 'r app_core \<Rightarrow> bool" where
  "call_admissible fits env call a \<longleftrightarrow>
     (case call of CallIngest now uuid command \<Rightarrow> admissible fits env command a | _ \<Rightarrow> True)"

inductive core_run ::
  "(process_identity option \<Rightarrow> bool) \<Rightarrow> 'r repository \<Rightarrow> core_env \<Rightarrow> 'r app_core \<Rightarrow> 'r app_core \<Rightarrow> bool"
  for fits repo env a where
  start: "core_run fits repo env a a"
| call: "core_run fits repo env a b \<Longrightarrow> call_admissible fits env c b \<Longrightarrow>
    run_call repo env c b = (r, b') \<Longrightarrow> core_run fits repo env a b'"

text \<open>Runs in which every call returned \<open>Ok\<close>.\<close>

inductive core_run_ok ::
  "(process_identity option \<Rightarrow> bool) \<Rightarrow> 'r repository \<Rightarrow> core_env \<Rightarrow> 'r app_core \<Rightarrow> 'r app_core \<Rightarrow> bool"
  for fits repo env a where
  start_ok: "core_run_ok fits repo env a a"
| call_ok: "core_run_ok fits repo env a b \<Longrightarrow> call_admissible fits env c b \<Longrightarrow>
    run_call repo env c b = (Ok (), b') \<Longrightarrow> core_run_ok fits repo env a b'"

context write_through_store
begin

lemma sound_discard: "sound core_inv P m (\<lambda>_. good) \<Longrightarrow> sound core_inv P (discard m) (\<lambda>_. good)"
  unfolding discard_def by (erule sound_bind) (auto intro: sound_ret)

lemma sound_run_call:
  assumes "iteration_order (env_order env)"
  shows "sound core_inv (\<lambda>a. good a \<and> call_admissible fits env c a) (run_call repo env c) (\<lambda>_. good)"
proof (cases c)
  case (CallIngest now uuid command)
  then show ?thesis
    using sound_discard [OF sound_ingest] by (simp add: call_admissible_def)
qed (simp_all add: call_admissible_def sound_discard sound_save_settings sound_apply_settings
    sound_record_buckets sound_apply_metrics sound_tick [OF assms] sound_remove_session
    sound_clear_process_root sound_set_verified_terminal sound_heartbeat sound_prune_repository
    sound_apply_prune sound_purge_metrics sound_purge_events)

lemma run_ok_good:
  assumes "iteration_order (env_order env)" and "core_run_ok fits repo env a b" and "good a"
  shows "good b"
  using assms(2,3)
proof (induction rule: core_run_ok.induct)
  case (call_ok b c b')
  then show ?case using sound_Ok [OF sound_run_call [OF assms(1)] _ call_ok(3)] by simp
qed simp

end

text \<open>
  Without any claim on the repository's contents the contract only asks that it does not panic;
  then every run keeps the core invariant.
\<close>

lemma any_repository:
  assumes "repo_safe repo"
  shows "write_through_store repo (\<lambda>_ _. True) (\<lambda>_. True)"
  using assms by unfold_locales auto

lemma run_call_sound:
  assumes "repo_safe repo" and "iteration_order (env_order env)"
  shows "sound core_inv (\<lambda>a. core_inv a \<and> call_admissible (\<lambda>_. True) env c a) (run_call repo env c) (\<lambda>_. core_inv)"
proof -
  note store = any_repository [OF assms(1)]
  have "write_through_store.good (\<lambda>_ _. True) = (core_inv :: 'a app_core \<Rightarrow> bool)"
    by (simp add: fun_eq_iff write_through_store.good_def [OF store])
  with write_through_store.sound_run_call [OF store assms(2)] show ?thesis by simp
qed

lemma core_run_inv:
  assumes "repo_safe repo" and "iteration_order (env_order env)"
    and "core_run (\<lambda>_. True) repo env a b" and "core_inv a"
  shows "core_inv b"
  using assms(3,4)
proof (induction rule: core_run.induct)
  case (call b c r b')
  then show ?case
    using sound_state [OF run_call_sound [OF assms(1,2)], of b c] by simp
qed simp

end
