(* ===== verification/Sqlite_Laws.thy ===== *)
theory Sqlite_Laws
  imports Sqlite_Repository
begin

text \<open>
  What the store of \<^verbatim>\<open>Sqlite_Repository\<close> promises its clients: a session read back is the
  session written, the event log of a session keeps its newest events and can be paged
  through without a gap, retention deletes what it says, and a metric series is thinned
  without losing its ends.
\<close>

section \<open>Statements that succeeded\<close>

lemma statement_OkE:
  assumes "statement f db = (Ok x, db')"
  obtains "f (db\<lparr>db_faults := tl (db_faults db)\<rparr>) = Some (x, db')"
  using assms by (auto simp: statement_def Let_def split: if_splits option.splits)

lemma execute_OkE:
  assumes "execute f db = (Ok x, db')"
  obtains "db' = f (db\<lparr>db_faults := tl (db_faults db)\<rparr>)"
  using assms unfolding execute_def by (auto elim: statement_OkE)

lemma query_OkE:
  assumes "query f db = (Ok x, db')"
  obtains "db' = db\<lparr>db_faults := tl (db_faults db)\<rparr>" and "x = f db'"
  using assms unfolding query_def by (auto elim: statement_OkE)

lemma from_json_OkE:
  assumes "from_json r db = (Ok x, db')"
  obtains "r = Some x" and "db' = db"
  using assms by (auto simp: from_json_def lift_def split: option.splits)

lemma statement_failed:
  "fst (statement f db) = Err e \<Longrightarrow> snd (statement f db) = db\<lparr>db_faults := tl (db_faults db)\<rparr>"
  by (auto simp: statement_def Let_def split: option.splits if_splits)

lemmas db_OkE = bind_OkE seq_OkE statement_OkE execute_OkE query_OkE from_json_OkE

section \<open>Stored sessions\<close>

definition find_row :: "string \<Rightarrow> session_row list \<Rightarrow> session_row option" where
  "find_row i rows = find (\<lambda>r. rs_id r = i) rows"

definition stored :: "sqlite_env \<Rightarrow> sqlite_db \<Rightarrow> string \<Rightarrow> agent_session option" where
  "stored env db i = Option.bind (find_row i (db_sessions db)) (session_of_row env)"

definition codable :: "sqlite_env \<Rightarrow> agent_session \<Rightarrow> bool" where
  "codable env s \<longleftrightarrow>
     (case s_latest_metric s of None \<Rightarrow> True
      | Some m \<Rightarrow> Option.bind (metric_to_json env m) (metric_from_json env) = Some m) \<and>
     (case s_verified_terminal s of None \<Rightarrow> True
      | Some t \<Rightarrow> Option.bind (terminal_to_json env t) (terminal_from_json env) = Some t) \<and>
     (case s_process_root s of None \<Rightarrow> True | Some p \<Rightarrow> pid p < 2 ^ 32)"

lemma find_row_map:
  assumes "\<And>r. rs_id (g r) = rs_id r"
  shows "find_row i (map g rows) = map_option g (find_row i rows)"
  unfolding find_row_def using assms by (induction rows) auto

lemma find_row_snoc:
  "rs_id r \<notin> rs_id ` set rows \<Longrightarrow>
   find_row i (rows @ [r]) = (if i = rs_id r then Some r else find_row i rows)"
  unfolding find_row_def by (induction rows) auto

lemma find_row_filter: "find_row i (filter (\<lambda>r. rs_id r \<noteq> j) rows) = (if i = j then None else find_row i rows)"
  unfolding find_row_def by (induction rows) auto

lemma find_row_None: "find_row i rows = None \<longleftrightarrow> i \<notin> rs_id ` set rows"
  unfolding find_row_def by (auto simp: find_None_iff)

lemma find_row_SomeD: "find_row i rows = Some r \<Longrightarrow> r \<in> set rows \<and> rs_id r = i"
  unfolding find_row_def by (auto simp: find_Some_iff)

lemma find_row_member: "distinct (map rs_id rows) \<Longrightarrow> r \<in> set rows \<Longrightarrow> find_row (rs_id r) rows = Some r"
  unfolding find_row_def by (induction rows) (auto simp: image_iff)

lemma session_row_round_trip:
  assumes "codable env s"
    and "transpose_option (metric_to_json env) (s_latest_metric s) = Some mj"
    and "transpose_option (terminal_to_json env) (s_verified_terminal s) = Some tj"
  shows "session_of_row env (session_row_of s mj tj) = Some s"
  using assms
  by (auto simp: session_of_row_def session_row_of_def codable_def get_u32_def
      split: option.splits)

text \<open>What the row of \<open>s\<close> reads as once it has been written over a row that was there.\<close>

definition merged :: "session_row option \<Rightarrow> agent_session \<Rightarrow> agent_session" where
  "merged old s =
     (case old of None \<Rightarrow> s
      | Some r \<Rightarrow> s\<lparr>s_source := parse_source (rs_source r),
                    s_external_session_id := rs_external_session_id r,
                    s_started_at_ms := rs_started_at_ms r\<rparr>)"

lemma session_of_updated_row:
  assumes "session_of_row env row = Some s" and "rs_id r = rs_id row"
  shows "session_of_row env (update_session_row row r) = Some (merged (Some r) s)"
  using assms
  by (auto simp: session_of_row_def update_session_row_def merged_def split: option.splits)

lemma stored_faults [simp]: "stored env (db\<lparr>db_faults := fs\<rparr>) = stored env db"
  by (simp add: stored_def fun_eq_iff)

lemma stored_same_sessions: "db_sessions db' = db_sessions db \<Longrightarrow> stored env db' = stored env db"
  by (simp add: stored_def fun_eq_iff)

lemma stored_insert_session_row:
  assumes "insert_session_row env row db = Some (x, db')" and "session_of_row env row = Some s"
  shows "stored env db' = (stored env db)(rs_id row \<mapsto> merged (find_row (rs_id row) (db_sessions db)) s)"
  using assms(1)
proof (cases rule: insert_session_row_cases)
  case update
  obtain r where r: "find_row (rs_id row) (db_sessions db) = Some r" "rs_id r = rs_id row"
    using update(1) find_row_None find_row_SomeD by (metis option.exhaust)
  let ?g = "\<lambda>r. if rs_id r = rs_id row then update_session_row row r else r"
  have look: "stored env db' i = Option.bind (map_option ?g (find_row i (db_sessions db))) (session_of_row env)" for i
    using find_row_map [of ?g i "db_sessions db"] by (simp add: stored_def update(2))
  have "stored env db' (rs_id row) = Some (merged (Some r) s)"
    using session_of_updated_row [OF assms(2) r(2)] by (simp add: look r)
  moreover have "stored env db' i = stored env db i" if "i \<noteq> rs_id row" for i
    using that find_row_SomeD [of i "db_sessions db"]
    unfolding look stored_def [of env db] by (cases "find_row i (db_sessions db)") simp_all
  ultimately show ?thesis
    by (auto simp: r(1) fun_eq_iff)
next
  case insert
  have "find_row (rs_id row) (db_sessions db) = None"
    using insert(1) by (simp add: find_row_None)
  then show ?thesis
    by (auto simp: stored_def insert fun_eq_iff find_row_snoc merged_def assms(2))
qed

lemma upsert_session_OkD:
  assumes "upsert_session env s db = (Ok (), db')"
  obtains mj tj where
    "transpose_option (metric_to_json env) (s_latest_metric s) = Some mj"
    "transpose_option (terminal_to_json env) (s_verified_terminal s) = Some tj"
    "insert_session_row env (session_row_of s mj tj) (db\<lparr>db_faults := tl (db_faults db)\<rparr>) = Some ((), db')"
  using assms unfolding upsert_session_def by (auto elim!: db_OkE)

lemma upsert_session_stored:
  assumes "upsert_session env s db = (Ok (), db')" and "codable env s"
  shows "stored env db' = (stored env db)(s_id s \<mapsto> merged (find_row (s_id s) (db_sessions db)) s)"
  using assms(1)
proof (rule upsert_session_OkD)
  fix mj tj
  assume j: "transpose_option (metric_to_json env) (s_latest_metric s) = Some mj"
    "transpose_option (terminal_to_json env) (s_verified_terminal s) = Some tj"
    and ins: "insert_session_row env (session_row_of s mj tj) (db\<lparr>db_faults := tl (db_faults db)\<rparr>) = Some ((), db')"
  show ?thesis
    using stored_insert_session_row [OF ins session_row_round_trip [OF assms(2) j]]
    by (simp add: session_row_of_def)
qed

lemma insert_session_row_frame:
  assumes "insert_session_row env row db = Some (x, db')"
  shows "db_events db' = db_events db" "db_buckets db' = db_buckets db"
  using assms by (cases rule: insert_session_row_cases; simp)+

lemma remove_session_stored:
  assumes "remove_session i db = (Ok (), db')"
  shows "stored env db' = (stored env db)(i := None)"
  using assms unfolding remove_session_def
  by (auto elim!: db_OkE simp: stored_def find_row_filter fun_eq_iff)

section \<open>The event log of a session\<close>

lemma insort_key_snoc: "f a \<le> f x \<Longrightarrow> insort_key f a (zs @ [x]) = insort_key f a zs @ [x]"
  by (induction zs) auto

lemma sort_key_snoc:
  assumes "\<forall>y\<in>set xs. f y \<le> f x"
  shows "sort_key f (xs @ [x]) = sort_key f xs @ [x]"
proof -
  have "foldr (insort_key f) xs (ys @ [x]) = foldr (insort_key f) xs ys @ [x]" for ys
    using assms by (induction xs) (auto simp: insort_key_snoc)
  from this [of "[]"] show ?thesis
    by (simp add: sort_key_def)
qed

lemma filter_not_in_take:
  assumes "distinct (map f xs)"
  shows "filter (\<lambda>x. f x \<notin> f ` set (take n xs)) xs = drop n xs"
proof -
  have "filter (\<lambda>x. f x \<notin> f ` set (take n xs)) (take n xs) = []"
    by (auto simp: filter_empty_conv)
  moreover have "filter (\<lambda>x. f x \<notin> f ` set (take n xs)) (drop n xs) = drop n xs"
  proof -
    have "distinct (map f (take n xs @ drop n xs))" using assms by simp
    then show ?thesis
      unfolding map_append distinct_append by (auto simp: filter_id_conv)
  qed
  ultimately show ?thesis
    by (metis append_take_drop_id filter_append self_append_conv2)
qed

lemma events_of_filter:
  "events_of i (db\<lparr>db_events := filter p (db_events db)\<rparr>) = filter p (events_of i db)"
  unfolding events_of_def by (simp add: filter_sort filter_filter) (simp add: conj_commute)

lemma set_events_of: "set (events_of i db) = {r \<in> set (db_events db). re_session_id r = i}"
  by (auto simp: events_of_def)

lemma events_ok_rows:
  assumes "db_inv db"
  shows "distinct (map re_id (db_events db))" "distinct (map event_unique (db_events db))"
  using assms by (simp_all add: db_inv_def events_ok_def)

lemma distinct_map_mset_eq: "mset xs = mset ys \<Longrightarrow> distinct (map f xs) = distinct (map f ys)"
  by (metis mset_eq_imp_distinct_iff mset_map)

lemma events_of_distinct:
  assumes "db_inv db"
  shows "distinct (map re_id (events_of i db))" and "distinct (map re_sequence (events_of i db))"
proof -
  let ?xs = "filter (\<lambda>r. re_session_id r = i) (db_events db)"
  have m: "mset (events_of i db) = mset ?xs" by (simp add: events_of_def)
  have "distinct (map re_id ?xs)" "distinct (map event_unique ?xs)"
    using events_ok_rows [OF assms] by (simp_all add: distinct_map_filter)
  moreover from this(2) have "distinct (map re_sequence ?xs)"
    by (auto simp: distinct_map inj_on_def event_unique_def)
  ultimately show "distinct (map re_id (events_of i db))" "distinct (map re_sequence (events_of i db))"
    using distinct_map_mset_eq [OF m] by blast+
qed

lemma events_of_sorted: "sorted (map re_sequence (events_of i db))"
  by (simp add: events_of_def)

lemma events_of_strict: "db_inv db \<Longrightarrow> sorted_wrt (\<lambda>a b. re_sequence a < re_sequence b) (events_of i db)"
  using events_of_sorted [of i db] events_of_distinct(2) [of db i]
  by (metis sorted_wrt_map strict_sorted_iff)

lemma events_of_faults [simp]: "events_of i (db\<lparr>db_faults := fs\<rparr>) = events_of i db"
  by (simp add: events_of_def)

lemma delete_oldest_of_own:
  assumes "db_inv db"
  shows "events_of i (delete_oldest_of i n db) = drop n (events_of i db)"
  using filter_not_in_take [OF events_of_distinct(1) [OF assms]]
  by (simp add: delete_oldest_of_def events_of_filter)

lemma delete_oldest_of_other:
  assumes "db_inv db" and "j \<noteq> i"
  shows "events_of j (delete_oldest_of i n db) = events_of j db"
proof -
  have "re_id r \<notin> re_id ` set (take n (events_of i db))" if "r \<in> set (events_of j db)" for r
  proof
    assume "re_id r \<in> re_id ` set (take n (events_of i db))"
    then obtain q where "q \<in> set (events_of i db)" "re_id q = re_id r"
      by (metis imageE in_set_takeD)
    with that events_ok_rows(1) [OF assms(1)] have "q = r"
      by (auto simp: set_events_of distinct_map inj_on_def)
    with \<open>q \<in> _\<close> that assms(2) show False by (simp add: set_events_of)
  qed
  then show ?thesis
    by (simp add: delete_oldest_of_def events_of_filter filter_id_conv)
qed

lemma trim_session_events_OkD:
  assumes "trim_session_events i db = (Ok (), db')" and "db_inv db"
  shows "events_of i db' = keep_last MAX_EVENTS_PER_SESSION (events_of i db)"
    and "j \<noteq> i \<Longrightarrow> events_of j db' = events_of j db" and "db_sessions db' = db_sessions db"
proof -
  have len: "length (filter (\<lambda>r. re_session_id r = i) (db_events db)) = length (events_of i db)"
    by (simp add: events_of_def)
  consider "length (events_of i db) \<le> MAX_EVENTS_PER_SESSION" "\<exists>fs. db' = db\<lparr>db_faults := fs\<rparr>"
    | "MAX_EVENTS_PER_SESSION < length (events_of i db)"
      "\<exists>fs. db' = delete_oldest_of i (length (events_of i db) - MAX_EVENTS_PER_SESSION) (db\<lparr>db_faults := fs\<rparr>)"
    using assms(1) len unfolding trim_session_events_def
    by (fastforce elim!: db_OkE simp: op_basic_defs split: if_splits)
  then have "events_of i db' = keep_last MAX_EVENTS_PER_SESSION (events_of i db) \<and>
      (j \<noteq> i \<longrightarrow> events_of j db' = events_of j db) \<and> db_sessions db' = db_sessions db"
  proof cases
    case 1
    then show ?thesis by (auto simp: keep_last_short)
  next
    case 2
    then obtain fs where
      db': "db' = delete_oldest_of i (length (events_of i db) - MAX_EVENTS_PER_SESSION) (db\<lparr>db_faults := fs\<rparr>)"
      by blast
    have inv: "db_inv (db\<lparr>db_faults := fs\<rparr>)" using assms(2) by simp
    have "db_sessions db' = db_sessions db"
      by (simp add: db' delete_oldest_of_def)
    with delete_oldest_of_own [OF inv, of i] delete_oldest_of_other [OF inv, of j i] show ?thesis
      by (simp add: db' keep_last_def)
  qed
  then show "events_of i db' = keep_last MAX_EVENTS_PER_SESSION (events_of i db)"
    and "j \<noteq> i \<Longrightarrow> events_of j db' = events_of j db" and "db_sessions db' = db_sessions db"
    by blast+
qed

lemma append_event_OkD:
  assumes "append_event env e db = (Ok (), db')" and "db_inv db"
    and new: "\<forall>r\<in>set (events_of (e_session_id e) db). re_sequence r \<le> u64_as_i64 (e_sequence e)"
  shows "events_of (e_session_id e) db' =
      keep_last MAX_EVENTS_PER_SESSION (events_of (e_session_id e) db @ [event_row_of env e])"
    and "j \<noteq> e_session_id e \<Longrightarrow> events_of j db' = events_of j db"
    and "db_sessions db' = db_sessions db"
proof -
  from assms(1) obtain db1 where
    ins: "insert_event_row (event_row_of env e) (db\<lparr>db_faults := tl (db_faults db)\<rparr>) = Some ((), db1)"
    and trim: "trim_session_events (e_session_id e) db1 = (Ok (), db')"
    unfolding append_event_def by (auto elim!: db_OkE)
  from ins obtain fs where
    db1: "db1 = db\<lparr>db_faults := fs, db_events := db_events db @ [event_row_of env e]\<rparr>"
    by (auto simp: insert_event_row_def split: if_splits)
  have own: "events_of (e_session_id e) db1 = events_of (e_session_id e) db @ [event_row_of env e]"
    using new by (auto simp: db1 events_of_def event_row_of_def intro!: sort_key_snoc)
  have other: "events_of j db1 = events_of j db" if "j \<noteq> e_session_id e" for j
    using that by (simp add: db1 events_of_def event_row_of_def)
  have "db_inv db1"
    using db_inv_insert_event_row [OF _ ins] assms(2) by simp
  from trim_session_events_OkD [OF trim this] own other show
    "events_of (e_session_id e) db' =
      keep_last MAX_EVENTS_PER_SESSION (events_of (e_session_id e) db @ [event_row_of env e])"
    "j \<noteq> e_session_id e \<Longrightarrow> events_of j db' = events_of j db"
    "db_sessions db' = db_sessions db"
    by (simp_all add: db1)
qed

lemma event_row_round_trip:
  "uuid_parse_str env (uuid_to_string env (e_id e)) = Some (e_id e) \<Longrightarrow> e_sequence e < 2 ^ 64 \<Longrightarrow>
   event_of_row env (event_row_of env e) = e"
  by (simp add: event_of_row_def event_row_of_def i64_as_u64_inverse)

section \<open>Pages\<close>

definition older :: "nat option \<Rightarrow> session_event list \<Rightarrow> session_event list" where
  "older before es = filter (\<lambda>e. case before of None \<Rightarrow> True | Some n \<Rightarrow> e_sequence e < n) es"

definition event_history :: "sqlite_env \<Rightarrow> string \<Rightarrow> sqlite_db \<Rightarrow> session_event list" where
  "event_history env i db = map (event_of_row env) (events_of i db)"

definition sequences_ok :: "sqlite_db \<Rightarrow> bool" where
  "sequences_ok db \<longleftrightarrow> (\<forall>r\<in>set (db_events db). 0 \<le> re_sequence r \<and> re_sequence r < 2 ^ 63)"

lemma i64_as_u64_nonneg: "0 \<le> x \<Longrightarrow> x < 2 ^ 63 \<Longrightarrow> i64_as_u64 x = nat x"
  by (simp add: i64_as_u64_def)

lemma u64_as_i64_small: "n < 2 ^ 63 \<Longrightarrow> u64_as_i64 n = int n"
  unfolding u64_as_i64_def by (rule wrap_i64_id) (simp add: in_i64_def)

lemma page_rows_eq:
  assumes "sequences_ok db" and "limit < 2 ^ 62" and "\<forall>n. before = Some n \<longrightarrow> n < 2 ^ 63"
  shows "map (event_of_row env) (page_rows i before limit db) =
    take (limit + 1) (rev (older before (event_history env i db)))"
proof -
  have "min (limit + 1) (2 ^ 64 - 1) = limit + 1" and small: "limit + 1 < 2 ^ 63"
    using assms(2) by simp_all
  then have lim: "sql_limit (u64_as_i64 (min (limit + 1) (2 ^ 64 - 1))) xs = take (limit + 1) xs"
    for xs :: "event_row list"
    by (simp only: sql_limit_def u64_as_i64_small [OF small] nat_int) simp
  have "(case before of None \<Rightarrow> True | Some b \<Rightarrow> re_sequence r < u64_as_i64 b) \<longleftrightarrow>
      (case before of None \<Rightarrow> True | Some n \<Rightarrow> e_sequence (event_of_row env r) < n)"
    if "r \<in> set (events_of i db)" for r
    using that assms(1,3)
    by (auto simp: set_events_of sequences_ok_def event_of_row_def i64_as_u64_nonneg u64_as_i64_small
        nat_less_iff split: option.splits)
  then have "filter (\<lambda>r. case before of None \<Rightarrow> True | Some b \<Rightarrow> re_sequence r < u64_as_i64 b) (events_of i db) =
      filter (\<lambda>r. case before of None \<Rightarrow> True | Some n \<Rightarrow> e_sequence (event_of_row env r) < n) (events_of i db)"
    by (rule filter_cong [OF refl])
  then show ?thesis
    unfolding page_rows_def lim older_def event_history_def filter_map comp_def
    by (simp add: take_map rev_map)
qed

lemma event_history_strict:
  assumes "db_inv db" and "sequences_ok db"
  shows "sorted_wrt (\<lambda>a b. e_sequence a < e_sequence b) (event_history env i db)"
proof -
  have "sorted_wrt (\<lambda>a b. e_sequence (event_of_row env a) < e_sequence (event_of_row env b)) (events_of i db)"
    using events_of_strict [OF assms(1), of i] assms(2)
    by (elim sorted_wrt_mono_rel [rotated])
       (auto simp: set_events_of sequences_ok_def event_of_row_def i64_as_u64_nonneg)
  then show ?thesis by (simp add: event_history_def sorted_wrt_map)
qed

lemma older_split:
  assumes "sorted_wrt (\<lambda>a b. e_sequence a < e_sequence b) es" and "older before es = xs @ e # ys"
  shows "older (Some (e_sequence e)) es = xs"
proof -
  have "sorted_wrt (\<lambda>a b. e_sequence a < e_sequence b) (xs @ e # ys)"
    using sorted_wrt_filter [OF assms(1)] unfolding older_def assms(2) [unfolded older_def, symmetric] .
  then have below: "\<forall>x\<in>set xs. e_sequence x < e_sequence e" "\<forall>y\<in>set ys. e_sequence e < e_sequence y"
    by (simp_all add: sorted_wrt_append)
  have "e \<in> set (older before es)" using assms(2) by simp
  then have "older (Some (e_sequence e)) es = filter (\<lambda>x. e_sequence x < e_sequence e) (older before es)"
    by (auto simp: older_def intro!: filter_cong split: option.splits)
  also have "\<dots> = xs"
    using below unfolding assms(2) by (auto simp: filter_id_conv filter_empty_conv not_less_iff_gr_or_eq)
  finally show ?thesis .
qed

lemma rev_take_keep_last: "rev (take n (rev xs)) = keep_last n xs"
  by (simp add: keep_last_def rev_take)

lemma page_events:
  assumes "xs = take (limit + 1) (rev es)"
  shows "rev (if length xs > limit then butlast xs else xs) = keep_last limit es"
    and "length xs > limit \<longleftrightarrow> length es > limit"
proof -
  show "length xs > limit \<longleftrightarrow> length es > limit"
    by (simp add: assms)
  show "rev (if length xs > limit then butlast xs else xs) = keep_last limit es"
  proof (cases "limit < length es")
    case True
    then have "butlast xs = take limit (rev es)"
      by (auto simp: assms butlast_conv_take min_def le_Suc_eq)
    with True show ?thesis by (simp add: assms rev_take_keep_last)
  next
    case False
    then show ?thesis by (simp add: assms keep_last_short)
  qed
qed

section \<open>Retention\<close>

definition scans :: "('r list \<Rightarrow> 'r list) \<Rightarrow> bool" where
  "scans f \<longleftrightarrow> (\<forall>rows. mset (f rows) = mset rows)"

lemma oldest_events_of_table:
  assumes "scans (scan_events env)"
  shows "set (oldest_events env db) \<subseteq> set (db_events db)"
    and "oldest_events env db = [] \<Longrightarrow> db_events db = []"
proof -
  let ?xs = "sort_key re_occurred_at_ms (scan_events env (db_events db))"
  have m: "mset ?xs = mset (db_events db)"
    using assms by (simp add: scans_def)
  show "set (oldest_events env db) \<subseteq> set (db_events db)"
    unfolding oldest_events_def mset_eq_setD [OF m, symmetric] by (rule set_take_subset)
  show "db_events db = []" if "oldest_events env db = []"
  proof -
    have "?xs = []" using that by (simp add: oldest_events_def)
    with m show ?thesis by (metis mset_zero_iff mset.simps(1))
  qed
qed

text \<open>A pass only ever takes rows away from the event table.\<close>

definition trimmed :: "sqlite_db \<Rightarrow> sqlite_db \<Rightarrow> bool" where
  "trimmed db db' \<longleftrightarrow> (\<exists>p fs. db' = db\<lparr>db_faults := fs, db_events := filter p (db_events db)\<rparr>)"

lemma trimmed_refl: "trimmed db (db\<lparr>db_faults := fs\<rparr>)"
proof -
  have "db\<lparr>db_faults := fs\<rparr> = db\<lparr>db_faults := fs, db_events := filter (\<lambda>_. True) (db_events db)\<rparr>"
    by simp
  then show ?thesis unfolding trimmed_def by blast
qed

lemma trimmed_fields:
  "trimmed db db' \<Longrightarrow> (\<exists>p. db_events db' = filter p (db_events db)) \<and>
     db_buckets db' = db_buckets db \<and> db_sessions db' = db_sessions db"
  by (auto simp: trimmed_def)

lemma trimmed_self: "trimmed db db"
  using trimmed_refl [of db "db_faults db"] by simp

lemma trimmed_trans: "trimmed a b \<Longrightarrow> trimmed b c \<Longrightarrow> trimmed a c"
  unfolding trimmed_def
proof (elim exE)
  fix p fs p' fs'
  assume "b = a\<lparr>db_faults := fs, db_events := filter p (db_events a)\<rparr>"
    and "c = b\<lparr>db_faults := fs', db_events := filter p' (db_events b)\<rparr>"
  then have "c = a\<lparr>db_faults := fs', db_events := filter (\<lambda>x. p x \<and> p' x) (db_events a)\<rparr>"
    by simp
  then show "\<exists>p fs. c = a\<lparr>db_faults := fs, db_events := filter p (db_events a)\<rparr>" by blast
qed

lemma delete_oldest_events_OkE:
  assumes "delete_oldest_events env db = (Ok deleted, db')"
  shows "trimmed db db' \<and> length (db_events db) = deleted + length (db_events db') \<and>
    (scans (scan_events env) \<longrightarrow> deleted = 0 \<longrightarrow> db_events db' = [])"
proof -
  let ?db = "db\<lparr>db_faults := tl (db_faults db)\<rparr>"
  let ?v = "re_id ` set (oldest_events env ?db)"
  have db': "db' = ?db\<lparr>db_events := filter (\<lambda>r. re_id r \<notin> ?v) (db_events db)\<rparr>"
    and del: "deleted = length (filter (\<lambda>r. re_id r \<in> ?v) (db_events db))"
    using assms by (auto simp: delete_oldest_events_def Let_def elim!: statement_OkE)
  have "db_events db = []" if sc: "scans (scan_events env)" and "deleted = 0"
  proof -
    have "r \<notin> set (oldest_events env ?db)" for r
      using del that(2) oldest_events_of_table(1) [OF sc, of ?db]
      by (auto simp: filter_empty_conv)
    then have "oldest_events env ?db = []" by (metis list.set_intros(1) neq_Nil_conv)
    then show ?thesis using oldest_events_of_table(2) [OF sc, of ?db] by simp
  qed
  moreover have "trimmed db db'" unfolding trimmed_def db' by blast
  ultimately show ?thesis
    using delete_oldest_events_OkD [OF assms] by (auto simp: db')
qed

lemma prune_loop_OkD:
  assumes "prune_loop env report db = (Ok report', db')"
  shows "trimmed db db' \<and>
    length (db_events db) + pr_events_deleted report = length (db_events db') + pr_events_deleted report' \<and>
    pr_metric_buckets_deleted report' = pr_metric_buckets_deleted report \<and>
    (scans (scan_events env) \<longrightarrow> pr_bytes_after report' \<le> PRUNE_TARGET_BYTES \<or> db_events db' = [])"
  using assms
proof (induction env report db rule: prune_loop.induct)
  case (1 env report db)
  show ?case
  proof (cases "pr_bytes_after report \<le> PRUNE_TARGET_BYTES")
    case True
    then have "db' = db" "report' = report"
      using 1(2) by (simp_all add: prune_loop.simps [of env report db])
    then show ?thesis using True by (simp add: trimmed_self)
  next
    case False
    then obtain deleted db1 where del: "delete_oldest_events env db = (Ok deleted, db1)"
      using 1(2) by (auto simp: prune_loop.simps [of env report db] split: prod.splits outcome.splits)
    note step = delete_oldest_events_OkE [OF del]
    show ?thesis
    proof (cases "deleted = 0")
      case True
      with 1(2) False del have "db' = db1" "report' = report"
        by (simp_all add: prune_loop.simps [of env report db])
      with step True show ?thesis by auto
    next
      case more: False
      obtain r' db2 where bytes: "database_bytes env db1 = (r', db2)" by fastforce
      then have db2: "db2 = db1" using database_bytes_state [of env db1] by simp
      from 1(2) False del more bytes obtain b where b: "r' = Ok b"
        by (auto simp: prune_loop.simps [of env report db] split: outcome.splits)
      let ?rep = "report\<lparr>pr_events_deleted := pr_events_deleted report + deleted, pr_bytes_after := b\<rparr>"
      have run: "prune_loop env ?rep db1 = (Ok report', db')"
        using 1(2) False del more bytes b db2 by (simp add: prune_loop.simps [of env report db])
      have "(Ok deleted, db1) = delete_oldest_events env db" "(Ok b, db1) = database_bytes env db1"
        using del bytes b db2 by simp_all
      from 1(1) [OF False this(1) refl more this(2) refl run] step show ?thesis
        by (auto intro: trimmed_trans)
    qed
  qed
qed

lemma delete_events_OkE:
  assumes "delete_events p db = (Ok n, db')"
  obtains fs where "db' = db\<lparr>db_faults := fs, db_events := filter (\<lambda>r. \<not> p r) (db_events db)\<rparr>"
    and "n = length (filter p (db_events db))"
  using assms unfolding delete_events_def by (auto elim!: statement_OkE)

lemma delete_buckets_before_OkE:
  assumes "delete_buckets_before c db = (Ok n, db')"
  obtains fs where "db' = db\<lparr>db_faults := fs,
      db_buckets := filter (\<lambda>r. \<not> rm_bucket_start_ms r < c) (db_buckets db)\<rparr>"
    and "n = length (filter (\<lambda>r. rm_bucket_start_ms r < c) (db_buckets db))"
  using assms unfolding delete_buckets_before_def by (auto elim!: statement_OkE)

lemma database_bytes_OkE:
  assumes "database_bytes env db = (Ok n, db')" obtains "db' = db"
  using assms database_bytes_state [of env db] by simp

text \<open>The state in which the size loop starts.\<close>

lemma prune_OkE:
  assumes "prune_with_metric_retention env now_ms retention db = (Ok report, db')"
  obtains d fs rep where
    "prune_loop env rep d = (Ok report, db'\<lparr>db_faults := fs\<rparr>)"
    "pr_events_deleted rep =
       length (filter (\<lambda>r. re_occurred_at_ms r < wrap_i64 (now_ms - EVENT_RETENTION_MS)) (db_events db))"
    "pr_metric_buckets_deleted rep =
       length (filter (\<lambda>r. rm_bucket_start_ms r < wrap_i64 (now_ms - max retention 0)) (db_buckets db))"
    "db_events d =
       filter (\<lambda>r. \<not> re_occurred_at_ms r < wrap_i64 (now_ms - EVENT_RETENTION_MS)) (db_events db)"
    "db_buckets d =
       filter (\<lambda>r. \<not> rm_bucket_start_ms r < wrap_i64 (now_ms - max retention 0)) (db_buckets db)"
    "db_sessions d =
       (if pr_metric_buckets_deleted rep = 0 then db_sessions db
        else map (\<lambda>r. r\<lparr>rs_latest_metric_json := None\<rparr>) (db_sessions db))"
  using assms unfolding prune_with_metric_retention_def Let_def
proof (elim bind_OkE seq_OkE, goal_cases)
  case (1 n d1 m d2 d3 b d4 rep' d5 d6)
  from 1(2) obtain f1 where
    d1: "d1 = db\<lparr>db_faults := f1, db_events :=
      filter (\<lambda>r. \<not> re_occurred_at_ms r < wrap_i64 (now_ms - EVENT_RETENTION_MS)) (db_events db)\<rparr>"
    and n: "n = length (filter (\<lambda>r. re_occurred_at_ms r < wrap_i64 (now_ms - EVENT_RETENTION_MS)) (db_events db))"
    by (rule delete_events_OkE)
  from 1(3) obtain f2 where
    d2: "d2 = d1\<lparr>db_faults := f2, db_buckets :=
      filter (\<lambda>r. \<not> rm_bucket_start_ms r < wrap_i64 (now_ms - max retention 0)) (db_buckets d1)\<rparr>"
    and m: "m = length (filter (\<lambda>r. rm_bucket_start_ms r < wrap_i64 (now_ms - max retention 0)) (db_buckets d1))"
    by (rule delete_buckets_before_OkE)
  have d3: "db_events d3 = db_events d2" "db_buckets d3 = db_buckets d2"
    "db_sessions d3 = (if m = 0 then db_sessions d2
       else map (\<lambda>r. r\<lparr>rs_latest_metric_json := None\<rparr>) (db_sessions d2))"
    using 1(4) by (auto elim!: execute_OkE simp: ret_def forget_latest_metrics_def split: if_splits)
  have d4: "d4 = d3" using 1(5) by (auto elim: database_bytes_OkE)
  have fin: "d5 = db'\<lparr>db_faults := db_faults d5\<rparr>" "rep' = report"
    using 1(7,8) by (auto elim!: execute_OkE simp: ret_def)
  show ?case
  proof (rule 1(1))
    show "prune_loop env \<lparr>pr_events_deleted = n, pr_metric_buckets_deleted = m, pr_bytes_after = b\<rparr> d3 =
        (Ok report, db'\<lparr>db_faults := db_faults d5\<rparr>)"
      using 1(6) fin d4 by simp
  qed (simp_all add: d3 n m d1 d2)
qed

lemma length_filter_split: "length (filter (\<lambda>r. \<not> p r) xs) = length xs - length (filter p xs)"
  using sum_length_filter_compl [of p xs] by simp

text \<open>Without faults every statement runs, and so does the whole pass.\<close>

lemma statement_no_fault:
  "db_faults db = [] \<Longrightarrow> statement f db =
     (case f db of None \<Rightarrow> (Err (db_err ''constraint''), db) | Some (x, db') \<Rightarrow> (Ok x, db'))"
  by (cases db) (simp add: statement_def Let_def split: option.split)

definition file_over_target :: "sqlite_env \<Rightarrow> bool" where
  "file_over_target env \<longleftrightarrow>
     \<not> in_memory env \<and> (\<forall>db. \<exists>b. file_bytes env db = Some b \<and> PRUNE_TARGET_BYTES < b)"

lemma database_bytes_over:
  "file_over_target env \<Longrightarrow> \<exists>b. database_bytes env db = (Ok b, db) \<and> PRUNE_TARGET_BYTES < b"
  by (auto simp: file_over_target_def database_bytes_def bind_def op_basic_defs from_json_def
      split: option.splits dest!: spec [of _ db])

lemma prune_loop_runs:
  assumes "file_over_target env" and "db_faults db = []" and "PRUNE_TARGET_BYTES < pr_bytes_after rep"
  shows "\<exists>rep' db'. prune_loop env rep db = (Ok rep', db') \<and> db_faults db' = [] \<and>
    PRUNE_TARGET_BYTES < pr_bytes_after rep'"
  using assms
proof (induction env rep db rule: prune_loop.induct)
  case (1 env rep db)
  have F: "\<not> pr_bytes_after rep \<le> PRUNE_TARGET_BYTES" using 1(4) by simp
  obtain n db1 where del: "delete_oldest_events env db = (Ok n, db1)" and f1: "db_faults db1 = []"
    using 1(3) by (simp add: delete_oldest_events_def statement_no_fault Let_def)
  obtain b where b: "database_bytes env db1 = (Ok b, db1)" "PRUNE_TARGET_BYTES < b"
    using database_bytes_over [OF 1(2)] by blast
  show ?case
  proof (cases "n = 0")
    case True
    with del F f1 1(4) show ?thesis by (simp add: prune_loop.simps [of env rep db])
  next
    case False
    from 1(1) [OF F del [symmetric] refl False b(1) [symmetric] refl 1(2) f1] b(2)
    show ?thesis using F del False b(1) by (simp add: prune_loop.simps [of env rep db])
  qed
qed

lemma prune_runs:
  assumes "file_over_target env" and "db_faults db = []"
  shows "\<exists>report db'. prune_with_metric_retention env t m db = (Ok report, db') \<and>
    PRUNE_TARGET_BYTES < pr_bytes_after report"
proof -
  let ?c = "wrap_i64 (t - EVENT_RETENTION_MS)" and ?k = "wrap_i64 (t - max m 0)"
  obtain n d1 where 1: "delete_events (\<lambda>r. re_occurred_at_ms r < ?c) db = (Ok n, d1)" "db_faults d1 = []"
    using assms(2) by (simp add: delete_events_def statement_no_fault)
  obtain k d2 where 2: "delete_buckets_before ?k d1 = (Ok k, d2)" "db_faults d2 = []"
    using 1(2) by (simp add: delete_buckets_before_def statement_no_fault)
  obtain d3 where 3: "(if k > 0 then execute forget_latest_metrics else ret ()) d2 = (Ok (), d3)"
      "db_faults d3 = []"
    using 2(2) by (cases "k > 0")
      (simp_all add: execute_def statement_no_fault ret_def forget_latest_metrics_def)
  obtain b where 4: "database_bytes env d3 = (Ok b, d3)" "PRUNE_TARGET_BYTES < b"
    using database_bytes_over [OF assms(1)] by blast
  obtain r d5 where 5: "prune_loop env \<lparr>pr_events_deleted = n, pr_metric_buckets_deleted = k,
        pr_bytes_after = b\<rparr> d3 = (Ok r, d5)" "db_faults d5 = []" "PRUNE_TARGET_BYTES < pr_bytes_after r"
    using prune_loop_runs [OF assms(1) 3(2), of "\<lparr>pr_events_deleted = n,
        pr_metric_buckets_deleted = k, pr_bytes_after = b\<rparr>"] 4(2) by auto
  have "execute (\<lambda>db. db) d5 = (Ok (), d5)"
    using 5(2) by (simp add: execute_def statement_no_fault)
  with 5 show ?thesis
    by (simp add: prune_with_metric_retention_def Let_def bind_def [of "delete_events _"]
        bind_def [of "delete_buckets_before _"] seq_Ok 1(1) 2(1) 3(1) 4(1) bind_Ok ret_def)
qed

section \<open>Thinning a metric series\<close>

lemma downsample_long:
  assumes "2 \<le> m" and "m < length xs" and "m * length xs < 2 ^ 64"
  shows "downsample_preserving_edges xs m =
    map (\<lambda>i. xs ! (i * (length xs - 1) div (m - 1))) [0..<m]"
proof -
  have small: "min (i * (length xs - 1)) (2 ^ 64 - 1) = i * (length xs - 1)"
    and idx: "i * (length xs - 1) div (m - 1) < length xs" if "i < m" for i
  proof -
    have "i * (length xs - 1) \<le> m * length xs" using that by (intro mult_le_mono) auto
    with assms(3) show "min (i * (length xs - 1)) (2 ^ 64 - 1) = i * (length xs - 1)" by simp
    have "i * (length xs - 1) \<le> (m - 1) * (length xs - 1)" using that by (intro mult_le_mono) auto
    then have "i * (length xs - 1) div (m - 1) \<le> (m - 1) * (length xs - 1) div (m - 1)"
      by (rule div_le_mono)
    also have "\<dots> = length xs - 1" using assms(1) by simp
    finally show "i * (length xs - 1) div (m - 1) < length xs" using assms(2) by linarith
  qed
  have "List.map_filter (\<lambda>index. let source_index = min (index * (length xs - 1)) (2 ^ 64 - 1) div (m - 1)
      in if source_index < length xs then Some (xs ! source_index) else None) [0..<m] =
    map (\<lambda>i. xs ! (i * (length xs - 1) div (m - 1))) [0..<m]"
    using small idx by (auto simp: List.map_filter_def Let_def filter_id_conv intro!: map_cong)
  then show ?thesis using assms(2) by (simp add: downsample_preserving_edges_def)
qed

lemma scaled_index_mono:
  assumes "(0::nat) < d" and "d \<le> e" and "i < j"
  shows "i * e div d < j * e div d"
proof -
  have "i * e + d \<le> j * e"
    using assms by (metis Suc_leI add.commute add_le_mono1 le_trans mult_Suc mult_le_mono1)
  then have "(i * e + d) div d \<le> j * e div d" by (rule div_le_mono)
  with assms(1) show ?thesis by simp
qed

text \<open>
  \<open>thinned f xs ys\<close>: \<open>ys\<close> has elements of \<open>xs\<close> only, in strictly increasing time order, and
  the first and last of \<open>xs\<close> among them.
\<close>

definition thinned :: "int list \<Rightarrow> int list \<Rightarrow> bool" where
  "thinned xs ys \<longleftrightarrow> set ys \<subseteq> set xs \<and> sorted_wrt (<) ys \<and>
     (xs \<noteq> [] \<longrightarrow> ys \<noteq> [] \<and> hd ys = hd xs \<and> last ys = last xs)"

lemma thinned_refl: "sorted_wrt (<) xs \<Longrightarrow> thinned xs xs"
  by (simp add: thinned_def)

lemma thinned_trans: "thinned xs ys \<Longrightarrow> thinned ys zs \<Longrightarrow> thinned xs zs"
  by (auto simp: thinned_def)

lemma downsample_thins:
  assumes "2 \<le> m" and "m * length xs < 2 ^ 64" and "sorted_wrt (<) (map f xs)"
  shows "thinned (map f xs) (map f (downsample_preserving_edges xs m))"
    and "length (downsample_preserving_edges xs m) \<le> m"
proof -
  show "thinned (map f xs) (map f (downsample_preserving_edges xs m))"
  proof (cases "m < length xs")
    case False
    then show ?thesis using thinned_refl assms(3) by (simp add: downsample_preserving_edges_def)
  next
    case True
    let ?g = "\<lambda>i. i * (length xs - 1) div (m - 1)"
    have ne: "xs \<noteq> []" using True by auto
    have mono: "?g i < ?g j" if "i < j" for i j
      using that True assms(1) by (intro scaled_index_mono) auto
    have top: "?g (m - 1) = length xs - 1" using assms(1) by simp
    have bound: "?g i < length xs" if "i < m" for i
    proof (cases "i = m - 1")
      case False
      with that mono [of i "m - 1"] top show ?thesis by linarith
    qed (use top True in simp)
    have ys: "map f (downsample_preserving_edges xs m) = map (\<lambda>i. f (xs ! ?g i)) [0..<m]"
      using downsample_long [OF assms(1) True assms(2)] by simp
    have "f (xs ! a) < f (xs ! b)" if "a < b" "b < length xs" for a b
      using assms(3) that by (simp add: sorted_wrt_iff_nth_less)
    then have "sorted_wrt (<) (map (\<lambda>i. f (xs ! ?g i)) [0..<m])"
      using mono bound by (simp add: sorted_wrt_iff_nth_less)
    moreover have "hd (map (\<lambda>i. f (xs ! ?g i)) [0..<m]) = hd (map f xs)"
      using assms(1) True by (cases xs) (simp_all add: hd_map upt_rec)
    moreover have "last (map (\<lambda>i. f (xs ! ?g i)) [0..<m]) = last (map f xs)"
      using assms(1) top by (simp add: last_map ne) (simp add: last_conv_nth ne)
    ultimately show ?thesis
      using bound assms(1) unfolding thinned_def ys by auto
  qed
  show "length (downsample_preserving_edges xs m) \<le> m"
    using downsample_long [OF assms(1) _ assms(2)]
    by (cases "m < length xs") (simp_all add: downsample_preserving_edges_def)
qed

lemma sorted_wrt_nths: "sorted_wrt P xs \<Longrightarrow> sorted_wrt P (nths xs A)"
  by (induction xs arbitrary: A) (auto simp: nths_Cons dest: in_set_nthsD)

lemma length_nths_le: "length (nths xs A) \<le> length xs"
  by (induction xs arbitrary: A) (auto simp: nths_Cons intro: le_SucI)

lemma strided_rows_nths:
  "strided_rows m k rows =
     nths rows {i. length rows \<le> m \<or> i = 0 \<or> i + 1 = length rows \<or> i mod k = 0}"
  by (simp add: strided_rows_def nths_def)

lemma strided_thins:
  assumes "sorted_wrt (<) (map f rows)"
  shows "thinned (map f rows) (map f (strided_rows m k rows))"
proof -
  let ?A = "{i. length rows \<le> m \<or> i = 0 \<or> i + 1 = length rows \<or> i mod k = 0}"
  have "sorted_wrt (<) (map f (nths rows ?A))"
    unfolding nths_map [symmetric] using assms by (rule sorted_wrt_nths)
  moreover have "set (map f (nths rows ?A)) \<subseteq> set (map f rows)"
    by (auto dest: in_set_nthsD)
  moreover have "nths rows ?A \<noteq> [] \<and> hd (nths rows ?A) = hd rows" if "rows \<noteq> []"
    using that by (cases rows) (simp_all add: nths_Cons)
  moreover have "last (nths rows ?A) = last rows" if "rows \<noteq> []"
    using that by (cases rows rule: rev_cases) (simp_all add: nths_append)
  ultimately show ?thesis
    by (auto simp: thinned_def strided_rows_nths hd_map last_map)
qed

lemma series_rows_strict:
  assumes "db_inv db"
  shows "sorted_wrt (<) (map rm_bucket_start_ms (series_rows sc i a b db))"
proof -
  let ?xs = "filter (\<lambda>r. rm_scope r = sc \<and> rm_session_id r = i \<and> a \<le> rm_bucket_start_ms r \<and>
      rm_bucket_start_ms r \<le> b) (db_buckets db)"
  have "distinct (map bucket_key ?xs)"
    using assms by (simp add: db_inv_def distinct_map_filter)
  then have "distinct (map rm_bucket_start_ms ?xs)"
    by (auto simp: distinct_map inj_on_def bucket_key_def)
  moreover have "mset (series_rows sc i a b db) = mset ?xs" by (simp add: series_rows_def)
  ultimately have "distinct (map rm_bucket_start_ms (series_rows sc i a b db))"
    using distinct_map_mset_eq by blast
  then show ?thesis
    by (simp add: strict_sorted_iff series_rows_def)
qed

lemma those_samples_at:
  "those (map (historical_sample_from_row why) rows) = Some samples \<Longrightarrow>
   map ms_at_ms samples = map rm_bucket_start_ms rows"
  by (induction rows arbitrary: samples)
     (auto simp: historical_sample_from_row_def split: option.splits)

lemma series_rows_faults [simp]: "series_rows sc i a b (db\<lparr>db_faults := fs\<rparr>) = series_rows sc i a b db"
  by (simp add: series_rows_def)

section \<open>Properties\<close>

text \<open>
  C28: a session that was written is read back as it was written. When no row had its id, every
  field comes back (status, attention and source through their textual form, the metric and the
  terminal through JSON); when one had, the row keeps the source, external id and start time it
  was created with and takes everything else. No other session and no event changes.
\<close>

theorem upsert_session_read_back:
  assumes "upsert_session env s db = (Ok (), db')" and "codable env s"
  shows "stored env db' = (stored env db)(s_id s \<mapsto>
      (case find_row (s_id s) (db_sessions db) of
         None \<Rightarrow> s
       | Some r \<Rightarrow> s\<lparr>s_source := parse_source (rs_source r),
                     s_external_session_id := rs_external_session_id r,
                     s_started_at_ms := rs_started_at_ms r\<rparr>))
    \<and> db_events db' = db_events db"
  using upsert_session_stored [OF assms] assms(1)
  by (auto simp: merged_def insert_session_row_frame elim!: upsert_session_OkD)

text \<open>
  C29: paging backwards through the event log of a session. A page holds the newest \<open>limit\<close>
  events older than the cursor, oldest first; if it announces a next cursor, the events older
  than the old cursor are exactly the events older than the new cursor followed by this page;
  if it does not, this page is all there is. So following the cursor visits every event of the
  session once, newest page first.
\<close>

theorem event_pages_cover_history:
  assumes "db_inv db" and "sequences_ok db" and "0 < limit" and "limit \<le> MAX_EVENT_PAGE_SIZE"
    and "\<forall>n. before = Some n \<longrightarrow> n < 2 ^ 63"
    and run: "load_session_event_page env i before limit db = (Ok page, db')"
  shows "sp_events page = keep_last limit (older before (event_history env i db)) \<and>
    older before (event_history env i db) =
      (case sp_next_before_sequence page of
         None \<Rightarrow> sp_events page
       | Some n \<Rightarrow> older (Some n) (event_history env i db) @ sp_events page) \<and>
    (sp_has_more page \<longleftrightarrow> sp_next_before_sequence page \<noteq> None) \<and>
    db' = db\<lparr>db_faults := tl (db_faults db)\<rparr>"
proof -
  let ?es = "older before (event_history env i db)"
  let ?xs = "take (limit + 1) (rev ?es)"
  let ?db = "db\<lparr>db_faults := tl (db_faults db)\<rparr>"
  have "sequences_ok ?db" "limit < 2 ^ 62" "event_history env i ?db = event_history env i db"
    using assms(2,4) by (simp_all add: sequences_ok_def MAX_EVENT_PAGE_SIZE_def event_history_def)
  with page_rows_eq [of ?db limit before env i] assms(5)
  have rows: "map (event_of_row env) (page_rows i before limit ?db) = ?xs" by simp
  have page: "sp_events page = keep_last limit ?es" "sp_has_more page \<longleftrightarrow> limit < length ?es"
    "sp_next_before_sequence page =
       (if limit < length ?es \<and> keep_last limit ?es \<noteq> [] then Some (e_sequence (hd (keep_last limit ?es))) else None)"
    and db': "db' = ?db"
    using run page_events [of ?xs limit ?es, OF refl] unfolding load_session_event_page_def Let_def
    by (auto elim!: bind_OkE query_OkE simp: op_basic_defs rows simp del: length_take length_map)
  obtain ys where split: "?es = ys @ keep_last limit ?es"
    using keep_last_suffix by blast
  show ?thesis
  proof (cases "limit < length ?es")
    case False
    with page db' show ?thesis by (simp add: keep_last_short)
  next
    case True
    then obtain e zs where e: "keep_last limit ?es = e # zs"
      using assms(3) by (metis length_keep_last list.exhaust list.size(3) min_less_iff_conj not_less_zero less_trans)
    with older_split [OF event_history_strict [OF assms(1,2), of env i], of before ys e zs] split
    have "older (Some (e_sequence e)) (event_history env i db) = ys" by simp
    with page db' split True e show ?thesis by simp
  qed
qed

text \<open>
  Retention. A pass that returns has deleted exactly the metric buckets older than the
  retention window and every event older than \<open>EVENT_RETENTION_MS\<close>, counts both truthfully,
  leaves the order of what remains, and either brought the file under the size target or left
  no event at all; sessions lose their stored metric only when some bucket was deleted.
\<close>

theorem prune_retention:
  assumes run: "prune_with_metric_retention env now_ms retention db = (Ok report, db')"
    and "scans (scan_events env)" and "0 \<le> now_ms" and "now_ms < 2 ^ 62" and "retention < 2 ^ 62"
  shows "db_buckets db' = filter (\<lambda>r. now_ms - max retention 0 \<le> rm_bucket_start_ms r) (db_buckets db) \<and>
    pr_metric_buckets_deleted report = length (db_buckets db) - length (db_buckets db') \<and>
    (\<exists>p. db_events db' = filter p (db_events db)) \<and>
    (\<forall>r\<in>set (db_events db'). now_ms - EVENT_RETENTION_MS \<le> re_occurred_at_ms r) \<and>
    pr_events_deleted report = length (db_events db) - length (db_events db') \<and>
    (pr_bytes_after report \<le> PRUNE_TARGET_BYTES \<or> db_events db' = []) \<and>
    (pr_metric_buckets_deleted report = 0 \<longrightarrow> db_sessions db' = db_sessions db)"
proof -
  have cut: "wrap_i64 (now_ms - EVENT_RETENTION_MS) = now_ms - EVENT_RETENTION_MS"
    "wrap_i64 (now_ms - max retention 0) = now_ms - max retention 0"
    using assms(3,4,5) by (auto intro!: wrap_i64_id simp: in_i64_def EVENT_RETENTION_MS_def)
  obtain d fs rep where
    loop: "prune_loop env rep d = (Ok report, db'\<lparr>db_faults := fs\<rparr>)" and
    rep: "pr_events_deleted rep =
        length (filter (\<lambda>r. re_occurred_at_ms r < now_ms - EVENT_RETENTION_MS) (db_events db))"
      "pr_metric_buckets_deleted rep =
        length (filter (\<lambda>r. rm_bucket_start_ms r < now_ms - max retention 0) (db_buckets db))" and
    d: "db_events d = filter (\<lambda>r. \<not> re_occurred_at_ms r < now_ms - EVENT_RETENTION_MS) (db_events db)"
      "db_buckets d = filter (\<lambda>r. \<not> rm_bucket_start_ms r < now_ms - max retention 0) (db_buckets db)"
      "db_sessions d = (if pr_metric_buckets_deleted rep = 0 then db_sessions db
        else map (\<lambda>r. r\<lparr>rs_latest_metric_json := None\<rparr>) (db_sessions db))"
    using prune_OkE [OF run, unfolded cut] by blast
  from prune_loop_OkD [OF loop] assms(2)
  have tr: "trimmed d (db'\<lparr>db_faults := fs\<rparr>)"
    and len: "length (db_events d) + pr_events_deleted rep = length (db_events db') + pr_events_deleted report"
    and m: "pr_metric_buckets_deleted report = pr_metric_buckets_deleted rep"
    and fin: "pr_bytes_after report \<le> PRUNE_TARGET_BYTES \<or> db_events db' = []"
    by auto
  from trimmed_fields [OF tr] obtain p where p: "db_events db' = filter p (db_events d)"
    and same: "db_buckets db' = db_buckets d" "db_sessions db' = db_sessions d"
    by auto
  have lens: "length (db_events d) + pr_events_deleted rep = length (db_events db)"
    using sum_length_filter_compl [of "\<lambda>r. re_occurred_at_ms r < now_ms - EVENT_RETENTION_MS" "db_events db"]
    by (simp add: rep d)
  have "\<exists>p. db_events db' = filter p (db_events db)"
    using p d(1) by auto
  moreover have "\<forall>r\<in>set (db_events db'). now_ms - EVENT_RETENTION_MS \<le> re_occurred_at_ms r"
    using p d(1) by auto
  moreover have "pr_metric_buckets_deleted report = length (db_buckets db) - length (db_buckets db')"
    using sum_length_filter_compl [of "\<lambda>r. rm_bucket_start_ms r < now_ms - max retention 0" "db_buckets db"]
    by (simp add: m rep same d(2))
  ultimately show ?thesis
    using fin len lens m by (simp add: same d(2,3) not_less)
qed

text \<open>
  C32: the size target measures the length of the database file, which a \<open>DELETE\<close> does not
  reduce (SQLite keeps the freed pages). If the file stays over the target, a pass without
  faults deletes every event of every session, however recent.
\<close>

theorem prune_wipes_events_of_oversized_file:
  assumes "file_over_target env" and "scans (scan_events env)" and "db_faults db = []"
  shows "\<exists>report db'. prune_with_metric_retention env now_ms retention db = (Ok report, db') \<and>
    db_events db' = []"
proof -
  obtain report db' where run: "prune_with_metric_retention env now_ms retention db = (Ok report, db')"
    and over: "PRUNE_TARGET_BYTES < pr_bytes_after report"
    using prune_runs [OF assms(1,3)] by blast
  from run obtain d fs rep where "prune_loop env rep d = (Ok report, db'\<lparr>db_faults := fs\<rparr>)"
    by (rule prune_OkE)
  from prune_loop_OkD [OF this] assms(2) over show ?thesis
    using run by auto
qed

text \<open>
  A metric series is thinned honestly. It reports how many points the range really has;
  what it returns are points of the range in strictly increasing time order, at most
  \<open>max_points\<close> of them, always with the first and the last, and all of them when they fit.
\<close>

theorem metric_series_thinned:
  assumes "db_inv db" and "2 \<le> max_points"
    and "max_points * length (series_rows scope i start_ms end_ms db) < 2 ^ 64"
    and run: "load_metric_series scope i start_ms end_ms max_points db = (Ok series, db')"
  shows "pm_total_points series = length (series_rows scope i start_ms end_ms db) \<and>
    thinned (map rm_bucket_start_ms (series_rows scope i start_ms end_ms db)) (map ms_at_ms (pm_points series)) \<and>
    length (pm_points series) \<le> max_points \<and>
    (pm_total_points series \<le> max_points \<longrightarrow>
       map ms_at_ms (pm_points series) = map rm_bucket_start_ms (series_rows scope i start_ms end_ms db)) \<and>
    (pm_downsampled series \<longleftrightarrow> max_points < pm_total_points series)"
proof -
  let ?rows = "series_rows scope i start_ms end_ms db"
  let ?picked = "strided_rows max_points (max (series_stride (length ?rows) max_points) 1) ?rows"
  show ?thesis
  proof (cases "?rows = []")
    case True
    then have "series = empty_series"
      using run by (auto simp: load_metric_series_def Let_def ret_def elim!: bind_OkE query_OkE)
    with True show ?thesis by (simp add: empty_series_def thinned_def)
  next
    case False
    from run False obtain samples where
      samples: "those (map (historical_sample_from_row NOT_PERSISTED_REASON) ?picked) = Some samples"
      and series: "pm_points series = downsample_preserving_edges samples max_points"
        "pm_total_points series = length ?rows" "pm_downsampled series \<longleftrightarrow> length ?rows > max_points"
      by (auto simp: load_metric_series_def Let_def ret_def elim!: bind_OkE query_OkE from_json_OkE)
    note at = those_samples_at [OF samples]
    have th: "thinned (map rm_bucket_start_ms ?rows) (map ms_at_ms samples)"
      unfolding at by (rule strided_thins [OF series_rows_strict [OF assms(1)]])
    have "length samples = length ?picked" by (metis at length_map)
    also have "\<dots> \<le> length ?rows" by (simp add: strided_rows_nths length_nths_le)
    finally have "max_points * length samples < 2 ^ 64"
      using assms(3) by (meson le_less_trans mult_le_mono2)
    from downsample_thins [OF assms(2) this, of ms_at_ms] th
    have "thinned (map ms_at_ms samples) (map ms_at_ms (pm_points series))"
      "length (pm_points series) \<le> max_points"
      by (simp_all add: series(1) thinned_def)
    moreover have "map ms_at_ms (pm_points series) = map rm_bucket_start_ms ?rows"
      if "length ?rows \<le> max_points"
    proof -
      have "?picked = ?rows" using that by (simp add: strided_rows_nths nths_all)
      then show ?thesis using that at series(1)
        by (metis downsample_preserving_edges_def length_map)
    qed
    ultimately show ?thesis using th series(2,3) by (auto intro: thinned_trans)
  qed
qed

section \<open>The properties at concrete inputs\<close>

definition sample_env :: sqlite_env where
  "sample_env =
     \<lparr>metric_to_json = (\<lambda>m. Some ''m''), metric_from_json = (\<lambda>j. None),
      terminal_to_json = (\<lambda>t. Some ''t''), terminal_from_json = (\<lambda>j. None),
      settings_to_json = (\<lambda>s. Some ''s''), settings_from_json = (\<lambda>j. None),
      capabilities_to_json = (\<lambda>c. Some (debug_source (c_source c))),
      capabilities_from_json = (\<lambda>j. Some (capabilities_template (parse_source j))),
      uuid_to_string = hex16, uuid_parse_str = (\<lambda>t. None),
      scan_sessions = id, scan_events = id, scan_integrations = id,
      unique_checked_first = False, in_memory = True, file_bytes = (\<lambda>db. Some 0)\<rparr>"

definition stored_sample :: agent_session where
  "stored_sample =
     \<lparr>s_id = ''s-1'', s_source = Qwen, s_external_session_id = ''x'', s_label = ''l'',
      s_workspace_label = None, s_status = Waiting, s_attention = AttentionApproval,
      s_started_at_ms = 1, s_last_event_at_ms = 2, s_ended_at_ms = None,
      s_process_root = Some \<lparr>pid = 7, pid_started_at_ms = 1\<rparr>,
      s_verified_terminal = None, s_latest_metric = None\<rparr>"

definition sample_event_row :: "string \<Rightarrow> int \<Rightarrow> int \<Rightarrow> event_row" where
  "sample_event_row i n t =
     \<lparr>re_id = i, re_session_id = ''s-1'', re_sequence = n, re_occurred_at_ms = t,
      re_kind = ''Tool'', re_level = ''Info'', re_summary = ''ran'', re_tool_name = None\<rparr>"

definition sample_bucket_row :: "int \<Rightarrow> bucket_row" where
  "sample_bucket_row t =
     \<lparr>rm_scope = ''host'', rm_session_id = ''__host__'', rm_bucket_start_ms = t,
      rm_cpu_host_percent = Fin 1, rm_cpu_core_percent = Fin 1, rm_rss_bytes = 1,
      rm_runtime_ms = 0, rm_process_count = 1, rm_read_bytes_per_sec = 0,
      rm_write_bytes_per_sec = 0\<rparr>"

definition sample_db :: sqlite_db where
  "sample_db = sqlite_new
     \<lparr>db_sessions := [session_row_of stored_sample None None],
      db_events := [sample_event_row ''a'' 1 10, sample_event_row ''b'' 2 700000000],
      db_buckets := map sample_bucket_row [0, 5000, 10000]\<rparr>"

lemma db_inv_sample: "db_inv sample_db"
  by (simp add: db_inv_def sample_db_def sqlite_new_def sessions_ok_def events_ok_def
      sample_event_row_def event_unique_def sample_bucket_row_def bucket_key_def
      session_row_of_def stored_sample_def)

theorem upsert_session_read_back_witness:
  "let db' = snd (upsert_session sample_env stored_sample sqlite_new)
   in stored sample_env db' ''s-1'' = Some stored_sample"
proof -
  obtain db' where run: "upsert_session sample_env stored_sample sqlite_new = (Ok (), db')"
    by (simp add: upsert_session_def bind_def from_json_def lift_def statement_def
        insert_session_row_def stored_sample_def sqlite_new_def Let_def)
  have "codable sample_env stored_sample"
    by (simp add: codable_def stored_sample_def)
  from upsert_session_read_back [OF run this]
  have "stored sample_env db' (s_id stored_sample) = Some stored_sample"
    by (simp add: find_row_def sqlite_new_def)
  moreover have "s_id stored_sample = ''s-1''" by (simp add: stored_sample_def)
  ultimately show ?thesis by (simp add: run)
qed

theorem event_pages_cover_history_witness:
  "\<exists>page db'. load_session_event_page sample_env ''s-1'' None 1 sample_db = (Ok page, db') \<and>
     sp_events page = [event_of_row sample_env (sample_event_row ''b'' 2 700000000)] \<and> sp_has_more page"
proof -
  have rows: "events_of ''s-1'' sample_db = [sample_event_row ''a'' 1 10, sample_event_row ''b'' 2 700000000]"
    by (simp add: events_of_def sample_db_def sqlite_new_def sample_event_row_def)
  obtain page db' where run: "load_session_event_page sample_env ''s-1'' None 1 sample_db = (Ok page, db')"
    by (simp add: load_session_event_page_def query_def statement_def bind_def Let_def ret_def
        sample_db_def sqlite_new_def)
  have "sequences_ok sample_db"
    by (simp add: sequences_ok_def sample_db_def sqlite_new_def sample_event_row_def)
  from event_pages_cover_history [OF db_inv_sample this _ _ _ run]
  have page: "sp_events page = keep_last 1 (older None (event_history sample_env ''s-1'' sample_db))"
    "sp_has_more page \<longleftrightarrow> sp_next_before_sequence page \<noteq> None"
    "older None (event_history sample_env ''s-1'' sample_db) =
      (case sp_next_before_sequence page of None \<Rightarrow> sp_events page
       | Some n \<Rightarrow> older (Some n) (event_history sample_env ''s-1'' sample_db) @ sp_events page)"
    by (simp_all add: MAX_EVENT_PAGE_SIZE_def)
  moreover from this have "sp_next_before_sequence page \<noteq> None"
    by (auto simp: older_def event_history_def rows keep_last_def)
  ultimately show ?thesis
    using run by (auto simp: older_def event_history_def rows keep_last_def)
qed

theorem prune_retention_witness:
  "\<exists>report db'. prune_with_metric_retention sample_env 700000000 699993000 sample_db = (Ok report, db') \<and>
     db_events db' = [sample_event_row ''b'' 2 700000000] \<and>
     pr_metric_buckets_deleted report = 2"
proof -
  obtain report db' where
    run: "prune_with_metric_retention sample_env 700000000 699993000 sample_db = (Ok report, db')"
    and ev: "db_events db' = [sample_event_row ''b'' 2 700000000]"
    by (simp add: prune_with_metric_retention_def Let_def bind_def seq_def delete_events_def
        delete_buckets_before_def statement_def execute_def database_bytes_def ret_def
        sample_env_def sample_db_def sqlite_new_def prune_loop.simps EVENT_RETENTION_MS_def
        wrap_i64_def sample_event_row_def sample_bucket_row_def forget_latest_metrics_def)
  have "scans (scan_events sample_env)" by (simp add: scans_def sample_env_def)
  from prune_retention [OF run this] ev run show ?thesis
    by (simp add: sample_db_def sqlite_new_def sample_bucket_row_def)
qed

theorem prune_wipes_events_of_oversized_file_witness:
  "\<exists>report db'. prune_with_metric_retention
       (sample_env\<lparr>in_memory := False, file_bytes := (\<lambda>db. Some (PRUNE_TARGET_BYTES + 1))\<rparr>)
       700000000 700000000 sample_db = (Ok report, db') \<and>
     sample_event_row ''b'' 2 700000000 \<in> set (db_events sample_db) \<and> db_events db' = []"
proof -
  let ?env = "sample_env\<lparr>in_memory := False, file_bytes := (\<lambda>db. Some (PRUNE_TARGET_BYTES + 1))\<rparr>"
  have "file_over_target ?env" "scans (scan_events ?env)" "db_faults sample_db = []"
    by (simp_all add: file_over_target_def scans_def sample_env_def sample_db_def sqlite_new_def)
  from prune_wipes_events_of_oversized_file [OF this] show ?thesis
    by (auto simp: sample_db_def)
qed

lemma those_defined: "\<forall>x\<in>set xs. f x \<noteq> None \<Longrightarrow> \<exists>ys. those (map f xs) = Some ys"
  by (induction xs) auto

theorem metric_series_thinned_witness:
  "\<exists>series db'. load_metric_series ''host'' ''__host__'' 0 20000 2 sample_db = (Ok series, db') \<and>
     pm_total_points series = 3 \<and> pm_downsampled series \<and>
     thinned [0, 5000, 10000] (map ms_at_ms (pm_points series))"
proof -
  have rows: "series_rows ''host'' ''__host__'' 0 20000 sample_db = map sample_bucket_row [0, 5000, 10000]"
    by (simp add: series_rows_def sample_db_def sqlite_new_def sample_bucket_row_def)
  have "\<exists>ms. those (map (historical_sample_from_row w) (strided_rows 2 k (map sample_bucket_row ts))) = Some ms" for w k ts
    by (rule those_defined)
       (auto simp: strided_rows_nths historical_sample_from_row_def get_u32_def sample_bucket_row_def
         dest!: in_set_nthsD)
  then obtain ms where "those (map (historical_sample_from_row NOT_PERSISTED_REASON)
      (strided_rows 2 (max (series_stride 3 2) 1) (map sample_bucket_row [0, 5000, 10000]))) = Some ms" by blast
  then obtain series db' where
    run: "load_metric_series ''host'' ''__host__'' 0 20000 2 sample_db = (Ok series, db')"
    using rows
    by (simp add: load_metric_series_def bind_def query_def statement_def Let_def from_json_def
        lift_def ret_def sample_db_def sqlite_new_def eval_nat_numeral)
  from metric_series_thinned [OF db_inv_sample _ _ run] run show ?thesis
    by (simp add: rows sample_bucket_row_def)
qed

end
