(* ===== verification/Recovery.thy ===== *)
theory Recovery
  imports Core_Runs Sqlite_Laws
begin

text \<open>
  The SQLite store meets the write-through contract, so a core that runs on it keeps memory and
  database in step; and restarting from that database restores the sessions.
\<close>

section \<open>SQLite never panics\<close>

lemma no_panic_statement: "no_panic (statement f)"
  by (auto simp: no_panic_def statement_def Let_def split: option.splits)

lemma no_panic_query: "no_panic (query f)" and no_panic_execute: "no_panic (execute g)"
  by (simp_all add: query_def execute_def no_panic_statement)

lemma no_panic_basic: "no_panic (ret x)" "no_panic (throw e)" "no_panic (gets f)" "no_panic (modify g)"
  "no_panic (from_json r)"
  by (auto simp: no_panic_def op_basic_defs from_json_def split: option.splits)

lemma no_panic_bind: "no_panic m \<Longrightarrow> (\<And>x. no_panic (k x)) \<Longrightarrow> no_panic (bind m k)"
  unfolding no_panic_def bind_def
  by (auto split: prod.splits outcome.splits; metis fst_conv)

lemma no_panic_seq: "no_panic m \<Longrightarrow> no_panic k \<Longrightarrow> no_panic (seq m k)"
  by (simp add: seq_def no_panic_bind)

lemma no_panic_if: "no_panic m \<Longrightarrow> no_panic k \<Longrightarrow> no_panic (if b then m else k)"
  by simp

lemma no_panic_database_bytes: "no_panic (database_bytes env)"
  unfolding database_bytes_def by (intro no_panic_if no_panic_basic no_panic_bind)

lemma no_panic_prune_loop: "no_panic (prune_loop env report)"
proof -
  have "fst (prune_loop env report db) \<noteq> Panic p" for db p
  proof (induction env report db rule: prune_loop.induct)
    case (1 env report db)
    have del: "fst (delete_oldest_events env db) \<noteq> Panic p"
      using no_panic_statement by (auto simp: delete_oldest_events_def no_panic_def)
    have bytes: "fst (database_bytes env d) \<noteq> Panic p" for d
      using no_panic_database_bytes by (auto simp: no_panic_def)
    show ?case
      using 1 del bytes
      by (subst prune_loop.simps)
         (auto split: prod.splits outcome.splits, metis fst_conv)
  qed
  then show ?thesis by (simp add: no_panic_def)
qed

lemmas no_panic_rules = no_panic_statement no_panic_query no_panic_execute no_panic_basic
  no_panic_bind no_panic_seq no_panic_if no_panic_database_bytes no_panic_prune_loop

lemma sqlite_safe: "repo_safe (sqlite_repository env)"
  unfolding repo_safe_def sqlite_repository_def repository.select_convs
  by (intro conjI allI; unfold upsert_session_def remove_session_def append_event_def
      trim_session_events_def load_session_event_page_def save_settings_def upsert_integration_def
      record_metric_bucket_def purge_metric_history_def purge_session_events_def
      store_idempotency_key_def prune_with_metric_retention_def delete_events_def
      delete_buckets_before_def Let_def; intro no_panic_rules)

section \<open>In step with SQLite\<close>

text \<open>
  The metric of a session is left out: it is refreshed with every frame, and a purge of the
  database and of memory are two separate steps.
\<close>

definition essence :: "agent_session \<Rightarrow> agent_session" where
  "essence s = s\<lparr>s_latest_metric := None\<rparr>"

definition terminal_json_faithful :: "sqlite_env \<Rightarrow> bool" where
  "terminal_json_faithful env \<longleftrightarrow>
     (\<forall>t j. terminal_to_json env t = Some j \<longrightarrow> terminal_from_json env j = Some t)"

definition pid_fits :: "process_identity option \<Rightarrow> bool" where
  "pid_fits p \<longleftrightarrow> (case p of None \<Rightarrow> True | Some q \<Rightarrow> pid q < 2 ^ 32)"

definition row_of_session :: "sqlite_env \<Rightarrow> session_row option \<Rightarrow> agent_session option \<Rightarrow> bool" where
  "row_of_session env r s \<longleftrightarrow>
     (case (r, s) of
        (None, None) \<Rightarrow> True
      | (Some r, Some s) \<Rightarrow>
          pid_fits (s_process_root s) \<and> rs_source r = debug_source (s_source s) \<and>
          (\<exists>t. session_of_row env r = Some t \<and> essence t = essence s)
      | _ \<Rightarrow> False)"

definition rows_match :: "sqlite_env \<Rightarrow> (string \<Rightarrow> agent_session option) \<Rightarrow> session_row list \<Rightarrow> bool" where
  "rows_match env m rows \<longleftrightarrow> (\<forall>i. row_of_session env (find_row i rows) (m i))"

definition sqlite_sync :: "sqlite_env \<Rightarrow> (string \<Rightarrow> agent_session option) \<Rightarrow> sqlite_db \<Rightarrow> bool" where
  "sqlite_sync env m db \<longleftrightarrow>
     (\<forall>i s. m i = Some s \<longrightarrow> pid_fits (s_process_root s)) \<and>
     (terminal_json_faithful env \<longrightarrow> db_inv db \<and> rows_match env m (db_sessions db))"

lemma essence_eq:
  "essence s = essence t \<longleftrightarrow>
     s_id s = s_id t \<and> s_source s = s_source t \<and>
     s_external_session_id s = s_external_session_id t \<and> s_label s = s_label t \<and>
     s_workspace_label s = s_workspace_label t \<and> s_status s = s_status t \<and>
     s_attention s = s_attention t \<and> s_started_at_ms s = s_started_at_ms t \<and>
     s_last_event_at_ms s = s_last_event_at_ms t \<and> s_ended_at_ms s = s_ended_at_ms t \<and>
     s_process_root s = s_process_root t \<and> s_verified_terminal s = s_verified_terminal t"
  by (cases s; cases t) (simp add: essence_def)

lemma essence_update [simp]: "essence (s\<lparr>s_latest_metric := x\<rparr>) = essence s"
  by (simp add: essence_def)

lemma row_of_session_Some:
  "row_of_session env (Some r) s \<longleftrightarrow>
     (\<exists>u t. s = Some u \<and> pid_fits (s_process_root u) \<and> rs_source r = debug_source (s_source u) \<and>
        session_of_row env r = Some t \<and> essence t = essence u)"
  by (auto simp: row_of_session_def split: option.splits)

lemma row_of_session_None: "row_of_session env None s \<longleftrightarrow> s = None"
  by (auto simp: row_of_session_def split: option.splits)

lemma terminal_reads_back:
  assumes "terminal_json_faithful env" and "transpose_option (terminal_to_json env) x = Some tj"
  shows "Option.bind tj (terminal_from_json env) = x"
  using assms by (cases x) (auto simp: terminal_json_faithful_def)

lemma root_reads_back:
  assumes "pid_fits x"
  obtains p where "get_u32 (map_option (\<lambda>p. int (pid p)) x) = Some p"
    and "(case (p, map_option pid_started_at_ms x) of
        (Some q, Some t) \<Rightarrow> Some \<lparr>pid = q, pid_started_at_ms = t\<rparr> | _ \<Rightarrow> None) = x"
  using assms by (cases x) (auto simp: pid_fits_def get_u32_def)

lemma session_row_essence:
  assumes "terminal_json_faithful env" and "pid_fits (s_process_root s)"
    and "transpose_option (terminal_to_json env) (s_verified_terminal s) = Some tj"
  shows "\<exists>t. session_of_row env (session_row_of s mj tj) = Some t \<and> essence t = essence s"
  using assms(2)
proof (rule root_reads_back)
  fix p
  assume p: "get_u32 (map_option (\<lambda>p. int (pid p)) (s_process_root s)) = Some p"
    "(case (p, map_option pid_started_at_ms (s_process_root s)) of
        (Some q, Some t) \<Rightarrow> Some \<lparr>pid = q, pid_started_at_ms = t\<rparr> | _ \<Rightarrow> None) = s_process_root s"
  then show ?thesis
    by (simp add: session_of_row_def session_row_of_def essence_eq terminal_reads_back [OF assms(1,3)])
qed

lemma essence_merged:
  assumes "session_of_row env r = Some t0" and "essence t0 = essence t" and "same_row s t"
    and "essence u = essence s"
  shows "essence (merged (Some r) u) = essence s"
proof -
  have "s_source t0 = parse_source (rs_source r)" "s_external_session_id t0 = rs_external_session_id r"
      "s_started_at_ms t0 = rs_started_at_ms r"
    using assms(1) by (auto simp: session_of_row_def split: option.splits)
  with assms(2-4) show ?thesis
    by (simp add: essence_eq merged_def same_row_def same_identity_def)
qed

lemma rows_match_insert:
  assumes "insert_session_row env row db = Some (x, db')" and "rows_match env m (db_sessions db)"
    and "session_of_row env row = Some u" and "essence u = essence s"
    and "rs_id row = s_id s" and "pid_fits (s_process_root s)"
    and "rs_source row = debug_source (s_source s)"
    and "\<And>t. m (s_id s) = Some t \<Longrightarrow> same_row s t"
  shows "rows_match env (m(s_id s \<mapsto> s)) (db_sessions db')"
  using assms(1)
proof (cases rule: insert_session_row_cases)
  case insert
  then show ?thesis
    using assms(2-7) unfolding rows_match_def
    by (auto simp: find_row_snoc row_of_session_Some)
next
  case update
  let ?g = "\<lambda>r. if rs_id r = rs_id row then update_session_row row r else r"
  have find: "find_row i (db_sessions db') = map_option ?g (find_row i (db_sessions db))" for i
    using find_row_map [of ?g i "db_sessions db"] by (simp add: update(2))
  obtain r where r: "find_row (s_id s) (db_sessions db) = Some r" "rs_id r = rs_id row"
    using update(1) find_row_None find_row_SomeD assms(5) by (metis option.exhaust)
  then obtain t t0 where t: "m (s_id s) = Some t" "session_of_row env r = Some t0" "essence t0 = essence t"
      "rs_source r = debug_source (s_source t)"
    using assms(2) unfolding rows_match_def by (metis row_of_session_Some)
  show ?thesis
    unfolding rows_match_def
  proof
    fix i
    show "row_of_session env (find_row i (db_sessions db')) ((m(s_id s \<mapsto> s)) i)"
    proof (cases "i = s_id s")
      case True
      then show ?thesis
        using r session_of_updated_row [OF assms(3) r(2)] assms(6) t(4) assms(8) [OF t(1)]
          essence_merged [OF t(2,3) assms(8) [OF t(1)] assms(4)]
        by (simp add: find row_of_session_Some update_session_row_def same_row_def same_identity_def)
    next
      case False
      then have "map_option ?g (find_row i (db_sessions db)) = find_row i (db_sessions db)"
        using assms(5) find_row_SomeD [of i "db_sessions db"]
        by (cases "find_row i (db_sessions db)") auto
      with False assms(2) show ?thesis by (simp add: find rows_match_def)
    qed
  qed
qed

lemma sqlite_sync_same_sessions:
  assumes "sqlite_sync env m db" and "db_sessions db' = db_sessions db" and "db_inv db \<Longrightarrow> db_inv db'"
  shows "sqlite_sync env m db'"
  using assms by (simp add: sqlite_sync_def)

lemma sqlite_sync_upsert:
  assumes "sqlite_sync env m db" and "\<And>t. m (s_id s) = Some t \<Longrightarrow> same_row s t"
    and "pid_fits (s_process_root s)" and run: "upsert_session env s db = (Ok (), db')"
  shows "sqlite_sync env (m(s_id s \<mapsto> s)) db'"
  unfolding sqlite_sync_def
proof (intro conjI impI allI)
  fix i t assume "(m(s_id s \<mapsto> s)) i = Some t"
  with assms(1,3) show "pid_fits (s_process_root t)" by (auto simp: sqlite_sync_def split: if_splits)
next
  assume faithful: "terminal_json_faithful env"
  with assms(1) have "db_inv db" by (simp add: sqlite_sync_def)
  with keepsD_run [OF keeps_upsert_session run] show "db_inv db'" .
next
  assume faithful: "terminal_json_faithful env"
  from run show "rows_match env (m(s_id s \<mapsto> s)) (db_sessions db')"
  proof (rule upsert_session_OkD)
    fix mj tj
    assume tj: "transpose_option (terminal_to_json env) (s_verified_terminal s) = Some tj"
      and ins: "insert_session_row env (session_row_of s mj tj) (db\<lparr>db_faults := tl (db_faults db)\<rparr>) = Some ((), db')"
    obtain u where u: "session_of_row env (session_row_of s mj tj) = Some u" "essence u = essence s"
      using session_row_essence [OF faithful assms(3) tj] by blast
    show ?thesis
      using rows_match_insert [OF ins _ u _ assms(3) _ assms(2)] assms(1) faithful
      by (simp add: sqlite_sync_def session_row_of_def)
  qed
qed

lemma sqlite_sync_remove:
  assumes "sqlite_sync env m db" and run: "remove_session i db = (Ok (), db')"
  shows "sqlite_sync env (m(i := None)) db'"
proof -
  have "db_sessions db' = filter (\<lambda>r. rs_id r \<noteq> i) (db_sessions db)"
    using run unfolding remove_session_def by (auto elim!: execute_OkE)
  with assms(1) keepsD_run [OF keeps_remove_session run] show ?thesis
    by (auto simp: sqlite_sync_def rows_match_def find_row_filter row_of_session_None)
qed

lemma rows_match_essence:
  assumes "rows_match env m rows" and "\<And>i. map_option essence (m' i) = map_option essence (m i)"
  shows "rows_match env m' rows"
  unfolding rows_match_def
proof
  fix i
  have "row_of_session env (find_row i rows) (m i)" using assms(1) by (simp add: rows_match_def)
  then show "row_of_session env (find_row i rows) (m' i)"
    using assms(2) [of i]
    by (cases "m i"; cases "m' i"; cases "find_row i rows") (auto simp: row_of_session_def essence_eq)
qed

lemma rows_match_forget:
  assumes "rows_match env m rows"
  shows "rows_match env m (map (\<lambda>r. r\<lparr>rs_latest_metric_json := None\<rparr>) rows)"
proof -
  have read: "\<exists>t'. session_of_row env (r\<lparr>rs_latest_metric_json := None\<rparr>) = Some t' \<and> essence t' = essence t"
    if "session_of_row env r = Some t" for r t
    using that by (auto simp: session_of_row_def essence_eq split: option.splits)
  have "row_of_session env (map_option (\<lambda>r. r\<lparr>rs_latest_metric_json := None\<rparr>) r) x"
    if "row_of_session env r x" for r x
    using that read by (cases r) (auto simp: row_of_session_Some row_of_session_None, metis)
  with assms show ?thesis
    by (simp add: rows_match_def find_row_map)
qed

lemma sqlite_sync_purge_metrics:
  assumes "sqlite_sync env m db" and run: "purge_metric_history db = (Ok n, db')"
  shows "sqlite_sync env m db'"
proof -
  have "db_sessions db' = map (\<lambda>r. r\<lparr>rs_latest_metric_json := None\<rparr>) (db_sessions db)"
    using run unfolding purge_metric_history_def
    by (auto elim!: statement_OkE simp: forget_latest_metrics_def)
  with assms(1) keepsD_run [OF keeps_purge_metric_history run] rows_match_forget show ?thesis
    by (auto simp: sqlite_sync_def)
qed

lemma sqlite_sync_prune:
  assumes "sqlite_sync env m db" and run: "prune_with_metric_retention env t keep db = (Ok rep, db')"
  shows "sqlite_sync env m db'"
proof -
  from run obtain d fs rep' where loop: "prune_loop env rep' d = (Ok rep, db'\<lparr>db_faults := fs\<rparr>)"
    and d: "db_sessions d = (if pr_metric_buckets_deleted rep' = 0 then db_sessions db
       else map (\<lambda>r. r\<lparr>rs_latest_metric_json := None\<rparr>) (db_sessions db))"
    by (rule prune_OkE)
  have "db_sessions db' = db_sessions d"
    using trimmed_fields [OF conjunct1 [OF prune_loop_OkD [OF loop]]] by simp
  with assms(1) d keepsD_run [OF keeps_prune run] rows_match_forget show ?thesis
    by (auto simp: sqlite_sync_def)
qed

lemma statement_same_sessions:
  assumes "statement f db = (Ok x, db')"
    and "\<And>d y d'. f d = Some (y, d') \<Longrightarrow> db_sessions d' = db_sessions d"
  shows "db_sessions db' = db_sessions db"
  using statement_OkE [OF assms(1)] assms(2) by (metis sqlite_db.select_convs(1) sqlite_db.surjective sqlite_db.update_convs(8))

lemma append_event_same_sessions:
  assumes "append_event env e db = (Ok (), db')"
  shows "db_sessions db' = db_sessions db"
proof -
  from assms obtain d where ins: "statement (insert_event_row (event_row_of env e)) db = (Ok (), d)"
    and trim: "trim_session_events (e_session_id e) d = (Ok (), db')"
    unfolding append_event_def by (rule seq_OkE)
  have "db_sessions d = db_sessions db"
    using ins by (rule statement_same_sessions) (auto simp: insert_event_row_def split: if_splits)
  moreover have "db_sessions db' = db_sessions d"
    using trim unfolding trim_session_events_def
    by (auto elim!: bind_OkE query_OkE execute_OkE simp: ret_def delete_oldest_of_def Let_def
        split: if_splits)
  ultimately show ?thesis by simp
qed

interpretation sqlite: write_through_store "sqlite_repository env" "sqlite_sync env" pid_fits
proof (unfold_locales, unfold sqlite_repository_def repository.select_convs, goal_cases)
  case 1
  show ?case using sqlite_safe by (simp add: sqlite_repository_def)
next
  case 2
  show ?case by (simp add: pid_fits_def)
next
  case (3 m d i s)
  then show ?case by (simp add: sqlite_sync_def)
next
  case (4 m d s d')
  then show ?case by (intro sqlite_sync_upsert)
next
  case (5 m d i d')
  then show ?case by (rule sqlite_sync_remove)
next
  case (6 m d)
  then show ?case
    by (auto simp: sqlite_sync_def comp_def option.map_comp elim!: rows_match_essence)
next
  case (7 m d e d')
  then show ?case
    using append_event_same_sessions keepsD_run [OF keeps_append_event] by (metis sqlite_sync_same_sessions)
next
  case (8 m d ps d')
  moreover from 8(2) have "db_sessions d' = db_sessions d"
    unfolding save_settings_def by (auto elim!: bind_OkE from_json_OkE execute_OkE)
  ultimately show ?case using keepsD_run [OF keeps_save_settings 8(2)] by (metis sqlite_sync_same_sessions)
next
  case (9 m d c h msg t d')
  moreover from 9(2) have "db_sessions d' = db_sessions d"
    unfolding upsert_integration_def by (auto elim!: bind_OkE from_json_OkE execute_OkE)
  ultimately show ?case using keepsD_run [OF keeps_upsert_integration 9(2)] by (metis sqlite_sync_same_sessions)
next
  case (10 m d sc j t x d')
  moreover from 10(2) have "db_sessions d' = db_sessions d"
    unfolding record_metric_bucket_def Let_def
    by (rule statement_same_sessions) (auto split: if_splits)
  ultimately show ?case using keepsD_run [OF keeps_record_metric_bucket 10(2)] by (metis sqlite_sync_same_sessions)
next
  case (11 m d k t b d')
  moreover from 11(2) have "db_sessions d' = db_sessions d"
    unfolding store_idempotency_key_def by (rule statement_same_sessions) (auto split: if_splits)
  ultimately show ?case using keepsD_run [OF keeps_store_idempotency_key 11(2)] by (metis sqlite_sync_same_sessions)
next
  case (12 m d n d')
  then show ?case by (rule sqlite_sync_purge_metrics)
next
  case (13 m d n d')
  moreover from 13(2) have "db_sessions d' = db_sessions d"
    unfolding purge_session_events_def by (rule statement_same_sessions) auto
  ultimately show ?case using keepsD_run [OF keeps_purge_session_events 13(2)] by (metis sqlite_sync_same_sessions)
next
  case (14 m d t keep rep d')
  then show ?case by (rule sqlite_sync_prune)
qed

section \<open>Restart\<close>

lemma for_each_upsert_get:
  "for_each reg_upsert_session ss r = (Ok (), r') \<Longrightarrow>
   reg_get r' = fold (\<lambda>s m. m(s_id s \<mapsto> s)) ss (reg_get r)"
proof (induction ss arbitrary: r)
  case Nil
  then show ?case by (simp add: ret_def)
next
  case (Cons s ss)
  show ?case
  proof (cases rule: reg_upsert_session_cases [of s r])
    case 1
    with Cons show ?thesis by (auto simp: op_simps reg_get_maps)
  next
    case (2 e)
    with Cons.prems show ?thesis by (simp add: op_simps)
  qed
qed

lemma fold_map_upd:
  "distinct (map s_id ss) \<Longrightarrow>
   fold (\<lambda>s m. m(s_id s \<mapsto> s)) ss m i = (case find (\<lambda>s. s_id s = i) ss of None \<Rightarrow> m i | Some s \<Rightarrow> Some s)"
proof (induction ss arbitrary: m)
  case (Cons s ss)
  then have "find (\<lambda>t. s_id t = s_id s) ss = None" by (auto simp: find_None_iff image_iff)
  with Cons show ?case by (auto split: option.splits)
qed simp

lemma restore_get:
  assumes "reg_restore ss es registry_new = (Ok (), r)" and "distinct (map s_id ss)"
    and "length ss \<le> MAX_SESSIONS"
  shows "reg_get r i = find (\<lambda>s. s_id s = i) (restore_order ss)"
proof -
  have "length (restore_order ss) \<le> MAX_SESSIONS" using assms(3) by (simp add: restore_order_def)
  with assms(1) obtain r1 where up: "for_each reg_upsert_session (restore_order ss)
      (registry_new\<lparr>r_sessions := [], r_external_index := [], r_events := []\<rparr>) = (Ok (), r1)"
    and r: "r_sessions r = r_sessions r1"
    unfolding reg_restore_def
    by (auto elim!: seq_OkE simp: modify_def)
  have "distinct (map s_id (restore_order ss))"
    using assms(2) distinct_map_mset_eq [of "restore_order ss" ss s_id] by (simp add: restore_order_def)
  from fold_map_upd [OF this] for_each_upsert_get [OF up] r show ?thesis
    by (simp add: reg_get_def fun_eq_iff registry_new_def split: option.splits)
qed

lemma app_core_new_OkE:
  assumes "app_core_new repo settings d = (Ok core, d')"
  obtains ss d1 es d2 cs d3 ps where "repo_load_sessions repo d = (Ok ss, d1)" "repo_load_events repo d1 = (Ok es, d2)"
    "repo_load_integrations repo d2 = (Ok cs, d3)" "repo_load_settings repo d3 = (Ok ps, d')"
    "a_repository core = d'" "reg_restore ss es registry_new = (Ok (), a_registry core)"
    "a_coalescer core = coalescer_new" "a_stream core = []" "a_stream_sequence core = 0"
  using assms unfolding app_core_new_def
  by (auto elim!: bind_OkE split: prod.splits outcome.splits)

lemma those_map_SomeD: "those (map f xs) = Some ys \<Longrightarrow> map Some ys = map f xs"
  by (induction xs arbitrary: ys) (auto split: option.splits)

lemma find_by_unique:
  "distinct (map f xs) \<Longrightarrow> find (\<lambda>x. f x = i) xs = Some x \<longleftrightarrow> x \<in> set xs \<and> f x = i"
  by (induction xs) (auto simp: image_iff)

lemma session_of_row_id: "session_of_row env r = Some t \<Longrightarrow> s_id t = rs_id r"
  by (auto simp: session_of_row_def split: option.splits)

text \<open>The sessions a restart reads: all rows, when they are no more than the limit.\<close>

lemma load_sessions_all:
  assumes "load_sessions env db = (Ok ss, db')" and "scans (scan_sessions env)"
    and "length (db_sessions db) \<le> MAX_SESSIONS"
  shows "\<exists>rows. mset rows = mset (db_sessions db) \<and> map Some ss = map (session_of_row env) rows"
proof -
  let ?rows = "sort_key session_rank (scan_sessions env (db_sessions db))"
  have m: "mset ?rows = mset (db_sessions db)" using assms(2) by (simp add: scans_def)
  then have "length ?rows = length (db_sessions db)" by (rule mset_eq_length)
  then have "selected_sessions env (db\<lparr>db_faults := fs\<rparr>) = ?rows" for fs
    using assms(3) by (simp add: selected_sessions_def sql_limit_def)
  with assms(1) have "those (map (session_of_row env) ?rows) = Some ss"
    unfolding load_sessions_def by (auto elim!: bind_OkE query_OkE from_json_OkE)
  from those_map_SomeD [OF this] m show ?thesis by blast
qed

lemma rows_within_capacity:
  assumes "reg_inv g" and "rows_match env (reg_get g) rows" and "distinct (map rs_id rows)"
  shows "length rows \<le> MAX_SESSIONS"
proof -
  have "rs_id ` set rows \<subseteq> fst ` set (r_sessions g)"
  proof
    fix i assume "i \<in> rs_id ` set rows"
    then have "find_row i rows \<noteq> None" by (simp add: find_row_None)
    with assms(2) obtain s where "reg_get g i = Some s"
      unfolding rows_match_def by (metis not_None_eq row_of_session_Some)
    then show "i \<in> fst ` set (r_sessions g)" unfolding reg_get_def by (rule map_of_Some_key)
  qed
  then have "card (rs_id ` set rows) \<le> card (fst ` set (r_sessions g))" by (simp add: card_mono)
  also have "\<dots> \<le> length (r_sessions g)" by (metis card_length length_map list.set_map)
  finally show ?thesis
    using reg_inv_cap [OF assms(1)] distinct_card [OF assms(3)] by simp
qed

lemma restart_registry:
  assumes "db_inv db" and "length (db_sessions db) \<le> MAX_SESSIONS" and "scans (scan_sessions env)"
    and new: "app_core_new (sqlite_repository env) settings db = (Ok core, db')"
  shows "reg_get (a_registry core) i = Some t \<longleftrightarrow>
      (\<exists>r. find_row i (db_sessions db) = Some r \<and> session_of_row env r = Some t)"
    and "\<exists>ss es. reg_restore ss es registry_new = (Ok (), a_registry core) \<and> distinct (map s_id ss) \<and>
      (\<exists>rows. mset rows = mset (db_sessions db) \<and> map Some ss = map (session_of_row env) rows)"
proof -
  have ids: "distinct (map rs_id (db_sessions db))" using assms(1) by (simp add: db_inv_def sessions_ok_def)
  from new obtain ss d1 es where load: "load_sessions env db = (Ok ss, d1)"
    and restore: "reg_restore ss es registry_new = (Ok (), a_registry core)"
    by (rule app_core_new_OkE) (auto simp: sqlite_repository_def)
  from load_sessions_all [OF load assms(3,2)] obtain rows where
    m: "mset rows = mset (db_sessions db)" and ss: "map Some ss = map (session_of_row env) rows" by blast
  have mem: "t \<in> set ss \<longleftrightarrow> (\<exists>r\<in>set (db_sessions db). session_of_row env r = Some t)" for t
  proof -
    have "Some t \<in> set (map Some ss) \<longleftrightarrow> Some t \<in> session_of_row env ` set rows" by (simp only: ss set_map)
    then show ?thesis using mset_eq_setD [OF m] by (force simp: image_iff)
  qed
  have "map s_id ss = map rs_id rows"
    using ss session_of_row_id by (metis (mono_tags, lifting) length_map list_eq_iff_nth_eq nth_map)
  then have dist: "distinct (map s_id ss)"
    using ids distinct_map_mset_eq [OF m] by metis
  have len: "length ss \<le> MAX_SESSIONS"
    using assms(2) mset_eq_length [OF m] ss by (metis length_map)
  have perm: "mset (restore_order ss) = mset ss" by (simp add: restore_order_def)
  have "distinct (map s_id (restore_order ss))"
    using dist distinct_map_mset_eq [OF perm] by blast
  from find_by_unique [OF this, of i]
  have get: "reg_get (a_registry core) i = Some t \<longleftrightarrow> t \<in> set ss \<and> s_id t = i"
    unfolding restore_get [OF restore dist len] using mset_eq_setD [OF perm] by simp
  show "reg_get (a_registry core) i = Some t \<longleftrightarrow>
      (\<exists>r. find_row i (db_sessions db) = Some r \<and> session_of_row env r = Some t)"
    unfolding get mem
    using find_row_member [OF ids] find_row_SomeD [of i "db_sessions db"] session_of_row_id [of env]
    by metis
  show "\<exists>ss es. reg_restore ss es registry_new = (Ok (), a_registry core) \<and> distinct (map s_id ss) \<and>
      (\<exists>rows. mset rows = mset (db_sessions db) \<and> map Some ss = map (session_of_row env) rows)"
    using restore dist m ss by blast
qed

lemma restart_sessions:
  assumes "rows_match env m (db_sessions db)" and "db_inv db" and "length (db_sessions db) \<le> MAX_SESSIONS"
    and "scans (scan_sessions env)" and new: "app_core_new (sqlite_repository env) settings db = (Ok core, db')"
  shows "map_option essence (reg_get (a_registry core) i) = map_option essence (m i)"
proof -
  note get = restart_registry(1) [OF assms(2,3,4) new]
  have match: "row_of_session env (find_row i (db_sessions db)) (m i)"
    using assms(1) by (simp add: rows_match_def)
  show ?thesis
  proof (cases "find_row i (db_sessions db)")
    case None
    then have "reg_get (a_registry core) i \<noteq> Some t" for t using get [of i t] by simp
    then have "reg_get (a_registry core) i = None" by (metis option.exhaust)
    with None match show ?thesis by (simp add: row_of_session_None)
  next
    case (Some r)
    then obtain t u where t: "session_of_row env r = Some t" "m i = Some u" "essence t = essence u"
      using match by (auto simp: row_of_session_Some)
    then have "reg_get (a_registry core) i = Some t" using get [of i t] Some by simp
    with t show ?thesis by simp
  qed
qed

section \<open>Starting up\<close>

text \<open>A database the core can start on: consistent, within capacity, sources it knows.\<close>

definition well_formed_db :: "sqlite_env \<Rightarrow> sqlite_db \<Rightarrow> bool" where
  "well_formed_db env db \<longleftrightarrow>
     db_inv db \<and> length (db_sessions db) \<le> MAX_SESSIONS \<and>
     (\<forall>r\<in>set (db_sessions db). \<exists>x. rs_source r = debug_source x)"

lemma session_of_row_fields:
  assumes "session_of_row env r = Some t"
  shows "pid_fits (s_process_root t)" "s_source t = parse_source (rs_source r)"
    "s_external_session_id t = rs_external_session_id r"
  using assms by (auto simp: session_of_row_def pid_fits_def get_u32_def split: option.splits if_splits)

lemma rows_decode:
  assumes "app_core_new (sqlite_repository env) settings db = (Ok a, d)" and "well_formed_db env db"
    and "scans (scan_sessions env)" and "r \<in> set (db_sessions db)"
  shows "\<exists>t. session_of_row env r = Some t"
proof -
  have inv: "db_inv db" and cap: "length (db_sessions db) \<le> MAX_SESSIONS"
    using assms(2) by (simp_all add: well_formed_db_def)
  from restart_registry(2) [OF inv cap assms(3,1)] obtain ss rows where
    m: "mset rows = mset (db_sessions db)" and ss: "map Some ss = map (session_of_row env) rows" by blast
  have "r \<in> set rows" using assms(4) mset_eq_setD [OF m] by simp
  then have "session_of_row env r \<in> set (map Some ss)" by (simp add: ss)
  then show ?thesis by auto
qed

lemma start_rows_match:
  assumes "app_core_new (sqlite_repository env) settings db = (Ok a, d)" and "well_formed_db env db"
    and "scans (scan_sessions env)"
  shows "rows_match env (reg_get (a_registry a)) (db_sessions db)"
proof -
  have wf: "db_inv db" "length (db_sessions db) \<le> MAX_SESSIONS"
    using assms(2) by (simp_all add: well_formed_db_def)
  note get = restart_registry(1) [OF wf assms(3,1)]
  have "row_of_session env (find_row i (db_sessions db)) (reg_get (a_registry a) i)" for i
  proof (cases "find_row i (db_sessions db)")
    case None
    then have "reg_get (a_registry a) i \<noteq> Some t" for t using get [of i t] by simp
    then have "reg_get (a_registry a) i = None" by (metis option.exhaust)
    with None show ?thesis by (simp add: row_of_session_None)
  next
    case (Some r)
    then have r: "r \<in> set (db_sessions db)" using find_row_SomeD by blast
    with rows_decode [OF assms] obtain t where t: "session_of_row env r = Some t" by blast
    from r assms(2) obtain x where "rs_source r = debug_source x" by (auto simp: well_formed_db_def)
    with t Some get [of i t] session_of_row_fields [OF t] show ?thesis
      by (simp add: row_of_session_Some)
  qed
  then show ?thesis by (simp add: rows_match_def)
qed

lemma load_keeps_db:
  assumes "app_core_new (sqlite_repository env) settings db = (Ok a, d)"
  shows "a_repository a = d" "db_sessions d = db_sessions db" "db_inv db \<Longrightarrow> db_inv d"
proof -
  from assms obtain ss d1 es d2 cs d3 ps where loads: "load_sessions env db = (Ok ss, d1)"
      "load_events env d1 = (Ok es, d2)" "load_integrations env d2 = (Ok cs, d3)"
      "load_settings env d3 = (Ok ps, d)" and a: "a_repository a = d"
    by (rule app_core_new_OkE) (auto simp: sqlite_repository_def)
  have "db_sessions d1 = db_sessions db \<and> (db_inv db \<longrightarrow> db_inv d1)"
    using loads(1) unfolding load_sessions_def by (auto elim!: bind_OkE query_OkE from_json_OkE)
  moreover have "db_sessions d2 = db_sessions d1 \<and> (db_inv d1 \<longrightarrow> db_inv d2)"
    using loads(2) unfolding load_events_def by (auto elim!: bind_OkE query_OkE simp: ret_def)
  moreover have "db_sessions d3 = db_sessions d2 \<and> (db_inv d2 \<longrightarrow> db_inv d3)"
    using loads(3) unfolding load_integrations_def by (auto elim!: bind_OkE query_OkE from_json_OkE)
  moreover have "db_sessions d = db_sessions d3 \<and> (db_inv d3 \<longrightarrow> db_inv d)"
    using loads(4) unfolding load_settings_def by (auto elim!: bind_OkE query_OkE from_json_OkE)
  ultimately show "a_repository a = d" "db_sessions d = db_sessions db" "db_inv db \<Longrightarrow> db_inv d"
    using a by auto
qed

lemma start_core_inv:
  assumes "app_core_new (sqlite_repository env) settings db = (Ok a, d)" and "well_formed_db env db"
    and "scans (scan_sessions env)"
  shows "core_inv a"
proof -
  have wf: "db_inv db" "length (db_sessions db) \<le> MAX_SESSIONS"
    using assms(2) by (simp_all add: well_formed_db_def)
  from restart_registry(2) [OF wf assms(3,1)] obtain ss es rows where
    restore: "reg_restore ss es registry_new = (Ok (), a_registry a)" and dist: "distinct (map s_id ss)" and
    m: "mset rows = mset (db_sessions db)" and ss: "map Some ss = map (session_of_row env) rows" by blast
  have "distinct (map session_unique rows)"
    using wf(1) distinct_map_mset_eq [OF m] by (auto simp: db_inv_def sessions_ok_def)
  moreover have "map (\<lambda>s. (debug_source (s_source s), s_external_session_id s)) ss = map session_unique rows"
  proof (rule nth_equalityI)
    show len: "length (map (\<lambda>s. (debug_source (s_source s), s_external_session_id s)) ss) =
        length (map session_unique rows)"
      using ss by (metis length_map)
    fix k assume k: "k < length (map (\<lambda>s. (debug_source (s_source s), s_external_session_id s)) ss)"
    with len have kr: "k < length ss" "k < length rows" by simp_all
    have row: "session_of_row env (rows ! k) = Some (ss ! k)"
      using arg_cong [OF ss, of "\<lambda>xs. xs ! k"] kr by simp
    have "rows ! k \<in> set (db_sessions db)"
      using kr(2) mset_eq_setD [OF m] by (metis nth_mem)
    then obtain x where "rs_source (rows ! k) = debug_source x"
      using assms(2) by (auto simp: well_formed_db_def)
    with session_of_row_fields [OF row] kr
    show "map (\<lambda>s. (debug_source (s_source s), s_external_session_id s)) ss ! k = map session_unique rows ! k"
      by (simp add: session_unique_def)
  qed
  ultimately have "distinct (map (\<lambda>s. (debug_source (s_source s), s_external_session_id s)) ss)" by simp
  then have "distinct (map session_key ss)"
    by (auto simp: distinct_map inj_on_def)
  from reg_inv_restore [OF dist this, of es registry_new] restore have "reg_inv (a_registry a)" by simp
  moreover from assms(1) have "a_coalescer a = coalescer_new" "a_stream a = []" "a_stream_sequence a = 0"
    by (auto elim: app_core_new_OkE)
  ultimately show ?thesis
    by (simp add: core_inv_def stream_ok_def coalescer_inv_new wrap_u64_def)
qed

lemma start_good:
  assumes "app_core_new (sqlite_repository env) settings db = (Ok a, d)" and "well_formed_db env db"
    and "scans (scan_sessions env)"
  shows "sqlite.good env a"
proof -
  have "pid_fits (s_process_root s)" if "reg_get (a_registry a) i = Some s" for i s
    using start_rows_match [OF assms] that
    by (cases "find_row i (db_sessions db)")
       (fastforce simp: rows_match_def row_of_session_Some row_of_session_None dest: spec [of _ i])+
  with start_core_inv [OF assms] start_rows_match [OF assms] load_keeps_db [OF assms(1)] assms(2)
  show ?thesis by (simp add: sqlite.good_def sqlite_sync_def well_formed_db_def)
qed

lemma good_well_formed:
  assumes "sqlite.good env b" and "terminal_json_faithful env"
  shows "well_formed_db env (a_repository b)"
    and "rows_match env (reg_get (a_registry b)) (db_sessions (a_repository b))"
proof -
  let ?db = "a_repository b"
  have inv: "db_inv ?db" and reg: "reg_inv (a_registry b)" and
    match: "rows_match env (reg_get (a_registry b)) (db_sessions ?db)"
    using assms by (simp_all add: sqlite.good_def sqlite_sync_def core_inv_def)
  have ids: "distinct (map rs_id (db_sessions ?db))" using inv by (simp add: db_inv_def sessions_ok_def)
  have "\<exists>x. rs_source r = debug_source x" if "r \<in> set (db_sessions ?db)" for r
    using match find_row_member [OF ids that] unfolding rows_match_def by (metis row_of_session_Some)
  with inv rows_within_capacity [OF reg match ids] show "well_formed_db env ?db"
    by (simp add: well_formed_db_def)
  show "rows_match env (reg_get (a_registry b)) (db_sessions ?db)" by (rule match)
qed

end
