(* ===== verification/Sample_Run.thy ===== *)
theory Sample_Run
  imports Recovery
begin

text \<open>
  One concrete run: a core that starts on a database with one session that asks for approval,
  handles the acknowledgement of it, and starts again on what it left behind. The properties of
  runs are applied to it.
\<close>

definition sample_settings :: public_settings where
  "sample_settings =
     \<lparr>ps_overlay_enabled = True, ps_autostart_enabled = False, ps_reduced_motion = False,
      ps_sampling_interval_ms = 1000, ps_selected_display = None, ps_show_over_fullscreen = False,
      ps_history_retention_hours = 24, ps_alert_sound_enabled = True,
      ps_selected_sound_theme_id = None,
      ps_sound_routing = \<lparr>sr_enabled = True, sr_volume = Fin 1, sr_quiet_hours = None,
        sr_event_volume = [], sr_agent_volume = []\<rparr>\<rparr>"

definition plain_env :: sqlite_env where
  "plain_env = sample_env\<lparr>terminal_to_json := (\<lambda>t. None)\<rparr>"

lemma plain_env_simps [simp]:
  "scan_sessions plain_env = id" "scan_integrations plain_env = id" "terminal_to_json plain_env = (\<lambda>t. None)"
  "unique_checked_first plain_env = False"
  by (simp_all add: plain_env_def sample_env_def)

definition sample_cenv :: core_env where
  "sample_cenv = \<lparr>env_hash = (\<lambda>s e. 7), env_order = (\<lambda>ks. ks)\<rparr>"

definition ack_sample :: core_call where
  "ack_sample = CallIngest 20 2 (AcknowledgeAttention
     \<lparr>ack_session_id = ''s-1'', ack_occurred_at_ms = 20\<rparr>)"

definition held :: "agent_session \<Rightarrow> session_registry" where
  "held s = \<lparr>r_sessions = [(s_id s, s)], r_external_index = [(external_key (s_source s) (s_external_session_id s), s_id s)],
     r_events = [], r_idempotency = {}\<rparr>"

definition one_db :: "agent_session \<Rightarrow> sqlite_db" where
  "one_db s = sqlite_new\<lparr>db_sessions := [session_row_of s None None]\<rparr>"

definition calm_sample :: agent_session where
  "calm_sample = stored_sample\<lparr>s_attention := AttentionNone, s_last_event_at_ms := 20\<rparr>"

definition holding :: "agent_session \<Rightarrow> sqlite_db app_core" where
  "holding s = \<lparr>a_registry = held s, a_settings = sample_settings, a_integrations = [], a_stream_sequence = 0,
     a_coalescer = coalescer_new, a_alerts = evaluator_new, a_latest_metrics = None,
     a_repository = one_db s, a_stream = []\<rparr>"

lemmas boot_defs = app_core_new_def bind_def statement_def query_def load_sessions_def load_events_def
    load_integrations_def load_settings_def from_json_def lift_def ret_def  Let_def seq_def modify_def

lemma boot_one:
  assumes "s = stored_sample \<or> s = calm_sample"
  shows "app_core_new (sqlite_repository plain_env) sample_settings (one_db s) = (Ok (holding s), one_db s)"
  using assms
  by (auto simp add: boot_defs sqlite_repository_def one_db_def sqlite_new_def selected_sessions_def sql_limit_def MAX_SESSIONS_eq
     session_row_of_def session_of_row_def stored_sample_def calm_sample_def get_u32_def ranked_events_def
     reg_restore_def restore_order_def reg_upsert_session_def validate_defs validate_bounded_def protocol_limits
     reg_insert_def registry_new_def holding_def held_def parse_source_def parse_status_def parse_attention_def)


definition after_ack :: "sqlite_db app_core" where
  "after_ack = (holding calm_sample)
     \<lparr>a_stream_sequence := 1, a_stream := [\<lparr>f_sequence = 1, f_emitted_at_ms = 20, f_payload = PSessionUpsert calm_sample\<rparr>]\<rparr>"

lemma ack_run:
  "run_call (sqlite_repository plain_env) sample_cenv ack_sample (holding stored_sample) = (Ok (), after_ack)"
  by (simp add: ack_sample_def discard_def ingest_def handle_ingest_def acknowledge_attention_def bind_def seq_def lift_def
    ret_def gets_def modify_def validate_defs validate_bounded_def protocol_limits borrow_or_not_found_def reg_get_def holding_def held_def
    stored_sample_def calm_sample_def after_ack_def Let_def write_through_def write_session_def reg_write_def on_repo_def zoom_def
    sqlite_repository_def upsert_session_def from_json_def statement_def one_db_def sqlite_new_def insert_session_row_def
    session_row_of_def update_session_row_def queue_payload_def coalescer_new_def coalescer_push_def flush_pending_def coalescer_is_empty_def
    coalescer_drain_def sample_cenv_def hm_values_def map_filter_def emit_frame_def wrap_u64_def evaluator_new_def clear_local_acknowledgement_def)

lemma sample_order: "iteration_order (env_order sample_cenv)"
  by (simp add: iteration_order_def sample_cenv_def)

lemma plain_scans: "scans (scan_sessions plain_env)"
  by (simp add: scans_def)

lemma plain_faithful: "terminal_json_faithful plain_env"
  by (simp add: terminal_json_faithful_def)

lemma one_db_well_formed: "well_formed_db plain_env (one_db stored_sample)"
proof -
  have "\<exists>x. rs_source (session_row_of stored_sample None None) = debug_source x"
    by (simp add: session_row_of_def) blast
  then show ?thesis
    by (auto simp: well_formed_db_def db_inv_def one_db_def sqlite_new_def sessions_ok_def
        events_ok_def MAX_SESSIONS_eq)
qed

lemma ack_admissible: "call_admissible fits sample_cenv ack_sample a"
  by (simp add: call_admissible_def ack_sample_def admissible_def)

lemma ack_core_run: "core_run (\<lambda>_. True) (sqlite_repository plain_env) sample_cenv (holding stored_sample) after_ack"
  by (rule core_run.call [OF core_run.start ack_admissible ack_run])

lemma holding_inv: "core_inv (holding stored_sample)"
  using start_core_inv [OF boot_one] one_db_well_formed plain_scans by simp

end
