(* ===== verification/Process_Graph.thy ===== *)
theory Process_Graph
  imports Protocol_Types Ordered_Map
begin

text \<open>
  \<^verbatim>\<open>crates/notch-metrics/src/{constants,model,graph}.rs\<close>: the process snapshot as a graph, the search
  below a root, and the assignment of each process to its nearest registered ancestor.
\<close>

section \<open>Limits and model\<close>

definition MAX_HISTORY_SAMPLES_PER_SESSION :: nat where "MAX_HISTORY_SAMPLES_PER_SESSION = 900"
definition MAX_ACTIVE_ROOTS :: nat where "MAX_ACTIVE_ROOTS = 64"
definition ACTIVE_REFRESH_INTERVAL_MS :: nat where "ACTIVE_REFRESH_INTERVAL_MS = 1000"
definition IDLE_REFRESH_INTERVAL_MS :: nat where "IDLE_REFRESH_INTERVAL_MS = 5000"
definition MAX_PARENT_WALK_DEPTH :: nat where "MAX_PARENT_WALK_DEPTH = 256"

record process_node =
  pn_pid :: nat
  pn_parent_pid :: "nat option"
  pn_started_at_ms :: int
  pn_cpu_usage_percent :: f64
  pn_rss_bytes :: nat
  pn_read_bytes_total :: nat
  pn_write_bytes_total :: nat
  pn_read_bytes_delta :: nat
  pn_write_bytes_delta :: nat
  pn_io_available :: bool

record registered_session =
  rg_session_id :: string
  rg_root :: process_identity
  rg_attribution :: attribution_quality
  rg_registered_at_ms :: int

datatype root_status = RootValid | RootMissing | RootPidReused

datatype counter_readiness = CounterWarmingUp | CounterReady

type_synonym processes = "(nat, process_node) btree_map"

section \<open>Operations\<close>

text \<open>\<open>abs\<close> of the least \<open>i64\<close> wraps to itself.\<close>

definition start_times_match :: "int \<Rightarrow> int \<Rightarrow> bool" where
  "start_times_match expected_ms observed_ms \<longleftrightarrow>
     wrap_i64 (abs (wrap_i64 (expected_ms - observed_ms))) < 1000"

definition verify_root :: "process_identity \<Rightarrow> processes \<Rightarrow> root_status" where
  "verify_root identity processes =
     (case map_of processes (pid identity) of
        None \<Rightarrow> RootMissing
      | Some node \<Rightarrow>
          if start_times_match (pid_started_at_ms identity) (pn_started_at_ms node)
          then RootValid else RootPidReused)"

definition add_child :: "process_node \<Rightarrow> (nat, nat list) btree_map \<Rightarrow> (nat, nat list) btree_map" where
  "add_child node children =
     (case pn_parent_pid node of
        None \<Rightarrow> children
      | Some parent \<Rightarrow> bt_entry parent [] (\<lambda>kids. kids @ [pn_pid node]) children)"

definition children_index :: "processes \<Rightarrow> (nat, nat list) btree_map" where
  "children_index processes =
     map (\<lambda>(parent, kids). (parent, sort kids)) (fold add_child (map snd processes) [])"

text \<open>The loop of \<open>collect_descendants\<close>; the top of the stack is the head of the list.\<close>

function search_below ::
  "processes \<Rightarrow> (nat, nat list) btree_map \<Rightarrow> nat set \<Rightarrow> nat list \<Rightarrow> nat set" where
  "search_below processes children seen [] = seen"
| "search_below processes children seen (p # stack) =
     (if p \<in> seen then search_below processes children seen stack
      else case map_of children p of
          None \<Rightarrow> search_below processes children (insert p seen) stack
        | Some kids \<Rightarrow>
            search_below processes children (insert p seen)
              (rev (filter (\<lambda>kid. map_of processes kid \<noteq> None) kids) @ stack))"
  by pat_completeness auto
termination
proof (relation "measures [\<lambda>(ps, ch, seen, stack). card (fst ` set ch - seen), \<lambda>(ps, ch, seen, stack). length stack]",
    goal_cases)
  case (4 ps ch seen p stack kids)
  then have "p \<in> fst ` set ch" by (auto dest: map_of_Some_key)
  with 4 have "card (fst ` set ch - insert p seen) < card (fst ` set ch - seen)"
    by (intro psubset_card_mono) auto
  then show ?case by simp
next
  case (3 ps ch seen p stack)
  have "card (fst ` set ch - insert p seen) \<le> card (fst ` set ch - seen)"
    by (intro card_mono) auto
  then show ?case by auto
qed simp_all

definition collect_descendants ::
  "nat \<Rightarrow> processes \<Rightarrow> (nat, nat list) btree_map \<Rightarrow> nat set" where
  "collect_descendants root_pid processes children = search_below processes children {} [root_pid]"

primrec walk_to_root :: "nat \<Rightarrow> (nat \<times> nat) list \<Rightarrow> processes \<Rightarrow> nat \<Rightarrow> nat option" where
  "walk_to_root 0 roots processes current = None"
| "walk_to_root (Suc n) roots processes current =
     (case find (\<lambda>(idx, root_pid). root_pid = current) roots of
        Some (idx, _) \<Rightarrow> Some idx
      | None \<Rightarrow>
          (case Option.bind (map_of processes current) pn_parent_pid of
             None \<Rightarrow> None
           | Some parent \<Rightarrow> walk_to_root n roots processes parent))"

definition nearest_registered_owner :: "nat \<Rightarrow> (nat \<times> nat) list \<Rightarrow> processes \<Rightarrow> nat option" where
  "nearest_registered_owner p roots processes = walk_to_root MAX_PARENT_WALK_DEPTH roots processes p"

definition valid_roots :: "registered_session list \<Rightarrow> processes \<Rightarrow> (nat \<times> nat) list" where
  "valid_roots sessions processes =
     List.map_filter (\<lambda>(idx, session).
         if verify_root (rg_root session) processes = RootValid
         then Some (idx, pid (rg_root session)) else None)
       (enumerate 0 sessions)"

definition assign_process_owners ::
  "registered_session list \<Rightarrow> processes \<Rightarrow> (nat, nat) btree_map" where
  "assign_process_owners sessions processes =
     (let roots = valid_roots sessions processes
      in List.map_filter (\<lambda>p. map_option (Pair p) (nearest_registered_owner p roots processes))
           (map fst processes))"

definition tree_has_overlap ::
  "nat \<Rightarrow> nat \<Rightarrow> (nat, nat) btree_map \<Rightarrow> processes \<Rightarrow> (nat, nat list) btree_map \<Rightarrow> bool" where
  "tree_has_overlap session_idx root_pid owners processes children \<longleftrightarrow>
     (\<exists>p\<in>collect_descendants root_pid processes children.
        p \<noteq> root_pid \<and>
        (case map_of owners p of None \<Rightarrow> False | Some owner \<Rightarrow> owner \<noteq> session_idx))"

text \<open>One walk up: \<open>True\<close> is the \<open>return true\<close> of the loop.\<close>

primrec gap_above :: "nat \<Rightarrow> nat \<Rightarrow> processes \<Rightarrow> nat \<Rightarrow> bool" where
  "gap_above 0 root_pid processes current = False"
| "gap_above (Suc n) root_pid processes current =
     (case map_of processes current of
        None \<Rightarrow> True
      | Some node \<Rightarrow>
          (case pn_parent_pid node of
             None \<Rightarrow> True
           | Some parent \<Rightarrow>
               if parent = root_pid then False else gap_above n root_pid processes parent))"

definition tree_has_parent_gaps :: "nat \<Rightarrow> nat set \<Rightarrow> processes \<Rightarrow> bool" where
  "tree_has_parent_gaps root_pid owned_pids processes \<longleftrightarrow>
     (\<exists>p\<in>owned_pids. p \<noteq> root_pid \<and> gap_above MAX_PARENT_WALK_DEPTH root_pid processes p)"

section \<open>The snapshot as a graph\<close>

text \<open>A snapshot is keyed by the pid of its nodes.\<close>

definition snapshot_ok :: "processes \<Rightarrow> bool" where
  "snapshot_ok processes \<longleftrightarrow> bt_wf processes \<and> (\<forall>(p, node)\<in>set processes. pn_pid node = p)"

definition parent_of :: "processes \<Rightarrow> nat \<Rightarrow> nat option" where
  "parent_of processes p = Option.bind (map_of processes p) pn_parent_pid"

text \<open>\<open>descends processes p q\<close>: \<open>q\<close> is reached from \<open>p\<close> by going down parent links.\<close>

inductive descends :: "processes \<Rightarrow> nat \<Rightarrow> nat \<Rightarrow> bool" for processes p where
  self: "descends processes p p"
| child: "descends processes p q \<Longrightarrow> parent_of processes r = Some q \<Longrightarrow> descends processes p r"

lemma snapshot_node: "snapshot_ok ps \<Longrightarrow> map_of ps p = Some node \<Longrightarrow> pn_pid node = p"
  by (auto simp: snapshot_ok_def map_of_iff_mem)

lemma bt_wf_add_child [simp]: "bt_wf c \<Longrightarrow> bt_wf (add_child n c)"
  by (simp add: add_child_def split: option.splits)

lemma map_of_add_children:
  assumes "bt_wf c"
  shows "map_of (fold add_child ns c) p =
    (let kids = map pn_pid (filter (\<lambda>n. pn_parent_pid n = Some p) ns)
     in if kids = [] then map_of c p
        else Some ((case map_of c p of None \<Rightarrow> [] | Some ks \<Rightarrow> ks) @ kids))"
  using assms
proof (induction ns arbitrary: c)
  case (Cons n ns)
  then have "bt_wf (add_child n c)" by simp
  from Cons.IH [OF this] Cons.prems show ?case
    by (auto simp: add_child_def Let_def split: option.splits)
qed simp

lemma map_of_children_index:
  "map_of (children_index ps) p =
     (let kids = map pn_pid (filter (\<lambda>n. pn_parent_pid n = Some p) (map snd ps))
      in if kids = [] then None else Some (sort kids))"
  by (simp add: children_index_def map_of_map_values map_of_add_children Let_def)

lemma kids_children_index:
  assumes "snapshot_ok ps" and "map_of (children_index ps) p = Some kids"
  shows "set kids = {q. parent_of ps q = Some p}"
proof -
  have wf: "bt_wf ps" using assms(1) by (simp add: snapshot_ok_def)
  have "set kids = {pn_pid n | n q. (q, n) \<in> set ps \<and> pn_parent_pid n = Some p}"
    using assms(2) by (force simp: map_of_children_index Let_def split: if_splits)
  also have "\<dots> = {q. parent_of ps q = Some p}"
  proof (intro set_eqI iffI; clarify)
    fix n q assume "(q, n) \<in> set ps" "pn_parent_pid n = Some p"
    then show "parent_of ps (pn_pid n) = Some p"
      using snapshot_node [OF assms(1), of q n] wf by (simp add: parent_of_def map_of_iff_mem [symmetric])
  next
    fix q assume "parent_of ps q = Some p"
    then obtain n where "map_of ps q = Some n" "pn_parent_pid n = Some p"
      by (auto simp: parent_of_def split: Option.bind_splits)
    then show "\<exists>n q'. q = pn_pid n \<and> (q', n) \<in> set ps \<and> pn_parent_pid n = Some p"
      using assms(1) wf by (metis map_of_iff_mem snapshot_node)
  qed
  finally show ?thesis .
qed

lemma no_kids_children_index:
  assumes "snapshot_ok ps" and "map_of (children_index ps) p = None"
  shows "parent_of ps q \<noteq> Some p"
  using assms
  by (fastforce simp: map_of_children_index Let_def parent_of_def filter_empty_conv snapshot_ok_def
      map_of_iff_mem split: if_splits Option.bind_splits)

lemma parent_of_visible: "parent_of ps q = Some p \<Longrightarrow> map_of ps q \<noteq> None"
  by (auto simp: parent_of_def split: Option.bind_splits)

text \<open>What the loop pushes when it visits \<open>p\<close>.\<close>

definition pushed :: "processes \<Rightarrow> (nat, nat list) btree_map \<Rightarrow> nat \<Rightarrow> nat list" where
  "pushed ps ch p =
     (case map_of ch p of
        None \<Rightarrow> []
      | Some kids \<Rightarrow> rev (filter (\<lambda>kid. map_of ps kid \<noteq> None) kids))"

lemma set_pushed:
  "snapshot_ok ps \<Longrightarrow> set (pushed ps (children_index ps) p) = {q. parent_of ps q = Some p}"
  using kids_children_index [of ps p] no_kids_children_index [of ps p]
  by (cases "map_of (children_index ps) p") (auto simp: pushed_def dest: parent_of_visible)

lemma search_below_within:
  "set stack \<subseteq> R \<Longrightarrow> (\<And>p. p \<in> R \<Longrightarrow> set (pushed ps ch p) \<subseteq> R) \<Longrightarrow>
   search_below ps ch seen stack \<subseteq> seen \<union> R"
proof (induction ps ch seen stack rule: search_below.induct)
  case (2 ps ch seen p stack)
  show ?case
  proof (cases "p \<in> seen")
    case True
    with 2 show ?thesis by simp
  next
    case False
    have "set (pushed ps ch p) \<subseteq> R" "p \<in> R" "set stack \<subseteq> R" using 2(4,5) by simp_all
    moreover have "search_below ps ch seen (p # stack) \<subseteq> insert p seen \<union> R"
      using calculation 2(2,3) [OF False _ _ 2(5)] False
      by (cases "map_of ch p") (simp_all add: pushed_def)
    ultimately show ?thesis by blast
  qed
qed simp

lemma search_below_closed:
  assumes "\<forall>x\<in>seen. set (pushed ps ch x) \<subseteq> seen \<union> set stack"
  shows "seen \<union> set stack \<subseteq> search_below ps ch seen stack \<and>
    (\<forall>x\<in>search_below ps ch seen stack. set (pushed ps ch x) \<subseteq> search_below ps ch seen stack)"
  using assms
proof (induction ps ch seen stack rule: search_below.induct)
  case (2 ps ch seen p stack)
  show ?case
  proof (cases "p \<in> seen")
    case True
    with 2 show ?thesis by (simp add: insert_absorb)
  next
    case False
    have step: "\<forall>x\<in>insert p seen. set (pushed ps ch x) \<subseteq> insert p seen \<union> set (pushed ps ch p @ stack)"
      using 2(4) by auto
    show ?thesis
    proof (cases "map_of ch p")
      case None
      with 2(2) [OF False None] step False show ?thesis by (simp add: pushed_def)
    next
      case (Some kids)
      with 2(3) [OF False Some] step False show ?thesis by (simp add: pushed_def)
    qed
  qed
qed simp

lemma collect_descendants_eq:
  assumes ok: "snapshot_ok ps"
  shows "collect_descendants anchor ps (children_index ps) = {p. descends ps anchor p}"
proof
  show "collect_descendants anchor ps (children_index ps) \<subseteq> {p. descends ps anchor p}"
    using search_below_within [of "[anchor]" "{p. descends ps anchor p}" ps "children_index ps" "{}"]
    by (auto simp: collect_descendants_def set_pushed [OF ok] intro: descends.intros)
next
  have closed: "anchor \<in> collect_descendants anchor ps (children_index ps)"
    "p \<in> collect_descendants anchor ps (children_index ps) \<Longrightarrow> parent_of ps q = Some p \<Longrightarrow>
     q \<in> collect_descendants anchor ps (children_index ps)" for p q
    using search_below_closed [of "{}" ps "children_index ps" "[anchor]"]
    by (auto simp: collect_descendants_def set_pushed [OF ok])
  have "descends ps anchor p \<Longrightarrow> p \<in> collect_descendants anchor ps (children_index ps)" for p
    by (induction rule: descends.induct) (auto intro: closed)
  then show "{p. descends ps anchor p} \<subseteq> collect_descendants anchor ps (children_index ps)" by auto
qed

section \<open>Ownership\<close>

primrec ancestor :: "processes \<Rightarrow> nat \<Rightarrow> nat \<Rightarrow> nat option" where
  "ancestor ps 0 p = Some p"
| "ancestor ps (Suc n) p = Option.bind (parent_of ps p) (ancestor ps n)"

text \<open>Session \<open>i\<close> is the first whose registered root is valid and is the process \<open>q\<close>.\<close>

definition roots_at :: "registered_session list \<Rightarrow> processes \<Rightarrow> nat \<Rightarrow> nat \<Rightarrow> bool" where
  "roots_at sessions ps i q \<longleftrightarrow>
     i < length sessions \<and> verify_root (rg_root (sessions ! i)) ps = RootValid \<and>
     pid (rg_root (sessions ! i)) = q"

definition first_root :: "registered_session list \<Rightarrow> processes \<Rightarrow> nat \<Rightarrow> nat \<Rightarrow> bool" where
  "first_root sessions ps i q \<longleftrightarrow> roots_at sessions ps i q \<and> (\<forall>j<i. \<not> roots_at sessions ps j q)"

definition root_index :: "(nat \<times> nat) list \<Rightarrow> nat \<Rightarrow> nat option" where
  "root_index roots q = map_option fst (find (\<lambda>(idx, root_pid). root_pid = q) roots)"

lemma root_index_Cons: "root_index ((i, r) # roots) q = (if r = q then Some i else root_index roots q)"
  by (simp add: root_index_def)

lemma root_index_enumerate:
  "root_index (List.map_filter (\<lambda>(idx, s). if verify_root (rg_root s) ps = RootValid
       then Some (idx, pid (rg_root s)) else None) (enumerate n sessions)) q = Some i \<longleftrightarrow>
   n \<le> i \<and> first_root sessions ps (i - n) q"
proof (induction sessions arbitrary: n)
  case Nil
  then show ?case by (simp add: map_filter_simps root_index_def first_root_def roots_at_def)
next
  case (Cons s sessions)
  have shift: "roots_at (s # sessions) ps (Suc j) q = roots_at sessions ps j q" for j
    by (simp add: roots_at_def)
  have zero: "roots_at (s # sessions) ps 0 q \<longleftrightarrow> verify_root (rg_root s) ps = RootValid \<and> pid (rg_root s) = q"
    by (simp add: roots_at_def)
  have later: "first_root (s # sessions) ps (Suc j) q \<longleftrightarrow>
      \<not> roots_at (s # sessions) ps 0 q \<and> first_root sessions ps j q" for j
    by (auto simp: first_root_def shift All_less_Suc2)
  show ?case
  proof (cases "roots_at (s # sessions) ps 0 q")
    case True
    then have "first_root (s # sessions) ps (i - n) q \<longleftrightarrow> i - n = 0"
      unfolding first_root_def by (cases "i - n") (auto simp: All_less_Suc2)
    moreover have "verify_root (rg_root s) ps = RootValid" "pid (rg_root s) = q"
      using True by (simp_all add: zero)
    ultimately show ?thesis by (auto simp: map_filter_simps root_index_Cons)
  next
    case False
    then have "n \<le> i \<and> first_root (s # sessions) ps (i - n) q \<longleftrightarrow>
        Suc n \<le> i \<and> first_root sessions ps (i - Suc n) q"
      using later [of "i - Suc n"]
      by (cases "i = n") (auto simp: first_root_def Suc_diff_Suc Suc_diff_le)
    with False Cons [of "Suc n"] show ?thesis
      by (auto simp: map_filter_simps zero root_index_Cons)
  qed
qed

lemma root_index_valid_roots:
  "root_index (valid_roots sessions ps) q = Some i \<longleftrightarrow> first_root sessions ps i q"
  using root_index_enumerate [of ps 0 sessions q i] by (simp add: valid_roots_def)

lemma walk_to_root_unfold:
  "walk_to_root (Suc n) roots ps p =
     (case root_index roots p of
        Some i \<Rightarrow> Some i
      | None \<Rightarrow> Option.bind (parent_of ps p) (walk_to_root n roots ps))"
  by (auto simp: root_index_def parent_of_def split: option.splits Option.bind_splits)

declare walk_to_root.simps(2) [simp del]

lemma walk_to_root_iff:
  "walk_to_root n roots ps p = Some i \<longleftrightarrow>
     (\<exists>k<n. \<exists>q. ancestor ps k p = Some q \<and> root_index roots q = Some i \<and>
        (\<forall>m<k. \<forall>q'. ancestor ps m p = Some q' \<longrightarrow> root_index roots q' = None))"
  (is "_ \<longleftrightarrow> (\<exists>k<n. ?at k p)")
proof (induction n arbitrary: p)
  case (Suc n)
  show ?case
  proof (cases "root_index roots p")
    case (Some j)
    then have "?at k p \<longleftrightarrow> k = 0 \<and> i = j" for k by (cases k) auto
    with Some show ?thesis by (auto simp: walk_to_root_unfold)
  next
    case None
    then have zero: "\<not> ?at 0 p" by simp
    have suc: "?at (Suc k) p \<longleftrightarrow> (\<exists>r. parent_of ps p = Some r \<and> ?at k r)" for k
      using None by (cases "parent_of ps p") (auto simp: All_less_Suc2)
    have "(\<exists>k<Suc n. ?at k p) \<longleftrightarrow> ?at 0 p \<or> (\<exists>k<n. ?at (Suc k) p)" by (rule Ex_less_Suc2)
    also have "\<dots> \<longleftrightarrow> (\<exists>k<n. ?at (Suc k) p)" using zero by blast
    also have "\<dots> \<longleftrightarrow> Option.bind (parent_of ps p) (walk_to_root n roots ps) = Some i"
      unfolding suc by (cases "parent_of ps p") (auto simp: Suc.IH)
    finally show ?thesis using None by (simp add: walk_to_root_unfold)
  qed
qed simp

lemma owners_lookup:
  "map_of (assign_process_owners sessions ps) p =
     (if map_of ps p = None then None
      else nearest_registered_owner p (valid_roots sessions ps) ps)"
proof -
  have "map_of (List.map_filter (\<lambda>p. map_option (Pair p) (f p)) ks) p = (if p \<in> set ks then f p else None)"
    for f :: "nat \<Rightarrow> nat option" and ks
    by (induction ks) (auto simp: map_filter_simps split: option.splits)
  then show ?thesis
    by (simp add: assign_process_owners_def Let_def map_of_eq_None_iff)
qed

lemma bt_wf_owners: "bt_wf ps \<Longrightarrow> bt_wf (assign_process_owners sessions ps)"
proof -
  have "map fst (List.map_filter (\<lambda>p. map_option (Pair p) (f p)) ks) = filter (\<lambda>p. f p \<noteq> None) ks"
    for f :: "nat \<Rightarrow> nat option" and ks
    by (induction ks) (auto simp: map_filter_simps split: option.splits)
  then show "bt_wf ps \<Longrightarrow> ?thesis"
    by (simp add: bt_wf_def assign_process_owners_def Let_def sorted_wrt_filter)
qed

lemma owners_iff:
  "map_of (assign_process_owners sessions ps) p = Some i \<longleftrightarrow>
     map_of ps p \<noteq> None \<and>
     (\<exists>k<MAX_PARENT_WALK_DEPTH. \<exists>q. ancestor ps k p = Some q \<and> first_root sessions ps i q \<and>
        (\<forall>m<k. \<forall>q' j. ancestor ps m p = Some q' \<longrightarrow> \<not> roots_at sessions ps j q'))"
proof -
  have none: "root_index (valid_roots sessions ps) q = None \<longleftrightarrow> (\<forall>j. \<not> roots_at sessions ps j q)" for q
  proof -
    have "(\<exists>j. roots_at sessions ps j q) \<longleftrightarrow> (\<exists>j. first_root sessions ps j q)"
      using exists_least_iff [of "\<lambda>j. roots_at sessions ps j q"] by (auto simp: first_root_def)
    then show ?thesis
      using root_index_valid_roots [of sessions ps q] by (cases "root_index (valid_roots sessions ps) q") auto
  qed
  show ?thesis
    by (simp add: owners_lookup nearest_registered_owner_def walk_to_root_iff root_index_valid_roots none)
qed

lemma gap_above_chain: "ancestor ps (Suc k) p = Some r \<Longrightarrow> \<not> gap_above n r ps p"
proof (induction n arbitrary: k p)
  case (Suc n)
  then obtain node q where q: "map_of ps p = Some node" "pn_parent_pid node = Some q" "ancestor ps k q = Some r"
    by (auto simp: parent_of_def split: Option.bind_splits)
  then show ?case using Suc.IH [of "k - 1" q] by (cases k) auto
qed simp

section \<open>Properties\<close>

definition sample_node :: "nat \<Rightarrow> nat option \<Rightarrow> process_node" where
  "sample_node p parent =
     \<lparr>pn_pid = p, pn_parent_pid = parent, pn_started_at_ms = 1000, pn_cpu_usage_percent = Fin 1,
      pn_rss_bytes = 10, pn_read_bytes_total = 0, pn_write_bytes_total = 0, pn_read_bytes_delta = 5,
      pn_write_bytes_delta = 0, pn_io_available = True\<rparr>"

definition sample_tree :: processes where
  "sample_tree = [(1, sample_node 1 None), (2, sample_node 2 (Some 1)), (3, sample_node 3 (Some 2))]"

definition sample_root :: "string \<Rightarrow> nat \<Rightarrow> registered_session" where
  "sample_root i p =
     \<lparr>rg_session_id = i, rg_root = \<lparr>pid = p, pid_started_at_ms = 1000\<rparr>,
      rg_attribution = Exact, rg_registered_at_ms = 0\<rparr>"

definition sample_sessions :: "registered_session list" where
  "sample_sessions = [sample_root ''a'' 1, sample_root ''b'' 2]"

lemma sample_tree_ok: "snapshot_ok sample_tree"
  by (simp add: snapshot_ok_def bt_wf_def sample_tree_def sample_node_def)

lemma sample_descendants: "collect_descendants 1 sample_tree (children_index sample_tree) = {1, 2, 3}"
  by (simp add: collect_descendants_def children_index_def add_child_def bt_entry_def sample_tree_def
      sample_node_def insert_commute)

lemma sample_roots:
  "roots_at sample_sessions sample_tree i q \<longleftrightarrow> i < 2 \<and> q = Suc i"
proof -
  have match: "start_times_match 1000 1000" by (simp add: start_times_match_def wrap_i64_def)
  have "i < 2 \<Longrightarrow> i = 0 \<or> i = 1" by auto
  then show ?thesis
    by (auto simp: roots_at_def sample_sessions_def sample_root_def sample_tree_def verify_root_def
        sample_node_def match)
qed

lemma sample_ancestry:
  "ancestor sample_tree 1 3 = Some 2" "map_of sample_tree 3 \<noteq> None"
  by (simp_all add: parent_of_def sample_tree_def sample_node_def)

lemma sample_chain:
  "\<exists>k<MAX_PARENT_WALK_DEPTH. \<exists>q. ancestor sample_tree k 3 = Some q \<and>
     first_root sample_sessions sample_tree 1 q \<and>
     (\<forall>m<k. \<forall>q' j. ancestor sample_tree m 3 = Some q' \<longrightarrow> \<not> roots_at sample_sessions sample_tree j q')"
proof -
  have "ancestor sample_tree 1 3 = Some 2 \<and> first_root sample_sessions sample_tree 1 2 \<and>
      (\<forall>m<1. \<forall>q' j. ancestor sample_tree m 3 = Some q' \<longrightarrow> \<not> roots_at sample_sessions sample_tree j q')"
    using sample_ancestry by (auto simp: first_root_def sample_roots)
  moreover have "1 < MAX_PARENT_WALK_DEPTH" by (simp add: MAX_PARENT_WALK_DEPTH_def)
  ultimately show ?thesis by blast
qed

lemma sample_owner: "map_of (assign_process_owners sample_sessions sample_tree) 3 = Some 1"
  using sample_chain sample_ancestry by (simp add: owners_iff)

text \<open>
  (C34) The search below a root ends and finds exactly the processes that descend from it in the
  snapshot, the root included, even when parent links form a cycle.
\<close>

theorem descendants_are_reachable:
  assumes "snapshot_ok ps"
  shows "collect_descendants r ps (children_index ps) = {p. descends ps r p}"
  by (rule collect_descendants_eq [OF assms])

theorem descendants_are_reachable_witness:
  "snapshot_ok sample_tree \<and> descends sample_tree 1 3"
  using descendants_are_reachable [OF sample_tree_ok, of 1] sample_tree_ok sample_descendants by blast

text \<open>
  Each visible process belongs to the nearest of its ancestors (itself included) that is
  the valid root of a registered session, and to the session that registered it first, as long
  as that ancestor is fewer than 256 hops away; otherwise to no session.
\<close>

theorem owner_is_nearest_root:
  "map_of (assign_process_owners sessions ps) p = Some i \<longleftrightarrow>
     map_of ps p \<noteq> None \<and>
     (\<exists>k<MAX_PARENT_WALK_DEPTH. \<exists>q. ancestor ps k p = Some q \<and> first_root sessions ps i q \<and>
        (\<forall>m<k. \<forall>q' j. ancestor ps m p = Some q' \<longrightarrow> \<not> roots_at sessions ps j q'))"
  by (rule owners_iff)

theorem owner_is_nearest_root_witness:
  "map_of (assign_process_owners sample_sessions sample_tree) 3 = Some 1"
  using sample_chain sample_ancestry owner_is_nearest_root [of sample_sessions sample_tree 3 1] by blast

text \<open>
  Overlap: the tree of a session is flagged exactly when a process strictly below its root
  is owned by another session.
\<close>

theorem overlap_iff_shared_descendant:
  assumes "snapshot_ok ps"
  shows "tree_has_overlap i r (assign_process_owners sessions ps) ps (children_index ps) \<longleftrightarrow>
    (\<exists>p j. descends ps r p \<and> p \<noteq> r \<and> map_of (assign_process_owners sessions ps) p = Some j \<and> j \<noteq> i)"
  by (auto simp: tree_has_overlap_def collect_descendants_eq [OF assms] split: option.splits)

theorem overlap_iff_shared_descendant_witness:
  "tree_has_overlap 0 1 (assign_process_owners sample_sessions sample_tree) sample_tree
     (children_index sample_tree)"
proof -
  have "descends sample_tree 1 3"
    using sample_descendants by (simp add: collect_descendants_eq [OF sample_tree_ok] set_eq_iff)
  moreover have "(3 :: nat) \<noteq> 1" "(1 :: nat) \<noteq> 0" by simp_all
  ultimately show ?thesis
    using sample_owner overlap_iff_shared_descendant [OF sample_tree_ok, of 0 1 sample_sessions] by blast
qed

text \<open>
  A gap in a parent chain is never reported: a process is owned by a session only when its
  chain reaches the root of that session, so the walk over the owned processes never meets a
  missing parent. A process behind a gap is not owned and is left out without a trace.
\<close>

theorem parent_gaps_never_reported:
  "\<not> tree_has_parent_gaps (pid (rg_root (sessions ! i)))
       {p. map_of (assign_process_owners sessions ps) p = Some i} ps"
proof -
  let ?r = "pid (rg_root (sessions ! i))"
  have "\<not> gap_above n ?r ps p"
    if "map_of (assign_process_owners sessions ps) p = Some i" "p \<noteq> ?r" for p n
  proof -
    from that(1) obtain k where k: "ancestor ps k p = Some ?r"
      unfolding owners_iff first_root_def roots_at_def by blast
    with that(2) obtain k' where "k = Suc k'" by (cases k) auto
    with k show ?thesis using gap_above_chain [of ps k' p ?r n] by simp
  qed
  then show ?thesis by (auto simp: tree_has_parent_gaps_def)
qed

end
