(* ===== verification/Ieee_Arith.thy ===== *)
theory Ieee_Arith
  imports Alert_Evaluator
begin

text \<open>
  The binary64 arithmetic the metrics code uses: sums, division by a positive count and clamping.
  A result is the exact rational rounded to the nearest representable value, ties to even, with
  53 significant bits, the least exponent of subnormal numbers and overflow to infinity.
\<close>

definition pow_two :: "int \<Rightarrow> rat" where
  "pow_two k = (if 0 \<le> k then 2 ^ nat k else 1 / 2 ^ nat (- k))"

definition floor_log2 :: "rat \<Rightarrow> int" where
  "floor_log2 x =
     (let (n, d) = quotient_of x; k = int (bit_length (nat n)) - int (bit_length (nat d))
      in if pow_two k \<le> x then k else k - 1)"

definition round_half_even :: "rat \<Rightarrow> int" where
  "round_half_even x =
     (let f = floor x; r = x - of_int f
      in if r < 1 / 2 \<or> (r = 1 / 2 \<and> even f) then f else f + 1)"

definition f64_round :: "rat \<Rightarrow> f64" where
  "f64_round x =
     (if x = 0 then Fin 0
      else let e = max (floor_log2 \<bar>x\<bar> - 52) (- 1074);
               y = of_int (round_half_even (x / pow_two e)) * pow_two e
           in if pow_two 1024 \<le> \<bar>y\<bar> then (if x < 0 then NegInf else PosInf) else Fin y)"

fun f64_add :: "f64 \<Rightarrow> f64 \<Rightarrow> f64" where
  "f64_add (Fin x) (Fin y) = f64_round (x + y)"
| "f64_add NaN y = NaN"
| "f64_add x NaN = NaN"
| "f64_add PosInf NegInf = NaN"
| "f64_add NegInf PosInf = NaN"
| "f64_add PosInf y = PosInf"
| "f64_add NegInf y = NegInf"
| "f64_add x PosInf = PosInf"
| "f64_add x NegInf = NegInf"

text \<open>Division by a count, itself converted to \<open>f64\<close>.\<close>

fun f64_div_count :: "f64 \<Rightarrow> nat \<Rightarrow> f64" where
  "f64_div_count (Fin x) n = f64_round (x / of_nat (round_f64 n))"
| "f64_div_count x n = x"

fun f64_clamp :: "rat \<Rightarrow> rat \<Rightarrow> f64 \<Rightarrow> f64" where
  "f64_clamp lo hi NaN = NaN"
| "f64_clamp lo hi NegInf = Fin lo"
| "f64_clamp lo hi PosInf = Fin hi"
| "f64_clamp lo hi (Fin x) = Fin (if x < lo then lo else if hi < x then hi else x)"

lemma f64_clamp_range: "lo \<le> hi \<Longrightarrow> f64_clamp lo hi x = NaN \<or> (\<exists>r. f64_clamp lo hi x = Fin r \<and> lo \<le> r \<and> r \<le> hi)"
  by (cases x) auto

section \<open>Small integers are exact\<close>

lemma pow_two_nonneg [simp]: "0 \<le> k \<Longrightarrow> pow_two k = 2 ^ nat k"
  by (simp add: pow_two_def)

lemma round_half_even_int [simp]: "round_half_even (of_int n) = n"
  by (simp add: round_half_even_def)

lemma floor_log2_of_nat:
  assumes "0 < n"
  shows "floor_log2 (of_nat n) \<le> int (bit_length n) - 1"
proof -
  have one: "bit_length (Suc 0) = 1" by (simp add: bit_length.simps)
  have q: "quotient_of (of_nat n) = (int n, 1)" 
    using quotient_of_int [of "int n"] by (simp add: Rat.of_int_def)
  have pos: "0 < bit_length n" using assms by (subst bit_length.simps) simp
  show ?thesis using pos by (auto simp: floor_log2_def q one Let_def)
qed

lemma f64_round_nat: "n < 2 ^ 53 \<Longrightarrow> f64_round (of_nat n) = Fin (of_nat n)"
proof (cases "n = 0")
  case True
  then show ?thesis by (simp add: f64_round_def)
next
  case False
  assume small: "n < 2 ^ 53"
  with bit_length_bounds [of n] False have "(2 :: nat) ^ (bit_length n - 1) < 2 ^ 53" by linarith
  then have "bit_length n - 1 < 53"
    by (rule power_less_imp_less_exp [of "2 :: nat", rotated]) simp
  with floor_log2_of_nat [of n] False have log: "floor_log2 (of_nat n) \<le> 52" by linarith
  define e where "e = max (floor_log2 (of_nat n) - 52) (- 1074)"
  have e: "e \<le> 0" using log by (simp add: e_def)
  then have p: "pow_two e = 1 / 2 ^ nat (- e)" by (cases "e = 0") (simp_all add: pow_two_def)
  then have scaled: "(of_nat n :: rat) / pow_two e = of_int (int n * 2 ^ nat (- e))" by simp
  have y: "of_int (round_half_even (of_nat n / pow_two e)) * pow_two e = of_nat n"
    unfolding scaled round_half_even_int by (simp add: p)
  have "(of_nat n :: rat) < of_nat (2 ^ 53)" using small by (simp only: of_nat_less_iff)
  also have "(of_nat (2 ^ 53) :: rat) \<le> pow_two 1024" by simp
  finally have "\<not> pow_two 1024 \<le> (of_nat n :: rat)" by (simp only: not_le)
  with y False show ?thesis
    by (simp add: f64_round_def e_def [symmetric] Let_def del: pow_two_nonneg)
qed

lemma f64_add_nat: "m + n < 2 ^ 53 \<Longrightarrow> f64_add (Fin (of_nat m)) (Fin (of_nat n)) = Fin (of_nat (m + n))"
  using f64_round_nat [of "m + n"] by simp

end
