(* ===== verification/Metrics_Aggregate.thy ===== *)
theory Metrics_Aggregate
  imports Process_Graph Ieee_Arith
begin

text \<open>
  \<^verbatim>\<open>crates/notch-metrics/src/aggregate.rs\<close>: the metrics of each session's own processes, their quality,
  and the aggregate over all sessions.
\<close>

section \<open>Per-session metrics\<close>

record tree_metrics =
  tm_cpu_core_percent :: f64
  tm_rss_bytes :: nat
  tm_runtime_ms :: nat
  tm_process_count :: nat
  tm_read_bytes_per_sec :: nat
  tm_write_bytes_per_sec :: nat
  tm_quality :: metric_quality

definition bytes_per_sec :: "nat \<Rightarrow> nat \<Rightarrow> nat" where
  "bytes_per_sec delta elapsed_ms =
     (if elapsed_ms = 0 then 0 else wrap_u64 (delta * 1000 div elapsed_ms))"

definition cpu_host_percent :: "f64 \<Rightarrow> nat \<Rightarrow> f64" where
  "cpu_host_percent cpu_core_percent logical_cores =
     f64_clamp 0 100 (f64_div_count cpu_core_percent (max logical_cores 1))"

definition truncate_reason :: "string \<Rightarrow> string" where
  "truncate_reason reason =
     (if length reason \<le> MAX_METRIC_REASON_LEN then reason
      else take_chars MAX_METRIC_REASON_LEN reason)"

definition quality_attribution ::
  "registered_session \<Rightarrow> root_status \<Rightarrow> bool \<Rightarrow> bool \<Rightarrow> attribution_quality \<times> string option" where
  "quality_attribution session status overlap parent_gaps =
     (case status of
        RootValid \<Rightarrow>
          if overlap \<or> rg_attribution session = Shared then
            (Shared, if overlap
               then Some (truncate_reason ''process tree overlaps a nearer registered ancestor'')
               else None)
          else if parent_gaps \<or> rg_attribution session = Heuristic then
            (Heuristic, if parent_gaps
               then Some (truncate_reason ''parent chain has protected or missed processes'')
               else None)
          else (rg_attribution session, None)
      | RootMissing \<Rightarrow>
          (UnknownAttribution, Some (truncate_reason ''registered root process is not visible''))
      | RootPidReused \<Rightarrow>
          (UnknownAttribution, Some (truncate_reason
             ''pid was reused; start time no longer matches registration'')))"

definition build_quality ::
  "registered_session \<Rightarrow> root_status \<Rightarrow> bool \<Rightarrow> bool \<Rightarrow> counter_readiness \<Rightarrow> counter_readiness \<Rightarrow>
   io_quality \<Rightarrow> bool \<Rightarrow> metric_quality" where
  "build_quality session status overlap parent_gaps cpu_ready io_ready io_quality partial_io =
     (let (attribution, reason) = quality_attribution session status overlap parent_gaps in
      \<lparr>q_attribution = attribution,
       q_cpu = (if status \<noteq> RootValid then Unavailable
                else if cpu_ready = CounterWarmingUp then WarmingUp else Available),
       q_io = (if status \<noteq> RootValid then IoUnavailable
               else if io_ready = CounterWarmingUp then io_quality
               else if partial_io then IoPartial else io_quality),
       q_reason = reason\<rparr>)"

record tree_sums =
  sm_cpu :: f64
  sm_rss :: nat
  sm_read :: nat
  sm_write :: nat
  sm_io_seen :: nat
  sm_io_available :: nat

definition add_process :: "processes \<Rightarrow> nat \<Rightarrow> tree_sums \<Rightarrow> tree_sums" where
  "add_process processes p totals =
     (case map_of processes p of
        None \<Rightarrow> totals
      | Some node \<Rightarrow>
          \<lparr>sm_cpu = f64_add (sm_cpu totals) (pn_cpu_usage_percent node),
           sm_rss = wrap_u64 (sm_rss totals + pn_rss_bytes node),
           sm_read = wrap_u64 (sm_read totals + pn_read_bytes_delta node),
           sm_write = wrap_u64 (sm_write totals + pn_write_bytes_delta node),
           sm_io_seen = wrap_u32 (sm_io_seen totals + 1),
           sm_io_available =
             (if pn_io_available node then wrap_u32 (sm_io_available totals + 1)
              else sm_io_available totals)\<rparr>)"

definition owned_pids :: "(nat, nat) btree_map \<Rightarrow> nat \<Rightarrow> nat list" where
  "owned_pids owners session_idx = map fst (filter (\<lambda>(p, owner). owner = session_idx) owners)"

definition no_sums :: tree_sums where
  "no_sums = \<lparr>sm_cpu = Fin 0, sm_rss = 0, sm_read = 0, sm_write = 0, sm_io_seen = 0, sm_io_available = 0\<rparr>"

record counter_state =
  cs_cpu_ready :: counter_readiness
  cs_io_ready :: counter_readiness
  cs_io_quality :: io_quality

definition session_tree ::
  "processes \<Rightarrow> (nat, nat list) btree_map \<Rightarrow> (nat, nat) btree_map \<Rightarrow> nat \<Rightarrow> int \<Rightarrow>
   counter_state \<Rightarrow> nat \<Rightarrow> registered_session \<Rightarrow> tree_metrics" where
  "session_tree processes children owners elapsed_ms at_ms counters session_idx session =
     (let status = verify_root (rg_root session) processes;
          root_pid = pid (rg_root session);
          owned = owned_pids owners session_idx;
          overlap = (status = RootValid \<and>
            tree_has_overlap session_idx root_pid owners processes children);
          parent_gaps = (status = RootValid \<and>
            tree_has_parent_gaps root_pid (set owned) processes);
          totals = (if status = RootValid then fold (add_process processes) owned no_sums else no_sums);
          partial_io = (sm_io_seen totals > 0 \<and> sm_io_available totals < sm_io_seen totals);
          runtime_ms = (case map_of processes root_pid of
              None \<Rightarrow> 0
            | Some node \<Rightarrow> nat (max (wrap_i64 (at_ms - pn_started_at_ms node)) 0));
          quality = build_quality session status overlap parent_gaps (cs_cpu_ready counters)
            (cs_io_ready counters) (cs_io_quality counters) partial_io
      in \<lparr>tm_cpu_core_percent = (if q_cpu quality = Unavailable then Fin 0 else sm_cpu totals),
          tm_rss_bytes = (if q_cpu quality = Unavailable then 0 else sm_rss totals),
          tm_runtime_ms = runtime_ms,
          tm_process_count = wrap_u32 (length owned),
          tm_read_bytes_per_sec =
            (if q_io quality = IoUnavailable then 0 else bytes_per_sec (sm_read totals) elapsed_ms),
          tm_write_bytes_per_sec =
            (if q_io quality = IoUnavailable then 0 else bytes_per_sec (sm_write totals) elapsed_ms),
          tm_quality = quality\<rparr>)"

definition compute_session_metrics ::
  "registered_session list \<Rightarrow> processes \<Rightarrow> nat \<Rightarrow> int \<Rightarrow> counter_state \<Rightarrow>
   (string, tree_metrics) btree_map \<times> (nat, nat) btree_map" where
  "compute_session_metrics sessions processes elapsed_ms at_ms counters =
     (let children = children_index processes;
          owners = assign_process_owners sessions processes
      in (fold (\<lambda>(idx, session). bt_insert (rg_session_id session)
              (session_tree processes children owners elapsed_ms at_ms counters idx session))
            (enumerate 0 sessions) [],
          owners))"

definition tree_to_sample :: "int \<Rightarrow> tree_metrics \<Rightarrow> nat \<Rightarrow> metric_sample" where
  "tree_to_sample at_ms tree logical_cores =
     \<lparr>ms_at_ms = at_ms,
      ms_cpu_core_percent = tm_cpu_core_percent tree,
      ms_cpu_host_percent = cpu_host_percent (tm_cpu_core_percent tree) logical_cores,
      ms_rss_bytes = tm_rss_bytes tree,
      ms_runtime_ms = tm_runtime_ms tree,
      ms_process_count = tm_process_count tree,
      ms_read_bytes_per_sec = tm_read_bytes_per_sec tree,
      ms_write_bytes_per_sec = tm_write_bytes_per_sec tree,
      ms_quality = tm_quality tree\<rparr>"

section \<open>The aggregate\<close>

definition worsen_attribution :: "attribution_quality \<Rightarrow> attribution_quality \<Rightarrow> attribution_quality" where
  "worsen_attribution a b =
     (if a = UnknownAttribution \<or> b = UnknownAttribution then UnknownAttribution
      else if a = Heuristic \<or> b = Heuristic then Heuristic
      else if a = Shared \<or> b = Shared then Shared
      else Exact)"

definition worsen_cpu :: "metric_availability \<Rightarrow> metric_availability \<Rightarrow> metric_availability" where
  "worsen_cpu a b =
     (if a = Unavailable \<or> b = Unavailable then Unavailable
      else if a = WarmingUp \<or> b = WarmingUp then WarmingUp
      else Available)"

definition worsen_io :: "io_quality \<Rightarrow> io_quality \<Rightarrow> io_quality" where
  "worsen_io a b =
     (if a = IoUnavailable \<or> b = IoUnavailable then IoUnavailable
      else if a = IoPartial \<or> b = IoPartial then IoPartial
      else if a = IoDisk \<and> b = IoAllIo \<or> a = IoAllIo \<and> b = IoDisk then IoPartial
      else a)"

record aggregate_sums =
  as_cpu :: f64
  as_rss :: nat
  as_runtime :: nat
  as_processes :: nat
  as_read :: nat
  as_write :: nat
  as_attribution :: attribution_quality
  as_cpu_quality :: metric_availability
  as_io_quality :: io_quality
  as_reasons :: "string list"
  as_contributed :: nat

definition add_tree :: "tree_metrics \<Rightarrow> aggregate_sums \<Rightarrow> aggregate_sums" where
  "add_tree tree a =
     (if q_cpu (tm_quality tree) = Unavailable then a
      else
        \<lparr>as_cpu = f64_add (as_cpu a) (tm_cpu_core_percent tree),
         as_rss = wrap_u64 (as_rss a + tm_rss_bytes tree),
         as_runtime = max (as_runtime a) (tm_runtime_ms tree),
         as_processes = wrap_u32 (as_processes a + tm_process_count tree),
         as_read = wrap_u64 (as_read a + tm_read_bytes_per_sec tree),
         as_write = wrap_u64 (as_write a + tm_write_bytes_per_sec tree),
         as_attribution = worsen_attribution (as_attribution a) (q_attribution (tm_quality tree)),
         as_cpu_quality = worsen_cpu (as_cpu_quality a) (q_cpu (tm_quality tree)),
         as_io_quality = worsen_io (as_io_quality a) (q_io (tm_quality tree)),
         as_reasons = as_reasons a @ (case q_reason (tm_quality tree) of None \<Rightarrow> [] | Some r \<Rightarrow> [r]),
         as_contributed = wrap_u32 (as_contributed a + 1)\<rparr>)"

fun join_reasons :: "string list \<Rightarrow> string" where
  "join_reasons [] = []"
| "join_reasons [r] = r"
| "join_reasons (r # rs) = r @ ''; '' @ join_reasons rs"

definition aggregate_start :: "io_quality \<Rightarrow> aggregate_sums" where
  "aggregate_start io =
     \<lparr>as_cpu = Fin 0, as_rss = 0, as_runtime = 0, as_processes = 0, as_read = 0, as_write = 0,
      as_attribution = Exact, as_cpu_quality = Available, as_io_quality = io,
      as_reasons = [], as_contributed = 0\<rparr>"

definition compute_aggregate ::
  "(string, tree_metrics) btree_map \<Rightarrow> int \<Rightarrow> nat \<Rightarrow> nat \<Rightarrow> nat \<Rightarrow> io_quality \<Rightarrow> agent_aggregate" where
  "compute_aggregate session_metrics at_ms logical_cores active_sessions attention_sessions io_quality =
     (let a = fold add_tree (map snd session_metrics) (aggregate_start io_quality);
          nothing = (session_metrics = [] \<or> as_contributed a = 0)
      in \<lparr>ag_at_ms = at_ms,
          ag_cpu_core_percent = as_cpu a,
          ag_cpu_host_percent = cpu_host_percent (as_cpu a) logical_cores,
          ag_rss_bytes = as_rss a,
          ag_runtime_ms = as_runtime a,
          ag_process_count = as_processes a,
          ag_read_bytes_per_sec = as_read a,
          ag_write_bytes_per_sec = as_write a,
          ag_quality =
            \<lparr>q_attribution = (if nothing then UnknownAttribution else as_attribution a),
             q_cpu = (if nothing then Unavailable else as_cpu_quality a),
             q_io = (if nothing then IoUnavailable else as_io_quality a),
             q_reason = (if as_reasons a = [] then None
                         else Some (truncate_reason (join_reasons (as_reasons a))))\<rparr>,
          ag_active_sessions = active_sessions,
          ag_attention_sessions = attention_sessions\<rparr>)"

section \<open>Sums without double counting\<close>

lemma wrap_u64_add: "wrap_u64 (wrap_u64 a + b) = wrap_u64 (a + b)"
  and wrap_u64_add_right: "wrap_u64 (a + wrap_u64 b) = wrap_u64 (a + b)"
  by (simp_all add: wrap_u64_def mod_add_left_eq mod_add_right_eq)

lemma wrap_u32_add: "wrap_u32 (wrap_u32 a + b) = wrap_u32 (a + b)"
  and wrap_u32_add_right: "wrap_u32 (a + wrap_u32 b) = wrap_u32 (a + b)"
  by (simp_all add: wrap_u32_def mod_add_left_eq mod_add_right_eq)

lemma wrap_u32_id: "n < 2 ^ 32 \<Longrightarrow> wrap_u32 n = n"
  by (simp add: wrap_u32_def)

lemmas wrap_adds = wrap_u64_add wrap_u64_add_right wrap_u32_add wrap_u32_add_right

definition rss_of :: "processes \<Rightarrow> nat \<Rightarrow> nat" where
  "rss_of ps p = (case map_of ps p of None \<Rightarrow> 0 | Some node \<Rightarrow> pn_rss_bytes node)"

definition contributes :: "tree_metrics \<Rightarrow> bool" where
  "contributes tree \<longleftrightarrow> q_cpu (tm_quality tree) \<noteq> Unavailable"

lemma sm_rss_fold:
  "wrap_u64 (sm_rss (fold (add_process ps) pl a)) = wrap_u64 (sm_rss a + sum_list (map (rss_of ps) pl))"
proof (induction pl arbitrary: a)
  case (Cons p pl)
  then show ?case
    by (auto simp: add_process_def rss_of_def wrap_adds add.assoc split: option.splits)
qed simp

lemma sm_rss_small: "sm_rss a < 2 ^ 64 \<Longrightarrow> sm_rss (fold (add_process ps) pl a) < 2 ^ 64"
  by (induction pl arbitrary: a) (auto simp: add_process_def wrap_u64_def split: option.splits)

lemma as_rss_fold:
  "wrap_u64 (as_rss (fold add_tree ts a)) =
     wrap_u64 (as_rss a + sum_list (map tm_rss_bytes (filter contributes ts)))"
proof (induction ts arbitrary: a)
  case (Cons t ts)
  then show ?case by (simp add: add_tree_def contributes_def wrap_adds add.assoc)
qed simp

lemma as_rss_small: "as_rss a < 2 ^ 64 \<Longrightarrow> as_rss (fold add_tree ts a) < 2 ^ 64"
  by (induction ts arbitrary: a) (auto simp: add_tree_def wrap_u64_def)

lemma as_processes_fold:
  "wrap_u32 (as_processes (fold add_tree ts a)) =
     wrap_u32 (as_processes a + sum_list (map tm_process_count (filter contributes ts)))"
proof (induction ts arbitrary: a)
  case (Cons t ts)
  then show ?case by (simp add: add_tree_def contributes_def wrap_adds add.assoc)
qed simp

lemma as_processes_small: "as_processes a < 2 ^ 32 \<Longrightarrow> as_processes (fold add_tree ts a) < 2 ^ 32"
  by (induction ts arbitrary: a) (auto simp: add_tree_def wrap_u32_def)

lemma mset_bt_insert: "k \<notin> fst ` set m \<Longrightarrow> mset (bt_insert k v m) = add_mset (k, v) (mset m)"
  by (induction k v m rule: bt_insert.induct) auto

lemma mset_fold_bt_insert:
  assumes "distinct (map key xs)" and "fst ` set m \<inter> key ` set xs = {}"
  shows "mset (fold (\<lambda>x. bt_insert (key x) (val x)) xs m) = mset m + mset (map (\<lambda>x. (key x, val x)) xs)"
  using assms
proof (induction xs arbitrary: m)
  case (Cons x xs)
  then have "key x \<notin> fst ` set m" by auto
  moreover have "fst ` set (bt_insert (key x) (val x) m) \<inter> key ` set xs = {}"
    using Cons.prems by (auto simp: keys_bt_insert simp del: image_iff)
  ultimately show ?case using Cons by (simp add: mset_bt_insert)
qed simp

lemma session_metrics_trees:
  assumes "distinct (map rg_session_id sessions)"
  shows "mset (map snd (fst (compute_session_metrics sessions ps el at_ms counters))) =
    mset (map (\<lambda>(i, s). session_tree ps (children_index ps) (assign_process_owners sessions ps) el at_ms counters i s)
      (enumerate 0 sessions))"
proof -
  let ?tree = "\<lambda>(i, s). session_tree ps (children_index ps) (assign_process_owners sessions ps) el at_ms counters i s"
  have "map (\<lambda>(i, s). rg_session_id s) (enumerate 0 sessions) = map rg_session_id sessions"
    by (metis (no_types, lifting) case_prod_beta' enumerate_map_upt list.map_comp map_snd_enumerate comp_apply map_eq_conv)
  then have "distinct (map (\<lambda>(i, s). rg_session_id s) (enumerate 0 sessions))" using assms by simp
  from mset_fold_bt_insert [OF this, of "[]" ?tree]
  have "mset (fst (compute_session_metrics sessions ps el at_ms counters)) =
      mset (map (\<lambda>x. ((\<lambda>(i, s). rg_session_id s) x, ?tree x)) (enumerate 0 sessions))"
    by (simp add: compute_session_metrics_def Let_def case_prod_beta')
  from arg_cong [OF this, of "image_mset snd"] show ?thesis
    by (simp add: image_mset.compositionality comp_def)
qed

lemma owner_valid:
  assumes "(p, i) \<in> set (assign_process_owners sessions ps)" and "bt_wf ps"
  shows "i < length sessions \<and> verify_root (rg_root (sessions ! i)) ps = RootValid \<and> map_of ps p \<noteq> None"
proof -
  have "map_of (assign_process_owners sessions ps) p = Some i"
    using assms by (simp add: map_of_iff_mem bt_wf_owners)
  then show ?thesis unfolding owners_iff first_root_def roots_at_def by blast
qed

lemma owned_of_invalid:
  assumes "bt_wf ps" and "verify_root (rg_root (sessions ! i)) ps \<noteq> RootValid"
  shows "owned_pids (assign_process_owners sessions ps) i = []"
  using owner_valid [OF _ assms(1), of _ i sessions] assms(2)
  by (auto simp: owned_pids_def filter_empty_conv)

lemma session_tree_contributes:
  "contributes (session_tree ps ch owners el at_ms counters i s) \<longleftrightarrow> verify_root (rg_root s) ps = RootValid"
  by (auto simp: contributes_def session_tree_def build_quality_def Let_def split: prod.splits)

lemma session_tree_rss:
  assumes "verify_root (rg_root s) ps = RootValid"
  shows "tm_rss_bytes (session_tree ps ch owners el at_ms counters i s) =
    wrap_u64 (sum_list (map (rss_of ps) (owned_pids owners i)))"
proof -
  have "sm_rss (fold (add_process ps) pl no_sums) = wrap_u64 (sum_list (map (rss_of ps) pl))" for pl
    using sm_rss_fold [of ps pl no_sums] sm_rss_small [of no_sums ps pl] by (simp add: no_sums_def)
  then show ?thesis
    using assms by (auto simp: session_tree_def build_quality_def Let_def split: prod.splits)
qed

lemma session_tree_count:
  "tm_process_count (session_tree ps ch owners el at_ms counters i s) = wrap_u32 (length (owned_pids owners i))"
  by (simp add: session_tree_def Let_def)

lemma sum_partition:
  fixes g :: "'a \<Rightarrow> nat"
  assumes "\<And>x. x \<in> set xs \<Longrightarrow> h x < n"
  shows "(\<Sum>i\<leftarrow>[0..<n]. sum_list (map g (filter (\<lambda>x. h x = i) xs))) = sum_list (map g xs)"
  using assms
proof (induction xs)
  case (Cons x xs)
  have split: "sum_list (map g (filter (\<lambda>y. h y = i) (x # xs))) =
      (if i = h x then g x else 0) + sum_list (map g (filter (\<lambda>y. h y = i) xs))" for i
    by simp
  have one: "(\<Sum>i\<leftarrow>[0..<n]. if i = h x then g x else 0) = g x"
    using Cons.prems [of x] by (simp add: interv_sum_list_conv_sum_set_nat)
  show ?case
    unfolding split sum_list_addf one using Cons by simp
qed simp

lemma sum_list_perm:
  fixes f :: "'a \<Rightarrow> nat"
  assumes "mset xs = mset ys"
  shows "sum_list (map f (filter P xs)) = sum_list (map f (filter P ys))"
proof -
  have "mset (map f (filter P xs)) = mset (map f (filter P ys))"
    using assms by (simp add: mset_filter)
  then show ?thesis by (metis sum_mset_sum_list)
qed

text \<open>
  Every contributing tree is the tree of a session; summing over the sessions is summing over the
  owners, because a session whose root is not valid owns nothing.
\<close>

lemma contributing_sum:
  fixes f :: "tree_metrics \<Rightarrow> nat" and g :: "nat \<Rightarrow> nat"
  assumes "bt_wf ps" and "distinct (map rg_session_id sessions)"
    and "\<And>i s. verify_root (rg_root s) ps = RootValid \<Longrightarrow>
      f (session_tree ps (children_index ps) (assign_process_owners sessions ps) el at_ms counters i s) =
      w (sum_list (map g (owned_pids (assign_process_owners sessions ps) i)))"
    and "\<And>a b. w (a + w b) = w (a + b)" and "w 0 = 0"
  shows "w (sum_list (map f (filter contributes
      (map snd (fst (compute_session_metrics sessions ps el at_ms counters)))))) =
    w (sum_list (map (\<lambda>(p, i). g p) (assign_process_owners sessions ps)))"
proof -
  let ?owners = "assign_process_owners sessions ps"
  let ?tree = "\<lambda>(i, s). session_tree ps (children_index ps) ?owners el at_ms counters i s"
  let ?own = "\<lambda>i. sum_list (map g (owned_pids ?owners i))"
  have "sum_list (map f (filter contributes
      (map snd (fst (compute_session_metrics sessions ps el at_ms counters))))) =
      sum_list (map f (filter contributes (map ?tree (enumerate 0 sessions))))"
    by (rule sum_list_perm [OF session_metrics_trees [OF assms(2)]])
  also have "\<dots> = (\<Sum>(i, s)\<leftarrow>enumerate 0 sessions. if verify_root (rg_root s) ps = RootValid then w (?own i) else 0)"
    unfolding filter_map map_map sum_list_map_filter'
    by (intro arg_cong [where f = sum_list] map_cong) (auto simp: session_tree_contributes assms(3))
  also have "\<dots> = (\<Sum>(i, s)\<leftarrow>enumerate 0 sessions. w (?own i))"
    using owned_of_invalid [OF assms(1)] assms(5)
    by (intro arg_cong [where f = sum_list] map_cong) (auto simp: in_set_enumerate_eq)
  also have "\<dots> = (\<Sum>i\<leftarrow>[0..<length sessions]. w (?own i))"
    using map_fst_enumerate [of 0 sessions]
    by (simp add: case_prod_beta' flip: map_map [of "\<lambda>i. w (?own i)" fst, unfolded comp_def])
  finally have sum: "sum_list (map f (filter contributes
      (map snd (fst (compute_session_metrics sessions ps el at_ms counters))))) =
      (\<Sum>i\<leftarrow>[0..<length sessions]. w (?own i))" .
  have "w (\<Sum>i\<leftarrow>js. w (h i)) = w (\<Sum>i\<leftarrow>js. h i)" for h :: "nat \<Rightarrow> nat" and js
  proof (induction js)
    case (Cons a js)
    have "w (w (h a) + (\<Sum>i\<leftarrow>js. w (h i))) = w (w (h a) + (\<Sum>i\<leftarrow>js. h i))"
      using Cons assms(4) by metis
    also have "\<dots> = w (h a + (\<Sum>i\<leftarrow>js. h i))" using assms(4) by (metis add.commute)
    finally show ?case by simp
  qed simp
  moreover have "(\<Sum>i\<leftarrow>[0..<length sessions]. ?own i) = sum_list (map (\<lambda>(p, i). g p) ?owners)"
    using sum_partition [of ?owners snd "length sessions" "\<lambda>(p, i). g p"] owner_valid [OF _ assms(1)]
    by (force simp: owned_pids_def comp_def case_prod_beta')
  ultimately show ?thesis by (simp add: sum)
qed

lemma owners_of_processes:
  fixes g :: "nat \<Rightarrow> nat"
  assumes "bt_wf ps"
  shows "sum_list (map (\<lambda>(p, i). g p) (assign_process_owners sessions ps)) =
    sum_list (map (\<lambda>(p, n). g p) (filter (\<lambda>(p, n). map_of (assign_process_owners sessions ps) p \<noteq> None) ps))"
proof -
  let ?own = "\<lambda>p. nearest_registered_owner p (valid_roots sessions ps) ps"
  have look: "map_of (assign_process_owners sessions ps) p = ?own p" if "(p, n) \<in> set ps" for p n
    using that assms by (auto simp: owners_lookup map_of_iff_mem [symmetric])
  have "sum_list (map (\<lambda>(p, i). g p) (List.map_filter (\<lambda>p. map_option (Pair p) (f p)) (map fst qs))) =
      sum_list (map (\<lambda>(p, n). g p) (filter (\<lambda>(p, n). f p \<noteq> None) qs))"
    for f :: "nat \<Rightarrow> nat option" and qs :: processes
    by (induction qs) (auto simp: map_filter_simps split: option.splits)
  then have "sum_list (map (\<lambda>(p, i). g p) (assign_process_owners sessions ps)) =
      sum_list (map (\<lambda>(p, n). g p) (filter (\<lambda>(p, n). ?own p \<noteq> None) ps))"
    by (simp add: assign_process_owners_def Let_def)
  also have "filter (\<lambda>(p, n). ?own p \<noteq> None) ps =
      filter (\<lambda>(p, n). map_of (assign_process_owners sessions ps) p \<noteq> None) ps"
    by (rule filter_cong) (auto simp: look)
  finally show ?thesis .
qed

lemma sum_list_filter_le:
  fixes g :: "'a \<Rightarrow> nat"
  shows "sum_list (map g (filter P xs)) \<le> sum_list (map g xs)"
  by (induction xs) auto

lemma aggregate_rss_eq:
  assumes "bt_wf ps" and "distinct (map rg_session_id sessions)"
    and "sum_list (map (\<lambda>(p, n). pn_rss_bytes n) ps) < 2 ^ 64"
  shows "ag_rss_bytes (compute_aggregate (fst (compute_session_metrics sessions ps el at_ms counters))
      t cores act att io) =
    sum_list (map (\<lambda>(p, n). pn_rss_bytes n)
      (filter (\<lambda>(p, n). map_of (assign_process_owners sessions ps) p \<noteq> None) ps))"
proof -
  let ?m = "fst (compute_session_metrics sessions ps el at_ms counters)"
  let ?owned = "filter (\<lambda>(p, n). map_of (assign_process_owners sessions ps) p \<noteq> None) ps"
  have rss: "sum_list (map (\<lambda>(p, n). rss_of ps p) ?owned) = sum_list (map (\<lambda>(p, n). pn_rss_bytes n) ?owned)"
    using assms(1) by (intro arg_cong [where f = sum_list] map_cong)
      (auto simp: rss_of_def map_of_iff_mem [symmetric])
  have "ag_rss_bytes (compute_aggregate ?m t cores act att io) =
      wrap_u64 (as_rss (fold add_tree (map snd ?m) (aggregate_start io)))"
    using as_rss_small [of "aggregate_start io" "map snd ?m"]
    by (simp add: compute_aggregate_def Let_def aggregate_start_def)
  also have "\<dots> = wrap_u64 (sum_list (map tm_rss_bytes (filter contributes (map snd ?m))))"
    by (simp add: as_rss_fold aggregate_start_def)
  also have "\<dots> = wrap_u64 (sum_list (map (\<lambda>(p, i). rss_of ps p) (assign_process_owners sessions ps)))"
    by (rule contributing_sum [OF assms(1,2)]) (simp_all add: session_tree_rss wrap_adds)
  also have "\<dots> = wrap_u64 (sum_list (map (\<lambda>(p, n). pn_rss_bytes n) ?owned))"
    by (simp only: owners_of_processes [OF assms(1)] rss)
  also have "\<dots> = sum_list (map (\<lambda>(p, n). pn_rss_bytes n) ?owned)"
    using sum_list_filter_le [of "\<lambda>(p, n). pn_rss_bytes n" "\<lambda>(p, n). map_of (assign_process_owners sessions ps) p \<noteq> None" ps] assms(3)
    by simp
  finally show ?thesis .
qed

lemma aggregate_count_eq:
  assumes "bt_wf ps" and "distinct (map rg_session_id sessions)" and "length ps < 2 ^ 32"
  shows "ag_process_count (compute_aggregate (fst (compute_session_metrics sessions ps el at_ms counters))
      t cores act att io) =
    length (filter (\<lambda>(p, n). map_of (assign_process_owners sessions ps) p \<noteq> None) ps)"
proof -
  let ?m = "fst (compute_session_metrics sessions ps el at_ms counters)"
  let ?owned = "filter (\<lambda>(p, n). map_of (assign_process_owners sessions ps) p \<noteq> None) ps"
  have ones: "sum_list (map (\<lambda>x. Suc 0) xs) = length xs" for xs :: "'x list"
    by (simp add: sum_list_triv)
  have "ag_process_count (compute_aggregate ?m t cores act att io) =
      wrap_u32 (as_processes (fold add_tree (map snd ?m) (aggregate_start io)))"
    using as_processes_small [of "aggregate_start io" "map snd ?m"]
    by (simp add: compute_aggregate_def Let_def aggregate_start_def wrap_u32_def)
  also have "\<dots> = wrap_u32 (sum_list (map tm_process_count (filter contributes (map snd ?m))))"
    by (simp add: as_processes_fold aggregate_start_def)
  also have "\<dots> = wrap_u32 (sum_list (map (\<lambda>(p, i). 1) (assign_process_owners sessions ps)))"
    by (rule contributing_sum [OF assms(1,2)]) (simp_all add: session_tree_count wrap_adds ones wrap_u32_id)
  also have "\<dots> = wrap_u32 (length ?owned)"
    using owners_of_processes [OF assms(1), of "\<lambda>_. 1"] by (simp add: case_prod_beta' ones)
  also have "\<dots> = length ?owned"
    by (rule wrap_u32_id) (rule le_less_trans [OF length_filter_le assms(3)])
  finally show ?thesis .
qed

section \<open>Quality\<close>

fun attribution_rank :: "attribution_quality \<Rightarrow> nat" where
  "attribution_rank Exact = 0"
| "attribution_rank Shared = 1"
| "attribution_rank Heuristic = 2"
| "attribution_rank UnknownAttribution = 3"

lemma rank_worsen: "attribution_rank (worsen_attribution a b) = max (attribution_rank a) (attribution_rank b)"
  by (cases a; cases b) (simp_all add: worsen_attribution_def)

lemma fold_attribution:
  "attribution_rank (as_attribution (fold add_tree ts a)) =
     fold max (map (\<lambda>t. attribution_rank (q_attribution (tm_quality t))) (filter contributes ts))
       (attribution_rank (as_attribution a))"
  by (induction ts arbitrary: a) (simp_all add: add_tree_def contributes_def rank_worsen max.commute)

lemma fold_cpu_quality:
  "as_cpu_quality a \<noteq> Unavailable \<Longrightarrow>
   as_cpu_quality (fold add_tree ts a) =
     (if as_cpu_quality a = WarmingUp \<or> (\<exists>t\<in>set ts. q_cpu (tm_quality t) = WarmingUp)
      then WarmingUp else Available)"
proof (induction ts arbitrary: a)
  case Nil
  then show ?case by (cases "as_cpu_quality a") auto
next
  case (Cons t ts)
  have "as_cpu_quality (add_tree t a) \<noteq> Unavailable"
    using Cons.prems by (simp add: add_tree_def worsen_cpu_def)
  from Cons.IH [OF this] Cons.prems show ?case
    by (cases "q_cpu (tm_quality t)") (auto simp: add_tree_def worsen_cpu_def)
qed

lemma as_contributed_fold:
  "as_contributed (fold add_tree ts a) = wrap_u32 (as_contributed a + length (filter contributes ts))"
  if "as_contributed a < 2 ^ 32"
  using that
proof (induction ts arbitrary: a)
  case (Cons t ts)
  have step: "as_contributed (add_tree t a) =
      (if contributes t then wrap_u32 (as_contributed a + 1) else as_contributed a)"
    by (simp add: add_tree_def contributes_def)
  have "as_contributed (add_tree t a) < 2 ^ 32"
    unfolding step using Cons.prems wrap_u32_less [of "as_contributed a + 1"] by (simp split: if_splits)
  from Cons.IH [OF this] show ?case by (simp add: step wrap_adds)
qed (simp add: wrap_u32_id)

section \<open>Properties\<close>

definition sample_counters :: counter_state where
  "sample_counters = \<lparr>cs_cpu_ready = CounterReady, cs_io_ready = CounterReady, cs_io_quality = IoDisk\<rparr>"

definition sample_metrics :: "attribution_quality \<Rightarrow> metric_availability \<Rightarrow> tree_metrics" where
  "sample_metrics attribution cpu =
     \<lparr>tm_cpu_core_percent = Fin 1, tm_rss_bytes = 10, tm_runtime_ms = 5, tm_process_count = 1,
      tm_read_bytes_per_sec = 0, tm_write_bytes_per_sec = 0,
      tm_quality = \<lparr>q_attribution = attribution, q_cpu = cpu, q_io = IoDisk, q_reason = None\<rparr>\<rparr>"

text \<open>
  (C33) Deduplication: the aggregate memory and process count are those of the processes that
  belong to some session, each counted once, however the trees of the sessions overlap.
\<close>

theorem aggregate_counts_each_process_once:
  assumes "snapshot_ok ps" and "distinct (map rg_session_id sessions)"
    and "sum_list (map (\<lambda>(p, n). pn_rss_bytes n) ps) < 2 ^ 64" and "length ps < 2 ^ 32"
  shows "let owned = filter (\<lambda>(p, n). map_of (assign_process_owners sessions ps) p \<noteq> None) ps;
      aggregate = compute_aggregate (fst (compute_session_metrics sessions ps el at_ms counters))
        t cores act att io
    in ag_rss_bytes aggregate = sum_list (map (\<lambda>(p, n). pn_rss_bytes n) owned) \<and>
       ag_process_count aggregate = length owned"
proof -
  have wf: "bt_wf ps" using assms(1) by (simp add: snapshot_ok_def)
  show ?thesis
    unfolding Let_def
    using aggregate_rss_eq [OF wf assms(2,3)] aggregate_count_eq [OF wf assms(2,4)] by blast
qed

theorem aggregate_counts_each_process_once_witness:
  "ag_process_count (compute_aggregate
     (fst (compute_session_metrics sample_sessions sample_tree 1000 2000 sample_counters))
     2000 4 2 0 IoDisk) \<le> 3"
proof -
  have "distinct (map rg_session_id sample_sessions)"
    by (simp add: sample_sessions_def sample_root_def)
  moreover have "sum_list (map (\<lambda>(p, n). pn_rss_bytes n) sample_tree) < 2 ^ 64" "length sample_tree < 2 ^ 32"
    by (simp_all add: sample_tree_def sample_node_def)
  ultimately show ?thesis
    using aggregate_counts_each_process_once [OF sample_tree_ok]
      length_filter_le [of "\<lambda>(p, n). map_of (assign_process_owners sample_sessions sample_tree) p \<noteq> None" sample_tree]
    by (simp add: Let_def) (simp add: sample_tree_def)
qed

text \<open>
  The aggregate never claims more than its worst contributor: its attribution is the worst
  among the trees that contribute, its CPU value is warming up as soon as one of them is, and
  both are unknown or unavailable when none contributes.
\<close>

theorem aggregate_quality_is_worst:
  assumes "length m < 2 ^ 32"
  shows "let contributing = filter (\<lambda>t. q_cpu (tm_quality t) \<noteq> Unavailable) (map snd m);
      quality = ag_quality (compute_aggregate m t cores act att io)
    in attribution_rank (q_attribution quality) =
         (if contributing = [] then 3
          else Max (set (map (\<lambda>t. attribution_rank (q_attribution (tm_quality t))) contributing))) \<and>
       q_cpu quality =
         (if contributing = [] then Unavailable
          else if \<exists>t\<in>set contributing. q_cpu (tm_quality t) = WarmingUp then WarmingUp else Available)"
proof -
  define c where "c = filter contributes (map snd m)"
  let ?f = "fold add_tree (map snd m) (aggregate_start io)"
  have "length c < 2 ^ 32"
    unfolding c_def by (rule le_less_trans [OF length_filter_le]) (simp add: assms [simplified])
  then have n: "as_contributed ?f = length c"
    using as_contributed_fold [of "aggregate_start io" "map snd m"]
    by (simp add: aggregate_start_def wrap_u32_id c_def)
  moreover have "m = [] \<Longrightarrow> c = []" by (simp add: c_def)
  ultimately have idle: "m = [] \<or> as_contributed ?f = 0 \<longleftrightarrow> c = []" by (metis length_0_conv)
  have rank: "attribution_rank (as_attribution ?f) =
      Max (set (map (\<lambda>t. attribution_rank (q_attribution (tm_quality t))) c))" if "c \<noteq> []"
    using that fold_attribution [of "map snd m" "aggregate_start io", folded c_def]
    by (simp add: aggregate_start_def Max.set_eq_fold [symmetric] del: set_map)
  have cpu: "as_cpu_quality ?f =
      (if \<exists>t\<in>set c. q_cpu (tm_quality t) = WarmingUp then WarmingUp else Available)"
    by (subst fold_cpu_quality) (force simp: aggregate_start_def contributes_def c_def)+
  have "filter (\<lambda>t. q_cpu (tm_quality t) \<noteq> Unavailable) (map snd m) = c"
    by (simp add: contributes_def [abs_def] c_def)
  moreover have "attribution_rank (q_attribution (ag_quality (compute_aggregate m t cores act att io))) =
      (if c = [] then 3 else attribution_rank (as_attribution ?f))"
    "q_cpu (ag_quality (compute_aggregate m t cores act att io)) =
      (if c = [] then Unavailable else as_cpu_quality ?f)"
    unfolding idle [symmetric] by (simp_all add: compute_aggregate_def Let_def)
  ultimately show ?thesis
    unfolding Let_def using rank cpu by (cases "c = []") simp_all
qed

theorem aggregate_quality_is_worst_witness:
  "let quality = ag_quality (compute_aggregate
         [(''a'', sample_metrics Exact WarmingUp), (''b'', sample_metrics Heuristic Available)] 0 4 0 0 IoDisk)
   in attribution_rank (q_attribution quality) = 2 \<and> q_cpu quality = WarmingUp"
  using aggregate_quality_is_worst
    [of "[(''a'', sample_metrics Exact WarmingUp), (''b'', sample_metrics Heuristic Available)]" 0 4 0 0 IoDisk]
  by (simp add: Let_def sample_metrics_def)

text \<open>
  A root that is gone or whose pid was reused yields no numbers: its CPU, memory and I/O
  are zero, marked unavailable, and the reason says why.
\<close>

theorem invalid_root_reports_nothing:
  assumes "verify_root (rg_root s) ps \<noteq> RootValid"
  shows "let tree = session_tree ps ch owners el at_ms counters i s
    in tm_cpu_core_percent tree = Fin 0 \<and> tm_rss_bytes tree = 0 \<and>
       tm_read_bytes_per_sec tree = 0 \<and> tm_write_bytes_per_sec tree = 0 \<and>
       q_cpu (tm_quality tree) = Unavailable \<and> q_io (tm_quality tree) = IoUnavailable \<and>
       q_attribution (tm_quality tree) = UnknownAttribution \<and> q_reason (tm_quality tree) \<noteq> None"
  using assms
  by (cases "verify_root (rg_root s) ps")
    (simp_all add: session_tree_def build_quality_def quality_attribution_def Let_def)

theorem invalid_root_reports_nothing_witness:
  "q_cpu (tm_quality (session_tree [] [] [] 1000 2000 sample_counters 0 (sample_root ''a'' 1))) = Unavailable"
  using invalid_root_reports_nothing [of "sample_root ''a'' 1" "[]" "[]" "[]" 1000 2000 sample_counters 0]
  by (simp add: verify_root_def Let_def)

text \<open>
  The share of the host's CPU is a percentage: between 0 and 100 for every reading and every
  core count, a reported core count of zero included, unless the reading is not a number.
\<close>

theorem cpu_host_percent_bounded:
  "cpu_host_percent c cores = NaN \<or> (\<exists>r. cpu_host_percent c cores = Fin r \<and> 0 \<le> r \<and> r \<le> 100)"
  unfolding cpu_host_percent_def by (rule f64_clamp_range) simp

end
