(* ===== verification/Metrics_Sampler.thy ===== *)
theory Metrics_Sampler
  imports Metrics_Aggregate Notch_Interfaces
begin

text \<open>
  \<^verbatim>\<open>crates/notch-metrics/src/{history,sysinfo_adapter,sampler,lib}.rs\<close>: bounded histories, the probe
  that turns raw readings into snapshots, and the sampler that owns both. What the \<open>sysinfo\<close>
  library reads from the operating system is an argument of a refresh.
\<close>

section \<open>History\<close>

type_synonym session_history = "metric_sample list"

definition history_push :: "metric_sample \<Rightarrow> session_history \<Rightarrow> session_history" where
  "history_push sample samples =
     (if length samples \<ge> MAX_HISTORY_SAMPLES_PER_SESSION then tl samples else samples) @ [sample]"

definition history_latest :: "session_history \<Rightarrow> metric_sample option" where
  "history_latest samples = (if samples = [] then None else Some (last samples))"

interpretation history: bounded_log "\<lambda>h. h" history_push MAX_HISTORY_SAMPLES_PER_SESSION
  by unfold_locales
    (auto simp: MAX_HISTORY_SAMPLES_PER_SESSION_def history_push_def keep_last_def drop_Suc
      le_Suc_eq not_less_eq_eq)

lemma history_latest_push: "history_latest (history_push sample h) = Some sample"
  by (simp add: history_latest_def history_push_def)

section \<open>Probe\<close>

record process_reading =
  pr_parent :: "nat option"
  pr_start_time :: nat
  pr_cpu_usage :: f32
  pr_memory :: nat
  pr_total_read_bytes :: nat
  pr_total_written_bytes :: nat
  pr_read_bytes :: nat
  pr_written_bytes :: nat

record system_reading =
  sy_global_cpu_usage :: f32
  sy_used_memory :: nat
  sy_total_memory :: nat
  sy_processes :: "(nat \<times> process_reading) list"
  sy_disks :: "(nat \<times> nat) list"
  sy_duration_us :: nat

record sysinfo_probe =
  pb_logical_cores :: nat
  pb_io_quality :: io_quality
  pb_refresh_count :: nat
  pb_last_refresh_ms :: int
  pb_last_disk_read_total :: nat
  pb_last_disk_write_total :: nat

record process_snapshot =
  sn_at_ms :: int
  sn_elapsed_ms :: nat
  sn_logical_cores :: nat
  sn_host_cpu_percent :: f64
  sn_used_memory_bytes :: nat
  sn_total_memory_bytes :: nat
  sn_visible_process_count :: nat
  sn_disk_read_bytes_per_sec :: nat
  sn_disk_write_bytes_per_sec :: nat
  sn_processes :: processes
  sn_cpu_ready :: counter_readiness
  sn_io_ready :: counter_readiness
  sn_io_quality :: io_quality

definition u64_saturating_add :: "nat \<Rightarrow> nat \<Rightarrow> nat" where
  "u64_saturating_add a b = min (a + b) (2 ^ 64 - 1)"

definition disk_totals :: "(nat \<times> nat) list \<Rightarrow> nat \<times> nat" where
  "disk_totals disks =
     foldl (\<lambda>(read, write) (r, w). (wrap_u64 (read + r), wrap_u64 (write + w))) (0, 0) disks"

definition platform_io_quality :: "bool \<Rightarrow> io_quality" where
  "platform_io_quality windows = (if windows then IoAllIo else IoDisk)"

definition probe_new :: "bool \<Rightarrow> nat \<Rightarrow> (nat \<times> nat) list \<Rightarrow> sysinfo_probe" where
  "probe_new windows cpus disks =
     (let (read_total, write_total) = disk_totals disks in
      \<lparr>pb_logical_cores = max cpus 1, pb_io_quality = platform_io_quality windows,
       pb_refresh_count = 0, pb_last_refresh_ms = 0,
       pb_last_disk_read_total = read_total, pb_last_disk_write_total = write_total\<rparr>)"

definition process_node_of :: "nat \<Rightarrow> process_reading \<Rightarrow> process_node" where
  "process_node_of p reading =
     \<lparr>pn_pid = p,
      pn_parent_pid = pr_parent reading,
      pn_started_at_ms = wrap_i64 (u64_as_i64 (pr_start_time reading) * 1000),
      pn_cpu_usage_percent = pr_cpu_usage reading,
      pn_rss_bytes = pr_memory reading,
      pn_read_bytes_total = pr_total_read_bytes reading,
      pn_write_bytes_total = pr_total_written_bytes reading,
      pn_read_bytes_delta = pr_read_bytes reading,
      pn_write_bytes_delta = pr_written_bytes reading,
      pn_io_available =
        (pr_total_read_bytes reading > 0 \<or> pr_total_written_bytes reading > 0 \<or>
         pr_read_bytes reading > 0 \<or> pr_written_bytes reading > 0)\<rparr>"

definition collect_processes :: "(nat \<times> process_reading) list \<Rightarrow> processes" where
  "collect_processes readings = fold (\<lambda>(p, r). bt_insert p (process_node_of p r)) readings []"

definition probe_refresh ::
  "system_reading \<Rightarrow> int \<Rightarrow> sysinfo_probe \<Rightarrow> process_snapshot \<times> sysinfo_probe" where
  "probe_refresh reading at_ms probe =
     (let elapsed_ms =
            (if pb_last_refresh_ms probe > 0
             then nat (max (wrap_i64 (at_ms - pb_last_refresh_ms probe)) 1) else 1000);
          (disk_read_total, disk_write_total) = disk_totals (sy_disks reading);
          read_delta = disk_read_total - pb_last_disk_read_total probe;
          write_delta = disk_write_total - pb_last_disk_write_total probe;
          probe = probe\<lparr>pb_last_disk_read_total := disk_read_total,
            pb_last_disk_write_total := disk_write_total,
            pb_refresh_count := u64_saturating_add (pb_refresh_count probe) 1,
            pb_last_refresh_ms := at_ms\<rparr>;
          ready = (if pb_refresh_count probe \<ge> 2 then CounterReady else CounterWarmingUp)
      in (\<lparr>sn_at_ms = at_ms,
           sn_elapsed_ms = elapsed_ms,
           sn_logical_cores = pb_logical_cores probe,
           sn_host_cpu_percent = sy_global_cpu_usage reading,
           sn_used_memory_bytes = sy_used_memory reading,
           sn_total_memory_bytes = sy_total_memory reading,
           sn_visible_process_count = wrap_u32 (length (sy_processes reading)),
           sn_disk_read_bytes_per_sec = bytes_per_sec read_delta elapsed_ms,
           sn_disk_write_bytes_per_sec = bytes_per_sec write_delta elapsed_ms,
           sn_processes = collect_processes (sy_processes reading),
           sn_cpu_ready = ready,
           sn_io_ready = ready,
           sn_io_quality = pb_io_quality probe\<rparr>, probe))"

definition snapshot_host_sample :: "process_snapshot \<Rightarrow> host_metric_sample" where
  "snapshot_host_sample s =
     \<lparr>hs_at_ms = sn_at_ms s,
      hs_cpu_host_percent = sn_host_cpu_percent s,
      hs_used_memory_bytes = sn_used_memory_bytes s,
      hs_total_memory_bytes = sn_total_memory_bytes s,
      hs_visible_process_count = sn_visible_process_count s,
      hs_disk_read_bytes_per_sec =
        (if sn_io_ready s = CounterReady then sn_disk_read_bytes_per_sec s else 0),
      hs_disk_write_bytes_per_sec =
        (if sn_io_ready s = CounterReady then sn_disk_write_bytes_per_sec s else 0)\<rparr>"

text \<open>\<open>resolve_process_identity\<close>, over the start times of a fresh process table.\<close>

definition resolve_process_identity :: "(nat \<rightharpoonup> nat) \<Rightarrow> nat \<Rightarrow> process_identity option" where
  "resolve_process_identity start_time p =
     map_option (\<lambda>t. \<lparr>pid = p, pid_started_at_ms = wrap_i64 (u64_as_i64 t * 1000)\<rparr>) (start_time p)"

section \<open>Sampler\<close>

datatype metrics_error =
    MetricsUnavailable
  | TooManyRoots nat
  | SessionNotRegistered string
  | MetricsOther string

record metrics_sampler =
  sa_probe :: sysinfo_probe
  sa_sessions :: "registered_session list"
  sa_histories :: "(string, session_history) btree_map"
  sa_latest :: "metrics_frame option"
  sa_last_refresh_ms :: int
  sa_refresh_count :: nat
  sa_last_refresh_duration_us :: nat
  sa_active_sessions :: nat
  sa_attention_sessions :: nat

record sampler_stats =
  ss_refresh_count :: nat
  ss_last_refresh_ms :: int
  ss_last_refresh_duration_us :: nat
  ss_active_roots :: nat
  ss_registered_sessions :: nat
  ss_history_samples_total :: nat
  ss_warming_up :: bool
  ss_refresh_interval_ms :: nat

definition sampler_new :: "sysinfo_probe \<Rightarrow> metrics_sampler" where
  "sampler_new probe =
     \<lparr>sa_probe = probe, sa_sessions = [], sa_histories = [], sa_latest = None,
      sa_last_refresh_ms = 0, sa_refresh_count = 0, sa_last_refresh_duration_us = 0,
      sa_active_sessions = 0, sa_attention_sessions = 0\<rparr>"

definition unregister_session :: "string \<Rightarrow> metrics_sampler \<Rightarrow> metrics_sampler" where
  "unregister_session session_id s =
     s\<lparr>sa_sessions := filter (\<lambda>r. rg_session_id r \<noteq> session_id) (sa_sessions s),
       sa_histories := AList.delete session_id (sa_histories s),
       sa_latest := map_option
         (\<lambda>frame. frame\<lparr>mf_agents := AList.delete session_id (mf_agents frame)\<rparr>) (sa_latest s)\<rparr>"

definition register_session ::
  "string \<Rightarrow> process_identity \<Rightarrow> attribution_quality \<Rightarrow> int \<Rightarrow> (metrics_sampler, metrics_error, unit) op" where
  "register_session session_id root_id attribution registered_at_ms =
     seq (modify (\<lambda>s. if list_ex (\<lambda>r. rg_session_id r = session_id) (sa_sessions s)
                      then unregister_session session_id s else s))
      (bind (gets (\<lambda>s. length (sa_sessions s))) (\<lambda>n.
        if n \<ge> MAX_ACTIVE_ROOTS then throw (TooManyRoots MAX_ACTIVE_ROOTS)
        else modify (\<lambda>s. s
          \<lparr>sa_sessions := sa_sessions s @
             [\<lparr>rg_session_id = session_id, rg_root = root_id, rg_attribution = attribution,
               rg_registered_at_ms = registered_at_ms\<rparr>],
           sa_histories := bt_entry session_id [] (\<lambda>h. h) (sa_histories s)\<rparr>)))"

definition registered_session_ids :: "metrics_sampler \<Rightarrow> string list" where
  "registered_session_ids s = map rg_session_id (sa_sessions s)"

definition set_session_counts :: "nat \<Rightarrow> nat \<Rightarrow> metrics_sampler \<Rightarrow> metrics_sampler" where
  "set_session_counts active_sessions attention_sessions s =
     s\<lparr>sa_active_sessions := active_sessions, sa_attention_sessions := attention_sessions\<rparr>"

definition refresh_interval_ms :: "metrics_sampler \<Rightarrow> nat" where
  "refresh_interval_ms s =
     (if sa_sessions s = [] then IDLE_REFRESH_INTERVAL_MS else ACTIVE_REFRESH_INTERVAL_MS)"

definition should_refresh :: "int \<Rightarrow> metrics_sampler \<Rightarrow> bool" where
  "should_refresh at_ms s \<longleftrightarrow>
     (if sa_last_refresh_ms s = 0 then True
      else nat (max (wrap_i64 (at_ms - sa_last_refresh_ms s)) 0) \<ge> refresh_interval_ms s)"

definition record_samples ::
  "(string \<times> metric_sample) list \<Rightarrow> (string, session_history) btree_map \<Rightarrow> (string, session_history) btree_map" where
  "record_samples samples histories = fold (\<lambda>(i, sample). bt_entry i [] (history_push sample)) samples histories"

definition sampler_refresh :: "system_reading \<Rightarrow> int \<Rightarrow> metrics_sampler \<Rightarrow> metrics_frame \<times> metrics_sampler" where
  "sampler_refresh reading at_ms s =
     (let (snapshot, probe) = probe_refresh reading at_ms (sa_probe s);
          tree_metrics = fst (compute_session_metrics (sa_sessions s) (sn_processes snapshot)
            (sn_elapsed_ms snapshot) at_ms
            \<lparr>cs_cpu_ready = sn_cpu_ready snapshot, cs_io_ready = sn_io_ready snapshot,
             cs_io_quality = sn_io_quality snapshot\<rparr>);
          agents = map (\<lambda>(i, tree). (i, tree_to_sample at_ms tree (sn_logical_cores snapshot))) tree_metrics;
          frame = \<lparr>mf_host = snapshot_host_sample snapshot,
            mf_aggregate = compute_aggregate tree_metrics at_ms (sn_logical_cores snapshot)
              (sa_active_sessions s) (sa_attention_sessions s) (sn_io_quality snapshot),
            mf_agents = agents\<rparr>
      in (frame, s\<lparr>sa_probe := probe,
           sa_histories := record_samples agents (sa_histories s),
           sa_latest := Some frame,
           sa_last_refresh_ms := at_ms,
           sa_refresh_count := u64_saturating_add (sa_refresh_count s) 1,
           sa_last_refresh_duration_us := sy_duration_us reading\<rparr>))"

definition sampler_tick ::
  "system_reading \<Rightarrow> int \<Rightarrow> metrics_sampler \<Rightarrow> metrics_frame option \<times> metrics_sampler" where
  "sampler_tick reading at_ms s =
     (if should_refresh at_ms s
      then (let (frame, s') = sampler_refresh reading at_ms s in (Some frame, s'))
      else (None, s))"

definition session_history :: "string \<Rightarrow> metrics_sampler \<Rightarrow> metric_sample list" where
  "session_history session_id s = (case map_of (sa_histories s) session_id of None \<Rightarrow> [] | Some h \<Rightarrow> h)"

definition session_latest :: "string \<Rightarrow> metrics_sampler \<Rightarrow> metric_sample option" where
  "session_latest session_id s = Option.bind (map_of (sa_histories s) session_id) history_latest"

definition clear_history :: "metrics_sampler \<Rightarrow> metrics_sampler" where
  "clear_history s =
     s\<lparr>sa_histories := map (\<lambda>(i, h). (i, [])) (sa_histories s), sa_latest := None\<rparr>"

definition sampler_stats_of :: "metrics_sampler \<Rightarrow> sampler_stats" where
  "sampler_stats_of s =
     \<lparr>ss_refresh_count = sa_refresh_count s,
      ss_last_refresh_ms = sa_last_refresh_ms s,
      ss_last_refresh_duration_us = sa_last_refresh_duration_us s,
      ss_active_roots = wrap_u32 (length (sa_sessions s)),
      ss_registered_sessions = wrap_u32 (length (sa_sessions s)),
      ss_history_samples_total = sum_list (map (\<lambda>(i, h). length h) (sa_histories s)),
      ss_warming_up = (pb_refresh_count (sa_probe s) < 2),
      ss_refresh_interval_ms = refresh_interval_ms s\<rparr>"

section \<open>Snapshots\<close>

lemma snapshot_ok_iff: "snapshot_ok ps \<longleftrightarrow> bt_wf ps \<and> (\<forall>p n. map_of ps p = Some n \<longrightarrow> pn_pid n = p)"
  by (auto simp: snapshot_ok_def map_of_iff_mem)

lemma snapshot_ok_insert: "snapshot_ok m \<Longrightarrow> snapshot_ok (bt_insert p (process_node_of p r) m)"
  by (simp add: snapshot_ok_iff process_node_of_def)

lemma snapshot_ok_collect: "snapshot_ok (collect_processes readings)"
proof -
  have "snapshot_ok (fold (\<lambda>(p, r). bt_insert p (process_node_of p r)) rs m)" if "snapshot_ok m" for rs m
    using that by (induction rs arbitrary: m) (simp_all add: snapshot_ok_insert case_prod_beta')
  from this [of "[]" readings] show ?thesis by (simp add: collect_processes_def snapshot_ok_def)
qed

section \<open>Invariant\<close>

definition histories_ok :: "(string, session_history) btree_map \<Rightarrow> bool" where
  "histories_ok m \<longleftrightarrow>
     bt_wf m \<and> (\<forall>i h. map_of m i = Some h \<longrightarrow> length h \<le> MAX_HISTORY_SAMPLES_PER_SESSION)"

definition sampler_inv :: "metrics_sampler \<Rightarrow> bool" where
  "sampler_inv s \<longleftrightarrow>
     length (sa_sessions s) \<le> MAX_ACTIVE_ROOTS \<and>
     distinct (map rg_session_id (sa_sessions s)) \<and>
     histories_ok (sa_histories s) \<and>
     dom (map_of (sa_histories s)) = set (registered_session_ids s)"

lemma sampler_inv_new: "sampler_inv (sampler_new probe)"
  by (simp add: sampler_inv_def sampler_new_def histories_ok_def registered_session_ids_def)

lemma unregister_ids: "set (registered_session_ids (unregister_session i s)) = set (registered_session_ids s) - {i}"
  by (auto simp: registered_session_ids_def unregister_session_def)

lemma sampler_inv_unregister: "sampler_inv s \<Longrightarrow> sampler_inv (unregister_session i s)"
  unfolding sampler_inv_def unregister_ids
  by (auto simp: unregister_session_def histories_ok_def distinct_map_filter
      intro: le_trans [OF length_filter_le] split: if_splits)

lemma histories_ok_entry:
  "histories_ok m \<Longrightarrow> length (f []) \<le> MAX_HISTORY_SAMPLES_PER_SESSION \<Longrightarrow>
   (\<And>h. length h \<le> MAX_HISTORY_SAMPLES_PER_SESSION \<Longrightarrow> length (f h) \<le> MAX_HISTORY_SAMPLES_PER_SESSION) \<Longrightarrow>
   histories_ok (bt_entry k [] f m)"
  by (auto simp: histories_ok_def split: option.splits)

lemma dom_bt_entry: "bt_wf m \<Longrightarrow> dom (map_of (bt_entry k d f m)) = insert k (dom (map_of m))"
  by simp

lemma register_session_run:
  "register_session i root_id attribution t s =
     (let s' = (if i \<in> set (registered_session_ids s) then unregister_session i s else s)
      in if length (sa_sessions s') \<ge> MAX_ACTIVE_ROOTS then (Err (TooManyRoots MAX_ACTIVE_ROOTS), s')
         else (Ok (), s'
           \<lparr>sa_sessions := sa_sessions s' @
              [\<lparr>rg_session_id = i, rg_root = root_id, rg_attribution = attribution, rg_registered_at_ms = t\<rparr>],
            sa_histories := bt_entry i [] (\<lambda>h. h) (sa_histories s')\<rparr>))"
  by (auto simp: register_session_def seq_def bind_def modify_def gets_def throw_def Let_def
      registered_session_ids_def list_ex_iff)

lemma sampler_inv_register: "sampler_inv s \<Longrightarrow> sampler_inv (snd (register_session i root_id attribution t s))"
proof -
  assume inv: "sampler_inv s"
  define s' where "s' = (if i \<in> set (registered_session_ids s) then unregister_session i s else s)"
  have s': "sampler_inv s'" "i \<notin> set (registered_session_ids s')"
    using inv unregister_ids [of i s] by (auto simp: s'_def sampler_inv_unregister)
  have "histories_ok (bt_entry i [] (\<lambda>h. h) (sa_histories s'))"
    using s'(1) by (intro histories_ok_entry) (auto simp: sampler_inv_def)
  with s' show ?thesis
    unfolding register_session_run s'_def [symmetric]
    by (simp add: Let_def sampler_inv_def registered_session_ids_def histories_ok_def)
qed

lemma record_samples_ok:
  assumes "histories_ok m"
  shows "histories_ok (record_samples xs m) \<and>
    dom (map_of (record_samples xs m)) = dom (map_of m) \<union> fst ` set xs"
  using assms
proof (induction xs arbitrary: m)
  case (Cons x xs)
  obtain i sample where x: "x = (i, sample)" by (cases x)
  have "histories_ok (bt_entry i [] (history_push sample) m)"
    using Cons.prems history.push_bounded
    by (intro histories_ok_entry) (auto simp: MAX_HISTORY_SAMPLES_PER_SESSION_def history_push_def)
  from Cons.IH [OF this] Cons.prems show ?case
    by (auto simp: record_samples_def x histories_ok_def)
qed (simp add: record_samples_def)

lemma tree_metrics_keys:
  "fst ` set (fst (compute_session_metrics sessions ps el at_ms counters)) = rg_session_id ` set sessions"
proof -
  have "fst ` set (fold (\<lambda>(idx, s). bt_insert (rg_session_id s) (f idx s)) xs m) =
      fst ` set m \<union> rg_session_id ` snd ` set xs" for f :: "nat \<Rightarrow> registered_session \<Rightarrow> tree_metrics" and xs m
    by (induction xs arbitrary: m) (auto simp: keys_bt_insert simp del: image_iff split: prod.splits)
  moreover have "snd ` set (enumerate 0 sessions) = set sessions"
    by (metis map_snd_enumerate list.set_map)
  ultimately show ?thesis by (simp add: compute_session_metrics_def Let_def)
qed

lemma bt_wf_tree_metrics: "bt_wf (fst (compute_session_metrics sessions ps el at_ms counters))"
  by (auto simp: compute_session_metrics_def Let_def intro!: bt_wf_fold)

definition reported_agents :: "system_reading \<Rightarrow> int \<Rightarrow> metrics_sampler \<Rightarrow> (string \<times> metric_sample) list" where
  "reported_agents reading at_ms s = mf_agents (fst (sampler_refresh reading at_ms s))"

lemma reported_agents_keys:
  "fst ` set (reported_agents reading at_ms s) = set (registered_session_ids s)"
  "bt_wf (reported_agents reading at_ms s)"
proof -
  have keys: "fst ` set (map (\<lambda>(i, t). (i, g t)) m) = fst ` set m"
    for g :: "tree_metrics \<Rightarrow> metric_sample" and m :: "(string \<times> tree_metrics) list" by force
  show "fst ` set (reported_agents reading at_ms s) = set (registered_session_ids s)"
    by (simp add: reported_agents_def sampler_refresh_def Let_def keys tree_metrics_keys
        registered_session_ids_def del: set_map split: prod.splits) (simp add: image_iff)
  show "bt_wf (reported_agents reading at_ms s)"
    by (simp add: reported_agents_def sampler_refresh_def Let_def bt_wf_map_values bt_wf_tree_metrics
        split: prod.splits)
qed

lemma sampler_refresh_fields:
  "sa_sessions (snd (sampler_refresh reading at_ms s)) = sa_sessions s"
  "sa_histories (snd (sampler_refresh reading at_ms s)) = record_samples (reported_agents reading at_ms s) (sa_histories s)"
  "sa_latest (snd (sampler_refresh reading at_ms s)) = Some (fst (sampler_refresh reading at_ms s))"
  "sa_last_refresh_ms (snd (sampler_refresh reading at_ms s)) = at_ms"
  by (simp_all add: reported_agents_def sampler_refresh_def Let_def split: prod.splits)

lemma sampler_inv_refresh: "sampler_inv s \<Longrightarrow> sampler_inv (snd (sampler_refresh reading at_ms s))"
  using record_samples_ok [of "sa_histories s" "reported_agents reading at_ms s"]
    reported_agents_keys(1) [of reading at_ms s]
  by (auto simp: sampler_inv_def sampler_refresh_fields registered_session_ids_def)

lemma sampler_inv_clear: "sampler_inv s \<Longrightarrow> sampler_inv (clear_history s)"
proof -
  have wf: "bt_wf (map (\<lambda>(i, h). (i, [] :: metric_sample list)) m)" if "bt_wf m" for m :: "(string \<times> metric_sample list) list"
    using that bt_wf_map_values [of m "\<lambda>_ _. []"] by simp
  have look: "map_of (map (\<lambda>(i, h). (i, [])) m) k = map_option (\<lambda>_. []) (map_of m k)"
    for m :: "(string \<times> metric_sample list) list" and k
    by (rule map_of_map_values)
  show "sampler_inv s \<Longrightarrow> ?thesis"
    by (auto simp: sampler_inv_def clear_history_def histories_ok_def registered_session_ids_def wf look dom_def)
qed

section \<open>Runs of the engine\<close>

text \<open>
  \<open>MetricsEngine\<close> (\<^verbatim>\<open>lib.rs\<close>) takes a lock around each call of the sampler, so a run is any sequence
  of calls.
\<close>

datatype sampler_call =
    CallRegister string process_identity attribution_quality int
  | CallUnregister string
  | CallSetCounts nat nat
  | CallSamplerTick system_reading int
  | CallRefresh system_reading int
  | CallClearHistory

fun run_sampler :: "sampler_call \<Rightarrow> metrics_sampler \<Rightarrow> metrics_sampler" where
  "run_sampler (CallRegister i r q t) s = snd (register_session i r q t s)"
| "run_sampler (CallUnregister i) s = unregister_session i s"
| "run_sampler (CallSetCounts n m) s = set_session_counts n m s"
| "run_sampler (CallSamplerTick reading t) s = snd (sampler_tick reading t s)"
| "run_sampler (CallRefresh reading t) s = snd (sampler_refresh reading t s)"
| "run_sampler CallClearHistory s = clear_history s"

lemma sampler_inv_run: "sampler_inv s \<Longrightarrow> sampler_inv (run_sampler c s)"
proof (cases c)
  case (CallSetCounts n m)
  assume "sampler_inv s"
  then show ?thesis
    by (simp add: CallSetCounts set_session_counts_def sampler_inv_def registered_session_ids_def)
next
  case (CallSamplerTick reading t)
  assume "sampler_inv s"
  then show ?thesis
    using sampler_inv_refresh [of s reading t]
    by (simp add: CallSamplerTick sampler_tick_def Let_def split: prod.splits) (metis snd_conv)
qed (simp_all add: sampler_inv_register sampler_inv_unregister sampler_inv_refresh sampler_inv_clear)

lemma sampler_inv_runs: "sampler_inv s \<Longrightarrow> sampler_inv (fold run_sampler calls s)"
  by (induction calls arbitrary: s) (simp_all add: sampler_inv_run)

lemma record_samples_other: "i \<notin> fst ` set xs \<Longrightarrow> bt_wf m \<Longrightarrow> map_of (record_samples xs m) i = map_of m i"
  by (induction xs arbitrary: m) (auto simp: record_samples_def)

lemma record_samples_lookup:
  assumes "distinct (map fst xs)" and "bt_wf m" and "(i, sample) \<in> set xs"
  shows "map_of (record_samples xs m) i =
    Some (history_push sample (case map_of m i of None \<Rightarrow> [] | Some h \<Rightarrow> h))"
  using assms
proof (induction xs arbitrary: m)
  case (Cons x xs)
  obtain j t where x: "x = (j, t)" by (cases x)
  let ?m = "bt_entry j [] (history_push t) m"
  have step: "record_samples (x # xs) m = record_samples xs ?m" by (simp add: record_samples_def x)
  have wf: "bt_wf ?m" using Cons.prems(2) by simp
  show ?case
  proof (cases "i = j")
    case True
    with Cons.prems(1,3) have "sample = t" "i \<notin> fst ` set xs" by (auto simp: x image_iff)
    then show ?thesis
      unfolding step using record_samples_other [OF _ wf, of i xs] True Cons.prems(2) by simp
  next
    case False
    with Cons show ?thesis unfolding step by (simp add: x)
  qed
qed simp

section \<open>Properties\<close>

text \<open>
  Whatever sequence of calls an engine has served, at most 64 roots are registered, no
  session twice, there is a history for exactly the registered sessions, and no history holds
  more than the 900 newest samples.
\<close>

theorem sampler_bounds_hold:
  "let s = fold run_sampler calls (sampler_new probe)
   in length (sa_sessions s) \<le> MAX_ACTIVE_ROOTS \<and>
      distinct (registered_session_ids s) \<and>
      dom (map_of (sa_histories s)) = set (registered_session_ids s) \<and>
      length (session_history i s) \<le> MAX_HISTORY_SAMPLES_PER_SESSION"
proof -
  let ?s = "fold run_sampler calls (sampler_new probe)"
  have "sampler_inv ?s" by (rule sampler_inv_runs [OF sampler_inv_new])
  then show ?thesis
    by (auto simp: Let_def sampler_inv_def histories_ok_def registered_session_ids_def session_history_def
        split: option.splits)
qed

text \<open>
  A refresh reports exactly the registered sessions; the sample it reports for a session is
  appended to the history of that session, the oldest one making room, and becomes its latest.
\<close>

theorem refresh_reports_and_records:
  assumes "sampler_inv s" and "sampler_refresh reading at_ms s = (frame, s')"
  shows "fst ` set (mf_agents frame) = set (registered_session_ids s) \<and>
    (\<forall>i sample. map_of (mf_agents frame) i = Some sample \<longrightarrow>
       session_history i s' = keep_last MAX_HISTORY_SAMPLES_PER_SESSION (session_history i s @ [sample]) \<and>
       session_latest i s' = Some sample) \<and>
    sa_latest s' = Some frame"
proof -
  have frame: "mf_agents frame = reported_agents reading at_ms s"
    using assms(2) by (simp add: reported_agents_def)
  have hist: "sa_histories s' = record_samples (mf_agents frame) (sa_histories s)"
    and latest: "sa_latest s' = Some frame"
    using assms(2) sampler_refresh_fields(2,3) [of reading at_ms s] by (simp_all add: frame)
  have wf: "bt_wf (sa_histories s)" "bt_wf (mf_agents frame)"
    using assms(1) reported_agents_keys(2) by (simp_all add: frame sampler_inv_def histories_ok_def)
  have "session_history i s' = keep_last MAX_HISTORY_SAMPLES_PER_SESSION (session_history i s @ [sample]) \<and>
      session_latest i s' = Some sample" if "map_of (mf_agents frame) i = Some sample" for i sample
  proof -
    have "length (session_history i s) \<le> MAX_HISTORY_SAMPLES_PER_SESSION"
      using assms(1) by (auto simp: sampler_inv_def histories_ok_def session_history_def split: option.splits)
    moreover have "map_of (sa_histories s') i = Some (history_push sample (session_history i s))"
      unfolding hist using record_samples_lookup [OF bt_wf_distinct [OF wf(2)] wf(1), of i sample] that wf(2)
      by (simp add: session_history_def map_of_iff_mem)
    ultimately show ?thesis
      using history.entries_push [of "session_history i s" sample] history_latest_push [of sample "session_history i s"]
      by (simp add: session_history_def [of i s'] session_latest_def)
  qed
  then show ?thesis
    using reported_agents_keys(1) [of reading at_ms s] by (simp add: frame latest)
qed

definition sample_reading :: system_reading where
  "sample_reading =
     \<lparr>sy_global_cpu_usage = Fin 5, sy_used_memory = 10, sy_total_memory = 100, sy_processes = [],
      sy_disks = [], sy_duration_us = 3\<rparr>"

definition sample_sampler :: metrics_sampler where
  "sample_sampler = snd (register_session ''a'' \<lparr>pid = 1, pid_started_at_ms = 1000\<rparr> Exact 0
     (sampler_new (probe_new False 4 [])))"

lemma sample_sampler_ids: "registered_session_ids sample_sampler = [''a'']"
  by (simp add: sample_sampler_def register_session_run registered_session_ids_def sampler_new_def Let_def
      MAX_ACTIVE_ROOTS_def)

theorem refresh_reports_and_records_witness:
  "fst ` set (mf_agents (fst (sampler_refresh sample_reading 2000 sample_sampler))) = {''a''}"
proof -
  have "sampler_inv sample_sampler"
    unfolding sample_sampler_def by (rule sampler_inv_register [OF sampler_inv_new])
  from refresh_reports_and_records [OF this, of sample_reading 2000]
  show ?thesis using sample_sampler_ids
    by (cases "sampler_refresh sample_reading 2000 sample_sampler") simp
qed

text \<open>
  Registration: a session that is already registered can always be registered again; a new
  one is refused exactly when 64 others are registered, and then nothing changes.
\<close>

theorem register_session_outcome:
  assumes "sampler_inv s" and "register_session i r q t s = (res, s')"
  shows "(res = Ok () \<longleftrightarrow> i \<in> set (registered_session_ids s) \<or> length (sa_sessions s) < MAX_ACTIVE_ROOTS) \<and>
    (res = Ok () \<longrightarrow> set (registered_session_ids s') = insert i (set (registered_session_ids s)) \<and>
       session_history i s' = (if i \<in> set (registered_session_ids s) then [] else session_history i s)) \<and>
    (res \<noteq> Ok () \<longrightarrow> res = Err (TooManyRoots MAX_ACTIVE_ROOTS) \<and> s' = s)"
proof (cases "i \<in> set (registered_session_ids s)")
  case True
  then have "length (filter (\<lambda>x. rg_session_id x \<noteq> i) (sa_sessions s)) < length (sa_sessions s)"
    by (auto simp: registered_session_ids_def intro!: length_filter_less)
  then have room: "length (sa_sessions (unregister_session i s)) < MAX_ACTIVE_ROOTS"
    using assms(1) by (simp add: sampler_inv_def unregister_session_def)
  have wf: "bt_wf (sa_histories (unregister_session i s))"
    using sampler_inv_unregister [OF assms(1)] by (simp add: sampler_inv_def histories_ok_def)
  show ?thesis
    using assms(2) True room wf unregister_ids [of i s]
    by (auto simp: register_session_run Let_def registered_session_ids_def session_history_def)
      (auto simp: unregister_session_def)
next
  case False
  have wf: "bt_wf (sa_histories s)" using assms(1) by (simp add: sampler_inv_def histories_ok_def)
  show ?thesis
    using assms(2) False wf
    by (auto simp: register_session_run Let_def registered_session_ids_def session_history_def
        split: if_splits option.splits)
qed

theorem register_session_outcome_witness:
  "registered_session_ids sample_sampler = [''a''] \<and>
   session_history ''b'' (snd (register_session ''b'' \<lparr>pid = 2, pid_started_at_ms = 5\<rparr> Shared 1 sample_sampler)) =
   session_history ''b'' sample_sampler"
proof -
  have "sampler_inv sample_sampler"
    unfolding sample_sampler_def by (rule sampler_inv_register [OF sampler_inv_new])
  moreover have "length (sa_sessions sample_sampler) < MAX_ACTIVE_ROOTS"
    using arg_cong [OF sample_sampler_ids, of length] by (simp add: registered_session_ids_def MAX_ACTIVE_ROOTS_def)
  moreover obtain res s' where run: "register_session ''b'' \<lparr>pid = 2, pid_started_at_ms = 5\<rparr> Shared 1 sample_sampler = (res, s')"
    by (cases "register_session ''b'' \<lparr>pid = 2, pid_started_at_ms = 5\<rparr> Shared 1 sample_sampler")
  ultimately show ?thesis
    using register_session_outcome [of sample_sampler "''b''", OF _ run] sample_sampler_ids by simp
qed

text \<open>
  Cadence: after a refresh at a positive time the next tick refreshes exactly when the
  interval has passed, one second while a session is registered and five seconds otherwise; a
  tick that is too early changes nothing.
\<close>

theorem tick_cadence:
  assumes "sampler_refresh reading t0 s = (frame, s')" and "0 < t0" and "t0 \<le> t" and "t < 2 ^ 63"
  shows "(fst (sampler_tick reading' t s') \<noteq> None \<longleftrightarrow>
      t - t0 \<ge> (if sa_sessions s = [] then 5000 else 1000)) \<and>
    (fst (sampler_tick reading' t s') = None \<longrightarrow> snd (sampler_tick reading' t s') = s')"
proof -
  have "sa_last_refresh_ms s' = t0" "sa_sessions s' = sa_sessions s"
    using assms(1) sampler_refresh_fields(1,4) [of reading t0 s] by simp_all
  moreover have "wrap_i64 (t - t0) = t - t0"
    using assms(2-4) by (intro wrap_i64_id) (simp add: in_i64_def)
  ultimately show ?thesis
    using assms(2,3)
    by (auto simp: sampler_tick_def should_refresh_def refresh_interval_ms_def IDLE_REFRESH_INTERVAL_MS_def
        ACTIVE_REFRESH_INTERVAL_MS_def Let_def split: prod.splits)
qed

theorem tick_cadence_witness:
  "fst (sampler_tick sample_reading 2500 (snd (sampler_refresh sample_reading 2000 sample_sampler))) = None"
proof -
  obtain frame s' where run: "sampler_refresh sample_reading 2000 sample_sampler = (frame, s')"
    by (cases "sampler_refresh sample_reading 2000 sample_sampler")
  have "sa_sessions sample_sampler \<noteq> []"
    using sample_sampler_ids by (auto simp: registered_session_ids_def)
  then show ?thesis using tick_cadence [OF run, of 2500 sample_reading] by (simp add: run)
qed

end
