(* ===== verification/Json_Value.thy ===== *)
theory Json_Value
  imports Ordered_Map
begin

text \<open>
  JSON values as the program builds and inspects them (\<open>serde_json::Value\<close> with its default map, a
  \<open>BTreeMap\<close>): the constructors and the accessors the sources call. The text of a value is made and
  read by \<open>serde_json\<close> and is a parameter wherever the code needs it.
\<close>

datatype json_number = PosInt nat | NegInt int | Float f64

datatype json =
    JNull
  | JBool bool
  | JNumber json_number
  | JString string
  | JArray "json list"
  | JObject "(string \<times> json) list"

fun as_object :: "json \<Rightarrow> (string \<times> json) list option" where
  "as_object (JObject m) = Some m"
| "as_object v = None"

fun as_array :: "json \<Rightarrow> json list option" where
  "as_array (JArray vs) = Some vs"
| "as_array v = None"

fun as_str :: "json \<Rightarrow> string option" where
  "as_str (JString s) = Some s"
| "as_str v = None"

fun is_object :: "json \<Rightarrow> bool" where
  "is_object (JObject m) = True"
| "is_object v = False"

text \<open>\<open>value.get(key)\<close> is \<open>None\<close> unless the value is an object with that key.\<close>

definition json_get :: "string \<Rightarrow> json \<Rightarrow> json option" where
  "json_get key v = Option.bind (as_object v) (\<lambda>m. map_of m key)"

text \<open>\<open>json!({ ... })\<close>, \<open>Map::new()\<close> and \<open>value[key] = x\<close> on an object.\<close>

definition json_object :: "(string \<times> json) list \<Rightarrow> json" where
  "json_object fields = JObject (fold (\<lambda>(k, v). bt_insert k v) fields [])"

fun json_set :: "string \<Rightarrow> json \<Rightarrow> json \<Rightarrow> json" where
  "json_set key x (JObject m) = JObject (bt_insert key x m)"
| "json_set key x v = v"

definition or_else :: "'a option \<Rightarrow> 'a option \<Rightarrow> 'a option" where
  "or_else a b = (case a of None \<Rightarrow> b | Some x \<Rightarrow> Some x)"

lemma is_object_iff: "is_object v \<longleftrightarrow> (\<exists>m. v = JObject m)"
  by (cases v) auto

lemma as_object_Some: "as_object v = Some m \<longleftrightarrow> v = JObject m"
  by (cases v) auto

lemma as_array_Some: "as_array v = Some vs \<longleftrightarrow> v = JArray vs"
  by (cases v) auto

lemma json_get_object [simp]: "json_get key (JObject m) = map_of m key"
  by (simp add: json_get_def)

lemma bt_wf_object: "bt_wf (fold (\<lambda>(k, v). bt_insert k v) fields [])"
  by (rule bt_wf_fold) (auto split: prod.splits)

lemma json_object_nonempty: "fields \<noteq> [] \<Longrightarrow> json_object fields \<noteq> JObject []"
proof -
  assume "fields \<noteq> []"
  then obtain fs k v where f: "fields = fs @ [(k, v)]" by (cases fields rule: rev_exhaust) auto
  show ?thesis
    using keys_bt_insert [of k v "fold (\<lambda>(k, v). bt_insert k v) fs []"]
    by (auto simp: json_object_def f)
qed

end
