(* ===== verification/Decision_Store.thy ===== *)
theory Decision_Store
  imports Core_Domain Json_Value
begin

text \<open>
  \<^verbatim>\<open>crates/notch-decision/src/store.rs\<close>: the audit trail of decisions. As in the repository of the
  core, a table is the list of its rows, a statement hit by a fault changes nothing, and what
  \<open>serde_json\<close> writes and reads is a parameter, as is the order in which SQLite scans the table.
\<close>

section \<open>Tables\<close>

record audit_row =
  au_id :: string
  au_session_id :: string
  au_source :: string
  au_kind :: string
  au_summary :: string
  au_has_actionable_payload :: int
  au_created_at_ms :: int
  au_expires_at_ms :: "int option"
  au_delivery_state :: string
  au_response_json :: "string option"
  au_responded_at_ms :: "int option"
  au_delivery_detail :: "string option"
  au_vendor_event :: string
  au_external_session_id :: string
  au_connection_id :: string

datatype migration_lane = LaneConnectors | LaneDecisions | LaneMetrics | LanePlatform

record migration_record =
  mr_lane :: migration_lane
  mr_version :: nat
  mr_applied_at_ms :: int
  mr_checksum :: "string option"

record migration_registry =
  mg_registry_version :: nat
  mg_records :: "migration_record list"

definition MIGRATION_REGISTRY_VERSION :: nat where "MIGRATION_REGISTRY_VERSION = 1"
definition DECISIONS_MIGRATION_VERSION :: nat where "DECISIONS_MIGRATION_VERSION = 1"

definition default_registry :: migration_registry where
  "default_registry = \<lparr>mg_registry_version = MIGRATION_REGISTRY_VERSION, mg_records = []\<rparr>"

record decision_db =
  dd_schema_version :: "int option"
  dd_meta :: "(string \<times> string) list"
  dd_rows :: "audit_row list"
  dd_faults :: "bool list"

record store_env =
  response_to_json :: "decision_response \<Rightarrow> string option"
  response_from_json :: "string \<Rightarrow> decision_response option"
  registry_to_json :: "migration_registry \<Rightarrow> string option"
  registry_from_json :: "string \<Rightarrow> migration_registry option"
  scan_audit :: "audit_row list \<Rightarrow> audit_row list"

datatype store_error = DatabaseError | SerdeError | StoreOther string

type_synonym 'a store_op = "(decision_db, store_error, 'a) op"

definition store_statement :: "(decision_db \<Rightarrow> 'a \<times> decision_db) \<Rightarrow> 'a store_op" where
  "store_statement f db =
     (let faults = dd_faults db; db' = db\<lparr>dd_faults := tl faults\<rparr>
      in if faults \<noteq> [] \<and> hd faults then (Err DatabaseError, db')
         else (case f db' of (x, db'') \<Rightarrow> (Ok x, db'')))"

definition store_query :: "(decision_db \<Rightarrow> 'a) \<Rightarrow> 'a store_op" where
  "store_query f = store_statement (\<lambda>db. (f db, db))"

definition store_execute :: "(decision_db \<Rightarrow> decision_db) \<Rightarrow> unit store_op" where
  "store_execute f = store_statement (\<lambda>db. ((), f db))"

definition serde :: "'a option \<Rightarrow> 'a store_op" where
  "serde r = lift (case r of None \<Rightarrow> Err SerdeError | Some x \<Rightarrow> Ok x)"

section \<open>Opening\<close>

definition record_lane_migration :: "store_env \<Rightarrow> int \<Rightarrow> unit store_op" where
  "record_lane_migration env now =
     bind (store_query (\<lambda>db. map_of (dd_meta db) ''migration_registry'')) (\<lambda>existing.
     bind (case existing of
             None \<Rightarrow> ret default_registry
           | Some text \<Rightarrow> serde (registry_from_json env text)) (\<lambda>registry.
       if list_ex (\<lambda>r. mr_lane r = LaneDecisions \<and> mr_version r = DECISIONS_MIGRATION_VERSION)
            (mg_records registry)
       then ret ()
       else
         let registry = registry
               \<lparr>mg_records := mg_records registry @
                  [\<lparr>mr_lane = LaneDecisions, mr_version = DECISIONS_MIGRATION_VERSION,
                    mr_applied_at_ms = now, mr_checksum = None\<rparr>],
                mg_registry_version := MIGRATION_REGISTRY_VERSION\<rparr>
         in bind (serde (registry_to_json env registry)) (\<lambda>encoded.
              store_execute (\<lambda>db. db\<lparr>dd_meta := AList.update ''migration_registry'' encoded (dd_meta db)\<rparr>))))"

text \<open>
  \<open>init\<close>: a schema version that cannot be read counts as absent (\<open>.ok()\<close>); creating the table where
  it exists changes nothing, and a file without it has no rows.
\<close>

definition store_init :: "store_env \<Rightarrow> int \<Rightarrow> unit store_op" where
  "store_init env now db =
     (case store_query dd_schema_version db of
        (Ok (Some version), db') \<Rightarrow>
          seq (store_execute (\<lambda>db. db)) (record_lane_migration env now) db'
      | (r, db') \<Rightarrow> (Err (StoreOther ''decision store requires host schema_version table''), db'))"

section \<open>Rows\<close>

definition coalesce :: "'a option \<Rightarrow> 'a option \<Rightarrow> 'a option" where
  "coalesce a b = (case a of None \<Rightarrow> b | Some x \<Rightarrow> Some x)"

definition audit_row_of ::
  "decision_request \<Rightarrow> string \<Rightarrow> string \<Rightarrow> string \<Rightarrow> delivery_state \<Rightarrow> audit_row" where
  "audit_row_of request vendor_event external_session_id connection_id delivery_state =
     \<lparr>au_id = dr_id request,
      au_session_id = dr_session_id request,
      au_source = debug_source (dr_source request),
      au_kind = debug_decision_kind (dr_kind request),
      au_summary = dr_summary request,
      au_has_actionable_payload = (if dr_has_actionable_payload request then 1 else 0),
      au_created_at_ms = dr_created_at_ms request,
      au_expires_at_ms = dr_expires_at_ms request,
      au_delivery_state = debug_delivery_state delivery_state,
      au_response_json = None, au_responded_at_ms = None, au_delivery_detail = None,
      au_vendor_event = vendor_event,
      au_external_session_id = external_session_id,
      au_connection_id = connection_id\<rparr>"

text \<open>The conflict clause keeps everything but the state and the columns that are still empty.\<close>

definition reopen_row :: "audit_row \<Rightarrow> audit_row \<Rightarrow> audit_row" where
  "reopen_row excluded row =
     row\<lparr>au_delivery_state := au_delivery_state excluded,
         au_response_json := coalesce (au_response_json row) (au_response_json excluded),
         au_responded_at_ms := coalesce (au_responded_at_ms row) (au_responded_at_ms excluded),
         au_delivery_detail := coalesce (au_delivery_detail row) (au_delivery_detail excluded)\<rparr>"

definition put_audit_row :: "audit_row \<Rightarrow> audit_row list \<Rightarrow> audit_row list" where
  "put_audit_row row rows =
     (if list_ex (\<lambda>r. au_id r = au_id row) rows
      then map (\<lambda>r. if au_id r = au_id row then reopen_row row r else r) rows
      else rows @ [row])"

definition upsert_active ::
  "decision_request \<Rightarrow> string \<Rightarrow> string \<Rightarrow> string \<Rightarrow> delivery_state \<Rightarrow> unit store_op" where
  "upsert_active request vendor_event external_session_id connection_id delivery_state =
     store_execute (\<lambda>db. db\<lparr>dd_rows := put_audit_row
       (audit_row_of request vendor_event external_session_id connection_id delivery_state) (dd_rows db)\<rparr>)"

definition update_audit_row ::
  "delivery_state \<Rightarrow> string option \<Rightarrow> int option \<Rightarrow> string option \<Rightarrow> audit_row \<Rightarrow> audit_row" where
  "update_audit_row delivery_state response_json responded_at_ms detail row =
     row\<lparr>au_delivery_state := debug_delivery_state delivery_state,
         au_response_json := coalesce response_json (au_response_json row),
         au_responded_at_ms := coalesce responded_at_ms (au_responded_at_ms row),
         au_delivery_detail := coalesce detail (au_delivery_detail row)\<rparr>"

definition update_delivery ::
  "store_env \<Rightarrow> string \<Rightarrow> delivery_state \<Rightarrow> decision_response option \<Rightarrow> int option \<Rightarrow>
   string option \<Rightarrow> unit store_op" where
  "update_delivery env request_id delivery_state response responded_at_ms detail =
     bind (case response of
             None \<Rightarrow> ret None
           | Some r \<Rightarrow> bind (serde (response_to_json env r)) (\<lambda>text. ret (Some text))) (\<lambda>response_json.
       store_execute (\<lambda>db. db\<lparr>dd_rows := map (\<lambda>r.
         if au_id r = request_id
         then update_audit_row delivery_state response_json responded_at_ms detail r else r) (dd_rows db)\<rparr>))"

section \<open>Reading\<close>

definition parse_agent_source :: "string \<Rightarrow> agent_source" where
  "parse_agent_source raw =
     (if raw = ''Cursor'' then Cursor
      else if raw = ''ClaudeCode'' then ClaudeCode
      else if raw = ''Codex'' then Codex
      else if raw = ''Gemini'' then Gemini
      else if raw = ''Generic'' then Generic
      else UnknownSource)"

definition parse_decision_kind :: "string \<Rightarrow> decision_kind" where
  "parse_decision_kind raw =
     (if raw = ''Approval'' then DecisionApproval
      else if raw = ''Question'' then DecisionQuestion
      else DecisionPermission)"

definition parse_delivery_state :: "string \<Rightarrow> delivery_state" where
  "parse_delivery_state raw =
     (if raw = ''Delivered'' then DDelivered
      else if raw = ''EffectObserved'' then DEffectObserved
      else if raw = ''Expired'' then DExpired
      else if raw = ''Failed'' then DFailed
      else DPending)"

definition request_of_row :: "audit_row \<Rightarrow> decision_request" where
  "request_of_row r =
     \<lparr>dr_id = au_id r, dr_session_id = au_session_id r,
      dr_source = parse_agent_source (au_source r), dr_kind = parse_decision_kind (au_kind r),
      dr_summary = au_summary r, dr_has_actionable_payload = (au_has_actionable_payload r \<noteq> 0),
      dr_created_at_ms = au_created_at_ms r, dr_expires_at_ms = au_expires_at_ms r\<rparr>"

definition pending_row :: "int \<Rightarrow> audit_row \<Rightarrow> bool" where
  "pending_row now_ms r \<longleftrightarrow> au_delivery_state r = ''Pending'' \<and>
     (case au_expires_at_ms r of None \<Rightarrow> True | Some e \<Rightarrow> e > now_ms)"

definition list_pending_requests :: "store_env \<Rightarrow> int \<Rightarrow> decision_request list store_op" where
  "list_pending_requests env now_ms =
     store_query (\<lambda>db. map request_of_row
       (sort_key au_created_at_ms (filter (pending_row now_ms) (scan_audit env (dd_rows db)))))"

definition load_record :: "store_env \<Rightarrow> string \<Rightarrow> decision_response_record option store_op" where
  "load_record env request_id =
     bind (store_query (\<lambda>db. List.find (\<lambda>r. au_id r = request_id) (dd_rows db))) (\<lambda>row.
       case row of
         None \<Rightarrow> ret None
       | Some r \<Rightarrow>
           (case (au_response_json r, au_responded_at_ms r) of
              (Some response_json, Some responded_at_ms) \<Rightarrow>
                bind (serde (response_from_json env response_json)) (\<lambda>response.
                  ret (Some \<lparr>rr_request_id = request_id, rr_response = response,
                    rr_responded_at_ms = responded_at_ms,
                    rr_delivery_state = parse_delivery_state (au_delivery_state r),
                    rr_delivery_detail = au_delivery_detail r\<rparr>))
            | _ \<Rightarrow> ret None))"

definition truncate_summary :: "string \<Rightarrow> string" where
  "truncate_summary summary =
     (if length summary \<le> MAX_DECISION_SUMMARY_LEN then summary
      else take_chars MAX_DECISION_SUMMARY_LEN summary)"

section \<open>Laws\<close>

lemma parse_debug_delivery_state [simp]: "parse_delivery_state (debug_delivery_state d) = d"
  by (cases d) (simp_all add: parse_delivery_state_def)

lemma parse_debug_decision_kind [simp]: "parse_decision_kind (debug_decision_kind k) = k"
  by (cases k) (simp_all add: parse_decision_kind_def)

text \<open>Three sources are not read back: the table was not extended when they were added.\<close>

lemma parse_debug_agent_source:
  "parse_agent_source (debug_source src) =
     (if src \<in> {AntigravityCli, CopilotCli, Qwen} then UnknownSource else src)"
  by (cases src) (simp_all add: parse_agent_source_def)

lemma char_count_truncate: "char_count (truncate_summary s) \<le> MAX_DECISION_SUMMARY_LEN"
  using char_count_take_chars [of MAX_DECISION_SUMMARY_LEN s] char_count_le_length [of s]
  by (simp add: truncate_summary_def)

lemma store_statement_snd:
  "snd (store_statement f db) = db\<lparr>dd_faults := tl (dd_faults db)\<rparr> \<or>
   snd (store_statement f db) = snd (f (db\<lparr>dd_faults := tl (dd_faults db)\<rparr>))"
  by (simp add: store_statement_def Let_def split: prod.splits)

lemma rows_upsert_active:
  "dd_rows (snd (upsert_active r v e c d db)) \<in>
     {dd_rows db, put_audit_row (audit_row_of r v e c d) (dd_rows db)}"
  using store_statement_snd [of "\<lambda>db. ((), db\<lparr>dd_rows := put_audit_row (audit_row_of r v e c d) (dd_rows db)\<rparr>)" db]
  by (auto simp: upsert_active_def store_execute_def)

lemma rows_update_delivery:
  "\<exists>f. (\<forall>r. f r = r \<or> (\<exists>j t. f r = update_audit_row d j t detail r) \<and> au_id r = i) \<and>
     dd_rows (snd (update_delivery env i d resp t detail db)) = map f (dd_rows db)"
proof -
  have ex: "\<exists>f. (\<forall>r. f r = r \<or> (\<exists>j t. f r = update_audit_row d j t detail r) \<and> au_id r = i) \<and>
     dd_rows (snd (store_execute (\<lambda>db. db\<lparr>dd_rows := map (\<lambda>r.
         if au_id r = i then update_audit_row d j t detail r else r) (dd_rows db)\<rparr>) db)) = map f (dd_rows db)"
    for j
  proof -
    let ?f = "\<lambda>r. if au_id r = i then update_audit_row d j t detail r else r"
    have "dd_rows (snd (store_execute (\<lambda>db. db\<lparr>dd_rows := map ?f (dd_rows db)\<rparr>) db)) \<in>
        {dd_rows db, map ?f (dd_rows db)}"
      using store_statement_snd [of "\<lambda>db. ((), db\<lparr>dd_rows := map ?f (dd_rows db)\<rparr>)" db]
      by (auto simp: store_execute_def)
    then show ?thesis
      by (elim insertE, (intro exI [of _ "\<lambda>r. r"], simp), (intro exI [of _ ?f], auto))
  qed
  have unchanged: "\<exists>f. (\<forall>r. f r = r \<or> (\<exists>j t. f r = update_audit_row d j t detail r) \<and> au_id r = i) \<and>
      dd_rows db = map f (dd_rows db)"
    by (intro exI [of _ "\<lambda>r. r"]) simp
  show ?thesis
    unfolding update_delivery_def
    using ex unchanged
    by (cases resp; cases "response_to_json env (the resp)")
      (simp_all add: bind_def ret_def serde_def lift_def)
qed

end
