(* ===== verification/Rust_Text.thy ===== *)
theory Rust_Text
  imports Notch_Prelude "HOL-Library.Sublist"
begin

text \<open>
  The string operations of the standard library the adapters rely on, over UTF-8 bytes:
  \<open>str::trim\<close>, \<open>str::split\<close> at an ASCII separator, \<open>str::strip_prefix\<close>, \<open>trim_end_matches\<close> with a
  predicate that only ASCII characters can escape, \<open>str::parse::<u64>\<close> and ASCII case folding.
\<close>

section \<open>White space\<close>

text \<open>
  The code points with the Unicode property \<open>White_Space\<close>, as the bytes that encode them:
  U+0009 to U+000D, U+0020, U+0085, U+00A0, U+1680, U+2000 to U+200A, U+2028, U+2029, U+202F,
  U+205F and U+3000.
\<close>

definition utf8_spaces :: "string list" where
  "utf8_spaces = map (map char_of)
     ([[9], [10], [11], [12], [13], [32], [194, 133], [194, 160], [225, 154, 128 :: nat]] @
      map (\<lambda>b. [226, 128, b]) [128 ..< 139] @
      [[226, 128, 168], [226, 128, 169], [226, 128, 175], [226, 129, 159], [227, 128, 128]])"

definition strip_prefix :: "string \<Rightarrow> string \<Rightarrow> string option" where
  "strip_prefix p s = (if take (length p) s = p then Some (drop (length p) s) else None)"

definition leading_space :: "string list \<Rightarrow> string \<Rightarrow> string option" where
  "leading_space spaces s = List.find (\<lambda>w. w \<noteq> [] \<and> take (length w) s = w) spaces"

lemma leading_space_shorter: "leading_space ws s = Some w \<Longrightarrow> length (drop (length w) s) < length s"
  by (cases s) (auto simp: leading_space_def find_Some_iff)

function drop_spaces :: "string list \<Rightarrow> string \<Rightarrow> string" where
  "drop_spaces spaces s =
     (case leading_space spaces s of
        None \<Rightarrow> s
      | Some w \<Rightarrow> drop_spaces spaces (drop (length w) s))"
  by auto
termination
  by (relation "measure (length \<circ> snd)") (use leading_space_shorter in auto)

declare drop_spaces.simps [simp del]

text \<open>\<open>trim\<close> drops white space at both ends, the end by running over the reversed bytes.\<close>

definition trim :: "string \<Rightarrow> string" where
  "trim s = rev (drop_spaces (map rev utf8_spaces) (rev (drop_spaces utf8_spaces s)))"

text \<open>Text that starts and ends with a digit is left alone.\<close>

definition is_ascii_digit :: "char \<Rightarrow> bool" where
  "is_ascii_digit c \<longleftrightarrow> of_char c \<in> {48 .. 57 :: nat}"

lemma space_bytes: "w \<in> set utf8_spaces \<Longrightarrow> w \<noteq> [] \<and> \<not> is_ascii_digit (hd w) \<and> \<not> is_ascii_digit (last w)"
  by (auto simp: utf8_spaces_def is_ascii_digit_def take_bit_eq_mod upt_rec)

lemma drop_spaces_digit:
  assumes "\<And>w. w \<in> set ws \<Longrightarrow> w \<noteq> [] \<Longrightarrow> \<not> is_ascii_digit (hd w)" and "s \<noteq> [] \<Longrightarrow> is_ascii_digit (hd s)"
  shows "drop_spaces ws s = s"
proof -
  have "leading_space ws s = None"
  proof (rule ccontr)
    assume "leading_space ws s \<noteq> None"
    then obtain w where w: "w \<in> set ws" "w \<noteq> []" "take (length w) s = w"
      unfolding leading_space_def find_None_iff by blast
    then have "s \<noteq> []" "hd s = hd w" by (auto, metis hd_take length_greater_0_conv)
    with assms w(1,2) show False by auto
  qed
  then show ?thesis by (simp add: drop_spaces.simps [of ws s])
qed

lemma trim_digits:
  assumes "s \<noteq> []" and "is_ascii_digit (hd s)" and "is_ascii_digit (last s)"
  shows "trim s = s"
proof -
  have "drop_spaces utf8_spaces s = s"
    by (rule drop_spaces_digit) (use assms space_bytes in auto)
  moreover have "drop_spaces (map rev utf8_spaces) (rev s) = rev s"
    by (rule drop_spaces_digit) (use assms space_bytes in \<open>auto simp: hd_rev\<close>)
  ultimately show ?thesis by (simp add: trim_def)
qed

section \<open>Splitting and parsing\<close>

text \<open>\<open>s.split(c)\<close>: one piece more than separators, empty pieces included.\<close>

fun split_at :: "char \<Rightarrow> string \<Rightarrow> string list" where
  "split_at c [] = [[]]"
| "split_at c (x # xs) =
     (if x = c then [] # split_at c xs
      else (case split_at c xs of [] \<Rightarrow> [[x]] | p # ps \<Rightarrow> (x # p) # ps))"

lemma split_at_nonempty: "split_at c s \<noteq> []"
  by (induction s) (auto split: list.splits)

lemma split_at_free: "c \<notin> set s \<Longrightarrow> split_at c s = [s]"
  by (induction s) auto

lemma split_at_append: "c \<notin> set p \<Longrightarrow> split_at c (p @ c # s) = p # split_at c s"
  by (induction p) auto

definition digit_value :: "char \<Rightarrow> nat" where
  "digit_value c = of_char c - 48"

definition digits_value :: "string \<Rightarrow> nat" where
  "digits_value s = foldl (\<lambda>n c. 10 * n + digit_value c) 0 s"

text \<open>
  \<open>str::parse::<u64>\<close>: an optional plus sign, at least one decimal digit, nothing else, and a
  value that fits. The digits are checked from the left, but every failure is one \<open>Err\<close>.
\<close>

definition parse_u64 :: "string \<Rightarrow> nat option" where
  "parse_u64 s =
     (let digits = (if s \<noteq> [] \<and> hd s = CHR ''+'' then tl s else s)
      in if digits = [] \<or> \<not> list_all is_ascii_digit digits \<or> 2 ^ 64 \<le> digits_value digits
         then None else Some (digits_value digits))"

definition trim_end_non_digits :: "string \<Rightarrow> string" where
  "trim_end_non_digits s = rev (dropWhile (\<lambda>c. \<not> is_ascii_digit c) (rev s))"

section \<open>Case\<close>

definition is_ascii_upper :: "char \<Rightarrow> bool" where
  "is_ascii_upper c \<longleftrightarrow> of_char c \<in> {65 .. 90 :: nat}"

definition is_ascii_lower :: "char \<Rightarrow> bool" where
  "is_ascii_lower c \<longleftrightarrow> of_char c \<in> {97 .. 122 :: nat}"

definition is_ascii_alphanumeric :: "char \<Rightarrow> bool" where
  "is_ascii_alphanumeric c \<longleftrightarrow> is_ascii_digit c \<or> is_ascii_upper c \<or> is_ascii_lower c"

definition ascii_lower :: "char \<Rightarrow> char" where
  "ascii_lower c = (if is_ascii_upper c then char_of (of_char c + 32 :: nat) else c)"

definition to_ascii_lowercase :: "string \<Rightarrow> string" where
  "to_ascii_lowercase s = map ascii_lower s"

lemmas ascii_classes = is_ascii_digit_def is_ascii_upper_def is_ascii_lower_def

lemma ascii_lower_upper: "is_ascii_upper c \<Longrightarrow> of_char (ascii_lower c) = (of_char c + 32 :: nat)"
  by (auto simp: ascii_lower_def ascii_classes)

lemma ascii_lower_idem [simp]: "ascii_lower (ascii_lower c) = ascii_lower c"
  using ascii_lower_upper [of c] by (cases "is_ascii_upper c") (auto simp: ascii_lower_def ascii_classes)

lemma ascii_lower_alphanumeric:
  "is_ascii_alphanumeric c \<Longrightarrow> is_ascii_alphanumeric (ascii_lower c)"
  using ascii_lower_upper [of c]
  by (cases "is_ascii_upper c") (auto simp: is_ascii_alphanumeric_def ascii_lower_def ascii_classes)

section \<open>Printed numbers read back\<close>

lemma digits_value_snoc: "digits_value (s @ [c]) = 10 * digits_value s + digit_value c"
  by (simp add: digits_value_def)

lemma digit_char:
  assumes "d < 10"
  shows "is_ascii_digit (char_of (48 + d))" and "digit_value (char_of (48 + d)) = d"
  using assms by (simp_all add: is_ascii_digit_def digit_value_def take_bit_eq_mod)

lemma dec_string_digits:
  "dec_string n \<noteq> [] \<and> list_all is_ascii_digit (dec_string n) \<and> digits_value (dec_string n) = n"
proof (induction n rule: dec_string.induct)
  case (1 n)
  show ?case
  proof (cases "n < 10")
    case True
    then show ?thesis
      using digit_char [OF True] by (simp add: dec_string.simps [of n] digits_value_def)
  next
    case False
    have "10 * (n div 10) + n mod 10 = n" by simp
    with False 1 digit_char [of "n mod 10"] show ?thesis
      by (simp add: dec_string.simps [of n] digits_value_snoc)
  qed
qed

lemma dec_string_head: "dec_string n = c # cs \<Longrightarrow> c \<noteq> CHR ''+'' \<and> is_ascii_digit c"
  using dec_string_digits [of n] by (auto simp: is_ascii_digit_def)

lemma parse_u64_dec_string [simp]: "n < 2 ^ 64 \<Longrightarrow> parse_u64 (dec_string n) = Some n"
  using dec_string_digits [of n] dec_string_head [of n]
  by (cases "dec_string n") (auto simp: parse_u64_def Let_def)

lemma trim_end_non_digits_dec: "trim_end_non_digits (dec_string n) = dec_string n"
proof -
  have "list_all is_ascii_digit (rev (dec_string n))"
    using dec_string_digits [of n] by (simp add: list_all_iff)
  then have "dropWhile (\<lambda>c. \<not> is_ascii_digit c) (rev (dec_string n)) = rev (dec_string n)"
    by (cases "rev (dec_string n)") simp_all
  then show ?thesis by (simp add: trim_end_non_digits_def)
qed

end
