(* ===== verification/Claude_Adapter.thy ===== *)
theory Claude_Adapter
  imports Protocol_Types Rust_Text Json_Value
begin

text \<open>
  \<^verbatim>\<open>crates/notch-adapters/claude-code/src\<close>: which Claude Code versions are trusted with an answer
  (\<^verbatim>\<open>version.rs\<close>, \<^verbatim>\<open>capabilities.rs\<close>) and the JSON of the answers (\<^verbatim>\<open>response.rs\<close>).
\<close>

section \<open>Versions\<close>

datatype claude_version_profile =
    KnownVersion string
  | UnknownVersion "string option"

definition KNOWN_MIN_MAJOR :: nat where "KNOWN_MIN_MAJOR = 2"
definition KNOWN_MIN_MINOR :: nat where "KNOWN_MIN_MINOR = 1"
definition KNOWN_MIN_PATCH :: nat where "KNOWN_MIN_PATCH = 0"

definition strip_version_prefix :: "string \<Rightarrow> string" where
  "strip_version_prefix raw =
     trim (case or_else (strip_prefix ''Claude Code '' raw) (strip_prefix ''claude-code '' raw) of
             None \<Rightarrow> raw
           | Some rest \<Rightarrow> rest)"

definition nth_part :: "nat \<Rightarrow> string list \<Rightarrow> string option" where
  "nth_part i parts = (if i < length parts then Some (parts ! i) else None)"

definition is_known_claude_semver :: "string \<Rightarrow> bool" where
  "is_known_claude_semver raw =
     (let parts = split_at (CHR ''.'') raw;
          major = Option.bind (nth_part 0 parts) parse_u64;
          minor = Option.bind (nth_part 1 parts) parse_u64;
          patch = or_else (Option.bind (nth_part 2 parts) (\<lambda>part. parse_u64 (trim_end_non_digits part)))
                    (Some 0)
      in case (major, minor, patch) of
           (Some a, Some b, Some c) \<Rightarrow>
             (a, b, c) \<ge> (KNOWN_MIN_MAJOR, KNOWN_MIN_MINOR, KNOWN_MIN_PATCH)
         | _ \<Rightarrow> False)"

definition detect_version :: "string option \<Rightarrow> claude_version_profile" where
  "detect_version claude_code_version =
     (case claude_code_version of
        None \<Rightarrow> UnknownVersion None
      | Some value \<Rightarrow>
          let raw = trim value; normalized = strip_version_prefix raw
          in if raw = [] then UnknownVersion None
             else if is_known_claude_semver normalized then KnownVersion normalized
             else UnknownVersion (Some normalized))"

definition claude_capabilities :: "claude_version_profile \<Rightarrow> adapter_capabilities" where
  "claude_capabilities profile =
     (let caps = (capabilities_template ClaudeCode)
            \<lparr>c_observe_lifecycle := True, c_observe_tools := True, c_events := True,
             c_attention := CapPartial, c_process_attribution := UnknownAttribution,
             c_context_open := False, c_context_open_tier := TierNone,
             c_fail_open_hooks := True, c_requires_external_trust := False,
             c_respond_questions := False\<rparr>
      in case profile of
           KnownVersion v \<Rightarrow> caps\<lparr>c_respond_decisions := True, c_decision_response := True,
             c_context_open := True, c_context_open_tier := AppActivate\<rparr>
         | UnknownVersion v \<Rightarrow> caps\<lparr>c_respond_decisions := False, c_decision_response := False\<rparr>)"

section \<open>Responses\<close>

datatype claude_respondable_hook = PermissionRequest | ExitPlanModePreToolUse

datatype claude_permission_decision = PermissionAllow | PermissionDeny "string option" bool

datatype response_build_error = ExitPlanUpdatedInputMustBeObject

definition build_permission_response :: "claude_permission_decision \<Rightarrow> json" where
  "build_permission_response decision =
     (let behavior = (case decision of PermissionAllow \<Rightarrow> ''allow'' | PermissionDeny m i \<Rightarrow> ''deny'');
          decision_object = json_object [(''behavior'', JString behavior)];
          decision_object = (case decision of
              PermissionDeny (Some message) i \<Rightarrow> json_set ''message'' (JString message) decision_object
            | _ \<Rightarrow> decision_object);
          decision_object = (case decision of
              PermissionDeny m True \<Rightarrow> json_set ''interrupt'' (JBool True) decision_object
            | _ \<Rightarrow> decision_object)
      in json_object [(''hookSpecificOutput'',
           json_object [(''hookEventName'', JString ''PermissionRequest''),
                        (''decision'', decision_object)])])"

definition build_exit_plan_approve_response :: "json \<Rightarrow> (response_build_error, json) outcome" where
  "build_exit_plan_approve_response updated_input =
     (if \<not> is_object updated_input then Err ExitPlanUpdatedInputMustBeObject
      else Ok (json_object [(''hookSpecificOutput'',
             json_object [(''hookEventName'', JString ''PreToolUse''),
                          (''permissionDecision'', JString ''allow''),
                          (''updatedInput'', updated_input)])]))"

fun build_decision_response ::
  "claude_respondable_hook \<Rightarrow> decision_action \<Rightarrow> json option \<Rightarrow> (response_build_error, json) outcome" where
  "build_decision_response PermissionRequest Allow updated_input =
     Ok (build_permission_response PermissionAllow)"
| "build_decision_response PermissionRequest Deny updated_input =
     Ok (build_permission_response (PermissionDeny (Some ''Denied by llm_notch'') False))"
| "build_decision_response ExitPlanModePreToolUse Allow updated_input =
     build_exit_plan_approve_response
       (case updated_input of None \<Rightarrow> json_object [] | Some v \<Rightarrow> v)"
| "build_decision_response ExitPlanModePreToolUse Deny updated_input =
     Ok (json_object [(''hookSpecificOutput'',
           json_object [(''hookEventName'', JString ''PreToolUse''),
                        (''permissionDecision'', JString ''deny''),
                        (''permissionDecisionReason'', JString ''Plan not approved'')])])"

section \<open>What the adapter guarantees\<close>

lemma decision_response_not_empty:
  "build_decision_response hook action updated_input = Ok v \<Longrightarrow> v \<noteq> JObject []"
  using json_object_nonempty
  by (cases hook; cases action)
    (auto simp: build_permission_response_def build_exit_plan_approve_response_def Let_def split: if_splits)

text \<open>The verdict inside an answer, where the hook looks for it.\<close>

definition response_verdict :: "claude_respondable_hook \<Rightarrow> json \<Rightarrow> string option" where
  "response_verdict hook v =
     Option.bind (json_get ''hookSpecificOutput'' v) (\<lambda>out.
       Option.bind (case hook of
           PermissionRequest \<Rightarrow> Option.bind (json_get ''decision'' out) (json_get ''behavior'')
         | ExitPlanModePreToolUse \<Rightarrow> json_get ''permissionDecision'' out) as_str)"

lemma decision_response_verdict:
  "build_decision_response hook action updated_input = Ok v \<Longrightarrow>
   response_verdict hook v = Some (case action of Allow \<Rightarrow> ''allow'' | Deny \<Rightarrow> ''deny'')"
  by (cases hook; cases action)
    (auto simp: response_verdict_def build_permission_response_def json_object_def
      build_exit_plan_approve_response_def Let_def split: if_splits)

lemma respond_iff_known:
  "(c_respond_decisions (claude_capabilities p) \<or> c_decision_response (claude_capabilities p)) \<longleftrightarrow>
   (\<exists>v. p = KnownVersion v)"
  by (cases p) (simp_all add: claude_capabilities_def Let_def)

lemma dec_string_no_dot: "CHR ''.'' \<notin> set (dec_string n)"
  using dec_string_digits [of n] by (auto simp: list_all_iff is_ascii_digit_def)

definition semver_text :: "nat \<Rightarrow> nat \<Rightarrow> nat \<Rightarrow> string" where
  "semver_text major minor patch = dec_string major @ ''.'' @ dec_string minor @ ''.'' @ dec_string patch"

lemma semver_text_ends:
  "semver_text a b c \<noteq> []" "is_ascii_digit (hd (semver_text a b c))" "is_ascii_digit (last (semver_text a b c))"
  using dec_string_digits [of a] dec_string_digits [of c]
  by (auto simp: semver_text_def list_all_iff)

lemma semver_text_parts:
  "split_at (CHR ''.'') (semver_text a b c) = [dec_string a, dec_string b, dec_string c]"
  using dec_string_no_dot by (simp add: semver_text_def split_at_append split_at_free)

lemma known_semver_text:
  assumes "a < 2 ^ 64" and "b < 2 ^ 64" and "c < 2 ^ 64"
  shows "is_known_claude_semver (semver_text a b c) \<longleftrightarrow> (2, 1, 0) \<le> (a, b, c)"
  using assms
  by (simp add: is_known_claude_semver_def semver_text_parts nth_part_def trim_end_non_digits_dec
      or_else_def KNOWN_MIN_MAJOR_def KNOWN_MIN_MINOR_def KNOWN_MIN_PATCH_def)

lemma strip_prefix_digit: "is_ascii_digit (hd s) \<Longrightarrow> s \<noteq> [] \<Longrightarrow> \<not> is_ascii_digit p \<Longrightarrow> strip_prefix (p # ps) s = None"
  by (cases s) (auto simp: strip_prefix_def)

lemma strip_version_semver: "strip_version_prefix (semver_text a b c) = semver_text a b c"
  using semver_text_ends [of a b c]
  by (simp add: strip_version_prefix_def strip_prefix_digit or_else_def trim_digits is_ascii_digit_def)

lemma detect_semver_text:
  assumes "a < 2 ^ 64" and "b < 2 ^ 64" and "c < 2 ^ 64"
  shows "detect_version (Some (semver_text a b c)) =
      (if (2, 1, 0) \<le> (a, b, c) then KnownVersion (semver_text a b c)
       else UnknownVersion (Some (semver_text a b c)))"
  using semver_text_ends [of a b c] known_semver_text [OF assms]
  by (simp add: detect_version_def Let_def trim_digits strip_version_semver)

text \<open>
  A printed version is recognised by its numbers: \<open>detect_version\<close> reads back every version
  \<open>major.minor.patch\<close> and trusts it exactly when it is at least 2.1.0, and only trusted versions
  get decision responses.
\<close>

theorem detect_version_semver:
  assumes "a < 2 ^ 64" and "b < 2 ^ 64" and "c < 2 ^ 64"
  shows "detect_version (Some (semver_text a b c)) =
      (if (2, 1, 0) \<le> (a, b, c) then KnownVersion (semver_text a b c)
       else UnknownVersion (Some (semver_text a b c))) \<and>
    rp_decisions (response_paths (claude_capabilities (detect_version (Some (semver_text a b c))))) =
      ((2, 1, 0) \<le> (a, b, c))"
  using detect_semver_text [OF assms] respond_iff_known [of "detect_version (Some (semver_text a b c))"]
  by (simp add: response_paths_def)

theorem detect_version_semver_witness:
  "detect_version (Some (semver_text 2 1 205)) = KnownVersion (semver_text 2 1 205) \<and>
   detect_version (Some (semver_text 2 0 99)) = UnknownVersion (Some (semver_text 2 0 99))"
  using detect_version_semver [of 2 1 205] detect_version_semver [of 2 0 99] by simp

end
