(* ===== verification/Decision_Broker.thy ===== *)
theory Decision_Broker
  imports Decision_Store Claude_Adapter
begin

text \<open>
  \<^verbatim>\<open>crates/notch-decision/src\<close>: the broker between a hook that waits for an answer and the user who
  gives it (\<^verbatim>\<open>types.rs\<close>, \<^verbatim>\<open>adapter.rs\<close>, \<^verbatim>\<open>broker.rs\<close>).

  The broker is shared by concurrent calls. Each call is a \<open>task\<close>; a step of a task is what it does
  under one acquisition of a lock, so every interleaving the locks allow is an interleaving of
  steps. \<open>submit_decision\<close> keeps the lock of the table while it wakes the waiter: \<open>br_held\<close> says so.
  A \<open>Notify\<close> is a number; \<open>notify_waiters\<close> wakes the tasks that already subscribed to it, and only
  those. The clock is an input of each step, and a timer may fire at any moment.
\<close>

section \<open>Types\<close>

record wait_payload =
  wp_nonce :: string
  wp_source :: agent_source
  wp_vendor_event :: string
  wp_external_session_id :: string
  wp_session_id :: "string option"
  wp_decision_kind :: decision_kind
  wp_summary :: string
  wp_has_actionable_payload :: bool
  wp_respondable_hook :: "string option"
  wp_tool_name :: "string option"
  wp_connection_id :: string
  wp_vendor_context :: "json option"
  wp_created_at_ms :: int

record decision_reply =
  rp_nonce :: string
  rp_stdout_json :: string
  rp_delivery_state :: delivery_state

datatype internal_state =
    IPending
  | IChosen decision_response int string
  | IDelivered string int
  | IEffectObserved string int
  | IExpired
  | IFailed string

fun wire_state :: "internal_state \<Rightarrow> delivery_state" where
  "wire_state IPending = DPending"
| "wire_state (IChosen r t out) = DPending"
| "wire_state (IDelivered out t) = DDelivered"
| "wire_state (IEffectObserved evidence t) = DEffectObserved"
| "wire_state IExpired = DExpired"
| "wire_state (IFailed detail) = DFailed"

fun state_is_terminal :: "internal_state \<Rightarrow> bool" where
  "state_is_terminal IPending = False"
| "state_is_terminal (IChosen r t out) = False"
| "state_is_terminal (IDelivered out t) = True"
| "state_is_terminal (IEffectObserved evidence t) = True"
| "state_is_terminal IExpired = True"
| "state_is_terminal (IFailed detail) = True"

fun state_is_chosen :: "internal_state \<Rightarrow> bool" where
  "state_is_chosen (IChosen r t out) = True"
| "state_is_chosen s = False"

record active_decision =
  ac_request :: decision_request
  ac_state :: internal_state
  ac_vendor_event :: string
  ac_external_session_id :: string
  ac_respondable_hook :: "string option"
  ac_tool_name :: "string option"
  ac_connection_id :: string
  ac_vendor_context :: "json option"
  ac_expires_at_ms :: int

definition response_record :: "decision_response \<Rightarrow> int \<Rightarrow> active_decision \<Rightarrow> decision_response_record" where
  "response_record response responded_at_ms a =
     \<lparr>rr_request_id = dr_id (ac_request a), rr_response = response,
      rr_responded_at_ms = responded_at_ms, rr_delivery_state = wire_state (ac_state a),
      rr_delivery_detail = (case ac_state a of
          IFailed detail \<Rightarrow> Some detail
        | IEffectObserved evidence t \<Rightarrow> Some evidence
        | _ \<Rightarrow> None)\<rparr>"

text \<open>
  What the broker takes from outside: the store's parameters, the default hasher, the text
  \<open>serde_json\<close> gives a value, and the iteration order of the hash map.
\<close>

record broker_env =
  be_store :: store_env
  be_hash :: hasher
  be_json_text :: "json \<Rightarrow> (string, string) outcome"
  be_order :: "string list \<Rightarrow> string list"
  be_wait_timeout_ms :: nat

section \<open>Vendor output\<close>

datatype adapter_build_error =
    CapabilityDisabled
  | UnsupportedHook string
  | QuestionUnsupported
  | BuildFailed string

fun adapter_error_text :: "adapter_build_error \<Rightarrow> string" where
  "adapter_error_text CapabilityDisabled = ''decision responses are disabled for this adapter''"
| "adapter_error_text (UnsupportedHook h) = ''unsupported respondable hook `'' @ h @ ''`''"
| "adapter_error_text QuestionUnsupported = ''question answers are not supported in protocol v1''"
| "adapter_error_text (BuildFailed m) = ''vendor response build failed: '' @ m"

definition neutral_stdout :: string where
  "neutral_stdout = DECISION_HOOK_NEUTRAL_OUTPUT"

definition respondable_hook_of :: "string option \<Rightarrow> (adapter_build_error, claude_respondable_hook) outcome" where
  "respondable_hook_of hook =
     (case hook of
        None \<Rightarrow> Err CapabilityDisabled
      | Some name \<Rightarrow>
          if name = ''permissionRequest'' then Ok PermissionRequest
          else if name = ''exitPlanModePreToolUse'' then Ok ExitPlanModePreToolUse
          else Err (UnsupportedHook name))"

definition context_field :: "string \<Rightarrow> string \<Rightarrow> json option \<Rightarrow> json option" where
  "context_field snake camel context =
     Option.bind context (\<lambda>v. or_else (json_get snake v) (json_get camel v))"

definition build_claude_stdout ::
  "broker_env \<Rightarrow> string option \<Rightarrow> decision_action \<Rightarrow> json option \<Rightarrow>
   (adapter_build_error, string) outcome" where
  "build_claude_stdout env respondable_hook action vendor_context =
     (case respondable_hook_of respondable_hook of
        Err e \<Rightarrow> Err e
      | Panic m \<Rightarrow> Panic m
      | Ok hook \<Rightarrow>
          let version = Option.bind
                (context_field ''claude_code_version'' ''claudeCodeVersion'' vendor_context) as_str;
              caps = claude_capabilities (detect_version version);
              updated_input = context_field ''updated_input'' ''updatedInput'' vendor_context
          in if \<not> c_respond_decisions caps \<and> \<not> c_decision_response caps then Err CapabilityDisabled
             else (case build_decision_response hook action updated_input of
                 Err e \<Rightarrow> Err (BuildFailed ''ExitPlanMode approval requires updatedInput to be a JSON object'')
               | Panic m \<Rightarrow> Panic m
               | Ok value \<Rightarrow>
                   (case be_json_text env value of
                      Err m \<Rightarrow> Err (BuildFailed m)
                    | Panic m \<Rightarrow> Panic m
                    | Ok text \<Rightarrow> Ok text)))"

definition build_vendor_stdout ::
  "broker_env \<Rightarrow> agent_source \<Rightarrow> string option \<Rightarrow> decision_response \<Rightarrow> json option \<Rightarrow>
   (adapter_build_error, string) outcome" where
  "build_vendor_stdout env source respondable_hook response vendor_context =
     (case response of
        Answer text \<Rightarrow> Err QuestionUnsupported
      | Action action \<Rightarrow>
          if source \<in> {ClaudeCode, Qwen}
          then build_claude_stdout env respondable_hook action vendor_context
          else Err CapabilityDisabled)"

section \<open>The broker\<close>

datatype broker_error =
    DecisionNotFound
  | DecisionExpired
  | AlreadyFinalized
  | NotActionable
  | BindingMismatch
  | InvalidResponse string
  | StoreFailed store_error
  | AdapterFailed string

record broker =
  br_store :: decision_db
  br_active :: "active_decision hash_map"
  br_waiters :: "nat hash_map"
  br_next_notify :: nat
  br_held :: bool

definition broker_new :: "decision_db \<Rightarrow> broker" where
  "broker_new db = \<lparr>br_store = db, br_active = [], br_waiters = [], br_next_notify = 0, br_held = False\<rparr>"

definition internal_session_id :: "hasher \<Rightarrow> agent_source \<Rightarrow> string \<Rightarrow> string" where
  "internal_session_id hash source external_session_id =
     take_chars MAX_SESSION_ID_LEN (''s-'' @ hex16 (hash (debug_source source) external_session_id))"

definition expiry_of :: "broker_env \<Rightarrow> wait_payload \<Rightarrow> int" where
  "expiry_of env p = wrap_i64 (wp_created_at_ms p + u64_as_i64 (be_wait_timeout_ms env))"

definition new_request :: "broker_env \<Rightarrow> wait_payload \<Rightarrow> decision_request" where
  "new_request env p =
     \<lparr>dr_id = wp_nonce p,
      dr_session_id = (case wp_session_id p of
          Some i \<Rightarrow> i
        | None \<Rightarrow> internal_session_id (be_hash env) (wp_source p) (wp_external_session_id p)),
      dr_source = wp_source p, dr_kind = wp_decision_kind p,
      dr_summary = truncate_summary (wp_summary p),
      dr_has_actionable_payload = wp_has_actionable_payload p,
      dr_created_at_ms = wp_created_at_ms p, dr_expires_at_ms = Some (expiry_of env p)\<rparr>"

definition new_active :: "broker_env \<Rightarrow> wait_payload \<Rightarrow> active_decision" where
  "new_active env p =
     \<lparr>ac_request = new_request env p, ac_state = IPending, ac_vendor_event = wp_vendor_event p,
      ac_external_session_id = wp_external_session_id p,
      ac_respondable_hook = wp_respondable_hook p, ac_tool_name = wp_tool_name p,
      ac_connection_id = wp_connection_id p, ac_vendor_context = wp_vendor_context p,
      ac_expires_at_ms = expiry_of env p\<rparr>"

definition build_stdout_for_active ::
  "broker_env \<Rightarrow> active_decision \<Rightarrow> decision_response \<Rightarrow> (adapter_build_error, string) outcome" where
  "build_stdout_for_active env a response =
     build_vendor_stdout env (dr_source (ac_request a)) (ac_respondable_hook a) response
       (ac_vendor_context a)"

subsection \<open>Replies\<close>

definition neutral_reply :: "string \<Rightarrow> delivery_state \<Rightarrow> decision_reply" where
  "neutral_reply nonce state =
     \<lparr>rp_nonce = nonce, rp_stdout_json = neutral_stdout, rp_delivery_state = state\<rparr>"

definition fail_open_reply :: "string \<Rightarrow> decision_reply" where
  "fail_open_reply nonce = neutral_reply nonce DFailed"

definition stdout_reply :: "string \<Rightarrow> string \<Rightarrow> delivery_state \<Rightarrow> decision_reply" where
  "stdout_reply nonce out state =
     \<lparr>rp_nonce = nonce, rp_stdout_json = out, rp_delivery_state = state\<rparr>"

definition reply_for_active :: "string \<Rightarrow> active_decision \<Rightarrow> decision_reply" where
  "reply_for_active nonce a =
     (case ac_state a of
        IDelivered out t \<Rightarrow> stdout_reply nonce out DDelivered
      | IFailed detail \<Rightarrow> neutral_reply nonce DFailed
      | IExpired \<Rightarrow> neutral_reply nonce DExpired
      | IChosen r t out \<Rightarrow> stdout_reply nonce out DPending
      | IPending \<Rightarrow> neutral_reply nonce DExpired
      | IEffectObserved evidence t \<Rightarrow> neutral_reply nonce DEffectObserved)"

definition replay_terminal :: "string \<Rightarrow> active_decision \<Rightarrow> decision_reply" where
  "replay_terminal nonce a =
     (case ac_state a of
        IExpired \<Rightarrow> neutral_reply nonce (wire_state (ac_state a))
      | IFailed detail \<Rightarrow> neutral_reply nonce (wire_state (ac_state a))
      | IDelivered out t \<Rightarrow> stdout_reply nonce out DDelivered
      | _ \<Rightarrow> neutral_reply nonce DExpired)"

subsection \<open>Pieces of the operations\<close>

text \<open>Errors of the audit trail are logged or dropped, never returned.\<close>

definition audit :: "unit store_op \<Rightarrow> broker \<Rightarrow> broker" where
  "audit m b = b\<lparr>br_store := snd (m (br_store b))\<rparr>"

definition persist_state ::
  "broker_env \<Rightarrow> active_decision \<Rightarrow> decision_response option \<Rightarrow> int option \<Rightarrow> string option \<Rightarrow>
   broker \<Rightarrow> broker" where
  "persist_state env a response responded_at_ms detail =
     audit (update_delivery (be_store env) (dr_id (ac_request a)) (wire_state (ac_state a))
       response responded_at_ms detail)"

definition finalize_expired :: "broker_env \<Rightarrow> active_decision \<Rightarrow> broker \<Rightarrow> broker" where
  "finalize_expired env a =
     audit (update_delivery (be_store env) (dr_id (ac_request a)) DExpired None None
       (Some ''decision window elapsed''))"

definition put_active :: "string \<Rightarrow> active_decision \<Rightarrow> broker \<Rightarrow> broker" where
  "put_active i a b = b\<lparr>br_active := AList.update i a (br_active b)\<rparr>"

definition drop_active :: "string \<Rightarrow> broker \<Rightarrow> broker" where
  "drop_active i b = b\<lparr>br_active := AList.delete i (br_active b)\<rparr>"

definition find_active :: "string \<Rightarrow> broker \<Rightarrow> active_decision option" where
  "find_active i b = map_of (br_active b) i"

definition drop_waiter :: "string \<Rightarrow> broker \<Rightarrow> broker" where
  "drop_waiter i b = b\<lparr>br_waiters := AList.delete i (br_waiters b)\<rparr>"

definition enlist_waiter :: "string \<Rightarrow> broker \<Rightarrow> nat \<times> broker" where
  "enlist_waiter nonce b =
     (case map_of (br_waiters b) nonce of
        Some k \<Rightarrow> (k, b)
      | None \<Rightarrow> (br_next_notify b,
          b\<lparr>br_waiters := AList.update nonce (br_next_notify b) (br_waiters b),
            br_next_notify := Suc (br_next_notify b)\<rparr>))"

fun validate_response :: "decision_response \<Rightarrow> (broker_error, unit) outcome" where
  "validate_response (Action action) = Ok ()"
| "validate_response (Answer text) = Err (InvalidResponse ''question answers are unsupported in protocol v1'')"

section \<open>Tasks\<close>

text \<open>
  The program counters of the calls. A \<open>Wait\<close> task runs \<open>handle_wait\<close>, with \<open>WaitExpire\<close> and the two
  tasks after it inside \<open>expire_decision\<close>; a \<open>Submit\<close> task runs \<open>submit_decision\<close>, a \<open>Confirm\<close>, \<open>Fail\<close>,
  \<open>Observe\<close> or \<open>List\<close> task the method of that name.
\<close>

datatype task =
    WaitStart wait_payload
  | WaitStore wait_payload
  | WaitEnlist wait_payload
  | WaitInsert wait_payload nat
  | WaitSubscribe string nat
  | Waiting string nat bool
  | WaitExpire string
  | WaitExpireRestore string active_decision
  | WaitExpireStore string active_decision
  | WaitReply string
  | WaitRetain string decision_reply
  | WaitForget string decision_reply
  | WaitUnlist string decision_reply
  | WaitDone string decision_reply
  | SubmitStart string decision_response
  | SubmitLock string decision_response int
  | SubmitExpireStore string active_decision
  | SubmitExpireRemove string
  | SubmitWake string bool "(broker_error, decision_response_record) outcome"
  | SubmitDone string "(broker_error, decision_response_record) outcome"
  | ConfirmStart string
  | ConfirmRemove string
  | FailStart string string
  | FailRemove string
  | ObserveStart string string
  | UnitDone string "(broker_error, unit) outcome"
  | ListStart
  | ListMerge int "decision_request list"
  | ListDone "(broker_error, decision_request list) outcome"

fun finished :: "task \<Rightarrow> bool" where
  "finished (WaitDone n r) = True"
| "finished (SubmitDone i r) = True"
| "finished (UnitDone i r) = True"
| "finished (ListDone r) = True"
| "finished t = False"

text \<open>The tasks whose next step takes the lock of the table of active decisions.\<close>

fun needs_table :: "task \<Rightarrow> bool" where
  "needs_table (WaitStart p) = True"
| "needs_table (WaitInsert p k) = True"
| "needs_table (WaitExpire n) = True"
| "needs_table (WaitExpireRestore n a) = True"
| "needs_table (WaitReply n) = True"
| "needs_table (WaitRetain n r) = True"
| "needs_table (WaitForget n r) = True"
| "needs_table (SubmitLock i resp t) = True"
| "needs_table (SubmitExpireRemove i) = True"
| "needs_table (ConfirmStart i) = True"
| "needs_table (ConfirmRemove i) = True"
| "needs_table (FailStart i d) = True"
| "needs_table (FailRemove i) = True"
| "needs_table (ObserveStart i e) = True"
| "needs_table (ListMerge t ps) = True"
| "needs_table t = False"

text \<open>What the statements below remember of a run.\<close>

datatype broker_event =
    Registered wait_payload
  | Accepted string decision_response int
  | Confirmed string
  | EffectSeen string

section \<open>One step of each call\<close>

definition wait_check :: "wait_payload \<Rightarrow> broker \<Rightarrow> task" where
  "wait_check p b =
     (case find_active (wp_nonce p) b of
        None \<Rightarrow> WaitStore p
      | Some existing \<Rightarrow>
          if ac_connection_id existing \<noteq> wp_connection_id p
          then WaitDone (wp_nonce p) (fail_open_reply (wp_nonce p))
          else if state_is_terminal (ac_state existing)
          then WaitDone (wp_nonce p) (replay_terminal (wp_nonce p) existing)
          else WaitStore p)"

definition wait_upsert :: "broker_env \<Rightarrow> wait_payload \<Rightarrow> broker \<Rightarrow> broker" where
  "wait_upsert env p =
     audit (upsert_active (new_request env p) (wp_vendor_event p) (wp_external_session_id p)
       (wp_connection_id p) DPending)"

definition expire_decision :: "string \<Rightarrow> broker \<Rightarrow> task \<times> broker" where
  "expire_decision nonce b =
     (case find_active nonce b of
        None \<Rightarrow> (WaitReply nonce, b)
      | Some a \<Rightarrow>
          if state_is_terminal (ac_state a) then (WaitExpireRestore nonce a, drop_active nonce b)
          else (WaitExpireStore nonce (a\<lparr>ac_state := IExpired\<rparr>), drop_active nonce b))"

definition wait_reply :: "string \<Rightarrow> broker \<Rightarrow> decision_reply" where
  "wait_reply nonce b =
     (case find_active nonce b of
        None \<Rightarrow> neutral_reply nonce DExpired
      | Some a \<Rightarrow> reply_for_active nonce a)"

definition retain_active :: "string \<Rightarrow> broker \<Rightarrow> bool" where
  "retain_active nonce b =
     (case find_active nonce b of None \<Rightarrow> False | Some a \<Rightarrow> state_is_chosen (ac_state a))"

definition ADAPTER_DISABLED :: string where
  "ADAPTER_DISABLED = ''decision responses disabled for this adapter''"

definition NEUTRAL_NOT_DELIVERED :: string where
  "NEUTRAL_NOT_DELIVERED = ''fail-open neutral output cannot be reported as delivered''"

text \<open>The part of \<open>submit_decision\<close> under the first lock, and the rest of it as the task to run.\<close>

definition submit_failed ::
  "broker_env \<Rightarrow> string \<Rightarrow> active_decision \<Rightarrow> decision_response option \<Rightarrow> int \<Rightarrow> string \<Rightarrow>
   broker \<Rightarrow> task \<times> broker" where
  "submit_failed env i a response now detail b =
     (let a' = a\<lparr>ac_state := IFailed detail\<rparr>
      in (SubmitWake i True (Err (AdapterFailed detail)),
          persist_state env a' response (Some now) (Some detail) ((put_active i a' b)\<lparr>br_held := True\<rparr>)))"

definition submit_decision ::
  "broker_env \<Rightarrow> string \<Rightarrow> decision_response \<Rightarrow> int \<Rightarrow> broker \<Rightarrow>
   task \<times> broker \<times> broker_event list" where
  "submit_decision env i response now b =
     (case find_active i b of
        None \<Rightarrow> (SubmitDone i (Err DecisionNotFound), b, [])
      | Some a \<Rightarrow>
          if ac_state a \<noteq> IPending then (SubmitDone i (Err AlreadyFinalized), b, [])
          else if now \<ge> ac_expires_at_ms a then (SubmitExpireStore i a, b, [])
          else if \<not> dr_has_actionable_payload (ac_request a) then (SubmitDone i (Err NotActionable), b, [])
          else (case build_stdout_for_active env a response of
              Panic m \<Rightarrow> (SubmitDone i (Panic m), b, [])
            | Err e \<Rightarrow>
                (case (if e = CapabilityDisabled
                       then submit_failed env i a (Some response) now ADAPTER_DISABLED b
                       else submit_failed env i a None now (adapter_error_text e) b) of
                   (t, b') \<Rightarrow> (t, b', []))
            | Ok out \<Rightarrow>
                if out = neutral_stdout
                then (case submit_failed env i a (Some response) now NEUTRAL_NOT_DELIVERED b of
                   (t, b') \<Rightarrow> (t, b', []))
                else
                  let a' = a\<lparr>ac_state := IChosen response now out\<rparr>
                  in (SubmitWake i True (Ok (response_record response now a')),
                      persist_state env a' (Some response) (Some now) None
                        ((put_active i a' b)\<lparr>br_held := True\<rparr>),
                      [Accepted i response now])))"

definition confirm_delivery :: "broker_env \<Rightarrow> string \<Rightarrow> broker \<Rightarrow> task \<times> broker \<times> broker_event list" where
  "confirm_delivery env i b =
     (case find_active i b of
        None \<Rightarrow> (UnitDone i (Err DecisionNotFound), b, [])
      | Some a \<Rightarrow>
          (case ac_state a of
             IChosen r t out \<Rightarrow>
               let a' = a\<lparr>ac_state := IDelivered out t\<rparr>
               in (ConfirmRemove i, persist_state env a' None None None (put_active i a' b), [Confirmed i])
           | _ \<Rightarrow> (UnitDone i (Err AlreadyFinalized), b, [])))"

definition fail_delivery :: "broker_env \<Rightarrow> string \<Rightarrow> string \<Rightarrow> broker \<Rightarrow> task \<times> broker" where
  "fail_delivery env i detail b =
     (case find_active i b of
        None \<Rightarrow> (UnitDone i (Err DecisionNotFound), b)
      | Some a \<Rightarrow>
          if state_is_chosen (ac_state a) then
            (let a' = a\<lparr>ac_state := IFailed detail\<rparr>
             in (FailRemove i, persist_state env a' None None (Some detail) (put_active i a' b)))
          else (UnitDone i (Err AlreadyFinalized), b))"

definition observe_effect ::
  "broker_env \<Rightarrow> string \<Rightarrow> string \<Rightarrow> int \<Rightarrow> broker \<Rightarrow> task \<times> broker \<times> broker_event list" where
  "observe_effect env i evidence now b =
     (case find_active i b of
        None \<Rightarrow> (UnitDone i (Err DecisionNotFound), b, [])
      | Some a \<Rightarrow>
          (case ac_state a of
             IDelivered out t \<Rightarrow>
               (UnitDone i (Ok ()),
                audit (update_delivery (be_store env) i DEffectObserved None None (Some evidence))
                  (put_active i (a\<lparr>ac_state := IEffectObserved evidence now\<rparr>) b),
                [EffectSeen i])
           | _ \<Rightarrow> (UnitDone i (Err AlreadyFinalized), b, [])))"

text \<open>The in-memory entries \<open>list_pending\<close> adds to what the store returned.\<close>

definition pending_in_memory :: "broker_env \<Rightarrow> int \<Rightarrow> broker \<Rightarrow> decision_request list" where
  "pending_in_memory env now b =
     map ac_request (filter (\<lambda>a. ac_state a = IPending \<and> now < ac_expires_at_ms a)
       (hm_values (be_order env) (br_active b)))"

fun add_unseen :: "decision_request list \<Rightarrow> decision_request list \<Rightarrow> decision_request list" where
  "add_unseen pending [] = pending"
| "add_unseen pending (r # rs) =
     add_unseen (if dr_id r \<in> dr_id ` set pending then pending else pending @ [r]) rs"

definition merge_pending :: "broker_env \<Rightarrow> int \<Rightarrow> decision_request list \<Rightarrow> broker \<Rightarrow> decision_request list" where
  "merge_pending env now pending b =
     sort_key dr_created_at_ms (add_unseen pending (pending_in_memory env now b))"

text \<open>
  A step yields the task that remains, the broker, the \<open>Notify\<close> that was signalled and what is
  remembered; \<open>None\<close> when the task cannot run now.
\<close>

type_synonym step_result = "task \<times> broker \<times> nat option \<times> broker_event list"

definition quiet :: "task \<Rightarrow> broker \<Rightarrow> step_result" where
  "quiet t b = (t, b, None, [])"

fun task_step :: "broker_env \<Rightarrow> int \<Rightarrow> task \<Rightarrow> broker \<Rightarrow> step_result option" where
  "task_step env now (WaitStart p) b = Some (quiet (wait_check p b) b)"
| "task_step env now (WaitStore p) b = Some (quiet (WaitEnlist p) (wait_upsert env p b))"
| "task_step env now (WaitEnlist p) b =
     (case enlist_waiter (wp_nonce p) b of (k, b') \<Rightarrow> Some (quiet (WaitInsert p k) b'))"
| "task_step env now (WaitInsert p k) b =
     Some (WaitSubscribe (wp_nonce p) k, put_active (wp_nonce p) (new_active env p) b, None, [Registered p])"
| "task_step env now (WaitSubscribe n k) b = Some (quiet (Waiting n k False) b)"
| "task_step env now (Waiting n k woken) b = (if woken then Some (quiet (WaitReply n) b) else None)"
| "task_step env now (WaitExpire n) b =
     (case expire_decision n b of (t, b') \<Rightarrow> Some (quiet t b'))"
| "task_step env now (WaitExpireRestore n a) b = Some (quiet (WaitReply n) (put_active n a b))"
| "task_step env now (WaitExpireStore n a) b = Some (quiet (WaitReply n) (finalize_expired env a b))"
| "task_step env now (WaitReply n) b = Some (quiet (WaitRetain n (wait_reply n b)) b)"
| "task_step env now (WaitRetain n r) b =
     Some (quiet (if retain_active n b then WaitUnlist n r else WaitForget n r) b)"
| "task_step env now (WaitForget n r) b = Some (quiet (WaitUnlist n r) (drop_active n b))"
| "task_step env now (WaitUnlist n r) b = Some (quiet (WaitDone n r) (drop_waiter n b))"
| "task_step env now (SubmitStart i response) b =
     Some (quiet (case validate_response response of
         Ok u \<Rightarrow> SubmitLock i response now
       | Err e \<Rightarrow> SubmitDone i (Err e)
       | Panic m \<Rightarrow> SubmitDone i (Panic m)) b)"
| "task_step env now (SubmitLock i response t) b =
     (case submit_decision env i response t b of (task, b', evs) \<Rightarrow> Some (task, b', None, evs))"
| "task_step env now (SubmitExpireStore i a) b = Some (quiet (SubmitExpireRemove i) (finalize_expired env a b))"
| "task_step env now (SubmitExpireRemove i) b =
     Some (quiet (SubmitWake i False (Err DecisionExpired)) (drop_active i b))"
| "task_step env now (SubmitWake i held result) b =
     Some (SubmitDone i result, (drop_waiter i b)\<lparr>br_held := (br_held b \<and> \<not> held)\<rparr>,
       map_of (br_waiters b) i, [])"
| "task_step env now (ConfirmStart i) b =
     (case confirm_delivery env i b of (task, b', evs) \<Rightarrow> Some (task, b', None, evs))"
| "task_step env now (ConfirmRemove i) b = Some (quiet (UnitDone i (Ok ())) (drop_active i b))"
| "task_step env now (FailStart i detail) b =
     (case fail_delivery env i detail b of (task, b') \<Rightarrow> Some (quiet task b'))"
| "task_step env now (FailRemove i) b = Some (quiet (UnitDone i (Ok ())) (drop_active i b))"
| "task_step env now (ObserveStart i evidence) b =
     (case observe_effect env i evidence now b of (task, b', evs) \<Rightarrow> Some (task, b', None, evs))"
| "task_step env now ListStart b =
     (case list_pending_requests (be_store env) now (br_store b) of
        (Ok pending, db) \<Rightarrow> Some (quiet (ListMerge now pending) (b\<lparr>br_store := db\<rparr>))
      | (Err e, db) \<Rightarrow> Some (quiet (ListDone (Err (StoreFailed e))) (b\<lparr>br_store := db\<rparr>))
      | (Panic m, db) \<Rightarrow> Some (quiet (ListDone (Panic m)) (b\<lparr>br_store := db\<rparr>)))"
| "task_step env now (ListMerge t pending) b = Some (quiet (ListDone (Ok (merge_pending env t pending b))) b)"
| "task_step env now (WaitDone n r) b = None"
| "task_step env now (SubmitDone i r) b = None"
| "task_step env now (UnitDone i r) b = None"
| "task_step env now (ListDone r) b = None"

section \<open>Interleavings\<close>

record broker_system =
  sy_broker :: broker
  sy_tasks :: "task list"
  sy_log :: "broker_event list"

datatype choice = Spawn task | Run nat int | Fire nat

fun wake :: "nat option \<Rightarrow> task \<Rightarrow> task" where
  "wake (Some k) (Waiting n k' w) = Waiting n k' (w \<or> k = k')"
| "wake k t = t"

text \<open>A call begins where its method does.\<close>

fun initial_task :: "task \<Rightarrow> bool" where
  "initial_task (WaitStart p) = True"
| "initial_task (SubmitStart i r) = True"
| "initial_task (ConfirmStart i) = True"
| "initial_task (FailStart i d) = True"
| "initial_task (ObserveStart i e) = True"
| "initial_task ListStart = True"
| "initial_task t = False"

fun perform :: "broker_env \<Rightarrow> choice \<Rightarrow> broker_system \<Rightarrow> broker_system option" where
  "perform env (Spawn t) s = (if initial_task t then Some (s\<lparr>sy_tasks := sy_tasks s @ [t]\<rparr>) else None)"
| "perform env (Run i now) s =
     (if i < length (sy_tasks s) \<and> \<not> (needs_table (sy_tasks s ! i) \<and> br_held (sy_broker s)) then
        (case task_step env now (sy_tasks s ! i) (sy_broker s) of
           None \<Rightarrow> None
         | Some (t, b, k, evs) \<Rightarrow>
             Some \<lparr>sy_broker = b, sy_tasks = map (wake k) ((sy_tasks s)[i := t]), sy_log = sy_log s @ evs\<rparr>)
      else None)"
| "perform env (Fire i) s =
     (if i < length (sy_tasks s) then
        (case sy_tasks s ! i of
           Waiting n k w \<Rightarrow> Some (s\<lparr>sy_tasks := (sy_tasks s)[i := WaitExpire n]\<rparr>)
         | _ \<Rightarrow> None)
      else None)"

fun run_schedule :: "broker_env \<Rightarrow> choice list \<Rightarrow> broker_system \<Rightarrow> broker_system option" where
  "run_schedule env [] s = Some s"
| "run_schedule env (c # cs) s = Option.bind (perform env c s) (run_schedule env cs)"

definition system_start :: "decision_db \<Rightarrow> broker_event list \<Rightarrow> broker_system" where
  "system_start db past = \<lparr>sy_broker = broker_new db, sy_tasks = [], sy_log = past\<rparr>"

inductive reachable :: "broker_env \<Rightarrow> decision_db \<Rightarrow> broker_event list \<Rightarrow> broker_system \<Rightarrow> bool"
  for env db past where
  start: "reachable env db past (system_start db past)"
| next_step: "reachable env db past s \<Longrightarrow> perform env c s = Some t \<Longrightarrow> reachable env db past t"

end
