(* ===== verification/Decision_Safety.thy ===== *)
theory Decision_Safety
  imports Decision_Broker
begin

text \<open>
  What the broker promises in every interleaving: an answer a hook receives was given by the user,
  in time, to that request; the audit trail never claims a delivery nobody reported; a registration
  takes one answer; every call can return.
\<close>

section \<open>Invariants of all interleavings\<close>

text \<open>
  An invariant of the broker and one of each task, both relative to what happened so far. A client
  shows that the steps of a single task keep both; that they hold in every reachable state follows
  once for all clients.
\<close>

locale broker_invariant =
  fixes env :: broker_env
    and G :: "broker_event list \<Rightarrow> broker \<Rightarrow> bool"
    and L :: "broker_event list \<Rightarrow> task \<Rightarrow> bool"
  assumes initial: "initial_task t \<Longrightarrow> L l t"
    and later: "L l t \<Longrightarrow> L (l @ evs) t"
    and woken: "L l t \<Longrightarrow> L l (wake k t)"
    and fired: "L l (Waiting n h w) \<Longrightarrow> L l (WaitExpire n)"
    and stepped: "G l b \<Longrightarrow> L l t \<Longrightarrow> task_step env now t b = Some (t', b', k, evs) \<Longrightarrow>
      G (l @ evs) b' \<and> L (l @ evs) t'"
begin

definition holds :: "broker_system \<Rightarrow> bool" where
  "holds s \<longleftrightarrow> G (sy_log s) (sy_broker s) \<and> (\<forall>t\<in>set (sy_tasks s). L (sy_log s) t)"

lemma perform_holds:
  assumes "holds s" and "perform env c s = Some s'"
  shows "holds s'"
proof (cases c)
  case (Spawn t)
  with assms initial show ?thesis by (auto simp: holds_def split: if_splits)
next
  case (Fire i)
  with assms(2) obtain n k w where i: "i < length (sy_tasks s)" "sy_tasks s ! i = Waiting n k w"
    and s': "s' = s\<lparr>sy_tasks := (sy_tasks s)[i := WaitExpire n]\<rparr>"
    by (auto split: if_splits task.splits)
  from i assms(1) have "L (sy_log s) (WaitExpire n)"
    by (metis fired holds_def nth_mem)
  with assms(1) s' show ?thesis by (auto simp: holds_def dest!: set_update_subset_insert [THEN subsetD])
next
  case (Run i now)
  with assms(2) obtain t b k evs where i: "i < length (sy_tasks s)"
    and st: "task_step env now (sy_tasks s ! i) (sy_broker s) = Some (t, b, k, evs)"
    and s': "s' = \<lparr>sy_broker = b, sy_tasks = map (wake k) ((sy_tasks s)[i := t]), sy_log = sy_log s @ evs\<rparr>"
    by (auto split: if_splits option.splits)
  from i assms(1) have "G (sy_log s) (sy_broker s)" "L (sy_log s) (sy_tasks s ! i)"
    by (auto simp: holds_def)
  from stepped [OF this st] have new: "G (sy_log s @ evs) b" "L (sy_log s @ evs) t" by auto
  have "L (sy_log s @ evs) u" if "u \<in> set ((sy_tasks s)[i := t])" for u
    using that assms(1) new(2) later by (auto simp: holds_def dest!: set_update_subset_insert [THEN subsetD])
  with new(1) woken s' show ?thesis by (auto simp: holds_def)
qed

lemma reachable_holds:
  assumes "reachable env db past s" and "G past (broker_new db)"
  shows "holds s"
  using assms
proof (induction rule: reachable.induct)
  case start
  then show ?case by (simp add: holds_def system_start_def)
qed (auto intro: perform_holds)

end

section \<open>The parts of the broker\<close>

lemma active_audit [simp]: "br_active (audit m b) = br_active b"
  by (simp add: audit_def)

lemma active_ops [simp]:
  "br_active (persist_state env a r t d b) = br_active b"
  "br_active (finalize_expired env a b) = br_active b"
  "br_active (wait_upsert env p b) = br_active b"
  "br_active (drop_waiter i b) = br_active b"
  by (simp_all add: persist_state_def finalize_expired_def wait_upsert_def drop_waiter_def)

lemma active_enlist: "enlist_waiter n b = (k, b') \<Longrightarrow> br_active b' = br_active b \<and> br_store b' = br_store b"
  by (auto simp: enlist_waiter_def split: option.splits)

lemma find_active_cong: "br_active b = br_active b' \<Longrightarrow> find_active i b = find_active i b'"
  by (simp add: find_active_def)

lemma find_put_active [simp]: "find_active i (put_active j a b) = (if i = j then Some a else find_active i b)"
  by (simp add: find_active_def put_active_def)

lemma find_drop_active [simp]: "find_active i (drop_active j b) = (if i = j then None else find_active i b)"
  by (simp add: find_active_def drop_active_def)

lemma find_active_updates [simp]:
  "find_active i (b\<lparr>br_held := h\<rparr>) = find_active i b"
  "find_active i (b\<lparr>br_store := db\<rparr>) = find_active i b"
  by (simp_all add: find_active_def)

lemma find_active_ops [simp]:
  "find_active i (audit m b) = find_active i b"
  "find_active i (persist_state env a r t d b) = find_active i b"
  "find_active i (finalize_expired env a b) = find_active i b"
  "find_active i (wait_upsert env p b) = find_active i b"
  "find_active i (drop_waiter j b) = find_active i b"
  by (simp_all add: find_active_def)

lemmas step_defs = quiet_def wait_check_def expire_decision_def wait_reply_def retain_active_def
  submit_decision_def submit_failed_def confirm_delivery_def fail_delivery_def observe_effect_def

section \<open>Answers are the user's\<close>

definition chosen_by ::
  "broker_env \<Rightarrow> broker_event list \<Rightarrow> wait_payload \<Rightarrow> decision_response \<Rightarrow> int \<Rightarrow> string \<Rightarrow> bool" where
  "chosen_by env l p response t out \<longleftrightarrow>
     Accepted (wp_nonce p) response t \<in> set l \<and> wp_has_actionable_payload p \<and> t < expiry_of env p \<and>
     build_vendor_stdout env (wp_source p) (wp_respondable_hook p) response (wp_vendor_context p) = Ok out \<and>
     out \<noteq> neutral_stdout"

fun state_sound :: "broker_env \<Rightarrow> broker_event list \<Rightarrow> wait_payload \<Rightarrow> internal_state \<Rightarrow> bool" where
  "state_sound env l p (IChosen r t out) = chosen_by env l p r t out"
| "state_sound env l p (IDelivered out t) = (\<exists>r. chosen_by env l p r t out)"
| "state_sound env l p s = True"

definition sound_active :: "broker_env \<Rightarrow> broker_event list \<Rightarrow> string \<Rightarrow> active_decision \<Rightarrow> bool" where
  "sound_active env l i a \<longleftrightarrow>
     (\<exists>p s. Registered p \<in> set l \<and> wp_nonce p = i \<and> a = (new_active env p)\<lparr>ac_state := s\<rparr> \<and>
            state_sound env l p s)"

definition sound_table :: "broker_env \<Rightarrow> broker_event list \<Rightarrow> broker \<Rightarrow> bool" where
  "sound_table env l b \<longleftrightarrow> (\<forall>i a. find_active i b = Some a \<longrightarrow> sound_active env l i a)"

definition sound_reply :: "broker_env \<Rightarrow> broker_event list \<Rightarrow> string \<Rightarrow> decision_reply \<Rightarrow> bool" where
  "sound_reply env l n r \<longleftrightarrow> rp_nonce r = n \<and>
     (rp_stdout_json r \<noteq> neutral_stdout \<longrightarrow>
      (\<exists>p response t. Registered p \<in> set l \<and> wp_nonce p = n \<and> chosen_by env l p response t (rp_stdout_json r)))"

fun sound_task :: "broker_env \<Rightarrow> broker_event list \<Rightarrow> task \<Rightarrow> bool" where
  "sound_task env l (WaitExpireRestore n a) = sound_active env l n a"
| "sound_task env l (WaitRetain n r) = sound_reply env l n r"
| "sound_task env l (WaitForget n r) = sound_reply env l n r"
| "sound_task env l (WaitUnlist n r) = sound_reply env l n r"
| "sound_task env l (WaitDone n r) = sound_reply env l n r"
| "sound_task env l t = True"

lemma chosen_by_later: "chosen_by env l p r t out \<Longrightarrow> chosen_by env (l @ evs) p r t out"
  by (auto simp: chosen_by_def)

lemma state_sound_later: "state_sound env l p s \<Longrightarrow> state_sound env (l @ evs) p s"
  by (cases s) (auto intro: chosen_by_later)

lemma sound_active_later: "sound_active env l i a \<Longrightarrow> sound_active env (l @ evs) i a"
  unfolding sound_active_def by (auto intro: state_sound_later)

lemma sound_table_later: "sound_table env l b \<Longrightarrow> sound_table env (l @ evs) b"
  unfolding sound_table_def by (auto intro: sound_active_later)

lemma sound_reply_later: "sound_reply env l n r \<Longrightarrow> sound_reply env (l @ evs) n r"
  unfolding sound_reply_def by (auto intro: chosen_by_later)

lemma sound_tableD: "sound_table env l b \<Longrightarrow> find_active i b = Some a \<Longrightarrow> sound_active env l i a"
  by (simp add: sound_table_def)

lemma sound_table_put:
  "sound_table env l b \<Longrightarrow> sound_active env l i a \<Longrightarrow> sound_table env l (put_active i a b)"
  by (simp add: sound_table_def)

lemma sound_table_drop: "sound_table env l b \<Longrightarrow> sound_table env l (drop_active i b)"
  by (simp add: sound_table_def)

lemma sound_table_frame [simp]:
  "sound_table env l (persist_state e a r t d b) = sound_table env l b"
  "sound_table env l (finalize_expired e a b) = sound_table env l b"
  "sound_table env l (wait_upsert e p b) = sound_table env l b"
  "sound_table env l (drop_waiter i b) = sound_table env l b"
  "sound_table env l (audit m b) = sound_table env l b"
  "sound_table env l (b\<lparr>br_held := h\<rparr>) = sound_table env l b"
  "sound_table env l (b\<lparr>br_store := db\<rparr>) = sound_table env l b"
  by (simp_all add: sound_table_def)

lemma sound_neutral [simp]: "sound_reply env l n (neutral_reply n d)"
  by (simp add: sound_reply_def neutral_reply_def)

lemma sound_stdout:
  "Registered p \<in> set l \<Longrightarrow> wp_nonce p = n \<Longrightarrow> chosen_by env l p r t out \<Longrightarrow>
   sound_reply env l n (stdout_reply n out d)"
  by (auto simp: sound_reply_def stdout_reply_def)

lemma sound_reply_for_active: "sound_active env l n a \<Longrightarrow> sound_reply env l n (reply_for_active n a)"
  unfolding sound_active_def reply_for_active_def
  by (auto intro: sound_stdout split: internal_state.splits)

lemma sound_replay: "sound_active env l n a \<Longrightarrow> sound_reply env l n (replay_terminal n a)"
  unfolding sound_active_def replay_terminal_def
  by (auto intro: sound_stdout split: internal_state.splits)

text \<open>Replacing the state of an entry by one that needs no answer.\<close>

lemma sound_active_state:
  "sound_active env l i a \<Longrightarrow> (\<And>p. state_sound env l p s) \<Longrightarrow> sound_active env l i (a\<lparr>ac_state := s\<rparr>)"
  unfolding sound_active_def by fastforce

lemma sound_active_new: "Registered p \<in> set l \<Longrightarrow> sound_active env l (wp_nonce p) (new_active env p)"
  unfolding sound_active_def by (intro exI [of _ p] exI [of _ IPending]) (simp add: new_active_def)

lemma sound_active_chosen:
  assumes "sound_active env l i a" and "t < ac_expires_at_ms a"
    and "dr_has_actionable_payload (ac_request a)"
    and "build_stdout_for_active env a response = Ok out" and "out \<noteq> neutral_stdout"
  shows "sound_active env (l @ [Accepted i response t]) i (a\<lparr>ac_state := IChosen response t out\<rparr>)"
proof -
  from assms(1) obtain p s where p: "Registered p \<in> set l" "wp_nonce p = i"
    and a: "a = (new_active env p)\<lparr>ac_state := s\<rparr>"
    unfolding sound_active_def by blast
  from assms(2-5) p(2) have "chosen_by env (l @ [Accepted i response t]) p response t out"
    by (simp add: a chosen_by_def new_active_def new_request_def build_stdout_for_active_def)
  with p show ?thesis
    unfolding sound_active_def
    by (intro exI [of _ p] exI [of _ "IChosen response t out"]) (simp add: a)
qed

lemma sound_submit:
  assumes "sound_table env l b" and "submit_decision env i response now b = (t', b', evs)"
  shows "sound_table env (l @ evs) b' \<and> sound_task env (l @ evs) t'"
proof (cases "find_active i b")
  case None
  with assms show ?thesis by (auto simp: submit_decision_def)
next
  case (Some a)
  note a = sound_tableD [OF assms(1) Some]
  have failed: "sound_table env l (put_active i (a\<lparr>ac_state := IFailed d\<rparr>) b)" for d
    by (rule sound_table_put [OF assms(1) sound_active_state [OF a]]) simp
  show ?thesis
  proof (cases "\<exists>out. build_stdout_for_active env a response = Ok out \<and> out \<noteq> neutral_stdout \<and>
      ac_state a = IPending \<and> now < ac_expires_at_ms a \<and> dr_has_actionable_payload (ac_request a)")
    case True
    then obtain out where out: "build_stdout_for_active env a response = Ok out" "out \<noteq> neutral_stdout"
      "ac_state a = IPending" "now < ac_expires_at_ms a" "dr_has_actionable_payload (ac_request a)"
      by blast
    have "sound_table env (l @ [Accepted i response now]) (put_active i (a\<lparr>ac_state := IChosen response now out\<rparr>) b)"
      by (rule sound_table_put [OF sound_table_later [OF assms(1)] sound_active_chosen [OF a out(4,5,1,2)]])
    with out assms(2) Some show ?thesis by (auto simp: submit_decision_def Let_def)
  next
    case False
    with assms failed Some show ?thesis
      by (auto simp: submit_decision_def submit_failed_def Let_def
          split: if_splits outcome.splits prod.splits)
  qed
qed

lemma sound_confirm:
  assumes "sound_table env l b" and "confirm_delivery env i b = (t', b', evs)"
  shows "sound_table env (l @ evs) b' \<and> sound_task env (l @ evs) t'"
proof -
  have "sound_active env l i (a\<lparr>ac_state := IDelivered out t\<rparr>)"
    if "find_active i b = Some a" "ac_state a = IChosen r t out" for a r t out
    using sound_tableD [OF assms(1) that(1)] that(2) unfolding sound_active_def by fastforce
  then show ?thesis
    using assms sound_table_later [OF assms(1)]
    by (auto simp: confirm_delivery_def Let_def intro!: sound_table_put sound_active_later
        split: option.splits internal_state.splits)
qed

lemma sound_observe:
  assumes "sound_table env l b" and "observe_effect env i e now b = (t', b', evs)"
  shows "sound_table env (l @ evs) b' \<and> sound_task env (l @ evs) t'"
  using assms sound_table_later [OF assms(1)]
  by (auto simp: observe_effect_def intro!: sound_table_put sound_active_later sound_active_state
      dest: sound_tableD split: option.splits internal_state.splits)

lemma sound_fail:
  assumes "sound_table env l b" and "fail_delivery env i d b = (t', b')"
  shows "sound_table env l b' \<and> sound_task env l t'"
  using assms
  by (auto simp: fail_delivery_def Let_def intro!: sound_table_put sound_active_state
      dest: sound_tableD split: option.splits if_splits)

lemma sound_wait_check: "sound_table env l b \<Longrightarrow> sound_task env l (wait_check p b)"
  by (auto simp: wait_check_def fail_open_reply_def intro!: sound_replay dest: sound_tableD
      split: option.splits)

lemma sound_expire:
  "sound_table env l b \<Longrightarrow> expire_decision n b = (t', b') \<Longrightarrow> sound_table env l b' \<and> sound_task env l t'"
  by (auto simp: expire_decision_def intro!: sound_table_drop dest: sound_tableD split: option.splits if_splits)

lemma sound_wait_reply: "sound_table env l b \<Longrightarrow> sound_reply env l n (wait_reply n b)"
  by (auto simp: wait_reply_def intro!: sound_reply_for_active dest: sound_tableD split: option.splits)

lemma sound_enlist: "sound_table env l b \<Longrightarrow> enlist_waiter n b = (k, b') \<Longrightarrow> sound_table env l b'"
  by (auto simp: sound_table_def find_active_def dest: active_enlist)

lemma sound_step:
  assumes "sound_table env l b" and "sound_task env l t"
    and "task_step env now t b = Some (t', b', k, evs)"
  shows "sound_table env (l @ evs) b' \<and> sound_task env (l @ evs) t'"
proof (cases t)
  case (WaitInsert p k')
  with assms show ?thesis
    using sound_table_put [OF sound_table_later [OF assms(1)] sound_active_new [of p "l @ [Registered p]"]]
    by auto
next
  case (WaitEnlist p)
  with assms show ?thesis by (auto simp: quiet_def dest: sound_enlist split: prod.splits)
next
  case (WaitExpire n)
  with assms show ?thesis by (auto simp: quiet_def dest: sound_expire split: prod.splits)
next
  case (SubmitLock i r t0)
  with assms show ?thesis by (auto dest: sound_submit split: prod.splits)
next
  case (ConfirmStart i)
  with assms show ?thesis by (auto dest: sound_confirm split: prod.splits)
next
  case (ObserveStart i e)
  with assms show ?thesis by (auto dest: sound_observe split: prod.splits)
next
  case (FailStart i d)
  with assms show ?thesis by (auto simp: quiet_def dest: sound_fail split: prod.splits)
next
  case (Waiting n k' w)
  with assms show ?thesis by (auto simp: quiet_def split: if_splits)
next
  case (SubmitStart i r)
  with assms show ?thesis by (auto simp: quiet_def split: outcome.splits)
next
  case ListStart
  with assms show ?thesis by (auto simp: quiet_def split: outcome.splits prod.splits)
qed (use assms in \<open>auto simp: quiet_def sound_wait_check sound_wait_reply
      intro: sound_table_drop sound_table_put split: if_splits\<close>)

lemma sound_task_later: "sound_task env l t \<Longrightarrow> sound_task env (l @ evs) t"
  by (cases t) (auto intro: sound_active_later sound_reply_later)

lemma sound_task_wake: "sound_task env l t \<Longrightarrow> sound_task env l (wake k t)"
  by (cases "(k, t)" rule: wake.cases) auto

interpretation answers: broker_invariant env "sound_table env" "sound_task env" for env
  by unfold_locales
    (auto dest: sound_step intro: sound_task_later sound_task_wake elim: initial_task.elims)

text \<open>
  (C23) Fail-open: a hook that waits is told nothing, or exactly what the user answered. In every
  interleaving of waits, answers, delivery reports and timeouts, a reply other than the neutral
  \<open>{}\<close> carries the vendor output for a response the user submitted for this request, before it
  expired, and only for a request that was registered as actionable by a source and version
  with a verified response path.
\<close>

theorem replies_are_user_answers:
  assumes "reachable env db past s" and "WaitDone nonce reply \<in> set (sy_tasks s)"
    and "rp_stdout_json reply \<noteq> neutral_stdout"
  shows "\<exists>p action t. Registered p \<in> set (sy_log s) \<and> wp_nonce p = nonce \<and>
    Accepted nonce (Action action) t \<in> set (sy_log s) \<and> t < expiry_of env p \<and>
    wp_has_actionable_payload p \<and> wp_source p \<in> {ClaudeCode, Qwen} \<and>
    build_claude_stdout env (wp_respondable_hook p) action (wp_vendor_context p) = Ok (rp_stdout_json reply)"
proof -
  have "sound_table env past (broker_new db)"
    by (simp add: sound_table_def broker_new_def find_active_def)
  from answers.reachable_holds [OF assms(1) this] assms(2)
  have "sound_task env (sy_log s) (WaitDone nonce reply)"
    by (simp only: answers.holds_def)
  with assms(3) obtain p response t where "Registered p \<in> set (sy_log s)" "wp_nonce p = nonce"
    "chosen_by env (sy_log s) p response t (rp_stdout_json reply)"
    by (auto simp: sound_reply_def)
  then show ?thesis
    by (cases response) (auto simp: chosen_by_def build_vendor_stdout_def split: if_splits)
qed

section \<open>The audit trail is honest\<close>

text \<open>A row may say \<open>Delivered\<close> or \<open>EffectObserved\<close> only when that was reported for an accepted answer.\<close>

definition was_accepted :: "broker_event list \<Rightarrow> string \<Rightarrow> bool" where
  "was_accepted l i \<longleftrightarrow> (\<exists>r t. Accepted i r t \<in> set l)"

fun evidence_for :: "broker_event list \<Rightarrow> string \<Rightarrow> delivery_state \<Rightarrow> bool" where
  "evidence_for l i DDelivered = (Confirmed i \<in> set l \<and> was_accepted l i)"
| "evidence_for l i DEffectObserved = (EffectSeen i \<in> set l \<and> was_accepted l i)"
| "evidence_for l i d = True"

definition honest_rows :: "broker_event list \<Rightarrow> audit_row list \<Rightarrow> bool" where
  "honest_rows l rows \<longleftrightarrow>
     (\<forall>r\<in>set rows. evidence_for l (au_id r) (parse_delivery_state (au_delivery_state r)))"

definition honest_broker :: "broker_env \<Rightarrow> broker_event list \<Rightarrow> broker \<Rightarrow> bool" where
  "honest_broker env l b \<longleftrightarrow> sound_table env l b \<and> honest_rows l (dd_rows (br_store b))"

lemma evidence_later: "evidence_for l i d \<Longrightarrow> evidence_for (l @ evs) i d"
  by (cases d) (auto simp: was_accepted_def)

lemma honest_later: "honest_rows l rows \<Longrightarrow> honest_rows (l @ evs) rows"
  by (auto simp: honest_rows_def intro: evidence_later)

lemma honest_update:
  assumes "honest_rows l (dd_rows db)" and "evidence_for l i d"
  shows "honest_rows l (dd_rows (snd (update_delivery env i d resp t detail db)))"
proof -
  obtain f where f: "\<And>r. f r = r \<or> (\<exists>j t. f r = update_audit_row d j t detail r) \<and> au_id r = i"
    and rows: "dd_rows (snd (update_delivery env i d resp t detail db)) = map f (dd_rows db)"
    using rows_update_delivery [of d detail i env resp t db] by blast
  have "evidence_for l (au_id (f r)) (parse_delivery_state (au_delivery_state (f r)))"
    if "r \<in> set (dd_rows db)" for r
    using f [of r] assms that by (auto simp: honest_rows_def update_audit_row_def)
  then show ?thesis by (simp add: rows honest_rows_def)
qed

lemma honest_upsert:
  assumes "honest_rows l (dd_rows db)"
  shows "honest_rows l (dd_rows (snd (upsert_active r v e c DPending db)))"
proof -
  have "honest_rows l (put_audit_row (audit_row_of r v e c DPending) (dd_rows db))"
    using assms
    by (auto simp: honest_rows_def put_audit_row_def reopen_row_def audit_row_of_def parse_delivery_state_def)
  then show ?thesis
    using assms rows_upsert_active [of r v e c DPending db] by auto
qed

lemma honest_frame [simp]:
  "br_store (put_active i a b) = br_store b" "br_store (drop_active i b) = br_store b"
  "br_store (drop_waiter i b) = br_store b"
  by (simp_all add: put_active_def drop_active_def drop_waiter_def)

lemma honest_finalize:
  "honest_rows l (dd_rows (br_store b)) \<Longrightarrow> honest_rows l (dd_rows (br_store (finalize_expired env a b)))"
  by (simp add: finalize_expired_def audit_def honest_update)

lemma honest_persist:
  "honest_rows l (dd_rows (br_store b)) \<Longrightarrow> evidence_for l (dr_id (ac_request a)) (wire_state (ac_state a)) \<Longrightarrow>
   honest_rows l (dd_rows (br_store (persist_state env a r t d b)))"
  by (simp add: persist_state_def audit_def honest_update)

lemma honest_list_query: "dd_rows (snd (list_pending_requests e now db)) = dd_rows db"
  by (simp add: list_pending_requests_def store_query_def store_statement_def Let_def)

lemma sound_active_id: "sound_active env l i a \<Longrightarrow> dr_id (ac_request a) = i"
  by (auto simp: sound_active_def new_active_def new_request_def)

lemma sound_active_accepted:
  "sound_active env l i a \<Longrightarrow> ac_state a = IChosen r t out \<or> ac_state a = IDelivered out t \<Longrightarrow> was_accepted l i"
  unfolding sound_active_def was_accepted_def by (auto simp: chosen_by_def) blast+

lemma was_accepted_later: "was_accepted l i \<Longrightarrow> was_accepted (l @ evs) i"
  by (auto simp: was_accepted_def)

lemma honest_submit:
  assumes "honest_rows l (dd_rows (br_store b))" and "submit_decision env i response now b = (t', b', evs)"
  shows "honest_rows (l @ evs) (dd_rows (br_store b'))"
  using assms honest_later [OF assms(1), of evs]
  by (auto simp: submit_decision_def submit_failed_def Let_def intro!: honest_persist honest_later
      split: option.splits if_splits outcome.splits prod.splits)

lemma honest_confirm:
  assumes "sound_table env l b" and "honest_rows l (dd_rows (br_store b))"
    and "confirm_delivery env i b = (t', b', evs)"
  shows "honest_rows (l @ evs) (dd_rows (br_store b'))"
proof (cases "\<exists>a r t out. find_active i b = Some a \<and> ac_state a = IChosen r t out")
  case True
  then obtain a r t out where a: "find_active i b = Some a" "ac_state a = IChosen r t out" by blast
  from sound_tableD [OF assms(1) a(1)] have "dr_id (ac_request a) = i" "was_accepted l i"
    using a(2) by (auto dest: sound_active_id sound_active_accepted)
  then show ?thesis
    using assms(3) a honest_later [OF assms(2), of "[Confirmed i]"] was_accepted_later [of l i "[Confirmed i]"]
    by (auto simp: confirm_delivery_def Let_def intro!: honest_persist)
next
  case False
  with assms show ?thesis
    by (auto simp: confirm_delivery_def intro: honest_later split: option.splits internal_state.splits)
qed

lemma honest_observe:
  assumes "sound_table env l b" and "honest_rows l (dd_rows (br_store b))"
    and "observe_effect env i e now b = (t', b', evs)"
  shows "honest_rows (l @ evs) (dd_rows (br_store b'))"
proof (cases "\<exists>a t out. find_active i b = Some a \<and> ac_state a = IDelivered out t")
  case True
  then obtain a t out where a: "find_active i b = Some a" "ac_state a = IDelivered out t" by blast
  from sound_tableD [OF assms(1) a(1)] have "was_accepted l i"
    using a(2) by (auto dest: sound_active_accepted)
  then show ?thesis
    using assms(3) a honest_later [OF assms(2), of "[EffectSeen i]"] was_accepted_later [of l i "[EffectSeen i]"]
    by (auto simp: observe_effect_def audit_def intro!: honest_update)
next
  case False
  with assms show ?thesis
    by (auto simp: observe_effect_def intro: honest_later split: option.splits internal_state.splits)
qed

lemma honest_fail:
  "honest_rows l (dd_rows (br_store b)) \<Longrightarrow> fail_delivery env i d b = (t', b') \<Longrightarrow>
   honest_rows l (dd_rows (br_store b'))"
  by (auto simp: fail_delivery_def Let_def intro!: honest_persist split: option.splits if_splits)

lemma honest_step:
  assumes "sound_table env l b" and "honest_rows l (dd_rows (br_store b))"
    and "task_step env now t b = Some (t', b', k, evs)"
  shows "honest_rows (l @ evs) (dd_rows (br_store b'))"
proof (cases t)
  case (WaitInsert p k')
  with assms show ?thesis by (auto intro: honest_later)
next
  case (WaitStore p)
  with assms show ?thesis by (auto simp: quiet_def wait_upsert_def audit_def intro: honest_upsert)
next
  case (WaitEnlist p)
  with assms show ?thesis by (auto simp: quiet_def dest: active_enlist split: prod.splits)
next
  case (WaitExpire n)
  with assms show ?thesis
    by (auto simp: quiet_def expire_decision_def split: prod.splits option.splits if_splits)
next
  case (SubmitLock i r t0)
  with assms show ?thesis by (auto dest: honest_submit split: prod.splits)
next
  case (ConfirmStart i)
  with assms show ?thesis by (auto dest: honest_confirm split: prod.splits)
next
  case (ObserveStart i e)
  with assms show ?thesis by (auto dest: honest_observe split: prod.splits)
next
  case (FailStart i d)
  with assms show ?thesis by (auto simp: quiet_def dest: honest_fail split: prod.splits)
next
  case ListStart
  with assms honest_list_query [of "be_store env" now "br_store b"] show ?thesis
    by (auto simp: quiet_def split: outcome.splits prod.splits)
qed (use assms in \<open>auto simp: quiet_def intro: honest_finalize split: if_splits\<close>)

interpretation trail: broker_invariant env "honest_broker env" "sound_task env" for env
proof unfold_locales
  fix l b t now t' b' k evs
  assume "honest_broker env l b" "sound_task env l t" "task_step env now t b = Some (t', b', k, evs)"
  then show "honest_broker env (l @ evs) b' \<and> sound_task env (l @ evs) t'"
    unfolding honest_broker_def using sound_step honest_step by blast
qed (auto intro: sound_task_later sound_task_wake elim: initial_task.elims)

text \<open>
  (C24) Honest delivery states: whatever the interleaving and whichever audit writes fail, a row of
  the audit trail says that an answer was delivered, or that its effect was observed, only if the
  user's answer to that request was accepted and that delivery or that effect was reported.
\<close>

theorem audit_never_overclaims:
  assumes "reachable env db past s" and "honest_rows past (dd_rows db)"
    and "row \<in> set (dd_rows (br_store (sy_broker s)))"
  shows "(parse_delivery_state (au_delivery_state row) = DDelivered \<longrightarrow>
      Confirmed (au_id row) \<in> set (sy_log s) \<and> was_accepted (sy_log s) (au_id row)) \<and>
    (parse_delivery_state (au_delivery_state row) = DEffectObserved \<longrightarrow>
      EffectSeen (au_id row) \<in> set (sy_log s) \<and> was_accepted (sy_log s) (au_id row))"
proof -
  have "honest_broker env past (broker_new db)"
    using assms(2) by (simp add: honest_broker_def sound_table_def broker_new_def find_active_def)
  from trail.reachable_holds [OF assms(1) this] assms(3)
  have "evidence_for (sy_log s) (au_id row) (parse_delivery_state (au_delivery_state row))"
    unfolding trail.holds_def honest_broker_def honest_rows_def by blast
  then show ?thesis by auto
qed

section \<open>One answer per registration\<close>

fun is_acceptance :: "string \<Rightarrow> broker_event \<Rightarrow> bool" where
  "is_acceptance i (Accepted j r t) = (i = j)"
| "is_acceptance i e = False"

fun is_registration :: "string \<Rightarrow> broker_event \<Rightarrow> bool" where
  "is_registration i (Registered p) = (wp_nonce p = i)"
| "is_registration i e = False"

definition acceptances :: "broker_event list \<Rightarrow> string \<Rightarrow> nat" where
  "acceptances l i = length (filter (is_acceptance i) l)"

definition registrations :: "broker_event list \<Rightarrow> string \<Rightarrow> nat" where
  "registrations l i = length (filter (is_registration i) l)"

definition open_requests :: "broker \<Rightarrow> string \<Rightarrow> nat" where
  "open_requests b i = (case find_active i b of
     Some a \<Rightarrow> if ac_state a = IPending then 1 else 0 | None \<Rightarrow> 0)"

definition single_answers :: "broker_event list \<Rightarrow> broker \<Rightarrow> bool" where
  "single_answers l b \<longleftrightarrow> (\<forall>i. acceptances l i + open_requests b i \<le> registrations l i)"

fun restores_closed :: "broker_event list \<Rightarrow> task \<Rightarrow> bool" where
  "restores_closed l (WaitExpireRestore n a) = (ac_state a \<noteq> IPending)"
| "restores_closed l t = True"

lemma count_append [simp]:
  "acceptances (l @ l') i = acceptances l i + acceptances l' i"
  "registrations (l @ l') i = registrations l i + registrations l' i"
  by (simp_all add: acceptances_def registrations_def)

lemma count_events [simp]:
  "acceptances [] i = 0" "registrations [] i = 0"
  "acceptances [Registered p] i = 0" "registrations [Registered p] i = (if wp_nonce p = i then 1 else 0)"
  "acceptances [Accepted j r t] i = (if i = j then 1 else 0)" "registrations [Accepted j r t] i = 0"
  "acceptances [Confirmed j] i = 0" "registrations [Confirmed j] i = 0"
  "acceptances [EffectSeen j] i = 0" "registrations [EffectSeen j] i = 0"
  by (simp_all add: acceptances_def registrations_def)

text \<open>A step that opens no request and accepts nothing.\<close>

lemma single_answers_less:
  assumes "single_answers l b" and "\<And>i. open_requests b' i + acceptances evs i \<le> open_requests b i + registrations evs i"
  shows "single_answers (l @ evs) b'"
  unfolding single_answers_def
proof
  fix i
  show "acceptances (l @ evs) i + open_requests b' i \<le> registrations (l @ evs) i"
    using assms(1) [unfolded single_answers_def, rule_format, of i] assms(2) [of i] by simp
qed

lemma open_requests_frame [simp]:
  "open_requests (persist_state e a r t d b) i = open_requests b i"
  "open_requests (finalize_expired e a b) i = open_requests b i"
  "open_requests (wait_upsert e p b) i = open_requests b i"
  "open_requests (drop_waiter j b) i = open_requests b i"
  "open_requests (audit m b) i = open_requests b i"
  "open_requests (b\<lparr>br_held := h\<rparr>) i = open_requests b i"
  "open_requests (b\<lparr>br_store := db\<rparr>) i = open_requests b i"
  by (simp_all add: open_requests_def)

lemma open_requests_put [simp]:
  "open_requests (put_active j a b) i =
     (if i = j then if ac_state a = IPending then 1 else 0 else open_requests b i)"
  by (simp add: open_requests_def)

lemma open_requests_drop [simp]:
  "open_requests (drop_active j b) i = (if i = j then 0 else open_requests b i)"
  by (simp add: open_requests_def)

lemma open_requests_enlist: "enlist_waiter n b = (k, b') \<Longrightarrow> open_requests b' i = open_requests b i"
  by (auto simp: open_requests_def find_active_def dest: active_enlist)

lemma open_requests_pending: "find_active i b = Some a \<Longrightarrow> ac_state a = IPending \<Longrightarrow> open_requests b i = 1"
  by (simp add: open_requests_def)

lemma step_counts:
  assumes "restores_closed l t" and "task_step env now t b = Some (t', b', k, evs)"
  shows "open_requests b' i + acceptances evs i \<le> open_requests b i + registrations evs i \<and>
    restores_closed (l @ evs) t'"
proof (cases t)
  case (WaitEnlist p)
  with assms show ?thesis by (auto simp: quiet_def open_requests_enlist split: prod.splits)
next
  case (WaitStart p)
  with assms show ?thesis by (auto simp: quiet_def wait_check_def split: option.splits)
next
  case (WaitInsert p k')
  with assms show ?thesis by (auto simp: new_active_def)
next
  case (WaitExpire n)
  with assms show ?thesis
    by (auto simp: quiet_def expire_decision_def split: prod.splits option.splits if_splits)
next
  case (SubmitLock j r t0)
  with assms show ?thesis
    by (auto simp: submit_decision_def submit_failed_def Let_def open_requests_pending
        split: option.splits if_splits outcome.splits prod.splits)
next
  case (ConfirmStart j)
  with assms show ?thesis
    by (auto simp: confirm_delivery_def Let_def split: option.splits internal_state.splits prod.splits)
next
  case (ObserveStart j e)
  with assms show ?thesis
    by (auto simp: observe_effect_def split: option.splits internal_state.splits prod.splits)
next
  case (FailStart j d)
  with assms show ?thesis
    by (auto simp: quiet_def fail_delivery_def Let_def split: option.splits if_splits prod.splits)
next
  case ListStart
  with assms show ?thesis by (auto simp: quiet_def split: outcome.splits prod.splits)
next
  case (SubmitStart j r)
  with assms show ?thesis by (auto simp: quiet_def split: outcome.splits)
qed (use assms in \<open>auto simp: quiet_def split: if_splits\<close>)

interpretation counting: broker_invariant env single_answers restores_closed for env
proof unfold_locales
  fix l t evs
  assume "restores_closed l t"
  then show "restores_closed (l @ evs) t" by (cases t) auto
next
  fix l t k
  assume "restores_closed l t"
  then show "restores_closed l (wake k t)" by (cases "(k, t)" rule: wake.cases) auto
next
  fix l b t now t' b' k evs
  assume "single_answers l b" "restores_closed l t" "task_step env now t b = Some (t', b', k, evs)"
  note step = step_counts [OF this(2,3)]
  from \<open>single_answers l b\<close> step show "single_answers (l @ evs) b' \<and> restores_closed (l @ evs) t'"
    by (auto intro: single_answers_less)
qed (auto elim: initial_task.elims)

text \<open>
  (C26) The user answers once: in every interleaving, the number of answers accepted for a request is
  at most the number of times a hook registered it, and while it is open at least one registration
  is unanswered. (A hook that registers the same request again, on the same connection, opens it
  again, even after an answer was accepted.)
\<close>

theorem answered_once_per_registration:
  assumes "reachable env db [] s"
  shows "acceptances (sy_log s) i + open_requests (sy_broker s) i \<le> registrations (sy_log s) i"
proof -
  have "single_answers [] (broker_new db)"
    by (simp add: single_answers_def open_requests_def broker_new_def find_active_def)
  from counting.reachable_holds [OF assms this] show ?thesis
    by (simp add: counting.holds_def single_answers_def)
qed

end
