(* ===== verification/Decision_Progress.thy ===== *)
theory Decision_Progress
  imports Decision_Safety
begin

text \<open>
  Calls of the broker return: a rank that every step of a call lowers, the lock of the table that is
  never kept by a call that cannot run, and the runs that show what an answer leads to.
\<close>

section \<open>The lock of the table\<close>

fun lock_holder :: "task \<Rightarrow> bool" where
  "lock_holder (SubmitWake i held r) = held"
| "lock_holder t = False"

definition lock_inv :: "broker_system \<Rightarrow> bool" where
  "lock_inv s \<longleftrightarrow> length (filter lock_holder (sy_tasks s)) = (if br_held (sy_broker s) then 1 else 0)"

lemma length_filter_update:
  "i < length xs \<Longrightarrow>
   length (filter P (xs[i := x])) + (if P (xs ! i) then 1 else 0) =
   length (filter P xs) + (if P x then 1 else 0)"
proof (induction xs arbitrary: i)
  case (Cons y ys)
  show ?case
  proof (cases i)
    case (Suc j)
    with Cons.prems Cons.IH [of j] show ?thesis by simp
  qed simp
qed simp

lemma lock_holder_wake [simp]: "lock_holder (wake k t) = lock_holder t"
  by (cases "(k, t)" rule: wake.cases) auto

lemma lock_holder_comp_wake [simp]: "lock_holder \<circ> wake k = lock_holder"
  by (simp add: fun_eq_iff)

lemma held_ops [simp]:
  "br_held (audit m b) = br_held b" "br_held (put_active i a b) = br_held b"
  "br_held (drop_active i b) = br_held b" "br_held (drop_waiter i b) = br_held b"
  "br_held (wait_upsert e p b) = br_held b" "br_held (finalize_expired e a b) = br_held b"
  "br_held (persist_state e a r t d b) = br_held b"
  by (simp_all add: audit_def put_active_def drop_active_def drop_waiter_def wait_upsert_def
      finalize_expired_def persist_state_def)

lemma held_enlist: "enlist_waiter n b = (k, b') \<Longrightarrow> br_held b' = br_held b"
  by (auto simp: enlist_waiter_def split: option.splits)

text \<open>A step takes the lock when it begins to hold it, gives it back when it ends, and leaves it alone otherwise.\<close>

lemma step_lock:
  assumes "task_step env now t b = Some (t', b', k, evs)" and "\<not> (needs_table t \<and> br_held b)"
    and "lock_holder t \<Longrightarrow> br_held b"
  shows "(if lock_holder t then \<not> br_held b' \<and> \<not> lock_holder t'
          else if lock_holder t' then \<not> br_held b \<and> br_held b' else br_held b' = br_held b)"
  using assms
  by (cases t) (auto simp: step_defs Let_def dest: held_enlist
      split: prod.splits option.splits if_splits outcome.splits internal_state.splits)

lemma lock_inv_perform:
  assumes "lock_inv s" and "perform env c s = Some s'"
  shows "lock_inv s'"
proof (cases c)
  case (Spawn t)
  with assms show ?thesis by (auto simp: lock_inv_def elim: initial_task.elims split: if_splits)
next
  case (Fire i)
  with assms(2) obtain n k w where i: "i < length (sy_tasks s)" "sy_tasks s ! i = Waiting n k w"
    and s': "s' = s\<lparr>sy_tasks := (sy_tasks s)[i := WaitExpire n]\<rparr>"
    by (auto split: if_splits task.splits)
  with assms(1) length_filter_update [OF i(1), of lock_holder "WaitExpire n"] show ?thesis
    by (simp add: lock_inv_def)
next
  case (Run i now)
  with assms(2) obtain t b k evs where i: "i < length (sy_tasks s)"
    and free: "\<not> (needs_table (sy_tasks s ! i) \<and> br_held (sy_broker s))"
    and st: "task_step env now (sy_tasks s ! i) (sy_broker s) = Some (t, b, k, evs)"
    and s': "s' = \<lparr>sy_broker = b, sy_tasks = map (wake k) ((sy_tasks s)[i := t]), sy_log = sy_log s @ evs\<rparr>"
    by (auto split: if_splits option.splits)
  have "br_held (sy_broker s)" if "lock_holder (sy_tasks s ! i)"
  proof -
    from that i have "sy_tasks s ! i \<in> set (filter lock_holder (sy_tasks s))" by simp
    then have "filter lock_holder (sy_tasks s) \<noteq> []" by fastforce
    with assms(1) show ?thesis by (simp add: lock_inv_def split: if_splits)
  qed
  from step_lock [OF st free this] assms(1) length_filter_update [OF i, of lock_holder t] show ?thesis
    by (auto simp: lock_inv_def s' filter_map split: if_splits)
qed

lemma reachable_lock_inv: "reachable env db past s \<Longrightarrow> lock_inv s"
proof (induction rule: reachable.induct)
  case start
  show ?case by (simp add: lock_inv_def system_start_def broker_new_def)
qed (rule lock_inv_perform)

section \<open>Every call can return\<close>

fun task_rank :: "task \<Rightarrow> nat" where
  "task_rank (WaitStart p) = 12"
| "task_rank (WaitStore p) = 11"
| "task_rank (WaitEnlist p) = 10"
| "task_rank (WaitInsert p k) = 9"
| "task_rank (WaitSubscribe n k) = 8"
| "task_rank (Waiting n k w) = 7"
| "task_rank (WaitExpire n) = 6"
| "task_rank (WaitExpireRestore n a) = 5"
| "task_rank (WaitExpireStore n a) = 5"
| "task_rank (WaitReply n) = 4"
| "task_rank (WaitRetain n r) = 3"
| "task_rank (WaitForget n r) = 2"
| "task_rank (WaitUnlist n r) = 1"
| "task_rank (SubmitStart i r) = 5"
| "task_rank (SubmitLock i r t) = 4"
| "task_rank (SubmitExpireStore i a) = 3"
| "task_rank (SubmitExpireRemove i) = 2"
| "task_rank (SubmitWake i h r) = 1"
| "task_rank (ConfirmStart i) = 2"
| "task_rank (ConfirmRemove i) = 1"
| "task_rank (FailStart i d) = 2"
| "task_rank (FailRemove i) = 1"
| "task_rank (ObserveStart i e) = 1"
| "task_rank ListStart = 2"
| "task_rank (ListMerge t ps) = 1"
| "task_rank t = 0"

lemma task_rank_finished: "task_rank t = 0 \<longleftrightarrow> finished t"
  by (cases t) auto

lemma task_rank_wake [simp]: "task_rank (wake k t) = task_rank t"
  by (cases "(k, t)" rule: wake.cases) auto

lemma task_rank_bound: "task_rank t \<le> 12"
  by (cases t) auto

lemma step_lowers_rank: "task_step env now t b = Some (t', b', k, evs) \<Longrightarrow> task_rank t' < task_rank t"
  by (cases t) (auto simp: step_defs Let_def
      split: prod.splits option.splits if_splits outcome.splits internal_state.splits)

lemma perform_rank:
  assumes "perform env c s = Some s'" and "i < length (sy_tasks s)"
  shows "i < length (sy_tasks s') \<and> task_rank (sy_tasks s' ! i) \<le> task_rank (sy_tasks s ! i) \<and>
    (c = Run i now \<or> c = Fire i \<longrightarrow> task_rank (sy_tasks s' ! i) < task_rank (sy_tasks s ! i))"
proof (cases c)
  case (Run j t)
  with assms show ?thesis
    using step_lowers_rank [of env t "sy_tasks s ! i" "sy_broker s"]
    by (auto simp: nth_list_update split: if_splits option.splits)
qed (use assms in \<open>auto simp: nth_append nth_list_update split: if_splits task.splits\<close>)

text \<open>A call that is not finished can take its next step, or its timer can fire, unless the lock is taken.\<close>

lemma step_enabled:
  "\<not> finished t \<Longrightarrow> (\<forall>n k. t \<noteq> Waiting n k False) \<Longrightarrow> task_step env now t b \<noteq> None"
  by (cases t) (auto simp: quiet_def split: prod.splits outcome.splits)

lemma perform_enabled:
  assumes "i < length (sy_tasks s)" and "\<not> finished (sy_tasks s ! i)"
    and "\<not> (needs_table (sy_tasks s ! i) \<and> br_held (sy_broker s))"
  shows "\<exists>c s'. (c = Run i 0 \<or> c = Fire i) \<and> perform env c s = Some s' \<and>
    length (sy_tasks s') = length (sy_tasks s)"
proof (cases "\<exists>n k. sy_tasks s ! i = Waiting n k False")
  case True
  with assms(1) show ?thesis by (intro exI [of _ "Fire i"]) auto
next
  case False
  with step_enabled [OF assms(2), of env 0 "sy_broker s"] obtain t b k evs
    where "task_step env 0 (sy_tasks s ! i) (sy_broker s) = Some (t, b, k, evs)"
    by (metis option.exhaust prod_cases4)
  with assms show ?thesis by (intro exI [of _ "Run i 0"]) auto
qed

lemma run_schedule_append:
  "run_schedule env (cs @ ds) s = Option.bind (run_schedule env cs s) (run_schedule env ds)"
  by (induction cs arbitrary: s) (auto split: bind_splits)

text \<open>The lock stays free for the call that runs.\<close>

lemma perform_own_lock:
  assumes "c = Run i now \<or> c = Fire i" and "perform env c s = Some s'" and "i < length (sy_tasks s)"
    and "br_held (sy_broker s) = lock_holder (sy_tasks s ! i)"
  shows "br_held (sy_broker s') = lock_holder (sy_tasks s' ! i)"
proof (cases "c = Fire i")
  case True
  with assms show ?thesis by (auto split: if_splits task.splits)
next
  case False
  with assms obtain t b k evs where
    free: "\<not> (needs_table (sy_tasks s ! i) \<and> br_held (sy_broker s))"
    and st: "task_step env now (sy_tasks s ! i) (sy_broker s) = Some (t, b, k, evs)"
    and s': "s' = \<lparr>sy_broker = b, sy_tasks = map (wake k) ((sy_tasks s)[i := t]), sy_log = sy_log s @ evs\<rparr>"
    by (auto split: if_splits option.splits)
  from step_lock [OF st free] assms(3,4) show ?thesis by (auto simp: s' split: if_splits)
qed

lemma finish_with_lock:
  assumes "i < length (sy_tasks s)" and "br_held (sy_broker s) = lock_holder (sy_tasks s ! i)"
  shows "\<exists>cs s'. length cs \<le> task_rank (sy_tasks s ! i) \<and> run_schedule env cs s = Some s' \<and>
    finished (sy_tasks s' ! i) \<and> length (sy_tasks s') = length (sy_tasks s)"
  using assms
proof (induction "task_rank (sy_tasks s ! i)" arbitrary: s rule: less_induct)
  case less
  show ?case
  proof (cases "finished (sy_tasks s ! i)")
    case True
    then show ?thesis by (intro exI [of _ "[]"] exI [of _ s]) simp
  next
    case False
    have "\<not> (needs_table (sy_tasks s ! i) \<and> br_held (sy_broker s))"
      using less.prems(2) by (cases "sy_tasks s ! i") auto
    from perform_enabled [OF less.prems(1) False this] obtain c s1
      where c: "c = Run i 0 \<or> c = Fire i" "perform env c s = Some s1"
        and len: "length (sy_tasks s1) = length (sy_tasks s)" by blast
    from perform_rank [OF c(2) less.prems(1), of 0] c(1)
    have rank: "task_rank (sy_tasks s1 ! i) < task_rank (sy_tasks s ! i)" by blast
    from less.hyps [OF rank _ perform_own_lock [OF c less.prems]] less.prems(1) len obtain cs s'
      where "length cs \<le> task_rank (sy_tasks s1 ! i)" "run_schedule env cs s1 = Some s'"
        "finished (sy_tasks s' ! i)" "length (sy_tasks s') = length (sy_tasks s1)" by auto
    with c(2) rank len show ?thesis by (intro exI [of _ "c # cs"] exI [of _ s']) simp
  qed
qed

text \<open>If another call has the lock, one step of it gives the lock back.\<close>

lemma release_lock:
  assumes "lock_inv s" and "br_held (sy_broker s)"
  shows "\<exists>j s'. perform env (Run j 0) s = Some s' \<and> \<not> br_held (sy_broker s') \<and>
    length (sy_tasks s') = length (sy_tasks s)"
proof -
  from assms have "filter lock_holder (sy_tasks s) \<noteq> []" by (auto simp: lock_inv_def)
  then obtain j where j: "j < length (sy_tasks s)" "lock_holder (sy_tasks s ! j)"
    by (metis filter_empty_conv in_set_conv_nth)
  then obtain i r where "sy_tasks s ! j = SubmitWake i True r" by (cases "sy_tasks s ! j") auto
  with j(1) show ?thesis by (intro exI [of _ j]) simp
qed

text \<open>
  (C25) No call waits forever: each step of a call lowers its rank, which is at most 12 and 0 exactly
  when it has returned, and steps of others never raise it; and from every reachable state every
  call can be brought to its end by at most 13 steps (its own, its timer, and one step of the call
  that holds the lock of the table).
\<close>

theorem every_call_can_return:
  assumes "reachable env db past s" and "i < length (sy_tasks s)"
  shows "(\<forall>c s'. perform env c s = Some s' \<longrightarrow>
        task_rank (sy_tasks s' ! i) \<le> task_rank (sy_tasks s ! i) \<and>
        ((\<exists>now. c = Run i now) \<or> c = Fire i \<longrightarrow> task_rank (sy_tasks s' ! i) < task_rank (sy_tasks s ! i))) \<and>
    (\<exists>cs s'. length cs \<le> 13 \<and> run_schedule env cs s = Some s' \<and> finished (sy_tasks s' ! i) \<and>
        length (sy_tasks s') = length (sy_tasks s))"
proof (rule conjI)
  show "\<forall>c s'. perform env c s = Some s' \<longrightarrow>
        task_rank (sy_tasks s' ! i) \<le> task_rank (sy_tasks s ! i) \<and>
        ((\<exists>now. c = Run i now) \<or> c = Fire i \<longrightarrow> task_rank (sy_tasks s' ! i) < task_rank (sy_tasks s ! i))"
    using perform_rank [OF _ assms(2)] by metis
  have inv: "lock_inv s" using assms(1) by (rule reachable_lock_inv)
  show "\<exists>cs s'. length cs \<le> 13 \<and> run_schedule env cs s = Some s' \<and> finished (sy_tasks s' ! i) \<and>
        length (sy_tasks s') = length (sy_tasks s)"
  proof (cases "br_held (sy_broker s)")
    case False
    have "\<not> lock_holder (sy_tasks s ! i)"
      using inv False assms(2) by (auto simp: lock_inv_def filter_empty_conv)
    with finish_with_lock [OF assms(2), of env] False obtain cs s' where
      "length cs \<le> task_rank (sy_tasks s ! i)" "run_schedule env cs s = Some s'"
      "finished (sy_tasks s' ! i)" "length (sy_tasks s') = length (sy_tasks s)" by auto
    with task_rank_bound [of "sy_tasks s ! i"] show ?thesis
      by (intro exI [of _ cs] exI [of _ s']) simp
  next
    case True
    from release_lock [OF inv True] obtain j s1 where s1: "perform env (Run j 0) s = Some s1"
      "\<not> br_held (sy_broker s1)" "length (sy_tasks s1) = length (sy_tasks s)" by blast
    from lock_inv_perform [OF inv s1(1)] s1(2,3) assms(2) have "\<not> lock_holder (sy_tasks s1 ! i)"
      by (auto simp: lock_inv_def filter_empty_conv)
    with finish_with_lock [of i s1 env] s1(2,3) assms(2) obtain cs s' where
      "length cs \<le> task_rank (sy_tasks s1 ! i)" "run_schedule env cs s1 = Some s'"
      "finished (sy_tasks s' ! i)" "length (sy_tasks s') = length (sy_tasks s1)" by auto
    with s1 task_rank_bound [of "sy_tasks s1 ! i"] show ?thesis
      by (intro exI [of _ "Run j 0 # cs"] exI [of _ s']) simp
  qed
qed

lemma run_schedule_length:
  "run_schedule env cs s = Some s' \<Longrightarrow> length (sy_tasks s) \<le> length (sy_tasks s')"
proof (induction cs arbitrary: s)
  case (Cons c cs)
  then obtain u where u: "perform env c s = Some u" "run_schedule env cs u = Some s'"
    by (auto split: bind_splits)
  have "length (sy_tasks s) \<le> length (sy_tasks u)"
    using u(1) by (cases c) (auto split: if_splits option.splits task.splits)
  with Cons.IH [OF u(2)] show ?case by simp
qed simp

section \<open>An answer in time reaches the hook\<close>

lemma submit_accepts:
  assumes "find_active i b = Some a" and "ac_state a = IPending" and "now < ac_expires_at_ms a"
    and "dr_has_actionable_payload (ac_request a)"
    and "build_stdout_for_active env a response = Ok out" and "out \<noteq> neutral_stdout"
  shows "submit_decision env i response now b =
    (let a' = a\<lparr>ac_state := IChosen response now out\<rparr>
     in (SubmitWake i True (Ok (response_record response now a')),
         persist_state env a' (Some response) (Some now) None ((put_active i a' b)\<lparr>br_held := True\<rparr>),
         [Accepted i response now]))"
  using assms by (simp add: submit_decision_def)

lemma waiters_ops [simp]:
  "br_waiters (persist_state env a r t d b) = br_waiters b" "br_waiters (put_active i a b) = br_waiters b"
  "br_waiters (wait_upsert env p b) = br_waiters b"
  by (simp_all add: persist_state_def audit_def put_active_def wait_upsert_def)

lemma find_active_enlist [simp]:
  "find_active i (b\<lparr>br_waiters := w\<rparr>) = find_active i b"
  "find_active i (b\<lparr>br_waiters := w, br_next_notify := k\<rparr>) = find_active i b"
  by (simp_all add: find_active_def)


lemma waiters_finalize [simp]:
  "br_waiters (finalize_expired env a b) = br_waiters b" "br_waiters (drop_active i b) = br_waiters b"
  by (simp_all add: finalize_expired_def audit_def drop_active_def)

text \<open>
  A late answer changes nothing: a submission at or after the expiry is refused with
  \<open>Expired\<close>, the request leaves the table, and the hook that still waits is woken at once with the
  neutral reply instead of sleeping until its timer fires.
\<close>

theorem late_answer_is_refused:
  assumes "find_active n (sy_broker s) = Some a" and "ac_state a = IPending"
    and "ac_expires_at_ms a \<le> now"
    and "map_of (br_waiters (sy_broker s)) n = Some k" and "\<not> br_held (sy_broker s)"
    and "i < length (sy_tasks s)" and "sy_tasks s ! i = Waiting n k False"
    and "j < length (sy_tasks s)" and "sy_tasks s ! j = SubmitStart n (Action action)"
  shows "\<exists>s'. run_schedule env [Run j now, Run j t1, Run j t2, Run j t3, Run j t4,
      Run i t5, Run i t6, Run i t7, Run i t8, Run i t9] s = Some s' \<and>
    sy_tasks s' ! i = WaitDone n (neutral_reply n DExpired) \<and>
    sy_tasks s' ! j = SubmitDone n (Err DecisionExpired) \<and>
    find_active n (sy_broker s') = None \<and> sy_log s' = sy_log s"
proof -
  have ij: "i \<noteq> j" using assms(7,9) by auto
  have "submit_decision env n (Action action) now (sy_broker s) = (SubmitExpireStore n a, sy_broker s, [])"
    using assms(1-3) by (simp add: submit_decision_def)
  with assms ij show ?thesis
    by (simp add: quiet_def nth_list_update wait_reply_def retain_active_def)
qed

section \<open>The list of open requests\<close>

lemma add_unseen_ids: "dr_id ` set (add_unseen ps rs) = dr_id ` set ps \<union> dr_id ` set rs"
  by (induction ps rs rule: add_unseen.induct) auto

lemma add_unseen_distinct: "distinct (map dr_id ps) \<Longrightarrow> distinct (map dr_id (add_unseen ps rs))"
  by (induction ps rs rule: add_unseen.induct) auto

lemma distinct_map_sort_key: "distinct (map f (sort_key g xs)) = distinct (map f xs)"
  by (metis distinct_map mset_eq_setD mset_sort set_sort distinct_sort)

text \<open>
  What the user is shown: \<open>list_pending\<close> returns the requests the store has open and the open,
  unexpired ones that are only in memory, each once, oldest first.
\<close>

theorem pending_list_complete:
  assumes "iteration_order (be_order env)" and "hm_wf (br_active b)" and "distinct (map dr_id stored)"
  shows "let shown = merge_pending env now stored b
    in sorted (map dr_created_at_ms shown) \<and> distinct (map dr_id shown) \<and>
       set (map dr_id shown) = set (map dr_id stored) \<union>
         {dr_id (ac_request a) |a i. find_active i b = Some a \<and> ac_state a = IPending \<and> now < ac_expires_at_ms a}"
proof -
  have "a \<in> set (hm_values (be_order env) (br_active b)) \<longleftrightarrow> (\<exists>i. find_active i b = Some a)" for a
    using assms(2) by (force simp: set_hm_values [OF assms(1,2)] find_active_def map_of_eq_Some_iff)
  then have "dr_id ` set (pending_in_memory env now b) =
      {dr_id (ac_request a) |a i. find_active i b = Some a \<and> ac_state a = IPending \<and> now < ac_expires_at_ms a}"
    by (auto simp: pending_in_memory_def)
  then show ?thesis
    using add_unseen_distinct [OF assms(3)]
    by (simp add: Let_def merge_pending_def distinct_map_sort_key add_unseen_ids)
qed

section \<open>An answer can be lost\<close>

text \<open>
  The entry is in the table before the hook subscribes to its \<open>Notify\<close>. An answer submitted in between
  is accepted, but wakes nobody, and the timer then discards it: the user is told \<open>Ok\<close>, the hook gets
  the neutral reply, and the audit trail says the request expired.
\<close>

definition lost_answer :: "wait_payload \<Rightarrow> decision_action \<Rightarrow> int \<Rightarrow> choice list" where
  "lost_answer p action now =
     [Spawn (WaitStart p), Run 0 now, Run 0 now, Run 0 now, Run 0 now,
      Spawn (SubmitStart (wp_nonce p) (Action action)), Run 1 now, Run 1 now, Run 1 now,
      Run 0 now, Fire 0, Run 0 now, Run 0 now, Run 0 now, Run 0 now, Run 0 now, Run 0 now]"

lemma accepted_answer_can_be_lost:
  assumes "build_stdout_for_active env (new_active env p) (Action action) = Ok out" and "out \<noteq> neutral_stdout"
    and "wp_has_actionable_payload p" and "now < expiry_of env p"
  shows "\<exists>s record. run_schedule env (lost_answer p action now) (system_start db []) = Some s \<and>
    sy_tasks s = [WaitDone (wp_nonce p) (neutral_reply (wp_nonce p) DExpired), SubmitDone (wp_nonce p) (Ok record)]"
proof -
  have "find_active n (broker_new db) = None" "br_waiters (broker_new db) = []" "\<not> br_held (broker_new db)" for n
    by (simp_all add: broker_new_def find_active_def)
  moreover have "ac_state (new_active env p) = IPending" "ac_expires_at_ms (new_active env p) = expiry_of env p"
    "dr_has_actionable_payload (ac_request (new_active env p)) = wp_has_actionable_payload p"
    by (simp_all add: new_active_def new_request_def)
  ultimately show ?thesis
    using assms
    by (simp add: lost_answer_def system_start_def quiet_def wait_check_def enlist_waiter_def
        submit_decision_def Let_def expire_decision_def wait_reply_def retain_active_def)
qed

text \<open>A hook that registers the same request again takes back an answer that was already accepted.\<close>

lemma registering_again_reopens:
  assumes "find_active (wp_nonce p) (sy_broker s) = Some a" and "ac_state a = IChosen r t out"
    and "ac_connection_id a = wp_connection_id p" and "\<not> br_held (sy_broker s)"
    and "i < length (sy_tasks s)" and "sy_tasks s ! i = WaitStart p"
  shows "\<exists>s'. run_schedule env [Run i t1, Run i t2, Run i t3, Run i t4] s = Some s' \<and>
    find_active (wp_nonce p) (sy_broker s') = Some (new_active env p) \<and>
    ac_state (new_active env p) = IPending"
  using assms
  by (cases "map_of (br_waiters (sy_broker s)) (wp_nonce p)")
    (simp_all add: quiet_def wait_check_def enlist_waiter_def new_active_def)

section \<open>A concrete exchange\<close>

lemma run_schedule_reachable:
  "run_schedule env cs s = Some t \<Longrightarrow> reachable env db past s \<Longrightarrow> reachable env db past t"
proof (induction cs arbitrary: s)
  case (Cons c cs)
  then obtain u where "perform env c s = Some u" "run_schedule env cs u = Some t"
    by (auto split: bind_splits)
  with Cons show ?case by (blast intro: reachable.next_step)
qed simp

lemmas run_from_start = run_schedule_reachable [OF _ reachable.start]

definition sample_env :: broker_env where
  "sample_env = \<lparr>be_store = \<lparr>response_to_json = \<lambda>r. Some ''response'', response_from_json = \<lambda>s. None,
       registry_to_json = \<lambda>r. None, registry_from_json = \<lambda>s. None, scan_audit = \<lambda>rows. rows\<rparr>,
     be_hash = \<lambda>s e. 0, be_json_text = \<lambda>v. Ok (if v = JObject [] then ''{}'' else ''{...}''),
     be_order = \<lambda>ks. ks, be_wait_timeout_ms = DECISION_FAIL_OPEN_TIMEOUT_MS\<rparr>"

definition sample_db :: decision_db where
  "sample_db = \<lparr>dd_schema_version = Some 2, dd_meta = [], dd_rows = [], dd_faults = []\<rparr>"

definition sample_wait :: wait_payload where
  "sample_wait = \<lparr>wp_nonce = ''n'', wp_source = ClaudeCode, wp_vendor_event = ''PermissionRequest'',
     wp_external_session_id = ''e'', wp_session_id = Some ''s'', wp_decision_kind = DecisionPermission,
     wp_summary = ''Allow?'', wp_has_actionable_payload = True,
     wp_respondable_hook = Some ''permissionRequest'', wp_tool_name = None, wp_connection_id = ''c'',
     wp_vendor_context = Some (JObject [(''claude_code_version'', JString (semver_text 2 1 205))]),
     wp_created_at_ms = 1000\<rparr>"

definition asking :: "choice list" where
  "asking = [Spawn (WaitStart sample_wait), Run 0 0, Run 0 0, Run 0 0, Run 0 0, Run 0 0]"

definition waiting_system :: broker_system where
  "waiting_system = \<lparr>sy_broker = \<lparr>
       br_store = sample_db\<lparr>dd_rows := [audit_row_of (new_request sample_env sample_wait) ''PermissionRequest'' ''e'' ''c'' DPending]\<rparr>,
       br_active = [(''n'', new_active sample_env sample_wait)], br_waiters = [(''n'', 0)],
       br_next_notify = 1, br_held = False\<rparr>,
     sy_tasks = [Waiting ''n'' 0 False], sy_log = [Registered sample_wait]\<rparr>"

lemma asking_run: "run_schedule sample_env asking (system_start sample_db []) = Some waiting_system"
  by (simp add: asking_def system_start_def waiting_system_def sample_db_def quiet_def wait_check_def
      broker_new_def find_active_def wait_upsert_def audit_def upsert_active_def store_execute_def
      store_statement_def put_audit_row_def enlist_waiter_def put_active_def)
    (simp add: sample_wait_def)

lemma sample_expiry: "expiry_of sample_env sample_wait = 121000"
  by (simp add: expiry_of_def sample_wait_def sample_env_def DECISION_FAIL_OPEN_TIMEOUT_MS_def u64_as_i64_def in_i64_def)

lemma sample_stdout: "build_stdout_for_active sample_env (new_active sample_env sample_wait) (Action Allow) = Ok ''{...}''"
proof -
  have "build_permission_response PermissionAllow \<noteq> JObject []"
    using decision_response_not_empty [of PermissionRequest Allow None] by simp
  moreover have "c_respond_decisions (claude_capabilities (KnownVersion v))" for v
    by (simp add: claude_capabilities_def)
  ultimately show ?thesis
    by (simp add: build_stdout_for_active_def new_active_def new_request_def build_vendor_stdout_def
        build_claude_stdout_def respondable_hook_of_def context_field_def sample_wait_def or_else_def
        detect_semver_text sample_env_def)
qed

lemma stdout_not_neutral: "''{...}'' \<noteq> neutral_stdout"
  by (simp add: neutral_stdout_def DECISION_HOOK_NEUTRAL_OUTPUT_def)

definition answering :: "choice list" where
  "answering = [Spawn (SubmitStart ''n'' (Action Allow)), Run 1 2000, Run 1 0, Run 1 0,
     Run 0 0, Run 0 0, Run 0 0, Run 0 0, Spawn (ConfirmStart ''n''), Run 2 0]"

definition answered_row :: audit_row where
  "answered_row = (audit_row_of (new_request sample_env sample_wait) ''PermissionRequest'' ''e'' ''c'' DDelivered)
     \<lparr>au_response_json := Some ''response'', au_responded_at_ms := Some 2000\<rparr>"

lemma update_without_faults:
  assumes "dd_faults db = []" and "resp = None \<and> j = None \<or> (\<exists>r. resp = Some r \<and> response_to_json env r = j \<and> j \<noteq> None)"
  shows "snd (update_delivery env i d resp t detail db) = db\<lparr>dd_rows := map (\<lambda>r.
    if au_id r = i then update_audit_row d j t detail r else r) (dd_rows db)\<rparr>"
  using assms
  by (cases db) (auto simp: update_delivery_def bind_def ret_def serde_def lift_def store_execute_def
      store_statement_def)

lemma answering_run:
  "\<exists>s. run_schedule sample_env answering waiting_system = Some s \<and>
     sy_tasks s ! 0 = WaitDone ''n'' (stdout_reply ''n'' ''{...}'' DPending) \<and>
     sy_log s = [Registered sample_wait, Accepted ''n'' (Action Allow) 2000, Confirmed ''n''] \<and>
     dd_rows (br_store (sy_broker s)) = [answered_row]"
proof -
  have id: "dr_id (ac_request (new_active sample_env sample_wait)) = ''n''"
    "dr_id (new_request sample_env sample_wait) = ''n''"
    by (simp_all add: new_active_def new_request_def sample_wait_def)
  have found: "ac_state (new_active sample_env sample_wait) = IPending"
    "2000 < ac_expires_at_ms (new_active sample_env sample_wait)"
    "dr_has_actionable_payload (ac_request (new_active sample_env sample_wait))"
    using sample_expiry by (simp_all add: new_active_def new_request_def sample_wait_def)
  have rtext: "response_to_json (be_store sample_env) r = Some ''response''" for r
    by (simp add: sample_env_def)
  note accept = submit_accepts [OF _ found sample_stdout stdout_not_neutral]
  show ?thesis
    unfolding answering_def waiting_system_def
    by (simp add: quiet_def find_active_def accept Let_def id put_active_def persist_state_def audit_def
        update_without_faults [where j = None] update_without_faults [where j = "Some ''response''"] rtext
        sample_db_def wait_reply_def retain_active_def reply_for_active_def drop_waiter_def confirm_delivery_def)
      (simp add: id audit_row_of_def update_audit_row_def coalesce_def answered_row_def)
qed

definition exchange :: "choice list" where
  "exchange = asking @ answering"

lemma exchange_run:
  "\<exists>s. run_schedule sample_env exchange (system_start sample_db []) = Some s \<and>
     reachable sample_env sample_db [] s \<and> WaitDone ''n'' (stdout_reply ''n'' ''{...}'' DPending) \<in> set (sy_tasks s) \<and>
     sy_log s = [Registered sample_wait, Accepted ''n'' (Action Allow) 2000, Confirmed ''n''] \<and>
     dd_rows (br_store (sy_broker s)) = [answered_row]"
proof -
  from answering_run obtain s where s: "run_schedule sample_env answering waiting_system = Some s"
    "sy_tasks s ! 0 = WaitDone ''n'' (stdout_reply ''n'' ''{...}'' DPending)"
    "sy_log s = [Registered sample_wait, Accepted ''n'' (Action Allow) 2000, Confirmed ''n'']"
    "dd_rows (br_store (sy_broker s)) = [answered_row]" by blast
  have run: "run_schedule sample_env exchange (system_start sample_db []) = Some s"
    using s(1) by (simp add: exchange_def run_schedule_append asking_run)
  have "0 < length (sy_tasks s)"
    using run_schedule_length [OF s(1)] by (auto simp: waiting_system_def)
  then have "sy_tasks s ! 0 \<in> set (sy_tasks s)" by (rule nth_mem)
  with s run run_from_start [OF run] show ?thesis by auto
qed

theorem replies_are_user_answers_witness:
  "\<exists>s. run_schedule sample_env exchange (system_start sample_db []) = Some s \<and>
     (\<exists>p action t. Registered p \<in> set (sy_log s) \<and> wp_nonce p = ''n'' \<and>
       Accepted ''n'' (Action action) t \<in> set (sy_log s) \<and> t < expiry_of sample_env p)"
proof -
  from exchange_run obtain s where s: "run_schedule sample_env exchange (system_start sample_db []) = Some s"
    "reachable sample_env sample_db [] s"
    "WaitDone ''n'' (stdout_reply ''n'' ''{...}'' DPending) \<in> set (sy_tasks s)" by blast
  have "rp_stdout_json (stdout_reply ''n'' ''{...}'' DPending) \<noteq> neutral_stdout"
    using stdout_not_neutral by (simp add: stdout_reply_def)
  from replies_are_user_answers [OF s(2,3) this] s(1) show ?thesis by blast
qed

theorem audit_never_overclaims_witness:
  "\<exists>s. run_schedule sample_env exchange (system_start sample_db []) = Some s \<and>
     dd_rows (br_store (sy_broker s)) = [answered_row] \<and> Confirmed ''n'' \<in> set (sy_log s)"
proof -
  from exchange_run obtain s where s: "run_schedule sample_env exchange (system_start sample_db []) = Some s"
    "reachable sample_env sample_db [] s" "dd_rows (br_store (sy_broker s)) = [answered_row]" by blast
  have "honest_rows [] (dd_rows sample_db)" by (simp add: honest_rows_def sample_db_def)
  moreover have "parse_delivery_state (au_delivery_state answered_row) = DDelivered" "au_id answered_row = ''n''"
    by (simp_all add: answered_row_def audit_row_of_def parse_delivery_state_def new_request_def sample_wait_def)
  ultimately show ?thesis
    using audit_never_overclaims [OF s(2), of answered_row] s(1,3) by auto
qed

theorem answered_once_per_registration_witness:
  "\<exists>s. run_schedule sample_env exchange (system_start sample_db []) = Some s \<and>
     acceptances (sy_log s) ''n'' = 1 \<and> acceptances (sy_log s) ''n'' \<le> registrations (sy_log s) ''n''"
proof -
  from exchange_run obtain s where s: "run_schedule sample_env exchange (system_start sample_db []) = Some s"
    "reachable sample_env sample_db [] s"
    "sy_log s = [Registered sample_wait, Accepted ''n'' (Action Allow) 2000, Confirmed ''n'']" by blast
  from answered_once_per_registration [OF s(2), of "''n''"] have
    "acceptances (sy_log s) ''n'' \<le> registrations (sy_log s) ''n''" by simp
  with s(1,3) show ?thesis by (auto simp: acceptances_def)
qed

theorem every_call_can_return_witness:
  "\<exists>cs s. length cs \<le> 13 \<and> run_schedule sample_env cs waiting_system = Some s \<and> finished (sy_tasks s ! 0)"
  using every_call_can_return [OF run_from_start [OF asking_run], of 0]
  by (auto simp: waiting_system_def)


theorem late_answer_is_refused_witness:
  "\<exists>s. run_schedule sample_env [Run 1 121000, Run 1 0, Run 1 0, Run 1 0, Run 1 0,
       Run 0 0, Run 0 0, Run 0 0, Run 0 0, Run 0 0]
       (waiting_system\<lparr>sy_tasks := sy_tasks waiting_system @ [SubmitStart ''n'' (Action Allow)]\<rparr>) = Some s \<and>
     sy_tasks s ! 0 = WaitDone ''n'' (neutral_reply ''n'' DExpired)"
proof -
  let ?s = "waiting_system\<lparr>sy_tasks := sy_tasks waiting_system @ [SubmitStart ''n'' (Action Allow)]\<rparr>"
  have "find_active ''n'' (sy_broker ?s) = Some (new_active sample_env sample_wait)"
    "map_of (br_waiters (sy_broker ?s)) ''n'' = Some 0" "\<not> br_held (sy_broker ?s)"
    "0 < length (sy_tasks ?s)" "sy_tasks ?s ! 0 = Waiting ''n'' 0 False" "1 < length (sy_tasks ?s)"
    "sy_tasks ?s ! 1 = SubmitStart ''n'' (Action Allow)"
    by (simp_all add: waiting_system_def find_active_def)
  moreover have "ac_state (new_active sample_env sample_wait) = IPending"
    "ac_expires_at_ms (new_active sample_env sample_wait) \<le> 121000"
    using sample_expiry by (simp_all add: new_active_def)
  ultimately show ?thesis
    using late_answer_is_refused [of "''n''" ?s "new_active sample_env sample_wait" 121000 0 0 1 Allow sample_env
        0 0 0 0 0 0 0 0 0]
    by blast
qed

theorem pending_list_complete_witness:
  "set (map dr_id (merge_pending sample_env 2000 [] (sy_broker waiting_system))) = {''n''}"
proof -
  have "iteration_order (be_order sample_env)" "hm_wf (br_active (sy_broker waiting_system))"
    by (simp_all add: iteration_order_def sample_env_def waiting_system_def)
  note facts = pending_list_complete [OF this, of "[]" 2000, simplified Let_def]
  moreover have "dr_id (ac_request (new_active sample_env sample_wait)) = ''n''"
    "ac_state (new_active sample_env sample_wait) = IPending"
    "2000 < ac_expires_at_ms (new_active sample_env sample_wait)"
    using sample_expiry by (simp_all add: new_active_def new_request_def sample_wait_def)
  ultimately show ?thesis by (auto simp: waiting_system_def find_active_def split: if_splits)
qed

end
