(* ===== verification/Ipc_Wire.thy ===== *)
theory Ipc_Wire
  imports Core_Domain Rust_Text
begin

text \<open>
  \<^verbatim>\<open>crates/notch-ipc/src\<close>: the messages between a hook and the host (\<^verbatim>\<open>wire.rs\<close>), their limits
  (\<^verbatim>\<open>limits.rs\<close>), the checks of terminal identifiers (\<^verbatim>\<open>collector.rs\<close>) and the length-prefixed frames
  (\<^verbatim>\<open>framing.rs\<close>). The JSON text of a message is what \<open>serde_json\<close> makes of it, a parameter.
\<close>

section \<open>Limits\<close>

definition IPC_WIRE_VERSION :: nat where "IPC_WIRE_VERSION = 1"
definition MAX_FRAME_BYTES :: nat where "MAX_FRAME_BYTES = 65536"
definition MAX_REQUEST_ID_LEN :: nat where "MAX_REQUEST_ID_LEN = 64"
definition MAX_ERROR_CODE_LEN :: nat where "MAX_ERROR_CODE_LEN = 64"
definition MAX_ERROR_MESSAGE_LEN :: nat where "MAX_ERROR_MESSAGE_LEN = 256"
definition MAX_DECISION_CONTEXT_BYTES :: nat where "MAX_DECISION_CONTEXT_BYTES = 8192"
definition MAX_TERMINAL_ID_LEN :: nat where "MAX_TERMINAL_ID_LEN = 128"
definition MAX_SPOOL_FILES :: nat where "MAX_SPOOL_FILES = 1000"
definition MAX_SPOOL_BYTES :: nat where "MAX_SPOOL_BYTES = 10 * 1024 * 1024"

lemmas ipc_limits = IPC_WIRE_VERSION_def MAX_FRAME_BYTES_def MAX_REQUEST_ID_LEN_def
  MAX_ERROR_CODE_LEN_def MAX_ERROR_MESSAGE_LEN_def MAX_DECISION_CONTEXT_BYTES_def
  MAX_TERMINAL_ID_LEN_def MAX_SPOOL_FILES_def MAX_SPOOL_BYTES_def

section \<open>Messages\<close>

datatype ipc_error =
    NotInitialized
  | FrameRejected string
  | AuthFailed
  | RateLimited
  | QueueFull
  | TooManyClients
  | PeerRejected string
  | ReadTimeout
  | DescriptorUnavailable
  | SpoolLimitExceeded
  | ConnectionClosed
  | InvalidConfig string
  | IpcIo
  | IpcOther

type_synonym 'a ipc_result = "(ipc_error, 'a) outcome"

record ingest_payload =
  ip_source :: string
  ip_event :: string
  ip_session_id :: "string option"
  ip_external_session_id :: "string option"
  ip_label :: "string option"
  ip_workspace_label :: "string option"
  ip_status :: "string option"
  ip_attention :: "string option"
  ip_summary :: "string option"
  ip_tool_name :: "string option"
  ip_pid :: "nat option"
  ip_process_started_at_ms :: "int option"
  ip_occurred_at_ms :: "int option"
  ip_terminal_session_id :: "string option"
  ip_tab_id :: "string option"
  ip_pane_id :: "string option"
  ip_window_handle :: "nat option"

record decision_wait_wire =
  dw_source :: string
  dw_vendor_event :: string
  dw_external_session_id :: string
  dw_session_id :: "string option"
  dw_decision_kind :: string
  dw_summary :: string
  dw_has_actionable_payload :: bool
  dw_respondable_hook :: "string option"
  dw_tool_name :: "string option"
  dw_connection_id :: string
  dw_vendor_context_json :: "string option"
  dw_created_at_ms :: int

datatype wire_body =
    Auth string
  | Ingest ingest_payload
  | Ack
  | WireError string string
  | DecisionWait decision_wait_wire
  | DecisionReply string string

record wire_message =
  wm_version :: nat
  wm_request_id :: string
  wm_body :: wire_body

section \<open>Validation\<close>

text \<open>Checks run in order; the first that fails is the result.\<close>

definition reject :: "string \<Rightarrow> unit ipc_result" where
  "reject m = Err (FrameRejected m)"

fun first_error :: "'a ipc_result list \<Rightarrow> unit ipc_result" where
  "first_error [] = Ok ()"
| "first_error (Ok u # rs) = first_error rs"
| "first_error (Err e # rs) = Err e"
| "first_error (Panic m # rs) = Panic m"

definition optional :: "('a \<Rightarrow> unit ipc_result) \<Rightarrow> 'a option \<Rightarrow> unit ipc_result" where
  "optional f x = (case x of None \<Rightarrow> Ok () | Some v \<Rightarrow> f v)"

definition wire_bounded :: "nat \<Rightarrow> string \<Rightarrow> string \<Rightarrow> unit ipc_result" where
  "wire_bounded mx field value =
     (if value = [] \<or> length value > mx
      then reject (field @ '' length must be 1..='' @ dec_string mx) else Ok ())"

definition validate_request_id :: "string \<Rightarrow> unit ipc_result" where
  "validate_request_id request_id =
     (if request_id = [] \<or> length request_id > MAX_REQUEST_ID_LEN
      then reject (''requestId length must be 1..='' @ dec_string MAX_REQUEST_ID_LEN)
      else if \<not> list_all (\<lambda>b. is_ascii_alphanumeric b \<or> b \<in> {CHR ''-'', CHR ''_''}) request_id
      then reject ''requestId must be ASCII alphanumeric with - or _''
      else Ok ())"

definition contains_unsafe_shell_chars :: "string \<Rightarrow> bool" where
  "contains_unsafe_shell_chars value =
     list_ex (\<lambda>c. c \<in> set ([char_of (34 :: nat), char_of (39 :: nat), char_of (96 :: nat)] @ ''$;|&<>'' @
       [char_of (10 :: nat), char_of (13 :: nat)])) value"

definition validate_terminal_id_field :: "string \<Rightarrow> string \<Rightarrow> unit ipc_result" where
  "validate_terminal_id_field field value =
     (if value = [] \<or> length value > MAX_TERMINAL_ID_LEN
      then reject (field @ '' length must be 1..='' @ dec_string MAX_TERMINAL_ID_LEN)
      else if sublist ''..'' value \<or> CHR ''/'' \<in> set value \<or> char_of (92 :: nat) \<in> set value
      then reject (field @ '' contains path escape'')
      else if contains_unsafe_shell_chars value
      then reject (field @ '' contains unsafe shell characters'')
      else if \<not> list_all (\<lambda>c. is_ascii_alphanumeric c \<or> c \<in> set '' -_.%'') value
      then reject (field @ '' contains invalid characters'')
      else Ok ())"

definition validate_ingest_payload :: "ingest_payload \<Rightarrow> unit ipc_result" where
  "validate_ingest_payload p = first_error
     [wire_bounded 32 ''source'' (ip_source p),
      wire_bounded 32 ''event'' (ip_event p),
      optional (wire_bounded MAX_SESSION_ID_LEN ''sessionId'') (ip_session_id p),
      optional (wire_bounded MAX_EXTERNAL_SESSION_ID_LEN ''externalSessionId'') (ip_external_session_id p),
      optional (wire_bounded MAX_SESSION_LABEL_LEN ''label'') (ip_label p),
      optional (wire_bounded MAX_WORKSPACE_LABEL_LEN ''workspaceLabel'') (ip_workspace_label p),
      optional (wire_bounded 32 ''status'') (ip_status p),
      optional (wire_bounded 32 ''attention'') (ip_attention p),
      optional (wire_bounded MAX_EVENT_SUMMARY_LEN ''summary'') (ip_summary p),
      optional (wire_bounded MAX_TOOL_NAME_LEN ''toolName'') (ip_tool_name p),
      (if (ip_pid p \<noteq> None) \<noteq> (ip_process_started_at_ms p \<noteq> None)
       then reject ''pid and processStartedAtMs must be provided together'' else Ok ()),
      (case ip_process_started_at_ms p of
         Some t \<Rightarrow> if t \<le> 0 then reject ''processStartedAtMs must be positive'' else Ok ()
       | None \<Rightarrow> Ok ()),
      optional (validate_terminal_id_field ''terminalSessionId'') (ip_terminal_session_id p),
      optional (validate_terminal_id_field ''tabId'') (ip_tab_id p),
      optional (validate_terminal_id_field ''paneId'') (ip_pane_id p),
      (if ip_window_handle p = Some 0
       then reject ''windowHandle must be positive when provided'' else Ok ())]"

fun validate_body :: "wire_body \<Rightarrow> unit ipc_result" where
  "validate_body (Auth token_b64) =
     (if token_b64 = [] \<or> length token_b64 > 128 then reject ''tokenB64 out of bounds'' else Ok ())"
| "validate_body (Ingest payload) = validate_ingest_payload payload"
| "validate_body Ack = Ok ()"
| "validate_body (DecisionWait w) = first_error
     [wire_bounded 32 ''source'' (dw_source w),
      wire_bounded 64 ''vendorEvent'' (dw_vendor_event w),
      wire_bounded MAX_EXTERNAL_SESSION_ID_LEN ''externalSessionId'' (dw_external_session_id w),
      optional (wire_bounded MAX_SESSION_ID_LEN ''sessionId'') (dw_session_id w),
      wire_bounded 32 ''decisionKind'' (dw_decision_kind w),
      wire_bounded MAX_DECISION_SUMMARY_LEN ''summary'' (dw_summary w),
      optional (wire_bounded 64 ''respondableHook'') (dw_respondable_hook w),
      optional (wire_bounded MAX_TOOL_NAME_LEN ''toolName'') (dw_tool_name w),
      wire_bounded 64 ''connectionId'' (dw_connection_id w),
      optional (\<lambda>v. if length v > MAX_DECISION_CONTEXT_BYTES
        then reject (''vendorContextJson exceeds '' @ dec_string MAX_DECISION_CONTEXT_BYTES @ '' bytes'')
        else Ok ()) (dw_vendor_context_json w)]"
| "validate_body (DecisionReply stdout_json delivery_state) =
     (if length stdout_json > MAX_DECISION_CONTEXT_BYTES
      then reject ''stdoutJson exceeds decision context bounds''
      else wire_bounded 32 ''deliveryState'' delivery_state)"
| "validate_body (WireError code message) =
     (if code = [] \<or> length code > MAX_ERROR_CODE_LEN then reject ''error code out of bounds''
      else if length message > MAX_ERROR_MESSAGE_LEN then reject ''error message out of bounds''
      else Ok ())"

definition validate_wire_message :: "wire_message \<Rightarrow> unit ipc_result" where
  "validate_wire_message m = first_error
     [validate_request_id (wm_request_id m),
      (if wm_version m \<noteq> IPC_WIRE_VERSION
       then reject (''unsupported wire version '' @ dec_string (wm_version m)) else Ok ()),
      validate_body (wm_body m)]"

section \<open>Frames\<close>

text \<open>
  \<open>wire_to_json\<close> is \<open>serde_json::to_vec\<close>, \<open>wire_from_json\<close> is \<open>serde_json::from_str\<close> on text that is valid
  UTF-8. \<open>wire_json_faithful\<close> states their documented contract: what is written is UTF-8 and reads back.
\<close>

record wire_env =
  wire_to_json :: "wire_message \<Rightarrow> string option"
  wire_from_json :: "string \<Rightarrow> (string, wire_message) outcome"

text \<open>\<open>std::str::from_utf8\<close>: the well-formed byte sequences of the Unicode standard (Table 3-7).\<close>

definition byte_in :: "nat \<Rightarrow> nat \<Rightarrow> char \<Rightarrow> bool" where
  "byte_in lo hi c \<longleftrightarrow> lo \<le> of_char c \<and> of_char c \<le> hi"

fun utf8_tail :: "string \<Rightarrow> nat option" where
  "utf8_tail [] = None"
| "utf8_tail (a # s) =
     (let cont = byte_in 128 191; cont_at = (\<lambda>i. i < length s \<and> cont (s ! i));
          second = (\<lambda>lo hi. s \<noteq> [] \<and> byte_in lo hi (hd s))
      in if byte_in 0 127 a then Some 1
         else if byte_in 194 223 a \<and> cont_at 0 then Some 2
         else if byte_in 224 224 a \<and> second 160 191 \<and> cont_at 1 then Some 3
         else if byte_in 237 237 a \<and> second 128 159 \<and> cont_at 1 then Some 3
         else if byte_in 225 239 a \<and> \<not> byte_in 237 237 a \<and> cont_at 0 \<and> cont_at 1 then Some 3
         else if byte_in 240 240 a \<and> second 144 191 \<and> cont_at 1 \<and> cont_at 2 then Some 4
         else if byte_in 241 243 a \<and> cont_at 0 \<and> cont_at 1 \<and> cont_at 2 then Some 4
         else if byte_in 244 244 a \<and> second 128 143 \<and> cont_at 1 \<and> cont_at 2 then Some 4
         else None)"

lemma utf8_tail_pos: "utf8_tail s = Some n \<Longrightarrow> 0 < n \<and> s \<noteq> []"
  by (cases s) (auto simp: Let_def split: if_splits)

function utf8_valid :: "string \<Rightarrow> bool" where
  "utf8_valid s =
     (if s = [] then True
      else (case utf8_tail s of None \<Rightarrow> False | Some n \<Rightarrow> utf8_valid (drop n s)))"
  by auto
termination
  by (relation "measure length") (auto dest: utf8_tail_pos simp: diff_less)

declare utf8_valid.simps [simp del]

definition wire_json_faithful :: "wire_env \<Rightarrow> bool" where
  "wire_json_faithful env \<longleftrightarrow>
     (\<forall>m s. wire_to_json env m = Some s \<longrightarrow> utf8_valid s \<and> wire_from_json env s = Ok m)"

definition u32_to_be_bytes :: "nat \<Rightarrow> string" where
  "u32_to_be_bytes n = map char_of [n div 2 ^ 24 mod 256, n div 2 ^ 16 mod 256, n div 2 ^ 8 mod 256, n mod 256]"

definition u32_from_be_bytes :: "string \<Rightarrow> nat" where
  "u32_from_be_bytes bs = foldl (\<lambda>n b. 256 * n + of_char b) 0 bs"

definition length_rejected :: "nat \<Rightarrow> 'a ipc_result" where
  "length_rejected n = Err (FrameRejected (''declared length '' @ dec_string n @ '' exceeds max '' @ dec_string MAX_FRAME_BYTES))"

definition encode_message :: "wire_env \<Rightarrow> wire_message \<Rightarrow> string ipc_result" where
  "encode_message env m =
     (case validate_wire_message m of
        Err e \<Rightarrow> Err e
      | Panic p \<Rightarrow> Panic p
      | Ok u \<Rightarrow>
          (case wire_to_json env m of
             None \<Rightarrow> Err IpcOther
           | Some body \<Rightarrow>
               if length body > MAX_FRAME_BYTES
               then Err (FrameRejected (''frame exceeds '' @ dec_string MAX_FRAME_BYTES @ '' bytes''))
               else Ok (u32_to_be_bytes (wrap_u32 (length body)) @ body)))"

definition decode_frame_bytes :: "wire_env \<Rightarrow> string \<Rightarrow> wire_message ipc_result" where
  "decode_frame_bytes env frame =
     (if length frame < 4 then Err (FrameRejected ''frame shorter than length prefix'')
      else
        let n = u32_from_be_bytes (take 4 frame); body = drop 4 frame
        in if n > MAX_FRAME_BYTES then length_rejected n
           else if length frame \<noteq> 4 + n
           then Err (FrameRejected (''frame size '' @ dec_string (length frame) @ '' != declared '' @ dec_string (4 + n)))
           else if \<not> utf8_valid body then Err (FrameRejected ''frame body is not valid UTF-8'')
           else (case wire_from_json env body of
               Err msg \<Rightarrow> Err (FrameRejected (''invalid JSON: '' @ msg))
             | Panic p \<Rightarrow> Panic p
             | Ok m \<Rightarrow>
                 (case validate_wire_message m of
                    Ok u \<Rightarrow> Ok m | Err e \<Rightarrow> Err e | Panic p \<Rightarrow> Panic p)))"

text \<open>
  A stream delivers its bytes in pieces of any size. \<open>read_exact\<close> takes pieces until the buffer is
  full; the end of the stream is \<open>ConnectionClosed\<close>, and a stall longer than the read timeout gives
  the read up, with the bytes it had taken.
\<close>

datatype chunk = Data string | Stall

type_synonym 'a stream_op = "(chunk list, ipc_error, 'a) op"

fun read_exact :: "nat \<Rightarrow> string stream_op" where
  "read_exact n chunks =
     (if n = 0 then (Ok [], chunks)
      else (case chunks of
          [] \<Rightarrow> (Err ConnectionClosed, [])
        | Stall # cs \<Rightarrow> (Err ReadTimeout, cs)
        | Data c # cs \<Rightarrow>
            if c = [] then (Err ConnectionClosed, cs)
            else if length c > n then (Ok (take n c), Data (drop n c) # cs)
            else (case read_exact (n - length c) cs of
                (Ok bs, rest) \<Rightarrow> (Ok (c @ bs), rest)
              | (Err e, rest) \<Rightarrow> (Err e, rest)
              | (Panic p, rest) \<Rightarrow> (Panic p, rest))))"

declare read_exact.simps [simp del]

definition read_frame :: "wire_env \<Rightarrow> wire_message stream_op" where
  "read_frame env =
     bind (read_exact 4) (\<lambda>len_buf.
       let n = u32_from_be_bytes len_buf
       in if n > MAX_FRAME_BYTES then lift (length_rejected n)
          else bind (read_exact n) (\<lambda>body. lift (decode_frame_bytes env (len_buf @ body))))"

section \<open>Round trip\<close>

lemma be_bytes_round_trip: "n < 2 ^ 32 \<Longrightarrow> u32_from_be_bytes (u32_to_be_bytes n) = n"
proof -
  assume n: "n < 2 ^ 32"
  define a b where "a = n div 256" and "b = a div 256"
  have parts: "n div 65536 = b" "n div 16777216 = b div 256"
    by (simp_all add: a_def b_def flip: div_mult2_eq)
  have "b div 256 mod 256 = b div 256"
    using n by (simp add: less_mult_imp_div_less flip: parts)
  moreover have "256 * (n div 256) + n mod 256 = n" "256 * (a div 256) + a mod 256 = a"
    "256 * (b div 256) + b mod 256 = b"
    by (rule mult_div_mod_eq)+
  ultimately show ?thesis
    by (simp add: u32_from_be_bytes_def u32_to_be_bytes_def parts flip: a_def b_def)
qed

lemma length_be_bytes [simp]: "length (u32_to_be_bytes n) = 4"
  by (simp add: u32_to_be_bytes_def)

lemma decode_encoded:
  assumes "wire_json_faithful env" and "encode_message env m = Ok frame"
  shows "decode_frame_bytes env frame = Ok m" and "validate_wire_message m = Ok ()"
proof -
  from assms(2) obtain body where body: "wire_to_json env m = Some body" "length body \<le> MAX_FRAME_BYTES"
    and valid: "validate_wire_message m = Ok ()"
    and frame: "frame = u32_to_be_bytes (wrap_u32 (length body)) @ body"
    by (auto simp: encode_message_def split: outcome.splits option.splits if_splits)
  from body(2) have "wrap_u32 (length body) = length body" by (simp add: wrap_u32_def MAX_FRAME_BYTES_def)
  moreover from body(2) have "u32_from_be_bytes (u32_to_be_bytes (length body)) = length body"
    by (intro be_bytes_round_trip) (simp add: MAX_FRAME_BYTES_def)
  ultimately show "decode_frame_bytes env frame = Ok m"
    using assms(1) body valid
    by (auto simp: decode_frame_bytes_def Let_def frame wire_json_faithful_def)
  show "validate_wire_message m = Ok ()" by (rule valid)
qed

text \<open>However the bytes are cut into pieces, \<open>read_exact\<close> returns the next \<open>n\<close> of them.\<close>

lemma read_exact_pieces:
  assumes "[] \<notin> set cs" and "n \<le> length (concat cs)"
  shows "\<exists>ds. read_exact n (map Data cs) = (Ok (take n (concat cs)), map Data ds) \<and>
    [] \<notin> set ds \<and> concat ds = drop n (concat cs)"
  using assms
proof (induction cs arbitrary: n)
  case Nil
  then show ?case by (simp add: read_exact.simps)
next
  case (Cons c cs)
  show ?case
  proof (cases "n = 0 \<or> n < length c")
    case True
    then show ?thesis
      using Cons.prems
      by (intro exI [of _ "if n = 0 then c # cs else drop n c # cs"]) (auto simp: read_exact.simps)
  next
    case False
    have "n - length c \<le> length (concat cs)" using Cons.prems(2) by simp
    with Cons.prems Cons.IH [of "n - length c"] obtain ds where
      "read_exact (n - length c) (map Data cs) = (Ok (take (n - length c) (concat cs)), map Data ds)"
      "[] \<notin> set ds" "concat ds = drop (n - length c) (concat cs)" by auto
    with False Cons.prems show ?thesis
      by (intro exI [of _ ds]) (auto simp: read_exact.simps [of n])
  qed
qed

lemma read_frame_encoded:
  assumes "wire_json_faithful env" and "encode_message env m = Ok frame"
    and "[] \<notin> set cs" and "concat cs = frame @ later"
  shows "\<exists>ds. read_frame env (map Data cs) = (Ok m, map Data ds) \<and> [] \<notin> set ds \<and> concat ds = later"
proof -
  note dec = decode_encoded [OF assms(1,2)]
  from assms(2) obtain body where body: "length body \<le> MAX_FRAME_BYTES"
    "frame = u32_to_be_bytes (length body) @ body"
    by (auto simp: encode_message_def wrap_u32_def MAX_FRAME_BYTES_def split: outcome.splits option.splits if_splits)
  from body(1) have len: "u32_from_be_bytes (u32_to_be_bytes (length body)) = length body"
    by (intro be_bytes_round_trip) (simp add: MAX_FRAME_BYTES_def)
  from read_exact_pieces [OF assms(3), of 4] assms(4) body(2) obtain ds1 where
    ds1: "read_exact 4 (map Data cs) = (Ok (u32_to_be_bytes (length body)), map Data ds1)"
      "[] \<notin> set ds1" "concat ds1 = body @ later" by auto
  from read_exact_pieces [OF ds1(2), of "length body"] ds1(3) obtain ds2 where
    ds2: "read_exact (length body) (map Data ds1) = (Ok body, map Data ds2)"
      "[] \<notin> set ds2" "concat ds2 = later" by auto
  have "read_frame env (map Data cs) = (Ok m, map Data ds2)"
    using ds1(1) ds2(1) body len dec(1) by (simp add: read_frame_def bind_def lift_def Let_def)
  with ds2 show ?thesis by blast
qed

text \<open>
  (C38) Framing: what one side encodes the other side reads back, however the transport cuts the bytes
  into pieces, and the bytes of the next frame stay in the stream. The one assumption is that
  \<open>serde_json\<close> reads back the text it wrote.
\<close>

theorem frame_round_trip:
  assumes "wire_json_faithful env" and "encode_message env m = Ok frame"
    and "[] \<notin> set cs" and "concat cs = frame @ later"
  shows "\<exists>ds. read_frame env (map Data cs) = (Ok m, map Data ds) \<and> [] \<notin> set ds \<and> concat ds = later"
  by (rule read_frame_encoded [OF assms])

text \<open>Whatever arrives, a message that is read is valid, and no body above the limit is waited for.\<close>

lemma decoded_valid: "decode_frame_bytes env frame = Ok m \<Longrightarrow> validate_wire_message m = Ok ()"
  by (auto simp: decode_frame_bytes_def length_rejected_def Let_def split: if_splits outcome.splits)

lemma read_frame_valid: "read_frame env s = (Ok m, s') \<Longrightarrow> validate_wire_message m = Ok ()"
  unfolding read_frame_def Let_def
  by (auto simp: bind_def lift_def length_rejected_def dest: decoded_valid split: prod.splits outcome.splits if_splits)

text \<open>A stall inside a frame loses its first bytes: the rest is read as if it began a frame.\<close>

lemma stall_loses_bytes:
  "0 < length c \<Longrightarrow> length c < 4 \<Longrightarrow> read_frame env (Data c # Stall # s) = (Err ReadTimeout, s)"
  by (simp add: read_frame_def bind_def read_exact.simps [of 4] read_exact.simps [of "4 - length c"])

section \<open>A concrete codec\<close>

text \<open>A codec with one text per message shows that the assumption on \<open>serde_json\<close> can hold.\<close>

definition sample_ack :: wire_message where
  "sample_ack = \<lparr>wm_version = 1, wm_request_id = ''r1'', wm_body = Ack\<rparr>"

definition ack_env :: wire_env where
  "ack_env = \<lparr>wire_to_json = \<lambda>m. if m = sample_ack then Some ''ack'' else None,
     wire_from_json = \<lambda>s. if s = ''ack'' then Ok sample_ack else Err ''unknown''\<rparr>"

lemma ack_env_faithful: "wire_json_faithful ack_env"
  by (auto simp: wire_json_faithful_def ack_env_def utf8_valid.simps byte_in_def Let_def split: if_splits)

lemma ack_frame: "encode_message ack_env sample_ack = Ok (map char_of [0, 0, 0, 3 :: nat] @ ''ack'')"
  by (simp add: encode_message_def validate_wire_message_def validate_request_id_def sample_ack_def
      ipc_limits is_ascii_alphanumeric_def ascii_classes wrap_u32_def u32_to_be_bytes_def)
    (simp add: ack_env_def sample_ack_def ipc_limits wrap_u32_def u32_to_be_bytes_def)

theorem frame_round_trip_witness:
  "\<exists>ds. read_frame ack_env (map Data [[char_of (0 :: nat)], map char_of [0, 0, 3 :: nat] @ ''a'', ''ck'' @ ''x'']) =
     (Ok sample_ack, map Data ds) \<and> concat ds = ''x''"
  using frame_round_trip [OF ack_env_faithful ack_frame,
      of "[[char_of (0 :: nat)], map char_of [0, 0, 3 :: nat] @ ''a'', ''ck'' @ ''x'']" "''x''"]
  by auto

end
