(* ===== verification/Ipc_Normalize.thy ===== *)
theory Ipc_Normalize
  imports Ipc_Wire Json_Value
begin

text \<open>
  \<^verbatim>\<open>crates/notch-ipc/src/normalize.rs\<close> and \<^verbatim>\<open>collector.rs\<close>: from the payload of a hook to the session
  records of the protocol. A fresh UUID and the SHA-256 digest are arguments.
\<close>

section \<open>Terminal metadata\<close>

definition verified_terminal_from_ingest :: "ingest_payload \<Rightarrow> verified_terminal_context option" where
  "verified_terminal_from_ingest p =
     (let terminal = \<lparr>vt_terminal_session_id = ip_terminal_session_id p, vt_tab_id = ip_tab_id p,
            vt_pane_id = ip_pane_id p, vt_window_handle = ip_window_handle p\<rparr>
      in if vt_terminal_session_id terminal = None \<and> vt_tab_id terminal = None \<and>
            vt_pane_id terminal = None \<and> vt_window_handle terminal = None
         then None else Some terminal)"

text \<open>
  The environment of the hook is a function from names; \<open>discovered\<close> is the window handle the
  platform finds.
\<close>

type_synonym process_env = "string \<Rightarrow> string option"

definition read_env_string :: "process_env \<Rightarrow> string \<Rightarrow> string option" where
  "read_env_string e name =
     Option.bind (e name) (\<lambda>value. let trimmed = trim value in if trimmed = [] then None else Some trimmed)"

definition read_terminal_session_id_from_env :: "process_env \<Rightarrow> string option" where
  "read_terminal_session_id_from_env e =
     or_else (read_env_string e ''LLM_NOTCH_TERMINAL_SESSION_ID'') (read_env_string e ''WT_SESSION'')"

text \<open>\<open>is_window\<close> is the answer of the window system, always yes off Windows.\<close>

definition validate_window_handle :: "(nat \<Rightarrow> bool) \<Rightarrow> nat \<Rightarrow> bool" where
  "validate_window_handle is_window raw_handle \<longleftrightarrow>
     raw_handle \<noteq> 0 \<and> raw_handle \<le> 2 ^ 63 - 1 \<and> is_window raw_handle"

definition parse_window_handle :: "(nat \<Rightarrow> bool) \<Rightarrow> string option \<Rightarrow> nat option" where
  "parse_window_handle is_window value =
     Option.bind value (\<lambda>raw. let trimmed = trim raw
       in if trimmed = [] then None
          else Option.bind (parse_u64 trimmed) (\<lambda>h. if validate_window_handle is_window h then Some h else None))"

definition enrich_ingest_with_collector_env ::
  "(nat \<Rightarrow> bool) \<Rightarrow> nat option \<Rightarrow> process_env \<Rightarrow> ingest_payload \<Rightarrow> ingest_payload" where
  "enrich_ingest_with_collector_env is_window discovered e p =
     p\<lparr>ip_terminal_session_id := or_else (ip_terminal_session_id p) (read_terminal_session_id_from_env e),
       ip_tab_id := or_else (ip_tab_id p) (read_env_string e ''LLM_NOTCH_TAB_ID''),
       ip_pane_id := or_else (ip_pane_id p) (read_env_string e ''LLM_NOTCH_PANE_ID''),
       ip_window_handle := or_else (ip_window_handle p)
         (or_else (parse_window_handle is_window (e ''LLM_NOTCH_WINDOW_HANDLE'')) discovered)\<rparr>"

section \<open>Words of the wire\<close>

definition ipc_parse_source :: "string \<Rightarrow> agent_source ipc_result" where
  "ipc_parse_source value =
     (let v = to_ascii_lowercase value
      in if v = ''cursor'' then Ok Cursor
         else if v \<in> {''claudecode'', ''claude_code'', ''claude-code''} then Ok ClaudeCode
         else if v = ''codex'' then Ok Codex
         else if v \<in> {''gemini'', ''geminicli'', ''gemini-cli''} then Ok Gemini
         else if v \<in> {''antigravitycli'', ''antigravity-cli'', ''antigravity'', ''agy''} then Ok AntigravityCli
         else if v \<in> {''copilotcli'', ''copilot-cli'', ''copilot''} then Ok CopilotCli
         else if v \<in> {''qwen'', ''qwen-cli'', ''qwencode''} then Ok Qwen
         else if v = ''generic'' then Ok Generic
         else if v = ''unknown'' then Ok UnknownSource
         else Err (FrameRejected (''unsupported source `'' @ v @ ''`'')))"

definition status_of_word :: "string \<Rightarrow> session_status option" where
  "status_of_word w =
     (let v = to_ascii_lowercase w
      in if v = ''starting'' then Some Starting
         else if v = ''running'' then Some Running
         else if v = ''waiting'' then Some Waiting
         else if v = ''paused'' then Some Paused
         else if v = ''completed'' then Some Completed
         else if v = ''failed'' then Some Failed
         else if v = ''stale'' then Some Stale
         else None)"

definition ipc_parse_status :: "ingest_payload \<Rightarrow> session_status option" where
  "ipc_parse_status p = Option.bind (ip_status p) status_of_word"

definition attention_of_word :: "string \<Rightarrow> attention_kind option" where
  "attention_of_word w =
     (let v = to_ascii_lowercase w
      in if v = ''none'' then Some AttentionNone
         else if v = ''approval'' then Some AttentionApproval
         else if v = ''question'' then Some AttentionQuestion
         else if v = ''permission'' then Some AttentionPermission
         else if v = ''error'' then Some AttentionError
         else None)"

definition ipc_parse_attention :: "ingest_payload \<Rightarrow> attention_kind option" where
  "ipc_parse_attention p = Option.bind (ip_attention p) attention_of_word"

definition ipc_parse_event_kind :: "string \<Rightarrow> session_event_kind ipc_result" where
  "ipc_parse_event_kind event =
     (if event = ''tool'' then Ok KindTool
      else if event = ''attention'' then Ok KindAttention
      else if event \<in> {''status'', ''statuschange'', ''status_change''} then Ok KindStatus
      else if event \<in> {''lifecycle'', ''sessionevent'', ''event'', ''sessionstart'', ''sessionend'', ''start'', ''end''}
      then Ok KindLifecycle
      else Err (FrameRejected (''unsupported event kind `'' @ event @ ''`'')))"

definition parse_level :: "ingest_payload \<Rightarrow> event_level" where
  "parse_level p =
     (case ipc_parse_attention p of
        Some AttentionError \<Rightarrow> LevelError
      | Some AttentionPermission \<Rightarrow> LevelWarning
      | Some AttentionApproval \<Rightarrow> LevelWarning
      | _ \<Rightarrow> LevelInfo)"

fun default_summary :: "session_event_kind \<Rightarrow> string" where
  "default_summary KindLifecycle = ''Session lifecycle update''"
| "default_summary KindTool = ''Tool activity''"
| "default_summary KindAttention = ''Attention required''"
| "default_summary KindStatus = ''Status update''"

section \<open>Normalisation\<close>

datatype normalized_ingest =
    NormSessionUpsert agent_session
  | NormSessionRemove string agent_source "string option"
  | NormSessionEvent session_event agent_source "string option" "attention_kind option"

text \<open>\<open>digest\<close> is the hex text of the first 16 bytes of SHA-256.\<close>

type_synonym digest = "string \<Rightarrow> string"

definition stable_session_id :: "digest \<Rightarrow> agent_source \<Rightarrow> string \<Rightarrow> string" where
  "stable_session_id sha source external_session_id = sha (debug_source source @ '':'' @ external_session_id)"

definition ipc_resolve_session_id :: "digest \<Rightarrow> ingest_payload \<Rightarrow> agent_source \<Rightarrow> string ipc_result" where
  "ipc_resolve_session_id sha p source =
     (case ip_session_id p of
        Some i \<Rightarrow> Ok i
      | None \<Rightarrow>
          (case ip_external_session_id p of
             None \<Rightarrow> Err (FrameRejected ''sessionId or externalSessionId required'')
           | Some external \<Rightarrow> Ok (stable_session_id sha source external)))"

definition unwrap_or :: "'a \<Rightarrow> 'a option \<Rightarrow> 'a" where
  "unwrap_or d x = (case x of None \<Rightarrow> d | Some v \<Rightarrow> v)"

definition build_session :: "digest \<Rightarrow> ingest_payload \<Rightarrow> agent_source \<Rightarrow> int \<Rightarrow> agent_session ipc_result" where
  "build_session sha p source now_ms =
     (case or_else (ip_external_session_id p) (ip_session_id p) of
        None \<Rightarrow> Err (FrameRejected ''externalSessionId required'')
      | Some external_session_id \<Rightarrow>
          Ok \<lparr>s_id = unwrap_or (stable_session_id sha source external_session_id) (ip_session_id p),
              s_source = source,
              s_external_session_id = external_session_id,
              s_label = unwrap_or ''Agent session'' (ip_label p),
              s_workspace_label = ip_workspace_label p,
              s_status = unwrap_or Running (ipc_parse_status p),
              s_attention = unwrap_or AttentionNone (ipc_parse_attention p),
              s_started_at_ms = unwrap_or now_ms (ip_occurred_at_ms p),
              s_last_event_at_ms = unwrap_or now_ms (ip_occurred_at_ms p),
              s_ended_at_ms = None,
              s_process_root = (case (ip_pid p, ip_process_started_at_ms p) of
                  (Some n, Some t) \<Rightarrow> Some \<lparr>pid = n, pid_started_at_ms = t\<rparr>
                | _ \<Rightarrow> None),
              s_verified_terminal = verified_terminal_from_ingest p,
              s_latest_metric = None\<rparr>)"

text \<open>The words of the \<open>match\<close> on the event.\<close>

definition remove_events :: "string list" where
  "remove_events = [''sessionremove'', ''session_remove'', ''remove'']"

definition timeline_events :: "string list" where
  "timeline_events = [''sessionevent'', ''event'', ''tool'', ''attention'', ''status'', ''lifecycle'']"

definition upsert_events :: "string list" where
  "upsert_events = [''sessionupsert'', ''session_upsert'', ''sessionstart'', ''session_start'', ''start'',
     ''update'', ''statuschange'', ''status_change'']"

definition end_events :: "string list" where
  "end_events = [''sessionend'', ''session_end'', ''end'', ''complete'', ''fail'']"

definition normalize_ingest ::
  "digest \<Rightarrow> nat \<Rightarrow> ingest_payload \<Rightarrow> int \<Rightarrow> normalized_ingest ipc_result" where
  "normalize_ingest sha uuid p now_ms =
     (case ipc_parse_source (ip_source p) of
        Err e \<Rightarrow> Err e
      | Panic m \<Rightarrow> Panic m
      | Ok source \<Rightarrow>
          let event = to_ascii_lowercase (ip_event p)
          in if event \<in> set remove_events then
               (case ipc_resolve_session_id sha p source of
                  Err e \<Rightarrow> Err e
                | Panic m \<Rightarrow> Panic m
                | Ok session_id \<Rightarrow> Ok (NormSessionRemove session_id source (ip_external_session_id p)))
             else if event \<in> set timeline_events then
               (case ipc_resolve_session_id sha p source of
                  Err e \<Rightarrow> Err e
                | Panic m \<Rightarrow> Panic m
                | Ok session_id \<Rightarrow>
                    (case ipc_parse_event_kind event of
                       Err e \<Rightarrow> Err e
                     | Panic m \<Rightarrow> Panic m
                     | Ok kind \<Rightarrow>
                         Ok (NormSessionEvent
                           \<lparr>e_id = uuid, e_session_id = session_id, e_sequence = 0,
                            e_occurred_at_ms = unwrap_or now_ms (ip_occurred_at_ms p),
                            e_kind = kind, e_level = parse_level p,
                            e_summary = unwrap_or (default_summary kind) (ip_summary p),
                            e_tool_name = ip_tool_name p\<rparr>
                           source (ip_external_session_id p) (ipc_parse_attention p))))
             else if event \<in> set upsert_events then
               (case build_session sha p source now_ms of
                  Err e \<Rightarrow> Err e | Panic m \<Rightarrow> Panic m | Ok s \<Rightarrow> Ok (NormSessionUpsert s))
             else if event \<in> set end_events then
               (case build_session sha p source now_ms of
                  Err e \<Rightarrow> Err e
                | Panic m \<Rightarrow> Panic m
                | Ok s \<Rightarrow> Ok (NormSessionUpsert (s
                    \<lparr>s_status := unwrap_or Completed (ipc_parse_status p),
                     s_ended_at_ms := Some (unwrap_or now_ms (ip_occurred_at_ms p))\<rparr>)))
             else Err (FrameRejected (''unsupported event `'' @ event @ ''`'')))"

section \<open>What gets through\<close>

lemma first_error_Ok: "first_error rs = Ok () \<longleftrightarrow> (\<forall>r\<in>set rs. r = Ok ())" for rs :: "unit ipc_result list"
  by (induction rs rule: first_error.induct) auto

lemma optional_Ok: "optional f x = Ok () \<longleftrightarrow> (\<forall>v. x = Some v \<longrightarrow> f v = Ok ())"
  by (cases x) (auto simp: optional_def)

lemma wire_bounded_Ok: "wire_bounded mx field v = Ok () \<longleftrightarrow> v \<noteq> [] \<and> length v \<le> mx"
  by (simp add: wire_bounded_def reject_def not_less)

lemma reject_Ok: "(if c then reject m else Ok ()) = Ok () \<longleftrightarrow> \<not> c"
  by (simp add: reject_def)

lemmas payload_checks = validate_ingest_payload_def first_error_Ok optional_Ok wire_bounded_Ok reject_Ok

lemma valid_payload_bounds:
  assumes "validate_ingest_payload p = Ok ()"
  shows "ip_session_id p = Some v \<Longrightarrow> v \<noteq> [] \<and> length v \<le> MAX_SESSION_ID_LEN"
    and "ip_external_session_id p = Some v \<Longrightarrow> v \<noteq> [] \<and> length v \<le> MAX_EXTERNAL_SESSION_ID_LEN"
    and "ip_label p = Some v \<Longrightarrow> v \<noteq> [] \<and> length v \<le> MAX_SESSION_LABEL_LEN"
    and "ip_workspace_label p = Some v \<Longrightarrow> v \<noteq> [] \<and> length v \<le> MAX_WORKSPACE_LABEL_LEN"
    and "ip_summary p = Some v \<Longrightarrow> v \<noteq> [] \<and> length v \<le> MAX_EVENT_SUMMARY_LEN"
    and "ip_tool_name p = Some v \<Longrightarrow> v \<noteq> [] \<and> length v \<le> MAX_TOOL_NAME_LEN"
    and "ip_process_started_at_ms p = Some t \<Longrightarrow> 0 < t"
  using assms by (simp_all add: payload_checks)

text \<open>The bounds the core checks before it stores anything.\<close>

fun passes_core_validation :: "normalized_ingest \<Rightarrow> bool" where
  "passes_core_validation (NormSessionUpsert s) =
     (validate_external_session_id (s_external_session_id s) = Ok () \<and>
      validate_session_label (s_label s) = Ok () \<and>
      (\<forall>w. s_workspace_label s = Some w \<longrightarrow> validate_workspace_label w = Ok ()) \<and>
      (\<forall>r. s_process_root s = Some r \<longrightarrow> 0 < pid_started_at_ms r))"
| "passes_core_validation (NormSessionEvent e source ext att) =
     (validate_event_summary (e_summary e) = Ok () \<and>
      (\<forall>t. e_tool_name e = Some t \<longrightarrow> validate_tool_name t = Ok ()) \<and>
      (\<forall>x. ext = Some x \<longrightarrow> validate_external_session_id x = Ok ()))"
| "passes_core_validation (NormSessionRemove i source ext) =
     (\<forall>x. ext = Some x \<longrightarrow> validate_external_session_id x = Ok ())"

lemma default_summary_bounds: "default_summary k \<noteq> [] \<and> length (default_summary k) \<le> MAX_EVENT_SUMMARY_LEN"
  by (cases k) (simp_all add: protocol_limits)

lemma session_id_fits: "MAX_SESSION_ID_LEN \<le> MAX_EXTERNAL_SESSION_ID_LEN"
  by (simp add: protocol_limits)

lemma build_session_passes:
  assumes "validate_ingest_payload p = Ok ()" and "build_session sha p source now = Ok s"
  shows "passes_core_validation (NormSessionUpsert s)"
proof -
  note bounds = valid_payload_bounds [OF assms(1)]
  have "validate_session_label (unwrap_or ''Agent session'' (ip_label p)) = Ok ()"
    using bounds(3) by (cases "ip_label p") (simp_all add: validate_session_label_def validate_bounded_Ok unwrap_or_def protocol_limits)
  moreover have "validate_external_session_id x = Ok ()" if "or_else (ip_external_session_id p) (ip_session_id p) = Some x" for x
    using that bounds(1,2) session_id_fits
    by (cases "ip_external_session_id p")
      (auto simp: validate_external_session_id_def validate_bounded_Ok or_else_def intro: le_trans)
  moreover have "validate_workspace_label w = Ok ()" if "ip_workspace_label p = Some w" for w
    using bounds(4) [OF that] by (simp add: validate_workspace_label_def validate_bounded_Ok)
  ultimately show ?thesis
    using assms(2) bounds(7)
    by (auto simp: build_session_def split: option.splits)
qed

lemma normalize_cases:
  assumes "normalize_ingest sha uuid p now = Ok n"
  obtains (remove) i src where "n = NormSessionRemove i src (ip_external_session_id p)"
  | (event) e src kind where "n = NormSessionEvent e src (ip_external_session_id p) (ipc_parse_attention p)"
      "e_summary e = unwrap_or (default_summary kind) (ip_summary p)" "e_tool_name e = ip_tool_name p"
  | (upsert) s src where "build_session sha p src now = Ok s" "n = NormSessionUpsert s"
  | (ended) s src a b where "build_session sha p src now = Ok s"
      "n = NormSessionUpsert (s\<lparr>s_status := a, s_ended_at_ms := b\<rparr>)"
proof -
  let ?event = "to_ascii_lowercase (ip_event p)"
  obtain src where src: "ipc_parse_source (ip_source p) = Ok src"
    using assms by (auto simp: normalize_ingest_def split: outcome.splits)
  note body = assms [unfolded normalize_ingest_def Let_def src outcome.case]
  consider (r) "?event \<in> set remove_events" | (t) "?event \<notin> set remove_events" "?event \<in> set timeline_events"
    | (u) "?event \<notin> set remove_events" "?event \<notin> set timeline_events" "?event \<in> set upsert_events"
    | (d) "?event \<notin> set remove_events" "?event \<notin> set timeline_events" "?event \<notin> set upsert_events"
        "?event \<in> set end_events"
    using body by (cases "?event \<in> set remove_events"; cases "?event \<in> set timeline_events";
      cases "?event \<in> set upsert_events"; cases "?event \<in> set end_events"; simp only: if_False if_True) simp_all
  then show thesis
  proof cases
    case r
    with body show thesis by (auto split: outcome.splits intro: remove)
  next
    case t
    then obtain i kind where
      "n = NormSessionEvent
         \<lparr>e_id = uuid, e_session_id = i, e_sequence = 0, e_occurred_at_ms = unwrap_or now (ip_occurred_at_ms p),
          e_kind = kind, e_level = parse_level p, e_summary = unwrap_or (default_summary kind) (ip_summary p),
          e_tool_name = ip_tool_name p\<rparr> src (ip_external_session_id p) (ipc_parse_attention p)"
      using body by (auto split: outcome.splits)
    then show thesis by (rule event) simp_all
  next
    case u
    with body show thesis by (auto split: outcome.splits intro: upsert)
  next
    case d
    with body show thesis by (auto split: outcome.splits intro: ended)
  qed
qed

text \<open>
  What the transport lets through the core accepts: every payload that passes the wire checks and is
  normalised yields a record whose identifiers, labels, summary and tool name pass the core's own
  validation, so an ingest is never refused for the size of a field.
\<close>

lemma normalized_payload_passes:
  assumes "validate_ingest_payload p = Ok ()" and "normalize_ingest sha uuid p now = Ok n"
  shows "passes_core_validation n"
  using assms(2)
proof (cases rule: normalize_cases)
  case (remove i src)
  with valid_payload_bounds(2) [OF assms(1)] show ?thesis
    by (simp add: validate_external_session_id_def validate_bounded_Ok)
next
  case (event e src kind)
  note bounds = valid_payload_bounds [OF assms(1)]
  have "validate_event_summary (e_summary e) = Ok ()"
    using event(2) bounds(5) default_summary_bounds [of kind]
    by (cases "ip_summary p") (simp_all add: unwrap_or_def validate_event_summary_def validate_bounded_Ok)
  with event bounds(2,6) show ?thesis
    by (simp add: validate_external_session_id_def validate_tool_name_def validate_bounded_Ok)
next
  case (upsert s src)
  with build_session_passes [OF assms(1)] show ?thesis by blast
next
  case (ended s src a b)
  with build_session_passes [OF assms(1) ended(1)] show ?thesis by simp
qed

definition sample_ingest :: ingest_payload where
  "sample_ingest =
     \<lparr>ip_source = ''Codex'', ip_event = ''tool'', ip_session_id = Some ''s1'', ip_external_session_id = None,
      ip_label = None, ip_workspace_label = None, ip_status = None, ip_attention = None, ip_summary = None,
      ip_tool_name = Some ''bash'', ip_pid = None, ip_process_started_at_ms = None,
      ip_occurred_at_ms = Some 5, ip_terminal_session_id = None, ip_tab_id = None, ip_pane_id = None,
      ip_window_handle = None\<rparr>"

definition sample_event :: session_event where
  "sample_event =
     \<lparr>e_id = 7, e_session_id = ''s1'', e_sequence = 0, e_occurred_at_ms = 5, e_kind = KindTool,
      e_level = LevelInfo, e_summary = ''Tool activity'', e_tool_name = Some ''bash''\<rparr>"

lemma sample_ingest_valid: "validate_ingest_payload sample_ingest = Ok ()"
  by (simp add: sample_ingest_def validate_ingest_payload_def wire_bounded_def optional_def protocol_limits)

lemma sample_ingest_normalized:
  "normalize_ingest (\<lambda>s. s) 7 sample_ingest 9 = Ok (NormSessionEvent sample_event Codex None None)"
  by code_simp

end
