(* ===== verification/Ipc_Spool.thy ===== *)
theory Ipc_Spool
  imports Ipc_Normalize
begin

text \<open>
  \<^verbatim>\<open>crates/notch-ipc/src/spool.rs\<close>: frames kept on disk while the host is away, and
  \<open>drain_spool\<close> of \<^verbatim>\<open>server.rs\<close>, which replays them. A directory is the list of its files; the head of
  \<open>sp_faults\<close> says whether the next call of the file system fails, and an empty list means none does.
\<close>

section \<open>The directory\<close>

record spool_dir =
  sp_files :: "(string \<times> string) list"
  sp_counter :: nat
  sp_faults :: "bool list"

type_synonym 'a spool_op = "(spool_dir, ipc_error, 'a) op"

definition fs_call :: "unit spool_op" where
  "fs_call d =
     (case sp_faults d of
        [] \<Rightarrow> (Ok (), d)
      | fails # fs \<Rightarrow> (if fails then Err IpcIo else Ok (), d\<lparr>sp_faults := fs\<rparr>))"

definition is_frame_file :: "string \<Rightarrow> bool" where
  "is_frame_file name \<longleftrightarrow> 6 < length name \<and> drop (length name - 6) name = ''.frame''"

definition frame_names :: "spool_dir \<Rightarrow> string list" where
  "frame_names d = sort (filter is_frame_file (map fst (sp_files d)))"

definition list_frames :: "string list spool_op" where
  "list_frames = seq fs_call (gets frame_names)"

definition spool_remove :: "string \<Rightarrow> unit spool_op" where
  "spool_remove name =
     seq fs_call (\<lambda>d. if map_of (sp_files d) name = None then (Err IpcIo, d)
       else (Ok (), d\<lparr>sp_files := AList.delete name (sp_files d)\<rparr>))"

text \<open>\<open>filter_map\<close> skips the files whose metadata cannot be read.\<close>

fun total_bytes :: "string list \<Rightarrow> spool_dir \<Rightarrow> nat \<times> spool_dir" where
  "total_bytes [] d = (0, d)"
| "total_bytes (name # names) d =
     (case fs_call d of (r, d1) \<Rightarrow>
        case total_bytes names d1 of (n, d2) \<Rightarrow>
          (case (r, map_of (sp_files d) name) of (Ok u, Some bytes) \<Rightarrow> length bytes + n | _ \<Rightarrow> n, d2))"

definition within_limits :: "string list \<Rightarrow> spool_dir \<Rightarrow> bool \<times> spool_dir" where
  "within_limits files d =
     (if length files < MAX_SPOOL_FILES
      then (case total_bytes files d of (bytes, d1) \<Rightarrow> (bytes < MAX_SPOOL_BYTES, d1))
      else (False, d))"

lemma fs_call_files [simp]: "sp_files (snd (fs_call d)) = sp_files d"
  and fs_call_counter [simp]: "sp_counter (snd (fs_call d)) = sp_counter d"
  by (auto simp: fs_call_def split: list.splits)

lemma fs_call_kept: "fs_call d = (r, d') \<Longrightarrow> sp_files d' = sp_files d \<and> sp_counter d' = sp_counter d"
  using fs_call_files [of d] fs_call_counter [of d] by simp

lemma list_frames_run:
  "list_frames d = (r, d') \<Longrightarrow>
     sp_files d' = sp_files d \<and> sp_counter d' = sp_counter d \<and> (\<forall>names. r = Ok names \<longrightarrow> names = frame_names d)"
  by (auto simp: list_frames_def seq_def bind_def gets_def frame_names_def dest: fs_call_kept
      split: prod.splits outcome.splits)

lemma total_bytes_kept: "total_bytes names d = (n, d') \<Longrightarrow> sp_files d' = sp_files d \<and> sp_counter d' = sp_counter d"
  by (induction names d arbitrary: n d' rule: total_bytes.induct)
    (auto dest!: fs_call_kept split: prod.splits)

lemma within_limits_kept: "within_limits files d = (b, d') \<Longrightarrow> sp_files d' = sp_files d \<and> sp_counter d' = sp_counter d"
  by (auto simp: within_limits_def dest: total_bytes_kept split: if_splits prod.splits)

lemma spool_remove_run:
  "spool_remove name d = (r, d') \<Longrightarrow>
     sp_counter d' = sp_counter d \<and>
     sp_files d' = (if r = Ok () then AList.delete name (sp_files d) else sp_files d) \<and>
     (r = Ok () \<longrightarrow> name \<in> fst ` set (sp_files d))"
  by (auto simp: spool_remove_def seq_def bind_def map_of_eq_None_iff dest!: fs_call_kept
      split: prod.splits outcome.splits if_splits)

lemma delete_shorter: "k \<in> fst ` set xs \<Longrightarrow> length (AList.delete k xs) < length xs"
  by (auto simp: AList.delete_eq intro: length_filter_less)

function enforce_limits :: "unit spool_op" where
  "enforce_limits d =
     (case list_frames d of
        (Err e, d1) \<Rightarrow> (Err e, d1)
      | (Panic p, d1) \<Rightarrow> (Panic p, d1)
      | (Ok files, d1) \<Rightarrow>
          (case within_limits files d1 of (fits, d2) \<Rightarrow>
             if fits then (Ok (), d2)
             else (case files of
                 [] \<Rightarrow> (Ok (), d2)
               | oldest # _ \<Rightarrow>
                   (case spool_remove oldest d2 of
                      (Err e, d3) \<Rightarrow> (Err e, d3)
                    | (Panic p, d3) \<Rightarrow> (Panic p, d3)
                    | (Ok u, d3) \<Rightarrow> enforce_limits d3))))"
  by auto
termination
proof (relation "measure (\<lambda>d. length (sp_files d))", goal_cases)
  case (2 d x d1 files fits d2 oldest rest y d3 u)
  then have "sp_files d2 = sp_files d"
    by (auto dest!: sym [THEN list_frames_run] sym [THEN within_limits_kept])
  with 2 spool_remove_run [of oldest d2 "Ok ()" d3] show ?case by (auto intro: delete_shorter dest: sym)
qed simp

declare enforce_limits.simps [simp del]

definition pad20 :: "nat \<Rightarrow> string" where
  "pad20 n = replicate (20 - length (dec_string n)) CHR ''0'' @ dec_string n"

definition frame_stem :: "nat \<Rightarrow> nat \<Rightarrow> nat \<Rightarrow> string \<Rightarrow> string" where
  "frame_stem occurred_at_ms tie_breaker counter uuid =
     pad20 occurred_at_ms @ ''-'' @ pad20 tie_breaker @ ''-'' @ pad20 counter @ ''-'' @ uuid"

definition spool_time :: "int \<Rightarrow> wire_message \<Rightarrow> nat" where
  "spool_time now_ms m =
     nat (max 0 (case wm_body m of Ingest p \<Rightarrow> unwrap_or now_ms (ip_occurred_at_ms p) | _ \<Rightarrow> now_ms))"

text \<open>
  \<open>nanos\<close> is the clock of the tie breaker. \<open>fs_call\<close> stands for the hardening of the permissions; a
  failure after the rename is reported although the frame is in place.
\<close>

definition put_file :: "string \<Rightarrow> string \<Rightarrow> unit spool_op" where
  "put_file name bytes = seq fs_call (modify (\<lambda>d. d\<lparr>sp_files := AList.update name bytes (sp_files d)\<rparr>))"

definition rename_file :: "string \<Rightarrow> string \<Rightarrow> string \<Rightarrow> unit spool_op" where
  "rename_file tmp final bytes = seq fs_call
     (modify (\<lambda>d. d\<lparr>sp_files := AList.update final bytes (AList.delete tmp (sp_files d))\<rparr>))"

definition spool_message ::
  "wire_env \<Rightarrow> int \<Rightarrow> nat \<Rightarrow> string \<Rightarrow> wire_message \<Rightarrow> string spool_op" where
  "spool_message env now_ms nanos uuid m =
     seq enforce_limits
       (bind (lift (encode_message env m)) (\<lambda>frame.
          bind (gets sp_counter) (\<lambda>counter.
            let stem = frame_stem (spool_time now_ms m) nanos counter uuid;
                tmp = stem @ ''.tmp''; final = stem @ ''.frame''
            in seq (modify (\<lambda>d. d\<lparr>sp_counter := wrap_u64 (sp_counter d + 1)\<rparr>))
              (seq (put_file tmp frame)
                (seq fs_call
                  (seq (rename_file tmp final frame)
                    (seq fs_call (ret final))))))))"

section \<open>Replay\<close>

text \<open>
  What the world answers when one normalised event is offered to the host: whether the queue had
  room, and what came back within \<open>HOST_ACCEPT_WAIT_MS\<close>.
\<close>

datatype host_answer = HostAccepted | HostRejected string | HostClosed | HostTimeout

record delivery =
  dl_uuid :: nat
  dl_now_ms :: int
  dl_slot :: bool
  dl_host :: host_answer

record replay =
  rp_dir :: spool_dir
  rp_queue :: "normalized_ingest list"

text \<open>One turn of the loop; the flag says whether the loop goes on.\<close>

definition read_ingest :: "wire_env \<Rightarrow> string \<Rightarrow> ingest_payload option" where
  "read_ingest env bytes =
     (case decode_frame_bytes env bytes of
        Ok m \<Rightarrow> (case wm_body m of Ingest p \<Rightarrow> Some p | _ \<Rightarrow> None)
      | _ \<Rightarrow> None)"

definition drain_frame :: "wire_env \<Rightarrow> digest \<Rightarrow> delivery \<Rightarrow> string \<Rightarrow> replay \<Rightarrow> bool \<times> replay" where
  "drain_frame env sha w path r =
     (case fs_call (rp_dir r) of
        (Ok u, d) \<Rightarrow>
          let r1 = r\<lparr>rp_dir := d\<rparr>
          in (case Option.bind (map_of (sp_files d) path) (read_ingest env) of
               None \<Rightarrow> (False, r1)
             | Some p \<Rightarrow>
                 (case normalize_ingest sha (dl_uuid w) p (dl_now_ms w) of
                    Ok n \<Rightarrow>
                      if \<not> dl_slot w then (False, r1)
                      else
                        let r2 = r1\<lparr>rp_queue := rp_queue r1 @ [n]\<rparr>
                        in if dl_host w \<noteq> HostAccepted then (False, r2)
                           else (case spool_remove path d of
                               (Ok u', d') \<Rightarrow> (True, r2\<lparr>rp_dir := d'\<rparr>)
                             | (_, d') \<Rightarrow> (False, r2\<lparr>rp_dir := d'\<rparr>))
                  | _ \<Rightarrow> (False, r1)))
      | (_, d) \<Rightarrow> (False, r\<lparr>rp_dir := d\<rparr>))"

fun drain_frames :: "wire_env \<Rightarrow> digest \<Rightarrow> (string \<Rightarrow> delivery) \<Rightarrow> string list \<Rightarrow> replay \<Rightarrow> replay" where
  "drain_frames env sha world [] r = r"
| "drain_frames env sha world (path # paths) r =
     (case drain_frame env sha (world path) path r of
        (True, r') \<Rightarrow> drain_frames env sha world paths r'
      | (False, r') \<Rightarrow> r')"

definition drain_spool :: "wire_env \<Rightarrow> digest \<Rightarrow> (string \<Rightarrow> delivery) \<Rightarrow> replay \<Rightarrow> replay" where
  "drain_spool env sha world r =
     (case list_frames (rp_dir r) of
        (Ok paths, d) \<Rightarrow> drain_frames env sha world paths (r\<lparr>rp_dir := d\<rparr>)
      | (_, d) \<Rightarrow> r\<lparr>rp_dir := d\<rparr>)"

section \<open>Order of the replay\<close>

lemma list_less_snoc:
  "length s = length t \<Longrightarrow> s @ [c] < t @ [d] \<longleftrightarrow> s < t \<or> s = t \<and> c < d" for s t :: "'a :: linorder list"
  by (induction s t rule: list_induct2) auto

lemma list_less_append:
  "length s = length t \<Longrightarrow> s < t \<Longrightarrow> s @ x < t @ y" for s t :: "'a :: linorder list"
  by (induction s t rule: list_induct2) auto

lemma digit_value_less:
  assumes "is_ascii_digit c" "is_ascii_digit d"
  shows "digit_value c < 10" and "c < d \<longleftrightarrow> digit_value c < digit_value d" and "c = d \<longleftrightarrow> digit_value c = digit_value d"
proof -
  have range: "(48 :: nat) \<le> of_char c" "of_char c \<le> (57 :: nat)" "(48 :: nat) \<le> of_char d" "of_char d \<le> (57 :: nat)"
    using assms by (auto simp: is_ascii_digit_def)
  then show "digit_value c < 10" by (simp add: digit_value_def)
  show "c < d \<longleftrightarrow> digit_value c < digit_value d"
    using range by (auto simp: digit_value_def less_char_def)
  show "c = d \<longleftrightarrow> digit_value c = digit_value d"
    using range eq_diff_iff [of 48 "of_char c" "of_char d :: nat"] of_char_eq_iff [of c d, where ?'a = nat]
    by (simp add: digit_value_def)
qed

lemma digit_order:
  assumes "c < 10" "d < (10 :: nat)"
  shows "a < b \<or> a = b \<and> c < d \<longleftrightarrow> 10 * a + c < 10 * b + d" "a = b \<and> c = d \<longleftrightarrow> 10 * a + c = 10 * b + d"
  using assms by (cases a b rule: linorder_cases; simp; linarith)+

lemma digits_compare:
  assumes "length s = length t" "list_all is_ascii_digit s" "list_all is_ascii_digit t"
  shows "(s < t \<longleftrightarrow> digits_value s < digits_value t) \<and> (s = t \<longleftrightarrow> digits_value s = digits_value t)"
  using assms
proof (induction s arbitrary: t rule: rev_induct)
  case Nil
  then show ?case by simp
next
  case (snoc c s)
  from snoc.prems(1) obtain t' d where t: "t = t' @ [d]" by (cases t rule: rev_cases) auto
  with snoc have ih: "s < t' \<longleftrightarrow> digits_value s < digits_value t'" "s = t' \<longleftrightarrow> digits_value s = digits_value t'"
    by auto
  have digits: "is_ascii_digit c" "is_ascii_digit d" and len: "length s = length t'"
    using snoc.prems t by auto
  note dv = digit_value_less [OF digits] digit_value_less(1) [OF digits(2) digits(1)]
  show ?case
    unfolding t list_less_snoc [OF len] digits_value_snoc dv(2) ih append1_eq_conv dv(3)
    using digit_order [OF dv(1,4)] by simp
qed

lemma dec_string_length: "0 < k \<Longrightarrow> n < 10 ^ k \<Longrightarrow> length (dec_string n) \<le> k"
proof (induction k arbitrary: n)
  case (Suc k)
  show ?case
  proof (cases "n < 10")
    case False
    with Suc.prems have "0 < k" by (cases k) auto
    moreover have "n div 10 < 10 ^ k" using Suc.prems by (simp add: less_mult_imp_div_less mult.commute)
    ultimately show ?thesis using Suc.IH [of "n div 10"] False by (simp add: dec_string.simps [of n])
  qed (simp add: dec_string.simps [of n])
qed simp

lemma digits_value_zeros: "digits_value (replicate k CHR ''0'' @ s) = digits_value s"
  by (induction k) (simp_all add: digits_value_def digit_value_def)

lemma pad20_digits:
  "n < 10 ^ 20 \<Longrightarrow> length (pad20 n) = 20" "list_all is_ascii_digit (pad20 n)" "digits_value (pad20 n) = n"
  using dec_string_digits [of n] dec_string_length [of 20 n]
  by (auto simp: pad20_def digits_value_zeros list_all_iff is_ascii_digit_def)

lemma pad20_less: "a < 10 ^ 20 \<Longrightarrow> b < 10 ^ 20 \<Longrightarrow> pad20 a < pad20 b \<longleftrightarrow> a < b"
  using digits_compare [of "pad20 a" "pad20 b"] pad20_digits [of a] pad20_digits [of b] by simp

definition name_time :: "string \<Rightarrow> nat" where
  "name_time name = digits_value (take 20 name)"

lemma frame_stem_time:
  assumes "t < 10 ^ 20"
  shows "name_time (frame_stem t nanos c uuid @ ext) = t"
  using pad20_digits [of t] assms by (simp add: name_time_def frame_stem_def)

lemma frame_stem_less:
  assumes "t < 10 ^ 20" "u < 10 ^ 20" "t < u"
  shows "frame_stem t n c i @ x < frame_stem u n' c' i' @ y"
  unfolding frame_stem_def append_assoc
  by (rule list_less_append) (use assms pad20_digits pad20_less in auto)

section \<open>Bounds\<close>

definition spool_names :: "spool_dir \<Rightarrow> string list" where
  "spool_names d = map fst (sp_files d)"

definition file_size :: "spool_dir \<Rightarrow> string \<Rightarrow> nat" where
  "file_size d name = (case map_of (sp_files d) name of None \<Rightarrow> 0 | Some bytes \<Rightarrow> length bytes)"

definition frames_fit :: "spool_dir \<Rightarrow> string list \<Rightarrow> bool" where
  "frames_fit d names \<longleftrightarrow> length names < MAX_SPOOL_FILES \<and> sum_list (map (file_size d) names) < MAX_SPOOL_BYTES"

lemma frame_names_cong: "sp_files d' = sp_files d \<Longrightarrow> frame_names d' = frame_names d"
  by (simp add: frame_names_def)

lemma set_frame_names: "set (frame_names d) = {n \<in> fst ` set (sp_files d). is_frame_file n}"
  by (auto simp: frame_names_def)

lemma distinct_frame_names: "distinct (spool_names d) \<Longrightarrow> distinct (frame_names d)"
  by (simp add: frame_names_def spool_names_def)

lemma frame_names_delete:
  "sp_files d' = AList.delete name (sp_files d) \<Longrightarrow> frame_names d' = filter (\<lambda>n. name \<noteq> n) (frame_names d)"
  by (simp add: frame_names_def filter_sort AList.delete_eq filter_map comp_def conj_commute case_prod_beta)

lemma delete_oldest:
  assumes "distinct (spool_names d)" "frame_names d = oldest # newer" "sp_files d' = AList.delete oldest (sp_files d)"
  shows "frame_names d' = newer" "distinct (spool_names d')"
proof -
  have "filter (\<lambda>n. oldest \<noteq> n) newer = newer"
    using distinct_frame_names [OF assms(1)] assms(2) by (auto simp: filter_id_conv)
  then show "frame_names d' = newer" by (simp add: frame_names_delete [OF assms(3)] assms(2))
  show "distinct (spool_names d')" using assms(1,3) by (simp add: spool_names_def distinct_delete)
qed

lemma enforce_limits_drops_oldest:
  assumes "distinct (spool_names d)" "enforce_limits d = (Ok (), d')"
  shows "length (frame_names d') < MAX_SPOOL_FILES \<and> (\<exists>k. frame_names d' = drop k (frame_names d)) \<and>
    distinct (spool_names d')"
  using assms
proof (induction d rule: enforce_limits.induct)
  case (1 d)
  from "1.prems"(2) obtain files d1 fits d2 where run: "list_frames d = (Ok files, d1)"
    "within_limits files d1 = (fits, d2)"
    by (subst (asm) enforce_limits.simps) (auto split: prod.splits outcome.splits)
  have same: "files = frame_names d" "sp_files d2 = sp_files d"
    using list_frames_run [OF run(1)] within_limits_kept [OF run(2)] by auto
  show ?case
  proof (cases "fits \<or> files = []")
    case True
    then have "d' = d2" using "1.prems"(2) run by (subst (asm) enforce_limits.simps) (auto split: if_splits)
    moreover have "length files < MAX_SPOOL_FILES"
      using True run(2) by (auto simp: within_limits_def ipc_limits split: if_splits prod.splits)
    ultimately show ?thesis
      using same "1.prems"(1) frame_names_cong [OF same(2)] by (auto simp: spool_names_def intro: exI [of _ 0])
  next
    case False
    then obtain oldest newer where files: "files = oldest # newer" by (cases files) auto
    from "1.prems"(2) run False files obtain d3 where removed: "spool_remove oldest d2 = (Ok (), d3)"
      and later: "enforce_limits d3 = (Ok (), d')"
      by (subst (asm) enforce_limits.simps) (auto split: prod.splits outcome.splits)
    have "sp_files d3 = AList.delete oldest (sp_files d)"
      using spool_remove_run [OF removed] same(2) by simp
    note step = delete_oldest [OF "1.prems"(1) _ this, of newer]
    have "length (frame_names d') < MAX_SPOOL_FILES \<and> (\<exists>k. frame_names d' = drop k (frame_names d3)) \<and>
        distinct (spool_names d')"
      using "1.IH" [OF _ _ _ _ _ _ _ _ later] run removed False files same step by auto
    then show ?thesis using step same files by (metis drop_Suc_Cons)
  qed
qed

text \<open>Without faults the limits are met by dropping the fewest oldest frames.\<close>

lemma fs_call_faultless: "sp_faults d = [] \<Longrightarrow> fs_call d = (Ok (), d)"
  by (simp add: fs_call_def)

lemma total_bytes_faultless: "sp_faults d = [] \<Longrightarrow> total_bytes names d = (sum_list (map (file_size d) names), d)"
  by (induction names) (auto simp: fs_call_faultless file_size_def split: option.splits)

lemma list_frames_faultless: "sp_faults d = [] \<Longrightarrow> list_frames d = (Ok (frame_names d), d)"
  by (simp add: list_frames_def seq_def bind_def gets_def fs_call_faultless)

lemma within_limits_faultless: "sp_faults d = [] \<Longrightarrow> within_limits names d = (frames_fit d names, d)"
  by (simp add: within_limits_def total_bytes_faultless frames_fit_def)

lemma spool_remove_faultless:
  "sp_faults d = [] \<Longrightarrow> name \<in> set (frame_names d) \<Longrightarrow>
     spool_remove name d = (Ok (), d\<lparr>sp_files := AList.delete name (sp_files d)\<rparr>)"
  by (auto simp: spool_remove_def seq_def bind_def fs_call_faultless set_frame_names map_of_eq_None_iff)

lemmas spool_faultless = fs_call_faultless list_frames_faultless within_limits_faultless spool_remove_faultless

lemma enforce_limits_faultless:
  assumes "sp_faults d = []" "distinct (spool_names d)"
  shows "\<exists>k d'. enforce_limits d = (Ok (), d') \<and> frame_names d' = drop k (frame_names d) \<and>
    frames_fit d (drop k (frame_names d)) \<and> (\<forall>j<k. \<not> frames_fit d (drop j (frame_names d))) \<and>
    sp_files d' = filter (\<lambda>f. fst f \<notin> set (take k (frame_names d))) (sp_files d) \<and>
    sp_faults d' = [] \<and> sp_counter d' = sp_counter d"
  using assms
proof (induction "length (sp_files d)" arbitrary: d rule: less_induct)
  case less
  note eqn = enforce_limits.simps [of d] spool_faultless [OF less.prems(1)]
  show ?case
  proof (cases "frames_fit d (frame_names d)")
    case True
    then show ?thesis using less.prems by (intro exI [of _ 0] exI [of _ d]) (simp add: eqn)
  next
    case False
    then obtain oldest newer where names: "frame_names d = oldest # newer"
      by (cases "frame_names d") (auto simp: frames_fit_def ipc_limits)
    define d1 where "d1 = d\<lparr>sp_files := AList.delete oldest (sp_files d)\<rparr>"
    have files: "sp_files d1 = AList.delete oldest (sp_files d)" and faults: "sp_faults d1 = []"
      by (simp_all add: d1_def less.prems)
    note d1 = delete_oldest [OF less.prems(2) names files]
    have "oldest \<in> fst ` set (sp_files d)" using names set_frame_names [of d] by auto
    then have "length (sp_files d1) < length (sp_files d)" by (simp add: files delete_shorter)
    from less.hyps [OF this faults d1(2)] obtain k d' where ih: "enforce_limits d1 = (Ok (), d')"
      "frame_names d' = drop k newer" "frames_fit d1 (drop k newer)" "\<forall>j<k. \<not> frames_fit d1 (drop j newer)"
      "sp_files d' = filter (\<lambda>f. fst f \<notin> set (take k newer)) (sp_files d1)"
      "sp_faults d' = []" "sp_counter d' = sp_counter d1"
      unfolding d1(1) by blast
    have "oldest \<notin> set newer" using distinct_frame_names [OF less.prems(2)] names by simp
    then have size: "map (file_size d1) (drop j newer) = map (file_size d) (drop j newer)" for j
      by (auto simp: file_size_def files AList.delete_conv dest: in_set_dropD)
    then have fit: "frames_fit d1 (drop j newer) = frames_fit d (drop j newer)" for j
      by (simp only: frames_fit_def length_drop size)
    have run: "enforce_limits d = enforce_limits d1"
      using False names by (simp add: eqn d1_def)
    have "\<not> frames_fit d (drop j (frame_names d))" if "j < Suc k" for j
      using that False ih(4) by (cases j) (simp_all add: names fit)
    moreover have "sp_files d' = filter (\<lambda>f. fst f \<notin> set (take (Suc k) (frame_names d))) (sp_files d)"
      using ih(5) by (auto simp: names files AList.delete_eq case_prod_beta intro!: filter_cong)
    moreover have "sp_counter d1 = sp_counter d" by (simp add: d1_def)
    ultimately show ?thesis
      using ih by (intro exI [of _ "Suc k"] exI [of _ d']) (simp add: names run fit)
  qed
qed

lemma update_fresh: "k \<notin> fst ` set xs \<Longrightarrow> AList.update k v xs = xs @ [(k, v)]"
  by (induction xs) auto

lemma sort_snoc: "sort (xs @ [k]) = insort k (sort xs)"
  by (rule properties_for_sort) (simp_all add: sorted_insort)

lemma sum_list_insort: "sum_list (map f (insort x xs)) = f x + sum_list (map f xs)" for f :: "'a :: linorder \<Rightarrow> nat"
  by (induction xs) auto

lemma delete_new: "k \<notin> fst ` set xs \<Longrightarrow> AList.delete k (xs @ [(k, v)]) = xs"
  by (induction xs) auto

lemma map_of_without: "n \<notin> S \<Longrightarrow> map_of (filter (\<lambda>f. fst f \<notin> S) xs) n = map_of xs n"
  by (induction xs) auto

lemma frame_file_last: "is_frame_file name \<Longrightarrow> last name = CHR ''e''"
  using last_drop [of "length name - 6" name] by (auto simp: is_frame_file_def)

lemma frame_file_names: "is_frame_file (stem @ ''.tmp'') = False" "stem \<noteq> [] \<Longrightarrow> is_frame_file (stem @ ''.frame'')"
  using frame_file_last [of "stem @ ''.tmp''"] by (auto simp: is_frame_file_def)

lemma encoded_length: "encode_message env m = Ok frame \<Longrightarrow> length frame \<le> MAX_FRAME_BYTES + 4"
  by (auto simp: encode_message_def split: outcome.splits option.splits if_splits)

text \<open>
  The spool is bounded: storing a frame first drops the fewest oldest frames that bring the
  directory below its limits, adds the new one in its place, keeps the others byte for byte, and
  leaves at most 1000 frames of fewer than 10 MiB and one frame together.
\<close>

theorem spool_message_bounded:
  assumes "sp_faults d = []" and "distinct (spool_names d)" and "encode_message env m = Ok frame"
    and stem: "stem = frame_stem (spool_time now_ms m) nanos (sp_counter d) uuid"
    and fresh: "stem @ ''.frame'' \<notin> set (spool_names d)" "stem @ ''.tmp'' \<notin> set (spool_names d)"
  shows "\<exists>k d'. spool_message env now_ms nanos uuid m d = (Ok (stem @ ''.frame''), d') \<and>
    frame_names d' = insort (stem @ ''.frame'') (drop k (frame_names d)) \<and>
    (\<forall>j<k. \<not> frames_fit d (drop j (frame_names d))) \<and>
    map_of (sp_files d') (stem @ ''.frame'') = Some frame \<and>
    (\<forall>n\<in>set (drop k (frame_names d)). map_of (sp_files d') n = map_of (sp_files d) n) \<and>
    length (frame_names d') \<le> MAX_SPOOL_FILES \<and>
    sum_list (map (file_size d') (frame_names d')) < MAX_SPOOL_BYTES + MAX_FRAME_BYTES + 4"
proof -
  let ?final = "stem @ ''.frame''" and ?F = "frame_names d"
  from enforce_limits_faultless [OF assms(1,2)] obtain k d1 where d1: "enforce_limits d = (Ok (), d1)"
    "frame_names d1 = drop k ?F" "frames_fit d (drop k ?F)" "\<forall>j<k. \<not> frames_fit d (drop j ?F)"
    "sp_files d1 = filter (\<lambda>f. fst f \<notin> set (take k ?F)) (sp_files d)" "sp_faults d1 = []"
    "sp_counter d1 = sp_counter d" by blast
  have absent: "?final \<notin> fst ` set (sp_files d1)" "stem @ ''.tmp'' \<notin> fst ` set (sp_files d1)"
    using fresh by (auto simp: d1(5) spool_names_def)
  define d' where "d' = d1\<lparr>sp_files := sp_files d1 @ [(?final, frame)], sp_counter := wrap_u64 (sp_counter d1 + 1)\<rparr>"
  have run: "spool_message env now_ms nanos uuid m d = (Ok ?final, d')"
    using d1(1,6,7) absent assms(3)
    by (simp add: spool_message_def Let_def seq_def bind_def lift_def gets_def modify_def put_file_def
        rename_file_def ret_def fs_call_faultless stem [symmetric] update_fresh delete_new d'_def)
  have "stem \<noteq> []" by (simp add: stem frame_stem_def)
  then have names: "frame_names d' = insort ?final (drop k ?F)"
    using frame_file_names(2) [of stem] d1(2) by (simp add: frame_names_def d'_def sort_snoc)
  have notin: "?final \<notin> set (drop k ?F)" using absent(1) d1(2) set_frame_names [of d1] by auto
  have kept: "map_of (sp_files d') n = map_of (sp_files d) n" if "n \<in> set (drop k ?F)" for n
  proof -
    have "n \<notin> set (take k ?F)"
      using that distinct_frame_names [OF assms(2)] by (metis append_take_drop_id disjoint_iff distinct_append)
    then show ?thesis
      using that notin by (auto simp: d'_def d1(5) map_add_def map_of_without split: option.splits)
  qed
  have new: "map_of (sp_files d') ?final = Some frame"
    using map_of_eq_None_iff [of "sp_files d1" ?final] absent(1) by (simp add: d'_def map_add_def)
  have "map (file_size d') (drop k ?F) = map (file_size d) (drop k ?F)"
    unfolding map_eq_conv using kept by (simp add: file_size_def)
  then have "sum_list (map (file_size d') (frame_names d')) = length frame + sum_list (map (file_size d) (drop k ?F))"
    using new by (simp only: names sum_list_insort) (simp only: file_size_def option.case)
  with names kept new run d1(3,4) encoded_length [OF assms(3)] show ?thesis
    by (intro exI [of _ k] exI [of _ d']) (auto simp: frames_fit_def)
qed

section \<open>Replay in order\<close>

definition frame_event ::
  "wire_env \<Rightarrow> digest \<Rightarrow> (string \<Rightarrow> delivery) \<Rightarrow> spool_dir \<Rightarrow> string \<Rightarrow> normalized_ingest option" where
  "frame_event env sha world d path =
     (case Option.bind (map_of (sp_files d) path) (read_ingest env) of
        None \<Rightarrow> None
      | Some p \<Rightarrow>
          (case normalize_ingest sha (dl_uuid (world path)) p (dl_now_ms (world path)) of Ok n \<Rightarrow> Some n | _ \<Rightarrow> None))"

lemma drain_frame_continues:
  assumes "drain_frame env sha (world path) path r = (True, r')"
  shows "sp_files (rp_dir r') = AList.delete path (sp_files (rp_dir r)) \<and>
    dl_host (world path) = HostAccepted \<and>
    (\<exists>n. frame_event env sha world (rp_dir r) path = Some n \<and> rp_queue r' = rp_queue r @ [n])"
  using assms
  by (auto simp: drain_frame_def frame_event_def Let_def dest!: fs_call_kept dest: spool_remove_run
      split: prod.splits outcome.splits option.splits if_splits)

lemma drain_frame_stops:
  assumes "drain_frame env sha (world path) path r = (False, r')"
  shows "sp_files (rp_dir r') = sp_files (rp_dir r) \<and>
    (rp_queue r' = rp_queue r \<or>
     (\<exists>n. frame_event env sha world (rp_dir r) path = Some n \<and> rp_queue r' = rp_queue r @ [n]))"
  using assms
  by (auto simp: drain_frame_def frame_event_def Let_def dest!: fs_call_kept dest: spool_remove_run
      split: prod.splits outcome.splits option.splits if_splits)

lemma frame_event_other:
  "sp_files d' = AList.delete path (sp_files d) \<Longrightarrow> p \<noteq> path \<Longrightarrow>
     frame_event env sha world d' p = frame_event env sha world d p"
  by (simp add: frame_event_def AList.delete_conv)

lemma drain_frames_accepted_prefix:
  assumes "distinct paths"
  shows "\<exists>k j. k \<le> j \<and> j \<le> Suc k \<and> j \<le> length paths \<and>
    sp_files (rp_dir (drain_frames env sha world paths r)) =
      filter (\<lambda>f. fst f \<notin> set (take k paths)) (sp_files (rp_dir r)) \<and>
    map Some (rp_queue (drain_frames env sha world paths r)) =
      map Some (rp_queue r) @ map (frame_event env sha world (rp_dir r)) (take j paths) \<and>
    (\<forall>p\<in>set (take k paths). dl_host (world p) = HostAccepted)"
  using assms
proof (induction paths arbitrary: r)
  case Nil
  then show ?case by (intro exI [of _ 0]) simp
next
  case (Cons path paths)
  obtain go r1 where step: "drain_frame env sha (world path) path r = (go, r1)" by fastforce
  show ?case
  proof (cases go)
    case True
    with step have "drain_frame env sha (world path) path r = (True, r1)" by simp
    note cont = drain_frame_continues [of env sha world path r r1, OF this]
    from Cons.prems Cons.IH [of r1] obtain k j where kj: "k \<le> j" "j \<le> Suc k" "j \<le> length paths"
      "sp_files (rp_dir (drain_frames env sha world paths r1)) =
        filter (\<lambda>f. fst f \<notin> set (take k paths)) (sp_files (rp_dir r1))"
      "map Some (rp_queue (drain_frames env sha world paths r1)) =
        map Some (rp_queue r1) @ map (frame_event env sha world (rp_dir r1)) (take j paths)"
      "\<forall>p\<in>set (take k paths). dl_host (world p) = HostAccepted" by auto
    have "map (frame_event env sha world (rp_dir r1)) (take j paths) =
        map (frame_event env sha world (rp_dir r)) (take j paths)"
      using Cons.prems cont by (auto intro!: frame_event_other dest: in_set_takeD)
    moreover have "filter (\<lambda>f. fst f \<notin> set (take k paths)) (AList.delete path xs) =
        filter (\<lambda>f. fst f \<notin> set (take (Suc k) (path # paths))) xs" for xs :: "(string \<times> string) list"
      by (auto simp: AList.delete_eq case_prod_beta intro!: filter_cong)
    ultimately show ?thesis
      using kj cont step True by (intro exI [of _ "Suc k"] exI [of _ "Suc j"]) auto
  next
    case False
    with step have "drain_frame env sha (world path) path r = (False, r1)" by simp
    note stop = drain_frame_stops [of env sha world path r r1, OF this]
    then show ?thesis
      using step False by (intro exI [of _ 0] exI [of _ "if rp_queue r1 = rp_queue r then 0 else 1"]) auto
  qed
qed

text \<open>
  (C39) Replay loses nothing and keeps the order: whatever fails, the frames that leave the disk are
  an initial segment of the listing, each accepted by the host, the others stay byte for byte, and
  the host was offered the events of that segment in its order and at most one more, the one at
  which the replay stopped.
\<close>

theorem drain_spool_removes_only_accepted:
  assumes "distinct (spool_names (rp_dir r))" and "r' = drain_spool env sha world r"
  shows "\<exists>k j. k \<le> j \<and> j \<le> Suc k \<and>
    sp_files (rp_dir r') = filter (\<lambda>f. fst f \<notin> set (take k (frame_names (rp_dir r)))) (sp_files (rp_dir r)) \<and>
    map Some (rp_queue r') =
      map Some (rp_queue r) @ map (frame_event env sha world (rp_dir r)) (take j (frame_names (rp_dir r))) \<and>
    (\<forall>p\<in>set (take k (frame_names (rp_dir r))). dl_host (world p) = HostAccepted)"
proof -
  obtain res d where run: "list_frames (rp_dir r) = (res, d)" by fastforce
  note kept = list_frames_run [OF run]
  show ?thesis
  proof (cases res)
    case (Ok paths)
    then have paths: "paths = frame_names (rp_dir r)" using kept by simp
    have events: "frame_event env sha world d = frame_event env sha world (rp_dir r)"
      using kept by (auto simp: frame_event_def)
    show ?thesis
      using drain_frames_accepted_prefix [of "frame_names (rp_dir r)" env sha world "r\<lparr>rp_dir := d\<rparr>"]
        distinct_frame_names [OF assms(1)] kept
      unfolding assms(2) drain_spool_def run Ok paths prod.case outcome.case by (simp add: events) blast
  qed (use kept in \<open>simp add: assms(2) drain_spool_def run exI [of _ 0]\<close>)+
qed

text \<open>The directories a host and its hooks can leave behind, whatever fails.\<close>

inductive spool_reachable :: "wire_env \<Rightarrow> digest \<Rightarrow> spool_dir \<Rightarrow> bool" for env sha where
  empty: "sp_files d = [] \<Longrightarrow> spool_reachable env sha d"
| message: "spool_reachable env sha d \<Longrightarrow> spool_time now_ms m < 2 ^ 63 \<Longrightarrow>
    spool_message env now_ms nanos uuid m d = (r, d') \<Longrightarrow> spool_reachable env sha d'"
| drain: "spool_reachable env sha d \<Longrightarrow>
    spool_reachable env sha (rp_dir (drain_spool env sha world \<lparr>rp_dir = d, rp_queue = q\<rparr>))"

definition timed_name :: "string \<Rightarrow> bool" where
  "timed_name n \<longleftrightarrow> (\<exists>t nanos c uuid. t < 2 ^ 63 \<and> n = frame_stem t nanos c uuid @ ''.frame'')"

definition spool_inv :: "nat \<Rightarrow> spool_dir \<Rightarrow> bool" where
  "spool_inv mx d \<longleftrightarrow> distinct (spool_names d) \<and> (\<forall>n\<in>set (frame_names d). timed_name n) \<and> length (frame_names d) \<le> mx"

lemma spool_inv_cong: "sp_files d' = sp_files d \<Longrightarrow> spool_inv mx d' = spool_inv mx d"
  by (simp add: spool_inv_def spool_names_def frame_names_def)

lemma spool_inv_filter: "spool_inv mx d \<Longrightarrow> sp_files d' = filter P (sp_files d) \<Longrightarrow> spool_inv mx d'"
proof -
  assume inv: "spool_inv mx d" and files: "sp_files d' = filter P (sp_files d)"
  have "length (filter is_frame_file (map fst (filter P xs))) \<le> length (filter is_frame_file (map fst xs))" for xs
    by (induction xs) auto
  with inv files show ?thesis
    by (auto simp: spool_inv_def spool_names_def set_frame_names distinct_map_filter)
      (simp add: frame_names_def, rule le_trans)
qed

lemma map_fst_update:
  "map fst (AList.update k v xs) = (if k \<in> fst ` set xs then map fst xs else map fst xs @ [k])"
  by (induction xs) auto

lemma spool_inv_update_other: "spool_inv mx d \<Longrightarrow> \<not> is_frame_file k \<Longrightarrow>
    sp_files d' = AList.update k v (sp_files d) \<Longrightarrow> spool_inv mx d'"
  by (auto simp: spool_inv_def spool_names_def frame_names_def map_fst_update split: if_splits)

lemma spool_inv_update_frame: "spool_inv mx d \<Longrightarrow> timed_name k \<Longrightarrow>
    sp_files d' = AList.update k v (sp_files d) \<Longrightarrow> spool_inv (Suc mx) d'"
  by (auto simp: spool_inv_def spool_names_def frame_names_def map_fst_update split: if_splits)

lemma enforce_limits_removes: "enforce_limits d = (r, d') \<Longrightarrow> \<exists>P. sp_files d' = filter P (sp_files d)"
proof (induction d arbitrary: r d' rule: enforce_limits.induct)
  case (1 d)
  obtain res d1 fits d2 where run: "list_frames d = (res, d1)" "within_limits (case res of Ok fs \<Rightarrow> fs | _ \<Rightarrow> []) d1 = (fits, d2)"
    by fastforce
  have same: "sp_files d1 = sp_files d" "sp_files d2 = sp_files d"
    using list_frames_run [OF run(1)] within_limits_kept [OF run(2)] by auto
  have all: "\<exists>P. xs = filter P xs" for xs :: "(string \<times> string) list" by (intro exI [of _ "\<lambda>_. True"]) simp
  show ?case
  proof (cases "\<exists>oldest newer. res = Ok (oldest # newer) \<and> \<not> fits")
    case False
    then have "d' = d1 \<or> d' = d2"
      using "1.prems" run by (subst (asm) enforce_limits.simps) (auto split: outcome.splits list.splits if_splits)
    with same all show ?thesis by metis
  next
    case True
    then obtain oldest newer where res: "res = Ok (oldest # newer)" "\<not> fits" by blast
    obtain res' d3 where removed: "spool_remove oldest d2 = (res', d3)" by fastforce
    note rm = spool_remove_run [OF removed]
    show ?thesis
    proof (cases "res' = Ok ()")
      case True
      then have "enforce_limits d3 = (r, d')"
        using "1.prems" run res removed by (subst (asm) enforce_limits.simps) simp
      then obtain P where "sp_files d' = filter P (sp_files d3)"
        using "1.IH" run res removed True by fastforce
      moreover have "sp_files d3 = filter (\<lambda>f. oldest \<noteq> fst f) (sp_files d)"
        using rm True same by (simp add: AList.delete_eq case_prod_beta')
      ultimately show ?thesis by (intro exI [of _ "\<lambda>f. oldest \<noteq> fst f \<and> P f"]) simp
    next
      case False
      then have "d' = d3"
        using "1.prems" run res removed
        by (subst (asm) enforce_limits.simps) (auto split: outcome.splits)
      with rm False same all show ?thesis by metis
    qed
  qed
qed

text \<open>\<open>P\<close> leads to \<open>Q\<close> when the call succeeds and to \<open>I\<close> in any case.\<close>

definition leads :: "(spool_dir \<Rightarrow> bool) \<Rightarrow> (spool_dir \<Rightarrow> bool) \<Rightarrow> 'a spool_op \<Rightarrow> (spool_dir \<Rightarrow> bool) \<Rightarrow> bool" where
  "leads I P m Q \<longleftrightarrow> (\<forall>d r d'. P d \<longrightarrow> m d = (r, d') \<longrightarrow> I d' \<and> (\<forall>x. r = Ok x \<longrightarrow> Q d'))"

lemma leads_bind: "leads I P m R \<Longrightarrow> (\<And>x. leads I R (k x) Q) \<Longrightarrow> leads I P (bind m k) Q"
  unfolding leads_def bind_def by (auto split: prod.splits outcome.splits; blast)

lemma leads_seq: "leads I P m R \<Longrightarrow> leads I R k Q \<Longrightarrow> leads I P (seq m k) Q"
  unfolding seq_def by (rule leads_bind)

lemma leads_pure: "(\<And>d. P d \<Longrightarrow> I d) \<Longrightarrow> leads I P (lift x) P" "(\<And>d. P d \<Longrightarrow> I d) \<Longrightarrow> leads I P (gets f) P"
  "(\<And>d. P d \<Longrightarrow> I d) \<Longrightarrow> leads I P (ret y) P"
  by (simp_all add: leads_def lift_def gets_def ret_def)

lemma leads_modify: "(\<And>d. P d \<Longrightarrow> Q (f d)) \<Longrightarrow> (\<And>d. Q d \<Longrightarrow> I d) \<Longrightarrow> leads I P (modify f) Q"
  by (simp add: leads_def modify_def)

lemma leads_fs_call: "(\<And>d. spool_inv n d \<Longrightarrow> I d) \<Longrightarrow> leads I (spool_inv n) fs_call (spool_inv n)"
  by (auto simp: leads_def dest!: fs_call_kept dest: spool_inv_cong)

lemma enforce_limits_leads:
  "leads (spool_inv MAX_SPOOL_FILES) (spool_inv MAX_SPOOL_FILES) enforce_limits (spool_inv (MAX_SPOOL_FILES - 1))"
  unfolding leads_def
proof (intro allI impI conjI)
  fix d r d' assume inv: "spool_inv MAX_SPOOL_FILES d" and run: "enforce_limits d = (r, d')"
  obtain P where "sp_files d' = filter P (sp_files d)" using enforce_limits_removes [OF run] by blast
  with inv show kept: "spool_inv MAX_SPOOL_FILES d'" by (rule spool_inv_filter)
  fix x assume "r = Ok x"
  with kept inv run enforce_limits_drops_oldest [of d d'] show "spool_inv (MAX_SPOOL_FILES - 1) d'"
    by (auto simp: spool_inv_def)
qed

lemma spool_message_leads:
  assumes "spool_time now_ms m < 2 ^ 63"
  shows "leads (spool_inv MAX_SPOOL_FILES) (spool_inv MAX_SPOOL_FILES)
    (spool_message env now_ms nanos uuid m) (spool_inv MAX_SPOOL_FILES)"
proof -
  let ?I = "spool_inv MAX_SPOOL_FILES" and ?J = "spool_inv (MAX_SPOOL_FILES - 1)"
  have weaken: "?I d" if "?J d" for d using that by (auto simp: spool_inv_def)
  have counter: "spool_inv n (d\<lparr>sp_counter := c\<rparr>) = spool_inv n d" for n c d by (rule spool_inv_cong) simp
  have put: "leads ?I ?J (put_file (stem @ ''.tmp'') bytes) ?J" for stem bytes
    unfolding put_file_def
    by (rule leads_seq [OF leads_fs_call leads_modify]) (auto intro: spool_inv_update_other [where k = "stem @ ''.tmp''" and v = bytes] weaken simp: frame_file_names)
  have rename: "leads ?I ?J (rename_file tmp final bytes) ?I" if "timed_name final" for tmp final bytes
  proof -
    have upd: "?I (d\<lparr>sp_files := AList.update final bytes (AList.delete tmp (sp_files d))\<rparr>)" if "?J d" for d
    proof -
      have "?J (d\<lparr>sp_files := AList.delete tmp (sp_files d)\<rparr>)"
        by (rule spool_inv_filter [OF that]) (simp add: AList.delete_eq)
      from spool_inv_update_frame [OF this \<open>timed_name final\<close>] show ?thesis by (simp add: MAX_SPOOL_FILES_def)
    qed
    show ?thesis
      unfolding rename_file_def by (rule leads_seq [OF leads_fs_call leads_modify]) (simp_all only: weaken upd)
  qed
  have named: "timed_name (frame_stem (spool_time now_ms m) nanos c uuid @ ''.frame'')" for c
    using assms by (auto simp: timed_name_def)
  have bump: "leads ?I ?J (modify (\<lambda>d. d\<lparr>sp_counter := wrap_u64 (sp_counter d + 1)\<rparr>)) ?J"
    by (rule leads_modify) (simp_all add: counter weaken)
  have call: "leads ?I ?J fs_call ?J" "leads ?I ?I fs_call ?I"
    by (rule leads_fs_call, simp add: weaken)+
  have pure: "leads ?I ?J (lift x) ?J" "leads ?I ?J (gets f) ?J" "leads ?I ?I (ret y) ?I" for x f y
    by (rule leads_pure, simp add: weaken)+
  show ?thesis
    unfolding spool_message_def Let_def
    by (intro leads_seq [OF enforce_limits_leads] leads_bind [OF pure(1)] leads_bind [OF pure(2)]
        leads_seq [OF bump] leads_seq [OF put] leads_seq [OF call(1)] leads_seq [OF rename [OF named]]
        leads_seq [OF call(2)] pure(3))
qed

lemma drain_spool_removes: "\<exists>P. distinct (spool_names (rp_dir r)) \<longrightarrow>
    sp_files (rp_dir (drain_spool env sha world r)) = filter P (sp_files (rp_dir r))"
proof -
  obtain res d where run: "list_frames (rp_dir r) = (res, d)" by fastforce
  note kept = list_frames_run [OF run]
  show ?thesis
  proof (cases res)
    case (Ok paths)
    with kept drain_frames_accepted_prefix [of paths env sha world "r\<lparr>rp_dir := d\<rparr>"]
      distinct_frame_names [of "rp_dir r"] show ?thesis
      by (auto simp: drain_spool_def run)
  qed (use kept in \<open>simp add: drain_spool_def run exI [of _ "\<lambda>_. True"]\<close>)+
qed

lemma reachable_spool_inv: "spool_reachable env sha d \<Longrightarrow> spool_inv MAX_SPOOL_FILES d"
proof (induction rule: spool_reachable.induct)
  case (empty d)
  then show ?case by (simp add: spool_inv_def spool_names_def frame_names_def)
next
  case (message d now_ms m nanos uuid r d')
  from spool_message_leads [OF message.hyps(2), of env nanos uuid] message.IH message.hyps(3) show ?case
    unfolding leads_def by blast
next
  case (drain d world q)
  then have "distinct (spool_names d)" by (simp add: spool_inv_def)
  with drain_spool_removes [of "\<lparr>rp_dir = d, rp_queue = q\<rparr>" env sha world] spool_inv_filter [OF drain.IH]
  show ?case by auto
qed


text \<open>
  A frame at the head that cannot be decoded or normalised stops every replay: nothing is offered
  to the host and nothing is removed, whatever is behind it.
\<close>

lemma poison_frame_blocks_spool:
  assumes "frame_names (rp_dir r) = path # paths" and "frame_event env sha world (rp_dir r) path = None"
  shows "rp_queue (drain_spool env sha world r) = rp_queue r \<and>
    sp_files (rp_dir (drain_spool env sha world r)) = sp_files (rp_dir r)"
proof -
  obtain res d where run: "list_frames (rp_dir r) = (res, d)" by fastforce
  note kept = list_frames_run [OF run]
  show ?thesis
  proof (cases res)
    case (Ok ps)
    obtain go r1 where step: "drain_frame env sha (world path) path (r\<lparr>rp_dir := d\<rparr>) = (go, r1)" by fastforce
    have event: "frame_event env sha world d path = None"
      using assms(2) kept by (simp add: frame_event_def)
    with step have "\<not> go" using drain_frame_continues [of env sha world path "r\<lparr>rp_dir := d\<rparr>" r1] by auto
    then show ?thesis
      using drain_frame_stops [of env sha world path "r\<lparr>rp_dir := d\<rparr>" r1] step event kept assms(1)
      by (simp add: drain_spool_def run Ok)
  qed (use kept in \<open>auto simp: drain_spool_def run\<close>)
qed

section \<open>Concrete directories\<close>

definition empty_spool :: spool_dir where
  "empty_spool = \<lparr>sp_files = [], sp_counter = 0, sp_faults = []\<rparr>"

definition sample_stem :: string where
  "sample_stem = frame_stem (spool_time 5 sample_ack) 1 0 ''u''"

theorem spool_message_bounded_witness:
  "\<exists>d'. spool_message ack_env 5 1 ''u'' sample_ack empty_spool = (Ok (sample_stem @ ''.frame''), d') \<and>
     frame_names d' = [sample_stem @ ''.frame''] \<and> length (frame_names d') \<le> MAX_SPOOL_FILES"
  using spool_message_bounded [of empty_spool ack_env sample_ack, OF _ _ ack_frame, of sample_stem 5 1 "''u''"]
  by (auto simp: empty_spool_def sample_stem_def spool_names_def frame_names_def)


definition sample_replay :: replay where
  "sample_replay = \<lparr>rp_dir = empty_spool\<lparr>sp_files := [(''a.frame'', ''x'')]\<rparr>, rp_queue = []\<rparr>"

theorem drain_spool_removes_only_accepted_witness:
  "\<exists>k j. k \<le> j \<and> j \<le> Suc k \<and>
     sp_files (rp_dir (drain_spool ack_env (\<lambda>s. s) (\<lambda>_. \<lparr>dl_uuid = 0, dl_now_ms = 0, dl_slot = True, dl_host = HostTimeout\<rparr>)
       sample_replay)) = filter (\<lambda>f. fst f \<notin> set (take k [''a.frame''])) [(''a.frame'', ''x'')]"
proof -
  have "frame_names (rp_dir sample_replay) = [''a.frame'']" by code_simp
  moreover have "sp_files (rp_dir sample_replay) = [(''a.frame'', ''x'')]" by code_simp
  moreover have "distinct (spool_names (rp_dir sample_replay))" by code_simp
  ultimately show ?thesis
    using drain_spool_removes_only_accepted [of sample_replay, OF _ refl, of ack_env "\<lambda>s. s"
      "\<lambda>_. \<lparr>dl_uuid = 0, dl_now_ms = 0, dl_slot = True, dl_host = HostTimeout\<rparr>"] by metis
qed

end
