(* ===== verification/Ipc_Server.thy ===== *)
theory Ipc_Server
  imports Ipc_Spool "HOL-Library.Word"
begin

text \<open>
  \<^verbatim>\<open>crates/notch-ipc/src\<close>: the token (\<^verbatim>\<open>auth.rs\<close>), the check of the peer (\<^verbatim>\<open>security.rs\<close>), the rate
  limiters (\<^verbatim>\<open>rate.rs\<close>) and one connection of the ingest server (\<^verbatim>\<open>server.rs\<close>), from the first byte to
  the last. Base64, the buckets of \<open>governor\<close>, the credentials of the socket and the answers of the
  host are arguments.
\<close>

section \<open>Token\<close>

type_synonym auth_token = "8 word list"

definition AUTH_TOKEN_BYTES :: nat where "AUTH_TOKEN_BYTES = 32"

definition decode_b64 :: "(string \<Rightarrow> 8 word list option) \<Rightarrow> string \<Rightarrow> auth_token ipc_result" where
  "decode_b64 b64 value =
     (case b64 value of
        None \<Rightarrow> Err AuthFailed
      | Some bytes \<Rightarrow> if length bytes = AUTH_TOKEN_BYTES then Ok bytes else Err AuthFailed)"

unbundle bit_operations_syntax

definition constant_time_eq :: "auth_token \<Rightarrow> auth_token \<Rightarrow> bool" where
  "constant_time_eq self other = (foldl (\<lambda>diff (a, b). diff OR (a XOR b)) 0 (zip self other) = 0)"

section \<open>Peer\<close>

datatype peer_check_capability = Enforced | ProcessIdOnly | PeerCheckUnavailable

record security_capabilities =
  sc_token_auth :: bool
  sc_runtime_dir_user_only :: bool
  sc_descriptor_user_only :: bool
  sc_socket_user_only :: bool
  sc_peer_check :: peer_check_capability
  sc_remote_clients_rejected :: bool

datatype target_os = Unix | Windows | OtherOs

fun platform_default :: "target_os \<Rightarrow> security_capabilities" where
  "platform_default Unix =
     \<lparr>sc_token_auth = True, sc_runtime_dir_user_only = True, sc_descriptor_user_only = True,
      sc_socket_user_only = True, sc_peer_check = Enforced, sc_remote_clients_rejected = True\<rparr>"
| "platform_default Windows =
     \<lparr>sc_token_auth = True, sc_runtime_dir_user_only = False, sc_descriptor_user_only = False,
      sc_socket_user_only = True, sc_peer_check = ProcessIdOnly, sc_remote_clients_rejected = True\<rparr>"
| "platform_default OtherOs =
     \<lparr>sc_token_auth = True, sc_runtime_dir_user_only = False, sc_descriptor_user_only = False,
      sc_socket_user_only = False, sc_peer_check = PeerCheckUnavailable, sc_remote_clients_rejected = False\<rparr>"

record peer_creds =
  pc_euid :: "nat option"
  pc_pid :: "nat option"

text \<open>\<open>host_uid\<close> is the lookup of the current user: an I/O error, no such user, or the uid.\<close>

definition verify_same_user_peer ::
  "target_os \<Rightarrow> nat option ipc_result \<Rightarrow> peer_creds \<Rightarrow> security_capabilities \<Rightarrow> unit ipc_result" where
  "verify_same_user_peer os host_uid creds capabilities =
     (case sc_peer_check capabilities of
        Enforced \<Rightarrow>
          if os \<noteq> Unix then Err (PeerRejected ''same-user peer check unavailable on this platform'')
          else (case host_uid of
              Err e \<Rightarrow> Err e
            | Panic p \<Rightarrow> Panic p
            | Ok None \<Rightarrow> Err (PeerRejected ''host user unavailable'')
            | Ok (Some uid) \<Rightarrow>
                (case pc_euid creds of
                   None \<Rightarrow> Err (PeerRejected ''peer euid unavailable'')
                 | Some peer_uid \<Rightarrow>
                     if peer_uid \<noteq> uid
                     then Err (PeerRejected (''peer uid '' @ dec_string peer_uid @ '' != host uid '' @ dec_string uid))
                     else Ok ()))
      | ProcessIdOnly \<Rightarrow> Ok ()
      | PeerCheckUnavailable \<Rightarrow> Ok ())"

section \<open>Rate limits\<close>

text \<open>The verdicts of the two buckets; the second is asked only if the first has room.\<close>

definition limits_check :: "bool \<Rightarrow> bool \<Rightarrow> unit ipc_result" where
  "limits_check global_ok client_ok =
     (if \<not> global_ok then Err RateLimited else if \<not> client_ok then Err RateLimited else Ok ())"

definition assign_client_id :: "nat \<Rightarrow> nat \<times> nat" where
  "assign_client_id next_client_id = (next_client_id, min (next_client_id + 1) (2 ^ 64 - 1))"

section \<open>One connection\<close>

text \<open>
  What the world contributes to one turn of the loop (turn 0 is the authentication): the verdicts of
  the buckets, the delivery to the host, the fate of a decision wait and of the frame written.
\<close>

record decision_reply_wire =
  dr_nonce :: string
  dr_stdout_json :: string
  dr_delivery_state :: string

record turn =
  t_global_ok :: bool
  t_client_ok :: bool
  t_delivery :: delivery
  t_decision_sent :: bool
  t_decision_reply :: "decision_reply_wire option"
  t_write_ok :: bool

record conn_env =
  ce_wire :: wire_env
  ce_b64 :: "string \<Rightarrow> 8 word list option"
  ce_sha :: digest
  ce_os :: target_os
  ce_host_uid :: "nat option ipc_result"
  ce_creds :: "peer_creds ipc_result"
  ce_expected_token :: auth_token
  ce_decisions_enabled :: bool
  ce_turn :: "nat \<Rightarrow> turn"
  ce_io_text :: string

text \<open>What a connection has done: frames are logged with the turn in which they were written.\<close>

record conn =
  c_in :: "chunk list"
  c_turn :: nat
  c_out :: "(nat \<times> wire_message) list"
  c_enqueued :: "(nat \<times> normalized_ingest) list"
  c_waits :: "(nat \<times> string \<times> decision_wait_wire) list"
  c_confirmed :: "string list"
  c_failed :: "(string \<times> string) list"

type_synonym 'a conn_op = "(conn, ipc_error, 'a) op"

definition ipc_error_text :: "string \<Rightarrow> ipc_error \<Rightarrow> string" where
  "ipc_error_text io_text e =
     (case e of
        NotInitialized \<Rightarrow> ''transport not initialized''
      | FrameRejected m \<Rightarrow> ''frame rejected: '' @ m
      | AuthFailed \<Rightarrow> ''authentication failed''
      | RateLimited \<Rightarrow> ''rate limit exceeded''
      | QueueFull \<Rightarrow> ''ingest queue full''
      | TooManyClients \<Rightarrow> ''too many clients''
      | PeerRejected m \<Rightarrow> ''peer rejected: '' @ m
      | ReadTimeout \<Rightarrow> ''read timed out''
      | DescriptorUnavailable \<Rightarrow> ''descriptor unavailable''
      | SpoolLimitExceeded \<Rightarrow> ''spool limit exceeded''
      | ConnectionClosed \<Rightarrow> ''connection closed''
      | InvalidConfig m \<Rightarrow> ''invalid configuration: '' @ m
      | IpcIo \<Rightarrow> io_text
      | IpcOther \<Rightarrow> io_text)"

definition error_code :: "ipc_error \<Rightarrow> string" where
  "error_code e =
     (case e of
        RateLimited \<Rightarrow> ''rate_limited''
      | QueueFull \<Rightarrow> ''queue_full''
      | FrameRejected m \<Rightarrow> ''invalid_frame''
      | AuthFailed \<Rightarrow> ''auth_failed''
      | _ \<Rightarrow> ''internal_error'')"

definition wire_of :: "string \<Rightarrow> wire_body \<Rightarrow> wire_message" where
  "wire_of request_id body = \<lparr>wm_version = IPC_WIRE_VERSION, wm_request_id = request_id, wm_body = body\<rparr>"

lemma wire_of_sel [simp]:
  "wm_body (wire_of i b) = b" "wm_request_id (wire_of i b) = i" "wm_version (wire_of i b) = IPC_WIRE_VERSION"
  by (simp_all add: wire_of_def)

definition conn_read :: "conn_env \<Rightarrow> wire_message conn_op" where
  "conn_read env = zoom c_in (\<lambda>s c. c\<lparr>c_in := s\<rparr>) (read_frame (ce_wire env))"

definition write_frame :: "conn_env \<Rightarrow> wire_message \<Rightarrow> unit conn_op" where
  "write_frame env m =
     bind (lift (encode_message (ce_wire env) m)) (\<lambda>frame c.
       if t_write_ok (ce_turn env (c_turn c)) then (Ok (), c\<lparr>c_out := c_out c @ [(c_turn c, m)]\<rparr>)
       else (Err IpcIo, c))"

definition write_error :: "conn_env \<Rightarrow> string \<Rightarrow> string \<Rightarrow> string \<Rightarrow> unit conn_op" where
  "write_error env request_id code message = write_frame env (wire_of request_id (WireError code message))"

definition process_ingest :: "conn_env \<Rightarrow> ingest_payload \<Rightarrow> unit conn_op" where
  "process_ingest env payload =
     bind (gets c_turn) (\<lambda>k.
       let w = ce_turn env k; dl = t_delivery w
       in seq (lift (limits_check (t_global_ok w) (t_client_ok w)))
         (bind (lift (normalize_ingest (ce_sha env) (dl_uuid dl) payload (dl_now_ms dl))) (\<lambda>n.
            if dl_slot dl then modify (\<lambda>c. c\<lparr>c_enqueued := c_enqueued c @ [(k, n)]\<rparr>)
            else throw QueueFull)))"

definition answer_ingest :: "conn_env \<Rightarrow> string \<Rightarrow> ingest_payload \<Rightarrow> unit conn_op" where
  "answer_ingest env request_id payload c =
     (case process_ingest env payload c of
        (Ok u, c1) \<Rightarrow>
          (case dl_host (t_delivery (ce_turn env (c_turn c))) of
             HostAccepted \<Rightarrow> write_frame env (wire_of request_id Ack) c1
           | HostRejected message \<Rightarrow> write_error env request_id ''ingest_rejected'' message c1
           | HostClosed \<Rightarrow> write_error env request_id ''host_unavailable'' ''host ingest consumer closed'' c1
           | HostTimeout \<Rightarrow> write_error env request_id ''host_timeout''
               ''host did not durably accept ingest before timeout'' c1)
      | (Err e, c1) \<Rightarrow> write_error env request_id (error_code e) (ipc_error_text (ce_io_text env) e) c1
      | (Panic p, c1) \<Rightarrow> (Panic p, c1))"

definition answer_decision :: "conn_env \<Rightarrow> string \<Rightarrow> decision_wait_wire \<Rightarrow> unit conn_op" where
  "answer_decision env request_id w c =
     (if \<not> ce_decisions_enabled env
      then write_error env request_id ''decision_unavailable'' ''interactive decisions are not enabled'' c
      else
        let t = ce_turn env (c_turn c)
        in if \<not> t_decision_sent t then (Err QueueFull, c)
           else
             let c1 = c\<lparr>c_waits := c_waits c @ [(c_turn c, request_id, w)]\<rparr>
             in (case t_decision_reply t of
                  None \<Rightarrow> write_frame env (wire_of request_id (DecisionReply DECISION_HOOK_NEUTRAL_OUTPUT ''expired'')) c1
                | Some reply \<Rightarrow>
                    (case write_frame env
                        (wire_of (dr_nonce reply) (DecisionReply (dr_stdout_json reply) (dr_delivery_state reply))) c1 of
                       (Ok u, c2) \<Rightarrow> (Ok (), c2\<lparr>c_confirmed := c_confirmed c2 @ [dr_nonce reply]\<rparr>)
                     | (Err e, c2) \<Rightarrow>
                         (Err e, c2\<lparr>c_failed := c_failed c2 @ [(dr_nonce reply, ipc_error_text (ce_io_text env) e)]\<rparr>)
                     | (Panic p, c2) \<Rightarrow> (Panic p, c2))))"

definition handle_frame :: "conn_env \<Rightarrow> wire_message \<Rightarrow> unit conn_op" where
  "handle_frame env frame =
     seq (lift (validate_wire_message frame))
       (case wm_body frame of
          Ingest payload \<Rightarrow> answer_ingest env (wm_request_id frame) payload
        | DecisionWait w \<Rightarrow> answer_decision env (wm_request_id frame) w
        | Ack \<Rightarrow> ret ()
        | _ \<Rightarrow> write_error env (wm_request_id frame) ''invalid_frame'' ''unexpected frame type'')"

definition next_turn :: "conn \<Rightarrow> conn" where
  "next_turn c = c\<lparr>c_turn := c_turn c + 1\<rparr>"

text \<open>The bytes and stalls still to come bound the turns of the loop.\<close>

fun chunk_weight :: "chunk \<Rightarrow> nat" where
  "chunk_weight Stall = 1"
| "chunk_weight (Data s) = 1 + length s"

definition pending_input :: "chunk list \<Rightarrow> nat" where
  "pending_input cs = sum_list (map chunk_weight cs)"

lemma read_exact_consumes:
  "read_exact n cs = (r, rest) \<Longrightarrow> pending_input rest \<le> pending_input cs \<and>
     ((\<exists>bs. r = Ok bs \<and> 0 < n) \<or> r = Err ReadTimeout \<longrightarrow> pending_input rest < pending_input cs) \<and>
     (r = Err ReadTimeout \<longrightarrow> 0 < n)"
proof (induction n cs arbitrary: r rest rule: read_exact.induct)
  case (1 n cs)
  then show ?case
    by (subst (asm) (2) read_exact.simps)
      (fastforce simp: pending_input_def split: list.splits chunk.splits if_splits prod.splits outcome.splits)
qed

lemma read_frame_consumes:
  assumes "read_frame env cs = (r, rest)"
  shows "(\<exists>m. r = Ok m) \<or> r = Err ReadTimeout \<longrightarrow> pending_input rest < pending_input cs"
  using assms
  by (auto simp: read_frame_def bind_def lift_def length_rejected_def Let_def dest!: read_exact_consumes
      split: prod.splits outcome.splits if_splits)

lemma conn_read_run:
  "conn_read env c = (r, c') \<Longrightarrow>
     \<exists>rest. read_frame (ce_wire env) (c_in c) = (r, rest) \<and> c' = c\<lparr>c_in := rest\<rparr>"
  by (auto simp: conn_read_def zoom_def split: prod.splits)

text \<open>The effect of writing: the frame is logged, or nothing happens and the turn fails.\<close>

definition logs :: "conn_env \<Rightarrow> conn \<Rightarrow> wire_message \<Rightarrow> unit ipc_result \<Rightarrow> (nat \<times> wire_message) list \<Rightarrow> bool" where
  "logs env c m r out \<longleftrightarrow>
     r \<noteq> Ok () \<and> out = [] \<or>
     r = Ok () \<and> out = [(c_turn c, m)] \<and> (\<exists>frame. encode_message (ce_wire env) m = Ok frame)"

lemma write_frame_run:
  assumes "write_frame env m c = (r, c')"
  obtains out where "c' = c\<lparr>c_out := c_out c @ out\<rparr>" "logs env c m r out"
proof (rule that)
  show "logs env c m r (if r = Ok () then [(c_turn c, m)] else [])"
    using assms by (auto simp: logs_def write_frame_def bind_def lift_def split: outcome.splits)
  show "c' = c\<lparr>c_out := c_out c @ (if r = Ok () then [(c_turn c, m)] else [])\<rparr>"
    using assms by (auto simp: write_frame_def bind_def lift_def split: outcome.splits if_splits)
qed

lemma process_ingest_run:
  "process_ingest env p c = (r, c') \<Longrightarrow>
     (\<exists>n. r = Ok () \<and> c' = c\<lparr>c_enqueued := c_enqueued c @ [(c_turn c, n)]\<rparr> \<and>
        normalize_ingest (ce_sha env) (dl_uuid (t_delivery (ce_turn env (c_turn c)))) p
          (dl_now_ms (t_delivery (ce_turn env (c_turn c)))) = Ok n) \<or>
     r \<noteq> Ok () \<and> c' = c"
  by (auto simp: process_ingest_def bind_def seq_def gets_def lift_def modify_def throw_def limits_check_def Let_def
      split: outcome.splits if_splits)

text \<open>What answering one frame adds to the logs of the connection.\<close>

definition ingest_answer :: "conn_env \<Rightarrow> nat \<Rightarrow> string \<Rightarrow> (nat \<times> normalized_ingest) list \<Rightarrow> wire_message \<Rightarrow> bool" where
  "ingest_answer env k i enq m \<longleftrightarrow>
     wm_request_id m = i \<and>
     (if wm_body m = Ack then enq \<noteq> [] \<and> dl_host (t_delivery (ce_turn env k)) = HostAccepted
      else (\<exists>code message. wm_body m = WireError code message) \<and>
        (enq = [] \<or> dl_host (t_delivery (ce_turn env k)) \<noteq> HostAccepted))"

lemma answer_ingest_run:
  assumes "answer_ingest env i p c = (r, c')"
  obtains enq out m where "c' = c\<lparr>c_enqueued := c_enqueued c @ enq, c_out := c_out c @ out\<rparr>"
    "enq = [] \<or> (\<exists>n. enq = [(c_turn c, n)] \<and>
       normalize_ingest (ce_sha env) (dl_uuid (t_delivery (ce_turn env (c_turn c)))) p
          (dl_now_ms (t_delivery (ce_turn env (c_turn c)))) = Ok n)"
    "logs env c m r out" "ingest_answer env (c_turn c) i enq m"
proof -
  let ?host = "dl_host (t_delivery (ce_turn env (c_turn c)))"
  obtain r1 c1 where run: "process_ingest env p c = (r1, c1)" by fastforce
  note ans = assms [unfolded answer_ingest_def run]
  show thesis
  proof (cases "r1 = Ok ()")
    case True
    then obtain n where c1: "c1 = c\<lparr>c_enqueued := c_enqueued c @ [(c_turn c, n)]\<rparr>" and
      norm: "normalize_ingest (ce_sha env) (dl_uuid (t_delivery (ce_turn env (c_turn c)))) p
          (dl_now_ms (t_delivery (ce_turn env (c_turn c)))) = Ok n"
      using process_ingest_run [OF run] by blast
    obtain m where m: "write_frame env m c1 = (r, c')" "ingest_answer env (c_turn c) i [(c_turn c, n)] m"
      using ans True by (cases ?host) (auto simp: write_error_def ingest_answer_def wire_of_def)
    from m(1) obtain out where "c' = c1\<lparr>c_out := c_out c1 @ out\<rparr>" "logs env c1 m r out"
      by (rule write_frame_run)
    with m(2) norm show thesis by (intro that) (simp_all add: c1 logs_def)
  next
    case False
    then have c1: "c1 = c" using process_ingest_run [OF run] by blast
    show thesis
    proof (cases r1)
      case (Err e)
      let ?m = "wire_of i (WireError (error_code e) (ipc_error_text (ce_io_text env) e))"
      from ans Err have "write_frame env ?m c = (r, c')" by (simp add: write_error_def c1)
      then obtain out where "c' = c\<lparr>c_out := c_out c @ out\<rparr>" "logs env c ?m r out" by (rule write_frame_run)
      then show thesis by (intro that [where enq = "[]" and out = out and m = ?m]) (simp_all add: ingest_answer_def wire_of_def)
    next
      case (Panic q)
      with ans c1 show thesis
        by (intro that [where enq = "[]" and out = "[]" and m = "wire_of i (WireError [] [])"]) (auto simp: ingest_answer_def wire_of_def logs_def)
    qed (use False in simp)
  qed
qed

lemma answer_decision_run:
  assumes "answer_decision env i w c = (r, c')"
  obtains ws out m confirmed failed where
    "c' = c\<lparr>c_waits := c_waits c @ ws, c_out := c_out c @ out, c_confirmed := c_confirmed c @ confirmed,
      c_failed := c_failed c @ failed\<rparr>"
    "ws = [] \<or> ws = [(c_turn c, i, w)]" "logs env c m r out" "wm_body m \<noteq> Ack"
    "\<forall>nonce\<in>set confirmed. \<exists>s d. (c_turn c, wire_of nonce (DecisionReply s d)) \<in> set out"
proof -
  let ?t = "ce_turn env (c_turn c)"
  note ans = assms [unfolded answer_decision_def Let_def]
  consider (off) "\<not> ce_decisions_enabled env" | (full) "ce_decisions_enabled env" "\<not> t_decision_sent ?t"
    | (late) "ce_decisions_enabled env" "t_decision_sent ?t" "t_decision_reply ?t = None"
    | (reply) y where "ce_decisions_enabled env" "t_decision_sent ?t" "t_decision_reply ?t = Some y" by auto
  then show thesis
  proof cases
    case off
    let ?m = "wire_of i (WireError ''decision_unavailable'' ''interactive decisions are not enabled'')"
    from ans off have "write_frame env ?m c = (r, c')" by (simp add: write_error_def)
    then obtain out where "c' = c\<lparr>c_out := c_out c @ out\<rparr>" "logs env c ?m r out" by (rule write_frame_run)
    then show thesis
      by (intro that [where ws = "[]" and out = out and m = ?m and confirmed = "[]" and failed = "[]"])
        (simp_all add: wire_of_def)
  next
    case full
    with ans show thesis
      by (intro that [where ws = "[]" and out = "[]" and m = "wire_of i (WireError [] [])" and confirmed = "[]" and failed = "[]"]) (auto simp: wire_of_def logs_def)
  next
    case late
    let ?m = "wire_of i (DecisionReply DECISION_HOOK_NEUTRAL_OUTPUT ''expired'')"
    let ?c = "c\<lparr>c_waits := c_waits c @ [(c_turn c, i, w)]\<rparr>"
    from ans late have "write_frame env ?m ?c = (r, c')" by simp
    then obtain out where "c' = ?c\<lparr>c_out := c_out ?c @ out\<rparr>" "logs env ?c ?m r out" by (rule write_frame_run)
    then show thesis
      by (intro that [where ws = "[(c_turn c, i, w)]" and out = out and m = ?m and confirmed = "[]" and failed = "[]"]) (simp_all add: wire_of_def logs_def)
  next
    case (reply y)
    let ?m = "wire_of (dr_nonce y) (DecisionReply (dr_stdout_json y) (dr_delivery_state y))"
    let ?c = "c\<lparr>c_waits := c_waits c @ [(c_turn c, i, w)]\<rparr>"
    obtain r2 c2 where wr: "write_frame env ?m ?c = (r2, c2)" by fastforce
    then obtain out where out: "c2 = ?c\<lparr>c_out := c_out ?c @ out\<rparr>" "logs env ?c ?m r2 out" by (rule write_frame_run)
    show thesis
    proof (cases r2)
      case (Ok u)
      with ans reply wr out show thesis
        by (intro that [where ws = "[(c_turn c, i, w)]" and out = out and m = ?m and confirmed = "[dr_nonce y]" and failed = "[]"]) (auto simp: wire_of_def logs_def)
    next
      case (Err e)
      with ans reply wr out show thesis
        by (intro that [where ws = "[(c_turn c, i, w)]" and out = out and m = ?m and confirmed = "[]" and failed = "[(dr_nonce y, ipc_error_text (ce_io_text env) e)]"])
          (auto simp: wire_of_def logs_def)
    next
      case (Panic q)
      with ans reply wr out show thesis
        by (intro that [where ws = "[(c_turn c, i, w)]" and out = out and m = ?m and confirmed = "[]" and failed = "[]"]) (auto simp: wire_of_def logs_def)
    qed
  qed
qed

definition turn_log :: "conn_env \<Rightarrow> nat \<Rightarrow> unit ipc_result \<Rightarrow> (nat \<times> normalized_ingest) list \<Rightarrow>
    (nat \<times> wire_message) list \<Rightarrow> bool" where
  "turn_log env k r enq out \<longleftrightarrow>
     (enq = [] \<or> (\<exists>n. enq = [(k, n)] \<and> passes_core_validation n)) \<and>
     (out = [] \<and> (r = Ok () \<longrightarrow> enq = []) \<or> (\<exists>m frame. out = [(k, m)] \<and> encode_message (ce_wire env) m = Ok frame \<and>
        (wm_body m = Ack \<longleftrightarrow> enq \<noteq> [] \<and> dl_host (t_delivery (ce_turn env k)) = HostAccepted)))"

lemma handle_frame_run:
  assumes "handle_frame env m c = (r, c')"
  obtains enq ws out where "c_in c' = c_in c" "c_turn c' = c_turn c"
    "c_enqueued c' = c_enqueued c @ enq" "c_waits c' = c_waits c @ ws" "c_out c' = c_out c @ out"
    "turn_log env (c_turn c) r enq out"
proof (cases "validate_wire_message m")
  case (Ok u)
  then have valid: "validate_body (wm_body m) = Ok ()" by (simp add: validate_wire_message_def first_error_Ok)
  note run = assms [unfolded handle_frame_def, simplified Ok seq_def bind_def lift_def prod.case outcome.case]
  note finish = that
  have plain: thesis if run: "write_frame env (wire_of i (WireError code msg)) c = (r, c')" for i code msg
  proof -
    from run obtain out where "c' = c\<lparr>c_out := c_out c @ out\<rparr>" "logs env c (wire_of i (WireError code msg)) r out"
      by (rule write_frame_run)
    then show thesis
      by (intro finish [where enq = "[]" and ws = "[]" and out = out])
        (auto simp: turn_log_def logs_def wire_of_def)
  qed
  show thesis
  proof (cases "wm_body m")
    case (Ingest p)
    with run have "answer_ingest env (wm_request_id m) p c = (r, c')" by simp
    then obtain enq out m' where eff: "c' = c\<lparr>c_enqueued := c_enqueued c @ enq, c_out := c_out c @ out\<rparr>"
      "enq = [] \<or> (\<exists>n. enq = [(c_turn c, n)] \<and>
         normalize_ingest (ce_sha env) (dl_uuid (t_delivery (ce_turn env (c_turn c)))) p
          (dl_now_ms (t_delivery (ce_turn env (c_turn c)))) = Ok n)"
      "logs env c m' r out" "ingest_answer env (c_turn c) (wm_request_id m) enq m'" by (rule answer_ingest_run)
    have "enq = [] \<or> (\<exists>n. enq = [(c_turn c, n)] \<and> passes_core_validation n)"
      using eff(2) valid Ingest normalized_payload_passes by fastforce
    moreover have "r \<noteq> Ok () \<and> out = [] \<or> (\<exists>m frame. out = [(c_turn c, m)] \<and> encode_message (ce_wire env) m = Ok frame \<and>
        (wm_body m = Ack \<longleftrightarrow> enq \<noteq> [] \<and> dl_host (t_delivery (ce_turn env (c_turn c))) = HostAccepted))"
      using eff(3,4) by (auto simp: logs_def ingest_answer_def split: if_splits)
    ultimately show thesis
      using eff(1) by (intro that [where enq = enq and ws = "[]" and out = out]) (auto simp: turn_log_def)
  next
    case (DecisionWait w)
    with run have "answer_decision env (wm_request_id m) w c = (r, c')" by simp
    then obtain ws out m' confirmed failed where
      "c' = c\<lparr>c_waits := c_waits c @ ws, c_out := c_out c @ out, c_confirmed := c_confirmed c @ confirmed,
        c_failed := c_failed c @ failed\<rparr>" "logs env c m' r out" "wm_body m' \<noteq> Ack" by (rule answer_decision_run)
    then show thesis
      by (intro that [where enq = "[]" and ws = ws and out = out]) (auto simp: turn_log_def logs_def)
  next
    case Ack
    with run show thesis
      by (intro that [where enq = "[]" and ws = "[]" and out = "[]"]) (auto simp: turn_log_def ret_def)
  qed (use run plain in \<open>auto simp: write_error_def\<close>)
qed (use assms in \<open>auto intro!: that [where enq = "[]" and ws = "[]" and out = "[]"]
      simp: turn_log_def handle_frame_def seq_def bind_def lift_def\<close>)

lemma handle_frame_input: "handle_frame env m c = (r, c') \<Longrightarrow> c_in c' = c_in c \<and> c_turn c' = c_turn c"
  by (erule handle_frame_run) simp

function serve_loop :: "conn_env \<Rightarrow> unit conn_op" where
  "serve_loop env c =
     (case conn_read env (next_turn c) of
        (Err ReadTimeout, c1) \<Rightarrow> serve_loop env c1
      | (Err ConnectionClosed, c1) \<Rightarrow> (Ok (), c1)
      | (Err e, c1) \<Rightarrow> (Err e, c1)
      | (Panic p, c1) \<Rightarrow> (Panic p, c1)
      | (Ok frame, c1) \<Rightarrow>
          (case handle_frame env frame c1 of
             (Ok u, c2) \<Rightarrow> serve_loop env c2
           | (Err e, c2) \<Rightarrow> (Err e, c2)
           | (Panic p, c2) \<Rightarrow> (Panic p, c2)))"
  by pat_completeness auto
termination
  by (relation "measure (\<lambda>(env, c). pending_input (c_in c))")
    (auto simp: next_turn_def dest!: sym [THEN conn_read_run] sym [THEN handle_frame_input] read_frame_consumes)

declare serve_loop.simps [simp del]

definition authenticate :: "conn_env \<Rightarrow> wire_message \<Rightarrow> unit conn_op" where
  "authenticate env auth_frame =
     (case wm_body auth_frame of
        Auth token_b64 \<Rightarrow>
          bind (lift (decode_b64 (ce_b64 env) token_b64)) (\<lambda>provided.
            if \<not> constant_time_eq (ce_expected_token env) provided
            then seq (write_error env (wm_request_id auth_frame) ''auth_failed'' ''invalid token'') (throw AuthFailed)
            else write_frame env (wire_of (wm_request_id auth_frame) Ack))
      | _ \<Rightarrow> seq (write_error env ''bootstrap'' ''auth_required'' ''first frame must be auth'') (throw AuthFailed))"

definition handle_connection :: "conn_env \<Rightarrow> unit conn_op" where
  "handle_connection env =
     bind (lift (ce_creds env)) (\<lambda>creds.
       seq (lift (verify_same_user_peer (ce_os env) (ce_host_uid env) creds (platform_default (ce_os env))))
         (bind (conn_read env) (\<lambda>auth_frame.
            seq (authenticate env auth_frame) (serve_loop env))))"

definition open_conn :: "chunk list \<Rightarrow> conn" where
  "open_conn cs = \<lparr>c_in = cs, c_turn = 0, c_out = [], c_enqueued = [], c_waits = [], c_confirmed = [], c_failed = []\<rparr>"

section \<open>The token check\<close>

lemma fold_or_zero: "foldl (\<lambda>diff (a, b). diff OR (a XOR b)) d ps = 0 \<longleftrightarrow> d = 0 \<and> (\<forall>(a, b)\<in>set ps. a = b)"
  for d :: "8 word"
proof (induction ps arbitrary: d)
  case (Cons p ps)
  obtain a b where p: "p = (a, b)" by (cases p)
  have "a XOR b = 0 \<longleftrightarrow> a = b" by (auto simp: bit_eq_iff bit_xor_iff)
  then have "d OR (a XOR b) = 0 \<longleftrightarrow> d = 0 \<and> a = b" by (simp add: or_eq_0_iff)
  with Cons show ?case by (auto simp: p)
qed simp

lemma constant_time_eq_iff: "length a = length b \<Longrightarrow> constant_time_eq a b \<longleftrightarrow> a = b"
  unfolding constant_time_eq_def fold_or_zero by (induction a b rule: list_induct2) auto

section \<open>What a connection may do\<close>

definition turns_ok :: "(nat \<Rightarrow> bool) \<Rightarrow> nat \<Rightarrow> (nat \<times> normalized_ingest) list \<Rightarrow> (nat \<times> wire_message) list \<Rightarrow> bool" where
  "turns_ok accepted k enq out \<longleftrightarrow>
     sorted_wrt (<) (map fst out) \<and> sorted_wrt (<) (map fst enq) \<and>
     (\<forall>(j, n)\<in>set enq. 0 < j \<and> j \<le> k \<and> passes_core_validation n) \<and>
     (\<forall>(j, m)\<in>set out. j \<le> k \<and> (0 < j \<longrightarrow> (wm_body m = Ack \<longleftrightarrow> j \<in> fst ` set enq \<and> accepted j)))"

definition acks_sound :: "conn_env \<Rightarrow> conn \<Rightarrow> bool" where
  "acks_sound env c \<longleftrightarrow>
     turns_ok (\<lambda>k. dl_host (t_delivery (ce_turn env k)) = HostAccepted) (c_turn c) (c_enqueued c) (c_out c)"

definition answered :: "conn \<Rightarrow> bool" where
  "answered c \<longleftrightarrow> fst ` set (c_enqueued c) \<subseteq> fst ` set (c_out c)"

lemma turns_ok_mono: "turns_ok A k enq out \<Longrightarrow> k \<le> k' \<Longrightarrow> turns_ok A k' enq out"
  unfolding turns_ok_def by fastforce

lemma turns_ok_enq:
  assumes "turns_ok A k enq out" "passes_core_validation n"
  shows "turns_ok A (Suc k) (enq @ [(Suc k, n)]) out"
proof -
  have "\<forall>(j, m)\<in>set out. j \<noteq> Suc k" using assms by (fastforce simp: turns_ok_def)
  with assms show ?thesis by (fastforce simp: turns_ok_def sorted_wrt_append)
qed

lemma turns_ok_out:
  assumes log: "turns_ok A k enq out" and "k \<le> j" "j \<notin> fst ` set out" "wm_body m = Ack \<longleftrightarrow> j \<in> fst ` set enq \<and> A j"
    and "\<forall>i\<in>fst ` set out. i \<le> j"
  shows "turns_ok A j enq (out @ [(j, m)])"
  unfolding turns_ok_def
proof (intro conjI)
  note parts = turns_ok_mono [OF log \<open>k \<le> j\<close>, unfolded turns_ok_def]
  have "\<forall>i\<in>set (map fst out). i < j" using assms(3,5) by (simp add: order.strict_iff_order) blast
  then show "sorted_wrt (<) (map fst (out @ [(j, m)]))" using parts by (simp add: sorted_wrt_append)
  show "sorted_wrt (<) (map fst enq)" using parts by blast
  show "\<forall>(i, n)\<in>set enq. 0 < i \<and> i \<le> j \<and> passes_core_validation n" using parts by blast
  show "\<forall>(i, x)\<in>set (out @ [(j, m)]). i \<le> j \<and> (0 < i \<longrightarrow> (wm_body x = Ack) = (i \<in> fst ` set enq \<and> A i))"
    using parts assms(4) by simp
qed

lemma handle_frame_acks:
  assumes "acks_sound env c" "answered c" "handle_frame env m (next_turn c) = (r, c')"
  shows "acks_sound env c' \<and> (r = Ok () \<longrightarrow> answered c')"
proof -
  from assms(3) obtain enq ws out where eff: "c_turn c' = c_turn (next_turn c)"
    "c_enqueued c' = c_enqueued (next_turn c) @ enq" "c_out c' = c_out (next_turn c) @ out"
    "turn_log env (c_turn (next_turn c)) r enq out" by (rule handle_frame_run)
  let ?k = "Suc (c_turn c)" and ?A = "\<lambda>k. dl_host (t_delivery (ce_turn env k)) = HostAccepted"
  note log = assms(1) [unfolded acks_sound_def]
  have fresh: "?k \<notin> fst ` set (c_enqueued c)" "?k \<notin> fst ` set (c_out c)" "\<forall>i\<in>fst ` set (c_out c). i \<le> ?k"
    using log by (fastforce simp: turns_ok_def)+
  have "(enq = [] \<and> out = []) \<or> (\<exists>m. enq = [] \<and> out = [(?k, m)] \<and> wm_body m \<noteq> Ack) \<or>
      (\<exists>n. enq = [(?k, n)] \<and> out = [] \<and> passes_core_validation n \<and> r \<noteq> Ok ()) \<or>
      (\<exists>n m. enq = [(?k, n)] \<and> passes_core_validation n \<and> out = [(?k, m)] \<and> (wm_body m = Ack \<longleftrightarrow> ?A ?k))"
    using eff(4) by (auto simp: turn_log_def next_turn_def)
  then have "turns_ok ?A ?k (c_enqueued c @ enq) (c_out c @ out) \<and> (r = Ok () \<longrightarrow> fst ` set enq \<subseteq> fst ` set out)"
  proof (elim disjE exE conjE, goal_cases)
    case 1
    then show ?case using turns_ok_mono [OF log, of ?k] by simp
  next
    case (2 m)
    then show ?case using turns_ok_out [OF log, of ?k m] fresh by simp
  next
    case (3 n)
    then show ?case using turns_ok_enq [OF log] by simp
  next
    case (4 n m)
    then show ?case using turns_ok_out [OF turns_ok_enq [OF log], of n ?k m] fresh by simp
  qed
  with assms(2) eff show ?thesis by (auto simp: acks_sound_def answered_def next_turn_def)
qed

text \<open>A predicate on the logs that every turn keeps holds when the connection ends.\<close>

lemma serve_loop_keeps:
  assumes step: "\<And>c m r c'. P c \<Longrightarrow> handle_frame env m (next_turn c) = (r, c') \<Longrightarrow>
      Q c' \<and> (r = Ok () \<longrightarrow> P c')"
    and weaken: "\<And>c. P c \<Longrightarrow> Q c"
    and input: "\<And>c cs. P c \<Longrightarrow> P (c\<lparr>c_in := cs\<rparr>)" and turn: "\<And>c. P c \<Longrightarrow> P (next_turn c)"
    and "P c" "serve_loop env c = (r, c')"
  shows "Q c' \<and> (r = Ok () \<longrightarrow> P c')"
  using assms
proof (induction env c arbitrary: r c' rule: serve_loop.induct)
  case (1 env c)
  note step = "1.prems"(1) and weaken = "1.prems"(2) and input = "1.prems"(3) and turn = "1.prems"(4)
    and start = "1.prems"(5) and run = "1.prems"(6)
  obtain res c1 where read: "conn_read env (next_turn c) = (res, c1)" by fastforce
  from conn_read_run [OF read] obtain rest where c1: "c1 = (next_turn c)\<lparr>c_in := rest\<rparr>" by blast
  then have P1: "P c1" using input [OF turn [OF start]] by simp
  note eqn = run [unfolded serve_loop.simps [of env c] read]
  show ?case
  proof (cases "\<exists>m. res = Ok m")
    case True
    then obtain m where m: "res = Ok m" by blast
    obtain r2 c2 where frame: "handle_frame env m c1 = (r2, c2)" by fastforce
    have "P (c\<lparr>c_in := rest\<rparr>)" by (rule input [OF start])
    moreover have "c1 = next_turn (c\<lparr>c_in := rest\<rparr>)" by (simp add: c1 next_turn_def)
    ultimately have turn_ok: "Q c2 \<and> (r2 = Ok () \<longrightarrow> P c2)" using step [of "c\<lparr>c_in := rest\<rparr>"] frame by auto
    show ?thesis
    proof (cases "r2 = Ok ()")
      case True
      with eqn m frame have "serve_loop env c2 = (r, c')" by simp
      with True turn_ok show ?thesis
        by (intro "1.IH"(1) [OF read [symmetric] m frame [symmetric] True step weaken input turn]) simp_all
    next
      case False
      with eqn m frame turn_ok show ?thesis by (auto split: outcome.splits)
    qed
  next
    case False
    show ?thesis
    proof (cases "res = Err ReadTimeout")
      case True
      with eqn have "serve_loop env c1 = (r, c')" by simp
      then show ?thesis
        by (intro "1.IH"(2) [OF read [symmetric] True refl step weaken input turn]) (simp_all add: P1)
    next
      case other: False
      with False eqn P1 weaken show ?thesis by (auto split: outcome.splits ipc_error.splits)
    qed
  qed
qed

lemma serve_loop_acks:
  assumes "acks_sound env c" "answered c" "serve_loop env c = (r, c')"
  shows "acks_sound env c' \<and> (r = Ok () \<longrightarrow> answered c')"
proof -
  have "acks_sound env c' \<and> (r = Ok () \<longrightarrow> acks_sound env c' \<and> answered c')"
  proof (rule serve_loop_keeps [where P = "\<lambda>c. acks_sound env c \<and> answered c", OF _ _ _ _ _ assms(3)])
    show "acks_sound env c' \<and> (r = Ok () \<longrightarrow> acks_sound env c' \<and> answered c')"
      if "acks_sound env c \<and> answered c" "handle_frame env m (next_turn c) = (r, c')" for c m r c'
      using handle_frame_acks [of env c m r c'] that by blast
    show "acks_sound env (next_turn c) \<and> answered (next_turn c)" if "acks_sound env c \<and> answered c" for c
      using that by (simp add: acks_sound_def answered_def next_turn_def turns_ok_mono [where k = "c_turn c"])
  qed (use assms in \<open>simp_all add: acks_sound_def answered_def\<close>)
  then show ?thesis by blast
qed

text \<open>A connection that gets past the first frame has shown the token.\<close>

definition shows_token :: "conn_env \<Rightarrow> chunk list \<Rightarrow> bool" where
  "shows_token env cs \<longleftrightarrow>
     (\<exists>m rest token. read_frame (ce_wire env) cs = (Ok m, rest) \<and> wm_body m = Auth token \<and>
        ce_b64 env token = Some (ce_expected_token env))"

definition peer_trusted :: "conn_env \<Rightarrow> bool" where
  "peer_trusted env \<longleftrightarrow>
     (\<exists>creds. ce_creds env = Ok creds \<and>
        (ce_os env = Unix \<longrightarrow> (\<exists>uid. ce_host_uid env = Ok (Some uid) \<and> pc_euid creds = Some uid)))"

lemma peer_check_trusted:
  "ce_creds env = Ok creds \<Longrightarrow>
     verify_same_user_peer (ce_os env) (ce_host_uid env) creds (platform_default (ce_os env)) = Ok () \<Longrightarrow>
     peer_trusted env"
  by (cases "ce_os env")
    (auto simp: peer_trusted_def verify_same_user_peer_def split: outcome.splits option.splits if_splits)

lemma decoded_token: "decode_b64 b64 value = Ok t \<longleftrightarrow> b64 value = Some t \<and> length t = AUTH_TOKEN_BYTES"
  by (auto simp: decode_b64_def split: option.splits if_splits)

lemma authenticate_run:
  assumes "length (ce_expected_token env) = AUTH_TOKEN_BYTES" "authenticate env m c = (r, c')"
  shows "c_enqueued c' = c_enqueued c \<and> c_waits c' = c_waits c \<and> c_turn c' = c_turn c \<and>
    (r = Ok () \<longrightarrow> (\<exists>token. wm_body m = Auth token \<and> ce_b64 env token = Some (ce_expected_token env)) \<and>
       c_out c' = c_out c @ [(c_turn c, wire_of (wm_request_id m) Ack)] \<and> c_in c' = c_in c \<and>
       (\<exists>frame. encode_message (ce_wire env) (wire_of (wm_request_id m) Ack) = Ok frame)) \<and>
    (r \<noteq> Ok () \<longrightarrow> (\<exists>out. c_out c' = c_out c @ out \<and> length out \<le> 1 \<and> (\<forall>(k, x)\<in>set out. wm_body x \<noteq> Ack)))"
proof -
  have refused: "c_enqueued c' = c_enqueued c \<and> c_waits c' = c_waits c \<and> c_turn c' = c_turn c \<and>
      r \<noteq> Ok () \<and> (\<exists>out. c_out c' = c_out c @ out \<and> length out \<le> 1 \<and> (\<forall>(k, x)\<in>set out. wm_body x \<noteq> Ack))"
    if refuse: "seq (write_error env i code msg) (throw AuthFailed) c = (r, c')" for i code msg
  proof -
    obtain r1 c1 where w: "write_frame env (wire_of i (WireError code msg)) c = (r1, c1)" by fastforce
    then obtain out where out: "c1 = c\<lparr>c_out := c_out c @ out\<rparr>" "logs env c (wire_of i (WireError code msg)) r1 out"
      by (rule write_frame_run)
    have "c' = c1 \<and> r \<noteq> Ok ()"
      using refuse w by (auto simp: write_error_def seq_def bind_def throw_def split: outcome.splits)
    moreover have "length out \<le> 1" "\<forall>(k, x)\<in>set out. wm_body x \<noteq> Ack" using out(2) by (auto simp: logs_def wire_of_def)
    ultimately show ?thesis using out(1) by auto
  qed
  show ?thesis
  proof (cases "\<exists>token provided. wm_body m = Auth token \<and> decode_b64 (ce_b64 env) token = Ok provided")
    case False
    with assms(2) refused show ?thesis
      by (cases "wm_body m") (auto simp: authenticate_def bind_def lift_def split: outcome.splits)
  next
    case True
    then obtain token provided where t: "wm_body m = Auth token" "decode_b64 (ce_b64 env) token = Ok provided" by blast
    have eq: "constant_time_eq (ce_expected_token env) provided \<longleftrightarrow> ce_expected_token env = provided"
      using t(2) assms(1) by (intro constant_time_eq_iff) (simp add: decoded_token)
    show ?thesis
    proof (cases "ce_expected_token env = provided")
      case True
      with assms(2) t eq have "write_frame env (wire_of (wm_request_id m) Ack) c = (r, c')"
        by (simp add: authenticate_def bind_def lift_def)
      then obtain out where "c' = c\<lparr>c_out := c_out c @ out\<rparr>" "logs env c (wire_of (wm_request_id m) Ack) r out"
        by (rule write_frame_run)
      with True t show ?thesis by (auto simp: logs_def decoded_token)
    next
      case False
      with assms(2) t eq refused show ?thesis by (auto simp: authenticate_def bind_def lift_def)
    qed
  qed
qed

lemma open_conn_sel [simp]:
  "c_in (open_conn cs) = cs" "c_turn (open_conn cs) = 0" "c_out (open_conn cs) = []"
  "c_enqueued (open_conn cs) = []" "c_waits (open_conn cs) = []"
  by (simp_all add: open_conn_def)

text \<open>A connection ends before the loop with empty logs, or enters the loop after the token.\<close>

lemma handle_connection_run:
  assumes token: "length (ce_expected_token env) = AUTH_TOKEN_BYTES"
    and run: "handle_connection env (open_conn cs) = (r, c)"
  obtains (refused) "c_enqueued c = []" "c_waits c = []" "\<forall>(k, m)\<in>set (c_out c). wm_body m \<noteq> Ack" "r \<noteq> Ok ()"
    "sorted_wrt (<) (map fst (c_out c))" "length (c_out c) \<le> 1"
  | (served) c0 m frame where "shows_token env cs" "peer_trusted env" "serve_loop env c0 = (r, c)"
      "c_enqueued c0 = []" "c_waits c0 = []" "c_out c0 = [(0, wire_of (wm_request_id m) Ack)]" "c_turn c0 = 0"
      "read_frame (ce_wire env) cs = (Ok m, c_in c0)"
      "encode_message (ce_wire env) (wire_of (wm_request_id m) Ack) = Ok frame"
proof -
  let ?peer = "\<lambda>creds. verify_same_user_peer (ce_os env) (ce_host_uid env) creds (platform_default (ce_os env))"
  obtain res c1 where read: "conn_read env (open_conn cs) = (res, c1)" by fastforce
  from conn_read_run [OF read] obtain rest where rd: "read_frame (ce_wire env) cs = (res, rest)"
    and c1: "c1 = open_conn cs\<lparr>c_in := rest\<rparr>" by auto
  show thesis
  proof (cases "\<exists>creds m. ce_creds env = Ok creds \<and> ?peer creds = Ok () \<and> res = Ok m")
    case False
    with run read c1 have "c = open_conn cs \<or> c = c1" "r \<noteq> Ok ()"
      by (auto simp: handle_connection_def seq_def bind_def lift_def split: outcome.splits prod.splits)
    with c1 show thesis by (intro refused) auto
  next
    case True
    then obtain creds m where ok: "ce_creds env = Ok creds" "?peer creds = Ok ()" "res = Ok m" by blast
    obtain r2 c2 where au: "authenticate env m c1 = (r2, c2)" by fastforce
    note auth = authenticate_run [OF token au]
    have rest: "(case r2 of Ok u \<Rightarrow> serve_loop env c2 | Err e \<Rightarrow> (Err e, c2) | Panic p \<Rightarrow> (Panic p, c2)) = (r, c)"
      using run read ok au by (auto simp: handle_connection_def seq_def bind_def lift_def split: outcome.splits)
    show thesis
    proof (cases "r2 = Ok ()")
      case True
      with auth obtain frame where "encode_message (ce_wire env) (wire_of (wm_request_id m) Ack) = Ok frame" by blast
      with True auth ok rd c1 rest peer_check_trusted [OF ok(1,2)] show thesis
        by (intro served [of c2 m frame]) (auto simp: shows_token_def)
    next
      case False
      with auth obtain out where out: "c_out c2 = out" "length out \<le> 1" "\<forall>(k, x)\<in>set out. wm_body x \<noteq> Ack"
        by (auto simp: c1)
      then have "sorted_wrt (<) (map fst out)" by (cases out) auto
      with False auth c1 rest out show thesis by (intro refused) (auto split: outcome.splits)
    qed
  qed
qed

text \<open>
  (C35) Nobody gets an event or a decision into the host without the token: if a connection put
  anything on the queue of the host or opened a decision, or was served to its end, its first frame
  was an \<open>auth\<close> frame with exactly the token of this start of the host, and on Unix the peer runs
  under the user of the host.
\<close>

theorem unauthenticated_peers_are_inert:
  assumes "length (ce_expected_token env) = AUTH_TOKEN_BYTES"
    and "handle_connection env (open_conn cs) = (r, c)"
    and "c_enqueued c \<noteq> [] \<or> c_waits c \<noteq> [] \<or> r = Ok ()"
  shows "shows_token env cs \<and> peer_trusted env"
  using assms(1,2) by (cases rule: handle_connection_run) (use assms(3) in auto)

text \<open>
  (C36) An acknowledgement means acceptance: in every connection, a turn answers with at most one
  frame; after the authentication it says \<open>ack\<close> exactly when the event of that turn went to the
  host and the host accepted it; whatever goes to the host passes the validation of the core; and
  a connection that ends regularly has answered every event it passed on.
\<close>

theorem acks_follow_acceptance:
  assumes "length (ce_expected_token env) = AUTH_TOKEN_BYTES"
    and "handle_connection env (open_conn cs) = (r, c)"
  shows "sorted_wrt (<) (map fst (c_out c)) \<and>
    (\<forall>(k, m)\<in>set (c_out c). 0 < k \<longrightarrow>
       (wm_body m = Ack \<longleftrightarrow> k \<in> fst ` set (c_enqueued c) \<and> dl_host (t_delivery (ce_turn env k)) = HostAccepted)) \<and>
    (\<forall>(k, n)\<in>set (c_enqueued c). passes_core_validation n) \<and>
    (r = Ok () \<longrightarrow> fst ` set (c_enqueued c) \<subseteq> fst ` set (c_out c))"
  using assms
proof (cases rule: handle_connection_run)
  case refused
  then show ?thesis by auto
next
  case (served c0 m frame)
  then have "acks_sound env c0" "answered c0" by (auto simp: acks_sound_def turns_ok_def answered_def)
  from serve_loop_acks [OF this served(3)] show ?thesis by (auto simp: acks_sound_def turns_ok_def answered_def)
qed

section \<open>A concrete connection\<close>

definition sample_codec :: "(wire_message \<times> string) list" where
  "sample_codec = [(wire_of ''auth'' (Auth ''t''), ''A''), (wire_of ''auth'' Ack, ''a''),
     (wire_of ''r1'' (Ingest sample_ingest), ''I''), (wire_of ''r1'' Ack, ''k'')]"

definition sample_wire :: wire_env where
  "sample_wire = \<lparr>wire_to_json = map_of sample_codec,
     wire_from_json = \<lambda>s. case map_of (map prod.swap sample_codec) s of None \<Rightarrow> Err ''unknown'' | Some m \<Rightarrow> Ok m\<rparr>"

definition sample_turn :: turn where
  "sample_turn = \<lparr>t_global_ok = True, t_client_ok = True,
     t_delivery = \<lparr>dl_uuid = 7, dl_now_ms = 9, dl_slot = True, dl_host = HostAccepted\<rparr>,
     t_decision_sent = True, t_decision_reply = None, t_write_ok = True\<rparr>"

definition sample_conn_env :: conn_env where
  "sample_conn_env = \<lparr>ce_wire = sample_wire, ce_b64 = \<lambda>s. if s = ''t'' then Some (replicate 32 7) else None,
     ce_sha = \<lambda>s. s, ce_os = Unix, ce_host_uid = Ok (Some 501), ce_creds = Ok \<lparr>pc_euid = Some 501, pc_pid = None\<rparr>,
     ce_expected_token = replicate 32 7, ce_decisions_enabled = True, ce_turn = \<lambda>k. sample_turn, ce_io_text = ''io''\<rparr>"

definition sample_input :: "chunk list" where
  "sample_input = [Data (u32_to_be_bytes 1 @ ''A''), Stall, Data (u32_to_be_bytes 1), Data ''I'']"

lemma sample_decode:
  "decode_frame_bytes sample_wire (u32_to_be_bytes (Suc 0) @ ''A'') = Ok (wire_of ''auth'' (Auth ''t''))"
  "decode_frame_bytes sample_wire (u32_to_be_bytes (Suc 0) @ ''I'') = Ok (wire_of ''r1'' (Ingest sample_ingest))"
proof -
  have len: "u32_from_be_bytes (u32_to_be_bytes (Suc 0)) = 1" using be_bytes_round_trip [of 1] by simp
  have utf8: "utf8_valid ''A''" "utf8_valid ''I''" by (simp_all add: utf8_valid.simps byte_in_def Let_def)
  have json: "wire_from_json sample_wire ''A'' = Ok (wire_of ''auth'' (Auth ''t''))"
    "wire_from_json sample_wire ''I'' = Ok (wire_of ''r1'' (Ingest sample_ingest))"
    by (simp_all add: sample_wire_def sample_codec_def)
  have valid: "validate_wire_message (wire_of ''auth'' (Auth ''t'')) = Ok ()"
    "validate_wire_message (wire_of ''r1'' (Ingest sample_ingest)) = Ok ()"
    by (simp_all add: validate_wire_message_def validate_request_id_def wire_of_def sample_ingest_valid
        ipc_limits is_ascii_alphanumeric_def ascii_classes)
  show "decode_frame_bytes sample_wire (u32_to_be_bytes (Suc 0) @ ''A'') = Ok (wire_of ''auth'' (Auth ''t''))"
    "decode_frame_bytes sample_wire (u32_to_be_bytes (Suc 0) @ ''I'') = Ok (wire_of ''r1'' (Ingest sample_ingest))"
    using len utf8 json valid by (simp_all add: decode_frame_bytes_def Let_def MAX_FRAME_BYTES_def)
qed

lemma sample_reads:
  "read_frame sample_wire sample_input = (Ok (wire_of ''auth'' (Auth ''t'')), drop (Suc 0) sample_input)"
  "read_frame sample_wire (drop (Suc 0) sample_input) = (Err ReadTimeout, drop 2 sample_input)"
  "read_frame sample_wire (drop 2 sample_input) = (Ok (wire_of ''r1'' (Ingest sample_ingest)), [])"
  "read_frame sample_wire [] = (Err ConnectionClosed, [])"
proof -
  have len: "u32_from_be_bytes (u32_to_be_bytes (Suc 0)) = 1" "u32_to_be_bytes (Suc 0) \<noteq> []"
    using be_bytes_round_trip [of 1] length_be_bytes [of 1] by (auto simp del: length_be_bytes)
  show "read_frame sample_wire sample_input = (Ok (wire_of ''auth'' (Auth ''t'')), drop (Suc 0) sample_input)"
    "read_frame sample_wire (drop (Suc 0) sample_input) = (Err ReadTimeout, drop 2 sample_input)"
    "read_frame sample_wire (drop 2 sample_input) = (Ok (wire_of ''r1'' (Ingest sample_ingest)), [])"
    "read_frame sample_wire [] = (Err ConnectionClosed, [])"
    using len sample_decode
    by (simp_all add: sample_input_def read_frame_def bind_def lift_def read_exact.simps MAX_FRAME_BYTES_def Let_def)
qed

lemma sample_writes:
  "encode_message sample_wire (wire_of ''auth'' Ack) = Ok (u32_to_be_bytes 1 @ ''a'')"
  "encode_message sample_wire (wire_of ''r1'' Ack) = Ok (u32_to_be_bytes 1 @ ''k'')"
  by (simp_all add: encode_message_def sample_wire_def sample_codec_def wire_of_def validate_wire_message_def
      validate_request_id_def ipc_limits is_ascii_alphanumeric_def ascii_classes wrap_u32_def)

definition sample_conn :: "chunk list \<Rightarrow> nat \<Rightarrow> (nat \<times> wire_message) list \<Rightarrow> (nat \<times> normalized_ingest) list \<Rightarrow> conn" where
  "sample_conn cs k out enq = \<lparr>c_in = cs, c_turn = k, c_out = out, c_enqueued = enq, c_waits = [],
     c_confirmed = [], c_failed = []\<rparr>"

definition sample_served :: conn where
  "sample_served = sample_conn [] 3 [(0, wire_of ''auth'' Ack), (2, wire_of ''r1'' Ack)]
     [(2, NormSessionEvent sample_event Codex None None)]"

lemma sample_turns:
  "conn_read sample_conn_env (sample_conn cs k out enq) =
     (fst (read_frame sample_wire cs), sample_conn (snd (read_frame sample_wire cs)) k out enq)"
  "next_turn (sample_conn cs k out enq) = sample_conn cs (Suc k) out enq"
  "authenticate sample_conn_env (wire_of ''auth'' (Auth ''t'')) (sample_conn cs k out enq) =
     (Ok (), sample_conn cs k (out @ [(k, wire_of ''auth'' Ack)]) enq)"
  "handle_frame sample_conn_env (wire_of ''r1'' (Ingest sample_ingest)) (sample_conn cs k out enq) =
     (Ok (), sample_conn cs k (out @ [(k, wire_of ''r1'' Ack)])
        (enq @ [(k, NormSessionEvent sample_event Codex None None)]))"
proof -
  have env: "ce_b64 sample_conn_env ''t'' = Some (replicate 32 7)" "ce_expected_token sample_conn_env = replicate 32 7"
    "dl_host (t_delivery (ce_turn sample_conn_env k)) = HostAccepted" for k
    by (simp_all add: sample_conn_env_def sample_turn_def)
  have token: "constant_time_eq (replicate 32 7) (replicate 32 7)" by (simp add: constant_time_eq_iff)
  have wr: "write_frame sample_conn_env (wire_of i Ack) (sample_conn cs k out enq) =
      (Ok (), sample_conn cs k (out @ [(k, wire_of i Ack)]) enq)" if "i = ''auth'' \<or> i = ''r1''" for i cs k out enq
    using that sample_writes
    by (auto simp: write_frame_def bind_def lift_def sample_conn_env_def sample_turn_def sample_conn_def)
  have valid: "validate_wire_message (wire_of ''r1'' (Ingest sample_ingest)) = Ok ()"
    by (rule decoded_valid [OF sample_decode(2)])
  have queued: "process_ingest sample_conn_env sample_ingest (sample_conn cs k out enq) =
      (Ok (), sample_conn cs k out (enq @ [(k, NormSessionEvent sample_event Codex None None)]))"
    using sample_ingest_normalized
    by (simp add: process_ingest_def bind_def seq_def gets_def lift_def modify_def limits_check_def Let_def
        sample_conn_env_def sample_turn_def sample_conn_def)
  show "conn_read sample_conn_env (sample_conn cs k out enq) =
      (fst (read_frame sample_wire cs), sample_conn (snd (read_frame sample_wire cs)) k out enq)"
    by (simp add: conn_read_def zoom_def sample_conn_env_def sample_conn_def split: prod.splits)
  show "next_turn (sample_conn cs k out enq) = sample_conn cs (Suc k) out enq"
    by (simp add: next_turn_def sample_conn_def)
  show "authenticate sample_conn_env (wire_of ''auth'' (Auth ''t'')) (sample_conn cs k out enq) =
      (Ok (), sample_conn cs k (out @ [(k, wire_of ''auth'' Ack)]) enq)"
    using token wr [of "''auth''"]
    by (simp add: authenticate_def bind_def lift_def decode_b64_def AUTH_TOKEN_BYTES_def env)
  show "handle_frame sample_conn_env (wire_of ''r1'' (Ingest sample_ingest)) (sample_conn cs k out enq) =
      (Ok (), sample_conn cs k (out @ [(k, wire_of ''r1'' Ack)])
        (enq @ [(k, NormSessionEvent sample_event Codex None None)]))"
    using valid queued wr [of "''r1''"]
    by (simp add: handle_frame_def seq_def bind_def lift_def answer_ingest_def env)
qed

lemma sample_connection: "handle_connection sample_conn_env (open_conn sample_input) = (Ok (), sample_served)"
proof -
  let ?c = sample_conn and ?ack = "(0, wire_of ''auth'' Ack)"
  let ?loop = "serve_loop sample_conn_env"
  have "?loop (?c (drop (Suc 0) sample_input) 0 [?ack] []) = ?loop (?c (drop 2 sample_input) 1 [?ack] [])"
    by (subst serve_loop.simps) (simp add: sample_turns sample_reads)
  also have "\<dots> = ?loop (?c [] 2 [?ack, (2, wire_of ''r1'' Ack)] [(2, NormSessionEvent sample_event Codex None None)])"
    by (subst serve_loop.simps) (simp add: sample_turns sample_reads flip: numeral_2_eq_2)
  also have "\<dots> = (Ok (), sample_served)"
    by (subst serve_loop.simps) (simp add: sample_turns sample_reads sample_served_def)
  finally have loop: "?loop (?c (drop (Suc 0) sample_input) 0 [?ack] []) = (Ok (), sample_served)" .
  have "open_conn sample_input = ?c sample_input 0 [] []" by (simp add: open_conn_def sample_conn_def)
  moreover have "ce_creds sample_conn_env = Ok \<lparr>pc_euid = Some 501, pc_pid = None\<rparr>"
    "verify_same_user_peer (ce_os sample_conn_env) (ce_host_uid sample_conn_env) \<lparr>pc_euid = Some 501, pc_pid = None\<rparr>
       (platform_default (ce_os sample_conn_env)) = Ok ()"
    by (simp_all add: sample_conn_env_def verify_same_user_peer_def)
  ultimately show ?thesis
    using loop by (simp add: handle_connection_def bind_def seq_def lift_def sample_turns sample_reads)
qed

lemma sample_token: "length (ce_expected_token sample_conn_env) = AUTH_TOKEN_BYTES"
  by (simp add: sample_conn_env_def AUTH_TOKEN_BYTES_def)

theorem unauthenticated_peers_are_inert_witness: "shows_token sample_conn_env sample_input \<and> peer_trusted sample_conn_env"
  by (rule unauthenticated_peers_are_inert [OF sample_token sample_connection]) simp

theorem acks_follow_acceptance_witness:
  "sorted_wrt (<) (map fst (c_out sample_served)) \<and> list_all (\<lambda>(k, n). passes_core_validation n) (c_enqueued sample_served)"
  using acks_follow_acceptance [OF sample_token sample_connection] by (simp add: list_all_iff)

end
