(* ===== verification/Ipc_Client.thy ===== *)
theory Ipc_Client
  imports Ipc_Server
begin

text \<open>
  \<^verbatim>\<open>crates/notch-ipc/src\<close>: the runtime descriptor (\<^verbatim>\<open>descriptor.rs\<close>, \<open>cleanup_runtime_files\<close> of \<^verbatim>\<open>server.rs\<close>)
  and the hook side of the transport (\<^verbatim>\<open>client.rs\<close>), and what client and server guarantee together.
\<close>

section \<open>Runtime descriptor\<close>

record runtime_descriptor =
  rd_v :: nat
  rd_socket_path :: string
  rd_token_b64 :: string
  rd_host_pid :: nat
  rd_started_at_ms :: int

definition descriptor_new :: "(8 word list \<Rightarrow> string) \<Rightarrow> nat \<Rightarrow> string \<Rightarrow> auth_token \<Rightarrow> int \<Rightarrow> runtime_descriptor" where
  "descriptor_new b64_encode host_pid connect_path token started_at_ms =
     \<lparr>rd_v = IPC_WIRE_VERSION, rd_socket_path = connect_path, rd_token_b64 = b64_encode token,
      rd_host_pid = host_pid, rd_started_at_ms = started_at_ms\<rparr>"

text \<open>\<open>parse\<close> is \<open>serde_json::from_slice\<close>; a missing or unreadable file is \<open>None\<close>.\<close>

definition read_from :: "(string \<Rightarrow> (string, runtime_descriptor) outcome) \<Rightarrow> string option \<Rightarrow> runtime_descriptor ipc_result" where
  "read_from parse file =
     (case file of
        None \<Rightarrow> Err IpcIo
      | Some bytes \<Rightarrow>
          (case parse bytes of
             Err e \<Rightarrow> Err (FrameRejected (''descriptor JSON invalid: '' @ e))
           | Panic p \<Rightarrow> Panic p
           | Ok descriptor \<Rightarrow>
               if rd_v descriptor \<noteq> IPC_WIRE_VERSION
               then Err (FrameRejected (''unsupported descriptor version '' @ dec_string (rd_v descriptor)))
               else Ok descriptor))"

record runtime_files =
  rf_descriptor :: "string option"
  rf_socket :: bool

definition cleanup_runtime_files ::
  "(string \<Rightarrow> (string, runtime_descriptor) outcome) \<Rightarrow> runtime_descriptor \<Rightarrow> runtime_files \<Rightarrow> runtime_files" where
  "cleanup_runtime_files parse descriptor files =
     (let owns_descriptor = (case read_from parse (rf_descriptor files) of
            Ok current \<Rightarrow> rd_host_pid current = rd_host_pid descriptor \<and>
              rd_started_at_ms current = rd_started_at_ms descriptor
          | _ \<Rightarrow> False)
      in files\<lparr>rf_descriptor := (if owns_descriptor then None else rf_descriptor files), rf_socket := False\<rparr>)"

text \<open>A host that stops leaves the descriptor of its successor alone but takes away its socket.\<close>

lemma cleanup_removes_foreign_socket:
  assumes "read_from parse (rf_descriptor files) = Ok current" "rd_host_pid current \<noteq> rd_host_pid descriptor"
  shows "rf_descriptor (cleanup_runtime_files parse descriptor files) = rf_descriptor files \<and>
    \<not> rf_socket (cleanup_runtime_files parse descriptor files)"
  using assms by (simp add: cleanup_runtime_files_def)

section \<open>The client\<close>

record client_env =
  cl_wire :: wire_env
  cl_b64 :: "string \<Rightarrow> 8 word list option"
  cl_b64_encode :: "8 word list \<Rightarrow> string"
  cl_descriptor :: runtime_descriptor
  cl_connect_ok :: bool
  cl_write_ok :: "nat \<Rightarrow> bool"

record client_conn =
  k_in :: "chunk list"
  k_out :: "wire_message list"

type_synonym 'a client_op = "(client_conn, ipc_error, 'a) op"

definition client_connect :: "client_env \<Rightarrow> unit client_op" where
  "client_connect env = (if cl_connect_ok env then ret () else throw IpcIo)"

definition client_read :: "client_env \<Rightarrow> wire_message client_op" where
  "client_read env = zoom k_in (\<lambda>s c. c\<lparr>k_in := s\<rparr>) (read_frame (cl_wire env))"

definition client_write :: "client_env \<Rightarrow> wire_message \<Rightarrow> unit client_op" where
  "client_write env m =
     bind (lift (encode_message (cl_wire env) m)) (\<lambda>frame c.
       if cl_write_ok env (length (k_out c)) then (Ok (), c\<lparr>k_out := k_out c @ [m]\<rparr>) else (Err IpcIo, c))"

text \<open>
  The timeout around the read is \<open>ACK_WAIT_MS\<close>, the read itself gives up after \<open>READ_TIMEOUT_MS\<close>; both
  are two seconds and both are reported as \<open>ReadTimeout\<close>.
\<close>

definition wait_for_ack :: "client_env \<Rightarrow> string \<Rightarrow> unit client_op" where
  "wait_for_ack env request_id =
     bind (client_read env) (\<lambda>response.
       case wm_body response of
         Ack \<Rightarrow> if wm_request_id response = request_id then ret () else throw (FrameRejected ''unexpected response'')
       | WireError code message \<Rightarrow>
           throw (if code = ''auth_failed'' \<or> code = ''auth_required'' then AuthFailed
             else if code = ''queue_full'' then QueueFull
             else if code = ''rate_limited'' then RateLimited
             else if code = ''host_timeout'' \<or> code = ''host_unavailable'' then ReadTimeout
             else FrameRejected message)
       | _ \<Rightarrow> throw (FrameRejected ''unexpected response''))"

definition client_authenticate :: "client_env \<Rightarrow> unit client_op" where
  "client_authenticate env =
     bind (lift (decode_b64 (cl_b64 env) (rd_token_b64 (cl_descriptor env)))) (\<lambda>token.
       seq (client_write env (wire_of ''auth'' (Auth (cl_b64_encode env token))))
         (wait_for_ack env ''auth''))"

definition send_ingest :: "client_env \<Rightarrow> string \<Rightarrow> ingest_payload \<Rightarrow> unit client_op" where
  "send_ingest env request_id payload =
     seq (client_connect env)
       (seq (client_authenticate env)
         (seq (client_write env (wire_of request_id (Ingest payload)))
           (wait_for_ack env request_id)))"

text \<open>
  The reply is read under a timeout of two minutes, by a read that gives up after two seconds of
  silence: the inner one decides.
\<close>

definition request_decision :: "client_env \<Rightarrow> string \<Rightarrow> decision_wait_wire \<Rightarrow> string client_op" where
  "request_decision env nonce w =
     seq (client_connect env)
       (seq (client_authenticate env)
         (seq (client_write env (wire_of nonce (DecisionWait w)))
           (bind (client_read env) (\<lambda>response.
              case wm_body response of
                DecisionReply stdout_json delivery_state \<Rightarrow>
                  if wm_request_id response = nonce then ret stdout_json else ret DECISION_HOOK_NEUTRAL_OUTPUT
              | WireError code message \<Rightarrow>
                  if code = ''decision_expired'' \<or> code = ''host_timeout'' then ret DECISION_HOOK_NEUTRAL_OUTPUT
                  else if code = ''auth_failed'' \<or> code = ''auth_required'' then throw AuthFailed
                  else throw (FrameRejected message)
              | _ \<Rightarrow> ret DECISION_HOOK_NEUTRAL_OUTPUT))))"

definition client_start :: "chunk list \<Rightarrow> client_conn" where
  "client_start cs = \<lparr>k_in = cs, k_out = []\<rparr>"

section \<open>Decisions wait two seconds\<close>

lemma client_read_run: "client_read env c =
    (fst (read_frame (cl_wire env) (k_in c)), c\<lparr>k_in := snd (read_frame (cl_wire env) (k_in c))\<rparr>)"
  by (simp add: client_read_def zoom_def split: prod.splits)

lemma silence_ends_decision_wait:
  assumes "client_connect env c = (Ok (), c1)" "client_authenticate env c1 = (Ok (), c2)"
    and "client_write env (wire_of nonce (DecisionWait w)) c2 = (Ok (), c3)" "k_in c3 = Stall # later"
  shows "fst (request_decision env nonce w c) = Err ReadTimeout"
proof -
  have "read_frame (cl_wire env) (Stall # later) = (Err ReadTimeout, later)"
    by (simp add: read_frame_def bind_def read_exact.simps)
  with assms show ?thesis by (simp add: request_decision_def seq_def bind_def client_read_run)
qed

section \<open>From the hook to the host\<close>

definition frame_bytes :: "wire_env \<Rightarrow> wire_message \<Rightarrow> string" where
  "frame_bytes env m = (case encode_message env m of Ok frame \<Rightarrow> frame | _ \<Rightarrow> [])"

lemma no_pieces: "[] \<notin> set ds \<Longrightarrow> concat ds = [] \<Longrightarrow> ds = []"
  by (cases ds) auto

lemma read_frame_Nil: "read_frame env [] = (Err ConnectionClosed, [])"
  by (simp add: read_frame_def bind_def read_exact.simps)

text \<open>What one wait for an acknowledgement sees of the frames on the wire.\<close>

lemma wait_for_ack_run:
  assumes faithful: "wire_json_faithful (cl_wire env)" and pieces: "[] \<notin> set ds" "k_in c = map Data ds"
    and bytes: "concat ds = concat (map (frame_bytes (cl_wire env)) ms)"
    and ok: "wait_for_ack env i c = (Ok (), c')"
    and encodes: "\<forall>m\<in>set ms. \<exists>frame. encode_message (cl_wire env) m = Ok frame"
  obtains m ms' ds' where "ms = m # ms'" "wm_body m = Ack" "wm_request_id m = i" "k_in c' = map Data ds'"
    "[] \<notin> set ds'" "concat ds' = concat (map (frame_bytes (cl_wire env)) ms')"
proof (cases ms)
  case Nil
  then have "ds = []" using no_pieces [OF pieces(1)] bytes by simp
  then show thesis using ok pieces by (simp add: wait_for_ack_def bind_def client_read_run read_frame_Nil)
next
  case (Cons m ms')
  then obtain frame where frame: "encode_message (cl_wire env) m = Ok frame" using encodes by auto
  have "concat ds = frame @ concat (map (frame_bytes (cl_wire env)) ms')"
    using bytes Cons frame by (simp add: frame_bytes_def)
  from read_frame_encoded [OF faithful frame pieces(1) this] obtain ds' where ds':
    "read_frame (cl_wire env) (map Data ds) = (Ok m, map Data ds')" "[] \<notin> set ds'"
    "concat ds' = concat (map (frame_bytes (cl_wire env)) ms')" by blast
  have "wm_body m = Ack \<and> wm_request_id m = i \<and> k_in c' = map Data ds'"
    using ok ds'(1) pieces(2)
    by (auto simp: wait_for_ack_def bind_def client_read_run throw_def ret_def split: wire_body.splits if_splits)
  with Cons ds' show thesis by (intro that [where m = m and ms' = ms' and ds' = ds']) auto
qed

lemma client_write_input: "client_write env m c = (r, c') \<Longrightarrow> k_in c' = k_in c"
  by (auto simp: client_write_def bind_def lift_def split: outcome.splits if_splits)

text \<open>A successful \<open>send_ingest\<close> read two acknowledgements, the first two frames on the wire.\<close>

lemma send_ingest_acks:
  assumes faithful: "wire_json_faithful (cl_wire env)" and pieces: "[] \<notin> set ds"
    and bytes: "concat ds = concat (map (frame_bytes (cl_wire env)) ms)"
    and encodes: "\<forall>m\<in>set ms. \<exists>frame. encode_message (cl_wire env) m = Ok frame"
    and ok: "send_ingest env i payload (client_start (map Data ds)) = (Ok (), k)"
  shows "\<exists>m1 m2 ms'. ms = m1 # m2 # ms' \<and> wm_body m1 = Ack \<and> wm_body m2 = Ack \<and> wm_request_id m2 = i"
proof -
  let ?c = "client_start (map Data ds)"
  from ok obtain token c1 c2 c3 where run: "client_connect env ?c = (Ok (), ?c)"
    "client_write env (wire_of ''auth'' (Auth (cl_b64_encode env token))) ?c = (Ok (), c1)"
    "wait_for_ack env ''auth'' c1 = (Ok (), c2)"
    "client_write env (wire_of i (Ingest payload)) c2 = (Ok (), c3)" "wait_for_ack env i c3 = (Ok (), k)"
    unfolding send_ingest_def client_authenticate_def client_connect_def
    by (auto elim!: seq_OkE bind_OkE lift_OkE simp: ret_def throw_def split: if_splits)
  have "k_in c1 = map Data ds" using client_write_input [OF run(2)] by (simp add: client_start_def)
  then obtain m1 ms1 ds1 where one:
    "ms = m1 # ms1" "wm_body m1 = Ack" "wm_request_id m1 = ''auth''" "k_in c2 = map Data ds1" "[] \<notin> set ds1"
    "concat ds1 = concat (map (frame_bytes (cl_wire env)) ms1)"
    by (rule wait_for_ack_run [OF faithful pieces _ bytes run(3) encodes])
  have input: "k_in c3 = map Data ds1" using client_write_input [OF run(4)] one(4) by simp
  have "\<forall>m\<in>set ms1. \<exists>frame. encode_message (cl_wire env) m = Ok frame" using encodes one(1) by simp
  then obtain m2 ms2 ds2 where "ms1 = m2 # ms2" "wm_body m2 = Ack" "wm_request_id m2 = i" "k_in k = map Data ds2"
    "[] \<notin> set ds2" "concat ds2 = concat (map (frame_bytes (cl_wire env)) ms2)"
    by (rule wait_for_ack_run [OF faithful one(5) input one(6) run(5)])
  with one show ?thesis by blast
qed

text \<open>What the server does with the two frames of such a client.\<close>

lemma serve_single_ingest:
  assumes faithful: "wire_json_faithful (ce_wire env)" and frame: "encode_message (ce_wire env) (wire_of i (Ingest p)) = Ok frame"
    and start: "c_in c0 = map Data ds" "[] \<notin> set ds" "concat ds = frame" "c_turn c0 = 0" "c_enqueued c0 = []"
    and run: "serve_loop env c0 = (r, c)"
  shows "\<exists>out m. c_out c = c_out c0 @ out \<and> logs env (next_turn c0) m (if out = [] then Err IpcIo else Ok ()) out \<and>
    (wm_body m = Ack \<longrightarrow> out \<noteq> [] \<longrightarrow> (\<exists>n. c_enqueued c = [(1, n)] \<and> dl_host (t_delivery (ce_turn env 1)) = HostAccepted \<and>
       normalize_ingest (ce_sha env) (dl_uuid (t_delivery (ce_turn env 1))) p (dl_now_ms (t_delivery (ce_turn env 1))) = Ok n))"
proof -
  from read_frame_encoded [OF faithful frame start(2), of "[]"] start(3) obtain ds' where
    "read_frame (ce_wire env) (map Data ds) = (Ok (wire_of i (Ingest p)), map Data ds')" "[] \<notin> set ds'" "concat ds' = []"
    by auto
  then have read: "read_frame (ce_wire env) (map Data ds) = (Ok (wire_of i (Ingest p)), [])"
    using no_pieces by fastforce
  define c1 where "c1 = next_turn c0\<lparr>c_in := []\<rparr>"
  have cr: "conn_read env (next_turn c0) = (Ok (wire_of i (Ingest p)), c1)"
    using read start(1) by (simp add: conn_read_def zoom_def next_turn_def c1_def)
  have valid: "validate_wire_message (wire_of i (Ingest p)) = Ok ()" by (rule decode_encoded(2) [OF faithful frame])
  obtain r2 c2 where ans: "answer_ingest env i p c1 = (r2, c2)" by fastforce
  then have hf: "handle_frame env (wire_of i (Ingest p)) c1 = (r2, c2)"
    using valid by (simp add: handle_frame_def seq_def bind_def lift_def)
  from ans obtain enq out m where eff: "c2 = c1\<lparr>c_enqueued := c_enqueued c1 @ enq, c_out := c_out c1 @ out\<rparr>"
    "enq = [] \<or> (\<exists>n. enq = [(c_turn c1, n)] \<and>
       normalize_ingest (ce_sha env) (dl_uuid (t_delivery (ce_turn env (c_turn c1)))) p
          (dl_now_ms (t_delivery (ce_turn env (c_turn c1)))) = Ok n)"
    "logs env c1 m r2 out" "ingest_answer env (c_turn c1) i enq m" by (rule answer_ingest_run)
  have turn: "c_turn c1 = 1" "c_enqueued c1 = []" "c_out c1 = c_out c0" "c_in c1 = []"
    using start by (simp_all add: c1_def next_turn_def)
  have "c = c2 \<or> c = next_turn c2"
  proof (cases "r2 = Ok ()")
    case True
    then have "serve_loop env c2 = (r, c)" using run cr hf by (simp add: serve_loop.simps [of env c0])
    moreover have "conn_read env (next_turn c2) = (Err ConnectionClosed, next_turn c2)"
      using eff(1) turn(4) by (simp add: conn_read_def zoom_def next_turn_def read_frame_Nil)
    ultimately show ?thesis by (simp add: serve_loop.simps [of env c2])
  next
    case False
    then show ?thesis using run cr hf by (auto simp: serve_loop.simps [of env c0] split: outcome.splits)
  qed
  then have "c_out c = c_out c0 @ out" "c_enqueued c = enq"
    using eff(1) turn by (auto simp: next_turn_def)
  moreover have "logs env (next_turn c0) m (if out = [] then Err IpcIo else Ok ()) out"
    using eff(3) turn(1) start(4) by (auto simp: logs_def next_turn_def)
  moreover have "\<exists>n. enq = [(1, n)] \<and> dl_host (t_delivery (ce_turn env 1)) = HostAccepted \<and>
       normalize_ingest (ce_sha env) (dl_uuid (t_delivery (ce_turn env 1))) p (dl_now_ms (t_delivery (ce_turn env 1))) = Ok n"
    if "wm_body m = Ack"
    using eff(2,4) that by (auto simp: ingest_answer_def turn(1))
  ultimately show ?thesis by auto
qed

definition encodes :: "wire_env \<Rightarrow> wire_message \<Rightarrow> bool" where
  "encodes env m \<longleftrightarrow> (\<exists>frame. encode_message env m = Ok frame)"

lemma frame_bytes_encoding: "concat (map (frame_bytes env) (filter (encodes env) ms)) = concat (map (frame_bytes env) ms)"
  by (induction ms) (auto simp: encodes_def frame_bytes_def split: outcome.splits)

text \<open>
  (C37) End to end: when a hook's \<open>send_ingest\<close> returns \<open>Ok\<close> on the frames that a server wrote while it
  served exactly the hook's two frames, however the bytes were cut on both ways, then the event the
  payload normalises to reached the host once and the host accepted it.
\<close>

theorem send_ingest_reaches_host:
  assumes faithful: "wire_json_faithful W" and wires: "ce_wire se = W" "cl_wire ce = W"
    and token: "length (ce_expected_token se) = AUTH_TOKEN_BYTES"
    and auth: "encode_message W (wire_of ''auth'' (Auth t)) = Ok fa"
    and ingest: "encode_message W (wire_of i (Ingest p)) = Ok fi"
    and requests: "[] \<notin> set cs" "concat cs = fa @ fi"
    and server: "handle_connection se (open_conn (map Data cs)) = (r, c)"
    and responses: "[] \<notin> set ds" "concat ds = concat (map (\<lambda>(k, m). frame_bytes W m) (c_out c))"
    and client: "send_ingest ce i p (client_start (map Data ds)) = (Ok (), k)"
  shows "dl_host (t_delivery (ce_turn se 1)) = HostAccepted \<and>
    (\<exists>n. c_enqueued c = [(1, n)] \<and>
       normalize_ingest (ce_sha se) (dl_uuid (t_delivery (ce_turn se 1))) p (dl_now_ms (t_delivery (ce_turn se 1))) = Ok n)"
proof -
  define ms where "ms = filter (encodes W) (map snd (c_out c))"
  have bytes: "concat ds = concat (map (frame_bytes (cl_wire ce)) ms)"
    using responses(2) by (simp add: ms_def wires frame_bytes_encoding case_prod_beta' comp_def)
  have enc: "\<forall>m\<in>set ms. \<exists>frame. encode_message (cl_wire ce) m = Ok frame"
    by (simp add: ms_def wires encodes_def)
  have "wire_json_faithful (cl_wire ce)" using faithful wires by simp
  from send_ingest_acks [OF this responses(1) bytes enc client] obtain m1 m2 ms' where
    acks: "ms = m1 # m2 # ms'" "wm_body m1 = Ack" "wm_body m2 = Ack" by blast
  from token server show ?thesis
  proof (cases rule: handle_connection_run)
    case refused
    have "m1 \<in> set (map snd (c_out c))" using acks(1) by (metis ms_def filter_is_subset list.set_intros(1) subsetD)
    with refused(3) acks(2) show ?thesis by auto
  next
    case (served c0 m frame)
    from read_frame_encoded [OF faithful auth requests] wires served(8) obtain es where
      es: "c_in c0 = map Data es" "[] \<notin> set es" "concat es = fi" by auto
    from serve_single_ingest [OF _ _ es(1,2) _ served(7,4,3), of i p fi] faithful ingest wires es(3) obtain out x where
      out: "c_out c = c_out c0 @ out" "logs se (next_turn c0) x (if out = [] then Err IpcIo else Ok ()) out"
      "wm_body x = Ack \<longrightarrow> out \<noteq> [] \<longrightarrow> (\<exists>n. c_enqueued c = [(1, n)] \<and> dl_host (t_delivery (ce_turn se 1)) = HostAccepted \<and>
         normalize_ingest (ce_sha se) (dl_uuid (t_delivery (ce_turn se 1))) p (dl_now_ms (t_delivery (ce_turn se 1))) = Ok n)"
      by auto
    have "length ms \<le> length (c_out c)" by (simp add: ms_def le_trans [OF length_filter_le])
    then have "out \<noteq> []" using out(1) served(6) acks(1) by auto
    with out(2) have "out = [(c_turn (next_turn c0), x)]" by (simp add: logs_def)
    moreover from this out(1) served(6) acks(1) have "m2 = x"
      by (auto simp: ms_def split: if_splits)
    ultimately show ?thesis using out(3) acks(3) by blast
  qed
qed

section \<open>A concrete exchange\<close>

definition sample_client :: client_env where
  "sample_client = \<lparr>cl_wire = sample_wire, cl_b64 = ce_b64 sample_conn_env, cl_b64_encode = \<lambda>t. ''t'',
     cl_descriptor = descriptor_new (\<lambda>t. ''t'') 42 ''/run/ingest.sock'' (replicate 32 7) 0,
     cl_connect_ok = True, cl_write_ok = \<lambda>n. True\<rparr>"

lemma sample_wire_faithful: "wire_json_faithful sample_wire"
  by (auto simp: wire_json_faithful_def sample_wire_def sample_codec_def utf8_valid.simps byte_in_def Let_def split: if_splits)

definition sample_requests :: "string list" where
  "sample_requests = [u32_to_be_bytes 1 @ ''A'', u32_to_be_bytes 1 @ ''I'']"

definition sample_responses :: "string list" where
  "sample_responses = [u32_to_be_bytes 1 @ ''a'', u32_to_be_bytes 1 @ ''k'']"

definition sample_exchange :: conn where
  "sample_exchange = sample_conn [] 2 [(0, wire_of ''auth'' Ack), (1, wire_of ''r1'' Ack)]
     [(1, NormSessionEvent sample_event Codex None None)]"

lemma sample_requests_encoded:
  "encode_message sample_wire (wire_of ''auth'' (Auth ''t'')) = Ok (u32_to_be_bytes 1 @ ''A'')"
  "encode_message sample_wire (wire_of ''r1'' (Ingest sample_ingest)) = Ok (u32_to_be_bytes 1 @ ''I'')"
proof -
  have "wire_to_json sample_wire (wire_of ''auth'' (Auth ''t'')) = Some ''A''"
    "wire_to_json sample_wire (wire_of ''r1'' (Ingest sample_ingest)) = Some ''I''"
    by (simp_all add: sample_wire_def sample_codec_def wire_of_def)
  with decoded_valid [OF sample_decode(1)] decoded_valid [OF sample_decode(2)] show
    "encode_message sample_wire (wire_of ''auth'' (Auth ''t'')) = Ok (u32_to_be_bytes 1 @ ''A'')"
    "encode_message sample_wire (wire_of ''r1'' (Ingest sample_ingest)) = Ok (u32_to_be_bytes 1 @ ''I'')"
    by (simp_all add: encode_message_def MAX_FRAME_BYTES_def wrap_u32_def)
qed

text \<open>One piece per frame: what was encoded is read back piece by piece.\<close>

lemma read_whole_frame:
  assumes "wire_json_faithful env" "encode_message env m = Ok frame"
  shows "read_frame env (Data frame # map Data fs) = (Ok m, map Data fs)"
proof -
  from assms(2) obtain body where body: "length body \<le> MAX_FRAME_BYTES" "frame = u32_to_be_bytes (length body) @ body"
    by (auto simp: encode_message_def wrap_u32_def MAX_FRAME_BYTES_def split: outcome.splits option.splits if_splits)
  from body(1) have len: "u32_from_be_bytes (u32_to_be_bytes (length body)) = length body"
    by (intro be_bytes_round_trip) (simp add: MAX_FRAME_BYTES_def)
  show ?thesis
    using body len decode_encoded(1) [OF assms] length_be_bytes [of "length body"]
    by (cases "body = []")
      (auto simp: read_frame_def bind_def lift_def read_exact.simps Let_def simp del: length_be_bytes)
qed

lemmas sample_frames = read_whole_frame [OF sample_wire_faithful sample_requests_encoded(1)]
  read_whole_frame [OF sample_wire_faithful sample_requests_encoded(2)]
  read_whole_frame [OF sample_wire_faithful sample_writes(1)]
  read_whole_frame [OF sample_wire_faithful sample_writes(2)]

lemma sample_server_run: "handle_connection sample_conn_env (open_conn (map Data sample_requests)) = (Ok (), sample_exchange)"
proof -
  let ?f = "u32_to_be_bytes 1 @ ''I''" and ?c = sample_conn and ?ack = "(0, wire_of ''auth'' Ack)"
  let ?loop = "serve_loop sample_conn_env"
  have "?loop (?c [Data ?f] 0 [?ack] []) =
      ?loop (?c [] 1 [?ack, (1, wire_of ''r1'' Ack)] [(1, NormSessionEvent sample_event Codex None None)])"
    using sample_frames(2) [of "[]"] by (subst serve_loop.simps) (simp add: sample_turns)
  also have "\<dots> = (Ok (), sample_exchange)"
    by (subst serve_loop.simps) (simp add: sample_turns read_frame_Nil sample_exchange_def numeral_2_eq_2)
  finally have loop: "?loop (?c [Data ?f] 0 [?ack] []) = (Ok (), sample_exchange)" .
  have "open_conn (map Data sample_requests) = ?c (map Data sample_requests) 0 [] []"
    by (simp add: open_conn_def sample_conn_def)
  moreover have "read_frame sample_wire (map Data sample_requests) = (Ok (wire_of ''auth'' (Auth ''t'')), [Data ?f])"
    using sample_frames(1) [of "[?f]"] by (simp add: sample_requests_def)
  moreover have "ce_creds sample_conn_env = Ok \<lparr>pc_euid = Some 501, pc_pid = None\<rparr>"
    "verify_same_user_peer (ce_os sample_conn_env) (ce_host_uid sample_conn_env) \<lparr>pc_euid = Some 501, pc_pid = None\<rparr>
       (platform_default (ce_os sample_conn_env)) = Ok ()"
    by (simp_all add: sample_conn_env_def verify_same_user_peer_def)
  ultimately show ?thesis
    using loop by (simp add: handle_connection_def bind_def seq_def lift_def sample_turns)
qed

lemma sample_client_run:
  "send_ingest sample_client ''r1'' sample_ingest (client_start (map Data sample_responses)) =
     (Ok (), \<lparr>k_in = [], k_out = [wire_of ''auth'' (Auth ''t''), wire_of ''r1'' (Ingest sample_ingest)]\<rparr>)"
proof -
  let ?f = "u32_to_be_bytes (Suc 0) @ ''k''"
  have reads: "read_frame sample_wire (map Data sample_responses) = (Ok (wire_of ''auth'' Ack), [Data ?f])"
    "read_frame sample_wire [Data ?f] = (Ok (wire_of ''r1'' Ack), [])"
    using sample_frames(3) [of "[?f]"] sample_frames(4) [of "[]"] by (simp_all add: sample_responses_def)
  have env: "cl_wire sample_client = sample_wire" "cl_write_ok sample_client n" "cl_connect_ok sample_client"
    "decode_b64 (cl_b64 sample_client) (rd_token_b64 (cl_descriptor sample_client)) = Ok (replicate 32 7)"
    "cl_b64_encode sample_client t = ''t''" for n t
    by (simp_all add: sample_client_def decode_b64_def descriptor_new_def sample_conn_env_def AUTH_TOKEN_BYTES_def)
  have wr: "client_write sample_client m \<lparr>k_in = cs, k_out = out\<rparr> = (Ok (), \<lparr>k_in = cs, k_out = out @ [m]\<rparr>)"
    if "encode_message sample_wire m = Ok f" for m f cs out
    using that by (simp add: client_write_def env bind_def lift_def)
  have ack: "wait_for_ack sample_client i \<lparr>k_in = cs, k_out = out\<rparr> = (Ok (), \<lparr>k_in = rest, k_out = out\<rparr>)"
    if "read_frame sample_wire cs = (Ok (wire_of i Ack), rest)" for i cs rest out
    using that by (simp add: wait_for_ack_def bind_def client_read_run env ret_def)
  show ?thesis
    by (simp add: send_ingest_def client_authenticate_def client_connect_def seq_def bind_def lift_def ret_def env
        client_start_def wr [OF sample_requests_encoded(1)] wr [OF sample_requests_encoded(2)] ack [OF reads(1)] ack [OF reads(2)])
qed

theorem send_ingest_reaches_host_witness:
  "dl_host (t_delivery (ce_turn sample_conn_env 1)) = HostAccepted \<and> (\<exists>n. c_enqueued sample_exchange = [(1, n)])"
proof -
  have "concat sample_responses = concat (map (\<lambda>(k, m). frame_bytes sample_wire m) (c_out sample_exchange))"
    by (simp add: sample_responses_def sample_exchange_def sample_conn_def frame_bytes_def sample_writes)
  from send_ingest_reaches_host [where se = sample_conn_env and ce = sample_client and cs = sample_requests,
      OF sample_wire_faithful _ _ sample_token sample_requests_encoded _ _ sample_server_run _ this sample_client_run]
  show ?thesis by (auto simp: sample_conn_env_def sample_client_def sample_requests_def sample_responses_def)
qed

end
