(* ===== verification/Host_State.thy ===== *)
theory Host_State
  imports Core_Runs Metrics_Sampler Ipc_Server Decision_Broker
begin

text \<open>
  \<^verbatim>\<open>src-tauri/src/state.rs\<close>: the desktop host turns what the transport delivers into calls of the core
  and of the metrics engine. \<open>h_calls\<close> lists the core calls in the order they were made, \<open>h_traffic\<close>
  what was reported to the connectors. The process table and, for each core call, the clock readings of
  the host, of the core and of the flush inside it and the fresh id come from the environment. Errors
  keep their origin; their texts are not modelled. Tray and notification updates are not modelled.
\<close>

section \<open>State\<close>

record 'r host =
  h_core :: "'r app_core"
  h_metrics :: metrics_sampler
  h_calls :: "core_call list"
  h_traffic :: "(agent_source \<times> int) list"

record 'r host_env =
  he_repo :: "'r repository"
  he_core :: core_env
  he_now :: "nat \<Rightarrow> int"
  he_flush_now :: "nat \<Rightarrow> int"
  he_wall :: "nat \<Rightarrow> int"
  he_uuid :: "nat \<Rightarrow> nat"
  he_start_time :: "nat \<rightharpoonup> nat"

datatype host_error = CoreFailed core_error | MetricsFailed metrics_error | HostRejects string

type_synonym ('r, 'a) host_op = "('r host, host_error, 'a) op"

fun outcome_errors :: "('e \<Rightarrow> 'f) \<Rightarrow> ('e, 'a) outcome \<Rightarrow> ('f, 'a) outcome" where
  "outcome_errors f (Ok x) = Ok x"
| "outcome_errors f (Err e) = Err (f e)"
| "outcome_errors f (Panic p) = Panic p"

definition on_metrics :: "(metrics_sampler, metrics_error, 'a) op \<Rightarrow> ('r, 'a) host_op" where
  "on_metrics m h = (case m (h_metrics h) of (r, s) \<Rightarrow> (outcome_errors MetricsFailed r, h\<lparr>h_metrics := s\<rparr>))"

definition stop_metrics :: "string \<Rightarrow> ('r, unit) host_op" where
  "stop_metrics session_id = modify (\<lambda>h. h\<lparr>h_metrics := unregister_session session_id (h_metrics h)\<rparr>)"

text \<open>A core call, with the operation it stands for, and with the next readings of the environment.\<close>

definition on_core :: "core_call \<Rightarrow> ('r, 'a) core_op \<Rightarrow> ('r, 'a) host_op" where
  "on_core c m h =
     (case m (h_core h) of
        (r, a) \<Rightarrow> (outcome_errors CoreFailed r, h\<lparr>h_core := a, h_calls := h_calls h @ [c]\<rparr>))"

definition host_ingest :: "'r host_env \<Rightarrow> ingest_command \<Rightarrow> ('r, ingest_result) host_op" where
  "host_ingest env command =
     bind (gets (\<lambda>h. length (h_calls h))) (\<lambda>k.
       on_core (CallIngest (he_now env k) (he_uuid env k) command)
         (ingest (he_repo env) (he_core env) (he_now env k) (he_uuid env k) command))"

definition host_call :: "'r host_env \<Rightarrow> (int \<Rightarrow> int \<Rightarrow> core_call) \<Rightarrow> ('r, unit) host_op" where
  "host_call env call =
     bind (gets (\<lambda>h. length (h_calls h))) (\<lambda>k.
       let c = call (he_now env k) (he_flush_now env k) in on_core c (run_call (he_repo env) (he_core env) c))"

definition wall_clock :: "'r host_env \<Rightarrow> ('r, int) host_op" where
  "wall_clock env = gets (\<lambda>h. he_wall env (length (h_calls h)))"

definition host_sessions :: "'r host_env \<Rightarrow> 'r host \<Rightarrow> agent_session list" where
  "host_sessions env h = sn_sessions (sw_snapshot (snapshot_with_sequence (he_core env) 0 (h_core h)))"

definition host_adapters :: "'r host \<Rightarrow> adapter_capabilities list" where
  "host_adapters h = a_integrations (h_core h)"

section \<open>Adapters\<close>

definition builtin_adapter_capabilities :: "adapter_capabilities list" where
  "builtin_adapter_capabilities =
     map (\<lambda>source. if source \<in> {Cursor, ClaudeCode, Codex, Gemini}
            then capabilities_template source\<lparr>c_context_open := True, c_context_open_tier := AppActivate\<rparr>
            else capabilities_template source)
       [Cursor, ClaudeCode, Codex, Gemini, Qwen, AntigravityCli, CopilotCli, Generic]"

definition TEMPLATE_AVAILABLE :: string where
  "TEMPLATE_AVAILABLE = ''Template available; live connector health not yet verified''"

definition report_template :: "'r host_env \<Rightarrow> int \<Rightarrow> adapter_capabilities \<Rightarrow> ('r, unit) host_op" where
  "report_template env now capabilities =
     bind (host_ingest env (IntegrationHealth
         \<lparr>ih_capabilities = capabilities, ih_healthy = False, ih_message = Some TEMPLATE_AVAILABLE,
          ih_occurred_at_ms = now\<rparr>)) (\<lambda>_. ret ())"

definition register_builtin_adapters :: "'r host_env \<Rightarrow> ('r, unit) host_op" where
  "register_builtin_adapters env =
     bind (wall_clock env) (\<lambda>now. for_each (report_template env now) builtin_adapter_capabilities)"

fun attribution_for_source :: "agent_source \<Rightarrow> attribution_quality" where
  "attribution_for_source Cursor = Shared"
| "attribution_for_source ClaudeCode = Heuristic"
| "attribution_for_source Codex = Heuristic"
| "attribution_for_source Gemini = Heuristic"
| "attribution_for_source Qwen = Exact"
| "attribution_for_source AntigravityCli = Exact"
| "attribution_for_source CopilotCli = Exact"
| "attribution_for_source Generic = Exact"
| "attribution_for_source UnknownSource = UnknownAttribution"

definition set_adapter_attribution_with_snapshot ::
  "'r host_env \<Rightarrow> agent_source \<Rightarrow> attribution_quality \<Rightarrow> adapter_capabilities list \<Rightarrow> ('r, unit) host_op" where
  "set_adapter_attribution_with_snapshot env source attribution current =
     (case find (\<lambda>c. c_source c = source) builtin_adapter_capabilities of
        None \<Rightarrow> throw (HostRejects ''unsupported adapter source'')
      | Some builtin \<Rightarrow>
          let capabilities = builtin\<lparr>c_process_attribution := attribution\<rparr>
          in if find (\<lambda>c. c_source c = source) current = Some capabilities then ret ()
             else bind (wall_clock env) (\<lambda>now. report_template env now capabilities))"

definition set_adapter_attribution :: "'r host_env \<Rightarrow> agent_source \<Rightarrow> attribution_quality \<Rightarrow> ('r, unit) host_op" where
  "set_adapter_attribution env source attribution =
     bind (gets host_adapters) (\<lambda>current. set_adapter_attribution_with_snapshot env source attribution current)"

section \<open>Process roots\<close>

definition terminal_status :: "session_status \<Rightarrow> bool" where
  "terminal_status status \<longleftrightarrow> status \<in> {Completed, Failed, Stale}"

definition live_root :: "'r host_env \<Rightarrow> process_identity \<Rightarrow> process_identity option" where
  "live_root env proc = resolve_process_identity (he_start_time env) (pid proc)"

definition drop_root :: "'r host_env \<Rightarrow> string \<Rightarrow> ('r, unit) host_op" where
  "drop_root env session_id =
     seq (stop_metrics session_id) (host_call env (\<lambda>now flush_now. CallClearRoot now session_id))"

text \<open>One session of the reconciliation; \<open>valid\<close> collects the sessions whose root is alive.\<close>

definition reconcile_session ::
  "'r host_env \<Rightarrow> string list \<Rightarrow> agent_session \<Rightarrow> (agent_session \<times> attribution_quality) list \<Rightarrow>
   ('r, (agent_session \<times> attribution_quality) list) host_op" where
  "reconcile_session env registered session valid =
     (case s_process_root session of
        None \<Rightarrow> ret valid
      | Some proc \<Rightarrow>
          if terminal_status (s_status session) then seq (drop_root env (s_id session)) (ret valid)
          else (case live_root env proc of
              None \<Rightarrow> seq (drop_root env (s_id session)) (ret valid)
            | Some observed \<Rightarrow>
                if \<not> start_times_match (pid_started_at_ms proc) (pid_started_at_ms observed)
                then seq (drop_root env (s_id session)) (ret valid)
                else
                  let attribution = attribution_for_source (s_source session)
                  in if attribution = UnknownAttribution then ret valid
                     else
                       seq (if s_id session \<in> set registered then ret ()
                            else on_metrics (Metrics_Sampler.register_session (s_id session) observed attribution
                              (s_started_at_ms session)))
                         (ret (valid @ [(session, attribution)]))))"

fun reconcile_sessions ::
  "'r host_env \<Rightarrow> string list \<Rightarrow> agent_session list \<Rightarrow> (agent_session \<times> attribution_quality) list \<Rightarrow>
   ('r, (agent_session \<times> attribution_quality) list) host_op" where
  "reconcile_sessions env registered [] valid = ret valid"
| "reconcile_sessions env registered (session # sessions) valid =
     bind (reconcile_session env registered session valid) (reconcile_sessions env registered sessions)"

definition reconcile_adapter_attribution ::
  "'r host_env \<Rightarrow> (agent_source \<times> attribution_quality) list \<Rightarrow> ('r, unit) host_op" where
  "reconcile_adapter_attribution env valid_sources =
     bind (gets host_adapters) (\<lambda>adapters.
       for_each (\<lambda>capabilities.
         set_adapter_attribution_with_snapshot env (c_source capabilities)
           (case map_of valid_sources (c_source capabilities) of Some a \<Rightarrow> a | None \<Rightarrow> UnknownAttribution)
           adapters) builtin_adapter_capabilities)"

definition reconcile_metric_roots :: "'r host_env \<Rightarrow> ('r, unit) host_op" where
  "reconcile_metric_roots env =
     bind (gets (host_sessions env)) (\<lambda>sessions.
     bind (gets (\<lambda>h. registered_session_ids (h_metrics h))) (\<lambda>registered.
     bind (reconcile_sessions env registered sessions []) (\<lambda>valid.
       seq (for_each stop_metrics (filter (\<lambda>i. i \<notin> s_id ` fst ` set valid) registered))
         (reconcile_adapter_attribution env (map (\<lambda>(s, a). (s_source s, a)) valid)))))"

section \<open>Ingest\<close>

definition record_connector_traffic :: "agent_source \<Rightarrow> int \<Rightarrow> ('r, unit) host_op" where
  "record_connector_traffic source at_ms =
     (if source = UnknownSource then ret ()
      else modify (\<lambda>h. h\<lparr>h_traffic := h_traffic h @ [(source, at_ms)]\<rparr>))"

definition host_resolve_session ::
  "'r host_env \<Rightarrow> string \<Rightarrow> agent_source \<Rightarrow> string option \<Rightarrow> 'r host \<Rightarrow> agent_session option" where
  "host_resolve_session env session_id source external_session_id h =
     find (\<lambda>session. s_id session = session_id \<or>
         s_source session = source \<and>
           (s_external_session_id session = session_id \<or>
            external_session_id = Some (s_external_session_id session))) (host_sessions env h)"

definition event_command :: "session_event \<Rightarrow> agent_source \<Rightarrow> string \<Rightarrow> attention_kind option \<Rightarrow> ingest_command" where
  "event_command event source external_session_id att =
     (case (if e_kind event = KindAttention then att else None) of
        Some a \<Rightarrow> Attention
          \<lparr>at_source = source, at_external_session_id = external_session_id, at_attention = a,
           at_level = e_level event, at_summary = e_summary event, at_occurred_at_ms = e_occurred_at_ms event\<rparr>
      | None \<Rightarrow>
          (case e_kind event of
             KindTool \<Rightarrow> ToolEvent
               \<lparr>te_source = source, te_external_session_id = external_session_id, te_level = e_level event,
                te_summary = e_summary event, te_tool_name = e_tool_name event,
                te_occurred_at_ms = e_occurred_at_ms event\<rparr>
           | _ \<Rightarrow> LifecycleEvent
               \<lparr>le_source = source, le_external_session_id = external_session_id, le_level = e_level event,
                le_summary = e_summary event, le_occurred_at_ms = e_occurred_at_ms event\<rparr>))"

text \<open>The root an upsert brings, if it names the process that runs under that pid now.\<close>

definition validated_root ::
  "'r host_env \<Rightarrow> agent_session \<Rightarrow> (host_error, (process_identity \<times> attribution_quality) option) outcome" where
  "validated_root env incoming =
     (case (if terminal_status (s_status incoming) then None else s_process_root incoming) of
        None \<Rightarrow> Ok None
      | Some proc \<Rightarrow>
          (case live_root env proc of
             None \<Rightarrow> Err (HostRejects ''process root is not running'')
           | Some observed \<Rightarrow>
               if \<not> start_times_match (pid_started_at_ms proc) (pid_started_at_ms observed)
               then Err (HostRejects ''process root start time does not match the live process'')
               else
                 let attribution = attribution_for_source (s_source incoming)
                 in Ok (if attribution \<noteq> UnknownAttribution then Some (observed, attribution) else None)))"

definition host_session_end :: "'r host_env \<Rightarrow> agent_session \<Rightarrow> ('r, unit) host_op" where
  "host_session_end env incoming =
     bind (host_ingest env (SessionEnd
       \<lparr>se_source = s_source incoming, se_external_session_id = s_external_session_id incoming,
        se_status = s_status incoming, se_occurred_at_ms = s_last_event_at_ms incoming,
        se_summary = Some ''Session ended''\<rparr>)) (\<lambda>_. ret ())"

definition host_session_update ::
  "'r host_env \<Rightarrow> agent_session \<Rightarrow> session_status \<Rightarrow> string option \<Rightarrow> string option \<Rightarrow> ('r, unit) host_op" where
  "host_session_update env incoming status label workspace =
     bind (host_ingest env (SessionUpdate
       \<lparr>su_source = s_source incoming, su_external_session_id = s_external_session_id incoming,
        su_status = Some status, su_label = label, su_workspace_label = workspace,
        su_occurred_at_ms = s_last_event_at_ms incoming\<rparr>)) (\<lambda>_. ret ())"

definition start_status :: "session_status \<Rightarrow> session_status" where
  "start_status status = (if status \<in> {Starting, Running, Failed} then status else Running)"

definition upsert_start :: "'r host_env \<Rightarrow> agent_session \<Rightarrow> agent_session option \<Rightarrow> ('r, string) host_op" where
  "upsert_start env incoming existing =
     (case existing of
        Some session \<Rightarrow> ret (s_id session)
      | None \<Rightarrow>
          bind (host_ingest env (SessionStart
            \<lparr>st_idempotency_key = None, st_source = s_source incoming,
             st_external_session_id = s_external_session_id incoming, st_label = s_label incoming,
             st_workspace_label = s_workspace_label incoming, st_status = start_status (s_status incoming),
             st_occurred_at_ms = s_started_at_ms incoming\<rparr>)) (\<lambda>result.
            case ir_session_id result of
              None \<Rightarrow> throw (HostRejects ''core did not return a session id'')
            | Some i \<Rightarrow> ret i))"

definition upsert_status :: "'r host_env \<Rightarrow> agent_session \<Rightarrow> agent_session option \<Rightarrow> string \<Rightarrow> ('r, unit) host_op" where
  "upsert_status env incoming existing session_id =
     (case existing of
        Some session \<Rightarrow>
          if s_status incoming \<notin> {Completed, Failed}
          then host_session_update env incoming (s_status incoming) (Some (s_label incoming)) (s_workspace_label incoming)
          else if s_status session \<notin> {Completed, Failed}
          then seq (if s_status session = Starting then host_session_update env incoming Running None None else ret ())
            (seq (host_session_end env incoming) (stop_metrics session_id))
          else ret ()
      | None \<Rightarrow>
          if s_status incoming \<in> {Completed, Failed} then host_session_end env incoming
          else if s_status incoming \<in> {session_status.Waiting, Paused, Stale}
          then host_session_update env incoming (s_status incoming) None None
          else ret ())"

definition upsert_root ::
  "'r host_env \<Rightarrow> agent_session \<Rightarrow> (process_identity \<times> attribution_quality) option \<Rightarrow> string \<Rightarrow> ('r, unit) host_op" where
  "upsert_root env incoming proc session_id =
     (case proc of
        None \<Rightarrow> ret ()
      | Some (observed, attribution) \<Rightarrow>
          seq (set_adapter_attribution env (s_source incoming) attribution)
            (bind (host_ingest env (RegisterProcessRoot
               \<lparr>pr_source = s_source incoming, pr_external_session_id = s_external_session_id incoming,
                pr_process_root = observed, pr_occurred_at_ms = s_last_event_at_ms incoming\<rparr>)) (\<lambda>_.
              on_metrics (Metrics_Sampler.register_session session_id observed attribution (s_last_event_at_ms incoming)))))"

definition upsert_attention :: "'r host_env \<Rightarrow> agent_session \<Rightarrow> ('r, unit) host_op" where
  "upsert_attention env incoming =
     (if s_attention incoming = AttentionNone then ret ()
      else bind (host_ingest env (Attention
        \<lparr>at_source = s_source incoming, at_external_session_id = s_external_session_id incoming,
         at_attention = s_attention incoming,
         at_level = (if s_attention incoming = AttentionError then LevelError else LevelWarning),
         at_summary = ''Attention observed by local integration'',
         at_occurred_at_ms = s_last_event_at_ms incoming\<rparr>)) (\<lambda>_. ret ()))"

definition ingest_session_upsert :: "'r host_env \<Rightarrow> agent_session \<Rightarrow> ('r, unit) host_op" where
  "ingest_session_upsert env incoming =
     bind (gets (\<lambda>h. find (\<lambda>session. s_source session = s_source incoming \<and>
         s_external_session_id session = s_external_session_id incoming) (host_sessions env h))) (\<lambda>existing.
     bind (lift (validated_root env incoming)) (\<lambda>proc.
     bind (upsert_start env incoming existing) (\<lambda>session_id.
       seq (upsert_status env incoming existing session_id)
        (seq (upsert_root env incoming proc session_id)
         (seq (upsert_attention env incoming)
          (seq (case s_verified_terminal incoming of
               None \<Rightarrow> ret ()
             | Some terminal \<Rightarrow> host_call env (\<lambda>now flush_now. CallSetTerminal now session_id terminal))
           (seq (record_connector_traffic (s_source incoming) (s_last_event_at_ms incoming))
             (reconcile_metric_roots env))))))))"

definition ingest_normalized :: "'r host_env \<Rightarrow> normalized_ingest \<Rightarrow> ('r, unit) host_op" where
  "ingest_normalized env n =
     (case n of
        NormSessionUpsert session \<Rightarrow> ingest_session_upsert env session
      | NormSessionRemove session_id source external_session_id \<Rightarrow>
          bind (gets (host_resolve_session env session_id source external_session_id)) (\<lambda>found.
            case found of
              None \<Rightarrow> throw (HostRejects ''session not found for remove'')
            | Some resolved \<Rightarrow>
                seq (host_call env (\<lambda>now flush_now. CallRemove now (s_id resolved))) (stop_metrics (s_id resolved)))
      | NormSessionEvent event source external_session_id att \<Rightarrow>
          bind (gets (host_resolve_session env (e_session_id event) source external_session_id)) (\<lambda>found.
            case found of
              None \<Rightarrow> throw (HostRejects ''session not found for event'')
            | Some session \<Rightarrow>
                bind (host_ingest env (event_command event source (s_external_session_id session) att)) (\<lambda>_.
                  record_connector_traffic source (e_occurred_at_ms event))))"

text \<open>Relay events of a remote host.\<close>

record relay_session_event =
  rse_host_id :: string
  rse_source :: string
  rse_external_session_id :: string
  rse_kind :: "session_event_kind option"
  rse_summary :: string
  rse_attention :: "attention_kind option"
  rse_tool_name :: "string option"
  rse_occurred_at_ms :: int

definition parse_ipc_source :: "string \<Rightarrow> agent_source" where
  "parse_ipc_source raw =
     (if raw = ''cursor'' then Cursor
      else if raw = ''claudeCode'' then ClaudeCode
      else if raw = ''codex'' then Codex
      else if raw = ''gemini'' then Gemini
      else if raw \<in> {''antigravityCli'', ''antigravity-cli'', ''antigravity'', ''agy''} then AntigravityCli
      else if raw \<in> {''copilotCli'', ''copilot-cli'', ''copilot''} then CopilotCli
      else if raw \<in> {''qwen'', ''qwen-cli'', ''qwencode''} then Qwen
      else if raw = ''generic'' then Generic
      else UnknownSource)"

definition truncate_for_session_label :: "string \<Rightarrow> string" where
  "truncate_for_session_label summary =
     (if length summary \<le> MAX_SESSION_LABEL_LEN then summary else take_chars MAX_SESSION_LABEL_LEN summary)"

definition relay_event_level :: "attention_kind option \<Rightarrow> event_level" where
  "relay_event_level att =
     (if att = Some AttentionError then LevelError
      else if att = Some AttentionPermission \<or> att = Some AttentionApproval then LevelWarning
      else LevelInfo)"

definition ingest_relay_session_event :: "'r host_env \<Rightarrow> relay_session_event \<Rightarrow> ('r, unit) host_op" where
  "ingest_relay_session_event env event =
     (let source = parse_ipc_source (rse_source event); external = rse_external_session_id event
      in if source = UnknownSource then throw (HostRejects
           (''relay session event source `'' @ rse_source event @ ''` is not recognized''))
         else if external = [] then throw (HostRejects ''relay session event session id must not be empty'')
         else if rse_summary event = [] then throw (HostRejects ''relay session event summary must not be empty'')
         else
           bind (gets (host_resolve_session env external source (Some external))) (\<lambda>found.
             seq (if found \<noteq> None then ret ()
                  else bind (host_ingest env (SessionStart
                    \<lparr>st_idempotency_key = Some (''relay:'' @ rse_host_id event @ '':'' @ external),
                     st_source = source, st_external_session_id = external,
                     st_label = truncate_for_session_label (rse_summary event),
                     st_workspace_label = Some (''remote:'' @ rse_host_id event), st_status = Running,
                     st_occurred_at_ms = rse_occurred_at_ms event\<rparr>)) (\<lambda>_. ret ()))
               (bind (host_ingest env (event_command
                  \<lparr>e_id = 0, e_session_id = [], e_sequence = 0, e_occurred_at_ms = rse_occurred_at_ms event,
                   e_kind = (case rse_kind event of Some k \<Rightarrow> k | None \<Rightarrow> KindLifecycle),
                   e_level = relay_event_level (rse_attention event), e_summary = rse_summary event,
                   e_tool_name = rse_tool_name event\<rparr> source external (rse_attention event))) (\<lambda>_.
                 record_connector_traffic source (rse_occurred_at_ms event)))))"

section \<open>Sampling, maintenance and the other commands\<close>

definition count_sessions :: "(agent_session \<Rightarrow> bool) \<Rightarrow> agent_session list \<Rightarrow> nat" where
  "count_sessions p sessions = wrap_u32 (length (filter p sessions))"

text \<open>\<open>record_metrics\<close> is two core calls: the buckets before the lock, the rest under it.\<close>

definition on_tick :: "system_reading \<Rightarrow> int \<Rightarrow> ('r, metrics_frame option) host_op" where
  "on_tick reading at_ms h =
     (case sampler_tick reading at_ms (h_metrics h) of (f, s) \<Rightarrow> (Ok f, h\<lparr>h_metrics := s\<rparr>))"

definition host_sample_metrics :: "'r host_env \<Rightarrow> system_reading \<Rightarrow> int \<Rightarrow> ('r, unit) host_op" where
  "host_sample_metrics env reading at_ms =
     bind (gets (host_sessions env)) (\<lambda>sessions.
       seq (modify (\<lambda>h. h\<lparr>h_metrics := set_session_counts
              (count_sessions (\<lambda>s. \<not> terminal_status (s_status s)) sessions)
              (count_sessions (\<lambda>s. s_attention s \<noteq> AttentionNone) sessions) (h_metrics h)\<rparr>))
        (bind (on_tick reading at_ms) (\<lambda>frame.
          case frame of
            None \<Rightarrow> ret ()
          | Some f \<Rightarrow>
              seq (host_call env (\<lambda>now flush_now. CallRecordBuckets now f))
                (host_call env (\<lambda>now flush_now. CallApplyMetrics now flush_now f)))))"

definition host_acknowledge_attention :: "'r host_env \<Rightarrow> string \<Rightarrow> ('r, unit) host_op" where
  "host_acknowledge_attention env session_id =
     bind (wall_clock env) (\<lambda>now.
       bind (host_ingest env (AcknowledgeAttention \<lparr>ack_session_id = session_id, ack_occurred_at_ms = now\<rparr>)) (\<lambda>_. ret ()))"

definition host_update_settings :: "'r host_env \<Rightarrow> public_settings \<Rightarrow> ('r, public_settings) host_op" where
  "host_update_settings env settings =
     seq (host_call env (\<lambda>now flush_now. CallSaveSettings settings))
       (seq (host_call env (\<lambda>now flush_now. CallApplySettings now settings)) (ret settings))"

definition forget_histories :: "('r, unit) host_op" where
  "forget_histories = modify (\<lambda>h. h\<lparr>h_metrics := clear_history (h_metrics h)\<rparr>)"

definition host_purge_metric_history :: "'r host_env \<Rightarrow> ('r, nat) host_op" where
  "host_purge_metric_history env =
     seq forget_histories (on_core CallPurgeMetrics (core_purge_metric_history (he_repo env)))"

text \<open>The hourly retention pass.\<close>

definition host_purge_history :: "'r host_env \<Rightarrow> ('r, unit) host_op" where
  "host_purge_history env =
     bind (gets (\<lambda>h. he_now env (length (h_calls h)))) (\<lambda>now.
       bind (on_core (CallPrune now) (prune_repository (he_repo env) now)) (\<lambda>report.
         seq (host_call env (\<lambda>now flush_now. CallApplyPrune report))
           (if pr_metric_buckets_deleted report > 0 then forget_histories else ret ())))"

text \<open>
  Purging by scope; \<open>purge_connectors\<close> is the purge of the connector journal, which returns how many
  backups it removed.
\<close>

definition host_purge_scoped ::
  "'r host_env \<Rightarrow> (bool \<Rightarrow> (host_error, nat) outcome) \<Rightarrow> purge_scope \<Rightarrow> ('r, purge_result) host_op" where
  "host_purge_scoped env purge_connectors scope =
     bind (if sc_history scope then on_core CallPurgeMetrics (core_purge_metric_history (he_repo env)) else ret 0) (\<lambda>rows.
     bind (if sc_session_events scope then on_core CallPurgeEvents (core_purge_session_events (he_repo env)) else ret 0) (\<lambda>events.
       seq (if sc_history scope then forget_histories else ret ())
        (bind (if sc_connector_journal scope then lift (purge_connectors (sc_include_backups scope)) else ret 0) (\<lambda>backups.
          ret \<lparr>pu_history_rows_removed = rows, pu_events_removed = events, pu_backups_removed = backups,
               pu_active_connectors_disconnected = 0\<rparr>))))"

section \<open>The background tasks\<close>

definition STREAM_HEARTBEAT_INTERVAL_MS :: nat where
  "STREAM_HEARTBEAT_INTERVAL_MS = 5000"

text \<open>\<open>run_metrics\<close>: one firing of its timer. An error of a part is logged and the rest goes on.\<close>

record metrics_clock =
  mc_last_sample_ms :: int
  mc_last_heartbeat_ms :: int
  mc_last_prune_ms :: int

definition attempt :: "('r, 'a) host_op \<Rightarrow> 'r host \<Rightarrow> 'r host" where
  "attempt m h = snd (m h)"

definition maintenance :: "'r host_env \<Rightarrow> bool \<Rightarrow> bool \<Rightarrow> 'r host \<Rightarrow> 'r host" where
  "maintenance env should_prune paused h =
     (let h1 = attempt (host_call env CallTick) h;
          h2 = attempt (reconcile_metric_roots env) h1;
          h3 = (if should_prune then attempt (host_purge_history env) h2 else h2)
      in if paused then attempt (host_call env (\<lambda>now flush_now. CallHeartbeat now)) h3 else h3)"

definition run_metrics_tick ::
  "'r host_env \<Rightarrow> int \<Rightarrow> bool \<Rightarrow> system_reading \<Rightarrow> metrics_clock \<Rightarrow> 'r host \<Rightarrow> metrics_clock \<times> 'r host" where
  "run_metrics_tick env now_ms paused reading mc h =
     (let sampling_interval = int (max (ps_sampling_interval_ms (a_settings (h_core h))) 250);
          should_sample = (\<not> paused \<and> i64_saturating_sub now_ms (mc_last_sample_ms mc) \<ge> sampling_interval);
          mc1 = (if should_sample then mc\<lparr>mc_last_sample_ms := now_ms\<rparr> else mc);
          h1 = (if should_sample then attempt (host_sample_metrics env reading now_ms) h else h)
      in if i64_saturating_sub now_ms (mc_last_heartbeat_ms mc1) \<ge> int STREAM_HEARTBEAT_INTERVAL_MS
         then
           let should_prune = (i64_saturating_sub now_ms (mc_last_prune_ms mc1) \<ge> 60 * 60 * 1000)
           in (mc1\<lparr>mc_last_heartbeat_ms := now_ms,
                    mc_last_prune_ms := (if should_prune then now_ms else mc_last_prune_ms mc1)\<rparr>,
               maintenance env should_prune paused h1)
         else (mc1, h1))"

text \<open>
  \<open>run_ipc\<close>: a delivered payload is ingested and the result is the verdict the connection waits for.
  A panic of the ingest is caught by the task and counts as a rejection.
\<close>

definition ingest_verdict :: "('e \<Rightarrow> string) \<Rightarrow> ('e, 'a) outcome \<Rightarrow> host_answer" where
  "ingest_verdict error_text r =
     (case r of Ok u \<Rightarrow> HostAccepted | Err e \<Rightarrow> HostRejected (error_text e)
      | Panic p \<Rightarrow> HostRejected (''normalized ingest task failed: '' @ p))"

definition run_ipc_pending ::
  "'r host_env \<Rightarrow> (host_error \<Rightarrow> string) \<Rightarrow> normalized_ingest \<Rightarrow> 'r host \<Rightarrow> host_answer \<times> 'r host" where
  "run_ipc_pending env error_text n h =
     (case ingest_normalized env n h of (r, h') \<Rightarrow> (ingest_verdict error_text r, h'))"

definition parse_ipc_decision_kind :: "string \<Rightarrow> decision_kind" where
  "parse_ipc_decision_kind raw =
     (if raw = ''approval'' then DecisionApproval
      else if raw = ''question'' then DecisionQuestion
      else DecisionPermission)"

text \<open>A decision request for the broker; \<open>from_str\<close> is \<open>serde_json::from_str\<close>.\<close>

definition convert_ipc_payload :: "(string \<Rightarrow> json option) \<Rightarrow> string \<Rightarrow> decision_wait_wire \<Rightarrow> wait_payload" where
  "convert_ipc_payload from_str nonce w =
     \<lparr>wp_nonce = nonce,
      wp_source = parse_ipc_source (dw_source w),
      wp_vendor_event = dw_vendor_event w,
      wp_external_session_id = dw_external_session_id w,
      wp_session_id = dw_session_id w,
      wp_decision_kind = parse_ipc_decision_kind (dw_decision_kind w),
      wp_summary = dw_summary w,
      wp_has_actionable_payload = dw_has_actionable_payload w,
      wp_respondable_hook = dw_respondable_hook w,
      wp_tool_name = dw_tool_name w,
      wp_connection_id = dw_connection_id w,
      wp_vendor_context = Option.bind (dw_vendor_context_json w) from_str,
      wp_created_at_ms = dw_created_at_ms w\<rparr>"

fun delivery_state_wire :: "delivery_state \<Rightarrow> string" where
  "delivery_state_wire DPending = ''pending''"
| "delivery_state_wire DDelivered = ''delivered''"
| "delivery_state_wire DEffectObserved = ''effectObserved''"
| "delivery_state_wire DExpired = ''expired''"
| "delivery_state_wire DFailed = ''failed''"

end
