(* ===== verification/Host_Runs.thy ===== *)
theory Host_Runs
  imports Host_State Sample_Run
begin

text \<open>
  The desktop host as a client of the core and of the metrics engine: it changes the core only through
  the public calls it has logged and the engine only through its calls, so what holds of every run of
  either holds inside the host. Then what reconciliation leaves registered, and what an accepted event
  leaves behind.
\<close>

section \<open>The host replays its log\<close>

definition replay :: "'r host_env \<Rightarrow> core_call list \<Rightarrow> 'r app_core \<Rightarrow> 'r app_core" where
  "replay env = fold (\<lambda>c a. snd (run_call (he_repo env) (he_core env) c a))"

definition follows :: "'r host_env \<Rightarrow> 'r host \<Rightarrow> 'r host \<Rightarrow> bool" where
  "follows env h0 h \<longleftrightarrow>
     (\<exists>cs ms. h_calls h = h_calls h0 @ cs \<and> h_core h = replay env cs (h_core h0) \<and>
        h_metrics h = fold run_sampler ms (h_metrics h0))"

lemma follows_refl: "follows env h h"
  by (auto simp: follows_def replay_def intro!: exI [of _ "[]"])

lemma follows_core:
  assumes "follows env h0 h" and "a = snd (run_call (he_repo env) (he_core env) c (h_core h))"
  shows "follows env h0 (h\<lparr>h_core := a, h_calls := h_calls h @ [c]\<rparr>)"
proof -
  from assms(1) obtain cs ms where "h_calls h = h_calls h0 @ cs" "h_core h = replay env cs (h_core h0)"
    "h_metrics h = fold run_sampler ms (h_metrics h0)" by (auto simp: follows_def)
  with assms(2) show ?thesis
    unfolding follows_def by (intro exI [of _ "cs @ [c]"] exI [of _ ms]) (simp add: replay_def)
qed

lemma follows_metrics:
  assumes "follows env h0 h" and "s = run_sampler c (h_metrics h)"
  shows "follows env h0 (h\<lparr>h_metrics := s\<rparr>)"
proof -
  from assms(1) obtain cs ms where "h_calls h = h_calls h0 @ cs" "h_core h = replay env cs (h_core h0)"
    "h_metrics h = fold run_sampler ms (h_metrics h0)" by (auto simp: follows_def)
  with assms(2) show ?thesis
    unfolding follows_def by (intro exI [of _ cs] exI [of _ "ms @ [c]"]) simp
qed

lemma snd_discard [simp]: "snd (discard m a) = snd (m a)"
  by (simp add: discard_def bind_def ret_def split: prod.splits outcome.splits)

lemma keeps_on_core:
  assumes "\<And>a. snd (run_call (he_repo env) (he_core env) c a) = snd (m a)"
  shows "keeps (follows env h0) (on_core c m)"
  by (rule keepsI) (auto simp: on_core_def assms intro!: follows_core split: prod.splits)

lemma keeps_host_ingest [keeps_intros]: "keeps (follows env h0) (host_ingest env c)"
  unfolding host_ingest_def by (intro keeps_intros keeps_on_core) simp

lemma keeps_host_call [keeps_intros]: "keeps (follows env h0) (host_call env c)"
  unfolding host_call_def Let_def by (intro keeps_intros keeps_on_core) simp

lemma keeps_purge [keeps_intros]:
  "keeps (follows env h0) (on_core CallPurgeMetrics (core_purge_metric_history (he_repo env)))"
  "keeps (follows env h0) (on_core CallPurgeEvents (core_purge_session_events (he_repo env)))"
  "keeps (follows env h0) (on_core (CallPrune now) (prune_repository (he_repo env) now))"
  by (intro keeps_on_core; simp)+

lemma keeps_on_register [keeps_intros]:
  "keeps (follows env h0) (on_metrics (Metrics_Sampler.register_session i r q t))"
  by (rule keepsI)
    (auto simp: on_metrics_def intro!: follows_metrics [where c = "CallRegister i r q t"] split: prod.splits)

lemma keeps_on_tick [keeps_intros]: "keeps (follows env h0) (on_tick reading t)"
  by (rule keepsI)
    (auto simp: on_tick_def intro!: follows_metrics [where c = "CallSamplerTick reading t"] split: prod.splits)

lemma keeps_stop_metrics [keeps_intros]: "keeps (follows env h0) (stop_metrics i)"
  unfolding stop_metrics_def
  by (rule keeps_modify) (auto intro!: follows_metrics [where c = "CallUnregister i"])

lemma keeps_forget_histories [keeps_intros]: "keeps (follows env h0) forget_histories"
  unfolding forget_histories_def
  by (rule keeps_modify) (auto intro!: follows_metrics [where c = CallClearHistory])

lemma keeps_set_counts [keeps_intros]:
  "keeps (follows env h0) (modify (\<lambda>h. h\<lparr>h_metrics := set_session_counts n m (h_metrics h)\<rparr>))"
  by (rule keeps_modify) (auto intro!: follows_metrics [where c = "CallSetCounts n m"])

lemma keeps_traffic [keeps_intros]: "keeps (follows env h0) (record_connector_traffic source t)"
  unfolding record_connector_traffic_def by (intro keeps_intros keeps_modify) (simp_all add: follows_def)

lemma keeps_wall_clock [keeps_intros]: "keeps P (wall_clock env)"
  unfolding wall_clock_def by (rule keeps_gets)

lemma keeps_report_template [keeps_intros]: "keeps (follows env h0) (report_template env now c)"
  unfolding report_template_def by (intro keeps_intros)

lemma keeps_register_builtin [keeps_intros]: "keeps (follows env h0) (register_builtin_adapters env)"
  unfolding register_builtin_adapters_def by (intro keeps_intros)

lemma keeps_set_attribution [keeps_intros]:
  "keeps (follows env h0) (set_adapter_attribution_with_snapshot env source q current)"
  "keeps (follows env h0) (set_adapter_attribution env source q)"
  unfolding set_adapter_attribution_def set_adapter_attribution_with_snapshot_def Let_def
  by (intro keeps_intros)+

lemma keeps_drop_root [keeps_intros]: "keeps (follows env h0) (drop_root env i)"
  unfolding drop_root_def by (intro keeps_intros)

lemma keeps_reconcile_session [keeps_intros]: "keeps (follows env h0) (reconcile_session env reg s valid)"
  unfolding reconcile_session_def Let_def by (intro keeps_intros)

lemma keeps_reconcile_sessions [keeps_intros]: "keeps (follows env h0) (reconcile_sessions env reg ss valid)"
  by (induction ss arbitrary: valid) (simp_all add: keeps_intros)

lemma keeps_reconcile [keeps_intros]: "keeps (follows env h0) (reconcile_metric_roots env)"
  unfolding reconcile_metric_roots_def reconcile_adapter_attribution_def by (intro keeps_intros)

lemma keeps_session_end [keeps_intros]: "keeps (follows env h0) (host_session_end env s)"
  unfolding host_session_end_def by (intro keeps_intros)

lemma keeps_session_update [keeps_intros]: "keeps (follows env h0) (host_session_update env s st l w)"
  unfolding host_session_update_def by (intro keeps_intros)

lemma keeps_upsert [keeps_intros]: "keeps (follows env h0) (ingest_session_upsert env s)"
  unfolding ingest_session_upsert_def upsert_start_def upsert_status_def upsert_root_def
    upsert_attention_def case_prod_beta
  by (intro keeps_intros)

lemma keeps_ingest_normalized [keeps_intros]: "keeps (follows env h0) (ingest_normalized env n)"
  by (cases n) (auto simp: ingest_normalized_def intro!: keeps_intros)

lemma keeps_relay [keeps_intros]: "keeps (follows env h0) (ingest_relay_session_event env e)"
  unfolding ingest_relay_session_event_def Let_def by (intro keeps_intros)

lemma keeps_sample [keeps_intros]: "keeps (follows env h0) (host_sample_metrics env reading t)"
  unfolding host_sample_metrics_def by (intro keeps_intros)

lemma keeps_commands [keeps_intros]:
  "keeps (follows env h0) (host_acknowledge_attention env i)"
  "keeps (follows env h0) (host_update_settings env ps)"
  "keeps (follows env h0) (host_purge_metric_history env)"
  "keeps (follows env h0) (host_purge_history env)"
  "keeps (follows env h0) (host_purge_scoped env pc scope)"
  unfolding host_acknowledge_attention_def host_update_settings_def host_purge_metric_history_def
    host_purge_history_def host_purge_scoped_def
  by (intro keeps_intros)+

lemma follows_attempt: "keeps (follows env h0) m \<Longrightarrow> follows env h0 h \<Longrightarrow> follows env h0 (attempt m h)"
  by (simp add: attempt_def keeps_def)

lemma follows_maintenance: "follows env h0 h \<Longrightarrow> follows env h0 (maintenance env p paused h)"
  unfolding maintenance_def Let_def by (auto intro!: follows_attempt keeps_intros)

lemma follows_run_metrics_tick:
  "follows env h0 h \<Longrightarrow> follows env h0 (snd (run_metrics_tick env now paused reading mc h))"
  unfolding run_metrics_tick_def Let_def by (auto intro!: follows_maintenance follows_attempt keeps_intros)

section \<open>Runs of the host\<close>

text \<open>What can reach the host, in any order; each is one handler, run to its end.\<close>

datatype host_action =
    RegisterAdapters
  | Reconcile
  | Deliver normalized_ingest
  | Relay relay_session_event
  | MetricsTimer int bool system_reading
  | AcknowledgeCommand string
  | SettingsCommand public_settings
  | PurgeHistoryCommand
  | PurgeScopedCommand "bool \<Rightarrow> (host_error, nat) outcome" purge_scope

fun run_action :: "'r host_env \<Rightarrow> host_action \<Rightarrow> metrics_clock \<times> 'r host \<Rightarrow> metrics_clock \<times> 'r host" where
  "run_action env RegisterAdapters (mc, h) = (mc, attempt (register_builtin_adapters env) h)"
| "run_action env Reconcile (mc, h) = (mc, attempt (reconcile_metric_roots env) h)"
| "run_action env (Deliver n) (mc, h) = (mc, attempt (ingest_normalized env n) h)"
| "run_action env (Relay e) (mc, h) = (mc, attempt (ingest_relay_session_event env e) h)"
| "run_action env (MetricsTimer now paused reading) (mc, h) = run_metrics_tick env now paused reading mc h"
| "run_action env (AcknowledgeCommand i) (mc, h) = (mc, attempt (host_acknowledge_attention env i) h)"
| "run_action env (SettingsCommand ps) (mc, h) = (mc, attempt (host_update_settings env ps) h)"
| "run_action env PurgeHistoryCommand (mc, h) = (mc, attempt (host_purge_metric_history env) h)"
| "run_action env (PurgeScopedCommand pc scope) (mc, h) = (mc, attempt (host_purge_scoped env pc scope) h)"

lemma follows_action: "follows env h0 (snd x) \<Longrightarrow> follows env h0 (snd (run_action env action x))"
  by (cases x; cases action) (auto intro!: follows_attempt keeps_intros follows_run_metrics_tick)

lemma follows_actions: "follows env h0 (snd x) \<Longrightarrow> follows env h0 (snd (fold (run_action env) actions x))"
  by (induction actions arbitrary: x) (simp_all add: follows_action)

text \<open>The one condition on the calls of a run: a session to be started has an id of its own.\<close>

primrec admissible_calls :: "'r host_env \<Rightarrow> core_call list \<Rightarrow> 'r app_core \<Rightarrow> bool" where
  "admissible_calls env [] a \<longleftrightarrow> True"
| "admissible_calls env (c # cs) a \<longleftrightarrow> call_admissible (\<lambda>_. True) (he_core env) c a \<and>
     admissible_calls env cs (snd (run_call (he_repo env) (he_core env) c a))"

lemma replay_is_run:
  assumes "core_run (\<lambda>_. True) (he_repo env) (he_core env) a b" and "admissible_calls env cs b"
  shows "core_run (\<lambda>_. True) (he_repo env) (he_core env) a (replay env cs b)"
  using assms
proof (induction cs arbitrary: b)
  case (Cons c cs)
  then show ?case
    using core_run.call [of "\<lambda>_. True" "he_repo env" "he_core env" a b c "fst (run_call (he_repo env) (he_core env) c b)"
        "snd (run_call (he_repo env) (he_core env) c b)"]
    by (simp add: replay_def)
qed (simp add: replay_def)


section \<open>Reconciliation\<close>

definition has_valid_root :: "'r host_env \<Rightarrow> agent_session \<Rightarrow> bool" where
  "has_valid_root env s \<longleftrightarrow>
     \<not> terminal_status (s_status s) \<and> attribution_for_source (s_source s) \<noteq> UnknownAttribution \<and>
     (case s_process_root s of
        None \<Rightarrow> False
      | Some proc \<Rightarrow>
          (case live_root env proc of
             None \<Rightarrow> False
           | Some observed \<Rightarrow> start_times_match (pid_started_at_ms proc) (pid_started_at_ms observed)))"

abbreviation registered_ids :: "'r host \<Rightarrow> string set" where
  "registered_ids h \<equiv> set (registered_session_ids (h_metrics h))"

lemma register_Ok_ids:
  "Metrics_Sampler.register_session i r q t s = (Ok (), s') \<Longrightarrow>
   set (registered_session_ids s') = insert i (set (registered_session_ids s))"
  by (auto simp: register_session_run Let_def registered_session_ids_def unregister_session_def split: if_splits)

lemma stop_metrics_run: "stop_metrics i h = (Ok (), h\<lparr>h_metrics := unregister_session i (h_metrics h)\<rparr>)"
  by (simp add: stop_metrics_def modify_def)

lemma on_core_metrics: "h_metrics (snd (on_core c m h)) = h_metrics h"
  by (simp add: on_core_def split: prod.splits)

lemma host_call_metrics: "h_metrics (snd (host_call env c h)) = h_metrics h"
  by (simp add: host_call_def bind_def gets_def Let_def on_core_metrics)

lemma keeps_core_only:
  "keeps (\<lambda>h. h_metrics h = s) (host_ingest env c)"
  unfolding host_ingest_def by (rule keepsI) (simp add: bind_def gets_def on_core_metrics)

lemma drop_root_ids: "drop_root env i h = (Ok (), h') \<Longrightarrow> registered_ids h' = registered_ids h - {i}"
proof -
  assume "drop_root env i h = (Ok (), h')"
  then obtain h1 where "stop_metrics i h = (Ok (), h1)" and run: "host_call env (\<lambda>now flush_now. CallClearRoot now i) h1 = (Ok (), h')"
    unfolding drop_root_def by (rule seq_OkE)
  moreover have "h_metrics h' = h_metrics h1"
    using host_call_metrics [of env "\<lambda>now flush_now. CallClearRoot now i" h1] run by simp
  ultimately show ?thesis by (auto simp: stop_metrics_run unregister_ids)
qed

lemma on_metrics_Ok: "on_metrics m h = (Ok x, h') \<Longrightarrow> \<exists>s. m (h_metrics h) = (Ok x, s) \<and> h' = h\<lparr>h_metrics := s\<rparr>"
proof -
  assume run: "on_metrics m h = (Ok x, h')"
  obtain r s where "m (h_metrics h) = (r, s)" by fastforce
  with run show ?thesis by (cases r) (auto simp: on_metrics_def)
qed

text \<open>The session's root is known to be gone: the process ended, or its pid was reused.\<close>

definition lost_root :: "'r host_env \<Rightarrow> agent_session \<Rightarrow> bool" where
  "lost_root env s \<longleftrightarrow>
     (case s_process_root s of
        None \<Rightarrow> False
      | Some proc \<Rightarrow> terminal_status (s_status s) \<or>
          (case live_root env proc of
             None \<Rightarrow> True
           | Some observed \<Rightarrow> \<not> start_times_match (pid_started_at_ms proc) (pid_started_at_ms observed)))"

lemma valid_root_not_lost: "has_valid_root env s \<Longrightarrow> \<not> lost_root env s"
  by (auto simp: has_valid_root_def lost_root_def split: option.splits)

lemma reconcile_session_cases:
  "reconcile_session env reg s valid =
     (if lost_root env s then seq (drop_root env (s_id s)) (ret valid)
      else if has_valid_root env s
      then seq (if s_id s \<in> set reg then ret ()
                else on_metrics (Metrics_Sampler.register_session (s_id s)
                  (the (live_root env (the (s_process_root s)))) (attribution_for_source (s_source s)) (s_started_at_ms s)))
             (ret (valid @ [(s, attribution_for_source (s_source s))]))
      else ret valid)"
  by (simp add: reconcile_session_def lost_root_def has_valid_root_def Let_def split: option.splits)

lemma reconcile_session_Ok:
  assumes "reconcile_session env reg s valid h = (Ok valid', h')"
  shows "valid' = valid @ (if has_valid_root env s then [(s, attribution_for_source (s_source s))] else []) \<and>
    registered_ids h' \<subseteq> registered_ids h \<union> (if has_valid_root env s then {s_id s} else {}) \<and>
    registered_ids h - {s_id s} \<subseteq> registered_ids h' \<and>
    (has_valid_root env s \<longrightarrow> s_id s \<in> registered_ids h' \<or> s_id s \<in> set reg - registered_ids h)"
proof (cases "lost_root env s")
  case True
  with assms have "seq (drop_root env (s_id s)) (ret valid) h = (Ok valid', h')"
    by (simp add: reconcile_session_cases)
  then obtain "drop_root env (s_id s) h = (Ok (), h')" "valid' = valid"
    by (auto simp: ret_def elim: seq_OkE)
  with True show ?thesis using valid_root_not_lost [of env s] by (auto dest: drop_root_ids)
next
  case False
  show ?thesis
  proof (cases "has_valid_root env s \<and> s_id s \<notin> set reg")
    case True
    let ?reg = "Metrics_Sampler.register_session (s_id s) (the (live_root env (the (s_process_root s))))
      (attribution_for_source (s_source s)) (s_started_at_ms s)"
    from True assms False
    have "seq (on_metrics ?reg) (ret (valid @ [(s, attribution_for_source (s_source s))])) h = (Ok valid', h')"
      by (simp add: reconcile_session_cases)
    then have run: "on_metrics ?reg h = (Ok (), h')" and "valid' = valid @ [(s, attribution_for_source (s_source s))]"
      by (elim seq_OkE; simp add: ret_def)+
    moreover from on_metrics_Ok [OF run] have "registered_ids h' = insert (s_id s) (registered_ids h)"
      using register_Ok_ids by force
    ultimately show ?thesis using True by auto
  next
    case no_registration: False
    with assms False have "h' = h" "valid' = valid @ (if has_valid_root env s then [(s, attribution_for_source (s_source s))] else [])"
      by (auto simp: reconcile_session_cases ret_def seq_def bind_def split: if_splits)
    with no_registration show ?thesis by auto
  qed
qed

lemma reconcile_sessions_Ok:
  assumes "reconcile_sessions env reg ss valid h = (Ok valid', h')" and "distinct (map s_id ss)"
    and "set reg \<inter> s_id ` set ss \<subseteq> registered_ids h"
  shows "valid' = valid @ map (\<lambda>s. (s, attribution_for_source (s_source s))) (filter (has_valid_root env) ss) \<and>
    registered_ids h' \<subseteq> registered_ids h \<union> s_id ` {s \<in> set ss. has_valid_root env s} \<and>
    registered_ids h - s_id ` set ss \<subseteq> registered_ids h' \<and>
    s_id ` {s \<in> set ss. has_valid_root env s} \<subseteq> registered_ids h'"
  using assms
proof (induction ss arbitrary: valid h)
  case Nil
  then show ?case by (simp add: ret_def)
next
  case (Cons s ss)
  from Cons.prems(1) obtain v h1 where first: "reconcile_session env reg s valid h = (Ok v, h1)"
    and rest: "reconcile_sessions env reg ss v h1 = (Ok valid', h')"
    unfolding reconcile_sessions.simps by (elim bind_OkE) (rule that)
  note step = reconcile_session_Ok [OF first, THEN conjunct1] reconcile_session_Ok [OF first, THEN conjunct2]
  let ?V = "s_id ` {s \<in> set ss. has_valid_root env s}"
  have new: "s_id s \<notin> s_id ` set ss" using Cons.prems(2) by simp
  have kept: "set reg \<inter> s_id ` set ss \<subseteq> registered_ids h1"
  proof
    fix i assume i: "i \<in> set reg \<inter> s_id ` set ss"
    with new have "i \<noteq> s_id s" by (metis IntD2)
    moreover from i Cons.prems(3) have "i \<in> registered_ids h" by (simp only: list.set image_insert) blast
    ultimately have "i \<in> registered_ids h - {s_id s}" by simp
    with step(2) show "i \<in> registered_ids h1" by blast
  qed
  from Cons.prems(2) have "distinct (map s_id ss)" by simp
  from Cons.IH [OF rest this kept]
  have valid': "valid' = v @ map (\<lambda>s. (s, attribution_for_source (s_source s))) (filter (has_valid_root env) ss)"
    and ids: "registered_ids h' \<subseteq> registered_ids h1 \<union> ?V" "registered_ids h1 - s_id ` set ss \<subseteq> registered_ids h'"
      "?V \<subseteq> registered_ids h'" by blast+
  have V: "s_id ` {t \<in> set (s # ss). has_valid_root env t} = (if has_valid_root env s then {s_id s} else {}) \<union> ?V"
    by auto
  have self: "s_id s \<in> registered_ids h'" if "has_valid_root env s"
  proof -
    from that step(2) have "s_id s \<in> registered_ids h1 \<or> s_id s \<in> set reg - registered_ids h" by blast
    with Cons.prems(3) have "s_id s \<in> registered_ids h1" by auto
    with ids(2) new show ?thesis by blast
  qed
  show ?case
    unfolding V
  proof (intro conjI)
    show "valid' = valid @ map (\<lambda>s. (s, attribution_for_source (s_source s))) (filter (has_valid_root env) (s # ss))"
      using valid' step(1) by simp
    show "registered_ids h' \<subseteq> registered_ids h \<union> ((if has_valid_root env s then {s_id s} else {}) \<union> ?V)"
      using ids(1) step(2) by blast
    show "registered_ids h - s_id ` set (s # ss) \<subseteq> registered_ids h'"
      using ids(2) step(2) by (simp only: list.set image_insert) blast
    show "(if has_valid_root env s then {s_id s} else {}) \<union> ?V \<subseteq> registered_ids h'"
      using ids(3) self by simp
  qed
qed

lemma stop_all:
  "for_each stop_metrics is h = (r, h') \<Longrightarrow> r = Ok () \<and> registered_ids h' = registered_ids h - set is"
proof (induction "is" arbitrary: h)
  case (Cons i "is")
  then show ?case by (fastforce simp: seq_Ok [OF stop_metrics_run] unregister_ids)
qed (simp add: ret_def)

lemma keeps_metrics_attribution: "keeps (\<lambda>h. h_metrics h = s) (reconcile_adapter_attribution env valid)"
  unfolding reconcile_adapter_attribution_def set_adapter_attribution_with_snapshot_def report_template_def Let_def
  by (intro keeps_intros keeps_core_only)

lemma reconcile_registered:
  assumes "reconcile_metric_roots env h = (Ok (), h')" and "distinct (map s_id (host_sessions env h))"
  shows "registered_ids h' = s_id ` {s \<in> set (host_sessions env h). has_valid_root env s}"
proof -
  let ?ss = "host_sessions env h" and ?reg = "registered_session_ids (h_metrics h)"
  let ?V = "s_id ` {s \<in> set ?ss. has_valid_root env s}"
  let ?gone = "\<lambda>valid. filter (\<lambda>i. i \<notin> s_id ` fst ` set valid) ?reg"
  from assms(1) obtain valid h1 h2 where loop: "reconcile_sessions env ?reg ?ss [] h = (Ok valid, h1)"
    and stop: "for_each stop_metrics (?gone valid) h1 = (Ok (), h2)"
    and attr: "reconcile_adapter_attribution env (map (\<lambda>(s, a). (s_source s, a)) valid) h2 = (Ok (), h')"
    unfolding reconcile_metric_roots_def by (auto simp: gets_def elim!: bind_OkE seq_OkE)
  have "set ?reg \<inter> s_id ` set ?ss \<subseteq> registered_ids h" by blast
  from reconcile_sessions_Ok [OF loop assms(2) this]
  have valid: "s_id ` fst ` set valid = ?V"
    and ids: "registered_ids h1 \<subseteq> registered_ids h \<union> ?V" "?V \<subseteq> registered_ids h1"
    by (auto simp: image_image)
  have "h_metrics h' = h_metrics h2"
    using keepsD_run [OF keeps_metrics_attribution attr] by simp
  then have "registered_ids h' = registered_ids h1 - (set ?reg - ?V)"
    using stop_all [OF stop] valid by auto
  with ids show ?thesis by blast
qed

text \<open>Sessions whose root is gone lose it in the core as well.\<close>

definition rootless :: "string \<Rightarrow> 'r app_core \<Rightarrow> bool" where
  "rootless i a \<longleftrightarrow> (case reg_get (a_registry a) i of None \<Rightarrow> True | Some s \<Rightarrow> s_process_root s = None)"

lemma keeps_rootless_repo [keeps_intros]: "keeps (rootless i) (on_repo m)"
  unfolding on_repo_def by (rule keeps_zoom) (simp add: rootless_def)

lemma keeps_rootless_queue [keeps_intros]: "keeps (rootless i) (queue_payload p)"
  unfolding queue_payload_def by (rule keeps_modify) (simp add: rootless_def)

lemma keeps_rootless_flush [keeps_intros]: "keeps (rootless i) (flush_pending env now)"
  unfolding flush_pending_def
  by (rule keeps_modify) (simp add: rootless_def emit_all_fields case_prod_beta Let_def)

lemma write_session_rootless:
  "s_process_root s = None \<Longrightarrow> keeps (rootless i) (write_session j s)"
  "s_process_root s = None \<Longrightarrow> rootless i (snd (write_session i s a))"
  by (auto simp: keeps_def write_session_def modify_def rootless_def reg_get_def reg_write_def split: option.splits)

lemma keeps_borrow [keeps_intros]: "keeps P (borrow_or_not_found j)"
  unfolding borrow_or_not_found_def by (intro keeps_intros)

lemma keeps_rootless_clear: "keeps (rootless i) (clear_process_root repo env now j)"
  unfolding clear_process_root_def write_through_def Let_def
  by (intro keeps_intros write_session_rootless) simp

lemma write_through_rootless:
  assumes "write_through repo i s a = (Ok (), b)" and "s_process_root s = None"
  shows "rootless i b"
proof -
  from assms(1) obtain u where "write_session i s a = (Ok (), u)" and store: "on_repo (repo_upsert_session repo s) u = (Ok (), b)"
    unfolding write_through_def by (elim seq_OkE) (rule that)
  then have "rootless i u" using write_session_rootless(2) [OF assms(2), of i a] by simp
  with keepsD_run [OF keeps_rootless_repo store] show ?thesis .
qed

lemma clear_process_root_Ok:
  assumes "clear_process_root repo env now i a = (Ok (), a')"
  shows "rootless i a'"
proof -
  from assms obtain session where found: "reg_get (a_registry a) i = Some session"
    and run: "(if s_process_root session = None then ret ()
      else seq (write_through repo i (session\<lparr>s_process_root := None, s_latest_metric := None\<rparr>))
        (seq (queue_payload (PSessionUpsert (session\<lparr>s_process_root := None, s_latest_metric := None\<rparr>)))
          (flush_pending env now))) a = (Ok (), a')"
    unfolding clear_process_root_def borrow_or_not_found_def Let_def
    by (auto simp: gets_def ret_def throw_def elim!: seq_OkE lift_OkE bind_OkE split: option.splits)
  show ?thesis
  proof (cases "s_process_root session = None")
    case True
    with run found show ?thesis by (simp add: ret_def rootless_def)
  next
    case False
    let ?s = "session\<lparr>s_process_root := None, s_latest_metric := None\<rparr>"
    from False run obtain b where "write_through repo i ?s a = (Ok (), b)"
      and rest: "seq (queue_payload (PSessionUpsert ?s)) (flush_pending env now) b = (Ok (), a')"
      by (simp only: if_False) (erule seq_OkE, rule that)
    then have "rootless i b" by (simp add: write_through_rootless)
    moreover have "keeps (rootless i) (seq (queue_payload (PSessionUpsert ?s)) (flush_pending env now))"
      by (intro keeps_intros)
    ultimately show ?thesis using rest by (blast dest: keepsD_run)
  qed
qed

lemma keeps_rootless_on_core: "keeps (rootless i) m \<Longrightarrow> keeps (\<lambda>h. rootless i (h_core h)) (on_core c m)"
  by (auto simp: keeps_def on_core_def split: prod.splits)

lemma keeps_rootless_health [keeps_intros]:
  "keeps (\<lambda>h. rootless i (h_core h)) (host_ingest env (IntegrationHealth cmd))"
proof -
  have "keeps (rootless i) (ingest repo cenv now uuid (IntegrationHealth cmd))" for repo :: "'a repository" and cenv now uuid
    unfolding ingest_def handle_ingest_def integration_health_def
    by (simp, intro keeps_intros keeps_modify) (simp add: rootless_def)
  then show ?thesis
    unfolding host_ingest_def by (intro keeps_intros keeps_rootless_on_core)
qed

lemma keeps_rootless_call [keeps_intros]:
  "keeps (\<lambda>h. rootless i (h_core h)) (host_call env (\<lambda>now flush_now. CallClearRoot now j))"
  unfolding host_call_def Let_def
  by (intro keeps_intros keeps_rootless_on_core) (simp add: keeps_rootless_clear)

lemma keeps_rootless_metrics [keeps_intros]:
  "keeps (\<lambda>h. rootless i (h_core h)) (on_metrics m)"
  "keeps (\<lambda>h. rootless i (h_core h)) (stop_metrics j)"
  by (auto simp: keeps_def on_metrics_def stop_metrics_def modify_def split: prod.splits)

lemma drop_root_rootless:
  assumes "drop_root env i h = (Ok (), h')"
  shows "rootless i (h_core h')"
proof -
  from assms obtain h1 where run: "host_call env (\<lambda>now flush_now. CallClearRoot now i) h1 = (Ok (), h')"
    unfolding drop_root_def by (elim seq_OkE)
  obtain r a where "clear_process_root (he_repo env) (he_core env) (he_now env (length (h_calls h1))) i (h_core h1) = (r, a)"
    by fastforce
  with run show ?thesis
    by (cases r) (auto simp: host_call_def bind_def gets_def Let_def on_core_def dest: clear_process_root_Ok)
qed

lemma keeps_rootless_session: "keeps (\<lambda>h. rootless i (h_core h)) (reconcile_session env reg s valid)"
  unfolding reconcile_session_cases drop_root_def by (intro keeps_intros)

lemma keeps_rootless_sessions: "keeps (\<lambda>h. rootless i (h_core h)) (reconcile_sessions env reg ss valid)"
  by (induction ss arbitrary: valid) (simp_all add: keeps_ret keeps_bind keeps_rootless_session)

lemma reconcile_sessions_rootless:
  assumes "reconcile_sessions env reg ss valid h = (Ok valid', h')" and "s \<in> set ss" and "lost_root env s"
  shows "rootless (s_id s) (h_core h')"
  using assms(1,2)
proof (induction ss arbitrary: valid h)
  case (Cons t ss)
  from Cons.prems(1) obtain v h1 where first: "reconcile_session env reg t valid h = (Ok v, h1)"
    and rest: "reconcile_sessions env reg ss v h1 = (Ok valid', h')"
    unfolding reconcile_sessions.simps by (elim bind_OkE) (rule that)
  show ?case
  proof (cases "t = s")
    case True
    with first assms(3) have "drop_root env (s_id s) h = (Ok (), h1)"
      by (simp add: reconcile_session_cases) (elim seq_OkE; simp add: ret_def)
    with keepsD_run [OF keeps_rootless_sessions rest] show ?thesis by (simp add: drop_root_rootless)
  next
    case False
    with Cons.prems(2) Cons.IH [OF rest] show ?thesis by simp
  qed
qed simp

lemma keeps_rootless_tail:
  "keeps (\<lambda>h. rootless i (h_core h)) (seq (for_each stop_metrics is) (reconcile_adapter_attribution env valid))"
  unfolding reconcile_adapter_attribution_def set_adapter_attribution_with_snapshot_def report_template_def Let_def
    wall_clock_def
  by (intro keeps_intros)

lemma keeps_rootless_reconcile: "keeps (\<lambda>h. rootless i (h_core h)) (reconcile_metric_roots env)"
  unfolding reconcile_metric_roots_def by (intro keeps_intros keeps_rootless_sessions keeps_rootless_tail)

lemma reconcile_rootless:
  assumes "reconcile_metric_roots env h = (Ok (), h')" and "s \<in> set (host_sessions env h)" and "lost_root env s"
  shows "rootless (s_id s) (h_core h')"
proof -
  let ?reg = "registered_session_ids (h_metrics h)"
  let ?gone = "\<lambda>valid. filter (\<lambda>i. i \<notin> s_id ` fst ` set valid) ?reg"
  from assms(1) obtain valid h1 where loop: "reconcile_sessions env ?reg (host_sessions env h) [] h = (Ok valid, h1)"
    and tail: "seq (for_each stop_metrics (?gone valid))
      (reconcile_adapter_attribution env (map (\<lambda>(s, a). (s_source s, a)) valid)) h1 = (Ok (), h')"
    unfolding reconcile_metric_roots_def by (auto simp: gets_def elim!: bind_OkE)
  from keepsD_run [OF keeps_rootless_tail tail] reconcile_sessions_rootless [OF loop assms(2,3)]
  show ?thesis by simp
qed

lemma host_sessions_stored:
  assumes "core_inv (h_core h)" and "iteration_order (env_order (he_core env))"
  shows "s \<in> set (host_sessions env h) \<longleftrightarrow> reg_get (a_registry (h_core h)) (s_id s) = Some s"
    and "distinct (map s_id (host_sessions env h))"
proof -
  let ?r = "a_registry (h_core h)" and ?ord = "env_order (he_core env)"
  let ?l = "sort_key (\<lambda>s. - s_last_event_at_ms s) (reg_sessions ?ord ?r)"
  have inv: "reg_inv ?r" using assms(1) by (simp add: core_inv_def)
  note wf = reg_inv_wf(1) [OF inv]
  have perm: "mset (reg_sessions ?ord ?r) = mset (map snd (r_sessions ?r))"
    unfolding reg_sessions_def by (rule mset_hm_values [OF assms(2) wf])
  then have "length (reg_sessions ?ord ?r) = length (r_sessions ?r)" by (metis length_map size_mset)
  with reg_inv_cap [OF inv] have short: "host_sessions env h = ?l"
    by (simp add: host_sessions_def snapshot_with_sequence_def)
  then show "s \<in> set (host_sessions env h) \<longleftrightarrow> reg_get ?r (s_id s) = Some s"
    by (simp add: reg_sessions_iff [OF inv assms(2)])
  have keys: "map s_id (map snd (r_sessions ?r)) = map fst (r_sessions ?r)"
  proof -
    have "s_id (snd x) = fst x" if "x \<in> set (r_sessions ?r)" for x
      using reg_inv_stored(1) [OF inv map_of_is_SomeI [OF wf, of "fst x" "snd x"]] that by simp
    then show ?thesis by simp
  qed
  have "mset (map s_id ?l) = mset (map s_id (map snd (r_sessions ?r)))"
    using perm by (simp only: mset_map mset_sort)
  with keys wf have "distinct (map s_id ?l)" by (metis mset_eq_imp_distinct_iff)
  with short show "distinct (map s_id (host_sessions env h))" by simp
qed

text \<open>
  (C7) Reconciliation is exact: when it succeeds, the metrics engine samples precisely the sessions that are
  not ended or stale and whose recorded root process is alive with the recorded start time (so a
  reused pid is never sampled), and every other session has no root in the core, those of
  unattributable sources apart.
\<close>

theorem reconcile_leaves_only_live_roots:
  assumes "core_inv (h_core h)" and "iteration_order (env_order (he_core env))"
    and "reconcile_metric_roots env h = (Ok (), h')"
  shows "registered_ids h' = {i. \<exists>s. reg_get (a_registry (h_core h)) i = Some s \<and> has_valid_root env s} \<and>
    (\<forall>i s. reg_get (a_registry (h_core h)) i = Some s \<longrightarrow> s_source s \<noteq> UnknownSource \<longrightarrow>
       \<not> has_valid_root env s \<longrightarrow> rootless i (h_core h'))"
proof -
  note stored = host_sessions_stored [OF assms(1,2)]
  have inv: "reg_inv (a_registry (h_core h))" using assms(1) by (simp add: core_inv_def)
  have key: "s_id s = i" if "reg_get (a_registry (h_core h)) i = Some s" for i s
    using reg_inv_stored(1) [OF inv] that by (simp add: reg_get_def)
  have ids: "registered_ids h' = {i. \<exists>s. reg_get (a_registry (h_core h)) i = Some s \<and> has_valid_root env s}"
  proof -
    have "i \<in> s_id ` {s \<in> set (host_sessions env h). has_valid_root env s} \<longleftrightarrow>
        (\<exists>s. reg_get (a_registry (h_core h)) i = Some s \<and> has_valid_root env s)" for i
      unfolding image_iff mem_Collect_eq Bex_def stored(1) by (metis key)
    with reconcile_registered [OF assms(3) stored(2)] show ?thesis by blast
  qed
  have "rootless i (h_core h')"
    if found: "reg_get (a_registry (h_core h)) i = Some s" and src: "s_source s \<noteq> UnknownSource"
      and bad: "\<not> has_valid_root env s" for i s
  proof (cases "s_process_root s")
    case None
    with found have "rootless i (h_core h)" by (simp add: rootless_def)
    with keepsD_run [OF keeps_rootless_reconcile assms(3)] show ?thesis by simp
  next
    case (Some proc)
    have "attribution_for_source (s_source s) \<noteq> UnknownAttribution" using src by (cases "s_source s") simp_all
    with bad Some have "lost_root env s"
      by (auto simp: has_valid_root_def lost_root_def split: option.splits)
    with reconcile_rootless [OF assms(3), of s] found key [OF found] show ?thesis by (simp add: stored(1))
  qed
  with ids show ?thesis by blast
qed

section \<open>Accepted events\<close>

lemma on_registry_Ok:
  "on_registry m a = (Ok x, a') \<Longrightarrow> \<exists>r. m (a_registry a) = (Ok x, r) \<and> a' = a\<lparr>a_registry := r\<rparr>"
  by (auto simp: on_registry_def zoom_def split: prod.splits)

lemma on_repo_Ok:
  "on_repo m a = (Ok x, a') \<Longrightarrow> \<exists>d. m (a_repository a) = (Ok x, d) \<and> a' = a\<lparr>a_repository := d\<rparr>"
  by (auto simp: on_repo_def zoom_def split: prod.splits)

lemma core_append_event_Ok:
  assumes "core_append_event repo uuid i kind level summary tool t a = (Ok ev, a')"
  shows "ev = \<lparr>e_id = uuid, e_session_id = i, e_sequence = next_event_sequence (a_registry a) i, e_occurred_at_ms = t,
      e_kind = kind, e_level = level, e_summary = summary, e_tool_name = tool\<rparr> \<and>
    events_for (a_registry a') i = keep_last MAX_EVENTS_PER_SESSION (events_for (a_registry a) i @ [ev]) \<and>
    repo_append_event repo ev (a_repository a) = (Ok (), a_repository a')"
proof -
  define ev' where "ev' = \<lparr>e_id = uuid, e_session_id = i, e_sequence = next_event_sequence (a_registry a) i,
      e_occurred_at_ms = t, e_kind = kind, e_level = level, e_summary = summary, e_tool_name = tool\<rparr>"
  from assms have "seq (on_registry (reg_append_event ev')) (seq (on_repo (repo_append_event repo ev'))
      (seq (queue_payload (PSessionEvent ev')) (ret ev'))) a = (Ok ev, a')"
    by (simp add: core_append_event_def bind_def gets_def Let_def ev'_def)
  then obtain b c where steps: "on_registry (reg_append_event ev') a = (Ok (), b)" "on_repo (repo_append_event repo ev') b = (Ok (), c)"
    and "ev = ev'" "a_registry a' = a_registry c" "a_repository a' = a_repository c"
    by (auto simp: queue_payload_def modify_def ret_def seq_def bind_def elim!: seq_OkE [unfolded seq_def] split: prod.splits outcome.splits)
  then obtain r d where reg: "reg_append_event ev' (a_registry a) = (Ok (), r)"
    and store: "repo_append_event repo ev' (a_repository a) = (Ok (), d)"
    and res: "ev = ev'" "a_registry a' = r" "a_repository a' = d"
    using on_registry_Ok [OF steps(1)] on_repo_Ok [OF steps(2)] by auto
  from reg have "events_for r i = keep_last MAX_EVENTS_PER_SESSION (events_for (a_registry a) i @ [ev'])"
    by (auto simp: reg_append_event_def Let_def ev'_def events_for_def split: if_splits)
  with res store show ?thesis by (simp add: ev'_def)
qed

text \<open>\<open>ev\<close> is the newest entry of its session's log, and the repository took it last.\<close>

definition recorded :: "'r repository \<Rightarrow> session_event \<Rightarrow> 'r app_core \<Rightarrow> 'r app_core \<Rightarrow> bool" where
  "recorded repo ev a a' \<longleftrightarrow>
     events_for (a_registry a') (e_session_id ev) =
       keep_last MAX_EVENTS_PER_SESSION (events_for (a_registry a) (e_session_id ev) @ [ev]) \<and>
     (\<exists>d. repo_append_event repo ev d = (Ok (), a_repository a'))"

abbreviation same_log :: "string \<Rightarrow> session_event list \<Rightarrow> 'r app_core \<Rightarrow> bool" where
  "same_log i es a \<equiv> events_for (a_registry a) i = es"

lemma keeps_log_repo [keeps_intros]: "keeps (same_log i es) (on_repo m)"
  unfolding on_repo_def by (rule keeps_zoom) simp

lemma keeps_log_write [keeps_intros]: "keeps (same_log i es) (write_session j s)"
  unfolding write_session_def by (rule keeps_modify) (simp add: reg_write_def events_for_def)

lemma keeps_log_touch [keeps_intros]: "keeps (same_log i es) (touch_session repo j t)"
  unfolding touch_session_def write_through_def by (intro keeps_intros)

text \<open>The checks before the work: they leave the state as it was.\<close>

lemma seq_lift_Ok: "seq (lift x) k a = (Ok r, a') \<Longrightarrow> k a = (Ok r, a')"
  by (auto elim: seq_OkE lift_OkE)

lemma seq_ret: "seq (ret ()) k = k"
  by (rule ext) (simp add: seq_def bind_def ret_def)

lemma seq_require_Ok: "seq (require_events src) k a = (Ok r, a') \<Longrightarrow> k a = (Ok r, a')"
  by (auto simp: require_events_def capabilities_for_def seq_def bind_def gets_def ret_def throw_def
      split: option.splits if_splits)

lemma bind_resolve_Ok:
  "bind (resolve_session_id src ext) k a = (Ok r, a') \<Longrightarrow>
   \<exists>s. resolve_external (a_registry a) src ext = Some s \<and> k (s_id s) a = (Ok r, a')"
  by (auto simp: resolve_session_id_def bind_def gets_def ret_def throw_def split: option.splits)

lemma bind_capabilities_Ok: "bind (capabilities_for src) k a = (Ok r, a') \<Longrightarrow> \<exists>c. k c a = (Ok r, a')"
  by (auto simp: capabilities_for_def bind_def gets_def ret_def throw_def split: option.splits)

lemma seq_ensure_Ok: "seq (ensure_attention_capability c t) k a = (Ok r, a') \<Longrightarrow> k a = (Ok r, a')"
  by (auto simp: ensure_attention_capability_def seq_def bind_def ret_def throw_def split: if_splits)

lemma bind_borrow_Ok:
  "bind (borrow_session x i) k a = (Ok r, a') \<Longrightarrow> \<exists>s. k s a = (Ok r, a')"
  by (auto simp: borrow_session_def bind_def gets_def ret_def panic_def split: option.splits)

lemma append_recorded:
  assumes "core_append_event repo uuid i kind level summary tool t b = (Ok ev, a')"
    and "events_for (a_registry b) i = events_for (a_registry a) i"
  shows "recorded repo ev a a'" and "e_session_id ev = i" and "e_occurred_at_ms ev = t" and "e_kind ev = kind"
    and "e_level ev = level" and "e_summary ev = summary" and "e_tool_name ev = tool" and "e_id ev = uuid"
  using core_append_event_Ok [OF assms(1)] assms(2) by (auto simp: recorded_def)

lemma touch_and_append:
  assumes "seq (touch_session repo i t) (bind (core_append_event repo uuid i kind level summary tool t)
      (\<lambda>event. ret (ingested i (Some (e_id event))))) a = (Ok r, a')"
  shows "\<exists>ev. recorded repo ev a a' \<and> e_session_id ev = i \<and> e_occurred_at_ms ev = t \<and> e_kind ev = kind \<and>
    e_level ev = level \<and> e_summary ev = summary \<and> e_tool_name ev = tool"
proof -
  from assms obtain b ev where touch: "touch_session repo i t a = (Ok (), b)"
    and app: "core_append_event repo uuid i kind level summary tool t b = (Ok ev, a')"
    by (auto simp: ret_def elim!: seq_OkE bind_OkE)
  have "events_for (a_registry b) i = events_for (a_registry a) i"
    using keepsD_run [OF keeps_log_touch touch] by simp
  from append_recorded [OF app this] show ?thesis by blast
qed

lemma lifecycle_event_Ok:
  assumes "lifecycle_event repo uuid cmd a = (Ok r, a')"
  shows "\<exists>s ev. resolve_external (a_registry a) (le_source cmd) (le_external_session_id cmd) = Some s \<and>
    recorded repo ev a a' \<and> e_session_id ev = s_id s \<and> e_occurred_at_ms ev = le_occurred_at_ms cmd \<and>
    e_kind ev = KindLifecycle \<and> e_level ev = le_level cmd \<and> e_summary ev = le_summary cmd \<and> e_tool_name ev = None"
proof -
  from bind_resolve_Ok [OF seq_require_Ok [OF seq_lift_Ok [OF seq_lift_Ok [OF assms [unfolded lifecycle_event_def]]]]]
  obtain s where "resolve_external (a_registry a) (le_source cmd) (le_external_session_id cmd) = Some s"
    and run: "seq (touch_session repo (s_id s) (le_occurred_at_ms cmd)) (bind (core_append_event repo uuid (s_id s)
        KindLifecycle (le_level cmd) (le_summary cmd) None (le_occurred_at_ms cmd))
      (\<lambda>event. ret (ingested (s_id s) (Some (e_id event))))) a = (Ok r, a')"
    by blast
  with touch_and_append [OF run] show ?thesis by blast
qed

lemma tool_event_Ok:
  assumes "tool_event repo uuid cmd a = (Ok r, a')"
  shows "\<exists>s ev. resolve_external (a_registry a) (te_source cmd) (te_external_session_id cmd) = Some s \<and>
    recorded repo ev a a' \<and> e_session_id ev = s_id s \<and> e_occurred_at_ms ev = te_occurred_at_ms cmd \<and>
    e_kind ev = KindTool \<and> e_level ev = te_level cmd \<and> e_summary ev = te_summary cmd \<and> e_tool_name ev = te_tool_name cmd"
proof -
  let ?work = "\<lambda>session_id. seq (touch_session repo session_id (te_occurred_at_ms cmd)) (bind (core_append_event repo uuid
      session_id KindTool (te_level cmd) (te_summary cmd) (te_tool_name cmd) (te_occurred_at_ms cmd))
    (\<lambda>event. ret (ingested session_id (Some (e_id event)))))"
  have "seq (require_events (te_source cmd))
      (bind (resolve_session_id (te_source cmd) (te_external_session_id cmd)) ?work) a = (Ok r, a')"
  proof (cases "te_tool_name cmd")
    case None
    with seq_lift_Ok [OF seq_lift_Ok [OF assms [unfolded tool_event_def]]] show ?thesis
      by (simp add: seq_ret)
  next
    case (Some tool)
    with seq_lift_Ok [OF seq_lift_Ok [OF assms [unfolded tool_event_def]]] show ?thesis
      by (simp) (erule seq_lift_Ok)
  qed
  from bind_resolve_Ok [OF seq_require_Ok [OF this]]
  obtain s where "resolve_external (a_registry a) (te_source cmd) (te_external_session_id cmd) = Some s"
    and run: "?work (s_id s) a = (Ok r, a')"
    by blast
  with touch_and_append [OF run] show ?thesis by blast
qed

lemma attention_Ok:
  assumes "attention repo uuid cmd a = (Ok r, a')"
  shows "\<exists>s ev. resolve_external (a_registry a) (at_source cmd) (at_external_session_id cmd) = Some s \<and>
    recorded repo ev a a' \<and> e_session_id ev = s_id s \<and> e_occurred_at_ms ev = at_occurred_at_ms cmd \<and>
    e_kind ev = KindAttention \<and> e_level ev = at_level cmd \<and> e_summary ev = at_summary cmd \<and> e_tool_name ev = None"
proof -
  let ?alert = "\<lambda>i. modify (\<lambda>a. a\<lparr>a_alerts := snd (evaluate_attention i (at_attention cmd) (at_occurred_at_ms cmd) (a_alerts a))\<rparr>)"
  from bind_capabilities_Ok [OF seq_lift_Ok [OF seq_lift_Ok [OF assms [unfolded attention_def]]]]
  obtain s t where s: "resolve_external (a_registry a) (at_source cmd) (at_external_session_id cmd) = Some s"
    and "seq (write_through repo (s_id s) t) (seq (?alert (s_id s))
      (bind (core_append_event repo uuid (s_id s) KindAttention (at_level cmd) (at_summary cmd) None (at_occurred_at_ms cmd)) (\<lambda>event.
        seq (queue_payload (PSessionUpsert t)) (ret (ingested (s_id s) (Some (e_id event))))))) a = (Ok r, a')"
    unfolding Let_def by (blast dest!: seq_ensure_Ok bind_resolve_Ok bind_borrow_Ok)
  then obtain b ev c where pre: "seq (write_through repo (s_id s) t) (?alert (s_id s)) a = (Ok (), b)"
    and app: "core_append_event repo uuid (s_id s) KindAttention (at_level cmd) (at_summary cmd) None (at_occurred_at_ms cmd) b = (Ok ev, c)"
    and a': "a_registry a' = a_registry c" "a_repository a' = a_repository c"
    by (auto simp: queue_payload_def modify_def ret_def seq_def bind_def split: prod.splits outcome.splits)
  have "keeps (same_log (s_id s) es) (seq (write_through repo (s_id s) t) (?alert (s_id s)))" for es
    unfolding write_through_def by (intro keeps_intros keeps_modify) simp
  then have "events_for (a_registry b) (s_id s) = events_for (a_registry a) (s_id s)"
    using pre by (blast dest: keepsD_run)
  note logged = append_recorded [OF app this]
  from logged(1) a' have "recorded repo ev a a'" by (simp add: recorded_def)
  with logged s show ?thesis by blast
qed

lemma flush_fields:
  "a_registry (snd (flush_pending env now a)) = a_registry a"
  "a_repository (snd (flush_pending env now a)) = a_repository a"
  by (simp_all add: flush_pending_def modify_def case_prod_beta Let_def)

text \<open>The kind under which an event is kept.\<close>

definition kept_kind :: "session_event_kind \<Rightarrow> attention_kind option \<Rightarrow> session_event_kind" where
  "kept_kind kind att =
     (if kind = KindTool then KindTool
      else if kind = KindAttention \<and> att \<noteq> None then KindAttention else KindLifecycle)"

lemma handle_event_Ok:
  assumes "handle_ingest repo env uuid (event_command event source ext att) a = (Ok r, a')"
  shows "\<exists>s ev. resolve_external (a_registry a) source ext = Some s \<and> recorded repo ev a a' \<and> e_session_id ev = s_id s \<and>
    e_occurred_at_ms ev = e_occurred_at_ms event \<and> e_kind ev = kept_kind (e_kind event) att \<and>
    e_level ev = e_level event \<and> e_summary ev = e_summary event \<and>
    e_tool_name ev = (if e_kind event = KindTool then e_tool_name event else None)"
proof (cases "if e_kind event = KindAttention then att else None")
  case None
  show ?thesis
  proof (cases "e_kind event = KindTool")
    case True
    with None assms show ?thesis
      by (auto simp: event_command_def handle_ingest_def kept_kind_def dest!: tool_event_Ok)
  next
    case False
    with None have "event_command event source ext att = LifecycleEvent
       \<lparr>le_source = source, le_external_session_id = ext, le_level = e_level event,
        le_summary = e_summary event, le_occurred_at_ms = e_occurred_at_ms event\<rparr>"
      by (simp add: event_command_def split: session_event_kind.splits)
    with False None assms show ?thesis
      by (auto simp: handle_ingest_def kept_kind_def dest!: lifecycle_event_Ok)
  qed
next
  case (Some k)
  then have "e_kind event = KindAttention" "att = Some k" by (auto split: if_splits)
  with assms show ?thesis
    by (auto simp: event_command_def handle_ingest_def kept_kind_def dest!: attention_Ok)
qed

lemma ingest_event_Ok:
  assumes "ingest repo env now uuid (event_command event source ext att) a = (Ok r, a')"
  shows "\<exists>s ev. resolve_external (a_registry a) source ext = Some s \<and> recorded repo ev a a' \<and> e_session_id ev = s_id s \<and>
    e_occurred_at_ms ev = e_occurred_at_ms event \<and> e_kind ev = kept_kind (e_kind event) att \<and>
    e_level ev = e_level event \<and> e_summary ev = e_summary event \<and>
    e_tool_name ev = (if e_kind event = KindTool then e_tool_name event else None)"
proof -
  from assms obtain b where run: "handle_ingest repo env uuid (event_command event source ext att) a = (Ok r, b)"
    and "flush_pending env now b = (Ok (), a')"
    unfolding ingest_def by (elim bind_OkE seq_OkE) (simp add: ret_def that)
  then have "a_registry a' = a_registry b" "a_repository a' = a_repository b"
    using flush_fields [of env now b] by simp_all
  then have "recorded repo ev a a' \<longleftrightarrow> recorded repo ev a b" for ev by (simp add: recorded_def)
  with handle_event_Ok [OF run] show ?thesis by simp
qed

text \<open>
  (C6) An event the host accepts is on record: it was matched to a session, and the core session of that
  key has it as the newest entry of its log, with the delivered time, level, summary and tool,
  and as the last thing the repository stored without an error. So the acknowledgement the
  transport then sends is only given for events that were stored.
\<close>

theorem accepted_event_is_recorded:
  assumes "run_ipc_pending env error_text (NormSessionEvent event source ext att) h = (HostAccepted, h')"
  shows "\<exists>found s ev. found \<in> set (host_sessions env h) \<and>
    (s_id found = e_session_id event \<or> s_source found = source) \<and>
    resolve_external (a_registry (h_core h)) source (s_external_session_id found) = Some s \<and>
    recorded (he_repo env) ev (h_core h) (h_core h') \<and> e_session_id ev = s_id s \<and>
    e_occurred_at_ms ev = e_occurred_at_ms event \<and> e_kind ev = kept_kind (e_kind event) att \<and>
    e_level ev = e_level event \<and> e_summary ev = e_summary event \<and>
    e_tool_name ev = (if e_kind event = KindTool then e_tool_name event else None)"
proof -
  obtain r h'' where run: "ingest_normalized env (NormSessionEvent event source ext att) h = (r, h'')" by fastforce
  with assms have "h'' = h'" "r = Ok ()"
    by (cases r; simp add: run_ipc_pending_def ingest_verdict_def)+
  with run obtain found k where found: "host_resolve_session env (e_session_id event) source ext h = Some found"
    and work: "bind (host_ingest env (event_command event source (s_external_session_id found) att)) (\<lambda>_.
      record_connector_traffic source (e_occurred_at_ms event)) h = (Ok (), h')"
    by (auto simp: ingest_normalized_def bind_def gets_def throw_def split: option.splits)
  let ?ingest = "ingest (he_repo env) (he_core env) (he_now env (length (h_calls h))) (he_uuid env (length (h_calls h)))
    (event_command event source (s_external_session_id found) att) (h_core h)"
  obtain q a where core: "?ingest = (q, a)" by fastforce
  with work obtain x where "q = Ok x" "h_core h' = a"
    by (cases q) (auto simp: host_ingest_def on_core_def bind_def gets_def record_connector_traffic_def ret_def modify_def
        split: if_splits)
  with core have "?ingest = (Ok x, h_core h')" by simp
  moreover from found have "found \<in> set (host_sessions env h)" "s_id found = e_session_id event \<or> s_source found = source"
    unfolding host_resolve_session_def by (auto simp: find_Some_iff)
  ultimately show ?thesis using ingest_event_Ok by blast
qed

section \<open>A concrete host\<close>

definition sample_host_env :: "sqlite_db host_env" where
  "sample_host_env = \<lparr>he_repo = sqlite_repository plain_env, he_core = sample_cenv, he_now = (\<lambda>k. 20), he_flush_now = (\<lambda>k. 20),
     he_wall = (\<lambda>k. 20), he_uuid = (\<lambda>k. 2), he_start_time = [7 \<mapsto> 0]\<rparr>"

definition sample_host :: "sqlite_db host" where
  "sample_host =
     \<lparr>h_core = (holding stored_sample)\<lparr>a_integrations :=
        map (\<lambda>c. if c_source c = Qwen then c\<lparr>c_process_attribution := Exact\<rparr> else c) builtin_adapter_capabilities\<rparr>,
      h_metrics = sampler_new (probe_new True 8 []), h_calls = [], h_traffic = []\<rparr>"

definition settled_host :: "sqlite_db host" where
  "settled_host = sample_host\<lparr>h_metrics := snd (Metrics_Sampler.register_session ''s-1''
     \<lparr>pid = 7, pid_started_at_ms = 0\<rparr> Exact 1 (h_metrics sample_host))\<rparr>"

lemma sample_host_sessions: "host_sessions sample_host_env sample_host = [stored_sample]"
  by (simp add: host_sessions_def snapshot_with_sequence_def sample_host_env_def sample_host_def sample_cenv_def holding_def
      held_def reg_sessions_def hm_values_def map_filter_def MAX_SESSIONS_eq)

lemma sample_live: "live_root sample_host_env \<lparr>pid = 7, pid_started_at_ms = 1\<rparr> = Some \<lparr>pid = 7, pid_started_at_ms = 0\<rparr>"
  by (simp add: live_root_def sample_host_env_def resolve_process_identity_def wrap_i64_def u64_as_i64_def)

lemma sample_valid: "has_valid_root sample_host_env stored_sample" "\<not> lost_root sample_host_env stored_sample"
  by (simp_all add: has_valid_root_def lost_root_def stored_sample_def terminal_status_def sample_live start_times_match_def wrap_i64_def)

lemma sample_fields:
  "s_id stored_sample = ''s-1''" "s_source stored_sample = Qwen" "s_started_at_ms stored_sample = 1"
  "s_process_root stored_sample = Some \<lparr>pid = 7, pid_started_at_ms = 1\<rparr>" "s_external_session_id stored_sample = ''x''"
  by (simp_all add: stored_sample_def)

lemma sample_register:
  "on_metrics (Metrics_Sampler.register_session ''s-1'' \<lparr>pid = 7, pid_started_at_ms = 0\<rparr> Exact 1) sample_host = (Ok (), settled_host)"
  by (simp add: on_metrics_def settled_host_def register_session_run Let_def sample_host_def sampler_new_def
      registered_session_ids_def MAX_ACTIVE_ROOTS_def)

lemma sample_attribution:
  "reconcile_adapter_attribution sample_host_env [(Qwen, Exact)] settled_host = (Ok (), settled_host)"
  by (simp add: reconcile_adapter_attribution_def host_adapters_def settled_host_def sample_host_def
      builtin_adapter_capabilities_def set_adapter_attribution_with_snapshot_def capabilities_template_def
      bind_def gets_def ret_def seq_def Let_def)

lemma sample_reconciled: "reconcile_metric_roots sample_host_env sample_host = (Ok (), settled_host)"
proof -
  have "registered_session_ids (h_metrics sample_host) = []"
    by (simp add: sample_host_def sampler_new_def registered_session_ids_def)
  moreover have "reconcile_sessions sample_host_env [] [stored_sample] [] sample_host = (Ok [(stored_sample, Exact)], settled_host)"
    using sample_valid sample_register
    by (simp add: reconcile_session_cases sample_fields sample_live bind_def seq_def ret_def)
  ultimately show ?thesis
    using sample_attribution
    by (simp add: reconcile_metric_roots_def gets_run bind_Ok sample_host_sessions seq_ret sample_fields)
qed

lemma sample_host_inv: "core_inv (h_core sample_host)" "iteration_order (env_order (he_core sample_host_env))"
  using holding_inv sample_order by (simp_all add: sample_host_def sample_host_env_def)

theorem reconcile_leaves_only_live_roots_witness: "registered_ids settled_host = {''s-1''}"
proof -
  have "(\<exists>s. reg_get (a_registry (h_core sample_host)) i = Some s \<and> has_valid_root sample_host_env s) \<longleftrightarrow> i = ''s-1''" for i
    using sample_valid(1) by (auto simp: sample_host_def holding_def held_def reg_get_def stored_sample_def)
  with reconcile_leaves_only_live_roots [OF sample_host_inv sample_reconciled] show ?thesis by simp
qed

lemma acknowledge_calls:
  "h_calls (snd (host_acknowledge_attention env i h)) = h_calls h @ [CallIngest (he_now env (length (h_calls h)))
     (he_uuid env (length (h_calls h)))
     (AcknowledgeAttention \<lparr>ack_session_id = i, ack_occurred_at_ms = he_wall env (length (h_calls h))\<rparr>)]"
  by (simp add: host_acknowledge_attention_def wall_clock_def host_ingest_def on_core_def bind_def gets_def ret_def
      split: prod.splits outcome.splits)

definition sample_clock :: metrics_clock where
  "sample_clock = \<lparr>mc_last_sample_ms = 0, mc_last_heartbeat_ms = 0, mc_last_prune_ms = 0\<rparr>"


definition ping :: session_event where
  "ping = \<lparr>e_id = 9, e_session_id = ''s-1'', e_sequence = 0, e_occurred_at_ms = 5, e_kind = KindLifecycle,
     e_level = LevelInfo, e_summary = ''ping'', e_tool_name = None\<rparr>"

lemma sample_found: "host_resolve_session sample_host_env ''s-1'' Qwen None sample_host = Some stored_sample"
  by (simp add: host_resolve_session_def sample_host_sessions sample_fields)

lemma ping_ingested:
  "\<exists>r a. ingest (sqlite_repository plain_env) sample_cenv 20 2 (LifecycleEvent \<lparr>le_source = Qwen, le_external_session_id = ''x'',
     le_level = LevelInfo, le_summary = ''ping'', le_occurred_at_ms = 5\<rparr>) (h_core sample_host) = (Ok r, a)"
  by (simp add: ingest_def handle_ingest_def lifecycle_event_def bind_def seq_def lift_def ret_def gets_def modify_def
    validate_defs validate_bounded_def protocol_limits require_events_def capabilities_for_def sample_host_def holding_def
    builtin_adapter_capabilities_def template_paths resolve_session_id_def resolve_external_def held_def stored_sample_def
    touch_session_def reg_get_def Let_def write_through_def write_session_def reg_write_def on_repo_def zoom_def
    sqlite_repository_def upsert_session_def from_json_def statement_def one_db_def sqlite_new_def insert_session_row_def
    session_row_of_def update_session_row_def core_append_event_def next_event_sequence_def events_for_def on_registry_def
    reg_append_event_def append_event_def insert_event_row_def event_row_of_def trim_session_events_def query_def
    MAX_EVENTS_PER_SESSION_def queue_payload_def flush_pending_def case_prod_beta)

lemma ping_accepted:
  "fst (run_ipc_pending sample_host_env (\<lambda>_. ''rejected'') (NormSessionEvent ping Qwen None None) sample_host) = HostAccepted"
proof -
  obtain r a where run: "ingest (sqlite_repository plain_env) sample_cenv 20 2 (LifecycleEvent \<lparr>le_source = Qwen,
     le_external_session_id = ''x'', le_level = LevelInfo, le_summary = ''ping'', le_occurred_at_ms = 5\<rparr>) (h_core sample_host) = (Ok r, a)"
    using ping_ingested by blast
  have env: "he_repo sample_host_env = sqlite_repository plain_env" "he_core sample_host_env = sample_cenv"
    "he_now sample_host_env k = 20" "he_uuid sample_host_env k = 2" for k
    by (simp_all add: sample_host_env_def)
  have "e_session_id ping = ''s-1''" "event_command ping Qwen ''x'' None = LifecycleEvent \<lparr>le_source = Qwen,
     le_external_session_id = ''x'', le_level = LevelInfo, le_summary = ''ping'', le_occurred_at_ms = 5\<rparr>"
    by (simp_all add: ping_def event_command_def)
  then show ?thesis
    by (simp add: run_ipc_pending_def ingest_normalized_def bind_def gets_def sample_found sample_fields host_ingest_def
      on_core_def env run record_connector_traffic_def modify_def ingest_verdict_def)
qed

theorem accepted_event_is_recorded_witness:
  "\<exists>s ev (h' :: sqlite_db host). resolve_external (a_registry (h_core sample_host)) Qwen ''x'' = Some s \<and>
     recorded (he_repo sample_host_env) ev (h_core sample_host) (h_core h') \<and> e_summary ev = ''ping''"
proof -
  let ?run = "run_ipc_pending sample_host_env (\<lambda>_. ''rejected'') (NormSessionEvent ping Qwen None None) sample_host"
  have "?run = (HostAccepted, snd ?run)" using ping_accepted by (metis prod.collapse)
  from accepted_event_is_recorded [OF this]
  obtain found s ev where "found \<in> set [stored_sample]"
    "resolve_external (a_registry (h_core sample_host)) Qwen (s_external_session_id found) = Some s"
    "recorded (he_repo sample_host_env) ev (h_core sample_host) (h_core (snd ?run))" "e_summary ev = e_summary ping"
    unfolding sample_host_sessions by blast
  moreover have "e_summary ping = ''ping''" by (simp add: ping_def)
  ultimately have "resolve_external (a_registry (h_core sample_host)) Qwen ''x'' = Some s"
    "recorded (he_repo sample_host_env) ev (h_core sample_host) (h_core (snd ?run))" "e_summary ev = ''ping''"
    by (auto simp: sample_fields)
  then show ?thesis by blast
qed

end
