(* ===== verification/Rust_Search.thy ===== *)
theory Rust_Search
  imports Rust_Text "HOL-Library.Sublist"
begin

text \<open>
  The searching methods of \<open>str\<close> the sources use: \<open>contains\<close>, \<open>find\<close>, \<open>replace\<close>, \<open>split_whitespace\<close>,
  \<open>strip_suffix\<close> and \<open>rsplit\<close>, over the bytes of a string. Positions are byte offsets.
\<close>

fun find_sub :: "string \<Rightarrow> string \<Rightarrow> nat option" where
  "find_sub pat [] = (if pat = [] then Some 0 else None)"
| "find_sub pat (c # cs) = (if prefix pat (c # cs) then Some 0 else map_option Suc (find_sub pat cs))"

definition contains_sub :: "string \<Rightarrow> string \<Rightarrow> bool" where
  "contains_sub pat s \<longleftrightarrow> find_sub pat s \<noteq> None"

definition starts_with :: "string \<Rightarrow> string \<Rightarrow> bool" where
  "starts_with pat s \<longleftrightarrow> prefix pat s"

definition ends_with :: "string \<Rightarrow> string \<Rightarrow> bool" where
  "ends_with pat s \<longleftrightarrow> suffix pat s"

definition strip_suffix :: "string \<Rightarrow> string \<Rightarrow> string option" where
  "strip_suffix pat s = (if suffix pat s then Some (take (length s - length pat) s) else None)"

lemma find_sub_Some: "find_sub pat s = Some i \<Longrightarrow> prefix pat (drop i s) \<and> i + length pat \<le> length s"
proof (induction s arbitrary: i)
  case (Cons c cs)
  then show ?case by (auto split: if_splits dest: prefix_length_le)
qed (auto split: if_splits)

lemma contains_sub_iff: "contains_sub pat s \<longleftrightarrow> sublist pat s"
proof (induction s)
  case Nil
  then show ?case by (simp add: contains_sub_def)
next
  case (Cons c cs)
  then show ?case by (auto simp: contains_sub_def sublist_Cons_right)
qed

text \<open>\<open>s.replace(from, to)\<close> for a non-empty pattern: non-overlapping occurrences from the left.\<close>

function replace_sub :: "string \<Rightarrow> string \<Rightarrow> string \<Rightarrow> string" where
  "replace_sub pat new s =
     (case s of
        [] \<Rightarrow> []
      | c # cs \<Rightarrow>
          if pat \<noteq> [] \<and> prefix pat s then new @ replace_sub pat new (drop (length pat) s)
          else c # replace_sub pat new cs)"
  by pat_completeness auto
termination
  by (relation "measure (\<lambda>(pat, new, s). length s)") (auto simp: prefix_def)

declare replace_sub.simps [simp del]

lemma replace_sub_absent: "\<not> contains_sub pat s \<Longrightarrow> replace_sub pat new s = s"
proof (induction s)
  case Nil
  then show ?case by (subst replace_sub.simps) simp
next
  case (Cons c cs)
  then have "\<not> prefix pat (c # cs)" "\<not> contains_sub pat cs"
    by (auto simp: contains_sub_iff sublist_Cons_right)
  with Cons.IH show ?case by (subst replace_sub.simps) simp
qed

lemma replace_sub_keeps:
  assumes "contains_sub pat s" and "pat \<noteq> []" and "contains_sub w new"
  shows "contains_sub w (replace_sub pat new s)"
  using assms(1)
proof (induction s)
  case Nil
  with assms(2) show ?case by (simp add: contains_sub_def)
next
  case (Cons c cs)
  show ?case
  proof (cases "prefix pat (c # cs)")
    case True
    with assms(2,3) show ?thesis
      by (subst replace_sub.simps) (auto simp: contains_sub_iff sublist_append)
  next
    case False
    with Cons have "contains_sub pat cs" by (simp add: contains_sub_iff sublist_Cons_right)
    with Cons.IH False show ?thesis
      by (subst replace_sub.simps) (auto simp: contains_sub_iff sublist_Cons_right)
  qed
qed

text \<open>\<open>split_whitespace\<close>\<close>

function take_word :: "string list \<Rightarrow> string \<Rightarrow> string" where
  "take_word ws s =
     (case s of [] \<Rightarrow> [] | c # cs \<Rightarrow> if leading_space ws s \<noteq> None then [] else c # take_word ws cs)"
  by pat_completeness auto
termination by (relation "measure (\<lambda>(ws, s). length s)") auto

declare take_word.simps [simp del]

lemma take_word_prefix: "\<exists>rest. s = take_word ws s @ rest"
  by (induction s) (subst take_word.simps, auto)+

definition trim_start :: "string \<Rightarrow> string" where
  "trim_start = drop_spaces utf8_spaces"

definition first_word :: "string \<Rightarrow> string option" where
  "first_word s = (let t = trim_start s in if t = [] then None else Some (take_word utf8_spaces t))"

definition second_word :: "string \<Rightarrow> string option" where
  "second_word s =
     (let t = trim_start s in first_word (drop (length (take_word utf8_spaces t)) t))"

text \<open>\<open>s.rsplit(c).next()\<close> and \<open>s.rsplit_once(c)\<close>\<close>

definition after_last :: "char \<Rightarrow> string \<Rightarrow> string" where
  "after_last c s = rev (takeWhile (\<lambda>x. x \<noteq> c) (rev s))"

definition before_last :: "char \<Rightarrow> string \<Rightarrow> string option" where
  "before_last c s = (if c \<in> set s then Some (rev (tl (dropWhile (\<lambda>x. x \<noteq> c) (rev s)))) else None)"

lemma after_last_append: "c \<notin> set t \<Longrightarrow> after_last c (s @ c # t) = t"
  by (simp add: after_last_def takeWhile_append)

lemma after_last_free: "c \<notin> set s \<Longrightarrow> after_last c s = s"
proof -
  assume "c \<notin> set s"
  then have "takeWhile (\<lambda>x. x \<noteq> c) (rev s) = rev s" by (intro takeWhile_eq_all_conv [THEN iffD2]) auto
  then show ?thesis by (simp only: after_last_def rev_rev_ident)
qed

section \<open>Letters\<close>

text \<open>
  The letters under the tests and the case folding of ASCII, and text that starts and ends with a letter or a
  digit under \<open>trim\<close>.
\<close>

lemma lower_letters:
  "is_ascii_alphanumeric (CHR ''a'')" "ascii_lower (CHR ''a'') = CHR ''a''" "is_ascii_alphanumeric (CHR ''b'')" "ascii_lower (CHR ''b'') = CHR ''b''"
  "is_ascii_alphanumeric (CHR ''c'')" "ascii_lower (CHR ''c'') = CHR ''c''" "is_ascii_alphanumeric (CHR ''d'')" "ascii_lower (CHR ''d'') = CHR ''d''"
  "is_ascii_alphanumeric (CHR ''e'')" "ascii_lower (CHR ''e'') = CHR ''e''" "is_ascii_alphanumeric (CHR ''f'')" "ascii_lower (CHR ''f'') = CHR ''f''"
  "is_ascii_alphanumeric (CHR ''g'')" "ascii_lower (CHR ''g'') = CHR ''g''" "is_ascii_alphanumeric (CHR ''h'')" "ascii_lower (CHR ''h'') = CHR ''h''"
  "is_ascii_alphanumeric (CHR ''i'')" "ascii_lower (CHR ''i'') = CHR ''i''" "is_ascii_alphanumeric (CHR ''j'')" "ascii_lower (CHR ''j'') = CHR ''j''"
  "is_ascii_alphanumeric (CHR ''k'')" "ascii_lower (CHR ''k'') = CHR ''k''" "is_ascii_alphanumeric (CHR ''l'')" "ascii_lower (CHR ''l'') = CHR ''l''"
  "is_ascii_alphanumeric (CHR ''m'')" "ascii_lower (CHR ''m'') = CHR ''m''" "is_ascii_alphanumeric (CHR ''n'')" "ascii_lower (CHR ''n'') = CHR ''n''"
  "is_ascii_alphanumeric (CHR ''o'')" "ascii_lower (CHR ''o'') = CHR ''o''" "is_ascii_alphanumeric (CHR ''p'')" "ascii_lower (CHR ''p'') = CHR ''p''"
  "is_ascii_alphanumeric (CHR ''q'')" "ascii_lower (CHR ''q'') = CHR ''q''" "is_ascii_alphanumeric (CHR ''r'')" "ascii_lower (CHR ''r'') = CHR ''r''"
  "is_ascii_alphanumeric (CHR ''s'')" "ascii_lower (CHR ''s'') = CHR ''s''" "is_ascii_alphanumeric (CHR ''t'')" "ascii_lower (CHR ''t'') = CHR ''t''"
  "is_ascii_alphanumeric (CHR ''u'')" "ascii_lower (CHR ''u'') = CHR ''u''" "is_ascii_alphanumeric (CHR ''v'')" "ascii_lower (CHR ''v'') = CHR ''v''"
  "is_ascii_alphanumeric (CHR ''w'')" "ascii_lower (CHR ''w'') = CHR ''w''" "is_ascii_alphanumeric (CHR ''x'')" "ascii_lower (CHR ''x'') = CHR ''x''"
  "is_ascii_alphanumeric (CHR ''y'')" "ascii_lower (CHR ''y'') = CHR ''y''" "is_ascii_alphanumeric (CHR ''z'')" "ascii_lower (CHR ''z'') = CHR ''z''"
  by (simp_all add: ascii_lower_def is_ascii_alphanumeric_def ascii_classes)

lemma upper_letters:
  "is_ascii_alphanumeric (CHR ''A'')" "ascii_lower (CHR ''A'') = CHR ''a''" "is_ascii_alphanumeric (CHR ''B'')" "ascii_lower (CHR ''B'') = CHR ''b''"
  "is_ascii_alphanumeric (CHR ''C'')" "ascii_lower (CHR ''C'') = CHR ''c''" "is_ascii_alphanumeric (CHR ''D'')" "ascii_lower (CHR ''D'') = CHR ''d''"
  "is_ascii_alphanumeric (CHR ''E'')" "ascii_lower (CHR ''E'') = CHR ''e''" "is_ascii_alphanumeric (CHR ''F'')" "ascii_lower (CHR ''F'') = CHR ''f''"
  "is_ascii_alphanumeric (CHR ''G'')" "ascii_lower (CHR ''G'') = CHR ''g''" "is_ascii_alphanumeric (CHR ''H'')" "ascii_lower (CHR ''H'') = CHR ''h''"
  "is_ascii_alphanumeric (CHR ''I'')" "ascii_lower (CHR ''I'') = CHR ''i''" "is_ascii_alphanumeric (CHR ''J'')" "ascii_lower (CHR ''J'') = CHR ''j''"
  "is_ascii_alphanumeric (CHR ''K'')" "ascii_lower (CHR ''K'') = CHR ''k''" "is_ascii_alphanumeric (CHR ''L'')" "ascii_lower (CHR ''L'') = CHR ''l''"
  "is_ascii_alphanumeric (CHR ''M'')" "ascii_lower (CHR ''M'') = CHR ''m''" "is_ascii_alphanumeric (CHR ''N'')" "ascii_lower (CHR ''N'') = CHR ''n''"
  "is_ascii_alphanumeric (CHR ''O'')" "ascii_lower (CHR ''O'') = CHR ''o''" "is_ascii_alphanumeric (CHR ''P'')" "ascii_lower (CHR ''P'') = CHR ''p''"
  "is_ascii_alphanumeric (CHR ''Q'')" "ascii_lower (CHR ''Q'') = CHR ''q''" "is_ascii_alphanumeric (CHR ''R'')" "ascii_lower (CHR ''R'') = CHR ''r''"
  "is_ascii_alphanumeric (CHR ''S'')" "ascii_lower (CHR ''S'') = CHR ''s''" "is_ascii_alphanumeric (CHR ''T'')" "ascii_lower (CHR ''T'') = CHR ''t''"
  "is_ascii_alphanumeric (CHR ''U'')" "ascii_lower (CHR ''U'') = CHR ''u''" "is_ascii_alphanumeric (CHR ''V'')" "ascii_lower (CHR ''V'') = CHR ''v''"
  "is_ascii_alphanumeric (CHR ''W'')" "ascii_lower (CHR ''W'') = CHR ''w''" "is_ascii_alphanumeric (CHR ''X'')" "ascii_lower (CHR ''X'') = CHR ''x''"
  "is_ascii_alphanumeric (CHR ''Y'')" "ascii_lower (CHR ''Y'') = CHR ''y''" "is_ascii_alphanumeric (CHR ''Z'')" "ascii_lower (CHR ''Z'') = CHR ''z''"
  by (simp_all add: ascii_lower_def is_ascii_alphanumeric_def ascii_classes char_of_def bit_iff_odd)

lemma other_chars:
  "\<not> is_ascii_alphanumeric (CHR '' '')" "\<not> is_ascii_alphanumeric (CHR ''-'')"
  by (simp_all add: is_ascii_alphanumeric_def ascii_classes)

lemma space_not_alphanumeric:
  "w \<in> set utf8_spaces \<Longrightarrow> w \<noteq> [] \<and> \<not> is_ascii_alphanumeric (hd w) \<and> \<not> is_ascii_alphanumeric (last w)"
  by (auto simp: utf8_spaces_def is_ascii_alphanumeric_def ascii_classes take_bit_eq_mod upt_rec)

lemma drop_spaces_stop:
  assumes "\<And>w. w \<in> set ws \<Longrightarrow> w \<noteq> [] \<Longrightarrow> hd w \<noteq> hd s"
  shows "drop_spaces ws s = s"
proof -
  have "leading_space ws s = None"
  proof (rule ccontr)
    assume "leading_space ws s \<noteq> None"
    then obtain w where w: "w \<in> set ws" "w \<noteq> []" "take (length w) s = w"
      unfolding leading_space_def find_None_iff by blast
    then have "hd s = hd w" by (metis hd_take length_greater_0_conv)
    with assms w(1,2) show False by auto
  qed
  then show ?thesis by (simp add: drop_spaces.simps [of ws s])
qed

lemma trim_alphanumeric:
  assumes "s \<noteq> []" and "is_ascii_alphanumeric (hd s)" and "is_ascii_alphanumeric (last s)"
  shows "trim s = s"
proof -
  have "drop_spaces utf8_spaces s = s"
    by (rule drop_spaces_stop) (use assms space_not_alphanumeric in metis)
  moreover have "drop_spaces (map rev utf8_spaces) (rev s) = rev s"
    by (rule drop_spaces_stop) (use assms space_not_alphanumeric in \<open>auto simp: hd_rev dest: sym\<close>)
  ultimately show ?thesis by (simp add: trim_def)
qed

end
