(* ===== verification/Connector_Merge.thy ===== *)
theory Connector_Merge
  imports Rust_Search Json_Value
begin

text \<open>
  \<^verbatim>\<open>crates/notch-connectors/src/merge.rs\<close> and the template part of \<^verbatim>\<open>adapter.rs\<close>: how the hooks of
  the program get into and out of a vendor's configuration file without touching foreign entries.
  Values are \<open>serde_json::Value\<close>s; where the code changes a value in place the model returns the
  changed one. Paths are strings; \<open>is_absolute\<close>, \<open>canonicalize\<close> and \<open>is_file\<close> are asked of the
  environment.
\<close>

section \<open>Managed commands\<close>

definition MANAGED_MARKER :: string where
  "MANAGED_MARKER = ''llm-notch-hook''"

definition HELPER_PATH_PLACEHOLDER :: string where
  "HELPER_PATH_PLACEHOLDER = ''{{LLM_NOTCH_HELPER}}''"

definition WRAPPER_PATH_PLACEHOLDER :: string where
  "WRAPPER_PATH_PLACEHOLDER = ''{{LLM_NOTCH_WRAPPER}}''"

definition WRAPPER_ABSOLUTE_PLACEHOLDER :: string where
  "WRAPPER_ABSOLUTE_PLACEHOLDER = ''{{LLM_NOTCH_WRAPPER_ABSOLUTE_PATH}}''"

definition is_managed_command :: "string \<Rightarrow> bool" where
  "is_managed_command command \<longleftrightarrow> contains_sub MANAGED_MARKER command"

definition hook_command :: "json \<Rightarrow> string option" where
  "hook_command hook = Option.bind (json_get ''command'' hook) as_str"

definition managed_command_of :: "string option \<Rightarrow> string list" where
  "managed_command_of c = (case c of Some command \<Rightarrow> if is_managed_command command then [command] else [] | None \<Rightarrow> [])"

text \<open>The recursion over all values below; \<open>collect_managed_commands\<close> starts it.\<close>

fun walk_managed_commands :: "json \<Rightarrow> string list" where
  "walk_managed_commands (JObject m) =
     managed_command_of (hook_command (JObject m)) @ concat (map (\<lambda>(k, v). walk_managed_commands v) m)"
| "walk_managed_commands (JArray vs) = concat (map walk_managed_commands vs)"
| "walk_managed_commands v = []"

definition collect_managed_commands :: "json \<Rightarrow> string list" where
  "collect_managed_commands v = walk_managed_commands v"

definition json_array_at :: "string \<Rightarrow> json \<Rightarrow> json list option" where
  "json_array_at key v = Option.bind (json_get key v) as_array"

definition entry_command :: "json \<Rightarrow> string option" where
  "entry_command entry =
     or_else (hook_command entry)
       (Option.bind (json_array_at ''hooks'' entry) (\<lambda>hooks. case hooks of [] \<Rightarrow> None | hook # _ \<Rightarrow> hook_command hook))"

definition managed_entry :: "json \<Rightarrow> bool" where
  "managed_entry entry \<longleftrightarrow> (case entry_command entry of Some c \<Rightarrow> is_managed_command c | None \<Rightarrow> False)"

definition managed_hook :: "json \<Rightarrow> bool" where
  "managed_hook hook \<longleftrightarrow> (case hook_command hook of Some c \<Rightarrow> is_managed_command c | None \<Rightarrow> False)"

section \<open>The executable of a command\<close>

definition env_name :: "string \<Rightarrow> bool" where
  "env_name name \<longleftrightarrow> name \<noteq> [] \<and> list_all (\<lambda>c. is_ascii_upper c \<or> c = CHR ''_'') name"

lemma trim_start_shorter: "length (trim_start s) \<le> length s"
  unfolding trim_start_def
proof (induction "utf8_spaces" s rule: drop_spaces.induct)
  case (1 s)
  then show ?case
    by (subst drop_spaces.simps) (auto split: option.splits intro: le_trans)
qed

definition after_assignment :: "string \<Rightarrow> string" where
  "after_assignment rest =
     (let after = trim_start rest
      in case after of c # cs \<Rightarrow> if is_ascii_digit c then trim_start cs else after | [] \<Rightarrow> after)"

lemma after_assignment_shorter: "length (after_assignment s) \<le> length s"
  using trim_start_shorter [of s] trim_start_shorter [of "tl (trim_start s)"]
  by (auto simp: after_assignment_def Let_def split: list.splits)

function strip_assignments :: "string \<Rightarrow> string" where
  "strip_assignments rest =
     (case find_sub ''='' rest of
        None \<Rightarrow> rest
      | Some i \<Rightarrow>
          if env_name (take i rest) then strip_assignments (after_assignment (drop (Suc i) rest)) else rest)"
  by auto
termination
proof (relation "measure length", simp)
  fix rest i assume f: "find_sub ''='' rest = Some i"
  then have "i < length rest" by (auto dest!: find_sub_Some)
  then have "length (drop (Suc i) rest) < length rest" by simp
  with after_assignment_shorter [of "drop (Suc i) rest"]
  show "(after_assignment (drop (Suc i) rest), rest) \<in> measure length" by simp
qed

declare strip_assignments.simps [simp del]

definition strip_env_prefix :: "string \<Rightarrow> string" where
  "strip_env_prefix command = strip_assignments (trim command)"

definition quote_char :: char where
  "quote_char = CHR 0x22"

definition unquote_token :: "string \<Rightarrow> string" where
  "unquote_token token =
     (case Option.bind (strip_prefix [quote_char] token) (strip_suffix [quote_char]) of
        Some inner \<Rightarrow> inner
      | None \<Rightarrow> token)"

definition extract_executable_token :: "string \<Rightarrow> string option" where
  "extract_executable_token raw =
     (let command = trim raw
      in if command = [] then None
         else if hd command = quote_char
         then map_option (\<lambda>e. take e (tl command)) (find_sub [quote_char] (tl command))
         else
           let lower = to_ascii_lowercase command
           in if starts_with ''sh '' lower \<or> starts_with ''pwsh '' lower \<or> starts_with ''powershell '' lower
              then map_option unquote_token (second_word command)
              else (case find_sub '' hook '' command of
                  Some i \<Rightarrow> Some (unquote_token (trim (take i command)))
                | None \<Rightarrow> map_option unquote_token (first_word command)))"

definition has_placeholder :: "string \<Rightarrow> bool" where
  "has_placeholder command \<longleftrightarrow>
     contains_sub HELPER_PATH_PLACEHOLDER command \<or> contains_sub WRAPPER_PATH_PLACEHOLDER command \<or>
     contains_sub WRAPPER_ABSOLUTE_PLACEHOLDER command"

definition looks_like_path :: "(string \<Rightarrow> bool) \<Rightarrow> string \<Rightarrow> bool" where
  "looks_like_path is_absolute value \<longleftrightarrow>
     contains_sub ''/'' value \<or> contains_sub [CHR 0x5C] value \<or> ends_with ''.exe'' value \<or> is_absolute value \<or>
     contains_sub ''llm-notch-hook-wrapper'' value"

definition extract_invocation_path_from_command :: "(string \<Rightarrow> bool) \<Rightarrow> string \<Rightarrow> string option" where
  "extract_invocation_path_from_command is_absolute raw =
     (let command = strip_env_prefix (trim raw)
      in if has_placeholder command then None
         else Option.bind (extract_executable_token command) (\<lambda>token.
           let executable = unquote_token token
           in if executable = ''llm-notch-hook'' \<or> executable = ''llm-notch-hook.exe'' then None
              else if looks_like_path is_absolute executable then Some executable else None))"

text \<open>What the file system says of paths.\<close>

record path_world =
  pw_is_absolute :: "string \<Rightarrow> bool"
  pw_is_file :: "string \<Rightarrow> bool"
  pw_canonicalize :: "string \<Rightarrow> string option"

definition paths_refer_to_same_file :: "path_world \<Rightarrow> string \<Rightarrow> string \<Rightarrow> bool" where
  "paths_refer_to_same_file w left right =
     (case pw_canonicalize w left of
        None \<Rightarrow> left = right
      | Some l \<Rightarrow> (case pw_canonicalize w right of None \<Rightarrow> l = right | Some r \<Rightarrow> l = r))"

datatype configured_helper_validation =
    HelperOk
  | UnresolvedPlaceholder
  | PathMissing string
  | PathMismatch string string

fun check_paths :: "path_world \<Rightarrow> string \<Rightarrow> string list \<Rightarrow> configured_helper_validation" where
  "check_paths w expected [] = HelperOk"
| "check_paths w expected (configured # rest) =
     (if \<not> pw_is_file w configured then PathMissing configured
      else if \<not> paths_refer_to_same_file w configured expected then PathMismatch configured expected
      else check_paths w expected rest)"

text \<open>\<open>sort\<close> and \<open>dedup\<close> use the order of paths, a parameter here.\<close>

definition validate_configured_helper_paths ::
  "path_world \<Rightarrow> (string list \<Rightarrow> string list) \<Rightarrow> string list \<Rightarrow> string \<Rightarrow> configured_helper_validation" where
  "validate_configured_helper_paths w sort_dedup commands expected =
     (if list_ex has_placeholder commands then UnresolvedPlaceholder
      else check_paths w expected
        (sort_dedup (List.map_filter (extract_invocation_path_from_command (pw_is_absolute w)) commands)))"

section \<open>hooks.json files\<close>

definition collect_foreign_hooks_json :: "json \<Rightarrow> string list" where
  "collect_foreign_hooks_json v =
     (case Option.bind (json_get ''hooks'' v) as_object of
        None \<Rightarrow> []
      | Some hooks \<Rightarrow>
          concat (map (\<lambda>(event, entries). case as_array entries of
              None \<Rightarrow> []
            | Some es \<Rightarrow> List.map_filter (\<lambda>entry. case entry_command entry of
                  None \<Rightarrow> None
                | Some command \<Rightarrow> if is_managed_command command then None else Some (event @ '':'' @ command)) es) hooks))"

definition add_missing :: "(json \<Rightarrow> string option) \<Rightarrow> json \<Rightarrow> json list \<Rightarrow> json list" where
  "add_missing command_of entry entries =
     (case command_of entry of
        None \<Rightarrow> entries
      | Some command \<Rightarrow>
          if list_ex (\<lambda>e. command_of e = Some command) entries then entries else entries @ [entry])"

definition slot_array :: "json \<Rightarrow> json list" where
  "slot_array slot = (case as_array slot of Some es \<Rightarrow> es | None \<Rightarrow> [])"

fun merge_event :: "string \<times> json \<Rightarrow> (string \<times> json) list \<Rightarrow> (string \<times> json) list" where
  "merge_event (event, template_entries) hooks =
     (case as_array template_entries of
        None \<Rightarrow> hooks
      | Some es \<Rightarrow>
          let managed = filter managed_entry es
          in if managed = [] then hooks
             else bt_entry event (JArray []) (\<lambda>slot. JArray (fold (add_missing entry_command) managed (slot_array slot))) hooks)"

text \<open>The hooks object of a configuration, created when it is missing.\<close>

definition ensure_hooks :: "(string \<times> json) list \<Rightarrow> (string \<times> json) list" where
  "ensure_hooks members = (if map_of members ''hooks'' = None then bt_insert ''hooks'' (JObject []) members else members)"

definition with_hooks ::
  "((string \<times> json) list \<Rightarrow> (string \<times> json) list) \<Rightarrow> (string \<times> json) list \<Rightarrow> (string \<times> json) list" where
  "with_hooks f members =
     (case Option.bind (map_of members ''hooks'') as_object of
        None \<Rightarrow> members
      | Some hooks \<Rightarrow> bt_insert ''hooks'' (JObject (f hooks)) members)"

definition merge_hooks_json :: "json \<Rightarrow> json \<Rightarrow> json \<times> string list" where
  "merge_hooks_json target template =
     (let preserved = collect_foreign_hooks_json target
      in case Option.bind (json_get ''hooks'' template) as_object of
           None \<Rightarrow> (target, preserved)
         | Some template_hooks \<Rightarrow>
             (case as_object target of
                None \<Rightarrow> (target, preserved)
              | Some members \<Rightarrow>
                  let present = ensure_hooks members
                  in if Option.bind (map_of present ''hooks'') as_object = None then (JObject present, preserved)
                     else
                       let merged = with_hooks (fold merge_event template_hooks) present
                       in (JObject (case json_get ''version'' template of
                              None \<Rightarrow> merged
                            | Some version \<Rightarrow> bt_entry ''version'' version (\<lambda>v. v) merged), preserved)))"

definition removed_events :: "(json \<Rightarrow> bool) \<Rightarrow> (string \<times> json) list \<Rightarrow> string list" where
  "removed_events managed hooks =
     concat (map (\<lambda>(event, entries). replicate (length (filter managed (slot_array entries))) event) hooks)"

definition drop_empty_arrays :: "(string \<times> json) list \<Rightarrow> (string \<times> json) list" where
  "drop_empty_arrays = filter (\<lambda>(event, entries). entries \<noteq> JArray [])"

definition remove_entries :: "(json list \<Rightarrow> json list) \<Rightarrow> (string \<times> json) list \<Rightarrow> (string \<times> json) list" where
  "remove_entries f hooks =
     drop_empty_arrays (map (\<lambda>(event, entries). (event, case as_array entries of None \<Rightarrow> entries | Some es \<Rightarrow> JArray (f es))) hooks)"

definition remove_hooks_json :: "json \<Rightarrow> json \<times> string list" where
  "remove_hooks_json target =
     (case Option.bind (json_get ''hooks'' target) as_object of
        None \<Rightarrow> (target, [])
      | Some hooks \<Rightarrow>
          (json_set ''hooks'' (JObject (remove_entries (filter (\<lambda>e. \<not> managed_entry e)) hooks)) target,
           removed_events managed_entry hooks))"

section \<open>Claude settings\<close>

definition group_matcher :: "json \<Rightarrow> string" where
  "group_matcher hook_group = (case Option.bind (json_get ''matcher'' hook_group) as_str of Some m \<Rightarrow> m | None \<Rightarrow> [])"

definition collect_foreign_claude_settings :: "json \<Rightarrow> string list" where
  "collect_foreign_claude_settings v =
     (case Option.bind (json_get ''hooks'' v) as_object of
        None \<Rightarrow> []
      | Some hooks \<Rightarrow>
          concat (map (\<lambda>(event, groups).
            concat (map (\<lambda>hook_group. case json_array_at ''hooks'' hook_group of
                None \<Rightarrow> []
              | Some hs \<Rightarrow> List.map_filter (\<lambda>hook. case hook_command hook of
                    None \<Rightarrow> None
                  | Some command \<Rightarrow> if is_managed_command command then None
                      else Some (event @ '':'' @ group_matcher hook_group @ '':'' @ command)) hs) (slot_array groups))) hooks))"

text \<open>The first group of the matcher takes the hooks it does not have yet.\<close>

definition extend_group :: "json list \<Rightarrow> json \<Rightarrow> json" where
  "extend_group managed hook_group =
     (case as_object hook_group of
        None \<Rightarrow> hook_group
      | Some members \<Rightarrow>
          let present = (if map_of members ''hooks'' = None then bt_insert ''hooks'' (JArray []) members else members)
          in (case Option.bind (map_of present ''hooks'') as_array of
                None \<Rightarrow> JObject present
              | Some hs \<Rightarrow> JObject (bt_insert ''hooks'' (JArray (fold (add_missing hook_command) managed hs)) present)))"

fun update_first :: "('a \<Rightarrow> bool) \<Rightarrow> ('a \<Rightarrow> 'a) \<Rightarrow> 'a list \<Rightarrow> 'a list option" where
  "update_first p f [] = None"
| "update_first p f (x # xs) = (if p x then Some (f x # xs) else map_option ((#) x) (update_first p f xs))"

definition new_group :: "string \<Rightarrow> json list \<Rightarrow> json" where
  "new_group matcher managed =
     json_object ((if matcher = [] then [] else [(''matcher'', JString matcher)]) @ [(''hooks'', JArray managed)])"

definition managed_hooks_of :: "json \<Rightarrow> json list" where
  "managed_hooks_of hook_group =
     filter managed_hook (case json_array_at ''hooks'' hook_group of Some hs \<Rightarrow> hs | None \<Rightarrow> [])"

definition merge_group :: "json \<Rightarrow> json list \<Rightarrow> json list" where
  "merge_group template_group groups =
     (let matcher = group_matcher template_group; managed = managed_hooks_of template_group
      in if managed = [] then groups
         else (case update_first (\<lambda>g. group_matcher g = matcher) (extend_group managed) groups of
             Some groups' \<Rightarrow> groups'
           | None \<Rightarrow> groups @ [new_group matcher managed]))"

fun merge_groups_event :: "string \<times> json \<Rightarrow> (string \<times> json) list \<Rightarrow> (string \<times> json) list" where
  "merge_groups_event (event, template_groups) hooks =
     (case as_array template_groups of
        None \<Rightarrow> hooks
      | Some tgs \<Rightarrow> bt_entry event (JArray []) (\<lambda>slot. JArray (fold merge_group tgs (slot_array slot))) hooks)"

definition merge_claude_settings :: "json \<Rightarrow> json \<Rightarrow> json \<times> string list" where
  "merge_claude_settings target template =
     (let preserved = collect_foreign_claude_settings target
      in case Option.bind (json_get ''hooks'' template) as_object of
           None \<Rightarrow> (target, preserved)
         | Some template_hooks \<Rightarrow>
             (case as_object target of
                None \<Rightarrow> (target, preserved)
              | Some members \<Rightarrow> (JObject (with_hooks (fold merge_groups_event template_hooks) (ensure_hooks members)), preserved)))"

definition strip_group :: "json \<Rightarrow> json" where
  "strip_group hook_group =
     (case json_array_at ''hooks'' hook_group of
        None \<Rightarrow> hook_group
      | Some hs \<Rightarrow> json_set ''hooks'' (JArray (filter (\<lambda>h. \<not> managed_hook h) hs)) hook_group)"

definition has_hooks :: "json \<Rightarrow> bool" where
  "has_hooks hook_group \<longleftrightarrow> (case json_array_at ''hooks'' hook_group of Some hs \<Rightarrow> hs \<noteq> [] | None \<Rightarrow> False)"

definition strip_groups :: "json list \<Rightarrow> json list" where
  "strip_groups groups = filter has_hooks (map strip_group groups)"

definition remove_claude_settings :: "json \<Rightarrow> json \<times> string list" where
  "remove_claude_settings target =
     (case Option.bind (json_get ''hooks'' target) as_object of
        None \<Rightarrow> (target, [])
      | Some hooks \<Rightarrow>
          (json_set ''hooks'' (JObject (remove_entries strip_groups hooks)) target,
           concat (map (\<lambda>(event, groups).
             concat (map (\<lambda>g. replicate (length (managed_hooks_of g)) event) (slot_array groups))) hooks)))"

section \<open>Antigravity named hooks\<close>

definition named_block_has_managed_commands :: "json \<Rightarrow> bool" where
  "named_block_has_managed_commands block =
     (case as_object block of
        None \<Rightarrow> False
      | Some obj \<Rightarrow> list_ex (\<lambda>(key, v). key \<noteq> ''enabled'' \<and>
          list_ex (\<lambda>entry. managed_entry entry \<or> managed_hooks_of entry \<noteq> []) (slot_array v)) obj)"

definition collect_foreign_antigravity_named_hooks :: "json \<Rightarrow> string list" where
  "collect_foreign_antigravity_named_hooks v =
     (case as_object v of
        None \<Rightarrow> []
      | Some members \<Rightarrow> map fst (filter (\<lambda>(name, block). \<not> named_block_has_managed_commands block) members))"

definition merge_antigravity_named_hooks :: "json \<Rightarrow> json \<Rightarrow> json \<times> string list" where
  "merge_antigravity_named_hooks target template =
     (let preserved = collect_foreign_antigravity_named_hooks target
      in case as_object template of
           None \<Rightarrow> (target, preserved)
         | Some blocks \<Rightarrow>
             (case as_object target of
                None \<Rightarrow> (target, preserved)
              | Some members \<Rightarrow>
                  (JObject (fold (\<lambda>(name, block) m. if named_block_has_managed_commands block then bt_insert name block m else m)
                     blocks members), preserved)))"

definition remove_antigravity_named_hooks :: "json \<Rightarrow> json \<times> string list" where
  "remove_antigravity_named_hooks target =
     (case as_object target of
        None \<Rightarrow> (target, [])
      | Some members \<Rightarrow>
          (JObject (filter (\<lambda>(name, block). \<not> named_block_has_managed_commands block) members),
           map fst (filter (\<lambda>(name, block). named_block_has_managed_commands block) members)))"

end
