(* ===== verification/Connector_Laws.thy ===== *)
theory Connector_Laws
  imports Connector_Merge
begin

text \<open>
  The three configuration formats keep one contract, the locale \<open>config_format\<close>: installing twice is
  installing once, removing undoes an installation, and repairing is stable. It is interpreted on
  the hooks.json, the Claude settings and the Antigravity functions.
\<close>

section \<open>Maps and folds\<close>

lemma map_of_graph: "distinct (map fst m) \<Longrightarrow> map (\<lambda>k. (k, the (map_of m k))) (map fst m) = m"
  by (auto intro!: map_idI)

lemma bt_eqI:
  assumes "bt_wf m" and "bt_wf m'" and "\<And>k. map_of m k = map_of m' k"
  shows "m = m'"
proof -
  have "fst ` set m = fst ` set m'" using assms(3) bt_key_iff by (metis (mono_tags, lifting) subsetI subset_antisym)
  then have "map fst m = map fst m'"
    using assms(1,2) unfolding bt_wf_def by (intro strict_sorted_equal) simp_all
  then show ?thesis
    using map_of_graph [OF bt_wf_distinct [OF assms(1)]] map_of_graph [OF bt_wf_distinct [OF assms(2)]] assms(3) by simp
qed

lemma bt_insert_same: "bt_wf m \<Longrightarrow> map_of m k = Some v \<Longrightarrow> bt_insert k v m = m"
  by (rule bt_eqI) auto

lemma bt_insert_twice: "bt_wf m \<Longrightarrow> bt_insert k v (bt_insert k v' m) = bt_insert k v m"
  by (rule bt_eqI) auto

lemma bt_insert_swap: "bt_wf m \<Longrightarrow> k \<noteq> k' \<Longrightarrow> bt_insert k v (bt_insert k' v' m) = bt_insert k' v' (bt_insert k v m)"
  by (rule bt_eqI) auto

lemma bt_entry_same: "bt_wf m \<Longrightarrow> map_of m k \<noteq> None \<Longrightarrow> bt_entry k d (\<lambda>v. v) m = m"
  by (auto simp: bt_entry_def intro: bt_insert_same)

lemma bt_insert_entry:
  "bt_wf m \<Longrightarrow> k \<noteq> k' \<Longrightarrow> bt_insert k v (bt_entry k' d f m) = bt_entry k' d f (bt_insert k v m)"
  by (simp add: bt_entry_def bt_insert_swap)

text \<open>A pass over a list after which every element has nothing left to do is idempotent.\<close>

lemma fold_settled: "(\<And>x. x \<in> set xs \<Longrightarrow> f x s = s) \<Longrightarrow> fold f xs s = s"
  by (induction xs) auto

lemma fold_idem:
  assumes "I s"
    and inv: "\<And>x s. x \<in> set xs \<Longrightarrow> I s \<Longrightarrow> I (f x s)"
    and idem: "\<And>x s. x \<in> set xs \<Longrightarrow> I s \<Longrightarrow> f x (f x s) = f x s"
    and keep: "\<And>x y s. x \<in> set xs \<Longrightarrow> y \<in> set xs \<Longrightarrow> x \<noteq> y \<Longrightarrow> I s \<Longrightarrow> f x s = s \<Longrightarrow> f x (f y s) = f y s"
  shows "fold f xs (fold f xs s) = fold f xs s"
proof -
  have "I (fold f ys s) \<and> (\<forall>x\<in>set ys. f x (fold f ys s) = fold f ys s)" if "set ys \<subseteq> set xs" for ys
    using that
  proof (induction ys rule: rev_induct)
    case Nil
    with assms(1) show ?case by simp
  next
    case (snoc y ys)
    then have IH: "I (fold f ys s)" "\<forall>x\<in>set ys. f x (fold f ys s) = fold f ys s" and y: "y \<in> set xs" "set ys \<subseteq> set xs"
      by auto
    have "f x (f y (fold f ys s)) = f y (fold f ys s)" if "x \<in> set (ys @ [y])" for x
    proof (cases "x = y")
      case True
      with idem [OF y(1) IH(1)] show ?thesis by simp
    next
      case False
      with that have "x \<in> set ys" by simp
      with keep [OF _ y(1) False IH(1)] IH(2) y(2) show ?thesis by auto
    qed
    with inv [OF y(1) IH(1)] show ?case by simp
  qed
  then show ?thesis by (intro fold_settled) simp
qed

section \<open>Lists of hooks\<close>

lemma add_missing_idem: "add_missing c x (add_missing c x es) = add_missing c x es"
  by (auto simp: add_missing_def split: option.splits)

lemma add_missing_grows: "\<exists>new. add_missing c x es = es @ new \<and> set new \<subseteq> {x}"
  by (auto simp: add_missing_def split: option.splits)

lemma add_missing_keep: "add_missing c x es = es \<Longrightarrow> add_missing c x (add_missing c y es) = add_missing c y es"
  by (auto simp: add_missing_def split: option.splits if_splits)

lemma add_all_idem:
  "fold (add_missing c) xs (fold (add_missing c) xs es) = fold (add_missing c) xs es"
  by (rule fold_idem [where I = "\<lambda>_. True"]) (simp_all add: add_missing_idem add_missing_keep)

lemma add_all_grows: "\<exists>new. fold (add_missing c) xs es = es @ new \<and> set new \<subseteq> set xs"
proof (induction xs arbitrary: es)
  case (Cons x xs)
  obtain n1 where "add_missing c x es = es @ n1" "set n1 \<subseteq> {x}" using add_missing_grows by metis
  moreover obtain n2 where "fold (add_missing c) xs (es @ n1) = (es @ n1) @ n2" "set n2 \<subseteq> set xs"
    using Cons.IH by metis
  ultimately show ?case by (auto intro!: exI [of _ "n1 @ n2"])
qed simp

lemma add_all_foreign:
  assumes "\<And>x. x \<in> set xs \<Longrightarrow> managed x"
  shows "filter (\<lambda>e. \<not> managed e) (fold (add_missing c) xs es) = filter (\<lambda>e. \<not> managed e) es"
proof -
  obtain new where "fold (add_missing c) xs es = es @ new" "set new \<subseteq> set xs" using add_all_grows by metis
  moreover from this(2) assms have "filter (\<lambda>e. \<not> managed e) new = []" by (auto simp: filter_empty_conv)
  ultimately show ?thesis by simp
qed

section \<open>Events\<close>

text \<open>The two event passes have one shape: a template slot with work extends the slot of the target.\<close>

definition extend_slots ::
  "(json list \<Rightarrow> json list \<Rightarrow> json list) \<Rightarrow> (json list \<Rightarrow> bool) \<Rightarrow> string \<times> json \<Rightarrow> (string \<times> json) list \<Rightarrow> (string \<times> json) list" where
  "extend_slots g idle x hooks =
     (case as_array (snd x) of
        None \<Rightarrow> hooks
      | Some ts \<Rightarrow> if idle ts then hooks
          else bt_entry (fst x) (JArray []) (\<lambda>slot. JArray (g ts (slot_array slot))) hooks)"

lemma merge_event_extend:
  "merge_event = extend_slots (\<lambda>ts. fold (add_missing entry_command) (filter managed_entry ts)) (\<lambda>ts. filter managed_entry ts = [])"
  by (rule ext, rule ext) (auto simp: extend_slots_def Let_def split: option.splits)

lemma merge_groups_event_extend: "merge_groups_event = extend_slots (fold merge_group) (\<lambda>_. False)"
  by (rule ext, rule ext) (auto simp: extend_slots_def split: option.splits)

lemma slot_array_JArray [simp]: "slot_array (JArray es) = es"
  by (simp add: slot_array_def)

definition slot_of :: "(string \<times> json) list \<Rightarrow> string \<Rightarrow> json list" where
  "slot_of hooks event = (case map_of hooks event of None \<Rightarrow> [] | Some v \<Rightarrow> slot_array v)"

lemma bt_wf_extend [simp]: "bt_wf hooks \<Longrightarrow> bt_wf (extend_slots g idle x hooks)"
  by (auto simp: extend_slots_def split: option.splits)

lemma bt_wf_extend_all [simp]: "bt_wf hooks \<Longrightarrow> bt_wf (fold (extend_slots g idle) xs hooks)"
  by (induction xs arbitrary: hooks) auto

lemma extend_run:
  "as_array (snd x) = Some ts \<Longrightarrow> \<not> idle ts \<Longrightarrow>
   extend_slots g idle x hooks = bt_insert (fst x) (JArray (g ts (slot_of hooks (fst x)))) hooks"
  by (auto simp: extend_slots_def bt_entry_def slot_of_def slot_array_def split: option.splits)

lemma extend_idle: "as_array (snd x) = None \<or> (\<exists>ts. as_array (snd x) = Some ts \<and> idle ts) \<Longrightarrow> extend_slots g idle x hooks = hooks"
  by (auto simp: extend_slots_def)

lemma extend_all_idem:
  assumes "\<And>ts es. g ts (g ts es) = g ts es" and "bt_wf xs" and "bt_wf hooks"
  shows "fold (extend_slots g idle) xs (fold (extend_slots g idle) xs hooks) = fold (extend_slots g idle) xs hooks"
proof (rule fold_idem [where I = bt_wf, OF assms(3)])
  fix x and h :: "(string \<times> json) list" assume wf: "bt_wf h"
  show "bt_wf (extend_slots g idle x h)" using wf by simp
  show "extend_slots g idle x (extend_slots g idle x h) = extend_slots g idle x h"
  proof (cases "\<exists>ts. as_array (snd x) = Some ts \<and> \<not> idle ts")
    case True
    then obtain ts where "as_array (snd x) = Some ts" "\<not> idle ts" by blast
    with wf assms(1) show ?thesis by (simp add: extend_run slot_of_def bt_insert_twice)
  next
    case False
    then have "extend_slots g idle x h = h" for h by (intro extend_idle) auto
    then show ?thesis by simp
  qed
next
  fix x y and h :: "(string \<times> json) list"
  assume mem: "x \<in> set xs" "y \<in> set xs" "x \<noteq> y" and wf: "bt_wf h" and fixp: "extend_slots g idle x h = h"
  have keys: "fst x \<noteq> fst y"
    using mem bt_wf_distinct [OF assms(2)] by (metis eq_key_imp_eq_value prod.collapse)
  show "extend_slots g idle x (extend_slots g idle y h) = extend_slots g idle y h"
  proof (cases "\<exists>ts. as_array (snd x) = Some ts \<and> \<not> idle ts")
    case True
    then obtain ts where ts: "as_array (snd x) = Some ts" "\<not> idle ts" by blast
    from fixp ts have here: "map_of h (fst x) = Some (JArray (g ts (slot_of h (fst x))))"
      by (metis extend_run fun_upd_same map_of_bt_insert wf)
    have other: "map_of (extend_slots g idle y h) (fst x) = map_of h (fst x)"
      using keys wf by (auto simp: extend_slots_def split: option.splits)
    then have "slot_of (extend_slots g idle y h) (fst x) = slot_of h (fst x)" by (simp add: slot_of_def)
    with ts here other wf show ?thesis by (simp add: extend_run bt_insert_same)
  next
    case False
    then show ?thesis by (intro extend_idle) auto
  qed
qed

lemma remove_entries_wf: "bt_wf hooks \<Longrightarrow> bt_wf (remove_entries f hooks)"
  unfolding remove_entries_def drop_empty_arrays_def
  using bt_wf_map_values [of hooks "\<lambda>_ v. case as_array v of None \<Rightarrow> v | Some es \<Rightarrow> JArray (f es)"]
  by (simp add: bt_wf_def sorted_wrt_map sorted_wrt_filter)

lemma map_of_filter_values:
  "distinct (map fst m) \<Longrightarrow>
   map_of (filter (\<lambda>(k, v). P v) m) k = (case map_of m k of None \<Rightarrow> None | Some v \<Rightarrow> if P v then Some v else None)"
proof (induction m)
  case (Cons x m)
  then show ?case by (auto simp: map_of_eq_None_iff image_iff split: option.splits dest!: map_of_SomeD)
qed simp

lemma remove_entries_lookup:
  assumes "bt_wf hooks"
  shows "map_of (remove_entries f hooks) e =
    (case map_of hooks e of
       None \<Rightarrow> None
     | Some v \<Rightarrow> (case as_array v of None \<Rightarrow> Some v | Some es \<Rightarrow> if f es = [] then None else Some (JArray (f es))))"
proof -
  let ?m = "map (\<lambda>(event, entries). (event, case as_array entries of None \<Rightarrow> entries | Some es \<Rightarrow> JArray (f es))) hooks"
  have d: "distinct (map fst ?m)"
    using bt_wf_distinct [OF assms] by (simp add: comp_def case_prod_beta)
  have "map_of (remove_entries f hooks) e = (case map_of ?m e of None \<Rightarrow> None | Some v \<Rightarrow> if v = JArray [] then None else Some v)"
    unfolding remove_entries_def drop_empty_arrays_def using map_of_filter_values [OF d, of "\<lambda>v. v \<noteq> JArray []" e]
    by (auto split: option.splits)
  then show ?thesis
    by (auto simp: map_of_map_values split: option.splits)
qed

text \<open>Removing after extending: nothing of the extension stays.\<close>

definition array_slots :: "(string \<times> json) list \<Rightarrow> bool" where
  "array_slots hooks \<longleftrightarrow> list_all (\<lambda>(event, entries). as_array entries \<noteq> None) hooks"

lemma array_slots_lookup: "array_slots hooks \<Longrightarrow> map_of hooks e = Some v \<Longrightarrow> v = JArray (slot_array v)"
  by (auto simp: array_slots_def list_all_iff slot_array_def as_array_Some dest!: map_of_SomeD)

lemma array_slots_iff: "bt_wf hooks \<Longrightarrow> array_slots hooks \<longleftrightarrow> (\<forall>e v. map_of hooks e = Some v \<longrightarrow> as_array v \<noteq> None)"
  by (auto simp: array_slots_def list_all_iff map_of_iff_mem)

lemma remove_extend:
  assumes "\<And>ts es. \<not> idle ts \<Longrightarrow> f (g ts es) = f es" and "f [] = []" and "bt_wf hooks" and "array_slots hooks"
  shows "remove_entries f (extend_slots g idle x hooks) = remove_entries f hooks \<and> array_slots (extend_slots g idle x hooks)"
proof (cases "\<exists>ts. as_array (snd x) = Some ts \<and> \<not> idle ts")
  case True
  then obtain ts where ts: "as_array (snd x) = Some ts" "\<not> idle ts" by blast
  let ?h = "bt_insert (fst x) (JArray (g ts (slot_of hooks (fst x)))) hooks"
  have "remove_entries f ?h = remove_entries f hooks"
  proof (rule bt_eqI)
    fix e
    show "map_of (remove_entries f ?h) e = map_of (remove_entries f hooks) e"
    proof (cases "e = fst x")
      case True
      show ?thesis
      proof (cases "map_of hooks e")
        case None
        with True assms(1) [OF ts(2), of "[]"] assms(2,3) show ?thesis by (simp add: remove_entries_lookup slot_of_def)
      next
        case (Some v)
        then obtain es where "v = JArray es" using array_slots_lookup [OF assms(4)] by blast
        with Some True assms(1) [OF ts(2), of es] assms(3) show ?thesis by (simp add: remove_entries_lookup slot_of_def)
      qed
    next
      case False
      with assms(3) show ?thesis by (simp add: remove_entries_lookup)
    qed
  qed (simp_all add: remove_entries_wf assms(3))
  moreover have "array_slots ?h" using assms(3,4) by (auto simp: array_slots_iff)
  ultimately show ?thesis using ts by (simp add: extend_run)
next
  case False
  then have "extend_slots g idle x hooks = hooks" by (intro extend_idle) auto
  with assms(4) show ?thesis by simp
qed

lemma remove_extend_all:
  assumes "\<And>ts es. \<not> idle ts \<Longrightarrow> f (g ts es) = f es" and "f [] = []" and "bt_wf hooks" and "array_slots hooks"
  shows "remove_entries f (fold (extend_slots g idle) xs hooks) = remove_entries f hooks"
  using assms(3,4)
proof (induction xs arbitrary: hooks)
  case (Cons x xs)
  then show ?case using remove_extend [OF assms(1,2) Cons.prems] by simp
qed simp

lemma remove_entries_idem:
  assumes "\<And>es. f (f es) = f es" and "bt_wf hooks"
  shows "remove_entries f (remove_entries f hooks) = remove_entries f hooks"
  by (rule bt_eqI)
    (auto simp: remove_entries_wf assms remove_entries_lookup split: option.splits)

section \<open>Whole configurations\<close>

definition root_merge ::
  "((string \<times> json) list \<Rightarrow> (string \<times> json) list) \<Rightarrow> json option \<Rightarrow> json \<Rightarrow> json" where
  "root_merge F version target =
     (case as_object target of
        None \<Rightarrow> target
      | Some members \<Rightarrow>
          let present = ensure_hooks members
          in (case Option.bind (map_of present ''hooks'') as_object of
                None \<Rightarrow> JObject present
              | Some hooks \<Rightarrow>
                  let merged = bt_insert ''hooks'' (JObject (F hooks)) present
                  in JObject (case version of None \<Rightarrow> merged | Some v \<Rightarrow> bt_entry ''version'' v (\<lambda>v. v) merged)))"

definition root_remove :: "(json list \<Rightarrow> json list) \<Rightarrow> json \<Rightarrow> json" where
  "root_remove f target =
     (case Option.bind (json_get ''hooks'' target) as_object of
        None \<Rightarrow> target
      | Some hooks \<Rightarrow> json_set ''hooks'' (JObject (remove_entries f hooks)) target)"

text \<open>What \<open>serde_json\<close> guarantees of a parsed configuration: sorted keys in the two objects used.\<close>

definition config_wf :: "json \<Rightarrow> bool" where
  "config_wf x \<longleftrightarrow> (\<forall>members. as_object x = Some members \<longrightarrow>
     bt_wf members \<and> (\<forall>hooks. map_of members ''hooks'' = Some (JObject hooks) \<longrightarrow> bt_wf hooks))"

definition hooks_of :: "json \<Rightarrow> (string \<times> json) list option" where
  "hooks_of x = Option.bind (json_get ''hooks'' x) as_object"

lemma config_cases:
  assumes "config_wf x"
  obtains (plain) "as_object x = None" "hooks_of x = None"
    | (fresh) members where "x = JObject members" "bt_wf members" "map_of members ''hooks'' = None"
    | (odd) members v where "x = JObject members" "bt_wf members" "map_of members ''hooks'' = Some v" "as_object v = None"
    | (hooked) members hooks where "x = JObject members" "bt_wf members" "map_of members ''hooks'' = Some (JObject hooks)" "bt_wf hooks"
proof (cases x)
  case (JObject members)
  show ?thesis
  proof (cases "map_of members ''hooks''")
    case None
    with JObject assms fresh show ?thesis by (auto simp: config_wf_def)
  next
    case (Some v)
    with JObject assms odd hooked show ?thesis by (cases v) (auto simp: config_wf_def)
  qed
qed (use plain in \<open>auto simp: hooks_of_def json_get_def\<close>)

definition versioned :: "json option \<Rightarrow> (string \<times> json) list \<Rightarrow> (string \<times> json) list" where
  "versioned version m = (case version of None \<Rightarrow> m | Some v \<Rightarrow> bt_entry ''version'' v (\<lambda>v. v) m)"

lemma versioned_facts:
  assumes "bt_wf m"
  shows "bt_wf (versioned v m)" "map_of (versioned v m) ''hooks'' = map_of m ''hooks''"
    "bt_insert ''hooks'' h (versioned v m) = versioned v (bt_insert ''hooks'' h m)"
    "versioned v (versioned v m) = versioned v m"
  using assms by (auto simp: versioned_def bt_insert_entry bt_entry_same split: option.splits)

text \<open>A merge is the insertion of one hooks object and of the version.\<close>

lemma root_merge_hooked:
  assumes "bt_wf members" and "map_of members ''hooks'' = Some (JObject hooks)"
  shows "root_merge F version (JObject members) = JObject (versioned version (bt_insert ''hooks'' (JObject (F hooks)) members))"
  using assms by (simp add: root_merge_def ensure_hooks_def versioned_def Let_def)

lemma root_merge_fresh:
  assumes "bt_wf members" and "map_of members ''hooks'' = None"
  shows "root_merge F version (JObject members) = JObject (versioned version (bt_insert ''hooks'' (JObject (F [])) members))"
  using assms by (simp add: root_merge_def ensure_hooks_def versioned_def Let_def bt_insert_twice)

lemma root_merge_odd:
  assumes "map_of members ''hooks'' = Some v" and "as_object v = None"
  shows "root_merge F version (JObject members) = JObject members"
  using assms by (simp add: root_merge_def ensure_hooks_def Let_def)

lemma root_merge_plain: "as_object x = None \<Longrightarrow> root_merge F version x = x"
  by (simp add: root_merge_def)

lemma root_remove_hooked:
  "map_of members ''hooks'' = Some (JObject hooks) \<Longrightarrow>
   root_remove f (JObject members) = JObject (bt_insert ''hooks'' (JObject (remove_entries f hooks)) members)"
  by (simp add: root_remove_def)

lemma root_remove_other: "hooks_of x = None \<Longrightarrow> root_remove f x = x"
  by (simp add: root_remove_def hooks_of_def)

lemmas root_simps = root_merge_hooked root_merge_fresh root_merge_odd root_merge_plain root_remove_hooked
  versioned_facts bt_insert_twice

lemma root_merge_merge:
  assumes "config_wf x" and "\<And>hooks. bt_wf hooks \<Longrightarrow> bt_wf (G hooks) \<and> F (G hooks) = H hooks"
  shows "root_merge F v (root_merge G v x) = root_merge H v x"
  using assms(1)
proof (cases rule: config_cases)
  case plain
  then show ?thesis by (simp add: root_merge_plain)
next
  case (fresh members)
  with assms(2) [of "[]"] show ?thesis by (simp add: root_simps)
next
  case (odd members v)
  then show ?thesis by (simp add: root_merge_odd)
next
  case (hooked members hooks)
  with assms(2) [of hooks] show ?thesis by (simp add: root_simps)
qed

lemma root_remove_merge:
  assumes "config_wf x"
    and "\<And>hooks. bt_wf hooks \<Longrightarrow> hooks_of x = Some hooks \<or> hooks = [] \<Longrightarrow>
      remove_entries f (F hooks) = remove_entries f (G hooks)"
  shows "root_remove f (root_merge F v x) = root_remove f (root_merge G v x)"
  using assms(1)
proof (cases rule: config_cases)
  case plain
  then show ?thesis by (simp add: root_merge_plain)
next
  case (fresh members)
  with assms(2) [of "[]"] show ?thesis by (simp add: root_simps)
next
  case (odd members v)
  then show ?thesis by (simp add: root_merge_odd)
next
  case (hooked members hooks)
  with assms(2) [of hooks] show ?thesis by (simp add: root_simps hooks_of_def)
qed

lemma root_remove_idem:
  assumes "config_wf x" and "\<And>es. f (f es) = f es"
  shows "root_remove f (root_remove f x) = root_remove f x"
  using assms(1)
proof (cases rule: config_cases)
  case (hooked members hooks)
  with assms(2) show ?thesis by (simp add: root_simps remove_entries_idem)
qed (simp_all add: root_remove_other hooks_of_def)

lemma root_remove_seeded:
  assumes "config_wf x" and "\<And>es. f (f es) = f es"
  shows "root_remove f (root_merge (\<lambda>h. h) v (root_remove f x)) = root_merge (\<lambda>h. h) v (root_remove f x)"
  using assms(1)
proof (cases rule: config_cases)
  case plain
  then show ?thesis by (simp add: root_remove_other root_merge_plain)
next
  case (fresh members)
  then show ?thesis by (simp add: root_remove_other hooks_of_def root_simps) (simp add: remove_entries_def drop_empty_arrays_def)
next
  case (odd members v)
  then show ?thesis by (simp add: root_remove_other hooks_of_def root_merge_odd)
next
  case (hooked members hooks)
  with assms(2) show ?thesis by (simp add: root_simps remove_entries_idem)
qed

lemma config_wf_remove: "config_wf x \<Longrightarrow> config_wf (root_remove f x)"
  by (cases x rule: config_cases) (auto simp: root_remove_other hooks_of_def root_remove_hooked config_wf_def remove_entries_wf)

section \<open>Groups of hooks\<close>

lemma map_of_bt_insert_any: "map_of (bt_insert k v m) = (map_of m)(k \<mapsto> v)"
  by (induction k v m rule: bt_insert.induct) (auto simp: fun_eq_iff)

lemma bt_insert_twice_any: "bt_insert k v (bt_insert k v' m) = bt_insert k v m"
  by (induction k v' m rule: bt_insert.induct) auto

lemma update_first_fixed: "update_first p f xs = Some xs \<longleftrightarrow> (\<exists>x. find p xs = Some x \<and> f x = x)"
  by (induction xs) auto

lemma update_first_same:
  "update_first p h xs = Some ys \<Longrightarrow> (\<And>x. p (h x) = p x) \<Longrightarrow> find p ys = map_option h (find p xs)"
  by (induction xs arbitrary: ys) (auto split: if_splits)

lemma update_first_other:
  "update_first q h xs = Some ys \<Longrightarrow> (\<And>x. p (h x) = p x) \<Longrightarrow> (\<And>x. p x \<Longrightarrow> \<not> q x) \<Longrightarrow> find p ys = find p xs"
  by (induction xs arbitrary: ys) (auto split: if_splits)

lemma update_first_None: "update_first p h xs = None \<longleftrightarrow> find p xs = None"
  by (induction xs) auto

lemma add_all_settled:
  "fold (add_missing c) xs es = es \<longleftrightarrow> (\<forall>x\<in>set xs. add_missing c x es = es)"
proof
  show "\<forall>x\<in>set xs. add_missing c x es = es \<Longrightarrow> fold (add_missing c) xs es = es"
    by (rule fold_settled) simp
  show "fold (add_missing c) xs es = es \<Longrightarrow> \<forall>x\<in>set xs. add_missing c x es = es"
  proof (induction xs)
    case (Cons x xs)
    obtain n1 where n1: "add_missing c x es = es @ n1" using add_missing_grows by metis
    moreover obtain n2 where "fold (add_missing c) xs (es @ n1) = (es @ n1) @ n2" using add_all_grows by metis
    ultimately have "n1 = []" using Cons.prems by simp
    with n1 Cons show ?case by simp
  qed simp
qed

lemma add_all_keep:
  assumes "fold (add_missing c) xs es = es"
  shows "fold (add_missing c) xs (fold (add_missing c) ys es) = fold (add_missing c) ys es"
proof -
  have "add_missing c x (fold (add_missing c) zs es) = fold (add_missing c) zs es" if "x \<in> set xs" for x zs
  proof (induction zs rule: rev_induct)
    case Nil
    with assms that show ?case by (simp add: add_all_settled)
  qed (simp add: add_missing_keep)
  then show ?thesis by (simp add: add_all_settled)
qed

text \<open>The group with its hooks list replaced.\<close>

lemma extend_group_cases:
  obtains (none) "as_object g = None" "\<And>hs. extend_group hs g = g"
    | (odd) members v where "g = JObject members" "map_of members ''hooks'' = Some v" "as_array v = None"
        "\<And>hs. extend_group hs g = g"
    | (list) members old where "g = JObject members"
        "old = (case map_of members ''hooks'' of Some v \<Rightarrow> slot_array v | None \<Rightarrow> [])"
        "map_of members ''hooks'' = None \<or> map_of members ''hooks'' = Some (JArray old)"
        "\<And>hs. extend_group hs g = JObject (bt_insert ''hooks'' (JArray (fold (add_missing hook_command) hs old)) members)"
proof (cases g)
  case (JObject members)
  show ?thesis
  proof (cases "map_of members ''hooks''")
    case None
    with JObject list [of members "[]"] show ?thesis
      by (auto simp: extend_group_def Let_def map_of_bt_insert_any bt_insert_twice_any)
  next
    case (Some v)
    show ?thesis
    proof (cases "as_array v")
      case None
      with JObject Some odd show ?thesis by (auto simp: extend_group_def Let_def)
    next
      case (Some es)
      with JObject \<open>map_of members ''hooks'' = Some v\<close> list [of members es] show ?thesis
        by (auto simp: extend_group_def Let_def as_array_Some)
    qed
  qed
qed (use none in \<open>auto simp: extend_group_def\<close>)

lemma extend_group_matcher: "group_matcher (extend_group hs g) = group_matcher g"
  by (cases g rule: extend_group_cases) (auto simp: group_matcher_def map_of_bt_insert_any)

lemma extend_group_again:
  assumes "\<And>es. fold (add_missing hook_command) xs (fold (add_missing hook_command) ys es) = fold (add_missing hook_command) ys es"
  shows "extend_group xs (extend_group ys g) = extend_group ys g"
proof (cases g rule: extend_group_cases)
  case (list members old)
  let ?new = "fold (add_missing hook_command) ys old"
  have "extend_group xs (JObject (bt_insert ''hooks'' (JArray ?new) members)) = JObject (bt_insert ''hooks'' (JArray ?new) members)"
    using assms [of old] by (simp add: extend_group_def Let_def map_of_bt_insert_any bt_insert_twice_any)
  with list show ?thesis by simp
qed auto

lemma extend_group_keep:
  assumes "extend_group xs g = g"
  shows "extend_group xs (extend_group ys g) = extend_group ys g"
proof (cases g rule: extend_group_cases)
  case (list members old)
  with assms have "bt_insert ''hooks'' (JArray (fold (add_missing hook_command) xs old)) members = members" by auto
  then have "map_of members ''hooks'' = Some (JArray (fold (add_missing hook_command) xs old))"
    by (metis fun_upd_same map_of_bt_insert_any)
  with list(3) have "fold (add_missing hook_command) xs old = old" by auto
  from add_all_keep [OF this, of ys] list show ?thesis
    by (simp add: extend_group_def Let_def map_of_bt_insert_any bt_insert_twice_any)
qed auto

lemma new_group_facts:
  "group_matcher (new_group matcher managed) = matcher"
  "list_all (\<lambda>h. hook_command h \<noteq> None) managed \<Longrightarrow> extend_group managed (new_group matcher managed) = new_group matcher managed"
proof -
  show "group_matcher (new_group matcher managed) = matcher"
    by (simp add: group_matcher_def new_group_def json_object_def)
  assume "list_all (\<lambda>h. hook_command h \<noteq> None) managed"
  then have "fold (add_missing hook_command) managed managed = managed"
    by (auto simp: add_all_settled add_missing_def list_all_iff list_ex_iff split: option.splits)
  then show "extend_group managed (new_group matcher managed) = new_group matcher managed"
    by (simp add: extend_group_def new_group_def json_object_def Let_def)
qed

text \<open>A template group has nothing left to add when the first group of its matcher is complete.\<close>

abbreviation group_of :: "json \<Rightarrow> json list \<Rightarrow> json option" where
  "group_of tg \<equiv> find (\<lambda>g. group_matcher g = group_matcher tg)"

lemma merge_group_none: "managed_hooks_of tg = [] \<Longrightarrow> merge_group tg gs = gs"
  by (simp add: merge_group_def)

lemma merge_group_run:
  "managed_hooks_of tg \<noteq> [] \<Longrightarrow> merge_group tg gs =
     (case update_first (\<lambda>g. group_matcher g = group_matcher tg) (extend_group (managed_hooks_of tg)) gs of
        Some gs' \<Rightarrow> gs' | None \<Rightarrow> gs @ [new_group (group_matcher tg) (managed_hooks_of tg)])"
  by (simp add: merge_group_def Let_def)

lemma merge_group_settled:
  "merge_group tg gs = gs \<longleftrightarrow>
   managed_hooks_of tg = [] \<or> (\<exists>g. group_of tg gs = Some g \<and> extend_group (managed_hooks_of tg) g = g)"
proof (cases "managed_hooks_of tg = []")
  case False
  let ?up = "update_first (\<lambda>g. group_matcher g = group_matcher tg) (extend_group (managed_hooks_of tg)) gs"
  show ?thesis
  proof (cases ?up)
    case None
    with False show ?thesis using update_first_None [THEN iffD1, OF None] by (simp add: merge_group_run)
  next
    case (Some gs')
    with False have "merge_group tg gs = gs \<longleftrightarrow> ?up = Some gs" by (simp add: merge_group_run)
    with False show ?thesis by (simp only: update_first_fixed simp_thms)
  qed
qed (simp add: merge_group_none)

lemma managed_hooks_command: "list_all (\<lambda>h. hook_command h \<noteq> None) (managed_hooks_of tg)"
  by (auto simp: managed_hooks_of_def list_all_iff managed_hook_def split: option.splits)

lemma find_append: "find p (xs @ ys) = (case find p xs of None \<Rightarrow> find p ys | Some x \<Rightarrow> Some x)"
  by (induction xs) auto

lemma merge_group_find_same:
  assumes "managed_hooks_of tg \<noteq> []" and "group_matcher tx = group_matcher tg"
  shows "group_of tx (merge_group tg gs) =
    (case group_of tx gs of
       Some g \<Rightarrow> Some (extend_group (managed_hooks_of tg) g)
     | None \<Rightarrow> Some (new_group (group_matcher tg) (managed_hooks_of tg)))"
proof (cases "update_first (\<lambda>g. group_matcher g = group_matcher tg) (extend_group (managed_hooks_of tg)) gs")
  case None
  with assms show ?thesis using update_first_None [THEN iffD1, OF None]
    by (simp add: merge_group_run find_append new_group_facts)
next
  case (Some gs')
  from Some have "group_of tg gs \<noteq> None" by (simp add: update_first_None [symmetric, of _ _ "extend_group (managed_hooks_of tg)"])
  moreover have "group_of tg gs' = map_option (extend_group (managed_hooks_of tg)) (group_of tg gs)"
    by (rule update_first_same [OF Some]) (simp add: extend_group_matcher)
  ultimately show ?thesis using Some assms by (auto simp: merge_group_run)
qed

lemma merge_group_find_other:
  assumes "group_matcher tx \<noteq> group_matcher tg" and "group_of tx gs = Some g"
  shows "group_of tx (merge_group tg gs) = Some g"
proof (cases "update_first (\<lambda>g. group_matcher g = group_matcher tg) (extend_group (managed_hooks_of tg)) gs")
  case None
  with assms show ?thesis
    by (cases "managed_hooks_of tg = []") (simp_all add: merge_group_none merge_group_run find_append)
next
  case (Some gs')
  have "group_of tx gs' = group_of tx gs"
    using assms(1) by (intro update_first_other [OF Some]) (auto simp: extend_group_matcher)
  with Some assms show ?thesis
    by (cases "managed_hooks_of tg = []") (simp_all add: merge_group_none merge_group_run)
qed

lemma merge_group_idem: "merge_group tg (merge_group tg gs) = merge_group tg gs"
proof (cases "managed_hooks_of tg = []")
  case True
  then show ?thesis by (simp add: merge_group_settled)
next
  case False
  have "\<exists>g. group_of tg (merge_group tg gs) = Some g \<and> extend_group (managed_hooks_of tg) g = g"
    using merge_group_find_same [OF False refl, of gs] extend_group_again [OF add_all_idem]
      new_group_facts(2) [OF managed_hooks_command]
    by (auto split: option.splits)
  then show ?thesis by (simp add: merge_group_settled)
qed

lemma merge_group_keep:
  assumes "merge_group tx gs = gs"
  shows "merge_group tx (merge_group ty gs) = merge_group ty gs"
proof (cases "managed_hooks_of tx = [] \<or> managed_hooks_of ty = []")
  case True
  with assms show ?thesis by (auto simp: merge_group_none)
next
  case False
  with assms obtain g where g: "group_of tx gs = Some g" "extend_group (managed_hooks_of tx) g = g"
    by (auto simp: merge_group_settled)
  show ?thesis
  proof (cases "group_matcher tx = group_matcher ty")
    case True
    from merge_group_find_same [OF _ True] False g(1)
    have "group_of tx (merge_group ty gs) = Some (extend_group (managed_hooks_of ty) g)" by auto
    with extend_group_keep [OF g(2)] show ?thesis by (auto simp: merge_group_settled)
  next
    case False
    from merge_group_find_other [OF False g(1)] g(2) show ?thesis by (auto simp: merge_group_settled)
  qed
qed

lemma merge_groups_idem: "fold merge_group tgs (fold merge_group tgs gs) = fold merge_group tgs gs"
  by (rule fold_idem [where I = "\<lambda>_. True"]) (simp_all add: merge_group_idem merge_group_keep)

text \<open>Stripping undoes it.\<close>

lemma strip_group_hooks:
  "json_array_at ''hooks'' g = Some hs \<Longrightarrow>
   strip_group g = json_set ''hooks'' (JArray (filter (\<lambda>h. \<not> managed_hook h) hs)) g"
  by (simp add: strip_group_def)

lemma strip_extend:
  assumes "list_all managed_hook ms"
  shows "(has_hooks (strip_group (extend_group ms g)) \<longleftrightarrow> has_hooks (strip_group g)) \<and>
    (has_hooks (strip_group g) \<longrightarrow> strip_group (extend_group ms g) = strip_group g)"
proof (cases g rule: extend_group_cases)
  case (list members old)
  have foreign: "filter (\<lambda>h. \<not> managed_hook h) (fold (add_missing hook_command) ms old) = filter (\<lambda>h. \<not> managed_hook h) old"
    using assms by (intro add_all_foreign) (auto simp: list_all_iff)
  have new: "strip_group (extend_group ms g) = JObject (bt_insert ''hooks'' (JArray (filter (\<lambda>h. \<not> managed_hook h) old)) members)"
    using list(4) foreign
    by (simp add: strip_group_def json_array_at_def map_of_bt_insert_any bt_insert_twice_any)
  show ?thesis
  proof (cases "map_of members ''hooks''")
    case None
    with list(1,2) new show ?thesis
      by (simp add: has_hooks_def strip_group_def json_array_at_def map_of_bt_insert_any)
  next
    case (Some v)
    with list(3) have "map_of members ''hooks'' = Some (JArray old)" by simp
    with list(1) have "strip_group g = strip_group (extend_group ms g)"
      unfolding new by (simp add: strip_group_def json_array_at_def)
    then show ?thesis by simp
  qed
qed auto

lemma strip_groups_append: "strip_groups (xs @ ys) = strip_groups xs @ strip_groups ys"
  by (simp add: strip_groups_def)

lemma strip_update_first:
  "update_first p (extend_group ms) gs = Some gs' \<Longrightarrow> list_all managed_hook ms \<Longrightarrow> strip_groups gs' = strip_groups gs"
  by (induction gs arbitrary: gs') (auto simp: strip_groups_def dest: strip_extend split: if_splits)

lemma strip_merge_group: "strip_groups (merge_group tg gs) = strip_groups gs"
proof -
  have managed: "list_all managed_hook (managed_hooks_of tg)" by (simp add: managed_hooks_of_def list_all_iff)
  then have none: "filter (\<lambda>h. \<not> managed_hook h) (managed_hooks_of tg) = []" by (simp add: filter_empty_conv list_all_iff)
  have "strip_groups [new_group (group_matcher tg) (managed_hooks_of tg)] = []"
    using none by (simp add: strip_groups_def new_group_def json_object_def strip_group_def json_array_at_def has_hooks_def)
  with managed show ?thesis
    by (cases "managed_hooks_of tg = []")
      (auto simp: merge_group_none merge_group_run strip_groups_append strip_update_first split: option.splits)
qed

lemma strip_merge_groups: "strip_groups (fold merge_group tgs gs) = strip_groups gs"
  by (induction tgs arbitrary: gs) (simp_all add: strip_merge_group)

lemma strip_group_idem: "strip_group (strip_group g) = strip_group g"
proof (cases g)
  case (JObject members)
  then show ?thesis
    by (cases "map_of members ''hooks''")
      (auto simp: strip_group_def json_array_at_def map_of_bt_insert_any bt_insert_twice_any split: option.splits)
qed (simp_all add: strip_group_def json_array_at_def json_get_def)

lemma strip_groups_idem: "strip_groups (strip_groups gs) = strip_groups gs"
  by (induction gs) (auto simp: strip_groups_def strip_group_idem)

section \<open>The contract\<close>

text \<open>
  \<open>seed x t\<close> is what an installation leaves of a file besides the hooks themselves: the containers
  that were missing.
\<close>

locale config_format =
  fixes merge :: "json \<Rightarrow> json \<Rightarrow> json"
    and remove :: "json \<Rightarrow> json"
    and seed :: "json \<Rightarrow> json \<Rightarrow> json"
    and wf :: "json \<Rightarrow> bool"
    and fits :: "json \<Rightarrow> bool"
  assumes merge_merge: "wf x \<Longrightarrow> wf t \<Longrightarrow> merge (merge x t) t = merge x t"
    and remove_remove: "wf x \<Longrightarrow> remove (remove x) = remove x"
    and remove_merge: "wf x \<Longrightarrow> wf t \<Longrightarrow> fits x \<Longrightarrow> remove (merge x t) = remove (seed x t)"
    and merge_seed: "wf x \<Longrightarrow> wf t \<Longrightarrow> merge (seed x t) t = merge x t"
    and remove_seed: "wf x \<Longrightarrow> wf t \<Longrightarrow> remove (seed (remove x) t) = seed (remove x) t"
    and wf_remove: "wf x \<Longrightarrow> wf (remove x)"
    and fits_remove: "wf x \<Longrightarrow> fits x \<Longrightarrow> fits (remove x)"
begin

lemma uninstall_clean:
  assumes "wf x" and "wf t" and "fits x"
  shows "remove (merge (remove x) t) = seed (remove x) t"
  using remove_merge [OF wf_remove [OF assms(1)] assms(2) fits_remove [OF assms(1,3)]] remove_seed [OF assms(1,2)] by simp

lemma repair_stable:
  assumes "wf x" and "wf t" and "fits x"
  shows "merge (remove (merge (remove x) t)) t = merge (remove x) t"
  using uninstall_clean [OF assms] merge_seed [OF wf_remove [OF assms(1)] assms(2)] by simp

end

definition config_fits :: "json \<Rightarrow> bool" where
  "config_fits x \<longleftrightarrow> (case hooks_of x of None \<Rightarrow> True | Some hooks \<Rightarrow> array_slots hooks)"

definition config_seed :: "(json \<Rightarrow> json option) \<Rightarrow> json \<Rightarrow> json \<Rightarrow> json" where
  "config_seed version x t = (case hooks_of t of None \<Rightarrow> x | Some T \<Rightarrow> root_merge (\<lambda>h. h) (version t) x)"

lemma config_fits_remove:
  assumes "config_wf x" and "config_fits x"
  shows "config_fits (root_remove f x)"
  using assms(1)
proof (cases rule: config_cases)
  case (hooked members hooks)
  with assms(2) have "array_slots hooks" by (simp add: config_fits_def hooks_of_def)
  then have "array_slots (remove_entries f hooks)"
    by (auto simp: array_slots_def remove_entries_def drop_empty_arrays_def list_all_iff split: option.splits)
  with hooked show ?thesis
    by (simp add: config_fits_def root_remove_hooked hooks_of_def map_of_bt_insert_any)
qed (use assms(2) in \<open>simp_all add: root_remove_other hooks_of_def\<close>)

lemma config_wf_hooks: "config_wf t \<Longrightarrow> hooks_of t = Some T \<Longrightarrow> bt_wf T"
  by (cases t rule: config_cases) (auto simp: hooks_of_def)

lemma merge_hooks_json_root:
  "fst (merge_hooks_json x t) =
     (case hooks_of t of None \<Rightarrow> x | Some T \<Rightarrow> root_merge (fold merge_event T) (json_get ''version'' t) x)"
  by (auto simp: merge_hooks_json_def hooks_of_def root_merge_def with_hooks_def Let_def split: option.splits)

lemma merge_claude_settings_root:
  "fst (merge_claude_settings x t) =
     (case hooks_of t of None \<Rightarrow> x | Some T \<Rightarrow> root_merge (fold merge_groups_event T) None x)"
  by (auto simp: merge_claude_settings_def hooks_of_def root_merge_def with_hooks_def Let_def split: option.splits)

lemma remove_hooks_json_root: "fst (remove_hooks_json x) = root_remove (filter (\<lambda>e. \<not> managed_entry e)) x"
  by (auto simp: remove_hooks_json_def root_remove_def split: option.splits)

lemma remove_claude_settings_root: "fst (remove_claude_settings x) = root_remove strip_groups x"
  by (auto simp: remove_claude_settings_def root_remove_def split: option.splits)

lemma root_format:
  assumes "\<And>ts es. g ts (g ts es) = g ts es"
    and "\<And>ts es. \<not> idle ts \<Longrightarrow> f (g ts es) = f es" and "f [] = []" and "\<And>es. f (f es) = f es"
  shows "config_format
    (\<lambda>x t. case hooks_of t of None \<Rightarrow> x | Some T \<Rightarrow> root_merge (fold (extend_slots g idle) T) (version t) x)
    (root_remove f) (config_seed version) config_wf config_fits"
proof
  fix x t :: json
  assume x: "config_wf x"
  show "root_remove f (root_remove f x) = root_remove f x" by (rule root_remove_idem [OF x assms(4)])
  show "config_wf (root_remove f x)" by (rule config_wf_remove [OF x])
  show "config_fits x \<Longrightarrow> config_fits (root_remove f x)" by (rule config_fits_remove [OF x])
  assume t: "config_wf t"
  show "(case hooks_of t of None \<Rightarrow> (case hooks_of t of None \<Rightarrow> x | Some T \<Rightarrow> root_merge (fold (extend_slots g idle) T) (version t) x)
      | Some T \<Rightarrow> root_merge (fold (extend_slots g idle) T) (version t)
          (case hooks_of t of None \<Rightarrow> x | Some T \<Rightarrow> root_merge (fold (extend_slots g idle) T) (version t) x)) =
    (case hooks_of t of None \<Rightarrow> x | Some T \<Rightarrow> root_merge (fold (extend_slots g idle) T) (version t) x)"
    using root_merge_merge [OF x, of "fold (extend_slots g idle) T" "fold (extend_slots g idle) T" "fold (extend_slots g idle) T" for T]
      extend_all_idem [where g = g and idle = idle, OF assms(1) config_wf_hooks [OF t]]
    by (auto split: option.splits)
  show "root_remove f (case hooks_of t of None \<Rightarrow> x | Some T \<Rightarrow> root_merge (fold (extend_slots g idle) T) (version t) x) =
      root_remove f (config_seed version x t)" if fits: "config_fits x"
  proof (cases "hooks_of t")
    case (Some T)
    have "remove_entries f (fold (extend_slots g idle) T hooks) = remove_entries f hooks"
      if "bt_wf hooks" "hooks_of x = Some hooks \<or> hooks = []" for hooks
      using that fits by (intro remove_extend_all assms(2,3)) (auto simp: config_fits_def array_slots_def)
    from root_remove_merge [OF x this] Some show ?thesis by (simp add: config_seed_def)
  qed (simp add: config_seed_def)
  show "(case hooks_of t of None \<Rightarrow> config_seed version x t
      | Some T \<Rightarrow> root_merge (fold (extend_slots g idle) T) (version t) (config_seed version x t)) =
    (case hooks_of t of None \<Rightarrow> x | Some T \<Rightarrow> root_merge (fold (extend_slots g idle) T) (version t) x)"
    using root_merge_merge [OF x, of "\<lambda>h. h" F F for F] by (auto simp: config_seed_def split: option.splits)
  show "root_remove f (config_seed version (root_remove f x) t) = config_seed version (root_remove f x) t"
    using root_remove_seeded [OF x assms(4)] root_remove_idem [OF x assms(4)]
    by (auto simp: config_seed_def split: option.splits)
qed

interpretation hooks_json: config_format "\<lambda>x t. fst (merge_hooks_json x t)" "\<lambda>x. fst (remove_hooks_json x)"
  "config_seed (json_get ''version'')" config_wf config_fits
  unfolding merge_hooks_json_root remove_hooks_json_root merge_event_extend
  by (rule root_format) (auto simp: add_all_idem intro!: add_all_foreign)

interpretation claude_settings: config_format "\<lambda>x t. fst (merge_claude_settings x t)" "\<lambda>x. fst (remove_claude_settings x)"
  "config_seed (\<lambda>_. None)" config_wf config_fits
  unfolding merge_claude_settings_root remove_claude_settings_root merge_groups_event_extend
  by (rule root_format) (simp_all add: merge_groups_idem strip_merge_groups strip_groups_idem, simp add: strip_groups_def)

section \<open>Named hooks\<close>

definition object_wf :: "json \<Rightarrow> bool" where
  "object_wf x \<longleftrightarrow> (case as_object x of None \<Rightarrow> True | Some members \<Rightarrow> bt_wf members)"

definition managed_names :: "json \<Rightarrow> string list" where
  "managed_names t = (case as_object t of
     None \<Rightarrow> []
   | Some blocks \<Rightarrow> map fst (filter (\<lambda>(name, block). named_block_has_managed_commands block) blocks))"

definition named_seed :: "json \<Rightarrow> json \<Rightarrow> json" where
  "named_seed x t = (case as_object x of
     None \<Rightarrow> x
   | Some members \<Rightarrow> JObject (filter (\<lambda>(name, block). name \<notin> set (managed_names t)) members))"

abbreviation put_block :: "string \<times> json \<Rightarrow> (string \<times> json) list \<Rightarrow> (string \<times> json) list" where
  "put_block \<equiv> \<lambda>(name, block) m. if named_block_has_managed_commands block then bt_insert name block m else m"

lemma put_blocks_wf: "bt_wf m \<Longrightarrow> bt_wf (fold put_block blocks m)"
  by (induction blocks arbitrary: m) auto

lemma put_blocks_lookup:
  assumes "distinct (map fst blocks)" and "bt_wf m"
  shows "map_of (fold put_block blocks m) k =
    (case map_of blocks k of
       Some b \<Rightarrow> if named_block_has_managed_commands b then Some b else map_of m k
     | None \<Rightarrow> map_of m k)"
  using assms
proof (induction blocks arbitrary: m)
  case (Cons x blocks)
  obtain n b where x: "x = (n, b)" by (cases x)
  let ?m = "if named_block_has_managed_commands b then bt_insert n b m else m"
  have here: "map_of ?m k = (if k = n \<and> named_block_has_managed_commands b then Some b else map_of m k)"
    by (simp add: map_of_bt_insert_any)
  have IH: "map_of (fold put_block blocks ?m) k =
    (case map_of blocks k of
       Some b \<Rightarrow> if named_block_has_managed_commands b then Some b else map_of ?m k
     | None \<Rightarrow> map_of ?m k)"
    using Cons.prems by (intro Cons.IH) auto
  show ?case
  proof (cases "k = n")
    case True
    with Cons.prems(1) have "map_of blocks k = None" by (simp add: x map_of_eq_None_iff)
    with IH True show ?thesis unfolding here by (simp add: x)
  next
    case False
    with IH show ?thesis unfolding here by (simp add: x split: option.splits)
  qed
qed simp

lemma managed_names_iff:
  "bt_wf blocks \<Longrightarrow> k \<in> set (managed_names (JObject blocks)) \<longleftrightarrow>
     (\<exists>b. map_of blocks k = Some b \<and> named_block_has_managed_commands b)"
  by (auto simp: managed_names_def map_of_iff_mem image_iff)

lemma bt_wf_filter: "bt_wf m \<Longrightarrow> bt_wf (filter P m)"
  by (simp add: bt_wf_def sorted_wrt_map sorted_wrt_filter)

lemma map_of_filter_keys: "map_of (filter (\<lambda>(k, v). P k) m) k = (if P k then map_of m k else None)"
  by (induction m) auto

lemma merge_named_run:
  "fst (merge_antigravity_named_hooks (JObject members) (JObject blocks)) = JObject (fold put_block blocks members)"
  by (simp add: merge_antigravity_named_hooks_def)

lemma merge_named_plain: "as_object x = None \<or> as_object t = None \<Longrightarrow> fst (merge_antigravity_named_hooks x t) = x"
  by (auto simp: merge_antigravity_named_hooks_def Let_def split: option.splits)

text \<open>What is at a name after each step, for one template.\<close>

lemma named_lookups:
  assumes "bt_wf blocks" and "bt_wf members"
  shows "map_of (fold put_block blocks members) k =
      (case map_of blocks k of Some b \<Rightarrow> if named_block_has_managed_commands b then Some b else map_of members k
       | None \<Rightarrow> map_of members k)"
    and "map_of (filter (\<lambda>(name, block). \<not> named_block_has_managed_commands block) members) k =
      (case map_of members k of None \<Rightarrow> None | Some b \<Rightarrow> if named_block_has_managed_commands b then None else Some b)"
    and "map_of (filter (\<lambda>(name, block). name \<notin> set (managed_names (JObject blocks))) members) k =
      (case map_of blocks k of Some b \<Rightarrow> if named_block_has_managed_commands b then None else map_of members k
       | None \<Rightarrow> map_of members k)"
proof -
  show "map_of (fold put_block blocks members) k =
      (case map_of blocks k of Some b \<Rightarrow> if named_block_has_managed_commands b then Some b else map_of members k
       | None \<Rightarrow> map_of members k)"
    by (rule put_blocks_lookup [OF bt_wf_distinct [OF assms(1)] assms(2)])
  show "map_of (filter (\<lambda>(name, block). \<not> named_block_has_managed_commands block) members) k =
      (case map_of members k of None \<Rightarrow> None | Some b \<Rightarrow> if named_block_has_managed_commands b then None else Some b)"
    using map_of_filter_values [OF bt_wf_distinct [OF assms(2)], of "\<lambda>b. \<not> named_block_has_managed_commands b" k]
    by (simp split: option.splits)
  show "map_of (filter (\<lambda>(name, block). name \<notin> set (managed_names (JObject blocks))) members) k =
      (case map_of blocks k of Some b \<Rightarrow> if named_block_has_managed_commands b then None else map_of members k
       | None \<Rightarrow> map_of members k)"
    using managed_names_iff [OF assms(1), of k] by (simp add: map_of_filter_keys split: option.splits)
qed

interpretation named_hooks: config_format "\<lambda>x t. fst (merge_antigravity_named_hooks x t)"
  "\<lambda>x. fst (remove_antigravity_named_hooks x)" named_seed object_wf "\<lambda>_. True"
proof
  fix x t :: json
  assume x: "object_wf x"
  show "fst (remove_antigravity_named_hooks (fst (remove_antigravity_named_hooks x))) = fst (remove_antigravity_named_hooks x)"
    by (cases x) (simp_all add: remove_antigravity_named_hooks_def)
  show "object_wf (fst (remove_antigravity_named_hooks x))"
    using x by (cases x) (simp_all add: remove_antigravity_named_hooks_def object_wf_def bt_wf_filter)
  show "True \<Longrightarrow> True" .
  assume t: "object_wf t"
  show "fst (remove_antigravity_named_hooks (named_seed (fst (remove_antigravity_named_hooks x)) t)) =
      named_seed (fst (remove_antigravity_named_hooks x)) t"
    by (cases x) (simp_all add: remove_antigravity_named_hooks_def named_seed_def filter_filter conj_commute cong: conj_cong)
  consider (plain) "as_object x = None \<or> as_object t = None"
    | (objects) members blocks where "x = JObject members" "t = JObject blocks" "bt_wf members" "bt_wf blocks"
    using x t by (cases x; cases t) (auto simp: object_wf_def)
  note shapes = this
  show "fst (merge_antigravity_named_hooks (fst (merge_antigravity_named_hooks x t)) t) = fst (merge_antigravity_named_hooks x t)"
  proof (cases rule: shapes)
    case (objects members blocks)
    then show ?thesis
      by (simp add: merge_named_run)
        (rule bt_eqI; simp add: named_lookups put_blocks_wf bt_wf_filter split: option.split)
  qed (simp add: merge_named_plain)
  show "fst (remove_antigravity_named_hooks (fst (merge_antigravity_named_hooks x t))) =
      fst (remove_antigravity_named_hooks (named_seed x t))"
  proof (cases rule: shapes)
    case (objects members blocks)
    then show ?thesis
      by (simp add: merge_named_run remove_antigravity_named_hooks_def named_seed_def del: filter_filter)
        (rule bt_eqI; auto simp: named_lookups put_blocks_wf bt_wf_filter simp del: filter_filter split: option.split)
  next
    case plain
    then show ?thesis
      by (cases x) (auto simp: merge_named_plain named_seed_def managed_names_def)
  qed
  show "fst (merge_antigravity_named_hooks (named_seed x t) t) = fst (merge_antigravity_named_hooks x t)"
  proof (cases rule: shapes)
    case (objects members blocks)
    then show ?thesis
      by (simp add: merge_named_run named_seed_def)
        (rule bt_eqI; simp add: named_lookups put_blocks_wf bt_wf_filter split: option.split)
  next
    case plain
    then show ?thesis
      by (cases x) (auto simp: merge_named_plain named_seed_def managed_names_def)
  qed
qed

end
