(* ===== verification/Connector_Adapter.thy ===== *)
theory Connector_Adapter
  imports Connector_Laws Protocol_Types
begin

text \<open>
  \<^verbatim>\<open>crates/notch-connectors/src/adapter.rs\<close>: the vendors' configuration files, the dispatch on their
  format, and how a template gets the path of the helper. Paths are strings with \<open>/\<close> between the
  components; a path that is not valid UTF-8 is not represented.
\<close>

section \<open>Adapters\<close>

datatype plan_operation = OpInstall | OpRemove | OpRepair | OpRollback

datatype config_file_format = HooksJson | ClaudeSettings | AntigravityNamedHooks

datatype connector_scope = ScopeUser | ScopeProject

record target_file =
  tf_relative_path :: string
  tf_format :: config_file_format

datatype external_trust_kind = CodexHooksReview | OtherTrust

record external_trust_action =
  et_kind :: external_trust_kind
  et_instructions :: string

record adapter_descriptor =
  ad_catalog_id :: string
  ad_source :: agent_source
  ad_template_path :: string
  ad_user_target :: target_file
  ad_project_target :: target_file
  ad_external_trust_actions :: "external_trust_action list"

definition target_for :: "adapter_descriptor \<Rightarrow> connector_scope \<Rightarrow> target_file" where
  "target_for a scope = (case scope of ScopeUser \<Rightarrow> ad_user_target a | ScopeProject \<Rightarrow> ad_project_target a)"

definition adapter_merge :: "adapter_descriptor \<Rightarrow> json \<Rightarrow> json \<Rightarrow> json \<times> string list" where
  "adapter_merge a baseline template =
     (case tf_format (ad_user_target a) of
        HooksJson \<Rightarrow> merge_hooks_json baseline template
      | ClaudeSettings \<Rightarrow> merge_claude_settings baseline template
      | AntigravityNamedHooks \<Rightarrow> merge_antigravity_named_hooks baseline template)"

definition remove_managed :: "adapter_descriptor \<Rightarrow> json \<Rightarrow> json \<times> string list" where
  "remove_managed a baseline =
     (case tf_format (ad_user_target a) of
        HooksJson \<Rightarrow> remove_hooks_json baseline
      | ClaudeSettings \<Rightarrow> remove_claude_settings baseline
      | AntigravityNamedHooks \<Rightarrow> remove_antigravity_named_hooks baseline)"

definition strip_template_comments :: "json \<Rightarrow> json" where
  "strip_template_comments v = (case as_object v of None \<Rightarrow> v | Some m \<Rightarrow> JObject (AList.delete ''_comment'' m))"

definition path_join :: "string \<Rightarrow> string \<Rightarrow> string" where
  "path_join base rel = (if base = [] \<or> last base = CHR ''/'' then base @ rel else base @ ''/'' @ rel)"

definition simple_adapter :: "string \<Rightarrow> agent_source \<Rightarrow> string \<Rightarrow> config_file_format \<Rightarrow> string \<Rightarrow> string \<Rightarrow> adapter_descriptor" where
  "simple_adapter catalog_id source template_path format user_path project_path =
     \<lparr>ad_catalog_id = catalog_id, ad_source = source, ad_template_path = template_path,
      ad_user_target = \<lparr>tf_relative_path = user_path, tf_format = format\<rparr>,
      ad_project_target = \<lparr>tf_relative_path = project_path, tf_format = format\<rparr>,
      ad_external_trust_actions = []\<rparr>"

definition cursor_adapter :: "string \<Rightarrow> adapter_descriptor" where
  "cursor_adapter base = simple_adapter ''cursor'' Cursor (path_join base ''cursor/hooks.json.template'') HooksJson
     ''.cursor/hooks.json'' ''.cursor/hooks.json''"

definition claude_code_adapter :: "string \<Rightarrow> adapter_descriptor" where
  "claude_code_adapter base = simple_adapter ''claude-code'' ClaudeCode (path_join base ''claude-code/settings.hooks.template.json'')
     ClaudeSettings ''.claude/settings.json'' ''.claude/settings.json''"

definition codex_adapter :: "string \<Rightarrow> adapter_descriptor" where
  "codex_adapter base = (simple_adapter ''codex'' Codex (path_join base ''codex/hooks.json.template'') HooksJson
     ''.codex/hooks.json'' ''.codex/hooks.json'')
     \<lparr>ad_external_trust_actions := [\<lparr>et_kind = CodexHooksReview,
        et_instructions = ''Run /hooks in Codex and approve the llm_notch hooks to finish setup.''\<rparr>]\<rparr>"

definition gemini_adapter :: "string \<Rightarrow> adapter_descriptor" where
  "gemini_adapter base = simple_adapter ''gemini-cli'' Gemini (path_join base ''gemini/settings.hooks.template.json'')
     ClaudeSettings ''.gemini/settings.json'' ''.gemini/settings.json''"

definition qwen_adapter :: "string \<Rightarrow> adapter_descriptor" where
  "qwen_adapter base = simple_adapter ''qwen'' Qwen (path_join base ''qwen/settings.hooks.template.json'')
     ClaudeSettings ''.qwen/settings.json'' ''.qwen/settings.json''"

definition antigravity_cli_adapter :: "string \<Rightarrow> adapter_descriptor" where
  "antigravity_cli_adapter base = simple_adapter ''antigravity-cli'' AntigravityCli
     (path_join base ''antigravity-cli/hooks.json.template'') AntigravityNamedHooks
     ''.gemini/antigravity-cli/hooks.json'' ''.agents/hooks.json''"

definition copilot_cli_adapter :: "string \<Rightarrow> adapter_descriptor" where
  "copilot_cli_adapter base = simple_adapter ''copilot'' CopilotCli (path_join base ''copilot/hooks.json.template'') HooksJson
     ''.copilot/hooks/llm-notch.json'' ''.github/hooks/llm-notch.json''"

fun registry_adapter :: "string \<Rightarrow> agent_source \<Rightarrow> adapter_descriptor option" where
  "registry_adapter base Cursor = Some (cursor_adapter base)"
| "registry_adapter base ClaudeCode = Some (claude_code_adapter base)"
| "registry_adapter base Codex = Some (codex_adapter base)"
| "registry_adapter base Gemini = Some (gemini_adapter base)"
| "registry_adapter base Qwen = Some (qwen_adapter base)"
| "registry_adapter base AntigravityCli = Some (antigravity_cli_adapter base)"
| "registry_adapter base CopilotCli = Some (copilot_cli_adapter base)"
| "registry_adapter base Generic = None"
| "registry_adapter base UnknownSource = None"

definition supported_sources :: "agent_source list" where
  "supported_sources = [Cursor, ClaudeCode, Codex, Gemini, Qwen, AntigravityCli, CopilotCli]"

definition catalog_supported_ids :: "string list" where
  "catalog_supported_ids = [''cursor'', ''claude-code'', ''codex'', ''gemini-cli'', ''qwen'', ''antigravity-cli'', ''copilot'']"

definition get_by_catalog_id :: "string \<Rightarrow> string \<Rightarrow> adapter_descriptor option" where
  "get_by_catalog_id base catalog_id =
     (if catalog_id = ''cursor'' then Some (cursor_adapter base)
      else if catalog_id = ''claude-code'' then Some (claude_code_adapter base)
      else if catalog_id = ''codex'' then Some (codex_adapter base)
      else if catalog_id = ''gemini-cli'' then Some (gemini_adapter base)
      else if catalog_id = ''qwen'' then Some (qwen_adapter base)
      else if catalog_id = ''antigravity-cli'' then Some (antigravity_cli_adapter base)
      else if catalog_id = ''copilot'' then Some (copilot_cli_adapter base)
      else None)"

section \<open>Templates\<close>

definition strip_windows_sh_prefix :: "string \<Rightarrow> string" where
  "strip_windows_sh_prefix command =
     (case strip_prefix ''sh '' (trim_start command) of Some rest \<Rightarrow> trim_start rest | None \<Rightarrow> command)"

text \<open>\<open>windows\<close> is \<open>cfg!(windows)\<close>.\<close>

definition hook_suffix :: "string \<Rightarrow> string \<Rightarrow> string option" where
  "hook_suffix quoted_helper command =
     map_option (\<lambda>i. quoted_helper @ '' hook '' @ trim (drop i command)) (find_sub ''--source'' command)"

definition materialize_wrapper_command :: "bool \<Rightarrow> string \<Rightarrow> string \<Rightarrow> string" where
  "materialize_wrapper_command windows command quoted_helper =
     (let replaced = replace_sub WRAPPER_PATH_PLACEHOLDER quoted_helper
            (replace_sub WRAPPER_ABSOLUTE_PLACEHOLDER quoted_helper command);
          materialized = (if windows then strip_windows_sh_prefix replaced else replaced)
      in if contains_sub '' hook '' materialized then materialized
         else (case hook_suffix quoted_helper materialized of Some c \<Rightarrow> c | None \<Rightarrow> materialized))"

definition quoted :: "string \<Rightarrow> string" where
  "quoted helper = (if contains_sub '' '' helper then [quote_char] @ helper @ [quote_char] else helper)"

definition rewrite_command :: "bool \<Rightarrow> string \<Rightarrow> string \<Rightarrow> string" where
  "rewrite_command windows command helper =
     (let quoted_helper = quoted helper
      in if contains_sub HELPER_PATH_PLACEHOLDER command then replace_sub HELPER_PATH_PLACEHOLDER quoted_helper command
         else if contains_sub WRAPPER_PATH_PLACEHOLDER command \<or> contains_sub WRAPPER_ABSOLUTE_PLACEHOLDER command
         then materialize_wrapper_command windows command quoted_helper
         else (case hook_suffix quoted_helper command of
             Some c \<Rightarrow> c
           | None \<Rightarrow> if contains_sub ''llm-notch-hook-wrapper'' command then quoted_helper else helper))"

definition needs_rewrite :: "string \<Rightarrow> bool" where
  "needs_rewrite command \<longleftrightarrow> contains_sub ''llm-notch-hook'' command \<or> has_placeholder command"

fun rewrite_commands :: "bool \<Rightarrow> string \<Rightarrow> json \<Rightarrow> json" where
  "rewrite_commands windows helper (JObject m) = JObject (map (\<lambda>(k, v). (k, rewrite_commands windows helper v)) m)"
| "rewrite_commands windows helper (JArray vs) = JArray (map (rewrite_commands windows helper) vs)"
| "rewrite_commands windows helper (JString s) = JString (if needs_rewrite s then rewrite_command windows s helper else s)"
| "rewrite_commands windows helper v = v"

definition materialize_template :: "bool \<Rightarrow> json \<Rightarrow> string \<Rightarrow> json" where
  "materialize_template windows template helper = rewrite_commands windows helper template"

section \<open>Foreign entries\<close>

text \<open>Both lists of foreign hooks go over the events and over what each slot holds.\<close>

definition foreign_entries_of :: "string \<Rightarrow> json list \<Rightarrow> string list" where
  "foreign_entries_of event es = List.map_filter (\<lambda>entry. case entry_command entry of
     None \<Rightarrow> None
   | Some command \<Rightarrow> if is_managed_command command then None else Some (event @ '':'' @ command)) es"

definition foreign_hooks_of :: "string \<Rightarrow> json \<Rightarrow> string list" where
  "foreign_hooks_of event g = (case json_array_at ''hooks'' g of
     None \<Rightarrow> []
   | Some hs \<Rightarrow> List.map_filter (\<lambda>hook. case hook_command hook of
         None \<Rightarrow> None
       | Some command \<Rightarrow> if is_managed_command command then None
           else Some (event @ '':'' @ group_matcher g @ '':'' @ command)) hs)"

definition collected :: "(string \<Rightarrow> json list \<Rightarrow> string list) \<Rightarrow> json \<Rightarrow> string list" where
  "collected F x = (case hooks_of x of None \<Rightarrow> [] | Some hooks \<Rightarrow> concat (map (\<lambda>(event, v). F event (slot_array v)) hooks))"

lemma collect_hooks_json_collected: "collect_foreign_hooks_json = collected foreign_entries_of"
  by (rule ext) (auto simp: collect_foreign_hooks_json_def collected_def hooks_of_def foreign_entries_of_def slot_array_def
      map_filter_def intro!: arg_cong [where f = concat] split: option.splits)

lemma collect_claude_collected:
  "collect_foreign_claude_settings = collected (\<lambda>event gs. concat (map (foreign_hooks_of event) gs))"
  by (rule ext) (simp add: collect_foreign_claude_settings_def collected_def hooks_of_def foreign_hooks_of_def [abs_def])

lemma concat_bt_insert:
  assumes "bt_wf m" and "F k v = (case map_of m k of None \<Rightarrow> [] | Some v' \<Rightarrow> F k v')"
  shows "concat (map (\<lambda>(k, v). F k v) (bt_insert k v m)) = concat (map (\<lambda>(k, v). F k v) m)"
  using assms
proof (induction k v m rule: bt_insert.induct)
  case (2 k v k' v' m)
  show ?case
  proof (cases "k < k'")
    case True
    with 2(2) have "map_of ((k', v') # m) k = None" by (auto simp: bt_wf_Cons map_of_eq_None_iff)
    with 2(3) True show ?thesis by simp
  next
    case False
    with 2 show ?thesis by (cases "k = k'") (auto simp: bt_wf_Cons)
  qed
qed simp

lemma collected_extend:
  assumes "\<And>e ts es. \<not> idle ts \<Longrightarrow> F e (g ts es) = F e es" and "\<And>e. F e [] = []" and "bt_wf hooks"
  shows "concat (map (\<lambda>(e, v). F e (slot_array v)) (extend_slots g idle x hooks)) = concat (map (\<lambda>(e, v). F e (slot_array v)) hooks)"
proof (cases "\<exists>ts. as_array (snd x) = Some ts \<and> \<not> idle ts")
  case True
  then obtain ts where ts: "as_array (snd x) = Some ts" "\<not> idle ts" by blast
  have "F (fst x) (slot_of hooks (fst x)) = (case map_of hooks (fst x) of None \<Rightarrow> [] | Some v \<Rightarrow> F (fst x) (slot_array v))"
    using assms(2) by (simp add: slot_of_def split: option.split)
  with ts assms(1) [OF ts(2)] show ?thesis
    by (simp add: extend_run concat_bt_insert [OF assms(3), where F = "\<lambda>e v. F e (slot_array v)"])
next
  case False
  then have "extend_slots g idle x hooks = hooks" by (intro extend_idle) auto
  then show ?thesis by simp
qed

lemma collected_extend_all:
  assumes "\<And>e ts es. \<not> idle ts \<Longrightarrow> F e (g ts es) = F e es" and "\<And>e. F e [] = []" and "bt_wf hooks"
  shows "concat (map (\<lambda>(e, v). F e (slot_array v)) (fold (extend_slots g idle) xs hooks)) =
    concat (map (\<lambda>(e, v). F e (slot_array v)) hooks)"
  using assms(3)
proof (induction xs arbitrary: hooks)
  case (Cons x xs)
  then show ?case using collected_extend [where F = F and g = g and idle = idle, OF assms(1,2) Cons.prems] by simp
qed simp

lemma collected_root:
  assumes "config_wf x" and "\<And>e ts es. \<not> idle ts \<Longrightarrow> F e (g ts es) = F e es" and "\<And>e. F e [] = []"
  shows "collected F (root_merge (fold (extend_slots g idle) T) v x) = collected F x"
  using assms(1)
proof (cases rule: config_cases)
  case plain
  then show ?thesis by (simp add: root_merge_plain)
next
  case (fresh members)
  with collected_extend_all [where F = F and g = g and idle = idle and hooks = "[]" and xs = T, OF assms(2,3)] show ?thesis
    by (simp add: root_merge_fresh collected_def hooks_of_def versioned_facts map_of_bt_insert_any)
next
  case (odd members v)
  then show ?thesis by (simp add: root_merge_odd)
next
  case (hooked members hooks)
  with collected_extend_all [where F = F and g = g and idle = idle and xs = T, OF assms(2,3) hooked(4)] show ?thesis
    by (simp add: root_merge_hooked collected_def hooks_of_def versioned_facts map_of_bt_insert_any)
qed

lemma foreign_entries_merge:
  "foreign_entries_of e (fold (add_missing entry_command) (filter managed_entry ts) es) = foreign_entries_of e es"
proof -
  obtain new where "fold (add_missing entry_command) (filter managed_entry ts) es = es @ new" "set new \<subseteq> set (filter managed_entry ts)"
    using add_all_grows by metis
  moreover from this(2) have "foreign_entries_of e new = []"
    by (auto simp: foreign_entries_of_def map_filter_def filter_empty_conv managed_entry_def split: option.splits if_splits)
  ultimately show ?thesis by (simp add: foreign_entries_of_def map_filter_def)
qed

definition foreign_commands :: "(string \<Rightarrow> string) \<Rightarrow> json list \<Rightarrow> string list" where
  "foreign_commands label hs = List.map_filter (\<lambda>hook. case hook_command hook of
     None \<Rightarrow> None
   | Some command \<Rightarrow> if is_managed_command command then None else Some (label command)) hs"

lemma foreign_commands_append: "foreign_commands l (xs @ ys) = foreign_commands l xs @ foreign_commands l ys"
  by (simp add: foreign_commands_def map_filter_def)

lemma foreign_commands_managed: "list_all managed_hook hs \<Longrightarrow> foreign_commands l hs = []"
  by (auto simp: foreign_commands_def map_filter_def filter_empty_conv list_all_iff managed_hook_def split: option.splits if_splits)

lemma foreign_hooks_of_commands:
  "foreign_hooks_of e g = (case json_array_at ''hooks'' g of None \<Rightarrow> []
     | Some hs \<Rightarrow> foreign_commands (\<lambda>c. e @ '':'' @ group_matcher g @ '':'' @ c) hs)"
  unfolding foreign_hooks_of_def foreign_commands_def ..

lemma foreign_hooks_extend:
  assumes "list_all managed_hook ms"
  shows "foreign_hooks_of e (extend_group ms g) = foreign_hooks_of e g"
proof (cases g rule: extend_group_cases)
  case (list members old)
  obtain new where new: "fold (add_missing hook_command) ms old = old @ new" "set new \<subseteq> set ms"
    using add_all_grows by metis
  have "list_all managed_hook new" using new(2) assms by (auto simp: list_all_iff)
  then have same: "foreign_commands l (old @ new) = foreign_commands l old" for l
    by (simp add: foreign_commands_append foreign_commands_managed)
  have "json_array_at ''hooks'' (extend_group ms g) = Some (old @ new)"
    using list(4) [of ms] new(1) by (simp add: json_array_at_def map_of_bt_insert_any)
  then have "foreign_hooks_of e (extend_group ms g) = foreign_commands (\<lambda>c. e @ '':'' @ group_matcher g @ '':'' @ c) old"
    using same by (simp add: foreign_hooks_of_commands extend_group_matcher)
  also have "\<dots> = foreign_hooks_of e g"
  proof (cases "map_of members ''hooks''")
    case None
    with list show ?thesis
      by (simp add: foreign_hooks_of_commands json_array_at_def json_get_def foreign_commands_def map_filter_simps)
  next
    case (Some v)
    with list(3) have "map_of members ''hooks'' = Some (JArray old)" by simp
    with list(1) show ?thesis by (simp add: foreign_hooks_of_commands json_array_at_def json_get_def)
  qed
  finally show ?thesis .
qed auto

lemma foreign_groups_merge:
  "concat (map (foreign_hooks_of e) (fold merge_group tgs gs)) = concat (map (foreign_hooks_of e) gs)"
proof (induction tgs arbitrary: gs)
  case (Cons tg tgs)
  have managed: "list_all managed_hook (managed_hooks_of tg)" by (simp add: managed_hooks_of_def list_all_iff)
  have first: "concat (map (foreign_hooks_of e) gs') = concat (map (foreign_hooks_of e) gs)"
    if "update_first p (extend_group (managed_hooks_of tg)) gs = Some gs'" for p gs gs'
    using that
    by (induction gs arbitrary: gs') (auto simp: foreign_hooks_extend [OF managed] split: if_splits)
  have "foreign_hooks_of e (new_group (group_matcher tg) (managed_hooks_of tg)) = []"
    using managed by (simp add: foreign_hooks_of_commands new_group_def json_object_def json_array_at_def foreign_commands_managed)
  with first have "concat (map (foreign_hooks_of e) (merge_group tg gs)) = concat (map (foreign_hooks_of e) gs)"
    by (cases "managed_hooks_of tg = []")
      (auto simp: merge_group_none merge_group_run split: option.splits)
  with Cons.IH show ?case by simp
qed simp

lemma collected_remove:
  assumes "config_wf x" and "\<And>e es. F e (f es) = F e es" and "\<And>e. F e [] = []"
  shows "collected F (root_remove f x) = collected F x"
  using assms(1)
proof (cases rule: config_cases)
  case (hooked members hooks)
  have "concat (map (\<lambda>(e, v). F e (slot_array v)) (remove_entries f hooks)) = concat (map (\<lambda>(e, v). F e (slot_array v)) hooks)"
  proof (induction hooks)
    case (Cons x hooks)
    have "F (fst x) [] = F (fst x) es" if "f es = []" for es using assms(2) [of "fst x" es] that by simp
    with Cons assms(2,3) show ?case
      by (cases x) (auto simp: remove_entries_def drop_empty_arrays_def slot_array_def split: option.splits)
  qed (simp add: remove_entries_def drop_empty_arrays_def)
  with hooked show ?thesis by (simp add: root_remove_hooked collected_def hooks_of_def map_of_bt_insert_any)
qed (simp_all add: root_remove_other hooks_of_def)

lemma foreign_entries_remove: "foreign_entries_of e (filter (\<lambda>x. \<not> managed_entry x) es) = foreign_entries_of e es"
  by (induction es) (auto simp: foreign_entries_of_def map_filter_simps managed_entry_def split: option.splits)

lemma foreign_commands_filter: "foreign_commands l (filter (\<lambda>h. \<not> managed_hook h) hs) = foreign_commands l hs"
  by (induction hs) (auto simp: foreign_commands_def map_filter_simps managed_hook_def split: option.splits)

lemma foreign_strip_group:
  "foreign_hooks_of e (strip_group g) = foreign_hooks_of e g" (is ?same)
  "\<not> has_hooks (strip_group g) \<Longrightarrow> foreign_hooks_of e g = []"
proof -
  show same: ?same
  proof (cases "json_array_at ''hooks'' g")
    case (Some hs)
    then obtain members where "g = JObject members"
      by (cases g) (auto simp: json_array_at_def json_get_def)
    then have "json_array_at ''hooks'' (strip_group g) = Some (filter (\<lambda>h. \<not> managed_hook h) hs)"
      "group_matcher (strip_group g) = group_matcher g"
      using Some by (simp_all add: strip_group_def json_array_at_def group_matcher_def map_of_bt_insert_any)
    with Some show ?thesis unfolding foreign_hooks_of_commands by (simp only: option.simps foreign_commands_filter)
  qed (simp add: strip_group_def)
  assume "\<not> has_hooks (strip_group g)"
  then have "foreign_hooks_of e (strip_group g) = []"
    by (auto simp: has_hooks_def foreign_hooks_of_commands foreign_commands_def map_filter_simps split: option.splits)
  with same show "foreign_hooks_of e g = []" by simp
qed

lemma foreign_groups_remove: "concat (map (foreign_hooks_of e) (strip_groups gs)) = concat (map (foreign_hooks_of e) gs)"
  by (induction gs) (auto simp: strip_groups_def foreign_strip_group)

section \<open>What an adapter promises\<close>

text \<open>The contract of the three formats, read through the dispatch on the format of the adapter.\<close>

definition file_wf :: "adapter_descriptor \<Rightarrow> json \<Rightarrow> bool" where
  "file_wf a = (if tf_format (ad_user_target a) = AntigravityNamedHooks then object_wf else config_wf)"

definition file_fits :: "adapter_descriptor \<Rightarrow> json \<Rightarrow> bool" where
  "file_fits a = (if tf_format (ad_user_target a) = AntigravityNamedHooks then (\<lambda>_. True) else config_fits)"

definition file_seed :: "adapter_descriptor \<Rightarrow> json \<Rightarrow> json \<Rightarrow> json" where
  "file_seed a = (case tf_format (ad_user_target a) of
     HooksJson \<Rightarrow> config_seed (json_get ''version'')
   | ClaudeSettings \<Rightarrow> config_seed (\<lambda>_. None)
   | AntigravityNamedHooks \<Rightarrow> named_seed)"

definition foreign_of :: "adapter_descriptor \<Rightarrow> json \<Rightarrow> string list" where
  "foreign_of a = (case tf_format (ad_user_target a) of
     HooksJson \<Rightarrow> collect_foreign_hooks_json
   | ClaudeSettings \<Rightarrow> collect_foreign_claude_settings
   | AntigravityNamedHooks \<Rightarrow> collect_foreign_antigravity_named_hooks)"

lemmas adapter_defs = adapter_merge_def remove_managed_def file_wf_def file_fits_def file_seed_def foreign_of_def

lemma adapter_format:
  "config_format (\<lambda>x t. fst (adapter_merge a x t)) (\<lambda>x. fst (remove_managed a x)) (file_seed a) (file_wf a) (file_fits a)"
proof (cases "tf_format (ad_user_target a)")
  case HooksJson
  then show ?thesis using hooks_json.config_format_axioms by (simp add: adapter_defs)
next
  case ClaudeSettings
  then show ?thesis using claude_settings.config_format_axioms by (simp add: adapter_defs)
next
  case AntigravityNamedHooks
  then show ?thesis using named_hooks.config_format_axioms by (simp add: adapter_defs)
qed

interpretation adapter: config_format "\<lambda>x t. fst (adapter_merge a x t)" "\<lambda>x. fst (remove_managed a x)"
  "file_seed a" "file_wf a" "file_fits a" for a
  by (rule adapter_format)

lemma named_foreign_merge:
  assumes "object_wf x" and "object_wf t"
  shows "filter (\<lambda>n. n \<notin> set (managed_names t)) (collect_foreign_antigravity_named_hooks (fst (merge_antigravity_named_hooks x t))) =
    filter (\<lambda>n. n \<notin> set (managed_names t)) (collect_foreign_antigravity_named_hooks x)"
proof (cases "as_object x = None \<or> as_object t = None")
  case False
  then obtain members blocks where shape: "x = JObject members" "t = JObject blocks" by (auto simp: as_object_Some)
  with assms have wf: "bt_wf members" "bt_wf blocks" by (simp_all add: object_wf_def)
  let ?keep = "filter (\<lambda>(n, b). n \<notin> set (managed_names t))" and ?foreign = "filter (\<lambda>(n, b). \<not> named_block_has_managed_commands b)"
  have collect: "filter (\<lambda>n. n \<notin> set (managed_names t)) (collect_foreign_antigravity_named_hooks (JObject m)) = map fst (?foreign (?keep m))" for m
    by (induction m) (auto simp: collect_foreign_antigravity_named_hooks_def)
  have "?keep (fold put_block blocks members) = ?keep members"
    using wf shape by (intro bt_eqI) (simp_all add: bt_wf_filter put_blocks_wf named_lookups split: option.splits)
  then show ?thesis by (simp only: shape(1) collect merge_named_run shape(2)) (simp add: collect [unfolded shape(2)])
qed (simp add: merge_named_plain)

end
