(* ===== verification/Connector_Paths.thy ===== *)
theory Connector_Paths
  imports Connector_Adapter Ipc_Wire
begin

text \<open>
  The file layer of \<^verbatim>\<open>crates/notch-connectors/src\<close>: \<^verbatim>\<open>error.rs\<close>, \<^verbatim>\<open>hash.rs\<close>, \<^verbatim>\<open>path_security.rs\<close>, \<^verbatim>\<open>lock.rs\<close> and
  \<^verbatim>\<open>atomic.rs\<close>, on Unix. Files are a map from paths to bytes; every system call may fail, as scheduled
  in \<open>cd_faults\<close> (an empty schedule never fails). Directories, links and canonical paths are the
  answers of the environment; creating a directory has no effect on the files. A write that fails
  leaves the new file empty.
\<close>

section \<open>Errors\<close>

datatype connector_error =
    InvalidRequest string
  | PlanNotFound
  | PlanExpired
  | FileChangedSincePreview string string
  | LockContention
  | PathEscapesScope string
  | RollbackHashMismatch
  | PartialApplyFailure
  | ConnectorNotFound string
  | ConnectorInternal string

datatype connector_error_code =
    CodePlanExpired
  | CodePlanNotFound
  | CodeFileChangedSincePreview
  | CodeLockContention
  | CodePathEscapesScope
  | CodePartialApplyFailure
  | CodeActiveConnectorBlocked
  | CodeRollbackHashMismatch
  | CodeInternalError

fun connector_code :: "connector_error \<Rightarrow> connector_error_code" where
  "connector_code PlanExpired = CodePlanExpired"
| "connector_code PlanNotFound = CodePlanNotFound"
| "connector_code (FileChangedSincePreview e a) = CodeFileChangedSincePreview"
| "connector_code LockContention = CodeLockContention"
| "connector_code (PathEscapesScope m) = CodePathEscapesScope"
| "connector_code PartialApplyFailure = CodePartialApplyFailure"
| "connector_code RollbackHashMismatch = CodeRollbackHashMismatch"
| "connector_code (InvalidRequest m) = CodeInternalError"
| "connector_code (ConnectorNotFound m) = CodeInternalError"
| "connector_code (ConnectorInternal m) = CodeInternalError"

fun connector_error_text :: "connector_error \<Rightarrow> string" where
  "connector_error_text (InvalidRequest m) = ''invalid request: '' @ m"
| "connector_error_text PlanNotFound = ''plan not found''"
| "connector_error_text PlanExpired = ''plan expired''"
| "connector_error_text (FileChangedSincePreview e a) = ''file changed since preview''"
| "connector_error_text LockContention = ''lock contention''"
| "connector_error_text (PathEscapesScope m) = ''path escapes scope''"
| "connector_error_text RollbackHashMismatch = ''rollback hash mismatch''"
| "connector_error_text PartialApplyFailure = ''partial apply failure''"
| "connector_error_text (ConnectorNotFound m) = ''not found: '' @ m"
| "connector_error_text (ConnectorInternal m) = ''internal error: '' @ m"

section \<open>Journal data\<close>

datatype file_outcome = FileApplied | FileSkipped | FileFailed

record file_apply_result =
  fr_display_path :: string
  fr_outcome :: file_outcome
  fr_backup_journal_id :: "string option"
  fr_applied_hash :: "string option"
  fr_error_code :: "connector_error_code option"
  fr_message :: "string option"

datatype backup_operation = BackupCreate | BackupRestore | BackupRecompute

record backup_entry =
  be_id :: string
  be_plan_id :: "string option"
  be_source :: agent_source
  be_display_path :: string
  be_backup_display_path :: string
  be_content_sha256 :: string
  be_applied_hash :: "string option"
  be_operation :: backup_operation
  be_recorded_at_ms :: int

record apply_entry =
  ae_id :: string
  ae_plan_id :: string
  ae_source :: agent_source
  ae_scope :: connector_scope
  ae_started_at_ms :: int
  ae_completed_at_ms :: "int option"
  ae_file_results :: "file_apply_result list"
  ae_rollback_available :: bool

record journal_store =
  js_backups :: "backup_entry list"
  js_applies :: "apply_entry list"

section \<open>The disk\<close>

type_synonym files = "string \<rightharpoonup> string"

text \<open>The file of the journal is missing, holds a journal, or holds text that is none (\<open>Some None\<close>).\<close>

record conn_disk =
  cd_files :: files
  cd_journal :: journal_store
  cd_journal_file :: "journal_store option option"
  cd_uuids :: nat
  cd_faults :: "string option list"

type_synonym 'a conn_op = "(conn_disk, connector_error, 'a) op"

datatype node_type = RegularNode | DirectoryNode | SymlinkNode | FifoNode | SocketNode | OtherNode

datatype lstat_answer = LstatMissing | LstatError string | LstatNode node_type

datatype canon_answer = CanonPath string | CanonMissing string | CanonError string

record fs_env =
  fe_canonicalize :: "files \<Rightarrow> string \<Rightarrow> canon_answer"
  fe_lstat :: "files \<Rightarrow> string \<Rightarrow> lstat_answer"
  fe_is_dir :: "string \<Rightarrow> bool"
  fe_nlink :: "files \<Rightarrow> string \<Rightarrow> nat"
  fe_lock_stale :: "string \<Rightarrow> bool"
  fe_uuid :: "nat \<Rightarrow> string"
  fe_sha256 :: "string \<Rightarrow> string"
  fe_pid :: nat
  fe_timestamp :: "int \<Rightarrow> string option"

definition sys_call :: "(string \<Rightarrow> connector_error) \<Rightarrow> unit conn_op" where
  "sys_call wrap d =
     (case cd_faults d of
        [] \<Rightarrow> (Ok (), d)
      | None # rest \<Rightarrow> (Ok (), d\<lparr>cd_faults := rest\<rparr>)
      | Some message # rest \<Rightarrow> (Err (wrap message), d\<lparr>cd_faults := rest\<rparr>))"

definition internal :: "string \<Rightarrow> string \<Rightarrow> connector_error" where
  "internal context message = ConnectorInternal (context @ '': '' @ message)"

definition set_file :: "string \<Rightarrow> string option \<Rightarrow> unit conn_op" where
  "set_file path content = modify (\<lambda>d. d\<lparr>cd_files := (cd_files d)(path := content)\<rparr>)"

definition disk_files :: "files conn_op" where
  "disk_files = gets cd_files"

text \<open>\<open>let _ = \<dots>;\<close>\<close>

definition ignoring :: "unit conn_op \<Rightarrow> unit conn_op" where
  "ignoring m d = (Ok (), snd (m d))"

definition NOT_FOUND_TEXT :: string where
  "NOT_FOUND_TEXT = ''No such file or directory (os error 2)''"

definition ALREADY_EXISTS_TEXT :: string where
  "ALREADY_EXISTS_TEXT = ''File exists (os error 17)''"

definition read_file :: "(string \<Rightarrow> connector_error) \<Rightarrow> string \<Rightarrow> string conn_op" where
  "read_file wrap path = seq (sys_call wrap) (bind disk_files (\<lambda>files.
     case files path of None \<Rightarrow> throw (wrap NOT_FOUND_TEXT) | Some content \<Rightarrow> ret content))"

definition create_new_file :: "(string \<Rightarrow> connector_error) \<Rightarrow> connector_error \<Rightarrow> string \<Rightarrow> unit conn_op" where
  "create_new_file wrap taken path = seq (sys_call wrap) (bind disk_files (\<lambda>files.
     if files path \<noteq> None then throw taken else set_file path (Some [])))"

definition write_file :: "(string \<Rightarrow> connector_error) \<Rightarrow> string \<Rightarrow> string \<Rightarrow> unit conn_op" where
  "write_file wrap path content = seq (sys_call wrap) (set_file path (Some content))"

definition remove_disk_file :: "(string \<Rightarrow> connector_error) \<Rightarrow> string \<Rightarrow> unit conn_op" where
  "remove_disk_file wrap path = seq (sys_call wrap) (set_file path None)"

definition rename_disk_file :: "(string \<Rightarrow> connector_error) \<Rightarrow> string \<Rightarrow> string \<Rightarrow> unit conn_op" where
  "rename_disk_file wrap source target = seq (sys_call wrap) (bind disk_files (\<lambda>files.
     case files source of
       None \<Rightarrow> throw (wrap NOT_FOUND_TEXT)
     | Some content \<Rightarrow> seq (set_file source None) (set_file target (Some content))))"

definition new_uuid :: "fs_env \<Rightarrow> string conn_op" where
  "new_uuid w d = (Ok (fe_uuid w (cd_uuids d)), d\<lparr>cd_uuids := Suc (cd_uuids d)\<rparr>)"

definition path_exists :: "fs_env \<Rightarrow> files \<Rightarrow> string \<Rightarrow> bool" where
  "path_exists w files path \<longleftrightarrow> files path \<noteq> None \<or> fe_is_dir w path"

section \<open>Paths\<close>

text \<open>\<open>Path::components\<close> on Unix, and the parts of a path without empty components.\<close>

datatype path_component = PrefixDir | RootDir | CurDir | ParentDir | Normal string

definition path_components :: "string \<Rightarrow> path_component list" where
  "path_components path =
     (let parts = split_at (CHR ''/'') path
      in (if path \<noteq> [] \<and> hd path = CHR ''/'' then [RootDir] else if hd parts = ''.'' then [CurDir] else []) @
         map (\<lambda>p. if p = ''..'' then ParentDir else Normal p) (filter (\<lambda>p. p \<noteq> [] \<and> p \<noteq> ''.'') parts))"

definition path_starts_with :: "string \<Rightarrow> string \<Rightarrow> bool" where
  "path_starts_with path base \<longleftrightarrow> prefix (path_components base) (path_components path)"

definition is_absolute_path :: "string \<Rightarrow> bool" where
  "is_absolute_path path \<longleftrightarrow> path \<noteq> [] \<and> hd path = CHR ''/''"

definition path_parent :: "string \<Rightarrow> string option" where
  "path_parent path =
     (if path = [] \<or> path = ''/'' then None
      else (case before_last (CHR ''/'') path of
          None \<Rightarrow> Some []
        | Some dir \<Rightarrow> Some (if dir = [] then ''/'' else dir)))"

definition path_file_name :: "string \<Rightarrow> string option" where
  "path_file_name path =
     (let name = after_last (CHR ''/'') path in if name = [] \<or> name = ''..'' then None else Some name)"

definition with_file_name :: "string \<Rightarrow> string \<Rightarrow> string" where
  "with_file_name path name =
     (if path_file_name path = None then path_join path name
      else (case path_parent path of None \<Rightarrow> name | Some dir \<Rightarrow> path_join dir name))"

lemma before_last_shorter: "before_last c s = Some t \<Longrightarrow> length t < length s"
proof -
  assume "before_last c s = Some t"
  then have mem: "c \<in> set s" and t: "t = rev (tl (dropWhile (\<lambda>x. x \<noteq> c) (rev s)))"
    by (simp_all add: before_last_def split: if_splits)
  from mem have "dropWhile (\<lambda>x. x \<noteq> c) (rev s) \<noteq> []" by (simp add: dropWhile_eq_Nil_conv)
  then have "length t < length (dropWhile (\<lambda>x. x \<noteq> c) (rev s))" by (simp add: t)
  also have "\<dots> \<le> length s" using length_dropWhile_le [of _ "rev s"] by simp
  finally show ?thesis .
qed

lemma path_parent_shorter: "path_parent path = Some dir \<Longrightarrow> length dir < length path"
proof -
  assume parent: "path_parent path = Some dir"
  then have path: "path \<noteq> []" "path \<noteq> ''/''" by (simp_all add: path_parent_def split: if_splits)
  show ?thesis
  proof (cases "before_last (CHR ''/'') path")
    case None
    with parent path show ?thesis by (simp add: path_parent_def)
  next
    case (Some d)
    have "length path \<noteq> 1"
    proof
      assume "length path = 1"
      then obtain c where "path = [c]" by (auto simp: length_Suc_conv)
      with Some path(2) show False by (simp add: before_last_def split: if_splits)
    qed
    with path have "1 < length path" by (cases path) auto
    with before_last_shorter [OF Some] parent path Some show ?thesis by (auto simp: path_parent_def split: if_splits)
  qed
qed

section \<open>Security of paths\<close>

definition lstat_component :: "fs_env \<Rightarrow> string \<Rightarrow> unit conn_op" where
  "lstat_component w path = bind disk_files (\<lambda>files.
     case fe_lstat w files path of
       LstatMissing \<Rightarrow> ret ()
     | LstatError message \<Rightarrow> throw (PathEscapesScope (''lstat failed for '' @ path @ '': '' @ message))
     | LstatNode node \<Rightarrow>
         if node = SymlinkNode then throw (PathEscapesScope (''symlink rejected: '' @ path))
         else if node = FifoNode \<or> node = SocketNode then throw (PathEscapesScope (''special file rejected: '' @ path))
         else ret ())"

definition rejected_component :: "path_component \<Rightarrow> bool" where
  "rejected_component c \<longleftrightarrow> c = ParentDir \<or> c = RootDir \<or> c = PrefixDir"

fun lstat_parts :: "fs_env \<Rightarrow> string \<Rightarrow> path_component list \<Rightarrow> string conn_op" where
  "lstat_parts w current [] = ret current"
| "lstat_parts w current (Normal part # cs) =
     seq (lstat_component w (path_join current part)) (lstat_parts w (path_join current part) cs)"
| "lstat_parts w current (c # cs) = lstat_parts w current cs"

definition canonicalize_root :: "fs_env \<Rightarrow> string \<Rightarrow> string conn_op" where
  "canonicalize_root w path = bind disk_files (\<lambda>files.
     case fe_canonicalize w files path of
       CanonPath path' \<Rightarrow> ret path'
     | CanonMissing message \<Rightarrow> throw (internal ''cannot canonicalize scope root'' message)
     | CanonError message \<Rightarrow> throw (internal ''cannot canonicalize scope root'' message))"

definition validate_under_root :: "fs_env \<Rightarrow> string \<Rightarrow> string \<Rightarrow> string conn_op" where
  "validate_under_root w base relative = bind (canonicalize_root w base) (\<lambda>base'.
     if is_absolute_path relative then throw (PathEscapesScope ''absolute paths are not allowed'')
     else if list_ex rejected_component (path_components relative) then throw (PathEscapesScope ''path traversal rejected'')
     else bind (lstat_parts w base' (path_components relative)) (\<lambda>current. bind disk_files (\<lambda>files.
       case fe_canonicalize w files current of
         CanonPath path \<Rightarrow>
           if path_starts_with path base' then ret path else throw (PathEscapesScope ''resolved path escapes scope'')
       | CanonMissing message \<Rightarrow>
           if path_starts_with current base' then ret current else throw (PathEscapesScope ''constructed path escapes scope'')
       | CanonError message \<Rightarrow> throw (PathEscapesScope (''canonicalize failed: '' @ message)))))"

text \<open>The standard library's \<open>metadata\<close> follows links, so the symlink test of the root never fires.\<close>

record scope_root =
  sr_canonical :: string
  sr_display_prefix :: string

definition validate_root :: "fs_env \<Rightarrow> string \<Rightarrow> string conn_op" where
  "validate_root w path = seq (sys_call (internal (''cannot stat scope root '' @ path))) (canonicalize_root w path)"

definition scope_user_home :: "fs_env \<Rightarrow> string option \<Rightarrow> scope_root conn_op" where
  "scope_user_home w home =
     (case home of
        None \<Rightarrow> throw (ConnectorInternal ''home directory unavailable'')
      | Some path \<Rightarrow> bind (validate_root w path) (\<lambda>canonical. ret \<lparr>sr_canonical = canonical, sr_display_prefix = ''~''\<rparr>))"

definition scope_project :: "fs_env \<Rightarrow> string \<Rightarrow> scope_root conn_op" where
  "scope_project w workspace =
     bind (validate_root w workspace) (\<lambda>canonical. ret \<lparr>sr_canonical = canonical, sr_display_prefix = canonical\<rparr>)"

definition scope_display_path :: "scope_root \<Rightarrow> string \<Rightarrow> string" where
  "scope_display_path scope relative =
     (if sr_display_prefix scope = ''~'' then ''~/'' @ relative else sr_display_prefix scope @ ''/'' @ relative)"

definition reject_hardlink :: "fs_env \<Rightarrow> string \<Rightarrow> unit conn_op" where
  "reject_hardlink w path = bind disk_files (\<lambda>files.
     if \<not> path_exists w files path then ret ()
     else seq (sys_call (internal (''stat failed for '' @ path)))
       (if fe_nlink w files path > 1 then throw (PathEscapesScope (''hardlink rejected: '' @ path)) else ret ()))"

function assert_parent_chain_safe :: "fs_env \<Rightarrow> string \<Rightarrow> unit conn_op" where
  "assert_parent_chain_safe w path =
     (case path_parent path of
        None \<Rightarrow> ret ()
      | Some dir \<Rightarrow>
          if dir = [] then ret ()
          else seq (bind disk_files (\<lambda>files. if path_exists w files dir then lstat_component w dir else ret ()))
            (assert_parent_chain_safe w dir))"
  by pat_completeness auto
termination by (relation "measure (\<lambda>(w, path). length path)") (auto intro: path_parent_shorter)

declare assert_parent_chain_safe.simps [simp del]

definition canonical_or :: "fs_env \<Rightarrow> files \<Rightarrow> string \<Rightarrow> string" where
  "canonical_or w files path = (case fe_canonicalize w files path of CanonPath path' \<Rightarrow> path' | _ \<Rightarrow> path)"

definition revalidate_locked_target :: "fs_env \<Rightarrow> string \<Rightarrow> string \<Rightarrow> string \<Rightarrow> string conn_op" where
  "revalidate_locked_target w base relative expected =
     bind (validate_under_root w base relative) (\<lambda>resolved. bind disk_files (\<lambda>files.
       let expected' = canonical_or w files expected; resolved' = canonical_or w files resolved
       in if resolved' \<noteq> expected' then throw (PathEscapesScope ''target path changed under lock'')
          else seq (assert_parent_chain_safe w resolved') (seq (reject_hardlink w resolved') (ret resolved'))))"

definition secure_backup_path :: "fs_env \<Rightarrow> string \<Rightarrow> string \<Rightarrow> string conn_op" where
  "secure_backup_path w target timestamp =
     (case path_parent target of
        None \<Rightarrow> throw (ConnectorInternal ''target has no parent'')
      | Some dir \<Rightarrow> seq (assert_parent_chain_safe w dir)
          (let file_name = (case path_file_name target of Some n \<Rightarrow> n | None \<Rightarrow> ''file'')
           in bind (new_uuid w) (\<lambda>uuid. ret (path_join dir (file_name @ ''.llm-notch.bak.'' @ timestamp @ ''.'' @ uuid)))))"

definition write_exclusive_file :: "string \<Rightarrow> string \<Rightarrow> unit conn_op" where
  "write_exclusive_file path content =
     seq (create_new_file (internal (''exclusive create failed for '' @ path))
         (PathEscapesScope (''exclusive create rejected: '' @ path @ '' already exists'')) path)
       (seq (write_file (internal (''exclusive write failed for '' @ path)) path content)
         (sys_call (internal (''exclusive sync failed for '' @ path))))"

section \<open>Locks and atomic replacement\<close>

definition LOCK_SUFFIX :: string where
  "LOCK_SUFFIX = ''.llm-notch.lock''"

definition lock_path_for :: "string \<Rightarrow> string" where
  "lock_path_for target =
     with_file_name target ((case path_file_name target of Some n \<Rightarrow> n | None \<Rightarrow> ''target'') @ LOCK_SUFFIX)"

definition lock_acquire :: "fs_env \<Rightarrow> string \<Rightarrow> string conn_op" where
  "lock_acquire w target =
     (let lock_path = lock_path_for target
      in seq (if path_parent lock_path = None then ret () else sys_call (internal ''cannot create lock parent''))
        (seq (bind disk_files (\<lambda>files.
            if files lock_path \<noteq> None \<and> fe_lock_stale w lock_path
            then ignoring (remove_disk_file ConnectorInternal lock_path) else ret ()))
          (seq (create_new_file (internal ''lock create failed'') LockContention lock_path)
            (seq (sys_call (internal ''lock truncate failed''))
              (seq (write_file (internal ''lock write failed'') lock_path (''pid='' @ dec_string (fe_pid w) @ [CHR 0x0A]))
                (ret lock_path))))))"

text \<open>The lock is a value that removes its file when it goes out of scope, also after an error.\<close>

definition with_lock :: "fs_env \<Rightarrow> string \<Rightarrow> 'a conn_op \<Rightarrow> 'a conn_op" where
  "with_lock w target body = bind (lock_acquire w target) (\<lambda>lock_path d.
     case body d of (r, d') \<Rightarrow> (r, snd (ignoring (remove_disk_file ConnectorInternal lock_path) d')))"

definition durable_replace :: "fs_env \<Rightarrow> string \<Rightarrow> string \<Rightarrow> unit conn_op" where
  "durable_replace w source target = bind disk_files (\<lambda>files.
     if \<not> path_exists w files target then rename_disk_file (internal ''rename failed'') source target
     else rename_disk_file (internal ''atomic rename failed'') source target)"

definition atomic_write_with_revalidate :: "fs_env \<Rightarrow> string \<Rightarrow> string \<Rightarrow> unit conn_op \<Rightarrow> unit conn_op" where
  "atomic_write_with_revalidate w path content revalidate =
     (case path_parent path of
        None \<Rightarrow> throw (ConnectorInternal ''target has no parent'')
      | Some dir \<Rightarrow>
          seq (sys_call (internal ''create parent failed''))
          (bind (new_uuid w) (\<lambda>uuid.
            let temp_path = path_join dir (''.'' @ uuid @ ''.llm-notch.tmp'')
            in seq revalidate
              (seq (create_new_file (internal ''temp create failed'') (internal ''temp create failed'' ALREADY_EXISTS_TEXT) temp_path)
              (seq (write_file (internal ''temp write failed'') temp_path content)
              (seq (sys_call (internal ''temp sync failed''))
              (seq revalidate (durable_replace w temp_path path))))))))"

definition sha256_file :: "fs_env \<Rightarrow> (string \<Rightarrow> connector_error) \<Rightarrow> string \<Rightarrow> string conn_op" where
  "sha256_file w wrap path = bind (read_file wrap path) (\<lambda>bytes. ret (fe_sha256 w bytes))"

definition read_and_hash :: "fs_env \<Rightarrow> (string \<Rightarrow> connector_error) \<Rightarrow> string \<Rightarrow> (string \<times> string) conn_op" where
  "read_and_hash w wrap path = bind (read_file wrap path) (\<lambda>bytes. ret (bytes, fe_sha256 w bytes))"

end
