(* ===== verification/Connector_Apply.thy ===== *)
theory Connector_Apply
  imports Connector_Paths
begin

text \<open>
  \<^verbatim>\<open>crates/notch-connectors/src\<close>: the journal (\<^verbatim>\<open>journal.rs\<close>) and the application of a plan (\<^verbatim>\<open>apply.rs\<close>,
  with the plan data of \<^verbatim>\<open>plan.rs\<close>): preflight, the write of one file under its lock with a backup
  before it, and the compensation when a later file fails.
\<close>

section \<open>Journal\<close>

definition persist_journal :: "fs_env \<Rightarrow> unit conn_op" where
  "persist_journal w =
     bind (new_uuid w) (\<lambda>_.
     seq (sys_call (internal ''journal temp write failed''))
       (bind (gets cd_journal_file) (\<lambda>old.
         seq (sys_call (\<lambda>message. internal ''journal replace failed'' (connector_error_text
             (internal (if old = None then ''rename failed'' else ''atomic rename failed'') message))))
           (modify (\<lambda>d. d\<lparr>cd_journal_file := Some (Some (cd_journal d))\<rparr>)))))"

definition empty_journal :: journal_store where
  "empty_journal = \<lparr>js_backups = [], js_applies = []\<rparr>"

definition journal_open :: "unit conn_op" where
  "journal_open =
     seq (sys_call (internal ''journal dir create failed''))
       (bind (gets cd_journal_file) (\<lambda>file.
         case file of
           None \<Rightarrow> modify (\<lambda>d. d\<lparr>cd_journal := empty_journal\<rparr>)
         | Some stored \<Rightarrow> seq (sys_call (internal ''journal read failed''))
             (modify (\<lambda>d. d\<lparr>cd_journal := (case stored of Some j \<Rightarrow> j | None \<Rightarrow> empty_journal)\<rparr>))))"

definition record_backup :: "fs_env \<Rightarrow> backup_entry \<Rightarrow> string conn_op" where
  "record_backup w entry =
     seq (modify (\<lambda>d. d\<lparr>cd_journal := (cd_journal d)\<lparr>js_backups := js_backups (cd_journal d) @ [entry]\<rparr>\<rparr>))
       (seq (persist_journal w) (ret (be_id entry)))"

definition record_apply :: "fs_env \<Rightarrow> apply_entry \<Rightarrow> unit conn_op" where
  "record_apply w entry =
     seq (modify (\<lambda>d. d\<lparr>cd_journal := (cd_journal d)\<lparr>js_applies := js_applies (cd_journal d) @ [entry]\<rparr>\<rparr>))
       (persist_journal w)"

definition find_backup :: "string \<Rightarrow> backup_entry option conn_op" where
  "find_backup backup_id = gets (\<lambda>d. List.find (\<lambda>e. be_id e = backup_id) (js_backups (cd_journal d)))"

text \<open>\<open>Iterator::max_by_key\<close> returns the last of the largest elements.\<close>

fun max_by_key :: "('a \<Rightarrow> 'k :: linorder) \<Rightarrow> 'a list \<Rightarrow> 'a option" where
  "max_by_key f [] = None"
| "max_by_key f (x # xs) = (case max_by_key f xs of None \<Rightarrow> Some x | Some y \<Rightarrow> Some (if f y < f x then x else y))"

definition latest_backup_for_display_path :: "agent_source \<Rightarrow> string \<Rightarrow> backup_entry option conn_op" where
  "latest_backup_for_display_path source display_path = gets (\<lambda>d.
     max_by_key be_recorded_at_ms
       (filter (\<lambda>e. be_source e = source \<and> be_display_path e = display_path) (js_backups (cd_journal d))))"

definition purge_journal :: "fs_env \<Rightarrow> bool \<Rightarrow> (nat \<times> nat) conn_op" where
  "purge_journal w include_backups = bind (gets cd_journal) (\<lambda>j.
     let applies_removed = wrap_u32 (length (js_applies j));
         backups_removed = (if include_backups then wrap_u32 (length (js_backups j)) else 0)
     in seq (modify (\<lambda>d. d\<lparr>cd_journal := \<lparr>js_backups = (if include_backups then [] else js_backups j), js_applies = []\<rparr>\<rparr>))
       (seq (persist_journal w) (ret (applies_removed, backups_removed))))"

definition backup_timestamp :: "fs_env \<Rightarrow> int \<Rightarrow> string" where
  "backup_timestamp w now_ms = (case fe_timestamp w now_ms of Some t \<Rightarrow> t | None \<Rightarrow> ''unknown'')"

definition backup_display_path :: "string \<Rightarrow> string \<Rightarrow> string" where
  "backup_display_path display_path timestamp = display_path @ ''.llm-notch.bak.'' @ timestamp"

section \<open>Plans\<close>

record plan_file =
  pf_scope_canonical :: string
  pf_relative_path :: string
  pf_canonical_path :: string
  pf_display_path :: string
  pf_baseline_sha256 :: string
  pf_baseline_text :: string
  pf_merged_text :: string
  pf_foreign_entries_preserved :: "string list"
  pf_is_new_file :: bool
  pf_backup_display_path :: string

record stored_plan =
  sp_plan_id :: string
  sp_source :: agent_source
  sp_scope :: connector_scope
  sp_operation :: plan_operation
  sp_expires_at_ms :: int
  sp_summary :: string
  sp_files :: "plan_file list"
  sp_rollback_backup_id :: "string option"

record apply_result =
  ar_plan_id :: string
  ar_source :: agent_source
  ar_file_results :: "file_apply_result list"
  ar_capabilities :: adapter_capabilities

section \<open>Applying a plan\<close>

definition preflight :: "fs_env \<Rightarrow> plan_file \<Rightarrow> unit conn_op" where
  "preflight w file =
     seq (reject_hardlink w (pf_canonical_path file)) (bind disk_files (\<lambda>files.
       if path_exists w files (pf_canonical_path file)
       then bind (sha256_file w (internal ''hash failed'') (pf_canonical_path file)) (\<lambda>actual.
         if actual \<noteq> pf_baseline_sha256 file then throw (FileChangedSincePreview (pf_baseline_sha256 file) actual)
         else ret ())
       else if \<not> pf_is_new_file file
       then throw (FileChangedSincePreview (pf_baseline_sha256 file) (fe_sha256 w (pf_baseline_text file)))
       else ret ()))"

definition revalidate_for :: "fs_env \<Rightarrow> plan_file \<Rightarrow> unit conn_op" where
  "revalidate_for w file =
     bind (revalidate_locked_target w (pf_scope_canonical file) (pf_relative_path file) (pf_canonical_path file)) (\<lambda>_. ret ())"

definition backup_label :: "plan_file \<Rightarrow> string \<Rightarrow> string" where
  "backup_label file backup_file_name =
     (if starts_with ''~/'' (pf_display_path file) then ''~/'' @ backup_file_name
      else (case before_last (CHR ''/'') (pf_display_path file) of
          Some parent \<Rightarrow> parent @ ''/'' @ backup_file_name
        | None \<Rightarrow> backup_file_name))"

definition backup_entry_of :: "fs_env \<Rightarrow> plan_file \<Rightarrow> string \<Rightarrow> agent_source \<Rightarrow> int \<Rightarrow> string \<Rightarrow> string \<Rightarrow> string \<Rightarrow> backup_entry" where
  "backup_entry_of w file plan_id source now_ms backup_path content_sha256 uuid =
     (let backup_file_name = (case path_file_name backup_path of Some n \<Rightarrow> n | None \<Rightarrow> pf_backup_display_path file)
      in \<lparr>be_id = ''bak-'' @ uuid, be_plan_id = Some plan_id, be_source = source, be_display_path = pf_display_path file,
         be_backup_display_path = backup_label file backup_file_name, be_content_sha256 = content_sha256,
         be_applied_hash = Some (fe_sha256 w (pf_merged_text file)), be_operation = BackupCreate,
         be_recorded_at_ms = now_ms\<rparr>)"

definition create_backup :: "fs_env \<Rightarrow> plan_file \<Rightarrow> string \<Rightarrow> agent_source \<Rightarrow> int \<Rightarrow> unit conn_op \<Rightarrow> string conn_op" where
  "create_backup w file plan_id source now_ms revalidate =
     seq revalidate
       (bind (secure_backup_path w (pf_canonical_path file) (backup_timestamp w now_ms)) (\<lambda>backup_path.
         seq revalidate
           (bind (read_and_hash w (internal ''backup read failed'') (pf_canonical_path file)) (\<lambda>content.
             seq revalidate
               (seq (write_exclusive_file backup_path (fst content))
                 (bind (new_uuid w) (\<lambda>uuid.
                   record_backup w (backup_entry_of w file plan_id source now_ms backup_path (snd content) uuid))))))))"

definition locked_hash :: "fs_env \<Rightarrow> plan_file \<Rightarrow> string conn_op" where
  "locked_hash w file = bind disk_files (\<lambda>files.
     if path_exists w files (pf_canonical_path file)
     then bind (read_and_hash w (internal ''hash under lock failed'') (pf_canonical_path file)) (\<lambda>(bytes, hash). ret hash)
     else ret (pf_baseline_sha256 file))"

definition locked_backup :: "fs_env \<Rightarrow> plan_file \<Rightarrow> string \<Rightarrow> agent_source \<Rightarrow> int \<Rightarrow> string option conn_op" where
  "locked_backup w file plan_id source now_ms = bind disk_files (\<lambda>files.
     if pf_baseline_text file \<noteq> pf_merged_text file \<and> path_exists w files (pf_canonical_path file)
     then seq (revalidate_for w file)
       (bind (create_backup w file plan_id source now_ms (revalidate_for w file)) (\<lambda>backup_id. ret (Some backup_id)))
     else ret None)"

definition apply_single_file :: "fs_env \<Rightarrow> plan_file \<Rightarrow> string \<Rightarrow> agent_source \<Rightarrow> int \<Rightarrow> file_apply_result conn_op" where
  "apply_single_file w file plan_id source now_ms =
     with_lock w (pf_canonical_path file)
       (seq (revalidate_for w file)
         (bind (locked_hash w file) (\<lambda>current_hash.
           if current_hash \<noteq> pf_baseline_sha256 file
           then throw (FileChangedSincePreview (pf_baseline_sha256 file) current_hash)
           else bind (locked_backup w file plan_id source now_ms) (\<lambda>backup_id.
             seq (revalidate_for w file)
               (seq (atomic_write_with_revalidate w (pf_canonical_path file) (pf_merged_text file) (revalidate_for w file))
                 (ret \<lparr>fr_display_path = pf_display_path file, fr_outcome = FileApplied, fr_backup_journal_id = backup_id,
                    fr_applied_hash = Some (fe_sha256 w (pf_merged_text file)), fr_error_code = None, fr_message = None\<rparr>))))))"

definition infer_backup_path :: "string \<Rightarrow> string \<Rightarrow> string" where
  "infer_backup_path target label = with_file_name target (after_last (CHR ''/'') label)"

definition restore_from_backup :: "fs_env \<Rightarrow> plan_file \<Rightarrow> backup_entry \<Rightarrow> unit conn_op \<Rightarrow> unit conn_op" where
  "restore_from_backup w file backup revalidate =
     seq revalidate
       (let backup_path = infer_backup_path (pf_canonical_path file) (be_backup_display_path backup)
        in seq (case path_parent backup_path of None \<Rightarrow> ret () | Some dir \<Rightarrow> assert_parent_chain_safe w dir)
          (bind disk_files (\<lambda>files.
            if \<not> path_exists w files backup_path then throw (ConnectorNotFound ''backup file missing'')
            else seq revalidate
              (bind (read_and_hash w (internal ''backup read failed'') backup_path) (\<lambda>(bytes, backup_hash).
                if backup_hash \<noteq> be_content_sha256 backup then throw RollbackHashMismatch
                else seq revalidate (atomic_write_with_revalidate w (pf_canonical_path file) bytes revalidate))))))"

text \<open>\<open>unwrap_or_default\<close>\<close>

definition or_default :: "'a \<Rightarrow> 'a conn_op \<Rightarrow> 'a conn_op" where
  "or_default x m d = (case m d of (Err e, d') \<Rightarrow> (Ok x, d') | r \<Rightarrow> r)"

definition current_hash_of :: "fs_env \<Rightarrow> string \<Rightarrow> string conn_op" where
  "current_hash_of w path = bind disk_files (\<lambda>files.
     if path_exists w files path
     then or_default [] (bind (read_and_hash w ConnectorInternal path) (\<lambda>(bytes, hash). ret hash))
     else ret [])"

definition compensate_file :: "fs_env \<Rightarrow> plan_file \<times> string \<Rightarrow> unit conn_op" where
  "compensate_file w = (\<lambda>(file, backup_id). bind (find_backup backup_id) (\<lambda>found.
     case found of
       None \<Rightarrow> ret ()
     | Some backup \<Rightarrow> with_lock w (pf_canonical_path file)
         (seq (revalidate_for w file)
           (bind (current_hash_of w (pf_canonical_path file)) (\<lambda>current.
             case be_applied_hash backup of
               None \<Rightarrow> ret ()
             | Some applied_hash \<Rightarrow>
                 if current \<noteq> applied_hash then ret ()
                 else restore_from_backup w file backup (revalidate_for w file))))))"

definition compensate :: "fs_env \<Rightarrow> (plan_file \<times> string) list \<Rightarrow> unit conn_op" where
  "compensate w applied = for_each (compensate_file w) (rev applied)"

definition skipped_result :: "plan_file \<Rightarrow> file_apply_result" where
  "skipped_result file =
     \<lparr>fr_display_path = pf_display_path file, fr_outcome = FileSkipped, fr_backup_journal_id = None,
      fr_applied_hash = Some (pf_baseline_sha256 file), fr_error_code = None, fr_message = Some ''No changes needed''\<rparr>"

definition note_applied :: "plan_file \<Rightarrow> file_apply_result \<Rightarrow> (plan_file \<times> string) list \<Rightarrow> (plan_file \<times> string) list" where
  "note_applied file result applied =
     (case (fr_outcome result, fr_backup_journal_id result) of
        (FileApplied, Some backup_id) \<Rightarrow> applied @ [(file, backup_id)]
      | _ \<Rightarrow> applied)"

fun apply_files ::
  "fs_env \<Rightarrow> string \<Rightarrow> agent_source \<Rightarrow> int \<Rightarrow> plan_file list \<Rightarrow> file_apply_result list \<Rightarrow> (plan_file \<times> string) list \<Rightarrow>
   file_apply_result list conn_op" where
  "apply_files w plan_id source now_ms [] results applied = ret results"
| "apply_files w plan_id source now_ms (file # rest) results applied =
     (if pf_baseline_text file = pf_merged_text file
      then apply_files w plan_id source now_ms rest (results @ [skipped_result file]) applied
      else (\<lambda>d. case apply_single_file w file plan_id source now_ms d of
          (Ok result, d') \<Rightarrow>
            apply_files w plan_id source now_ms rest (results @ [result])
              (note_applied file result applied) d'
        | (Err error, d') \<Rightarrow> seq (compensate w applied) (throw PartialApplyFailure) d'
        | (Panic p, d') \<Rightarrow> (Panic p, d')))"

definition apply_plan :: "fs_env \<Rightarrow> stored_plan \<Rightarrow> int \<Rightarrow> adapter_capabilities \<Rightarrow> apply_result conn_op" where
  "apply_plan w plan now_ms capabilities =
     (let result = (\<lambda>results. \<lparr>ar_plan_id = sp_plan_id plan, ar_source = sp_source plan, ar_file_results = results,
            ar_capabilities = capabilities\<rparr>)
      in if sp_files plan = [] then ret (result [])
         else seq (for_each (preflight w) (sp_files plan))
           (bind (apply_files w (sp_plan_id plan) (sp_source plan) now_ms (sp_files plan) [] []) (\<lambda>file_results.
             bind (new_uuid w) (\<lambda>uuid.
               seq (record_apply w
                   \<lparr>ae_id = ''jrnl-'' @ uuid, ae_plan_id = sp_plan_id plan, ae_source = sp_source plan, ae_scope = sp_scope plan,
                    ae_started_at_ms = now_ms, ae_completed_at_ms = Some now_ms, ae_file_results = file_results,
                    ae_rollback_available = list_ex (\<lambda>r. fr_outcome r = FileApplied) file_results\<rparr>)
                 (ret (result file_results))))))"

end
