(* ===== verification/Connector_Diff.thy ===== *)
theory Connector_Diff
  imports Rust_Search
begin

text \<open>
  \<^verbatim>\<open>crates/notch-connectors/src/diff.rs\<close>: the diff that a preview shows. The code walks two vectors of
  lines with two indices; the model keeps each index together with the rest of the lines from it on.
\<close>

section \<open>Lines\<close>

text \<open>\<open>str::lines\<close>: pieces end at a line feed, a carriage return before it goes too; no piece after the last one.\<close>

definition strip_cr :: "string \<Rightarrow> string" where
  "strip_cr l = (if l \<noteq> [] \<and> last l = CHR 0x0D then butlast l else l)"

definition str_lines :: "string \<Rightarrow> string list" where
  "str_lines s =
     (let pieces = split_at (CHR 0x0A) s
      in map strip_cr (butlast pieces) @ (if last pieces = [] then [] else [last pieces]))"

section \<open>Hunks\<close>

record hunk =
  hunk_start_old :: nat
  hunk_removed :: "string list"
  hunk_start_new :: nat
  hunk_added :: "string list"

text \<open>The inner loop; it returns what was removed and added and what is left of both texts.\<close>

fun collect_hunk ::
  "nat \<Rightarrow> string list \<Rightarrow> string list \<Rightarrow> string list \<Rightarrow> string list \<Rightarrow> string list \<times> string list \<times> string list \<times> string list" where
  "collect_hunk max_len [] [] removed added = (removed, added, [], [])"
| "collect_hunk max_len (o1 # os) (n1 # ns) removed added =
     (if o1 = n1 then (removed, added, o1 # os, n1 # ns)
      else if length (removed @ [o1]) + length added > max_len then (removed @ [o1], added, os, n1 # ns)
      else collect_hunk max_len os (n1 # ns) (removed @ [o1]) added)"
| "collect_hunk max_len (o1 # os) [] removed added =
     (if length (removed @ [o1]) + length added > max_len then (removed @ [o1], added, os, [])
      else collect_hunk max_len os [] (removed @ [o1]) added)"
| "collect_hunk max_len [] (n1 # ns) removed added =
     (if length removed + length (added @ [n1]) > max_len then (removed, added @ [n1], [], ns)
      else collect_hunk max_len [] ns removed (added @ [n1]))"

lemma collect_hunk_rest:
  assumes "collect_hunk m old new removed added = (r, a, old', new')"
  shows "\<exists>dr da. r = removed @ dr \<and> a = added @ da \<and> old = dr @ old' \<and> new = da @ new'"
  using assms
proof (induction m old new removed added rule: collect_hunk.induct)
  case (2 m o1 os n1 ns removed added)
  consider (same) "o1 = n1" | (cut) "o1 \<noteq> n1" "length (removed @ [o1]) + length added > m"
    | (step) "o1 \<noteq> n1" "\<not> length (removed @ [o1]) + length added > m" by blast
  then show ?case
  proof cases
    case step
    from 2(1) [OF step] 2(2) step obtain dr da where "r = (removed @ [o1]) @ dr" "a = added @ da" "os = dr @ old'" "n1 # ns = da @ new'"
      by auto
    then show ?thesis by (intro exI [of _ "o1 # dr"] exI [of _ da]) simp
  qed (use 2(2) in \<open>auto split: if_splits\<close>)
next
  case (3 m o1 os removed added)
  show ?case
  proof (cases "length (removed @ [o1]) + length added > m")
    case False
    from 3(1) [OF False] 3(2) False obtain dr da where "r = (removed @ [o1]) @ dr" "a = added @ da" "os = dr @ old'" "[] = da @ new'"
      by auto
    then show ?thesis by (intro exI [of _ "o1 # dr"] exI [of _ da]) simp
  qed (use 3(2) in auto)
next
  case (4 m n1 ns removed added)
  show ?case
  proof (cases "length removed + length (added @ [n1]) > m")
    case False
    from 4(1) [OF False] 4(2) False obtain dr da where "r = removed @ dr" "a = (added @ [n1]) @ da" "[] = dr @ old'" "ns = da @ new'"
      by auto
    then show ?thesis by (intro exI [of _ dr] exI [of _ "n1 # da"]) simp
  qed (use 4(2) in auto)
qed simp

lemma collect_hunk_progress:
  assumes "collect_hunk m old new [] [] = (r, a, old', new')" and "r \<noteq> [] \<or> a \<noteq> []"
  shows "length old' + length new' < length old + length new"
  using collect_hunk_rest [OF assms(1)] assms(2) by auto

text \<open>The outer loop, with the hunks it prints as data.\<close>

function diff_hunks :: "nat \<Rightarrow> nat \<Rightarrow> nat \<Rightarrow> string list \<Rightarrow> string list \<Rightarrow> hunk list" where
  "diff_hunks max_len old_idx new_idx old new =
     (if old = [] \<and> new = [] then []
      else if old \<noteq> [] \<and> new \<noteq> [] \<and> hd old = hd new
      then diff_hunks max_len (Suc old_idx) (Suc new_idx) (tl old) (tl new)
      else (case collect_hunk max_len old new [] [] of
          (removed, added, old', new') \<Rightarrow>
            if removed = [] \<and> added = [] then []
            else \<lparr>hunk_start_old = Suc old_idx, hunk_removed = removed, hunk_start_new = Suc new_idx, hunk_added = added\<rparr>
              # diff_hunks max_len (old_idx + length removed) (new_idx + length added) old' new'))"
  by pat_completeness auto
termination
proof (relation "measure (\<lambda>(m, i, j, old, new). length old + length new)", goal_cases)
  case (2 m i j old new)
  then show ?case by (cases old; cases new) auto
next
  case (3 m i j old new r rest1 a rest2 old' new')
  then have "collect_hunk m old new [] [] = (r, a, old', new')" "r \<noteq> [] \<or> a \<noteq> []" by auto
  from collect_hunk_progress [OF this] show ?case by simp
qed simp

declare diff_hunks.simps [simp del]

definition print_hunk :: "hunk \<Rightarrow> string" where
  "print_hunk h =
     ''@@ -'' @ dec_string (hunk_start_old h) @ '','' @ dec_string (length (hunk_removed h)) @
     '' +'' @ dec_string (hunk_start_new h) @ '','' @ dec_string (length (hunk_added h)) @ '' @@'' @ [CHR 0x0A] @
     concat (map (\<lambda>l. ''-'' @ l @ [CHR 0x0A]) (hunk_removed h)) @
     concat (map (\<lambda>l. ''+'' @ l @ [CHR 0x0A]) (hunk_added h))"

definition text_hunks :: "string \<Rightarrow> string \<Rightarrow> hunk list" where
  "text_hunks old_text new_text =
     (let old = str_lines old_text; new = str_lines new_text
      in diff_hunks (max (length old) (length new)) 0 0 old new)"

definition unified_diff :: "string \<Rightarrow> string \<Rightarrow> string \<Rightarrow> string \<Rightarrow> string" where
  "unified_diff old_label new_label old_text new_text =
     (if old_text = new_text then []
      else ''--- '' @ old_label @ [CHR 0x0A] @ ''+++ '' @ new_label @ [CHR 0x0A] @
        concat (map print_hunk (text_hunks old_text new_text)))"

section \<open>The hunks are the change\<close>

text \<open>
  The meaning of a diff: \<open>patch\<close> copies the lines before a hunk, checks and drops the lines it
  removes and puts in the lines it adds.
\<close>

fun patch_lines :: "nat \<Rightarrow> string list \<Rightarrow> hunk list \<Rightarrow> string list option" where
  "patch_lines idx old [] = Some old"
| "patch_lines idx old (h # hs) =
     (let skip = hunk_start_old h - Suc idx; rest = drop skip old
      in if idx < hunk_start_old h \<and> skip \<le> length old \<and> take (length (hunk_removed h)) rest = hunk_removed h
         then map_option (\<lambda>tail. take skip old @ hunk_added h @ tail)
           (patch_lines (idx + skip + length (hunk_removed h)) (drop (length (hunk_removed h)) rest) hs)
         else None)"

lemma patch_copy:
  assumes "patch_lines (Suc idx) old hs = Some new" and "list_all (\<lambda>h. Suc idx < hunk_start_old h) hs"
  shows "patch_lines idx (l # old) hs = Some (l # new)"
proof (cases hs)
  case Nil
  with assms show ?thesis by simp
next
  case (Cons h hs')
  with assms(2) have "hunk_start_old h - Suc idx = Suc (hunk_start_old h - Suc (Suc idx))" by auto
  with Cons assms(1) show ?thesis by (auto simp: Let_def split: if_splits)
qed

lemma collect_hunk_nonempty:
  assumes "collect_hunk m old new [] [] = (r, a, old', new')" and "old \<noteq> [] \<or> new \<noteq> []"
    and "\<not> (old \<noteq> [] \<and> new \<noteq> [] \<and> hd old = hd new)"
  shows "r \<noteq> [] \<or> a \<noteq> []"
proof -
  have grow: "\<exists>dr da. r = R @ dr \<and> a = A @ da" if "collect_hunk m os ns R A = (r, a, old', new')" for os ns R A
    using collect_hunk_rest [OF that] by blast
  show ?thesis
  proof (cases old)
    case Nil
    then obtain n1 ns where "new = n1 # ns" using assms(2) by (cases new) auto
    with Nil assms(1) grow [of "[]" ns "[]" "[n1]"] show ?thesis by (auto split: if_splits)
  next
    case (Cons o1 os)
    with assms(1,3) grow [of os new "[o1]" "[]"] show ?thesis by (cases new) (auto split: if_splits)
  qed
qed

lemma diff_hunks_start: "list_all (\<lambda>h. idx < hunk_start_old h) (diff_hunks m idx jdx old new)"
proof -
  have "list_all (\<lambda>h. k < hunk_start_old h) (diff_hunks m idx jdx old new)" if "k \<le> idx" for k
    using that
  proof (induction m idx jdx old new rule: diff_hunks.induct)
    case (1 m idx jdx old new)
    show ?case
    proof (cases "old = [] \<and> new = []")
      case True
      then show ?thesis by (subst diff_hunks.simps) simp
    next
      case False
      show ?thesis
      proof (cases "old \<noteq> [] \<and> new \<noteq> [] \<and> hd old = hd new")
        case True
        with False 1 show ?thesis by (subst diff_hunks.simps) simp
      next
        case diff: False
        obtain r a old' new' where run: "collect_hunk m old new [] [] = (r, a, old', new')" by (metis prod_cases4)
        have "list_all (\<lambda>h. k < hunk_start_old h) (diff_hunks m (idx + length r) (jdx + length a) old' new')"
          if "\<not> (r = [] \<and> a = [])"
          using 1(2) [OF False diff run [symmetric] refl refl that] 1(3) by simp
        with False diff run 1(3) show ?thesis by (subst diff_hunks.simps) auto
      qed
    qed
  qed
  then show ?thesis by simp
qed

lemma patch_diff: "patch_lines idx old (diff_hunks m idx jdx old new) = Some new"
proof (induction m idx jdx old new rule: diff_hunks.induct)
  case (1 m idx jdx old new)
  show ?case
  proof (cases "old = [] \<and> new = []")
    case True
    then show ?thesis by (subst diff_hunks.simps) simp
  next
    case some: False
    show ?thesis
    proof (cases "old \<noteq> [] \<and> new \<noteq> [] \<and> hd old = hd new")
      case True
      with some 1(1) have "patch_lines (Suc idx) (tl old) (diff_hunks m (Suc idx) (Suc jdx) (tl old) (tl new)) = Some (tl new)"
        by simp
      from patch_copy [OF this diff_hunks_start, of "hd old"] True
      have "patch_lines idx old (diff_hunks m (Suc idx) (Suc jdx) (tl old) (tl new)) = Some new" by (metis list.collapse)
      with True some show ?thesis by (subst diff_hunks.simps) simp
    next
      case diff: False
      obtain r a old' new' where run: "collect_hunk m old new [] [] = (r, a, old', new')" by (metis prod_cases4)
      from collect_hunk_rest [OF run] have split: "old = r @ old'" "new = a @ new'" by auto
      from collect_hunk_nonempty [OF run _ diff] some have "r \<noteq> [] \<or> a \<noteq> []" by blast
      with 1(2) [OF some diff run [symmetric] refl refl] have
        "patch_lines (idx + length r) old' (diff_hunks m (idx + length r) (jdx + length a) old' new') = Some new'" by blast
      with \<open>r \<noteq> [] \<or> a \<noteq> []\<close> some diff run split show ?thesis by (subst diff_hunks.simps) (auto simp: Let_def)
    qed
  qed
qed

text \<open>
  (C19) What a preview prints is exactly the change: for any two texts the hunks of the diff, applied
  to the lines of the old text with every removed line checked against the line at the printed
  position, give the lines of the new text; and the diff is empty exactly when the texts are equal.
\<close>

theorem diff_shows_exactly_the_change:
  "patch_lines 0 (str_lines old_text) (text_hunks old_text new_text) = Some (str_lines new_text) \<and>
   (unified_diff old_label new_label old_text new_text = [] \<longleftrightarrow> old_text = new_text)"
  by (simp add: text_hunks_def Let_def patch_diff unified_diff_def)

end
