(* ===== verification/Connector_Plan.thy ===== *)
theory Connector_Plan
  imports Connector_Apply Connector_Diff
begin

text \<open>
  \<^verbatim>\<open>crates/notch-connectors/src\<close>: previews (\<^verbatim>\<open>preview.rs\<close>), rollback (\<^verbatim>\<open>rollback.rs\<close>), the plan store
  (\<^verbatim>\<open>plan.rs\<close>) and the calls of the manager that change state (\<^verbatim>\<open>manager.rs\<close>). \<open>serde_json\<close> and the
  lossy UTF-8 conversion are parameters; the clock is an argument.
\<close>

section \<open>Plan store\<close>

definition CONNECTOR_PLAN_TTL_MS :: nat where "CONNECTOR_PLAN_TTL_MS = 300000"

definition MAX_CONNECTOR_DIFF_LEN :: nat where "MAX_CONNECTOR_DIFF_LEN = 65536"

definition plan_expires_at :: "int \<Rightarrow> int" where
  "plan_expires_at now_ms = wrap_i64 (now_ms + int CONNECTOR_PLAN_TTL_MS)"

type_synonym plan_store = "string \<rightharpoonup> stored_plan"

definition plan_insert :: "stored_plan \<Rightarrow> plan_store \<Rightarrow> plan_store" where
  "plan_insert plan plans = plans(sp_plan_id plan \<mapsto> plan)"

definition plan_get_valid :: "string \<Rightarrow> int \<Rightarrow> plan_store \<Rightarrow> (connector_error, stored_plan) outcome" where
  "plan_get_valid plan_id now_ms plans =
     (case plans plan_id of
        None \<Rightarrow> Err PlanNotFound
      | Some plan \<Rightarrow> if sp_expires_at_ms plan \<le> now_ms then Err PlanExpired else Ok plan)"

definition plan_remove :: "string \<Rightarrow> plan_store \<Rightarrow> plan_store" where
  "plan_remove plan_id plans = plans(plan_id := None)"

section \<open>Previews\<close>

record file_preview =
  fp_display_path :: string
  fp_baseline_sha256 :: string
  fp_diff_text :: string
  fp_foreign_entries_preserved :: "string list"
  fp_is_new_file :: bool

record plan_preview =
  pp_plan_id :: string
  pp_source :: agent_source
  pp_scope :: connector_scope
  pp_expires_at_ms :: int
  pp_summary :: string
  pp_files :: "file_preview list"
  pp_external_trust_actions :: "external_trust_action list"
  pp_backup_display_hint :: "string option"

text \<open>\<open>from_str\<close> returns a value or the text of its error.\<close>

record text_env =
  te_parse :: "string \<Rightarrow> string + json"
  te_pretty :: "json \<Rightarrow> string"
  te_lossy :: "string \<Rightarrow> string"

record conn_config =
  cc_integrations_root :: string
  cc_helper_path :: string
  cc_workspace_root :: "string option"
  cc_user_scope_root :: "string option"
  cc_home :: "string option"

definition INVALID_UTF8_TEXT :: string where
  "INVALID_UTF8_TEXT = ''stream did not contain valid UTF-8''"

definition read_to_string :: "(string \<Rightarrow> connector_error) \<Rightarrow> string \<Rightarrow> string conn_op" where
  "read_to_string wrap path = bind (read_file wrap path) (\<lambda>bytes.
     if utf8_valid bytes then ret bytes else throw (wrap INVALID_UTF8_TEXT))"

definition load_template :: "text_env \<Rightarrow> adapter_descriptor \<Rightarrow> json conn_op" where
  "load_template t a =
     bind (read_to_string (internal ''template read failed'') (ad_template_path a)) (\<lambda>raw.
       case te_parse t raw of
         Inl message \<Rightarrow> throw (internal ''template read failed'' message)
       | Inr v \<Rightarrow> ret (strip_template_comments v))"

definition read_baseline :: "fs_env \<Rightarrow> text_env \<Rightarrow> string \<Rightarrow> (string \<times> json \<times> bool) conn_op" where
  "read_baseline w t path = bind disk_files (\<lambda>files.
     if \<not> path_exists w files path then ret (''{}'', JObject [], True)
     else bind (read_to_string (internal ''read baseline failed'') path) (\<lambda>raw.
       ret (raw, (case te_parse t raw of Inl message \<Rightarrow> JObject [] | Inr v \<Rightarrow> v), False)))"

definition is_char_boundary :: "nat \<Rightarrow> string \<Rightarrow> bool" where
  "is_char_boundary n s \<longleftrightarrow> n = length s \<or> n < length s \<and> \<not> utf8_cont (s ! n)"

definition truncate_diff :: "string \<Rightarrow> string conn_op" where
  "truncate_diff diff =
     (if length diff > MAX_CONNECTOR_DIFF_LEN
      then if is_char_boundary MAX_CONNECTOR_DIFF_LEN diff
        then ret (take MAX_CONNECTOR_DIFF_LEN diff @ [CHR 0x0A] @ ''... [truncated]'')
        else panic ''assertion failed: self.is_char_boundary(new_len)''
      else ret diff)"

fun operation_summary :: "plan_operation \<Rightarrow> string \<Rightarrow> string" where
  "operation_summary OpInstall path = ''Add llm_notch hooks to '' @ path"
| "operation_summary OpRemove path = ''Remove llm_notch hooks from '' @ path"
| "operation_summary OpRepair path = ''Repair llm_notch hooks in '' @ path"
| "operation_summary OpRollback path = ''Rollback '' @ path"

definition em_dash :: string where
  "em_dash = map char_of [226, 128, 148 :: nat]"

fun empty_summary :: "plan_operation \<Rightarrow> string" where
  "empty_summary OpInstall = ''Already up to date '' @ em_dash @ '' llm_notch hooks are present; no changes needed.''"
| "empty_summary OpRemove = ''No llm_notch hooks found '' @ em_dash @ '' nothing to remove.''"
| "empty_summary OpRepair = ''Configuration matches expected llm_notch hooks.''"
| "empty_summary OpRollback = ''Nothing to rollback.''"

definition planned_value :: "adapter_descriptor \<Rightarrow> plan_operation \<Rightarrow> json \<Rightarrow> json \<Rightarrow> (json \<times> string list) conn_op" where
  "planned_value a operation baseline template =
     (case operation of
        OpInstall \<Rightarrow> ret (adapter_merge a baseline template)
      | OpRepair \<Rightarrow> ret (adapter_merge a (fst (remove_managed a baseline)) template)
      | OpRemove \<Rightarrow> ret (remove_managed a baseline)
      | OpRollback \<Rightarrow> throw (InvalidRequest ''rollback plans require a journal entry''))"

definition resolve_in_scope :: "fs_env \<Rightarrow> scope_root \<Rightarrow> string \<Rightarrow> string conn_op" where
  "resolve_in_scope w scope relative = validate_under_root w (sr_canonical scope) relative"

definition new_plan_id :: "fs_env \<Rightarrow> string conn_op" where
  "new_plan_id w = bind (new_uuid w) (\<lambda>uuid. ret (''plan-'' @ uuid))"

definition trust_actions_for :: "adapter_descriptor \<Rightarrow> plan_operation \<Rightarrow> external_trust_action list" where
  "trust_actions_for a operation = (if operation = OpInstall then ad_external_trust_actions a else [])"

text \<open>Preview and stored plan for one file; both branches of the code build them from the same values.\<close>

definition plan_for ::
  "fs_env \<Rightarrow> adapter_descriptor \<Rightarrow> connector_scope \<Rightarrow> plan_operation \<Rightarrow> scope_root \<Rightarrow> int \<Rightarrow> string \<Rightarrow> string \<Rightarrow> string \<Rightarrow> bool \<Rightarrow>
   string list \<Rightarrow> string \<Rightarrow> string \<Rightarrow> string option \<Rightarrow> (plan_preview \<times> stored_plan) conn_op" where
  "plan_for w a scope operation root_dir now_ms canonical baseline_text merged_text is_new_file preserved diff_text summary backup =
     bind (new_plan_id w) (\<lambda>plan_id.
       let relative = tf_relative_path (target_for a scope);
           display_path = scope_display_path root_dir relative;
           baseline_sha256 = fe_sha256 w baseline_text
       in ret (\<lparr>pp_plan_id = plan_id, pp_source = ad_source a, pp_scope = scope, pp_expires_at_ms = plan_expires_at now_ms,
             pp_summary = summary,
             pp_files = [\<lparr>fp_display_path = display_path, fp_baseline_sha256 = baseline_sha256, fp_diff_text = diff_text,
                fp_foreign_entries_preserved = preserved, fp_is_new_file = is_new_file\<rparr>],
             pp_external_trust_actions = trust_actions_for a operation,
             pp_backup_display_hint = backup\<rparr>,
           \<lparr>sp_plan_id = plan_id, sp_source = ad_source a, sp_scope = scope, sp_operation = operation,
             sp_expires_at_ms = plan_expires_at now_ms, sp_summary = summary,
             sp_files = [\<lparr>pf_scope_canonical = sr_canonical root_dir, pf_relative_path = relative,
                pf_canonical_path = canonical, pf_display_path = display_path, pf_baseline_sha256 = baseline_sha256,
                pf_baseline_text = baseline_text, pf_merged_text = merged_text, pf_foreign_entries_preserved = preserved,
                pf_is_new_file = is_new_file, pf_backup_display_path = (case backup of Some b \<Rightarrow> b | None \<Rightarrow> [])\<rparr>],
             sp_rollback_backup_id = None\<rparr>))"

definition finish_preview ::
  "fs_env \<Rightarrow> text_env \<Rightarrow> adapter_descriptor \<Rightarrow> connector_scope \<Rightarrow> plan_operation \<Rightarrow> scope_root \<Rightarrow> int \<Rightarrow> string \<Rightarrow>
   string \<times> json \<times> bool \<Rightarrow> json \<times> string list \<Rightarrow> (plan_preview \<times> stored_plan) conn_op" where
  "finish_preview w t a scope operation root_dir now_ms canonical baseline planned =
     (let display_path = scope_display_path root_dir (tf_relative_path (target_for a scope));
          baseline_text = fst baseline;
          is_new_file = snd (snd baseline);
          merged_text = te_pretty t (fst planned);
          preserved = snd planned
      in if baseline_text = merged_text
         then plan_for w a scope operation root_dir now_ms canonical baseline_text merged_text is_new_file preserved [] (empty_summary operation) None
         else
           bind (truncate_diff (unified_diff (''a/'' @ display_path) (''b/'' @ display_path) baseline_text merged_text)) (\<lambda>diff_text.
             plan_for w a scope operation root_dir now_ms canonical baseline_text merged_text is_new_file preserved diff_text
               (operation_summary operation display_path)
               (Some (backup_display_path display_path (backup_timestamp w now_ms)))))"

definition build_preview ::
  "fs_env \<Rightarrow> text_env \<Rightarrow> conn_config \<Rightarrow> adapter_descriptor \<Rightarrow> connector_scope \<Rightarrow> plan_operation \<Rightarrow> scope_root \<Rightarrow> int \<Rightarrow>
   (plan_preview \<times> stored_plan) conn_op" where
  "build_preview w t config a scope operation root_dir now_ms =
     bind (resolve_in_scope w root_dir (tf_relative_path (target_for a scope))) (\<lambda>canonical.
     seq (reject_hardlink w canonical)
     (bind (load_template t a) (\<lambda>template_raw.
     bind (read_baseline w t canonical) (\<lambda>baseline.
     bind (planned_value a operation (fst (snd baseline)) (materialize_template False template_raw (cc_helper_path config)))
       (finish_preview w t a scope operation root_dir now_ms canonical baseline)))))"

section \<open>Rollback\<close>

definition text_or_empty :: "string \<Rightarrow> string conn_op" where
  "text_or_empty path = or_default [] (read_to_string ConnectorInternal path)"

definition build_exact_restore_preview ::
  "fs_env \<Rightarrow> backup_entry \<Rightarrow> string \<Rightarrow> string \<Rightarrow> string \<Rightarrow> string \<Rightarrow> string \<Rightarrow> scope_root \<Rightarrow> string \<Rightarrow> int \<Rightarrow>
   (plan_preview \<times> stored_plan) conn_op" where
  "build_exact_restore_preview w backup backup_id display_path canonical current_hash backup_text root_dir relative now_ms =
     bind (text_or_empty canonical) (\<lambda>shown.
     bind (new_plan_id w) (\<lambda>plan_id.
     bind (text_or_empty canonical) (\<lambda>baseline_text.
       let summary = ''Restore '' @ display_path @ '' from backup '' @ backup_id
       in ret (\<lparr>pp_plan_id = plan_id, pp_source = be_source backup, pp_scope = ScopeUser,
             pp_expires_at_ms = plan_expires_at now_ms, pp_summary = summary,
             pp_files = [\<lparr>fp_display_path = display_path, fp_baseline_sha256 = current_hash,
                fp_diff_text = unified_diff (''a/'' @ display_path) (''b/'' @ display_path) shown backup_text,
                fp_foreign_entries_preserved = [], fp_is_new_file = False\<rparr>],
             pp_external_trust_actions = [], pp_backup_display_hint = Some (be_backup_display_path backup)\<rparr>,
           \<lparr>sp_plan_id = plan_id, sp_source = be_source backup, sp_scope = ScopeUser, sp_operation = OpRollback,
             sp_expires_at_ms = plan_expires_at now_ms, sp_summary = summary,
             sp_files = [\<lparr>pf_scope_canonical = sr_canonical root_dir, pf_relative_path = relative,
                pf_canonical_path = canonical, pf_display_path = display_path, pf_baseline_sha256 = current_hash,
                pf_baseline_text = baseline_text, pf_merged_text = backup_text, pf_foreign_entries_preserved = [],
                pf_is_new_file = False, pf_backup_display_path = be_backup_display_path backup\<rparr>],
             sp_rollback_backup_id = Some backup_id\<rparr>))))"

definition rollback_current_hash :: "fs_env \<Rightarrow> string \<Rightarrow> string conn_op" where
  "rollback_current_hash w canonical = bind disk_files (\<lambda>files.
     if path_exists w files canonical then sha256_file w (internal ''hash current failed'') canonical else ret [])"

definition rollback_from ::
  "fs_env \<Rightarrow> text_env \<Rightarrow> conn_config \<Rightarrow> adapter_descriptor \<Rightarrow> backup_entry \<Rightarrow> string \<Rightarrow> scope_root \<Rightarrow> int \<Rightarrow> string \<Rightarrow> string \<Rightarrow>
   string \<times> string \<Rightarrow> (plan_preview \<times> stored_plan) conn_op" where
  "rollback_from w t config a backup backup_id root_dir now_ms canonical current_hash content =
     (let relative = tf_relative_path (target_for a ScopeUser);
          backup_text = te_lossy t (fst content)
      in if snd content \<noteq> be_content_sha256 backup then throw RollbackHashMismatch
         else if be_applied_hash backup = Some current_hash
         then build_exact_restore_preview w backup backup_id (scope_display_path root_dir relative) canonical current_hash backup_text
           root_dir relative now_ms
         else build_preview w t config a ScopeUser OpRemove root_dir now_ms)"

definition preview_rollback ::
  "fs_env \<Rightarrow> text_env \<Rightarrow> conn_config \<Rightarrow> string \<Rightarrow> scope_root \<Rightarrow> int \<Rightarrow> (plan_preview \<times> stored_plan) conn_op" where
  "preview_rollback w t config backup_id root_dir now_ms =
     bind (find_backup backup_id) (\<lambda>found.
       case found of
         None \<Rightarrow> throw (ConnectorNotFound (''backup '' @ backup_id))
       | Some backup \<Rightarrow>
           (case registry_adapter (cc_integrations_root config) (be_source backup) of
              None \<Rightarrow> throw (ConnectorNotFound ''adapter'')
            | Some a \<Rightarrow>
                bind (resolve_in_scope w root_dir (tf_relative_path (target_for a ScopeUser))) (\<lambda>canonical.
                bind (rollback_current_hash w canonical) (\<lambda>current_hash.
                let backup_path = infer_backup_path canonical (be_backup_display_path backup)
                in bind disk_files (\<lambda>files.
                   if \<not> path_exists w files backup_path then throw (ConnectorNotFound ''backup file missing'')
                   else bind (read_and_hash w (internal ''read backup failed'') backup_path)
                     (rollback_from w t config a backup backup_id root_dir now_ms canonical current_hash))))))"

section \<open>Manager\<close>

record conn_state =
  cm_disk :: conn_disk
  cm_plans :: plan_store
  cm_last_event_at :: "string \<rightharpoonup> int"

type_synonym 'a manager_op = "(conn_state, connector_error, 'a) op"

definition on_disk :: "'a conn_op \<Rightarrow> 'a manager_op" where
  "on_disk m = zoom cm_disk (\<lambda>d s. s\<lparr>cm_disk := d\<rparr>) m"

definition manager_scope_root :: "fs_env \<Rightarrow> conn_config \<Rightarrow> connector_scope \<Rightarrow> scope_root conn_op" where
  "manager_scope_root w config scope =
     (case scope of
        ScopeUser \<Rightarrow>
          (case cc_user_scope_root config of Some dir \<Rightarrow> scope_project w dir | None \<Rightarrow> scope_user_home w (cc_home config))
      | ScopeProject \<Rightarrow>
          (case cc_workspace_root config of
             None \<Rightarrow> throw (InvalidRequest ''project scope requires workspace root'')
           | Some workspace \<Rightarrow> scope_project w workspace))"

definition insert_plan :: "stored_plan \<Rightarrow> unit manager_op" where
  "insert_plan plan = modify (\<lambda>s. s\<lparr>cm_plans := plan_insert plan (cm_plans s)\<rparr>)"

definition manager_preview ::
  "fs_env \<Rightarrow> text_env \<Rightarrow> conn_config \<Rightarrow> agent_source \<Rightarrow> connector_scope \<Rightarrow> plan_operation \<Rightarrow> int \<Rightarrow> plan_preview manager_op" where
  "manager_preview w t config source scope operation now_ms =
     (case registry_adapter (cc_integrations_root config) source of
        None \<Rightarrow> throw (ConnectorNotFound (''unsupported source: '' @ debug_source source))
      | Some a \<Rightarrow>
          bind (on_disk (manager_scope_root w config scope)) (\<lambda>root_dir.
          bind (on_disk (build_preview w t config a scope operation root_dir now_ms)) (\<lambda>(preview, stored).
          seq (insert_plan stored) (ret preview))))"

definition manager_preview_rollback :: "fs_env \<Rightarrow> text_env \<Rightarrow> conn_config \<Rightarrow> string \<Rightarrow> int \<Rightarrow> plan_preview manager_op" where
  "manager_preview_rollback w t config backup_id now_ms =
     bind (on_disk (manager_scope_root w config ScopeUser)) (\<lambda>root_dir.
     bind (on_disk (preview_rollback w t config backup_id root_dir now_ms)) (\<lambda>(preview, stored).
     seq (insert_plan stored) (ret preview)))"

definition select_files :: "string list option \<Rightarrow> stored_plan \<Rightarrow> (connector_error, stored_plan) outcome" where
  "select_files selected plan =
     (case selected of
        None \<Rightarrow> Ok plan
      | Some paths \<Rightarrow>
          (case List.find (\<lambda>p. p \<notin> set (map pf_display_path (sp_files plan))) paths of
             Some path \<Rightarrow> Err (InvalidRequest (''selected path not in plan: '' @ path))
           | None \<Rightarrow>
               let kept = filter (\<lambda>f. pf_display_path f \<in> set paths) (sp_files plan)
               in if kept = [] then Err (InvalidRequest ''no files selected for apply'')
                  else Ok (plan\<lparr>sp_files := kept\<rparr>)))"

definition manager_apply :: "fs_env \<Rightarrow> string \<Rightarrow> string list option \<Rightarrow> int \<Rightarrow> apply_result manager_op" where
  "manager_apply w plan_id selected now_ms =
     bind (gets cm_plans) (\<lambda>plans.
     bind (lift (plan_get_valid plan_id now_ms plans)) (\<lambda>stored.
     bind (lift (select_files selected stored)) (\<lambda>plan.
     bind (on_disk (apply_plan w plan now_ms (capabilities_template (sp_source plan)))) (\<lambda>result.
     seq (modify (\<lambda>s. s\<lparr>cm_plans := plan_remove plan_id (cm_plans s)\<rparr>)) (ret result)))))"

definition manager_remove ::
  "fs_env \<Rightarrow> text_env \<Rightarrow> conn_config \<Rightarrow> agent_source \<Rightarrow> connector_scope \<Rightarrow> int \<Rightarrow> int \<Rightarrow> apply_result manager_op" where
  "manager_remove w t config source scope now_ms later_ms =
     bind (manager_preview w t config source scope OpRemove now_ms) (\<lambda>preview.
       if (case pp_files preview of [] \<Rightarrow> True | f # _ \<Rightarrow> fp_diff_text f = [])
       then ret \<lparr>ar_plan_id = pp_plan_id preview, ar_source = source, ar_file_results = [],
         ar_capabilities = capabilities_template source\<rparr>
       else manager_apply w (pp_plan_id preview) None later_ms)"

definition record_event :: "agent_source \<Rightarrow> int \<Rightarrow> conn_state \<Rightarrow> conn_state" where
  "record_event source at_ms s =
     (if source = UnknownSource then s
      else s\<lparr>cm_last_event_at := (cm_last_event_at s)(debug_source source \<mapsto>
        (case cm_last_event_at s (debug_source source) of None \<Rightarrow> at_ms | Some existing \<Rightarrow> max existing at_ms))\<rparr>)"

definition seed_traffic_from_sessions :: "(agent_source \<times> int) list \<Rightarrow> conn_state \<Rightarrow> conn_state" where
  "seed_traffic_from_sessions sessions s = fold (\<lambda>(source, at_ms). record_event source at_ms) sessions s"

text \<open>A diff of 65537 bytes whose last character is two bytes long: the cut is inside that character.\<close>

lemma diff_truncation_can_panic:
  "fst (truncate_diff (replicate 65535 (CHR ''a'') @ [CHR 0xC3, CHR 0xA9]) d) =
    Panic ''assertion failed: self.is_char_boundary(new_len)''"
  by (simp add: truncate_diff_def MAX_CONNECTOR_DIFF_LEN_def is_char_boundary_def nth_append utf8_cont_def panic_def)

end
