(* ===== verification/Connector_Effects.thy ===== *)
theory Connector_Effects
  imports Connector_Plan
begin

text \<open>
  What the file operations of the connectors leave on disk, for every schedule of failures: checks
  and reads leave files and journal alone, an atomic write either replaces the target as a whole or
  leaves it, and everything else that is written is a lock, a temporary file or a backup.
\<close>

named_theorems quiet_intros \<open>operations that only look\<close>

section \<open>Operations that only look\<close>

definition quiet :: "'a conn_op \<Rightarrow> bool" where
  "quiet m \<longleftrightarrow> (\<forall>d. cd_files (snd (m d)) = cd_files d \<and> cd_journal (snd (m d)) = cd_journal d)"

lemma quietD: "quiet m \<Longrightarrow> m d = (r, d') \<Longrightarrow> cd_files d' = cd_files d \<and> cd_journal d' = cd_journal d"
  unfolding quiet_def by (metis snd_conv)

lemma quiet_basic [quiet_intros]: "quiet (ret x)" "quiet (throw e)" "quiet (panic p)" "quiet disk_files" "quiet (gets f)"
  by (simp_all add: quiet_def op_basic_defs disk_files_def)

lemma quiet_sys_call [quiet_intros]: "quiet (sys_call wrap)"
  by (auto simp: quiet_def sys_call_def split: list.splits option.splits)

lemma quiet_uuid [quiet_intros]: "quiet (new_uuid w)"
  by (simp add: quiet_def new_uuid_def)

lemma quiet_bind [quiet_intros]: "quiet m \<Longrightarrow> (\<And>x. quiet (k x)) \<Longrightarrow> quiet (bind m k)"
  unfolding quiet_def bind_def by (auto split: prod.splits outcome.splits; metis snd_conv)

lemma quiet_seq [quiet_intros]: "quiet m \<Longrightarrow> quiet k \<Longrightarrow> quiet (seq m k)"
  by (simp add: seq_def quiet_bind)

lemma quiet_if [quiet_intros]: "(b \<Longrightarrow> quiet m) \<Longrightarrow> (\<not> b \<Longrightarrow> quiet k) \<Longrightarrow> quiet (if b then m else k)"
  by simp

lemma quiet_option [quiet_intros]:
  "(x = None \<Longrightarrow> quiet m) \<Longrightarrow> (\<And>y. x = Some y \<Longrightarrow> quiet (k y)) \<Longrightarrow> quiet (case x of None \<Rightarrow> m | Some y \<Rightarrow> k y)"
  by (cases x) auto

lemma quiet_sum [quiet_intros]:
  "(\<And>a. x = Inl a \<Longrightarrow> quiet (m a)) \<Longrightarrow> (\<And>b. x = Inr b \<Longrightarrow> quiet (k b)) \<Longrightarrow> quiet (case x of Inl a \<Rightarrow> m a | Inr b \<Rightarrow> k b)"
  by (cases x) auto

lemma quiet_prod [quiet_intros]: "(\<And>a b. x = (a, b) \<Longrightarrow> quiet (k a b)) \<Longrightarrow> quiet (case x of (a, b) \<Rightarrow> k a b)"
  by (cases x) auto

lemma quiet_or_default [quiet_intros]: "quiet m \<Longrightarrow> quiet (or_default x m)"
  unfolding quiet_def or_default_def by (auto split: prod.splits outcome.splits; metis snd_conv)

lemma quiet_for_each [quiet_intros]: "(\<And>x. quiet (f x)) \<Longrightarrow> quiet (for_each f xs)"
  by (induction xs) (auto intro: quiet_intros)

lemma quiet_read_file [quiet_intros]: "quiet (read_file wrap path)"
  unfolding read_file_def by (intro quiet_intros)

lemma quiet_lstat [quiet_intros]: "quiet (lstat_component w path)"
  unfolding lstat_component_def
  by (rule quiet_bind) (auto intro: quiet_intros split: lstat_answer.split)

lemma quiet_lstat_parts [quiet_intros]: "quiet (lstat_parts w current cs)"
  by (induction w current cs rule: lstat_parts.induct) (auto intro: quiet_intros)

lemma quiet_canon_root [quiet_intros]: "quiet (canonicalize_root w path)"
  unfolding canonicalize_root_def by (rule quiet_bind) (auto intro: quiet_intros split: canon_answer.split)

lemma quiet_validate [quiet_intros]: "quiet (validate_under_root w base relative)"
  unfolding validate_under_root_def by (intro quiet_intros) (auto intro: quiet_intros split: canon_answer.split)

lemma quiet_hardlink [quiet_intros]: "quiet (reject_hardlink w path)"
  unfolding reject_hardlink_def by (intro quiet_intros)

lemma quiet_parent_chain [quiet_intros]: "quiet (assert_parent_chain_safe w path)"
proof (induction w path rule: assert_parent_chain_safe.induct)
  case (1 w path)
  then show ?case by (subst assert_parent_chain_safe.simps) (intro quiet_intros; blast)
qed

lemma quiet_revalidate [quiet_intros]: "quiet (revalidate_locked_target w base relative expected)"
  unfolding revalidate_locked_target_def Let_def by (intro quiet_intros)

lemma quiet_revalidate_for [quiet_intros]: "quiet (revalidate_for w file)"
  unfolding revalidate_for_def by (intro quiet_intros)

lemma quiet_hashes [quiet_intros]: "quiet (sha256_file w wrap path)" "quiet (read_and_hash w wrap path)"
  "quiet (read_to_string wrap path)"
  unfolding sha256_file_def read_and_hash_def read_to_string_def by (intro quiet_intros)+

lemma quiet_preflight [quiet_intros]: "quiet (preflight w file)"
  unfolding preflight_def by (intro quiet_intros)

lemma quiet_locked_hash [quiet_intros]: "quiet (locked_hash w file)" "quiet (current_hash_of w path)"
  unfolding locked_hash_def current_hash_of_def by (intro quiet_intros)+

lemma quiet_backup_path [quiet_intros]: "quiet (secure_backup_path w target timestamp)"
  unfolding secure_backup_path_def Let_def by (intro quiet_intros)

lemma quiet_find_backup [quiet_intros]: "quiet (find_backup b)"
  unfolding find_backup_def by (intro quiet_intros)

text \<open>Previews change nothing on disk.\<close>

lemma quiet_preview [quiet_intros]: "quiet (build_preview w t config a scope operation root_dir now_ms)"
  unfolding build_preview_def finish_preview_def resolve_in_scope_def load_template_def read_baseline_def planned_value_def truncate_diff_def
    plan_for_def new_plan_id_def Let_def
  by (intro quiet_intros) (auto intro: quiet_intros split: plan_operation.split)

lemma quiet_rollback [quiet_intros]: "quiet (preview_rollback w t config backup_id root_dir now_ms)"
  unfolding preview_rollback_def rollback_from_def resolve_in_scope_def rollback_current_hash_def build_exact_restore_preview_def
    text_or_empty_def new_plan_id_def Let_def
  by (intro quiet_intros)

section \<open>Atomic writes\<close>

definition temp_path_of :: "string \<Rightarrow> string \<Rightarrow> string" where
  "temp_path_of dir uuid = path_join dir (''.'' @ uuid @ ''.llm-notch.tmp'')"

text \<open>The four states in which an atomic write can stop, and the one in which it returns \<open>Ok\<close>.\<close>

lemma create_new_run:
  "create_new_file wrap taken path d = (r, d') \<Longrightarrow>
   cd_journal d' = cd_journal d \<and>
   (case r of Ok _ \<Rightarrow> cd_files d path = None \<and> cd_files d' = (cd_files d)(path := Some [])
    | _ \<Rightarrow> cd_files d' = cd_files d)"
  by (auto simp: create_new_file_def seq_def bind_def sys_call_def disk_files_def set_file_def op_basic_defs
      split: list.splits option.splits if_splits prod.splits outcome.splits)

lemma write_run:
  "write_file wrap path content d = (r, d') \<Longrightarrow>
   cd_journal d' = cd_journal d \<and>
   (case r of Ok _ \<Rightarrow> cd_files d' = (cd_files d)(path := Some content) | _ \<Rightarrow> cd_files d' = cd_files d)"
  by (auto simp: write_file_def seq_def bind_def sys_call_def set_file_def op_basic_defs
      split: list.splits option.splits prod.splits outcome.splits)

lemma rename_run:
  "rename_disk_file wrap source target d = (r, d') \<Longrightarrow>
   cd_journal d' = cd_journal d \<and>
   (case r of Ok _ \<Rightarrow> \<exists>content. cd_files d source = Some content \<and> cd_files d' = (cd_files d)(source := None, target := Some content)
    | _ \<Rightarrow> cd_files d' = cd_files d)"
  by (auto simp: rename_disk_file_def seq_def bind_def sys_call_def disk_files_def set_file_def op_basic_defs
      split: list.splits option.splits prod.splits outcome.splits)

lemma replace_run:
  "durable_replace w source target d = (r, d') \<Longrightarrow>
   cd_journal d' = cd_journal d \<and>
   (case r of Ok _ \<Rightarrow> \<exists>content. cd_files d source = Some content \<and> cd_files d' = (cd_files d)(source := None, target := Some content)
    | _ \<Rightarrow> cd_files d' = cd_files d)"
  by (auto simp: durable_replace_def bind_def disk_files_def gets_def dest!: rename_run split: if_splits)

text \<open>A step of a sequence succeeds and the rest runs, or the whole sequence stops there.\<close>

fun failed :: "('e, 'a) outcome \<Rightarrow> bool" where
  "failed (Ok x) = False"
| "failed (Err e) = True"
| "failed (Panic p) = True"

lemma failed_cases: "\<not> failed r \<Longrightarrow> (\<And>x. r = Ok x \<Longrightarrow> thesis) \<Longrightarrow> thesis"
  by (cases r) auto

lemma seq_cases:
  assumes "seq m k d = (r, d')"
  obtains (ahead) d1 where "m d = (Ok (), d1)" "k d1 = (r, d')" | (stop) e where "m d = (e, d')" "failed e" "failed r"
  using assms by (auto simp: seq_def bind_def split: prod.splits outcome.splits)

lemma bind_cases:
  assumes "bind m k d = (r, d')"
  obtains (ahead) x d1 where "m d = (Ok x, d1)" "k x d1 = (r, d')" | (stop) e where "m d = (e, d')" "failed e" "failed r"
  using assms by (auto simp: bind_def split: prod.splits outcome.splits)

definition stray :: "files \<Rightarrow> string \<Rightarrow> files \<Rightarrow> bool" where
  "stray before path after \<longleftrightarrow> after = before \<or> before path = None \<and> (\<exists>c. after = before(path := Some c))"

lemma temp_then_replace:
  assumes "quiet revalidate"
    and "seq revalidate
          (seq (create_new_file w1 taken temp)
          (seq (write_file w2 temp content)
          (seq (sys_call w3) (seq revalidate (durable_replace w temp path))))) d = (r, d')"
  shows "cd_journal d' = cd_journal d \<and>
    (if failed r then stray (cd_files d) temp (cd_files d') else cd_files d' = (cd_files d)(path := Some content))"
  using assms(2)
proof (cases rule: seq_cases)
  case (stop e)
  with quietD [OF assms(1) stop(1)] show ?thesis by (simp add: stray_def)
next
  case (ahead d1)
  note q1 = quietD [OF assms(1) ahead(1)]
  from ahead(2) show ?thesis
  proof (cases rule: seq_cases)
    case (stop e)
    with create_new_run [OF stop(1)] q1 show ?thesis by (cases e) (auto simp: stray_def)
  next
    case (ahead d2)
    note q2 = create_new_run [OF ahead(1)]
    from ahead(2) show ?thesis
    proof (cases rule: seq_cases)
      case (stop e)
      with write_run [OF stop(1)] q1 q2 show ?thesis by (cases e) (auto simp: stray_def)
    next
      case (ahead d3)
      note q3 = write_run [OF ahead(1)]
      have files3: "cd_files d3 = (cd_files d)(temp := Some content)" "cd_files d temp = None" "cd_journal d3 = cd_journal d"
        using q1 q2 q3 by simp_all
      from ahead(2) show ?thesis
      proof (cases rule: seq_cases)
        case (stop e)
        with quietD [OF quiet_sys_call stop(1)] files3 show ?thesis by (auto simp: stray_def)
      next
        case (ahead d4)
        note q4 = quietD [OF quiet_sys_call ahead(1)]
        from ahead(2) show ?thesis
        proof (cases rule: seq_cases)
          case (stop e)
          with quietD [OF assms(1) stop(1)] q4 files3 show ?thesis by (auto simp: stray_def)
        next
          case (ahead d5)
          note q5 = quietD [OF assms(1) ahead(1)]
          from replace_run [OF ahead(2)] q4 q5 files3 show ?thesis by (cases r) (auto simp: stray_def fun_eq_iff)
        qed
      qed
    qed
  qed
qed

lemma atomic_write_run:
  assumes "quiet revalidate" and "atomic_write_with_revalidate w path content revalidate d = (r, d')"
  shows "cd_journal d' = cd_journal d \<and>
    (if failed r then cd_files d' = cd_files d \<or> (\<exists>dir uuid. path_parent path = Some dir \<and> stray (cd_files d) (temp_path_of dir uuid) (cd_files d'))
     else cd_files d' = (cd_files d)(path := Some content))"
proof (cases "path_parent path")
  case None
  with assms(2) show ?thesis by (auto simp: atomic_write_with_revalidate_def op_basic_defs)
next
  case (Some dir)
  let ?tail = "\<lambda>uuid. let temp_path = path_join dir (''.'' @ uuid @ ''.llm-notch.tmp'')
            in seq revalidate
              (seq (create_new_file (internal ''temp create failed'') (internal ''temp create failed'' ALREADY_EXISTS_TEXT) temp_path)
              (seq (write_file (internal ''temp write failed'') temp_path content)
              (seq (sys_call (internal ''temp sync failed''))
              (seq revalidate (durable_replace w temp_path path)))))"
  from assms(2) Some have "seq (sys_call (internal ''create parent failed'')) (bind (new_uuid w) ?tail) d = (r, d')"
    by (simp add: atomic_write_with_revalidate_def)
  then show ?thesis
  proof (cases rule: seq_cases)
    case (stop e)
    with quietD [OF quiet_sys_call stop(1)] show ?thesis by simp
  next
    case (ahead d1)
    note q1 = quietD [OF quiet_sys_call ahead(1)]
    from ahead(2) show ?thesis
    proof (cases rule: bind_cases)
      case (stop e)
      with quietD [OF quiet_uuid stop(1)] q1 show ?thesis by simp
    next
      case (ahead uuid d2)
      note q2 = quietD [OF quiet_uuid ahead(1)]
      from temp_then_replace [OF assms(1) ahead(2) [unfolded Let_def]] q1 q2 Some show ?thesis
        by (auto simp: temp_path_of_def split: if_splits)
    qed
  qed
qed

section \<open>Locks\<close>

lemma ignoring_remove:
  "snd (ignoring (remove_disk_file wrap path) d) = d' \<Longrightarrow>
   cd_journal d' = cd_journal d \<and> (cd_files d' = cd_files d \<or> cd_files d' = (cd_files d)(path := None))"
  by (auto simp: ignoring_def remove_disk_file_def seq_def bind_def sys_call_def set_file_def op_basic_defs
      split: list.splits option.splits)

lemma path_join_length: "length base + length rel \<le> length (path_join base rel)" "length (path_join base rel) \<le> Suc (length base + length rel)"
  by (simp_all add: path_join_def)

lemma path_name_length: "path_file_name path = Some n \<Longrightarrow> path_parent path = Some dir \<Longrightarrow> length path \<le> Suc (length dir + length n)"
proof -
  assume n: "path_file_name path = Some n" and dir: "path_parent path = Some dir"
  have split: "s = t @ CHR ''/'' # after_last (CHR ''/'') s" if "before_last (CHR ''/'') s = Some t" for s t
  proof -
    from that have mem: "CHR ''/'' \<in> set (rev s)" and t: "t = rev (tl (dropWhile (\<lambda>x. x \<noteq> CHR ''/'') (rev s)))"
      by (simp_all add: before_last_def split: if_splits)
    from mem have ne: "dropWhile (\<lambda>x. x \<noteq> CHR ''/'') (rev s) \<noteq> []" by (simp add: dropWhile_eq_Nil_conv)
    with hd_dropWhile [OF ne] have "dropWhile (\<lambda>x. x \<noteq> CHR ''/'') (rev s) = CHR ''/'' # rev t"
      by (metis list.collapse rev_rev_ident t)
    then have "rev s = takeWhile (\<lambda>x. x \<noteq> CHR ''/'') (rev s) @ CHR ''/'' # rev t" by (metis takeWhile_dropWhile_id)
    then have "rev (rev s) = rev (takeWhile (\<lambda>x. x \<noteq> CHR ''/'') (rev s) @ CHR ''/'' # rev t)" by simp
    then show ?thesis by (simp add: after_last_def)
  qed
  show ?thesis
  proof (cases "before_last (CHR ''/'') path")
    case None
    then have "CHR ''/'' \<notin> set path" by (simp add: before_last_def split: if_splits)
    with n have "n = path" by (simp add: path_file_name_def after_last_free Let_def split: if_splits)
    then show ?thesis by simp
  next
    case (Some t)
    have "length path = length t + Suc (length (after_last (CHR ''/'') path))" using split [OF Some] by (metis length_append length_Cons)
    moreover have "n = after_last (CHR ''/'') path" using n by (simp add: path_file_name_def Let_def split: if_splits)
    moreover have "length t \<le> length dir" using dir Some by (auto simp: path_parent_def split: if_splits)
    ultimately show ?thesis by simp
  qed
qed

lemma lock_path_differs: "lock_path_for target \<noteq> target"
proof (cases "path_file_name target")
  case None
  then have "length target < length (lock_path_for target)"
    using path_join_length(1) [of target "''target'' @ LOCK_SUFFIX"] by (simp add: lock_path_for_def with_file_name_def)
  then show ?thesis by auto
next
  case (Some n)
  show ?thesis
  proof (cases "path_parent target")
    case None
    with Some show ?thesis by (auto simp: path_parent_def path_file_name_def after_last_def Let_def split: if_splits option.splits)
  next
    case (Some dir)
    have "length (lock_path_for target) \<ge> length dir + length n + 15"
      using Some \<open>path_file_name target = Some n\<close> path_join_length(1) [of dir "n @ LOCK_SUFFIX"]
      by (simp add: lock_path_for_def with_file_name_def LOCK_SUFFIX_def)
    with path_name_length [OF \<open>path_file_name target = Some n\<close> Some] show ?thesis by auto
  qed
qed

text \<open>Frames: \<open>off A F\<close> says that the files outside \<open>A\<close> are those of \<open>F\<close>.\<close>

definition off :: "(string \<Rightarrow> bool) \<Rightarrow> files \<Rightarrow> conn_disk \<Rightarrow> bool" where
  "off A F d \<longleftrightarrow> (\<forall>p. \<not> A p \<longrightarrow> cd_files d p = F p)"

lemma keeps_quiet: "quiet m \<Longrightarrow> keeps (off A F) m"
  by (simp add: keeps_def off_def quiet_def)

lemma keeps_run: "(\<And>d r d'. m d = (r, d') \<Longrightarrow> P d \<Longrightarrow> P d') \<Longrightarrow> keeps P m"
  unfolding keeps_def by (metis prod.collapse)

lemma keeps_files:
  "A path \<Longrightarrow> keeps (off A F) (create_new_file wrap taken path)"
  "A path \<Longrightarrow> keeps (off A F) (write_file wrap path content)"
  "A path \<Longrightarrow> keeps (off A F) (ignoring (remove_disk_file wrap path))"
proof -
  assume A: "A path"
  show "keeps (off A F) (create_new_file wrap taken path)"
    by (rule keeps_run) (use A in \<open>auto simp: off_def dest!: create_new_run split: outcome.splits\<close>)
  show "keeps (off A F) (write_file wrap path content)"
    by (rule keeps_run) (use A in \<open>auto simp: off_def dest!: write_run split: outcome.splits\<close>)
  show "keeps (off A F) (ignoring (remove_disk_file wrap path))"
  proof (rule keepsI)
    fix d
    show "off A F d \<Longrightarrow> off A F (snd (ignoring (remove_disk_file wrap path) d))"
      using ignoring_remove [OF refl, of wrap path d] A by (auto simp: off_def)
  qed
qed

lemma keeps_atomic_write:
  assumes "quiet revalidate" and "A path" and "\<And>dir uuid. path_parent path = Some dir \<Longrightarrow> A (temp_path_of dir uuid)"
  shows "keeps (off A F) (atomic_write_with_revalidate w path content revalidate)"
proof (rule keeps_run)
  fix d d' :: conn_disk and r
  assume run: "atomic_write_with_revalidate w path content revalidate d = (r, d')" and before: "off A F d"
  from atomic_write_run [OF assms(1) run] consider "cd_files d' = (cd_files d)(path := Some content)" | "cd_files d' = cd_files d"
    | dir uuid where "path_parent path = Some dir" "stray (cd_files d) (temp_path_of dir uuid) (cd_files d')"
    by (auto split: if_splits)
  then show "off A F d'"
    by cases (use before assms(2,3) in \<open>auto simp: off_def stray_def\<close>)
qed

lemma keeps_lock_acquire:
  assumes "A (lock_path_for target)"
  shows "keeps (off A F) (lock_acquire w target)"
  unfolding lock_acquire_def Let_def
  by (intro keeps_seq keeps_bind keeps_if keeps_files assms keeps_quiet quiet_intros)

lemma lock_acquire_Ok:
  assumes "lock_acquire w target d = (Ok lock, d')"
  shows "lock = lock_path_for target \<and> cd_files d' lock \<noteq> None"
proof -
  from assms obtain d1 d2 where "write_file (internal ''lock write failed'') (lock_path_for target)
      (''pid='' @ dec_string (fe_pid w) @ [CHR 0x0A]) d1 = (Ok (), d2)" "(ret (lock_path_for target) :: string conn_op) d2 = (Ok lock, d')"
    unfolding lock_acquire_def Let_def by (elim seq_OkE) (rule that)
  with write_run [OF this(1)] show ?thesis by (auto simp: op_basic_defs)
qed

lemma keeps_with_lock:
  assumes "A (lock_path_for target)" and "keeps (off A F) body"
  shows "keeps (off A F) (with_lock w target body)"
proof (rule keeps_run)
  fix d d' :: conn_disk and r
  assume run: "with_lock w target body d = (r, d')" and before: "off A F d"
  from run [unfolded with_lock_def] show "off A F d'"
  proof (cases rule: bind_cases)
    case (ahead lock d1)
    obtain r2 d2 where body: "body d1 = (r2, d2)" by (cases "body d1")
    from ahead(1) before keeps_lock_acquire [where A = A, OF assms(1)] have "off A F d1" by (rule keepsD_run [rotated 1])
    with assms(2) body have d2: "off A F d2" by (metis keepsD_run)
    from ahead(2) body have "snd (ignoring (remove_disk_file ConnectorInternal lock) d2) = d'" by simp
    with d2 keepsD [OF keeps_files(3), of A lock F d2] assms(1) lock_acquire_Ok [OF ahead(1)] show ?thesis by auto
  qed (use keepsD_run [OF keeps_lock_acquire [where A = A, OF assms(1)] _ before] in blast)
qed

section \<open>A plan writes its targets and files beside them\<close>

definition side_file :: "string \<Rightarrow> string \<Rightarrow> bool" where
  "side_file target p \<longleftrightarrow> p = lock_path_for target \<or>
     (case path_parent target of
        None \<Rightarrow> False
      | Some dir \<Rightarrow>
          prefix (path_join dir ((case path_file_name target of Some n \<Rightarrow> n | None \<Rightarrow> ''file'') @ ''.llm-notch.bak.'')) p \<or>
          prefix (path_join dir ''.'') p \<and> suffix ''.llm-notch.tmp'' p)"

definition written_by :: "plan_file list \<Rightarrow> string \<Rightarrow> bool" where
  "written_by files p \<longleftrightarrow> list_ex (\<lambda>f. p = pf_canonical_path f \<or> side_file (pf_canonical_path f) p) files"

lemma path_join_append: "path_join dir (x @ y) = path_join dir x @ y"
  by (simp add: path_join_def)

lemma side_lock: "side_file target (lock_path_for target)"
  by (simp add: side_file_def)

lemma side_temp: "path_parent target = Some dir \<Longrightarrow> side_file target (temp_path_of dir uuid)"
proof -
  assume dir: "path_parent target = Some dir"
  have "temp_path_of dir uuid = path_join dir ''.'' @ uuid @ ''.llm-notch.tmp''"
    using path_join_append [of dir "''.''" "uuid @ ''.llm-notch.tmp''"] by (simp add: temp_path_of_def)
  with dir show ?thesis by (auto simp: side_file_def suffix_def)
qed

lemma secure_backup_path_Ok:
  assumes "secure_backup_path w target timestamp d = (Ok path, d')"
  shows "\<exists>dir uuid. path_parent target = Some dir \<and>
    path = path_join dir ((case path_file_name target of Some n \<Rightarrow> n | None \<Rightarrow> ''file'') @ ''.llm-notch.bak.'' @ timestamp @ ''.'' @ uuid) \<and>
    (\<exists>n. uuid = fe_uuid w n)"
proof (cases "path_parent target")
  case None
  with assms show ?thesis by (simp add: secure_backup_path_def op_basic_defs)
next
  case (Some dir)
  with assms obtain d1 uuid d2 where "new_uuid w d1 = (Ok uuid, d2)"
    and "path = path_join dir ((case path_file_name target of Some n \<Rightarrow> n | None \<Rightarrow> ''file'') @ ''.llm-notch.bak.'' @ timestamp @ ''.'' @ uuid)"
    by (auto simp: secure_backup_path_def Let_def op_basic_defs elim!: seq_OkE bind_OkE)
  with Some show ?thesis by (auto simp: new_uuid_def)
qed

lemma side_backup: "secure_backup_path w target timestamp d = (Ok path, d') \<Longrightarrow> side_file target path"
proof -
  assume "secure_backup_path w target timestamp d = (Ok path, d')"
  from secure_backup_path_Ok [OF this] obtain dir uuid where dir: "path_parent target = Some dir" and
    path: "path = path_join dir ((case path_file_name target of Some n \<Rightarrow> n | None \<Rightarrow> ''file'') @ ''.llm-notch.bak.'' @ timestamp @ ''.'' @ uuid)"
    by blast
  define stem where "stem = (case path_file_name target of Some n \<Rightarrow> n | None \<Rightarrow> ''file'') @ ''.llm-notch.bak.''"
  have "path = path_join dir (stem @ timestamp @ ''.'' @ uuid)" by (simp add: path stem_def)
  then have "prefix (path_join dir stem) path" by (simp only: path_join_append prefix_def) blast
  with dir show ?thesis unfolding side_file_def stem_def by simp
qed

lemma keeps_journal:
  "keeps (off A F) (persist_journal w)" "keeps (off A F) (record_backup w entry)" "keeps (off A F) (record_apply w entry')"
proof -
  show persist: "keeps (off A F) (persist_journal w)"
    unfolding persist_journal_def
    by (intro keeps_bind keeps_seq keeps_quiet quiet_intros) (simp add: quiet_def modify_def)
  show "keeps (off A F) (record_backup w entry)" "keeps (off A F) (record_apply w entry')"
    unfolding record_backup_def record_apply_def
    by (intro keeps_seq persist keeps_ret; simp add: keeps_def off_def modify_def)+
qed

lemma keeps_prod: "(\<And>a b. x = (a, b) \<Longrightarrow> keeps P (k a b)) \<Longrightarrow> keeps P (case x of (a, b) \<Rightarrow> k a b)"
  by (cases x) auto

lemma keeps_bind_Ok:
  assumes "keeps P m" and "\<And>x d d'. m d = (Ok x, d') \<Longrightarrow> keeps P (k x)"
  shows "keeps P (bind m k)"
proof (rule keeps_run)
  fix d r d' assume run: "bind m k d = (r, d')" and P: "P d"
  from run show "P d'"
    by (cases rule: bind_cases) (use assms P in \<open>blast intro: keepsD_run\<close>)+
qed

lemma keeps_backup:
  assumes "\<And>p. side_file (pf_canonical_path file) p \<Longrightarrow> A p" and "quiet revalidate"
  shows "keeps (off A F) (create_backup w file plan_id source now_ms revalidate)"
  unfolding create_backup_def write_exclusive_file_def Let_def
  by (intro keeps_seq keeps_bind_Ok keeps_prod keeps_files keeps_journal assms)
    (auto intro!: keeps_quiet quiet_intros assms dest: side_backup)

definition covers :: "(string \<Rightarrow> bool) \<Rightarrow> plan_file \<Rightarrow> bool" where
  "covers A file \<longleftrightarrow> A (pf_canonical_path file) \<and> (\<forall>p. side_file (pf_canonical_path file) p \<longrightarrow> A p)"

lemma keeps_atomic_target:
  "covers A file \<Longrightarrow> keeps (off A F) (atomic_write_with_revalidate w (pf_canonical_path file) content (revalidate_for w file))"
  by (rule keeps_atomic_write) (auto simp: covers_def intro: quiet_intros side_temp)

lemma keeps_apply_single:
  assumes "covers A file"
  shows "keeps (off A F) (apply_single_file w file plan_id source now_ms)"
proof -
  have lock: "A (lock_path_for (pf_canonical_path file))" using assms side_lock by (simp add: covers_def)
  have backup: "keeps (off A F) (create_backup w file plan_id source now_ms (revalidate_for w file))"
    by (rule keeps_backup) (use assms in \<open>auto simp: covers_def intro: quiet_intros\<close>)
  show ?thesis
    unfolding apply_single_file_def locked_backup_def
    by (rule keeps_with_lock [where A = A, OF lock])
      (intro keeps_seq keeps_bind keeps_if backup keeps_atomic_target [OF assms] keeps_quiet quiet_intros)
qed

lemma keeps_compensate_file:
  assumes "covers A file"
  shows "keeps (off A F) (compensate_file w (file, backup_id))"
proof -
  have lock: "A (lock_path_for (pf_canonical_path file))" using assms side_lock by (simp add: covers_def)
  have "keeps (off A F) (restore_from_backup w file backup (revalidate_for w file))" for backup
    unfolding restore_from_backup_def Let_def
    by (intro keeps_seq keeps_bind keeps_if keeps_prod keeps_case_option keeps_atomic_target [OF assms] keeps_quiet quiet_intros)
  then have "keeps (off A F) (with_lock w (pf_canonical_path file)
         (seq (revalidate_for w file)
           (bind (current_hash_of w (pf_canonical_path file)) (\<lambda>current.
             case be_applied_hash backup of
               None \<Rightarrow> ret ()
             | Some applied_hash \<Rightarrow>
                 if current \<noteq> applied_hash then ret ()
                 else restore_from_backup w file backup (revalidate_for w file)))))" for backup
    by (intro keeps_with_lock [where A = A, OF lock] keeps_seq keeps_bind keeps_case_option keeps_if)
      (auto intro: keeps_quiet quiet_intros)
  then show ?thesis
    unfolding compensate_file_def
    by (auto intro!: keeps_bind keeps_case_option intro: keeps_quiet quiet_intros)
qed

lemma keeps_for_each_in: "(\<And>x. x \<in> set xs \<Longrightarrow> keeps P (f x)) \<Longrightarrow> keeps P (for_each f xs)"
  by (induction xs) (auto intro: keeps_intros)

lemma keeps_apply_files:
  assumes "list_all (covers A) files" and "list_all (\<lambda>(f, b). covers A f) applied"
  shows "keeps (off A F) (apply_files w plan_id source now_ms files results applied)"
  using assms
proof (induction files arbitrary: results applied)
  case (Cons f1 rest)
  then have f1: "covers A f1" and rest: "list_all (covers A) rest" by simp_all
  have undo: "keeps (off A F) (seq (compensate w applied) (throw PartialApplyFailure :: file_apply_result list conn_op))"
    unfolding compensate_def using Cons.prems(2)
    by (intro keeps_seq keeps_for_each_in keeps_throw) (auto simp: list_all_iff intro: keeps_compensate_file)
  have noted: "list_all (\<lambda>(f, b). covers A f) (note_applied f1 result applied)" for result
    using Cons.prems(2) f1 by (auto simp: note_applied_def split: file_outcome.split option.split)
  show ?case
  proof (cases "pf_baseline_text f1 = pf_merged_text f1")
    case True
    with Cons.IH [OF rest Cons.prems(2)] show ?thesis by simp
  next
    case False
    show ?thesis
    proof (rule keepsI)
      fix d assume d: "off A F d"
      obtain r d1 where run: "apply_single_file w f1 plan_id source now_ms d = (r, d1)"
        by (cases "apply_single_file w f1 plan_id source now_ms d")
      with keeps_apply_single [OF f1] d have d1: "off A F d1" by (metis keepsD_run)
      show "off A F (snd (apply_files w plan_id source now_ms (f1 # rest) results applied d))"
        using False run keepsD [OF Cons.IH [OF rest noted] d1] keepsD [OF undo d1] d1 by (cases r) simp_all
    qed
  qed
qed (simp add: keeps_ret)

lemma keeps_apply_plan: "keeps (off (written_by (sp_files plan)) F) (apply_plan w plan now_ms capabilities)"
proof -
  have "list_all (covers (written_by (sp_files plan))) (sp_files plan)"
    by (auto simp: list_all_iff covers_def written_by_def list_ex_iff)
  then have "keeps (off (written_by (sp_files plan)) F)
      (apply_files w (sp_plan_id plan) (sp_source plan) now_ms (sp_files plan) [] [])"
    by (rule keeps_apply_files) simp
  then show ?thesis
    unfolding apply_plan_def Let_def
    by (intro keeps_if keeps_seq keeps_bind keeps_journal keeps_ret) (auto intro: keeps_quiet quiet_intros)
qed

section \<open>One target\<close>

text \<open>\<open>ends_in P Q m\<close>: from \<open>P\<close>, whatever its outcome, \<open>m\<close> leaves a state with \<open>Q\<close>.\<close>

definition ends_in :: "(conn_disk \<Rightarrow> bool) \<Rightarrow> (conn_disk \<Rightarrow> bool) \<Rightarrow> 'a conn_op \<Rightarrow> bool" where
  "ends_in P Q m \<longleftrightarrow> (\<forall>d. P d \<longrightarrow> Q (snd (m d)))"

lemma ends_keeps: "keeps P m \<Longrightarrow> (\<And>d. P d \<Longrightarrow> Q d) \<Longrightarrow> ends_in P Q m"
  by (simp add: ends_in_def keeps_def)

lemma ends_bind:
  assumes "keeps P m" and "\<And>d. P d \<Longrightarrow> Q d" and "\<And>x d d'. P d \<Longrightarrow> m d = (Ok x, d') \<Longrightarrow> ends_in P Q (k x)"
  shows "ends_in P Q (bind m k)"
  unfolding ends_in_def
proof (intro allI impI)
  fix d assume P: "P d"
  obtain r d' where run: "bind m k d = (r, d')" by (cases "bind m k d")
  from run have "Q d'"
  proof (cases rule: bind_cases)
    case (ahead x d1)
    with assms(1) P have "P d1" by (metis keepsD_run)
    with assms(3) [OF P ahead(1)] ahead(2) show ?thesis unfolding ends_in_def by (metis snd_conv)
  qed (use assms(1,2) P in \<open>metis keepsD_run\<close>)
  with run show "Q (snd (bind m k d))" by simp
qed

lemma ends_seq:
  "keeps P m \<Longrightarrow> (\<And>d. P d \<Longrightarrow> Q d) \<Longrightarrow> ends_in P Q k \<Longrightarrow> ends_in P Q (seq m k)"
  unfolding seq_def by (rule ends_bind)

lemma ends_then: "ends_in P Q m \<Longrightarrow> keeps Q k \<Longrightarrow> ends_in P Q (seq m k)"
  unfolding ends_in_def seq_def bind_def keeps_def
  by (auto split: prod.splits outcome.splits; metis snd_conv)

lemma keeps_bind_state:
  assumes "keeps P m" and "\<And>x d d'. P d \<Longrightarrow> m d = (Ok x, d') \<Longrightarrow> keeps P (k x)"
  shows "keeps P (bind m k)"
proof (rule keeps_run)
  fix d r d' assume run: "bind m k d = (r, d')" and P: "P d"
  from run show "P d'"
    by (cases rule: bind_cases) (use assms P in \<open>blast intro: keepsD_run\<close>)+
qed

abbreviation holds :: "string \<Rightarrow> files \<Rightarrow> conn_disk \<Rightarrow> bool" where
  "holds target \<equiv> off (\<lambda>p. p \<noteq> target)"

lemma holds_iff: "holds target F d \<longleftrightarrow> cd_files d target = F target"
  by (simp add: off_def)

lemma read_file_Ok: "read_file wrap path d = (Ok bytes, d') \<Longrightarrow> cd_files d path = Some bytes"
proof -
  assume run: "read_file wrap path d = (Ok bytes, d')"
  then obtain d1 where "sys_call wrap d = (Ok (), d1)"
    and "(case cd_files d1 path of None \<Rightarrow> throw (wrap NOT_FOUND_TEXT) | Some content \<Rightarrow> ret content) d1 = (Ok bytes, d')"
    by (auto simp: read_file_def disk_files_def gets_def bind_def elim!: seq_OkE)
  with quietD [OF quiet_sys_call this(1)] show ?thesis by (auto simp: op_basic_defs split: option.splits)
qed

lemma read_and_hash_Ok: "read_and_hash w wrap path d = (Ok (bytes, hash), d') \<Longrightarrow> cd_files d path = Some bytes \<and> hash = fe_sha256 w bytes"
  unfolding read_and_hash_def by (auto simp: op_basic_defs dest: read_file_Ok elim!: bind_OkE)

lemma keeps_write_exclusive:
  assumes "F target \<noteq> None"
  shows "keeps (holds target F) (write_exclusive_file path content)"
proof (cases "path = target")
  case False
  then show ?thesis unfolding write_exclusive_file_def by (intro keeps_seq keeps_files) (auto intro: keeps_quiet quiet_intros)
next
  case True
  show ?thesis
  proof (rule keeps_run)
    fix d r d' assume run: "write_exclusive_file path content d = (r, d')" and here: "holds target F d"
    with True assms have there: "cd_files d path \<noteq> None" by (simp add: holds_iff)
    from run [unfolded write_exclusive_file_def] show "holds target F d'"
    proof (cases rule: seq_cases)
      case (stop e)
      with create_new_run [OF stop(1)] here show ?thesis by (cases e) (auto simp: holds_iff)
    qed (use there in \<open>auto dest!: create_new_run\<close>)
  qed
qed

lemma keeps_backup_target:
  assumes "quiet revalidate"
  shows "keeps (holds (pf_canonical_path file) F) (create_backup w file plan_id source now_ms revalidate)"
proof -
  have copy: "keeps (holds (pf_canonical_path file) F)
     (bind (read_and_hash w (internal ''backup read failed'') (pf_canonical_path file)) (\<lambda>content.
             seq revalidate (seq (write_exclusive_file backup_path (fst content)) (k content))))"
    if "\<And>x. keeps (holds (pf_canonical_path file) F) (k x)" for backup_path and k :: "string \<times> string \<Rightarrow> string conn_op"
  proof (rule keeps_bind_state)
    fix x d d' assume here: "holds (pf_canonical_path file) F d"
      and read: "read_and_hash w (internal ''backup read failed'') (pf_canonical_path file) d = (Ok x, d')"
    obtain bytes hash where "x = (bytes, hash)" by (cases x)
    with read read_and_hash_Ok here have "F (pf_canonical_path file) \<noteq> None" by (metis holds_iff option.distinct(1))
    then show "keeps (holds (pf_canonical_path file) F)
        (seq revalidate (seq (write_exclusive_file backup_path (fst x)) (k x)))"
      by (intro keeps_seq keeps_write_exclusive keeps_quiet [OF assms] that)
  qed (intro keeps_quiet quiet_intros)
  show ?thesis
    unfolding create_backup_def Let_def
    by (rule keeps_seq [OF keeps_quiet [OF assms]], rule keeps_bind [OF keeps_quiet [OF quiet_backup_path]],
        rule keeps_seq [OF keeps_quiet [OF assms]], rule copy, intro keeps_bind keeps_journal keeps_quiet quiet_uuid)
qed

lemma locked_hash_Ok:
  assumes "locked_hash w file d = (Ok hash, d')" and "cd_files d (pf_canonical_path file) = Some c"
  shows "hash = fe_sha256 w c"
  using assms unfolding locked_hash_def
  by (auto simp: disk_files_def gets_def bind_def path_exists_def ret_def split: prod.splits outcome.splits dest!: read_and_hash_Ok)

text \<open>The state of the target after a run: as before, or the planned text over a file that had the planned hash.\<close>

definition replaced :: "fs_env \<Rightarrow> plan_file \<Rightarrow> files \<Rightarrow> conn_disk \<Rightarrow> bool" where
  "replaced w file F d \<longleftrightarrow>
     cd_files d (pf_canonical_path file) = F (pf_canonical_path file) \<or>
     cd_files d (pf_canonical_path file) = Some (pf_merged_text file) \<and>
       (\<forall>c. F (pf_canonical_path file) = Some c \<longrightarrow> fe_sha256 w c = pf_baseline_sha256 file)"

lemma replaced_keep: "holds (pf_canonical_path file) F d \<Longrightarrow> replaced w file F d"
  by (simp add: holds_iff replaced_def)

lemma keeps_replaced: "(\<And>F. keeps (holds (pf_canonical_path file) F) m) \<Longrightarrow> keeps (replaced w file F) m"
proof (rule keepsI)
  fix d assume keeps: "\<And>F. keeps (holds (pf_canonical_path file) F) m" and d: "replaced w file F d"
  have "holds (pf_canonical_path file) (cd_files d) (snd (m d))" using keepsD [OF keeps] by (simp add: holds_iff)
  with d show "replaced w file F (snd (m d))" by (simp add: holds_iff replaced_def)
qed

lemma ends_atomic:
  assumes "\<not> side_file (pf_canonical_path file) (pf_canonical_path file)"
    and "\<And>c. F (pf_canonical_path file) = Some c \<Longrightarrow> fe_sha256 w c = pf_baseline_sha256 file"
  shows "ends_in (holds (pf_canonical_path file) F) (replaced w file F)
    (atomic_write_with_revalidate w (pf_canonical_path file) (pf_merged_text file) (revalidate_for w file))"
  unfolding ends_in_def
proof (intro allI impI)
  fix d assume d: "holds (pf_canonical_path file) F d"
  obtain r d' where run: "atomic_write_with_revalidate w (pf_canonical_path file) (pf_merged_text file) (revalidate_for w file) d = (r, d')"
    by (cases "atomic_write_with_revalidate w (pf_canonical_path file) (pf_merged_text file) (revalidate_for w file) d")
  have other: "temp_path_of dir uuid \<noteq> pf_canonical_path file" if "path_parent (pf_canonical_path file) = Some dir" for dir uuid
    using side_temp [OF that] assms(1) by metis
  from atomic_write_run [OF quiet_revalidate_for run]
  consider "cd_files d' = (cd_files d)(pf_canonical_path file := Some (pf_merged_text file))" | "cd_files d' = cd_files d"
    | dir uuid where "path_parent (pf_canonical_path file) = Some dir" "stray (cd_files d) (temp_path_of dir uuid) (cd_files d')"
    by (auto split: if_splits)
  then have "replaced w file F d'"
  proof cases
    case (3 dir uuid)
    with other [OF 3(1), of uuid] d show ?thesis by (auto simp: replaced_def holds_iff stray_def)
  qed (use d assms(2) in \<open>auto simp: replaced_def holds_iff\<close>)
  with run show "replaced w file F (snd (atomic_write_with_revalidate w
      (pf_canonical_path file) (pf_merged_text file) (revalidate_for w file) d))" by simp
qed

lemma ends_with_lock:
  assumes "ends_in (holds target F) Q body" and "\<And>d. holds target F d \<Longrightarrow> Q d"
    and "keeps Q (ignoring (remove_disk_file ConnectorInternal (lock_path_for target)))"
  shows "ends_in (holds target F) Q (with_lock w target body)"
  unfolding with_lock_def
proof (rule ends_bind)
  show "keeps (holds target F) (lock_acquire w target)" by (rule keeps_lock_acquire) (rule lock_path_differs)
  fix lock d d' assume "lock_acquire w target d = (Ok lock, d')"
  then have "lock = lock_path_for target" using lock_acquire_Ok by blast
  with assms(1,3) show "ends_in (holds target F) Q
      (\<lambda>d. case body d of (r, d') \<Rightarrow> (r, snd (ignoring (remove_disk_file ConnectorInternal lock) d')))"
    unfolding ends_in_def keeps_def by (auto split: prod.splits)
qed (rule assms(2))

lemma ends_apply_single:
  assumes "\<not> side_file (pf_canonical_path file) (pf_canonical_path file)"
  shows "ends_in (holds (pf_canonical_path file) F) (replaced w file F) (apply_single_file w file plan_id source now_ms)"
  unfolding apply_single_file_def
proof (rule ends_with_lock)
  show "keeps (replaced w file F) (ignoring (remove_disk_file ConnectorInternal (lock_path_for (pf_canonical_path file))))"
    by (intro keeps_replaced keeps_files lock_path_differs)
  have quiet: "keeps (holds (pf_canonical_path file) F) (revalidate_for w file)" "keeps (holds (pf_canonical_path file) F) (locked_hash w file)"
    by (intro keeps_quiet quiet_intros)+
  have backup: "keeps (holds (pf_canonical_path file) F) (locked_backup w file plan_id source now_ms)"
    unfolding locked_backup_def
    by (intro keeps_bind keeps_if keeps_seq keeps_backup_target keeps_quiet quiet_intros)
  have replacing: "ends_in (holds (pf_canonical_path file) F) (replaced w file F)
      (seq (revalidate_for w file)
        (seq (atomic_write_with_revalidate w (pf_canonical_path file) (pf_merged_text file) (revalidate_for w file)) (ret result)))"
    if "\<And>c. F (pf_canonical_path file) = Some c \<Longrightarrow> fe_sha256 w c = pf_baseline_sha256 file" for result :: file_apply_result
    by (intro ends_seq ends_then quiet replaced_keep ends_atomic assms keeps_ret that)
  show "ends_in (holds (pf_canonical_path file) F) (replaced w file F)
     (seq (revalidate_for w file)
       (bind (locked_hash w file) (\<lambda>current_hash.
         if current_hash \<noteq> pf_baseline_sha256 file
         then throw (FileChangedSincePreview (pf_baseline_sha256 file) current_hash)
         else bind (locked_backup w file plan_id source now_ms) (\<lambda>backup_id.
           seq (revalidate_for w file)
             (seq (atomic_write_with_revalidate w (pf_canonical_path file) (pf_merged_text file) (revalidate_for w file))
               (ret \<lparr>fr_display_path = pf_display_path file, fr_outcome = FileApplied, fr_backup_journal_id = backup_id,
                  fr_applied_hash = Some (fe_sha256 w (pf_merged_text file)), fr_error_code = None, fr_message = None\<rparr>))))))"
  proof (intro ends_seq ends_bind quiet replaced_keep)
    fix hash d d' assume d: "holds (pf_canonical_path file) F d" and hash: "locked_hash w file d = (Ok hash, d')"
    show "ends_in (holds (pf_canonical_path file) F) (replaced w file F)
       (if hash \<noteq> pf_baseline_sha256 file
         then throw (FileChangedSincePreview (pf_baseline_sha256 file) hash)
         else bind (locked_backup w file plan_id source now_ms) (\<lambda>backup_id.
           seq (revalidate_for w file)
             (seq (atomic_write_with_revalidate w (pf_canonical_path file) (pf_merged_text file) (revalidate_for w file))
               (ret \<lparr>fr_display_path = pf_display_path file, fr_outcome = FileApplied, fr_backup_journal_id = backup_id,
                  fr_applied_hash = Some (fe_sha256 w (pf_merged_text file)), fr_error_code = None, fr_message = None\<rparr>))))"
    proof (cases "hash = pf_baseline_sha256 file")
      case True
      then have "fe_sha256 w c = pf_baseline_sha256 file" if "F (pf_canonical_path file) = Some c" for c
        using locked_hash_Ok [OF hash] d that by (simp add: holds_iff)
      from ends_bind [OF backup replaced_keep replacing [OF this]] True show ?thesis by simp
    qed (simp add: ends_keeps keeps_throw replaced_keep)
  qed
qed (rule replaced_keep)

lemma ends_apply_plan:
  assumes "sp_files plan = [file]" and "\<not> side_file (pf_canonical_path file) (pf_canonical_path file)"
  shows "ends_in (holds (pf_canonical_path file) F) (replaced w file F) (apply_plan w plan now_ms capabilities)"
proof -
  let ?P = "holds (pf_canonical_path file) F" and ?Q = "replaced w file F"
  have single: "ends_in ?P ?Q (apply_files w (sp_plan_id plan) (sp_source plan) now_ms [file] [] [])"
  proof (cases "pf_baseline_text file = pf_merged_text file")
    case True
    then show ?thesis by (simp add: ends_keeps keeps_ret replaced_keep)
  next
    case False
    have "?Q (snd (apply_files w (sp_plan_id plan) (sp_source plan) now_ms [file] [] [] d))" if "?P d" for d
    proof -
      obtain r d1 where run: "apply_single_file w file (sp_plan_id plan) (sp_source plan) now_ms d = (r, d1)"
        by (cases "apply_single_file w file (sp_plan_id plan) (sp_source plan) now_ms d")
      with ends_apply_single [OF assms(2)] that have "?Q d1" unfolding ends_in_def by (metis snd_conv)
      with run False show ?thesis by (cases r) (simp_all add: compensate_def seq_def bind_def op_basic_defs)
    qed
    then show ?thesis by (simp add: ends_in_def)
  qed
  have "keeps ?Q (record_apply w entry)" for entry by (intro keeps_replaced keeps_journal)
  then have rest: "keeps ?Q (bind (new_uuid w) (\<lambda>uuid. seq (record_apply w (entry uuid)) (ret result)))"
    for entry and result :: apply_result
    by (intro keeps_bind [OF keeps_replaced [OF keeps_quiet [OF quiet_uuid]]] keeps_seq keeps_ret)
  have recorded: "ends_in ?P ?Q (bind (apply_files w (sp_plan_id plan) (sp_source plan) now_ms [file] [] []) k)"
    if "\<And>x. keeps ?Q (k x)" for k :: "file_apply_result list \<Rightarrow> apply_result conn_op"
    using single that unfolding ends_in_def keeps_def bind_def
    by (auto split: prod.splits outcome.splits; metis snd_conv)
  show ?thesis
    unfolding apply_plan_def Let_def assms(1)
    by (subst if_not_P, simp, rule ends_seq [OF keeps_quiet [OF quiet_for_each [OF quiet_preflight]] replaced_keep],
        assumption, rule recorded, rule rest)
qed

end
