(* ===== verification/Connector_Rollback.thy ===== *)
theory Connector_Rollback
  imports Connector_Effects
begin

text \<open>
  What an applied plan leaves behind, and that a rollback undoes it: the facts of a run that
  returned \<open>Ok\<close>, under every schedule of failures, and runs without failures, which do return \<open>Ok\<close>.
\<close>

section \<open>Runs that return Ok\<close>

lemma persist_run: "persist_journal w d = (r, d') \<Longrightarrow> cd_files d' = cd_files d \<and> cd_journal d' = cd_journal d"
proof -
  have "quiet (persist_journal w)"
    unfolding persist_journal_def by (intro quiet_intros) (simp add: quiet_def modify_def)
  then show "persist_journal w d = (r, d') \<Longrightarrow> ?thesis" by (rule quietD)
qed

lemma record_backup_Ok:
  "record_backup w entry d = (Ok b, d') \<Longrightarrow> b = be_id entry \<and> cd_files d' = cd_files d \<and>
   js_backups (cd_journal d') = js_backups (cd_journal d) @ [entry]"
  unfolding record_backup_def by (auto simp: op_basic_defs dest!: persist_run elim!: seq_OkE)

lemma write_exclusive_Ok:
  assumes "write_exclusive_file path content d = (Ok (), d')"
  shows "cd_files d path = None \<and> cd_files d' = (cd_files d)(path := Some content) \<and> cd_journal d' = cd_journal d"
proof -
  from assms obtain d1 d2 where c: "create_new_file (internal (''exclusive create failed for '' @ path))
         (PathEscapesScope (''exclusive create rejected: '' @ path @ '' already exists'')) path d = (Ok (), d1)"
    and w: "write_file (internal (''exclusive write failed for '' @ path)) path content d1 = (Ok (), d2)"
    and s: "sys_call (internal (''exclusive sync failed for '' @ path)) d2 = (Ok (), d')"
    unfolding write_exclusive_file_def by (elim seq_OkE) (rule that)
  from create_new_run [OF c] write_run [OF w] quietD [OF quiet_sys_call s] show ?thesis by simp
qed

text \<open>The entry that a backup puts into the journal.\<close>

definition backup_facts :: "fs_env \<Rightarrow> plan_file \<Rightarrow> agent_source \<Rightarrow> string \<Rightarrow> string \<Rightarrow> backup_entry \<Rightarrow> bool" where
  "backup_facts w file source backup_path old entry \<longleftrightarrow>
     be_source entry = source \<and> be_content_sha256 entry = fe_sha256 w old \<and>
     be_applied_hash entry = Some (fe_sha256 w (pf_merged_text file)) \<and>
     be_backup_display_path entry =
       backup_label file (case path_file_name backup_path of Some n \<Rightarrow> n | None \<Rightarrow> pf_backup_display_path file)"

definition backup_name_ok :: "fs_env \<Rightarrow> string \<Rightarrow> string \<Rightarrow> bool" where
  "backup_name_ok w target backup_path \<longleftrightarrow> (\<exists>d d' now_ms. secure_backup_path w target (backup_timestamp w now_ms) d = (Ok backup_path, d'))"

lemma create_backup_Ok:
  assumes "quiet revalidate" and "create_backup w file plan_id source now_ms revalidate d = (Ok b, d')"
  shows "\<exists>backup_path old entry n. cd_files d (pf_canonical_path file) = Some old \<and> cd_files d backup_path = None \<and>
    cd_files d' = (cd_files d)(backup_path := Some old) \<and>
    js_backups (cd_journal d') = js_backups (cd_journal d) @ [entry] \<and> be_id entry = b \<and> b = ''bak-'' @ fe_uuid w n \<and>
    backup_facts w file source backup_path old entry \<and> backup_name_ok w (pf_canonical_path file) backup_path"
proof -
  from assms(2) obtain d1 backup_path d2 d3 content d4 d5 d6 uuid d7 where
    r1: "revalidate d = (Ok (), d1)" and p: "secure_backup_path w (pf_canonical_path file) (backup_timestamp w now_ms) d1 = (Ok backup_path, d2)"
    and r2: "revalidate d2 = (Ok (), d3)" and h: "read_and_hash w (internal ''backup read failed'') (pf_canonical_path file) d3 = (Ok content, d4)"
    and r3: "revalidate d4 = (Ok (), d5)" and x: "write_exclusive_file backup_path (fst content) d5 = (Ok (), d6)"
    and u: "new_uuid w d6 = (Ok uuid, d7)"
    and j: "record_backup w (backup_entry_of w file plan_id source now_ms backup_path (snd content) uuid) d7 = (Ok b, d')"
    unfolding create_backup_def by (elim seq_OkE bind_OkE) (rule that)
  from h have h': "read_and_hash w (internal ''backup read failed'') (pf_canonical_path file) d3 = (Ok (fst content, snd content), d4)" by simp
  note quiet = quietD [OF assms(1) r1] quietD [OF quiet_backup_path p] quietD [OF assms(1) r2] quietD [OF quiet_hashes(2) h]
    quietD [OF assms(1) r3] quietD [OF quiet_uuid u]
  from u have "uuid = fe_uuid w (cd_uuids d6)" by (simp add: new_uuid_def)
  with quiet read_and_hash_Ok [OF h'] write_exclusive_Ok [OF x] record_backup_Ok [OF j] p show ?thesis
    unfolding backup_facts_def backup_name_ok_def
    by (intro exI [of _ backup_path] exI [of _ "fst content"] exI [of _ "backup_entry_of w file plan_id source now_ms backup_path (snd content) uuid"]
        exI [of _ "cd_uuids d6"] conjI) (auto simp: backup_entry_of_def)
qed

text \<open>Locks leave the journal alone.\<close>

lemma lock_acquire_journal: "lock_acquire w target d = (r, d') \<Longrightarrow> cd_journal d' = cd_journal d"
proof -
  have files: "keeps (\<lambda>d. cd_journal d = J) (create_new_file wrap taken path)" "keeps (\<lambda>d. cd_journal d = J) (write_file wrap path content)"
    "keeps (\<lambda>d. cd_journal d = J) (ignoring (remove_disk_file wrap path))" for J wrap taken path content
    by (rule keeps_run, auto dest: create_new_run write_run)
      (rule keeps_run, auto dest: create_new_run write_run, rule keepsI, metis ignoring_remove)
  have quiet: "quiet m \<Longrightarrow> keeps (\<lambda>d. cd_journal d = J) m" for J and m :: "'a conn_op"
    by (simp add: keeps_def quiet_def)
  have "keeps (\<lambda>d. cd_journal d = J) (lock_acquire w target)" for J
    unfolding lock_acquire_def Let_def
    by (intro keeps_seq keeps_bind keeps_if keeps_ret files quiet quiet_intros)
  from keepsD_run [OF this [of "cd_journal d"]] show "lock_acquire w target d = (r, d') \<Longrightarrow> ?thesis" by simp
qed

lemma with_lock_Ok:
  assumes "with_lock w target body d = (Ok x, d')"
  obtains d1 d2 where "cd_journal d1 = cd_journal d" "\<And>p. p \<noteq> lock_path_for target \<Longrightarrow> cd_files d1 p = cd_files d p"
    "cd_files d1 (lock_path_for target) \<noteq> None" "body d1 = (Ok x, d2)" "cd_journal d' = cd_journal d2"
    "\<And>p. p \<noteq> lock_path_for target \<Longrightarrow> cd_files d' p = cd_files d2 p"
proof -
  from assms obtain lock d1 where lock: "lock_acquire w target d = (Ok lock, d1)"
    and run: "(case body d1 of (r, d') \<Rightarrow> (r, snd (ignoring (remove_disk_file ConnectorInternal lock) d'))) = (Ok x, d')"
    unfolding with_lock_def by (elim bind_OkE) (rule that)
  from run obtain d2 where body: "body d1 = (Ok x, d2)" and gone: "snd (ignoring (remove_disk_file ConnectorInternal lock) d2) = d'"
    by (cases "body d1") auto
  from lock_acquire_Ok [OF lock] have here: "lock = lock_path_for target" "cd_files d1 lock \<noteq> None" by auto
  have "cd_files d1 p = cd_files d p" if "p \<noteq> lock_path_for target" for p
    using keepsD_run [OF keeps_lock_acquire [where A = "\<lambda>p. p = lock_path_for target" and F = "cd_files d"] lock] that
    by (simp add: off_def)
  moreover have "cd_journal d' = cd_journal d2" "cd_files d' p = cd_files d2 p" if "p \<noteq> lock_path_for target" for p
    using ignoring_remove [OF gone] here(1) that by auto
  ultimately show thesis using that [OF lock_acquire_journal [OF lock] _ _ body] here
    by (metis ignoring_remove [OF gone])
qed

text \<open>A file that was there is replaced, and its old bytes are in the backup that the journal names.\<close>

definition backed_up :: "fs_env \<Rightarrow> plan_file \<Rightarrow> agent_source \<Rightarrow> string \<Rightarrow> conn_disk \<Rightarrow> conn_disk \<Rightarrow> string \<Rightarrow> bool" where
  "backed_up w file source old d d' b \<longleftrightarrow>
     (\<exists>backup_path entry n. cd_files d' backup_path = Some old \<and> backup_path \<noteq> pf_canonical_path file \<and>
       js_backups (cd_journal d') = js_backups (cd_journal d) @ [entry] \<and> be_id entry = b \<and> b = ''bak-'' @ fe_uuid w n \<and>
       backup_facts w file source backup_path old entry \<and> backup_name_ok w (pf_canonical_path file) backup_path)"

lemma apply_single_Ok:
  assumes "apply_single_file w file plan_id source now_ms d = (Ok result, d')"
  shows "cd_files d' (pf_canonical_path file) = Some (pf_merged_text file) \<and> fr_outcome result = FileApplied \<and>
    (\<forall>old. cd_files d (pf_canonical_path file) = Some old \<longrightarrow> pf_baseline_text file \<noteq> pf_merged_text file \<longrightarrow>
      (\<exists>b. fr_backup_journal_id result = Some b \<and> backed_up w file source old d d' b))"
proof -
  let ?T = "pf_canonical_path file"
  from assms [unfolded apply_single_file_def] obtain d1 d2 where
    before: "cd_journal d1 = cd_journal d" "\<And>p. p \<noteq> lock_path_for ?T \<Longrightarrow> cd_files d1 p = cd_files d p"
      "cd_files d1 (lock_path_for ?T) \<noteq> None"
    and body: "seq (revalidate_for w file)
         (bind (locked_hash w file) (\<lambda>current_hash.
           if current_hash \<noteq> pf_baseline_sha256 file
           then throw (FileChangedSincePreview (pf_baseline_sha256 file) current_hash)
           else bind (locked_backup w file plan_id source now_ms) (\<lambda>backup_id.
             seq (revalidate_for w file)
               (seq (atomic_write_with_revalidate w ?T (pf_merged_text file) (revalidate_for w file))
                 (ret \<lparr>fr_display_path = pf_display_path file, fr_outcome = FileApplied, fr_backup_journal_id = backup_id,
                    fr_applied_hash = Some (fe_sha256 w (pf_merged_text file)), fr_error_code = None, fr_message = None\<rparr>))))) d1 = (Ok result, d2)"
    and after: "cd_journal d' = cd_journal d2" "\<And>p. p \<noteq> lock_path_for ?T \<Longrightarrow> cd_files d' p = cd_files d2 p"
    by (elim with_lock_Ok) (rule that)
  from body obtain d3 hash d4 where r1: "revalidate_for w file d1 = (Ok (), d3)" and h: "locked_hash w file d3 = (Ok hash, d4)"
    and rest: "(if hash \<noteq> pf_baseline_sha256 file
           then throw (FileChangedSincePreview (pf_baseline_sha256 file) hash)
           else bind (locked_backup w file plan_id source now_ms) (\<lambda>backup_id.
             seq (revalidate_for w file)
               (seq (atomic_write_with_revalidate w ?T (pf_merged_text file) (revalidate_for w file))
                 (ret \<lparr>fr_display_path = pf_display_path file, fr_outcome = FileApplied, fr_backup_journal_id = backup_id,
                    fr_applied_hash = Some (fe_sha256 w (pf_merged_text file)), fr_error_code = None, fr_message = None\<rparr>)))) d4 = (Ok result, d2)"
    by (elim seq_OkE bind_OkE) (rule that)
  from rest have "hash = pf_baseline_sha256 file" by (auto simp: throw_def split: if_splits)
  with rest obtain backup_id d5 d6 d7 where b: "locked_backup w file plan_id source now_ms d4 = (Ok backup_id, d5)"
    and r2: "revalidate_for w file d5 = (Ok (), d6)"
    and a: "atomic_write_with_revalidate w ?T (pf_merged_text file) (revalidate_for w file) d6 = (Ok (), d7)"
    and res: "fr_outcome result = FileApplied" "fr_backup_journal_id result = backup_id" "d7 = d2"
    by (auto simp: ret_def elim!: bind_OkE seq_OkE)
  note q = quietD [OF quiet_revalidate_for r1] quietD [OF quiet_locked_hash(1) h] quietD [OF quiet_revalidate_for r2]
  from atomic_write_run [OF quiet_revalidate_for a] have files: "cd_files d2 = (cd_files d5)(?T := Some (pf_merged_text file))" "cd_journal d2 = cd_journal d5"
    using q(3) res(3) by auto
  have written: "cd_files d' ?T = Some (pf_merged_text file)"
    using files(1) after(2) lock_path_differs [of ?T] by (metis fun_upd_same)
  have "\<exists>id. backup_id = Some id \<and> backed_up w file source old d d' id"
    if old: "cd_files d ?T = Some old" and change: "pf_baseline_text file \<noteq> pf_merged_text file" for old
  proof -
    have "cd_files d4 ?T = Some old" using q(1,2) before(2) lock_path_differs [of ?T] old by metis
    with change b obtain id d8 where id: "backup_id = Some id"
      and c: "revalidate_for w file d4 = (Ok (), d8)" "create_backup w file plan_id source now_ms (revalidate_for w file) d8 = (Ok id, d5)"
      by (auto simp: locked_backup_def disk_files_def gets_def path_exists_def ret_def bind_Ok elim!: seq_OkE bind_OkE)
    from quietD [OF quiet_revalidate_for c(1)] q(1,2) have d8: "cd_files d8 = cd_files d1" "cd_journal d8 = cd_journal d1" by simp_all
    from create_backup_Ok [OF quiet_revalidate_for c(2)] obtain backup_path old' entry n where
      bk: "cd_files d8 ?T = Some old'" "cd_files d8 backup_path = None" "cd_files d5 = (cd_files d8)(backup_path := Some old')"
        "js_backups (cd_journal d5) = js_backups (cd_journal d8) @ [entry]" "be_id entry = id" "id = ''bak-'' @ fe_uuid w n"
        "backup_facts w file source backup_path old' entry" "backup_name_ok w ?T backup_path" by blast
    have same: "old' = old" using bk(1) d8(1) before(2) lock_path_differs [of ?T] old by (metis option.inject)
    have apart: "backup_path \<noteq> lock_path_for ?T" "backup_path \<noteq> ?T" using bk(1,2) d8(1) before(3) by auto
    have "cd_files d' backup_path = Some old" using after(2) [OF apart(1)] files(1) apart(2) bk(3) same by simp
    moreover have "js_backups (cd_journal d') = js_backups (cd_journal d) @ [entry]" using after(1) files(2) bk(4) d8(2) before(1) by simp
    ultimately show ?thesis using id bk(5-8) same apart(2) unfolding backed_up_def by blast
  qed
  with written res show ?thesis by simp
qed

section \<open>From the label of a backup to its file\<close>

lemma path_name_free: "path_file_name path = Some n \<Longrightarrow> CHR ''/'' \<notin> set n"
proof -
  assume "path_file_name path = Some n"
  then have "n = after_last (CHR ''/'') path" by (simp add: path_file_name_def Let_def split: if_splits)
  then show ?thesis by (auto simp: after_last_def dest: set_takeWhileD)
qed

lemma after_last_join: "CHR ''/'' \<notin> set n \<Longrightarrow> after_last (CHR ''/'') (path_join dir n) = n"
proof (cases "dir = []")
  case False
  assume free: "CHR ''/'' \<notin> set n"
  show ?thesis
  proof (cases "last dir = CHR ''/''")
    case True
    with False obtain base where "dir = base @ [CHR ''/'']" by (metis append_butlast_last_id)
    with after_last_append [OF free, of base] show ?thesis by (simp add: path_join_def)
  next
    case False
    with \<open>dir \<noteq> []\<close> after_last_append [OF free, of dir] show ?thesis by (simp add: path_join_def)
  qed
qed (simp add: path_join_def after_last_free)

lemma after_last_label: "CHR ''/'' \<notin> set n \<Longrightarrow> after_last (CHR ''/'') (backup_label file n) = n"
  using after_last_append [of "CHR ''/''" n "''~''"] after_last_append [of "CHR ''/''" n] after_last_free [of "CHR ''/''" n]
  by (auto simp: backup_label_def split: option.split)

lemma infer_backup_path_label:
  assumes "backup_name_ok w target backup_path" and "path_file_name target \<noteq> None"
    and "\<And>n. CHR ''/'' \<notin> set (fe_uuid w n)" and "\<And>t x. fe_timestamp w t = Some x \<Longrightarrow> CHR ''/'' \<notin> set x"
  shows "infer_backup_path target (backup_label file (case path_file_name backup_path of Some n \<Rightarrow> n | None \<Rightarrow> dflt)) = backup_path"
proof -
  from assms(1,2) obtain name dir n now_ms where name: "path_file_name target = Some name" and dir: "path_parent target = Some dir"
    and path: "backup_path = path_join dir (name @ ''.llm-notch.bak.'' @ backup_timestamp w now_ms @ ''.'' @ fe_uuid w n)"
    unfolding backup_name_ok_def by (auto dest!: secure_backup_path_Ok)
  let ?n = "name @ ''.llm-notch.bak.'' @ backup_timestamp w now_ms @ ''.'' @ fe_uuid w n"
  have "CHR ''/'' \<notin> set (backup_timestamp w now_ms)"
    using assms(4) [of now_ms] by (auto simp: backup_timestamp_def split: option.splits)
  with assms(3) path_name_free [OF name] have free: "CHR ''/'' \<notin> set ?n" by auto
  have "length ?n > 2" by simp
  then have "?n \<noteq> []" "?n \<noteq> ''..''" by auto
  with after_last_join [OF free, of dir] have "path_file_name backup_path = Some ?n"
    unfolding path path_file_name_def Let_def by (simp del: append.simps)
  with after_last_label [OF free] name dir show ?thesis
    unfolding infer_backup_path_def with_file_name_def by (simp add: path del: append.simps)
qed

section \<open>Whole plans\<close>

lemma record_apply_Ok: "record_apply w entry d = (Ok (), d') \<Longrightarrow> cd_files d' = cd_files d \<and> js_backups (cd_journal d') = js_backups (cd_journal d)"
  unfolding record_apply_def by (auto simp: op_basic_defs dest!: persist_run elim!: seq_OkE)

lemma apply_plan_Ok:
  assumes "apply_plan w plan now_ms capabilities d = (Ok result, d')" and "sp_files plan = [file]"
    and "pf_baseline_text file \<noteq> pf_merged_text file"
  shows "cd_files d' (pf_canonical_path file) = Some (pf_merged_text file)"
    and "cd_files d (pf_canonical_path file) = Some old \<Longrightarrow>
      \<exists>b. fr_backup_journal_id (hd (ar_file_results result)) = Some b \<and> backed_up w file (sp_source plan) old d d' b"
proof -
  from assms(1,2) obtain d1 results d2 uuid d3 entry where pre: "for_each (preflight w) [file] d = (Ok (), d1)"
    and run: "apply_files w (sp_plan_id plan) (sp_source plan) now_ms [file] [] [] d1 = (Ok results, d2)"
    and u: "new_uuid w d2 = (Ok uuid, d3)" and j: "record_apply w entry d3 = (Ok (), d')"
    and result: "ar_file_results result = results"
    unfolding apply_plan_def Let_def
    by (simp del: for_each.simps apply_files.simps) (elim seq_OkE bind_OkE, auto simp: ret_def simp del: for_each.simps apply_files.simps)
  from run assms(3) obtain one where one: "apply_single_file w file (sp_plan_id plan) (sp_source plan) now_ms d1 = (Ok one, d2)" "results = [one]"
    by (auto simp: ret_def seq_def bind_def throw_def split: prod.splits outcome.splits)
  have same: "cd_files d1 = cd_files d" "cd_journal d1 = cd_journal d"
    using quietD [OF quiet_for_each [OF quiet_preflight] pre] by simp_all
  have late: "cd_files d' = cd_files d2" "js_backups (cd_journal d') = js_backups (cd_journal d2)"
    using quietD [OF quiet_uuid u] record_apply_Ok [OF j] by simp_all
  note facts = apply_single_Ok [OF one(1)]
  from facts late show "cd_files d' (pf_canonical_path file) = Some (pf_merged_text file)" by simp
  assume "cd_files d (pf_canonical_path file) = Some old"
  with facts same assms(3) obtain b where "fr_backup_journal_id one = Some b" "backed_up w file (sp_source plan) old d1 d2 b" by auto
  with one(2) result same late show "\<exists>b. fr_backup_journal_id (hd (ar_file_results result)) = Some b \<and> backed_up w file (sp_source plan) old d d' b"
    unfolding backed_up_def by simp
qed

section \<open>Rolling back\<close>

lemma find_fresh: "(\<And>e. e \<in> set xs \<Longrightarrow> \<not> p e) \<Longrightarrow> p x \<Longrightarrow> List.find p (xs @ [x]) = Some x"
  by (induction xs) auto

lemma text_or_empty_Ok:
  assumes "text_or_empty path d = (Ok text_read, d')" and "cd_files d path = Some c"
  shows "text_read = c \<or> text_read = []"
  using assms unfolding text_or_empty_def or_default_def read_to_string_def
  by (auto simp: bind_def op_basic_defs split: prod.splits outcome.splits if_splits dest!: read_file_Ok)

lemma quiet_text_or_empty [quiet_intros]: "quiet (text_or_empty path)"
  unfolding text_or_empty_def by (intro quiet_intros)

lemma sha256_file_Ok: "sha256_file w wrap path d = (Ok hash, d') \<Longrightarrow> cd_files d path = Some c \<Longrightarrow> hash = fe_sha256 w c"
  unfolding sha256_file_def by (auto simp: ret_def dest: read_file_Ok elim!: bind_OkE)

lemma exact_restore_Ok:
  assumes "build_exact_restore_preview w backup b display T hash new root_dir relative now_ms d = (Ok (p, plan), d')"
    and "cd_files d T = Some c"
  shows "\<exists>f. sp_files plan = [f] \<and> pf_canonical_path f = T \<and> pf_merged_text f = new \<and> pf_baseline_text f \<in> {c, []} \<and>
    sp_source plan = be_source backup \<and> cd_files d' = cd_files d \<and> cd_journal d' = cd_journal d"
proof -
  from assms(1) obtain shown d1 plan_id d2 baseline where s: "text_or_empty T d = (Ok shown, d1)"
    and u: "new_plan_id w d1 = (Ok plan_id, d2)" and b: "text_or_empty T d2 = (Ok baseline, d')"
    and plan: "sp_files plan = [\<lparr>pf_scope_canonical = sr_canonical root_dir, pf_relative_path = relative,
                pf_canonical_path = T, pf_display_path = display, pf_baseline_sha256 = hash,
                pf_baseline_text = baseline, pf_merged_text = new, pf_foreign_entries_preserved = [],
                pf_is_new_file = False, pf_backup_display_path = be_backup_display_path backup\<rparr>]" "sp_source plan = be_source backup"
    unfolding build_exact_restore_preview_def Let_def by (auto simp: ret_def elim!: bind_OkE)
  have "quiet (new_plan_id w)" unfolding new_plan_id_def by (intro quiet_intros)
  note q = quietD [OF quiet_text_or_empty s] quietD [OF this u] quietD [OF quiet_text_or_empty b]
  from text_or_empty_Ok [OF b] q assms(2) have "baseline \<in> {c, []}" by auto
  with plan q show ?thesis by simp
qed

text \<open>What is documented of UUIDs and of the time format: no slashes, and a new UUID is in no entry of the journal.\<close>

definition unique_names :: "fs_env \<Rightarrow> conn_disk \<Rightarrow> bool" where
  "unique_names w d \<longleftrightarrow>
     (\<forall>n. CHR ''/'' \<notin> set (fe_uuid w n) \<and> (\<forall>e\<in>set (js_backups (cd_journal d)). be_id e \<noteq> ''bak-'' @ fe_uuid w n)) \<and>
     (\<forall>ms x. fe_timestamp w ms = Some x \<longrightarrow> CHR ''/'' \<notin> set x)"

lemma rollback_plan:
  assumes backed: "backed_up w file source old d d1 b"
    and unique: "unique_names w d" and named: "path_file_name (pf_canonical_path file) \<noteq> None"
    and here: "cd_files d1 (pf_canonical_path file) = Some (pf_merged_text file)"
    and adapter: "registry_adapter (cc_integrations_root config) source = Some a"
    and resolves: "fst (resolve_in_scope w root_dir (tf_relative_path (ad_user_target a)) d1) = Ok (pf_canonical_path file)"
    and run: "preview_rollback w t config b root_dir now_ms d1 = (Ok (p, plan), d2)"
  shows "\<exists>f. sp_files plan = [f] \<and> pf_canonical_path f = pf_canonical_path file \<and> pf_merged_text f = te_lossy t old \<and>
    pf_baseline_text f \<in> {pf_merged_text file, []} \<and> cd_files d2 = cd_files d1"
proof -
  let ?T = "pf_canonical_path file"
  from backed obtain backup_path entry n where old: "cd_files d1 backup_path = Some old"
    and j: "js_backups (cd_journal d1) = js_backups (cd_journal d) @ [entry]" "be_id entry = b" "b = ''bak-'' @ fe_uuid w n"
    and facts: "backup_facts w file source backup_path old entry" and nm: "backup_name_ok w ?T backup_path"
    unfolding backed_up_def by blast
  have found: "List.find (\<lambda>e. be_id e = b) (js_backups (cd_journal d1)) = Some entry"
    unfolding j(1) by (rule find_fresh) (use unique j(2,3) in \<open>auto simp: unique_names_def\<close>)
  have infer: "infer_backup_path ?T (be_backup_display_path entry) = backup_path"
    using infer_backup_path_label [OF nm named] unique facts by (simp add: backup_facts_def unique_names_def)
  have "quiet (resolve_in_scope w root_dir rel)" for rel unfolding resolve_in_scope_def by (intro quiet_intros)
  then obtain d3 where res: "resolve_in_scope w root_dir (tf_relative_path (ad_user_target a)) d1 = (Ok ?T, d3)"
    and d3: "cd_files d3 = cd_files d1" by (metis prod.collapse resolves quietD)
  have src: "be_source entry = source" using facts by (simp add: backup_facts_def)
  have rel: "target_for a ScopeUser = ad_user_target a" by (simp add: target_for_def)
  have "preview_rollback w t config b root_dir now_ms d1 =
      bind (rollback_current_hash w ?T) (\<lambda>hash. bind disk_files (\<lambda>files.
        if \<not> path_exists w files backup_path then throw (ConnectorNotFound ''backup file missing'')
        else bind (read_and_hash w (internal ''read backup failed'') backup_path)
          (rollback_from w t config a entry b root_dir now_ms ?T hash))) d3"
    using adapter src by (simp add: preview_rollback_def find_backup_def found gets_def bind_Ok rel res infer Let_def cong: if_cong)
  with run obtain hash d4 content d5 where h: "rollback_current_hash w ?T d3 = (Ok hash, d4)"
    and r: "read_and_hash w (internal ''read backup failed'') backup_path d4 = (Ok content, d5)"
    and rest: "rollback_from w t config a entry b root_dir now_ms ?T hash content d5 = (Ok (p, plan), d2)"
    by (auto simp: disk_files_def gets_def bind_Ok throw_def elim!: bind_OkE split: if_splits)
  have "quiet (rollback_current_hash w ?T)" unfolding rollback_current_hash_def by (intro quiet_intros)
  with d3 quietD h have q4: "cd_files d4 = cd_files d1" by metis
  have q5: "cd_files d5 = cd_files d1" using q4 quietD [OF quiet_hashes(2) r] by simp
  have "hash = fe_sha256 w (pf_merged_text file)"
    using h here d3 by (auto simp: rollback_current_hash_def disk_files_def gets_def bind_Ok path_exists_def dest!: sha256_file_Ok)
  with facts have exact: "be_applied_hash entry = Some hash" by (simp add: backup_facts_def)
  from r have "read_and_hash w (internal ''read backup failed'') backup_path d4 = (Ok (fst content, snd content), d5)" by simp
  with read_and_hash_Ok q4 old have content: "fst content = old" "snd content = fe_sha256 w old" by fastforce+
  from rest exact content facts have "build_exact_restore_preview w entry b (scope_display_path root_dir (tf_relative_path (ad_user_target a))) ?T hash
               (te_lossy t old) root_dir (tf_relative_path (ad_user_target a)) now_ms d5 = (Ok (p, plan), d2)"
    by (simp add: backup_facts_def rollback_from_def rel Let_def)
  from exact_restore_Ok [OF this] here q5 show ?thesis by fastforce
qed

text \<open>
  (C9) Applying a plan is atomic and confined, whatever fails: after \<open>apply_plan\<close> on a plan for one
  file, with any outcome and any schedule of failing system calls, the target is either as before
  or holds the planned text, the latter only if the bytes it had carry the hash of the preview; and
  every other file is untouched unless it is the lock, a temporary file or a backup beside the target.
\<close>

theorem apply_is_atomic_and_confined:
  assumes "apply_plan w plan now_ms capabilities d = (r, d')" and "sp_files plan = [file]"
    and "\<not> side_file (pf_canonical_path file) (pf_canonical_path file)"
  shows "(cd_files d' (pf_canonical_path file) = cd_files d (pf_canonical_path file) \<or>
      cd_files d' (pf_canonical_path file) = Some (pf_merged_text file) \<and>
        (\<forall>c. cd_files d (pf_canonical_path file) = Some c \<longrightarrow> fe_sha256 w c = pf_baseline_sha256 file)) \<and>
    (\<forall>p. p \<noteq> pf_canonical_path file \<longrightarrow> \<not> side_file (pf_canonical_path file) p \<longrightarrow> cd_files d' p = cd_files d p)"
proof
  have "replaced w file (cd_files d) d'"
    using ends_apply_plan [OF assms(2,3), of "cd_files d" w now_ms capabilities] assms(1)
    unfolding ends_in_def holds_iff by (metis snd_conv)
  then show "cd_files d' (pf_canonical_path file) = cd_files d (pf_canonical_path file) \<or>
      cd_files d' (pf_canonical_path file) = Some (pf_merged_text file) \<and>
        (\<forall>c. cd_files d (pf_canonical_path file) = Some c \<longrightarrow> fe_sha256 w c = pf_baseline_sha256 file)"
    by (simp add: replaced_def)
  have "off (written_by (sp_files plan)) (cd_files d) d'"
    by (rule keepsD_run [OF keeps_apply_plan assms(1)]) (simp add: off_def)
  then show "\<forall>p. p \<noteq> pf_canonical_path file \<longrightarrow> \<not> side_file (pf_canonical_path file) p \<longrightarrow> cd_files d' p = cd_files d p"
    by (simp add: off_def written_by_def assms(2))
qed

text \<open>
  (C8) A rollback restores the file byte for byte: when a plan over an existing file was applied, the
  result names a backup; when the rollback of that backup is previewed on the disk the plan left
  and the new plan is applied, both with \<open>Ok\<close> whatever else failed or was retried, the target holds exactly the bytes it had.
\<close>

theorem rollback_restores_the_file:
  assumes "apply_plan w plan now_ms capabilities d = (Ok result, d1)" and "sp_files plan = [file]"
    and "cd_files d (pf_canonical_path file) = Some (pf_baseline_text file)"
    and "pf_baseline_text file \<noteq> pf_merged_text file" and "pf_baseline_text file \<noteq> []"
    and "unique_names w d" and "path_file_name (pf_canonical_path file) \<noteq> None"
    and "te_lossy t (pf_baseline_text file) = pf_baseline_text file"
    and "registry_adapter (cc_integrations_root config) (sp_source plan) = Some a"
    and "fst (resolve_in_scope w root_dir (tf_relative_path (ad_user_target a)) d1) = Ok (pf_canonical_path file)"
    and "fr_backup_journal_id (hd (ar_file_results result)) = Some b"
    and "preview_rollback w t config b root_dir later_ms d1 = (Ok (p, plan'), d2)"
    and "apply_plan w plan' apply_ms capabilities' d2 = (Ok result', d3)"
  shows "cd_files d3 (pf_canonical_path file) = Some (pf_baseline_text file)"
proof -
  from apply_plan_Ok(2) [OF assms(1,2,4,3)] assms(11)
  have backed: "backed_up w file (sp_source plan) (pf_baseline_text file) d d1 b" by auto
  note written = apply_plan_Ok(1) [OF assms(1,2,4)]
  from rollback_plan [OF backed assms(6,7) written assms(9,10,12)] assms(8)
  obtain f where f: "sp_files plan' = [f]" "pf_canonical_path f = pf_canonical_path file" "pf_merged_text f = pf_baseline_text file"
    "pf_baseline_text f \<in> {pf_merged_text file, []}" by auto
  then have "pf_baseline_text f \<noteq> pf_merged_text f" using assms(4,5) by auto
  from apply_plan_Ok(1) [OF assms(13) f(1) this] f show ?thesis by simp
qed

end
