(* ===== verification/Connector_Progress.thy ===== *)
theory Connector_Progress
  imports Connector_Rollback
begin

text \<open>
  Runs without failures: on a file system without links, with no lock held and no system call
  failing, a plan that is still valid is applied, and the result is the planned text.
\<close>

named_theorems calm_runs \<open>operations on a disk on which no call fails\<close>

section \<open>Checks pass\<close>

definition plain_fs :: "fs_env \<Rightarrow> bool" where
  "plain_fs w \<longleftrightarrow>
     (\<forall>files p. fe_lstat w files p \<in> {LstatMissing, LstatNode RegularNode, LstatNode DirectoryNode}) \<and>
     (\<forall>files p. fe_nlink w files p \<le> 1) \<and>
     (\<forall>files p. fe_canonicalize w files p = CanonPath p \<or> (\<exists>m. fe_canonicalize w files p = CanonMissing m))"

fun join_parts :: "string \<Rightarrow> path_component list \<Rightarrow> string" where
  "join_parts current [] = current"
| "join_parts current (Normal part # cs) = join_parts (path_join current part) cs"
| "join_parts current (c # cs) = join_parts current cs"

definition target_in :: "fs_env \<Rightarrow> string \<Rightarrow> string \<Rightarrow> string \<Rightarrow> bool" where
  "target_in w base relative target \<longleftrightarrow>
     (\<forall>files. fe_canonicalize w files base = CanonPath base) \<and> \<not> is_absolute_path relative \<and>
     \<not> list_ex rejected_component (path_components relative) \<and>
     join_parts base (path_components relative) = target \<and> path_starts_with target base"

lemma sys_call_calm [calm_runs]: "cd_faults d = [] \<Longrightarrow> sys_call wrap d = (Ok (), d)"
  by (simp add: sys_call_def)

lemma disk_files_calm [calm_runs]: "disk_files d = (Ok (cd_files d), d)"
  by (simp add: disk_files_def gets_def)

lemma lstat_calm [calm_runs]: "plain_fs w \<Longrightarrow> lstat_component w path d = (Ok (), d)"
proof -
  assume "plain_fs w"
  then have "fe_lstat w (cd_files d) path \<in> {LstatMissing, LstatNode RegularNode, LstatNode DirectoryNode}"
    by (simp add: plain_fs_def)
  then show ?thesis by (auto simp: lstat_component_def bind_Ok [OF disk_files_calm] ret_def)
qed

lemma lstat_parts_calm [calm_runs]: "plain_fs w \<Longrightarrow> lstat_parts w current cs d = (Ok (join_parts current cs), d)"
  by (induction w current cs rule: lstat_parts.induct) (auto simp: ret_def seq_Ok lstat_calm)

lemma canonical_or_calm: "plain_fs w \<Longrightarrow> canonical_or w files path = path"
  unfolding plain_fs_def canonical_or_def by (metis canon_answer.simps(10,11))

lemma validate_calm [calm_runs]:
  assumes "plain_fs w" and "target_in w base relative target"
  shows "validate_under_root w base relative d = (Ok target, d)"
proof -
  have base: "canonicalize_root w base d = (Ok base, d)"
    using assms(2) by (simp add: canonicalize_root_def bind_Ok [OF disk_files_calm] target_in_def ret_def)
  have parts: "lstat_parts w base (path_components relative) d = (Ok target, d)"
    using lstat_parts_calm [OF assms(1)] assms(2) by (simp add: target_in_def)
  consider "fe_canonicalize w (cd_files d) target = CanonPath target" | m where "fe_canonicalize w (cd_files d) target = CanonMissing m"
    using assms(1) unfolding plain_fs_def by blast
  then show ?thesis
    using assms(2) by cases (simp_all add: validate_under_root_def bind_Ok seq_Ok base parts disk_files_calm target_in_def ret_def)
qed

lemma hardlink_calm [calm_runs]: "plain_fs w \<Longrightarrow> cd_faults d = [] \<Longrightarrow> reject_hardlink w path d = (Ok (), d)"
  by (simp add: reject_hardlink_def bind_Ok seq_Ok disk_files_calm sys_call_calm ret_def plain_fs_def not_less [symmetric])

lemma parent_chain_calm [calm_runs]: "plain_fs w \<Longrightarrow> assert_parent_chain_safe w path d = (Ok (), d)"
proof (induction w path rule: assert_parent_chain_safe.induct)
  case (1 w path)
  have step: "bind disk_files (\<lambda>files. if path_exists w files dir then lstat_component w dir else ret ()) d = (Ok (), d)" for dir
    using 1(2) by (simp add: bind_Ok [OF disk_files_calm] lstat_calm ret_def)
  show ?case
  proof (cases "path_parent path")
    case None
    then show ?thesis by (subst assert_parent_chain_safe.simps) (simp add: ret_def)
  next
    case (Some dir)
    with 1 step show ?thesis by (subst assert_parent_chain_safe.simps) (simp add: ret_def seq_Ok step)
  qed
qed

definition target_ok :: "fs_env \<Rightarrow> plan_file \<Rightarrow> bool" where
  "target_ok w file \<longleftrightarrow> plain_fs w \<and> target_in w (pf_scope_canonical file) (pf_relative_path file) (pf_canonical_path file)"

lemma revalidate_calm [calm_runs]: "target_ok w file \<Longrightarrow> cd_faults d = [] \<Longrightarrow> revalidate_for w file d = (Ok (), d)"
proof -
  assume ok: "target_ok w file" and calm: "cd_faults d = []"
  then have "plain_fs w" "validate_under_root w (pf_scope_canonical file) (pf_relative_path file) d = (Ok (pf_canonical_path file), d)"
    by (simp_all add: target_ok_def validate_calm)
  with calm have "revalidate_locked_target w (pf_scope_canonical file) (pf_relative_path file) (pf_canonical_path file) d =
      (Ok (pf_canonical_path file), d)"
    by (simp add: revalidate_locked_target_def bind_Ok seq_Ok disk_files_calm canonical_or_calm parent_chain_calm hardlink_calm ret_def)
  then show ?thesis by (simp add: revalidate_for_def bind_Ok ret_def)
qed

section \<open>Files\<close>

definition with_files :: "files \<Rightarrow> conn_disk \<Rightarrow> conn_disk" where
  "with_files files d = d\<lparr>cd_files := files\<rparr>"

lemma with_files_simps [simp]:
  "cd_files (with_files F d) = F" "cd_faults (with_files F d) = cd_faults d" "cd_journal (with_files F d) = cd_journal d"
  "cd_uuids (with_files F d) = cd_uuids d" "cd_journal_file (with_files F d) = cd_journal_file d"
  "with_files F (with_files G d) = with_files F d" "with_files (cd_files d) d = d"
  by (simp_all add: with_files_def)

lemma read_calm [calm_runs]: "cd_faults d = [] \<Longrightarrow> cd_files d path = Some c \<Longrightarrow> read_file wrap path d = (Ok c, d)"
  by (simp add: read_file_def seq_Ok [OF sys_call_calm] bind_Ok [OF disk_files_calm] ret_def)

lemma hash_calm [calm_runs]:
  "cd_faults d = [] \<Longrightarrow> cd_files d path = Some c \<Longrightarrow> read_and_hash w wrap path d = (Ok (c, fe_sha256 w c), d)"
  "cd_faults d = [] \<Longrightarrow> cd_files d path = Some c \<Longrightarrow> sha256_file w wrap path d = (Ok (fe_sha256 w c), d)"
  by (simp_all add: read_and_hash_def sha256_file_def bind_Ok [OF read_calm] ret_def)

lemma create_calm [calm_runs]:
  "cd_faults d = [] \<Longrightarrow> cd_files d path = None \<Longrightarrow>
   create_new_file wrap taken path d = (Ok (), with_files ((cd_files d)(path := Some [])) d)"
  by (simp add: create_new_file_def seq_Ok [OF sys_call_calm] bind_Ok [OF disk_files_calm] set_file_def modify_def with_files_def)

lemma write_calm [calm_runs]:
  "cd_faults d = [] \<Longrightarrow> write_file wrap path c d = (Ok (), with_files ((cd_files d)(path := Some c)) d)"
  by (simp add: write_file_def seq_Ok [OF sys_call_calm] set_file_def modify_def with_files_def)

lemma remove_calm [calm_runs]:
  "cd_faults d = [] \<Longrightarrow> ignoring (remove_disk_file wrap path) d = (Ok (), with_files ((cd_files d)(path := None)) d)"
  by (simp add: ignoring_def remove_disk_file_def seq_Ok [OF sys_call_calm] set_file_def modify_def with_files_def)

lemma replace_calm [calm_runs]:
  "cd_faults d = [] \<Longrightarrow> cd_files d source = Some c \<Longrightarrow>
   durable_replace w source target d = (Ok (), with_files ((cd_files d)(source := None, target := Some c)) d)"
  by (simp add: durable_replace_def rename_disk_file_def seq_Ok bind_Ok sys_call_calm disk_files_calm set_file_def
      modify_def with_files_def)

lemma exclusive_calm [calm_runs]:
  "cd_faults d = [] \<Longrightarrow> cd_files d path = None \<Longrightarrow>
   write_exclusive_file path c d = (Ok (), with_files ((cd_files d)(path := Some c)) d)"
  by (simp add: write_exclusive_file_def seq_Ok [OF create_calm] seq_Ok [OF write_calm] sys_call_calm)

lemma lock_calm [calm_runs]:
  "cd_faults d = [] \<Longrightarrow> cd_files d (lock_path_for target) = None \<Longrightarrow>
   lock_acquire w target d = (Ok (lock_path_for target),
     with_files ((cd_files d)(lock_path_for target := Some (''pid='' @ dec_string (fe_pid w) @ [CHR 0x0A]))) d)"
proof -
  assume calm: "cd_faults d = []" and free: "cd_files d (lock_path_for target) = None"
  have first: "(if path_parent (lock_path_for target) = None then ret () else sys_call (internal ''cannot create lock parent'')) d = (Ok (), d)"
    using calm by (simp add: ret_def sys_call_calm)
  have second: "bind disk_files (\<lambda>files. if files (lock_path_for target) \<noteq> None \<and> fe_lock_stale w (lock_path_for target)
            then ignoring (remove_disk_file ConnectorInternal (lock_path_for target)) else ret ()) d = (Ok (), d)"
    using free by (simp add: bind_Ok [OF disk_files_calm] ret_def)
  show ?thesis
    using calm free
    by (simp add: lock_acquire_def Let_def seq_Ok first second create_calm sys_call_calm write_calm ret_def del: not_None_eq)
qed

lemma atomic_calm:
  assumes "target_ok w file" and "cd_faults d = []" and "path_parent (pf_canonical_path file) = Some dir"
    and "cd_files d (temp_path_of dir (fe_uuid w (cd_uuids d))) = None"
  shows "atomic_write_with_revalidate w (pf_canonical_path file) c (revalidate_for w file) d =
    (Ok (), d\<lparr>cd_files := (cd_files d)(pf_canonical_path file := Some c), cd_uuids := Suc (cd_uuids d)\<rparr>)"
proof -
  let ?d = "d\<lparr>cd_uuids := Suc (cd_uuids d)\<rparr>"
  have uuid: "new_uuid w d = (Ok (fe_uuid w (cd_uuids d)), ?d)" by (simp add: new_uuid_def)
  have again: "revalidate_for w file e = (Ok (), e)" if "cd_faults e = []" for e
    using revalidate_calm [OF assms(1) that] .
  from assms(2-) show ?thesis
    by (simp add: atomic_write_with_revalidate_def seq_Ok bind_Ok sys_call_calm uuid Let_def temp_path_of_def
        create_calm write_calm replace_calm again)
      (auto simp: with_files_def fun_eq_iff)
qed

section \<open>Applying a plan\<close>

definition put_journal :: "journal_store \<Rightarrow> conn_disk \<Rightarrow> conn_disk" where
  "put_journal j d = d\<lparr>cd_journal := j, cd_journal_file := Some (Some j), cd_uuids := Suc (cd_uuids d)\<rparr>"

lemma put_journal_simps [simp]:
  "cd_files (put_journal j d) = cd_files d" "cd_faults (put_journal j d) = cd_faults d" "cd_journal (put_journal j d) = j"
  "cd_uuids (put_journal j d) = Suc (cd_uuids d)"
  by (simp_all add: put_journal_def)

lemma journal_calm [calm_runs]:
  assumes "cd_faults d = []"
  shows "record_backup w entry d = (Ok (be_id entry), put_journal ((cd_journal d)\<lparr>js_backups := js_backups (cd_journal d) @ [entry]\<rparr>) d)"
    and "record_apply w entry' d = (Ok (), put_journal ((cd_journal d)\<lparr>js_applies := js_applies (cd_journal d) @ [entry']\<rparr>) d)"
proof -
  have persist: "persist_journal w e = (Ok (), put_journal (cd_journal e) e)" if "cd_faults e = []" for e
    using that by (simp add: persist_journal_def new_uuid_def bind_Ok seq_Ok sys_call_calm gets_def modify_def put_journal_def)
  show "record_backup w entry d = (Ok (be_id entry), put_journal ((cd_journal d)\<lparr>js_backups := js_backups (cd_journal d) @ [entry]\<rparr>) d)"
    "record_apply w entry' d = (Ok (), put_journal ((cd_journal d)\<lparr>js_applies := js_applies (cd_journal d) @ [entry']\<rparr>) d)"
    using assms persist by (simp_all add: record_backup_def record_apply_def seq_Ok modify_def ret_def) (simp_all add: put_journal_def)
qed

definition backup_path_for :: "fs_env \<Rightarrow> plan_file \<Rightarrow> int \<Rightarrow> nat \<Rightarrow> string" where
  "backup_path_for w file now_ms n =
     (case path_parent (pf_canonical_path file) of
        None \<Rightarrow> []
      | Some dir \<Rightarrow> path_join dir ((case path_file_name (pf_canonical_path file) of Some n \<Rightarrow> n | None \<Rightarrow> ''file'') @
          ''.llm-notch.bak.'' @ backup_timestamp w now_ms @ ''.'' @ fe_uuid w n))"

definition backup_journal :: "fs_env \<Rightarrow> plan_file \<Rightarrow> string \<Rightarrow> agent_source \<Rightarrow> int \<Rightarrow> string \<Rightarrow> conn_disk \<Rightarrow> journal_store" where
  "backup_journal w file plan_id source now_ms old d =
     (cd_journal d)\<lparr>js_backups := js_backups (cd_journal d) @
       [backup_entry_of w file plan_id source now_ms (backup_path_for w file now_ms (cd_uuids d)) (fe_sha256 w old) (fe_uuid w (Suc (cd_uuids d)))]\<rparr>"

lemma backup_calm:
  assumes "target_ok w file" and "cd_faults d = []" and "path_parent (pf_canonical_path file) = Some dir"
    and "cd_files d (pf_canonical_path file) = Some old" and "cd_files d (backup_path_for w file now_ms (cd_uuids d)) = None"
  shows "create_backup w file plan_id source now_ms (revalidate_for w file) d =
    (Ok (''bak-'' @ fe_uuid w (Suc (cd_uuids d))),
     d\<lparr>cd_files := (cd_files d)(backup_path_for w file now_ms (cd_uuids d) := Some old),
       cd_journal := backup_journal w file plan_id source now_ms old d,
       cd_journal_file := Some (Some (backup_journal w file plan_id source now_ms old d)), cd_uuids := cd_uuids d + 3\<rparr>)"
proof -
  let ?b = "backup_path_for w file now_ms (cd_uuids d)"
  have again: "revalidate_for w file e = (Ok (), e)" if "cd_faults e = []" for e
    using revalidate_calm [OF assms(1) that] .
  have "plain_fs w" using assms(1) by (simp add: target_ok_def)
  then have path: "secure_backup_path w (pf_canonical_path file) (backup_timestamp w now_ms) d = (Ok ?b, d\<lparr>cd_uuids := Suc (cd_uuids d)\<rparr>)"
    using assms(3) by (simp add: secure_backup_path_def seq_Ok parent_chain_calm Let_def bind_Ok new_uuid_def ret_def backup_path_for_def)
  have id: "be_id (backup_entry_of w file plan_id source now_ms p h u) = ''bak-'' @ u" for p h u
    by (simp add: backup_entry_of_def Let_def)
  show ?thesis
    using assms(2,4,5)
    by (simp add: create_backup_def seq_Ok bind_Ok again path hash_calm(1) exclusive_calm new_uuid_def journal_calm(1) id)
      (simp add: put_journal_def with_files_def backup_journal_def eval_nat_numeral)
qed

text \<open>Nothing stands in the way: no failing call, the lock is free, and the names to be used are unused.\<close>

definition clear_way :: "fs_env \<Rightarrow> plan_file \<Rightarrow> int \<Rightarrow> conn_disk \<Rightarrow> bool" where
  "clear_way w file now_ms d \<longleftrightarrow>
     cd_faults d = [] \<and> target_ok w file \<and> \<not> fe_is_dir w (pf_canonical_path file) \<and>
     cd_files d (lock_path_for (pf_canonical_path file)) = None \<and>
     cd_files d (backup_path_for w file now_ms (cd_uuids d)) = None \<and>
     lock_path_for (pf_canonical_path file) \<noteq> backup_path_for w file now_ms (cd_uuids d) \<and>
     (case path_parent (pf_canonical_path file) of
        None \<Rightarrow> False
      | Some dir \<Rightarrow> list_all (\<lambda>n.
          cd_files d (temp_path_of dir (fe_uuid w n)) = None \<and>
          temp_path_of dir (fe_uuid w n) \<noteq> lock_path_for (pf_canonical_path file) \<and>
          temp_path_of dir (fe_uuid w n) \<noteq> backup_path_for w file now_ms (cd_uuids d)) [cd_uuids d, cd_uuids d + 3])"

definition applied_result :: "fs_env \<Rightarrow> plan_file \<Rightarrow> string option \<Rightarrow> file_apply_result" where
  "applied_result w file b =
     \<lparr>fr_display_path = pf_display_path file, fr_outcome = FileApplied, fr_backup_journal_id = b,
      fr_applied_hash = Some (fe_sha256 w (pf_merged_text file)), fr_error_code = None, fr_message = None\<rparr>"

definition locked_disk :: "fs_env \<Rightarrow> plan_file \<Rightarrow> conn_disk \<Rightarrow> conn_disk" where
  "locked_disk w file d = with_files ((cd_files d)(lock_path_for (pf_canonical_path file) := Some (''pid='' @ dec_string (fe_pid w) @ [CHR 0x0A]))) d"

lemma single_calm_from:
  assumes "clear_way w file now_ms d" and "path_parent (pf_canonical_path file) = Some dir"
    and "\<And>c. cd_files d (pf_canonical_path file) = Some c \<Longrightarrow> fe_sha256 w c = pf_baseline_sha256 file"
    and backup: "locked_backup w file plan_id source now_ms (locked_disk w file d) = (Ok b, d2)"
    and d2: "cd_faults d2 = []" "cd_files d2 (temp_path_of dir (fe_uuid w (cd_uuids d2))) = None"
  shows "apply_single_file w file plan_id source now_ms d = (Ok (applied_result w file b),
    d2\<lparr>cd_files := (cd_files d2)(pf_canonical_path file := Some (pf_merged_text file), lock_path_for (pf_canonical_path file) := None),
      cd_uuids := Suc (cd_uuids d2)\<rparr>)"
proof -
  let ?T = "pf_canonical_path file" and ?L = "lock_path_for (pf_canonical_path file)"
  let ?d1 = "locked_disk w file d"
  let ?d3 = "d2\<lparr>cd_files := (cd_files d2)(?T := Some (pf_merged_text file)), cd_uuids := Suc (cd_uuids d2)\<rparr>"
  have calm: "cd_faults d = []" "target_ok w file" "\<not> fe_is_dir w ?T" "cd_files d ?L = None"
    using assms(1) by (simp_all add: clear_way_def)
  have again: "revalidate_for w file e = (Ok (), e)" if "cd_faults e = []" for e
    using revalidate_calm [OF calm(2) that] .
  have lock: "lock_acquire w ?T d = (Ok ?L, ?d1)" unfolding locked_disk_def by (rule lock_calm [OF calm(1,4)])
  have d1: "cd_faults ?d1 = []" "cd_files ?d1 ?T = cd_files d ?T"
    using calm lock_path_differs [of ?T] by (auto simp: locked_disk_def)
  have hash: "locked_hash w file ?d1 = (Ok (pf_baseline_sha256 file), ?d1)"
    using d1 calm(3) assms(3) by (cases "cd_files d ?T")
      (simp_all add: locked_hash_def bind_Ok disk_files_calm path_exists_def ret_def hash_calm(1) bind_def)
  have replaced: "atomic_write_with_revalidate w ?T (pf_merged_text file) (revalidate_for w file) d2 = (Ok (), ?d3)"
    by (rule atomic_calm [OF calm(2) d2(1) assms(2) d2(2)])
  show ?thesis
    using d1 d2(1) by (simp add: apply_single_file_def with_lock_def bind_Ok seq_Ok lock again hash backup replaced ret_def remove_calm applied_result_def with_files_def)
qed

lemma single_calm:
  assumes "clear_way w file now_ms d"
    and "\<And>c. cd_files d (pf_canonical_path file) = Some c \<Longrightarrow> fe_sha256 w c = pf_baseline_sha256 file"
    and "pf_baseline_text file \<noteq> pf_merged_text file"
  shows "cd_files d (pf_canonical_path file) = None \<Longrightarrow>
      apply_single_file w file plan_id source now_ms d = (Ok (applied_result w file None),
        d\<lparr>cd_files := (cd_files d)(pf_canonical_path file := Some (pf_merged_text file)), cd_uuids := Suc (cd_uuids d)\<rparr>)"
    and "cd_files d (pf_canonical_path file) = Some old \<Longrightarrow>
      apply_single_file w file plan_id source now_ms d = (Ok (applied_result w file (Some (''bak-'' @ fe_uuid w (Suc (cd_uuids d))))),
        d\<lparr>cd_files := (cd_files d)(backup_path_for w file now_ms (cd_uuids d) := Some old, pf_canonical_path file := Some (pf_merged_text file)),
          cd_journal := backup_journal w file plan_id source now_ms old d,
          cd_journal_file := Some (Some (backup_journal w file plan_id source now_ms old d)), cd_uuids := cd_uuids d + 4\<rparr>)"
proof -
  let ?T = "pf_canonical_path file" and ?L = "lock_path_for (pf_canonical_path file)" and ?n = "cd_uuids d"
  let ?B = "backup_path_for w file now_ms ?n" and ?d1 = "locked_disk w file d"
  from assms(1) obtain dir where dir: "path_parent ?T = Some dir" by (auto simp: clear_way_def split: option.splits)
  have calm: "cd_faults d = []" "target_ok w file" "\<not> fe_is_dir w ?T" "cd_files d ?L = None" "cd_files d ?B = None" "?L \<noteq> ?B"
    and temp: "cd_files d (temp_path_of dir (fe_uuid w ?n)) = None" "temp_path_of dir (fe_uuid w ?n) \<noteq> ?L"
      "cd_files d (temp_path_of dir (fe_uuid w (?n + 3))) = None" "temp_path_of dir (fe_uuid w (?n + 3)) \<noteq> ?L"
      "temp_path_of dir (fe_uuid w (?n + 3)) \<noteq> ?B"
    using assms(1) dir by (simp_all add: clear_way_def)
  note differ = lock_path_differs [of ?T]
  have d1: "cd_faults ?d1 = []" "cd_uuids ?d1 = ?n" "cd_files ?d1 ?T = cd_files d ?T" "cd_files ?d1 ?B = None" "cd_journal ?d1 = cd_journal d"
    using calm differ by (auto simp: locked_disk_def)
  show "apply_single_file w file plan_id source now_ms d = (Ok (applied_result w file None),
        d\<lparr>cd_files := (cd_files d)(?T := Some (pf_merged_text file)), cd_uuids := Suc ?n\<rparr>)" if "cd_files d ?T = None"
  proof -
    have "locked_backup w file plan_id source now_ms ?d1 = (Ok None, ?d1)"
      using that d1 calm(3) by (simp add: locked_backup_def bind_Ok disk_files_calm path_exists_def ret_def)
    from single_calm_from [OF assms(1) dir assms(2) this d1(1)] temp(1,2) calm(4) differ show ?thesis
      by (simp add: locked_disk_def) (auto simp: with_files_def fun_eq_iff)
  qed
  show "apply_single_file w file plan_id source now_ms d = (Ok (applied_result w file (Some (''bak-'' @ fe_uuid w (Suc ?n)))),
        d\<lparr>cd_files := (cd_files d)(?B := Some old, ?T := Some (pf_merged_text file)),
          cd_journal := backup_journal w file plan_id source now_ms old d,
          cd_journal_file := Some (Some (backup_journal w file plan_id source now_ms old d)), cd_uuids := ?n + 4\<rparr>)" if "cd_files d ?T = Some old"
  proof -
    have "cd_files ?d1 ?T = Some old" "cd_files ?d1 (backup_path_for w file now_ms (cd_uuids ?d1)) = None" using that d1 by simp_all
    note saved = backup_calm [OF calm(2) d1(1) dir this, of plan_id source]
    have journal: "backup_journal w file plan_id source now_ms old ?d1 = backup_journal w file plan_id source now_ms old d"
      using d1 by (simp add: backup_journal_def)
    let ?d2 = "?d1\<lparr>cd_files := (cd_files ?d1)(?B := Some old),
       cd_journal := backup_journal w file plan_id source now_ms old d,
       cd_journal_file := Some (Some (backup_journal w file plan_id source now_ms old d)), cd_uuids := ?n + 3\<rparr>"
    have "locked_backup w file plan_id source now_ms ?d1 = (Ok (Some (''bak-'' @ fe_uuid w (Suc ?n))), ?d2)"
      using assms(3) that d1 saved journal
      by (simp add: locked_backup_def bind_Ok seq_Ok disk_files_calm path_exists_def ret_def revalidate_calm [OF calm(2)])
    from single_calm_from [OF assms(1) dir assms(2) this] d1(1) temp(3-5) calm(4,6) differ show ?thesis
      by (simp add: locked_disk_def) (auto simp: with_files_def fun_eq_iff)
  qed
qed

definition apply_entry_of :: "fs_env \<Rightarrow> stored_plan \<Rightarrow> int \<Rightarrow> file_apply_result \<Rightarrow> nat \<Rightarrow> apply_entry" where
  "apply_entry_of w plan now_ms result n =
     \<lparr>ae_id = ''jrnl-'' @ fe_uuid w n, ae_plan_id = sp_plan_id plan, ae_source = sp_source plan, ae_scope = sp_scope plan,
      ae_started_at_ms = now_ms, ae_completed_at_ms = Some now_ms, ae_file_results = [result],
      ae_rollback_available = (fr_outcome result = FileApplied)\<rparr>"

lemma preflight_calm:
  assumes "clear_way w file now_ms d"
    and "\<And>c. cd_files d (pf_canonical_path file) = Some c \<Longrightarrow> fe_sha256 w c = pf_baseline_sha256 file"
    and "cd_files d (pf_canonical_path file) = None \<Longrightarrow> pf_is_new_file file"
  shows "preflight w file d = (Ok (), d)"
proof -
  have calm: "cd_faults d = []" "plain_fs w" "\<not> fe_is_dir w (pf_canonical_path file)"
    using assms(1) by (simp_all add: clear_way_def target_ok_def)
  with assms(2,3) show ?thesis
    by (cases "cd_files d (pf_canonical_path file)")
      (simp_all add: preflight_def seq_Ok bind_Ok hardlink_calm disk_files_calm path_exists_def hash_calm(2) ret_def)
qed

lemma plan_calm_from:
  assumes "sp_files plan = [file]" and "preflight w file d = (Ok (), d)" and "pf_baseline_text file \<noteq> pf_merged_text file"
    and "apply_single_file w file (sp_plan_id plan) (sp_source plan) now_ms d = (Ok result, d1)" and "cd_faults d1 = []"
  shows "apply_plan w plan now_ms capabilities d =
    (Ok \<lparr>ar_plan_id = sp_plan_id plan, ar_source = sp_source plan, ar_file_results = [result], ar_capabilities = capabilities\<rparr>,
     put_journal ((cd_journal d1)\<lparr>js_applies := js_applies (cd_journal d1) @ [apply_entry_of w plan now_ms result (cd_uuids d1)]\<rparr>)
       (d1\<lparr>cd_uuids := Suc (cd_uuids d1)\<rparr>))"
proof -
  have "apply_files w (sp_plan_id plan) (sp_source plan) now_ms [file] [] [] d = (Ok [result], d1)"
    using assms(3,4) by (simp add: ret_def)
  with assms(1,2,5) show ?thesis
    by (simp add: apply_plan_def seq_Ok bind_Ok ret_def new_uuid_def journal_calm(2) apply_entry_of_def del: apply_files.simps)
qed


section \<open>A sample disk\<close>

definition sample_fs :: fs_env where
  "sample_fs = \<lparr>fe_canonicalize = (\<lambda>files p. CanonPath p), fe_lstat = (\<lambda>files p. LstatMissing), fe_is_dir = (\<lambda>p. False),
     fe_nlink = (\<lambda>files p. 1), fe_lock_stale = (\<lambda>p. False), fe_uuid = (\<lambda>n. replicate n (CHR ''a'')),
     fe_sha256 = (\<lambda>s. ''#'' @ s), fe_pid = 7, fe_timestamp = (\<lambda>ms. Some ''T'')\<rparr>"

definition sample_texts :: text_env where
  "sample_texts = \<lparr>te_parse = (\<lambda>s. Inr (JObject [])), te_pretty = (\<lambda>v. ''{}''), te_lossy = (\<lambda>s. s)\<rparr>"

definition sample_target :: string where
  "sample_target = ''/r/.cursor/hooks.json''"

definition sample_plan_file :: plan_file where
  "sample_plan_file = \<lparr>pf_scope_canonical = ''/r'', pf_relative_path = ''.cursor/hooks.json'', pf_canonical_path = sample_target,
     pf_display_path = ''~/.cursor/hooks.json'', pf_baseline_sha256 = ''#{}'', pf_baseline_text = ''{}'', pf_merged_text = ''{1}'',
     pf_foreign_entries_preserved = [], pf_is_new_file = False, pf_backup_display_path = ''b''\<rparr>"

definition sample_plan :: stored_plan where
  "sample_plan = \<lparr>sp_plan_id = ''p'', sp_source = Cursor, sp_scope = ScopeUser, sp_operation = OpInstall, sp_expires_at_ms = 9,
     sp_summary = [], sp_files = [sample_plan_file], sp_rollback_backup_id = None\<rparr>"

definition sample_disk :: conn_disk where
  "sample_disk = \<lparr>cd_files = [sample_target \<mapsto> ''{}'', ''/r/notes'' \<mapsto> ''x''], cd_journal = empty_journal, cd_journal_file = None,
     cd_uuids = 0, cd_faults = []\<rparr>"

lemma sample_plain: "plain_fs sample_fs"
  by (simp add: plain_fs_def sample_fs_def)

lemma sample_paths:
  "path_parent sample_target = Some ''/r/.cursor''" "path_file_name sample_target = Some ''hooks.json''"
  "lock_path_for sample_target = ''/r/.cursor/hooks.json.llm-notch.lock''"
  "path_components ''.cursor/hooks.json'' = [Normal ''.cursor'', Normal ''hooks.json'']"
  "path_components ''/r'' = [RootDir, Normal ''r'']"
  "path_components sample_target = [RootDir, Normal ''r'', Normal ''.cursor'', Normal ''hooks.json'']"
  by (simp_all add: path_parent_def before_last_def sample_target_def path_file_name_def after_last_def lock_path_for_def with_file_name_def
      path_join_def LOCK_SUFFIX_def path_components_def Let_def)

lemma sample_in_scope: "target_in sample_fs ''/r'' ''.cursor/hooks.json'' sample_target"
  unfolding target_in_def sample_paths path_starts_with_def
  by (simp add: sample_fs_def is_absolute_path_def rejected_component_def path_join_def sample_target_def)

lemma sample_plan_fields [simp]:
  "sp_files sample_plan = [sample_plan_file]" "sp_source sample_plan = Cursor" "sp_plan_id sample_plan = ''p''"
  "pf_canonical_path sample_plan_file = sample_target" "pf_baseline_text sample_plan_file = ''{}''" "pf_merged_text sample_plan_file = ''{1}''"
  "pf_baseline_sha256 sample_plan_file = ''#{}''" "fe_sha256 sample_fs s = ''#'' @ s" "fe_uuid sample_fs n = replicate n (CHR ''a'')"
  "cd_files sample_disk = [sample_target \<mapsto> ''{}'', ''/r/notes'' \<mapsto> ''x'']" "cd_uuids sample_disk = 0"
  "cd_journal sample_disk = empty_journal" "cd_faults sample_disk = []"
  "pf_display_path sample_plan_file = ''~/.cursor/hooks.json''"
  by (simp_all add: sample_plan_def sample_plan_file_def sample_fs_def sample_disk_def)

lemma sample_target_ok: "target_ok sample_fs sample_plan_file"
  using sample_in_scope sample_plain by (simp add: target_ok_def sample_plan_file_def)

lemma sample_names:
  "backup_path_for sample_fs sample_plan_file now_ms n = ''/r/.cursor/hooks.json.llm-notch.bak.T.'' @ replicate n (CHR ''a'')"
  "temp_path_of ''/r/.cursor'' u = ''/r/.cursor/.'' @ u @ ''.llm-notch.tmp''"
  by (simp_all add: backup_path_for_def sample_paths temp_path_of_def path_join_def backup_timestamp_def sample_fs_def)

lemma sample_clear: "clear_way sample_fs sample_plan_file now_ms sample_disk"
  unfolding clear_way_def
  by (simp add: sample_target_ok sample_paths sample_names)
    (simp add: sample_fs_def sample_target_def)


lemma sample_not_side: "\<not> side_file sample_target sample_target" "\<not> side_file sample_target ''/r/notes''"
  by (simp_all add: side_file_def sample_paths lock_path_differs [symmetric])
    (simp_all add: path_join_def sample_target_def suffix_def)

theorem apply_is_atomic_and_confined_witness:
  "cd_files (snd (apply_plan sample_fs sample_plan 5 (capabilities_template Cursor) sample_disk)) sample_target \<in> {Some ''{}'', Some ''{1}''} \<and>
   cd_files (snd (apply_plan sample_fs sample_plan 5 (capabilities_template Cursor) sample_disk)) ''/r/notes'' = Some ''x''"
  using apply_is_atomic_and_confined [of sample_fs sample_plan 5 "capabilities_template Cursor" sample_disk
      "fst (apply_plan sample_fs sample_plan 5 (capabilities_template Cursor) sample_disk)"
      "snd (apply_plan sample_fs sample_plan 5 (capabilities_template Cursor) sample_disk)" sample_plan_file] sample_not_side
  by (auto simp: sample_target_def)

text \<open>The sample plan applied, its rollback previewed, and the rollback applied.\<close>

definition sample_entry :: backup_entry where
  "sample_entry = \<lparr>be_id = ''bak-a'', be_plan_id = Some ''p'', be_source = Cursor, be_display_path = ''~/.cursor/hooks.json'',
     be_backup_display_path = ''~/hooks.json.llm-notch.bak.T.'', be_content_sha256 = ''#{}'', be_applied_hash = Some ''#{1}'',
     be_operation = BackupCreate, be_recorded_at_ms = 5\<rparr>"

definition sample_backup :: string where
  "sample_backup = ''/r/.cursor/hooks.json.llm-notch.bak.T.''"

definition sample_scope :: scope_root where
  "sample_scope = \<lparr>sr_canonical = ''/r'', sr_display_prefix = ''~''\<rparr>"

definition sample_config :: conn_config where
  "sample_config = \<lparr>cc_integrations_root = ''i'', cc_helper_path = ''h'', cc_workspace_root = None, cc_user_scope_root = None, cc_home = None\<rparr>"

lemma sample_entry_of:
  "backup_journal sample_fs sample_plan_file ''p'' Cursor 5 ''{}'' sample_disk = empty_journal\<lparr>js_backups := [sample_entry]\<rparr>"
  by (simp add: backup_journal_def backup_entry_of_def Let_def sample_names empty_journal_def sample_entry_def path_file_name_def after_last_def
      backup_label_def starts_with_def)

lemma sample_applied:
  "\<exists>j. apply_plan sample_fs sample_plan 5 (capabilities_template Cursor) sample_disk =
    (Ok \<lparr>ar_plan_id = ''p'', ar_source = Cursor, ar_file_results = [applied_result sample_fs sample_plan_file (Some ''bak-a'')],
       ar_capabilities = capabilities_template Cursor\<rparr>,
     \<lparr>cd_files = [sample_target \<mapsto> ''{}'', ''/r/notes'' \<mapsto> ''x'', sample_backup \<mapsto> ''{}'', sample_target \<mapsto> ''{1}''],
      cd_journal = j, cd_journal_file = Some (Some j), cd_uuids = 6, cd_faults = []\<rparr>) \<and> js_backups j = [sample_entry]"
proof -
  have hash: "\<And>c. cd_files sample_disk (pf_canonical_path sample_plan_file) = Some c \<Longrightarrow> fe_sha256 sample_fs c = pf_baseline_sha256 sample_plan_file"
    by (simp add: sample_target_def)
  have change: "pf_baseline_text sample_plan_file \<noteq> pf_merged_text sample_plan_file" by simp
  have there: "cd_files sample_disk (pf_canonical_path sample_plan_file) = Some ''{}''" by (simp add: sample_target_def)
  have pre: "preflight sample_fs sample_plan_file sample_disk = (Ok (), sample_disk)"
    by (rule preflight_calm [OF sample_clear hash]) (use there in simp_all)
  note one = single_calm(2) [OF sample_clear hash change there, of "''p''" Cursor 5]
  from plan_calm_from [OF sample_plan_fields(1) pre change, of 5, unfolded sample_plan_fields(2,3), OF one, of "capabilities_template Cursor"]
  show ?thesis
    unfolding sample_entry_of
    by (simp add: put_journal_def sample_names sample_backup_def empty_journal_def sample_disk_def)
qed

definition sample_rollback_file :: plan_file where
  "sample_rollback_file = \<lparr>pf_scope_canonical = ''/r'', pf_relative_path = ''.cursor/hooks.json'', pf_canonical_path = sample_target,
     pf_display_path = ''~/.cursor/hooks.json'', pf_baseline_sha256 = ''#{1}'', pf_baseline_text = ''{1}'', pf_merged_text = ''{}'',
     pf_foreign_entries_preserved = [], pf_is_new_file = False, pf_backup_display_path = ''~/hooks.json.llm-notch.bak.T.''\<rparr>"

definition sample_rollback_plan :: stored_plan where
  "sample_rollback_plan = \<lparr>sp_plan_id = ''plan-aaaaaa'', sp_source = Cursor, sp_scope = ScopeUser, sp_operation = OpRollback,
     sp_expires_at_ms = 300006, sp_summary = ''Restore ~/.cursor/hooks.json from backup bak-a'', sp_files = [sample_rollback_file],
     sp_rollback_backup_id = Some ''bak-a''\<rparr>"

lemma sample_resolves:
  "cd_faults d = [] \<Longrightarrow> resolve_in_scope sample_fs sample_scope ''.cursor/hooks.json'' d = (Ok sample_target, d)"
  by (simp add: resolve_in_scope_def sample_scope_def validate_calm [OF sample_plain sample_in_scope])

lemma sample_previewed:
  assumes "cd_files d = F" and "F sample_target = Some ''{1}''" and "F sample_backup = Some ''{}''" and "js_backups (cd_journal d) = [sample_entry]"
    and "cd_faults d = []" and "cd_uuids d = 6"
  shows "\<exists>p. preview_rollback sample_fs sample_texts sample_config ''bak-a'' sample_scope 6 d = (Ok (p, sample_rollback_plan), d\<lparr>cd_uuids := 7\<rparr>)"
proof -
  have rel: "tf_relative_path (target_for (cursor_adapter base) ScopeUser) = ''.cursor/hooks.json''" for base
    by (simp add: target_for_def cursor_adapter_def simple_adapter_def)
  have display: "scope_display_path sample_scope ''.cursor/hooks.json'' = ''~/.cursor/hooks.json''"
    by (simp add: scope_display_path_def sample_scope_def)
  have infer: "infer_backup_path sample_target ''~/hooks.json.llm-notch.bak.T.'' = sample_backup"
    by (simp add: infer_backup_path_def after_last_def with_file_name_def sample_paths path_join_def sample_backup_def)
  have shown: "text_or_empty sample_target e = (Ok ''{1}'', e)" if "cd_faults e = []" "cd_files e = F" for e
    using that assms(2) by (simp add: text_or_empty_def or_default_def read_to_string_def bind_Ok read_calm ret_def utf8_valid.simps utf8_tail.simps byte_in_def)
  have hash: "rollback_current_hash sample_fs sample_target d = (Ok ''#{1}'', d)"
    using assms by (simp add: rollback_current_hash_def bind_Ok disk_files_calm path_exists_def hash_calm(2))
  have ttl: "plan_expires_at 6 = 300006" by (simp add: plan_expires_at_def CONNECTOR_PLAN_TTL_MS_def in_i64_def)
  have uuid: "replicate 6 (CHR ''a'') = ''aaaaaa''" by (simp add: eval_nat_numeral)
  show ?thesis
    using assms
    by (simp add: preview_rollback_def find_backup_def gets_def bind_Ok sample_entry_def rel sample_resolves hash infer
        disk_files_calm path_exists_def hash_calm(1) rollback_from_def Let_def display build_exact_restore_preview_def shown
        new_plan_id_def new_uuid_def ret_def sample_texts_def ttl uuid)
      (simp add: sample_rollback_plan_def sample_rollback_file_def sample_scope_def)
qed

lemma sample_rollback_fields [simp]:
  "sp_files sample_rollback_plan = [sample_rollback_file]" "pf_canonical_path sample_rollback_file = sample_target"
  "pf_baseline_text sample_rollback_file = ''{1}''" "pf_merged_text sample_rollback_file = ''{}''"
  "pf_baseline_sha256 sample_rollback_file = ''#{1}''"
  by (simp_all add: sample_rollback_plan_def sample_rollback_file_def)

lemma sample_undone:
  assumes "cd_files d = [sample_target \<mapsto> ''{}'', ''/r/notes'' \<mapsto> ''x'', sample_backup \<mapsto> ''{}'', sample_target \<mapsto> ''{1}'']"
    and "cd_faults d = []" and "cd_uuids d = 7"
  shows "\<exists>r d'. apply_plan sample_fs sample_rollback_plan 8 (capabilities_template Cursor) d = (Ok r, d')"
proof -
  have ok: "target_ok sample_fs sample_rollback_file"
    using sample_in_scope sample_plain by (simp add: target_ok_def sample_rollback_file_def)
  have names: "backup_path_for sample_fs sample_rollback_file 8 n = ''/r/.cursor/hooks.json.llm-notch.bak.T.'' @ replicate n (CHR ''a'')" for n
    by (simp add: backup_path_for_def sample_paths path_join_def backup_timestamp_def sample_fs_def)
  have "clear_way sample_fs sample_rollback_file 8 d"
    unfolding clear_way_def
    by (simp add: assms ok sample_paths sample_names names)
      (simp add: sample_fs_def sample_target_def sample_backup_def eval_nat_numeral)
  with plan_calm_from [of sample_rollback_plan sample_rollback_file sample_fs d 8]
    preflight_calm [of sample_fs sample_rollback_file 8 d] single_calm(2) [of sample_fs sample_rollback_file 8 d "''{1}''"] assms
  show ?thesis by auto
qed

lemma sample_unique: "unique_names sample_fs sample_disk"
  by (simp add: unique_names_def empty_journal_def) (simp add: sample_fs_def)

theorem rollback_restores_the_file_witness:
  "\<exists>result d1 p d2 result' d3.
     apply_plan sample_fs sample_plan 5 (capabilities_template Cursor) sample_disk = (Ok result, d1) \<and>
     cd_files d1 sample_target = Some ''{1}'' \<and>
     preview_rollback sample_fs sample_texts sample_config ''bak-a'' sample_scope 6 d1 = (Ok (p, sample_rollback_plan), d2) \<and>
     apply_plan sample_fs sample_rollback_plan 8 (capabilities_template Cursor) d2 = (Ok result', d3) \<and>
     cd_files d3 sample_target = Some ''{}''"
proof -
  from sample_applied obtain d1 where
    run1: "apply_plan sample_fs sample_plan 5 (capabilities_template Cursor) sample_disk =
      (Ok \<lparr>ar_plan_id = ''p'', ar_source = Cursor, ar_file_results = [applied_result sample_fs sample_plan_file (Some ''bak-a'')],
         ar_capabilities = capabilities_template Cursor\<rparr>, d1)" (is "_ = (Ok ?result, _)")
    and d1: "cd_files d1 = [sample_target \<mapsto> ''{}'', ''/r/notes'' \<mapsto> ''x'', sample_backup \<mapsto> ''{}'', sample_target \<mapsto> ''{1}'']"
      "js_backups (cd_journal d1) = [sample_entry]" "cd_faults d1 = []" "cd_uuids d1 = 6"
    by auto
  from sample_previewed [OF d1(1) _ _ d1(2-4)] obtain p where
    run2: "preview_rollback sample_fs sample_texts sample_config ''bak-a'' sample_scope 6 d1 = (Ok (p, sample_rollback_plan), d1\<lparr>cd_uuids := 7\<rparr>)"
    by (auto simp: sample_target_def sample_backup_def)
  from sample_undone [of "d1\<lparr>cd_uuids := 7\<rparr>"] d1 obtain r d3 where
    run3: "apply_plan sample_fs sample_rollback_plan 8 (capabilities_template Cursor) (d1\<lparr>cd_uuids := 7\<rparr>) = (Ok r, d3)" by auto
  have "cd_files d3 (pf_canonical_path sample_plan_file) = Some (pf_baseline_text sample_plan_file)"
    by (rule rollback_restores_the_file [OF run1 _ _ _ _ sample_unique _ _ _ _ _ run2 run3, where a = "cursor_adapter ''i''"])
      (simp_all add: sample_resolves d1 sample_paths, simp_all add: sample_target_def sample_texts_def sample_config_def applied_result_def
        cursor_adapter_def simple_adapter_def sample_resolves [unfolded sample_target_def] d1)
  with run1 run2 run3 d1(1) show ?thesis by auto
qed

end
