(* ===== verification/Connector_Install.thy ===== *)
theory Connector_Install
  imports Connector_Progress
begin

text \<open>
  What a preview plans: the planned value is well formed, keeps the entries of other tools, and is a
  fixed point of the operation, so the preview after an applied plan has nothing left to show.
\<close>

section \<open>Well-formed values\<close>

lemma config_wf_merge:
  assumes "config_wf x" and "\<And>hooks. bt_wf hooks \<Longrightarrow> bt_wf (F hooks)"
  shows "config_wf (root_merge F v x)"
  using assms(1)
proof (cases rule: config_cases)
  case plain
  then show ?thesis using assms(1) by (simp add: root_merge_plain)
next
  case (fresh members)
  with assms(2) [of "[]"] show ?thesis by (auto simp: root_simps config_wf_def map_of_bt_insert_any)
next
  case (odd members u)
  then show ?thesis using assms(1) by (simp add: root_merge_odd)
next
  case (hooked members hooks)
  with assms(2) [of hooks] show ?thesis by (auto simp: root_simps config_wf_def map_of_bt_insert_any)
qed

lemma adapter_merge_wf:
  assumes "file_wf a x" and "file_wf a t"
  shows "file_wf a (fst (adapter_merge a x t))"
proof (cases "tf_format (ad_user_target a)")
  case HooksJson
  with assms show ?thesis
    by (auto simp: adapter_defs merge_hooks_json_root merge_event_extend split: option.split intro!: config_wf_merge)
next
  case ClaudeSettings
  with assms show ?thesis
    by (auto simp: adapter_defs merge_claude_settings_root merge_groups_event_extend split: option.split intro!: config_wf_merge)
next
  case AntigravityNamedHooks
  show ?thesis
  proof (cases "as_object x = None \<or> as_object t = None")
    case True
    with assms AntigravityNamedHooks show ?thesis by (simp add: adapter_defs merge_named_plain)
  next
    case False
    then obtain members blocks where "x = JObject members" "t = JObject blocks" by (auto simp: as_object_Some)
    with assms AntigravityNamedHooks show ?thesis by (simp add: adapter_defs merge_named_run object_wf_def put_blocks_wf)
  qed
qed

lemma strip_wf: "file_wf a v \<Longrightarrow> file_wf a (strip_template_comments v)"
  by (cases v) (auto simp: file_wf_def strip_template_comments_def config_wf_def object_wf_def)

lemma bt_wf_values: "bt_wf m \<Longrightarrow> bt_wf (map (\<lambda>(k, v). (k, f v)) m)"
  by (simp add: bt_wf_def comp_def case_prod_beta)

lemma map_of_values: "map_of (map (\<lambda>(k, v). (k, f v)) m) k = map_option f (map_of m k)"
  by (induction m) auto

lemma materialize_wf: "file_wf a v \<Longrightarrow> file_wf a (materialize_template windows v helper)"
proof (cases v)
  case (JObject m)
  assume wf: "file_wf a v"
  have "bt_wf h" if "map_of (map (\<lambda>(k, v). (k, rewrite_commands windows helper v)) m) ''hooks'' = Some (JObject h)"
    "\<forall>hooks. map_of m ''hooks'' = Some (JObject hooks) \<longrightarrow> bt_wf hooks" for h
  proof -
    from that(1) obtain v where v: "map_of m ''hooks'' = Some v" "rewrite_commands windows helper v = JObject h"
      by (auto simp: map_of_values)
    then obtain hooks where "v = JObject hooks" by (cases v) auto
    with v that(2) show ?thesis by (auto intro: bt_wf_values)
  qed
  with wf JObject show ?thesis
    by (auto simp: file_wf_def materialize_template_def config_wf_def object_wf_def bt_wf_values)
qed (auto simp: file_wf_def materialize_template_def config_wf_def object_wf_def)

lemma planned_value_Ok:
  "planned_value a operation x t d = (Ok r, d') \<Longrightarrow>
   d' = d \<and> (operation = OpInstall \<and> r = adapter_merge a x t \<or>
     operation = OpRepair \<and> r = adapter_merge a (fst (remove_managed a x)) t \<or>
     operation = OpRemove \<and> r = remove_managed a x)"
  by (cases operation) (auto simp: planned_value_def op_basic_defs)


section \<open>Entries of other tools\<close>

lemma foreign_merge:
  assumes "config_wf x" and "tf_format (ad_user_target a) \<noteq> AntigravityNamedHooks"
  shows "foreign_of a (fst (adapter_merge a x t)) = foreign_of a x"
proof (cases "tf_format (ad_user_target a)")
  case HooksJson
  have "collected foreign_entries_of (root_merge (fold (extend_slots (\<lambda>ts. fold (add_missing entry_command) (filter managed_entry ts))
      (\<lambda>ts. filter managed_entry ts = [])) T) v x) = collected foreign_entries_of x" for T v
    by (rule collected_root [OF assms(1)]) (simp_all add: foreign_entries_merge, simp add: foreign_entries_of_def map_filter_simps)
  with HooksJson show ?thesis
    by (simp add: adapter_defs merge_hooks_json_root merge_event_extend collect_hooks_json_collected split: option.split)
next
  case ClaudeSettings
  have "collected (\<lambda>event gs. concat (map (foreign_hooks_of event) gs)) (root_merge (fold (extend_slots (fold merge_group) (\<lambda>_. False)) T) v x) =
      collected (\<lambda>event gs. concat (map (foreign_hooks_of event) gs)) x" for T v
    by (rule collected_root [OF assms(1)]) (simp_all add: foreign_groups_merge)
  with ClaudeSettings show ?thesis
    by (simp add: adapter_defs merge_claude_settings_root merge_groups_event_extend collect_claude_collected split: option.split)
qed (use assms(2) in simp)

lemma foreign_remove:
  assumes "file_wf a x"
  shows "foreign_of a (fst (remove_managed a x)) = foreign_of a x"
proof (cases "tf_format (ad_user_target a)")
  case HooksJson
  with assms collected_remove [where F = foreign_entries_of and f = "filter (\<lambda>e. \<not> managed_entry e)" and x = x] show ?thesis
    by (simp add: adapter_defs remove_hooks_json_root collect_hooks_json_collected foreign_entries_remove)
      (simp add: foreign_entries_of_def map_filter_simps)
next
  case ClaudeSettings
  with assms collected_remove [where F = "\<lambda>event gs. concat (map (foreign_hooks_of event) gs)" and f = strip_groups and x = x] show ?thesis
    by (simp add: adapter_defs remove_claude_settings_root collect_claude_collected foreign_groups_remove)
next
  case AntigravityNamedHooks
  then show ?thesis
    by (cases x) (simp_all add: adapter_defs remove_antigravity_named_hooks_def collect_foreign_antigravity_named_hooks_def)
qed


section \<open>Fixed points\<close>

lemma planned_again:
  assumes "planned_value a operation x t d = (Ok (v, preserved), d')" and "file_wf a x" and "file_wf a t"
    and "operation = OpRepair \<Longrightarrow> file_fits a x"
  shows "\<exists>preserved'. planned_value a operation v t e = (Ok (v, preserved'), e)"
proof -
  consider "operation = OpInstall" "v = fst (adapter_merge a x t)" | "operation = OpRemove" "v = fst (remove_managed a x)"
    | "operation = OpRepair" "v = fst (adapter_merge a (fst (remove_managed a x)) t)"
    using planned_value_Ok [OF assms(1)] by (metis fst_conv)
  then show ?thesis
  proof cases
    case 1
    with adapter.merge_merge [OF assms(2,3)] show ?thesis by (simp add: planned_value_def ret_def) (metis prod.collapse)
  next
    case 2
    with adapter.remove_remove [OF assms(2)] show ?thesis by (simp add: planned_value_def ret_def) (metis prod.collapse)
  next
    case 3
    with adapter.repair_stable [OF assms(2,3)] assms(4) show ?thesis by (simp add: planned_value_def ret_def) (metis prod.collapse)
  qed
qed

text \<open>The values a preview is made of.\<close>

definition baseline_of :: "text_env \<Rightarrow> files \<Rightarrow> string \<Rightarrow> string \<times> json" where
  "baseline_of t files path =
     (case files path of
        None \<Rightarrow> (''{}'', JObject [])
      | Some raw \<Rightarrow> (raw, case te_parse t raw of Inl message \<Rightarrow> JObject [] | Inr v \<Rightarrow> v))"

definition template_of :: "text_env \<Rightarrow> conn_config \<Rightarrow> adapter_descriptor \<Rightarrow> files \<Rightarrow> json option" where
  "template_of t config a files = Option.bind (files (ad_template_path a)) (\<lambda>raw.
     case te_parse t raw of
       Inl message \<Rightarrow> None
     | Inr v \<Rightarrow> Some (materialize_template False (strip_template_comments v) (cc_helper_path config)))"

lemma read_to_string_Ok: "read_to_string wrap path d = (Ok raw, d') \<Longrightarrow> cd_files d path = Some raw"
  unfolding read_to_string_def by (auto simp: op_basic_defs split: if_splits dest: read_file_Ok elim!: bind_OkE)

lemma load_template_Ok:
  assumes "load_template t a d = (Ok v, d')"
  shows "template_of t config a (cd_files d) = Some (materialize_template False v (cc_helper_path config))"
proof -
  from assms obtain raw d1 where raw: "read_to_string (internal ''template read failed'') (ad_template_path a) d = (Ok raw, d1)"
    and rest: "(case te_parse t raw of Inl message \<Rightarrow> throw (internal ''template read failed'' message)
       | Inr v \<Rightarrow> ret (strip_template_comments v)) d1 = (Ok v, d')"
    unfolding load_template_def by (elim bind_OkE) (rule that)
  from read_to_string_Ok [OF raw] rest show ?thesis
    by (auto simp: template_of_def op_basic_defs split: sum.splits)
qed

lemma read_baseline_Ok:
  assumes "read_baseline w t path d = (Ok (raw, v, new), d')" and "\<not> fe_is_dir w path"
  shows "(raw, v) = baseline_of t (cd_files d) path"
proof (cases "cd_files d path")
  case None
  with assms show ?thesis by (simp add: read_baseline_def disk_files_def gets_def bind_def ret_def path_exists_def baseline_of_def)
next
  case (Some c)
  with assms(1) obtain d1 where "read_to_string (internal ''read baseline failed'') path d = (Ok raw, d1)"
    and "v = (case te_parse t raw of Inl message \<Rightarrow> JObject [] | Inr v \<Rightarrow> v)"
    by (auto simp: read_baseline_def disk_files_def gets_def bind_Ok ret_def path_exists_def elim!: bind_OkE)
  with Some read_to_string_Ok show ?thesis by (fastforce simp: baseline_of_def)
qed

lemma build_preview_Ok:
  assumes "build_preview w t config a scope operation root_dir now_ms d = (Ok (p, plan), d')"
    and "\<And>path. \<not> fe_is_dir w path"
  obtains f template v preserved e where "sp_files plan = [f]" "template_of t config a (cd_files d) = Some template"
    "planned_value a operation (snd (baseline_of t (cd_files d) (pf_canonical_path f))) template e = (Ok (v, preserved), e)"
    "pf_baseline_text f = fst (baseline_of t (cd_files d) (pf_canonical_path f))" "pf_merged_text f = te_pretty t v"
    "fp_foreign_entries_preserved (hd (pp_files p)) = preserved"
    "pf_baseline_text f = pf_merged_text f \<Longrightarrow> fp_diff_text (hd (pp_files p)) = []"
proof -
  from assms(1) obtain canonical d1 d2 raw d3 baseline d4 planned d5 where
    r: "resolve_in_scope w root_dir (tf_relative_path (target_for a scope)) d = (Ok canonical, d1)"
    and h: "reject_hardlink w canonical d1 = (Ok (), d2)" and l: "load_template t a d2 = (Ok raw, d3)"
    and b: "read_baseline w t canonical d3 = (Ok baseline, d4)"
    and v: "planned_value a operation (fst (snd baseline)) (materialize_template False raw (cc_helper_path config)) d4 = (Ok planned, d5)"
    and rest: "finish_preview w t a scope operation root_dir now_ms canonical baseline planned d5 = (Ok (p, plan), d')"
    unfolding build_preview_def by (elim bind_OkE seq_OkE) (rule that)
  have "quiet (resolve_in_scope w root_dir rel)" for rel unfolding resolve_in_scope_def by (intro quiet_intros)
  note q1 = quietD [OF this r] and q2 = quietD [OF quiet_hardlink h]
  have "quiet (load_template t a)" unfolding load_template_def by (intro quiet_intros)
  note q3 = quietD [OF this l]
  have base: "fst baseline = fst (baseline_of t (cd_files d) canonical)" "fst (snd baseline) = snd (baseline_of t (cd_files d) canonical)"
    using read_baseline_Ok [OF _ assms(2), of t canonical d3 "fst baseline" "fst (snd baseline)" "snd (snd baseline)" d4] b q1 q2 q3
    by (simp_all add: prod_eq_iff)
  have tmpl: "template_of t config a (cd_files d) = Some (materialize_template False raw (cc_helper_path config))"
    using load_template_Ok [OF l] q1 q2 by simp
  have "d5 = d4" using planned_value_Ok [OF v] by simp
  with v base have pl: "planned_value a operation (snd (baseline_of t (cd_files d) canonical)) (materialize_template False raw (cc_helper_path config)) d4 =
      (Ok (fst planned, snd planned), d4)" by simp
  have made: "\<exists>f. sp_files plan = [f] \<and> pf_canonical_path f = canonical \<and> pf_baseline_text f = bt \<and> pf_merged_text f = mt \<and>
      fp_foreign_entries_preserved (hd (pp_files p)) = pr \<and> fp_diff_text (hd (pp_files p)) = diff"
    if "plan_for w a scope operation root_dir now_ms canonical bt mt new pr diff summary backup x = (Ok (p, plan), y)"
    for bt mt new pr diff summary backup x y
    using that unfolding plan_for_def Let_def by (auto simp: ret_def elim!: bind_OkE)
  show thesis
  proof (cases "fst baseline = te_pretty t (fst planned)")
    case True
    with rest made obtain f where "sp_files plan = [f]" "pf_canonical_path f = canonical" "pf_baseline_text f = fst baseline"
      "pf_merged_text f = te_pretty t (fst planned)" "fp_foreign_entries_preserved (hd (pp_files p)) = snd planned" "fp_diff_text (hd (pp_files p)) = []"
      by (fastforce simp: finish_preview_def Let_def)
    with that [of f _ d4 "fst planned" "snd planned"] tmpl pl base show thesis by simp
  next
    case False
    with rest obtain diff d6 display backup where "plan_for w a scope operation root_dir now_ms canonical (fst baseline) (te_pretty t (fst planned)) (snd (snd baseline)) (snd planned)
                     diff (operation_summary operation display) (Some backup) d6 = (Ok (p, plan), d')"
      by (auto simp: finish_preview_def Let_def elim!: bind_OkE)
    from made [OF this] obtain f where "sp_files plan = [f]" "pf_canonical_path f = canonical" "pf_baseline_text f = fst baseline"
      "pf_merged_text f = te_pretty t (fst planned)" "fp_foreign_entries_preserved (hd (pp_files p)) = snd planned" by blast
    with that [of f _ d4 "fst planned" "snd planned"] tmpl pl base False show thesis by simp
  qed
qed

text \<open>What is documented of \<open>serde_json\<close>: parsing gives sorted, distinct keys, and printed text parses back.\<close>

definition parses_typed :: "text_env \<Rightarrow> adapter_descriptor \<Rightarrow> bool" where
  "parses_typed t a \<longleftrightarrow> (\<forall>s v. te_parse t s = Inr v \<longrightarrow> file_wf a v)"

definition prints_back :: "text_env \<Rightarrow> string \<Rightarrow> bool" where
  "prints_back t s \<longleftrightarrow> (\<forall>v. te_pretty t v = s \<longrightarrow> te_parse t s = Inr v)"

lemma empty_object_wf: "file_wf a (JObject [])"
  by (simp add: file_wf_def config_wf_def object_wf_def)

lemma baseline_wf: "parses_typed t a \<Longrightarrow> file_wf a (snd (baseline_of t files path))"
  by (auto simp: baseline_of_def parses_typed_def empty_object_wf split: option.split sum.split)

lemma template_wf: "parses_typed t a \<Longrightarrow> template_of t config a files = Some v \<Longrightarrow> file_wf a v"
  unfolding template_of_def parses_typed_def
  by (cases "files (ad_template_path a)") (auto intro!: materialize_wf strip_wf split: sum.splits)


section \<open>Plans are used once\<close>

text \<open>
  (C13) The plan store is the only way in, and a plan is spent by its success: an application under an
  unknown or expired plan changes nothing at all; a successful one had a stored plan that was not
  expired, and afterwards the same id is unknown.
\<close>

theorem plans_expire_and_are_spent:
  assumes "manager_apply w plan_id selected now_ms s = (r, s')"
  shows "case r of
      Ok result \<Rightarrow> (\<exists>plan. cm_plans s plan_id = Some plan \<and> now_ms < sp_expires_at_ms plan) \<and>
        fst (manager_apply w plan_id selected' later_ms s') = Err PlanNotFound
    | _ \<Rightarrow> cm_plans s' = cm_plans s \<and>
        ((\<forall>plan. cm_plans s plan_id = Some plan \<longrightarrow> sp_expires_at_ms plan \<le> now_ms) \<longrightarrow> s' = s)"
proof (cases "plan_get_valid plan_id now_ms (cm_plans s)")
  case (Err e)
  then have "r = Err e" "s' = s" using assms by (simp_all add: manager_apply_def bind_def gets_def lift_def)
  then show ?thesis by simp
next
  case (Panic m)
  then show ?thesis by (simp add: plan_get_valid_def split: option.splits if_splits)
next
  case (Ok stored)
  then have valid: "cm_plans s plan_id = Some stored" "now_ms < sp_expires_at_ms stored"
    by (auto simp: plan_get_valid_def split: option.splits if_splits)
  show ?thesis
  proof (cases "select_files selected stored")
    case (Err e)
    with Ok assms have "r = Err e" "s' = s" by (simp_all add: manager_apply_def bind_def gets_def lift_def)
    then show ?thesis by simp
  next
    case (Panic m)
    then show ?thesis by (simp add: select_files_def Let_def split: option.splits if_splits)
  next
    case selected: (Ok plan)
    obtain ra d where run: "apply_plan w plan now_ms (capabilities_template (sp_source plan)) (cm_disk s) = (ra, d)"
      by (cases "apply_plan w plan now_ms (capabilities_template (sp_source plan)) (cm_disk s)")
    have whole: "(r, s') = (case ra of
        Ok result \<Rightarrow> (Ok result, s\<lparr>cm_disk := d, cm_plans := plan_remove plan_id (cm_plans s)\<rparr>)
      | Err e \<Rightarrow> (Err e, s\<lparr>cm_disk := d\<rparr>) | Panic m \<Rightarrow> (Panic m, s\<lparr>cm_disk := d\<rparr>))"
      using assms Ok selected run
      by (cases ra) (auto simp: manager_apply_def bind_def gets_def lift_def on_disk_def zoom_def seq_def modify_def ret_def)
    show ?thesis
    proof (cases ra)
      case (Ok result)
      with whole have "r = Ok result" "cm_plans s' plan_id = None" by (simp_all add: plan_remove_def)
      then show ?thesis using valid by (auto simp: manager_apply_def bind_def gets_def lift_def plan_get_valid_def)
    qed (use whole valid in auto)
  qed
qed

section \<open>Samples\<close>

definition sample_hook :: json where
  "sample_hook = JObject [(''command'', JString ''/h/llm-notch-hook hook'')]"

definition sample_template :: json where
  "sample_template = JObject [(''hooks'', JObject [(''stop'', JArray [sample_hook])])]"

definition sample_foreign :: json where
  "sample_foreign = JObject [(''hooks'', JObject [(''stop'', JArray [JObject [(''command'', JString ''lint'')]])])]"

definition sample_merged :: json where
  "sample_merged = JObject [(''hooks'', JObject [(''stop'', JArray [JObject [(''command'', JString ''lint'')], sample_hook])])]"

lemma sample_values_wf: "config_wf sample_template" "config_wf sample_foreign"
  by (simp_all add: config_wf_def sample_template_def sample_foreign_def bt_wf_def)



text \<open>A disk with the template, printer and parser for the two values that occur, and the two previews.\<close>

definition sample_planned :: json where
  "sample_planned = fst (adapter_merge (cursor_adapter ''i'') (JObject [])
     (materialize_template False (strip_template_comments sample_template) ''h''))"

definition sample_json :: text_env where
  "sample_json = \<lparr>te_parse = (\<lambda>s. Inr (if s = ''A'' then sample_planned else if s = ''T'' then sample_template else JObject [])),
     te_pretty = (\<lambda>v. if v = sample_planned then ''A'' else ''B''), te_lossy = (\<lambda>s. s)\<rparr>"

definition sample_template_path :: string where
  "sample_template_path = ''i/cursor/hooks.json.template''"

definition disk_with :: "string \<Rightarrow> conn_disk" where
  "disk_with content = sample_disk\<lparr>cd_files := [sample_target \<mapsto> content, sample_template_path \<mapsto> ''T'']\<rparr>"

lemma sample_cursor:
  "tf_relative_path (target_for (cursor_adapter ''i'') ScopeUser) = ''.cursor/hooks.json''"
  "ad_template_path (cursor_adapter ''i'') = sample_template_path" "tf_format (ad_user_target (cursor_adapter ''i'')) = HooksJson"
  by (simp_all add: target_for_def cursor_adapter_def simple_adapter_def path_join_def sample_template_path_def)

lemma sample_planned_wf: "file_wf (cursor_adapter ''i'') sample_planned"
  unfolding sample_planned_def
  by (intro adapter_merge_wf materialize_wf strip_wf empty_object_wf) (simp add: file_wf_def sample_values_wf sample_cursor)

lemma sample_parses: "parses_typed sample_json (cursor_adapter ''i'')" "prints_back sample_json ''A''"
proof -
  have "file_wf (cursor_adapter ''i'') sample_template" by (simp add: file_wf_def sample_values_wf sample_cursor)
  then show "parses_typed sample_json (cursor_adapter ''i'')" "prints_back sample_json ''A''"
    by (auto simp: parses_typed_def prints_back_def sample_json_def sample_planned_wf empty_object_wf split: if_splits)
qed

lemma disk_with_simps [simp]:
  "cd_files (disk_with c) sample_target = Some c" "cd_files (disk_with c) sample_template_path = Some ''T''" "cd_faults (disk_with c) = []"
  by (simp_all add: disk_with_def sample_target_def sample_template_path_def)

lemma sample_diff_short:
  assumes "b \<in> {''{}'', ''A''}" and "m \<in> {''A'', ''B''}" and "b \<noteq> m"
  shows "truncate_diff (unified_diff ''a/~/.cursor/hooks.json'' ''b/~/.cursor/hooks.json'' b m) d =
    (Ok (unified_diff ''a/~/.cursor/hooks.json'' ''b/~/.cursor/hooks.json'' b m), d)"
proof -
  have "length (unified_diff ''a/~/.cursor/hooks.json'' ''b/~/.cursor/hooks.json'' ''{}'' ''A'') \<le> 100"
    "length (unified_diff ''a/~/.cursor/hooks.json'' ''b/~/.cursor/hooks.json'' ''{}'' ''B'') \<le> 100"
    "length (unified_diff ''a/~/.cursor/hooks.json'' ''b/~/.cursor/hooks.json'' ''A'' ''B'') \<le> 100"
    by code_simp+
  with assms show ?thesis by (auto simp: truncate_diff_def ret_def MAX_CONNECTOR_DIFF_LEN_def)
qed

lemma sample_preview:
  assumes "b \<in> {''{}'', ''A''}"
  shows "\<exists>p plan d' f. build_preview sample_fs sample_json sample_config (cursor_adapter ''i'') ScopeUser OpInstall sample_scope now_ms (disk_with b) =
    (Ok (p, plan), d') \<and> sp_files plan = [f] \<and> pf_canonical_path f = sample_target \<and> pf_merged_text f = te_pretty sample_json
      (fst (adapter_merge (cursor_adapter ''i'') (if b = ''A'' then sample_planned else JObject [])
        (materialize_template False (strip_template_comments sample_template) ''h'')))"
proof -
  let ?v = "adapter_merge (cursor_adapter ''i'') (if b = ''A'' then sample_planned else JObject [])
        (materialize_template False (strip_template_comments sample_template) ''h'')"
  let ?m = "te_pretty sample_json (fst ?v)"
  have read: "read_to_string wrap sample_template_path (disk_with b) = (Ok ''T'', disk_with b)"
    "read_to_string wrap sample_target (disk_with b) = (Ok b, disk_with b)" for wrap
    using assms by (auto simp: read_to_string_def bind_Ok read_calm ret_def utf8_valid.simps utf8_tail.simps byte_in_def)
  have template: "load_template sample_json (cursor_adapter ''i'') (disk_with b) = (Ok (strip_template_comments sample_template), disk_with b)"
    by (simp add: load_template_def bind_Ok sample_cursor read ret_def sample_json_def)
  have baseline: "read_baseline sample_fs sample_json sample_target (disk_with b) =
      (Ok (b, if b = ''A'' then sample_planned else JObject [], False), disk_with b)"
    using assms by (auto simp: read_baseline_def bind_Ok disk_files_calm path_exists_def read ret_def sample_json_def)
  have display: "scope_display_path sample_scope ''.cursor/hooks.json'' = ''~/.cursor/hooks.json''"
    by (simp add: scope_display_path_def sample_scope_def)
  have "?m \<in> {''A'', ''B''}" by (simp add: sample_json_def)
  note short = sample_diff_short [OF assms this]
  have helper: "cc_helper_path sample_config = ''h''" by (simp add: sample_config_def)
  have made: "\<exists>p plan d' f. plan_for sample_fs (cursor_adapter ''i'') ScopeUser OpInstall sample_scope now_ms sample_target b ?m new pr diff summary backup (disk_with b) =
      (Ok (p, plan), d') \<and> sp_files plan = [f] \<and> pf_canonical_path f = sample_target \<and> pf_merged_text f = ?m" for new pr diff summary backup
    by (simp add: plan_for_def new_plan_id_def new_uuid_def bind_Ok ret_def Let_def)
  have run: "build_preview sample_fs sample_json sample_config (cursor_adapter ''i'') ScopeUser OpInstall sample_scope now_ms (disk_with b) =
      finish_preview sample_fs sample_json (cursor_adapter ''i'') ScopeUser OpInstall sample_scope now_ms sample_target
        (b, if b = ''A'' then sample_planned else JObject [], False) ?v (disk_with b)"
    by (simp add: build_preview_def bind_Ok seq_Ok sample_cursor sample_resolves hardlink_calm [OF sample_plain] template baseline helper planned_value_def ret_def)
  show ?thesis
    unfolding run finish_preview_def Let_def fst_conv snd_conv sample_cursor display using made short
    by (cases "b = ?m") (simp_all only: if_True if_False bind_Ok simp_thms append.simps)
qed


definition sample_manager :: conn_state where
  "sample_manager = \<lparr>cm_disk = sample_disk, cm_plans = [''p'' \<mapsto> sample_plan], cm_last_event_at = Map.empty\<rparr>"

theorem plans_expire_and_are_spent_witness:
  "\<exists>result s. manager_apply sample_fs ''p'' None 5 sample_manager = (Ok result, s) \<and>
     fst (manager_apply sample_fs ''p'' None 6 s) = Err PlanNotFound"
proof -
  have valid: "plan_get_valid ''p'' 5 (cm_plans sample_manager) = Ok sample_plan"
    by (simp add: plan_get_valid_def sample_manager_def sample_plan_def)
  have all: "select_files None sample_plan = Ok sample_plan" by (simp add: select_files_def)
  from sample_applied obtain result d where "apply_plan sample_fs sample_plan 5 (capabilities_template Cursor) sample_disk = (Ok result, d)" by blast
  then obtain s where run: "manager_apply sample_fs ''p'' None 5 sample_manager = (Ok result, s)"
    using valid all by (simp add: manager_apply_def bind_def gets_def lift_def on_disk_def zoom_def seq_def modify_def ret_def sample_manager_def)
  with plans_expire_and_are_spent [OF run, of None 6] show ?thesis by auto
qed

end
