(* ===== verification/Agent_Catalog.thy ===== *)
theory Agent_Catalog
  imports Rust_Search Notch_Prelude
begin

text \<open>
  \<^verbatim>\<open>crates/notch-agent-catalog/src/lib.rs\<close>: the catalogue of agent integrations, its validation and
  its lookups. Identifiers and names are compared after \<open>normalize_lookup\<close>. The index of names is the
  hash map of the code.
\<close>

section \<open>Entries\<close>

definition is_valid_id :: "string \<Rightarrow> bool" where
  "is_valid_id s \<longleftrightarrow>
     s \<noteq> [] \<and> length s \<le> 64 \<and> is_ascii_lower (hd s) \<and>
     list_all (\<lambda>b. is_ascii_lower b \<or> is_ascii_digit b \<or> b = CHR ''-'') s \<and>
     \<not> ends_with ''-'' s \<and> \<not> contains_sub ''--'' s"

datatype invalid_agent_id = InvalidAgentId string

definition agent_id_new :: "string \<Rightarrow> (invalid_agent_id, string) outcome" where
  "agent_id_new s = (if is_valid_id s then Ok s else Err (InvalidAgentId s))"

datatype adapter_family = NativeHooks | JsonlHooks | EventLogWatcher | IdeExtensionBridge | GenericProtocol | Undetermined

datatype integration_maturity = VerifiedCurrent | DeclaredUnverified

datatype capability =
    SessionEvents | ToolEvents | AttentionEvents | DecisionResponse | QuestionResponse | ContextOpen
  | ProcessAttribution | QuotaTracking | TerminalNavigation | SshMonitoring | SoundAlerts

datatype capability_availability = Supported | PartialSupport | Unsupported | UnknownSupport

datatype evidence_quality = Unverified | PubliclyAdvertised | VendorDocumented | VerifiedLocally

record capability_evidence =
  ce_capability :: capability
  ce_availability :: capability_availability
  ce_quality :: evidence_quality
  ce_note :: string

datatype catalog_platform = AnyPlatform | WindowsPlatform | MacOsPlatform | LinuxPlatform

datatype config_scope = ConfigUser | ConfigProject

datatype target_format = FormatJson | FormatToml

record config_target =
  ct_platform :: catalog_platform
  ct_scope :: config_scope
  ct_path_template :: string
  ct_format :: target_format

record integration_descriptor =
  id_id :: string
  id_display_name :: string
  id_aliases :: "string list"
  id_executable_names :: "string list"
  id_adapter_family :: adapter_family
  id_maturity :: integration_maturity
  id_capabilities :: "capability_evidence list"
  id_config_targets :: "config_target list"

definition evidence_for :: "capability \<Rightarrow> integration_descriptor \<Rightarrow> capability_evidence option" where
  "evidence_for c d = List.find (\<lambda>e. ce_capability e = c) (id_capabilities d)"

definition is_verified :: "integration_descriptor \<Rightarrow> bool" where
  "is_verified d \<longleftrightarrow> id_maturity d = VerifiedCurrent"

section \<open>The catalogue\<close>

datatype catalog_error =
    EmptyDisplayName string
  | EmptyAlias string
  | DuplicateName string
  | DuplicateCapability string capability
  | ContradictoryEvidence string

record agent_catalog =
  ac_integrations :: "integration_descriptor list"
  ac_names :: "string \<rightharpoonup> nat"

definition normalize_lookup :: "string \<Rightarrow> string" where
  "normalize_lookup s = map ascii_lower (filter is_ascii_alphanumeric (trim s))"

fun check_evidence :: "integration_descriptor \<Rightarrow> capability list \<Rightarrow> capability_evidence list \<Rightarrow> catalog_error option" where
  "check_evidence d seen [] = None"
| "check_evidence d seen (e # es) =
     (if ce_capability e \<in> set seen then Some (DuplicateCapability (id_id d) (ce_capability e))
      else if id_maturity d = DeclaredUnverified \<and> ce_quality e = VerifiedLocally then Some (ContradictoryEvidence (id_id d))
      else check_evidence d (ce_capability e # seen) es)"

fun check_aliases :: "integration_descriptor \<Rightarrow> string list \<Rightarrow> string list \<Rightarrow> catalog_error option" where
  "check_aliases d seen [] = None"
| "check_aliases d seen (alias # rest) =
     (let normalized = normalize_lookup alias
      in if normalized = [] then Some (EmptyAlias (id_id d))
         else if normalized \<in> set seen then Some (DuplicateName normalized)
         else check_aliases d (normalized # seen) rest)"

definition descriptor_names :: "integration_descriptor \<Rightarrow> string list" where
  "descriptor_names d = id_id d # id_display_name d # id_aliases d"

fun insert_names :: "integration_descriptor \<Rightarrow> nat \<Rightarrow> string list \<Rightarrow> (string \<rightharpoonup> nat) \<Rightarrow> (catalog_error, string \<rightharpoonup> nat) outcome" where
  "insert_names d index [] names = Ok names"
| "insert_names d index (raw_name # rest) names =
     (let normalized = normalize_lookup raw_name
      in if normalized = [] then Err (EmptyAlias (id_id d))
         else (case names normalized of
             Some existing \<Rightarrow>
               if existing \<noteq> index then Err (DuplicateName normalized)
               else insert_names d index rest (names(normalized \<mapsto> index))
           | None \<Rightarrow> insert_names d index rest (names(normalized \<mapsto> index))))"

definition add_descriptor :: "nat \<Rightarrow> integration_descriptor \<Rightarrow> (string \<rightharpoonup> nat) \<Rightarrow> (catalog_error, string \<rightharpoonup> nat) outcome" where
  "add_descriptor index d names =
     (if trim (id_display_name d) = [] then Err (EmptyDisplayName (id_id d))
      else (case check_evidence d [] (id_capabilities d) of
          Some e \<Rightarrow> Err e
        | None \<Rightarrow> (case check_aliases d [] (id_aliases d) of
            Some e \<Rightarrow> Err e
          | None \<Rightarrow> insert_names d index (descriptor_names d) names)))"

fun add_descriptors :: "nat \<Rightarrow> integration_descriptor list \<Rightarrow> (string \<rightharpoonup> nat) \<Rightarrow> (catalog_error, string \<rightharpoonup> nat) outcome" where
  "add_descriptors index [] names = Ok names"
| "add_descriptors index (d # ds) names =
     (case add_descriptor index d names of
        Ok names' \<Rightarrow> add_descriptors (Suc index) ds names'
      | Err e \<Rightarrow> Err e
      | Panic m \<Rightarrow> Panic m)"

definition catalog_new :: "integration_descriptor list \<Rightarrow> (catalog_error, agent_catalog) outcome" where
  "catalog_new integrations =
     (case add_descriptors 0 integrations Map.empty of
        Ok names \<Rightarrow> Ok \<lparr>ac_integrations = integrations, ac_names = names\<rparr>
      | Err e \<Rightarrow> Err e
      | Panic m \<Rightarrow> Panic m)"

text \<open>Indexing a vector panics out of range.\<close>

definition catalog_get :: "agent_catalog \<Rightarrow> string \<Rightarrow> (catalog_error, integration_descriptor option) outcome" where
  "catalog_get c id_or_alias =
     (case ac_names c (normalize_lookup id_or_alias) of
        None \<Rightarrow> Ok None
      | Some index \<Rightarrow>
          if index < length (ac_integrations c) then Ok (Some (ac_integrations c ! index))
          else Panic ''index out of bounds'')"

definition catalog_verified :: "agent_catalog \<Rightarrow> integration_descriptor list" where
  "catalog_verified c = filter is_verified (ac_integrations c)"

section \<open>Search by executable and by file\<close>

definition basename :: "string \<Rightarrow> string" where
  "basename s = rev (takeWhile (\<lambda>c. c \<noteq> CHR ''/'' \<and> c \<noteq> CHR 0x5C) (rev s))"

definition normalize_executable :: "string \<Rightarrow> string" where
  "normalize_executable s =
     (let lowercase = to_ascii_lowercase (basename s)
      in case strip_suffix ''.exe'' lowercase of Some stem \<Rightarrow> stem | None \<Rightarrow> lowercase)"

fun compact_slashes :: "string \<Rightarrow> string \<Rightarrow> string" where
  "compact_slashes acc [] = acc"
| "compact_slashes acc (c # cs) =
     (if c \<noteq> CHR ''/'' \<or> \<not> ends_with ''/'' acc then compact_slashes (acc @ [c]) cs else compact_slashes acc cs)"

definition normalize_path :: "string \<Rightarrow> string" where
  "normalize_path s =
     compact_slashes [] (to_ascii_lowercase (map (\<lambda>c. if c = CHR 0x5C then CHR ''/'' else c) (trim s)))"

function trim_start_matches :: "string \<Rightarrow> string \<Rightarrow> string" where
  "trim_start_matches pat s =
     (if pat \<noteq> [] \<and> starts_with pat s then trim_start_matches pat (drop (length pat) s) else s)"
  by pat_completeness auto
termination
  by (relation "measure (\<lambda>(pat, s). length s)") (auto simp: starts_with_def prefix_def)

declare trim_start_matches.simps [simp del]

definition find_by_executable :: "agent_catalog \<Rightarrow> string \<Rightarrow> integration_descriptor list" where
  "find_by_executable c executable =
     filter (\<lambda>d. list_ex (\<lambda>candidate. normalize_executable candidate = normalize_executable executable) (id_executable_names d))
       (ac_integrations c)"

definition find_by_config_path :: "agent_catalog \<Rightarrow> string \<Rightarrow> integration_descriptor list" where
  "find_by_config_path c path =
     filter (\<lambda>d. list_ex (\<lambda>target. ends_with (normalize_path (trim_start_matches ''~/'' (ct_path_template target))) (normalize_path path))
         (id_config_targets d))
       (ac_integrations c)"

section \<open>The built-in entries\<close>

definition evidence :: "capability \<Rightarrow> capability_availability \<Rightarrow> string \<Rightarrow> capability_evidence" where
  "evidence c availability note =
     \<lparr>ce_capability = c, ce_availability = availability, ce_quality = VerifiedLocally, ce_note = note\<rparr>"

definition config_at :: "string \<Rightarrow> config_scope \<Rightarrow> target_format \<Rightarrow> config_target" where
  "config_at path scope format =
     \<lparr>ct_platform = AnyPlatform, ct_scope = scope, ct_path_template = path, ct_format = format\<rparr>"

definition verified ::
  "string \<Rightarrow> string \<Rightarrow> string list \<Rightarrow> string list \<Rightarrow> adapter_family \<Rightarrow> capability_evidence list \<Rightarrow> config_target list \<Rightarrow>
   integration_descriptor" where
  "verified i display_name aliases executables family capabilities config_targets =
     \<lparr>id_id = i, id_display_name = display_name, id_aliases = aliases, id_executable_names = executables,
      id_adapter_family = family, id_maturity = VerifiedCurrent, id_capabilities = capabilities,
      id_config_targets = config_targets\<rparr>"

definition declared :: "string \<Rightarrow> string \<Rightarrow> string list \<Rightarrow> integration_descriptor" where
  "declared i display_name aliases =
     \<lparr>id_id = i, id_display_name = display_name, id_aliases = aliases, id_executable_names = [],
      id_adapter_family = Undetermined, id_maturity = DeclaredUnverified, id_capabilities = [], id_config_targets = []\<rparr>"

definition claude_code_descriptor :: integration_descriptor where
  "claude_code_descriptor = verified ''claude-code'' ''Claude Code'' [''claude''] [''claude''] NativeHooks
     [evidence SessionEvents Supported ''Covered by the shipped Claude Code hooks.'',
      evidence ToolEvents PartialSupport ''The shipped hooks observe supported tool events.'',
      evidence AttentionEvents PartialSupport ''Permission attention is observed for supported events.'',
      evidence DecisionResponse PartialSupport ''Responses are gated to verified Claude Code versions and event types.'']
     [config_at ''~/.claude/settings.json'' ConfigUser FormatJson, config_at ''.claude/settings.json'' ConfigProject FormatJson]"

definition codex_descriptor :: integration_descriptor where
  "codex_descriptor = verified ''codex'' ''Codex'' [''openai codex'', ''codex cli''] [''codex''] JsonlHooks
     [evidence SessionEvents Supported ''Covered by the shipped Codex hooks.'',
      evidence ToolEvents PartialSupport ''Codex does not expose every tool path to hooks.'',
      evidence AttentionEvents PartialSupport ''Permission requests are observation-only.'',
      evidence DecisionResponse Unsupported ''The current Codex integration never returns decisions.'']
     [config_at ''~/.codex/hooks.json'' ConfigUser FormatJson, config_at ''.codex/hooks.json'' ConfigProject FormatJson, config_at ''~/.codex/config.toml'' ConfigUser FormatToml]"

definition gemini_cli_descriptor :: integration_descriptor where
  "gemini_cli_descriptor = verified ''gemini-cli'' ''Gemini CLI'' [''gemini''] [''gemini''] NativeHooks
     [evidence SessionEvents Supported ''Covered by the shipped Gemini lifecycle hooks.'',
      evidence ToolEvents PartialSupport ''BeforeTool and AfterTool are observed.'',
      evidence AttentionEvents PartialSupport ''ToolPermission notifications are observation-only.'',
      evidence DecisionResponse Unsupported ''The current Gemini integration never returns decisions.'']
     [config_at ''~/.gemini/settings.json'' ConfigUser FormatJson, config_at ''.gemini/settings.json'' ConfigProject FormatJson]"

definition antigravity_cli_descriptor :: integration_descriptor where
  "antigravity_cli_descriptor = verified ''antigravity-cli'' ''Antigravity CLI'' [''antigravity'', ''agy''] [''antigravity'', ''agy''] NativeHooks
     [evidence SessionEvents PartialSupport ''Stop hooks are observed; session start/end hooks are not yet mapped.'',
      evidence ToolEvents PartialSupport ''PreToolUse and PostToolUse are observed from Antigravity fixtures.'',
      evidence AttentionEvents Unsupported ''Antigravity hooks do not expose permission attention events.'',
      evidence DecisionResponse Unsupported ''The current Antigravity integration never returns decisions.'']
     [config_at ''.agents/hooks.json'' ConfigProject FormatJson, config_at ''.gemini/antigravity-cli/hooks.json'' ConfigUser FormatJson]"

definition cursor_descriptor :: integration_descriptor where
  "cursor_descriptor = verified ''cursor'' ''Cursor'' [''cursor agent'', ''cursor agent cli''] [''cursor'', ''agent''] IdeExtensionBridge
     [evidence SessionEvents Supported ''Covered by the shipped Cursor hooks.'',
      evidence ToolEvents PartialSupport ''Supported hook events are observed.'',
      evidence AttentionEvents Unsupported ''Current Cursor hooks do not expose permission attention.'',
      evidence DecisionResponse Unsupported ''The current Cursor integration never returns decisions.'']
     [config_at ''~/.cursor/hooks.json'' ConfigUser FormatJson, config_at ''.cursor/hooks.json'' ConfigProject FormatJson]"

definition qwen_descriptor :: integration_descriptor where
  "qwen_descriptor = verified ''qwen'' ''Qwen'' [''qwen code''] [''qwen''] NativeHooks
     [evidence SessionEvents Supported ''Covered by the shipped Qwen Code hooks.'',
      evidence ToolEvents PartialSupport ''PreToolUse and PostToolUse are observed.'',
      evidence AttentionEvents PartialSupport ''PermissionRequest hooks are observation-only.'',
      evidence DecisionResponse Unsupported ''The current Qwen integration never returns decisions.'']
     [config_at ''~/.qwen/settings.json'' ConfigUser FormatJson, config_at ''.qwen/settings.json'' ConfigProject FormatJson]"

definition copilot_descriptor :: integration_descriptor where
  "copilot_descriptor = verified ''copilot'' ''Copilot'' [''github copilot'', ''copilot cli''] [''copilot''] NativeHooks
     [evidence SessionEvents Supported ''Covered by the shipped Copilot CLI lifecycle hooks.'',
      evidence ToolEvents PartialSupport ''preToolUse and postToolUse are observed.'',
      evidence AttentionEvents PartialSupport ''permissionRequest hooks are observation-only.'',
      evidence DecisionResponse Unsupported ''The current Copilot integration never returns decisions.'']
     [config_at ''~/.copilot/hooks/llm-notch.json'' ConfigUser FormatJson, config_at ''.github/hooks/llm-notch.json'' ConfigProject FormatJson]"

definition vibe_island_descriptors :: "integration_descriptor list" where
  "vibe_island_descriptors =
     [claude_code_descriptor,
      codex_descriptor,
      declared ''zcode'' ''ZCode'' [],
      gemini_cli_descriptor,
      antigravity_cli_descriptor,
      cursor_descriptor,
      declared ''trae'' ''Trae'' [],
      declared ''opencode'' ''OpenCode'' [''open code''],
      declared ''mimocode'' ''MiMoCode'' [''mimo code''],
      declared ''droid'' ''Droid'' [''factory droid''],
      declared ''qoder'' ''Qoder'' [],
      qwen_descriptor,
      declared ''kimi-code'' ''Kimi Code'' [''kimi code cli''],
      declared ''deepseek'' ''DeepSeek'' [],
      declared ''mistral-vibe'' ''Mistral Vibe'' [''vibe cli''],
      copilot_descriptor,
      declared ''codebuddy'' ''CodeBuddy'' [''code buddy''],
      declared ''workbuddy'' ''WorkBuddy'' [''work buddy''],
      declared ''kiro'' ''Kiro'' [''kiro cli''],
      declared ''hermes'' ''Hermes'' [''hermes agent''],
      declared ''amp'' ''Amp'' [''amp code''],
      declared ''pi-agent'' ''Pi Agent'' [''pi coding agent''],
      declared ''oh-my-pi'' ''Oh My Pi'' [''omp''],
      declared ''gajae-code'' ''Gajae Code'' [''gajae''],
      declared ''kimi'' ''Kimi'' [''kimi cli'']]"

text \<open>Both \<open>expect\<close>s: the constants of identifiers, and the catalogue made of them.\<close>

definition vibe_island_25 :: "(catalog_error, agent_catalog) outcome" where
  "vibe_island_25 =
     (if \<not> list_all (\<lambda>d. is_valid_id (id_id d)) vibe_island_descriptors then Panic ''constant id must be valid''
      else (case catalog_new vibe_island_descriptors of
          Ok c \<Rightarrow> Ok c
        | Err e \<Rightarrow> Panic ''built-in catalog must be valid''
        | Panic m \<Rightarrow> Panic m))"


section \<open>Lookups\<close>

text \<open>The reference: the first integration that has the name, compared as the code compares names.\<close>

definition has_name :: "string \<Rightarrow> integration_descriptor \<Rightarrow> bool" where
  "has_name name d \<longleftrightarrow> normalize_lookup name \<in> set (map normalize_lookup (descriptor_names d))"

lemma insert_names_Ok:
  assumes "insert_names d index raw names = Ok names'"
  shows "names' = names ++ (\<lambda>k. if k \<in> normalize_lookup ` set raw then Some index else None) \<and>
    list_all (\<lambda>r. names (normalize_lookup r) \<in> {None, Some index}) raw"
  using assms
proof (induction raw arbitrary: names)
  case (Cons x raw)
  from Cons.prems have step: "insert_names d index raw (names(normalize_lookup x \<mapsto> index)) = Ok names'"
    and old: "names (normalize_lookup x) \<in> {None, Some index}"
    by (auto simp: Let_def split: if_splits option.splits)
  have names: "names' = names(normalize_lookup x \<mapsto> index) ++
      (\<lambda>k. if k \<in> normalize_lookup ` set raw then Some index else None)"
    and rest: "list_all (\<lambda>r. (names(normalize_lookup x \<mapsto> index)) (normalize_lookup r) \<in> {None, Some index}) raw"
    using Cons.IH [OF step] by (rule conjunct1, rule conjunct2)
  from rest old have "list_all (\<lambda>r. names (normalize_lookup r) \<in> {None, Some index}) raw"
    by (auto simp: list_all_iff split: if_splits)
  with names old show ?case by (auto simp: map_add_def fun_eq_iff split: option.splits)
qed simp

lemma insert_names_runs:
  assumes "\<And>r. r \<in> set raw \<Longrightarrow> normalize_lookup r \<noteq> [] \<and> names (normalize_lookup r) \<in> {None, Some index}"
  shows "\<exists>names'. insert_names d index raw names = Ok names'"
  using assms
proof (induction raw arbitrary: names)
  case (Cons x raw)
  have "\<exists>names'. insert_names d index raw (names(normalize_lookup x \<mapsto> index)) = Ok names'"
    by (rule Cons.IH) (use Cons.prems in auto)
  with Cons.prems [of x] show ?case by (auto simp: Let_def split: option.split)
qed simp

lemma add_descriptor_Ok:
  assumes "add_descriptor index d names = Ok names'"
  shows "names' = names ++ (\<lambda>k. if k \<in> normalize_lookup ` set (descriptor_names d) then Some index else None)"
    and "r \<in> set (descriptor_names d) \<Longrightarrow> names (normalize_lookup r) \<in> {None, Some index}"
proof -
  from assms have "insert_names d index (descriptor_names d) names = Ok names'"
    by (simp add: add_descriptor_def split: if_splits option.splits)
  from insert_names_Ok [OF this, unfolded list_all_iff] show "names' = names ++ (\<lambda>k. if k \<in> normalize_lookup ` set (descriptor_names d) then Some index else None)"
    and "r \<in> set (descriptor_names d) \<Longrightarrow> names (normalize_lookup r) \<in> {None, Some index}" by auto
qed

text \<open>The index after the loop, for a loop that starts with the integrations \<open>before\<close> in it.\<close>

definition index_of :: "integration_descriptor list \<Rightarrow> (string \<rightharpoonup> nat) \<Rightarrow> bool" where
  "index_of ds names \<longleftrightarrow>
     (\<forall>k i. names k = Some i \<longleftrightarrow> i < length ds \<and> k \<in> normalize_lookup ` set (descriptor_names (ds ! i)))"

lemma index_of_snoc:
  assumes "index_of ds names" and "add_descriptor (length ds) d names = Ok names'"
  shows "index_of (ds @ [d]) names'"
proof -
  note added = add_descriptor_Ok [OF assms(2)]
  have "names k = None" if "k \<in> normalize_lookup ` set (descriptor_names d)" for k
    using that added(2) assms(1) unfolding index_of_def by (metis (no_types, lifting) imageE insertE less_irrefl singletonD)
  then have "names (normalize_lookup x) = None" if "x \<in> set (descriptor_names d)" for x using that by blast
  with assms(1) show ?thesis
    unfolding index_of_def added(1)
    by (auto simp: map_add_def nth_append less_Suc_eq split: if_splits option.splits) (metis imageI option.distinct(1))
qed

lemma add_descriptors_index:
  assumes "add_descriptors (length before) ds names = Ok names'" and "index_of before names"
  shows "index_of (before @ ds) names'"
  using assms
proof (induction ds arbitrary: before names)
  case (Cons d ds)
  from Cons.prems(1) obtain names1 where one: "add_descriptor (length before) d names = Ok names1"
    and rest: "add_descriptors (length (before @ [d])) ds names1 = Ok names'" by (auto split: outcome.splits)
  from Cons.IH [OF rest index_of_snoc [OF Cons.prems(2) one]] show ?case by simp
qed simp

lemma catalog_new_index: "catalog_new ds = Ok c \<Longrightarrow> ac_integrations c = ds \<and> index_of ds (ac_names c)"
  using add_descriptors_index [of "[]" ds Map.empty] by (auto simp: catalog_new_def index_of_def split: outcome.splits)

lemma index_of_unique:
  assumes "index_of ds names" and "i < length ds" and "j < length ds" and "has_name name (ds ! i)" and "has_name name (ds ! j)"
  shows "i = j"
  using assms unfolding index_of_def has_name_def by (metis (no_types, lifting) list.set_map option.inject)

lemma catalog_get_find:
  assumes "catalog_new ds = Ok c"
  shows "catalog_get c name = Ok (List.find (has_name name) ds)"
proof -
  from catalog_new_index [OF assms] have ds: "ac_integrations c = ds" and idx: "index_of ds (ac_names c)" by auto
  have member: "ac_names c (normalize_lookup name) = Some i \<longleftrightarrow> i < length ds \<and> has_name name (ds ! i)" for i
    using idx by (simp add: index_of_def has_name_def)
  show ?thesis
  proof (cases "ac_names c (normalize_lookup name)")
    case None
    with member have "\<forall>i < length ds. \<not> has_name name (ds ! i)" by auto
    then have "List.find (has_name name) ds = None" by (auto simp: find_None_iff in_set_conv_nth)
    with None show ?thesis by (simp add: catalog_get_def)
  next
    case (Some i)
    with member have i: "i < length ds" "has_name name (ds ! i)" by auto
    moreover have "\<not> has_name name (ds ! j)" if "j < i" for j
      using index_of_unique [OF idx, of j i name] that i by auto
    ultimately have "List.find (has_name name) ds = Some (ds ! i)" by (auto simp: find_Some_iff)
    with Some i ds show ?thesis by (simp add: catalog_get_def)
  qed
qed

lemma names_unique:
  assumes "catalog_new ds = Ok c"
  shows "length (filter (has_name name) ds) \<le> 1"
  using index_of_unique [of ds "ac_names c"] catalog_new_index [OF assms] unfolding length_filter_conv_card One_nat_def
  by (subst card_le_Suc0_iff_eq) auto

lemma find_only:
  assumes "length (filter P xs) \<le> 1" and "x \<in> set xs" and "P x"
  shows "List.find P xs = Some x"
  using assms
proof (induction xs)
  case (Cons y ys)
  then show ?case by (cases "P y") (auto simp: filter_empty_conv)
qed simp

text \<open>
  (C22) The index of the catalogue is the linear search it stands for: in every catalogue that
  validation accepts, looking up any spelling of an identifier, display name or alias never indexes out
  of range and returns exactly the first integration that carries the name, and no other integration carries it.
\<close>

theorem catalog_lookup_is_search:
  assumes "catalog_new ds = Ok c"
  shows "catalog_get c name = Ok (List.find (has_name name) ds) \<and> length (filter (has_name name) ds) \<le> 1"
  using catalog_get_find [OF assms] names_unique [OF assms] by blast

section \<open>The built-in catalogue is valid\<close>

lemmas name_simps = normalize_lookup_def trim_alphanumeric lower_letters upper_letters other_chars

definition builtin_names :: "string list list" where
  "builtin_names =
     [[''claudecode'', ''claudecode'', ''claude''], [''codex'', ''codex'', ''openaicodex'', ''codexcli''], [''zcode'', ''zcode''],
      [''geminicli'', ''geminicli'', ''gemini''], [''antigravitycli'', ''antigravitycli'', ''antigravity'', ''agy''],
      [''cursor'', ''cursor'', ''cursoragent'', ''cursoragentcli''], [''trae'', ''trae''], [''opencode'', ''opencode'', ''opencode''],
      [''mimocode'', ''mimocode'', ''mimocode''], [''droid'', ''droid'', ''factorydroid''], [''qoder'', ''qoder''],
      [''qwen'', ''qwen'', ''qwencode''], [''kimicode'', ''kimicode'', ''kimicodecli''], [''deepseek'', ''deepseek''],
      [''mistralvibe'', ''mistralvibe'', ''vibecli''], [''copilot'', ''copilot'', ''githubcopilot'', ''copilotcli''],
      [''codebuddy'', ''codebuddy'', ''codebuddy''], [''workbuddy'', ''workbuddy'', ''workbuddy''], [''kiro'', ''kiro'', ''kirocli''],
      [''hermes'', ''hermes'', ''hermesagent''], [''amp'', ''amp'', ''ampcode''], [''piagent'', ''piagent'', ''picodingagent''],
      [''ohmypi'', ''ohmypi'', ''omp''], [''gajaecode'', ''gajaecode'', ''gajae''], [''kimi'', ''kimi'', ''kimicli'']]"

lemmas builtin_defs = vibe_island_descriptors_def claude_code_descriptor_def codex_descriptor_def gemini_cli_descriptor_def
  antigravity_cli_descriptor_def cursor_descriptor_def qwen_descriptor_def copilot_descriptor_def verified_def declared_def evidence_def

lemma builtin_names: "map (\<lambda>d. map normalize_lookup (descriptor_names d)) vibe_island_descriptors = builtin_names"
  by (simp add: builtin_defs descriptor_names_def builtin_names_def name_simps)

lemma builtin_names_disjoint: "sorted_wrt (\<lambda>a b. list_all (\<lambda>x. x \<notin> set b) a) builtin_names"
  by (simp add: builtin_names_def)

lemma builtin_entries_checked:
  "list_all (\<lambda>d. trim (id_display_name d) \<noteq> [] \<and> check_evidence d [] (id_capabilities d) = None \<and> check_aliases d [] (id_aliases d) = None)
     vibe_island_descriptors"
  by (simp add: builtin_defs name_simps)

lemma builtin_ids: "list_all (\<lambda>d. is_valid_id (id_id d)) vibe_island_descriptors"
  by (simp add: builtin_defs is_valid_id_def ascii_classes ends_with_def suffix_to_prefix contains_sub_def)

text \<open>Entries that pass their own checks and share no name make a catalogue.\<close>

lemma add_descriptors_runs:
  assumes "list_all (\<lambda>d. trim (id_display_name d) \<noteq> [] \<and> check_evidence d [] (id_capabilities d) = None \<and>
      check_aliases d [] (id_aliases d) = None \<and> list_all (\<lambda>r. normalize_lookup r \<noteq> []) (descriptor_names d)) ds"
    and "sorted_wrt (\<lambda>a b. list_all (\<lambda>x. x \<notin> set b) a) (map (\<lambda>d. map normalize_lookup (descriptor_names d)) ds)"
    and "\<And>d r. d \<in> set ds \<Longrightarrow> r \<in> set (descriptor_names d) \<Longrightarrow> names (normalize_lookup r) = None"
  shows "\<exists>names'. add_descriptors index ds names = Ok names'"
  using assms
proof (induction ds arbitrary: index names)
  case (Cons d ds)
  have "\<exists>names'. insert_names d index (descriptor_names d) names = Ok names'"
    by (rule insert_names_runs) (use Cons.prems(1,3) in \<open>auto simp: list_all_iff\<close>)
  with Cons.prems(1) obtain names1 where one: "add_descriptor index d names = Ok names1" by (auto simp: add_descriptor_def)
  have "names1 (normalize_lookup r) = None" if "e \<in> set ds" "r \<in> set (descriptor_names e)" for e r
  proof -
    have "\<forall>x \<in> set (descriptor_names d). normalize_lookup x \<noteq> normalize_lookup r"
      using Cons.prems(2) that by (simp add: list_all_iff) blast
    then have "normalize_lookup r \<notin> normalize_lookup ` set (descriptor_names d)" by auto
    with add_descriptor_Ok(1) [OF one] Cons.prems(3) [of e r] that show ?thesis by (simp add: map_add_def)
  qed
  with Cons.IH [of names1 "Suc index"] Cons.prems(1,2) one show ?case by auto
qed simp

lemma builtin_names_nonempty: "list_all (list_all (\<lambda>s. s \<noteq> [])) builtin_names"
  by (simp add: builtin_names_def)

lemma builtin_catalog: "\<exists>c. vibe_island_25 = Ok c \<and> catalog_new vibe_island_descriptors = Ok c"
proof -
  have "list_all (\<lambda>d. list_all (\<lambda>r. normalize_lookup r \<noteq> []) (descriptor_names d)) vibe_island_descriptors"
    using builtin_names_nonempty unfolding builtin_names [symmetric] by (simp add: list_all_iff)
  with builtin_entries_checked have "\<exists>names. add_descriptors 0 vibe_island_descriptors Map.empty = Ok names"
    by (intro add_descriptors_runs) (simp_all add: builtin_names builtin_names_disjoint, simp add: list_all_iff)
  with builtin_ids show ?thesis by (auto simp: vibe_island_25_def catalog_new_def)
qed

theorem catalog_lookup_is_search_witness:
  "\<exists>c. catalog_new [declared ''kimi'' ''Kimi'' [''kimi cli'']] = Ok c \<and>
     catalog_get c ''KIMI-CLI'' = Ok (Some (declared ''kimi'' ''Kimi'' [''kimi cli'']))"
proof -
  let ?d = "declared ''kimi'' ''Kimi'' [''kimi cli'']"
  have "\<exists>names. add_descriptors 0 [?d] Map.empty = Ok names"
    by (rule add_descriptors_runs) (simp_all add: declared_def descriptor_names_def name_simps)
  then obtain c where c: "catalog_new [?d] = Ok c" by (auto simp: catalog_new_def)
  have "has_name ''KIMI-CLI'' ?d" by (simp add: has_name_def descriptor_names_def declared_def name_simps)
  with catalog_lookup_is_search [OF c, of "''KIMI-CLI''"] c show ?thesis by simp
qed

end
