(* ===== verification/Connector_Health.thy ===== *)
theory Connector_Health
  imports Connector_Plan Agent_Catalog "HOL-Library.Product_Lexorder"
begin

text \<open>
  \<^verbatim>\<open>crates/notch-connectors/src/executable.rs\<close>, \<^verbatim>\<open>process_scan.rs\<close>, \<^verbatim>\<open>detect.rs\<close>, \<^verbatim>\<open>health.rs\<close>, the status
  mapping of \<^verbatim>\<open>notch-protocol/src/health.rs\<close> and the health calls of \<^verbatim>\<open>manager.rs\<close>: which agents are
  installed, whether their hooks are ours, and the one status the user sees. Environment variables, the
  list of processes and the answers of the file system are the environment.
\<close>

section \<open>Executables\<close>

record probe_env =
  pe_paths :: path_world
  pe_var :: "string \<Rightarrow> string option"
  pe_processes :: "string list"
  pe_sort_dedup :: "string list \<Rightarrow> string list"

text \<open>The Unix build: one candidate per directory, and \<open>split_paths\<close> splits at colons.\<close>

definition candidate_paths :: "string \<Rightarrow> string \<Rightarrow> string list" where
  "candidate_paths dir name = [path_join dir name]"

definition first_file :: "probe_env \<Rightarrow> string list \<Rightarrow> string option" where
  "first_file pe candidates = List.find (pw_is_file (pe_paths pe)) candidates"

definition find_on_path :: "probe_env \<Rightarrow> string \<Rightarrow> string option" where
  "find_on_path pe name =
     Option.bind (pe_var pe ''PATH'') (\<lambda>path_var.
       first_file pe (concat (map (\<lambda>dir. candidate_paths dir name) (split_at (CHR '':'') path_var))))"

definition known_search_dirs :: "probe_env \<Rightarrow> string list" where
  "known_search_dirs pe =
     (case pe_var pe ''HOME'' of
        None \<Rightarrow> []
      | Some home \<Rightarrow> [path_join (path_join home ''.local'') ''bin'', path_join (path_join home ''.npm-global'') ''bin'']) @
     [''/usr/local/bin'']"

fun first_some :: "('a \<Rightarrow> 'b option) \<Rightarrow> 'a list \<Rightarrow> 'b option" where
  "first_some f [] = None"
| "first_some f (x # xs) = (case f x of None \<Rightarrow> first_some f xs | r \<Rightarrow> r)"

definition resolve_executable :: "probe_env \<Rightarrow> string list \<Rightarrow> string option" where
  "resolve_executable pe names =
     (case first_some (find_on_path pe) names of
        Some path \<Rightarrow> Some path
      | None \<Rightarrow> first_file pe (concat (map (\<lambda>dir. concat (map (candidate_paths dir) names)) (known_search_dirs pe))))"

definition any_executable :: "probe_env \<Rightarrow> string list \<Rightarrow> bool" where
  "any_executable pe names \<longleftrightarrow> resolve_executable pe names \<noteq> None"

definition any_on_path :: "probe_env \<Rightarrow> string list \<Rightarrow> bool" where
  "any_on_path pe names \<longleftrightarrow> list_ex (\<lambda>name. find_on_path pe name \<noteq> None) names"

section \<open>Processes\<close>

record process_running_evidence =
  pr_running :: bool
  pr_matched_name :: "string option"

definition AMBIGUOUS_PROCESS_NAMES :: "string list" where
  "AMBIGUOUS_PROCESS_NAMES = [''agent'']"

definition is_ambiguous_process_name :: "string \<Rightarrow> bool" where
  "is_ambiguous_process_name name \<longleftrightarrow> name \<in> set AMBIGUOUS_PROCESS_NAMES"

definition normalize_process_basename :: "string \<Rightarrow> string" where
  "normalize_process_basename s =
     (let lowercase = to_ascii_lowercase (basename s)
      in case strip_suffix ''.exe'' lowercase of Some stem \<Rightarrow> stem | None \<Rightarrow> lowercase)"

text \<open>\<open>AgentCatalog::vibe_island_25().get(id)\<close>\<close>

definition builtin_entry :: "string \<Rightarrow> (connector_error, integration_descriptor option) outcome" where
  "builtin_entry catalog_id =
     (case vibe_island_25 of
        Ok c \<Rightarrow> (case catalog_get c catalog_id of Ok d \<Rightarrow> Ok d | Err e \<Rightarrow> Panic [] | Panic m \<Rightarrow> Panic m)
      | Err e \<Rightarrow> Panic []
      | Panic m \<Rightarrow> Panic m)"

definition scan_patterns_of :: "integration_descriptor \<Rightarrow> string list" where
  "scan_patterns_of d =
     filter (\<lambda>name. \<not> is_ambiguous_process_name name)
       (filter (\<lambda>name. name \<noteq> []) (map normalize_process_basename (id_executable_names d)))"

definition process_scan_patterns_for :: "string \<Rightarrow> string list conn_op" where
  "process_scan_patterns_for catalog_id =
     bind (lift (builtin_entry catalog_id)) (\<lambda>d. ret (case d of None \<Rightarrow> [] | Some d \<Rightarrow> scan_patterns_of d))"

fun scan_running_process :: "string list \<Rightarrow> string list \<Rightarrow> process_running_evidence" where
  "scan_running_process patterns [] = \<lparr>pr_running = False, pr_matched_name = None\<rparr>"
| "scan_running_process patterns (process # rest) =
     (let normalized = normalize_process_basename process
      in if list_ex (\<lambda>pattern. pattern = normalized) patterns
         then \<lparr>pr_running = True, pr_matched_name = Some normalized\<rparr>
         else scan_running_process patterns rest)"

definition process_running_for_catalog :: "probe_env \<Rightarrow> string \<Rightarrow> process_running_evidence conn_op" where
  "process_running_for_catalog pe catalog_id =
     bind (process_scan_patterns_for catalog_id) (\<lambda>patterns.
       ret (if patterns = [] then \<lparr>pr_running = False, pr_matched_name = None\<rparr>
            else scan_running_process patterns (pe_processes pe)))"

section \<open>Detection\<close>

record detected_connector =
  dc_source :: agent_source
  dc_scope :: connector_scope
  dc_display_path :: string
  dc_config_present :: bool
  dc_managed_entries_present :: bool
  dc_executable_present :: bool
  dc_executable_path :: "string option"
  dc_process_running :: bool
  dc_running_process_name :: "string option"
  dc_managed_commands :: "string list"

definition file_managed_commands :: "fs_env \<Rightarrow> text_env \<Rightarrow> string \<Rightarrow> string list conn_op" where
  "file_managed_commands w t path = bind disk_files (\<lambda>files.
     if \<not> path_exists w files path then ret []
     else or_default [] (bind (read_to_string ConnectorInternal path) (\<lambda>raw.
       ret (case te_parse t raw of Inl message \<Rightarrow> [] | Inr v \<Rightarrow> collect_managed_commands v))))"

definition executable_present_for :: "probe_env \<Rightarrow> string \<Rightarrow> bool conn_op" where
  "executable_present_for pe catalog_id =
     bind (lift (builtin_entry catalog_id)) (\<lambda>d. ret (case d of None \<Rightarrow> False | Some d \<Rightarrow> any_executable pe (id_executable_names d)))"

definition executable_path_for :: "probe_env \<Rightarrow> string \<Rightarrow> string option conn_op" where
  "executable_path_for pe catalog_id =
     bind (lift (builtin_entry catalog_id)) (\<lambda>d. ret (Option.bind d (\<lambda>d. resolve_executable pe (id_executable_names d))))"

definition probe_scope ::
  "fs_env \<Rightarrow> text_env \<Rightarrow> adapter_descriptor \<Rightarrow> connector_scope \<Rightarrow> scope_root \<Rightarrow> bool \<Rightarrow> string option \<Rightarrow> process_running_evidence \<Rightarrow>
   detected_connector conn_op" where
  "probe_scope w t a scope root_dir executable_present executable_path process =
     bind (resolve_in_scope w root_dir (tf_relative_path (target_for a scope))) (\<lambda>canonical.
     bind disk_files (\<lambda>files.
     bind (if path_exists w files canonical then file_managed_commands w t canonical else ret []) (\<lambda>managed_commands.
       ret \<lparr>dc_source = ad_source a, dc_scope = scope,
         dc_display_path = scope_display_path root_dir (tf_relative_path (target_for a scope)),
         dc_config_present = path_exists w files canonical, dc_managed_entries_present = (managed_commands \<noteq> []),
         dc_executable_present = executable_present, dc_executable_path = executable_path,
         dc_process_running = pr_running process, dc_running_process_name = pr_matched_name process,
         dc_managed_commands = managed_commands\<rparr>)))"

text \<open>\<open>if let Ok(root) = \<dots>\<close>\<close>

definition try_op :: "'a conn_op \<Rightarrow> 'a option conn_op" where
  "try_op m d = (case m d of (Ok x, d') \<Rightarrow> (Ok (Some x), d') | (Err e, d') \<Rightarrow> (Ok None, d') | (Panic p, d') \<Rightarrow> (Panic p, d'))"

definition detect_source :: "fs_env \<Rightarrow> text_env \<Rightarrow> probe_env \<Rightarrow> conn_config \<Rightarrow> agent_source \<Rightarrow> detected_connector list conn_op" where
  "detect_source w t pe config source =
     (case registry_adapter (cc_integrations_root config) source of
        None \<Rightarrow> throw (ConnectorNotFound (''unsupported source: '' @ debug_source source))
      | Some a \<Rightarrow>
          bind (executable_present_for pe (ad_catalog_id a)) (\<lambda>present.
          bind (executable_path_for pe (ad_catalog_id a)) (\<lambda>path.
          bind (process_running_for_catalog pe (ad_catalog_id a)) (\<lambda>process.
          bind (scope_user_home w (cc_home config)) (\<lambda>home.
          bind (probe_scope w t a ScopeUser home present path process) (\<lambda>user.
            (case cc_workspace_root config of
               None \<Rightarrow> ret [user]
             | Some workspace \<Rightarrow>
                 bind (try_op (scope_project w workspace)) (\<lambda>project.
                   (case project of
                      None \<Rightarrow> ret [user]
                    | Some dir \<Rightarrow> bind (probe_scope w t a ScopeProject dir present path process) (\<lambda>p. ret [user, p]))))))))))"

fun detect_sources :: "fs_env \<Rightarrow> text_env \<Rightarrow> probe_env \<Rightarrow> conn_config \<Rightarrow> agent_source list \<Rightarrow> detected_connector list conn_op" where
  "detect_sources w t pe config [] = ret []"
| "detect_sources w t pe config (source # rest) =
     bind (detect_source w t pe config source) (\<lambda>found.
     bind (detect_sources w t pe config rest) (\<lambda>others. ret (found @ others)))"

definition detect_all :: "fs_env \<Rightarrow> text_env \<Rightarrow> probe_env \<Rightarrow> conn_config \<Rightarrow> detected_connector list conn_op" where
  "detect_all w t pe config = detect_sources w t pe config supported_sources"

section \<open>Probes\<close>

datatype health_probe_axis = Installation | Trust | Traffic | Helper | ProcessAxis

datatype health_probe_outcome = ProbeOk | ProbeWarn | ProbeFail

datatype health_probe_failure_kind =
    AgentNotFound | HooksNotInstalled | TrustRequired | HelperUnavailable | HelperPathMissing | HooksMisconfiguredKind
  | NoTraffic | ConfigDrift | InternalProbeError

record health_probe_result =
  hp_axis :: health_probe_axis
  hp_outcome :: health_probe_outcome
  hp_failure_kind :: "health_probe_failure_kind option"
  hp_detail :: "string option"

datatype connector_user_status =
    StatusNotFound | StatusNotInstalled | StatusActionNeeded | StatusWaitingFirstEvent | StatusHelperMissing
  | StatusHooksMisconfigured | StatusConnected | StatusDriftDetected | StatusError

definition probe_ok :: "health_probe_axis \<Rightarrow> health_probe_result" where
  "probe_ok axis = \<lparr>hp_axis = axis, hp_outcome = ProbeOk, hp_failure_kind = None, hp_detail = None\<rparr>"

definition installation_probe :: "detected_connector \<Rightarrow> health_probe_result" where
  "installation_probe d =
     (if dc_config_present d then
        (if \<not> dc_managed_entries_present d
         then \<lparr>hp_axis = Installation, hp_outcome = ProbeWarn, hp_failure_kind = Some ConfigDrift,
           hp_detail = Some (''Hook config present '' @ em_dash @ '' llm_notch hooks need repair'')\<rparr>
         else probe_ok Installation)
      else if dc_executable_present d then
        \<lparr>hp_axis = Installation, hp_outcome = ProbeFail, hp_failure_kind = Some HooksNotInstalled,
         hp_detail = Some (case dc_executable_path d of
             None \<Rightarrow> ''CLI installed '' @ em_dash @ '' hook config missing; use Connect to wire llm_notch hooks''
           | Some path \<Rightarrow> ''CLI installed at '' @ path @ '' '' @ em_dash @ '' hook config missing; use Connect to wire llm_notch hooks'')\<rparr>
      else
        \<lparr>hp_axis = Installation, hp_outcome = ProbeFail, hp_failure_kind = Some AgentNotFound,
         hp_detail = Some (''No config at '' @ dc_display_path d @ '' and agent CLI not found on PATH'')\<rparr>)"

definition trust_probe :: "string \<Rightarrow> detected_connector \<Rightarrow> int option \<Rightarrow> health_probe_result" where
  "trust_probe base d last_event =
     (case registry_adapter base (dc_source d) of
        None \<Rightarrow> probe_ok Trust
      | Some a \<Rightarrow>
          if ad_external_trust_actions a = [] then probe_ok Trust
          else if dc_managed_entries_present d \<and> last_event \<noteq> None then probe_ok Trust
          else \<lparr>hp_axis = Trust, hp_outcome = ProbeWarn, hp_failure_kind = Some TrustRequired,
            hp_detail = Some (et_instructions (hd (ad_external_trust_actions a)))\<rparr>)"

definition helper_exists :: "probe_env \<Rightarrow> string \<Rightarrow> bool" where
  "helper_exists pe helper_path = pw_is_file (pe_paths pe) helper_path"

definition helper_fail :: "health_probe_failure_kind \<Rightarrow> string \<Rightarrow> health_probe_result" where
  "helper_fail kind detail = \<lparr>hp_axis = Helper, hp_outcome = ProbeFail, hp_failure_kind = Some kind, hp_detail = Some detail\<rparr>"

definition helper_verdict :: "probe_env \<Rightarrow> string list \<Rightarrow> string \<Rightarrow> configured_helper_validation" where
  "helper_verdict pe commands expected = validate_configured_helper_paths (pe_paths pe) (pe_sort_dedup pe) commands expected"

definition helper_probe_for_managed_hooks :: "probe_env \<Rightarrow> string list \<Rightarrow> string \<Rightarrow> health_probe_result" where
  "helper_probe_for_managed_hooks pe commands expected =
     (case helper_verdict pe commands expected of
        HelperOk \<Rightarrow>
          if helper_exists pe expected then probe_ok Helper
          else helper_fail HelperPathMissing (''Hook helper path not found: '' @ expected)
      | UnresolvedPlaceholder \<Rightarrow>
          helper_fail HooksMisconfiguredKind ''Managed hook command still contains an unresolved helper placeholder''
      | PathMissing configured \<Rightarrow> helper_fail HelperPathMissing (''Hook helper path not found: '' @ configured)
      | PathMismatch configured expected \<Rightarrow>
          helper_fail HooksMisconfiguredKind (''Hook helper path '' @ configured @ '' does not match bundled helper '' @ expected))"

definition helper_probe :: "probe_env \<Rightarrow> detected_connector \<Rightarrow> string \<Rightarrow> health_probe_result" where
  "helper_probe pe d expected =
     (if dc_managed_entries_present d then helper_probe_for_managed_hooks pe (dc_managed_commands d) expected
      else if helper_exists pe expected then probe_ok Helper
      else helper_fail HelperUnavailable ''Bundled llm-notch-hook helper not found'')"

definition RECENT_TRAFFIC_MS :: int where
  "RECENT_TRAFFIC_MS = 15 * 60 * 1000"

definition traffic_probe :: "detected_connector \<Rightarrow> int option \<Rightarrow> int \<Rightarrow> health_probe_result" where
  "traffic_probe d last_event now_ms =
     (if \<not> dc_managed_entries_present d
      then \<lparr>hp_axis = Traffic, hp_outcome = ProbeFail, hp_failure_kind = Some NoTraffic, hp_detail = Some ''Integration not installed''\<rparr>
      else (case last_event of
          Some at_ms \<Rightarrow>
            if sat_i64 (now_ms - at_ms) \<le> RECENT_TRAFFIC_MS then probe_ok Traffic
            else \<lparr>hp_axis = Traffic, hp_outcome = ProbeWarn, hp_failure_kind = Some NoTraffic,
              hp_detail = Some (''No events in '' @ dec_string (nat (sat_i64 (now_ms - at_ms) div 60000)) @ ''m'')\<rparr>
        | None \<Rightarrow> \<lparr>hp_axis = Traffic, hp_outcome = ProbeFail, hp_failure_kind = Some NoTraffic,
            hp_detail = Some ''No recent events observed''\<rparr>))"

definition process_probe :: "detected_connector \<Rightarrow> health_probe_result option" where
  "process_probe d =
     (if \<not> dc_process_running d then None
      else Some \<lparr>hp_axis = ProcessAxis, hp_outcome = ProbeOk, hp_failure_kind = None,
        hp_detail = map_option (\<lambda>name. ''Agent process running ('' @ name @ ''); session not verified by hooks'')
          (dc_running_process_name d)\<rparr>)"

definition build_probes :: "probe_env \<Rightarrow> string \<Rightarrow> detected_connector \<Rightarrow> string \<Rightarrow> int option \<Rightarrow> int \<Rightarrow> health_probe_result list" where
  "build_probes pe base d expected last_event now_ms =
     [installation_probe d, trust_probe base d last_event, helper_probe pe d expected, traffic_probe d last_event now_ms] @
     (case process_probe d of None \<Rightarrow> [] | Some p \<Rightarrow> [p])"

section \<open>The status\<close>

definition probe_at :: "health_probe_result list \<Rightarrow> health_probe_axis \<Rightarrow> health_probe_result option" where
  "probe_at actionable axis = List.find (\<lambda>p. hp_axis p = axis) actionable"

definition installation_status :: "health_probe_result \<Rightarrow> connector_user_status option" where
  "installation_status p =
     (case hp_outcome p of
        ProbeFail \<Rightarrow> Some (if hp_failure_kind p = Some AgentNotFound then StatusNotFound else StatusNotInstalled)
      | ProbeWarn \<Rightarrow> Some StatusDriftDetected
      | ProbeOk \<Rightarrow> None)"

definition helper_status :: "health_probe_result \<Rightarrow> connector_user_status" where
  "helper_status p =
     (case hp_failure_kind p of
        Some HelperPathMissing \<Rightarrow> StatusHelperMissing
      | Some HooksMisconfiguredKind \<Rightarrow> StatusHooksMisconfigured
      | _ \<Rightarrow> StatusError)"

definition map_probes_to_user_status :: "health_probe_result list \<Rightarrow> connector_user_status" where
  "map_probes_to_user_status probes =
     (let actionable = filter (\<lambda>p. hp_axis p \<noteq> ProcessAxis) probes
      in case Option.bind (probe_at actionable Installation) installation_status of
           Some status \<Rightarrow> status
         | None \<Rightarrow>
             if (case probe_at actionable Trust of Some p \<Rightarrow> hp_outcome p \<noteq> ProbeOk | None \<Rightarrow> False) then StatusActionNeeded
             else (case probe_at actionable Helper of
                 Some p \<Rightarrow>
                   if hp_outcome p = ProbeFail then helper_status p
                   else if (case probe_at actionable Traffic of Some q \<Rightarrow> hp_outcome q \<noteq> ProbeOk | None \<Rightarrow> False) then StatusWaitingFirstEvent
                   else if list_ex (\<lambda>q. hp_outcome q = ProbeWarn) actionable then StatusDriftDetected
                   else if list_all (\<lambda>q. hp_outcome q = ProbeOk) actionable then StatusConnected
                   else StatusError
               | None \<Rightarrow>
                   if (case probe_at actionable Traffic of Some q \<Rightarrow> hp_outcome q \<noteq> ProbeOk | None \<Rightarrow> False) then StatusWaitingFirstEvent
                   else if list_ex (\<lambda>q. hp_outcome q = ProbeWarn) actionable then StatusDriftDetected
                   else if list_all (\<lambda>q. hp_outcome q = ProbeOk) actionable then StatusConnected
                   else StatusError))"

definition default_detail :: "connector_user_status \<Rightarrow> string option" where
  "default_detail status =
     (case status of
        StatusConnected \<Rightarrow> None
      | StatusWaitingFirstEvent \<Rightarrow> Some ''Hooks installed; waiting for the first agent event.''
      | StatusActionNeeded \<Rightarrow> Some ''Complete the external trust step, then start an agent session.''
      | StatusDriftDetected \<Rightarrow> Some (''Configuration drift detected '' @ em_dash @ '' review and repair.'')
      | StatusNotInstalled \<Rightarrow> Some ''Agent CLI or llm_notch hooks are not fully connected.''
      | StatusNotFound \<Rightarrow> Some ''Agent config path not found.''
      | StatusHelperMissing \<Rightarrow> Some ''Hook helper binary is missing at the configured path. Use Repair to rewrite hooks.''
      | StatusHooksMisconfigured \<Rightarrow> Some ''Hook helper path does not match the bundled helper. Use Repair to reconcile paths.''
      | StatusError \<Rightarrow> Some ''Connector health probe failed.'')"

definition detail_for :: "connector_user_status \<Rightarrow> health_probe_result list \<Rightarrow> string option" where
  "detail_for status probes =
     (case Option.bind (List.find (\<lambda>p. hp_axis p = Helper \<and> hp_detail p \<noteq> None) probes) hp_detail of
        Some detail \<Rightarrow>
          if status = StatusHelperMissing \<or> status = StatusHooksMisconfigured then Some detail else default_detail status
      | None \<Rightarrow> default_detail status)"

record connector_health_entry =
  he_source :: agent_source
  he_status :: connector_user_status
  he_probes :: "health_probe_result list"
  he_capabilities :: adapter_capabilities
  he_detail :: "string option"

definition probe_connector ::
  "probe_env \<Rightarrow> string \<Rightarrow> detected_connector \<Rightarrow> adapter_capabilities \<Rightarrow> string \<Rightarrow> int option \<Rightarrow> int \<Rightarrow> connector_health_entry" where
  "probe_connector pe base d capabilities expected last_event now_ms =
     (let probes = build_probes pe base d expected last_event now_ms;
          status = map_probes_to_user_status probes
      in \<lparr>he_source = dc_source d, he_status = status, he_probes = probes, he_capabilities = capabilities,
          he_detail = detail_for status probes\<rparr>)"

section \<open>Reports of the manager\<close>

record connector_health_report =
  hr_checked_at_ms :: int
  hr_adapters :: "connector_health_entry list"

definition undetected :: "agent_source \<Rightarrow> detected_connector" where
  "undetected source =
     \<lparr>dc_source = source, dc_scope = ScopeUser, dc_display_path = [], dc_config_present = False,
      dc_managed_entries_present = False, dc_executable_present = False, dc_executable_path = None,
      dc_process_running = False, dc_running_process_name = None, dc_managed_commands = []\<rparr>"

definition best_detected :: "detected_connector list \<Rightarrow> agent_source \<Rightarrow> detected_connector option" where
  "best_detected detected source =
     max_by_key (\<lambda>d. (dc_config_present d, dc_managed_entries_present d, dc_executable_present d))
       (filter (\<lambda>d. dc_source d = source) detected)"

definition last_event_of :: "conn_state \<Rightarrow> agent_source \<Rightarrow> int option" where
  "last_event_of s source = cm_last_event_at s (debug_source source)"

definition health_entry_of ::
  "probe_env \<Rightarrow> conn_config \<Rightarrow> conn_state \<Rightarrow> detected_connector list \<Rightarrow> int \<Rightarrow> adapter_capabilities \<Rightarrow> connector_health_entry option" where
  "health_entry_of pe config s detected now_ms capabilities =
     (let source = c_source capabilities
      in if source = Generic \<or> source = UnknownSource then None
         else Some (probe_connector pe (cc_integrations_root config)
           (case best_detected detected source of Some d \<Rightarrow> d | None \<Rightarrow> undetected source)
           capabilities (cc_helper_path config) (last_event_of s source) now_ms))"

definition health_report ::
  "fs_env \<Rightarrow> text_env \<Rightarrow> probe_env \<Rightarrow> conn_config \<Rightarrow> adapter_capabilities list \<Rightarrow> int \<Rightarrow> connector_health_report manager_op" where
  "health_report w t pe config adapters now_ms =
     bind (on_disk (detect_all w t pe config)) (\<lambda>detected.
     bind (gets (\<lambda>s. List.map_filter (health_entry_of pe config s detected now_ms) adapters)) (\<lambda>entries.
       ret \<lparr>hr_checked_at_ms = now_ms, hr_adapters = entries\<rparr>))"

definition connector_health ::
  "fs_env \<Rightarrow> text_env \<Rightarrow> probe_env \<Rightarrow> conn_config \<Rightarrow> agent_source \<Rightarrow> adapter_capabilities \<Rightarrow> int \<Rightarrow> connector_health_entry manager_op" where
  "connector_health w t pe config source capabilities now_ms =
     bind (on_disk (detect_source w t pe config source)) (\<lambda>found.
     bind (gets (\<lambda>s. last_event_of s source)) (\<lambda>last_event.
       ret (probe_connector pe (cc_integrations_root config)
         (case max_by_key (\<lambda>d. (dc_config_present d, dc_managed_entries_present d, dc_executable_present d, dc_process_running d)) found of
            Some d \<Rightarrow> d | None \<Rightarrow> undetected source)
         capabilities (cc_helper_path config) last_event now_ms)))"

text \<open>\<open>ConnectorManager::new\<close> and \<open>list_backups\<close>\<close>

definition manager_new :: "conn_state conn_op" where
  "manager_new = seq journal_open (gets (\<lambda>d. \<lparr>cm_disk = d, cm_plans = Map.empty, cm_last_event_at = Map.empty\<rparr>))"

definition manager_list_backups :: "backup_entry list manager_op" where
  "manager_list_backups = gets (\<lambda>s. js_backups (cd_journal (cm_disk s)))"

section \<open>What the user sees\<close>

text \<open>The agents whose hooks need a step outside the program before they run.\<close>

definition needs_trust :: "string \<Rightarrow> agent_source \<Rightarrow> bool" where
  "needs_trust base source \<longleftrightarrow>
     (case registry_adapter base source of None \<Rightarrow> False | Some a \<Rightarrow> ad_external_trust_actions a \<noteq> [])"

lemma trust_probe_cases:
  "hp_axis (trust_probe base d last_event) = Trust \<and>
   (hp_outcome (trust_probe base d last_event) = ProbeOk \<longleftrightarrow>
     \<not> needs_trust base (dc_source d) \<or> dc_managed_entries_present d \<and> last_event \<noteq> None)"
  by (auto simp: trust_probe_def needs_trust_def probe_ok_def split: option.splits)

lemma probe_axes [simp]:
  "hp_axis (installation_probe d) = Installation" "hp_axis (helper_probe pe d expected) = Helper"
  "hp_axis (traffic_probe d last_event now_ms) = Traffic" "hp_axis (trust_probe base d last_event) = Trust"
  by (auto simp: installation_probe_def helper_probe_def helper_probe_for_managed_hooks_def helper_fail_def traffic_probe_def
      probe_ok_def trust_probe_cases split: option.splits configured_helper_validation.splits)

lemma actionable_probes:
  "filter (\<lambda>p. hp_axis p \<noteq> ProcessAxis) (build_probes pe base d expected last_event now_ms) =
    [installation_probe d, trust_probe base d last_event, helper_probe pe d expected, traffic_probe d last_event now_ms]"
  by (simp add: build_probes_def process_probe_def split: option.split)

text \<open>The mapping on the four probes that \<open>build_probes\<close> makes.\<close>

lemma status_of_probes:
  "map_probes_to_user_status (build_probes pe base d expected last_event now_ms) =
    (case installation_status (installation_probe d) of
       Some status \<Rightarrow> status
     | None \<Rightarrow>
         if hp_outcome (trust_probe base d last_event) \<noteq> ProbeOk then StatusActionNeeded
         else if hp_outcome (helper_probe pe d expected) = ProbeFail then helper_status (helper_probe pe d expected)
         else if hp_outcome (traffic_probe d last_event now_ms) \<noteq> ProbeOk then StatusWaitingFirstEvent
         else if hp_outcome (helper_probe pe d expected) = ProbeWarn then StatusDriftDetected
         else StatusConnected)"
  by (cases "hp_outcome (helper_probe pe d expected)")
    (auto simp: map_probes_to_user_status_def actionable_probes probe_at_def Let_def installation_status_def
      split: option.splits health_probe_outcome.splits)

lemma helper_outcomes:
  assumes "dc_managed_entries_present d"
  shows "hp_outcome (helper_probe pe d expected) =
      (if helper_verdict pe (dc_managed_commands d) expected = HelperOk \<and> helper_exists pe expected then ProbeOk else ProbeFail)"
    and "hp_outcome (helper_probe pe d expected) = ProbeFail \<Longrightarrow> helper_status (helper_probe pe d expected) =
      (case helper_verdict pe (dc_managed_commands d) expected of
         UnresolvedPlaceholder \<Rightarrow> StatusHooksMisconfigured
       | PathMismatch configured expected \<Rightarrow> StatusHooksMisconfigured
       | _ \<Rightarrow> StatusHelperMissing)"
  using assms by (auto simp: helper_probe_def helper_probe_for_managed_hooks_def probe_ok_def helper_fail_def helper_status_def
      split: configured_helper_validation.splits if_splits)


section \<open>Adapters and catalogue\<close>

definition covers :: "config_scope \<Rightarrow> target_file \<Rightarrow> integration_descriptor \<Rightarrow> bool" where
  "covers scope target e \<longleftrightarrow>
     list_ex (\<lambda>c. ct_scope c = scope \<and> trim_start_matches ''~/'' (ct_path_template c) = tf_relative_path target) (id_config_targets e)"

lemma builtin_entry_of:
  assumes "e \<in> set vibe_island_descriptors" and "has_name name e"
  shows "builtin_entry name = Ok (Some e)"
proof -
  from builtin_catalog obtain c where c: "vibe_island_25 = Ok c" "catalog_new vibe_island_descriptors = Ok c" by blast
  from find_only [OF names_unique [OF c(2)] assms] show ?thesis
    unfolding builtin_entry_def c(1) by (simp add: catalog_get_find [OF c(2)])
qed

lemmas descriptor_defs = claude_code_descriptor_def codex_descriptor_def gemini_cli_descriptor_def antigravity_cli_descriptor_def
  cursor_descriptor_def qwen_descriptor_def copilot_descriptor_def verified_def

lemma builtin_entries:
  "builtin_entry ''cursor'' = Ok (Some cursor_descriptor)" "builtin_entry ''claude-code'' = Ok (Some claude_code_descriptor)"
  "builtin_entry ''codex'' = Ok (Some codex_descriptor)" "builtin_entry ''gemini-cli'' = Ok (Some gemini_cli_descriptor)"
  "builtin_entry ''qwen'' = Ok (Some qwen_descriptor)" "builtin_entry ''antigravity-cli'' = Ok (Some antigravity_cli_descriptor)"
  "builtin_entry ''copilot'' = Ok (Some copilot_descriptor)"
  by (rule builtin_entry_of, simp add: vibe_island_descriptors_def, simp add: has_name_def descriptor_names_def descriptor_defs)+

definition adapter_listed :: "string \<Rightarrow> string \<Rightarrow> bool" where
  "adapter_listed base catalog_id \<longleftrightarrow>
     (case (builtin_entry catalog_id, get_by_catalog_id base catalog_id) of
        (Ok (Some e), Some a) \<Rightarrow>
          id_id e = catalog_id \<and> ad_catalog_id a = catalog_id \<and> is_verified e \<and> registry_adapter base (ad_source a) = Some a \<and>
          covers ConfigUser (ad_user_target a) e \<and> covers ConfigProject (ad_project_target a) e
      | _ \<Rightarrow> False)"

lemma listed_adapters: "list_all (adapter_listed base) catalog_supported_ids"
  by (simp add: catalog_supported_ids_def adapter_listed_def builtin_entries get_by_catalog_id_def)
    (simp add: descriptor_defs is_verified_def covers_def config_at_def trim_start_matches.simps starts_with_def
      cursor_adapter_def claude_code_adapter_def codex_adapter_def gemini_adapter_def qwen_adapter_def antigravity_cli_adapter_def
      copilot_cli_adapter_def simple_adapter_def)

lemma verified_builtins:
  "filter is_verified vibe_island_descriptors =
    [claude_code_descriptor, codex_descriptor, gemini_cli_descriptor, antigravity_cli_descriptor, cursor_descriptor, qwen_descriptor, copilot_descriptor]"
  by (simp add: vibe_island_descriptors_def is_verified_def declared_def) (simp add: descriptor_defs)

text \<open>
  Catalogue and connectors agree: the built-in catalogue passes its own validation, its verified
  entries are exactly the agents the connectors support, each is found under its identifier, and the
  files the adapter writes, for user and project, are configuration targets the catalogue declares.
\<close>

theorem adapters_match_catalog:
  "(\<exists>c. vibe_island_25 = Ok c \<and> length (ac_integrations c) = 25 \<and> set (map id_id (catalog_verified c)) = set catalog_supported_ids) \<and>
   list_all (adapter_listed base) catalog_supported_ids"
proof -
  from builtin_catalog obtain c where c: "vibe_island_25 = Ok c" "catalog_new vibe_island_descriptors = Ok c" by blast
  then have "ac_integrations c = vibe_island_descriptors" using catalog_new_index by blast
  then have "length (ac_integrations c) = 25" "set (map id_id (catalog_verified c)) = set catalog_supported_ids"
    by (simp add: vibe_island_descriptors_def)
      (auto simp: catalog_verified_def \<open>ac_integrations c = _\<close> verified_builtins descriptor_defs catalog_supported_ids_def)
  with c(1) listed_adapters show ?thesis by blast
qed

end
