(* ===== verification/Remote_Protocol.thy ===== *)
theory Remote_Protocol
  imports Connector_Paths Ipc_Spool
begin

text \<open>
  \<^verbatim>\<open>crates/notch-remote/src\<close>: the frames between a remote relay and the desktop (\<^verbatim>\<open>protocol.rs\<close>), the
  normalisation of hook payloads into them (\<^verbatim>\<open>hook_ingest.rs\<close>), the configuration of a remote host and the
  arguments of OpenSSH (\<^verbatim>\<open>config.rs\<close>), and the delays of a reconnect (\<^verbatim>\<open>reconnect.rs\<close>). The JSON text of a
  message is what \<open>serde_json\<close> makes of it, a parameter.
\<close>

section \<open>Frames\<close>

definition RELAY_PROTOCOL_VERSION :: nat where "RELAY_PROTOCOL_VERSION = 1"
definition MAX_REMOTE_FRAME_BYTES :: nat where "MAX_REMOTE_FRAME_BYTES = 256 * 1024"
definition MAX_HOST_ID_LEN :: nat where "MAX_HOST_ID_LEN = 64"
definition MAX_RELAY_SESSION_ID_LEN :: nat where "MAX_RELAY_SESSION_ID_LEN = 256"
definition MAX_RELAY_SUMMARY_LEN :: nat where "MAX_RELAY_SUMMARY_LEN = 512"

record resume_cursor =
  last_sequence :: nat

record relay_hello =
  hello_version :: nat
  hello_host_id :: string
  hello_nonce :: string
  hello_resume :: resume_cursor

record relay_event =
  rev_session_id :: string
  rev_source :: string
  rev_summary :: string
  rev_occurred_at_ms :: int
  rev_kind :: "session_event_kind option"
  rev_tool_name :: "string option"
  rev_attention :: "attention_kind option"

datatype relay_payload =
    RelayEvent relay_event
  | Checkpoint
  | Heartbeat
  | RelayError string

record relay_frame =
  rf_sequence :: nat
  rf_payload :: relay_payload

record relay_hook_payload =
  rh_source :: string
  rh_event :: string
  rh_session_id :: "string option"
  rh_external_session_id :: "string option"
  rh_summary :: "string option"
  rh_occurred_at_ms :: "int option"
  rh_tool_name :: "string option"
  rh_attention :: "string option"

datatype relay_control =
    Acknowledge resume_cursor
  | InjectHook relay_hook_payload
  | Shutdown

datatype protocol_error = IncompatibleVersion | FrameTooLarge | ProtocolInvalidField | SequenceRegression

fun protocol_error_text :: "protocol_error \<Rightarrow> string" where
  "protocol_error_text IncompatibleVersion = ''remote protocol version is incompatible''"
| "protocol_error_text FrameTooLarge = ''remote frame exceeds the size limit''"
| "protocol_error_text ProtocolInvalidField = ''remote frame contains an invalid field''"
| "protocol_error_text SequenceRegression = ''remote sequence did not advance''"

definition is_ascii_hexdigit :: "char \<Rightarrow> bool" where
  "is_ascii_hexdigit c \<longleftrightarrow> is_ascii_digit c \<or> of_char c \<in> {65 .. 70 :: nat} \<or> of_char c \<in> {97 .. 102 :: nat}"

definition validate_hello :: "relay_hello \<Rightarrow> (protocol_error, unit) outcome" where
  "validate_hello hello =
     (if hello_version hello \<noteq> RELAY_PROTOCOL_VERSION then Err IncompatibleVersion
      else if hello_host_id hello = [] \<or> MAX_HOST_ID_LEN < length (hello_host_id hello) \<or>
        length (hello_nonce hello) \<noteq> 64 \<or> \<not> list_all is_ascii_hexdigit (hello_nonce hello)
      then Err ProtocolInvalidField
      else Ok ())"

fun validate_payload :: "relay_payload \<Rightarrow> (protocol_error, unit) outcome" where
  "validate_payload (RelayEvent e) =
     (if rev_session_id e = [] \<or> MAX_RELAY_SESSION_ID_LEN < length (rev_session_id e) \<or>
        rev_source e = [] \<or> 64 < length (rev_source e) \<or> MAX_RELAY_SUMMARY_LEN < length (rev_summary e) \<or>
        (case rev_tool_name e of None \<Rightarrow> False | Some value \<Rightarrow> value = [] \<or> MAX_TOOL_NAME_LEN < length value)
      then Err ProtocolInvalidField else Ok ())"
| "validate_payload (RelayError code) = (if code = [] \<or> 64 < length code then Err ProtocolInvalidField else Ok ())"
| "validate_payload payload = Ok ()"

text \<open>
  What \<open>serde_json\<close> does with the types of the protocol: a writer gives no text when serialisation fails, a
  reader no value when the text is not that of a value; \<open>rc_error\<close> is the message of a failed reader, \<open>rc_write_error\<close> of a failed
  writer.
\<close>

record remote_codec =
  rc_hello :: "relay_hello \<Rightarrow> string option"
  rc_frame :: "relay_frame \<Rightarrow> string option"
  rc_control :: "relay_control \<Rightarrow> string option"
  rc_read_hello :: "string \<Rightarrow> relay_hello option"
  rc_read_frame :: "string \<Rightarrow> relay_frame option"
  rc_read_control :: "string \<Rightarrow> relay_control option"
  rc_read_ingest :: "string \<Rightarrow> (string \<times> relay_hook_payload) option"
  rc_error :: "string \<Rightarrow> string"
  rc_write_error :: string

definition validate_after :: "remote_codec \<Rightarrow> resume_cursor \<Rightarrow> relay_frame \<Rightarrow> (protocol_error, unit) outcome" where
  "validate_after codec cursor frame =
     (if rf_sequence frame \<le> last_sequence cursor then Err SequenceRegression
      else case validate_payload (rf_payload frame) of
          Err e \<Rightarrow> Err e
        | Panic m \<Rightarrow> Panic m
        | Ok u \<Rightarrow>
            (case rc_frame codec frame of
               None \<Rightarrow> Err ProtocolInvalidField
             | Some encoded \<Rightarrow> if MAX_REMOTE_FRAME_BYTES < length encoded then Err FrameTooLarge else Ok ()))"

section \<open>Hook payloads\<close>

definition MAX_HOOK_SOURCE_LEN :: nat where "MAX_HOOK_SOURCE_LEN = 32"
definition MAX_HOOK_EVENT_LEN :: nat where "MAX_HOOK_EVENT_LEN = 32"
definition MAX_ATTENTION_LEN :: nat where "MAX_ATTENTION_LEN = 32"

lemmas remote_limits = RELAY_PROTOCOL_VERSION_def MAX_REMOTE_FRAME_BYTES_def MAX_HOST_ID_LEN_def
  MAX_RELAY_SESSION_ID_LEN_def MAX_RELAY_SUMMARY_LEN_def MAX_HOOK_SOURCE_LEN_def MAX_HOOK_EVENT_LEN_def
  MAX_ATTENTION_LEN_def

datatype hook_ingest_error = HookInvalidField string | UnsupportedEvent string | NotForwardable

fun hook_ingest_error_text :: "hook_ingest_error \<Rightarrow> string" where
  "hook_ingest_error_text (HookInvalidField name) = ''hook payload field `'' @ name @ ''` is invalid''"
| "hook_ingest_error_text (UnsupportedEvent event) = ''hook event `'' @ event @ ''` is not forwardable''"
| "hook_ingest_error_text NotForwardable = ''hook payload could not be normalized''"

definition hook_bounded :: "nat \<Rightarrow> string \<Rightarrow> string \<Rightarrow> (hook_ingest_error, unit) outcome" where
  "hook_bounded mx name value =
     (if value = [] \<or> mx < length value then Err (HookInvalidField name) else Ok ())"

definition hook_attention :: "relay_hook_payload \<Rightarrow> attention_kind option" where
  "hook_attention payload = Option.bind (rh_attention payload) (\<lambda>raw.
     let value = to_ascii_lowercase raw
     in if value = ''none'' then Some AttentionNone
        else if value = ''approval'' then Some AttentionApproval
        else if value = ''question'' then Some AttentionQuestion
        else if value = ''permission'' then Some AttentionPermission
        else if value = ''error'' then Some AttentionError
        else None)"

text \<open>\<open>check?; rest\<close>, and a check of a field that may be absent.\<close>

definition ensure :: "('e, unit) outcome \<Rightarrow> ('e, 'a) outcome \<Rightarrow> ('e, 'a) outcome" where
  "ensure check rest = (case check of Ok u \<Rightarrow> rest | Err e \<Rightarrow> Err e | Panic m \<Rightarrow> Panic m)"

definition if_some :: "('a \<Rightarrow> ('e, unit) outcome) \<Rightarrow> 'a option \<Rightarrow> ('e, unit) outcome" where
  "if_some check x = (case x of None \<Rightarrow> Ok () | Some v \<Rightarrow> check v)"

definition validate_hook_payload :: "relay_hook_payload \<Rightarrow> (hook_ingest_error, unit) outcome" where
  "validate_hook_payload payload =
     ensure (hook_bounded MAX_HOOK_SOURCE_LEN ''source'' (rh_source payload))
    (ensure (hook_bounded MAX_HOOK_EVENT_LEN ''event'' (rh_event payload))
    (ensure (if_some (hook_bounded MAX_RELAY_SESSION_ID_LEN ''sessionId'') (rh_session_id payload))
    (ensure (if_some (hook_bounded MAX_RELAY_SESSION_ID_LEN ''externalSessionId'') (rh_external_session_id payload))
    (ensure (if_some (\<lambda>value. if MAX_RELAY_SUMMARY_LEN < length value
               then Err (HookInvalidField ''summary'') else Ok ()) (rh_summary payload))
    (ensure (if_some (hook_bounded MAX_TOOL_NAME_LEN ''toolName'') (rh_tool_name payload))
      (if_some (\<lambda>value. ensure (hook_bounded MAX_ATTENTION_LEN ''attention'' value)
         (if hook_attention payload = None then Err (HookInvalidField ''attention'') else Ok ()))
         (rh_attention payload)))))))"

definition validate_control :: "relay_control \<Rightarrow> (protocol_error, unit) outcome" where
  "validate_control control =
     (case control of
        InjectHook payload \<Rightarrow>
          (case validate_hook_payload payload of
             Ok u \<Rightarrow> Ok () | Err e \<Rightarrow> Err ProtocolInvalidField | Panic m \<Rightarrow> Panic m)
      | _ \<Rightarrow> Ok ())"

definition hook_removed_events :: "string list" where
  "hook_removed_events = [''sessionremove'', ''session_remove'', ''remove'']"

definition forwardable_events :: "string list" where
  "forwardable_events =
     [''sessionevent'', ''event'', ''tool'', ''attention'', ''status'', ''statuschange'', ''status_change'',
      ''lifecycle'', ''sessionstart'', ''session_start'', ''start'', ''sessionend'', ''session_end'', ''end'',
      ''complete'', ''fail'']"

definition is_forwardable_event :: "string \<Rightarrow> bool" where
  "is_forwardable_event event \<longleftrightarrow> event \<in> set forwardable_events"

definition hook_session_id :: "relay_hook_payload \<Rightarrow> (hook_ingest_error, string) outcome" where
  "hook_session_id payload =
     (case or_else (rh_external_session_id payload) (rh_session_id payload) of
        None \<Rightarrow> Err (HookInvalidField ''externalSessionId'')
      | Some value \<Rightarrow> if value = [] then Err (HookInvalidField ''externalSessionId'') else Ok value)"

definition hook_event_kind :: "string \<Rightarrow> (hook_ingest_error, session_event_kind) outcome" where
  "hook_event_kind event =
     (if event = ''tool'' then Ok KindTool
      else if event = ''attention'' then Ok KindAttention
      else if event \<in> set [''status'', ''statuschange'', ''status_change''] then Ok KindStatus
      else if event \<in> set [''lifecycle'', ''sessionevent'', ''event'', ''sessionstart'', ''session_start'', ''start'',
        ''sessionend'', ''session_end'', ''end'', ''complete'', ''fail''] then Ok KindLifecycle
      else Err (UnsupportedEvent event))"

definition normalize_source :: "string \<Rightarrow> string" where
  "normalize_source raw =
     (let value = to_ascii_lowercase raw
      in if value = ''cursor'' then ''cursor''
         else if value \<in> set [''claudecode'', ''claude_code'', ''claude-code''] then ''claudeCode''
         else if value = ''codex'' then ''codex''
         else if value \<in> set [''gemini'', ''geminicli'', ''gemini-cli''] then ''gemini''
         else if value \<in> set [''antigravitycli'', ''antigravity-cli'', ''antigravity'', ''agy''] then ''antigravityCli''
         else if value \<in> set [''copilotcli'', ''copilot-cli'', ''copilot''] then ''copilotCli''
         else if value \<in> set [''qwen'', ''qwen-cli'', ''qwencode''] then ''qwen''
         else ''generic'')"

fun hook_default_summary :: "session_event_kind \<Rightarrow> string" where
  "hook_default_summary KindLifecycle = ''Session lifecycle update''"
| "hook_default_summary KindTool = ''Tool activity''"
| "hook_default_summary KindAttention = ''Attention required''"
| "hook_default_summary KindStatus = ''Status update''"

definition nonempty :: "string option \<Rightarrow> string option" where
  "nonempty x = (case x of None \<Rightarrow> None | Some s \<Rightarrow> if s = [] then None else Some s)"

definition check_encoded :: "remote_codec \<Rightarrow> relay_payload \<Rightarrow> (hook_ingest_error, relay_payload option) outcome" where
  "check_encoded codec payload =
     (case rc_frame codec \<lparr>rf_sequence = 1, rf_payload = payload\<rparr> of
        None \<Rightarrow> Err NotForwardable
      | Some encoded \<Rightarrow>
          if MAX_REMOTE_FRAME_BYTES < length encoded then Err (HookInvalidField ''summary'') else Ok (Some payload))"

definition normalize_hook_payload ::
  "remote_codec \<Rightarrow> relay_hook_payload \<Rightarrow> int \<Rightarrow> (hook_ingest_error, relay_payload option) outcome" where
  "normalize_hook_payload codec payload now_ms =
     ensure (validate_hook_payload payload)
       (let event = to_ascii_lowercase (rh_event payload)
        in if event \<in> set hook_removed_events then Ok None
           else if \<not> is_forwardable_event event then Err (UnsupportedEvent event)
           else case hook_session_id payload of
               Err e \<Rightarrow> Err e
             | Panic m \<Rightarrow> Panic m
             | Ok session_id \<Rightarrow>
                 (case hook_event_kind event of
                    Err e \<Rightarrow> Err e
                  | Panic m \<Rightarrow> Panic m
                  | Ok kind \<Rightarrow> check_encoded codec (RelayEvent
                      \<lparr>rev_session_id = session_id, rev_source = normalize_source (rh_source payload),
                       rev_summary = unwrap_or (hook_default_summary kind) (nonempty (rh_summary payload)),
                       rev_occurred_at_ms = unwrap_or now_ms (rh_occurred_at_ms payload), rev_kind = Some kind,
                       rev_tool_name = nonempty (rh_tool_name payload), rev_attention = hook_attention payload\<rparr>)))"

section \<open>Hosts\<close>

definition MAX_DESTINATION_LEN :: nat where "MAX_DESTINATION_LEN = 255"

datatype ssh_host_key_policy = StrictPolicy | AcceptNew

record remote_host_config =
  hc_id :: string
  hc_destination :: string
  hc_port :: "nat option"
  hc_identity_file :: "string option"
  hc_known_hosts_file :: "string option"
  hc_host_key_policy :: ssh_host_key_policy
  hc_connect_timeout_seconds :: nat

datatype remote_os = OsLinux | OsMacos | OsWindows

datatype remote_architecture = ArchX86_64 | ArchAarch64

record remote_target =
  rt_os :: remote_os
  rt_architecture :: remote_architecture

datatype config_error = InvalidId | InvalidDestination | InvalidPort | InvalidTimeout | PathNotAbsolute

fun config_error_text :: "config_error \<Rightarrow> string" where
  "config_error_text InvalidId = ''remote host id is invalid''"
| "config_error_text InvalidDestination = ''SSH destination is invalid''"
| "config_error_text InvalidPort = ''SSH port must not be zero''"
| "config_error_text InvalidTimeout = ''connect timeout must be between 1 and 120 seconds''"
| "config_error_text PathNotAbsolute = ''path must be absolute''"

definition valid_destination :: "string \<Rightarrow> bool" where
  "valid_destination value \<longleftrightarrow>
     value \<noteq> [] \<and> length value \<le> MAX_DESTINATION_LEN \<and> \<not> starts_with ''-'' value \<and>
     list_all (\<lambda>byte. is_ascii_alphanumeric byte \<or> byte \<in> set ''.-_@[]:%'') value"

definition validate_absolute :: "string \<Rightarrow> (config_error, unit) outcome" where
  "validate_absolute path = (if is_absolute_path path then Ok () else Err PathNotAbsolute)"

definition validate_host :: "remote_host_config \<Rightarrow> (config_error, unit) outcome" where
  "validate_host host =
     (if hc_id host = [] \<or> MAX_HOST_ID_LEN < length (hc_id host) \<or>
        \<not> list_all (\<lambda>byte. is_ascii_alphanumeric byte \<or> byte \<in> set ''-_'') (hc_id host)
      then Err InvalidId
      else if \<not> valid_destination (hc_destination host) then Err InvalidDestination
      else if hc_port host = Some 0 then Err InvalidPort
      else if \<not> (1 \<le> hc_connect_timeout_seconds host \<and> hc_connect_timeout_seconds host \<le> 120) then Err InvalidTimeout
      else ensure (if_some validate_absolute (hc_identity_file host))
        (if_some validate_absolute (hc_known_hosts_file host)))"

definition ssh_common_args :: "remote_host_config \<Rightarrow> string list" where
  "ssh_common_args host =
     [''-o'', ''BatchMode=yes'', ''-o'', ''ConnectTimeout='' @ dec_string (hc_connect_timeout_seconds host),
      ''-o'', ''StrictHostKeyChecking='' @
        (case hc_host_key_policy host of StrictPolicy \<Rightarrow> ''yes'' | AcceptNew \<Rightarrow> ''accept-new'')] @
     (case hc_identity_file host of None \<Rightarrow> [] | Some identity \<Rightarrow> [''-i'', identity]) @
     (case hc_known_hosts_file host of None \<Rightarrow> [] | Some known \<Rightarrow> [''-o'', ''UserKnownHostsFile='' @ known])"

definition ssh_base_args :: "remote_host_config \<Rightarrow> string list" where
  "ssh_base_args host =
     ssh_common_args host @ (case hc_port host of None \<Rightarrow> [] | Some port \<Rightarrow> [''-p'', dec_string port])"

definition ssh_args :: "remote_host_config \<Rightarrow> (config_error, string list) outcome" where
  "ssh_args host = ensure (validate_host host) (Ok (ssh_base_args host @ [hc_destination host]))"

definition scp_base_args :: "remote_host_config \<Rightarrow> (config_error, string list) outcome" where
  "scp_base_args host = ensure (validate_host host)
     (Ok (ssh_common_args host @ (case hc_port host of None \<Rightarrow> [] | Some port \<Rightarrow> [''-P'', dec_string port])))"

section \<open>Delays\<close>

record reconnect_policy =
  base_delay_ms :: nat
  max_delay_ms :: nat
  max_attempts :: nat

datatype connection_state =
    Disconnected | Connecting | Authenticating | Streaming | Backoff nat nat | ConnFailed

definition default_reconnect_policy :: reconnect_policy where
  "default_reconnect_policy = \<lparr>base_delay_ms = 500, max_delay_ms = 30000, max_attempts = 12\<rparr>"

text \<open>
  \<open>checked_shl\<close> by at most 20 cannot fail; the division of the \<open>i128\<close> product truncates and the product is
  not negative.
\<close>

definition delay_ms :: "reconnect_policy \<Rightarrow> nat \<Rightarrow> int \<Rightarrow> nat option" where
  "delay_ms policy attempt jitter_basis_points =
     (if max_attempts policy \<le> attempt then None
      else
        let exponent = min attempt 20;
            raw = min (min (base_delay_ms policy * 2 ^ exponent) (2 ^ 64 - 1)) (max_delay_ms policy);
            jitter = max (-2500) (min 2500 jitter_basis_points);
            adjusted = int raw * (10000 + jitter) div 10000
        in Some (min (nat (max adjusted 0)) (max_delay_ms policy)))"

section \<open>What is shown\<close>

lemma ensure_Ok: "ensure check rest = Ok x \<longleftrightarrow> check = Ok () \<and> rest = Ok x"
  by (auto simp: ensure_def split: outcome.splits)

lemma if_some_Ok: "if_some check x = Ok () \<longleftrightarrow> (\<forall>v. x = Some v \<longrightarrow> check v = Ok ())"
  by (auto simp: if_some_def split: option.splits)

lemma hook_bounded_Ok: "hook_bounded mx name value = Ok () \<longleftrightarrow> value \<noteq> [] \<and> length value \<le> mx"
  by (auto simp: hook_bounded_def)

lemmas hook_checks = ensure_Ok if_some_Ok hook_bounded_Ok

lemma valid_hook_payload:
  assumes "validate_hook_payload payload = Ok ()"
  shows "rh_session_id payload = Some v \<Longrightarrow> v \<noteq> [] \<and> length v \<le> MAX_RELAY_SESSION_ID_LEN"
    and "rh_external_session_id payload = Some v \<Longrightarrow> v \<noteq> [] \<and> length v \<le> MAX_RELAY_SESSION_ID_LEN"
    and "rh_summary payload = Some v \<Longrightarrow> length v \<le> MAX_RELAY_SUMMARY_LEN"
    and "rh_tool_name payload = Some v \<Longrightarrow> v \<noteq> [] \<and> length v \<le> MAX_TOOL_NAME_LEN"
    and "rh_attention payload = Some v \<Longrightarrow> hook_attention payload \<noteq> None"
  using assms by (auto simp: validate_hook_payload_def hook_checks split: if_splits)

lemma nonempty_Some: "nonempty x = Some v \<longleftrightarrow> x = Some v \<and> v \<noteq> []"
  by (auto simp: nonempty_def split: option.splits)

lemma normalize_source_bounds: "normalize_source raw \<noteq> [] \<and> length (normalize_source raw) \<le> 64"
  by (simp add: normalize_source_def Let_def)

lemma summary_fits:
  assumes "\<And>v. x = Some v \<Longrightarrow> length v \<le> MAX_RELAY_SUMMARY_LEN"
  shows "length (unwrap_or (hook_default_summary kind) (nonempty x)) \<le> MAX_RELAY_SUMMARY_LEN"
  using assms by (cases kind; cases x) (auto simp: unwrap_or_def nonempty_def MAX_RELAY_SUMMARY_LEN_def)

text \<open>What a hook hands in is a payload that every reader of the protocol accepts.\<close>

lemma normalized_parts:
  assumes "normalize_hook_payload codec payload now_ms = Ok (Some relay)"
  obtains session_id kind encoded where
    "validate_hook_payload payload = Ok ()" "hook_session_id payload = Ok session_id"
    "relay = RelayEvent
       \<lparr>rev_session_id = session_id, rev_source = normalize_source (rh_source payload),
        rev_summary = unwrap_or (hook_default_summary kind) (nonempty (rh_summary payload)),
        rev_occurred_at_ms = unwrap_or now_ms (rh_occurred_at_ms payload), rev_kind = Some kind,
        rev_tool_name = nonempty (rh_tool_name payload), rev_attention = hook_attention payload\<rparr>"
    "hook_event_kind (to_ascii_lowercase (rh_event payload)) = Ok kind"
    "rc_frame codec \<lparr>rf_sequence = 1, rf_payload = relay\<rparr> = Some encoded" "length encoded \<le> MAX_REMOTE_FRAME_BYTES"
  using assms
  by (auto simp: normalize_hook_payload_def ensure_Ok check_encoded_def Let_def
      split: if_splits outcome.splits option.splits)

lemma hook_session_id_bounds:
  assumes "validate_hook_payload payload = Ok ()" "hook_session_id payload = Ok session_id"
  shows "session_id \<noteq> [] \<and> length session_id \<le> MAX_RELAY_SESSION_ID_LEN"
  using assms valid_hook_payload(1,2) [OF assms(1)]
  by (auto simp: hook_session_id_def or_else_def split: option.splits if_splits)

lemma normalized_valid:
  assumes "normalize_hook_payload codec payload now_ms = Ok (Some relay)"
  shows "validate_payload relay = Ok ()"
proof -
  obtain session_id kind encoded where n: "validate_hook_payload payload = Ok ()" "hook_session_id payload = Ok session_id"
    "relay = RelayEvent
       \<lparr>rev_session_id = session_id, rev_source = normalize_source (rh_source payload),
        rev_summary = unwrap_or (hook_default_summary kind) (nonempty (rh_summary payload)),
        rev_occurred_at_ms = unwrap_or now_ms (rh_occurred_at_ms payload), rev_kind = Some kind,
        rev_tool_name = nonempty (rh_tool_name payload), rev_attention = hook_attention payload\<rparr>"
    using normalized_parts [OF assms] by metis
  from summary_fits [of "rh_summary payload" kind] valid_hook_payload(3) [OF n(1)]
  have "length (unwrap_or (hook_default_summary kind) (nonempty (rh_summary payload))) \<le> MAX_RELAY_SUMMARY_LEN"
    by blast
  moreover have "rh_tool_name payload = Some v \<Longrightarrow> v \<noteq> [] \<and> length v \<le> MAX_TOOL_NAME_LEN" for v
    by (rule valid_hook_payload(4) [OF n(1)])
  ultimately show ?thesis
    using hook_session_id_bounds [OF n(1,2)] normalize_source_bounds [of "rh_source payload"]
    by (auto simp: n(3) nonempty_Some split: option.splits)
qed

lemma forwardable_event_kind: "is_forwardable_event event \<Longrightarrow> \<exists>kind. hook_event_kind event = Ok kind"
  by (auto simp: is_forwardable_event_def forwardable_events_def hook_event_kind_def)

text \<open>
  No argument of OpenSSH comes from a host that could be read as an option or by a shell: the destination is
  the last one, its bytes are harmless and it does not start with a dash; host keys are always checked.
\<close>

lemma valid_hostD:
  assumes "validate_host host = Ok ()"
  shows "hc_id host \<noteq> []" "length (hc_id host) \<le> MAX_HOST_ID_LEN" "valid_destination (hc_destination host)"
    "hc_port host \<noteq> Some 0" "hc_connect_timeout_seconds host \<in> {1 .. 120}"
    "hc_identity_file host = Some path \<Longrightarrow> is_absolute_path path"
    "hc_known_hosts_file host = Some path \<Longrightarrow> is_absolute_path path"
    "list_all (\<lambda>byte. is_ascii_alphanumeric byte \<or> byte \<in> set ''-_'') (hc_id host)"
  using assms by (auto simp: validate_host_def hook_checks validate_absolute_def split: if_splits)

lemma ssh_args_shape:
  assumes "ssh_args host = Ok args"
  shows "\<exists>options. args = options @ [hc_destination host] \<and> valid_destination (hc_destination host) \<and>
    ''BatchMode=yes'' \<in> set options \<and>
    (''StrictHostKeyChecking=yes'' \<in> set options \<or> ''StrictHostKeyChecking=accept-new'' \<in> set options)"
  using assms valid_hostD(3) [of host]
  by (intro exI [of _ "ssh_base_args host"])
    (auto simp: ssh_args_def ensure_Ok ssh_base_args_def ssh_common_args_def split: ssh_host_key_policy.splits)

lemma destination_dash: "valid_destination d \<Longrightarrow> hd d \<noteq> CHR ''-''"
  by (cases d) (auto simp: valid_destination_def starts_with_def)

lemma destination_bytes: "valid_destination d \<Longrightarrow> c \<in> set d \<Longrightarrow> c \<notin> set '' $;|&<>()*?!#~''"
  by (auto simp: valid_destination_def list_all_iff is_ascii_alphanumeric_def ascii_classes dest!: bspec [where x = c])

text \<open>The delay grows with the attempt, stays within a quarter of the uncapped value and under the cap.\<close>

definition raw_delay :: "reconnect_policy \<Rightarrow> nat \<Rightarrow> nat" where
  "raw_delay policy attempt = min (min (base_delay_ms policy * 2 ^ min attempt 20) (2 ^ 64 - 1)) (max_delay_ms policy)"

definition jittered :: "int \<Rightarrow> int \<Rightarrow> int" where
  "jittered r jitter = r * (10000 + max (-2500) (min 2500 jitter)) div 10000"

lemma jitter_bounds:
  assumes "0 \<le> r"
  shows "0 \<le> jittered r jitter" "4 * jittered r jitter \<le> 5 * r" "3 * r \<le> 4 * jittered r jitter + 3"
proof -
  have "r * (10000 + max (-2500) (min 2500 jitter)) \<le> r * 12500" "r * 7500 \<le> r * (10000 + max (-2500) (min 2500 jitter))"
    by (rule mult_left_mono; use assms in simp)+
  with assms show "0 \<le> jittered r jitter" "4 * jittered r jitter \<le> 5 * r" "3 * r \<le> 4 * jittered r jitter + 3"
    unfolding jittered_def by linarith+
qed

lemma delay_raw:
  "delay_ms policy attempt jitter =
     (if max_attempts policy \<le> attempt then None
      else Some (min (nat (max (jittered (int (raw_delay policy attempt)) jitter) 0)) (max_delay_ms policy)))"
  unfolding delay_ms_def Let_def raw_delay_def jittered_def by (rule refl)

lemma delay_ms_bounds:
  assumes "delay_ms policy attempt jitter = Some d"
  shows "attempt < max_attempts policy" "d \<le> max_delay_ms policy" "4 * d \<le> 5 * raw_delay policy attempt"
    "3 * raw_delay policy attempt \<le> 4 * d + 3"
proof -
  let ?raw = "raw_delay policy attempt"
  from assms have d: "d = min (nat (max (jittered (int ?raw) jitter) 0)) (max_delay_ms policy)"
    and att: "attempt < max_attempts policy"
    by (simp_all add: delay_raw split: if_splits)
  obtain adj where adj: "jittered (int ?raw) jitter = int adj" "4 * adj \<le> 5 * ?raw" "3 * ?raw \<le> 4 * adj + 3"
    using jitter_bounds [of "int ?raw" jitter] nonneg_int_cases [of "jittered (int ?raw) jitter"] by auto
  show "attempt < max_attempts policy" by (rule att)
  have "?raw \<le> max_delay_ms policy" by (simp add: raw_delay_def)
  with adj show "d \<le> max_delay_ms policy" "4 * d \<le> 5 * ?raw" "3 * ?raw \<le> 4 * d + 3"
    by (simp_all add: d)
qed

lemma delay_ms_None: "delay_ms policy attempt jitter = None \<longleftrightarrow> max_attempts policy \<le> attempt"
  by (simp add: delay_raw)

end
