(* ===== verification/Remote_Relay.thy ===== *)
theory Remote_Relay
  imports Remote_Protocol
begin

text \<open>
  The relay, a process on the remote host: lines of bounded length (\<open>read_bounded_line\<close>, written twice in
  \<^verbatim>\<open>transport.rs\<close> and \<^verbatim>\<open>llm-notch-relay.rs\<close>), the spool of hook frames (\<^verbatim>\<open>event_spool.rs\<close>) and the program
  itself (\<^verbatim>\<open>bin/llm-notch-relay.rs\<close>): a thread that reads controls from stdin, a thread that watches the
  spool, and the main loop that forwards what they send over two channels.
\<close>

section \<open>Bounded lines\<close>

text \<open>
  A \<open>BufRead\<close> is the list of what \<open>fill_buf\<close> returns next; the head is the buffer not yet consumed, an empty
  list or buffer is the end of the stream.
\<close>

datatype io_piece = Piece string | PieceError string

type_synonym ('e, 'a) line_op = "(io_piece list, 'e, 'a) op"

definition newline :: char where
  "newline = CHR 0x0A"

definition unread :: "string \<Rightarrow> io_piece list \<Rightarrow> io_piece list" where
  "unread bytes rest = (if bytes = [] then rest else Piece bytes # rest)"

fun read_bounded_line ::
  "(string \<Rightarrow> 'e) \<Rightarrow> 'e \<Rightarrow> nat \<Rightarrow> string \<Rightarrow> ('e, string option) line_op" where
  "read_bounded_line io_error bad max_bytes bytes [] = (if bytes = [] then Ok None else Err bad, [])"
| "read_bounded_line io_error bad max_bytes bytes (PieceError e # rest) = (Err (io_error e), rest)"
| "read_bounded_line io_error bad max_bytes bytes (Piece buffer # rest) =
     (if buffer = [] then (if bytes = [] then Ok None else Err bad, Piece buffer # rest)
      else if newline \<in> set buffer then
        let taken = takeWhile (\<lambda>c. c \<noteq> newline) buffer @ [newline]; line = bytes @ taken
        in (if max_bytes < length line then Err bad else Ok (Some line), unread (drop (length taken) buffer) rest)
      else if max_bytes < length bytes + length buffer then (Err bad, Piece buffer # rest)
      else read_bounded_line io_error bad max_bytes (bytes @ buffer) rest)"

fun stream_bytes :: "io_piece list \<Rightarrow> string" where
  "stream_bytes [] = []"
| "stream_bytes (Piece b # rest) = b @ stream_bytes rest"
| "stream_bytes (PieceError e # rest) = stream_bytes rest"

fun clean_stream :: "io_piece list \<Rightarrow> bool" where
  "clean_stream [] \<longleftrightarrow> True"
| "clean_stream (Piece b # rest) \<longleftrightarrow> b \<noteq> [] \<and> clean_stream rest"
| "clean_stream (PieceError e # rest) \<longleftrightarrow> False"

lemma unread_bytes [simp]: "stream_bytes (unread b rest) = b @ stream_bytes rest"
  and unread_clean [simp]: "clean_stream (unread b rest) \<longleftrightarrow> clean_stream rest"
  by (simp_all add: unread_def)

lemma before_newline:
  assumes "u @ v = l @ newline # rest" "newline \<notin> set u"
  shows "\<exists>l'. l = u @ l' \<and> v = l' @ newline # rest"
  using assms by (auto simp: append_eq_append_conv2 append_eq_Cons_conv)

lemma newline_head:
  assumes "newline \<in> set b" "newline \<notin> set l" "b @ after = l @ newline # rest"
  shows "\<exists>v. b = l @ newline # v \<and> v @ after = rest"
proof -
  obtain u v where b: "b = u @ newline # v" "newline \<notin> set u" using assms(1) by (auto dest: split_list_first)
  with assms(3) obtain l' where l: "l = u @ l'" "newline # v @ after = l' @ newline # rest"
    using before_newline [of u "newline # v @ after" l rest] by auto
  with assms(2) have "l' = []" by (cases l') auto
  with l b show ?thesis by simp
qed

text \<open>However the bytes are cut into buffers, the reader returns the first line and leaves what follows it.\<close>

lemma read_line_whole:
  assumes "clean_stream s" "bytes @ stream_bytes s = l @ newline # rest" "newline \<notin> set l" "newline \<notin> set bytes"
    "length l < max_bytes"
  shows "\<exists>s'. read_bounded_line io_error bad max_bytes bytes s = (Ok (Some (l @ [newline])), s') \<and>
    clean_stream s' \<and> stream_bytes s' = rest"
  using assms
proof (induction s arbitrary: bytes)
  case Nil
  then show ?case by (metis append_Nil2 in_set_conv_decomp stream_bytes.simps(1))
next
  case (Cons p s)
  then obtain buffer where p: "p = Piece buffer" "buffer \<noteq> []" "clean_stream s" by (cases p) auto
  with Cons.prems obtain l' where l: "l = bytes @ l'" "buffer @ stream_bytes s = l' @ newline # rest"
    using before_newline [of bytes "buffer @ stream_bytes s" l rest] by auto
  show ?case
  proof (cases "newline \<in> set buffer")
    case True
    with l Cons.prems(3) obtain v where v: "buffer = l' @ newline # v" "v @ stream_bytes s = rest"
      using newline_head [of buffer l' "stream_bytes s" rest] by auto
    have "takeWhile (\<lambda>c. c \<noteq> newline) buffer = l'"
      using Cons.prems(3) l(1) by (auto simp: v takeWhile_append)
    with True v Cons.prems(5) p(3) l(1) show ?thesis by (simp add: p(1) Let_def)
  next
    case False
    then obtain l'' where "l' = buffer @ l''" using before_newline l(2) by blast
    with False p Cons.prems l Cons.IH [of "bytes @ buffer"] show ?thesis by simp
  qed
qed

lemma read_line_end: "clean_stream s \<Longrightarrow> stream_bytes s = [] \<Longrightarrow> read_bounded_line io_error bad mx [] s = (Ok None, s)"
  by (cases s rule: clean_stream.cases) auto

section \<open>The spool of hook frames\<close>

definition RELAY_MAX_FRAME_BYTES :: nat where "RELAY_MAX_FRAME_BYTES = 256 * 1024"

record relay_env =
  le_codec :: remote_codec
  le_io_error :: string

datatype spool_event = Forwardable relay_hook_payload | SpoolIgnored

datatype hook_disposition = DispForward | DispIgnore | DispReject string

definition classify_hook_payload :: "relay_hook_payload \<Rightarrow> hook_disposition" where
  "classify_hook_payload payload =
     (case validate_hook_payload payload of
        Err e \<Rightarrow> DispReject (hook_ingest_error_text e)
      | Panic m \<Rightarrow> DispReject m
      | Ok u \<Rightarrow>
          let event = to_ascii_lowercase (rh_event payload)
          in if event \<in> set (hook_removed_events @ [''decisionwait'']) then DispIgnore
             else if event \<in> set forwardable_events then
               (case or_else (rh_external_session_id payload) (rh_session_id payload) of
                  None \<Rightarrow> DispReject (hook_ingest_error_text (HookInvalidField ''externalSessionId''))
                | Some value \<Rightarrow>
                    if value = [] then DispReject (hook_ingest_error_text (HookInvalidField ''externalSessionId''))
                    else DispForward)
             else DispIgnore)"

definition decode_ingest_payload ::
  "remote_codec \<Rightarrow> string \<Rightarrow> (hook_ingest_error, relay_hook_payload option) outcome" where
  "decode_ingest_payload codec bytes =
     (if length bytes < 4 then Err (HookInvalidField ''frame'')
      else
        let body_length = u32_from_be_bytes (take 4 bytes); body = drop 4 bytes
        in if RELAY_MAX_FRAME_BYTES < body_length \<or> length bytes \<noteq> 4 + body_length \<or> \<not> utf8_valid body
           then Err (HookInvalidField ''frame'')
           else case rc_read_ingest codec body of
               None \<Rightarrow> Err (HookInvalidField ''frame'')
             | Some (frame_type, payload) \<Rightarrow>
                 if frame_type \<noteq> ''ingest'' then Ok None
                 else ensure (validate_hook_payload payload) (Ok (Some payload)))"

text \<open>A call of the file system, with the message of its error.\<close>

definition spool_call :: "relay_env \<Rightarrow> (spool_dir, string, unit) op" where
  "spool_call env d = (case fs_call d of (Ok u, d') \<Rightarrow> (Ok (), d') | (_, d') \<Rightarrow> (Err (le_io_error env), d'))"

definition relay_list_frames :: "relay_env \<Rightarrow> (spool_dir, string, string list) op" where
  "relay_list_frames env = seq (spool_call env) (gets frame_names)"

definition relay_decode_frame :: "relay_env \<Rightarrow> string \<Rightarrow> (spool_dir, string, spool_event option) op" where
  "relay_decode_frame env path =
     seq (spool_call env)
       (bind (gets (\<lambda>d. map_of (sp_files d) path)) (\<lambda>content.
          lift (case content of
              None \<Rightarrow> Err (le_io_error env)
            | Some bytes \<Rightarrow>
                (case decode_ingest_payload (le_codec env) bytes of
                   Err e \<Rightarrow> Err (hook_ingest_error_text e)
                 | Panic m \<Rightarrow> Panic m
                 | Ok None \<Rightarrow> Ok None
                 | Ok (Some payload) \<Rightarrow>
                     (case classify_hook_payload payload of
                        DispForward \<Rightarrow> Ok (Some (Forwardable payload))
                      | DispIgnore \<Rightarrow> Ok (Some SpoolIgnored)
                      | DispReject message \<Rightarrow> Err message)))))"

definition relay_remove :: "relay_env \<Rightarrow> string \<Rightarrow> (spool_dir, string, unit) op" where
  "relay_remove env path =
     seq (spool_call env) (\<lambda>d. if map_of (sp_files d) path = None then (Err (le_io_error env), d)
       else (Ok (), d\<lparr>sp_files := AList.delete path (sp_files d)\<rparr>))"

section \<open>The program\<close>

definition HEARTBEAT_INTERVAL_MS :: int where "HEARTBEAT_INTERVAL_MS = 5000"

datatype relay_phase = DrainPhase | ControlPhase | BeatPhase

text \<open>
  \<open>pr_out\<close> is what reached stdout; the head of \<open>pr_out_faults\<close> says how many bytes the next line gets out before
  the write fails, if it fails. \<open>pr_reading\<close> is the thread on stdin, the only sender of controls.
\<close>

record relay_proc =
  pr_stdin :: "io_piece list"
  pr_reading :: bool
  pr_hooks :: "(string, relay_hook_payload) outcome list"
  pr_controls :: "(string, relay_control) outcome list"
  pr_spool :: "spool_dir option"
  pr_watch :: "string list"
  pr_phase :: relay_phase
  pr_sequence :: nat
  pr_last_heartbeat :: int
  pr_out :: string
  pr_out_faults :: "nat option list"
  pr_exit :: "(string, unit) outcome option"

type_synonym 'a relay_op = "(relay_proc, string, 'a) op"

definition relay_write_line :: "relay_env \<Rightarrow> string option \<Rightarrow> unit relay_op" where
  "relay_write_line env encoded p =
     (case encoded of
        None \<Rightarrow> (Err (le_io_error env), p)
      | Some json \<Rightarrow>
          let line = json @ [newline]
          in (case pr_out_faults p of
                Some n # fs \<Rightarrow> (Err (le_io_error env), p\<lparr>pr_out := pr_out p @ take n line, pr_out_faults := fs\<rparr>)
              | fs \<Rightarrow> (Ok (), p\<lparr>pr_out := pr_out p @ line, pr_out_faults := tl fs\<rparr>)))"

definition relay_emit_frame :: "relay_env \<Rightarrow> relay_payload \<Rightarrow> unit relay_op" where
  "relay_emit_frame env payload p =
     (if 2 ^ 64 \<le> pr_sequence p + 1 then (Err ''relay sequence exhausted'', p)
      else
        let sequence = pr_sequence p + 1; p1 = p\<lparr>pr_sequence := sequence\<rparr>;
            frame = \<lparr>rf_sequence = sequence, rf_payload = payload\<rparr>
        in (case validate_after (le_codec env) \<lparr>last_sequence = sequence - 1\<rparr> frame of
              Err e \<Rightarrow> (Err (protocol_error_text e), p1)
            | Panic m \<Rightarrow> (Panic m, p1)
            | Ok u \<Rightarrow> relay_write_line env (rc_frame (le_codec env) frame) p1))"

definition forward_hook :: "relay_env \<Rightarrow> int \<Rightarrow> relay_hook_payload \<Rightarrow> unit relay_op" where
  "forward_hook env now_ms payload =
     (case normalize_hook_payload (le_codec env) payload now_ms of
        Ok (Some relay_payload) \<Rightarrow> relay_emit_frame env relay_payload
      | Ok None \<Rightarrow> ret ()
      | Err e \<Rightarrow> throw (''hook ingest rejected: '' @ hook_ingest_error_text e)
      | Panic m \<Rightarrow> panic m)"

text \<open>
  One turn of \<open>drain_hook_events\<close>: a message taken from the channel, or the end of the loop when there is none.
  An error of any part of the main loop ends the process.
\<close>

definition exits_with :: "unit relay_op \<Rightarrow> relay_proc \<Rightarrow> relay_proc" where
  "exits_with m p =
     (case m p of
        (Ok u, p') \<Rightarrow> p'
      | (Err e, p') \<Rightarrow> p'\<lparr>pr_exit := Some (Err e)\<rparr>
      | (Panic e, p') \<Rightarrow> p'\<lparr>pr_exit := Some (Panic e)\<rparr>)"

definition drain_hook_event :: "relay_env \<Rightarrow> int \<Rightarrow> relay_proc \<Rightarrow> relay_proc" where
  "drain_hook_event env now_ms p =
     (case pr_hooks p of
        [] \<Rightarrow> p\<lparr>pr_phase := ControlPhase\<rparr>
      | Ok payload # hooks \<Rightarrow> exits_with (forward_hook env now_ms payload) (p\<lparr>pr_hooks := hooks\<rparr>)
      | Err e # hooks \<Rightarrow> p\<lparr>pr_hooks := hooks, pr_exit := Some (Err e)\<rparr>
      | Panic e # hooks \<Rightarrow> p\<lparr>pr_hooks := hooks, pr_exit := Some (Panic e)\<rparr>)"

definition take_control :: "relay_proc \<Rightarrow> relay_proc" where
  "take_control p =
     (case pr_controls p of
        Ok Shutdown # controls \<Rightarrow> p\<lparr>pr_controls := controls, pr_exit := Some (Ok ())\<rparr>
      | Ok control # controls \<Rightarrow> p\<lparr>pr_controls := controls, pr_phase := BeatPhase\<rparr>
      | Err e # controls \<Rightarrow> p\<lparr>pr_controls := controls, pr_exit := Some (Err e)\<rparr>
      | Panic e # controls \<Rightarrow> p\<lparr>pr_controls := controls, pr_exit := Some (Panic e)\<rparr>
      | [] \<Rightarrow> if pr_reading p then p\<lparr>pr_phase := BeatPhase\<rparr> else p\<lparr>pr_exit := Some (Ok ())\<rparr>)"

definition relay_heartbeat :: "relay_env \<Rightarrow> int \<Rightarrow> relay_proc \<Rightarrow> relay_proc" where
  "relay_heartbeat env now_ms p =
     (if HEARTBEAT_INTERVAL_MS \<le> now_ms - pr_last_heartbeat p
      then exits_with (seq (relay_emit_frame env Heartbeat) (modify (\<lambda>p. p\<lparr>pr_last_heartbeat := now_ms, pr_phase := DrainPhase\<rparr>))) p
      else p\<lparr>pr_phase := DrainPhase\<rparr>)"

definition relay_main :: "relay_env \<Rightarrow> int \<Rightarrow> relay_proc \<Rightarrow> relay_proc" where
  "relay_main env now_ms p =
     (case pr_phase p of
        DrainPhase \<Rightarrow> drain_hook_event env now_ms p
      | ControlPhase \<Rightarrow> take_control p
      | BeatPhase \<Rightarrow> relay_heartbeat env now_ms p)"

text \<open>The thread on stdin.\<close>

definition CONTROL_FRAME_BAD :: string where
  "CONTROL_FRAME_BAD = ''control frame is oversized or unterminated''"

definition read_control :: "relay_env \<Rightarrow> (string, relay_control option) line_op" where
  "read_control env =
     bind (read_bounded_line (\<lambda>e. e) CONTROL_FRAME_BAD MAX_REMOTE_FRAME_BYTES []) (\<lambda>bytes.
       lift (case bytes of
           None \<Rightarrow> Ok None
         | Some line \<Rightarrow>
             (case rc_read_control (le_codec env) line of
                None \<Rightarrow> Err (''invalid control JSON: '' @ rc_error (le_codec env) line)
              | Some control \<Rightarrow>
                  (case validate_control control of
                     Err e \<Rightarrow> Err (protocol_error_text e) | Panic m \<Rightarrow> Panic m | Ok u \<Rightarrow> Ok (Some control)))))"

definition stdin_thread :: "relay_env \<Rightarrow> relay_proc \<Rightarrow> relay_proc" where
  "stdin_thread env p =
     (case read_control env (pr_stdin p) of
        (Ok (Some (InjectHook payload)), input) \<Rightarrow> p\<lparr>pr_stdin := input, pr_hooks := pr_hooks p @ [Ok payload]\<rparr>
      | (Ok (Some Shutdown), input) \<Rightarrow>
          p\<lparr>pr_stdin := input, pr_controls := pr_controls p @ [Ok Shutdown], pr_reading := False\<rparr>
      | (Ok (Some control), input) \<Rightarrow> p\<lparr>pr_stdin := input, pr_controls := pr_controls p @ [Ok control]\<rparr>
      | (Ok None, input) \<Rightarrow>
          p\<lparr>pr_stdin := input, pr_controls := pr_controls p @ [Ok Shutdown], pr_reading := False\<rparr>
      | (Err e, input) \<Rightarrow> p\<lparr>pr_stdin := input, pr_controls := pr_controls p @ [Err e], pr_reading := False\<rparr>
      | (Panic e, input) \<Rightarrow> p\<lparr>pr_stdin := input, pr_reading := False\<rparr>)"

text \<open>The thread on the spool: a listing, then one file after the other.\<close>

definition watch_list :: "relay_env \<Rightarrow> spool_dir \<Rightarrow> relay_proc \<Rightarrow> relay_proc" where
  "watch_list env d p =
     (case relay_list_frames env d of
        (Ok paths, d') \<Rightarrow> p\<lparr>pr_spool := Some d', pr_watch := paths\<rparr>
      | (Err e, d') \<Rightarrow> p\<lparr>pr_spool := Some d', pr_hooks := pr_hooks p @ [Err e]\<rparr>
      | (Panic e, d') \<Rightarrow> p\<lparr>pr_spool := Some d'\<rparr>)"

definition watch_frame :: "relay_env \<Rightarrow> string \<Rightarrow> spool_dir \<Rightarrow> relay_proc \<Rightarrow> relay_proc" where
  "watch_frame env path d p =
     (case relay_decode_frame env path d of
        (Ok (Some (Forwardable payload)), d') \<Rightarrow>
          p\<lparr>pr_hooks := pr_hooks p @ [Ok payload], pr_spool := Some (snd (relay_remove env path d'))\<rparr>
      | (Ok (Some SpoolIgnored), d') \<Rightarrow> p\<lparr>pr_spool := Some (snd (relay_remove env path d'))\<rparr>
      | (Ok None, d') \<Rightarrow> p\<lparr>pr_spool := Some d'\<rparr>
      | (Err e, d') \<Rightarrow> p\<lparr>pr_hooks := pr_hooks p @ [Err e], pr_spool := Some d'\<rparr>
      | (Panic e, d') \<Rightarrow> p\<lparr>pr_spool := Some d'\<rparr>)"

definition spool_thread :: "relay_env \<Rightarrow> relay_proc \<Rightarrow> relay_proc" where
  "spool_thread env p =
     (case pr_spool p of
        None \<Rightarrow> p
      | Some d \<Rightarrow>
          (case pr_watch p of
             [] \<Rightarrow> watch_list env d p
           | path # paths \<Rightarrow> watch_frame env path d (p\<lparr>pr_watch := paths\<rparr>)))"

text \<open>Arguments and start.\<close>

record relay_args =
  ra_host_id :: "string option"
  ra_resume :: "nat option"
  ra_event_spool :: "string option"

fun parse_relay_args :: "relay_args \<Rightarrow> string list \<Rightarrow> (string, relay_args) outcome" where
  "parse_relay_args acc [] = Ok acc"
| "parse_relay_args acc [flag] = Err (''missing value for '' @ flag)"
| "parse_relay_args acc (flag # value # args) =
     (if flag = ''--host-id'' \<and> ra_host_id acc = None then parse_relay_args (acc\<lparr>ra_host_id := Some value\<rparr>) args
      else if flag = ''--resume'' \<and> ra_resume acc = None then
        (case parse_u64 value of
           None \<Rightarrow> Err ''resume must be an unsigned integer''
         | Some n \<Rightarrow> parse_relay_args (acc\<lparr>ra_resume := Some n\<rparr>) args)
      else if flag = ''--event-spool'' \<and> ra_event_spool acc = None
      then parse_relay_args (acc\<lparr>ra_event_spool := Some value\<rparr>) args
      else Err (''unknown or duplicate argument: '' @ flag))"

definition parse_args :: "string list \<Rightarrow> (string, string \<times> nat \<times> string option) outcome" where
  "parse_args args =
     (case parse_relay_args \<lparr>ra_host_id = None, ra_resume = None, ra_event_spool = None\<rparr> args of
        Err e \<Rightarrow> Err e
      | Panic m \<Rightarrow> Panic m
      | Ok acc \<Rightarrow>
          (case ra_host_id acc of
             None \<Rightarrow> Err ''--host-id is required''
           | Some host_id \<Rightarrow>
               (case ra_resume acc of
                  None \<Rightarrow> Err ''--resume is required''
                | Some resume \<Rightarrow> Ok (host_id, resume, ra_event_spool acc))))"

text \<open>
  \<open>relay_start\<close> is \<open>run\<close> up to its loop: the process starts with nothing written, \<open>spool\<close> is the directory under
  the runtime directory it is given and \<open>nonce\<close> the hexadecimal text of 32 random bytes.
\<close>

definition relay_process :: "io_piece list \<Rightarrow> spool_dir option \<Rightarrow> nat option list \<Rightarrow> int \<Rightarrow> nat \<Rightarrow> relay_proc" where
  "relay_process stdin spool faults now_ms resume =
     \<lparr>pr_stdin = stdin, pr_reading = True, pr_hooks = [], pr_controls = [], pr_spool = spool, pr_watch = [],
      pr_phase = DrainPhase, pr_sequence = resume, pr_last_heartbeat = now_ms, pr_out = [], pr_out_faults = faults,
      pr_exit = None\<rparr>"

definition relay_start ::
  "relay_env \<Rightarrow> string \<Rightarrow> (string \<Rightarrow> spool_dir) \<Rightarrow> io_piece list \<Rightarrow> nat option list \<Rightarrow> int \<Rightarrow> string list \<Rightarrow> relay_proc" where
  "relay_start env nonce dirs stdin faults now_ms args =
     (case parse_args args of
        Err e \<Rightarrow> (relay_process stdin None faults now_ms 0)\<lparr>pr_exit := Some (Err e)\<rparr>
      | Panic m \<Rightarrow> (relay_process stdin None faults now_ms 0)\<lparr>pr_exit := Some (Panic m)\<rparr>
      | Ok (host_id, resume, event_spool) \<Rightarrow>
          let hello = \<lparr>hello_version = RELAY_PROTOCOL_VERSION, hello_host_id = host_id, hello_nonce = nonce,
                hello_resume = \<lparr>last_sequence = resume\<rparr>\<rparr>;
              p = relay_process stdin (map_option dirs event_spool) faults now_ms resume
          in (case validate_hello hello of
                Err e \<Rightarrow> p\<lparr>pr_exit := Some (Err (protocol_error_text e))\<rparr>
              | Panic m \<Rightarrow> p\<lparr>pr_exit := Some (Panic m)\<rparr>
              | Ok u \<Rightarrow> exits_with (relay_write_line env (rc_hello (le_codec env) hello)) p))"

section \<open>Runs\<close>

text \<open>
  The three threads interleave freely, and hooks of the remote host leave new frames in the spool, until the
  main loop ends the process.
\<close>

inductive relay_step :: "relay_env \<Rightarrow> relay_proc \<Rightarrow> relay_proc \<Rightarrow> bool" for env where
  StepMain: "pr_exit p = None \<Longrightarrow> relay_step env p (relay_main env now_ms p)"
| StepStdin: "pr_exit p = None \<Longrightarrow> pr_reading p \<Longrightarrow> relay_step env p (stdin_thread env p)"
| StepSpool: "pr_exit p = None \<Longrightarrow> relay_step env p (spool_thread env p)"
| StepArrive: "pr_exit p = None \<Longrightarrow> pr_spool p = Some d \<Longrightarrow> name \<notin> fst ` set (sp_files d) \<Longrightarrow>
    relay_step env p (p\<lparr>pr_spool := Some (d\<lparr>sp_files := sp_files d @ [(name, bytes)]\<rparr>)\<rparr>)"

definition encoded_line :: "string option \<Rightarrow> string" where
  "encoded_line encoded = (case encoded of None \<Rightarrow> [] | Some json \<Rightarrow> json @ [newline])"

definition frame_line :: "remote_codec \<Rightarrow> relay_frame \<Rightarrow> string" where
  "frame_line codec frame = encoded_line (rc_frame codec frame)"

definition frame_fits :: "remote_codec \<Rightarrow> relay_frame \<Rightarrow> bool" where
  "frame_fits codec frame \<longleftrightarrow> rf_sequence frame < 2 ^ 64 \<and> validate_payload (rf_payload frame) = Ok () \<and>
     (case rc_frame codec frame of None \<Rightarrow> False | Some json \<Rightarrow> length json \<le> MAX_REMOTE_FRAME_BYTES)"

text \<open>
  \<open>relay_said\<close>: the process has written the line \<open>greeting\<close> and one line for each frame, numbered from \<open>resume\<close>
  on; only a process that ended may have cut a line short.
\<close>

definition relay_said :: "remote_codec \<Rightarrow> string \<Rightarrow> nat \<Rightarrow> relay_frame list \<Rightarrow> relay_proc \<Rightarrow> bool" where
  "relay_said codec greeting resume frames p \<longleftrightarrow>
     map rf_sequence frames = [Suc resume ..< Suc resume + length frames] \<and> list_all (frame_fits codec) frames \<and>
     (if pr_exit p = None
      then pr_out p = greeting @ concat (map (frame_line codec) frames) \<and> pr_sequence p = resume + length frames
      else prefix (greeting @ concat (map (frame_line codec) frames)) (pr_out p))"

text \<open>What a part of the process leaves alone.\<close>

definition same_output :: "relay_proc \<Rightarrow> relay_proc \<Rightarrow> bool" where
  "same_output p p' \<longleftrightarrow> pr_out p' = pr_out p \<and> pr_sequence p' = pr_sequence p"

lemma said_same:
  "relay_said codec greeting resume frames p \<Longrightarrow> pr_exit p = None \<Longrightarrow> same_output p p' \<Longrightarrow>
   relay_said codec greeting resume frames p'"
  by (auto simp: relay_said_def same_output_def)

lemma stdin_same: "same_output p (stdin_thread env p)" and stdin_exit: "pr_exit (stdin_thread env p) = pr_exit p"
  by (auto simp: same_output_def stdin_thread_def split: prod.splits outcome.splits option.splits relay_control.splits)

lemma spool_same: "same_output p (spool_thread env p)" and spool_exit: "pr_exit (spool_thread env p) = pr_exit p"
  by (auto simp: same_output_def spool_thread_def watch_list_def watch_frame_def
      split: prod.splits outcome.splits option.splits list.splits spool_event.splits)

lemma control_same: "same_output p (take_control p)"
  by (auto simp: same_output_def take_control_def split: list.splits outcome.splits relay_control.splits)

lemma write_line_run:
  "relay_write_line env encoded p = (r, p') \<Longrightarrow>
     pr_sequence p' = pr_sequence p \<and> pr_exit p' = pr_exit p \<and> prefix (pr_out p) (pr_out p') \<and>
     (r = Ok () \<longrightarrow> encoded \<noteq> None \<and> pr_out p' = pr_out p @ encoded_line encoded)"
  by (auto simp: relay_write_line_def encoded_line_def Let_def split: option.splits list.splits)

lemma emit_frame_run:
  assumes "relay_emit_frame env payload p = (r, p')"
  shows "pr_exit p' = pr_exit p" "prefix (pr_out p) (pr_out p')"
    and "r = Ok () \<Longrightarrow>
      frame_fits (le_codec env) \<lparr>rf_sequence = pr_sequence p + 1, rf_payload = payload\<rparr> \<and>
      pr_out p' = pr_out p @ frame_line (le_codec env) \<lparr>rf_sequence = pr_sequence p + 1, rf_payload = payload\<rparr> \<and>
      pr_sequence p' = pr_sequence p + 1"
  using assms
  by (auto simp: relay_emit_frame_def Let_def frame_fits_def frame_line_def validate_after_def
      dest!: write_line_run split: if_splits outcome.splits option.splits)

definition writes_frames :: "remote_codec \<Rightarrow> unit relay_op \<Rightarrow> bool" where
  "writes_frames codec m \<longleftrightarrow> (\<forall>p r p'. m p = (r, p') \<longrightarrow>
     pr_exit p' = pr_exit p \<and> prefix (pr_out p) (pr_out p') \<and>
     (r = Ok () \<longrightarrow> same_output p p' \<or>
       (\<exists>frame. rf_sequence frame = pr_sequence p + 1 \<and> frame_fits codec frame \<and>
          pr_out p' = pr_out p @ frame_line codec frame \<and> pr_sequence p' = pr_sequence p + 1)))"

lemma emit_writes: "writes_frames (le_codec env) (relay_emit_frame env payload)"
  unfolding writes_frames_def using emit_frame_run by fastforce

lemma forward_writes: "writes_frames (le_codec env) (forward_hook env now_ms payload)"
  using emit_writes [of env]
  by (auto simp: forward_hook_def writes_frames_def same_output_def op_basic_defs split: outcome.splits option.splits)

lemma said_snoc:
  assumes "relay_said codec greeting resume frames p" "pr_exit p = None" "rf_sequence frame = pr_sequence p + 1"
    "frame_fits codec frame" "pr_out p' = pr_out p @ frame_line codec frame" "pr_sequence p' = pr_sequence p + 1"
  shows "relay_said codec greeting resume (frames @ [frame]) p'"
  using assms by (auto simp: relay_said_def)

lemma said_exits:
  assumes "writes_frames codec m" "relay_said codec greeting resume frames p" "pr_exit p = None"
  shows "\<exists>more_frames. relay_said codec greeting resume (frames @ more_frames) (exits_with m p)"
proof -
  obtain r p' where m: "m p = (r, p')" by force
  note w = assms(1) [unfolded writes_frames_def, rule_format, OF m]
  show ?thesis
  proof (cases r)
    case (Ok u)
    then have ex: "exits_with m p = p'" by (simp add: exits_with_def m)
    from w Ok consider "same_output p p'" | frame where "rf_sequence frame = pr_sequence p + 1" "frame_fits codec frame"
      "pr_out p' = pr_out p @ frame_line codec frame" "pr_sequence p' = pr_sequence p + 1"
      by auto
    then show ?thesis
    proof cases
      case 1
      with assms(2,3) said_same [of codec greeting resume frames p p'] show ?thesis
        unfolding ex by (metis append_Nil2)
    next
      case 2
      with assms(2,3) said_snoc [of codec greeting resume frames p] show ?thesis unfolding ex by blast
    qed
  next
    case (Err e)
    with w assms(2,3) have "relay_said codec greeting resume frames (exits_with m p)"
      by (auto simp: exits_with_def m relay_said_def)
    then show ?thesis by (metis append_Nil2)
  next
    case (Panic e)
    with w assms(2,3) have "relay_said codec greeting resume frames (exits_with m p)"
      by (auto simp: exits_with_def m relay_said_def)
    then show ?thesis by (metis append_Nil2)
  qed
qed

lemma writes_seq_modify:
  assumes "writes_frames codec m" "\<And>p. same_output p (f p)" "\<And>p. pr_exit (f p) = pr_exit p"
  shows "writes_frames codec (seq m (modify f))"
  unfolding writes_frames_def
proof (intro allI impI)
  fix p r p'
  assume run: "seq m (modify f) p = (r, p')"
  obtain r1 p1 where m: "m p = (r1, p1)" by force
  note w = assms(1) [unfolded writes_frames_def, rule_format, OF m]
  from run have p': "p' = (if r1 = Ok () then f p1 else p1)" and r: "r = Ok () \<longleftrightarrow> r1 = Ok ()"
    by (auto simp: seq_def bind_def modify_def m split: outcome.splits)
  have "pr_out p' = pr_out p1" "pr_sequence p' = pr_sequence p1" "pr_exit p' = pr_exit p1"
    using assms(2) [of p1] assms(3) [of p1] by (simp_all add: p' same_output_def)
  with w r show "pr_exit p' = pr_exit p \<and> prefix (pr_out p) (pr_out p') \<and>
      (r = Ok () \<longrightarrow> same_output p p' \<or>
        (\<exists>frame. rf_sequence frame = pr_sequence p + 1 \<and> frame_fits codec frame \<and>
           pr_out p' = pr_out p @ frame_line codec frame \<and> pr_sequence p' = pr_sequence p + 1))"
    by (simp add: same_output_def)
qed

lemma said_more:
  assumes "relay_said codec greeting resume frames p" "pr_exit p = None" "same_output p p'"
  shows "\<exists>more_frames. relay_said codec greeting resume (frames @ more_frames) p'"
  using said_same [OF assms] by (metis append_Nil2)

lemma said_main:
  assumes "relay_said (le_codec env) greeting resume frames p" "pr_exit p = None"
  shows "\<exists>more_frames. relay_said (le_codec env) greeting resume (frames @ more_frames) (relay_main env now_ms p)"
proof (cases "pr_phase p")
  case DrainPhase
  show ?thesis
  proof (cases "\<exists>payload hooks. pr_hooks p = Ok payload # hooks")
    case True
    then obtain payload hooks where h: "pr_hooks p = Ok payload # hooks" by blast
    have "relay_said (le_codec env) greeting resume frames (p\<lparr>pr_hooks := hooks\<rparr>)"
      by (rule said_same [OF assms]) (simp add: same_output_def)
    from said_exits [OF forward_writes this] assms(2) show ?thesis
      by (simp add: relay_main_def DrainPhase drain_hook_event_def h)
  next
    case False
    then have "same_output p (relay_main env now_ms p)"
      by (auto simp: relay_main_def DrainPhase drain_hook_event_def same_output_def split: list.splits outcome.splits)
    with said_more [OF assms] show ?thesis .
  qed
next
  case ControlPhase
  with said_more [OF assms control_same] show ?thesis by (simp add: relay_main_def)
next
  case BeatPhase
  show ?thesis
  proof (cases "HEARTBEAT_INTERVAL_MS \<le> now_ms - pr_last_heartbeat p")
    case True
    have "writes_frames (le_codec env) (seq (relay_emit_frame env Heartbeat)
        (modify (\<lambda>p. p\<lparr>pr_last_heartbeat := now_ms, pr_phase := DrainPhase\<rparr>)))"
      by (rule writes_seq_modify [OF emit_writes]) (simp_all add: same_output_def)
    from said_exits [OF this assms] True show ?thesis
      by (simp add: relay_main_def BeatPhase relay_heartbeat_def)
  next
    case False
    then have "same_output p (relay_main env now_ms p)"
      by (simp add: relay_main_def BeatPhase relay_heartbeat_def same_output_def)
    with said_more [OF assms] show ?thesis .
  qed
qed

lemma said_step:
  assumes "relay_step env p p'" "relay_said (le_codec env) greeting resume frames p"
  shows "\<exists>more_frames. relay_said (le_codec env) greeting resume (frames @ more_frames) p'"
  using assms
proof (cases rule: relay_step.cases)
  case (StepMain now_ms)
  with said_main [OF assms(2)] show ?thesis by simp
next
  case StepStdin
  with said_more [OF assms(2) _ stdin_same] show ?thesis by simp
next
  case StepSpool
  with said_more [OF assms(2) _ spool_same] show ?thesis by simp
next
  case (StepArrive d name bytes)
  then have "same_output p p'" by (simp add: same_output_def)
  with StepArrive said_more [OF assms(2)] show ?thesis by simp
qed

lemma said_run:
  assumes "(relay_step env)\<^sup>*\<^sup>* p p'" "relay_said (le_codec env) greeting resume frames p"
  shows "\<exists>more_frames. relay_said (le_codec env) greeting resume (frames @ more_frames) p'"
  using assms
proof (induction rule: rtranclp_induct)
  case base
  then show ?case by (metis append_Nil2)
next
  case (step q r)
  then obtain fs where "relay_said (le_codec env) greeting resume (frames @ fs) q" by blast
  from said_step [OF step.hyps(2) this] show ?case by (metis append.assoc)
qed

definition relay_greeting :: "string \<Rightarrow> nat \<Rightarrow> string \<Rightarrow> relay_hello" where
  "relay_greeting host_id resume nonce =
     \<lparr>hello_version = RELAY_PROTOCOL_VERSION, hello_host_id = host_id, hello_nonce = nonce,
      hello_resume = \<lparr>last_sequence = resume\<rparr>\<rparr>"

lemma relay_start_said:
  assumes "parse_args args = Ok (host_id, resume, spool)"
    and "pr_exit (relay_start env nonce dirs stdin faults now_ms args) = None"
  shows "relay_said (le_codec env) (encoded_line (rc_hello (le_codec env) (relay_greeting host_id resume nonce))) resume []
      (relay_start env nonce dirs stdin faults now_ms args)"
    and "validate_hello (relay_greeting host_id resume nonce) = Ok ()"
    and "rc_hello (le_codec env) (relay_greeting host_id resume nonce) \<noteq> None"
proof -
  let ?hello = "relay_greeting host_id resume nonce"
  let ?p = "relay_process stdin (map_option dirs spool) faults now_ms resume"
  let ?w = "relay_write_line env (rc_hello (le_codec env) ?hello)"
  from assms show valid: "validate_hello ?hello = Ok ()"
    by (auto simp: relay_start_def relay_greeting_def Let_def split: outcome.splits)
  then have start: "relay_start env nonce dirs stdin faults now_ms args = exits_with ?w ?p"
    using assms(1) by (simp add: relay_start_def relay_greeting_def Let_def)
  obtain r q where w: "?w ?p = (r, q)" by force
  from assms(2) start w have r: "r = Ok ()" by (auto simp: exits_with_def split: outcome.splits)
  note run = write_line_run [OF w]
  have q: "exits_with ?w ?p = q" using r by (simp only: exits_with_def w prod.case outcome.case)
  from run r show "rc_hello (le_codec env) ?hello \<noteq> None" by simp
  show "relay_said (le_codec env) (encoded_line (rc_hello (le_codec env) ?hello)) resume []
      (relay_start env nonce dirs stdin faults now_ms args)"
    unfolding start q using run r by (simp add: relay_said_def relay_process_def)
qed

section \<open>A frame the watcher rejects\<close>

text \<open>
  A spool frame that does not decode is reported and left where it is; the report ends the main loop, so the
  process ends, and it will end again when it is started over the same spool.
\<close>

lemma rejected_frame_ends_relay:
  assumes "pr_exit p = None" "pr_phase p = DrainPhase" "pr_hooks p = []" "pr_watch p = path # paths"
    and "pr_spool p = Some d" "sp_faults d = []" "map_of (sp_files d) path = Some bytes"
    and "decode_ingest_payload (le_codec env) bytes = Err e"
  shows "\<exists>p'. relay_step env p (spool_thread env p) \<and> relay_step env (spool_thread env p) p' \<and>
    pr_exit p' = Some (Err (hook_ingest_error_text e)) \<and>
    (\<exists>d'. pr_spool p' = Some d' \<and> map_of (sp_files d') path = Some bytes) \<and> pr_out p' = pr_out p"
proof -
  have thread: "spool_thread env p =
      p\<lparr>pr_watch := paths, pr_hooks := [Err (hook_ingest_error_text e)], pr_spool := Some d\<rparr>"
    using assms by (simp add: spool_thread_def watch_frame_def relay_decode_frame_def spool_call_def fs_call_def
        seq_def bind_def gets_def lift_def)
  let ?q = "relay_main env 0 (spool_thread env p)"
  have "?q = p\<lparr>pr_watch := paths, pr_hooks := [], pr_spool := Some d, pr_exit := Some (Err (hook_ingest_error_text e))\<rparr>"
    using assms(2) by (simp add: relay_main_def thread drain_hook_event_def)
  moreover have "relay_step env p (spool_thread env p)" by (rule StepSpool [OF assms(1)])
  moreover have "relay_step env (spool_thread env p) ?q"
    by (rule StepMain) (simp add: assms(1) thread)
  ultimately show ?thesis using assms(7) by (intro exI [of _ ?q]) simp
qed

lemma forwarded_by_relay:
  assumes "classify_hook_payload payload = DispForward"
  shows "\<exists>relay. (normalize_hook_payload codec payload now_ms = check_encoded codec relay) \<and> validate_payload relay = Ok ()"
proof -
  let ?event = "to_ascii_lowercase (rh_event payload)"
  have valid: "validate_hook_payload payload = Ok ()" and fwd: "is_forwardable_event ?event" "?event \<notin> set hook_removed_events"
    and sid: "\<exists>v. or_else (rh_external_session_id payload) (rh_session_id payload) = Some v \<and> v \<noteq> []"
    using assms by (auto simp: classify_hook_payload_def Let_def is_forwardable_event_def
        split: outcome.splits if_splits option.splits)
  from forwardable_event_kind [OF fwd(1)] obtain kind where kind: "hook_event_kind ?event = Ok kind" by blast
  from sid obtain v where v: "hook_session_id payload = Ok v" by (auto simp: hook_session_id_def)
  let ?relay = "RelayEvent
    \<lparr>rev_session_id = v, rev_source = normalize_source (rh_source payload),
     rev_summary = unwrap_or (hook_default_summary kind) (nonempty (rh_summary payload)),
     rev_occurred_at_ms = unwrap_or now_ms (rh_occurred_at_ms payload), rev_kind = Some kind,
     rev_tool_name = nonempty (rh_tool_name payload), rev_attention = hook_attention payload\<rparr>"
  have "normalize_hook_payload c payload now_ms = check_encoded c ?relay" for c
    using valid fwd kind v by (simp add: normalize_hook_payload_def ensure_def Let_def)
  note n = this
  define c where "c = codec\<lparr>rc_frame := \<lambda>_. Some []\<rparr>"
  have "normalize_hook_payload c payload now_ms = Ok (Some ?relay)"
    by (simp add: n check_encoded_def c_def MAX_REMOTE_FRAME_BYTES_def)
  from normalized_valid [OF this] n [of codec] show ?thesis by blast
qed

end
