(* ===== verification/Remote_Session.thy ===== *)
theory Remote_Session
  imports Remote_Relay
begin

text \<open>
  The desktop's end of a relay: the transport over a child process (\<^verbatim>\<open>crates/notch-remote/src/transport.rs\<close>)
  and the session that survives reconnects (\<^verbatim>\<open>session.rs\<close>). The session is written against the methods of the
  traits \<open>RemoteTransport\<close> and \<open>RemoteConnection\<close>, a record of functions here, as in \<open>Box<dyn ...>\<close>; what it
  relies on is the locale \<open>relay_transport\<close>, interpreted on the transport over OpenSSH.
\<close>

section \<open>Errors and methods\<close>

datatype transport_error =
    TSshUnavailable
  | THostVerificationFailed
  | TAuthenticationFailed
  | TProtocol string
  | TDisconnected
  | TProcess string

fun transport_error_text :: "transport_error \<Rightarrow> string" where
  "transport_error_text TSshUnavailable = ''SSH executable is unavailable''"
| "transport_error_text THostVerificationFailed = ''SSH host verification failed''"
| "transport_error_text TAuthenticationFailed = ''SSH authentication failed''"
| "transport_error_text (TProtocol m) = ''relay protocol failed: '' @ m"
| "transport_error_text TDisconnected = ''remote transport disconnected''"
| "transport_error_text (TProcess m) = ''SSH process failed: '' @ m"

record ('c, 'w) transport_ops =
  tp_connect :: "remote_host_config \<Rightarrow> resume_cursor \<Rightarrow> ('w, transport_error, 'c) op"
  tp_hello :: "'c \<Rightarrow> relay_hello"
  tp_receive :: "('c, transport_error, relay_frame option) op"
  tp_acknowledge :: "resume_cursor \<Rightarrow> ('c, transport_error, unit) op"
  tp_inject_hook :: "relay_hook_payload \<Rightarrow> ('c, transport_error, unit) op"
  tp_close :: "('c, transport_error, unit) op"
  tp_is_alive :: "('c, transport_error, bool) op"

section \<open>The transport over a child process\<close>

definition MAX_HELLO_BYTES :: nat where "MAX_HELLO_BYTES = 4 * 1024"
definition DEFAULT_REMOTE_RUNTIME_DIRECTORY :: string where "DEFAULT_REMOTE_RUNTIME_DIRECTORY = ''~/.llm-notch''"
definition DEFAULT_REMOTE_BIN_DIRECTORY :: string where "DEFAULT_REMOTE_BIN_DIRECTORY = ''~/.llm-notch/bin''"
definition DEFAULT_REMOTE_RELAY_PATH :: string where
  "DEFAULT_REMOTE_RELAY_PATH = ''~/.llm-notch/bin/llm-notch-relay''"

text \<open>
  A child process as its parent sees it: the answers \<open>try_wait\<close> will give (none left: it has exited), its
  output, its error output, and what reached its input.
\<close>

datatype wait_answer = StillRunning | HasExited | WaitError string

record ssh_child =
  ch_wait :: "wait_answer list"
  ch_stdout :: "io_piece list"
  ch_stderr :: string
  ch_stdin :: string
  ch_stdin_faults :: "nat option list"
  ch_kill_error :: "string option"
  ch_killed :: bool

definition try_wait :: "(ssh_child, transport_error, bool) op" where
  "try_wait child =
     (let child' = child\<lparr>ch_wait := tl (ch_wait child)\<rparr>
      in case ch_wait child of
           [] \<Rightarrow> (Ok True, child)
         | HasExited # _ \<Rightarrow> (Ok True, child)
         | StillRunning # _ \<Rightarrow> (Ok False, child')
         | WaitError e # _ \<Rightarrow> (Err (TProcess e), child'))"

definition kill_child :: "(ssh_child, transport_error, unit) op" where
  "kill_child child =
     (case ch_kill_error child of
        Some e \<Rightarrow> (Err (TProcess e), child)
      | None \<Rightarrow> (Ok (), child\<lparr>ch_killed := True, ch_wait := []\<rparr>))"

definition process_is_alive :: "(ssh_child, transport_error, bool) op" where
  "process_is_alive = bind try_wait (\<lambda>exited. ret (\<not> exited))"

definition RELAY_FRAME_BAD :: transport_error where
  "RELAY_FRAME_BAD = TProtocol ''relay emitted an oversized or unterminated frame''"

definition read_json_line ::
  "(string \<Rightarrow> string) \<Rightarrow> (string \<Rightarrow> 'v option) \<Rightarrow> nat \<Rightarrow> (transport_error, 'v option) line_op" where
  "read_json_line error_text reader max_bytes =
     bind (read_bounded_line TProcess RELAY_FRAME_BAD max_bytes []) (\<lambda>bytes.
       lift (case bytes of
           None \<Rightarrow> Ok None
         | Some line \<Rightarrow>
             (case reader line of
                None \<Rightarrow> Err (TProtocol (''invalid relay JSON: '' @ error_text line))
              | Some v \<Rightarrow> Ok (Some v))))"

text \<open>A write that fails inside the JSON text is an error of \<open>serde_json\<close>, one at the line end a disconnect.\<close>

definition write_json_line :: "remote_codec \<Rightarrow> string option \<Rightarrow> (ssh_child, transport_error, unit) op" where
  "write_json_line codec encoded child =
     (case encoded of
        None \<Rightarrow> (Err (TProtocol (rc_write_error codec)), child)
      | Some json \<Rightarrow>
          let line = json @ [newline]
          in (case ch_stdin_faults child of
                Some n # fs \<Rightarrow>
                  (Err (if n < length json then TProtocol (rc_write_error codec) else TDisconnected),
                   child\<lparr>ch_stdin := ch_stdin child @ take n line, ch_stdin_faults := fs\<rparr>)
              | fs \<Rightarrow> (Ok (), child\<lparr>ch_stdin := ch_stdin child @ line, ch_stdin_faults := tl fs\<rparr>)))"

definition classify_early_exit :: "ssh_child \<Rightarrow> transport_error" where
  "classify_early_exit child =
     (let head = take (8 * 1024) (ch_stderr child);
          stderr = (if utf8_valid head then head else []);
          normalized = to_ascii_lowercase stderr
      in if contains_sub ''host key verification failed'' normalized \<or>
           contains_sub ''remote host identification has changed'' normalized then THostVerificationFailed
         else if contains_sub ''permission denied'' normalized then TAuthenticationFailed
         else TProcess (trim stderr))"

definition valid_private_remote_path :: "string \<Rightarrow> bool" where
  "valid_private_remote_path value \<longleftrightarrow>
     starts_with ''~/.'' value \<and> length value \<le> 160 \<and>
     list_all (\<lambda>byte. is_ascii_alphanumeric byte \<or> byte \<in> set ''~/.-_'') value \<and> \<not> contains_sub ''..'' value"

record open_ssh_transport =
  ot_executable :: string
  ot_remote_relay_path :: string
  ot_event_spool_dir :: "string option"

definition new_ssh_transport :: "string \<Rightarrow> open_ssh_transport" where
  "new_ssh_transport executable =
     \<lparr>ot_executable = executable, ot_remote_relay_path = DEFAULT_REMOTE_RELAY_PATH, ot_event_spool_dir = None\<rparr>"

definition with_remote_relay_path :: "string \<Rightarrow> string \<Rightarrow> (transport_error, open_ssh_transport) outcome" where
  "with_remote_relay_path executable path =
     (if \<not> valid_private_remote_path path then Err (TProtocol ''remote relay path is not an allowed private path'')
      else Ok \<lparr>ot_executable = executable, ot_remote_relay_path = path, ot_event_spool_dir = None\<rparr>)"

definition with_event_spool_dir :: "string \<Rightarrow> open_ssh_transport \<Rightarrow> (transport_error, open_ssh_transport) outcome" where
  "with_event_spool_dir dir transport =
     (if \<not> valid_private_remote_path dir then Err (TProtocol ''event spool directory is not an allowed private path'')
      else Ok (transport\<lparr>ot_event_spool_dir := Some dir\<rparr>))"

text \<open>Processes still to be spawned, and the commands that were.\<close>

datatype spawn_answer = SpawnMissing | SpawnError string | Spawned ssh_child

record spawn_world =
  sw_answers :: "spawn_answer list"
  sw_commands :: "(string \<times> string list) list"

definition spawn :: "transport_error \<Rightarrow> string \<Rightarrow> string list \<Rightarrow> (spawn_world, transport_error, ssh_child) op" where
  "spawn missing executable args w =
     (let w' = w\<lparr>sw_answers := tl (sw_answers w), sw_commands := sw_commands w @ [(executable, args)]\<rparr>
      in case sw_answers w of
           Spawned child # _ \<Rightarrow> (Ok child, w')
         | SpawnError e # _ \<Rightarrow> (Err (TProcess e), w')
         | _ \<Rightarrow> (Err missing, w'))"

record relay_connection =
  cn_child :: ssh_child
  cn_hello :: relay_hello
  cn_cursor :: resume_cursor
  cn_state :: connection_state

definition HELLO_MISMATCH :: transport_error where
  "HELLO_MISMATCH = TProtocol ''relay hello does not match the requested host or resume cursor''"

text \<open>
  The end of both \<open>connect\<close> methods. The child is forgotten with every error, so what becomes of it is not
  part of the model.
\<close>

definition relay_handshake ::
  "remote_codec \<Rightarrow> remote_host_config \<Rightarrow> resume_cursor \<Rightarrow> ssh_child \<Rightarrow> (transport_error, relay_connection) outcome" where
  "relay_handshake codec host resume child =
     (case read_json_line (rc_error codec) (rc_read_hello codec) MAX_HELLO_BYTES (ch_stdout child) of
        (Err e, _) \<Rightarrow> Err e
      | (Panic m, _) \<Rightarrow> Panic m
      | (Ok None, _) \<Rightarrow> Err (classify_early_exit child)
      | (Ok (Some hello), rest) \<Rightarrow>
          (case validate_hello hello of
             Err e \<Rightarrow> Err (TProtocol (protocol_error_text e))
           | Panic m \<Rightarrow> Panic m
           | Ok u \<Rightarrow>
               if hello_host_id hello \<noteq> hc_id host \<or> hello_resume hello \<noteq> resume then Err HELLO_MISMATCH
               else Ok \<lparr>cn_child = child\<lparr>ch_stdout := rest\<rparr>, cn_hello = hello, cn_cursor = resume,
                      cn_state = Streaming\<rparr>))"

definition relay_command_args :: "string \<Rightarrow> resume_cursor \<Rightarrow> string option \<Rightarrow> string list" where
  "relay_command_args host_id resume event_spool =
     [''--host-id'', host_id, ''--resume'', dec_string (last_sequence resume)] @
     (case event_spool of None \<Rightarrow> [] | Some dir \<Rightarrow> [''--event-spool'', dir])"

definition ssh_connect ::
  "remote_codec \<Rightarrow> open_ssh_transport \<Rightarrow> remote_host_config \<Rightarrow> resume_cursor \<Rightarrow>
   (spawn_world, transport_error, relay_connection) op" where
  "ssh_connect codec transport host resume =
     (case ssh_args host of
        Err e \<Rightarrow> throw (TProtocol (config_error_text e))
      | Panic m \<Rightarrow> panic m
      | Ok args \<Rightarrow>
          bind (spawn TSshUnavailable (ot_executable transport)
              (args @ ot_remote_relay_path transport #
                relay_command_args (hc_id host) resume (ot_event_spool_dir transport))) (\<lambda>child.
            lift (relay_handshake codec host resume child)))"

record direct_relay_transport =
  dt_executable :: string
  dt_event_spool_dir :: "string option"

definition direct_connect ::
  "remote_codec \<Rightarrow> direct_relay_transport \<Rightarrow> remote_host_config \<Rightarrow> resume_cursor \<Rightarrow>
   (spawn_world, transport_error, relay_connection) op" where
  "direct_connect codec transport host resume =
     (case validate_host host of
        Err e \<Rightarrow> throw (TProtocol (config_error_text e))
      | Panic m \<Rightarrow> panic m
      | Ok u \<Rightarrow>
          bind (spawn (TProcess (''relay executable is unavailable: '' @ dt_executable transport)) (dt_executable transport)
              (relay_command_args (hc_id host) resume (dt_event_spool_dir transport))) (\<lambda>child.
            lift (relay_handshake codec host resume child)))"

definition connection_receive :: "remote_codec \<Rightarrow> (relay_connection, transport_error, relay_frame option) op" where
  "connection_receive codec c =
     (case read_json_line (rc_error codec) (rc_read_frame codec) MAX_REMOTE_FRAME_BYTES (ch_stdout (cn_child c)) of
        (r, rest) \<Rightarrow>
          let c1 = c\<lparr>cn_child := (cn_child c)\<lparr>ch_stdout := rest\<rparr>\<rparr>
          in (case r of
                Err e \<Rightarrow> (Err e, c1)
              | Panic m \<Rightarrow> (Panic m, c1)
              | Ok None \<Rightarrow> (Ok None, c1\<lparr>cn_state := Disconnected\<rparr>)
              | Ok (Some frame) \<Rightarrow>
                  (case validate_after codec (cn_cursor c1) frame of
                     Err e \<Rightarrow> (Err (TProtocol (protocol_error_text e)), c1)
                   | Panic m \<Rightarrow> (Panic m, c1)
                   | Ok u \<Rightarrow> (Ok (Some frame), c1\<lparr>cn_cursor := \<lparr>last_sequence = rf_sequence frame\<rparr>\<rparr>))))"

definition on_child :: "(ssh_child, transport_error, 'a) op \<Rightarrow> (relay_connection, transport_error, 'a) op" where
  "on_child = zoom cn_child (\<lambda>child c. c\<lparr>cn_child := child\<rparr>)"

definition connection_acknowledge :: "remote_codec \<Rightarrow> resume_cursor \<Rightarrow> (relay_connection, transport_error, unit) op" where
  "connection_acknowledge codec cursor c =
     (if last_sequence (cn_cursor c) < last_sequence cursor
      then (Err (TProtocol ''cannot acknowledge an unreceived sequence''), c)
      else on_child (write_json_line codec (rc_control codec (Acknowledge cursor))) c)"

definition connection_inject_hook ::
  "remote_codec \<Rightarrow> relay_hook_payload \<Rightarrow> (relay_connection, transport_error, unit) op" where
  "connection_inject_hook codec payload =
     (case validate_hook_payload payload of
        Ok u \<Rightarrow> on_child (write_json_line codec (rc_control codec (InjectHook payload)))
      | _ \<Rightarrow> throw (TProtocol ''invalid hook payload''))"

definition connection_close :: "remote_codec \<Rightarrow> (relay_connection, transport_error, unit) op" where
  "connection_close codec c =
     (if cn_state c = Disconnected then (Ok (), c)
      else
        let told = snd (on_child (write_json_line codec (rc_control codec Shutdown)) c)
        in seq (on_child (bind try_wait (\<lambda>exited. if exited then ret () else kill_child)))
             (modify (\<lambda>c. c\<lparr>cn_state := Disconnected\<rparr>)) told)"

definition connection_is_alive :: "(relay_connection, transport_error, bool) op" where
  "connection_is_alive = on_child process_is_alive"

definition ssh_ops :: "remote_codec \<Rightarrow> open_ssh_transport \<Rightarrow> (relay_connection, spawn_world) transport_ops" where
  "ssh_ops codec transport =
     \<lparr>tp_connect = ssh_connect codec transport, tp_hello = cn_hello, tp_receive = connection_receive codec,
      tp_acknowledge = connection_acknowledge codec, tp_inject_hook = connection_inject_hook codec,
      tp_close = connection_close codec, tp_is_alive = connection_is_alive\<rparr>"

definition direct_ops :: "remote_codec \<Rightarrow> direct_relay_transport \<Rightarrow> (relay_connection, spawn_world) transport_ops" where
  "direct_ops codec transport = (ssh_ops codec (new_ssh_transport []))\<lparr>tp_connect := direct_connect codec transport\<rparr>"

section \<open>Sessions\<close>

datatype relay_session_error =
    AlreadyActive string
  | NotActive string
  | RequiresRestart
  | SessionTransport transport_error

fun relay_session_error_text :: "relay_session_error \<Rightarrow> string" where
  "relay_session_error_text (AlreadyActive host) = ''relay session is already active for host '' @ host"
| "relay_session_error_text (NotActive host) = ''relay session is not active for host '' @ host"
| "relay_session_error_text RequiresRestart = ''relay session failed and requires an explicit restart''"
| "relay_session_error_text (SessionTransport e) = ''remote transport error: '' @ transport_error_text e"

record 'c relay_session =
  sess_host :: remote_host_config
  sess_reconnect :: reconnect_policy
  sess_connection :: "'c option"
  sess_state :: connection_state
  sess_resume :: resume_cursor
  sess_last_error :: "transport_error option"
  sess_attempt :: nat

record relay_session_snapshot =
  snap_host_id :: string
  snap_state :: connection_state
  snap_resume :: resume_cursor
  snap_last_error :: "string option"
  snap_connection_nonce :: "string option"
  snap_process_alive :: bool

type_synonym ('c, 'w, 'a) session_op = "('c relay_session \<times> 'w, relay_session_error, 'a) op"

definition relay_session_with_resume :: "remote_host_config \<Rightarrow> reconnect_policy \<Rightarrow> resume_cursor \<Rightarrow> 'c relay_session" where
  "relay_session_with_resume host reconnect resume =
     \<lparr>sess_host = host, sess_reconnect = reconnect, sess_connection = None, sess_state = Disconnected, sess_resume = resume,
      sess_last_error = None, sess_attempt = 0\<rparr>"

definition new_relay_session :: "remote_host_config \<Rightarrow> 'c relay_session" where
  "new_relay_session host = relay_session_with_resume host default_reconnect_policy \<lparr>last_sequence = 0\<rparr>"

definition take_session_snapshot :: "('c, 'w) transport_ops \<Rightarrow> 'c relay_session \<Rightarrow> relay_session_snapshot \<times> 'c relay_session" where
  "take_session_snapshot t s =
     (let (alive, s1) =
            (case sess_connection s of
               None \<Rightarrow> (False, s)
             | Some c \<Rightarrow> (case tp_is_alive t c of
                 (Ok b, c') \<Rightarrow> (b, s\<lparr>sess_connection := Some c'\<rparr>)
               | (_, c') \<Rightarrow> (False, s\<lparr>sess_connection := Some c'\<rparr>)));
          s2 = (if sess_connection s1 \<noteq> None \<and> \<not> alive then s1\<lparr>sess_state := Disconnected, sess_connection := None\<rparr> else s1)
      in (\<lparr>snap_host_id = hc_id (sess_host s2), snap_state = sess_state s2, snap_resume = sess_resume s2,
           snap_last_error = map_option transport_error_text (sess_last_error s2),
           snap_connection_nonce = (if alive then map_option (\<lambda>c. hello_nonce (tp_hello t c)) (sess_connection s2) else None),
           snap_process_alive = alive\<rparr>, s2))"

definition handle_disconnect :: "'c relay_session \<Rightarrow> 'c relay_session" where
  "handle_disconnect s = s\<lparr>sess_connection := None, sess_state := Disconnected\<rparr>"

definition relay_session_fail :: "transport_error \<Rightarrow> 'c relay_session \<Rightarrow> 'c relay_session" where
  "relay_session_fail error s =
     s\<lparr>sess_connection := None, sess_last_error := Some error,
       sess_state := (if max_attempts (sess_reconnect s) \<le> sess_attempt s then ConnFailed else Disconnected)\<rparr>"

definition relay_session_start :: "('c, 'w) transport_ops \<Rightarrow> ('c, 'w, unit) session_op" where
  "relay_session_start t = (\<lambda>(s, w).
     if sess_state s = Streaming \<and> sess_connection s \<noteq> None then (Err (AlreadyActive (hc_id (sess_host s))), (s, w))
     else if sess_state s = ConnFailed then (Err RequiresRestart, (s, w))
     else
       let s1 = s\<lparr>sess_state := Connecting, sess_last_error := None\<rparr>
       in (case tp_connect t (sess_host s1) (sess_resume s1) w of
             (Ok c, w') \<Rightarrow> (Ok (), (s1\<lparr>sess_connection := Some c, sess_state := Streaming, sess_attempt := 0\<rparr>, w'))
           | (Err e, w') \<Rightarrow> (Err (SessionTransport e), (relay_session_fail e s1, w'))
           | (Panic m, w') \<Rightarrow> (Panic m, (s1, w'))))"

definition relay_session_stop :: "('c, 'w) transport_ops \<Rightarrow> ('c, 'w, unit) session_op" where
  "relay_session_stop t = (\<lambda>(s, w).
     let stopped = s\<lparr>sess_connection := None, sess_state := Disconnected, sess_attempt := 0, sess_last_error := None\<rparr>
     in (case sess_connection s of
           None \<Rightarrow> (Ok (), (stopped, w))
         | Some c \<Rightarrow> (case fst (tp_close t c) of
             Ok u \<Rightarrow> (Ok (), (stopped, w))
           | Err e \<Rightarrow> (Err (SessionTransport e), (s\<lparr>sess_connection := None\<rparr>, w))
           | Panic m \<Rightarrow> (Panic m, (s\<lparr>sess_connection := None\<rparr>, w)))))"

definition relay_session_receive :: "('c, 'w) transport_ops \<Rightarrow> ('c, 'w, relay_frame option) session_op" where
  "relay_session_receive t = (\<lambda>(s, w).
     case sess_connection s of
       None \<Rightarrow> (Err (NotActive (hc_id (sess_host s))), (s, w))
     | Some c \<Rightarrow>
         (case tp_is_alive t c of
            (Err e, c1) \<Rightarrow> (Err (SessionTransport e), (s\<lparr>sess_connection := Some c1\<rparr>, w))
          | (Panic m, c1) \<Rightarrow> (Panic m, (s\<lparr>sess_connection := Some c1\<rparr>, w))
          | (Ok alive, c1) \<Rightarrow>
              if \<not> alive then (Ok None, (handle_disconnect s, w))
              else (case tp_receive t c1 of
                  (Err e, c2) \<Rightarrow> (Err (SessionTransport e), (s\<lparr>sess_connection := Some c2\<rparr>, w))
                | (Panic m, c2) \<Rightarrow> (Panic m, (s\<lparr>sess_connection := Some c2\<rparr>, w))
                | (Ok None, c2) \<Rightarrow> (Ok None, (handle_disconnect s, w))
                | (Ok (Some frame), c2) \<Rightarrow>
                    (Ok (Some frame),
                     (s\<lparr>sess_connection := Some c2,
                        sess_resume := (if last_sequence (sess_resume s) < rf_sequence frame
                          then \<lparr>last_sequence = rf_sequence frame\<rparr> else sess_resume s)\<rparr>, w)))))"

definition relay_session_acknowledge :: "('c, 'w) transport_ops \<Rightarrow> resume_cursor \<Rightarrow> ('c, 'w, unit) session_op" where
  "relay_session_acknowledge t cursor = (\<lambda>(s, w).
     case sess_connection s of
       None \<Rightarrow> (Err (NotActive (hc_id (sess_host s))), (s, w))
     | Some c \<Rightarrow>
         (case tp_acknowledge t cursor c of
            (Err e, c') \<Rightarrow> (Err (SessionTransport e), (s\<lparr>sess_connection := Some c'\<rparr>, w))
          | (Panic m, c') \<Rightarrow> (Panic m, (s\<lparr>sess_connection := Some c'\<rparr>, w))
          | (Ok u, c') \<Rightarrow>
              (Ok (), (s\<lparr>sess_connection := Some c',
                 sess_resume := (if last_sequence (sess_resume s) < last_sequence cursor then cursor else sess_resume s)\<rparr>, w))))"

definition relay_session_inject_hook :: "('c, 'w) transport_ops \<Rightarrow> relay_hook_payload \<Rightarrow> ('c, 'w, unit) session_op" where
  "relay_session_inject_hook t payload = (\<lambda>(s, w).
     case sess_connection s of
       None \<Rightarrow> (Err (NotActive (hc_id (sess_host s))), (s, w))
     | Some c \<Rightarrow>
         (case tp_inject_hook t payload c of
            (Err e, c') \<Rightarrow> (Err (SessionTransport e), (s\<lparr>sess_connection := Some c'\<rparr>, w))
          | (Panic m, c') \<Rightarrow> (Panic m, (s\<lparr>sess_connection := Some c'\<rparr>, w))
          | (Ok u, c') \<Rightarrow> (Ok (), (s\<lparr>sess_connection := Some c'\<rparr>, w))))"

text \<open>\<open>u16::saturating_add\<close>; the state \<open>Backoff\<close> is overwritten before anything can see it.\<close>

definition next_attempt :: "nat \<Rightarrow> nat" where
  "next_attempt n = min (n + 1) (2 ^ 16 - 1)"

definition relay_session_tick_reconnect :: "('c, 'w) transport_ops \<Rightarrow> int \<Rightarrow> ('c, 'w, bool) session_op" where
  "relay_session_tick_reconnect t jitter_basis_points = (\<lambda>(s, w).
     if sess_state s = Streaming \<or> sess_state s = Connecting then (Ok False, (s, w))
     else if sess_state s = ConnFailed then (Err RequiresRestart, (s, w))
     else case delay_ms (sess_reconnect s) (sess_attempt s) jitter_basis_points of
         None \<Rightarrow> (Err RequiresRestart, (s, w))
       | Some delay \<Rightarrow>
           let s1 = s\<lparr>sess_state := Backoff (sess_attempt s) delay, sess_attempt := next_attempt (sess_attempt s)\<rparr>;
               s2 = s1\<lparr>sess_state := Connecting\<rparr>
           in (case tp_connect t (sess_host s2) (sess_resume s2) w of
                 (Ok c, w') \<Rightarrow>
                   (Ok True, (s2\<lparr>sess_connection := Some c, sess_state := Streaming, sess_attempt := 0, sess_last_error := None\<rparr>, w'))
               | (Err e, w') \<Rightarrow> (Err (SessionTransport e), (relay_session_fail e s2, w'))
               | (Panic m, w') \<Rightarrow> (Panic m, (s2, w'))))"

text \<open>The manager: a list of sessions with their hosts' ids as keys.\<close>

definition relay_manager_get :: "string \<Rightarrow> 'c relay_session list \<Rightarrow> 'c relay_session option" where
  "relay_manager_get host_id sessions = List.find (\<lambda>s. hc_id (sess_host s) = host_id) sessions"

definition relay_manager_register :: "'c relay_session \<Rightarrow> ('c relay_session list, relay_session_error, unit) op" where
  "relay_manager_register session sessions =
     (if list_ex (\<lambda>s. hc_id (sess_host s) = hc_id (sess_host session)) sessions
      then (Err (AlreadyActive (hc_id (sess_host session))), sessions)
      else (Ok (), sessions @ [session]))"

text \<open>\<open>get_mut\<close>: what is done to the first session of the host.\<close>

fun relay_manager_update ::
  "string \<Rightarrow> ('c relay_session \<Rightarrow> 'c relay_session) \<Rightarrow> 'c relay_session list \<Rightarrow> 'c relay_session list" where
  "relay_manager_update host_id f [] = []"
| "relay_manager_update host_id f (s # sessions) =
     (if hc_id (sess_host s) = host_id then f s # sessions else s # relay_manager_update host_id f sessions)"

fun remove_first :: "('a \<Rightarrow> bool) \<Rightarrow> 'a list \<Rightarrow> 'a list" where
  "remove_first p [] = []"
| "remove_first p (x # xs) = (if p x then xs else x # remove_first p xs)"

definition relay_manager_remove :: "('c, 'w) transport_ops \<Rightarrow> string \<Rightarrow> ('c relay_session list \<times> 'w, relay_session_error, unit) op" where
  "relay_manager_remove t host_id = (\<lambda>(sessions, w).
     case relay_manager_get host_id sessions of
       None \<Rightarrow> (Err (NotActive host_id), (sessions, w))
     | Some s \<Rightarrow>
         (case relay_session_stop t (s, w) of
            (r, (_, w')) \<Rightarrow> (r, (remove_first (\<lambda>s. hc_id (sess_host s) = host_id) sessions, w'))))"

definition relay_manager_snapshots ::
  "('c, 'w) transport_ops \<Rightarrow> 'c relay_session list \<Rightarrow> relay_session_snapshot list \<times> 'c relay_session list" where
  "relay_manager_snapshots t sessions = (map (fst \<circ> take_session_snapshot t) sessions, map (snd \<circ> take_session_snapshot t) sessions)"

section \<open>What a session relies on and what it gives\<close>

text \<open>Calls of a session in any order, and the frames they deliver.\<close>

datatype session_call =
    DoStart
  | DoStop
  | DoReceive
  | DoAcknowledge resume_cursor
  | DoInject relay_hook_payload
  | DoTick int
  | DoSnapshot

fun delivered :: "('e, relay_frame option) outcome \<Rightarrow> relay_frame list" where
  "delivered (Ok (Some frame)) = [frame]"
| "delivered r = []"

fun run_session_call ::
  "('c, 'w) transport_ops \<Rightarrow> session_call \<Rightarrow> 'c relay_session \<times> 'w \<Rightarrow> relay_frame list \<times> 'c relay_session \<times> 'w" where
  "run_session_call t DoStart s = ([], snd (relay_session_start t s))"
| "run_session_call t DoStop s = ([], snd (relay_session_stop t s))"
| "run_session_call t DoReceive s = (case relay_session_receive t s of (r, s') \<Rightarrow> (delivered r, s'))"
| "run_session_call t (DoAcknowledge cursor) s = ([], snd (relay_session_acknowledge t cursor s))"
| "run_session_call t (DoInject payload) s = ([], snd (relay_session_inject_hook t payload s))"
| "run_session_call t (DoTick jitter) s = ([], snd (relay_session_tick_reconnect t jitter s))"
| "run_session_call t DoSnapshot s = ([], snd (take_session_snapshot t (fst s)), snd s)"

fun run_session ::
  "('c, 'w) transport_ops \<Rightarrow> session_call list \<Rightarrow> 'c relay_session \<times> 'w \<Rightarrow> relay_frame list \<times> 'c relay_session \<times> 'w" where
  "run_session t [] s = ([], s)"
| "run_session t (call # calls) s =
     (case run_session_call t call s of (fs, s1) \<Rightarrow> case run_session t calls s1 of (gs, s2) \<Rightarrow> (fs @ gs, s2))"

text \<open>
  The contract of a transport: a connection starts at the cursor it is asked for, a frame it hands out lies
  beyond its cursor and moves it there, an acknowledgement it takes does not, and nothing else moves it.
\<close>

locale relay_transport =
  fixes t :: "('c, 'w) transport_ops" and cursor :: "'c \<Rightarrow> nat"
  assumes connect_cursor: "tp_connect t host resume w = (Ok c, w') \<Longrightarrow> cursor c = last_sequence resume"
    and receive_advances: "tp_receive t c = (Ok (Some frame), c') \<Longrightarrow> cursor c < rf_sequence frame \<and> cursor c' = rf_sequence frame"
    and receive_keeps: "tp_receive t c = (r, c') \<Longrightarrow> delivered r = [] \<Longrightarrow> cursor c' = cursor c"
    and acknowledge_received: "tp_acknowledge t k c = (Ok (), c') \<Longrightarrow> last_sequence k \<le> cursor c"
    and acknowledge_keeps: "cursor (snd (tp_acknowledge t k c)) = cursor c"
    and inject_keeps: "cursor (snd (tp_inject_hook t payload c)) = cursor c"
    and alive_keeps: "cursor (snd (tp_is_alive t c)) = cursor c"
begin

definition session_ok :: "'c relay_session \<Rightarrow> bool" where
  "session_ok s \<longleftrightarrow>
     (\<forall>c. sess_connection s = Some c \<longrightarrow> sess_state s = Streaming \<and> cursor c = last_sequence (sess_resume s))"

lemma session_ok_new: "session_ok (relay_session_with_resume host policy resume)"
  by (simp add: session_ok_def relay_session_with_resume_def)

lemma receive_step:
  assumes "session_ok s" "relay_session_receive t (s, w) = (r, s', w')"
  shows "session_ok s' \<and>
    (case delivered r of
       [] \<Rightarrow> sess_resume s' = sess_resume s
     | frame # _ \<Rightarrow> last_sequence (sess_resume s) < rf_sequence frame \<and> last_sequence (sess_resume s') = rf_sequence frame)"
proof (cases "sess_connection s")
  case None
  with assms show ?thesis by (auto simp: relay_session_receive_def)
next
  case (Some c)
  obtain a c1 where a: "tp_is_alive t c = (a, c1)" by force
  obtain b c2 where b: "tp_receive t c1 = (b, c2)" by force
  from Some assms(1) have c: "sess_state s = Streaming" "cursor c = last_sequence (sess_resume s)"
    by (auto simp: session_ok_def)
  from alive_keeps [of c] a c(2) have c1: "cursor c1 = last_sequence (sess_resume s)" by simp
  have c2: "delivered b = [] \<Longrightarrow> cursor c2 = last_sequence (sess_resume s)"
    using receive_keeps [OF b] c1 by simp
  have adv: "b = Ok (Some frame) \<Longrightarrow> last_sequence (sess_resume s) < rf_sequence frame \<and> cursor c2 = rf_sequence frame" for frame
    using receive_advances [of c1 frame c2] b c1 by simp
  from assms(2) Some a b c c1 c2 adv show ?thesis
    by (auto simp: relay_session_receive_def session_ok_def handle_disconnect_def
        split: outcome.splits option.splits if_splits)
qed

lemma start_step:
  assumes "session_ok s" "relay_session_start t (s, w) = (r, s', w')"
  shows "session_ok s' \<and> sess_resume s' = sess_resume s"
  using assms connect_cursor [of "sess_host s" "sess_resume s" w]
  by (cases "sess_connection s")
    (auto simp: relay_session_start_def session_ok_def relay_session_fail_def Let_def
      split: if_splits prod.splits outcome.splits)

lemma tick_step:
  assumes "session_ok s" "relay_session_tick_reconnect t jitter (s, w) = (r, s', w')"
  shows "session_ok s' \<and> sess_resume s' = sess_resume s"
  using assms connect_cursor [of "sess_host s" "sess_resume s" w]
  by (cases "sess_connection s")
    (auto simp: relay_session_tick_reconnect_def session_ok_def relay_session_fail_def Let_def
      split: if_splits prod.splits outcome.splits option.splits)

lemma stop_step:
  assumes "session_ok s" "relay_session_stop t (s, w) = (r, s', w')"
  shows "session_ok s' \<and> sess_resume s' = sess_resume s"
  using assms
  by (auto simp: relay_session_stop_def session_ok_def Let_def split: outcome.splits option.splits)

lemma acknowledge_step:
  assumes "session_ok s" "relay_session_acknowledge t k (s, w) = (r, s', w')"
  shows "session_ok s' \<and> sess_resume s' = sess_resume s"
proof (cases "sess_connection s")
  case None
  with assms show ?thesis by (auto simp: relay_session_acknowledge_def)
next
  case (Some c)
  obtain b c' where b: "tp_acknowledge t k c = (b, c')" by force
  have "cursor c' = cursor c" using acknowledge_keeps [of k c] b by simp
  moreover have "b = Ok () \<Longrightarrow> last_sequence k \<le> cursor c" using acknowledge_received [of k c c'] b by simp
  ultimately show ?thesis
    using assms Some b by (auto simp: relay_session_acknowledge_def session_ok_def split: outcome.splits)
qed

lemma inject_step:
  assumes "session_ok s" "relay_session_inject_hook t payload (s, w) = (r, s', w')"
  shows "session_ok s' \<and> sess_resume s' = sess_resume s"
proof (cases "sess_connection s")
  case None
  with assms show ?thesis by (auto simp: relay_session_inject_hook_def)
next
  case (Some c)
  obtain b c' where b: "tp_inject_hook t payload c = (b, c')" by force
  have "cursor c' = cursor c" using inject_keeps [of payload c] b by simp
  with assms Some b show ?thesis by (auto simp: relay_session_inject_hook_def session_ok_def split: outcome.splits)
qed

lemma snapshot_step:
  assumes "session_ok s"
  shows "session_ok (snd (take_session_snapshot t s)) \<and> sess_resume (snd (take_session_snapshot t s)) = sess_resume s"
proof (cases "sess_connection s")
  case None
  then show ?thesis by (simp add: take_session_snapshot_def session_ok_def)
next
  case (Some c)
  obtain b c' where b: "tp_is_alive t c = (b, c')" by force
  have "cursor c' = cursor c" using alive_keeps [of c] b by simp
  with assms Some b show ?thesis by (auto simp: take_session_snapshot_def session_ok_def split: outcome.splits)
qed

lemma call_step:
  assumes "session_ok s" "run_session_call t call (s, w) = (fs, s', w')"
  shows "session_ok s' \<and>
    (fs = [] \<and> sess_resume s' = sess_resume s \<or>
     (\<exists>frame. fs = [frame] \<and> last_sequence (sess_resume s) < rf_sequence frame \<and>
        last_sequence (sess_resume s') = rf_sequence frame))"
proof (cases call)
  case DoReceive
  then obtain r where r: "relay_session_receive t (s, w) = (r, s', w')" "fs = delivered r"
    using assms(2) by (auto split: prod.splits)
  from receive_step [OF assms(1) r(1)] r(2) show ?thesis by (cases r rule: delivered.cases) auto
next
  case DoStart
  with assms start_step [OF assms(1), of w] show ?thesis by (cases "relay_session_start t (s, w)") auto
next
  case DoStop
  with assms stop_step [OF assms(1), of w] show ?thesis by (cases "relay_session_stop t (s, w)") auto
next
  case (DoAcknowledge k)
  with assms acknowledge_step [OF assms(1), of k w] show ?thesis by (cases "relay_session_acknowledge t k (s, w)") auto
next
  case (DoInject payload)
  with assms inject_step [OF assms(1), of payload w] show ?thesis
    by (cases "relay_session_inject_hook t payload (s, w)") auto
next
  case (DoTick jitter)
  with assms tick_step [OF assms(1), of jitter w] show ?thesis
    by (cases "relay_session_tick_reconnect t jitter (s, w)") auto
next
  case DoSnapshot
  with assms snapshot_step [OF assms(1)] show ?thesis by auto
qed

lemma run_increases:
  assumes "session_ok s" "run_session t calls (s, w) = (fs, s', w')"
  shows "session_ok s' \<and> sorted_wrt (<) (last_sequence (sess_resume s) # map rf_sequence fs) \<and>
    last_sequence (sess_resume s') = last (last_sequence (sess_resume s) # map rf_sequence fs)"
  using assms
proof (induction calls arbitrary: s w fs)
  case (Cons call calls)
  obtain f1 s1 w1 where c: "run_session_call t call (s, w) = (f1, s1, w1)" by (metis prod_cases3)
  obtain f2 where r: "run_session t calls (s1, w1) = (f2, s', w')" and fs: "fs = f1 @ f2"
    using Cons.prems(2) by (auto simp: c split: prod.splits)
  note step = call_step [OF Cons.prems(1) c]
  from step Cons.IH [OF _ r] have ih: "session_ok s'"
    "sorted_wrt (<) (last_sequence (sess_resume s1) # map rf_sequence f2)"
    "last_sequence (sess_resume s') = last (last_sequence (sess_resume s1) # map rf_sequence f2)"
    by blast+
  from step consider "f1 = []" "sess_resume s1 = sess_resume s"
    | frame where "f1 = [frame]" "last_sequence (sess_resume s) < rf_sequence frame"
        "last_sequence (sess_resume s1) = rf_sequence frame"
    by blast
  then show ?case
  proof cases
    case 1
    with ih fs show ?thesis by simp
  next
    case 2
    with ih fs show ?thesis by (auto intro: less_trans)
  qed
qed simp

end

section \<open>The transports over child processes meet the contract\<close>

abbreviation connection_cursor :: "relay_connection \<Rightarrow> nat" where
  "connection_cursor c \<equiv> last_sequence (cn_cursor c)"

lemma on_child_cursor: "cn_cursor (snd (on_child m c)) = cn_cursor c"
  by (simp add: on_child_def zoom_def split: prod.splits)

lemma handshake_cursor: "relay_handshake codec host resume child = Ok c \<Longrightarrow> cn_cursor c = resume"
  by (auto simp: relay_handshake_def split: prod.splits outcome.splits option.splits if_splits)

lemma ssh_connect_cursor: "ssh_connect codec transport host resume w = (Ok c, w') \<Longrightarrow> cn_cursor c = resume"
  by (auto simp: ssh_connect_def op_basic_defs split: outcome.splits elim!: bind_OkE dest: handshake_cursor)

lemma direct_connect_cursor: "direct_connect codec transport host resume w = (Ok c, w') \<Longrightarrow> cn_cursor c = resume"
  by (auto simp: direct_connect_def op_basic_defs split: outcome.splits elim!: bind_OkE dest: handshake_cursor)

lemma validated_after: "validate_after codec cursor frame = Ok () \<Longrightarrow> last_sequence cursor < rf_sequence frame"
  by (auto simp: validate_after_def split: if_splits)

lemma connection_receive_cursor:
  assumes "connection_receive codec c = (r, c')"
  shows "delivered r = [] \<Longrightarrow> cn_cursor c' = cn_cursor c"
    and "r = Ok (Some frame) \<Longrightarrow> connection_cursor c < rf_sequence frame \<and> connection_cursor c' = rf_sequence frame"
  using assms
  by (auto simp: connection_receive_def Let_def dest!: validated_after split: prod.splits outcome.splits option.splits)

lemma connection_acknowledge_cursor:
  "connection_acknowledge codec k c = (Ok (), c') \<Longrightarrow> last_sequence k \<le> connection_cursor c"
  "cn_cursor (snd (connection_acknowledge codec k c)) = cn_cursor c"
  by (auto simp: connection_acknowledge_def on_child_cursor split: if_splits)

lemma connection_inject_cursor: "cn_cursor (snd (connection_inject_hook codec payload c)) = cn_cursor c"
  by (auto simp: connection_inject_hook_def on_child_cursor throw_def split: outcome.splits)

lemma connection_alive_cursor: "cn_cursor (snd (connection_is_alive c)) = cn_cursor c"
  by (simp add: connection_is_alive_def on_child_cursor)

lemmas connection_keeps = connection_acknowledge_cursor(2) connection_inject_cursor connection_alive_cursor
lemmas connection_moves = connection_receive_cursor connection_acknowledge_cursor(1)

interpretation ssh: relay_transport "ssh_ops codec transport" connection_cursor for codec transport
  by unfold_locales (auto simp: ssh_ops_def connection_keeps dest: ssh_connect_cursor connection_moves)

interpretation direct: relay_transport "direct_ops codec transport" connection_cursor for codec transport
  by unfold_locales
    (auto simp: direct_ops_def ssh_ops_def connection_keeps dest: direct_connect_cursor connection_moves)

text \<open>
  (C15) Frames of a remote host are taken in order and at most once, across stops, failures and reconnects: in
  whatever order a session over OpenSSH is started, stopped, polled, acknowledged and reconnected, and whatever
  the remote side writes, the sequence numbers of the frames it delivers increase strictly, starting above the
  cursor it was created with, and its cursor is always the number of the last one delivered.
\<close>

theorem session_frames_increase:
  "case run_session (ssh_ops codec transport) calls (relay_session_with_resume host policy resume, w) of
     (frames, s, w') \<Rightarrow>
       sorted_wrt (<) (last_sequence resume # map rf_sequence frames) \<and>
       last_sequence (sess_resume s) = last (last_sequence resume # map rf_sequence frames)"
proof -
  obtain frames s w' where run: "run_session (ssh_ops codec transport) calls
      (relay_session_with_resume host policy resume, w) = (frames, s, w')"
    by (metis prod_cases3)
  from ssh.run_increases [OF ssh.session_ok_new run] show ?thesis
    unfolding run by (simp add: relay_session_with_resume_def)
qed

section \<open>Giving up\<close>

primrec tick_times :: "('c, 'w) transport_ops \<Rightarrow> (nat \<Rightarrow> int) \<Rightarrow> nat \<Rightarrow> 'c relay_session \<times> 'w \<Rightarrow> 'c relay_session \<times> 'w" where
  "tick_times t jitter 0 s = s"
| "tick_times t jitter (Suc n) s = snd (relay_session_tick_reconnect t (jitter n) (tick_times t jitter n s))"

lemma failed_tick:
  assumes "\<And>host resume w. \<exists>e w'. tp_connect t host resume w = (Err e, w')"
    and "sess_connection s = None" "sess_state s = Disconnected" "sess_attempt s < max_attempts (sess_reconnect s)"
    and "max_attempts (sess_reconnect s) < 2 ^ 16"
  shows "\<exists>e s' w'. relay_session_tick_reconnect t jitter (s, w) = (Err (SessionTransport e), s', w') \<and>
    sess_reconnect s' = sess_reconnect s \<and> sess_connection s' = None \<and> sess_attempt s' = Suc (sess_attempt s) \<and>
    sess_state s' = (if Suc (sess_attempt s) < max_attempts (sess_reconnect s) then Disconnected else ConnFailed)"
proof -
  obtain d where d: "delay_ms (sess_reconnect s) (sess_attempt s) jitter = Some d"
    using assms(4) delay_ms_None [of "sess_reconnect s" "sess_attempt s" jitter] by auto
  obtain e w' where c: "tp_connect t (sess_host s) (sess_resume s) w = (Err e, w')" using assms(1) by blast
  have "next_attempt (sess_attempt s) = Suc (sess_attempt s)" using assms(4,5) by (simp add: next_attempt_def)
  then show ?thesis
    by (simp add: relay_session_tick_reconnect_def assms(3) d c relay_session_fail_def not_less)
qed

lemma ticks_count:
  assumes "\<And>host resume w. \<exists>e w'. tp_connect t host resume w = (Err e, w')"
    and "max_attempts policy < 2 ^ 16" "n \<le> max_attempts policy" "0 < max_attempts policy"
  shows "\<exists>s w'. tick_times t jitter n (relay_session_with_resume host policy resume, w) = (s, w') \<and>
    sess_reconnect s = policy \<and> sess_connection s = None \<and> sess_attempt s = n \<and>
    sess_state s = (if n < max_attempts policy then Disconnected else ConnFailed)"
  using assms(3)
proof (induction n)
  case 0
  with assms(4) show ?case by (simp add: relay_session_with_resume_def)
next
  case (Suc n)
  then obtain s w1 where s: "tick_times t jitter n (relay_session_with_resume host policy resume, w) = (s, w1)"
    "sess_reconnect s = policy" "sess_connection s = None" "sess_attempt s = n" "sess_state s = Disconnected"
    by auto
  from failed_tick [OF assms(1) s(3,5), of "jitter n" w1] s Suc.prems assms(2) show ?case by auto
qed


definition sample_remote_host :: remote_host_config where
  "sample_remote_host = \<lparr>hc_id = ''host'', hc_destination = ''dev@example.internal'', hc_port = None, hc_identity_file = None,
     hc_known_hosts_file = None, hc_host_key_policy = StrictPolicy, hc_connect_timeout_seconds = 10\<rparr>"

definition mute_codec :: remote_codec where
  "mute_codec = \<lparr>rc_hello = (\<lambda>_. None), rc_frame = (\<lambda>_. None), rc_control = (\<lambda>_. None), rc_read_hello = (\<lambda>_. None),
     rc_read_frame = (\<lambda>_. None), rc_read_control = (\<lambda>_. None), rc_read_ingest = (\<lambda>_. None), rc_error = (\<lambda>_. []),
     rc_write_error = []\<rparr>"

lemma read_line_no_panic: "fst (read_bounded_line io_error bad mx bytes s) \<noteq> Panic m"
  by (induction io_error bad mx bytes s rule: read_bounded_line.induct) (auto simp: Let_def)

lemma spawn_no_panic: "fst (spawn missing executable args w) \<noteq> Panic m"
  by (auto simp: spawn_def Let_def split: list.splits spawn_answer.splits)

lemma mute_handshake: "\<exists>e. relay_handshake mute_codec host resume child = Err e"
proof -
  obtain r rest where r: "read_bounded_line TProcess RELAY_FRAME_BAD MAX_HELLO_BYTES [] (ch_stdout child) = (r, rest)"
    by force
  with read_line_no_panic [of TProcess RELAY_FRAME_BAD MAX_HELLO_BYTES "[]" "ch_stdout child"]
  have "r \<noteq> Panic m" for m by (metis fst_conv)
  with r show ?thesis
    by (cases r) (auto simp: relay_handshake_def read_json_line_def bind_def lift_def mute_codec_def split: option.splits)
qed

lemma mute_connect: "\<exists>e w'. tp_connect (ssh_ops mute_codec transport) host resume w = (Err e, w')"
proof -
  have "ssh_args host \<noteq> Panic m" for m
    by (auto simp: ssh_args_def ensure_def validate_host_def if_some_def validate_absolute_def split: option.splits)
  moreover have "\<exists>e w'. bind (spawn TSshUnavailable exe args) (\<lambda>child. lift (relay_handshake mute_codec host resume child)) w = (Err e, w')"
    for exe args
  proof (cases "spawn TSshUnavailable exe args w")
    case (Pair r w')
    with spawn_no_panic [of TSshUnavailable exe args w] show ?thesis
      using mute_handshake [of host resume] by (cases r) (auto simp: bind_def lift_def)
  qed
  ultimately show ?thesis
    by (cases "ssh_args host") (auto simp: ssh_ops_def ssh_connect_def throw_def)
qed


end
