(* ===== verification/Remote_Stream.thy ===== *)
theory Remote_Stream
  imports Remote_Session
begin

text \<open>
  The relay and the desktop together: what the process of \<^verbatim>\<open>llm-notch-relay.rs\<close> writes on its standard output
  is what the connection of \<^verbatim>\<open>transport.rs\<close> reads, however the bytes are cut on the way.
\<close>

section \<open>What is asked of the JSON text\<close>

text \<open>
  \<open>serde_json\<close> writes a value on one line and reads it back; the text of a value within the limits of the
  protocol is shorter than the limits of the readers.
\<close>

definition remote_json_faithful :: "remote_codec \<Rightarrow> bool" where
  "remote_json_faithful codec \<longleftrightarrow>
     (\<forall>hello json. rc_hello codec hello = Some json \<longrightarrow>
        newline \<notin> set json \<and> rc_read_hello codec (json @ [newline]) = Some hello) \<and>
     (\<forall>frame json. rc_frame codec frame = Some json \<longrightarrow>
        newline \<notin> set json \<and> rc_read_frame codec (json @ [newline]) = Some frame)"

definition remote_json_small :: "remote_codec \<Rightarrow> bool" where
  "remote_json_small codec \<longleftrightarrow>
     (\<forall>hello json. rc_hello codec hello = Some json \<longrightarrow> validate_hello hello = Ok () \<longrightarrow>
        last_sequence (hello_resume hello) < 2 ^ 64 \<longrightarrow> length json < MAX_HELLO_BYTES) \<and>
     (\<forall>frame json. rc_frame codec frame = Some json \<longrightarrow> validate_payload (rf_payload frame) = Ok () \<longrightarrow>
        rf_sequence frame < 2 ^ 64 \<longrightarrow> length json < MAX_REMOTE_FRAME_BYTES)"

section \<open>The command line\<close>

lemma relay_args_round_trip:
  assumes "last_sequence resume < 2 ^ 64"
  shows "parse_args (relay_command_args host_id resume event_spool) = Ok (host_id, last_sequence resume, event_spool)"
  using assms by (cases event_spool) (simp_all add: parse_args_def relay_command_args_def)

section \<open>Reading what was written\<close>

lemma read_json_line_whole:
  assumes "clean_stream s" "stream_bytes s = json @ newline # rest" "newline \<notin> set json" "length json < max_bytes"
    and "reader (json @ [newline]) = Some v"
  shows "\<exists>s'. read_json_line error_text reader max_bytes s = (Ok (Some v), s') \<and> clean_stream s' \<and> stream_bytes s' = rest"
proof -
  from read_line_whole [OF assms(1), of "[]" json rest max_bytes TProcess RELAY_FRAME_BAD] assms(2-4)
  obtain s' where "read_bounded_line TProcess RELAY_FRAME_BAD max_bytes [] s = (Ok (Some (json @ [newline])), s')"
    "clean_stream s'" "stream_bytes s' = rest"
    by auto
  with assms(5) show ?thesis by (simp add: read_json_line_def bind_def lift_def)
qed

text \<open>\<open>receive\<close> called so many times, until it delivers no frame.\<close>

primrec receive_times :: "remote_codec \<Rightarrow> nat \<Rightarrow> relay_connection \<Rightarrow> relay_frame list \<times> relay_connection" where
  "receive_times codec 0 c = ([], c)"
| "receive_times codec (Suc n) c =
     (case connection_receive codec c of
        (r, c1) \<Rightarrow> (case delivered r of
            [] \<Rightarrow> ([], c1)
          | frame # _ \<Rightarrow> (case receive_times codec n c1 of (frames, c2) \<Rightarrow> (frame # frames, c2))))"

lemma receive_one:
  assumes "remote_json_faithful codec" "remote_json_small codec" "frame_fits codec frame"
    and "connection_cursor c < rf_sequence frame"
    and "clean_stream (ch_stdout (cn_child c))" "stream_bytes (ch_stdout (cn_child c)) = frame_line codec frame @ rest"
  shows "\<exists>c'. connection_receive codec c = (Ok (Some frame), c') \<and> connection_cursor c' = rf_sequence frame \<and>
    clean_stream (ch_stdout (cn_child c')) \<and> stream_bytes (ch_stdout (cn_child c')) = rest"
proof -
  from assms(3) obtain json where json: "rc_frame codec frame = Some json" "validate_payload (rf_payload frame) = Ok ()"
    "rf_sequence frame < 2 ^ 64" "length json \<le> MAX_REMOTE_FRAME_BYTES"
    by (auto simp: frame_fits_def split: option.splits)
  have law: "newline \<notin> set json" "rc_read_frame codec (json @ [newline]) = Some frame"
    "length json < MAX_REMOTE_FRAME_BYTES"
    using assms(1,2) json unfolding remote_json_faithful_def remote_json_small_def by blast+
  have bytes: "stream_bytes (ch_stdout (cn_child c)) = json @ newline # rest"
    by (simp add: assms(6) frame_line_def encoded_line_def json(1))
  obtain s' where s': "read_json_line (rc_error codec) (rc_read_frame codec) MAX_REMOTE_FRAME_BYTES
      (ch_stdout (cn_child c)) = (Ok (Some frame), s')" "clean_stream s'" "stream_bytes s' = rest"
    using read_json_line_whole [where error_text = "rc_error codec" and reader = "rc_read_frame codec", OF assms(5) bytes law(1,3,2)] by auto
  have "validate_after codec (cn_cursor c) frame = Ok ()"
    using assms(4) json by (simp add: validate_after_def)
  with s' show ?thesis by (simp add: connection_receive_def)
qed

lemma receive_all:
  assumes "remote_json_faithful codec" "remote_json_small codec"
    and "list_all (frame_fits codec) frames" "sorted_wrt (<) (connection_cursor c # map rf_sequence frames)"
    and "clean_stream (ch_stdout (cn_child c))"
    and "stream_bytes (ch_stdout (cn_child c)) = concat (map (frame_line codec) frames) @ rest"
  shows "\<exists>c'. receive_times codec (length frames) c = (frames, c') \<and>
    clean_stream (ch_stdout (cn_child c')) \<and> stream_bytes (ch_stdout (cn_child c')) = rest"
  using assms(3-6)
proof (induction frames arbitrary: c)
  case (Cons frame frames)
  from receive_one [OF assms(1,2), of frame c "concat (map (frame_line codec) frames) @ rest"] Cons.prems
  obtain c1 where c1: "connection_receive codec c = (Ok (Some frame), c1)" "connection_cursor c1 = rf_sequence frame"
    "clean_stream (ch_stdout (cn_child c1))"
    "stream_bytes (ch_stdout (cn_child c1)) = concat (map (frame_line codec) frames) @ rest"
    by auto
  from Cons.IH [of c1] Cons.prems c1 obtain c2 where "receive_times codec (length frames) c1 = (frames, c2)"
    "clean_stream (ch_stdout (cn_child c2))" "stream_bytes (ch_stdout (cn_child c2)) = rest"
    by auto
  with c1(1) show ?case by simp
qed simp

lemma numbered_sorted:
  "map rf_sequence frames = [Suc k ..< Suc k + length frames] \<Longrightarrow> sorted_wrt (<) (k # map rf_sequence frames)"
  by (metis Suc_le_eq atLeastLessThan_iff set_upt sorted_wrt.simps(2) sorted_wrt_upt)

lemma handshake_whole:
  assumes "remote_json_faithful codec" "remote_json_small codec" "last_sequence resume < 2 ^ 64"
    and "rc_hello codec hello = Some json" "validate_hello hello = Ok ()"
    and "hello_host_id hello = hc_id host" "hello_resume hello = resume"
    and "clean_stream (ch_stdout child)" "stream_bytes (ch_stdout child) = json @ newline # rest"
  shows "\<exists>c. relay_handshake codec host resume child = Ok c \<and> cn_cursor c = resume \<and>
    clean_stream (ch_stdout (cn_child c)) \<and> stream_bytes (ch_stdout (cn_child c)) = rest"
proof -
  have law: "newline \<notin> set json" "rc_read_hello codec (json @ [newline]) = Some hello"
    "length json < MAX_HELLO_BYTES"
    using assms(1-5,7) unfolding remote_json_faithful_def remote_json_small_def by blast+
  obtain s' where "read_json_line (rc_error codec) (rc_read_hello codec) MAX_HELLO_BYTES
      (ch_stdout child) = (Ok (Some hello), s')" "clean_stream s'" "stream_bytes s' = rest"
    using read_json_line_whole [where error_text = "rc_error codec" and reader = "rc_read_hello codec", OF assms(8,9) law(1,3,2)] by auto
  with assms(5-7) show ?thesis by (simp add: relay_handshake_def)
qed

definition relay_for_session ::
  "relay_env \<Rightarrow> open_ssh_transport \<Rightarrow> string \<Rightarrow> (string \<Rightarrow> spool_dir) \<Rightarrow> io_piece list \<Rightarrow> nat option list \<Rightarrow> int \<Rightarrow>
   remote_host_config \<Rightarrow> resume_cursor \<Rightarrow> relay_proc" where
  "relay_for_session env transport nonce dirs stdin faults now_ms host resume =
     relay_start env nonce dirs stdin faults now_ms
       (relay_command_args (hc_id host) resume (ot_event_spool_dir transport))"

text \<open>
  (C14) From the relay to the desktop: let a relay be started with the arguments a session passes and run in any
  interleaving of its threads, and let the desktop's child process yield the bytes it wrote, cut into any
  buffers. Then the connect succeeds, and the desktop receives exactly the frames the relay wrote, in order,
  numbered without a gap from the cursor it asked to resume at; while the relay runs nothing else is left to
  read.
\<close>

theorem relay_reaches_desktop:
  assumes "remote_json_faithful (le_codec env)" "remote_json_small (le_codec env)"
    and "validate_host host = Ok ()" "last_sequence resume < 2 ^ 64"
    and "pr_exit (relay_for_session env transport nonce dirs stdin faults now_ms host resume) = None"
    and "(relay_step env)\<^sup>*\<^sup>* (relay_for_session env transport nonce dirs stdin faults now_ms host resume) p"
    and "sw_answers w = Spawned child # answers" "clean_stream (ch_stdout child)"
    and "stream_bytes (ch_stdout child) = pr_out p"
  shows "\<exists>frames c w' c' rest.
    ssh_connect (le_codec env) transport host resume w = (Ok c, w') \<and>
    receive_times (le_codec env) (length frames) c = (frames, c') \<and>
    map rf_sequence frames = [Suc (last_sequence resume) ..< Suc (last_sequence resume) + length frames] \<and>
    pr_out p = encoded_line (rc_hello (le_codec env) (relay_greeting (hc_id host) (last_sequence resume) nonce)) @
      concat (map (frame_line (le_codec env)) frames) @ rest \<and>
    stream_bytes (ch_stdout (cn_child c')) = rest \<and> (pr_exit p = None \<longrightarrow> rest = [])"
proof -
  let ?codec = "le_codec env" and ?k = "last_sequence resume"
  let ?hello = "relay_greeting (hc_id host) ?k nonce"
  note parse = relay_args_round_trip [OF assms(4), of "hc_id host" "ot_event_spool_dir transport"]
  note start = relay_start_said [OF parse assms(5) [unfolded relay_for_session_def]]
  from start(3) obtain json where json: "rc_hello ?codec ?hello = Some json" by blast
  from said_run [OF assms(6) [unfolded relay_for_session_def] start(1)] obtain frames
    where said: "relay_said ?codec (encoded_line (rc_hello ?codec ?hello)) ?k frames p" by auto
  then obtain rest where rest: "pr_out p = json @ newline # concat (map (frame_line ?codec) frames) @ rest"
    "pr_exit p = None \<longrightarrow> rest = []"
    by (auto simp: relay_said_def json encoded_line_def prefix_def split: if_splits)
  from said have frames: "map rf_sequence frames = [Suc ?k ..< Suc ?k + length frames]" "list_all (frame_fits ?codec) frames"
    by (simp_all add: relay_said_def)
  have hello: "hello_host_id ?hello = hc_id host" "hello_resume ?hello = resume" by (simp_all add: relay_greeting_def)
  from handshake_whole [OF assms(1,2,4) json start(2) hello assms(8) trans [OF assms(9) rest(1)]]
  obtain c where c: "relay_handshake ?codec host resume child = Ok c" "cn_cursor c = resume"
    "clean_stream (ch_stdout (cn_child c))"
    "stream_bytes (ch_stdout (cn_child c)) = concat (map (frame_line ?codec) frames) @ rest"
    by auto
  obtain w' where w': "ssh_connect ?codec transport host resume w = (Ok c, w')"
    using assms(3,7) c(1) by (auto simp: ssh_connect_def ssh_args_def ensure_def spawn_def bind_def lift_def Let_def)
  have "sorted_wrt (<) (connection_cursor c # map rf_sequence frames)"
    using numbered_sorted [OF frames(1)] by (simp add: c(2))
  from receive_all [OF assms(1,2) frames(2) this c(3,4)]
  obtain c' where c': "receive_times ?codec (length frames) c = (frames, c')"
    "stream_bytes (ch_stdout (cn_child c')) = rest" by auto
  have out: "pr_out p = encoded_line (rc_hello ?codec ?hello) @ concat (map (frame_line ?codec) frames) @ rest"
    by (simp add: rest(1) encoded_line_def json)
  show ?thesis
    by (intro exI conjI) (rule w' c' frames(1) out rest(2))+
qed

section \<open>A run\<close>

definition sample_nonce :: string where
  "sample_nonce = replicate 64 (CHR ''a'')"

definition sample_beat :: relay_frame where
  "sample_beat = \<lparr>rf_sequence = 1, rf_payload = Heartbeat\<rparr>"

definition beat_codec :: remote_codec where
  "beat_codec = mute_codec\<lparr>
     rc_hello := (\<lambda>h. if h = relay_greeting ''host'' 0 sample_nonce then Some ''hello'' else None),
     rc_frame := (\<lambda>f. if f = sample_beat then Some ''beat'' else None),
     rc_read_hello := (\<lambda>l. if l = ''hello'' @ [newline] then Some (relay_greeting ''host'' 0 sample_nonce) else None),
     rc_read_frame := (\<lambda>l. if l = ''beat'' @ [newline] then Some sample_beat else None)\<rparr>"

definition beat_env :: relay_env where
  "beat_env = \<lparr>le_codec = beat_codec, le_io_error = []\<rparr>"

definition beat_start :: relay_proc where
  "beat_start = relay_for_session beat_env (new_ssh_transport ''ssh'') sample_nonce (\<lambda>_. \<lparr>sp_files = [], sp_counter = 0, sp_faults = []\<rparr>)
     [] [] 0 sample_remote_host \<lparr>last_sequence = 0\<rparr>"

definition beat_end :: relay_proc where
  "beat_end = (relay_main beat_env 5000 ^^ 3) beat_start"

definition beat_child :: ssh_child where
  "beat_child = \<lparr>ch_wait = [], ch_stdout = [Piece ''hel'', Piece (''lo'' @ newline # ''be''), Piece (''at'' @ [newline])],
     ch_stderr = [], ch_stdin = [], ch_stdin_faults = [], ch_kill_error = None, ch_killed = False\<rparr>"

lemma beat_codec_laws: "remote_json_faithful beat_codec" "remote_json_small beat_codec"
  by (auto simp: remote_json_faithful_def remote_json_small_def beat_codec_def newline_def MAX_HELLO_BYTES_def
      MAX_REMOTE_FRAME_BYTES_def split: if_splits)

lemma beat_start_run:
  "beat_start = (relay_process [] None [] 0 0)\<lparr>pr_out := ''hello'' @ [newline]\<rparr>"
proof -
  have "parse_args (relay_command_args ''host'' \<lparr>last_sequence = 0\<rparr> None) = Ok (''host'', 0, None)"
    using relay_args_round_trip [of "\<lparr>last_sequence = 0\<rparr>" "''host''" None] by simp
  moreover have "validate_hello (relay_greeting ''host'' 0 sample_nonce) = Ok ()"
    by (simp add: validate_hello_def relay_greeting_def sample_nonce_def remote_limits is_ascii_hexdigit_def list_all_iff)
  ultimately show ?thesis
    by (simp add: beat_start_def relay_for_session_def relay_start_def sample_remote_host_def new_ssh_transport_def
        relay_greeting_def [symmetric] exits_with_def relay_write_line_def beat_env_def beat_codec_def relay_process_def)
qed

lemma beat_end_out: "pr_out beat_end = ''hello'' @ newline # ''beat'' @ [newline]" "pr_exit beat_end = None"
  by (simp_all add: beat_end_def beat_start_run numeral_3_eq_3 relay_main_def drain_hook_event_def take_control_def
      relay_process_def relay_heartbeat_def HEARTBEAT_INTERVAL_MS_def exits_with_def seq_def bind_def modify_def
      relay_emit_frame_def validate_after_def beat_env_def beat_codec_def sample_beat_def relay_write_line_def
      MAX_REMOTE_FRAME_BYTES_def)

lemma beat_steps: "(relay_step beat_env)\<^sup>*\<^sup>* beat_start beat_end"
proof -
  let ?m = "relay_main beat_env 5000"
  have "pr_exit beat_start = None" "pr_exit (?m beat_start) = None" "pr_exit (?m (?m beat_start)) = None"
    by (simp_all add: beat_start_run relay_main_def drain_hook_event_def take_control_def relay_process_def)
  then have "relay_step beat_env beat_start (?m beat_start)" "relay_step beat_env (?m beat_start) (?m (?m beat_start))"
    "relay_step beat_env (?m (?m beat_start)) (?m (?m (?m beat_start)))"
    by (auto intro: StepMain)
  then show ?thesis
    unfolding beat_end_def by (simp add: numeral_3_eq_3)
qed

theorem relay_reaches_desktop_witness:
  "\<exists>frames c w'. ssh_connect beat_codec (new_ssh_transport ''ssh'') sample_remote_host \<lparr>last_sequence = 0\<rparr>
       \<lparr>sw_answers = [Spawned beat_child], sw_commands = []\<rparr> = (Ok c, w') \<and>
     fst (receive_times beat_codec (length frames) c) = frames \<and>
     ''hello'' @ newline # ''beat'' @ [newline] =
       encoded_line (rc_hello beat_codec (relay_greeting ''host'' 0 sample_nonce)) @ concat (map (frame_line beat_codec) frames)"
proof -
  let ?w = "\<lparr>sw_answers = [Spawned beat_child], sw_commands = []\<rparr>"
  have "validate_host sample_remote_host = Ok ()"
    by (simp add: validate_host_def sample_remote_host_def remote_limits MAX_DESTINATION_LEN_def valid_destination_def starts_with_def
        is_ascii_alphanumeric_def ascii_classes ensure_def if_some_def)
  moreover have "pr_exit beat_start = None" by (simp add: beat_start_run relay_process_def)
  moreover have "clean_stream (ch_stdout beat_child)" "stream_bytes (ch_stdout beat_child) = pr_out beat_end"
    by (simp_all add: beat_child_def beat_end_out)
  ultimately obtain frames c w' c' rest where
    "ssh_connect beat_codec (new_ssh_transport ''ssh'') sample_remote_host \<lparr>last_sequence = 0\<rparr> ?w = (Ok c, w')"
    "receive_times beat_codec (length frames) c = (frames, c')"
    "pr_out beat_end = encoded_line (rc_hello beat_codec (relay_greeting (hc_id sample_remote_host) 0 sample_nonce)) @
      concat (map (frame_line beat_codec) frames) @ rest" "rest = []"
    using relay_reaches_desktop [of beat_env sample_remote_host "\<lparr>last_sequence = 0\<rparr>" "new_ssh_transport ''ssh''" sample_nonce
        "\<lambda>_. \<lparr>sp_files = [], sp_counter = 0, sp_faults = []\<rparr>" "[]" "[]" 0 beat_end ?w beat_child "[]"]
      beat_codec_laws beat_steps beat_end_out(2)
    unfolding beat_start_def by (auto simp: beat_env_def)
  then show ?thesis
    by (intro exI [of _ frames] exI [of _ c] exI [of _ w']) (simp add: beat_end_out(1) sample_remote_host_def)
qed

end
