(* ===== verification/Remote_Deploy.thy ===== *)
theory Remote_Deploy
  imports Remote_Session Connector_Diff
begin

text \<open>
  Putting the relay on a remote host: the plan (\<^verbatim>\<open>crates/notch-remote/src/deploy.rs\<close>), the choice of the binary
  (\<^verbatim>\<open>relay_artifact.rs\<close>) and the execution of the plan over SSH (\<^verbatim>\<open>deploy_exec.rs\<close>). The remote side is a
  function from the calls made so far to the answer of the next one.
\<close>

section \<open>Artifacts and plans\<close>

definition MAX_ARTIFACT_BYTES :: nat where "MAX_ARTIFACT_BYTES = 64 * 1024 * 1024"

record relay_artifact =
  art_local_path :: string
  art_target :: remote_target
  art_byte_len :: nat
  art_sha256 :: string

datatype deployment_step =
    ProbeTarget
  | CreatePrivateDirectory string
  | UploadTemporary string
  | VerifySha256 string
  | ActivateAtomically string
  | StartStdioRelay string string

record deployment_plan =
  dp_host_id :: string
  dp_artifact :: relay_artifact
  dp_steps :: "deployment_step list"

datatype deployment_error = InvalidSize | InvalidHash | InvalidRemoteDirectory | InvalidHost

fun deployment_error_text :: "deployment_error \<Rightarrow> string" where
  "deployment_error_text InvalidSize = ''relay artifact is empty or exceeds the size limit''"
| "deployment_error_text InvalidHash = ''relay artifact hash must be lowercase SHA-256''"
| "deployment_error_text InvalidRemoteDirectory = ''remote directory is not an allowed private path''"
| "deployment_error_text InvalidHost = ''remote host configuration is invalid''"

text \<open>\<open>sha\<close> is the hexadecimal SHA-256 digest of the bytes.\<close>

definition artifact_from_bytes :: "(string \<Rightarrow> string) \<Rightarrow> string \<Rightarrow> remote_target \<Rightarrow> string \<Rightarrow> relay_artifact" where
  "artifact_from_bytes sha local_path target bytes =
     \<lparr>art_local_path = local_path, art_target = target, art_byte_len = length bytes, art_sha256 = sha bytes\<rparr>"

definition validate_artifact :: "relay_artifact \<Rightarrow> (deployment_error, unit) outcome" where
  "validate_artifact artifact =
     (if art_byte_len artifact = 0 \<or> MAX_ARTIFACT_BYTES < art_byte_len artifact then Err InvalidSize
      else if length (art_sha256 artifact) \<noteq> 64 \<or>
        \<not> list_all (\<lambda>byte. is_ascii_hexdigit byte \<and> \<not> is_ascii_upper byte) (art_sha256 artifact) then Err InvalidHash
      else Ok ())"

definition valid_remote_directory :: "string \<Rightarrow> bool" where
  "valid_remote_directory value \<longleftrightarrow>
     starts_with ''~/.'' value \<and> length value \<le> 128 \<and>
     list_all (\<lambda>byte. is_ascii_alphanumeric byte \<or> byte \<in> set ''~/.-_'') value \<and> \<not> contains_sub ''..'' value"

definition deployment_steps :: "relay_artifact \<Rightarrow> string \<Rightarrow> string \<Rightarrow> deployment_step list" where
  "deployment_steps artifact remote_directory remote_runtime_directory =
     [ProbeTarget, CreatePrivateDirectory remote_directory,
      UploadTemporary (remote_directory @ ''/llm-notch-relay.tmp''), VerifySha256 (art_sha256 artifact),
      ActivateAtomically (remote_directory @ ''/llm-notch-relay''),
      StartStdioRelay (remote_directory @ ''/llm-notch-relay'') remote_runtime_directory]"

definition new_with_runtime_dir ::
  "remote_host_config \<Rightarrow> relay_artifact \<Rightarrow> string \<Rightarrow> string \<Rightarrow> (deployment_error, deployment_plan) outcome" where
  "new_with_runtime_dir host artifact remote_directory remote_runtime_directory =
     ensure (case validate_host host of Ok u \<Rightarrow> Ok () | Err e \<Rightarrow> Err InvalidHost | Panic m \<Rightarrow> Panic m)
    (ensure (validate_artifact artifact)
      (if \<not> valid_remote_directory remote_directory \<or> \<not> valid_remote_directory remote_runtime_directory
       then Err InvalidRemoteDirectory
       else Ok \<lparr>dp_host_id = hc_id host, dp_artifact = artifact,
              dp_steps = deployment_steps artifact remote_directory remote_runtime_directory\<rparr>))"

section \<open>The binary for a target\<close>

datatype relay_artifact_error =
    UnsupportedTarget remote_target
  | MissingArtifact remote_target string
  | ArtifactUnreadable string string

definition RELAY_BINARY_NAME :: string where "RELAY_BINARY_NAME = ''llm-notch-relay''"

fun target_triple :: "remote_os \<Rightarrow> remote_architecture \<Rightarrow> string" where
  "target_triple OsLinux ArchX86_64 = ''x86_64-unknown-linux-gnu''"
| "target_triple OsLinux ArchAarch64 = ''aarch64-unknown-linux-gnu''"
| "target_triple OsMacos ArchX86_64 = ''x86_64-apple-darwin''"
| "target_triple OsMacos ArchAarch64 = ''aarch64-apple-darwin''"
| "target_triple OsWindows ArchX86_64 = ''x86_64-pc-windows-msvc''"
| "target_triple OsWindows ArchAarch64 = ''aarch64-pc-windows-msvc''"

definition remote_target_triple :: "remote_target \<Rightarrow> string" where
  "remote_target_triple target = target_triple (rt_os target) (rt_architecture target)"

definition rust_triple_for_target :: "remote_target \<Rightarrow> string option" where
  "rust_triple_for_target target = (if rt_os target = OsWindows then None else Some (remote_target_triple target))"

definition sidecar_filename_for_triple :: "string \<Rightarrow> string" where
  "sidecar_filename_for_triple triple =
     (if contains_sub ''windows'' triple then RELAY_BINARY_NAME @ ''-'' @ triple @ ''.exe''
      else RELAY_BINARY_NAME @ ''-'' @ triple)"

definition sidecar_filename_for_target :: "remote_target \<Rightarrow> string option" where
  "sidecar_filename_for_target target = map_option sidecar_filename_for_triple (rust_triple_for_target target)"

definition relay_binary_filename :: "string \<Rightarrow> string" where
  "relay_binary_filename triple =
     (if contains_sub ''windows'' triple then RELAY_BINARY_NAME @ ''.exe'' else RELAY_BINARY_NAME)"

definition host_relay_path_matches_triple :: "string \<Rightarrow> string \<Rightarrow> bool" where
  "host_relay_path_matches_triple path triple =
     (case path_file_name path of None \<Rightarrow> False | Some name \<Rightarrow> contains_sub triple name)"

definition workspace_root_from_binaries_dir :: "string \<Rightarrow> string option" where
  "workspace_root_from_binaries_dir dir = Option.bind (path_parent dir) path_parent"

definition relay_artifact_candidates :: "string \<Rightarrow> string \<Rightarrow> string \<Rightarrow> string list" where
  "relay_artifact_candidates relay_binaries_dir host_relay_path triple =
     [path_join relay_binaries_dir (sidecar_filename_for_triple triple)] @
     (case workspace_root_from_binaries_dir relay_binaries_dir of
        None \<Rightarrow> []
      | Some workspace \<Rightarrow>
          map (\<lambda>profile. path_join (path_join (path_join (path_join workspace ''target'') triple) profile)
            (relay_binary_filename triple)) [''release'', ''debug'']) @
     (if host_relay_path_matches_triple host_relay_path triple then [host_relay_path] else [])"

text \<open>Files of the desktop: the content of a regular file, or the message when it cannot be read.\<close>

type_synonym local_files = "string \<Rightarrow> (string, string) outcome option"

definition resolve_relay_artifact ::
  "(string \<Rightarrow> string) \<Rightarrow> local_files \<Rightarrow> string \<Rightarrow> string \<Rightarrow> remote_target \<Rightarrow> (relay_artifact_error, relay_artifact) outcome" where
  "resolve_relay_artifact sha files relay_binaries_dir host_relay_path target =
     (case rust_triple_for_target target of
        None \<Rightarrow> Err (UnsupportedTarget target)
      | Some triple \<Rightarrow>
          (case List.find (\<lambda>path. files path \<noteq> None) (relay_artifact_candidates relay_binaries_dir host_relay_path triple) of
             None \<Rightarrow> Err (MissingArtifact target (path_join relay_binaries_dir (sidecar_filename_for_triple triple)))
           | Some path \<Rightarrow>
               (case files path of
                  Some (Ok bytes) \<Rightarrow> Ok (artifact_from_bytes sha path target bytes)
                | Some (Err message) \<Rightarrow> Err (ArtifactUnreadable path message)
                | Some (Panic message) \<Rightarrow> Panic message
                | None \<Rightarrow> Err (MissingArtifact target path))))"

section \<open>Commands on the remote host\<close>

datatype deploy_transport_error =
    DSshUnavailable
  | DScpUnavailable
  | DHostVerificationFailed
  | DAuthenticationFailed
  | DProcess string
  | DProtocol string

datatype deploy_exec_error =
    StepFailed deployment_step deploy_transport_error
  | HashMismatch string string
  | TargetMismatch remote_target remote_target
  | MissingRelayPath

record deployment_outcome =
  do_completed :: "deployment_step list"
  do_probed_target :: "remote_target option"

text \<open>
  What a spawned command leaves: its exit, its two outputs, or an error of the spawn. A world answers the next
  command from the ones run so far, which it is given with their arguments.
\<close>

datatype command_result = CommandMissing | CommandError string | CommandDone bool string string

type_synonym command = "string \<times> string list"
type_synonym deploy_world = "command list \<Rightarrow> command \<Rightarrow> command_result"
type_synonym 'a deploy_op = "(command list, deploy_transport_error, 'a) op"

record deploy_env =
  de_ssh_executable :: string
  de_scp_executable :: string
  de_world :: deploy_world
  de_is_file :: "string \<Rightarrow> bool"
  de_lossy :: "string \<Rightarrow> string"

definition classify_command_failure :: "deploy_env \<Rightarrow> string \<Rightarrow> string \<Rightarrow> deploy_transport_error" where
  "classify_command_failure env stderr stdout =
     (let combined = (if trim (de_lossy env stderr) = [] then de_lossy env stdout else de_lossy env stderr);
          normalized = to_ascii_lowercase combined
      in if contains_sub ''host key verification failed'' normalized \<or>
           contains_sub ''remote host identification has changed'' normalized then DHostVerificationFailed
         else if contains_sub ''permission denied'' normalized then DAuthenticationFailed
         else DProcess (trim combined))"

definition run_command :: "deploy_env \<Rightarrow> string \<Rightarrow> string list \<Rightarrow> deploy_transport_error \<Rightarrow> string deploy_op" where
  "run_command env executable args missing_error past =
     (case de_world env past (executable, args) of
        CommandMissing \<Rightarrow> (Err missing_error, past @ [(executable, args)])
      | CommandError e \<Rightarrow> (Err (DProcess e), past @ [(executable, args)])
      | CommandDone success stdout stderr \<Rightarrow>
          (if success then Ok (trim (de_lossy env stdout)) else Err (classify_command_failure env stderr stdout),
           past @ [(executable, args)]))"

definition run_remote :: "deploy_env \<Rightarrow> remote_host_config \<Rightarrow> string \<Rightarrow> string deploy_op" where
  "run_remote env host script =
     (case ssh_args host of
        Err e \<Rightarrow> throw (DProtocol (config_error_text e))
      | Panic m \<Rightarrow> panic m
      | Ok args \<Rightarrow> run_command env (de_ssh_executable env) (args @ [script]) DSshUnavailable)"

definition upload_file :: "deploy_env \<Rightarrow> remote_host_config \<Rightarrow> string \<Rightarrow> string \<Rightarrow> unit deploy_op" where
  "upload_file env host local_path remote_path =
     (if \<not> de_is_file env local_path then throw (DProtocol (''local relay artifact is missing: '' @ local_path))
      else case scp_base_args host of
          Err e \<Rightarrow> throw (DProtocol (config_error_text e))
        | Panic m \<Rightarrow> panic m
        | Ok args \<Rightarrow>
            bind (run_command env (de_scp_executable env)
              (args @ [local_path, hc_destination host @ '':'' @ remote_path]) DScpUnavailable) (\<lambda>_. ret ()))"

definition text_lines :: "string \<Rightarrow> string list" where
  "text_lines output = filter (\<lambda>line. line \<noteq> []) (map trim (str_lines output))"

definition parse_os :: "string \<Rightarrow> (deploy_transport_error, remote_os) outcome" where
  "parse_os os =
     (if os = ''Linux'' then Ok OsLinux else if os = ''Darwin'' then Ok OsMacos
      else Err (DProtocol (''unsupported remote OS: '' @ os)))"

definition parse_architecture :: "string \<Rightarrow> (deploy_transport_error, remote_architecture) outcome" where
  "parse_architecture architecture =
     (if architecture = ''x86_64'' \<or> architecture = ''amd64'' then Ok ArchX86_64
      else if architecture = ''aarch64'' \<or> architecture = ''arm64'' then Ok ArchAarch64
      else Err (DProtocol (''unsupported remote architecture: '' @ architecture)))"

definition parse_probe_output :: "string \<Rightarrow> (deploy_transport_error, remote_target) outcome" where
  "parse_probe_output output =
     (case text_lines output of
        [] \<Rightarrow> Err (DProtocol ''probe output missing OS'')
      | [os] \<Rightarrow> Err (DProtocol ''probe output missing architecture'')
      | os # architecture # _ \<Rightarrow>
          (case parse_os os of
             Err e \<Rightarrow> Err e
           | Panic m \<Rightarrow> Panic m
           | Ok o' \<Rightarrow>
               (case parse_architecture architecture of
                  Err e \<Rightarrow> Err e
                | Panic m \<Rightarrow> Panic m
                | Ok a \<Rightarrow> Ok \<lparr>rt_os = o', rt_architecture = a\<rparr>)))"

definition PROBE_SCRIPT :: string where
  "PROBE_SCRIPT = ''uname -s && uname -m''"

definition probe_target :: "deploy_env \<Rightarrow> remote_host_config \<Rightarrow> remote_target deploy_op" where
  "probe_target env host = bind (run_remote env host PROBE_SCRIPT) (\<lambda>output. lift (parse_probe_output output))"

definition shell_quoted :: "string \<Rightarrow> string" where
  "shell_quoted s = [CHR 0x27] @ s @ [CHR 0x27]"

definition mkdir_script :: "string \<Rightarrow> string" where
  "mkdir_script remote_directory = ''mkdir -p '' @ shell_quoted remote_directory"

definition sha256_script :: "string \<Rightarrow> string" where
  "sha256_script remote_path =
     ''if command -v sha256sum >/dev/null 2>&1; then sha256sum '' @ shell_quoted remote_path @
     ''; elif command -v shasum >/dev/null 2>&1; then shasum -a 256 '' @ shell_quoted remote_path @
     ''; else exit 127; fi | awk '' @ shell_quoted ''{print $1}''"

definition activate_script :: "string \<Rightarrow> string \<Rightarrow> string" where
  "activate_script temporary_path active_path =
     ''test -f '' @ shell_quoted temporary_path @ '' && mv '' @ shell_quoted temporary_path @ '' '' @ shell_quoted active_path @
     '' && chmod +x '' @ shell_quoted active_path"

definition remote_sha256 :: "deploy_env \<Rightarrow> remote_host_config \<Rightarrow> string \<Rightarrow> string deploy_op" where
  "remote_sha256 env host remote_path =
     bind (run_remote env host (sha256_script remote_path)) (\<lambda>output.
       let hash = to_ascii_lowercase (trim output)
       in if length hash \<noteq> 64 \<or> \<not> list_all is_ascii_hexdigit hash
          then throw (DProtocol (''remote hash output was invalid: '' @ output)) else ret hash)"

definition activate_relay :: "deploy_env \<Rightarrow> remote_host_config \<Rightarrow> string \<Rightarrow> string \<Rightarrow> unit deploy_op" where
  "activate_relay env host temporary_path active_path =
     bind (run_remote env host (activate_script temporary_path active_path)) (\<lambda>_. ret ())"

section \<open>The executor\<close>

record deploy_progress =
  pg_completed :: "deployment_step list"
  pg_probed :: "remote_target option"
  pg_temporary :: "string option"

definition at_step :: "deployment_step \<Rightarrow> 'a deploy_op \<Rightarrow> (command list, deploy_exec_error, 'a) op" where
  "at_step step m past =
     (case m past of (Ok x, past') \<Rightarrow> (Ok x, past') | (Err e, past') \<Rightarrow> (Err (StepFailed step e), past') | (Panic p, past') \<Rightarrow> (Panic p, past'))"

definition note_step :: "deployment_step \<Rightarrow> deploy_progress \<Rightarrow> deploy_progress" where
  "note_step step g = g\<lparr>pg_completed := pg_completed g @ [step]\<rparr>"

fun execute_step ::
  "deploy_env \<Rightarrow> remote_host_config \<Rightarrow> deployment_plan \<Rightarrow> deployment_step \<Rightarrow> deploy_progress \<Rightarrow>
   (command list, deploy_exec_error, deploy_progress) op" where
  "execute_step env host plan ProbeTarget g =
     bind (at_step ProbeTarget (probe_target env host)) (\<lambda>target.
       if target \<noteq> art_target (dp_artifact plan) then throw (TargetMismatch target (art_target (dp_artifact plan)))
       else ret (note_step ProbeTarget (g\<lparr>pg_probed := Some target\<rparr>)))"
| "execute_step env host plan (CreatePrivateDirectory dir) g =
     bind (at_step (CreatePrivateDirectory dir) (run_remote env host (mkdir_script dir))) (\<lambda>_.
       ret (note_step (CreatePrivateDirectory dir) g))"
| "execute_step env host plan (UploadTemporary path) g =
     bind (at_step (UploadTemporary path) (upload_file env host (art_local_path (dp_artifact plan)) path)) (\<lambda>_.
       ret (note_step (UploadTemporary path) (g\<lparr>pg_temporary := Some path\<rparr>)))"
| "execute_step env host plan (VerifySha256 expected) g =
     (case pg_temporary g of
        None \<Rightarrow> throw MissingRelayPath
      | Some path \<Rightarrow>
          bind (at_step (VerifySha256 expected) (remote_sha256 env host path)) (\<lambda>actual.
            if actual \<noteq> expected then throw (HashMismatch expected actual)
            else ret (note_step (VerifySha256 expected) g)))"
| "execute_step env host plan (ActivateAtomically path) g =
     (case pg_temporary g of
        None \<Rightarrow> throw MissingRelayPath
      | Some temporary \<Rightarrow>
          bind (at_step (ActivateAtomically path) (activate_relay env host temporary path)) (\<lambda>_.
            ret (note_step (ActivateAtomically path) g)))"
| "execute_step env host plan (StartStdioRelay path dir) g = ret g"

declare execute_step.simps [simp del]

fun execute_steps ::
  "deploy_env \<Rightarrow> remote_host_config \<Rightarrow> deployment_plan \<Rightarrow> deployment_step list \<Rightarrow> deploy_progress \<Rightarrow>
   (command list, deploy_exec_error, deploy_progress) op" where
  "execute_steps env host plan [] g = ret g"
| "execute_steps env host plan (StartStdioRelay path dir # steps) g = ret g"
| "execute_steps env host plan (step # steps) g = bind (execute_step env host plan step g) (execute_steps env host plan steps)"

definition execute_plan ::
  "deploy_env \<Rightarrow> remote_host_config \<Rightarrow> deployment_plan \<Rightarrow> (command list, deploy_exec_error, deployment_outcome) op" where
  "execute_plan env host plan =
     bind (execute_steps env host plan (dp_steps plan) \<lparr>pg_completed = [], pg_probed = None, pg_temporary = None\<rparr>) (\<lambda>g.
       ret \<lparr>do_completed = pg_completed g, do_probed_target = pg_probed g\<rparr>)"

section \<open>What is activated\<close>

definition command_output :: "deploy_env \<Rightarrow> command list \<Rightarrow> command \<Rightarrow> string option" where
  "command_output env past cmd =
     (case de_world env past cmd of
        CommandDone True stdout stderr \<Rightarrow> Some (trim (de_lossy env stdout))
      | _ \<Rightarrow> None)"

definition ssh_command :: "deploy_env \<Rightarrow> remote_host_config \<Rightarrow> string \<Rightarrow> command" where
  "ssh_command env host script = (de_ssh_executable env, ssh_base_args host @ [hc_destination host, script])"

definition scp_command :: "deploy_env \<Rightarrow> remote_host_config \<Rightarrow> string \<Rightarrow> string \<Rightarrow> command" where
  "scp_command env host local_path remote_path =
     (de_scp_executable env, ssh_common_args host @ (case hc_port host of None \<Rightarrow> [] | Some port \<Rightarrow> [''-P'', dec_string port]) @
        [local_path, hc_destination host @ '':'' @ remote_path])"

text \<open>The commands of a deployment into a directory, in order.\<close>

definition deployment_commands :: "deploy_env \<Rightarrow> remote_host_config \<Rightarrow> relay_artifact \<Rightarrow> string \<Rightarrow> command list" where
  "deployment_commands env host artifact dir =
     (let tmp = dir @ ''/llm-notch-relay.tmp''
      in [ssh_command env host PROBE_SCRIPT, ssh_command env host (mkdir_script dir),
          scp_command env host (art_local_path artifact) tmp, ssh_command env host (sha256_script tmp),
          ssh_command env host (activate_script tmp (dir @ ''/llm-notch-relay''))])"

lemma run_command_run:
  "run_command env exe args miss past = (r, past') \<Longrightarrow>
     past' = past @ [(exe, args)] \<and> (\<forall>out. r = Ok out \<longleftrightarrow> command_output env past (exe, args) = Some out)"
  by (auto simp: run_command_def command_output_def split: command_result.splits bool.splits if_splits)

lemma run_remote_run:
  assumes "validate_host host = Ok ()" "run_remote env host script past = (r, past')"
  shows "past' = past @ [ssh_command env host script] \<and>
    (\<forall>out. r = Ok out \<longleftrightarrow> command_output env past (ssh_command env host script) = Some out)"
  using assms run_command_run by (auto simp: run_remote_def ssh_args_def ensure_def ssh_command_def)

lemma at_step_run: "at_step step m past = (r, past') \<Longrightarrow> \<exists>r'. m past = (r', past') \<and> (\<forall>x. r = Ok x \<longleftrightarrow> r' = Ok x)"
  by (auto simp: at_step_def split: prod.splits outcome.splits)

text \<open>A bind that fails on its first part leaves the commands of that part; otherwise the second part runs on.\<close>

lemma bind_run:
  assumes "bind m k s = (r, s')"
  obtains (stops) r1 where "m s = (r1, s')" "\<And>x. r1 \<noteq> Ok x" "\<And>y. r \<noteq> Ok y"
  | (goes_on) x s1 where "m s = (Ok x, s1)" "k x s1 = (r, s')"
  using assms by (cases "m s"; cases "fst (m s)") (auto simp: bind_def)

lemma probe_run:
  assumes "validate_host host = Ok ()" "execute_step env host plan ProbeTarget g past = (r, past')"
  shows "past' = past @ [ssh_command env host PROBE_SCRIPT]"
    and "r = Ok g' \<Longrightarrow>
      (\<exists>out. command_output env past (ssh_command env host PROBE_SCRIPT) = Some out \<and>
         parse_probe_output out = Ok (art_target (dp_artifact plan))) \<and>
      g' = note_step ProbeTarget (g\<lparr>pg_probed := Some (art_target (dp_artifact plan))\<rparr>)"
  using assms(2) unfolding execute_step.simps probe_target_def
  by (auto elim!: bind_run dest!: at_step_run run_remote_run [OF assms(1)] simp: op_basic_defs split: if_splits)

lemma mkdir_run:
  assumes "validate_host host = Ok ()" "execute_step env host plan (CreatePrivateDirectory dir) g past = (r, past')"
  shows "past' = past @ [ssh_command env host (mkdir_script dir)]"
    and "r = Ok g' \<Longrightarrow> g' = note_step (CreatePrivateDirectory dir) g"
proof -
  from assms(2) have "past' = past @ [ssh_command env host (mkdir_script dir)] \<and>
      (\<forall>g'. r = Ok g' \<longrightarrow> g' = note_step (CreatePrivateDirectory dir) g)"
    unfolding execute_step.simps
  proof (cases rule: bind_run)
    case (stops r1)
    then show ?thesis using at_step_run run_remote_run [OF assms(1)] by metis
  next
    case (goes_on out s1)
    then have "s1 = past @ [ssh_command env host (mkdir_script dir)]"
      using at_step_run run_remote_run [OF assms(1)] by metis
    with goes_on(2) show ?thesis by (auto simp: ret_def)
  qed
  then show "past' = past @ [ssh_command env host (mkdir_script dir)]"
    and "r = Ok g' \<Longrightarrow> g' = note_step (CreatePrivateDirectory dir) g" by simp_all
qed

lemma upload_run:
  assumes "validate_host host = Ok ()" "execute_step env host plan (UploadTemporary path) g past = (r, past')"
  shows "past' = past \<or> past' = past @ [scp_command env host (art_local_path (dp_artifact plan)) path]"
    and "r = Ok g' \<Longrightarrow> past' = past @ [scp_command env host (art_local_path (dp_artifact plan)) path] \<and>
      g' = note_step (UploadTemporary path) (g\<lparr>pg_temporary := Some path\<rparr>)"
  using assms(2) unfolding execute_step.simps upload_file_def
  by (auto elim!: bind_run dest!: at_step_run run_command_run
      simp: op_basic_defs scp_base_args_def ensure_def assms(1) scp_command_def split: if_splits)

lemma verify_run:
  assumes "validate_host host = Ok ()" "pg_temporary g = Some path"
    and "execute_step env host plan (VerifySha256 expected) g past = (r, past')"
  shows "past' = past @ [ssh_command env host (sha256_script path)]"
    and "r = Ok g' \<Longrightarrow>
      (\<exists>out. command_output env past (ssh_command env host (sha256_script path)) = Some out \<and>
         to_ascii_lowercase (trim out) = expected) \<and>
      g' = note_step (VerifySha256 expected) g"
  using assms(2,3) unfolding execute_step.simps remote_sha256_def
  by (auto elim!: bind_run dest!: at_step_run run_remote_run [OF assms(1)] simp: op_basic_defs Let_def split: if_splits)

lemma activate_run:
  assumes "validate_host host = Ok ()" "pg_temporary g = Some tmp"
    and "execute_step env host plan (ActivateAtomically path) g past = (r, past')"
  shows "past' = past @ [ssh_command env host (activate_script tmp path)]"
    and "r = Ok g' \<Longrightarrow> g' = note_step (ActivateAtomically path) g"
  using assms(2,3) unfolding execute_step.simps activate_relay_def
  by (auto elim!: bind_run dest!: at_step_run run_remote_run [OF assms(1)] simp: op_basic_defs)

text \<open>
  \<open>deployed\<close>: what is known after a run that made the first \<open>n\<close> commands.
\<close>

definition deployed :: "deploy_env \<Rightarrow> remote_host_config \<Rightarrow> relay_artifact \<Rightarrow> string \<Rightarrow> command list \<Rightarrow> nat \<Rightarrow> command list \<Rightarrow> bool" where
  "deployed env host artifact dir past n past' \<longleftrightarrow>
     (let cmds = deployment_commands env host artifact dir
      in n \<le> 5 \<and> past' = past @ take n cmds \<and>
         (1 < n \<longrightarrow> (\<exists>out. command_output env past (cmds ! 0) = Some out \<and> parse_probe_output out = Ok (art_target artifact))) \<and>
         (4 < n \<longrightarrow> (\<exists>out. command_output env (past @ take 3 cmds) (cmds ! 3) = Some out \<and>
            to_ascii_lowercase (trim out) = art_sha256 artifact)))"

lemma deployedI:
  assumes "n \<le> 5" "past' = past @ take n (deployment_commands env host artifact dir)"
    and "1 < n \<Longrightarrow> \<exists>out. command_output env past (ssh_command env host PROBE_SCRIPT) = Some out \<and>
           parse_probe_output out = Ok (art_target artifact)"
    and "4 < n \<Longrightarrow> \<exists>out. command_output env (past @ take 3 (deployment_commands env host artifact dir))
           (ssh_command env host (sha256_script (dir @ ''/llm-notch-relay.tmp''))) = Some out \<and>
           to_ascii_lowercase (trim out) = art_sha256 artifact"
  shows "deployed env host artifact dir past n past'"
  using assms by (simp add: deployed_def deployment_commands_def Let_def)

lemma planned:
  assumes "new_with_runtime_dir host artifact dir runtime = Ok plan"
  shows "validate_host host = Ok ()" "dp_artifact plan = artifact" "dp_steps plan = deployment_steps artifact dir runtime"
    "dp_host_id plan = hc_id host" "valid_remote_directory dir" "validate_artifact artifact = Ok ()"
  using assms by (auto simp: new_with_runtime_dir_def ensure_Ok split: if_splits outcome.splits)

lemma prepare_run:
  assumes host: "validate_host host = Ok ()"
    and run: "execute_steps env host plan (ProbeTarget # CreatePrivateDirectory dir # UploadTemporary tmp # steps) g past = (r, past')"
  defines "cmds \<equiv> [ssh_command env host PROBE_SCRIPT, ssh_command env host (mkdir_script dir),
      scp_command env host (art_local_path (dp_artifact plan)) tmp]"
  defines "probed \<equiv> \<exists>out. command_output env past (ssh_command env host PROBE_SCRIPT) = Some out \<and>
      parse_probe_output out = Ok (art_target (dp_artifact plan))"
  shows "(\<exists>n. 1 \<le> n \<and> n \<le> 3 \<and> past' = past @ take n cmds \<and> (1 < n \<longrightarrow> probed) \<and> (\<forall>g. r \<noteq> Ok g)) \<or>
    probed \<and> execute_steps env host plan steps
      \<lparr>pg_completed = pg_completed g @ [ProbeTarget, CreatePrivateDirectory dir, UploadTemporary tmp],
       pg_probed = Some (art_target (dp_artifact plan)), pg_temporary = Some tmp\<rparr> (past @ cmds) = (r, past')"
    (is "?stopped \<or> ?on")
proof -
  have stop: "?stopped" if "n \<in> {1, 2, 3}" "past' = past @ take n cmds" "1 < n \<Longrightarrow> probed" "\<And>g. r \<noteq> Ok g" for n
    using that by (intro exI [of _ n]) auto
  from run have "bind (execute_step env host plan ProbeTarget g)
      (execute_steps env host plan (CreatePrivateDirectory dir # UploadTemporary tmp # steps)) past = (r, past')"
    by simp
  then show ?thesis
  proof (cases rule: bind_run)
    case (stops r1)
    with probe_run(1) [OF host stops(1)] show ?thesis by (intro disjI1 stop [of 1]) (auto simp: cmds_def)
  next
    case (goes_on g1 past1)
    note probe = probe_run(1) [OF host goes_on(1)] probe_run(2) [OF host goes_on(1) refl]
    then have probed unfolding probed_def by blast
    from goes_on(2) have "bind (execute_step env host plan (CreatePrivateDirectory dir) g1)
        (execute_steps env host plan (UploadTemporary tmp # steps)) past1 = (r, past')"
      by simp
    then show ?thesis
    proof (cases rule: bind_run)
      case (stops r1)
      with mkdir_run(1) [OF host stops(1)] probe(1) \<open>probed\<close> show ?thesis by (intro disjI1 stop [of 2]) (auto simp: cmds_def)
    next
      case (goes_on g2 past2)
      note mkdir = mkdir_run(1) [OF host goes_on(1)] mkdir_run(2) [OF host goes_on(1) refl]
      from goes_on(2) have "bind (execute_step env host plan (UploadTemporary tmp) g2) (execute_steps env host plan steps) past2 = (r, past')"
        by simp
      then show ?thesis
      proof (cases rule: bind_run)
        case (stops r1)
        from upload_run(1) [OF host stops(1)] probe(1) mkdir(1)
        have "past' = past @ take 2 cmds \<or> past' = past @ take 3 cmds" by (auto simp: cmds_def)
        with stops(3) \<open>probed\<close> show ?thesis using stop [of 2] stop [of 3] by auto
      next
        case (goes_on g3 past3)
        note upload = upload_run(2) [OF host goes_on(1) refl]
        have "g3 = \<lparr>pg_completed = pg_completed g @ [ProbeTarget, CreatePrivateDirectory dir, UploadTemporary tmp],
            pg_probed = Some (art_target (dp_artifact plan)), pg_temporary = Some tmp\<rparr>" "past3 = past @ cmds"
          using probe mkdir upload by (simp_all add: note_step_def cmds_def)
        with goes_on(2) \<open>probed\<close> show ?thesis by simp
      qed
    qed
  qed
qed

lemma finish_run:
  assumes host: "validate_host host = Ok ()" and tmp: "pg_temporary g = Some tmp"
    and run: "execute_steps env host plan [VerifySha256 expected, ActivateAtomically active, StartStdioRelay path dir] g past = (r, past')"
  defines "cmds \<equiv> [ssh_command env host (sha256_script tmp), ssh_command env host (activate_script tmp active)]"
  shows "past' = past @ take 1 cmds \<and> (\<forall>g. r \<noteq> Ok g) \<or>
    past' = past @ cmds \<and>
    (\<exists>out. command_output env past (ssh_command env host (sha256_script tmp)) = Some out \<and> to_ascii_lowercase (trim out) = expected) \<and>
    (\<forall>g'. r = Ok g' \<longrightarrow> g' = g\<lparr>pg_completed := pg_completed g @ [VerifySha256 expected, ActivateAtomically active]\<rparr>)"
proof -
  from run have "bind (execute_step env host plan (VerifySha256 expected) g)
      (execute_steps env host plan [ActivateAtomically active, StartStdioRelay path dir]) past = (r, past')"
    by simp
  then show ?thesis
  proof (cases rule: bind_run)
    case (stops r1)
    with verify_run(1) [OF host tmp stops(1)] show ?thesis by (auto simp: cmds_def)
  next
    case (goes_on g1 past1)
    note verify = verify_run(1) [OF host tmp goes_on(1)] verify_run(2) [OF host tmp goes_on(1) refl]
    with tmp have tmp1: "pg_temporary g1 = Some tmp" by (simp add: note_step_def)
    from goes_on(2) have "bind (execute_step env host plan (ActivateAtomically active) g1) ret past1 = (r, past')"
      by (simp add: bind_def ret_def split: prod.splits outcome.splits)
    then show ?thesis
    proof (cases rule: bind_run)
      case (stops r1)
      with activate_run(1) [OF host tmp1 stops(1)] verify show ?thesis by (auto simp: cmds_def)
    next
      case (goes_on g2 past2)
      with activate_run(1) [OF host tmp1 goes_on(1)] activate_run(2) [OF host tmp1 goes_on(1) refl] verify
      show ?thesis by (auto simp: cmds_def ret_def note_step_def)
    qed
  qed
qed


text \<open>
  The scripts put the path between single quotes, so the remote shell does not expand the tilde of the home
  directory in it, while the upload, whose path is not quoted, names the home directory.
\<close>

lemma deploy_scripts_quote_the_tilde:
  assumes "new_with_runtime_dir host artifact dir runtime = Ok plan"
  shows "\<exists>rest. mkdir_script dir = ''mkdir -p '' @ CHR 0x27 # ''~/'' @ rest"
    and "\<exists>rest. activate_script tmp (dir @ ''/llm-notch-relay'') = ''test -f '' @ shell_quoted tmp @ '' && mv '' @
      shell_quoted tmp @ '' '' @ CHR 0x27 # ''~/'' @ rest"
  using planned(5) [OF assms]
  by (auto simp: valid_remote_directory_def starts_with_def prefix_def mkdir_script_def activate_script_def shell_quoted_def)

section \<open>A run\<close>

definition sample_uname :: string where
  "sample_uname = ''Linux'' @ newline # ''x86_64''"

definition zero_hash :: string where
  "zero_hash = replicate 64 (CHR ''0'')"

definition sample_linux :: remote_target where
  "sample_linux = \<lparr>rt_os = OsLinux, rt_architecture = ArchX86_64\<rparr>"

definition sample_artifact :: relay_artifact where
  "sample_artifact = \<lparr>art_local_path = ''/relay'', art_target = sample_linux, art_byte_len = 1,
     art_sha256 = zero_hash\<rparr>"

definition sample_deploy_env :: deploy_env where
  "sample_deploy_env = \<lparr>de_ssh_executable = ''ssh'', de_scp_executable = ''scp'',
     de_world = (\<lambda>past cmd. CommandDone True (if past = [] then sample_uname else zero_hash) []),
     de_is_file = (\<lambda>_. True), de_lossy = id\<rparr>"

lemma sample_outputs:
  "trim sample_uname = sample_uname"
  "trim zero_hash = zero_hash"
  "to_ascii_lowercase zero_hash = zero_hash"
  by (simp_all add: sample_uname_def zero_hash_def trim_alphanumeric upper_letters is_ascii_alphanumeric_def ascii_classes
      to_ascii_lowercase_def ascii_lower_def numeral_eq_Suc)

lemma sample_probe: "parse_probe_output sample_uname = Ok sample_linux"
proof -
  have "str_lines sample_uname = [''Linux'', ''x86_64'']"
    by (simp add: sample_uname_def str_lines_def strip_cr_def newline_def)
  moreover have "trim ''Linux'' = ''Linux''" "trim ''x86_64'' = ''x86_64''"
    by (simp_all add: trim_alphanumeric lower_letters upper_letters is_ascii_alphanumeric_def [of "CHR ''4''"] ascii_classes)
  ultimately show ?thesis
    by (simp add: parse_probe_output_def text_lines_def parse_os_def parse_architecture_def sample_linux_def)
qed

lemma sample_remote_host_valid: "validate_host sample_remote_host = Ok ()"
  by (simp add: validate_host_def sample_remote_host_def remote_limits MAX_DESTINATION_LEN_def valid_destination_def
      starts_with_def is_ascii_alphanumeric_def ascii_classes ensure_def if_some_def)

definition sample_deployment :: deployment_plan where
  "sample_deployment = \<lparr>dp_host_id = ''host'', dp_artifact = sample_artifact,
     dp_steps = deployment_steps sample_artifact DEFAULT_REMOTE_BIN_DIRECTORY DEFAULT_REMOTE_RUNTIME_DIRECTORY\<rparr>"

lemma sample_deployment_made:
  "new_with_runtime_dir sample_remote_host sample_artifact DEFAULT_REMOTE_BIN_DIRECTORY DEFAULT_REMOTE_RUNTIME_DIRECTORY =
     Ok sample_deployment"
proof -
  have "valid_remote_directory DEFAULT_REMOTE_BIN_DIRECTORY" "valid_remote_directory DEFAULT_REMOTE_RUNTIME_DIRECTORY"
    by (simp_all add: valid_remote_directory_def DEFAULT_REMOTE_BIN_DIRECTORY_def DEFAULT_REMOTE_RUNTIME_DIRECTORY_def
        starts_with_def is_ascii_alphanumeric_def ascii_classes contains_sub_def)
  moreover have "validate_artifact sample_artifact = Ok ()"
    by (simp add: validate_artifact_def sample_artifact_def MAX_ARTIFACT_BYTES_def is_ascii_hexdigit_def ascii_classes list_all_iff zero_hash_def)
  ultimately show ?thesis
    by (simp add: new_with_runtime_dir_def sample_remote_host_valid ensure_def sample_deployment_def)
      (simp add: sample_remote_host_def)
qed

lemma sample_run_remote:
  "run_remote sample_deploy_env sample_remote_host script past =
     (Ok (if past = [] then sample_uname else zero_hash),
      past @ [ssh_command sample_deploy_env sample_remote_host script])"
  by (simp add: run_remote_def ssh_args_def ensure_def sample_remote_host_valid run_command_def sample_deploy_env_def
      ssh_command_def sample_outputs)

lemma sample_upload:
  "upload_file sample_deploy_env sample_remote_host local_path path past =
     (Ok (), past @ [scp_command sample_deploy_env sample_remote_host local_path path])"
  by (simp add: upload_file_def scp_base_args_def ensure_def sample_remote_host_valid run_command_def sample_deploy_env_def
      scp_command_def bind_def ret_def)

lemma sample_deploys:
  "\<exists>past'. execute_plan sample_deploy_env sample_remote_host sample_deployment [] =
     (Ok \<lparr>do_completed = take 5 (dp_steps sample_deployment), do_probed_target = Some sample_linux\<rparr>, past')"
proof -
  have "list_all is_ascii_hexdigit zero_hash" "length zero_hash = 64"
    by (simp_all add: zero_hash_def list_all_iff is_ascii_hexdigit_def ascii_classes)
  then have sha: "remote_sha256 sample_deploy_env sample_remote_host path (c # past) =
      (Ok zero_hash, c # past @ [ssh_command sample_deploy_env sample_remote_host (sha256_script path)])" for path c past
    by (simp add: remote_sha256_def bind_def sample_run_remote sample_outputs ret_def)
  have probe: "probe_target sample_deploy_env sample_remote_host [] =
      (Ok sample_linux, [ssh_command sample_deploy_env sample_remote_host PROBE_SCRIPT])"
    by (simp add: probe_target_def bind_def sample_run_remote sample_probe lift_def)
  show ?thesis
    by (simp add: execute_plan_def sample_deployment_def deployment_steps_def execute_step.simps bind_def at_step_def ret_def
        probe sha sample_run_remote sample_upload sample_artifact_def note_step_def activate_relay_def)
qed


end
