(* ===== verification/Remote_Registry.thy ===== *)
theory Remote_Registry
  imports Remote_Deploy Host_Runs
begin

text \<open>
  \<^verbatim>\<open>src-tauri/src/services/remote.rs\<close> and \<^verbatim>\<open>remote_supervisor.rs\<close>: the hosts of the desktop and their storage,
  the commands that deploy, start and stop a relay, the poll of the active sessions and the supervisor that
  hands their events to the host. A registry keeps its sessions together with the processes still to be
  spawned, and the database it was given.
\<close>

section \<open>State\<close>

datatype remote_availability = RemoteAvailable | RemoteUnavailable

datatype remote_connection_state =
    ViewDisconnected | ViewConnecting | ViewAuthenticating | ViewStreaming | ViewBackoff nat nat | ViewFailed

fun connection_state_view :: "connection_state \<Rightarrow> remote_connection_state" where
  "connection_state_view Disconnected = ViewDisconnected"
| "connection_state_view Connecting = ViewConnecting"
| "connection_state_view Authenticating = ViewAuthenticating"
| "connection_state_view Streaming = ViewStreaming"
| "connection_state_view ConnFailed = ViewFailed"
| "connection_state_view (Backoff n delay) = ViewBackoff n delay"

record session_watch_state =
  wt_last_connection_state :: remote_connection_state
  wt_reconnect_attempt :: nat
  wt_next_reconnect_at_ms :: int
  wt_last_connected_at_ms :: "int option"

definition default_watch :: session_watch_state where
  "default_watch = \<lparr>wt_last_connection_state = ViewDisconnected, wt_reconnect_attempt = 0, wt_next_reconnect_at_ms = 0,
     wt_last_connected_at_ms = None\<rparr>"

record remote_registry_config =
  rgc_ssh_executable :: string
  rgc_scp_executable :: string
  rgc_relay_binary_path :: string
  rgc_relay_binaries_dir :: string
  rgc_remote_runtime_dir :: string

definition new_registry_config :: "string \<Rightarrow> string \<Rightarrow> string \<Rightarrow> remote_registry_config" where
  "new_registry_config ssh scp relay =
     \<lparr>rgc_ssh_executable = ssh, rgc_scp_executable = scp, rgc_relay_binary_path = relay, rgc_relay_binaries_dir = [],
      rgc_remote_runtime_dir = DEFAULT_REMOTE_RUNTIME_DIRECTORY\<rparr>"

record remote_registry =
  rg_sessions :: "relay_connection relay_session list"
  rg_world :: spawn_world
  rg_hosts :: "remote_host_config hash_map"
  rg_config :: remote_registry_config
  rg_repository :: "sqlite_db option"
  rg_watch :: "session_watch_state hash_map"
  rg_ssh_present :: "bool option"
  rg_scp_present :: "bool option"

text \<open>
  What the registry asks of its surroundings: the JSON text of a host, the messages of other crates' errors,
  whether a file exists, whether a command answers \<open>-V\<close>, the order of its hash maps and the clock.
\<close>

record registry_env =
  ge_codec :: remote_codec
  ge_host_to_json :: "remote_host_config \<Rightarrow> string option"
  ge_host_from_json :: "string \<Rightarrow> remote_host_config option"
  ge_json_error :: string
  ge_core_error_text :: "core_error \<Rightarrow> string"
  ge_exec_error_text :: "deploy_exec_error \<Rightarrow> string"
  ge_debug_target :: "remote_target \<Rightarrow> string"
  ge_probe :: "string \<Rightarrow> bool"
  ge_files :: local_files
  ge_sha :: "string \<Rightarrow> string"
  ge_order :: "string list \<Rightarrow> string list"
  ge_now_ms :: int

type_synonym 'a registry_op = "(remote_registry, string, 'a) op"

section \<open>Hosts\<close>

text \<open>A stored row is a host when its text is that of a valid configuration with the same id.\<close>

definition stored_host :: "registry_env \<Rightarrow> string \<Rightarrow> string \<Rightarrow> remote_host_config option" where
  "stored_host env host_id config_json =
     (case ge_host_from_json env config_json of
        None \<Rightarrow> None
      | Some config \<Rightarrow> if hc_id config = host_id \<and> validate_host config = Ok () then Some config else None)"

definition load_rows :: "registry_env \<Rightarrow> (string \<times> string) list \<Rightarrow> remote_host_config hash_map \<Rightarrow> remote_host_config hash_map" where
  "load_rows env rows hosts =
     fold (\<lambda>(host_id, config_json) hosts. case stored_host env host_id config_json of
         None \<Rightarrow> hosts | Some config \<Rightarrow> AList.update host_id config hosts) rows hosts"

definition load_persisted_hosts :: "registry_env \<Rightarrow> remote_registry \<Rightarrow> remote_registry" where
  "load_persisted_hosts env g =
     (case rg_repository g of
        None \<Rightarrow> g
      | Some db \<Rightarrow>
          (case load_remote_hosts db of
             (Ok rows, db') \<Rightarrow> g\<lparr>rg_repository := Some db', rg_hosts := load_rows env rows (rg_hosts g)\<rparr>
           | (_, db') \<Rightarrow> g\<lparr>rg_repository := Some db'\<rparr>))"

definition refresh_executable_probes :: "registry_env \<Rightarrow> remote_registry \<Rightarrow> remote_registry" where
  "refresh_executable_probes env g =
     g\<lparr>rg_ssh_present := Some (ge_probe env (rgc_ssh_executable (rg_config g))),
       rg_scp_present := Some (ge_probe env (rgc_scp_executable (rg_config g)))\<rparr>"

definition with_config_and_repository ::
  "registry_env \<Rightarrow> spawn_world \<Rightarrow> remote_registry_config \<Rightarrow> sqlite_db option \<Rightarrow> remote_registry" where
  "with_config_and_repository env w config repository =
     load_persisted_hosts env (refresh_executable_probes env
       \<lparr>rg_sessions = [], rg_world = w, rg_hosts = [], rg_config = config, rg_repository = repository, rg_watch = [],
        rg_ssh_present = None, rg_scp_present = None\<rparr>)"

text \<open>A statement of the repository, with the message of its error.\<close>

definition on_repository :: "registry_env \<Rightarrow> 'a db_op \<Rightarrow> unit registry_op" where
  "on_repository env m g =
     (case rg_repository g of
        None \<Rightarrow> (Ok (), g)
      | Some db \<Rightarrow>
          (case m db of
             (Ok x, db') \<Rightarrow> (Ok (), g\<lparr>rg_repository := Some db'\<rparr>)
           | (Err e, db') \<Rightarrow> (Err (ge_core_error_text env e), g\<lparr>rg_repository := Some db'\<rparr>)
           | (Panic p, db') \<Rightarrow> (Panic p, g\<lparr>rg_repository := Some db'\<rparr>)))"

definition persist_host :: "registry_env \<Rightarrow> remote_host_config \<Rightarrow> unit registry_op" where
  "persist_host env config g =
     (if rg_repository g = None then (Ok (), g)
      else case ge_host_to_json env config of
          None \<Rightarrow> (Err (''host serialization failed: '' @ ge_json_error env), g)
        | Some config_json \<Rightarrow> on_repository env (upsert_remote_host (hc_id config) config_json (ge_now_ms env)) g)"

definition delete_persisted_host :: "registry_env \<Rightarrow> string \<Rightarrow> unit registry_op" where
  "delete_persisted_host env host_id = on_repository env (remove_remote_host host_id)"

definition upsert_host :: "registry_env \<Rightarrow> remote_host_config \<Rightarrow> unit registry_op" where
  "upsert_host env config =
     (case validate_host config of
        Err e \<Rightarrow> throw (config_error_text e)
      | Panic m \<Rightarrow> panic m
      | Ok u \<Rightarrow> seq (persist_host env config)
          (modify (\<lambda>g. g\<lparr>rg_hosts := AList.update (hc_id config) config (rg_hosts g)\<rparr>)))"

definition not_configured :: "string \<Rightarrow> string" where
  "not_configured host_id = ''remote host `'' @ host_id @ ''` is not configured''"

definition registry_transport :: "remote_registry_config \<Rightarrow> (transport_error, open_ssh_transport) outcome" where
  "registry_transport config =
     (case with_remote_relay_path (rgc_ssh_executable config) (DEFAULT_REMOTE_BIN_DIRECTORY @ ''/llm-notch-relay'') of
        Ok transport \<Rightarrow> with_event_spool_dir (rgc_remote_runtime_dir config) transport
      | Err e \<Rightarrow> Err e
      | Panic m \<Rightarrow> Panic m)"

text \<open>The methods of the transport every session of the registry is given; it depends on the configuration only.\<close>

definition registry_ops :: "registry_env \<Rightarrow> remote_registry_config \<Rightarrow> (relay_connection, spawn_world) transport_ops" where
  "registry_ops env config =
     ssh_ops (ge_codec env)
       (case registry_transport config of Ok transport \<Rightarrow> transport | _ \<Rightarrow> new_ssh_transport (rgc_ssh_executable config))"

definition on_manager :: "(relay_connection relay_session list \<times> spawn_world, relay_session_error, 'a) op \<Rightarrow> 'a registry_op" where
  "on_manager m g =
     (case m (rg_sessions g, rg_world g) of
        (r, (sessions, w)) \<Rightarrow>
          (case r of Ok x \<Rightarrow> Ok x | Err e \<Rightarrow> Err (relay_session_error_text e) | Panic p \<Rightarrow> Panic p,
           g\<lparr>rg_sessions := sessions, rg_world := w\<rparr>))"

definition drop_session :: "registry_env \<Rightarrow> string \<Rightarrow> unit registry_op" where
  "drop_session env host_id g =
     (if relay_manager_get host_id (rg_sessions g) = None then (Ok (), g)
      else on_manager (relay_manager_remove (registry_ops env (rg_config g)) host_id) g)"

definition remove_host :: "registry_env \<Rightarrow> string \<Rightarrow> unit registry_op" where
  "remove_host env host_id =
     bind (gets (\<lambda>g. map_of (rg_hosts g) host_id)) (\<lambda>found.
       if found = None then throw (not_configured host_id)
       else seq (drop_session env host_id)
         (seq (modify (\<lambda>g. g\<lparr>rg_watch := AList.delete host_id (rg_watch g)\<rparr>))
           (seq (delete_persisted_host env host_id)
             (modify (\<lambda>g. g\<lparr>rg_hosts := AList.delete host_id (rg_hosts g)\<rparr>)))))"

section \<open>Views\<close>

record remote_host_config_view =
  hv_id :: string
  hv_destination :: string
  hv_port :: "nat option"
  hv_identity_file :: "string option"
  hv_host_key_policy :: ssh_host_key_policy
  hv_connect_timeout_seconds :: nat

record remote_host_view =
  rv_config :: remote_host_config_view
  rv_availability :: remote_availability
  rv_connection_state :: remote_connection_state
  rv_message :: "string option"
  rv_last_connected_at_ms :: "int option"

record remote_backend_status =
  bs_availability :: remote_availability
  bs_message :: "string option"
  bs_ssh_executable_present :: bool
  bs_relay_binary_present :: bool

record remote_connection_status_view =
  cv_host_id :: string
  cv_availability :: remote_availability
  cv_connection_state :: remote_connection_state
  cv_message :: "string option"

definition host_config_view :: "remote_host_config \<Rightarrow> remote_host_config_view" where
  "host_config_view config =
     \<lparr>hv_id = hc_id config, hv_destination = hc_destination config, hv_port = hc_port config,
      hv_identity_file = hc_identity_file config, hv_host_key_policy = hc_host_key_policy config,
      hv_connect_timeout_seconds = hc_connect_timeout_seconds config\<rparr>"

definition host_view ::
  "remote_host_config \<Rightarrow> remote_availability \<Rightarrow> relay_session_snapshot option \<Rightarrow> int option \<Rightarrow> remote_host_view" where
  "host_view config availability snapshot last_connected_at_ms =
     \<lparr>rv_config = host_config_view config, rv_availability = availability,
      rv_connection_state = (case snapshot of None \<Rightarrow> ViewDisconnected | Some s \<Rightarrow> connection_state_view (snap_state s)),
      rv_message = Option.bind snapshot snap_last_error, rv_last_connected_at_ms = last_connected_at_ms\<rparr>"

definition backend_unavailable_message :: "bool \<Rightarrow> bool \<Rightarrow> string" where
  "backend_unavailable_message ssh_present relay_present =
     (if ssh_present then
        (if relay_present then ''SSH relay backend is unavailable.''
         else ''The llm-notch-relay binary is missing from this build. Build or bundle the relay sidecar before deploying.'')
      else
        (if relay_present then ''OpenSSH is unavailable; install OpenSSH before starting remote relays.''
         else ''OpenSSH and the llm-notch-relay binary are unavailable in this environment.''))"

definition present_or_probe :: "registry_env \<Rightarrow> bool option \<Rightarrow> string \<Rightarrow> bool" where
  "present_or_probe env cached executable = (case cached of Some b \<Rightarrow> b | None \<Rightarrow> ge_probe env executable)"

definition backend_status :: "registry_env \<Rightarrow> remote_registry \<Rightarrow> remote_backend_status" where
  "backend_status env g =
     (let ssh_present = present_or_probe env (rg_ssh_present g) (rgc_ssh_executable (rg_config g));
          relay_present = (ge_files env (rgc_relay_binary_path (rg_config g)) \<noteq> None)
      in \<lparr>bs_availability = (if ssh_present \<and> relay_present then RemoteAvailable else RemoteUnavailable),
          bs_message = (if ssh_present \<and> relay_present then None
            else Some (backend_unavailable_message ssh_present relay_present)),
          bs_ssh_executable_present = ssh_present, bs_relay_binary_present = relay_present\<rparr>)"

definition when_available :: "registry_env \<Rightarrow> 'a registry_op \<Rightarrow> 'a registry_op" where
  "when_available env m g =
     (let backend = backend_status env g
      in if bs_availability backend = RemoteUnavailable
         then (Err (unwrap_or ''SSH relay backend is unavailable'' (bs_message backend)), g)
         else m g)"

record remote_host_config_input =
  hi_id :: string
  hi_destination :: string
  hi_port :: "nat option"
  hi_identity_file :: "string option"
  hi_host_key_policy :: ssh_host_key_policy
  hi_connect_timeout_seconds :: nat

definition host_config_from_input :: "remote_host_config_input \<Rightarrow> (string, remote_host_config) outcome" where
  "host_config_from_input input =
     (let config = \<lparr>hc_id = hi_id input, hc_destination = hi_destination input, hc_port = hi_port input,
            hc_identity_file = (case hi_identity_file input of
                None \<Rightarrow> None | Some path \<Rightarrow> if trim path = [] then None else Some path),
            hc_known_hosts_file = None, hc_host_key_policy = hi_host_key_policy input,
            hc_connect_timeout_seconds = hi_connect_timeout_seconds input\<rparr>
      in case validate_host config of
           Err e \<Rightarrow> Err (config_error_text e) | Panic m \<Rightarrow> Panic m | Ok u \<Rightarrow> Ok config)"

definition upsert_host_input :: "registry_env \<Rightarrow> remote_host_config_input \<Rightarrow> remote_host_view registry_op" where
  "upsert_host_input env input =
     bind (lift (host_config_from_input input)) (\<lambda>config.
       seq (upsert_host env config)
         (gets (\<lambda>g. host_view config (bs_availability (backend_status env g)) None None)))"

definition list_hosts :: "registry_env \<Rightarrow> remote_registry \<Rightarrow> remote_host_view list \<times> remote_registry" where
  "list_hosts env g =
     (let backend = backend_status env g
      in if rg_hosts g = [] then ([], g)
         else case relay_manager_snapshots (registry_ops env (rg_config g)) (rg_sessions g) of
             (snapshots, sessions) \<Rightarrow>
               (map (\<lambda>config. host_view config (bs_availability backend)
                   (List.find (\<lambda>s. snap_host_id s = hc_id config) snapshots)
                   (Option.bind (map_of (rg_watch g) (hc_id config)) wt_last_connected_at_ms))
                 (hm_values (ge_order env) (rg_hosts g)), g\<lparr>rg_sessions := sessions\<rparr>))"

definition connection_status :: "registry_env \<Rightarrow> string \<Rightarrow> remote_registry \<Rightarrow> remote_connection_status_view \<times> remote_registry" where
  "connection_status env host_id g =
     (let backend = backend_status env g
      in case map_of (rg_hosts g) host_id of
           None \<Rightarrow> (\<lparr>cv_host_id = host_id, cv_availability = RemoteUnavailable, cv_connection_state = ViewDisconnected,
                     cv_message = Some (not_configured host_id)\<rparr>, g)
         | Some host \<Rightarrow>
             (let ops = registry_ops env (rg_config g);
                  snapshot = map_option (fst \<circ> take_session_snapshot ops) (relay_manager_get host_id (rg_sessions g));
                  view = host_view host (bs_availability backend) snapshot None
              in (\<lparr>cv_host_id = hv_id (rv_config view), cv_availability = rv_availability view,
                   cv_connection_state = rv_connection_state view, cv_message = rv_message view\<rparr>,
                  g\<lparr>rg_sessions := relay_manager_update host_id (snd \<circ> take_session_snapshot ops) (rg_sessions g)\<rparr>)))"

section \<open>Deployment\<close>

definition remote_hook_spool_guidance :: "string \<Rightarrow> string" where
  "remote_hook_spool_guidance event_spool_dir =
     ''Configure remote agent hooks to spool events into '' @ event_spool_dir @
     '' (same directory relay start passes to --event-spool). Prefix hook commands with LLM_NOTCH_EVENT_SPOOL=1 or pass --spool-dir '' @
     event_spool_dir @ '' on llm-notch-hook. See integrations/remote/ for reviewed examples. Local desktop hooks keep default IPC when LLM_NOTCH_EVENT_SPOOL is unset.''"

record remote_deployment_plan_view =
  pv_host_id :: string
  pv_steps :: "deployment_step list"
  pv_availability :: remote_availability
  pv_message :: "string option"

record remote_deployment_result_view =
  dv_host_id :: string
  dv_availability :: remote_availability
  dv_completed_steps :: "deployment_step list"
  dv_probed_target :: "remote_target option"
  dv_message :: "string option"

fun deploy_transport_error_text :: "deploy_transport_error \<Rightarrow> string" where
  "deploy_transport_error_text DSshUnavailable = ''SSH executable is unavailable''"
| "deploy_transport_error_text DScpUnavailable = ''SCP executable is unavailable''"
| "deploy_transport_error_text DHostVerificationFailed = ''SSH host verification failed''"
| "deploy_transport_error_text DAuthenticationFailed = ''SSH authentication failed''"
| "deploy_transport_error_text (DProcess m) = ''remote deploy command failed: '' @ m"
| "deploy_transport_error_text (DProtocol m) = ''remote deploy protocol failed: '' @ m"

fun map_relay_artifact_error :: "registry_env \<Rightarrow> relay_artifact_error \<Rightarrow> string" where
  "map_relay_artifact_error env (UnsupportedTarget target) =
     ''remote deploy does not support '' @ ge_debug_target env target @ '' targets over SSH''"
| "map_relay_artifact_error env (MissingArtifact target expected_path) =
     ''no relay artifact for '' @ ge_debug_target env target @
     ''; cross-compile with `npm run native:prepare-helper -- --target '' @
     unwrap_or ''unknown'' (rust_triple_for_target target) @ ''` and place the sidecar at '' @ expected_path"
| "map_relay_artifact_error env (ArtifactUnreadable path message) =
     ''relay artifact is unreadable at '' @ path @ '': '' @ message"

definition build_deployment_plan_for_target ::
  "registry_env \<Rightarrow> remote_registry \<Rightarrow> remote_host_config \<Rightarrow> remote_target \<Rightarrow> (string, deployment_plan) outcome" where
  "build_deployment_plan_for_target env g host target =
     (case resolve_relay_artifact (ge_sha env) (ge_files env) (rgc_relay_binaries_dir (rg_config g))
         (rgc_relay_binary_path (rg_config g)) target of
        Err e \<Rightarrow> Err (map_relay_artifact_error env e)
      | Panic m \<Rightarrow> Panic m
      | Ok artifact \<Rightarrow>
          (case new_with_runtime_dir host artifact DEFAULT_REMOTE_BIN_DIRECTORY (rgc_remote_runtime_dir (rg_config g)) of
             Err e \<Rightarrow> Err (deployment_error_text e) | Panic m \<Rightarrow> Panic m | Ok plan \<Rightarrow> Ok plan))"

text \<open>The commands of a deployment run on the remote world \<open>world\<close> of the configured executables.\<close>

definition registry_deploy_env :: "registry_env \<Rightarrow> deploy_world \<Rightarrow> (string \<Rightarrow> string) \<Rightarrow> remote_registry \<Rightarrow> deploy_env" where
  "registry_deploy_env env world lossy g =
     \<lparr>de_ssh_executable = rgc_ssh_executable (rg_config g), de_scp_executable = rgc_scp_executable (rg_config g),
      de_world = world, de_is_file = (\<lambda>path. ge_files env path \<noteq> None), de_lossy = lossy\<rparr>"

definition build_deployment_plan ::
  "registry_env \<Rightarrow> deploy_env \<Rightarrow> remote_registry \<Rightarrow> remote_host_config \<Rightarrow> (command list, string, deployment_plan) op" where
  "build_deployment_plan env denv g host past =
     (case probe_target denv host past of
        (Ok target, past') \<Rightarrow> (build_deployment_plan_for_target env g host target, past')
      | (Err e, past') \<Rightarrow> (Err (''remote target probe failed: '' @ deploy_transport_error_text e), past')
      | (Panic m, past') \<Rightarrow> (Panic m, past'))"

definition preview_deploy ::
  "registry_env \<Rightarrow> deploy_env \<Rightarrow> remote_registry \<Rightarrow> string \<Rightarrow> (command list, string, remote_deployment_plan_view) op" where
  "preview_deploy env denv g host_id =
     (let backend = backend_status env g
      in if bs_availability backend = RemoteUnavailable
         then throw (unwrap_or ''SSH relay backend is unavailable'' (bs_message backend))
         else case map_of (rg_hosts g) host_id of
             None \<Rightarrow> throw (not_configured host_id)
           | Some host \<Rightarrow> bind (build_deployment_plan env denv g host) (\<lambda>plan.
               ret \<lparr>pv_host_id = dp_host_id plan, pv_steps = dp_steps plan, pv_availability = RemoteAvailable,
                    pv_message = Some (''Review the steps below, then execute deploy to upload and activate the relay binary. '' @
                      remote_hook_spool_guidance (rgc_remote_runtime_dir (rg_config g)))\<rparr>))"

definition execute_deploy_with_transport ::
  "registry_env \<Rightarrow> deploy_env \<Rightarrow> remote_registry \<Rightarrow> remote_host_config \<Rightarrow> deployment_plan \<Rightarrow>
   (command list, string, remote_deployment_result_view) op" where
  "execute_deploy_with_transport env denv g host plan past =
     (case execute_plan denv host plan past of
        (Ok result, past') \<Rightarrow>
          (Ok \<lparr>dv_host_id = dp_host_id plan, dv_availability = RemoteAvailable,
               dv_completed_steps = do_completed result, dv_probed_target = do_probed_target result,
               dv_message = Some (''Relay artifact uploaded, verified, and activated. Use Start relay to connect. '' @
                 remote_hook_spool_guidance (rgc_remote_runtime_dir (rg_config g)))\<rparr>, past')
      | (Err e, past') \<Rightarrow> (Err (ge_exec_error_text env e), past')
      | (Panic m, past') \<Rightarrow> (Panic m, past'))"

definition execute_deploy ::
  "registry_env \<Rightarrow> deploy_env \<Rightarrow> remote_registry \<Rightarrow> string \<Rightarrow> (command list, string, remote_deployment_result_view) op" where
  "execute_deploy env denv g host_id =
     (let backend = backend_status env g
      in if bs_availability backend = RemoteUnavailable
         then throw (unwrap_or ''SSH relay backend is unavailable'' (bs_message backend))
         else if \<not> present_or_probe env (rg_scp_present g) (rgc_scp_executable (rg_config g))
         then throw ''SCP is unavailable; install OpenSSH scp before executing remote deployment.''
         else case map_of (rg_hosts g) host_id of
             None \<Rightarrow> throw (not_configured host_id)
           | Some host \<Rightarrow> bind (build_deployment_plan env denv g host) (execute_deploy_with_transport env denv g host))"

section \<open>Starting and stopping\<close>

definition reset_session_watch :: "string \<Rightarrow> remote_registry \<Rightarrow> remote_registry" where
  "reset_session_watch host_id g =
     (let watch = unwrap_or default_watch (map_of (rg_watch g) host_id)
      in g\<lparr>rg_watch := AList.update host_id (watch\<lparr>wt_reconnect_attempt := 0, wt_next_reconnect_at_ms := 0\<rparr>) (rg_watch g)\<rparr>)"

definition register_relay_session :: "registry_env \<Rightarrow> remote_host_config \<Rightarrow> unit registry_op" where
  "register_relay_session env host g =
     (if relay_manager_get (hc_id host) (rg_sessions g) \<noteq> None then (Ok (), g)
      else case registry_transport (rg_config g) of
          Err e \<Rightarrow> (Err (transport_error_text e), g)
        | Panic m \<Rightarrow> (Panic m, g)
        | Ok transport \<Rightarrow> on_manager (\<lambda>(sessions, w).
            case relay_manager_register (new_relay_session host) sessions of (r, sessions') \<Rightarrow> (r, (sessions', w))) g)"

definition on_session :: "string \<Rightarrow> (relay_connection, spawn_world, 'a) session_op \<Rightarrow> 'a registry_op" where
  "on_session host_id m g =
     (case relay_manager_get host_id (rg_sessions g) of
        None \<Rightarrow> (Err (''relay session for `'' @ host_id @ ''` is missing''), g)
      | Some s \<Rightarrow>
          (case m (s, rg_world g) of
             (r, (s', w)) \<Rightarrow>
               (case r of Ok x \<Rightarrow> Ok x | Err e \<Rightarrow> Err (relay_session_error_text e) | Panic p \<Rightarrow> Panic p,
                g\<lparr>rg_sessions := relay_manager_update host_id (\<lambda>_. s') (rg_sessions g), rg_world := w\<rparr>)))"

definition start_relay :: "registry_env \<Rightarrow> string \<Rightarrow> remote_connection_status_view registry_op" where
  "start_relay env host_id = when_available env
     (bind (gets (\<lambda>g. map_of (rg_hosts g) host_id)) (\<lambda>found.
        case found of
          None \<Rightarrow> throw (not_configured host_id)
        | Some host \<Rightarrow>
            seq (register_relay_session env host)
              (bind (gets rg_config) (\<lambda>config.
                seq (on_session host_id (relay_session_start (registry_ops env config)))
                  (seq (modify (reset_session_watch host_id))
                    (\<lambda>g. case connection_status env host_id g of (view, g') \<Rightarrow> (Ok view, g')))))))"

definition stop_relay :: "registry_env \<Rightarrow> string \<Rightarrow> remote_connection_status_view registry_op" where
  "stop_relay env host_id = when_available env
     (bind (gets (\<lambda>g. map_of (rg_hosts g) host_id)) (\<lambda>found.
        if found = None then throw (not_configured host_id)
        else seq (drop_session env host_id)
          (seq (modify (\<lambda>g. g\<lparr>rg_watch := AList.delete host_id (rg_watch g)\<rparr>))
            (\<lambda>g. case connection_status env host_id g of (view, g') \<Rightarrow> (Ok view, g')))))"

section \<open>Polling\<close>

fun extract_relay_session_event :: "string \<Rightarrow> relay_frame \<Rightarrow> relay_session_event option" where
  "extract_relay_session_event host_id \<lparr>rf_sequence = n, rf_payload = RelayEvent e\<rparr> =
     Some \<lparr>rse_host_id = host_id, rse_source = rev_source e, rse_external_session_id = rev_session_id e,
           rse_kind = rev_kind e, rse_summary = rev_summary e, rse_attention = rev_attention e,
           rse_tool_name = rev_tool_name e, rse_occurred_at_ms = rev_occurred_at_ms e\<rparr>"
| "extract_relay_session_event host_id frame = None"

definition handle_relay_frame ::
  "('c, 'w) transport_ops \<Rightarrow> string \<Rightarrow> relay_frame \<Rightarrow> ('c, 'w, relay_session_event option) session_op" where
  "handle_relay_frame t host_id frame =
     seq (relay_session_acknowledge t \<lparr>last_sequence = rf_sequence frame\<rparr>)
       (ret (extract_relay_session_event host_id frame))"

definition schedule_reconnect :: "int \<Rightarrow> session_watch_state \<Rightarrow> session_watch_state" where
  "schedule_reconnect now_ms watch =
     (let delay = unwrap_or (max_delay_ms default_reconnect_policy)
            (delay_ms default_reconnect_policy (wt_reconnect_attempt watch) 0)
      in watch\<lparr>wt_reconnect_attempt := next_attempt (wt_reconnect_attempt watch),
               wt_next_reconnect_at_ms := wrap_i64 (now_ms + int delay)\<rparr>)"

definition wrap_i16 :: "int \<Rightarrow> int" where
  "wrap_i16 x = (x + 2 ^ 15) mod 2 ^ 16 - 2 ^ 15"

definition reconnect_jitter_basis_points :: "string \<Rightarrow> int" where
  "reconnect_jitter_basis_points host_id =
     (let total_bytes = foldl (\<lambda>acc byte. wrap_i16 (acc + int (of_char byte))) 0 host_id
      in if 0 \<le> total_bytes then total_bytes mod 2501 else - ((- total_bytes) mod 2501))"

text \<open>What one poll does to one session and its watch, and what it reports.\<close>

record poll_entry =
  pe_session :: "relay_connection relay_session"
  pe_world :: spawn_world
  pe_watch :: session_watch_state
  pe_events :: "relay_session_event list"
  pe_updates :: "remote_connection_status_view list"

definition connected_watch :: "int \<Rightarrow> session_watch_state \<Rightarrow> session_watch_state" where
  "connected_watch now_ms watch =
     watch\<lparr>wt_reconnect_attempt := 0, wt_next_reconnect_at_ms := 0, wt_last_connected_at_ms := Some now_ms\<rparr>"

definition poll_receive ::
  "(relay_connection, spawn_world) transport_ops \<Rightarrow> int \<Rightarrow> string \<Rightarrow> poll_entry \<Rightarrow> poll_entry" where
  "poll_receive t now_ms host_id e =
     (case relay_session_receive t (pe_session e, pe_world e) of
        (Ok (Some frame), (s, w)) \<Rightarrow>
          (case handle_relay_frame t host_id frame (s, w) of
             (Ok (Some event), (s', w')) \<Rightarrow> e\<lparr>pe_session := s', pe_world := w', pe_events := pe_events e @ [event]\<rparr>
           | (_, (s', w')) \<Rightarrow> e\<lparr>pe_session := s', pe_world := w'\<rparr>)
      | (Ok None, (s, w)) \<Rightarrow> e\<lparr>pe_session := s, pe_world := w, pe_watch := schedule_reconnect now_ms (pe_watch e)\<rparr>
      | (_, (s, w)) \<Rightarrow> e\<lparr>pe_session := s, pe_world := w\<rparr>)"

definition poll_reconnect ::
  "(relay_connection, spawn_world) transport_ops \<Rightarrow> int \<Rightarrow> string \<Rightarrow> poll_entry \<Rightarrow> poll_entry" where
  "poll_reconnect t now_ms host_id e =
     (if now_ms < wt_next_reconnect_at_ms (pe_watch e) then e
      else case relay_session_tick_reconnect t (reconnect_jitter_basis_points host_id) (pe_session e, pe_world e) of
          (Ok True, (s, w)) \<Rightarrow> e\<lparr>pe_session := s, pe_world := w, pe_watch := connected_watch now_ms (pe_watch e)\<rparr>
        | (Err (SessionTransport err), (s, w)) \<Rightarrow>
            e\<lparr>pe_session := s, pe_world := w, pe_watch := schedule_reconnect now_ms (pe_watch e)\<rparr>
        | (Err (AlreadyActive h), (s, w)) \<Rightarrow>
            e\<lparr>pe_session := s, pe_world := w, pe_watch := schedule_reconnect now_ms (pe_watch e)\<rparr>
        | (_, (s, w)) \<Rightarrow> e\<lparr>pe_session := s, pe_world := w\<rparr>)"

definition poll_report ::
  "(relay_connection, spawn_world) transport_ops \<Rightarrow> int \<Rightarrow> string \<Rightarrow> poll_entry \<Rightarrow> poll_entry" where
  "poll_report t now_ms host_id e =
     (case take_session_snapshot t (pe_session e) of
        (snapshot, s) \<Rightarrow>
          let current = connection_state_view (snap_state snapshot); watch = pe_watch e;
              previous = wt_last_connection_state watch
          in if current = previous then e\<lparr>pe_session := s\<rparr>
             else
               let watch1 = (if current = ViewStreaming then connected_watch now_ms watch
                     else if previous = ViewStreaming \<and> current \<in> {ViewDisconnected, ViewFailed}
                     then schedule_reconnect now_ms watch else watch)
               in e\<lparr>pe_session := s, pe_watch := watch1\<lparr>wt_last_connection_state := current\<rparr>,
                    pe_updates := pe_updates e @ [\<lparr>cv_host_id = host_id, cv_availability = RemoteAvailable,
                      cv_connection_state = current, cv_message = snap_last_error snapshot\<rparr>]\<rparr>)"

definition poll_session ::
  "(relay_connection, spawn_world) transport_ops \<Rightarrow> int \<Rightarrow> string \<Rightarrow> poll_entry \<Rightarrow> poll_entry" where
  "poll_session t now_ms host_id e =
     (case take_session_snapshot t (pe_session e) of
        (snapshot, s) \<Rightarrow>
          let e1 = e\<lparr>pe_session := s\<rparr>
          in poll_report t now_ms host_id
               (case snap_state snapshot of
                  Streaming \<Rightarrow> poll_receive t now_ms host_id e1
                | Disconnected \<Rightarrow> poll_reconnect t now_ms host_id e1
                | _ \<Rightarrow> e1))"

record remote_poll_result =
  pl_connection_updates :: "remote_connection_status_view list"
  pl_session_events :: "relay_session_event list"

definition poll_host ::
  "registry_env \<Rightarrow> int \<Rightarrow> string \<Rightarrow> remote_poll_result \<times> remote_registry \<Rightarrow> remote_poll_result \<times> remote_registry" where
  "poll_host env now_ms host_id = (\<lambda>(result, g).
     case relay_manager_get host_id (rg_sessions g) of
       None \<Rightarrow> (result, g)
     | Some s \<Rightarrow>
         let e = poll_session (registry_ops env (rg_config g)) now_ms host_id
               \<lparr>pe_session = s, pe_world = rg_world g, pe_watch = unwrap_or default_watch (map_of (rg_watch g) host_id),
                pe_events = pl_session_events result, pe_updates = pl_connection_updates result\<rparr>
         in (\<lparr>pl_connection_updates = pe_updates e, pl_session_events = pe_events e\<rparr>,
             g\<lparr>rg_sessions := relay_manager_update host_id (\<lambda>_. pe_session e) (rg_sessions g), rg_world := pe_world e,
               rg_watch := AList.update host_id (pe_watch e) (rg_watch g)\<rparr>))"

definition poll_active_sessions :: "registry_env \<Rightarrow> int \<Rightarrow> remote_registry \<Rightarrow> remote_poll_result \<times> remote_registry" where
  "poll_active_sessions env now_ms g =
     (let nothing_new = \<lparr>pl_connection_updates = [], pl_session_events = []\<rparr>
      in if bs_availability (backend_status env g) = RemoteUnavailable then (nothing_new, g)
         else case relay_manager_snapshots (registry_ops env (rg_config g)) (rg_sessions g) of
             (snapshots, sessions) \<Rightarrow>
               fold (poll_host env now_ms) (map snap_host_id snapshots) (nothing_new, g\<lparr>rg_sessions := sessions\<rparr>))"

text \<open>One tick of the supervisor: a failed ingest is logged and the next event goes on.\<close>

definition supervisor_tick ::
  "registry_env \<Rightarrow> 'r host_env \<Rightarrow> int \<Rightarrow> remote_registry \<times> 'r host \<Rightarrow>
   remote_connection_status_view list \<times> remote_registry \<times> 'r host" where
  "supervisor_tick env henv now_ms = (\<lambda>(g, h).
     case poll_active_sessions env now_ms g of
       (result, g') \<Rightarrow>
         (pl_connection_updates result, g',
          fold (\<lambda>event h. attempt (ingest_relay_session_event henv event) h) (pl_session_events result) h))"

section \<open>Hosts survive a restart\<close>

text \<open>The hosts a database stands for.\<close>

definition stored_hosts :: "registry_env \<Rightarrow> sqlite_db \<Rightarrow> string \<Rightarrow> remote_host_config option" where
  "stored_hosts env db host_id =
     (case map_of (db_remote_hosts db) host_id of
        None \<Rightarrow> None
      | Some (config_json, updated_at_ms) \<Rightarrow> stored_host env host_id config_json)"

definition host_json_faithful :: "registry_env \<Rightarrow> bool" where
  "host_json_faithful env \<longleftrightarrow>
     (\<forall>config json. ge_host_to_json env config = Some json \<longrightarrow> ge_host_from_json env json = Some config)"

definition hosts_stored :: "registry_env \<Rightarrow> remote_registry \<Rightarrow> bool" where
  "hosts_stored env g \<longleftrightarrow>
     (case rg_repository g of
        None \<Rightarrow> True
      | Some db \<Rightarrow> distinct (map fst (db_remote_hosts db)) \<and> map_of (rg_hosts g) = stored_hosts env db)"

lemma load_rows_lookup:
  "distinct (map fst rows) \<Longrightarrow>
   map_of (load_rows env rows hosts) host_id =
     (case Option.bind (map_of rows host_id) (stored_host env host_id) of
        None \<Rightarrow> map_of hosts host_id | Some config \<Rightarrow> Some config)"
proof (induction rows arbitrary: hosts)
  case (Cons row rows)
  obtain k json where row: "row = (k, json)" by force
  have rest: "map_of (load_rows env (row # rows) hosts) host_id =
      map_of (load_rows env rows (case stored_host env k json of None \<Rightarrow> hosts | Some c \<Rightarrow> AList.update k c hosts)) host_id"
    by (simp add: load_rows_def row)
  have none: "map_of rows k = None" using Cons.prems by (simp add: row map_of_eq_None_iff)
  show ?case
    unfolding rest using Cons.prems none
    by (subst Cons.IH) (auto simp: row split: option.splits)
qed (simp add: load_rows_def)

lemma map_of_sort_key:
  assumes "distinct (map fst xs)"
  shows "map_of (sort_key f xs) = map_of xs"
  by (rule map_of_eqI) (use assms in \<open>auto simp: map_of_eq_Some_iff distinct_map\<close>)

lemma map_of_columns: "map_of (map (\<lambda>(k, config, t). (k, config)) xs) k = map_option fst (map_of xs k)"
  by (induction xs) auto

lemma loaded_rows:
  assumes "load_remote_hosts db = (Ok rows, db')" "distinct (map fst (db_remote_hosts db))"
  shows "distinct (map fst rows)" "Option.bind (map_of rows host_id) (stored_host env host_id) = stored_hosts env db host_id"
    "db_remote_hosts db' = db_remote_hosts db"
proof -
  let ?sorted = "sort_key fst (db_remote_hosts db)"
  have rows: "rows = map (\<lambda>(k, config, _). (k, config)) ?sorted" and db': "db_remote_hosts db' = db_remote_hosts db"
    using assms(1) by (auto simp: load_remote_hosts_def query_def statement_def Let_def split: if_splits)
  show "db_remote_hosts db' = db_remote_hosts db" by (rule db')
  have fst: "map fst rows = map fst ?sorted" by (simp add: rows case_prod_beta comp_def)
  have "distinct (map fst ?sorted)"
    using assms(2) by (simp add: distinct_map inj_on_def)
  then show "distinct (map fst rows)" by (simp add: fst)
  have "map_of rows host_id = map_option fst (map_of ?sorted host_id)"
    unfolding rows by (rule map_of_columns)
  then show "Option.bind (map_of rows host_id) (stored_host env host_id) = stored_hosts env db host_id"
    by (simp add: map_of_sort_key [OF assms(2)] stored_hosts_def split: option.splits)
qed

lemma fresh_registry:
  assumes "load_remote_hosts db = (Ok rows, db')" "distinct (map fst (db_remote_hosts db))"
  shows "hosts_stored env (with_config_and_repository env w config (Some db))"
    and "map_of (rg_hosts (with_config_and_repository env w config (Some db))) = stored_hosts env db"
proof -
  note rows = loaded_rows [OF assms]
  let ?g = "with_config_and_repository env w config (Some db)"
  have g: "rg_repository ?g = Some db'" "rg_hosts ?g = load_rows env rows []"
    by (simp_all add: with_config_and_repository_def refresh_executable_probes_def load_persisted_hosts_def assms(1))
  show hosts: "map_of (rg_hosts ?g) = stored_hosts env db"
    by (rule ext) (simp add: g(2) load_rows_lookup [OF rows(1)] rows(2) split: option.splits)
  have "stored_hosts env db' = stored_hosts env db" by (rule ext) (simp add: stored_hosts_def rows(3))
  with hosts assms(2) rows(3) show "hosts_stored env ?g" by (simp add: hosts_stored_def g(1))
qed

text \<open>What an operation leaves alone.\<close>

definition keeps_hosts :: "'a registry_op \<Rightarrow> bool" where
  "keeps_hosts m \<longleftrightarrow> (\<forall>g. rg_hosts (snd (m g)) = rg_hosts g \<and> rg_repository (snd (m g)) = rg_repository g)"

lemma keeps_hosts_run: "keeps_hosts m \<Longrightarrow> m g = (r, g') \<Longrightarrow> rg_hosts g' = rg_hosts g \<and> rg_repository g' = rg_repository g"
  by (metis keeps_hosts_def snd_conv)

lemma keeps_hosts_bind: "keeps_hosts m \<Longrightarrow> (\<And>x. keeps_hosts (k x)) \<Longrightarrow> keeps_hosts (bind m k)"
  unfolding keeps_hosts_def bind_def by (auto split: prod.splits outcome.splits) (metis snd_conv)+

lemma keeps_hosts_seq: "keeps_hosts m \<Longrightarrow> keeps_hosts k \<Longrightarrow> keeps_hosts (seq m k)"
  by (simp add: seq_def keeps_hosts_bind)

lemma keeps_hosts_basic:
  "keeps_hosts (gets f)" "keeps_hosts (throw e)" "keeps_hosts (on_manager m')" "keeps_hosts (drop_session env host_id)"
  "keeps_hosts (on_session host_id m)" "keeps_hosts (register_relay_session env host)"
  "keeps_hosts (modify (reset_session_watch host_id))" "keeps_hosts (modify (\<lambda>g. g\<lparr>rg_watch := f' g\<rparr>))"
  "keeps_hosts (\<lambda>g. case connection_status env host_id g of (view, g') \<Rightarrow> (Ok view, g'))"
  by (auto simp: keeps_hosts_def gets_def throw_def modify_def on_manager_def drop_session_def on_session_def
      register_relay_session_def reset_session_watch_def connection_status_def Let_def
      split: prod.splits outcome.splits option.splits)

lemma keeps_hosts_option:
  "keeps_hosts m \<Longrightarrow> (\<And>y. keeps_hosts (k y)) \<Longrightarrow> keeps_hosts (case x of None \<Rightarrow> m | Some y \<Rightarrow> k y)"
  by (cases x) auto

lemma keeps_hosts_when: "keeps_hosts m \<Longrightarrow> keeps_hosts (when_available env m)"
  by (simp add: keeps_hosts_def when_available_def Let_def)

lemmas keeps_hosts_intros = keeps_hosts_when keeps_hosts_bind keeps_hosts_seq keeps_hosts_option keeps_hosts_basic

lemma start_keeps_hosts: "keeps_hosts (start_relay env host_id)"
  unfolding start_relay_def by (intro keeps_hosts_intros)

lemma stop_keeps_hosts: "keeps_hosts (stop_relay env host_id)"
  unfolding stop_relay_def by (intro keeps_hosts_intros conjI impI) (simp_all add: keeps_hosts_intros)

lemma poll_keeps_hosts:
  "rg_hosts (snd (poll_active_sessions env now_ms g)) = rg_hosts g \<and> rg_repository (snd (poll_active_sessions env now_ms g)) = rg_repository g"
proof -
  have step: "rg_hosts (snd (poll_host env now_ms host_id x)) = rg_hosts (snd x) \<and>
      rg_repository (snd (poll_host env now_ms host_id x)) = rg_repository (snd x)" for host_id x
    by (auto simp: poll_host_def Let_def split: prod.splits option.splits)
  have "rg_hosts (snd (fold (poll_host env now_ms) ids x)) = rg_hosts (snd x) \<and>
      rg_repository (snd (fold (poll_host env now_ms) ids x)) = rg_repository (snd x)" for ids x
    by (induction ids arbitrary: x) (simp_all add: step)
  then show ?thesis by (simp add: poll_active_sessions_def Let_def split: prod.splits)
qed

lemma upsert_stores:
  assumes "host_json_faithful env" "hosts_stored env g"
  shows "hosts_stored env (snd (upsert_host env config g))"
proof (cases "validate_host config")
  case (Ok u)
  show ?thesis
  proof (cases "rg_repository g")
    case None
    then show ?thesis by (simp add: upsert_host_def Ok persist_host_def seq_def bind_def modify_def hosts_stored_def)
  next
    case (Some db)
    with assms(2) have old: "distinct (map fst (db_remote_hosts db))" "map_of (rg_hosts g) = stored_hosts env db"
      by (simp_all add: hosts_stored_def)
    show ?thesis
    proof (cases "ge_host_to_json env config")
      case None
      with Some assms(2) show ?thesis by (simp add: upsert_host_def Ok persist_host_def seq_def bind_def)
    next
      case json: (Some json)
      then have "ge_host_from_json env json = Some config" using assms(1) by (simp add: host_json_faithful_def)
      then have host: "stored_host env (hc_id config) json = Some config" by (simp add: stored_host_def Ok)
      obtain r db' where run: "upsert_remote_host (hc_id config) json (ge_now_ms env) db = (r, db')" by force
      then have "r = Ok () \<and> db_remote_hosts db' = AList.update (hc_id config) (json, ge_now_ms env) (db_remote_hosts db) \<or>
          (\<exists>e. r = Err e) \<and> db_remote_hosts db' = db_remote_hosts db"
        by (auto simp: upsert_remote_host_def execute_def statement_def Let_def split: if_splits)
      then show ?thesis
      proof
        assume ok: "r = Ok () \<and> db_remote_hosts db' = AList.update (hc_id config) (json, ge_now_ms env) (db_remote_hosts db)"
        then have "stored_hosts env db' = (stored_hosts env db)(hc_id config \<mapsto> config)"
          by (intro ext) (simp add: stored_hosts_def host)
        with ok Some json run old Ok show ?thesis
          by (simp add: upsert_host_def persist_host_def on_repository_def seq_def bind_def modify_def hosts_stored_def)
      next
        assume err: "(\<exists>e. r = Err e) \<and> db_remote_hosts db' = db_remote_hosts db"
        then have "stored_hosts env db' = stored_hosts env db" by (intro ext) (simp add: stored_hosts_def)
        with err Some json run old Ok show ?thesis
          by (auto simp: upsert_host_def persist_host_def on_repository_def seq_def bind_def hosts_stored_def)
      qed
    qed
  qed
qed (use assms(2) in \<open>simp_all add: upsert_host_def throw_def panic_def\<close>)

lemma delete_stores:
  assumes "hosts_stored env g" "delete_persisted_host env host_id g = (r, g')"
  shows "if r = Ok () then hosts_stored env (g'\<lparr>rg_hosts := AList.delete host_id (rg_hosts g')\<rparr>) else hosts_stored env g'"
proof (cases "rg_repository g")
  case None
  with assms show ?thesis by (auto simp: delete_persisted_host_def on_repository_def hosts_stored_def)
next
  case (Some db)
  obtain q db' where run: "remove_remote_host host_id db = (q, db')" by force
  then have "(\<exists>b. q = Ok b) \<and> db_remote_hosts db' = AList.delete host_id (db_remote_hosts db) \<or>
      (\<exists>e. q = Err e) \<and> db_remote_hosts db' = db_remote_hosts db"
    by (auto simp: remove_remote_host_def statement_def Let_def split: if_splits)
  moreover have "db_remote_hosts db' = AList.delete host_id (db_remote_hosts db) \<Longrightarrow>
      stored_hosts env db' = (stored_hosts env db)(host_id := None)"
    by (intro ext) (simp add: stored_hosts_def)
  moreover have "db_remote_hosts db' = db_remote_hosts db \<Longrightarrow> stored_hosts env db' = stored_hosts env db"
    by (intro ext) (simp add: stored_hosts_def)
  ultimately show ?thesis
    using assms Some run
    by (auto simp: delete_persisted_host_def on_repository_def hosts_stored_def distinct_delete split: if_splits)
qed

lemma hosts_stored_keep:
  "rg_hosts g' = rg_hosts g \<Longrightarrow> rg_repository g' = rg_repository g \<Longrightarrow> hosts_stored env g' = hosts_stored env g"
  by (simp add: hosts_stored_def cong: option.case_cong)

lemma remove_stores:
  assumes "hosts_stored env g"
  shows "hosts_stored env (snd (remove_host env host_id g))"
proof (cases "map_of (rg_hosts g) host_id")
  case None
  with assms show ?thesis by (simp add: remove_host_def bind_def gets_def throw_def)
next
  case (Some host)
  obtain r1 g1 where d: "drop_session env host_id g = (r1, g1)" by force
  have "rg_hosts g1 = rg_hosts g \<and> rg_repository g1 = rg_repository g" by (rule keeps_hosts_run [OF keeps_hosts_basic(4) d])
  then have g1: "hosts_stored env g1" using assms hosts_stored_keep [of g1 g env] by blast
  let ?g2 = "g1\<lparr>rg_watch := AList.delete host_id (rg_watch g1)\<rparr>"
  have g2: "hosts_stored env ?g2" using g1 hosts_stored_keep [of ?g2 g1 env] by simp
  obtain r3 g3 where del: "delete_persisted_host env host_id ?g2 = (r3, g3)" by force
  from delete_stores [OF g2 del] Some d g1 show ?thesis
    by (cases r1; cases r3) (simp_all add: remove_host_def bind_def gets_def seq_def modify_def del)
qed


text \<open>The calls the commands of the desktop and its supervisor make, in any order.\<close>

datatype registry_call =
    UpsertHost remote_host_config
  | UpsertHostInput remote_host_config_input
  | RemoveHost string
  | StartRelay string
  | StopRelay string
  | PollSessions int
  | ListHosts
  | ConnectionStatus string

fun call_registry :: "registry_env \<Rightarrow> registry_call \<Rightarrow> remote_registry \<Rightarrow> remote_registry" where
  "call_registry env (UpsertHost config) g = snd (upsert_host env config g)"
| "call_registry env (UpsertHostInput input) g = snd (upsert_host_input env input g)"
| "call_registry env (RemoveHost host_id) g = snd (remove_host env host_id g)"
| "call_registry env (StartRelay host_id) g = snd (start_relay env host_id g)"
| "call_registry env (StopRelay host_id) g = snd (stop_relay env host_id g)"
| "call_registry env (PollSessions now_ms) g = snd (poll_active_sessions env now_ms g)"
| "call_registry env ListHosts g = snd (list_hosts env g)"
| "call_registry env (ConnectionStatus host_id) g = snd (connection_status env host_id g)"

definition run_registry :: "registry_env \<Rightarrow> registry_call list \<Rightarrow> remote_registry \<Rightarrow> remote_registry" where
  "run_registry env calls = fold (call_registry env) calls"

lemma upsert_input_call:
  "snd (upsert_host_input env input g) =
     (case host_config_from_input input of Ok config \<Rightarrow> snd (upsert_host env config g) | _ \<Rightarrow> g)"
  by (auto simp: upsert_host_input_def bind_def seq_def lift_def gets_def split: outcome.splits prod.splits)

lemma list_hosts_keeps: "rg_hosts (snd (list_hosts env g)) = rg_hosts g" "rg_repository (snd (list_hosts env g)) = rg_repository g"
  by (simp_all add: list_hosts_def Let_def split: prod.splits)

lemma status_keeps:
  "rg_hosts (snd (connection_status env host_id g)) = rg_hosts g"
  "rg_repository (snd (connection_status env host_id g)) = rg_repository g"
  by (simp_all add: connection_status_def Let_def split: option.splits)

lemma keeps_hosts_stores: "keeps_hosts m \<Longrightarrow> hosts_stored env (snd (m g)) = hosts_stored env g"
  using hosts_stored_keep [of "snd (m g)" g env] by (simp add: keeps_hosts_def)

lemma call_stores:
  assumes "host_json_faithful env" "hosts_stored env g"
  shows "hosts_stored env (call_registry env call g)"
proof (cases call)
  case (UpsertHostInput input)
  with assms show ?thesis by (simp add: upsert_input_call upsert_stores split: outcome.splits)
next
  case (PollSessions now_ms)
  with assms(2) poll_keeps_hosts [of env now_ms g] hosts_stored_keep show ?thesis by (metis call_registry.simps(6))
next
  case ListHosts
  with assms(2) list_hosts_keeps [of env g] hosts_stored_keep show ?thesis by (metis call_registry.simps(7))
next
  case (ConnectionStatus host_id)
  with assms(2) status_keeps [of env host_id g] hosts_stored_keep show ?thesis by (metis call_registry.simps(8))
qed (use assms in \<open>simp_all add: upsert_stores remove_stores keeps_hosts_stores start_keeps_hosts stop_keeps_hosts\<close>)

lemma run_stores:
  "host_json_faithful env \<Longrightarrow> hosts_stored env g \<Longrightarrow> hosts_stored env (run_registry env calls g)"
  by (induction calls arbitrary: g) (simp_all add: run_registry_def call_stores)

text \<open>
  (C17) The hosts survive a restart. A registry is opened on a database whose table is read and driven through any
  calls, with any failing statement, session or JSON encoding among them; whenever a second registry then reads the
  database the first one leaves, it knows exactly the hosts the first one knew, configuration by configuration.
  The text of a host is assumed to read back as that host.
\<close>

theorem hosts_survive_restart:
  assumes "host_json_faithful env"
    and "distinct (map fst (db_remote_hosts db))" "load_remote_hosts db = (Ok rows, db1)"
    and "g = run_registry env calls (with_config_and_repository env w config (Some db))"
    and "rg_repository g = Some db2" "load_remote_hosts db2 = (Ok rows2, db3)"
  shows "map_of (rg_hosts (with_config_and_repository env w2 config2 (Some db2))) = map_of (rg_hosts g)"
proof -
  have "hosts_stored env g"
    unfolding assms(4) by (rule run_stores [OF assms(1) fresh_registry(1) [OF assms(3,2)]])
  then have "distinct (map fst (db_remote_hosts db2))" "map_of (rg_hosts g) = stored_hosts env db2"
    using assms(5) by (simp_all add: hosts_stored_def)
  with fresh_registry(2) [OF assms(6)] show ?thesis by simp
qed

text \<open>A registry that is given one host, and the database it leaves.\<close>

definition sample_registry_env :: registry_env where
  "sample_registry_env = \<lparr>ge_codec = mute_codec,
     ge_host_to_json = (\<lambda>config. if config = sample_remote_host then Some ''h'' else None),
     ge_host_from_json = (\<lambda>json. if json = ''h'' then Some sample_remote_host else None), ge_json_error = [],
     ge_core_error_text = (\<lambda>_. []), ge_exec_error_text = (\<lambda>_. []), ge_debug_target = (\<lambda>_. []), ge_probe = (\<lambda>_. True),
     ge_files = (\<lambda>_. None), ge_sha = id, ge_order = id, ge_now_ms = 5\<rparr>"

definition sample_hosts_db :: "(string \<times> string \<times> int) list \<Rightarrow> sqlite_db" where
  "sample_hosts_db rows = \<lparr>db_sessions = [], db_events = [], db_settings = [], db_integrations = [], db_buckets = [],
     db_idempotency = [], db_remote_hosts = rows, db_faults = []\<rparr>"

abbreviation sample_registry_config :: remote_registry_config where
  "sample_registry_config \<equiv> new_registry_config ''ssh'' ''scp'' ''relay''"

abbreviation no_spawns :: spawn_world where
  "no_spawns \<equiv> \<lparr>sw_answers = [], sw_commands = []\<rparr>"

lemma sample_hosts_load:
  "load_remote_hosts (sample_hosts_db rows) = (Ok (map (\<lambda>(k, config, _). (k, config)) (sort_key fst rows)), sample_hosts_db rows)"
  by (simp add: load_remote_hosts_def query_def statement_def sample_hosts_db_def)

lemma sample_registry_run:
  "run_registry sample_registry_env [UpsertHost sample_remote_host, ListHosts]
     (with_config_and_repository sample_registry_env no_spawns sample_registry_config (Some (sample_hosts_db []))) =
   \<lparr>rg_sessions = [], rg_world = no_spawns, rg_hosts = [(''host'', sample_remote_host)], rg_config = sample_registry_config,
    rg_repository = Some (sample_hosts_db [(''host'', ''h'', 5)]), rg_watch = [], rg_ssh_present = Some True,
    rg_scp_present = Some True\<rparr>"
proof -
  have id: "hc_id sample_remote_host = ''host''" by (simp add: sample_remote_host_def)
  have up: "upsert_remote_host ''host'' ''h'' 5 (sample_hosts_db []) = (Ok (), sample_hosts_db [(''host'', ''h'', 5)])"
    by (simp add: upsert_remote_host_def execute_def statement_def sample_hosts_db_def)
  show ?thesis
    by (simp add: run_registry_def with_config_and_repository_def load_persisted_hosts_def refresh_executable_probes_def
        sample_hosts_load load_rows_def upsert_host_def sample_remote_host_valid persist_host_def on_repository_def seq_def
        bind_def modify_def id sample_registry_env_def up list_hosts_def Let_def relay_manager_snapshots_def)
qed

theorem hosts_survive_restart_witness:
  "map_of (rg_hosts (with_config_and_repository sample_registry_env no_spawns sample_registry_config
     (Some (sample_hosts_db [(''host'', ''h'', 5)])))) = [''host'' \<mapsto> sample_remote_host]"
proof -
  note run = sample_registry_run
  have codec: "host_json_faithful sample_registry_env"
    by (simp add: host_json_faithful_def sample_registry_env_def)
  have keys: "distinct (map fst (db_remote_hosts (sample_hosts_db [])))" by (simp add: sample_hosts_db_def)
  have repo: "rg_repository (run_registry sample_registry_env [UpsertHost sample_remote_host, ListHosts]
     (with_config_and_repository sample_registry_env no_spawns sample_registry_config (Some (sample_hosts_db [])))) =
     Some (sample_hosts_db [(''host'', ''h'', 5)])" by (simp add: run)
  from hosts_survive_restart [OF codec keys sample_hosts_load refl repo sample_hosts_load]
  show ?thesis by (simp add: run)
qed

section \<open>Polling\<close>

text \<open>
  A relay that ends while the watch saw it streaming is scheduled twice by the same poll: once where the end is
  received and once where the change of state is reported, so the first delay is the one of a second attempt.
\<close>

lemma ended_relay_scheduled_twice:
  assumes "take_session_snapshot t (pe_session e) = (snap, s)" "snap_state snap = Streaming"
    and "wt_last_connection_state (pe_watch e) = ViewStreaming"
    and "relay_session_receive t (s, pe_world e) = (Ok None, (s', w))"
    and "take_session_snapshot t s' = (snap', s'')" "snap_state snap' = Disconnected"
  shows "pe_watch (poll_session t now_ms host_id e) =
     (schedule_reconnect now_ms (schedule_reconnect now_ms (pe_watch e)))\<lparr>wt_last_connection_state := ViewDisconnected\<rparr>"
  using assms by (simp add: poll_session_def poll_receive_def poll_report_def Let_def schedule_reconnect_def)

text \<open>What a tick hands to the host are the events of the poll, each as one step of the host, in their order.\<close>

lemma supervisor_tick_runs:
  "(mc, snd (snd (supervisor_tick env henv now_ms (g, h)))) =
     fold (run_action henv) (map Relay (pl_session_events (fst (poll_active_sessions env now_ms g)))) (mc, h)"
proof -
  have "(mc, fold (\<lambda>event h. attempt (ingest_relay_session_event henv event) h) events h) =
      fold (run_action henv) (map Relay events) (mc, h)" for events h
    by (induction events arbitrary: h) simp_all
  then show ?thesis by (simp add: supervisor_tick_def split: prod.splits)
qed

end
