(* ===== verification/Spec2Isabelle.thy ===== *)
theory Spec2Isabelle
  imports Sample_Run Metrics_Sampler Decision_Progress Ipc_Client Host_Runs Connector_Install Connector_Health Remote_Stream Remote_Registry
begin

text \<open>
  LLM Notch: a verification library for the Rust core of the desktop monitor.

  \<^bold>\<open>The program.\<close> Agents (Cursor, Claude Code, Codex, \<dots>) report through hooks; the core
  (\<^verbatim>\<open>crates/notch-core\<close>) turns the reports into sessions, keeps them in a registry, writes every
  change through to SQLite, evaluates alerts and emits a numbered stream of frames to the
  windows of the desktop host.

  \<^bold>\<open>Theories.\<close>
  \<^item> \<open>Notch_Prelude\<close>: outcomes of Rust calls (\<open>Ok\<close>, \<open>Err\<close>, panic), state-passing operations with early
    returns that keep what was already written, fixed-width integers, IEEE values, UTF-8 strings,
    hash maps with an unspecified iteration order.
  \<^item> \<open>Protocol_Types\<close> and \<open>Core_Domain\<close>: the data of \<^verbatim>\<open>notch-protocol\<close> and of \<^verbatim>\<open>notch-core/src/domain\<close>.
  \<^item> \<open>Notch_Interfaces\<close>: the contracts several components share (a keyed store, a bounded log).
  \<^item> \<open>Session_Registry\<close> (\<^verbatim>\<open>registry.rs\<close>), \<open>Alert_Evaluator\<close> (\<^verbatim>\<open>alerts.rs\<close>), \<open>Stream_Buffers\<close>
    (\<^verbatim>\<open>stream.rs\<close>): the in-memory parts of the core, one definition per method.
  \<^item> \<open>Sqlite_Repository\<close> (\<^verbatim>\<open>persistence/sqlite.rs\<close>): the tables with the constraints of the schema, one
    definition per statement; \<open>db_faults\<close> schedules which statements fail, so every error path is
    there. \<open>Sqlite_Laws\<close>: what the statements do.
  \<^item> \<open>App_Core\<close> (\<^verbatim>\<open>app_core.rs\<close>, \<^verbatim>\<open>traits.rs\<close>): the orchestrator over any repository.
  \<^item> \<open>Op_Logic\<close>, \<open>Core_Invariant\<close>, \<open>Core_Runs\<close>: a small program logic, the invariant of the core under a
    repository contract (locale \<open>write_through_store\<close>), and runs as interleavings of calls.
  \<^item> \<open>Recovery\<close>: SQLite meets that contract; restarting from what it holds. \<open>Sample_Run\<close>: a concrete run.
  \<^item> \<open>Ordered_Map\<close>, \<open>Ieee_Arith\<close>: \<open>BTreeMap\<close> as a sorted association list, and rounding to 53 bits.
  \<^item> \<open>Process_Graph\<close> (\<^verbatim>\<open>notch-metrics/src/graph.rs\<close>), \<open>Metrics_Aggregate\<close> (\<^verbatim>\<open>aggregate.rs\<close>), \<open>Metrics_Sampler\<close>
    (\<^verbatim>\<open>history.rs\<close>, \<^verbatim>\<open>sysinfo_adapter.rs\<close>, \<^verbatim>\<open>sampler.rs\<close>, \<^verbatim>\<open>lib.rs\<close>): who owns a process, what a session and
    all of them together consume, and the engine's cadence and histories. What \<open>sysinfo\<close> reads from
    the host is an argument.
  \<^item> \<open>Rust_Text\<close>, \<open>Json_Value\<close>: the string operations of the standard library on UTF-8 bytes, and JSON values.
  \<^item> \<open>Claude_Adapter\<close> (\<^verbatim>\<open>notch-adapters/claude-code\<close>): version detection, capabilities, hook responses.
  \<^item> \<open>Decision_Store\<close> (\<^verbatim>\<open>notch-decision/src/store.rs\<close>) and \<open>Decision_Broker\<close> (\<^verbatim>\<open>types.rs\<close>, \<^verbatim>\<open>adapter.rs\<close>,
    \<^verbatim>\<open>broker.rs\<close>): the audit trail and the calls of the broker as tasks whose steps are what happens
    between two lock acquisitions; \<open>perform\<close> interleaves them with spawning and timers.
    \<open>Decision_Safety\<close>: three invariants of every interleaving over one locale (\<open>broker_invariant\<close>);
    \<open>Decision_Progress\<close>: calls return, answers arrive, and the runs in which one is lost.
  \<^item> \<open>Ipc_Wire\<close> (\<^verbatim>\<open>notch-ipc/src/wire.rs\<close>, \<^verbatim>\<open>framing.rs\<close>, \<^verbatim>\<open>limits.rs\<close>), \<open>Ipc_Normalize\<close> (\<^verbatim>\<open>normalize.rs\<close>, \<^verbatim>\<open>collector.rs\<close>),
    \<open>Ipc_Spool\<close> (\<^verbatim>\<open>spool.rs\<close> and the replay of \<^verbatim>\<open>server.rs\<close>), \<open>Ipc_Server\<close> (\<^verbatim>\<open>auth.rs\<close>, \<^verbatim>\<open>security.rs\<close>, \<^verbatim>\<open>rate.rs\<close>, one
    connection of \<^verbatim>\<open>server.rs\<close>), \<open>Ipc_Client\<close> (\<^verbatim>\<open>client.rs\<close>, \<^verbatim>\<open>descriptor.rs\<close>): the way of an event from a hook to
    the host. A stream is a list of pieces and stalls, so \<open>serve_loop\<close> ends because every turn consumes
    input; what the host, the buckets of the limiter and the file system answer is part of the environment.
  \<^item> \<open>Host_State\<close> (\<^verbatim>\<open>src-tauri/src/state.rs\<close>): the desktop host around the core, the metrics engine and the
    broker. \<open>Host_Runs\<close>: what the host does is what its logged calls do to the core, and the composition
    of IPC, core and metrics that follows.
  \<^item> \<open>Rust_Search\<close>: searching in strings. \<open>Connector_Merge\<close> (\<^verbatim>\<open>notch-connectors/src/merge.rs\<close>) and
    \<open>Connector_Adapter\<close> (\<^verbatim>\<open>adapter.rs\<close>): hooks in vendor files of three formats; \<open>Connector_Laws\<close>: the three
    formats meet one contract (locale \<open>config_format\<close>). \<open>Connector_Diff\<close> (\<^verbatim>\<open>diff.rs\<close>).
  \<^item> \<open>Connector_Paths\<close> (\<^verbatim>\<open>path_security.rs\<close>, \<^verbatim>\<open>lock.rs\<close>, \<^verbatim>\<open>atomic.rs\<close>, \<^verbatim>\<open>hash.rs\<close>, \<^verbatim>\<open>error.rs\<close>), \<open>Connector_Apply\<close>
    (\<^verbatim>\<open>journal.rs\<close>, \<^verbatim>\<open>apply.rs\<close>), \<open>Connector_Plan\<close> (\<^verbatim>\<open>plan.rs\<close>, \<^verbatim>\<open>preview.rs\<close>, \<^verbatim>\<open>rollback.rs\<close>, \<^verbatim>\<open>manager.rs\<close>): the edits of
    those files. A disk is a map from paths to bytes with a schedule \<open>cd_faults\<close> of failing calls; links,
    hashes, UUIDs and clocks are answers of the environment \<open>fs_env\<close>, JSON text of \<open>text_env\<close>.
    \<open>Connector_Effects\<close>: which operations write at all and where; \<open>Connector_Rollback\<close>: atomicity and the way
    back; \<open>Connector_Progress\<close>: runs without failures; \<open>Connector_Install\<close>: what a preview plans.
  \<^item> \<open>Agent_Catalog\<close> (\<^verbatim>\<open>notch-agent-catalog/src/lib.rs\<close>): the catalogue of agents and its lookups; \<open>Connector_Health\<close>
    (\<^verbatim>\<open>executable.rs\<close>, \<^verbatim>\<open>process_scan.rs\<close>, \<^verbatim>\<open>detect.rs\<close>, \<^verbatim>\<open>health.rs\<close>): detection of agents and the status shown.
  \<^item> \<open>Remote_Protocol\<close> (\<^verbatim>\<open>notch-remote/src/protocol.rs\<close>, \<^verbatim>\<open>hook_ingest.rs\<close>, \<^verbatim>\<open>config.rs\<close>, \<^verbatim>\<open>reconnect.rs\<close>),
    \<open>Remote_Relay\<close> (\<^verbatim>\<open>event_spool.rs\<close>, \<^verbatim>\<open>bin/llm-notch-relay.rs\<close>): the relay as three threads over two channels;
    \<open>Remote_Session\<close> (\<^verbatim>\<open>transport.rs\<close>, \<^verbatim>\<open>session.rs\<close>): the desktop's end, over the contract \<open>relay_transport\<close>;
    \<open>Remote_Stream\<close>: relay and desktop together; \<open>Remote_Deploy\<close> (\<^verbatim>\<open>deploy.rs\<close>, \<^verbatim>\<open>relay_artifact.rs\<close>,
    \<^verbatim>\<open>deploy_exec.rs\<close>): the relay's way onto a host; \<open>Remote_Registry\<close> (\<^verbatim>\<open>src-tauri/src/services/remote.rs\<close>,
    \<^verbatim>\<open>remote_supervisor.rs\<close>): hosts, their storage, and the poll that feeds the host state.

  \<^bold>\<open>What is shown.\<close> Each property carries its number in the text before it.
  \<^item> Core: a restart restores what memory held; no call panics; the registry, the stream numbers, the
    bounds of the logs and of the bootstrap hold in every run; rows read back, pages cover the history,
    pruning keeps its retention.
  \<^item> Metrics: reachability of the process search, nearest owner, each process counted once, bounds.
  \<^item> Decisions: only what a user answered reaches a hook, the audit trail never claims more, at most one
    answer per registration, calls end, late answers are refused.
  \<^item> Transport: frames survive any cut of the stream, unauthenticated peers change nothing, an
    acknowledgement follows acceptance, the spool is bounded, ordered and loses nothing unaccepted; client
    and server together deliver.
  \<^item> Host: the composition keeps all of this, accepted events are recorded, only live roots are sampled.
  \<^item> Connectors: applying is atomic and confined under every schedule of failures, a rollback gives the
    bytes back, valid plans are applied, plans are used once, foreign entries survive, a second preview is
    empty, and the printed diff is the change.
  \<^item> Remote: the desktop receives exactly the frames a relay wrote, in increasing order across reconnects;
    reconnecting ends; only a verified binary is activated; the configured hosts survive a restart.

  \<^bold>\<open>Bounds and fuel.\<close> Integers keep the width of the code where it matters (\<open>wrap_u64\<close>, \<open>sat_i64\<close>, \<open>in_i64\<close>).
  No model uses fuel: every loop is a total function, by structure or by a measure (the rest of a stream, the
  rows of a table, the length of a path), and the broker's loops are steps of a relation with a rank.

  \<^bold>\<open>Not modelled.\<close> SQL parsing and page layout of SQLite, sockets and operating-system bindings, the Tauri
  shell with its windows and tray, the spawning of SSH, audio and quota readers, the enumeration of the
  system's processes (a parameter of the scan), and the \<open>cfg(windows)\<close> branches: they are input and output around the logic
  above or code that cannot be read here.
\<close>

section \<open>Properties that span the core and its repository\<close>

text \<open>
  C1: crash recovery. Start the core on a well-formed SQLite database, let it run through any
  interleaving of calls that all succeed, stop it between two calls and start it again on the
  database it left behind: the second start restores exactly the sessions the first one had in
  memory, with every field but the transient latest metric; and the database is well formed
  again, so the argument repeats for every later restart.
\<close>

theorem restart_recovers_sessions:
  assumes "iteration_order (env_order cenv)" and "scans (scan_sessions env)"
    and "terminal_json_faithful env" and "well_formed_db env db"
    and boot: "app_core_new (sqlite_repository env) settings db = (Ok a, d)"
    and run: "core_run_ok pid_fits (sqlite_repository env) cenv a b"
    and reboot: "app_core_new (sqlite_repository env) settings' (a_repository b) = (Ok c, d')"
  shows "(\<forall>i. map_option essence (reg_get (a_registry c) i) = map_option essence (reg_get (a_registry b) i)) \<and>
    well_formed_db env (a_repository b)"
proof -
  have good: "sqlite.good env b"
    using sqlite.run_ok_good [OF assms(1) run start_good [OF boot assms(4,2)]] .
  note wf = good_well_formed [OF good assms(3)]
  from restart_sessions [OF wf(2) _ _ assms(2) reboot] wf(1) show ?thesis
    by (simp add: well_formed_db_def)
qed

theorem restart_recovers_sessions_witness:
  "(\<forall>i. map_option essence (reg_get (held calm_sample) i) =
        map_option essence (reg_get (a_registry after_ack) i)) \<and>
   well_formed_db plain_env (a_repository after_ack)"
proof -
  have "core_run_ok pid_fits (sqlite_repository plain_env) sample_cenv (holding stored_sample) after_ack"
    by (rule core_run_ok.call_ok [OF core_run_ok.start_ok ack_admissible ack_run])
  moreover have "app_core_new (sqlite_repository plain_env) sample_settings (a_repository after_ack) =
      (Ok (holding calm_sample), one_db calm_sample)"
    using boot_one [of calm_sample] by (simp add: after_ack_def holding_def)
  ultimately show ?thesis
    using restart_recovers_sessions [OF sample_order plain_scans plain_faithful one_db_well_formed boot_one]
    by (fastforce simp: holding_def)
qed

text \<open>
  C2: the core never panics. From any state reached from a state with the core invariant, with
  any repository that does not panic itself, no call panics, whatever it is and whatever
  outcome the calls before it had; in particular none of the \<open>expect\<close>s on borrowed sessions
  fails. The one condition on the calls is that the hashed id of a session to be started is not
  the id of another one.
\<close>

theorem core_never_panics:
  assumes "repo_safe repo" and "iteration_order (env_order env)" and "core_inv a"
    and "core_run (\<lambda>_. True) repo env a b" and "call_admissible (\<lambda>_. True) env c b"
  shows "fst (run_call repo env c b) \<noteq> Panic p"
proof
  assume "fst (run_call repo env c b) = Panic p"
  then have "run_call repo env c b = (Panic p, snd (run_call repo env c b))"
    by (metis prod.collapse)
  moreover have "core_inv b" by (rule core_run_inv [OF assms(1,2,4,3)])
  ultimately show False
    using sound_Panic [OF run_call_sound [OF assms(1,2)], of b c] assms(5) by simp
qed

theorem core_never_panics_witness:
  "fst (run_call (sqlite_repository plain_env) sample_cenv ack_sample after_ack) \<noteq> Panic ''stale session''"
  by (rule core_never_panics [OF sqlite_safe sample_order holding_inv ack_core_run ack_admissible])

text \<open>
  C3: the registry stays consistent. In every reachable state, errors on the way included, the
  capacity holds, a lookup by external key finds a session with that key and id, every session
  is found by its own key, and event logs belong to live sessions and stay within their bound.
\<close>

theorem registry_consistent_in_every_run:
  assumes "repo_safe repo" and "iteration_order (env_order env)" and "core_inv a"
    and "core_run (\<lambda>_. True) repo env a b"
  shows "reg_len (a_registry b) \<le> MAX_SESSIONS \<and>
    (\<forall>src ext s. resolve_external (a_registry b) src ext = Some s \<longleftrightarrow>
       reg_get (a_registry b) (s_id s) = Some s \<and> s_source s = src \<and> s_external_session_id s = ext) \<and>
    (\<forall>i e. e \<in> set (events_for (a_registry b) i) \<longrightarrow>
       e_session_id e = i \<and> reg_get (a_registry b) i \<noteq> None) \<and>
    (\<forall>i. length (events_for (a_registry b) i) \<le> MAX_EVENTS_PER_SESSION)"
proof -
  have inv: "reg_inv (a_registry b)"
    using core_run_inv [OF assms(1,2,4,3)] by (simp add: core_inv_def)
  have "e_session_id e = i \<and> reg_get (a_registry b) i \<noteq> None" if "e \<in> set (events_for (a_registry b) i)" for i e
    using that reg_inv_log [OF inv, of i] log_ok_events_for [OF inv, of i]
    by (auto simp: events_for_def reg_get_def log_ok_def split: option.splits)
  with inv show ?thesis
    using log_ok_events_for [OF inv] resolve_external_Some [OF inv]
    by (simp add: reg_len_def reg_inv_cap log_ok_def)
qed

theorem registry_consistent_in_every_run_witness:
  "reg_len (a_registry after_ack) \<le> MAX_SESSIONS \<and>
   resolve_external (a_registry after_ack) Qwen ''x'' = Some calm_sample"
  using registry_consistent_in_every_run [OF sqlite_safe sample_order holding_inv ack_core_run]
  by (simp add: after_ack_def holding_def held_def reg_get_def calm_sample_def stored_sample_def)

text \<open>
  C4: the stream has no gap and no repetition. Whatever calls a core makes from its start,
  successful or not, the frames it has emitted are numbered 1, 2, 3, \<dots> in the order they were
  emitted, and the stream sequence that a snapshot reports is the number of the last one. (The
  counter is a \<open>u64\<close>; the bound says it has not wrapped.)
\<close>

theorem stream_numbered_without_gaps:
  assumes "repo_safe repo" and "iteration_order (env_order env)" and "core_inv a"
    and "core_run (\<lambda>_. True) repo env a b" and "length (a_stream b) < 2 ^ 64"
  shows "map f_sequence (a_stream b) = [1..<Suc (length (a_stream b))] \<and>
    sw_sequence (snapshot_with_sequence env now b) = length (a_stream b)"
proof -
  have ok: "stream_ok b" using core_run_inv [OF assms(1,2,4,3)] by (simp add: core_inv_def)
  have "map (\<lambda>n. wrap_u64 (Suc n)) [0..<length (a_stream b)] = map Suc [0..<length (a_stream b)]"
    using assms(5) by (intro map_cong) (auto intro: wrap_u64_id)
  also have "\<dots> = [1..<Suc (length (a_stream b))]" by (simp add: map_Suc_upt)
  finally show ?thesis
    using ok assms(5) by (simp add: stream_ok_def snapshot_with_sequence_def)
qed

theorem stream_numbered_without_gaps_witness:
  "map f_sequence (a_stream after_ack) = [1] \<and>
   sw_sequence (snapshot_with_sequence sample_cenv 30 after_ack) = 1"
  using stream_numbered_without_gaps [OF sqlite_safe sample_order holding_inv ack_core_run, of 30]
  by (simp add: after_ack_def)

end
